(* ===== verification/MG_Prelude.thy ===== *)
theory MG_Prelude
  imports Main
begin

section \<open>Shared collections and lemmas\<close>

text \<open>
  What the components of the development share: the theorem collections their proofs are
  carried by, and generic facts on lists, runs of equal keys and intervals that HOL's
  library does not state in the form needed here.
\<close>

named_theorems rect_defs \<open>definitions of the rectangle operations\<close>
named_theorems rect_sets \<open>the set of points of a rectangle built by an operation\<close>
named_theorems band_simps \<open>the horizontal extent and shape of a band of rectangles\<close>
named_theorems rgn_defs \<open>definitions of the region operations\<close>

type_synonym point = "int \<times> int"

subsection \<open>Lists\<close>

lemma sorted_wrt_snoc:
  "sorted_wrt P (xs @ [x]) \<longleftrightarrow> sorted_wrt P xs \<and> (\<forall>y \<in> set xs. P y x)"
  by (simp add: sorted_wrt_append)

lemma takeWhile_all: "(\<forall>x \<in> set xs. P x) \<Longrightarrow> takeWhile P xs = xs"
  by (induction xs) auto

lemma length_dropWhile_hd: "P x \<Longrightarrow> length (dropWhile P (x # xs)) < Suc (length xs)"
  by (simp add: length_dropWhile_le less_Suc_eq_le)

lemma length_takeWhile_nth:
  "i < length (takeWhile P xs) \<Longrightarrow> P (xs ! i)"
  by (metis nth_mem set_takeWhileD takeWhile_nth)

lemma set_take_drop: "set xs = set (take n xs) \<union> set (drop n xs)"
  by (metis append_take_drop_id set_append)

text \<open>Dropping the leading run of the least key from a list sorted by key drops every such element.\<close>

lemma dropWhile_least_key:
  fixes k :: "'a \<Rightarrow> 'b :: linorder"
  assumes "sorted_wrt (\<lambda>r s. k r \<le> k s) xs" and "\<forall>x \<in> set xs. t \<le> k x"
    and "s \<in> set (dropWhile (\<lambda>x. k x = t) xs)"
  shows "t < k s"
  using assms
proof (induction xs)
  case (Cons a xs)
  show ?case
  proof (cases "k a = t")
    case True
    with Cons show ?thesis by simp
  next
    case False
    with Cons.prems have "t < k a" "s = a \<or> k a \<le> k s" by (auto simp: less_le)
    then show ?thesis by auto
  qed
qed simp

lemma take_last_two: "length xs = p + 2 \<Longrightarrow> take p xs @ [xs ! p, last xs] = xs"
proof -
  assume l: "length xs = p + 2"
  then have "drop p xs = [xs ! p, xs ! Suc p]"
    by (simp add: Cons_nth_drop_Suc [symmetric])
  moreover have "last xs = xs ! Suc p" using l by (cases xs rule: rev_cases) (auto simp: nth_append)
  ultimately show ?thesis by (metis append_take_drop_id)
qed

end
