(* ===== verification/Rect.thy ===== *)
theory Rect
  imports MG_Prelude
begin

section \<open>Rectangles (src/newgdi/rect.c, include/gdi.h)\<close>

text \<open>
  A \<open>RECT\<close> is four C ints; the operations only compare and copy coordinates, except
  \<open>OffsetRect\<close> and \<open>InflateRect\<close>, which add to them.  Coordinates are \<open>int\<close>: the
  additions are modelled where they do not overflow, which C leaves undefined.  A function
  that writes through a pointer returns the rectangle written; one that also returns BOOL
  returns the pair.  The meaning of a rectangle is its set of points, right and bottom
  sides excluded (\<open>rect_pts\<close>).
\<close>

record rect =
  rleft :: int
  rtop :: int
  rright :: int
  rbottom :: int

abbreviation mk_rect :: "int \<Rightarrow> int \<Rightarrow> int \<Rightarrow> int \<Rightarrow> rect" where
  "mk_rect l t r b \<equiv> \<lparr>rleft = l, rtop = t, rright = r, rbottom = b\<rparr>"

definition SetRect :: "rect \<Rightarrow> int \<Rightarrow> int \<Rightarrow> int \<Rightarrow> int \<Rightarrow> rect" where
  [rect_defs]: "SetRect prc l t r b = prc\<lparr>rleft := l, rtop := t, rright := r, rbottom := b\<rparr>"

definition SetRectEmpty :: "rect \<Rightarrow> rect" where
  [rect_defs]: "SetRectEmpty prc = prc\<lparr>rleft := 0, rtop := 0, rright := 0, rbottom := 0\<rparr>"

definition OffsetRect :: "rect \<Rightarrow> int \<Rightarrow> int \<Rightarrow> rect" where
  [rect_defs]: "OffsetRect prc x y =
     prc\<lparr>rleft := rleft prc + x, rtop := rtop prc + y,
         rright := rright prc + x, rbottom := rbottom prc + y\<rparr>"

definition InflateRect :: "rect \<Rightarrow> int \<Rightarrow> int \<Rightarrow> rect" where
  [rect_defs]: "InflateRect prc cx cy =
     prc\<lparr>rleft := rleft prc - cx, rtop := rtop prc - cy,
         rright := rright prc + cx, rbottom := rbottom prc + cy\<rparr>"

definition InflateRectToPt :: "rect \<Rightarrow> int \<Rightarrow> int \<Rightarrow> rect" where
  [rect_defs]: "InflateRectToPt prc x y =
     (let prc = (if x < rleft prc then prc\<lparr>rleft := x\<rparr> else prc);
          prc = (if y < rtop prc then prc\<lparr>rtop := y\<rparr> else prc);
          prc = (if x > rright prc then prc\<lparr>rright := x\<rparr> else prc)
      in if y > rbottom prc then prc\<lparr>rbottom := y\<rparr> else prc)"

definition PtInRect :: "rect \<Rightarrow> int \<Rightarrow> int \<Rightarrow> bool" where
  [rect_defs]: "PtInRect prc x y \<longleftrightarrow>
     x \<ge> rleft prc \<and> x < rright prc \<and> y \<ge> rtop prc \<and> y < rbottom prc"

definition IsRectEmpty :: "rect \<Rightarrow> bool" where
  [rect_defs]: "IsRectEmpty prc =
     (if rleft prc = rright prc then True
      else if rtop prc = rbottom prc then True else False)"

definition EqualRect :: "rect \<Rightarrow> rect \<Rightarrow> bool" where
  [rect_defs]: "EqualRect prc1 prc2 =
     (if rleft prc1 \<noteq> rleft prc2 then False
      else if rtop prc1 \<noteq> rtop prc2 then False
      else if rright prc1 \<noteq> rright prc2 then False
      else if rbottom prc1 \<noteq> rbottom prc2 then False
      else True)"

definition NormalizeRect :: "rect \<Rightarrow> rect" where
  [rect_defs]: "NormalizeRect pRect =
     (let pRect = (if rleft pRect > rright pRect
                   then pRect\<lparr>rleft := rright pRect, rright := rleft pRect\<rparr> else pRect)
      in if rtop pRect > rbottom pRect
         then pRect\<lparr>rtop := rbottom pRect, rbottom := rtop pRect\<rparr> else pRect)"

definition IsCovered :: "rect \<Rightarrow> rect \<Rightarrow> bool" where
  [rect_defs]: "IsCovered prc1 prc2 =
     (if rleft prc1 < rleft prc2 \<or> rtop prc1 < rtop prc2
         \<or> rright prc1 > rright prc2 \<or> rbottom prc1 > rbottom prc2
      then False else True)"

definition IntersectRect :: "rect \<Rightarrow> rect \<Rightarrow> bool \<times> rect" where
  [rect_defs]: "IntersectRect psrc1 psrc2 =
     (let d = mk_rect
            (if rleft psrc1 > rleft psrc2 then rleft psrc1 else rleft psrc2)
            (if rtop psrc1 > rtop psrc2 then rtop psrc1 else rtop psrc2)
            (if rright psrc1 < rright psrc2 then rright psrc1 else rright psrc2)
            (if rbottom psrc1 < rbottom psrc2 then rbottom psrc1 else rbottom psrc2)
      in (if rleft d \<ge> rright d \<or> rtop d \<ge> rbottom d then False else True, d))"

definition DoesIntersect :: "rect \<Rightarrow> rect \<Rightarrow> bool" where
  [rect_defs]: "DoesIntersect psrc1 psrc2 =
     (let l = (if rleft psrc1 > rleft psrc2 then rleft psrc1 else rleft psrc2);
          t = (if rtop psrc1 > rtop psrc2 then rtop psrc1 else rtop psrc2);
          r = (if rright psrc1 < rright psrc2 then rright psrc1 else rright psrc2);
          b = (if rbottom psrc1 < rbottom psrc2 then rbottom psrc1 else rbottom psrc2)
      in if l \<ge> r \<or> t \<ge> b then False else True)"

text \<open>\<open>UnionRect\<close> leaves \<open>*pdrc\<close> alone when it returns FALSE, so \<open>pdrc\<close> is a parameter.\<close>

definition UnionRect :: "rect \<Rightarrow> rect \<Rightarrow> rect \<Rightarrow> bool \<times> rect" where
  [rect_defs]: "UnionRect pdrc psrc1 psrc2 =
     (let src1 = NormalizeRect psrc1; src2 = NormalizeRect psrc2 in
      if rleft src1 = rleft src2 \<and> rright src1 = rright src2 then
        (if rtop src1 \<le> rtop src2 \<and> rtop src2 \<le> rbottom src1 then
           (True, pdrc\<lparr>rleft := rleft src1, rright := rright src1, rtop := rtop src1,
                       rbottom := max (rbottom src1) (rbottom src2)\<rparr>)
         else if rtop src1 \<ge> rtop src2 \<and> rbottom src2 \<ge> rtop src1 then
           (True, pdrc\<lparr>rleft := rleft src1, rright := rright src1, rtop := rtop src2,
                       rbottom := max (rbottom src1) (rbottom src2)\<rparr>)
         else (False, pdrc))
      else if rtop src1 = rtop src2 \<and> rbottom src1 = rbottom src2 then
        (if rleft src1 \<le> rleft src2 \<and> rleft src2 \<le> rright src1 then
           (True, pdrc\<lparr>rtop := rtop src1, rbottom := rbottom src1, rleft := rleft src1,
                       rright := max (rright src1) (rright src2)\<rparr>)
         else if rleft src1 \<ge> rleft src2 \<and> rright src2 \<ge> rleft src1 then
           (True, pdrc\<lparr>rtop := rtop src1, rbottom := rbottom src1, rleft := rleft src2,
                       rright := max (rright src1) (rright src2)\<rparr>)
         else (False, pdrc))
      else (False, pdrc))"

definition GetBoundRect :: "rect \<Rightarrow> rect \<Rightarrow> rect" where
  [rect_defs]: "GetBoundRect psrc1 psrc2 =
     (let src1 = NormalizeRect psrc1; src2 = NormalizeRect psrc2 in
      mk_rect
        (if rleft src1 < rleft src2 then rleft src1 else rleft src2)
        (if rtop src1 < rtop src2 then rtop src1 else rtop src2)
        (if rright src1 > rright src2 then rright src1 else rright src2)
        (if rbottom src1 > rbottom src2 then rbottom src1 else rbottom src2))"

text \<open>
  \<open>SubtractRect\<close> fills an array and returns the number of entries: the model returns the
  list of the entries written, in the order they are written.  \<open>src\<close> shrinks on the way.
\<close>

definition SubtractRect :: "rect \<Rightarrow> rect \<Rightarrow> rect list" where
  [rect_defs]: "SubtractRect psrc1 psrc2 =
     (let src = psrc1; ex = psrc2 in
      if \<not> DoesIntersect src ex then [src]
      else
        let rc1 = (if rtop ex > rtop src
                   then [mk_rect (rleft src) (rtop src) (rright src) (rtop ex)] else []);
            src = (if rtop ex > rtop src then src\<lparr>rtop := rtop ex\<rparr> else src);
            rc2 = (if rbottom ex < rbottom src
                   then [mk_rect (rleft src) (rbottom ex) (rright src) (rbottom src)] else []);
            src = (if rbottom ex < rbottom src then src\<lparr>rbottom := rbottom ex\<rparr> else src);
            rc3 = (if rleft ex > rleft src
                   then [mk_rect (rleft src) (rtop src) (rleft ex) (rbottom src)] else []);
            rc4 = (if rright ex < rright src
                   then [mk_rect (rright ex) (rtop src) (rright src) (rbottom src)] else [])
        in rc1 @ rc2 @ rc3 @ rc4)"

subsection \<open>Points of a rectangle\<close>

definition rect_pts :: "rect \<Rightarrow> point set" where
  "rect_pts r = {(x, y). rleft r \<le> x \<and> x < rright r \<and> rtop r \<le> y \<and> y < rbottom r}"

definition rect_ok :: "rect \<Rightarrow> bool" where
  "rect_ok r \<longleftrightarrow> rleft r < rright r \<and> rtop r < rbottom r"

lemma in_rect_pts [simp]:
  "(x, y) \<in> rect_pts r \<longleftrightarrow> rleft r \<le> x \<and> x < rright r \<and> rtop r \<le> y \<and> y < rbottom r"
  by (simp add: rect_pts_def)

lemma PtInRect_pts: "PtInRect r x y \<longleftrightarrow> (x, y) \<in> rect_pts r"
  by (auto simp: PtInRect_def)

lemma rect_pts_empty: "rect_pts r = {} \<longleftrightarrow> \<not> rect_ok r"
proof
  assume "rect_pts r = {}"
  then have "(rleft r, rtop r) \<notin> rect_pts r" by simp
  then show "\<not> rect_ok r" by (auto simp: rect_ok_def)
qed (auto simp: rect_ok_def rect_pts_def)

lemma NormalizeRect_ordered:
  "rleft (NormalizeRect r) = min (rleft r) (rright r)"
  "rright (NormalizeRect r) = max (rleft r) (rright r)"
  "rtop (NormalizeRect r) = min (rtop r) (rbottom r)"
  "rbottom (NormalizeRect r) = max (rtop r) (rbottom r)"
  by (simp_all add: NormalizeRect_def Let_def)

lemma NormalizeRect_ok: "rect_ok r \<Longrightarrow> NormalizeRect r = r"
  by (simp add: NormalizeRect_def rect_ok_def Let_def)

lemma IntersectRect_pts [rect_sets]:
  "rect_pts (snd (IntersectRect r s)) = rect_pts r \<inter> rect_pts s"
  by (auto simp: IntersectRect_def rect_pts_def Let_def)

lemma fst_IntersectRect: "fst (IntersectRect r s) \<longleftrightarrow> rect_ok (snd (IntersectRect r s))"
  by (auto simp: IntersectRect_def rect_ok_def Let_def)

lemma OffsetRect_pts [rect_sets]:
  "(x, y) \<in> rect_pts (OffsetRect r dx dy) \<longleftrightarrow> (x - dx, y - dy) \<in> rect_pts r"
  by (auto simp: OffsetRect_def)

lemma DoesIntersect_eq: "DoesIntersect r s = fst (IntersectRect r s)"
  by (simp add: DoesIntersect_def IntersectRect_def Let_def)

lemma DoesIntersect_pts: "DoesIntersect r s \<longleftrightarrow> rect_pts r \<inter> rect_pts s \<noteq> {}"
  by (simp add: DoesIntersect_eq fst_IntersectRect rect_pts_empty flip: IntersectRect_pts)

lemma DoesIntersect_cmp:
  "DoesIntersect r s \<longleftrightarrow>
     rleft r < rright s \<and> rleft s < rright r \<and> rtop r < rbottom s \<and> rtop s < rbottom r
     \<and> rect_ok r \<and> rect_ok s"
  by (auto simp: DoesIntersect_def rect_ok_def Let_def)

lemma IsCovered_pts:
  assumes "rect_ok r"
  shows "IsCovered r s \<longleftrightarrow> rect_pts r \<subseteq> rect_pts s"
proof
  assume sub: "rect_pts r \<subseteq> rect_pts s"
  have "(rleft r, rtop r) \<in> rect_pts r" "(rright r - 1, rbottom r - 1) \<in> rect_pts r"
    using assms by (auto simp: rect_ok_def)
  then have "(rleft r, rtop r) \<in> rect_pts s" "(rright r - 1, rbottom r - 1) \<in> rect_pts s"
    using sub by blast+
  then show "IsCovered r s" by (simp add: IsCovered_def)
qed (auto simp: IsCovered_def split: if_splits)

lemma SubtractRect_point:
  assumes "DoesIntersect r s"
  shows "(\<exists>p \<in> set (SubtractRect r s). (x, y) \<in> rect_pts p)
    \<longleftrightarrow> (x, y) \<in> rect_pts r \<and> (x, y) \<notin> rect_pts s"
  using assms
  by (cases "rtop s > rtop r"; cases "rbottom s < rbottom r";
      cases "rleft s > rleft r"; cases "rright s < rright r")
    (simp_all add: SubtractRect_def DoesIntersect_cmp rect_ok_def Let_def, linarith+)

lemma SubtractRect_pts:
  "(\<Union>p \<in> set (SubtractRect r s). rect_pts p) = rect_pts r - rect_pts s"
proof (cases "DoesIntersect r s")
  case True
  show ?thesis
    using SubtractRect_point [OF True] by (intro set_eqI) (clarsimp split: prod.splits)
next
  case False
  then show ?thesis
    using DoesIntersect_pts [of r s] by (auto simp: SubtractRect_def)
qed

end
