(* ===== verification/Region.thy ===== *)
theory Region
  imports Rect
begin

section \<open>Clipping regions: the model (src/newgdi/region.c)\<close>

text \<open>
  A \<open>CLIPRGN\<close> is a doubly linked list of clipping rectangles, ordered in y-x bands, with
  its bounding rectangle and a type.  The list is the list of its rectangles from \<open>head\<close> to
  \<open>tail\<close>; both pointers are NULL when it is empty.  A pointer into a source list is the
  suffix that starts there, and the pair (\<open>r\<close>, \<open>rEnd\<close>) a handler gets is the band between
  them.  A pointer into the destination list (\<open>prevBand\<close>, \<open>curBand\<close>) is a position,
  \<open>None\<close> for NULL.  The block heap always yields a node (\<open>ClipRectAlloc\<close> falls back to
  \<open>calloc\<close>, whose failure the code does not check except in \<open>SetClipRgn\<close>, where it is a
  parameter).  Regions live in a store, because the destination of an operation may be one
  of its sources: \<open>Heap n\<close> are the caller's regions, \<open>Local n\<close> those a function keeps on
  its stack.  \<open>OffsetRegionEx\<close> and the
  generator of polygons are not modelled.
\<close>

datatype rgntype = NULLREGION | SIMPLEREGION | COMPLEXREGION

record cliprgn =
  rgn_type :: rgntype
  rcBound :: rect
  rects :: "rect list"

datatype rgn_ref = Heap nat | Local nat

type_synonym rgn_store = "rgn_ref \<Rightarrow> cliprgn"

abbreviation zero_rect :: rect where
  "zero_rect \<equiv> mk_rect 0 0 0 0"

subsection \<open>Tests and simple operations\<close>

definition EXTENTCHECK :: "rect \<Rightarrow> rect \<Rightarrow> bool" where
  [rgn_defs]: "EXTENTCHECK r1 r2 \<longleftrightarrow>
     rright r1 > rleft r2 \<and> rleft r1 < rright r2 \<and> rbottom r1 > rtop r2 \<and> rtop r1 < rbottom r2"

definition INRECT :: "rect \<Rightarrow> int \<Rightarrow> int \<Rightarrow> bool" where
  [rgn_defs]: "INRECT r x y \<longleftrightarrow> rright r > x \<and> rleft r \<le> x \<and> rbottom r > y \<and> rtop r \<le> y"

text \<open>\<open>PtInRegion\<close> reads through \<open>tail\<close> and \<open>head\<close> without a test: \<open>None\<close> is the NULL access.\<close>

definition PtInRegion :: "cliprgn \<Rightarrow> int \<Rightarrow> int \<Rightarrow> bool option" where
  "PtInRegion region x y =
     (if rects region = [] then None
      else if y \<ge> rbottom (last (rects region)) \<or> y < rtop (hd (rects region)) then Some False
      else (case dropWhile (\<lambda>c. y \<ge> rbottom c) (rects region) of
              [] \<Rightarrow> Some False
            | c # cs \<Rightarrow>
                Some (list_ex (\<lambda>r. INRECT r x y) (takeWhile (\<lambda>r. rtop r = rtop c) (c # cs)))))"

fun RectInRegion_loop :: "rect list \<Rightarrow> rect \<Rightarrow> bool" where
  "RectInRegion_loop [] rc = False"
| "RectInRegion_loop (c # cs) rc =
     (if rbottom c \<le> rtop rc then RectInRegion_loop cs rc
      else if rtop c \<ge> rbottom rc then False
      else if rright c \<le> rleft rc then RectInRegion_loop cs rc
      else if rleft c \<ge> rright rc then RectInRegion_loop cs rc
      else True)"

definition RectInRegion :: "cliprgn \<Rightarrow> rect \<Rightarrow> bool" where
  "RectInRegion region rc =
     (if rects region \<noteq> [] \<and> EXTENTCHECK (rcBound region) rc
      then RectInRegion_loop (rects region) rc else False)"

definition InitClipRgn :: "rgn_store \<Rightarrow> rgn_ref \<Rightarrow> rgn_store" where
  [rgn_defs]: "InitClipRgn st r =
     st(r := \<lparr>rgn_type = NULLREGION, rcBound = zero_rect, rects = []\<rparr>)"

definition GetClipRgnBoundRect :: "cliprgn \<Rightarrow> rect" where
  "GetClipRgnBoundRect region = rcBound region"

definition IsEmptyClipRgn :: "cliprgn \<Rightarrow> bool" where
  "IsEmptyClipRgn region \<longleftrightarrow> rects region = []"

definition EmptyClipRgn :: "rgn_store \<Rightarrow> rgn_ref \<Rightarrow> rgn_store" where
  [rgn_defs]: "EmptyClipRgn st r =
     st(r := (st r)\<lparr>rgn_type := NULLREGION, rcBound := SetRectEmpty (rcBound (st r)), rects := []\<rparr>)"

text \<open>\<open>SetClipRgn\<close> with the outcome \<open>ok\<close> of its allocation.\<close>

definition SetClipRgn :: "bool \<Rightarrow> rgn_store \<Rightarrow> rgn_ref \<Rightarrow> rect \<Rightarrow> bool \<times> rgn_store" where
  [rgn_defs]: "SetClipRgn ok st r rc =
     (if IsRectEmpty rc then (False, st)
      else let st = EmptyClipRgn st r in
        if \<not> ok then (False, st)
        else (True, st(r := (st r)\<lparr>rgn_type := SIMPLEREGION, rects := [rc], rcBound := rc\<rparr>)))"

definition ClipRgnCopy :: "rgn_store \<Rightarrow> rgn_ref \<Rightarrow> rgn_ref \<Rightarrow> bool \<times> rgn_store" where
  [rgn_defs]: "ClipRgnCopy st dst src =
     (if dst = src then (False, st)
      else let st = EmptyClipRgn st dst in
        if rects (st src) = [] then (True, st)
        else (True, st(dst := (st dst)\<lparr>rects := rects (st src), rgn_type := rgn_type (st src),
                                       rcBound := rcBound (st src)\<rparr>)))"

definition REGION_SetExtents :: "cliprgn \<Rightarrow> cliprgn" where
  "REGION_SetExtents region =
     (if rects region = [] then region\<lparr>rcBound := zero_rect\<rparr>
      else region\<lparr>rcBound :=
        fold (\<lambda>c b.
            let b = (if rleft c < rleft b then b\<lparr>rleft := rleft c\<rparr> else b)
            in if rright c > rright b then b\<lparr>rright := rright c\<rparr> else b)
          (rects region)
          (mk_rect (rleft (hd (rects region))) (rtop (hd (rects region)))
                   (rright (last (rects region))) (rbottom (last (rects region))))\<rparr>)"

subsection \<open>Coalescing\<close>

definition tail_pos :: "rect list \<Rightarrow> nat option" where
  "tail_pos rs = (if rs = [] then None else Some (length rs - 1))"

definition head_pos :: "rect list \<Rightarrow> nat option" where
  "head_pos rs = (if rs = [] then None else Some 0)"

text \<open>The position of the first rectangle of the last band, found from \<open>tail\<close> backwards.\<close>

definition last_band_start :: "rect list \<Rightarrow> nat" where
  "last_band_start rs =
     length rs - length (takeWhile (\<lambda>r. rtop r = rtop (last rs)) (rev rs))"

text \<open>
  The merge loop: each rectangle of the previous band gets the bottom of its counterpart,
  which is unlinked, so positions after the current band move down by its length.
\<close>

definition merge_bands :: "rect list \<Rightarrow> nat \<Rightarrow> nat \<Rightarrow> nat \<Rightarrow> rect list" where
  "merge_bands rs prev cur n =
     take prev rs
     @ map2 (\<lambda>p c. p\<lparr>rbottom := rbottom c\<rparr>) (take n (drop prev rs)) (take n (drop cur rs))
     @ drop (prev + n) (take cur rs) @ drop (cur + n) rs"

definition REGION_Coalesce :: "rect list \<Rightarrow> nat option \<Rightarrow> nat option \<Rightarrow> rect list \<times> nat option"
  where
  "REGION_Coalesce rs prevStart curStart =
     (let prevStart = (if prevStart = None then head_pos rs else prevStart);
          curStart = (if curStart = None then head_pos rs else curStart)
      in if prevStart = curStart then (rs, prevStart)
      else case (prevStart, curStart) of
        (Some prev, Some cur) \<Rightarrow>
          (let prevNumRects = cur - prev;
               curNumRects = length (takeWhile (\<lambda>r. rtop r = rtop (rs ! cur)) (drop cur rs));
               more = (cur + curNumRects < length rs);
               newStart = (if more then last_band_start rs else cur)
           in if curNumRects = prevNumRects \<and> curNumRects \<noteq> 0
                 \<and> rbottom (rs ! prev) = rtop (rs ! cur)
                 \<and> list_all2 (\<lambda>p c. rleft p = rleft c \<and> rright p = rright c)
                     (take prevNumRects (drop prev rs)) (take curNumRects (drop cur rs))
              then (merge_bands rs prev cur curNumRects,
                    Some (if more then newStart - curNumRects else prev))
              else (rs, Some newStart))
      | _ \<Rightarrow> (rs, prevStart))"

definition coalesce_if_added ::
  "rect list \<Rightarrow> nat option \<Rightarrow> nat option \<Rightarrow> rect list \<times> nat option" where
  "coalesce_if_added rs prevBand curBand =
     (if tail_pos rs \<noteq> curBand then REGION_Coalesce rs prevBand curBand else (rs, prevBand))"

subsection \<open>The band sweep\<close>

type_synonym overlap_fn = "rect list \<Rightarrow> rect list \<Rightarrow> rect list \<Rightarrow> int \<Rightarrow> int \<Rightarrow> rect list"
type_synonym nonoverlap_fn = "rect list \<Rightarrow> rect list \<Rightarrow> int \<Rightarrow> int \<Rightarrow> rect list"

definition cur_band :: "rect list \<Rightarrow> rect list" where
  "cur_band rs = takeWhile (\<lambda>r. rtop r = rtop (hd rs)) rs"

definition after_band :: "rect list \<Rightarrow> rect list" where
  "after_band rs = dropWhile (\<lambda>r. rtop r = rtop (hd rs)) rs"

fun call_nonoverlap ::
  "nonoverlap_fn option \<Rightarrow> rect list \<Rightarrow> rect list \<Rightarrow> int \<Rightarrow> int \<Rightarrow> rect list" where
  "call_nonoverlap None dst band t b = dst"
| "call_nonoverlap (Some f) dst band t b = f dst band t b"

text \<open>First half of the loop body: the band that only one region has, and \<open>ytop\<close>.\<close>

definition nonoverlap_phase ::
  "nonoverlap_fn option \<Rightarrow> nonoverlap_fn option \<Rightarrow> rect list \<Rightarrow> int
    \<Rightarrow> rect list \<Rightarrow> rect list \<Rightarrow> rect list \<times> int" where
  "nonoverlap_phase non1 non2 dst ybot r1s r2s =
     (let r1 = hd r1s; r2 = hd r2s in
      if rtop r1 < rtop r2 then
        (let t = max (rtop r1) ybot; b = min (rbottom r1) (rtop r2)
         in (if t \<noteq> b then call_nonoverlap non1 dst (cur_band r1s) t b else dst, rtop r2))
      else if rtop r2 < rtop r1 then
        (let t = max (rtop r2) ybot; b = min (rbottom r2) (rtop r1)
         in (if t \<noteq> b then call_nonoverlap non2 dst (cur_band r2s) t b else dst, rtop r1))
      else (dst, rtop r1))"

type_synonym sweep = "rect list \<times> nat option \<times> int \<times> rect list \<times> rect list"

definition RegionOp_step ::
  "overlap_fn \<Rightarrow> nonoverlap_fn option \<Rightarrow> nonoverlap_fn option \<Rightarrow> sweep \<Rightarrow> sweep" where
  "RegionOp_step ovl non1 non2 = (\<lambda>(dst, prevBand, ybot, r1s, r2s).
     let curBand = tail_pos dst;
         (dst, ytop) = nonoverlap_phase non1 non2 dst ybot r1s r2s;
         (dst, prevBand) = coalesce_if_added dst prevBand curBand;
         ybot = min (rbottom (hd r1s)) (rbottom (hd r2s));
         curBand = tail_pos dst;
         dst = (if ybot > ytop then ovl dst (cur_band r1s) (cur_band r2s) ytop ybot else dst);
         (dst, prevBand) = coalesce_if_added dst prevBand curBand
     in (dst, prevBand, ybot,
         if rbottom (hd r1s) = ybot then after_band r1s else r1s,
         if rbottom (hd r2s) = ybot then after_band r2s else r2s))"

lemma length_after_band: "rs \<noteq> [] \<Longrightarrow> length (after_band rs) < length rs"
  by (cases rs) (auto simp: after_band_def length_dropWhile_le less_Suc_eq_le)

lemma RegionOp_step_shrinks:
  assumes "RegionOp_step ovl non1 non2 (dst, prevBand, ybot, r1s, r2s) = (d, p, yb, s1, s2)"
    and ne: "r1s \<noteq> []" "r2s \<noteq> []"
  shows "length s1 + length s2 < length r1s + length r2s"
proof -
  let ?yb = "min (rbottom (hd r1s)) (rbottom (hd r2s))"
  have "s1 = (if rbottom (hd r1s) = ?yb then after_band r1s else r1s)"
    "s2 = (if rbottom (hd r2s) = ?yb then after_band r2s else r2s)"
    using assms(1) by (auto simp: RegionOp_step_def Let_def split: prod.splits)
  then show ?thesis
    using length_after_band [OF ne(1)] length_after_band [OF ne(2)] by (auto simp: min_def)
qed

function RegionOp_loop ::
  "overlap_fn \<Rightarrow> nonoverlap_fn option \<Rightarrow> nonoverlap_fn option \<Rightarrow> sweep \<Rightarrow> sweep" where
  "RegionOp_loop ovl non1 non2 (dst, prevBand, ybot, r1s, r2s) =
     (if r1s \<noteq> [] \<and> r2s \<noteq> []
      then RegionOp_loop ovl non1 non2 (RegionOp_step ovl non1 non2 (dst, prevBand, ybot, r1s, r2s))
      else (dst, prevBand, ybot, r1s, r2s))"
  by pat_completeness auto
termination
  by (relation "measure (\<lambda>(ovl, non1, non2, dst, prevBand, ybot, r1s, r2s). length r1s + length r2s)")
    (use RegionOp_step_shrinks in \<open>auto split: prod.splits\<close>)

function RegionOp_rest :: "nonoverlap_fn \<Rightarrow> rect list \<Rightarrow> int \<Rightarrow> rect list \<Rightarrow> rect list" where
  "RegionOp_rest f dst ybot rs =
     (if rs = [] then dst
      else RegionOp_rest f (f dst (cur_band rs) (max (rtop (hd rs)) ybot) (rbottom (hd rs))) ybot
             (after_band rs))"
  by pat_completeness auto
termination
  by (relation "measure (\<lambda>(f, dst, ybot, rs). length rs)") (auto simp: length_after_band)

declare RegionOp_loop.simps [simp del] RegionOp_rest.simps [simp del]

text \<open>
  The sweep over two non-empty regions (its callers reject an empty one first): the result
  list.  \<open>newReg\<close> is emptied first, or replaced by \<open>my_dst\<close> at the end when it is a source;
  either way it ends as an initialised region with this list.
\<close>

definition RegionOp_rects ::
  "overlap_fn \<Rightarrow> nonoverlap_fn option \<Rightarrow> nonoverlap_fn option \<Rightarrow> cliprgn \<Rightarrow> cliprgn \<Rightarrow> rect list"
  where
  "RegionOp_rects ovl non1 non2 reg1 reg2 =
     (let ybot = (if rtop (rcBound reg1) < rtop (rcBound reg2)
                  then rtop (rcBound reg1) else rtop (rcBound reg2));
          (dst, prevBand, ybot, r1s, r2s) =
            RegionOp_loop ovl non1 non2 ([], None, ybot, rects reg1, rects reg2);
          curBand = tail_pos dst;
          dst = (if r1s \<noteq> [] then
                   (case non1 of None \<Rightarrow> dst | Some f \<Rightarrow> RegionOp_rest f dst ybot r1s)
                 else
                   (case non2 of None \<Rightarrow> dst | Some f \<Rightarrow> RegionOp_rest f dst ybot r2s))
      in fst (coalesce_if_added dst prevBand curBand))"

definition REGION_RegionOp ::
  "rgn_store \<Rightarrow> rgn_ref \<Rightarrow> rgn_ref \<Rightarrow> rgn_ref
    \<Rightarrow> overlap_fn \<Rightarrow> nonoverlap_fn option \<Rightarrow> nonoverlap_fn option \<Rightarrow> rgn_store" where
  "REGION_RegionOp st newReg reg1 reg2 ovl non1 non2 =
     (let res = RegionOp_rects ovl non1 non2 (st reg1) (st reg2);
          st = (if newReg = reg1 \<or> newReg = reg2 then InitClipRgn st newReg
                else EmptyClipRgn st newReg)
      in st(newReg := (st newReg)\<lparr>rects := res\<rparr>))"

subsection \<open>Band handlers\<close>

fun REGION_IntersectO :: "rect list \<Rightarrow> rect list \<Rightarrow> rect list \<Rightarrow> int \<Rightarrow> int \<Rightarrow> rect list" where
  "REGION_IntersectO dst (r1 # r1s) (r2 # r2s) t b =
     (let l = max (rleft r1) (rleft r2);
          r = min (rright r1) (rright r2);
          dst = (if l < r then dst @ [mk_rect l t r b] else dst)
      in if rright r1 < rright r2 then REGION_IntersectO dst r1s (r2 # r2s) t b
         else if rright r2 < rright r1 then REGION_IntersectO dst (r1 # r1s) r2s t b
         else REGION_IntersectO dst r1s r2s t b)"
| "REGION_IntersectO dst r1s r2s t b = dst"

fun REGION_UnionNonO :: "rect list \<Rightarrow> rect list \<Rightarrow> int \<Rightarrow> int \<Rightarrow> rect list" where
  "REGION_UnionNonO dst [] t b = dst"
| "REGION_UnionNonO dst (r # rs) t b =
     REGION_UnionNonO (dst @ [mk_rect (rleft r) t (rright r) b]) rs t b"

definition MERGERECT :: "rect list \<Rightarrow> rect \<Rightarrow> int \<Rightarrow> int \<Rightarrow> rect list" where
  "MERGERECT dst r t b =
     (if dst \<noteq> [] \<and> rtop (last dst) = t \<and> rbottom (last dst) = b \<and> rright (last dst) \<ge> rleft r
      then (if rright (last dst) < rright r
            then butlast dst @ [(last dst)\<lparr>rright := rright r\<rparr>] else dst)
      else dst @ [mk_rect (rleft r) t (rright r) b])"

fun REGION_UnionO :: "rect list \<Rightarrow> rect list \<Rightarrow> rect list \<Rightarrow> int \<Rightarrow> int \<Rightarrow> rect list" where
  "REGION_UnionO dst (r1 # r1s) (r2 # r2s) t b =
     (if rleft r1 < rleft r2 then REGION_UnionO (MERGERECT dst r1 t b) r1s (r2 # r2s) t b
      else REGION_UnionO (MERGERECT dst r2 t b) (r1 # r1s) r2s t b)"
| "REGION_UnionO dst (r1 # r1s) [] t b = REGION_UnionO (MERGERECT dst r1 t b) r1s [] t b"
| "REGION_UnionO dst [] (r2 # r2s) t b = REGION_UnionO (MERGERECT dst r2 t b) [] r2s t b"
| "REGION_UnionO dst [] [] t b = dst"

fun REGION_SubtractNonO1 :: "rect list \<Rightarrow> rect list \<Rightarrow> int \<Rightarrow> int \<Rightarrow> rect list" where
  "REGION_SubtractNonO1 dst [] t b = dst"
| "REGION_SubtractNonO1 dst (r # rs) t b =
     REGION_SubtractNonO1 (dst @ [mk_rect (rleft r) t (rright r) b]) rs t b"

text \<open>The \<open>left\<close> fence after moving to the next minuend: kept when there is none.\<close>

fun next_left :: "int \<Rightarrow> rect list \<Rightarrow> int" where
  "next_left l [] = l"
| "next_left l (r # rs) = rleft r"

fun SubtractO_loop :: "rect list \<Rightarrow> int \<Rightarrow> rect list \<Rightarrow> rect list \<Rightarrow> int \<Rightarrow> int \<Rightarrow> rect list" where
  "SubtractO_loop dst l (r1 # r1s) (r2 # r2s) t b =
     (if rright r2 \<le> l then SubtractO_loop dst l (r1 # r1s) r2s t b
      else if rleft r2 \<le> l then
        (if rright r2 \<ge> rright r1
         then SubtractO_loop dst (next_left (rright r2) r1s) r1s (r2 # r2s) t b
         else SubtractO_loop dst (rright r2) (r1 # r1s) r2s t b)
      else if rleft r2 < rright r1 then
        (let dst = dst @ [mk_rect l t (rleft r2) b]
         in if rright r2 \<ge> rright r1
            then SubtractO_loop dst (next_left (rright r2) r1s) r1s (r2 # r2s) t b
            else SubtractO_loop dst (rright r2) (r1 # r1s) r2s t b)
      else
        (let dst = (if rright r1 > l then dst @ [mk_rect l t (rright r1) b] else dst)
         in SubtractO_loop dst (next_left l r1s) r1s (r2 # r2s) t b))"
| "SubtractO_loop dst l (r1 # r1s) [] t b =
     SubtractO_loop (dst @ [mk_rect l t (rright r1) b]) (next_left l r1s) r1s [] t b"
| "SubtractO_loop dst l [] r2s t b = dst"

definition REGION_SubtractO :: "rect list \<Rightarrow> rect list \<Rightarrow> rect list \<Rightarrow> int \<Rightarrow> int \<Rightarrow> rect list" where
  "REGION_SubtractO dst r1s r2s t b = SubtractO_loop dst (rleft (hd r1s)) r1s r2s t b"

subsection \<open>The operations on regions\<close>

definition set_extents_type :: "rgn_store \<Rightarrow> rgn_ref \<Rightarrow> rgn_store" where
  "set_extents_type st d =
     (let st = st(d := REGION_SetExtents (st d))
      in st(d := (st d)\<lparr>rgn_type := (if rects (st d) \<noteq> [] then COMPLEXREGION else NULLREGION)\<rparr>))"

definition ClipRgnIntersect :: "rgn_store \<Rightarrow> rgn_ref \<Rightarrow> rgn_ref \<Rightarrow> rgn_ref \<Rightarrow> bool \<times> rgn_store" where
  "ClipRgnIntersect st dst src1 src2 =
     (if rects (st src1) = [] \<or> rects (st src2) = []
         \<or> \<not> EXTENTCHECK (rcBound (st src1)) (rcBound (st src2))
      then (False, EmptyClipRgn st dst)
      else (True, set_extents_type
                    (REGION_RegionOp st dst src1 src2 REGION_IntersectO None None) dst))"

definition SubtractRegion :: "rgn_store \<Rightarrow> rgn_ref \<Rightarrow> rgn_ref \<Rightarrow> rgn_ref \<Rightarrow> bool \<times> rgn_store" where
  "SubtractRegion st rgnD rgnM rgnS =
     (if rects (st rgnM) = [] \<or> rects (st rgnS) = []
         \<or> \<not> EXTENTCHECK (rcBound (st rgnM)) (rcBound (st rgnS))
      then (True, snd (ClipRgnCopy st rgnD rgnM))
      else (True, set_extents_type
                    (REGION_RegionOp st rgnD rgnM rgnS
                       REGION_SubtractO (Some REGION_SubtractNonO1) None) rgnD))"

definition subsumes :: "cliprgn \<Rightarrow> cliprgn \<Rightarrow> bool" where
  "subsumes src1 src2 \<longleftrightarrow>
     length (rects src1) = 1
     \<and> rleft (rcBound src1) \<le> rleft (rcBound src2) \<and> rtop (rcBound src1) \<le> rtop (rcBound src2)
     \<and> rright (rcBound src1) \<ge> rright (rcBound src2)
     \<and> rbottom (rcBound src1) \<ge> rbottom (rcBound src2)"

definition UnionRegion :: "rgn_store \<Rightarrow> rgn_ref \<Rightarrow> rgn_ref \<Rightarrow> rgn_ref \<Rightarrow> bool \<times> rgn_store" where
  "UnionRegion st dst src1 src2 =
     (if src1 = src2 \<or> rects (st src1) = [] then
        (True, if dst \<noteq> src2 then snd (ClipRgnCopy st dst src2) else st)
      else if rects (st src2) = [] then
        (True, if dst \<noteq> src1 then snd (ClipRgnCopy st dst src1) else st)
      else if subsumes (st src1) (st src2) then
        (True, if dst \<noteq> src1 then snd (ClipRgnCopy st dst src1) else st)
      else if subsumes (st src2) (st src1) then
        (True, if dst \<noteq> src2 then snd (ClipRgnCopy st dst src2) else st)
      else (True, set_extents_type
                    (REGION_RegionOp st dst src1 src2
                       REGION_UnionO (Some REGION_UnionNonO) (Some REGION_UnionNonO)) dst))"

definition XorRegion :: "rgn_store \<Rightarrow> rgn_ref \<Rightarrow> rgn_ref \<Rightarrow> rgn_ref \<Rightarrow> bool \<times> rgn_store" where
  "XorRegion st dst src1 src2 =
     (let tmpa = Local 0; tmpb = Local 1;
          st = InitClipRgn st tmpa; st = InitClipRgn st tmpb;
          st = snd (SubtractRegion st tmpa src1 src2);
          st = snd (SubtractRegion st tmpb src2 src1);
          st = snd (UnionRegion st dst tmpa tmpb);
          st = EmptyClipRgn st tmpa; st = EmptyClipRgn st tmpb
      in (True, st))"

text \<open>The one-rectangle region \<open>my_region\<close> that the rectangle variants build on the stack.\<close>

definition with_my_region :: "rgn_store \<Rightarrow> rect \<Rightarrow> rgn_store" where
  [rgn_defs]: "with_my_region st rc =
     st(Local 0 := \<lparr>rgn_type = SIMPLEREGION, rcBound = rc, rects = [rc]\<rparr>)"

definition AddClipRect :: "rgn_store \<Rightarrow> rgn_ref \<Rightarrow> rect \<Rightarrow> bool \<times> rgn_store" where
  "AddClipRect st region rc =
     (if IsRectEmpty rc then (False, st)
      else (True, snd (UnionRegion (with_my_region st rc) region region (Local 0))))"

definition IntersectClipRect :: "rgn_store \<Rightarrow> rgn_ref \<Rightarrow> rect \<Rightarrow> bool \<times> rgn_store" where
  "IntersectClipRect st region rc =
     (if IsRectEmpty rc then (True, EmptyClipRgn st region)
      else (True, snd (ClipRgnIntersect (with_my_region st rc) region region (Local 0))))"

definition SubtractClipRect :: "rgn_store \<Rightarrow> rgn_ref \<Rightarrow> rect \<Rightarrow> bool \<times> rgn_store" where
  "SubtractClipRect st region rc =
     (if IsRectEmpty rc \<or> \<not> DoesIntersect (rcBound (st region)) rc then (False, st)
      else (True, snd (SubtractRegion (with_my_region st rc) region region (Local 0))))"

definition OffsetRegion :: "rgn_store \<Rightarrow> rgn_ref \<Rightarrow> int \<Rightarrow> int \<Rightarrow> rgn_store" where
  "OffsetRegion st region x y =
     (let st = st(region := (st region)\<lparr>rects := map (\<lambda>r. OffsetRect r x y) (rects (st region))\<rparr>)
      in if rects (st region) \<noteq> []
         then st(region := (st region)\<lparr>rcBound := OffsetRect (rcBound (st region)) x y\<rparr>)
         else st)"

text \<open>
  \<open>cb_region\<close> is the callback the shape generators call for each horizontal span from
  \<open>x1\<close> to \<open>x2\<close>, in either order, both ends included, on row \<open>y\<close>.
\<close>

definition cb_region :: "rgn_store \<Rightarrow> rgn_ref \<Rightarrow> int \<Rightarrow> int \<Rightarrow> int \<Rightarrow> rgn_store" where
  "cb_region st region x1 x2 y =
     (let rc = (if x2 > x1 then mk_rect x1 y (x2 + 1) (y + 1) else mk_rect x2 y (x1 + 1) (y + 1));
          st = with_my_region st rc
      in if IsEmptyClipRgn (st region) then snd (ClipRgnCopy st region (Local 0))
         else snd (UnionRegion st region region (Local 0)))"

end
