(* ===== verification/Region_Bands.thy ===== *)
theory Region_Bands
  imports Region
begin

section \<open>Regions: y-x bands and the sweep over two regions\<close>

text \<open>
  The y-x-banded form of a rectangle list (\<open>banded\<close>), its points row by row (\<open>row\<close>), what
  coalescing keeps, and the interface between \<open>REGION_RegionOp\<close> and its band handlers: the
  locale \<open>band_op\<close> says what a handler must do to one band for the operation \<open>f\<close> on sets of
  x coordinates, and the sweep is proved correct once inside it.
\<close>

subsection \<open>Rows and bands\<close>

definition row :: "rect list \<Rightarrow> int \<Rightarrow> int set" where
  "row rs y = {x. \<exists>r \<in> set rs. rtop r \<le> y \<and> y < rbottom r \<and> rleft r \<le> x \<and> x < rright r}"

definition xset :: "rect list \<Rightarrow> int set" where
  "xset rs = {x. \<exists>r \<in> set rs. rleft r \<le> x \<and> x < rright r}"

definition yx_before :: "rect \<Rightarrow> rect \<Rightarrow> bool" where
  "yx_before r s \<longleftrightarrow>
     (rtop r = rtop s \<and> rbottom r = rbottom s \<and> rright r < rleft s) \<or> rbottom r \<le> rtop s"

definition banded :: "rect list \<Rightarrow> bool" where
  "banded rs \<longleftrightarrow> sorted_wrt yx_before rs \<and> (\<forall>r \<in> set rs. rect_ok r)"

definition x_sorted :: "rect list \<Rightarrow> bool" where
  "x_sorted rs \<longleftrightarrow>
     sorted_wrt (\<lambda>r s. rright r < rleft s) rs \<and> (\<forall>r \<in> set rs. rleft r < rright r)"

definition is_band :: "int \<Rightarrow> int \<Rightarrow> rect list \<Rightarrow> bool" where
  "is_band t b rs \<longleftrightarrow> x_sorted rs \<and> (\<forall>r \<in> set rs. rtop r = t \<and> rbottom r = b)"

lemma row_Nil [simp]: "row [] y = {}"
  by (simp add: row_def)

lemma row_append [simp]: "row (xs @ ys) y = row xs y \<union> row ys y"
  by (auto simp: row_def)

lemma xset_Nil [band_simps]: "xset [] = {}"
  by (simp add: xset_def)

lemma xset_Cons [band_simps]: "xset (r # rs) = {rleft r..<rright r} \<union> xset rs"
  by (auto simp: xset_def)

lemma xset_append [band_simps]: "xset (xs @ ys) = xset xs \<union> xset ys"
  by (auto simp: xset_def)

lemma x_sorted_Nil [band_simps]: "x_sorted []"
  by (simp add: x_sorted_def)

lemma x_sorted_Cons [band_simps]:
  "x_sorted (r # rs) \<longleftrightarrow>
     rleft r < rright r \<and> (\<forall>s \<in> set rs. rright r < rleft s) \<and> x_sorted rs"
  by (auto simp: x_sorted_def)

lemma x_sorted_snoc [band_simps]:
  "x_sorted (rs @ [r]) \<longleftrightarrow>
     x_sorted rs \<and> (\<forall>s \<in> set rs. rright s < rleft r) \<and> rleft r < rright r"
  by (auto simp: x_sorted_def sorted_wrt_append)

lemma is_band_Nil [band_simps]: "is_band t b []"
  by (simp add: is_band_def x_sorted_Nil)

lemma is_band_snoc [band_simps]:
  "is_band t b (rs @ [r]) \<longleftrightarrow>
     is_band t b rs \<and> rtop r = t \<and> rbottom r = b
     \<and> (\<forall>s \<in> set rs. rright s < rleft r) \<and> rleft r < rright r"
  by (auto simp: is_band_def x_sorted_snoc)

lemma row_is_band:
  "is_band t b rs \<Longrightarrow> row rs y = (if t \<le> y \<and> y < b then xset rs else {})"
  by (auto simp: is_band_def row_def xset_def)

lemma banded_tops: "banded rs \<Longrightarrow> sorted_wrt (\<lambda>r s. rtop r \<le> rtop s) rs"
proof -
  assume b: "banded rs"
  have "\<And>r s. r \<in> set rs \<Longrightarrow> s \<in> set rs \<Longrightarrow> yx_before r s \<Longrightarrow> rtop r \<le> rtop s"
    using b by (fastforce simp: banded_def yx_before_def rect_ok_def)
  then show ?thesis
    using b sorted_wrt_mono_rel [of rs yx_before "\<lambda>r s. rtop r \<le> rtop s"]
    by (simp add: banded_def)
qed

lemma banded_append:
  "banded (xs @ ys) \<longleftrightarrow> banded xs \<and> banded ys \<and> (\<forall>x \<in> set xs. \<forall>y \<in> set ys. yx_before x y)"
  by (auto simp: banded_def sorted_wrt_append)

lemma banded_Cons:
  "banded (x # xs) \<longleftrightarrow> rect_ok x \<and> banded xs \<and> (\<forall>y \<in> set xs. yx_before x y)"
  by (auto simp: banded_def)

lemma banded_band:
  assumes "is_band t b new" "t < b"
  shows "banded new"
proof -
  have "sorted_wrt yx_before new"
    using assms by (auto simp: is_band_def x_sorted_def yx_before_def
        intro: sorted_wrt_mono_rel [of _ "\<lambda>r s. rright r < rleft s"])
  then show ?thesis
    using assms by (auto simp: banded_def is_band_def x_sorted_def rect_ok_def)
qed

lemma banded_extend:
  assumes "banded dst" "is_band t b new" "t < b" "\<forall>r \<in> set dst. rbottom r \<le> t"
  shows "banded (dst @ new)"
  using assms banded_band [OF assms(2,3)]
  by (auto simp: banded_append yx_before_def is_band_def)

text \<open>A banded list is its first band, then rectangles that all start below that band.\<close>

lemma cur_after_band: "cur_band rs @ after_band rs = rs"
  by (simp add: cur_band_def after_band_def)

lemma after_band_below:
  assumes "banded (r # rs)" and "s \<in> set (after_band (r # rs))"
  shows "rbottom r \<le> rtop s"
proof -
  have le: "sorted_wrt (\<lambda>r s. rtop r \<le> rtop s) (r # rs)" by (rule banded_tops [OF assms(1)])
  have "\<forall>x \<in> set (r # rs). rtop r \<le> rtop x" using le by simp
  with le have "rtop r < rtop s"
    using assms(2) by (auto simp: after_band_def intro: dropWhile_least_key [where k = rtop])
  moreover have "s \<in> set rs"
    using assms(2) by (auto simp: after_band_def dest: set_dropWhileD)
  ultimately show ?thesis
    using assms(1) by (auto simp: banded_Cons yx_before_def)
qed

lemma cur_band_is_band:
  assumes "banded (r # rs)"
  shows "is_band (rtop r) (rbottom r) (cur_band (r # rs))"
proof -
  have c: "banded (cur_band (r # rs))"
    using assms cur_after_band [of "r # rs"] banded_append by metis
  have hd: "cur_band (r # rs) = r # takeWhile (\<lambda>x. rtop x = rtop r) rs"
    by (simp add: cur_band_def)
  have tops: "\<forall>s \<in> set (cur_band (r # rs)). rtop s = rtop r"
    by (auto simp: cur_band_def dest: set_takeWhileD)
  have ok: "rect_ok s" if "s \<in> set (cur_band (r # rs))" for s
    using c that by (simp add: banded_def)
  have same: "rbottom s = rbottom r" if "s \<in> set (cur_band (r # rs))" for s
  proof (cases "s = r")
    case False
    then have "yx_before r s" using c that unfolding hd by (auto simp: banded_Cons)
    moreover have "rtop s = rtop r" using tops that by blast
    moreover have "rtop r < rbottom r" using ok [of r] by (simp add: hd rect_ok_def)
    ultimately show ?thesis by (auto simp: yx_before_def)
  qed simp
  have "sorted_wrt (\<lambda>r s. rright r < rleft s) (cur_band (r # rs))"
  proof (rule sorted_wrt_mono_rel)
    show "sorted_wrt yx_before (cur_band (r # rs))" using c by (simp add: banded_def)
    fix u v assume uv: "u \<in> set (cur_band (r # rs))" "v \<in> set (cur_band (r # rs))" "yx_before u v"
    from uv have "rtop u = rtop r" "rtop v = rtop r" using tops by blast+
    with uv(3) ok [OF uv(1)] show "rright u < rleft v"
      by (auto simp: yx_before_def rect_ok_def)
  qed
  moreover have "\<forall>s \<in> set (cur_band (r # rs)). rleft s < rright s"
    using ok by (simp add: rect_ok_def)
  ultimately show ?thesis
    using tops same unfolding is_band_def x_sorted_def by blast
qed

lemma banded_after_band: "banded rs \<Longrightarrow> banded (after_band rs)"
  using cur_after_band [of rs] banded_append by metis

lemma row_split:
  assumes "banded (r # rs)"
  shows "row (r # rs) y =
    (if y < rtop r then {} else if y < rbottom r then xset (cur_band (r # rs))
     else row (after_band (r # rs)) y)"
proof -
  have "row (r # rs) y = row (cur_band (r # rs)) y \<union> row (after_band (r # rs)) y"
    by (metis cur_after_band row_append)
  moreover have "row (cur_band (r # rs)) y =
      (if rtop r \<le> y \<and> y < rbottom r then xset (cur_band (r # rs)) else {})"
    using cur_band_is_band [OF assms] by (rule row_is_band)
  moreover have "row (after_band (r # rs)) y = {}" if "y < rbottom r"
    using after_band_below [OF assms] that by (fastforce simp: row_def)
  moreover have "rtop r < rbottom r"
    using assms by (simp add: banded_Cons rect_ok_def)
  ultimately show ?thesis by auto
qed

lemma hd_cur_band: "rs \<noteq> [] \<Longrightarrow> cur_band rs \<noteq> [] \<and> hd (cur_band rs) = hd rs"
  by (cases rs) (auto simp: cur_band_def)

lemma x_sorted_cur_band: "banded rs \<Longrightarrow> x_sorted (cur_band rs)"
proof (cases rs)
  case (Cons r rs')
  then show "banded rs \<Longrightarrow> x_sorted (cur_band rs)"
    using cur_band_is_band by (auto simp: is_band_def)
qed (simp add: cur_band_def x_sorted_Nil)

subsection \<open>Coalescing\<close>

definition band_start :: "rect list \<Rightarrow> nat \<Rightarrow> bool" where
  "band_start rs p \<longleftrightarrow> p < length rs \<and> (\<forall>r \<in> set (take p rs). rbottom r \<le> rtop (rs ! p))"

definition prev_ok :: "rect list \<Rightarrow> nat option \<Rightarrow> bool" where
  "prev_ok rs prev \<longleftrightarrow>
     (case prev of None \<Rightarrow> rs = [] | Some p \<Rightarrow> band_start rs p)"

lemma band_start_append:
  "p < length rs \<Longrightarrow> band_start (rs @ new) p \<longleftrightarrow> band_start rs p"
  by (simp add: band_start_def nth_append)

lemma band_start_0: "rs \<noteq> [] \<Longrightarrow> band_start rs 0"
  by (simp add: band_start_def)

lemma last_band_start_split:
  assumes "banded rs" "rs \<noteq> []"
  obtains pre lastb where "rs = pre @ lastb" "lastb \<noteq> []" "length pre = last_band_start rs"
    "\<forall>r \<in> set lastb. rtop r = rtop (last rs)" "\<forall>r \<in> set pre. rtop r < rtop (last rs)"
proof -
  let ?P = "\<lambda>r. rtop r = rtop (last rs)"
  let ?lastb = "rev (takeWhile ?P (rev rs))" and ?pre = "rev (dropWhile ?P (rev rs))"
  have split: "rs = ?pre @ ?lastb"
    by (simp flip: rev_append)
  have "?lastb \<noteq> []"
    using assms(2) by (cases rs rule: rev_cases) auto
  moreover have "length ?pre = last_band_start rs"
    using arg_cong [OF split, of length] by (simp add: last_band_start_def)
  moreover have "\<forall>r \<in> set ?lastb. ?P r" by (auto dest: set_takeWhileD)
  moreover have "rtop r < rtop (last rs)" if "r \<in> set ?pre" for r
  proof -
    have desc: "sorted_wrt (\<lambda>r s. - rtop r \<le> - rtop s) (rev rs)"
      using banded_tops [OF assms(1)] by (simp add: sorted_wrt_rev)
    have "\<forall>x \<in> set (rev rs). - rtop (last rs) \<le> - rtop x"
      using desc assms(2) by (cases rs rule: rev_cases) auto
    with desc have "- rtop (last rs) < - rtop r"
      using that by (intro dropWhile_least_key [where k = "\<lambda>r. - rtop r"]) auto
    then show ?thesis by simp
  qed
  ultimately show thesis using split that by blast
qed

lemma last_band_start_ok:
  assumes "banded rs" "rs \<noteq> []"
  shows "band_start rs (last_band_start rs)"
proof -
  from assms obtain pre lastb where s: "rs = pre @ lastb" "lastb \<noteq> []"
    "length pre = last_band_start rs"
    and tops: "\<forall>r \<in> set lastb. rtop r = rtop (last rs)" "\<forall>r \<in> set pre. rtop r < rtop (last rs)"
    by (rule last_band_start_split)
  then have nth: "rs ! last_band_start rs = hd lastb"
    by (metis append_Nil2 hd_conv_nth nth_append_length_plus add_0_right)
  have hd: "hd lastb \<in> set lastb" using s(2) by simp
  have "rbottom r \<le> rtop (hd lastb)" if "r \<in> set pre" for r
  proof -
    have "yx_before r (hd lastb)" using assms(1) that hd unfolding s(1) by (auto simp: banded_append)
    moreover have "rtop r \<noteq> rtop (hd lastb)" using tops that hd by auto
    ultimately show ?thesis by (auto simp: yx_before_def)
  qed
  then show ?thesis using s(2,3) nth unfolding band_start_def by (simp add: s(1))
qed

lemma last_band_start_after:
  assumes "banded (old @ new)" "new \<noteq> []" "\<forall>r \<in> set old. rtop r < rtop (last new)"
  shows "length old \<le> last_band_start (old @ new)"
proof -
  from assms obtain pre lastb where s: "old @ new = pre @ lastb"
    "length pre = last_band_start (old @ new)"
    and tops: "\<forall>r \<in> set lastb. rtop r = rtop (last (old @ new))"
    using last_band_start_split [of "old @ new"] by (metis append_is_Nil_conv)
  show ?thesis
  proof (rule ccontr)
    assume "\<not> ?thesis"
    then have lt: "length pre < length old" using s(2) by simp
    then have "old ! length pre = lastb ! 0" "lastb \<noteq> []"
      using s(1) by (metis nth_append nth_append_length_plus add_0_right, metis append_Nil2 length_append
          not_add_less1 linorder_not_less le_add1)
    then have "old ! length pre \<in> set lastb" by (metis length_greater_0_conv nth_mem)
    then have "rtop (old ! length pre) = rtop (last new)" using tops assms(2) by simp
    moreover have "old ! length pre \<in> set old" using lt by simp
    ultimately show False using assms(3) by auto
  qed
qed

text \<open>
  \<open>curBand\<close> is the tail before the additions, so the current band that
  \<open>REGION_Coalesce\<close> sees is the last rectangle of the previous one: it merges two
  one-rectangle bands or nothing.
\<close>

lemma coalesce_shape:
  assumes b: "banded (old @ new)" and below: "\<forall>p \<in> set old. \<forall>n \<in> set new. rbottom p \<le> rtop n"
    and ne: "old \<noteq> []" "new \<noteq> []" and p: "band_start old p"
  shows "REGION_Coalesce (old @ new) (Some p) (tail_pos old) =
    (if p = length old - 1 then (old @ new, Some p)
     else if length old = p + 2 \<and> rbottom (old ! p) = rtop (last old)
             \<and> rleft (old ! p) = rleft (last old) \<and> rright (old ! p) = rright (last old)
     then (take p old @ (old ! p)\<lparr>rbottom := rbottom (last old)\<rparr> # new,
           Some (last_band_start (old @ new) - 1))
     else (old @ new, Some (last_band_start (old @ new))))"
proof -
  let ?c = "length old - 1"
  have plt: "p < length old" using p by (simp add: band_start_def)
  have last: "(old @ new) ! ?c = last old" using ne(1) by (simp add: nth_append last_conv_nth)
  have drop_c: "drop ?c (old @ new) = last old # new"
    using ne(1) by (cases old rule: rev_cases) auto
  have "rtop (last old) < rbottom (last old)"
    using b ne(1) by (auto simp: banded_def rect_ok_def)
  moreover have "rbottom (last old) \<le> rtop (hd new)" using below ne by simp
  ultimately have tw: "takeWhile (\<lambda>r. rtop r = rtop (last old)) (last old # new) = [last old]"
    using ne(2) by (cases new) auto
  have num: "length (takeWhile (\<lambda>r. rtop r = rtop ((old @ new) ! ?c)) (drop ?c (old @ new))) = 1"
    by (simp only: last drop_c tw) simp
  have more: "?c + 1 < length (old @ new)" using ne by (cases new) auto
  have nth_p: "(old @ new) ! p = old ! p" using plt by (simp add: nth_append)
  show ?thesis
  proof (cases "length old = p + 2")
    case True
    then have c: "?c = Suc p" by simp
    have drop_p: "take 1 (drop p (old @ new)) = [old ! p]"
      using plt by (simp add: Cons_nth_drop_Suc [symmetric] take_Suc_conv_app_nth)
    have mrg: "merge_bands (old @ new) p (Suc p) 1 =
        take p old @ (old ! p)\<lparr>rbottom := rbottom (last old)\<rparr> # new"
      using True drop_p drop_c unfolding c by (simp add: merge_bands_def)
    show ?thesis
      using True ne(1) num more nth_p last drop_p drop_c mrg unfolding c
      by (simp add: REGION_Coalesce_def tail_pos_def Let_def c)
  next
    case False
    then show ?thesis
      using plt ne(1) num more nth_p last
      by (auto simp: REGION_Coalesce_def tail_pos_def Let_def)
  qed
qed

definition coalesce_post :: "rect list \<Rightarrow> rect list \<times> nat option \<Rightarrow> bool" where
  "coalesce_post rs = (\<lambda>(rs', prev').
     banded rs' \<and> (\<forall>y. row rs' y = row rs y) \<and> prev_ok rs' prev'
     \<and> (\<forall>B. (\<forall>r \<in> set rs. rbottom r \<le> B) \<longrightarrow> (\<forall>r \<in> set rs'. rbottom r \<le> B)))"

lemma merge_two_bands:
  assumes b: "banded (A @ P # C # new)" and A: "\<forall>a \<in> set A. rbottom a \<le> rtop P"
    and eq: "rbottom P = rtop C" "rleft P = rleft C" "rright P = rright C"
    and below: "\<forall>n \<in> set new. rbottom C \<le> rtop n"
    and k: "band_start (A @ P # C # new) k" "length A + 2 \<le> k"
  shows "coalesce_post (A @ P # C # new) (A @ P\<lparr>rbottom := rbottom C\<rparr> # new, Some (k - 1))"
proof -
  let ?P = "P\<lparr>rbottom := rbottom C\<rparr>" and ?old = "A @ P # C # new"
  have ok: "rect_ok P" "rect_ok C" using b by (auto simp: banded_def)
  have row: "row (A @ ?P # new) y = row ?old y" for y
    using ok eq by (auto simp: row_def rect_ok_def)
  have banded: "banded (A @ ?P # new)"
    using b ok eq A below by (auto simp: banded_append banded_Cons yx_before_def rect_ok_def)
  obtain j where j: "k = length A + 2 + j" using k(2) by (metis le_iff_add)
  have nth: "?old ! k = new ! j" "(A @ ?P # new) ! (k - 1) = new ! j"
    using j by (simp_all add: nth_append)
  have take: "take k ?old = A @ P # C # take j new" "take (k - 1) (A @ ?P # new) = A @ ?P # take j new"
    using j by simp_all
  have "band_start (A @ ?P # new) (k - 1)"
    using k nth take j by (auto simp: band_start_def)
  then show ?thesis
    using row banded by (auto simp: coalesce_post_def prev_ok_def)
qed

lemma coalesce_keeps:
  assumes b: "banded (old @ new)" and below: "\<forall>p \<in> set old. \<forall>n \<in> set new. rbottom p \<le> rtop n"
    and p: "prev_ok old prev"
  shows "coalesce_post (old @ new) (coalesce_if_added (old @ new) prev (tail_pos old))"
proof (cases "new = []")
  case True
  then show ?thesis
    using b p by (simp add: coalesce_if_added_def coalesce_post_def)
next
  case new: False
  then have added: "coalesce_if_added (old @ new) prev (tail_pos old) =
      REGION_Coalesce (old @ new) prev (tail_pos old)"
    by (cases new; cases old) (auto simp: coalesce_if_added_def tail_pos_def)
  show ?thesis
  proof (cases "old = []")
    case True
    then have "prev = None" using p by (auto simp: prev_ok_def band_start_def split: option.splits)
    with True have "coalesce_if_added (old @ new) prev (tail_pos old) = (new, Some 0)"
      using added new by (simp add: REGION_Coalesce_def tail_pos_def head_pos_def)
    then show ?thesis
      using True b new by (simp add: coalesce_post_def prev_ok_def band_start_0)
  next
    case old: False
    then obtain q where q: "prev = Some q" "band_start old q"
      using p by (auto simp: prev_ok_def split: option.splits)
    have qlt: "q < length old" using q by (simp add: band_start_def)
    note shape = coalesce_shape [OF b below old new q(2)]
    let ?k = "last_band_start (old @ new)"
    have k: "band_start (old @ new) ?k" using last_band_start_ok [OF b] old by simp
    have "\<forall>r \<in> set old. rtop r < rtop (last new)"
    proof
      fix r assume "r \<in> set old"
      moreover from this have "rtop r < rbottom r" using b by (simp add: banded_def rect_ok_def)
      moreover have "last new \<in> set new" using new by simp
      ultimately show "rtop r < rtop (last new)" using below by fastforce
    qed
    then have kge: "length old \<le> ?k" by (rule last_band_start_after [OF b new])
    show ?thesis
    proof (cases "length old = q + 2 \<and> rbottom (old ! q) = rtop (last old)
             \<and> rleft (old ! q) = rleft (last old) \<and> rright (old ! q) = rright (last old)")
      case False
      then show ?thesis
        using shape added q b k qlt
        by (auto simp: coalesce_post_def prev_ok_def band_start_append)
    next
      case True
      then have old2: "old = take q old @ [old ! q, last old]"
        using take_last_two [of old q] by simp
      have res: "coalesce_if_added (old @ new) prev (tail_pos old) =
          (take q old @ (old ! q)\<lparr>rbottom := rbottom (last old)\<rparr> # new, Some (?k - 1))"
        using True shape added q(1) by simp
      have whole: "old @ new = take q old @ old ! q # last old # new"
        using old2 by (metis append.assoc append_Cons append_Nil)
      have len: "length (take q old) = q" using qlt by simp
      have "coalesce_post (take q old @ old ! q # last old # new)
          (take q old @ (old ! q)\<lparr>rbottom := rbottom (last old)\<rparr> # new, Some (?k - 1))"
        using True b below old k kge q(2) len unfolding whole
        by (intro merge_two_bands) (auto simp: band_start_def)
      then show ?thesis unfolding res by (simp only: whole [symmetric])
    qed
  qed
qed

subsection \<open>The sweep\<close>

definition adds_band :: "rect list \<Rightarrow> rect list \<Rightarrow> int \<Rightarrow> int \<Rightarrow> int set \<Rightarrow> bool" where
  "adds_band dst dst' t b X \<longleftrightarrow> (\<exists>new. dst' = dst @ new \<and> is_band t b new \<and> xset new = X)"

text \<open>
  Invariant of the loop: everything above line \<open>ybot\<close> is done, and the two pointers stand at
  the first bands that reach below it.
\<close>

definition sweep_inv ::
  "(int set \<Rightarrow> int set \<Rightarrow> int set) \<Rightarrow> rect list \<Rightarrow> rect list \<Rightarrow> sweep \<Rightarrow> bool" where
  "sweep_inv f R1 R2 = (\<lambda>(dst, prev, ybot, r1s, r2s).
     banded dst \<and> (\<forall>r \<in> set dst. rbottom r \<le> ybot) \<and> prev_ok dst prev
     \<and> banded r1s \<and> banded r2s
     \<and> (r1s \<noteq> [] \<longrightarrow> ybot < rbottom (hd r1s)) \<and> (r2s \<noteq> [] \<longrightarrow> ybot < rbottom (hd r2s))
     \<and> (r1s \<noteq> [] \<and> r2s \<noteq> [] \<longrightarrow> ybot \<le> max (rtop (hd r1s)) (rtop (hd r2s)))
     \<and> (\<forall>y < ybot. row dst y = f (row R1 y) (row R2 y))
     \<and> (\<forall>y \<ge> ybot. row r1s y = row R1 y \<and> row r2s y = row R2 y))"

lemma adds_band_row:
  "adds_band dst dst' t b X \<Longrightarrow> row dst' y = row dst y \<union> (if t \<le> y \<and> y < b then X else {})"
  by (auto simp: adds_band_def row_is_band)

definition rows_done :: "int \<Rightarrow> rect list \<Rightarrow> rect list \<Rightarrow> int \<Rightarrow> (int \<Rightarrow> int set) \<Rightarrow> bool" where
  "rows_done ybot dst dst' b F \<longleftrightarrow>
     (\<exists>new. dst' = dst @ new \<and> (\<forall>r \<in> set new. ybot \<le> rtop r)) \<and> banded dst'
     \<and> (\<forall>r \<in> set dst'. rbottom r \<le> b) \<and> (\<forall>y < b. row dst' y = F y)"

lemma extend_rows:
  assumes d: "banded dst" "\<forall>r \<in> set dst. rbottom r \<le> ybot" "\<forall>y < ybot. row dst y = F y"
    and o: "ybot \<le> t" "t \<le> b"
    and step: "t \<noteq> b \<Longrightarrow> adds_band dst dst' t b X" "t = b \<Longrightarrow> dst' = dst"
    and F: "\<And>y. ybot \<le> y \<Longrightarrow> y < t \<Longrightarrow> F y = {}" "\<And>y. t \<le> y \<Longrightarrow> y < b \<Longrightarrow> F y = X"
  shows "rows_done ybot dst dst' b F"
proof -
  have none: "row dst y = {}" if "ybot \<le> y" for y using d(2) that by (fastforce simp: row_def)
  have le: "\<forall>r \<in> set dst. rbottom r \<le> t" using d(2) o by fastforce
  show ?thesis
  proof (cases "t = b")
    case True
    then have same: "dst' = dst" using step by simp
    have "row dst y = F y" if "y < b" for y
      using that d(3) none F(1) True by (cases "y < ybot") auto
    then show ?thesis using same d le True by (auto simp: rows_done_def)
  next
    case False
    then have ad: "adds_band dst dst' t b X" and lt: "t < b" using step o by auto
    then obtain new where new: "dst' = dst @ new" "is_band t b new" by (auto simp: adds_band_def)
    have "\<forall>r \<in> set new. ybot \<le> rtop r" using new o by (auto simp: is_band_def)
    moreover have "banded dst'" using new banded_extend [OF d(1) new(2) lt le] by simp
    moreover have "\<forall>r \<in> set dst'. rbottom r \<le> b" using new le lt by (auto simp: is_band_def)
    moreover have "row dst' y = F y" if "y < b" for y
      using adds_band_row [OF ad, of y] that d(3) none [of y] F o
      by (cases "y < ybot"; cases "y < t") auto
    ultimately show ?thesis using new(1) by (auto simp: rows_done_def)
  qed
qed

text \<open>The band of one region above the line \<open>T\<close> where the other one starts.\<close>

lemma alone_rows:
  assumes d: "banded dst" "\<forall>r \<in> set dst. rbottom r \<le> ybot" "\<forall>y < ybot. row dst y = F y"
    and r: "banded (r # rs)" "rtop r < T" "ybot < rbottom r" "ybot \<le> T"
    and F: "\<And>y. ybot \<le> y \<Longrightarrow> y < T \<Longrightarrow> F y = g (row (r # rs) y)" "g {} = {}"
    and t: "t = max (rtop r) ybot" and b: "b = min (rbottom r) T"
    and h: "adds_band dst h t b (g (xset (cur_band (r # rs))))"
  shows "rows_done ybot dst (if t \<noteq> b then h else dst) b F"
proof (rule extend_rows [OF d, where t = t])
  have "rtop r < rbottom r" using r(1) by (simp add: banded_Cons rect_ok_def)
  then show "ybot \<le> t" "t \<le> b" using r t b by auto
  show "F y = {}" if "ybot \<le> y" "y < t" for y
  proof -
    have "y < rtop r" "y < T" using that r t by auto
    then show ?thesis using F that by (simp add: row_split [OF r(1)])
  qed
  show "F y = g (xset (cur_band (r # rs)))" if "t \<le> y" "y < b" for y
  proof -
    have "ybot \<le> y" "\<not> y < rtop r" "y < T" "y < rbottom r" using that t b by auto
    then show ?thesis using F by (simp add: row_split [OF r(1)])
  qed
qed (use h in auto)

lemma coalesce_done:
  assumes "rows_done ybot dst dst' b F" "\<forall>r \<in> set dst. rbottom r \<le> ybot" "prev_ok dst prev"
    and "coalesce_if_added dst' prev (tail_pos dst) = (rs, p)"
  shows "banded rs" "\<forall>r \<in> set rs. rbottom r \<le> b" "prev_ok rs p" "\<forall>y < b. row rs y = F y"
proof -
  obtain new where new: "dst' = dst @ new" "\<forall>r \<in> set new. ybot \<le> rtop r"
    using assms(1) by (auto simp: rows_done_def)
  have "\<forall>p \<in> set dst. \<forall>n \<in> set new. rbottom p \<le> rtop n" using assms(2) new(2) by fastforce
  then have "coalesce_post dst' (rs, p)"
    using coalesce_keeps [of dst new prev] assms new(1) by (auto simp: rows_done_def)
  then show "banded rs" "\<forall>r \<in> set rs. rbottom r \<le> b" "prev_ok rs p" "\<forall>y < b. row rs y = F y"
    using assms(1) by (auto simp: coalesce_post_def rows_done_def)
qed

lemma advance_rows:
  assumes "banded (r # rs)" "rbottom r \<le> y"
  shows "row (after_band (r # rs)) y = row (r # rs) y"
  using row_split [OF assms(1), of y] assms by (auto simp: banded_Cons rect_ok_def)

lemma advance_hd:
  assumes "banded (r # rs)" "after_band (r # rs) \<noteq> []"
  shows "rbottom r \<le> rtop (hd (after_band (r # rs)))"
    and "rbottom r < rbottom (hd (after_band (r # rs)))"
proof -
  show le: "rbottom r \<le> rtop (hd (after_band (r # rs)))"
    using after_band_below [OF assms(1)] assms(2) by simp
  have "rect_ok (hd (after_band (r # rs)))"
    using banded_after_band [OF assms(1)] assms(2) by (simp add: banded_def)
  then show "rbottom r < rbottom (hd (after_band (r # rs)))"
    using le by (simp add: rect_ok_def)
qed

locale band_op =
  fixes f :: "int set \<Rightarrow> int set \<Rightarrow> int set"
    and ovl :: overlap_fn
    and non1 :: "nonoverlap_fn option"
    and non2 :: "nonoverlap_fn option"
  assumes f_empty: "f {} {} = {}"
    and ovl_band: "x_sorted b1 \<Longrightarrow> x_sorted b2 \<Longrightarrow> b1 \<noteq> [] \<Longrightarrow> b2 \<noteq> [] \<Longrightarrow> t < b
      \<Longrightarrow> \<forall>r \<in> set dst. rbottom r \<le> t \<Longrightarrow> adds_band dst (ovl dst b1 b2 t b) t b (f (xset b1) (xset b2))"
    and non1_band: "x_sorted b1 \<Longrightarrow> adds_band dst (call_nonoverlap non1 dst b1 t b) t b (f (xset b1) {})"
    and non2_band: "x_sorted b2 \<Longrightarrow> adds_band dst (call_nonoverlap non2 dst b2 t b) t b (f {} (xset b2))"
begin

lemma nonoverlap_phase_rows:
  assumes inv: "sweep_inv f R1 R2 (dst, prev, ybot, r1 # t1, r2 # t2)"
    and ph: "nonoverlap_phase non1 non2 dst ybot (r1 # t1) (r2 # t2) = (dst', ytop)"
  shows "ytop = max (rtop r1) (rtop r2)"
    and "rows_done ybot dst dst' (min ytop (min (rbottom r1) (rbottom r2)))
           (\<lambda>y. f (row R1 y) (row R2 y))"
proof -
  let ?F = "\<lambda>y. f (row R1 y) (row R2 y)" and ?m = "min ytop (min (rbottom r1) (rbottom r2))"
  show yt: "ytop = max (rtop r1) (rtop r2)"
    using ph by (auto simp: nonoverlap_phase_def Let_def split: if_splits)
  have d: "banded dst" "\<forall>r \<in> set dst. rbottom r \<le> ybot" "\<forall>y < ybot. row dst y = ?F y"
    and b: "banded (r1 # t1)" "banded (r2 # t2)"
    and y: "ybot < rbottom r1" "ybot < rbottom r2" "ybot \<le> max (rtop r1) (rtop r2)"
    and todo: "\<And>y. ybot \<le> y \<Longrightarrow> row R1 y = row (r1 # t1) y"
      "\<And>y. ybot \<le> y \<Longrightarrow> row R2 y = row (r2 # t2) y"
    using inv by (auto simp: sweep_inv_def)
  have ok: "rtop r1 < rbottom r1" "rtop r2 < rbottom r2" using b by (auto simp: banded_Cons rect_ok_def)
  have above: "row (r1 # t1) y = {}" if "y < rtop r1" for y using that by (simp add: row_split [OF b(1)])
  have above2: "row (r2 # t2) y = {}" if "y < rtop r2" for y using that by (simp add: row_split [OF b(2)])
  consider "rtop r1 < rtop r2" | "rtop r2 < rtop r1" | "rtop r1 = rtop r2" by linarith
  then show "rows_done ybot dst dst' ?m ?F"
  proof cases
    case 1
    then have m: "?m = min (rbottom r1) (rtop r2)" using ok yt by auto
    let ?t = "max (rtop r1) ybot"
    have eq: "dst' = (if ?t \<noteq> ?m then call_nonoverlap non1 dst (cur_band (r1 # t1)) ?t ?m else dst)"
      using ph 1 unfolding m by (auto simp: nonoverlap_phase_def Let_def)
    have le: "ybot \<le> rtop r2" using 1 y by simp
    have F: "?F v = f (row (r1 # t1) v) {}" if "ybot \<le> v" "v < rtop r2" for v
      using that by (simp only: todo above2)
    show ?thesis
      unfolding eq
      by (rule alone_rows [where g = "\<lambda>A. f A {}", OF d b(1) 1 y(1) le F f_empty refl m
            non1_band [OF x_sorted_cur_band [OF b(1)]]])
  next
    case 2
    then have m: "?m = min (rbottom r2) (rtop r1)" using ok yt by auto
    let ?t = "max (rtop r2) ybot"
    have eq: "dst' = (if ?t \<noteq> ?m then call_nonoverlap non2 dst (cur_band (r2 # t2)) ?t ?m else dst)"
      using ph 2 unfolding m by (auto simp: nonoverlap_phase_def Let_def)
    have le: "ybot \<le> rtop r1" using 2 y by simp
    have F: "?F v = f {} (row (r2 # t2) v)" if "ybot \<le> v" "v < rtop r1" for v
      using that by (simp only: todo above)
    show ?thesis
      unfolding eq
      by (rule alone_rows [where g = "\<lambda>A. f {} A", OF d b(2) 2 y(2) le F f_empty refl m
            non2_band [OF x_sorted_cur_band [OF b(2)]]])
  next
    case 3
    then have m: "?m = rtop r1" using ok yt by auto
    have same: "dst' = dst" using ph 3 by (auto simp: nonoverlap_phase_def Let_def)
    show ?thesis
      unfolding same m
      by (rule extend_rows [OF d, where t = "rtop r1" and X = "{}"])
        (use 3 y in \<open>auto simp: todo above above2 f_empty\<close>)
  qed
qed

lemma overlap_phase_rows:
  assumes b: "banded (r1 # t1)" "banded (r2 # t2)"
    and d: "banded dst" "\<forall>r \<in> set dst. rbottom r \<le> m" "\<forall>y < m. row dst y = F y"
    and y: "ytop = max (rtop r1) (rtop r2)" "yb = min (rbottom r1) (rbottom r2)" "m = min ytop yb"
    and F: "\<And>y. m \<le> y \<Longrightarrow> F y = f (row (r1 # t1) y) (row (r2 # t2) y)"
  shows "rows_done m dst
    (if yb > ytop then ovl dst (cur_band (r1 # t1)) (cur_band (r2 # t2)) ytop yb else dst) yb F"
proof (rule extend_rows [OF d, where t = m])
  let ?X = "f (xset (cur_band (r1 # t1))) (xset (cur_band (r2 # t2)))"
  show "m \<le> m" "m \<le> yb" using y by auto
  show "adds_band dst
      (if yb > ytop then ovl dst (cur_band (r1 # t1)) (cur_band (r2 # t2)) ytop yb else dst) m yb ?X"
    if "m \<noteq> yb"
  proof -
    from that y(3) have m: "ytop < yb" "m = ytop" by (auto simp: min_def split: if_splits)
    have "adds_band dst (ovl dst (cur_band (r1 # t1)) (cur_band (r2 # t2)) ytop yb) ytop yb ?X"
      using d(2) m b by (intro ovl_band x_sorted_cur_band) (auto simp: hd_cur_band)
    then show ?thesis using m by simp
  qed
  show "(if yb > ytop then ovl dst (cur_band (r1 # t1)) (cur_band (r2 # t2)) ytop yb else dst) = dst"
    if "m = yb" using that y by auto
  show "F v = ?X" if "m \<le> v" "v < yb" for v
  proof -
    have "rtop r1 \<le> v" "v < rbottom r1" "rtop r2 \<le> v" "v < rbottom r2" using that y by auto
    then show ?thesis using F [OF that(1)] by (simp add: row_split [OF b(1)] row_split [OF b(2)])
  qed
qed auto

lemma step_inv:
  assumes inv: "sweep_inv f R1 R2 (dst, prev, ybot, r1 # t1, r2 # t2)"
  shows "sweep_inv f R1 R2 (RegionOp_step ovl non1 non2 (dst, prev, ybot, r1 # t1, r2 # t2))"
proof -
  let ?F = "\<lambda>y. f (row R1 y) (row R2 y)" and ?yb = "min (rbottom r1) (rbottom r2)"
  obtain d1 ytop where ph: "nonoverlap_phase non1 non2 dst ybot (r1 # t1) (r2 # t2) = (d1, ytop)"
    by fastforce
  obtain d2 p2 where c2: "coalesce_if_added d1 prev (tail_pos dst) = (d2, p2)" by fastforce
  let ?m = "min ytop ?yb"
  define d3 where "d3 = (if ?yb > ytop
    then ovl d2 (cur_band (r1 # t1)) (cur_band (r2 # t2)) ytop ?yb else d2)"
  obtain d4 p4 where c4: "coalesce_if_added d3 p2 (tail_pos d2) = (d4, p4)" by fastforce
  have step: "RegionOp_step ovl non1 non2 (dst, prev, ybot, r1 # t1, r2 # t2) = (d4, p4, ?yb,
      if rbottom r1 = ?yb then after_band (r1 # t1) else r1 # t1,
      if rbottom r2 = ?yb then after_band (r2 # t2) else r2 # t2)"
    using ph c2 c4 by (simp add: RegionOp_step_def d3_def)
  have b: "banded (r1 # t1)" "banded (r2 # t2)"
    and d: "\<forall>r \<in> set dst. rbottom r \<le> ybot" "prev_ok dst prev"
    and y: "ybot < rbottom r1" "ybot < rbottom r2" "ybot \<le> max (rtop r1) (rtop r2)"
    and todo: "\<And>y. ybot \<le> y \<Longrightarrow> row (r1 # t1) y = row R1 y \<and> row (r2 # t2) y = row R2 y"
    using inv by (auto simp: sweep_inv_def)
  note yt = nonoverlap_phase_rows(1) [OF inv ph]
  note k2 = coalesce_done [OF nonoverlap_phase_rows(2) [OF inv ph] d c2]
  have m: "ybot \<le> ?m" using y yt by auto
  have "rows_done ?m d2 d3 ?yb ?F"
    unfolding d3_def by (rule overlap_phase_rows [OF b k2(1,2,4) yt refl refl]) (use m todo in auto)
  note k4 = coalesce_done [OF this k2(2,3) c4]
  have todo': "row (r1 # t1) y = row R1 y \<and> row (r2 # t2) y = row R2 y" if "?yb \<le> y" for y
    using todo [of y] that y by auto
  have hd1: "after_band (r1 # t1) \<noteq> [] \<Longrightarrow> rbottom r1 \<le> rtop (hd (after_band (r1 # t1)))
      \<and> rbottom r1 < rbottom (hd (after_band (r1 # t1)))"
    and hd2: "after_band (r2 # t2) \<noteq> [] \<Longrightarrow> rbottom r2 \<le> rtop (hd (after_band (r2 # t2)))
      \<and> rbottom r2 < rbottom (hd (after_band (r2 # t2)))"
    using advance_hd b by auto
  show ?thesis
    using k4 b hd1 hd2 todo' banded_after_band [OF b(1)] banded_after_band [OF b(2)]
      advance_rows [OF b(1)] advance_rows [OF b(2)]
    unfolding step sweep_inv_def by (auto simp: min_def max_def split: if_splits)
qed

lemma loop_inv:
  assumes "sweep_inv f R1 R2 (d, p, y, r1s, r2s)"
  shows "sweep_inv f R1 R2 (RegionOp_loop ovl non1 non2 (d, p, y, r1s, r2s))
    \<and> (\<exists>d' p' y' s1 s2. RegionOp_loop ovl non1 non2 (d, p, y, r1s, r2s) = (d', p', y', s1, s2)
         \<and> (s1 = [] \<or> s2 = []))"
  using assms
proof (induction "length r1s + length r2s" arbitrary: d p y r1s r2s rule: less_induct)
  case less
  note simps = RegionOp_loop.simps [of _ _ _ d p y r1s r2s]
  show ?case
  proof (cases "r1s \<noteq> [] \<and> r2s \<noteq> []")
    case False
    then show ?thesis using less.prems by (auto simp: simps)
  next
    case True
    obtain d' p' y' s1 s2 where st: "RegionOp_step ovl non1 non2 (d, p, y, r1s, r2s) = (d', p', y', s1, s2)"
      by (metis surj_pair)
    moreover have "sweep_inv f R1 R2 (d', p', y', s1, s2)"
      using st step_inv [of R1 R2 d p y "hd r1s" "tl r1s" "hd r2s" "tl r2s"] True less.prems by simp
    moreover have "length s1 + length s2 < length r1s + length r2s"
      using RegionOp_step_shrinks [OF st] True by simp
    ultimately show ?thesis using less.hyps True by (simp add: simps)
  qed
qed

end

text \<open>The loop over what is left of one region, one band per round.\<close>

lemma rest_rows:
  assumes g: "\<And>b dst t bo. x_sorted b \<Longrightarrow> adds_band dst (h dst b t bo) t bo (g (xset b))" "g {} = {}"
    and rs: "banded rs" "rs \<noteq> [] \<Longrightarrow> ybot < rbottom (hd rs)"
    and dst: "banded dst" "\<forall>r \<in> set dst. rbottom r \<le> y0"
      "rs \<noteq> [] \<Longrightarrow> y0 \<le> max (rtop (hd rs)) ybot" "ybot \<le> y0"
    and rows: "\<forall>y < y0. row dst y = F y" "\<And>y. y0 \<le> y \<Longrightarrow> F y = g (row rs y)"
  shows "\<exists>new. RegionOp_rest h dst ybot rs = dst @ new \<and> (\<forall>r \<in> set new. y0 \<le> rtop r)
    \<and> banded (dst @ new) \<and> (\<forall>y. row (dst @ new) y = F y)"
  using rs dst rows
proof (induction "length rs" arbitrary: rs dst y0 rule: less_induct)
  case less
  note simps = RegionOp_rest.simps [of h dst ybot rs]
  show ?case
  proof (cases rs)
    case Nil
    have "row dst y = F y" for y
    proof (cases "y < y0")
      case False
      then have "row dst y = {}" using less.prems(4) by (fastforce simp: row_def)
      then show ?thesis using False less.prems(8) Nil g(2) by simp
    qed (use less.prems(7) in simp)
    then show ?thesis
      using less.prems(3) simps [unfolded Nil] by (intro exI [of _ "[]"]) (simp add: Nil)
  next
    case (Cons r t)
    let ?t = "max (rtop r) ybot" and ?d = "h dst (cur_band rs) (max (rtop r) ybot) (rbottom r)"
    note b = less.prems(1)[unfolded Cons]
    have lt: "?t < rbottom r" using b less.prems(2) Cons by (auto simp: banded_Cons rect_ok_def)
    have y0: "y0 \<le> ?t" using less.prems(5) Cons by simp
    have "rows_done y0 dst ?d (rbottom r) F"
    proof (rule extend_rows [OF less.prems(3,4,7) y0])
      show "adds_band dst ?d ?t (rbottom r) (g (xset (cur_band rs)))"
        using g(1) x_sorted_cur_band less.prems(1) by simp
      show "F v = {}" if "y0 \<le> v" "v < ?t" for v
      proof -
        have "v < rtop r" using that less.prems(6) by auto
        then show ?thesis using less.prems(8) [OF that(1)] g(2) unfolding Cons row_split [OF b] by simp
      qed
      show "F v = g (xset (cur_band rs))" if "?t \<le> v" "v < rbottom r" for v
      proof -
        have "\<not> v < rtop r" "y0 \<le> v" using that y0 by auto
        then show ?thesis using less.prems(8) that unfolding Cons row_split [OF b] by simp
      qed
    qed (use lt in auto)
    then obtain n1 where n1: "?d = dst @ n1" "\<forall>r \<in> set n1. y0 \<le> rtop r" "banded ?d"
      "\<forall>s \<in> set ?d. rbottom s \<le> rbottom r" "\<forall>y < rbottom r. row ?d y = F y"
      by (auto simp: rows_done_def)
    have hd: "after_band rs \<noteq> [] \<Longrightarrow> rbottom r \<le> rtop (hd (after_band rs))
        \<and> rbottom r < rbottom (hd (after_band rs))"
      using advance_hd [OF b] Cons by simp
    have yr: "ybot < rbottom r" "y0 \<le> rbottom r" using lt y0 by auto
    have todo: "F v = g (row (after_band rs) v)" if "rbottom r \<le> v" for v
      using that less.prems(8) [of v] yr advance_rows [OF b that] Cons by simp
    have "\<exists>new. RegionOp_rest h ?d ybot (after_band rs) = ?d @ new
        \<and> (\<forall>s \<in> set new. rbottom r \<le> rtop s) \<and> banded (?d @ new) \<and> (\<forall>y. row (?d @ new) y = F y)"
    proof (rule less.hyps)
      show "length (after_band rs) < length rs" using Cons length_after_band by blast
      show "banded (after_band rs)" using banded_after_band less.prems(1) by simp
    qed (use n1 hd yr todo in \<open>auto simp: le_max_iff_disj intro: less_imp_le\<close>)
    then obtain n2 where "RegionOp_rest h ?d ybot (after_band rs) = ?d @ n2"
      "\<forall>s \<in> set n2. rbottom r \<le> rtop s" "banded (?d @ n2)" "\<forall>y. row (?d @ n2) y = F y" by blast
    moreover have "RegionOp_rest h dst ybot rs = RegionOp_rest h ?d ybot (after_band rs)"
      by (subst simps) (simp add: Cons)
    ultimately show ?thesis
      using n1 yr by (intro exI [of _ "n1 @ n2"]) auto
  qed
qed

lemma RegionOp_rest_None: "RegionOp_rest (call_nonoverlap None) dst ybot rs = dst"
  by (induction "call_nonoverlap None" dst ybot rs rule: RegionOp_rest.induct)
    (simp add: RegionOp_rest.simps)

lemma rest_option:
  "(case non of None \<Rightarrow> dst | Some h \<Rightarrow> RegionOp_rest h dst ybot rs)
    = RegionOp_rest (call_nonoverlap non) dst ybot rs"
proof (cases non)
  case (Some h)
  have "call_nonoverlap (Some h) = h" by (intro ext) simp
  then show ?thesis using Some by simp
qed (simp add: RegionOp_rest_None)

context band_op
begin

theorem RegionOp_rects_correct:
  assumes b: "banded (rects A)" "banded (rects B)" and ne: "rects A \<noteq> []" "rects B \<noteq> []"
    and bound: "rtop (rcBound A) = rtop (hd (rects A))" "rtop (rcBound B) = rtop (hd (rects B))"
  shows "banded (RegionOp_rects ovl non1 non2 A B)"
    and "row (RegionOp_rects ovl non1 non2 A B) y = f (row (rects A) y) (row (rects B) y)"
proof -
  let ?F = "\<lambda>y. f (row (rects A) y) (row (rects B) y)"
  define ybot where "ybot = (if rtop (rcBound A) < rtop (rcBound B)
    then rtop (rcBound A) else rtop (rcBound B))"
  have yb: "ybot = min (rtop (hd (rects A))) (rtop (hd (rects B)))" using bound by (auto simp: ybot_def)
  have above: "row (rects A) y = {} \<and> row (rects B) y = {}" if "y < ybot" for y
    using that row_split [of "hd (rects A)" "tl (rects A)" y]
      row_split [of "hd (rects B)" "tl (rects B)" y] b ne yb by simp
  have "rect_ok (hd (rects A))" "rect_ok (hd (rects B))" using b ne by (auto simp: banded_def)
  then have "sweep_inv f (rects A) (rects B) ([], None, ybot, rects A, rects B)"
    using b yb above by (auto simp: sweep_inv_def prev_ok_def banded_def rect_ok_def f_empty)
  from loop_inv [OF this] obtain d p yl r1s r2s
    where loop: "RegionOp_loop ovl non1 non2 ([], None, ybot, rects A, rects B) = (d, p, yl, r1s, r2s)"
      and inv: "sweep_inv f (rects A) (rects B) (d, p, yl, r1s, r2s)" and fin: "r1s = [] \<or> r2s = []"
    by auto
  define d' where "d' = (if r1s \<noteq> [] then RegionOp_rest (call_nonoverlap non1) d yl r1s
    else RegionOp_rest (call_nonoverlap non2) d yl r2s)"
  have res: "RegionOp_rects ovl non1 non2 A B = fst (coalesce_if_added d' p (tail_pos d))"
    using loop by (simp add: RegionOp_rects_def ybot_def rest_option d'_def)
  have dd: "banded d" "\<forall>r \<in> set d. rbottom r \<le> yl" "prev_ok d p" "\<forall>y < yl. row d y = ?F y"
    using inv by (auto simp: sweep_inv_def)
  have "\<exists>new. d' = d @ new \<and> (\<forall>r \<in> set new. yl \<le> rtop r) \<and> banded (d @ new) \<and> (\<forall>y. row (d @ new) y = ?F y)"
  proof (cases "r1s = []")
    case False
    then have eq: "d' = RegionOp_rest (call_nonoverlap non1) d yl r1s" by (simp add: d'_def)
    have F: "?F v = f (row r1s v) {}" if "yl \<le> v" for v
      using inv fin False that by (auto simp: sweep_inv_def)
    have r: "banded r1s" "r1s \<noteq> [] \<Longrightarrow> yl < rbottom (hd r1s)" using inv by (auto simp: sweep_inv_def)
    show ?thesis
      unfolding eq
      by (rule rest_rows [where g = "\<lambda>S. f S {}", OF non1_band f_empty r dd(1,2) _ order_refl dd(4) F]) auto
  next
    case True
    then have eq: "d' = RegionOp_rest (call_nonoverlap non2) d yl r2s" by (simp add: d'_def)
    have F: "?F v = f {} (row r2s v)" if "yl \<le> v" for v
      using inv True that by (auto simp: sweep_inv_def)
    have r: "banded r2s" "r2s \<noteq> [] \<Longrightarrow> yl < rbottom (hd r2s)" using inv by (auto simp: sweep_inv_def)
    show ?thesis
      unfolding eq
      by (rule rest_rows [where g = "\<lambda>S. f {} S", OF non2_band f_empty r dd(1,2) _ order_refl dd(4) F]) auto
  qed
  then obtain new where new: "d' = d @ new" "\<forall>r \<in> set new. yl \<le> rtop r" "banded (d @ new)"
    "\<forall>y. row (d @ new) y = ?F y" by blast
  have "\<forall>p \<in> set d. \<forall>n \<in> set new. rbottom p \<le> rtop n" using dd(2) new(2) by fastforce
  then have "coalesce_post d' (coalesce_if_added d' p (tail_pos d))"
    using coalesce_keeps new(1,3) dd(3) by simp
  then show "banded (RegionOp_rects ovl non1 non2 A B)"
    and "row (RegionOp_rects ovl non1 non2 A B) y = ?F y"
    using new unfolding res by (auto simp: coalesce_post_def split: prod.splits)
qed

end

end
