(* ===== verification/Region_Handlers.thy ===== *)
theory Region_Handlers
  imports Region_Bands
begin

section \<open>Regions: the band handlers provide the operations on sets\<close>

text \<open>
  The handlers of intersection, union and subtraction append one band to the destination
  that covers the intersection, union or difference of the x coordinates of the two bands
  they are given: the three interpretations of \<open>band_op\<close> on the handlers of region.c.
\<close>

subsection \<open>Bands appended from left to right\<close>

lemma is_band_left: "is_band t b new \<Longrightarrow> n \<in> set new \<Longrightarrow> rleft n \<in> xset new"
  by (auto simp: is_band_def x_sorted_def xset_def)

lemma is_band_Cons [band_simps]:
  "is_band t b (r # rs) \<longleftrightarrow>
     rtop r = t \<and> rbottom r = b \<and> rleft r < rright r \<and> (\<forall>s \<in> set rs. rright r < rleft s)
     \<and> is_band t b rs"
  by (auto simp: is_band_def x_sorted_Cons)

lemma adds_band_none: "adds_band dst dst t b {}"
  by (auto simp: adds_band_def band_simps intro!: exI [of _ "[]"])

lemma adds_band_Cons:
  assumes "l < r" "adds_band (dst @ [mk_rect l t r b]) dst' t b X" "\<forall>x \<in> X. r < x"
    "Y = {l..<r} \<union> X"
  shows "adds_band dst dst' t b Y"
proof -
  from assms(2) obtain new where new: "dst' = dst @ mk_rect l t r b # new" "is_band t b new" "xset new = X"
    by (auto simp: adds_band_def)
  then have "is_band t b (mk_rect l t r b # new)"
    using assms(1,3) is_band_left by (auto simp: is_band_Cons)
  then show ?thesis
    using new assms(4) by (auto simp: adds_band_def xset_Cons intro!: exI [of _ "mk_rect l t r b # new"])
qed

lemma xset_gt: "\<forall>s \<in> set rs. v < rleft s \<Longrightarrow> x \<in> xset rs \<Longrightarrow> v < x"
  by (auto simp: xset_def)

lemmas band_step = x_sorted_Cons xset_Cons xset_Nil

subsection \<open>Copied bands\<close>

definition set_band :: "int \<Rightarrow> int \<Rightarrow> rect list \<Rightarrow> rect list" where
  "set_band t b = map (\<lambda>r. mk_rect (rleft r) t (rright r) b)"

lemma adds_set_band:
  assumes "x_sorted rs"
  shows "adds_band dst (dst @ set_band t b rs) t b (xset rs)"
proof -
  have "is_band t b (set_band t b rs)"
    using assms by (auto simp: is_band_def x_sorted_def set_band_def sorted_wrt_map)
  moreover have "xset (set_band t b rs) = xset rs" by (auto simp: xset_def set_band_def)
  ultimately show ?thesis by (auto simp: adds_band_def)
qed

lemma UnionNonO_eq: "REGION_UnionNonO dst rs t b = dst @ set_band t b rs"
  by (induction dst rs t b rule: REGION_UnionNonO.induct) (simp_all add: set_band_def)

lemma SubtractNonO1_eq: "REGION_SubtractNonO1 dst rs t b = dst @ set_band t b rs"
  by (induction dst rs t b rule: REGION_SubtractNonO1.induct) (simp_all add: set_band_def)

subsection \<open>Intersection\<close>

lemma IntersectO_piece:
  fixes l r :: int
  assumes "adds_band (if l < r then dst @ [mk_rect l t r b] else dst) dst' t b X" "\<forall>x \<in> X. r < x"
    and "Y = {l..<r} \<union> X"
  shows "adds_band dst dst' t b Y"
  using assms adds_band_Cons [of l r dst t b dst' X Y] by (cases "l < r") auto

lemma IntersectO_band:
  assumes "x_sorted r1s" "x_sorted r2s"
  shows "adds_band dst (REGION_IntersectO dst r1s r2s t b) t b (xset r1s \<inter> xset r2s)"
  using assms
proof (induction dst r1s r2s t b rule: REGION_IntersectO.induct)
  case (1 dst r1 r1s r2 r2s t b)
  let ?l = "max (rleft r1) (rleft r2)" and ?r = "min (rright r1) (rright r2)"
  let ?d = "if ?l < ?r then dst @ [mk_rect ?l t ?r b] else dst"
  have srt: "\<forall>s \<in> set r1s. rright r1 < rleft s" "\<forall>s \<in> set r2s. rright r2 < rleft s"
    "x_sorted r1s" "x_sorted r2s"
    using "1.prems" by (auto simp: x_sorted_Cons)
  note gt = xset_gt [OF srt(1)] xset_gt [OF srt(2)]
  consider (lt) "rright r1 < rright r2" | (gt) "rright r2 < rright r1" | (eq) "rright r1 = rright r2"
    by linarith
  then show ?case
  proof cases
    case lt
    have "adds_band ?d (REGION_IntersectO ?d r1s (r2 # r2s) t b) t b (xset r1s \<inter> xset (r2 # r2s))"
      by (rule "1.IH"(1) [OF refl refl refl lt srt(3) "1.prems"(2)])
    moreover have "REGION_IntersectO dst (r1 # r1s) (r2 # r2s) t b = REGION_IntersectO ?d r1s (r2 # r2s) t b"
      using lt by (simp only: REGION_IntersectO.simps(1) Let_def if_True)
    ultimately show ?thesis
      by (elim ssubst IntersectO_piece) (use lt in \<open>auto simp: xset_Cons dest: gt\<close>)
  next
    case gt
    have "adds_band ?d (REGION_IntersectO ?d (r1 # r1s) r2s t b) t b (xset (r1 # r1s) \<inter> xset r2s)"
      using "1.IH"(2) [OF refl refl refl _ gt "1.prems"(1) srt(4)] gt by linarith
    moreover have "REGION_IntersectO dst (r1 # r1s) (r2 # r2s) t b = REGION_IntersectO ?d (r1 # r1s) r2s t b"
      using gt less_not_sym [OF gt] by (simp only: REGION_IntersectO.simps(1) Let_def if_True if_False)
    ultimately show ?thesis
      by (elim ssubst IntersectO_piece)
        (use gt in \<open>auto simp: xset_Cons dest: xset_gt [OF srt(1)] xset_gt [OF srt(2)]\<close>)
  next
    case eq
    have "adds_band ?d (REGION_IntersectO ?d r1s r2s t b) t b (xset r1s \<inter> xset r2s)"
      using "1.IH"(3) [OF refl refl refl _ _ srt(3,4)] eq by linarith
    moreover have "REGION_IntersectO dst (r1 # r1s) (r2 # r2s) t b = REGION_IntersectO ?d r1s r2s t b"
      using eq by (simp only: REGION_IntersectO.simps(1) Let_def less_irrefl if_False)
    ultimately show ?thesis
      by (elim ssubst IntersectO_piece) (use eq in \<open>auto simp: xset_Cons dest: gt\<close>)
  qed
qed (auto simp: adds_band_none xset_Nil)

subsection \<open>Union\<close>

lemma MERGERECT_band:
  assumes new: "is_band t b new" and r: "rleft r < rright r" "\<forall>n \<in> set new. rleft n \<le> rleft r"
    and tb: "t < b" "\<forall>d \<in> set d0. rbottom d \<le> t"
  obtains new' where "MERGERECT (d0 @ new) r t b = d0 @ new'" "is_band t b new'"
    "xset new' = xset new \<union> {rleft r..<rright r}" "\<forall>n \<in> set new'. rleft n \<le> rleft r"
proof (cases "new \<noteq> [] \<and> rleft r \<le> rright (last new)")
  case False
  let ?new = "new @ [mk_rect (rleft r) t (rright r) b]"
  have "rright n < rleft r" if "n \<in> set new" for n
    using that False new by (cases new rule: rev_cases) (fastforce simp: band_simps)+
  then have "is_band t b ?new" using new r(1) by (auto simp: band_simps)
  moreover have no: "\<not> (d0 @ new \<noteq> [] \<and> rtop (last (d0 @ new)) = t
      \<and> rbottom (last (d0 @ new)) = b \<and> rright (last (d0 @ new)) \<ge> rleft r)"
    using False tb by (cases "new = []") (auto dest!: bspec [OF _ last_in_set])
  have "MERGERECT (d0 @ new) r t b = d0 @ ?new"
    by (simp only: MERGERECT_def no if_False append_assoc)
  moreover have "xset ?new = xset new \<union> {rleft r..<rright r}" by (simp add: band_simps)
  ultimately show thesis
    using that [of ?new] r(2) by simp
next
  case True
  then obtain init z where z: "new = init @ [z]" by (cases new rule: rev_cases) auto
  let ?z = "z\<lparr>rright := max (rright z) (rright r)\<rparr>"
  have zb: "rtop z = t" "rbottom z = b" "rleft z < rright z" "is_band t b init"
    "\<forall>s \<in> set init. rright s < rleft z" using new by (auto simp: z band_simps)
  have "MERGERECT (d0 @ new) r t b = d0 @ init @ [?z]"
    using True zb by (auto simp: MERGERECT_def z max_def butlast_append)
  moreover have "is_band t b (init @ [?z])" using zb r(1) by (auto simp: band_simps)
  moreover have "xset (init @ [?z]) = xset new \<union> {rleft r..<rright r}"
    using True r zb(3) by (auto simp: z band_simps)
  moreover have "\<forall>n \<in> set (init @ [?z]). rleft n \<le> rleft r" using r(2) by (auto simp: z)
  ultimately show thesis using that by blast
qed

lemma UnionO_band:
  assumes "x_sorted r1s" "x_sorted r2s" "is_band t b new" "t < b" "\<forall>d \<in> set d0. rbottom d \<le> t"
    and "\<forall>n \<in> set new. \<forall>r \<in> set r1s \<union> set r2s. rleft n \<le> rleft r"
  shows "\<exists>new'. REGION_UnionO (d0 @ new) r1s r2s t b = d0 @ new' \<and> is_band t b new'
    \<and> xset new' = xset new \<union> xset r1s \<union> xset r2s"
  using assms
proof (induction "length r1s + length r2s" arbitrary: r1s r2s new)
  case 0
  then show ?case by (simp add: xset_Nil)
next
  case (Suc n)
  have step: ?case
    if eq: "REGION_UnionO (d0 @ new) r1s r2s t b = REGION_UnionO (MERGERECT (d0 @ new) r t b) s1 s2 t b"
      and len: "n = length s1 + length s2" and srt: "x_sorted s1" "x_sorted s2"
      and r: "r \<in> set r1s \<union> set r2s" "rleft r < rright r"
      and le: "\<forall>s \<in> set s1 \<union> set s2. rleft r \<le> rleft s"
      and set: "xset r1s \<union> xset r2s = {rleft r..<rright r} \<union> (xset s1 \<union> xset s2)" for r s1 s2
  proof -
    have "\<forall>n \<in> set new. rleft n \<le> rleft r" using Suc.prems(6) r(1) by blast
    from MERGERECT_band [OF Suc.prems(3) r(2) this Suc.prems(4,5)]
    obtain new' where n': "MERGERECT (d0 @ new) r t b = d0 @ new'" "is_band t b new'"
      "xset new' = xset new \<union> {rleft r..<rright r}" "\<forall>n \<in> set new'. rleft n \<le> rleft r" .
    have "\<forall>n \<in> set new'. \<forall>s \<in> set s1 \<union> set s2. rleft n \<le> rleft s"
      using n'(4) le by (metis order_trans)
    from Suc.hyps(1) [OF len srt n'(2) Suc.prems(4,5) this] show ?thesis
      unfolding eq n'(1) n'(3) using set by (simp add: Un_assoc)
  qed
  show ?case
  proof (cases r1s)
    case Nil
    then obtain r r2s' where "r2s = r # r2s'" using Suc.hyps(2) by (cases r2s) auto
    then show ?thesis
      using Nil Suc.hyps(2) Suc.prems by (intro step [of r "[]" r2s']) (fastforce simp: band_simps)+
  next
    case (Cons r1 r1s')
    show ?thesis
    proof (cases r2s)
      case Nil
      then show ?thesis
        using Cons Suc.hyps(2) Suc.prems by (intro step [of r1 r1s' "[]"]) (fastforce simp: band_simps)+
    next
      case (Cons r2 r2s')
      note c = Cons \<open>r1s = r1 # r1s'\<close>
      show ?thesis
      proof (cases "rleft r1 < rleft r2")
        case True
        then show ?thesis
          using c Suc.hyps(2) Suc.prems by (intro step [of r1 r1s' r2s]) (fastforce simp: band_simps)+
      next
        case False
        then show ?thesis
          using c Suc.hyps(2) Suc.prems by (intro step [of r2 r1s r2s']) (fastforce simp: band_simps)+
      qed
    qed
  qed
qed

subsection \<open>Subtraction\<close>

fun from_left :: "int \<Rightarrow> rect list \<Rightarrow> int set" where
  "from_left l [] = {}"
| "from_left l (r # rs) = {l..<rright r} \<union> xset rs"

fun left_ok :: "int \<Rightarrow> rect list \<Rightarrow> bool" where
  "left_ok l [] = True"
| "left_ok l (r # rs) = (rleft r \<le> l \<and> l < rright r)"

lemma from_next_left [simp]: "from_left (next_left l rs) rs = xset rs"
  by (cases rs) (auto simp: band_simps)

lemma left_ok_next [simp]: "x_sorted rs \<Longrightarrow> left_ok (next_left l rs) rs"
  by (cases rs) (auto simp: band_simps)

lemma SubtractO_loop_band:
  assumes "x_sorted r1s" "x_sorted r2s" "left_ok l r1s"
  shows "adds_band dst (SubtractO_loop dst l r1s r2s t b) t b (from_left l r1s - xset r2s)"
  using assms
proof (induction dst l r1s r2s t b rule: SubtractO_loop.induct)
  case (1 dst l r1 r1s r2 r2s t b)
  have srt: "\<forall>s \<in> set r1s. rright r1 < rleft s" "\<forall>s \<in> set r2s. rright r2 < rleft s"
    "rleft r2 < rright r2" "rleft r1 \<le> l" "l < rright r1" "x_sorted r1s" "x_sorted r2s"
    using "1.prems" by (auto simp: x_sorted_Cons)
  note gt = xset_gt [OF srt(1)] xset_gt [OF srt(2)]
  note ps = "1.prems"(1,2)
  consider (miss) "rright r2 \<le> l" | (nuke) "l < rright r2" "rleft r2 \<le> l"
    | (part) "l < rright r2" "l < rleft r2" "rleft r2 < rright r1"
    | (used) "l < rright r2" "l < rleft r2" "rright r1 \<le> rleft r2" by linarith
  then show ?case
  proof cases
    case miss
    have "from_left l (r1 # r1s) - xset (r2 # r2s) = from_left l (r1 # r1s) - xset r2s"
      using miss srt(5) by (auto simp: xset_Cons dest: gt)
    then show ?thesis using "1.IH"(1) [OF _ ps(1) srt(7)] miss srt by simp
  next
    case nuke
    show ?thesis
    proof (cases "rright r1 \<le> rright r2")
      case True
      then have "from_left l (r1 # r1s) - xset (r2 # r2s) = xset r1s - xset (r2 # r2s)"
        using nuke by (auto simp: xset_Cons)
      then show ?thesis using "1.IH"(2) [OF _ _ _ srt(6) ps(2)] True nuke srt by simp
    next
      case False
      then have "from_left l (r1 # r1s) - xset (r2 # r2s) = from_left (rright r2) (r1 # r1s) - xset r2s"
        using nuke by (auto simp: xset_Cons dest: gt)
      then show ?thesis using "1.IH"(3) [OF _ _ _ ps(1) srt(7)] False nuke srt by simp
    qed
  next
    case part
    let ?d = "dst @ [mk_rect l t (rleft r2) b]"
    show ?thesis
    proof (cases "rright r1 \<le> rright r2")
      case True
      let ?X = "xset r1s - xset (r2 # r2s)"
      have "adds_band ?d (SubtractO_loop dst l (r1 # r1s) (r2 # r2s) t b) t b ?X"
        using "1.IH"(4) [OF _ _ _ refl _ srt(6) ps(2)] True part srt by (simp add: Let_def)
      moreover have "\<forall>x \<in> ?X. rleft r2 < x" using part by (auto dest: gt)
      moreover have "from_left l (r1 # r1s) - xset (r2 # r2s) = {l..<rleft r2} \<union> ?X"
        using part True by (auto simp: xset_Cons dest: gt)
      ultimately show ?thesis using adds_band_Cons [OF part(2)] by blast
    next
      case False
      let ?X = "from_left (rright r2) (r1 # r1s) - xset r2s"
      have "adds_band ?d (SubtractO_loop dst l (r1 # r1s) (r2 # r2s) t b) t b ?X"
        using "1.IH"(5) [OF _ _ _ refl _ ps(1) srt(7)] False part srt by (simp add: Let_def)
      moreover have "\<forall>x \<in> ?X. rleft r2 < x" using srt(3) part by (auto dest: gt)
      moreover have "from_left l (r1 # r1s) - xset (r2 # r2s) = {l..<rleft r2} \<union> ?X"
        using part srt(3) False by (auto simp: xset_Cons dest: gt)
      ultimately show ?thesis using adds_band_Cons [OF part(2)] by blast
    qed
  next
    case used
    let ?d = "dst @ [mk_rect l t (rright r1) b]" and ?X = "xset r1s - xset (r2 # r2s)"
    have "adds_band ?d (SubtractO_loop dst l (r1 # r1s) (r2 # r2s) t b) t b ?X"
      using "1.IH"(6) [OF _ _ _ refl srt(6) ps(2)] used srt by (simp add: Let_def)
    moreover have "from_left l (r1 # r1s) - xset (r2 # r2s) = {l..<rright r1} \<union> ?X"
      using used srt(3) by (auto simp: xset_Cons dest: gt)
    ultimately show ?thesis using adds_band_Cons [OF srt(5)] gt by blast
  qed
next
  case (2 dst l r1 r1s t b)
  have srt: "\<forall>s \<in> set r1s. rright r1 < rleft s" "l < rright r1" "x_sorted r1s"
    using "2.prems" by (auto simp: x_sorted_Cons)
  have "adds_band (dst @ [mk_rect l t (rright r1) b]) (SubtractO_loop dst l (r1 # r1s) [] t b) t b (xset r1s)"
    using "2.IH" srt by (simp add: band_simps)
  then show ?case
    using adds_band_Cons [OF srt(2)] xset_gt [OF srt(1)] by (simp add: xset_Nil)
qed (auto simp: adds_band_none)

subsection \<open>The three operations\<close>

interpretation rgn_int: band_op "(\<inter>)" REGION_IntersectO None None
  by unfold_locales (auto simp: IntersectO_band adds_band_none)

interpretation rgn_uni: band_op "(\<union>)" REGION_UnionO "Some REGION_UnionNonO" "Some REGION_UnionNonO"
proof unfold_locales
  fix b1 b2 dst :: "rect list" and t b
  assume "x_sorted b1" "x_sorted b2" "t < b" "\<forall>r \<in> set dst. rbottom r \<le> t"
  then show "adds_band dst (REGION_UnionO dst b1 b2 t b) t b (xset b1 \<union> xset b2)"
    using UnionO_band [of b1 b2 t b "[]" dst] by (auto simp: adds_band_def band_simps)
qed (auto simp: UnionNonO_eq adds_set_band)

interpretation rgn_sub: band_op "(-)" REGION_SubtractO "Some REGION_SubtractNonO1" None
proof unfold_locales
  fix b1 b2 dst :: "rect list" and t b
  assume "x_sorted b1" "x_sorted b2" "b1 \<noteq> []"
  moreover from this have "left_ok (rleft (hd b1)) b1" "from_left (rleft (hd b1)) b1 = xset b1"
    by (cases b1; simp add: band_simps)+
  ultimately show "adds_band dst (REGION_SubtractO dst b1 b2 t b) t b (xset b1 - xset b2)"
    using SubtractO_loop_band by (metis REGION_SubtractO_def)
qed (auto simp: SubtractNonO1_eq adds_set_band adds_band_none)

end
