(* ===== verification/Region_Ops.thy ===== *)
theory Region_Ops
  imports Region_Handlers
begin

section \<open>Regions: the operations are the operations on sets of points\<close>

text \<open>
  The meaning of a region is its set of points (\<open>rgn_pts\<close>); a well-formed region
  (\<open>rgn_ok\<close>) is banded, carries its exact extents and is a null region exactly when it has
  no rectangle.  Every operation on well-formed regions is the operation on sets of points,
  whatever the aliasing of its arguments, writes only its destination and leaves a
  well-formed region; so any sequence of operations simulates the sequence on point sets.
\<close>

subsection \<open>Points and well-formed regions\<close>

definition rgn_pts :: "cliprgn \<Rightarrow> point set" where
  "rgn_pts c = (\<Union>r \<in> set (rects c). rect_pts r)"

definition is_extents :: "rect \<Rightarrow> rect list \<Rightarrow> bool" where
  "is_extents b rs \<longleftrightarrow>
     (if rs = [] then b = zero_rect
      else rtop b = rtop (hd rs) \<and> rbottom b = rbottom (last rs)
         \<and> rleft b = Min (rleft ` set rs) \<and> rright b = Max (rright ` set rs))"

definition rgn_ok :: "cliprgn \<Rightarrow> bool" where
  "rgn_ok c \<longleftrightarrow>
     banded (rects c) \<and> is_extents (rcBound c) (rects c) \<and> (rgn_type c = NULLREGION \<longleftrightarrow> rects c = [])"

lemma in_rgn_pts: "(x, y) \<in> rgn_pts c \<longleftrightarrow> x \<in> row (rects c) y"
  by (auto simp: rgn_pts_def row_def)

lemma rgn_pts_Nil [simp]: "rects c = [] \<Longrightarrow> rgn_pts c = {}"
  by (simp add: rgn_pts_def)

lemma rgn_pts_eqI:
  "(\<And>y. row (rects c) y = f (row (rects a) y) (row (rects b) y)) \<Longrightarrow>
   (\<And>x y A B. x \<in> f {x. (x, y) \<in> A} {x. (x, y) \<in> B} \<longleftrightarrow> (x, y) \<in> g A B) \<Longrightarrow>
   rgn_pts c = g (rgn_pts a) (rgn_pts b)"
proof (rule set_eqI, clarify)
  fix x y
  assume rows: "\<And>y. row (rects c) y = f (row (rects a) y) (row (rects b) y)"
    and g: "\<And>x y A B. x \<in> f {x. (x, y) \<in> A} {x. (x, y) \<in> B} \<longleftrightarrow> (x, y) \<in> g A B"
  have r: "row (rects a) y = {x. (x, y) \<in> rgn_pts a}" "row (rects b) y = {x. (x, y) \<in> rgn_pts b}"
    by (auto simp: in_rgn_pts)
  have "(x, y) \<in> rgn_pts c \<longleftrightarrow> x \<in> f (row (rects a) y) (row (rects b) y)"
    by (simp only: in_rgn_pts rows)
  also have "\<dots> \<longleftrightarrow> (x, y) \<in> g (rgn_pts a) (rgn_pts b)"
    unfolding r by (rule g)
  finally show "(x, y) \<in> rgn_pts c \<longleftrightarrow> (x, y) \<in> g (rgn_pts a) (rgn_pts b)" .
qed

lemma bound_covers:
  assumes "rgn_ok c"
  shows "rgn_pts c \<subseteq> rect_pts (rcBound c)"
proof
  fix p assume "p \<in> rgn_pts c"
  then obtain r x y where r: "r \<in> set (rects c)" "p = (x, y)" "(x, y) \<in> rect_pts r"
    by (cases p) (auto simp: rgn_pts_def)
  have b: "banded (rects c)" and ext: "is_extents (rcBound c) (rects c)" and ne: "rects c \<noteq> []"
    using assms r by (auto simp: rgn_ok_def)
  have bnd: "rtop (rcBound c) = rtop (hd (rects c))" "rbottom (rcBound c) = rbottom (last (rects c))"
    "rleft (rcBound c) = Min (rleft ` set (rects c))" "rright (rcBound c) = Max (rright ` set (rects c))"
    using ext ne by (simp_all add: is_extents_def)
  have "rtop (rcBound c) \<le> rtop r"
    unfolding bnd using r(1) banded_tops [OF b] by (cases "rects c") auto
  moreover have "rbottom r \<le> rbottom (rcBound c)"
    unfolding bnd using r(1) b by (cases "rects c" rule: rev_cases) (force simp: banded_append banded_Cons yx_before_def rect_ok_def)+
  moreover have "rleft (rcBound c) \<le> rleft r" "rright r \<le> rright (rcBound c)"
    unfolding bnd using r(1) by auto
  ultimately show "p \<in> rect_pts (rcBound c)" using r by auto
qed

lemma REGION_SetExtents_fold:
  assumes "rs \<noteq> []"
  shows "fold (\<lambda>c b. let b = (if rleft c < rleft b then b\<lparr>rleft := rleft c\<rparr> else b)
        in if rright c > rright b then b\<lparr>rright := rright c\<rparr> else b) rs b
    = b\<lparr>rleft := min (rleft b) (Min (rleft ` set rs)), rright := max (rright b) (Max (rright ` set rs))\<rparr>"
  using assms
proof (induction rs arbitrary: b)
  case (Cons c rs)
  let ?b = "let b = (if rleft c < rleft b then b\<lparr>rleft := rleft c\<rparr> else b)
        in if rright c > rright b then b\<lparr>rright := rright c\<rparr> else b"
  have b: "?b = b\<lparr>rleft := min (rleft b) (rleft c), rright := max (rright b) (rright c)\<rparr>"
    by (simp add: Let_def min_def max_def)
  show ?case
  proof (cases "rs = []")
    case False
    then show ?thesis using Cons.IH [OF False, of ?b]
      unfolding fold_simps b by (simp add: min.assoc max.assoc)
  qed (simp only: fold_simps b; simp)
qed simp

lemma REGION_SetExtents_ok:
  "rects (REGION_SetExtents c) = rects c \<and> is_extents (rcBound (REGION_SetExtents c)) (rects c)"
proof (cases "rects c = []")
  case False
  have "Min (rleft ` set (rects c)) \<le> rleft (hd (rects c))"
    "rright (last (rects c)) \<le> Max (rright ` set (rects c))"
    using False by auto
  then show ?thesis using False by (simp add: REGION_SetExtents_def is_extents_def REGION_SetExtents_fold)
qed (simp add: REGION_SetExtents_def is_extents_def)

lemma set_extents_type_ok:
  assumes "banded (rects (st d))"
  shows "rgn_ok (set_extents_type st d d)" "rects (set_extents_type st d d) = rects (st d)"
    "r \<noteq> d \<Longrightarrow> set_extents_type st d r = st r"
  using assms REGION_SetExtents_ok [of "st d"]
  by (auto simp: set_extents_type_def rgn_ok_def Let_def)

lemma rgn_ok_single: "rect_ok rc \<Longrightarrow> rgn_ok \<lparr>rgn_type = SIMPLEREGION, rcBound = rc, rects = [rc]\<rparr>"
  by (simp add: rgn_ok_def is_extents_def banded_def)

lemma rgn_pts_single [simp]: "rects c = [rc] \<Longrightarrow> rgn_pts c = rect_pts rc"
  by (simp add: rgn_pts_def)

lemma EXTENTCHECK_disjoint:
  assumes "rgn_ok a" "rgn_ok b" "\<not> EXTENTCHECK (rcBound a) (rcBound b)"
  shows "rgn_pts a \<inter> rgn_pts b = {}"
proof -
  have "rect_pts (rcBound a) \<inter> rect_pts (rcBound b) = {}"
    using assms(3) by (auto simp: EXTENTCHECK_def rect_pts_def)
  then show ?thesis using bound_covers [OF assms(1)] bound_covers [OF assms(2)] by blast
qed

lemma subsumes_pts:
  assumes "rgn_ok a" "rgn_ok b" "subsumes a b"
  shows "rgn_pts b \<subseteq> rgn_pts a"
proof -
  obtain r where r: "rects a = [r]" using assms(3) by (auto simp: subsumes_def length_Suc_conv)
  then have "rgn_pts a = rect_pts (rcBound a)"
    using assms(1) by (simp add: rgn_ok_def is_extents_def rect_pts_def)
  moreover have "rect_pts (rcBound b) \<subseteq> rect_pts (rcBound a)"
    using assms(3) by (auto simp: subsumes_def)
  ultimately show ?thesis using bound_covers [OF assms(2)] by blast
qed

subsection \<open>What an operation promises\<close>

text \<open>\<open>computes st st' d P\<close>: the store changes at \<open>d\<close> only, which is well formed with the points \<open>P\<close>.\<close>

definition computes :: "rgn_store \<Rightarrow> rgn_store \<Rightarrow> rgn_ref \<Rightarrow> point set \<Rightarrow> bool" where
  "computes st st' d P \<longleftrightarrow>
     rgn_ok (st' d) \<and> rgn_pts (st' d) = P \<and> (\<forall>r. r \<noteq> d \<longrightarrow> st' r = st r)"

lemma computes_empty: "computes st (EmptyClipRgn st d) d {}"
  by (simp add: computes_def EmptyClipRgn_def rgn_ok_def is_extents_def banded_def SetRectEmpty_def)

lemma computes_copy:
  assumes "rgn_ok (st s)"
  shows "computes st (snd (ClipRgnCopy st d s)) d (rgn_pts (st s))"
proof (cases "d = s \<or> rects (st s) = []")
  case True
  then show ?thesis
    using assms computes_empty [of st d] by (auto simp: ClipRgnCopy_def computes_def EmptyClipRgn_def)
next
  case False
  then show ?thesis
    using assms by (auto simp: ClipRgnCopy_def computes_def EmptyClipRgn_def rgn_ok_def rgn_pts_def)
qed

lemma computes_keep: "rgn_ok (st d) \<Longrightarrow> computes st st d (rgn_pts (st d))"
  by (simp add: computes_def)

lemma computes_mem: "computes st st' d P \<Longrightarrow> P = Q \<Longrightarrow> computes st st' d Q"
  by simp

lemma REGION_RegionOp_eq:
  "REGION_RegionOp st d a b ovl n1 n2 d =
     \<lparr>rgn_type = NULLREGION, rcBound = zero_rect, rects = RegionOp_rects ovl n1 n2 (st a) (st b)\<rparr>"
  "r \<noteq> d \<Longrightarrow> REGION_RegionOp st d a b ovl n1 n2 r = st r"
  by (simp_all add: REGION_RegionOp_def InitClipRgn_def EmptyClipRgn_def SetRectEmpty_def Let_def)

context band_op
begin

lemma RegionOp_computes:
  assumes ok: "rgn_ok (st a)" "rgn_ok (st b)" and ne: "rects (st a) \<noteq> []" "rects (st b) \<noteq> []"
    and g: "\<And>x y A B. x \<in> f {x. (x, y) \<in> A} {x. (x, y) \<in> B} \<longleftrightarrow> (x, y) \<in> g A B"
  shows "computes st (set_extents_type (REGION_RegionOp st d a b ovl non1 non2) d) d
    (g (rgn_pts (st a)) (rgn_pts (st b)))"
proof -
  let ?st = "REGION_RegionOp st d a b ovl non1 non2"
  have bd: "banded (rects (st a))" "banded (rects (st b))"
    "rtop (rcBound (st a)) = rtop (hd (rects (st a)))" "rtop (rcBound (st b)) = rtop (hd (rects (st b)))"
    using ok ne by (auto simp: rgn_ok_def is_extents_def)
  note res = RegionOp_rects_correct [OF bd(1,2) ne bd(3,4)]
  have rd: "rects (?st d) = RegionOp_rects ovl non1 non2 (st a) (st b)" by (simp add: REGION_RegionOp_eq)
  have "rgn_pts (?st d) = g (rgn_pts (st a)) (rgn_pts (st b))"
    by (rule rgn_pts_eqI [where f = f]) (simp_all add: rd res(2) g)
  then show ?thesis
    using set_extents_type_ok [of ?st d] res(1)
    by (simp add: computes_def rd rgn_pts_def REGION_RegionOp_eq(2))
qed

end

lemma ClipRgnIntersect_computes:
  assumes "rgn_ok (st a)" "rgn_ok (st b)"
  shows "computes st (snd (ClipRgnIntersect st d a b)) d (rgn_pts (st a) \<inter> rgn_pts (st b))"
proof (cases "rects (st a) = [] \<or> rects (st b) = [] \<or> \<not> EXTENTCHECK (rcBound (st a)) (rcBound (st b))")
  case True
  then have "rgn_pts (st a) \<inter> rgn_pts (st b) = {}"
    using EXTENTCHECK_disjoint [OF assms] by auto
  then show ?thesis using True computes_empty by (auto simp: ClipRgnIntersect_def)
next
  case False
  then show ?thesis
    using rgn_int.RegionOp_computes [of st a b "(\<inter>)" d] assms by (simp add: ClipRgnIntersect_def)
qed

lemma SubtractRegion_computes:
  assumes "rgn_ok (st m)" "rgn_ok (st s)"
  shows "computes st (snd (SubtractRegion st d m s)) d (rgn_pts (st m) - rgn_pts (st s))"
proof (cases "rects (st m) = [] \<or> rects (st s) = [] \<or> \<not> EXTENTCHECK (rcBound (st m)) (rcBound (st s))")
  case True
  then have "rgn_pts (st m) - rgn_pts (st s) = rgn_pts (st m)"
    using EXTENTCHECK_disjoint [OF assms] by auto
  then show ?thesis using True computes_copy [of st m d] assms(1) by (auto simp: SubtractRegion_def)
next
  case False
  then show ?thesis
    using rgn_sub.RegionOp_computes [of st m s "(-)" d] assms by (simp add: SubtractRegion_def)
qed

lemma UnionRegion_computes:
  assumes "rgn_ok (st a)" "rgn_ok (st b)"
  shows "computes st (snd (UnionRegion st d a b)) d (rgn_pts (st a) \<union> rgn_pts (st b))"
proof -
  have copy: "computes st (if d \<noteq> s then snd (ClipRgnCopy st d s) else st) d P"
    if "rgn_ok (st s)" "rgn_pts (st s) = P" for s P
    using that computes_copy computes_keep by auto
  consider (eq) "a = b \<or> rects (st a) = []" | (nil) "a \<noteq> b" "rects (st a) \<noteq> []" "rects (st b) = []"
    | (sub1) "a \<noteq> b" "rects (st a) \<noteq> []" "rects (st b) \<noteq> []" "subsumes (st a) (st b)"
    | (sub2) "a \<noteq> b" "rects (st a) \<noteq> []" "rects (st b) \<noteq> []" "\<not> subsumes (st a) (st b)" "subsumes (st b) (st a)"
    | (op) "a \<noteq> b" "rects (st a) \<noteq> []" "rects (st b) \<noteq> []" "\<not> subsumes (st a) (st b)" "\<not> subsumes (st b) (st a)"
    by blast
  then show ?thesis
  proof cases
    case eq
    then have "rgn_pts (st b) = rgn_pts (st a) \<union> rgn_pts (st b)" by auto
    from copy [OF assms(2) this] show ?thesis using eq by (simp only: UnionRegion_def if_True snd_conv)
  next
    case nil
    then have "rgn_pts (st a) = rgn_pts (st a) \<union> rgn_pts (st b)" by auto
    from copy [OF assms(1) this] show ?thesis using nil by (simp add: UnionRegion_def)
  next
    case sub1
    then have "rgn_pts (st a) = rgn_pts (st a) \<union> rgn_pts (st b)" using subsumes_pts assms by blast
    from copy [OF assms(1) this] show ?thesis using sub1 by (simp add: UnionRegion_def)
  next
    case sub2
    then have "rgn_pts (st b) = rgn_pts (st a) \<union> rgn_pts (st b)" using subsumes_pts assms by blast
    from copy [OF assms(2) this] show ?thesis using sub2 by (simp add: UnionRegion_def)
  next
    case op
    then show ?thesis
      using rgn_uni.RegionOp_computes [of st a b "(\<union>)" d] assms by (simp add: UnionRegion_def)
  qed
qed

end
