(* ===== verification/Region_Props.thy ===== *)
theory Region_Props
  imports Region_Ops
begin

section \<open>Regions: properties\<close>

text \<open>
  The properties of rect.c and region.c: what the operations compute for every aliasing of
  their arguments, the membership tests, the simulation of point sets by any sequence of
  operations, and the cases in which the code does less than its comments say.
\<close>

subsection \<open>Rectangle variants and spans\<close>

definition heap_ok :: "rgn_store \<Rightarrow> bool" where
  "heap_ok st \<longleftrightarrow> (\<forall>n. rgn_ok (st (Heap n)))"

text \<open>\<open>writes st st' n P\<close>: region \<open>n\<close> gets the points \<open>P\<close> and no other caller's region changes.\<close>

definition writes :: "rgn_store \<Rightarrow> rgn_store \<Rightarrow> nat \<Rightarrow> point set \<Rightarrow> bool" where
  "writes st st' n P \<longleftrightarrow>
     rgn_ok (st' (Heap n)) \<and> rgn_pts (st' (Heap n)) = P \<and> (\<forall>m. m \<noteq> n \<longrightarrow> st' (Heap m) = st (Heap m))"

definition rect_norm :: "rect \<Rightarrow> bool" where
  "rect_norm r \<longleftrightarrow> rleft r \<le> rright r \<and> rtop r \<le> rbottom r"

lemma computes_writes: "computes st st' (Heap n) P \<Longrightarrow> writes st st' n P"
  by (auto simp: computes_def writes_def)

lemma writes_same: "rgn_ok (st (Heap n)) \<Longrightarrow> P = rgn_pts (st (Heap n)) \<Longrightarrow> writes st st n P"
  by (simp add: writes_def)

lemma rect_norm_empty: "rect_norm r \<Longrightarrow> IsRectEmpty r \<longleftrightarrow> \<not> rect_ok r"
  by (auto simp: rect_norm_def IsRectEmpty_def rect_ok_def)

lemma IsRectEmpty_pts: "IsRectEmpty r \<Longrightarrow> rect_pts r = {}"
  by (auto simp: IsRectEmpty_def rect_pts_def split: if_splits)

lemma my_region:
  "with_my_region st rc (Heap n) = st (Heap n)"
  "rgn_pts (with_my_region st rc (Local 0)) = rect_pts rc"
  "rect_ok rc \<Longrightarrow> rgn_ok (with_my_region st rc (Local 0))"
  by (simp_all add: with_my_region_def rgn_ok_single)

lemma my_region_computes:
  "computes (with_my_region st rc) st' (Heap n) P \<Longrightarrow> writes st st' n P"
  by (auto simp: computes_def writes_def my_region)

lemma AddClipRect_writes:
  assumes "rgn_ok (st (Heap n))" "rect_norm rc"
  shows "writes st (snd (AddClipRect st (Heap n) rc)) n (rgn_pts (st (Heap n)) \<union> rect_pts rc)"
proof (cases "IsRectEmpty rc")
  case True
  then show ?thesis using assms IsRectEmpty_pts by (simp add: AddClipRect_def writes_same)
next
  case False
  then have "rect_ok rc" using assms rect_norm_empty by blast
  then have "computes (with_my_region st rc)
      (snd (UnionRegion (with_my_region st rc) (Heap n) (Heap n) (Local 0))) (Heap n)
      (rgn_pts (st (Heap n)) \<union> rect_pts rc)"
    using UnionRegion_computes [of "with_my_region st rc" "Heap n" "Local 0" "Heap n"] assms my_region by simp
  then show ?thesis using False by (simp add: AddClipRect_def my_region_computes)
qed

lemma IntersectClipRect_writes:
  assumes "rgn_ok (st (Heap n))" "rect_norm rc"
  shows "writes st (snd (IntersectClipRect st (Heap n) rc)) n (rgn_pts (st (Heap n)) \<inter> rect_pts rc)"
proof (cases "IsRectEmpty rc")
  case True
  then show ?thesis
    using IsRectEmpty_pts computes_writes [OF computes_empty] by (simp add: IntersectClipRect_def)
next
  case False
  then have "rect_ok rc" using assms rect_norm_empty by blast
  then have "computes (with_my_region st rc)
      (snd (ClipRgnIntersect (with_my_region st rc) (Heap n) (Heap n) (Local 0))) (Heap n)
      (rgn_pts (st (Heap n)) \<inter> rect_pts rc)"
    using ClipRgnIntersect_computes [of "with_my_region st rc" "Heap n" "Local 0" "Heap n"] assms my_region by simp
  then show ?thesis using False by (simp add: IntersectClipRect_def my_region_computes)
qed

lemma SubtractClipRect_writes:
  assumes "rgn_ok (st (Heap n))" "rect_norm rc"
  shows "writes st (snd (SubtractClipRect st (Heap n) rc)) n (rgn_pts (st (Heap n)) - rect_pts rc)"
proof (cases "IsRectEmpty rc \<or> \<not> DoesIntersect (rcBound (st (Heap n))) rc")
  case True
  then have "rgn_pts (st (Heap n)) - rect_pts rc = rgn_pts (st (Heap n))"
    using IsRectEmpty_pts DoesIntersect_pts bound_covers [OF assms(1)] by blast
  then show ?thesis using assms True by (auto simp: SubtractClipRect_def intro: writes_same)
next
  case False
  then have "rect_ok rc" using assms rect_norm_empty by blast
  then have "computes (with_my_region st rc)
      (snd (SubtractRegion (with_my_region st rc) (Heap n) (Heap n) (Local 0))) (Heap n)
      (rgn_pts (st (Heap n)) - rect_pts rc)"
    using SubtractRegion_computes [of "with_my_region st rc" "Heap n" "Local 0" "Heap n"] assms my_region by simp
  then show ?thesis using False by (simp add: SubtractClipRect_def my_region_computes)
qed

lemma cb_region_writes:
  assumes "rgn_ok (st (Heap n))"
  shows "writes st (cb_region st (Heap n) x1 x2 y) n
    (rgn_pts (st (Heap n)) \<union> {min x1 x2..max x1 x2} \<times> {y})"
proof -
  define rc where "rc = (if x2 > x1 then mk_rect x1 y (x2 + 1) (y + 1) else mk_rect x2 y (x1 + 1) (y + 1))"
  let ?st = "with_my_region st rc"
  have ok: "rect_ok rc" and pts: "rect_pts rc = {min x1 x2..max x1 x2} \<times> {y}"
    by (auto simp: rc_def rect_ok_def)
  have eq: "cb_region st (Heap n) x1 x2 y =
      (if rects (st (Heap n)) = [] then snd (ClipRgnCopy ?st (Heap n) (Local 0))
       else snd (UnionRegion ?st (Heap n) (Heap n) (Local 0)))"
    by (simp add: cb_region_def rc_def [symmetric] my_region IsEmptyClipRgn_def)
  show ?thesis
  proof (cases "rects (st (Heap n)) = []")
    case True
    then show ?thesis
      using computes_copy [of ?st "Local 0" "Heap n"] my_region ok unfolding eq
      by (simp add: my_region_computes flip: pts)
  next
    case False
    then show ?thesis
      using UnionRegion_computes [of ?st "Heap n" "Local 0" "Heap n"] my_region ok assms unfolding eq
      by (simp add: my_region_computes flip: pts)
  qed
qed

lemma SetClipRgn_writes:
  assumes "rgn_ok (st (Heap n))" "rect_norm rc"
  shows "writes st (snd (SetClipRgn True st (Heap n) rc)) n
    (if rect_pts rc = {} then rgn_pts (st (Heap n)) else rect_pts rc)"
  using assms rect_norm_empty [OF assms(2)] rgn_ok_single [of rc]
  by (auto simp: SetClipRgn_def EmptyClipRgn_def writes_def rect_pts_empty rgn_ok_def is_extents_def Let_def)

lemma XorRegion_writes:
  assumes "rgn_ok (st (Heap a))" "rgn_ok (st (Heap b))"
  shows "writes st (snd (XorRegion st (Heap n) (Heap a) (Heap b))) n
    ((rgn_pts (st (Heap a)) - rgn_pts (st (Heap b))) \<union> (rgn_pts (st (Heap b)) - rgn_pts (st (Heap a))))"
proof -
  let ?A = "rgn_pts (st (Heap a))" and ?B = "rgn_pts (st (Heap b))"
  define s0 where "s0 = InitClipRgn (InitClipRgn st (Local 0)) (Local 1)"
  define s1 where "s1 = snd (SubtractRegion s0 (Local 0) (Heap a) (Heap b))"
  define s2 where "s2 = snd (SubtractRegion s1 (Local 1) (Heap b) (Heap a))"
  define s3 where "s3 = snd (UnionRegion s2 (Heap n) (Local 0) (Local 1))"
  have h0: "s0 (Heap m) = st (Heap m)" for m by (simp add: s0_def InitClipRgn_def)
  have c1: "computes s0 s1 (Local 0) (?A - ?B)"
    using SubtractRegion_computes [of s0 "Heap a" "Heap b"] assms by (simp add: s1_def h0)
  then have h1: "s1 (Heap m) = st (Heap m)" for m by (simp add: computes_def h0)
  have c2: "computes s1 s2 (Local 1) (?B - ?A)"
    using SubtractRegion_computes [of s1 "Heap b" "Heap a"] assms by (simp add: s2_def h1)
  then have h2: "s2 (Heap m) = st (Heap m)" "s2 (Local 0) = s1 (Local 0)" for m
    by (simp_all add: computes_def h1)
  have "computes s2 s3 (Heap n) ((?A - ?B) \<union> (?B - ?A))"
    using UnionRegion_computes [of s2 "Local 0" "Local 1"] c1 c2 by (simp add: s3_def h2 computes_def)
  then have "writes st s3 n ((?A - ?B) \<union> (?B - ?A))" by (simp add: computes_def writes_def h2)
  moreover have "snd (XorRegion st (Heap n) (Heap a) (Heap b)) = EmptyClipRgn (EmptyClipRgn s3 (Local 0)) (Local 1)"
    by (simp add: XorRegion_def s0_def s1_def s2_def s3_def Let_def)
  ultimately show ?thesis by (simp add: writes_def EmptyClipRgn_def)
qed

lemma OffsetRegion_writes:
  assumes "rgn_ok (st (Heap n))"
  shows "writes st (OffsetRegion st (Heap n) x y) n ((\<lambda>(u, v). (u + x, v + y)) ` rgn_pts (st (Heap n)))"
proof -
  let ?c = "st (Heap n)" and ?o = "\<lambda>r. OffsetRect r x y"
  have yx: "yx_before (?o r) (?o s) \<longleftrightarrow> yx_before r s" "rect_ok (?o r) \<longleftrightarrow> rect_ok r" for r s
    by (auto simp: yx_before_def OffsetRect_def rect_ok_def)
  have "banded (map ?o (rects ?c))"
    using assms by (simp add: rgn_ok_def banded_def sorted_wrt_map yx)
  moreover have "Min (rleft ` ?o ` set (rects ?c)) = Min (rleft ` set (rects ?c)) + x"
    "Max (rright ` ?o ` set (rects ?c)) = Max (rright ` set (rects ?c)) + x" if "rects ?c \<noteq> []"
  proof -
    have i: "rleft ` ?o ` set (rects ?c) = (\<lambda>v. v + x) ` rleft ` set (rects ?c)"
      "rright ` ?o ` set (rects ?c) = (\<lambda>v. v + x) ` rright ` set (rects ?c)"
      by (auto simp: OffsetRect_def image_image)
    show "Min (rleft ` ?o ` set (rects ?c)) = Min (rleft ` set (rects ?c)) + x"
      unfolding i using that by (intro mono_Min_commute [symmetric]) (auto simp: mono_def)
    show "Max (rright ` ?o ` set (rects ?c)) = Max (rright ` set (rects ?c)) + x"
      unfolding i using that by (intro mono_Max_commute [symmetric]) (auto simp: mono_def)
  qed
  ultimately have ok: "rgn_ok (OffsetRegion st (Heap n) x y (Heap n))"
    using assms by (auto simp: OffsetRegion_def rgn_ok_def is_extents_def OffsetRect_def hd_map last_map Let_def)
  have "(u, v) \<in> rgn_pts (OffsetRegion st (Heap n) x y (Heap n)) \<longleftrightarrow> (u - x, v - y) \<in> rgn_pts ?c" for u v
    by (simp add: OffsetRegion_def rgn_pts_def OffsetRect_pts Let_def del: in_rect_pts)
  then have "rgn_pts (OffsetRegion st (Heap n) x y (Heap n)) = (\<lambda>(u, v). (u + x, v + y)) ` rgn_pts ?c"
    by (force simp: image_iff)
  then show ?thesis using ok by (simp add: writes_def OffsetRegion_def Let_def)
qed

subsection \<open>Membership tests\<close>

lemma row_after_drop:
  "row (dropWhile (\<lambda>c. y \<ge> rbottom c) rs) y = row rs y"
  by (induction rs) (auto simp: row_def)

lemma PtInRegion_row:
  assumes b: "banded (rects c)" and ne: "rects c \<noteq> []"
  shows "PtInRegion c x y = Some (x \<in> row (rects c) y)"
proof -
  let ?rs = "rects c"
  have out: "row ?rs y = {}" if "y \<ge> rbottom (last ?rs) \<or> y < rtop (hd ?rs)"
  proof -
    have "rtop (hd ?rs) \<le> rtop r \<and> rbottom r \<le> rbottom (last ?rs)" if "r \<in> set ?rs" for r
    proof
      show "rtop (hd ?rs) \<le> rtop r" using that banded_tops [OF b] by (cases ?rs) auto
      show "rbottom r \<le> rbottom (last ?rs)"
        using that b by (cases ?rs rule: rev_cases)
          (force simp: banded_append banded_Cons yx_before_def rect_ok_def)+
    qed
    then show ?thesis using that by (fastforce simp: row_def)
  qed
  show ?thesis
  proof (cases "y \<ge> rbottom (last ?rs) \<or> y < rtop (hd ?rs)")
    case False
    show ?thesis
    proof (cases "dropWhile (\<lambda>c. y \<ge> rbottom c) ?rs")
      case Nil
      then show ?thesis using row_after_drop [of y ?rs] False ne by (simp add: PtInRegion_def)
    next
      case (Cons d ds)
      have bd: "banded (d # ds)"
        using b takeWhile_dropWhile_id [of "\<lambda>c. y \<ge> rbottom c" ?rs] unfolding Cons
        by (metis banded_append)
      have lt: "y < rbottom d" using Cons hd_dropWhile [of "\<lambda>c. y \<ge> rbottom c" ?rs] by force
      have "list_ex (\<lambda>r. INRECT r x y) (cur_band (d # ds)) \<longleftrightarrow> x \<in> row (d # ds) y"
        using cur_band_is_band [OF bd] lt
        by (auto simp: list_ex_iff INRECT_def row_split [OF bd] is_band_def xset_def)
      then show ?thesis
        using Cons False ne row_after_drop [of y ?rs] by (simp add: PtInRegion_def cur_band_def)
    qed
  qed (use ne out in \<open>auto simp: PtInRegion_def\<close>)
qed

lemma RectInRegion_loop_meets:
  assumes "banded rs"
  shows "rect_ok rc \<Longrightarrow> RectInRegion_loop rs rc \<longleftrightarrow> (\<exists>r \<in> set rs. DoesIntersect r rc)"
  using assms
proof (induction rs)
  case (Cons c cs)
  have ok: "rect_ok c" "banded cs" using Cons.prems by (auto simp: banded_Cons)
  have le: "rtop c \<le> rtop r" if "r \<in> set cs" for r
    using that banded_tops [OF Cons.prems(2)] by auto
  have "RectInRegion_loop (c # cs) rc \<longleftrightarrow>
      DoesIntersect c rc \<or> (\<not> rtop c \<ge> rbottom rc \<and> RectInRegion_loop cs rc)"
    using ok(1) Cons.prems(1) by (auto simp: DoesIntersect_cmp rect_ok_def)
  moreover have "\<not> (\<exists>r \<in> set cs. DoesIntersect r rc)" if "rtop c \<ge> rbottom rc"
    using le that by (force simp: DoesIntersect_cmp)
  ultimately show ?case using Cons.IH [OF Cons.prems(1) ok(2)] by auto
qed simp

subsection \<open>Sequences of operations\<close>

text \<open>The public operations as commands on the caller's regions, and their meaning on point sets.\<close>

datatype rgn_cmd =
    CUnion nat nat nat | CIntersect nat nat nat | CSubtract nat nat nat | CXor nat nat nat
  | CCopy nat nat | CEmpty nat | CSet nat rect | CAdd nat rect | CClip nat rect | CCut nat rect
  | COffset nat int int | CSpan nat int int int

fun exec_cmd :: "rgn_cmd \<Rightarrow> rgn_store \<Rightarrow> rgn_store" where
  "exec_cmd (CUnion d a b) st = snd (UnionRegion st (Heap d) (Heap a) (Heap b))"
| "exec_cmd (CIntersect d a b) st = snd (ClipRgnIntersect st (Heap d) (Heap a) (Heap b))"
| "exec_cmd (CSubtract d a b) st = snd (SubtractRegion st (Heap d) (Heap a) (Heap b))"
| "exec_cmd (CXor d a b) st = snd (XorRegion st (Heap d) (Heap a) (Heap b))"
| "exec_cmd (CCopy d a) st = snd (ClipRgnCopy st (Heap d) (Heap a))"
| "exec_cmd (CEmpty d) st = EmptyClipRgn st (Heap d)"
| "exec_cmd (CSet d rc) st = snd (SetClipRgn True st (Heap d) rc)"
| "exec_cmd (CAdd d rc) st = snd (AddClipRect st (Heap d) rc)"
| "exec_cmd (CClip d rc) st = snd (IntersectClipRect st (Heap d) rc)"
| "exec_cmd (CCut d rc) st = snd (SubtractClipRect st (Heap d) rc)"
| "exec_cmd (COffset d x y) st = OffsetRegion st (Heap d) x y"
| "exec_cmd (CSpan d x1 x2 y) st = cb_region st (Heap d) x1 x2 y"

fun cmd_dst :: "rgn_cmd \<Rightarrow> nat" where
  "cmd_dst (CUnion d a b) = d" | "cmd_dst (CIntersect d a b) = d" | "cmd_dst (CSubtract d a b) = d"
| "cmd_dst (CXor d a b) = d" | "cmd_dst (CCopy d a) = d" | "cmd_dst (CEmpty d) = d"
| "cmd_dst (CSet d rc) = d" | "cmd_dst (CAdd d rc) = d" | "cmd_dst (CClip d rc) = d"
| "cmd_dst (CCut d rc) = d" | "cmd_dst (COffset d x y) = d" | "cmd_dst (CSpan d x1 x2 y) = d"

fun cmd_pts :: "rgn_cmd \<Rightarrow> (nat \<Rightarrow> point set) \<Rightarrow> point set" where
  "cmd_pts (CUnion d a b) S = S a \<union> S b"
| "cmd_pts (CIntersect d a b) S = S a \<inter> S b"
| "cmd_pts (CSubtract d a b) S = S a - S b"
| "cmd_pts (CXor d a b) S = (S a - S b) \<union> (S b - S a)"
| "cmd_pts (CCopy d a) S = S a"
| "cmd_pts (CEmpty d) S = {}"
| "cmd_pts (CSet d rc) S = (if rect_pts rc = {} then S d else rect_pts rc)"
| "cmd_pts (CAdd d rc) S = S d \<union> rect_pts rc"
| "cmd_pts (CClip d rc) S = S d \<inter> rect_pts rc"
| "cmd_pts (CCut d rc) S = S d - rect_pts rc"
| "cmd_pts (COffset d x y) S = (\<lambda>(u, v). (u + x, v + y)) ` S d"
| "cmd_pts (CSpan d x1 x2 y) S = S d \<union> {min x1 x2..max x1 x2} \<times> {y}"

fun cmd_norm :: "rgn_cmd \<Rightarrow> bool" where
  "cmd_norm (CSet d rc) = rect_norm rc" | "cmd_norm (CAdd d rc) = rect_norm rc"
| "cmd_norm (CClip d rc) = rect_norm rc" | "cmd_norm (CCut d rc) = rect_norm rc"
| "cmd_norm c = True"

definition abs_cmd :: "rgn_cmd \<Rightarrow> (nat \<Rightarrow> point set) \<Rightarrow> nat \<Rightarrow> point set" where
  "abs_cmd c S = S(cmd_dst c := cmd_pts c S)"

definition abs_store :: "rgn_store \<Rightarrow> nat \<Rightarrow> point set" where
  "abs_store st n = rgn_pts (st (Heap n))"

lemma exec_cmd_writes:
  assumes "heap_ok st" "cmd_norm c"
  shows "writes st (exec_cmd c st) (cmd_dst c) (cmd_pts c (abs_store st))"
proof -
  have ok: "rgn_ok (st (Heap n))" for n using assms(1) by (simp add: heap_ok_def)
  have set: "rect_norm rc \<Longrightarrow> writes st (snd (SetClipRgn True st (Heap n) rc)) n
      (if rect_pts rc = {} then abs_store st n else rect_pts rc)" for n rc
    unfolding abs_store_def using SetClipRgn_writes ok by blast
  show ?thesis
  proof (cases c)
    case (CSet d rc)
    then show ?thesis using set assms(2) by (simp only: exec_cmd.simps cmd_pts.simps cmd_dst.simps cmd_norm.simps)
  qed (use assms(2) in \<open>simp_all add: abs_store_def ok AddClipRect_writes IntersectClipRect_writes
        SubtractClipRect_writes cb_region_writes XorRegion_writes OffsetRegion_writes
        computes_writes UnionRegion_computes ClipRgnIntersect_computes SubtractRegion_computes
        computes_copy computes_empty\<close>)
qed

lemma exec_cmd_simulates:
  assumes "heap_ok st" "cmd_norm c"
  shows "heap_ok (exec_cmd c st)" "abs_store (exec_cmd c st) = abs_cmd c (abs_store st)"
proof -
  note w = exec_cmd_writes [OF assms, unfolded writes_def]
  show "heap_ok (exec_cmd c st)"
    unfolding heap_ok_def
  proof
    fix n show "rgn_ok (exec_cmd c st (Heap n))"
      using w assms(1) by (cases "n = cmd_dst c") (simp_all add: heap_ok_def)
  qed
  show "abs_store (exec_cmd c st) = abs_cmd c (abs_store st)"
    using w by (auto simp: abs_cmd_def abs_store_def fun_eq_iff)
qed

lemma run_cmds_simulates:
  assumes "heap_ok st" "\<forall>c \<in> set cs. cmd_norm c"
  shows "heap_ok (fold exec_cmd cs st)" "abs_store (fold exec_cmd cs st) = fold abs_cmd cs (abs_store st)"
proof -
  have "heap_ok (fold exec_cmd cs st) \<and> abs_store (fold exec_cmd cs st) = fold abs_cmd cs (abs_store st)"
    using assms by (induction cs arbitrary: st) (simp_all add: exec_cmd_simulates)
  then show "heap_ok (fold exec_cmd cs st)" "abs_store (fold exec_cmd cs st) = fold abs_cmd cs (abs_store st)"
    by simp_all
qed

subsection \<open>The properties\<close>

definition init_store :: rgn_store where
  "init_store r = \<lparr>rgn_type = NULLREGION, rcBound = zero_rect, rects = []\<rparr>"

lemma heap_ok_init: "heap_ok init_store"
  by (simp add: heap_ok_def init_store_def rgn_ok_def is_extents_def banded_def)

definition demo_store :: rgn_store where
  "demo_store = init_store(
     Heap 0 := \<lparr>rgn_type = SIMPLEREGION, rcBound = mk_rect 0 0 10 10, rects = [mk_rect 0 0 10 10]\<rparr>,
     Heap 1 := \<lparr>rgn_type = SIMPLEREGION, rcBound = mk_rect 5 5 20 20, rects = [mk_rect 5 5 20 20]\<rparr>)"

lemma demo_ok: "rgn_ok (demo_store (Heap 0))" "rgn_ok (demo_store (Heap 1))"
  by (simp_all add: demo_store_def rgn_ok_single rect_ok_def)

lemma demo_pts:
  "rgn_pts (demo_store (Heap 0)) = rect_pts (mk_rect 0 0 10 10)"
  "rgn_pts (demo_store (Heap 1)) = rect_pts (mk_rect 5 5 20 20)"
  by (simp_all add: demo_store_def)

text \<open>
  C1.  Any sequence of region operations, on any regions and with any aliasing of sources and
  destination, simulates the same sequence on sets of points, and every region stays banded
  with exact extents and the right type.  The rectangles handed in are not inverted.
\<close>

theorem regions_simulate_point_sets:
  assumes "heap_ok st" and "\<forall>c \<in> set cs. cmd_norm c"
  shows "heap_ok (fold exec_cmd cs st)
    \<and> (\<forall>n. rgn_pts (fold exec_cmd cs st (Heap n)) = fold abs_cmd cs (abs_store st) n)"
  using run_cmds_simulates [OF assms] by (simp add: abs_store_def fun_eq_iff)

theorem regions_simulate_point_sets_witness:
  "rgn_pts (fold exec_cmd [CAdd 0 (mk_rect 0 0 10 10), CAdd 0 (mk_rect 5 5 20 20), CXor 0 0 1] init_store (Heap 0))
    = rect_pts (mk_rect 0 0 10 10) \<union> rect_pts (mk_rect 5 5 20 20)"
proof -
  let ?cs = "[CAdd 0 (mk_rect 0 0 10 10), CAdd 0 (mk_rect 5 5 20 20), CXor 0 0 1]"
  have norm: "\<forall>c \<in> set ?cs. cmd_norm c" by (simp add: rect_norm_def)
  have e: "abs_store init_store = (\<lambda>n. {})" by (simp add: abs_store_def init_store_def fun_eq_iff)
  show ?thesis
    using regions_simulate_point_sets [OF heap_ok_init norm] unfolding e by (auto simp: abs_cmd_def)
qed

text \<open>
  C2.  \<open>UnionRegion\<close>, \<open>ClipRgnIntersect\<close> and \<open>SubtractRegion\<close> of well-formed regions give exactly the union, the
  common points and the difference, in a well-formed region, for every aliasing of the result with the
  operands.  No other region changes, and the results are TRUE but for an intersection without a common point.
\<close>

theorem region_operations_correct:
  assumes "rgn_ok (st a)" and "rgn_ok (st b)"
  shows "(let (res, st') = UnionRegion st d a b in
        res \<and> rgn_ok (st' d) \<and> rgn_pts (st' d) = rgn_pts (st a) \<union> rgn_pts (st b) \<and> (\<forall>r. r \<noteq> d \<longrightarrow> st' r = st r))
    \<and> (let (res, st') = ClipRgnIntersect st d a b in
        (\<not> res \<longrightarrow> rgn_pts (st a) \<inter> rgn_pts (st b) = {})
        \<and> rgn_ok (st' d) \<and> rgn_pts (st' d) = rgn_pts (st a) \<inter> rgn_pts (st b) \<and> (\<forall>r. r \<noteq> d \<longrightarrow> st' r = st r))
    \<and> (let (res, st') = SubtractRegion st d a b in
        res \<and> rgn_ok (st' d) \<and> rgn_pts (st' d) = rgn_pts (st a) - rgn_pts (st b) \<and> (\<forall>r. r \<noteq> d \<longrightarrow> st' r = st r))"
proof -
  have "fst (ClipRgnIntersect st d a b) \<or> rgn_pts (st a) \<inter> rgn_pts (st b) = {}"
    using EXTENTCHECK_disjoint [OF assms] by (auto simp: ClipRgnIntersect_def split: if_splits)
  moreover have "fst (UnionRegion st d a b)" "fst (SubtractRegion st d a b)"
    by (simp_all add: UnionRegion_def SubtractRegion_def)
  ultimately show ?thesis
    using UnionRegion_computes [OF assms, of d] ClipRgnIntersect_computes [OF assms, of d] SubtractRegion_computes [OF assms, of d]
    by (auto simp: computes_def split_beta Let_def)
qed

theorem region_operations_correct_witness:
  "rgn_pts (snd (UnionRegion demo_store (Heap 0) (Heap 0) (Heap 1)) (Heap 0))
      = rect_pts (mk_rect 0 0 10 10) \<union> rect_pts (mk_rect 5 5 20 20)
    \<and> rgn_pts (snd (ClipRgnIntersect demo_store (Heap 1) (Heap 0) (Heap 1)) (Heap 1))
      = rect_pts (mk_rect 0 0 10 10) \<inter> rect_pts (mk_rect 5 5 20 20)
    \<and> rgn_pts (snd (SubtractRegion demo_store (Heap 1) (Heap 0) (Heap 1)) (Heap 1))
      = rect_pts (mk_rect 0 0 10 10) - rect_pts (mk_rect 5 5 20 20)"
  using region_operations_correct [OF demo_ok, of "Heap 0"] region_operations_correct [OF demo_ok, of "Heap 1"]
  by (simp only: split_beta Let_def demo_pts)

lemma PtInRegion_decides:
  "rgn_ok c \<Longrightarrow> PtInRegion c x y = (if rects c = [] then None else Some ((x, y) \<in> rgn_pts c))"
  using PtInRegion_row [of c x y] by (auto simp: rgn_ok_def in_rgn_pts PtInRegion_def)

lemma RectInRegion_meets:
  assumes "rgn_ok c" and "rect_ok rc"
  shows "RectInRegion c rc \<longleftrightarrow> rgn_pts c \<inter> rect_pts rc \<noteq> {}"
proof -
  have "rgn_pts c \<inter> rect_pts rc = {}" if "\<not> EXTENTCHECK (rcBound c) rc"
    using EXTENTCHECK_disjoint [OF assms(1) rgn_ok_single [OF assms(2)]] that by simp
  moreover have "(\<exists>r \<in> set (rects c). DoesIntersect r rc) \<longleftrightarrow> rgn_pts c \<inter> rect_pts rc \<noteq> {}"
    unfolding DoesIntersect_pts rgn_pts_def by blast
  ultimately show ?thesis
    using RectInRegion_loop_meets [of "rects c" rc] assms by (auto simp: RectInRegion_def rgn_ok_def)
qed

text \<open>
  The two tests of a well-formed region: \<open>PtInRegion\<close> decides membership when the region is not empty
  and reads through a NULL pointer when it is; \<open>RectInRegion\<close> holds exactly when the rectangle, not empty
  itself, has a point in common with the region.
\<close>

theorem PtInRegion_correct:
  assumes "rgn_ok c" and "rect_ok rc"
  shows "PtInRegion c x y = (if rects c = [] then None else Some ((x, y) \<in> rgn_pts c))
    \<and> (RectInRegion c rc \<longleftrightarrow> rgn_pts c \<inter> rect_pts rc \<noteq> {})"
  using PtInRegion_decides [OF assms(1)] RectInRegion_meets [OF assms] by simp

theorem PtInRegion_correct_witness:
  "PtInRegion (demo_store (Heap 1)) 5 19 = Some True \<and> PtInRegion (demo_store (Heap 1)) 20 5 = Some False
    \<and> PtInRegion (init_store (Heap 0)) 0 0 = None
    \<and> (RectInRegion (demo_store (Heap 1)) (mk_rect 0 0 6 6)
        \<longleftrightarrow> rect_pts (mk_rect 5 5 20 20) \<inter> rect_pts (mk_rect 0 0 6 6) \<noteq> {})"
proof -
  have rc: "rect_ok (mk_rect 0 0 6 6)" by (simp add: rect_ok_def)
  show ?thesis
    using PtInRegion_correct [OF demo_ok(2) rc, of 5 19] PtInRegion_correct [OF demo_ok(2) rc, of 20 5]
      PtInRegion_correct [of "init_store (Heap 0)" "mk_rect 0 0 6 6" 0 0] heap_ok_init rc
    by (simp add: demo_store_def heap_ok_def init_store_def)
qed

text \<open>
  \<open>SubtractRect\<close> writes at most four rectangles, which together hold exactly the points
  of the first rectangle outside the second, and which do not overlap each other.
\<close>

theorem SubtractRect_partitions:
  "length (SubtractRect r s) \<le> 4
    \<and> (\<Union>p \<in> set (SubtractRect r s). rect_pts p) = rect_pts r - rect_pts s
    \<and> sorted_wrt (\<lambda>p q. rect_pts p \<inter> rect_pts q = {}) (SubtractRect r s)"
proof (intro conjI SubtractRect_pts)
  show "length (SubtractRect r s) \<le> 4" by (simp add: SubtractRect_def Let_def)
  show "sorted_wrt (\<lambda>p q. rect_pts p \<inter> rect_pts q = {}) (SubtractRect r s)"
    by (auto simp: SubtractRect_def Let_def sorted_wrt_append DoesIntersect_cmp rect_ok_def)
qed

text \<open>
  \<open>REGION_RegionOp\<close> does not merge bands "whenever possible": two rectangles that touch
  and cover the same columns stay two bands, because the sweep hands \<open>REGION_Coalesce\<close> the
  last rectangle of the band before as the start of the current band.
\<close>

theorem UnionRegion_leaves_mergeable_bands:
  "rects (snd (AddClipRect (snd (AddClipRect init_store (Heap 0) (mk_rect 0 0 10 10)))
     (Heap 0) (mk_rect 0 10 10 20)) (Heap 0)) = [mk_rect 0 0 10 10, mk_rect 0 10 10 20]"
  by code_simp

end
