(* ===== verification/Generators.thy ===== *)
theory Generators
  imports Rect "HOL-Library.Word"
begin

section \<open>Clipping of lines, lines, circles, ellipses and arcs (src/newgdi/generators.c)\<close>

text \<open>
  A generator calls back for each step of a line, or each horizontal span or point of a shape; the
  model gives the list of these calls.  A loop that a shape could keep from ending is a partial
  function.  Coordinates are integers, and the code's products are taken where they do not
  overflow.
\<close>

unbundle bit_operations_syntax

subsection \<open>The line clipper\<close>

definition OC_LEFT :: int where "OC_LEFT = 1"
definition OC_RIGHT :: int where "OC_RIGHT = 2"
definition OC_TOP :: int where "OC_TOP = 4"
definition OC_BOTTOM :: int where "OC_BOTTOM = 8"

lemmas OC_defs = OC_LEFT_def OC_RIGHT_def OC_TOP_def OC_BOTTOM_def

definition outcode :: "rect \<Rightarrow> int \<Rightarrow> int \<Rightarrow> int" where
  "outcode cliprc xx yy =
     (let code = 0;
          code = (if xx < rleft cliprc then code OR OC_LEFT
                  else if xx \<ge> rright cliprc then code OR OC_RIGHT
                  else code)
      in if yy < rtop cliprc then code OR OC_TOP
         else if yy \<ge> rbottom cliprc then code OR OC_BOTTOM
         else code)"

text \<open>The operands of \<open>/\<close> and \<open>%\<close> are never negative here, so C divides as \<open>div\<close> does.\<close>

definition FloorDiv :: "int \<Rightarrow> int \<Rightarrow> int" where
  "FloorDiv a b =
     (if b > 0
      then if a > 0 then a div b
           else let fl = - ((- a) div b) in if (- a) mod b \<noteq> 0 then fl - 1 else fl
      else if a > 0
      then let fl = - (a div (- b)) in if a mod (- b) \<noteq> 0 then fl - 1 else fl
      else (- a) div (- b))"

definition CeilDiv :: "int \<Rightarrow> int \<Rightarrow> int" where
  "CeilDiv a b = (if b > 0 then FloorDiv (a - 1) b + 1 else FloorDiv (- a - 1) (- b) + 1)"

type_synonym segment = "point \<times> point"

text \<open>The point in which the line from \<open>(X0, Y0)\<close> leaves the side of the rectangle that \<open>code\<close> names.\<close>

definition side_point :: "rect \<Rightarrow> segment \<Rightarrow> int \<Rightarrow> point" where
  "side_point cliprc line code =
     (case line of ((X0, Y0), (X1, Y1)) \<Rightarrow>
       let dx = X1 - X0;
           dy = Y1 - Y0;
           xmajor = \<bar>dx\<bar> > \<bar>dy\<bar>;
           slope = (dx \<ge> 0 \<and> dy \<ge> 0) \<or> (dx < 0 \<and> dy < 0)
       in if code AND OC_LEFT \<noteq> 0
          then let x = rleft cliprc
               in (x, if xmajor then Y0 + FloorDiv (dy * (x - X0) * 2 + dx) (2 * dx)
                      else if slope then Y0 + CeilDiv (dy * ((x - X0) * 2 - 1)) (2 * dx)
                      else Y0 + FloorDiv (dy * ((x - X0) * 2 - 1)) (2 * dx))
          else if code AND OC_RIGHT \<noteq> 0
          then let x = rright cliprc - 1
               in (x, if xmajor then Y0 + FloorDiv (dy * (x - X0) * 2 + dx) (2 * dx)
                      else if slope then Y0 + CeilDiv (dy * ((x - X0) * 2 + 1)) (2 * dx) - 1
                      else Y0 + FloorDiv (dy * ((x - X0) * 2 + 1)) (2 * dx) + 1)
          else if code AND OC_TOP \<noteq> 0
          then let y = rtop cliprc
               in (if xmajor
                   then if slope then X0 + CeilDiv (dx * ((y - Y0) * 2 - 1)) (2 * dy)
                        else X0 + FloorDiv (dx * ((y - Y0) * 2 - 1)) (2 * dy)
                   else X0 + FloorDiv (dx * (y - Y0) * 2 + dy) (2 * dy), y)
          else let y = rbottom cliprc - 1
               in (if xmajor
                   then if slope then X0 + CeilDiv (dx * ((y - Y0) * 2 + 1)) (2 * dy) - 1
                        else X0 + FloorDiv (dx * ((y - Y0) * 2 + 1)) (2 * dy) + 1
                   else X0 + FloorDiv (dx * (y - Y0) * 2 + dy) (2 * dy), y))"

text \<open>The loop of the general case: the points found so far, and their outcodes.  The segment is kept on rejection.\<close>

partial_function (option) clip_loop :: "rect \<Rightarrow> segment \<Rightarrow> segment \<Rightarrow> int \<Rightarrow> int \<Rightarrow> (bool \<times> segment) option" where
  "clip_loop cliprc line cur first_code last_code =
     (let code = (if first_code = 0 then last_code else first_code);
          p = side_point cliprc line code;
          cur = (if first_code \<noteq> 0 then (p, snd cur) else (fst cur, p));
          first_code' = (if first_code \<noteq> 0 then outcode cliprc (fst p) (snd p) else first_code);
          last_code' = (if first_code \<noteq> 0 then last_code else outcode cliprc (fst p) (snd p))
      in if first_code' AND last_code' \<noteq> 0 then Some (False, line)
         else if first_code' OR last_code' = 0 then Some (True, cur)
         else clip_loop cliprc line cur first_code' last_code')"

definition LineClipper :: "rect \<Rightarrow> segment \<Rightarrow> (bool \<times> segment) option" where
  "LineClipper cliprc line =
     (case line of ((x0, y0), (x1, y1)) \<Rightarrow>
       if x0 = x1 \<and> y0 = y1 then Some (PtInRect cliprc x0 y0, line)
       else if x0 = x1
       then let (sy, ey) = (if y1 > y0 then (y0, y1) else (y1, y0))
            in if x0 \<ge> rright cliprc \<or> sy \<ge> rbottom cliprc \<or> x0 < rleft cliprc \<or> ey < rtop cliprc
               then Some (False, line)
               else if x0 \<ge> rleft cliprc \<and> sy \<ge> rtop cliprc \<and> x0 < rright cliprc \<and> ey < rbottom cliprc
               then Some (True, line)
               else let sy = (if sy < rtop cliprc then rtop cliprc else sy);
                        ey = (if ey \<ge> rbottom cliprc then rbottom cliprc - 1 else ey)
                    in if ey < sy then Some (False, line) else Some (True, ((x0, sy), (x1, ey)))
       else if y0 = y1
       then let (sx, ex) = (if x1 > x0 then (x0, x1) else (x1, x0))
            in if sx \<ge> rright cliprc \<or> y0 \<ge> rbottom cliprc \<or> ex < rleft cliprc \<or> y0 < rtop cliprc
               then Some (False, line)
               else if sx \<ge> rleft cliprc \<and> y0 \<ge> rtop cliprc \<and> ex < rright cliprc \<and> y0 < rbottom cliprc
               then Some (True, line)
               else let sx = (if sx < rleft cliprc then rleft cliprc else sx);
                        ex = (if ex \<ge> rright cliprc then rright cliprc - 1 else ex)
                    in if ex < sx then Some (False, line) else Some (True, ((sx, y0), (ex, y1)))
       else let first_code = outcode cliprc x0 y0;
                last_code = outcode cliprc x1 y1
            in if first_code OR last_code = 0 then Some (True, line)
               else if first_code AND last_code \<noteq> 0 then Some (False, line)
               else clip_loop cliprc line line first_code last_code)"

subsection \<open>The line generator\<close>

text \<open>The \<open>do ... while (p != q)\<close> loop of a vertical or horizontal line: the calls so far and the next ones.\<close>

partial_function (option) straight_loop :: "int \<Rightarrow> int \<Rightarrow> int \<Rightarrow> point \<Rightarrow> point list \<Rightarrow> point list option" where
  "straight_loop p q dir step out =
     (let out = out @ [step]; p = p + dir
      in if p \<noteq> q then straight_loop p q dir step out else Some out)"

text \<open>
  The \<open>while\<close> loop of a sloped line along its longer side: from \<open>p\<close> to \<open>q\<close> by \<open>inc\<close> with the remainder, the
  lengths of the longer and the shorter side, and the two kinds of step.
\<close>

partial_function (option) slope_loop ::
  "int \<Rightarrow> int \<Rightarrow> int \<Rightarrow> int \<Rightarrow> int \<Rightarrow> int \<Rightarrow> point \<Rightarrow> point \<Rightarrow> point list \<Rightarrow> point list option" where
  "slope_loop p q inc rem long short both along out =
     (if p \<noteq> q
      then let p = p + inc; rem = rem + short
           in if rem \<ge> long
              then slope_loop p q inc (rem - long) long short both along (out @ [both])
              else slope_loop p q inc rem long short both along (out @ [along])
      else Some out)"

definition LineGenerator :: "int \<Rightarrow> int \<Rightarrow> int \<Rightarrow> int \<Rightarrow> point list option" where
  "LineGenerator x1 y1 x2 y2 =
     (let out = [(0, 0)]
      in if x1 = x2 \<and> y1 = y2 then Some out
         else if x1 = x2
         then let dir = (if y2 > y1 then 1 else -1) in straight_loop y1 y2 dir (0, dir) out
         else if y1 = y2
         then let dir = (if x2 > x1 then 1 else -1) in straight_loop x1 x2 dir (dir, 0) out
         else
           let xdelta = x2 - x1;
               ydelta = y2 - y1;
               xdelta = (if xdelta < 0 then - xdelta else xdelta);
               ydelta = (if ydelta < 0 then - ydelta else ydelta);
               xinc = (if x2 > x1 then 1 else -1);
               yinc = (if y2 > y1 then 1 else -1)
           in if xdelta \<ge> ydelta
              then slope_loop x1 x2 xinc (drop_bit 1 xdelta) xdelta ydelta (xinc, yinc) (xinc, 0) out
              else slope_loop y1 y2 yinc (drop_bit 1 ydelta) ydelta xdelta (xinc, yinc) (0, yinc) out)"

subsection \<open>Circles\<close>

text \<open>A span from \<open>x1\<close> to \<open>x2\<close> on row \<open>y\<close>.\<close>

type_synonym span = "int \<times> int \<times> int"

definition circle_calls :: "int \<Rightarrow> int \<Rightarrow> int \<Rightarrow> int \<Rightarrow> span list" where
  "circle_calls x y cx cy =
     [(x - cx, x + cx, y + cy)]
     @ (if cy \<noteq> 0 then [(x - cx, x + cx, y - cy)] else [])
     @ (if cx \<noteq> cy
        then [(x - cy, x + cy, y + cx)] @ (if cx \<noteq> 0 then [(x - cy, x + cy, y - cx)] else [])
        else [])"

function circle_loop :: "int \<Rightarrow> int \<Rightarrow> int \<Rightarrow> int \<Rightarrow> int \<Rightarrow> int \<Rightarrow> int \<Rightarrow> span list" where
  "circle_loop x y cx cy df d_e d_se =
     (let calls = circle_calls x y cx cy;
          (df', d_e', d_se', cy') =
            (if df < 0 then (df + d_e, d_e + 2, d_se + 2, cy) else (df + d_se, d_e + 2, d_se + 4, cy - 1));
          cx' = cx + 1
      in calls @ (if cx' \<le> cy' then circle_loop x y cx' cy' df' d_e' d_se' else []))"
  by auto
termination
  by (relation "measure (\<lambda>(_, _, cx, cy, _). nat (cy + 1 - cx))") (auto split: if_splits)

declare circle_loop.simps [simp del]

definition CircleGenerator :: "int \<Rightarrow> int \<Rightarrow> int \<Rightarrow> span list" where
  "CircleGenerator x y r = circle_loop x y 0 r (1 - r) 3 (-2 * r + 5)"

subsection \<open>Ellipses\<close>

text \<open>The quotient of C, which rounds towards zero.\<close>

definition cdiv :: "int \<Rightarrow> int \<Rightarrow> int" where
  "cdiv a b = sgn a * sgn b * (\<bar>a\<bar> div \<bar>b\<bar>)"

text \<open>The loop for the longer half axis \<open>major\<close>; \<open>calls\<close> are the spans for new and old \<open>h\<close>, \<open>i\<close>, \<open>j\<close> and \<open>k\<close>.\<close>

type_synonym ellipse_state = "int \<times> int \<times> int \<times> int"

partial_function (option) ellipse_loop ::
  "int \<Rightarrow> int \<Rightarrow> (ellipse_state \<Rightarrow> ellipse_state \<Rightarrow> span list) \<Rightarrow> int \<Rightarrow> int \<Rightarrow> ellipse_state
    \<Rightarrow> span list \<Rightarrow> span list option" where
  "ellipse_loop major minor calls ix iy old out =
     (let h = drop_bit 6 (ix + 32);
          i = drop_bit 6 (iy + 32);
          j = cdiv (h * minor) major;
          k = cdiv (i * minor) major;
          out = out @ calls old (h, i, j, k);
          ix = ix + cdiv iy major;
          iy = iy - cdiv ix major
      in if i > h then ellipse_loop major minor calls ix iy (h, i, j, k) out else Some out)"

text \<open>A span at distance \<open>b\<close> below the centre, and its mirror image above.\<close>

definition mirrored :: "int \<Rightarrow> int \<Rightarrow> int \<Rightarrow> int \<Rightarrow> span list" where
  "mirrored x y a b = [(x - a, x + a, y + b)] @ (if b \<noteq> 0 then [(x - a, x + a, y - b)] else [])"

definition wide_calls :: "int \<Rightarrow> int \<Rightarrow> ellipse_state \<Rightarrow> ellipse_state \<Rightarrow> span list" where
  "wide_calls x y old new =
     (case (old, new) of ((oh, oi, oj, ok), (h, i, j, k)) \<Rightarrow>
       (if (h \<noteq> oh \<or> k \<noteq> ok) \<and> h < oi then mirrored x y h k else [])
       @ (if (i \<noteq> oi \<or> j \<noteq> oj) \<and> h < i then mirrored x y i j else []))"

definition high_calls :: "int \<Rightarrow> int \<Rightarrow> ellipse_state \<Rightarrow> ellipse_state \<Rightarrow> span list" where
  "high_calls x y old new =
     (case (old, new) of ((oh, oi, oj, ok), (h, i, j, k)) \<Rightarrow>
       (if (j \<noteq> oj \<or> i \<noteq> oi) \<and> h < i then mirrored x y j i else [])
       @ (if (k \<noteq> ok \<or> h \<noteq> oh) \<and> h < oi then mirrored x y k h else []))"

definition EllipseGenerator :: "int \<Rightarrow> int \<Rightarrow> int \<Rightarrow> int \<Rightarrow> span list option" where
  "EllipseGenerator x y rx ry =
     (let rx = (if rx < 1 then 1 else rx);
          ry = (if ry < 1 then 1 else ry);
          old = (0xFFFF, 0xFFFF, 0xFFFF, 0xFFFF)
      in if rx > ry then ellipse_loop rx ry (wide_calls x y) 0 (rx * 64) old []
         else ellipse_loop ry rx (high_calls x y) 0 (ry * 64) old [])"

subsection \<open>Arcs\<close>

text \<open>
  \<open>point_on_arc r a\<close> stands for \<open>get_point_on_arc\<close>, which uses the sine and the cosine of the C library on
  floating point numbers: the point at angle \<open>a\<close> on the circle of radius \<open>r\<close>.
\<close>

definition quadrant :: "int \<Rightarrow> int \<Rightarrow> int" where
  "quadrant px py = (if px \<ge> 0 then if py \<le> 0 then 0 else 3 else if py < 0 then 1 else 2)"

text \<open>The three points that may come next, by how far their squared radius is from the circle's.\<close>

definition arc_move :: "int \<Rightarrow> int \<Rightarrow> int \<Rightarrow> int \<Rightarrow> int \<Rightarrow> int \<Rightarrow> int \<Rightarrow> (int \<times> int) \<times> (int \<times> int)" where
  "arc_move rr px py xx yy dx dy =
     (let xx_new = (px + dx) * (px + dx);
          yy_new = (py + dy) * (py + dy) - rr;
          rr1 = \<bar>xx_new + yy\<bar>;
          rr2 = \<bar>xx_new + yy_new\<bar>;
          rr3 = \<bar>xx + yy_new\<bar>
      in (if rr3 \<ge> min rr1 rr2 then (px + dx, xx_new) else (px, xx),
          if rr1 > min rr2 rr3 then (py + dy, yy_new) else (py, yy)))"

text \<open>The first half of a round: a change of quadrant, or the end of the loop.\<close>

definition arc_turn :: "int \<Rightarrow> int \<Rightarrow> int \<Rightarrow> int \<Rightarrow> int \<Rightarrow> int \<Rightarrow> (int \<times> int \<times> int) option" where
  "arc_turn qe q px py dx dy =
     (if q AND 1 = 0
      then if px = 0 then if qe = q then None else Some (q + 1, dx, - dy) else Some (q, dx, dy)
      else if py = 0 then if qe = q then None else Some (q + 1, - dx, dy) else Some (q, dx, dy))"

definition arc_reached :: "int \<Rightarrow> int \<Rightarrow> int \<Rightarrow> int \<Rightarrow> int \<Rightarrow> int \<Rightarrow> bool" where
  "arc_reached px py ex ey dx dy \<longleftrightarrow>
     (if dy > 0 then py \<ge> ey else py \<le> ey) \<and> (if dx > 0 then px \<ge> ex else px \<le> ex)"

text \<open>The loop gives the last position and the calls, as offsets from the centre.\<close>

partial_function (option) arc_loop ::
  "int \<Rightarrow> int \<Rightarrow> int \<Rightarrow> int \<Rightarrow> int \<Rightarrow> int \<Rightarrow> int \<Rightarrow> int \<Rightarrow> int \<Rightarrow> int \<Rightarrow> int \<Rightarrow> point list
    \<Rightarrow> (int \<times> int \<times> point list) option" where
  "arc_loop rr ex ey qe q px py xx yy dx dy out =
     (case arc_turn qe q px py dx dy of
        None \<Rightarrow> Some (px, py, out)
      | Some (q, dx, dy) \<Rightarrow>
          if qe = q \<and> arc_reached px py ex ey dx dy then Some (px, py, out)
          else case arc_move rr px py xx yy dx dy of
            ((px', xx'), (py', yy')) \<Rightarrow> arc_loop rr ex ey qe q px' py' xx' yy' dx dy (out @ [(px, py)]))"

definition CircleArcGenerator ::
  "(int \<Rightarrow> int \<Rightarrow> point) \<Rightarrow> int \<Rightarrow> int \<Rightarrow> int \<Rightarrow> int \<Rightarrow> int \<Rightarrow> point list option" where
  "CircleArcGenerator point_on_arc x y r ang1 ang2 =
     (let (ang1, ang2) = (if ang2 < 0 then (ang1 + ang2, ang1) else (ang1, ang2 + ang1));
          (sx, sy) = point_on_arc r ang1;
          (ex, ey) = point_on_arc r ang2;
          rr = r * r;
          q = quadrant sx sy;
          sq = q;
          qe = quadrant ex ey;
          qe = (if q > qe then qe + 4 else if q = qe \<and> ang2 < ang1 then qe + 4 else qe);
          dy = (if (q + 1) AND 2 = 0 then -1 else 1);
          dx = (if q AND 2 = 0 then -1 else 1)
      in map_option (\<lambda>(px, py, out).
           map (\<lambda>(px, py). (x + px, y + py))
             (out @ (if px \<noteq> sx \<or> py \<noteq> sy \<or> sq = qe then [(px, py)] else [])))
           (arc_loop rr ex ey qe q sx sy (sx * sx) (sy * sy - rr) dx dy []))"

end
