(* ===== verification/Generators_Props.thy ===== *)
theory Generators_Props
  imports Generators
begin

section \<open>What the generators draw\<close>

text \<open>
  Division with the floor, the line as a closed form of its points, and the outcodes of the
  clipper.
\<close>

subsection \<open>Division\<close>

lemma neg_div:
  fixes a b :: int
  assumes "0 < b"
  shows "a div b = (let q = - ((- a) div b) in if (- a) mod b \<noteq> 0 then q - 1 else q)"
proof -
  have "a mod b \<noteq> b" using pos_mod_bound [OF assms, of a] by simp
  then show ?thesis using assms by (simp add: Let_def zdiv_zminus1_eq_if zmod_zminus1_eq_if)
qed

lemma FloorDiv_floor:
  assumes "b \<noteq> 0"
  shows "FloorDiv a b = a div b"
proof (cases "0 < b")
  case True
  then show ?thesis using neg_div [of b a] by (auto simp: FloorDiv_def Let_def)
next
  case False
  then have "(- a) div (- b) = (let q = - (a div - b) in if a mod - b \<noteq> 0 then q - 1 else q)"
    using neg_div [of "- b" "- a"] assms by simp
  then show ?thesis using False by (auto simp: FloorDiv_def Let_def)
qed

lemma ceiling_pos:
  fixes a b :: int
  assumes "0 < b"
  shows "(a - 1) div b + 1 = - ((- a) div b)"
proof -
  define q s where "q = (- a) div b" and "s = (- a) mod b"
  have "0 \<le> s" "s < b" using assms by (simp_all add: s_def)
  moreover have "- a = b * q + s" by (simp add: q_def s_def)
  then have "a - 1 = b * (- q - 1) + (b - s - 1)" by (simp add: algebra_simps)
  ultimately have "(a - 1) div b = - q - 1" using int_div_pos_eq [of "a - 1" b "- q - 1" "b - s - 1"] by simp
  then show ?thesis by (simp add: q_def)
qed

lemma CeilDiv_ceiling: "b \<noteq> 0 \<Longrightarrow> CeilDiv a b = - ((- a) div b)"
  using ceiling_pos [of b a] ceiling_pos [of "- b" "- a"]
  by (auto simp: CeilDiv_def FloorDiv_floor div_minus_right)

subsection \<open>Lines\<close>

text \<open>The points a list of steps passes through, the first step from the start included.\<close>

fun walk :: "point \<Rightarrow> point list \<Rightarrow> point list" where
  "walk p [] = []"
| "walk p ((dx, dy) # steps) = (fst p + dx, snd p + dy) # walk (fst p + dx, snd p + dy) steps"

text \<open>
  The line as a closed form: one point for each unit of the longer side, and along the shorter side the
  nearest integer, a half rounded up in the direction of the line.
\<close>

definition line_point :: "int \<Rightarrow> int \<Rightarrow> int \<Rightarrow> int \<Rightarrow> int \<Rightarrow> point" where
  "line_point x1 y1 x2 y2 k =
     (let dx = \<bar>x2 - x1\<bar>; dy = \<bar>y2 - y1\<bar>
      in if dx \<ge> dy
         then (x1 + sgn (x2 - x1) * k, y1 + sgn (y2 - y1) * ((k * dy + dx div 2) div dx))
         else (x1 + sgn (x2 - x1) * ((k * dx + dy div 2) div dy), y1 + sgn (y2 - y1) * k))"

definition line_points :: "int \<Rightarrow> int \<Rightarrow> int \<Rightarrow> int \<Rightarrow> point list" where
  "line_points x1 y1 x2 y2 = map (line_point x1 y1 x2 y2) [0..max \<bar>x2 - x1\<bar> \<bar>y2 - y1\<bar>]"

lemma walk_append: "walk p (xs @ ys) = walk p xs @ walk (last (p # walk p xs)) ys"
  by (induction p xs rule: walk.induct) auto

text \<open>The straight loop makes as many equal steps as there are units to go.\<close>

lemma straight_loop_steps:
  assumes "q = p + dir * int n" and "0 < n" and "dir \<noteq> 0"
  shows "straight_loop p q dir step out = Some (out @ replicate n step)"
  using assms
proof (induction n arbitrary: p out)
  case (Suc n)
  show ?case
  proof (cases "n = 0")
    case True
    with Suc.prems show ?thesis by (subst straight_loop.simps) simp
  next
    case False
    then have "p + dir \<noteq> q" using Suc.prems by (auto simp: distrib_left)
    moreover have "straight_loop (p + dir) q dir step (out @ [step]) = Some ((out @ [step]) @ replicate n step)"
      using Suc.prems False by (intro Suc.IH) (simp_all add: algebra_simps)
    ultimately show ?thesis by (subst straight_loop.simps) (simp add: Let_def)
  qed
qed simp

text \<open>
  The sloped loop after \<open>k\<close> steps: the remainder is what the exact height of the line leaves, so the steps
  across are where the rounded height grows.
\<close>

definition across :: "int \<Rightarrow> int \<Rightarrow> int \<Rightarrow> int" where
  "across long short k = (k * short + long div 2) div long"

definition slope_step :: "int \<Rightarrow> int \<Rightarrow> point \<Rightarrow> point \<Rightarrow> int \<Rightarrow> point" where
  "slope_step long short both along k = (if across long short (k + 1) = across long short k then along else both)"

lemma across_Suc:
  assumes "0 < long" "0 \<le> short" "short \<le> long"
  shows "(k * short + long div 2) mod long + short \<ge> long
      \<longleftrightarrow> across long short (k + 1) = across long short k + 1"
    and "\<not> (k * short + long div 2) mod long + short \<ge> long
      \<longleftrightarrow> across long short (k + 1) = across long short k"
    and "(k * short + long div 2) mod long + short \<ge> long \<Longrightarrow>
      ((k + 1) * short + long div 2) mod long = (k * short + long div 2) mod long + short - long"
    and "\<not> (k * short + long div 2) mod long + short \<ge> long \<Longrightarrow>
      ((k + 1) * short + long div 2) mod long = (k * short + long div 2) mod long + short"
proof -
  define a q r where "a = k * short + long div 2" and "q = a div long" and "r = a mod long"
  have r: "0 \<le> r" "r < long" using assms by (simp_all add: r_def)
  have next_eq: "(k + 1) * short + long div 2 = long * q + (r + short)"
    by (simp add: q_def r_def a_def algebra_simps)
  have carry: "(long * q + (r + short)) div long = q + 1 \<and> (long * q + (r + short)) mod long = r + short - long"
    if "long \<le> r + short"
  proof -
    have "long * q + (r + short) = long * (q + 1) + (r + short - long)" by (simp add: algebra_simps)
    then show ?thesis using that r assms
      using int_div_pos_eq [of "long * q + (r + short)" long "q + 1" "r + short - long"]
        int_mod_pos_eq [of "long * q + (r + short)" long "q + 1" "r + short - long"] by auto
  qed
  have stay: "(long * q + (r + short)) div long = q \<and> (long * q + (r + short)) mod long = r + short"
    if "r + short < long"
    using that r assms int_div_pos_eq [of "long * q + (r + short)" long q "r + short"]
      int_mod_pos_eq [of "long * q + (r + short)" long q "r + short"] by auto
  show "(k * short + long div 2) mod long + short \<ge> long \<longleftrightarrow> across long short (k + 1) = across long short k + 1"
    and "\<not> (k * short + long div 2) mod long + short \<ge> long \<longleftrightarrow> across long short (k + 1) = across long short k"
    unfolding across_def next_eq a_def [symmetric] q_def [symmetric] r_def [symmetric]
    using carry stay by (cases "long \<le> r + short"; simp)+
  show "(k * short + long div 2) mod long + short \<ge> long \<Longrightarrow>
      ((k + 1) * short + long div 2) mod long = (k * short + long div 2) mod long + short - long"
    and "\<not> (k * short + long div 2) mod long + short \<ge> long \<Longrightarrow>
      ((k + 1) * short + long div 2) mod long = (k * short + long div 2) mod long + short"
    unfolding next_eq a_def [symmetric] r_def [symmetric] using carry stay by simp_all
qed

lemma slope_loop_steps:
  assumes "q = p + inc * int n" and "inc \<noteq> 0" and "rem = (k * short + long div 2) mod long"
    and "0 < long" "0 \<le> short" "short \<le> long"
  shows "slope_loop p q inc rem long short both along out
    = Some (out @ map (slope_step long short both along) [k..k + int n - 1])"
  using assms(1-3)
proof (induction n arbitrary: p rem k out)
  case 0
  then show ?case by (subst slope_loop.simps) simp
next
  case (Suc n)
  note next_step = across_Suc [OF assms(4-6), of k]
  have steps: "[k..k + int (Suc n) - 1] = k # [k + 1..k + 1 + int n - 1]"
    by (subst upto.simps) (simp add: algebra_simps)
  have "inc * int (Suc n) \<noteq> 0" using Suc.prems(2) by (simp only: mult_eq_0_iff of_nat_eq_0_iff) simp
  then have pq: "p \<noteq> q" "q = (p + inc) + inc * int n" using Suc.prems(1) by (simp_all add: distrib_left)
  show ?case
  proof (cases "rem + short \<ge> long")
    case True
    then have "rem + short - long = ((k + 1) * short + long div 2) mod long" using next_step(3) Suc.prems(3) by simp
    moreover have "slope_step long short both along k = both"
      using True next_step(1) Suc.prems(3) by (simp add: slope_step_def)
    ultimately show ?thesis
      using Suc.IH [OF pq(2) Suc.prems(2), of "rem + short - long" "k + 1" "out @ [both]"] pq(1) True
      unfolding steps by (subst slope_loop.simps) (simp add: Let_def)
  next
    case False
    then have "rem + short = ((k + 1) * short + long div 2) mod long" using next_step(4) Suc.prems(3) by simp
    moreover have "slope_step long short both along k = along"
      using False next_step(2) Suc.prems(3) by (simp add: slope_step_def)
    ultimately show ?thesis
      using Suc.IH [OF pq(2) Suc.prems(2), of "rem + short" "k + 1" "out @ [along]"] pq(1) False
      unfolding steps by (subst slope_loop.simps) (simp add: Let_def)
  qed
qed

text \<open>Walking the steps of the sloped loop visits the points of the closed form.\<close>

lemma walk_slope_x:
  assumes "0 < long" "0 \<le> short" "short \<le> long"
  shows "walk (x + sx * k, y + sy * across long short k) (map (slope_step long short (sx, sy) (sx, 0)) [k..k + int n - 1])
    = map (\<lambda>k. (x + sx * k, y + sy * across long short k)) [k + 1..k + int n]"
proof (induction n arbitrary: k)
  case (Suc n)
  have steps: "[k..k + int (Suc n) - 1] = k # [k + 1..k + 1 + int n - 1]"
    "[k + 1..k + int (Suc n)] = (k + 1) # [k + 1 + 1..k + 1 + int n]"
    by (subst upto.simps, simp add: algebra_simps)+
  have "y + sy * across long short k + snd (slope_step long short (sx, sy) (sx, 0) k)
      = y + sy * across long short (k + 1)"
    using across_Suc(1,2) [OF assms, of k] by (auto simp: slope_step_def distrib_left)
  moreover have "fst (slope_step long short (sx, sy) (sx, 0) k) = sx" by (simp add: slope_step_def)
  ultimately have "walk (x + sx * k, y + sy * across long short k)
      (slope_step long short (sx, sy) (sx, 0) k # map (slope_step long short (sx, sy) (sx, 0)) [k + 1..k + 1 + int n - 1])
    = (x + sx * (k + 1), y + sy * across long short (k + 1))
      # walk (x + sx * (k + 1), y + sy * across long short (k + 1))
          (map (slope_step long short (sx, sy) (sx, 0)) [k + 1..k + 1 + int n - 1])"
    by (cases "slope_step long short (sx, sy) (sx, 0) k") (simp add: distrib_left add.assoc)
  then show ?case unfolding steps list.map Suc.IH .
qed simp

lemma walk_swap: "walk (y, x) (map prod.swap steps) = map prod.swap (walk (x, y) steps)"
proof (induction steps arbitrary: x y)
  case (Cons s steps)
  then show ?case by (cases s) simp
qed simp

lemma walk_slope_y:
  assumes "0 < long" "0 \<le> short" "short \<le> long"
  shows "walk (x + sx * across long short k, y + sy * k) (map (slope_step long short (sx, sy) (0, sy)) [k..k + int n - 1])
    = map (\<lambda>k. (x + sx * across long short k, y + sy * k)) [k + 1..k + int n]"
proof -
  have swap: "map (slope_step long short (sx, sy) (0, sy)) ks
      = map prod.swap (map (slope_step long short (sy, sx) (sy, 0)) ks)" for ks
    by (simp add: slope_step_def)
  show ?thesis unfolding swap walk_swap walk_slope_x [OF assms] by simp
qed

subsubsection \<open>The generator\<close>

lemma half_less: "0 < n \<Longrightarrow> across n short 0 = 0"
  by (simp add: across_def div_pos_pos_trivial)

lemma line_point_across: "line_point x1 y1 x2 y2 k =
    (if \<bar>x2 - x1\<bar> \<ge> \<bar>y2 - y1\<bar>
     then (x1 + sgn (x2 - x1) * k, y1 + sgn (y2 - y1) * across \<bar>x2 - x1\<bar> \<bar>y2 - y1\<bar> k)
     else (x1 + sgn (x2 - x1) * across \<bar>y2 - y1\<bar> \<bar>x2 - x1\<bar> k, y1 + sgn (y2 - y1) * k))"
  by (simp add: line_point_def across_def Let_def)

lemma line_point_0: "line_point x1 y1 x2 y2 0 = (x1, y1)"
  by (cases "x1 = x2"; cases "y1 = y2") (simp_all add: line_point_across half_less)

lemma line_points_first: "line_points x1 y1 x2 y2
    = (x1, y1) # map (line_point x1 y1 x2 y2) [1..max \<bar>x2 - x1\<bar> \<bar>y2 - y1\<bar>]"
proof -
  have "[0..max \<bar>x2 - x1\<bar> \<bar>y2 - y1\<bar>] = 0 # [1..max \<bar>x2 - x1\<bar> \<bar>y2 - y1\<bar>]" by (subst upto.simps) simp
  then show ?thesis by (simp add: line_points_def line_point_0)
qed

lemma walk_replicate:
  "walk (x + dx * k, y + dy * k) (replicate n (dx, dy)) = map (\<lambda>k. (x + dx * k, y + dy * k)) [k + 1..k + int n]"
proof (induction n arbitrary: k)
  case (Suc n)
  have "[k + 1..k + int (Suc n)] = (k + 1) # [k + 1 + 1..k + 1 + int n]"
    by (subst upto.simps) (simp add: algebra_simps)
  then show ?case using Suc.IH [of "k + 1"] by (simp add: distrib_left add.assoc)
qed simp

lemma sgn_steps: "q = p + sgn (q - p) * int (nat \<bar>q - p\<bar>)" for p q :: int
  by (simp add: sgn_mult_abs)

lemma dir_sgn: "p \<noteq> q \<Longrightarrow> (if q > p then 1 else -1) = sgn (q - p)" for p q :: int
  by (simp add: sgn_if)

lemma generator_calls:
  assumes "x1 \<noteq> x2" "y1 \<noteq> y2"
  shows "LineGenerator x1 y1 x2 y2 =
    (let dx = \<bar>x2 - x1\<bar>; dy = \<bar>y2 - y1\<bar>; sx = sgn (x2 - x1); sy = sgn (y2 - y1)
     in Some ((0, 0) #
       (if dx \<ge> dy then map (slope_step dx dy (sx, sy) (sx, 0)) [0..dx - 1]
        else map (slope_step dy dx (sx, sy) (0, sy)) [0..dy - 1])))"
proof -
  let ?dx = "\<bar>x2 - x1\<bar>" and ?dy = "\<bar>y2 - y1\<bar>" and ?sx = "sgn (x2 - x1)" and ?sy = "sgn (y2 - y1)"
  have "LineGenerator x1 y1 x2 y2 =
      (if ?dx \<ge> ?dy then slope_loop x1 x2 ?sx (?dx div 2) ?dx ?dy (?sx, ?sy) (?sx, 0) [(0, 0)]
       else slope_loop y1 y2 ?sy (?dy div 2) ?dy ?dx (?sx, ?sy) (0, ?sy) [(0, 0)])"
    using assms by (simp add: LineGenerator_def Let_def dir_sgn drop_bit_eq_div flip: abs_if)
  moreover have "slope_loop x1 x2 ?sx (?dx div 2) ?dx ?dy both along [(0, 0)]
      = Some ((0, 0) # map (slope_step ?dx ?dy both along) [0..?dx - 1])" if "?dx \<ge> ?dy" for both along
    using slope_loop_steps [OF sgn_steps [of x2 x1], where k = 0 and rem = "?dx div 2" and long = ?dx and short = ?dy]
      assms that by (simp add: sgn_eq_0_iff)
  moreover have "slope_loop y1 y2 ?sy (?dy div 2) ?dy ?dx both along [(0, 0)]
      = Some ((0, 0) # map (slope_step ?dy ?dx both along) [0..?dy - 1])" if "\<not> ?dx \<ge> ?dy" for both along
    using slope_loop_steps [OF sgn_steps [of y2 y1], where k = 0 and rem = "?dy div 2" and long = ?dy and short = ?dx]
      assms that by (simp add: sgn_eq_0_iff)
  ultimately show ?thesis by (simp add: Let_def)
qed

lemma generator_straight:
  "x1 = x2 \<Longrightarrow> y1 \<noteq> y2 \<Longrightarrow>
    LineGenerator x1 y1 x2 y2 = Some ((0, 0) # replicate (nat \<bar>y2 - y1\<bar>) (0, sgn (y2 - y1)))"
  "x1 \<noteq> x2 \<Longrightarrow> y1 = y2 \<Longrightarrow>
    LineGenerator x1 y1 x2 y2 = Some ((0, 0) # replicate (nat \<bar>x2 - x1\<bar>) (sgn (x2 - x1), 0))"
  using straight_loop_steps [OF sgn_steps [of y2 y1]] straight_loop_steps [OF sgn_steps [of x2 x1]]
  by (auto simp: LineGenerator_def Let_def dir_sgn sgn_eq_0_iff)

lemma generator_walk:
  "map_option (walk (x1, y1)) (LineGenerator x1 y1 x2 y2) = Some (line_points x1 y1 x2 y2)"
proof -
  let ?dx = "\<bar>x2 - x1\<bar>" and ?dy = "\<bar>y2 - y1\<bar>" and ?sx = "sgn (x2 - x1)" and ?sy = "sgn (y2 - y1)"
  consider (dot) "x1 = x2" "y1 = y2" | (vertical) "x1 = x2" "y1 \<noteq> y2" | (horizontal) "x1 \<noteq> x2" "y1 = y2"
    | (sloped) "x1 \<noteq> x2" "y1 \<noteq> y2"
    by blast
  then show ?thesis
  proof cases
    case dot
    then show ?thesis by (simp add: LineGenerator_def line_points_first)
  next
    case vertical
    then show ?thesis
      using walk_replicate [of x1 0 0 y1 ?sy "nat ?dy"]
      by (simp add: generator_straight line_points_first line_point_across)
  next
    case horizontal
    then show ?thesis
      using walk_replicate [of x1 ?sx 0 y1 0 "nat ?dx"]
      by (simp add: generator_straight line_points_first line_point_across)
  next
    case sloped
    then show ?thesis
      using walk_slope_x [of ?dx ?dy x1 ?sx 0 y1 ?sy "nat ?dx"] walk_slope_y [of ?dy ?dx x1 ?sx 0 y1 ?sy "nat ?dy"]
      by (auto simp: generator_calls line_points_first line_point_across Let_def half_less max_def)
  qed
qed

lemma line_point_last:
  "line_point x1 y1 x2 y2 (max \<bar>x2 - x1\<bar> \<bar>y2 - y1\<bar>) = (x2, y2)"
proof -
  have "across n short n = short" if "0 < n" for n short :: int
    using half_less [OF that, of short] that by (simp add: across_def)
  then show ?thesis
    by (cases "x1 = x2"; cases "y1 = y2") (auto simp: line_point_across max_def sgn_mult_abs)
qed

text \<open>C3.  The line generator always returns, and walking its steps visits exactly the points of the closed
  form: one for each unit of the longer side, from the first end to the second, each with the other
  coordinate rounded to the nearest integer.\<close>

theorem LineGenerator_points:
  "map_option (walk (x1, y1)) (LineGenerator x1 y1 x2 y2) = Some (line_points x1 y1 x2 y2)
   \<and> hd (line_points x1 y1 x2 y2) = (x1, y1) \<and> last (line_points x1 y1 x2 y2) = (x2, y2)
   \<and> length (line_points x1 y1 x2 y2) = Suc (nat (max \<bar>x2 - x1\<bar> \<bar>y2 - y1\<bar>))"
proof (intro conjI generator_walk)
  let ?n = "max \<bar>x2 - x1\<bar> \<bar>y2 - y1\<bar>"
  show "hd (line_points x1 y1 x2 y2) = (x1, y1)" by (simp add: line_points_first)
  have "[0..?n] = [0..?n - 1] @ [?n]" by (rule upto_rec2) simp
  then show "last (line_points x1 y1 x2 y2) = (x2, y2)"
    by (simp only: line_points_def map_append list.map last_snoc line_point_last)
  show "length (line_points x1 y1 x2 y2) = Suc (nat ?n)" by (simp add: line_points_def)
qed

subsection \<open>The clipper\<close>

definition in_rect :: "rect \<Rightarrow> point \<Rightarrow> bool" where
  "in_rect rc p = PtInRect rc (fst p) (snd p)"

lemma outcode_inside: "outcode rc x y = 0 \<longleftrightarrow> in_rect rc (x, y)"
  by (auto simp: outcode_def in_rect_def PtInRect_def OC_defs Let_def)

lemma or_zero: "(a OR b = 0) \<longleftrightarrow> a = 0 \<and> b = (0 :: int)"
  by (metis or_eq_0_iff)

lemma clipper_example:
  "LineClipper (mk_rect 0 0 3 2) ((-5, 5), (3, 1)) = Some (False, ((-5, 5), (3, 1)))"
  by (simp add: LineClipper_def outcode_def OC_defs Let_def clip_loop.simps side_point_def FloorDiv_def CeilDiv_def)

end
