(* ===== verification/Clipper.thy ===== *)
theory Clipper
  imports Generators_Props
begin

section \<open>What the line clipper cuts out (src/newgdi/generators.c)\<close>

text \<open>
  The points of a line, one for each unit of its longer side with the other coordinate rounded to the
  nearest integer, are a function of one parameter, and each side of the rectangle is a threshold of
  that parameter: the point in which the clipper replaces an end is the point at the threshold.  So
  the clipper is the clipping of an interval, which ends, and keeps exactly the points inside.
\<close>

subsection \<open>Rounded lines\<close>

definition rho :: "int \<Rightarrow> int \<Rightarrow> int \<Rightarrow> int \<Rightarrow> int \<Rightarrow> int" where
  "rho A B a b t = B + (2 * b * (t - A) + a) div (2 * a)"

lemma rho_uminus: "rho A B (- a) (- b) t = rho A B a b t"
  using div_minus_minus [of "2 * b * (t - A) + a" "2 * a"] by (simp add: rho_def algebra_simps)

lemma le_div: "0 < d \<Longrightarrow> k \<le> n div d \<longleftrightarrow> k * d \<le> n" for d k n :: int
proof
  assume "0 < d" "k \<le> n div d"
  then have "k * d \<le> n div d * d" by simp
  moreover have "n div d * d \<le> n" using \<open>0 < d\<close> by (simp add: minus_mod_eq_div_mult [symmetric])
  ultimately show "k * d \<le> n" by simp
next
  assume "0 < d" "k * d \<le> n"
  then show "k \<le> n div d" using zdiv_mono1 [of "k * d" n d] by simp
qed

lemma div_le: "0 < d \<Longrightarrow> n div d \<le> k \<longleftrightarrow> n < (k + 1) * d" for d k n :: int
  using le_div [of d "k + 1" n] by linarith

lemma ceil_le: "0 < d \<Longrightarrow> - ((- n) div d) \<le> k \<longleftrightarrow> n \<le> k * d" for d k n :: int
  using le_div [of d "- k" "- n"] by auto

lemma le_ceil: "0 < d \<Longrightarrow> k \<le> - ((- n) div d) - 1 \<longleftrightarrow> k * d < n" for d k n :: int
  using ceil_le [of d n k] by linarith

text \<open>Where the rounded line passes a value of the other coordinate, for the two directions of the slope.\<close>

lemma rho_thresholds_up:
  assumes "0 < a" "0 < b"
  shows "v \<le> rho A B a b t \<longleftrightarrow> A + CeilDiv (a * ((v - B) * 2 - 1)) (2 * b) \<le> t"
    "rho A B a b t \<le> v \<longleftrightarrow> t \<le> A + CeilDiv (a * ((v - B) * 2 + 1)) (2 * b) - 1"
proof -
  have "v \<le> rho A B a b t \<longleftrightarrow> v - B \<le> (2 * b * (t - A) + a) div (2 * a)" by (auto simp: rho_def)
  also have "\<dots> \<longleftrightarrow> (v - B) * (2 * a) \<le> 2 * b * (t - A) + a" by (rule le_div) (use assms in simp)
  also have "\<dots> \<longleftrightarrow> a * ((v - B) * 2 - 1) \<le> (t - A) * (2 * b)" by (simp add: algebra_simps)
  also have "\<dots> \<longleftrightarrow> A + CeilDiv (a * ((v - B) * 2 - 1)) (2 * b) \<le> t"
    using assms ceil_le [of "2 * b" "a * ((v - B) * 2 - 1)" "t - A"] by (simp add: CeilDiv_ceiling) linarith
  finally show "v \<le> rho A B a b t \<longleftrightarrow> A + CeilDiv (a * ((v - B) * 2 - 1)) (2 * b) \<le> t" .
  have "rho A B a b t \<le> v \<longleftrightarrow> (2 * b * (t - A) + a) div (2 * a) \<le> v - B" by (auto simp: rho_def)
  also have "\<dots> \<longleftrightarrow> 2 * b * (t - A) + a < (v - B + 1) * (2 * a)" by (rule div_le) (use assms in simp)
  also have "\<dots> \<longleftrightarrow> (t - A) * (2 * b) < a * ((v - B) * 2 + 1)" by (simp add: algebra_simps)
  also have "\<dots> \<longleftrightarrow> t \<le> A + CeilDiv (a * ((v - B) * 2 + 1)) (2 * b) - 1"
    using assms le_ceil [of "2 * b" "t - A" "a * ((v - B) * 2 + 1)"] by (simp add: CeilDiv_ceiling) linarith
  finally show "rho A B a b t \<le> v \<longleftrightarrow> t \<le> A + CeilDiv (a * ((v - B) * 2 + 1)) (2 * b) - 1" .
qed

lemma rho_thresholds_down:
  assumes "0 < a" "b < 0"
  shows "v \<le> rho A B a b t \<longleftrightarrow> t \<le> A + FloorDiv (a * ((v - B) * 2 - 1)) (2 * b)"
    "rho A B a b t \<le> v \<longleftrightarrow> A + FloorDiv (a * ((v - B) * 2 + 1)) (2 * b) + 1 \<le> t"
proof -
  have minus: "n div (2 * b) = (- n) div (2 * - b)" for n using div_minus_minus [of n "2 * b"] by simp
  have "v \<le> rho A B a b t \<longleftrightarrow> v - B \<le> (2 * b * (t - A) + a) div (2 * a)" by (auto simp: rho_def)
  also have "\<dots> \<longleftrightarrow> (v - B) * (2 * a) \<le> 2 * b * (t - A) + a" by (rule le_div) (use assms in simp)
  also have "\<dots> \<longleftrightarrow> (t - A) * (2 * - b) \<le> - (a * ((v - B) * 2 - 1))" by (simp add: algebra_simps)
  also have "\<dots> \<longleftrightarrow> t \<le> A + FloorDiv (a * ((v - B) * 2 - 1)) (2 * b)"
    using assms le_div [of "2 * - b" "t - A" "- (a * ((v - B) * 2 - 1))"] by (simp only: FloorDiv_floor minus) auto
  finally show "v \<le> rho A B a b t \<longleftrightarrow> t \<le> A + FloorDiv (a * ((v - B) * 2 - 1)) (2 * b)" .
  have "rho A B a b t \<le> v \<longleftrightarrow> (2 * b * (t - A) + a) div (2 * a) \<le> v - B" by (auto simp: rho_def)
  also have "\<dots> \<longleftrightarrow> 2 * b * (t - A) + a < (v - B + 1) * (2 * a)" by (rule div_le) (use assms in simp)
  also have "\<dots> \<longleftrightarrow> - (a * ((v - B) * 2 + 1)) < (t - A) * (2 * - b)" by (simp add: algebra_simps)
  also have "\<dots> \<longleftrightarrow> A + FloorDiv (a * ((v - B) * 2 + 1)) (2 * b) + 1 \<le> t"
    using assms div_le [of "2 * - b" "- (a * ((v - B) * 2 + 1))" "t - A - 1"] by (simp only: FloorDiv_floor minus) auto
  finally show "rho A B a b t \<le> v \<longleftrightarrow> A + FloorDiv (a * ((v - B) * 2 + 1)) (2 * b) + 1 \<le> t" .
qed

text \<open>The rounded line moves by at most one from each parameter to the next.\<close>

lemma rho_step:
  assumes "0 < a" "\<bar>b\<bar> \<le> a"
  shows "rho A B a b (t + 1) \<le> rho A B a b t + 1" "rho A B a b t \<le> rho A B a b (t + 1) + 1"
proof -
  let ?n = "2 * b * (t - A) + a"
  have n: "2 * b * (t + 1 - A) + a = ?n + 2 * b" by (simp add: algebra_simps)
  have plus: "(m + 2 * a) div (2 * a) = m div (2 * a) + 1" for m using assms by (intro div_add_self2) auto
  have "(?n + 2 * b) div (2 * a) \<le> (?n + 2 * a) div (2 * a)" using assms by (intro zdiv_mono1) auto
  then show "rho A B a b (t + 1) \<le> rho A B a b t + 1" unfolding rho_def n plus by simp
  have "?n div (2 * a) \<le> (?n + 2 * b + 2 * a) div (2 * a)" using assms by (intro zdiv_mono1) auto
  then show "rho A B a b t \<le> rho A B a b (t + 1) + 1" unfolding rho_def n plus by simp
qed

text \<open>The formulas of the clipper for a value \<open>v\<close> of the shorter coordinate that the line must reach or not exceed.\<close>

definition reach :: "int \<Rightarrow> int \<Rightarrow> int \<Rightarrow> int \<Rightarrow> int \<Rightarrow> int" where
  "reach A B a b v =
     (if a \<ge> 0 \<and> b \<ge> 0 \<or> a < 0 \<and> b < 0 then A + CeilDiv (a * ((v - B) * 2 - 1)) (2 * b)
      else A + FloorDiv (a * ((v - B) * 2 - 1)) (2 * b))"

definition not_exceed :: "int \<Rightarrow> int \<Rightarrow> int \<Rightarrow> int \<Rightarrow> int \<Rightarrow> int" where
  "not_exceed A B a b v =
     (if a \<ge> 0 \<and> b \<ge> 0 \<or> a < 0 \<and> b < 0 then A + CeilDiv (a * ((v - B) * 2 + 1)) (2 * b) - 1
      else A + FloorDiv (a * ((v - B) * 2 + 1)) (2 * b) + 1)"

definition threshold :: "(int \<Rightarrow> bool) \<Rightarrow> int \<Rightarrow> bool" where
  "threshold ok s \<longleftrightarrow> (\<forall>t. ok t = (s \<le> t)) \<or> (\<forall>t. ok t = (t \<le> s))"

lemma threshold_value:
  fixes g :: "int \<Rightarrow> int"
  assumes "\<And>t. g (t + 1) \<le> g t + 1" "\<And>t. g t \<le> g (t + 1) + 1"
  shows "threshold (\<lambda>t. v \<le> g t) s \<Longrightarrow> g s = v" "threshold (\<lambda>t. g t \<le> v) s \<Longrightarrow> g s = v"
proof -
  have step: "g s \<le> g (s - 1) + 1" "g (s - 1) \<le> g s + 1" "g s \<le> g (s + 1) + 1" "g (s + 1) \<le> g s + 1"
    using assms [of "s - 1"] assms [of s] by simp_all
  show "g s = v" if "threshold (\<lambda>t. v \<le> g t) s"
    using that unfolding threshold_def
  proof
    assume "\<forall>t. (v \<le> g t) = (s \<le> t)"
    from this [THEN spec, of s] this [THEN spec, of "s - 1"] step show ?thesis by auto
  next
    assume "\<forall>t. (v \<le> g t) = (t \<le> s)"
    from this [THEN spec, of s] this [THEN spec, of "s + 1"] step show ?thesis by auto
  qed
  show "g s = v" if "threshold (\<lambda>t. g t \<le> v) s"
    using that unfolding threshold_def
  proof
    assume "\<forall>t. (g t \<le> v) = (s \<le> t)"
    from this [THEN spec, of s] this [THEN spec, of "s - 1"] step show ?thesis by auto
  next
    assume "\<forall>t. (g t \<le> v) = (t \<le> s)"
    from this [THEN spec, of s] this [THEN spec, of "s + 1"] step show ?thesis by auto
  qed
qed

lemma rho_reach_pos:
  assumes "0 < a" "b \<noteq> 0"
  shows "threshold (\<lambda>t. v \<le> rho A B a b t) (reach A B a b v)"
    "threshold (\<lambda>t. rho A B a b t \<le> v) (not_exceed A B a b v)"
proof -
  consider (up) "0 < b" | (down) "b < 0" using assms by linarith
  then show "threshold (\<lambda>t. v \<le> rho A B a b t) (reach A B a b v)"
    "threshold (\<lambda>t. rho A B a b t \<le> v) (not_exceed A B a b v)"
    using assms(1) by (cases; simp add: threshold_def reach_def not_exceed_def rho_thresholds_up rho_thresholds_down)+
qed

lemma quotients_uminus:
  "b \<noteq> 0 \<Longrightarrow> reach A B (- a) (- b) v = reach A B a b v" "b \<noteq> 0 \<Longrightarrow> not_exceed A B (- a) (- b) v = not_exceed A B a b v"
  if "a \<noteq> 0"
proof -
  have "CeilDiv (- n) (- d) = CeilDiv n d" "FloorDiv (- n) (- d) = FloorDiv n d" if "d \<noteq> 0" for n d
    using that div_minus_minus [of n d] div_minus_minus [of "- n" d] by (simp_all add: CeilDiv_ceiling FloorDiv_floor)
  from this [of "2 * b"] show "b \<noteq> 0 \<Longrightarrow> reach A B (- a) (- b) v = reach A B a b v"
    "b \<noteq> 0 \<Longrightarrow> not_exceed A B (- a) (- b) v = not_exceed A B a b v"
    using that by (auto simp: reach_def not_exceed_def)
qed

lemma rho_sides:
  assumes "a \<noteq> 0" "b \<noteq> 0" "\<bar>b\<bar> \<le> \<bar>a\<bar>"
  shows "threshold (\<lambda>t. v \<le> rho A B a b t) (reach A B a b v)" "rho A B a b (reach A B a b v) = v"
    "threshold (\<lambda>t. rho A B a b t \<le> v) (not_exceed A B a b v)" "rho A B a b (not_exceed A B a b v) = v"
proof -
  define a' b' where "a' = \<bar>a\<bar>" and "b' = (if a < 0 then - b else b)"
  have pos: "0 < a'" "b' \<noteq> 0" "\<bar>b'\<bar> \<le> a'" using assms by (auto simp: a'_def b'_def)
  have eq: "rho A B a b = rho A B a' b'" "reach A B a b v = reach A B a' b' v" "not_exceed A B a b v = not_exceed A B a' b' v"
    using quotients_uminus [OF assms(1,2)] by (auto simp: a'_def b'_def rho_uminus fun_eq_iff)
  note reach = rho_reach_pos [OF pos(1,2), where v = v and A = A and B = B]
    and step = rho_step [OF pos(1,3), where A = A and B = B]
  show "threshold (\<lambda>t. v \<le> rho A B a b t) (reach A B a b v)" "threshold (\<lambda>t. rho A B a b t \<le> v) (not_exceed A B a b v)"
    "rho A B a b (reach A B a b v) = v" "rho A B a b (not_exceed A B a b v) = v"
    unfolding eq by (fact reach, fact reach, rule threshold_value(1) [OF step reach(1)], rule threshold_value(2) [OF step reach(2)])
qed

subsection \<open>The sides of the rectangle\<close>

datatype side = Left | Right | Top | Bottom

fun side_bit :: "side \<Rightarrow> int" where
  "side_bit Left = OC_LEFT" | "side_bit Right = OC_RIGHT" | "side_bit Top = OC_TOP" | "side_bit Bottom = OC_BOTTOM"

fun within :: "rect \<Rightarrow> side \<Rightarrow> point \<Rightarrow> bool" where
  "within rc Left p = (rleft rc \<le> fst p)"
| "within rc Right p = (fst p \<le> rright rc - 1)"
| "within rc Top p = (rtop rc \<le> snd p)"
| "within rc Bottom p = (snd p \<le> rbottom rc - 1)"

text \<open>The side that the clipper treats first, for a code that is not zero.\<close>

definition chosen :: "int \<Rightarrow> side" where
  "chosen code =
     (if code AND OC_LEFT \<noteq> 0 then Left else if code AND OC_RIGHT \<noteq> 0 then Right
      else if code AND OC_TOP \<noteq> 0 then Top else Bottom)"

definition code_of :: "rect \<Rightarrow> point \<Rightarrow> int" where
  "code_of rc p = outcode rc (fst p) (snd p)"

lemma in_rect_within: "in_rect rc p \<longleftrightarrow> (\<forall>s. within rc s p)"
proof -
  have "(\<forall>s. within rc s p) \<longleftrightarrow> within rc Left p \<and> within rc Right p \<and> within rc Top p \<and> within rc Bottom p"
    by (metis side.exhaust)
  then show ?thesis by (auto simp: in_rect_def PtInRect_def)
qed

lemma code_of_cases: "code_of rc p =
    (if fst p < rleft rc then 1 else if rright rc \<le> fst p then 2 else 0)
    + (if snd p < rtop rc then 4 else if rbottom rc \<le> snd p then 8 else 0)"
  by (simp add: code_of_def outcode_def OC_defs Let_def)

lemma code_zero: "code_of rc p = 0 \<longleftrightarrow> in_rect rc p"
  by (simp add: code_of_def outcode_inside)

lemma chosen_outside: "code_of rc p \<noteq> 0 \<Longrightarrow> \<not> within rc (chosen (code_of rc p)) p"
  by (auto simp: code_of_cases chosen_def OC_defs split: if_splits)

text \<open>Codes that share a bit name a side that both points lie beyond.\<close>

lemma codes_share: "code_of rc p AND code_of rc q \<noteq> 0 \<Longrightarrow> \<exists>s. \<not> within rc s p \<and> \<not> within rc s q"
proof -
  assume "code_of rc p AND code_of rc q \<noteq> 0"
  then have "(\<not> within rc Left p \<and> \<not> within rc Left q) \<or> (\<not> within rc Right p \<and> \<not> within rc Right q)
    \<or> (\<not> within rc Top p \<and> \<not> within rc Top q) \<or> (\<not> within rc Bottom p \<and> \<not> within rc Bottom q)"
    by (auto simp: code_of_cases split: if_splits)
  then show ?thesis by blast
qed

text \<open>Only a rectangle without points lets the chosen side miss a point that shares no bit; then the new point shares one.\<close>

fun on_side :: "rect \<Rightarrow> side \<Rightarrow> point \<Rightarrow> bool" where
  "on_side rc Left p = (fst p = rleft rc)"
| "on_side rc Right p = (fst p = rright rc - 1)"
| "on_side rc Top p = (snd p = rtop rc)"
| "on_side rc Bottom p = (snd p = rbottom rc - 1)"

lemma both_left_share: "fst p < rleft rc \<Longrightarrow> fst q < rleft rc \<Longrightarrow> code_of rc p AND code_of rc q \<noteq> 0"
  by (simp add: code_of_cases)

lemma both_top_share: "snd p < rtop rc \<Longrightarrow> snd q < rtop rc \<Longrightarrow> code_of rc p AND code_of rc q \<noteq> 0"
  by (simp add: code_of_cases)

lemma missed_cases:
  assumes "code_of rc p \<noteq> 0" "code_of rc p AND code_of rc q = 0" "\<not> within rc (chosen (code_of rc p)) q"
  shows "chosen (code_of rc p) = Right \<and> rright rc < rleft rc \<and> fst q < rleft rc
    \<or> chosen (code_of rc p) = Bottom \<and> rbottom rc < rtop rc \<and> snd q < rtop rc"
proof -
  consider (left) "fst p < rleft rc" | (right) "rleft rc \<le> fst p" "rright rc \<le> fst p"
    | (top) "rleft rc \<le> fst p" "fst p < rright rc" "snd p < rtop rc"
    | (bottom) "rleft rc \<le> fst p" "fst p < rright rc" "rtop rc \<le> snd p" "rbottom rc \<le> snd p"
    using assms(1) by (fastforce simp: code_of_cases)
  then show ?thesis
  proof cases
    case left
    then have "chosen (code_of rc p) = Left" by (simp add: code_of_cases chosen_def OC_defs)
    then show ?thesis using assms(2,3) left both_left_share [of p rc q] by simp
  next
    case right
    then have "chosen (code_of rc p) = Right" by (simp add: code_of_cases chosen_def OC_defs)
    then show ?thesis using assms(2,3) right by (simp add: code_of_cases) (auto split: if_splits)
  next
    case top
    then have "chosen (code_of rc p) = Top" by (simp add: code_of_cases chosen_def OC_defs)
    then show ?thesis using assms(2,3) top both_top_share [of p rc q] by simp
  next
    case bottom
    then have "chosen (code_of rc p) = Bottom" by (simp add: code_of_cases chosen_def OC_defs)
    then show ?thesis using assms(2,3) bottom by (simp add: code_of_cases) (auto split: if_splits)
  qed
qed

lemma chosen_missed:
  assumes "code_of rc p \<noteq> 0" "code_of rc p AND code_of rc q = 0" "\<not> within rc (chosen (code_of rc p)) q"
  shows "\<not> in_rect rc z"
    "on_side rc (chosen (code_of rc p)) r \<Longrightarrow> code_of rc r AND code_of rc q \<noteq> 0"
  using missed_cases [OF assms] both_left_share [of r rc q] both_top_share [of r rc q]
  by (auto simp: in_rect_def PtInRect_def)

subsection \<open>The loop as the clipping of an interval\<close>

text \<open>\<open>sides_are_thresholds\<close>: along the points \<open>P t\<close>, each side is crossed at most once, and the clipper computes where.\<close>

definition sides_are_thresholds :: "rect \<Rightarrow> segment \<Rightarrow> (int \<Rightarrow> point) \<Rightarrow> (side \<Rightarrow> int) \<Rightarrow> bool" where
  "sides_are_thresholds rc line P s \<longleftrightarrow>
     (\<forall>d. threshold (\<lambda>t. within rc d (P t)) (s d) \<and> on_side rc d (P (s d)))
     \<and> (\<forall>code. side_point rc line code = P (s (chosen code)))"

definition interval_cut :: "rect \<Rightarrow> segment \<Rightarrow> (int \<Rightarrow> point) \<Rightarrow> int \<Rightarrow> int \<Rightarrow> bool \<times> segment \<Rightarrow> bool" where
  "interval_cut rc line P a b res \<longleftrightarrow>
     (if fst res then \<exists>f l. a \<le> f \<and> f \<le> l \<and> l \<le> b \<and> snd res = (P f, P l) \<and> {t \<in> {a..b}. in_rect rc (P t)} = {f..l}
      else snd res = line \<and> {t \<in> {a..b}. in_rect rc (P t)} = {})"

lemma threshold_uminus: "threshold ok s \<Longrightarrow> threshold (\<lambda>t. ok (- t)) (- s)"
  unfolding threshold_def by (metis minus_le_iff le_minus_iff)

lemma threshold_between:
  assumes "threshold ok s"
  shows "ok f \<Longrightarrow> ok l \<Longrightarrow> f \<le> t \<Longrightarrow> t \<le> l \<Longrightarrow> ok t"
    "\<not> ok f \<Longrightarrow> \<not> ok l \<Longrightarrow> f \<le> t \<Longrightarrow> t \<le> l \<Longrightarrow> \<not> ok t"
    "\<not> ok f \<Longrightarrow> ok l \<Longrightarrow> f \<le> l \<Longrightarrow> f < s \<and> s \<le> l \<and> (\<forall>t. ok t = (s \<le> t))"
    "ok f \<Longrightarrow> \<not> ok l \<Longrightarrow> f \<le> l \<Longrightarrow> f \<le> s \<and> s < l \<and> (\<forall>t. ok t = (t \<le> s))"
proof -
  have "ok = (\<lambda>t. s \<le> t) \<or> ok = (\<lambda>t. t \<le> s)" using assms unfolding threshold_def fun_eq_iff .
  then have "(ok f \<longrightarrow> ok l \<longrightarrow> f \<le> t \<longrightarrow> t \<le> l \<longrightarrow> ok t) \<and> (\<not> ok f \<longrightarrow> \<not> ok l \<longrightarrow> f \<le> t \<longrightarrow> t \<le> l \<longrightarrow> \<not> ok t)
      \<and> (\<not> ok f \<longrightarrow> ok l \<longrightarrow> f \<le> l \<longrightarrow> f < s \<and> s \<le> l \<and> (\<forall>t. ok t = (s \<le> t)))
      \<and> (ok f \<longrightarrow> \<not> ok l \<longrightarrow> f \<le> l \<longrightarrow> f \<le> s \<and> s < l \<and> (\<forall>t. ok t = (t \<le> s)))"
    by (elim disjE) auto
  then show "ok f \<Longrightarrow> ok l \<Longrightarrow> f \<le> t \<Longrightarrow> t \<le> l \<Longrightarrow> ok t"
    "\<not> ok f \<Longrightarrow> \<not> ok l \<Longrightarrow> f \<le> t \<Longrightarrow> t \<le> l \<Longrightarrow> \<not> ok t"
    "\<not> ok f \<Longrightarrow> ok l \<Longrightarrow> f \<le> l \<Longrightarrow> f < s \<and> s \<le> l \<and> (\<forall>t. ok t = (s \<le> t))"
    "ok f \<Longrightarrow> \<not> ok l \<Longrightarrow> f \<le> l \<Longrightarrow> f \<le> s \<and> s < l \<and> (\<forall>t. ok t = (t \<le> s))"
    by blast+
qed

lemma cut_rejects:
  assumes "sides_are_thresholds rc line P s" "code_of rc (P f) AND code_of rc (P l) \<noteq> 0"
  shows "{t \<in> {f..l}. in_rect rc (P t)} = {}"
proof -
  obtain d where "\<not> within rc d (P f)" "\<not> within rc d (P l)" using codes_share [OF assms(2)] by blast
  moreover have "threshold (\<lambda>t. within rc d (P t)) (s d)" using assms(1) by (simp add: sides_are_thresholds_def)
  ultimately have "\<not> within rc d (P t)" if "f \<le> t" "t \<le> l" for t
    using threshold_between(2) [of "\<lambda>t. within rc d (P t)" "s d" f l t] that by blast
  then show ?thesis unfolding in_rect_within by (intro equals0I) auto
qed

lemma cut_accepts:
  assumes "sides_are_thresholds rc line P s" "in_rect rc (P f)" "in_rect rc (P l)"
  shows "{t \<in> {f..l}. in_rect rc (P t)} = {f..l}"
proof -
  have thr: "threshold (\<lambda>t. within rc d (P t)) (s d)" for d using assms(1) by (simp add: sides_are_thresholds_def)
  have "within rc d (P t)" if "f \<le> t" "t \<le> l" for d t
    using assms(2,3) threshold_between(1) [of "\<lambda>t. within rc d (P t)" "s d" f l t] that thr [of d]
    unfolding in_rect_within by blast
  then show ?thesis by (auto simp: in_rect_within)
qed

lemma interval_cut_narrow:
  assumes "interval_cut rc line P f l res" "{t \<in> {a..b}. in_rect rc (P t)} = {t \<in> {f..l}. in_rect rc (P t)}" "a \<le> f" "l \<le> b"
  shows "interval_cut rc line P a b res"
  using assms unfolding interval_cut_def by (auto intro: order_trans)

text \<open>One round: either end moves to the threshold of the chosen side.\<close>

lemma clip_round:
  assumes t: "sides_are_thresholds rc line P s" and ab: "a \<le> b"
    and share: "code_of rc (P a) AND code_of rc (P b) = 0" and out: "code_of rc (P a) \<noteq> 0 \<or> code_of rc (P b) \<noteq> 0"
  defines "a' \<equiv> if code_of rc (P a) \<noteq> 0 then s (chosen (code_of rc (P a))) else a"
    and "b' \<equiv> if code_of rc (P a) \<noteq> 0 then b else s (chosen (code_of rc (P b)))"
  shows "code_of rc (P a') AND code_of rc (P b') \<noteq> 0 \<and> {t \<in> {a..b}. in_rect rc (P t)} = {}
    \<or> a \<le> a' \<and> a' \<le> b' \<and> b' \<le> b \<and> b' - a' < b - a \<and> {t \<in> {a..b}. in_rect rc (P t)} = {t \<in> {a'..b'}. in_rect rc (P t)}"
proof (cases "code_of rc (P a) \<noteq> 0")
  case True
  let ?d = "chosen (code_of rc (P a))"
  have side: "threshold (\<lambda>t. within rc ?d (P t)) (s ?d)" "on_side rc ?d (P (s ?d))"
    using t by (simp_all add: sides_are_thresholds_def)
  show ?thesis
  proof (cases "within rc ?d (P b)")
    case w: True
    from threshold_between(3) [OF side(1) chosen_outside [OF True] w ab]
    have "a < s ?d" "s ?d \<le> b" "\<forall>t. within rc ?d (P t) = (s ?d \<le> t)" by auto
    then show ?thesis using True by (auto simp: a'_def b'_def in_rect_within)
  next
    case False
    then show ?thesis using chosen_missed [OF True share False] side(2) True by (auto simp: a'_def b'_def)
  qed
next
  case False
  then have out_b: "code_of rc (P b) \<noteq> 0" using out by simp
  let ?d = "chosen (code_of rc (P b))"
  have side: "threshold (\<lambda>t. within rc ?d (P t)) (s ?d)" using t by (simp add: sides_are_thresholds_def)
  have "within rc ?d (P a)" using False code_zero [of rc "P a"] by (simp add: in_rect_within)
  from threshold_between(4) [OF side this chosen_outside [OF out_b] ab]
  have "a \<le> s ?d" "s ?d < b" "\<forall>t. within rc ?d (P t) = (t \<le> s ?d)" by auto
  then show ?thesis using False by (auto simp: a'_def b'_def in_rect_within)
qed

lemma clip_loop_cuts:
  assumes "sides_are_thresholds rc line P s" "a \<le> b" "code_of rc (P a) AND code_of rc (P b) = 0"
    "code_of rc (P a) \<noteq> 0 \<or> code_of rc (P b) \<noteq> 0"
  shows "\<exists>res. clip_loop rc line (P a, P b) (code_of rc (P a)) (code_of rc (P b)) = Some res \<and> interval_cut rc line P a b res"
  using assms(2-)
proof (induction "nat (b - a)" arbitrary: a b rule: less_induct)
  case less
  let ?f = "code_of rc (P a)" and ?l = "code_of rc (P b)"
  define a' where "a' = (if ?f \<noteq> 0 then s (chosen ?f) else a)"
  define b' where "b' = (if ?f \<noteq> 0 then b else s (chosen ?l))"
  have loop: "clip_loop rc line (P a, P b) ?f ?l =
      (if code_of rc (P a') AND code_of rc (P b') \<noteq> 0 then Some (False, line)
       else if code_of rc (P a') OR code_of rc (P b') = 0 then Some (True, (P a', P b'))
       else clip_loop rc line (P a', P b') (code_of rc (P a')) (code_of rc (P b')))"
    using assms(1) less.prems(3)
    by (subst clip_loop.simps) (auto simp: sides_are_thresholds_def a'_def b'_def Let_def code_of_def)
  note round = clip_round [OF assms(1) less.prems, folded a'_def b'_def]
  consider (reject) "code_of rc (P a') AND code_of rc (P b') \<noteq> 0"
    | (accept) "code_of rc (P a') AND code_of rc (P b') = 0" "code_of rc (P a') OR code_of rc (P b') = 0"
    | (again) "code_of rc (P a') AND code_of rc (P b') = 0" "code_of rc (P a') \<noteq> 0 \<or> code_of rc (P b') \<noteq> 0"
    by (auto simp: or_zero)
  then show ?case
  proof cases
    case reject
    then have "{t \<in> {a..b}. in_rect rc (P t)} = {}" using round cut_rejects [OF assms(1) reject] by auto
    then show ?thesis using reject by (simp add: loop interval_cut_def)
  next
    case accept
    then have "in_rect rc (P a')" "in_rect rc (P b')" by (simp_all add: or_zero code_zero)
    from cut_accepts [OF assms(1) this] show ?thesis using accept round by (auto simp: loop interval_cut_def)
  next
    case again
    then have narrow: "a \<le> a'" "a' \<le> b'" "b' \<le> b" "b' - a' < b - a"
      "{t \<in> {a..b}. in_rect rc (P t)} = {t \<in> {a'..b'}. in_rect rc (P t)}" using round by auto
    have "nat (b' - a') < nat (b - a)" using narrow(2,4) by simp
    from less.hyps [OF this narrow(2) again] obtain res where
      "clip_loop rc line (P a', P b') (code_of rc (P a')) (code_of rc (P b')) = Some res" "interval_cut rc line P a' b' res"
      by blast
    moreover have "\<not> code_of rc (P a') OR code_of rc (P b') = 0" using again(2) by (simp add: or_zero)
    ultimately show ?thesis using again(1) interval_cut_narrow [OF _ narrow(5,1,3)] by (simp add: loop)
  qed
qed

subsection \<open>The points of a line\<close>

definition steep_or_flat :: "segment \<Rightarrow> int \<Rightarrow> point" where
  "steep_or_flat line t =
     (case line of ((X0, Y0), (X1, Y1)) \<Rightarrow>
       if \<bar>X1 - X0\<bar> > \<bar>Y1 - Y0\<bar> then (t, rho X0 Y0 (X1 - X0) (Y1 - Y0) t)
       else (rho Y0 X0 (Y1 - Y0) (X1 - X0) t, t))"

definition crossing :: "rect \<Rightarrow> segment \<Rightarrow> side \<Rightarrow> int" where
  "crossing rc line d =
     (case line of ((X0, Y0), (X1, Y1)) \<Rightarrow>
       if \<bar>X1 - X0\<bar> > \<bar>Y1 - Y0\<bar>
       then (case d of Left \<Rightarrow> rleft rc | Right \<Rightarrow> rright rc - 1
             | Top \<Rightarrow> reach X0 Y0 (X1 - X0) (Y1 - Y0) (rtop rc)
             | Bottom \<Rightarrow> not_exceed X0 Y0 (X1 - X0) (Y1 - Y0) (rbottom rc - 1))
       else (case d of Left \<Rightarrow> reach Y0 X0 (Y1 - Y0) (X1 - X0) (rleft rc)
             | Right \<Rightarrow> not_exceed Y0 X0 (Y1 - Y0) (X1 - X0) (rright rc - 1)
             | Top \<Rightarrow> rtop rc | Bottom \<Rightarrow> rbottom rc - 1))"

definition long_range :: "segment \<Rightarrow> int \<times> int" where
  "long_range line =
     (case line of ((X0, Y0), (X1, Y1)) \<Rightarrow> if \<bar>X1 - X0\<bar> > \<bar>Y1 - Y0\<bar> then (X0, X1) else (Y0, Y1))"

definition rounded_line :: "segment \<Rightarrow> point set" where
  "rounded_line line =
     (let (a, b) = long_range line in steep_or_flat line ` {min a b..max a b})"

definition hull :: "point \<Rightarrow> point \<Rightarrow> point set" where
  "hull p q = {min (fst p) (fst q)..max (fst p) (fst q)} \<times> {min (snd p) (snd q)..max (snd p) (snd q)}"

lemma threshold_major: "threshold (\<lambda>t. v \<le> t) v" "threshold (\<lambda>t. t < v) (v - 1)"
  by (auto simp: threshold_def)

lemma rho_FloorDiv: "a \<noteq> 0 \<Longrightarrow> B + FloorDiv (b * (t - A) * 2 + a) (2 * a) = rho A B a b t"
  by (simp add: rho_def FloorDiv_floor mult.commute mult.left_commute)

lemma side_point_crossing:
  assumes "line = ((X0, Y0), (X1, Y1))" "X0 \<noteq> X1" "Y0 \<noteq> Y1"
  shows "side_point rc line code = steep_or_flat line (crossing rc line (chosen code))"
proof -
  have slopes: "a \<ge> 0 \<and> b \<ge> 0 \<or> a < 0 \<and> b < 0 \<longleftrightarrow> b \<ge> 0 \<and> a \<ge> 0 \<or> b < 0 \<and> a < 0" for a b :: int by blast
  have nz: "X1 - X0 \<noteq> 0" "Y1 - Y0 \<noteq> 0" using assms by simp_all
  show ?thesis
  proof (cases "\<bar>X1 - X0\<bar> > \<bar>Y1 - Y0\<bar>")
    case True
    note side = rho_sides [of "X1 - X0" "Y1 - Y0", where A = X0 and B = Y0]
    have "steep_or_flat line (crossing rc line d) =
        (case d of Left \<Rightarrow> (rleft rc, rho X0 Y0 (X1 - X0) (Y1 - Y0) (rleft rc))
         | Right \<Rightarrow> (rright rc - 1, rho X0 Y0 (X1 - X0) (Y1 - Y0) (rright rc - 1))
         | Top \<Rightarrow> (reach X0 Y0 (X1 - X0) (Y1 - Y0) (rtop rc), rtop rc)
         | Bottom \<Rightarrow> (not_exceed X0 Y0 (X1 - X0) (Y1 - Y0) (rbottom rc - 1), rbottom rc - 1))" for d
      using True nz side(2,4) by (simp add: assms(1) steep_or_flat_def crossing_def split: side.split)
    then show ?thesis
      unfolding side_point_def chosen_def Let_def reach_def not_exceed_def
      using True by (simp only: assms(1) prod.case rho_FloorDiv [OF nz(1)] if_True side.case split: if_split) simp
  next
    case False
    note side = rho_sides [of "Y1 - Y0" "X1 - X0", where A = Y0 and B = X0]
    have "steep_or_flat line (crossing rc line d) =
        (case d of Left \<Rightarrow> (rleft rc, reach Y0 X0 (Y1 - Y0) (X1 - X0) (rleft rc))
         | Right \<Rightarrow> (rright rc - 1, not_exceed Y0 X0 (Y1 - Y0) (X1 - X0) (rright rc - 1))
         | Top \<Rightarrow> (rho Y0 X0 (Y1 - Y0) (X1 - X0) (rtop rc), rtop rc)
         | Bottom \<Rightarrow> (rho Y0 X0 (Y1 - Y0) (X1 - X0) (rbottom rc - 1), rbottom rc - 1))" for d
      using False nz side(2,4) by (simp add: assms(1) steep_or_flat_def crossing_def split: side.split)
    then show ?thesis
      unfolding side_point_def chosen_def Let_def reach_def not_exceed_def slopes [of "Y1 - Y0" "X1 - X0"]
      using False by (simp only: assms(1) prod.case rho_FloorDiv [OF nz(2)] if_False side.case split: if_split) simp
  qed
qed

lemma line_thresholds:
  assumes "line = ((X0, Y0), (X1, Y1))" "X0 \<noteq> X1" "Y0 \<noteq> Y1"
  shows "sides_are_thresholds rc line (steep_or_flat line) (crossing rc line)"
proof -
  have "threshold (\<lambda>t. within rc d (steep_or_flat line t)) (crossing rc line d)
      \<and> on_side rc d (steep_or_flat line (crossing rc line d))" for d
  proof (cases "\<bar>X1 - X0\<bar> > \<bar>Y1 - Y0\<bar>")
    case True
    note side = rho_sides [of "X1 - X0" "Y1 - Y0", where A = X0 and B = Y0]
    show ?thesis
      using assms True side [where v = "rtop rc"] side [where v = "rbottom rc - 1"]
      by (cases d) (simp_all add: steep_or_flat_def crossing_def threshold_major)
  next
    case False
    note side = rho_sides [of "Y1 - Y0" "X1 - X0", where A = Y0 and B = X0]
    show ?thesis
      using assms False side [where v = "rleft rc"] side [where v = "rright rc - 1"]
      by (cases d) (simp_all add: steep_or_flat_def crossing_def threshold_major)
  qed
  then show ?thesis using side_point_crossing [OF assms] by (simp add: sides_are_thresholds_def)
qed

lemma line_ends:
  assumes "line = ((X0, Y0), (X1, Y1))" "X0 \<noteq> X1" "Y0 \<noteq> Y1"
  shows "steep_or_flat line (fst (long_range line)) = (X0, Y0)" "steep_or_flat line (snd (long_range line)) = (X1, Y1)"
proof -
  have ends: "rho A B (A' - A) (B' - B) A = B" "rho A B (A' - A) (B' - B) A' = B'" if "A \<noteq> A'" for A B A' B'
  proof -
    have half: "c div (2 * c) = 0" if "c \<noteq> 0" for c :: int
      using that div_minus_minus [of c "2 * c"] by (cases "0 < c") (simp_all add: div_pos_pos_trivial)
    have "2 * (B' - B) * (A' - A) + (A' - A) = (A' - A) + (B' - B) * (2 * (A' - A))" by (simp add: algebra_simps)
    then have "(2 * (B' - B) * (A' - A) + (A' - A)) div (2 * (A' - A)) = (B' - B) + (A' - A) div (2 * (A' - A))"
      using that by simp
    then show "rho A B (A' - A) (B' - B) A = B" "rho A B (A' - A) (B' - B) A' = B'"
      using that half [of "A' - A"] by (simp_all add: rho_def)
  qed
  show "steep_or_flat line (fst (long_range line)) = (X0, Y0)" "steep_or_flat line (snd (long_range line)) = (X1, Y1)"
    using assms ends [of X0 X1 Y0 Y1] ends [of Y0 Y1 X0 X1] by (simp_all add: steep_or_flat_def long_range_def)
qed

lemma rho_between:
  assumes "a \<noteq> 0" "b \<noteq> 0" "\<bar>b\<bar> \<le> \<bar>a\<bar>" "f \<le> t" "t \<le> l"
  shows "min (rho A B a b f) (rho A B a b l) \<le> rho A B a b t" "rho A B a b t \<le> max (rho A B a b f) (rho A B a b l)"
proof -
  show "min (rho A B a b f) (rho A B a b l) \<le> rho A B a b t"
    by (rule threshold_between(1) [OF rho_sides(1) [OF assms(1-3)] _ _ assms(4,5)]) simp_all
  show "rho A B a b t \<le> max (rho A B a b f) (rho A B a b l)"
    by (rule threshold_between(1) [OF rho_sides(3) [OF assms(1-3)] _ _ assms(4,5)]) simp_all
qed

lemma line_hull:
  assumes "line = ((X0, Y0), (X1, Y1))" "X0 \<noteq> X1" "Y0 \<noteq> Y1" "f \<le> l"
  shows "steep_or_flat line t \<in> hull (steep_or_flat line f) (steep_or_flat line l) \<longleftrightarrow> f \<le> t \<and> t \<le> l"
  using assms rho_between [of "X1 - X0" "Y1 - Y0" f t l X0 Y0] rho_between [of "Y1 - Y0" "X1 - X0" f t l Y0 X0]
  by (auto simp: steep_or_flat_def hull_def)

subsection \<open>The clipper\<close>

definition exact_cut :: "rect \<Rightarrow> segment \<Rightarrow> bool \<times> segment \<Rightarrow> bool" where
  "exact_cut rc line res \<longleftrightarrow>
     (case res of (ok, (p, q)) \<Rightarrow>
       if ok then p \<in> rounded_line line \<and> q \<in> rounded_line line
         \<and> {z \<in> rounded_line line. in_rect rc z} = {z \<in> rounded_line line. z \<in> hull p q}
       else (p, q) = line \<and> {z \<in> rounded_line line. in_rect rc z} = {})"

text \<open>A cut of an interval of parameters is a cut of the line, in either direction.\<close>

lemma interval_cut_exact:
  assumes cut: "interval_cut rc line P a b res" and points: "rounded_line line = P ` {a..b}"
    and hulls: "\<And>f l t. f \<le> l \<Longrightarrow> P t \<in> hull (P f) (P l) \<longleftrightarrow> f \<le> t \<and> t \<le> l"
  shows "exact_cut rc line res"
proof (cases "fst res")
  case True
  then obtain f l where fl: "a \<le> f" "f \<le> l" "l \<le> b" "snd res = (P f, P l)" "{t \<in> {a..b}. in_rect rc (P t)} = {f..l}"
    using cut by (auto simp: interval_cut_def)
  have "{z \<in> rounded_line line. in_rect rc z} = P ` {t \<in> {a..b}. in_rect rc (P t)}" by (auto simp: points)
  moreover have "{z \<in> rounded_line line. z \<in> hull (P f) (P l)} = P ` {t \<in> {a..b}. P t \<in> hull (P f) (P l)}" by (auto simp: points)
  moreover have "{t \<in> {a..b}. P t \<in> hull (P f) (P l)} = {f..l}" using fl(1-3) by (auto simp: hulls)
  ultimately show ?thesis using True fl by (cases res) (auto simp: exact_cut_def points)
next
  case False
  then have "snd res = line" "{t \<in> {a..b}. in_rect rc (P t)} = {}" using cut by (auto simp: interval_cut_def)
  then show ?thesis using False by (cases res) (auto simp: exact_cut_def points)
qed

lemma hull_commute: "hull p q = hull q p"
  by (simp add: hull_def min.commute max.commute)

text \<open>In its own direction, a sloped line is a list of points from its first to its second end.\<close>

lemma directed_line:
  assumes line: "line = ((X0, Y0), (X1, Y1))" "X0 \<noteq> X1" "Y0 \<noteq> Y1"
  shows "\<exists>P s a b. a \<le> b \<and> sides_are_thresholds rc line P s \<and> P a = (X0, Y0) \<and> P b = (X1, Y1)
    \<and> rounded_line line = P ` {a..b} \<and> (\<forall>f l t. f \<le> l \<longrightarrow> P t \<in> hull (P f) (P l) \<longleftrightarrow> f \<le> t \<and> t \<le> l)"
proof -
  obtain a b where ab: "long_range line = (a, b)" by fastforce
  let ?P = "steep_or_flat line" and ?Q = "\<lambda>t. steep_or_flat line (- t)"
  have ends: "?P a = (X0, Y0)" "?P b = (X1, Y1)" using line_ends [OF line] ab by simp_all
  have points: "rounded_line line = ?P ` {min a b..max a b}" by (simp add: rounded_line_def ab)
  show ?thesis
  proof (cases "a \<le> b")
    case True
    show ?thesis
      using True line_thresholds [OF line, of rc] ends points line_hull [OF line]
      by (intro exI [of _ ?P] exI [of _ "crossing rc line"] exI [of _ a] exI [of _ b]) simp
  next
    case False
    have "sides_are_thresholds rc line ?Q (\<lambda>d. - crossing rc line d)"
      using line_thresholds [OF line, of rc] threshold_uminus [of "\<lambda>t. within rc _ (?P t)"]
      by (simp add: sides_are_thresholds_def)
    moreover have "?P ` {b..a} = ?Q ` {- a..- b}"
    proof -
      have "{b..a} = uminus ` {- a..- b}" by simp
      then show ?thesis by (simp only: image_image)
    qed
    moreover have "?Q t \<in> hull (?Q f) (?Q l) \<longleftrightarrow> f \<le> t \<and> t \<le> l" if "f \<le> l" for f l t
      using line_hull [OF line, of "- l" "- f" "- t"] that by (auto simp: hull_commute)
    ultimately show ?thesis
      using False ends points
      by (intro exI [of _ ?Q] exI [of _ "\<lambda>d. - crossing rc line d"] exI [of _ "- a"] exI [of _ "- b"]) auto
  qed
qed

lemma sloped_exact:
  assumes line: "line = ((X0, Y0), (X1, Y1))" "X0 \<noteq> X1" "Y0 \<noteq> Y1"
  shows "\<exists>res. LineClipper rc line = Some res \<and> exact_cut rc line res"
proof -
  obtain P s a b where P: "a \<le> b" "sides_are_thresholds rc line P s" "(X0, Y0) = P a" "(X1, Y1) = P b"
    "rounded_line line = P ` {a..b}" "\<And>f l t. f \<le> l \<Longrightarrow> P t \<in> hull (P f) (P l) \<longleftrightarrow> f \<le> t \<and> t \<le> l"
    using directed_line [OF line, of rc] by metis
  let ?f = "code_of rc (P a)" and ?l = "code_of rc (P b)"
  have ends: "line = (P a, P b)" using line(1) P(3,4) by simp
  have clip: "LineClipper rc line =
      (if ?f OR ?l = 0 then Some (True, line) else if ?f AND ?l \<noteq> 0 then Some (False, line)
       else clip_loop rc line line ?f ?l)"
    unfolding P(3,4) [symmetric] using line by (simp add: LineClipper_def code_of_def Let_def)
  have "\<exists>res. LineClipper rc line = Some res \<and> interval_cut rc line P a b res"
  proof (cases "?f OR ?l = 0")
    case True
    then have "in_rect rc (P a)" "in_rect rc (P b)" by (simp_all add: or_zero code_zero)
    from cut_accepts [OF P(2) this] have "interval_cut rc line P a b (True, line)"
      using P(1) ends by (auto simp: interval_cut_def)
    then show ?thesis using True clip by auto
  next
    case False
    show ?thesis
    proof (cases "?f AND ?l = 0")
      case True
      have "LineClipper rc line = clip_loop rc line (P a, P b) ?f ?l"
        using False True clip by (simp flip: ends)
      then show ?thesis
        using clip_loop_cuts [OF P(2,1) True] False by (simp add: or_zero)
    next
      case share: False
      from cut_rejects [OF P(2) share] show ?thesis using False share by (simp add: clip interval_cut_def)
    qed
  qed
  then show ?thesis using interval_cut_exact [OF _ P(5,6)] by blast
qed

lemma half_zero: "c div (2 * c) = (0 :: int)"
  using div_minus_minus [of c "2 * c"] by (cases c "0 :: int" rule: linorder_cases) (simp_all add: div_pos_pos_trivial)

lemma rho_straight: "rho A B a 0 t = B"
  using half_zero [of a] by (simp add: rho_def)

lemma rounded_vertical: "rounded_line ((x, y0), (x, y1)) = {x} \<times> {min y0 y1..max y0 y1}"
  by (auto simp: rounded_line_def long_range_def steep_or_flat_def rho_straight)

lemma rounded_horizontal: "rounded_line ((x0, y), (x1, y)) = {min x0 x1..max x0 x1} \<times> {y}"
  by (auto simp: rounded_line_def long_range_def steep_or_flat_def rho_straight)

lemma in_rect_vertical: "{z \<in> {x} \<times> {a..b}. in_rect rc z} =
    (if rleft rc \<le> x \<and> x < rright rc then {x} \<times> {max a (rtop rc)..min b (rbottom rc - 1)} else {})"
  by (auto simp: in_rect_def PtInRect_def)

lemma in_rect_horizontal: "{z \<in> {a..b} \<times> {y}. in_rect rc z} =
    (if rtop rc \<le> y \<and> y < rbottom rc then {max a (rleft rc)..min b (rright rc - 1)} \<times> {y} else {})"
  by (auto simp: in_rect_def PtInRect_def)

lemma hull_vertical: "{z \<in> {x} \<times> {a..b}. z \<in> hull (x, p) (x, q)} = {x} \<times> {max a (min p q)..min b (max p q)}"
  by (auto simp: hull_def)

lemma hull_horizontal: "{z \<in> {a..b} \<times> {y}. z \<in> hull (p, y) (q, y)} = {max a (min p q)..min b (max p q)} \<times> {y}"
  by (auto simp: hull_def)

lemma exact_cut_commute: "exact_cut rc line (True, (p, q)) = exact_cut rc line (True, (q, p))"
  by (auto simp: exact_cut_def hull_commute [of p q])

text \<open>The straight cases cut the interval of the line to the interval of the rectangle.\<close>

lemma vertical_result:
  assumes "y0 \<noteq> y1"
    and "lo = max (min y0 y1) (rtop rc)" "hi = min (max y0 y1) (rbottom rc - 1)"
  shows "LineClipper rc ((x, y0), (x, y1)) = Some
    (if rleft rc \<le> x \<and> x < rright rc \<and> lo \<le> hi
     then (True, if rtop rc \<le> min y0 y1 \<and> max y0 y1 < rbottom rc then ((x, y0), (x, y1)) else ((x, lo), (x, hi)))
     else (False, ((x, y0), (x, y1))))"
  using assms(1) unfolding assms(2,3)
  by (cases "y0 < y1") (simp_all add: LineClipper_def Let_def max_def min_def, auto)

lemma horizontal_result:
  assumes "x0 \<noteq> x1"
    and "lo = max (min x0 x1) (rleft rc)" "hi = min (max x0 x1) (rright rc - 1)"
  shows "LineClipper rc ((x0, y), (x1, y)) = Some
    (if rtop rc \<le> y \<and> y < rbottom rc \<and> lo \<le> hi
     then (True, if rleft rc \<le> min x0 x1 \<and> max x0 x1 < rright rc then ((x0, y), (x1, y)) else ((lo, y), (hi, y)))
     else (False, ((x0, y), (x1, y))))"
  using assms(1) unfolding assms(2,3)
  by (cases "x0 < x1") (simp_all add: LineClipper_def Let_def max_def min_def, auto)

lemma vertical_exact: "\<exists>res. LineClipper rc ((x, y0), (x, y1)) = Some res \<and> exact_cut rc ((x, y0), (x, y1)) res"
proof (cases "y0 = y1")
  case True
  then show ?thesis
    by (simp add: LineClipper_def exact_cut_def rounded_vertical in_rect_vertical hull_vertical PtInRect_def) (auto simp: in_rect_def PtInRect_def hull_def)
next
  case False
  define lo hi where "lo = max (min y0 y1) (rtop rc)" and "hi = min (max y0 y1) (rbottom rc - 1)"
  note defs = exact_cut_def rounded_vertical in_rect_vertical hull_vertical
  have "exact_cut rc ((x, y0), (x, y1)) (True, ((x, lo), (x, hi)))" if "rleft rc \<le> x" "x < rright rc" "lo \<le> hi"
    using that by (auto simp: defs lo_def hi_def)
  moreover have "exact_cut rc ((x, y0), (x, y1)) (True, ((x, y0), (x, y1)))"
    if "rleft rc \<le> x" "x < rright rc" "rtop rc \<le> min y0 y1" "max y0 y1 < rbottom rc"
    using that by (auto simp: defs)
  moreover have "exact_cut rc ((x, y0), (x, y1)) (False, ((x, y0), (x, y1)))"
    if "\<not> (rleft rc \<le> x \<and> x < rright rc \<and> lo \<le> hi)"
    using that by (auto simp: defs lo_def [symmetric] hi_def [symmetric])
  ultimately show ?thesis
    using vertical_result [OF False lo_def hi_def, of x] by auto
qed

lemma horizontal_exact: "\<exists>res. LineClipper rc ((x0, y), (x1, y)) = Some res \<and> exact_cut rc ((x0, y), (x1, y)) res"
proof (cases "x0 = x1")
  case False
  define lo hi where "lo = max (min x0 x1) (rleft rc)" and "hi = min (max x0 x1) (rright rc - 1)"
  note defs = exact_cut_def rounded_horizontal in_rect_horizontal hull_horizontal
  have "exact_cut rc ((x0, y), (x1, y)) (True, ((lo, y), (hi, y)))" if "rtop rc \<le> y" "y < rbottom rc" "lo \<le> hi"
    using that by (auto simp: defs lo_def hi_def)
  moreover have "exact_cut rc ((x0, y), (x1, y)) (True, ((x0, y), (x1, y)))"
    if "rtop rc \<le> y" "y < rbottom rc" "rleft rc \<le> min x0 x1" "max x0 x1 < rright rc"
    using that by (auto simp: defs)
  moreover have "exact_cut rc ((x0, y), (x1, y)) (False, ((x0, y), (x1, y)))"
    if "\<not> (rtop rc \<le> y \<and> y < rbottom rc \<and> lo \<le> hi)"
    using that by (auto simp: defs lo_def [symmetric] hi_def [symmetric])
  ultimately show ?thesis
    using horizontal_result [OF False lo_def hi_def, of y] by auto
qed (use vertical_exact in simp)

subsection \<open>Property\<close>

text \<open>C4.  The line clipper returns for every line and every rectangle, also one without points.  It rejects, and leaves
  the line as it was, exactly when no point of the rounded line is in the rectangle; otherwise it accepts with two points of the
  rounded line, and the points between them are exactly those in the rectangle.  Rounding is to the nearest
  integer with halves up, which is not how the line generator rounds them: the line from (-5,5) to (3,1) is rejected at a
  rectangle that has the point (2,1) the generator visits.\<close>

theorem LineClipper_exact:
  "(\<exists>ok p q. LineClipper rc line = Some (ok, (p, q)) \<and>
     (if ok then p \<in> rounded_line line \<and> q \<in> rounded_line line
        \<and> {z \<in> rounded_line line. in_rect rc z} = {z \<in> rounded_line line. z \<in> hull p q}
      else (p, q) = line \<and> {z \<in> rounded_line line. in_rect rc z} = {}))
   \<and> LineClipper (mk_rect 0 0 3 2) ((-5, 5), (3, 1)) = Some (False, ((-5, 5), (3, 1)))
   \<and> (2, 1) \<in> set (line_points (-5) 5 3 1) \<and> in_rect (mk_rect 0 0 3 2) (2, 1)"
proof -
  obtain x0 y0 x1 y1 where line: "line = ((x0, y0), (x1, y1))" by (metis prod.exhaust)
  have "\<exists>res. LineClipper rc line = Some res \<and> exact_cut rc line res"
    using vertical_exact horizontal_exact sloped_exact unfolding line by metis
  then show ?thesis
    using clipper_example by (auto simp: exact_cut_def line_points_def line_point_def in_rect_def PtInRect_def)
qed

end
