(* ===== verification/Circles.thy ===== *)
theory Circles
  imports Generators_Props Region_Props
begin

section \<open>Circles as sets of points, and regions of shapes (src/newgdi/generators.c, region.c)\<close>

text \<open>
  The spans of the circle generator cover exactly the points nearer to the centre than
  half a unit beyond the radius, measured along the longer coordinate; the region that is made of
  them through the region's callback is that set.
\<close>

subsection \<open>The invariant of the loop\<close>

text \<open>\<open>w\<close> is the nearest height of the circle over the column \<open>c\<close>.\<close>

definition nearest :: "int \<Rightarrow> int \<Rightarrow> int \<Rightarrow> bool" where
  "nearest r c w \<longleftrightarrow> c * c + w * w - w < r * r \<and> r * r \<le> c * c + w * w + w"

lemma circle_loop_columns:
  assumes "0 \<le> cx" "cx \<le> cy" "nearest r cx cy"
    and "df = (cx + 1) * (cx + 1) + cy * cy - cy - r * r" "d_e = 2 * cx + 3" "d_se = 2 * cx - 2 * cy + 5"
  shows "\<exists>n W. cx < n \<and> r * r \<le> 2 * n * n - n \<and> W cx = cy
    \<and> (\<forall>c \<in> {cx..<n}. c \<le> W c \<and> nearest r c (W c))
    \<and> set (circle_loop x y cx cy df d_e d_se) = (\<Union>c \<in> {cx..<n}. set (circle_calls x y c (W c)))"
  using assms
proof (induction "nat (cy + 1 - cx)" arbitrary: cx cy df d_e d_se rule: less_induct)
  case less
  define cy' where "cy' = (if df < 0 then cy else cy - 1)"
  define df' where "df' = (if df < 0 then df + d_e else df + d_se)"
  define d_se' where "d_se' = (if df < 0 then d_se + 2 else d_se + 4)"
  have loop: "set (circle_loop x y cx cy df d_e d_se) = set (circle_calls x y cx cy)
      \<union> (if cx + 1 \<le> cy' then set (circle_loop x y (cx + 1) cy' df' (d_e + 2) d_se') else {})"
    by (subst circle_loop.simps) (auto simp: Let_def cy'_def df'_def d_se'_def)
  have upper: "r * r \<le> (cx + 1) * (cx + 1) + cy' * cy' + cy'"
    using less.prems by (auto simp: cy'_def nearest_def algebra_simps)
  show ?case
  proof (cases "cx + 1 \<le> cy'")
    case True
    have near: "nearest r (cx + 1) cy'"
      using True less.prems upper by (auto simp: cy'_def nearest_def algebra_simps split: if_splits)
    have next_df: "df' = (cx + 1 + 1) * (cx + 1 + 1) + cy' * cy' - cy' - r * r"
      "d_e + 2 = 2 * (cx + 1) + 3" "d_se' = 2 * (cx + 1) - 2 * cy' + 5"
      using less.prems by (auto simp: cy'_def df'_def d_se'_def algebra_simps)
    have "nat (cy' + 1 - (cx + 1)) < nat (cy + 1 - cx)" using less.prems by (auto simp: cy'_def)
    from less.hyps [OF this _ True near next_df] less.prems(1)
    obtain n W where IH: "cx + 1 < n" "r * r \<le> 2 * n * n - n" "W (cx + 1) = cy'"
      "\<forall>c \<in> {cx + 1..<n}. c \<le> W c \<and> nearest r c (W c)"
      "set (circle_loop x y (cx + 1) cy' df' (d_e + 2) d_se') = (\<Union>c \<in> {cx + 1..<n}. set (circle_calls x y c (W c)))"
      by auto
    have ivl: "{cx..<n} = insert cx {cx + 1..<n}" using IH(1) by auto
    show ?thesis
      using IH less.prems(2,3) True
      by (intro exI [of _ n] exI [of _ "W(cx := cy)"]) (auto simp: loop ivl)
  next
    case False
    then have "cy' \<le> cx" by simp
    moreover have "0 \<le> cy'" using less.prems by (auto simp: cy'_def nearest_def)
    ultimately have "cy' * cy' + cy' \<le> cx * cx + cx" by (intro add_mono mult_mono) auto
    then have "r * r \<le> 2 * (cx + 1) * (cx + 1) - (cx + 1)" using upper by (simp add: algebra_simps)
    moreover have "{cx..<cx + 1} = {cx}" by auto
    ultimately show ?thesis
      using less.prems(2,3) False
      by (intro exI [of _ "cx + 1"] exI [of _ "\<lambda>_. cy"]) (auto simp: loop)
  qed
qed

subsection \<open>The points of the spans\<close>

fun span_pts :: "span \<Rightarrow> point set" where
  "span_pts (x1, x2, y) = {min x1 x2..max x1 x2} \<times> {y}"

definition spans_pts :: "span list \<Rightarrow> point set" where
  "spans_pts spans = (\<Union>s \<in> set spans. span_pts s)"

lemma spans_pts_simps [simp]: "spans_pts [] = {}" "spans_pts (s # ss) = span_pts s \<union> spans_pts ss"
  by (auto simp: spans_pts_def)

text \<open>The disc: with the longer coordinate \<open>m\<close> and the shorter \<open>k\<close>, \<open>k\<^sup>2 + (m - 1/2)\<^sup>2 < r\<^sup>2 + 1/4\<close>.\<close>

definition disc :: "int \<Rightarrow> int \<Rightarrow> int \<Rightarrow> point set" where
  "disc x y r =
     {(px, py). let m = max \<bar>px - x\<bar> \<bar>py - y\<bar>; k = min \<bar>px - x\<bar> \<bar>py - y\<bar> in k * k + m * m - m < r * r}"

lemma circle_calls_pts:
  assumes "0 \<le> cx" "0 \<le> cy"
  shows "(px, py) \<in> spans_pts (circle_calls x y cx cy) \<longleftrightarrow>
    (\<bar>px - x\<bar> \<le> cx \<and> \<bar>py - y\<bar> = cy) \<or> (\<bar>px - x\<bar> \<le> cy \<and> \<bar>py - y\<bar> = cx)"
  using assms by (auto simp: circle_calls_def abs_le_iff abs_if)

lemma gap_mono: "a \<le> b \<Longrightarrow> 0 \<le> a \<Longrightarrow> a * a - a \<le> b * b - b" for a b :: int
proof -
  assume ab: "a \<le> b" "0 \<le> a"
  show ?thesis
  proof (cases "a = b")
    case False
    then have "a * a \<le> a * (b - 1)" "a * (b - 1) \<le> b * (b - 1)" using ab by (auto intro: mult_left_mono mult_right_mono)
    then show ?thesis using ab by (simp add: algebra_simps)
  qed simp
qed

lemma gap_le: "a * a - a < w * w + w \<Longrightarrow> 0 \<le> w \<Longrightarrow> a \<le> w" for a w :: int
  using gap_mono [of "w + 1" a] by (force simp: algebra_simps)

lemma sq_mono: "a \<le> b \<Longrightarrow> 0 \<le> a \<Longrightarrow> a * a \<le> b * b" for a b :: int
  by (intro mult_mono) auto

lemma columns_in_disc:
  assumes "0 \<le> c" "c \<le> w" "c * c + w * w - w < (R :: int)" "0 \<le> a" "0 \<le> b"
    and "(a \<le> c \<and> b = w) \<or> (a \<le> w \<and> b = c)"
  shows "min a b * min a b + max a b * max a b - max a b < R"
proof -
  have "a \<le> b \<and> a \<le> c \<and> b \<le> w \<or> b \<le> a \<and> b \<le> c \<and> a \<le> w" using assms by linarith
  then show ?thesis
    using sq_mono [of a c] sq_mono [of b c] gap_mono [of b w] gap_mono [of a w] assms by (auto simp: min_def max_def)
qed

lemma disc_in_columns:
  assumes near: "\<forall>c \<in> {0..<n}. c \<le> W c \<and> R \<le> c * c + W c * W c + W c \<and> c * c + W c * W c - W c < R"
    and n: "R \<le> 2 * n * n - n" and n0: "0 < n" and ab: "0 \<le> a" "0 \<le> b"
    and inside: "min a b * min a b + max a b * max a b - max a b < (R :: int)"
  shows "\<exists>c \<in> {0..<n}. (a \<le> c \<and> b = W c) \<or> (a \<le> W c \<and> b = c)"
proof (cases "b < n")
  case True
  then have w: "b \<le> W b" "R \<le> b * b + W b * W b + W b" using near ab by auto
  have "a \<le> W b"
  proof (cases "a \<le> b")
    case False
    then have "a * a - a < W b * W b + W b" using inside w by (simp add: min_def max_def)
    then show ?thesis using gap_le w ab by simp
  qed (use w in simp)
  then show ?thesis using True ab by (intro bexI [of _ b]) auto
next
  case bn: False
  have an: "a < n"
  proof (rule ccontr)
    assume "\<not> a < n"
    then have "n * n \<le> min a b * min a b" "n * n - n \<le> max a b * max a b - max a b"
      using bn n0 by (auto intro!: sq_mono gap_mono)
    then show False using inside n by simp
  qed
  let ?C = "{c \<in> {0..<n}. c * c + b * b - b < R}"
  have "a \<in> ?C" using an ab bn inside by (simp add: min_def max_def split: if_splits)
  moreover have fin: "finite ?C" by (rule finite_subset [of _ "{0..<n}"]) auto
  ultimately have C: "finite ?C" "?C \<noteq> {}" "a \<le> Max ?C" by (auto simp only: Max_ge empty_iff)
  define c where "c = Max ?C"
  have c: "0 \<le> c" "c < n" "c * c + b * b - b < R" "a \<le> c" using Max_in [OF C(1,2)] C(3) by (auto simp: c_def)
  have w: "c \<le> W c" "R \<le> c * c + W c * W c + W c" "c * c + W c * W c - W c < R" using near c by auto
  have "b \<le> W c" using c(3) w c(1) gap_le [of b "W c"] by simp
  moreover have "W c \<le> b"
  proof (rule ccontr)
    assume "\<not> W c \<le> b"
    then have "b * b + b \<le> W c * W c - W c" using gap_mono [of "b + 1" "W c"] ab by (simp add: algebra_simps)
    then have big: "c * c + b * b + b < R" using w by simp
    show False
    proof (cases "c + 1 < n")
      case True
      then have "\<not> (c + 1) * (c + 1) + b * b - b < R" using C(1) c(1) Max_ge [of ?C "c + 1"] by (auto simp: c_def)
      then show False using big c bn by (simp add: algebra_simps)
    next
      case False
      then have "n = c + 1" using c by simp
      then show False using big n sq_mono [of n b] bn n0 by (simp add: algebra_simps)
    qed
  qed
  ultimately show ?thesis using c by (intro bexI [of _ c]) auto
qed

lemma in_disc: "(px, py) \<in> disc x y r \<longleftrightarrow>
    min \<bar>px - x\<bar> \<bar>py - y\<bar> * min \<bar>px - x\<bar> \<bar>py - y\<bar>
      + max \<bar>px - x\<bar> \<bar>py - y\<bar> * max \<bar>px - x\<bar> \<bar>py - y\<bar> - max \<bar>px - x\<bar> \<bar>py - y\<bar> < r * r"
  by (simp add: disc_def Let_def)

lemma CircleGenerator_disc:
  assumes "1 \<le> r"
  shows "spans_pts (CircleGenerator x y r) = disc x y r"
proof -
  have "nearest r 0 r" using assms by (simp add: nearest_def)
  then obtain n W where W: "0 < n" "r * r \<le> 2 * n * n - n" "\<forall>c \<in> {0..<n}. c \<le> W c \<and> nearest r c (W c)"
    and spans: "set (CircleGenerator x y r) = (\<Union>c \<in> {0..<n}. set (circle_calls x y c (W c)))"
    using circle_loop_columns [of 0 r r "1 - r" 3 "-2 * r + 5" x y] assms by (auto simp: CircleGenerator_def)
  have W0: "0 \<le> W c" if "c \<in> {0..<n}" for c using W(3) that by force
  have "(px, py) \<in> spans_pts (CircleGenerator x y r) \<longleftrightarrow> (px, py) \<in> disc x y r" for px py
  proof -
    let ?a = "\<bar>px - x\<bar>" and ?b = "\<bar>py - y\<bar>"
    have "(px, py) \<in> spans_pts (CircleGenerator x y r)
        \<longleftrightarrow> (\<exists>c \<in> {0..<n}. (px, py) \<in> spans_pts (circle_calls x y c (W c)))"
      by (simp add: spans_pts_def spans)
    also have "\<dots> \<longleftrightarrow> (\<exists>c \<in> {0..<n}. (?a \<le> c \<and> ?b = W c) \<or> (?a \<le> W c \<and> ?b = c))"
      using W0 by (intro bex_cong refl circle_calls_pts) auto
    also have "\<dots> \<longleftrightarrow> (px, py) \<in> disc x y r"
    proof
      assume "\<exists>c \<in> {0..<n}. (?a \<le> c \<and> ?b = W c) \<or> (?a \<le> W c \<and> ?b = c)"
      then obtain c where c: "c \<in> {0..<n}" "(?a \<le> c \<and> ?b = W c) \<or> (?a \<le> W c \<and> ?b = c)" by blast
      then have "0 \<le> c" "c \<le> W c" "c * c + W c * W c - W c < r * r"
        using W(3) by (simp_all add: nearest_def)
      then show "(px, py) \<in> disc x y r" unfolding in_disc using c(2) by (intro columns_in_disc) auto
    next
      assume "(px, py) \<in> disc x y r"
      then show "\<exists>c \<in> {0..<n}. (?a \<le> c \<and> ?b = W c) \<or> (?a \<le> W c \<and> ?b = c)"
        unfolding in_disc using W(1-3) by (intro disc_in_columns [where R = "r * r"]) (auto simp: nearest_def)
    qed
    finally show ?thesis .
  qed
  then show ?thesis by auto
qed

end
