(* ===== verification/Shapes.thy ===== *)
theory Shapes
  imports Circles
begin

section \<open>Regions of circles and ellipses (src/newgdi/region.c and generators.c)\<close>

text \<open>
  \<open>InitCircleRegion\<close> and \<open>InitEllipseRegion\<close> empty a region and let a generator add its spans
  through \<open>cb_region\<close>.  The lemmas show that the ellipse generator returns and stays in its box.
\<close>

subsection \<open>The operations\<close>

text \<open>\<open>NEWCLIPRECT\<close> links a new rectangle behind the last one and sets nothing else.\<close>

definition NEWCLIPRECT :: "rgn_store \<Rightarrow> rgn_ref \<Rightarrow> rect \<Rightarrow> rgn_store" where
  "NEWCLIPRECT st region rc = st(region := (st region)\<lparr>rects := rects (st region) @ [rc]\<rparr>)"

definition cb_spans :: "rgn_ref \<Rightarrow> span list \<Rightarrow> rgn_store \<Rightarrow> rgn_store" where
  "cb_spans region spans st = fold (\<lambda>(x1, x2, y) st. cb_region st region x1 x2 y) spans st"

definition InitCircleRegion :: "rgn_store \<Rightarrow> rgn_ref \<Rightarrow> int \<Rightarrow> int \<Rightarrow> int \<Rightarrow> bool \<times> rgn_store" where
  "InitCircleRegion st dst x y r =
     (let st = EmptyClipRgn st dst
      in if r < 1 then (True, NEWCLIPRECT st dst (mk_rect x y (x + 1) (y + 1)))
         else (True, cb_spans dst (CircleGenerator x y r) st))"

definition InitEllipseRegion ::
  "rgn_store \<Rightarrow> rgn_ref \<Rightarrow> int \<Rightarrow> int \<Rightarrow> int \<Rightarrow> int \<Rightarrow> (bool \<times> rgn_store) option" where
  "InitEllipseRegion st dst x y rx ry =
     (let st = EmptyClipRgn st dst
      in if rx < 1 \<or> ry < 1 then Some (True, NEWCLIPRECT st dst (mk_rect x y (x + 1) (y + 1)))
         else (case EllipseGenerator x y rx ry of
                 None \<Rightarrow> None
               | Some spans \<Rightarrow> Some (True, cb_spans dst spans st)))"

subsection \<open>Spans through the callback\<close>

lemma writes_trans:
  "writes st st' n P \<Longrightarrow> writes st' st'' n Q \<Longrightarrow> writes st st'' n Q"
  by (auto simp: writes_def)

lemma cb_spans_writes:
  "rgn_ok (st (Heap n)) \<Longrightarrow>
    writes st (cb_spans (Heap n) spans st) n (rgn_pts (st (Heap n)) \<union> spans_pts spans)"
proof (induction spans arbitrary: st)
  case Nil
  then show ?case by (simp add: cb_spans_def writes_same)
next
  case (Cons s spans)
  obtain x1 x2 y where s: "s = (x1, x2, y)" by (metis prod.exhaust)
  let ?st = "cb_region st (Heap n) x1 x2 y"
  have first: "writes st ?st n (rgn_pts (st (Heap n)) \<union> span_pts s)"
    using cb_region_writes [of st n x1 x2 y] Cons.prems by (simp add: s)
  then have "writes ?st (cb_spans (Heap n) spans ?st) n (rgn_pts (?st (Heap n)) \<union> spans_pts spans)"
    using Cons.IH [of ?st] by (simp add: writes_def)
  moreover have "rgn_pts (?st (Heap n)) = rgn_pts (st (Heap n)) \<union> span_pts s"
    using first by (simp add: writes_def)
  moreover have "cb_spans (Heap n) (s # spans) st = cb_spans (Heap n) spans ?st"
    by (simp add: cb_spans_def s)
  ultimately show ?case using writes_trans [OF first] by (simp add: Un_assoc)
qed

lemma emptied_spans_write:
  "writes st (cb_spans (Heap n) spans (EmptyClipRgn st (Heap n))) n (spans_pts spans)"
proof -
  have empty: "writes st (EmptyClipRgn st (Heap n)) n {}"
    by (intro computes_writes computes_empty)
  then have "rgn_ok (EmptyClipRgn st (Heap n) (Heap n))" "rgn_pts (EmptyClipRgn st (Heap n) (Heap n)) = {}"
    by (simp_all add: writes_def)
  then show ?thesis using writes_trans [OF empty cb_spans_writes] by simp
qed

subsection \<open>The ellipse generator\<close>

definition box :: "int \<Rightarrow> int \<Rightarrow> int \<Rightarrow> int \<Rightarrow> point set" where
  "box x y rx ry = {x - rx..x + rx} \<times> {y - ry..y + ry}"

definition symmetric_about :: "int \<Rightarrow> int \<Rightarrow> point set \<Rightarrow> bool" where
  "symmetric_about x y P \<longleftrightarrow> (\<forall>px py. (px, py) \<in> P \<longrightarrow> (2 * x - px, py) \<in> P \<and> (px, 2 * y - py) \<in> P)"

definition fits :: "int \<Rightarrow> int \<Rightarrow> int \<Rightarrow> int \<Rightarrow> span list \<Rightarrow> bool" where
  "fits x y rx ry spans \<longleftrightarrow> spans_pts spans \<subseteq> box x y rx ry \<and> symmetric_about x y (spans_pts spans)"

lemma spans_pts_append [simp]: "spans_pts (a @ b) = spans_pts a \<union> spans_pts b"
  by (auto simp: spans_pts_def)

lemma fits_append: "fits x y rx ry a \<Longrightarrow> fits x y rx ry b \<Longrightarrow> fits x y rx ry (a @ b)"
  by (auto simp: fits_def symmetric_about_def)

lemma fits_Nil [simp]: "fits x y rx ry []"
  by (simp add: fits_def symmetric_about_def)

lemma fits_mirrored: "0 \<le> a \<Longrightarrow> a \<le> rx \<Longrightarrow> 0 \<le> b \<Longrightarrow> b \<le> ry \<Longrightarrow> fits x y rx ry (mirrored x y a b)"
  by (auto simp: fits_def mirrored_def box_def symmetric_about_def)

lemma cdiv_nonneg: "0 \<le> a \<Longrightarrow> 0 < b \<Longrightarrow> cdiv a b = a div b"
  by (cases "a = 0") (simp_all add: cdiv_def)

text \<open>The invariant of the loop: \<open>ix\<close> and \<open>iy\<close> have not crossed, or the loop is about to end.\<close>

definition turning :: "int \<Rightarrow> int \<Rightarrow> int \<Rightarrow> bool" where
  "turning m ix iy \<longleftrightarrow>
     0 \<le> ix \<and> ix < 64 * m + 32 \<and> - 32 < iy \<and> iy \<le> 64 * m \<and> (ix \<le> iy \<longrightarrow> 64 * m \<le> ix + iy)"

lemma turning_step:
  assumes m: "1 \<le> m" and t: "turning m ix iy" and more: "(ix + 32) div 64 < (iy + 32) div (64 :: int)"
  shows "turning m (ix + iy div m) (iy - (ix + iy div m) div m)" "ix < ix + iy div m"
    "iy - (ix + iy div m) div m \<le> iy" "0 \<le> iy"
proof -
  define q where "q = iy div m"
  define p where "p = (ix + q) div m"
  have order: "ix < iy" using more by linarith
  then have large: "32 * m \<le> iy" "64 * m \<le> ix + iy" and bounds: "0 \<le> ix" "iy \<le> 64 * m" using t by (auto simp: turning_def)
  show "0 \<le> iy" using large m by linarith
  have q: "q \<le> 64" "1 \<le> q"
    using zdiv_mono1 [of iy "64 * m" m] zdiv_mono1 [of m iy m] bounds m large by (auto simp: q_def)
  then show "ix < ix + iy div m" by (simp add: q_def)
  have p0: "0 \<le> p" using q bounds m by (simp add: p_def pos_imp_zdiv_nonneg_iff)
  then show "iy - (ix + iy div m) div m \<le> iy" by (simp add: p_def q_def)
  have "(iy + 32) div 64 \<le> m" using bounds by linarith
  then have ix: "ix + 32 < 64 * m" using more by linarith
  have down: "- 32 < iy - p"
  proof (cases "m = 1")
    case True
    then show ?thesis using ix by (simp add: p_def q_def)
  next
    case False
    then have "q * 2 \<le> q * m" "p * 2 \<le> p * m" using m q p0 by (auto intro: mult_left_mono)
    moreover have "q * m \<le> iy" "p * m \<le> ix + q" using m by (simp_all add: q_def p_def pos_mod_sign div_mult_mod_eq minus_mod_eq_div_mult [symmetric])
    ultimately show ?thesis using order large m by linarith
  qed
  have "p \<le> q" if "ix + q \<le> iy - p"
    unfolding p_def q_def by (rule zdiv_mono1) (use that p0 m in \<open>auto simp: q_def\<close>)
  then have "turning m (ix + q) (iy - p)"
    using ix q p0 bounds large down by (auto simp: turning_def)
  then show "turning m (ix + iy div m) (iy - (ix + iy div m) div m)" by (simp add: p_def q_def)
qed

text \<open>The state that a round computes, and the condition under which it draws within the box.\<close>

definition ellipse_next :: "int \<Rightarrow> int \<Rightarrow> int \<Rightarrow> int \<Rightarrow> ellipse_state" where
  "ellipse_next major minor ix iy =
     ((ix + 32) div 64, (iy + 32) div 64, ((ix + 32) div 64 * minor) div major, ((iy + 32) div 64 * minor) div major)"

definition drawable :: "int \<Rightarrow> int \<Rightarrow> ellipse_state \<Rightarrow> bool" where
  "drawable major minor s \<longleftrightarrow> (case s of (h, i, j, k) \<Rightarrow>
     0 \<le> h \<and> h \<le> major \<and> 0 \<le> i \<and> i \<le> major \<and> 0 \<le> j \<and> j \<le> minor \<and> 0 \<le> k \<and> k \<le> minor)"

lemma scaled_bounds:
  assumes "1 \<le> minor" "1 \<le> major" "0 \<le> a" "a \<le> (major :: int)"
  shows "0 \<le> (a * minor) div major" "(a * minor) div major \<le> minor"
proof -
  show "0 \<le> (a * minor) div major" using assms by (simp add: pos_imp_zdiv_nonneg_iff)
  have "(a * minor) div major \<le> (major * minor) div major"
    using assms by (intro zdiv_mono1 mult_right_mono) auto
  then show "(a * minor) div major \<le> minor" using assms by simp
qed

lemma turning_drawable:
  assumes "1 \<le> minor" "1 \<le> major" "turning major ix iy"
  shows "drawable major minor (ellipse_next major minor ix iy)"
proof -
  have "0 \<le> (ix + 32) div 64" "(ix + 32) div 64 \<le> major" "0 \<le> (iy + 32) div 64" "(iy + 32) div 64 \<le> major"
    using assms(3) by (auto simp: turning_def)
  then show ?thesis using assms(1,2) by (auto simp: drawable_def ellipse_next_def intro: scaled_bounds)
qed

lemma ellipse_round:
  assumes "1 \<le> minor" "1 \<le> major" "turning major ix iy"
  shows "ellipse_loop major minor calls ix iy old out =
    (if (ix + 32) div 64 < (iy + 32) div 64
     then ellipse_loop major minor calls (ix + iy div major) (iy - (ix + iy div major) div major)
       (ellipse_next major minor ix iy) (out @ calls old (ellipse_next major minor ix iy))
     else Some (out @ calls old (ellipse_next major minor ix iy)))"
proof -
  have h: "0 \<le> (ix + 32) div 64" "0 \<le> (iy + 32) div 64" using assms(3) by (auto simp: turning_def)
  then have "cdiv ((ix + 32) div 64 * minor) major = ((ix + 32) div 64 * minor) div major"
    "cdiv ((iy + 32) div 64 * minor) major = ((iy + 32) div 64 * minor) div major"
    using assms by (simp_all add: cdiv_nonneg)
  moreover have "cdiv iy major = iy div major" "cdiv (ix + iy div major) major = (ix + iy div major) div major"
    if "(ix + 32) div 64 < (iy + 32) div 64"
    using turning_step [OF assms(2,3) that] assms by (auto simp: cdiv_nonneg turning_def)
  ultimately show ?thesis
    by (subst ellipse_loop.simps) (simp add: Let_def ellipse_next_def drop_bit_eq_div)
qed

lemma ellipse_loop_returns:
  assumes "1 \<le> minor" "1 \<le> major" "turning major ix iy"
    and calls: "\<And>old new. drawable major minor new \<Longrightarrow> good (calls old new)"
    and good: "good []" "\<And>a b. good a \<Longrightarrow> good b \<Longrightarrow> good (a @ b)"
  shows "\<exists>rest. ellipse_loop major minor calls ix iy old out = Some (out @ calls old (ellipse_next major minor ix iy) @ rest) \<and> good rest"
  using assms(3)
proof (induction "nat (64 * major + 32 - ix)" arbitrary: ix iy old out rule: less_induct)
  case less
  let ?s = "ellipse_next major minor ix iy"
  show ?case
  proof (cases "(ix + 32) div 64 < (iy + 32) div 64")
    case True
    note step = turning_step [OF assms(2) less.prems True]
    have "nat (64 * major + 32 - (ix + iy div major)) < nat (64 * major + 32 - ix)"
      using step(2) less.prems by (auto simp: turning_def)
    from less.hyps [OF this step(1), of ?s "out @ calls old ?s"] obtain rest where
      "ellipse_loop major minor calls (ix + iy div major) (iy - (ix + iy div major) div major) ?s (out @ calls old ?s)
        = Some ((out @ calls old ?s) @ calls ?s (ellipse_next major minor (ix + iy div major) (iy - (ix + iy div major) div major)) @ rest)"
      "good rest" by blast
    moreover have "good (calls ?s (ellipse_next major minor (ix + iy div major) (iy - (ix + iy div major) div major)))"
      by (intro calls turning_drawable assms step)
    ultimately show ?thesis using True good(2) by (subst ellipse_round [OF assms(1,2) less.prems]) (auto simp: append_assoc)
  next
    case False
    then show ?thesis using good(1) by (subst ellipse_round [OF assms(1,2) less.prems]) (auto intro: exI [of _ "[]"])
  qed
qed

lemma wide_calls_fit: "drawable rx ry new \<Longrightarrow> fits x y rx ry (wide_calls x y old new)"
  by (auto simp: drawable_def wide_calls_def split: prod.splits intro!: fits_append fits_mirrored)

lemma high_calls_fit: "drawable ry rx new \<Longrightarrow> fits x y rx ry (high_calls x y old new)"
  by (auto simp: drawable_def high_calls_def split: prod.splits intro!: fits_append fits_mirrored)

definition touches :: "int \<Rightarrow> int \<Rightarrow> int \<Rightarrow> int \<Rightarrow> point set \<Rightarrow> bool" where
  "touches x y rx ry P \<longleftrightarrow> {(x - rx, y), (x + rx, y), (x, y - ry), (x, y + ry)} \<subseteq> P"

lemma first_next: "1 \<le> m \<Longrightarrow> ellipse_next m k 0 (m * 64) = (0, m, 0, k)"
  by (simp add: ellipse_next_def)

lemma EllipseGenerator_fits:
  assumes "1 \<le> rx" "1 \<le> ry"
  shows "\<exists>spans. EllipseGenerator x y rx ry = Some spans \<and> fits x y rx ry spans \<and> touches x y rx ry (spans_pts spans)"
proof (cases "rx > ry")
  case True
  let ?old = "(0xFFFF, 0xFFFF, 0xFFFF, 0xFFFF) :: ellipse_state"
  have "turning rx 0 (rx * 64)" using assms by (simp add: turning_def)
  then have "\<exists>rest. ellipse_loop rx ry (wide_calls x y) 0 (rx * 64) ?old [] =
      Some ([] @ wide_calls x y ?old (ellipse_next rx ry 0 (rx * 64)) @ rest) \<and> fits x y rx ry rest"
    using assms by (intro ellipse_loop_returns) (auto intro: wide_calls_fit fits_append)
  then obtain rest where "EllipseGenerator x y rx ry = Some (wide_calls x y ?old (0, rx, 0, ry) @ rest)" "fits x y rx ry rest"
    using True assms by (auto simp: EllipseGenerator_def first_next)
  moreover have "drawable rx ry (0, rx, 0, ry)" using assms by (simp add: drawable_def)
  moreover have "touches x y rx ry (spans_pts (wide_calls x y ?old (0, rx, 0, ry)))"
    using assms by (auto simp: touches_def wide_calls_def mirrored_def)
  ultimately show ?thesis using wide_calls_fit fits_append by (fastforce simp: touches_def)
next
  case False
  let ?old = "(0xFFFF, 0xFFFF, 0xFFFF, 0xFFFF) :: ellipse_state"
  have "turning ry 0 (ry * 64)" using assms by (simp add: turning_def)
  then have "\<exists>rest. ellipse_loop ry rx (high_calls x y) 0 (ry * 64) ?old [] =
      Some ([] @ high_calls x y ?old (ellipse_next ry rx 0 (ry * 64)) @ rest) \<and> fits x y rx ry rest"
    using assms by (intro ellipse_loop_returns) (auto intro: high_calls_fit fits_append)
  then obtain rest where "EllipseGenerator x y rx ry = Some (high_calls x y ?old (0, ry, 0, rx) @ rest)" "fits x y rx ry rest"
    using False assms by (auto simp: EllipseGenerator_def first_next)
  moreover have "drawable ry rx (0, ry, 0, rx)" using assms by (simp add: drawable_def)
  moreover have "touches x y rx ry (spans_pts (high_calls x y ?old (0, ry, 0, rx)))"
    using assms by (auto simp: touches_def high_calls_def mirrored_def)
  ultimately show ?thesis using high_calls_fit fits_append by (fastforce simp: touches_def)
qed

subsection \<open>Properties\<close>

text \<open>What both operations leave for a radius below 1: the dot, without type and bounding rectangle.\<close>

definition unbounded_dot :: "int \<Rightarrow> int \<Rightarrow> cliprgn \<Rightarrow> bool" where
  "unbounded_dot x y region \<longleftrightarrow>
     region = \<lparr>rgn_type = NULLREGION, rcBound = zero_rect, rects = [mk_rect x y (x + 1) (y + 1)]\<rparr>"

lemma NEWCLIPRECT_dot:
  "unbounded_dot x y (NEWCLIPRECT (EmptyClipRgn st (Heap n)) (Heap n) (mk_rect x y (x + 1) (y + 1)) (Heap n))"
  by (simp add: unbounded_dot_def NEWCLIPRECT_def EmptyClipRgn_def SetRectEmpty_def)

lemma unbounded_dot_not_ok: "unbounded_dot x y region \<Longrightarrow> \<not> rgn_ok region"
  by (auto simp: unbounded_dot_def rgn_ok_def is_extents_def)

text \<open>C5.  \<open>InitCircleRegion\<close> makes a well formed region of exactly the points of the disc, whatever the region held
  before, and changes no other region; with a radius below 1 it leaves the dot at the centre with the bounding rectangle and the
  type of an empty region, which is not well formed.\<close>

theorem InitCircleRegion_correct:
  "(let (ok, st') = InitCircleRegion st (Heap n) x y r
    in ok \<and> (if 1 \<le> r then writes st st' n (disc x y r)
             else unbounded_dot x y (st' (Heap n)) \<and> \<not> rgn_ok (st' (Heap n))))"
proof (cases "1 \<le> r")
  case True
  then show ?thesis
    using emptied_spans_write [of st n "CircleGenerator x y r"] by (simp add: InitCircleRegion_def CircleGenerator_disc)
next
  case False
  then show ?thesis
    using NEWCLIPRECT_dot unbounded_dot_not_ok [OF NEWCLIPRECT_dot] by (simp add: InitCircleRegion_def)
qed

text \<open>\<open>InitEllipseRegion\<close> returns for all half axes.  When they are positive the region is well formed,
  symmetric about both axes of the ellipse, lies in the box of the half axes and touches all four of its sides, and no other region
  changes.\<close>

theorem InitEllipseRegion_correct:
  "\<exists>st'. InitEllipseRegion st (Heap n) x y rx ry = Some (True, st') \<and>
    (if 1 \<le> rx \<and> 1 \<le> ry
     then writes st st' n (rgn_pts (st' (Heap n))) \<and> rgn_pts (st' (Heap n)) \<subseteq> box x y rx ry
       \<and> symmetric_about x y (rgn_pts (st' (Heap n))) \<and> touches x y rx ry (rgn_pts (st' (Heap n)))
     else unbounded_dot x y (st' (Heap n)) \<and> \<not> rgn_ok (st' (Heap n)))"
proof (cases "1 \<le> rx \<and> 1 \<le> ry")
  case True
  then obtain spans where spans: "EllipseGenerator x y rx ry = Some spans" "fits x y rx ry spans"
    "touches x y rx ry (spans_pts spans)"
    using EllipseGenerator_fits by blast
  then show ?thesis
    using True emptied_spans_write [of st n spans] by (simp add: InitEllipseRegion_def fits_def writes_def)
next
  case False
  then show ?thesis
    using NEWCLIPRECT_dot unbounded_dot_not_ok [OF NEWCLIPRECT_dot] by (auto simp: InitEllipseRegion_def)
qed

end
