(* ===== verification/Desktop.thy ===== *)
theory Desktop
  imports Region "HOL-Library.Word" "HOL-Library.Monad_Syntax"
begin

section \<open>The desktop: Z order and clip regions of windows (src/kernel/desktop-comm.c, desktop-ths.c)\<close>

text \<open>
  The main windows, and the controls that act as main windows, are in one of two Z orders, the
  topmost windows above the others.  Every window and the desktop have a global clip region, the part of the screen they may draw on, which
  each operation on the Z order updates.  A window is its address, \<open>0\<close> is NULL.  A list linked through
  pointers is the list of its windows: the nodes of a Z order from \<open>pTopMost\<close>, the chain of
  \<open>pParent\<close> above a window, the windows hosted by a window.  \<open>None\<close> as the result of an operation is an access through NULL.
  The region of window \<open>w\<close> is \<open>Heap w\<close>, that of the desktop \<open>Heap 0\<close>.  The window a message goes to is \<open>0\<close> for the desktop.
  Messages sent to windows and the calls that paint are recorded in the order of the code; what a window
  procedure does with a message is not part of the operation.  Locks are left out.
\<close>

unbundle bit_operations_syntax

subsection \<open>State\<close>

type_synonym style = "32 word"

definition WS_VISIBLE :: style where "WS_VISIBLE = 0x08000000"
definition WS_DISABLED :: style where "WS_DISABLED = 0x04000000"
definition WS_EX_TOPMOST :: style where "WS_EX_TOPMOST = 0x00000008"
definition WS_EX_TOOLWINDOW :: style where "WS_EX_TOOLWINDOW = 0x00000080"
definition WS_EX_CTRLASMAINWIN :: style where "WS_EX_CTRLASMAINWIN = 0x40000000"

datatype wintype = TYPE_MAINWIN | TYPE_CONTROL | TYPE_ROOTWIN

text \<open>\<open>wrc\<close> is \<open>left\<close> to \<open>bottom\<close> of a window and \<open>crc\<close> its client area \<open>cl\<close> to \<open>cb\<close>, both in its parent's client area.\<close>

record mainwin =
  WinType :: wintype
  wrc :: rect
  crc :: rect
  dwStyle :: style
  dwExStyle :: style
  pParents :: "nat list"
  pMainWin :: nat
  hPrimitive :: nat
  pHosting :: nat
  hosted :: "nat list"
  gc_age :: "32 word"
  inv_frozen :: int

record zorderinfo =
  nNumber :: int
  z_nodes :: "nat list"

record trackmenu =
  tm_id :: nat
  tm_rc :: rect
  tm_hwnd :: nat

datatype menu_call = INITMENU | SHOWMENU | HIDEMENU | ENDTRACKMENU | CLOSEMENU

datatype mouse_msg = MSG_MOUSEMOVE | MSG_LBUTTONDOWN | MSG_RBUTTONDOWN | MSG_LBUTTONUP | MSG_RBUTTONUP | MSG_LBUTTONDBLCLK | MSG_RBUTTONDBLCLK

datatype key_msg = MSG_KEYDOWN | MSG_KEYUP | MSG_CHAR | MSG_SYSKEYDOWN | MSG_SYSKEYUP | MSG_KEYLONGPRESS | MSG_KEYALWAYSPRESS

datatype dsk_event =
    NcPaint nat "rect option" | NcActivate nat bool | Active nat bool | KillFocus nat nat | SetFocus nat nat
  | ShowNormal nat | Invalidate nat "rect option" | WndInvalidate nat rect | PostPaint nat | EraseDesktop rect
  | ChildHidden nat int int | ImeTarget nat nat | ChangeSize nat rect | Blit nat rect | DropMouseMoves nat
  | MenuProc nat menu_call | DeactiveMenu nat nat
  | PostMouse nat mouse_msg int int int | PostCaptured nat mouse_msg int int int | MouseMoveIn nat bool nat | NcMouseOut nat int int
  | MouseActive nat | ArrowCursor | DefaultCursor | PingBell
  | PostKey nat key_msg int "32 word" | PostClose nat | ExitGUI

record dsk =
  dwins :: "nat \<Rightarrow> mainwin"
  sg_TopMostWinZOrder :: zorderinfo
  sg_MainWinZOrder :: zorderinfo
  gcr :: rgn_store
  scr_age :: "32 word"
  invr :: rgn_store
  g_rcScr :: rect
  mg_active :: nat
  mg_ime_wnd :: nat
  mg_capture :: nat
  mg_ptmi :: "trackmenu list"
  mgs_old_under_p :: nat
  mgs_button_down_main_window :: nat
  mgs_down_buttons :: "32 word"
  mg_altdown :: bool
  mg_modal :: bool
  sg_hCaretWnd :: nat
  events :: "dsk_event list"

definition emit :: "dsk_event list \<Rightarrow> dsk \<Rightarrow> dsk" where
  "emit es g = g\<lparr>events := events g @ es\<rparr>"

definition upd_win :: "nat \<Rightarrow> (mainwin \<Rightarrow> mainwin) \<Rightarrow> dsk \<Rightarrow> dsk" where
  "upd_win w f g = g\<lparr>dwins := (dwins g)(w := f (dwins g w))\<rparr>"

datatype zsel = TopZ | MainZ

definition nodes :: "dsk \<Rightarrow> zsel \<Rightarrow> nat list" where
  "nodes g z = (case z of TopZ \<Rightarrow> z_nodes (sg_TopMostWinZOrder g) | MainZ \<Rightarrow> z_nodes (sg_MainWinZOrder g))"

definition upd_zorder :: "zsel \<Rightarrow> (zorderinfo \<Rightarrow> zorderinfo) \<Rightarrow> dsk \<Rightarrow> dsk" where
  "upd_zorder z f g = (case z of TopZ \<Rightarrow> g\<lparr>sg_TopMostWinZOrder := f (sg_TopMostWinZOrder g)\<rparr>
     | MainZ \<Rightarrow> g\<lparr>sg_MainWinZOrder := f (sg_MainWinZOrder g)\<rparr>)"

definition has_style :: "dsk \<Rightarrow> nat \<Rightarrow> style \<Rightarrow> bool" where
  "has_style g w s \<longleftrightarrow> dwStyle (dwins g w) AND s \<noteq> 0"

definition has_exstyle :: "dsk \<Rightarrow> nat \<Rightarrow> style \<Rightarrow> bool" where
  "has_exstyle g w s \<longleftrightarrow> dwExStyle (dwins g w) AND s \<noteq> 0"

abbreviation visible :: "dsk \<Rightarrow> nat \<Rightarrow> bool" where
  "visible g w \<equiv> has_style g w WS_VISIBLE"

definition GET_WIN_ZORDER :: "dsk \<Rightarrow> nat \<Rightarrow> zsel" where
  "GET_WIN_ZORDER g pWin = (if has_exstyle g pWin WS_EX_TOPMOST then TopZ else MainZ)"

subsection \<open>Coordinates\<close>

definition dskScreenToClient :: "dsk \<Rightarrow> nat \<Rightarrow> rect \<Rightarrow> rect" where
  "dskScreenToClient g pWin rcScreen =
     fold (\<lambda>p rc. OffsetRect rc (- rleft (crc (dwins g p))) (- rtop (crc (dwins g p)))) (pParents (dwins g pWin))
       (OffsetRect rcScreen (- rleft (crc (dwins g pWin))) (- rtop (crc (dwins g pWin))))"

definition dskScreenToWindow :: "dsk \<Rightarrow> nat \<Rightarrow> rect \<Rightarrow> rect" where
  "dskScreenToWindow g pWin rcScreen =
     fold (\<lambda>p rc. OffsetRect rc (- rleft (crc (dwins g p))) (- rtop (crc (dwins g p)))) (pParents (dwins g pWin))
       (OffsetRect rcScreen (- rleft (wrc (dwins g pWin))) (- rtop (wrc (dwins g pWin))))"

definition dskClientToScreen :: "dsk \<Rightarrow> nat \<Rightarrow> rect \<Rightarrow> rect" where
  "dskClientToScreen g pWin rcClient =
     fold (\<lambda>p rc. OffsetRect rc (rleft (crc (dwins g p))) (rtop (crc (dwins g p)))) (pParents (dwins g pWin))
       (OffsetRect rcClient (rleft (crc (dwins g pWin))) (rtop (crc (dwins g pWin))))"

definition dskGetWindowRectInScreen :: "dsk \<Rightarrow> nat \<Rightarrow> rect" where
  "dskGetWindowRectInScreen g pWin =
     fold (\<lambda>p rc. OffsetRect rc (rleft (crc (dwins g p))) (rtop (crc (dwins g p)))) (pParents (dwins g pWin))
       (wrc (dwins g pWin))"

definition dskGetClientRectInScreen :: "dsk \<Rightarrow> nat \<Rightarrow> rect" where
  "dskGetClientRectInScreen g pWin =
     fold (\<lambda>p rc. OffsetRect rc (rleft (crc (dwins g p))) (rtop (crc (dwins g p)))) (pParents (dwins g pWin))
       (crc (dwins g pWin))"

subsection \<open>Clip regions\<close>

definition clip_region :: "nat \<Rightarrow> rect \<Rightarrow> dsk \<Rightarrow> dsk" where
  "clip_region r rc g = g\<lparr>gcr := snd (SubtractClipRect (gcr g) (Heap r) rc)\<rparr>"

definition reset_window :: "nat \<Rightarrow> rect \<Rightarrow> dsk \<Rightarrow> dsk" where
  "reset_window pWin rcWin g =
     (let rcTemp = snd (IntersectRect rcWin (g_rcScr g))
      in g\<lparr>gcr := snd (SetClipRgn True (gcr g) (Heap pWin) rcTemp)\<rparr>)"

definition end_clip_window :: "nat \<Rightarrow> dsk \<Rightarrow> dsk" where
  "end_clip_window pWin = upd_win pWin (\<lambda>w. w\<lparr>gc_age := gc_age w + 1\<rparr>)"

text \<open>The body of the loops that clip one region by the visible windows of a list.\<close>

definition clip_by :: "nat \<Rightarrow> nat list \<Rightarrow> dsk \<Rightarrow> dsk" where
  "clip_by r ns g = fold (\<lambda>t g. if visible g t then clip_region r (dskGetWindowRectInScreen g t) g else g) ns g"

definition clip_by_windows :: "zsel \<Rightarrow> nat \<Rightarrow> dsk \<Rightarrow> dsk" where
  "clip_by_windows zorder pWin g = clip_by pWin (nodes g zorder) g"

definition clip_desktop :: "rect \<Rightarrow> dsk \<Rightarrow> dsk" where
  "clip_desktop rcWin g = (clip_region 0 rcWin g)\<lparr>scr_age := scr_age g + 1\<rparr>"

text \<open>The list behind a window, which the code walks to without a test for the end.\<close>

definition nodes_under :: "dsk \<Rightarrow> zsel \<Rightarrow> nat \<Rightarrow> nat list option" where
  "nodes_under g zorder pWin =
     (case dropWhile (\<lambda>h. h \<noteq> pWin) (nodes g zorder) of [] \<Rightarrow> None | _ # rest \<Rightarrow> Some rest)"

definition clip_windows_under_this :: "zsel \<Rightarrow> nat \<Rightarrow> rect \<Rightarrow> dsk \<Rightarrow> dsk option" where
  "clip_windows_under_this zorder pWin rcWin g =
     do {
       pNodes \<leftarrow> (if pWin \<noteq> 0 then nodes_under g zorder pWin else Some (nodes g zorder));
       Some (fold (\<lambda>t g. if visible g t then end_clip_window t (clip_region t rcWin g) else g) pNodes g)
     }"

definition clip_windows :: "zsel \<Rightarrow> rect \<Rightarrow> dsk \<Rightarrow> dsk option" where
  "clip_windows zorder rcWin = clip_windows_under_this zorder 0 rcWin"

definition clip_by_all_above_this :: "zsel \<Rightarrow> nat \<Rightarrow> dsk \<Rightarrow> dsk" where
  "clip_by_all_above_this zorder pWin g = clip_by pWin (takeWhile (\<lambda>h. h \<noteq> pWin) (nodes g zorder)) g"

definition dskUpdateGCRInfoOnShowNewMainWin :: "nat \<Rightarrow> dsk \<Rightarrow> dsk option" where
  "dskUpdateGCRInfoOnShowNewMainWin pWin g =
     do {
       let rcWin = dskGetWindowRectInScreen g pWin;
       g \<leftarrow> (if has_exstyle g pWin WS_EX_TOPMOST
             then do { g \<leftarrow> clip_windows_under_this TopZ pWin rcWin g; clip_windows MainZ rcWin g }
             else clip_windows_under_this MainZ pWin rcWin (end_clip_window pWin (clip_by_windows TopZ pWin g)));
       Some (clip_desktop rcWin g)
     }"

definition dskUpdateGCRInfoOnShowMainWin :: "nat \<Rightarrow> dsk \<Rightarrow> dsk option" where
  "dskUpdateGCRInfoOnShowMainWin pWin g =
     do {
       let rcWin = dskGetWindowRectInScreen g pWin;
       let g = reset_window pWin rcWin g;
       let g = (if has_exstyle g pWin WS_EX_TOPMOST then clip_by_all_above_this TopZ pWin g
                else clip_by_all_above_this MainZ pWin (clip_by_windows TopZ pWin g));
       let g = end_clip_window pWin g;
       g \<leftarrow> (if has_exstyle g pWin WS_EX_TOPMOST
             then do { g \<leftarrow> clip_windows_under_this TopZ pWin rcWin g; clip_windows MainZ rcWin g }
             else clip_windows_under_this MainZ pWin rcWin g);
       Some (clip_desktop rcWin g)
     }"

subsection \<open>Activation\<close>

definition dskDoesCoverOther :: "dsk \<Rightarrow> nat \<Rightarrow> nat \<Rightarrow> bool" where
  "dskDoesCoverOther g pWin1 pWin2 =
     (if pWin1 = 0 then False else if pWin2 = 0 then True
      else case dropWhile (\<lambda>h. h \<noteq> pWin1 \<and> h \<noteq> pWin2) (nodes g MainZ) of [] \<Rightarrow> False | h # _ \<Rightarrow> h = pWin1)"

definition dskIsTopMost :: "dsk \<Rightarrow> nat \<Rightarrow> bool option" where
  "dskIsTopMost g pWin = (case nodes g (GET_WIN_ZORDER g pWin) of [] \<Rightarrow> None | h # _ \<Rightarrow> Some (pWin = h))"

definition DesktopSetActiveWindow :: "nat \<Rightarrow> dsk \<Rightarrow> dsk" where
  "DesktopSetActiveWindow pWin g =
     (if mg_ime_wnd g \<noteq> 0 then emit [ImeTarget (mg_ime_wnd g) pWin] g else g)\<lparr>mg_active := pWin\<rparr>"

definition dskChangActiveWindow :: "nat \<Rightarrow> dsk \<Rightarrow> nat \<times> dsk" where
  "dskChangActiveWindow pWin g =
     (if mg_ime_wnd g \<noteq> 0 \<and> mg_ime_wnd g = pWin then (mg_active g, g)
      else if pWin = mg_active g \<or> pWin \<noteq> 0 \<and> has_exstyle g pWin WS_EX_TOOLWINDOW then (mg_active g, g)
      else let pOldActive = mg_active g;
               g = DesktopSetActiveWindow pWin g;
               g = (if pOldActive \<noteq> 0 \<and> visible g pOldActive
                    then emit [NcActivate pOldActive False, Active pOldActive False, KillFocus pOldActive pWin] g else g);
               g = (if pWin \<noteq> 0
                    then emit [NcActivate pWin True, Active pWin True, SetFocus pWin pOldActive] g else g)
           in (pOldActive, g))"

definition set_visible :: "nat \<Rightarrow> dsk \<Rightarrow> dsk" where
  "set_visible pWin = upd_win pWin (\<lambda>w. w\<lparr>dwStyle := dwStyle w OR WS_VISIBLE\<rparr>)"

definition dskShowMainWindow :: "nat \<Rightarrow> bool \<Rightarrow> dsk \<Rightarrow> (nat \<times> dsk) option" where
  "dskShowMainWindow pWin bActive g =
     (if visible g pWin then Some (0, g)
      else do {
        g \<leftarrow> dskUpdateGCRInfoOnShowMainWin pWin g;
        let g = emit [NcPaint pWin None, Invalidate pWin None] (set_visible pWin g);
        Some (if has_exstyle g pWin WS_EX_TOPMOST then dskChangActiveWindow pWin g
              else if bActive \<and> dskDoesCoverOther g pWin (mg_active g) then dskChangActiveWindow pWin g
              else (0, g))
      })"

subsection \<open>New windows and removed windows\<close>

definition dskAddNewHostedMainWindow :: "nat \<Rightarrow> nat \<Rightarrow> dsk \<Rightarrow> dsk" where
  "dskAddNewHostedMainWindow hosting pHosted = upd_win hosting (\<lambda>w. w\<lparr>hosted := hosted w @ [pHosted]\<rparr>)"

definition dskRemoveHostedMainWindow :: "nat \<Rightarrow> nat \<Rightarrow> dsk \<Rightarrow> dsk" where
  "dskRemoveHostedMainWindow hosting pHosted = upd_win hosting (\<lambda>w. w\<lparr>hosted := remove1 pHosted (hosted w)\<rparr>)"

definition init_gcrinfo :: "nat \<Rightarrow> dsk \<Rightarrow> dsk" where
  "init_gcrinfo pWin g =
     (let rcWin = dskGetWindowRectInScreen g pWin;
          g = upd_win pWin (\<lambda>w. w\<lparr>gc_age := 0\<rparr>) g;
          g = g\<lparr>gcr := InitClipRgn (gcr g) (Heap pWin)\<rparr>;
          rcTemp = snd (IntersectRect rcWin (g_rcScr g))
      in g\<lparr>gcr := snd (SetClipRgn True (gcr g) (Heap pWin) rcTemp)\<rparr>)"

definition init_invrgn :: "nat \<Rightarrow> dsk \<Rightarrow> dsk" where
  "init_invrgn pWin g =
     (let g = upd_win pWin (\<lambda>w. w\<lparr>inv_frozen := 0\<rparr>) g
      in g\<lparr>invr := EmptyClipRgn (InitClipRgn (invr g) (Heap pWin)) (Heap pWin)\<rparr>)"

definition add_new_window :: "nat \<Rightarrow> dsk \<Rightarrow> dsk" where
  "add_new_window pWin g =
     (let g = (if WinType (dwins g pWin) = TYPE_CONTROL \<and> has_exstyle g (pMainWin (dwins g pWin)) WS_EX_TOPMOST
               then upd_win pWin (\<lambda>w. w\<lparr>dwExStyle := dwExStyle w OR WS_EX_TOPMOST\<rparr>) g else g)
      in upd_zorder (GET_WIN_ZORDER g pWin)
           (\<lambda>z. z\<lparr>z_nodes := pWin # z_nodes z, nNumber := nNumber z + 1\<rparr>) g)"

definition remove_window :: "nat \<Rightarrow> dsk \<Rightarrow> dsk option" where
  "remove_window pWin g =
     (if nodes g (GET_WIN_ZORDER g pWin) = [] then None
      else Some (upd_zorder (GET_WIN_ZORDER g pWin)
             (\<lambda>z. z\<lparr>z_nodes := remove1 pWin (z_nodes z), nNumber := nNumber z - 1\<rparr>) g))"

definition dskAddNewMainWindow :: "nat \<Rightarrow> dsk \<Rightarrow> (nat \<times> dsk) option" where
  "dskAddNewMainWindow pWin g =
     (let g = (if pHosting (dwins g pWin) \<noteq> 0 then dskAddNewHostedMainWindow (pHosting (dwins g pWin)) pWin g else g);
          g = add_new_window pWin (init_invrgn pWin (init_gcrinfo pWin g))
      in if visible g pWin
         then do {
           g \<leftarrow> dskUpdateGCRInfoOnShowNewMainWin pWin g;
           Some (dskChangActiveWindow pWin (emit [NcPaint pWin None, ShowNormal pWin, Invalidate pWin None] g))
         }
         else Some (0, g))"

subsection \<open>Hiding\<close>

text \<open>The clip region of a window under a window that disappears is built anew.\<close>

definition repaint :: "nat \<Rightarrow> rect \<Rightarrow> dsk \<Rightarrow> dsk" where
  "repaint pTemp rcWin g =
     (let (meets, rcTemp) = IntersectRect rcWin (dskGetWindowRectInScreen g pTemp)
      in if meets then emit [NcPaint pTemp (Some (dskScreenToWindow g pTemp rcTemp)),
                             Invalidate pTemp (Some (dskScreenToClient g pTemp rcTemp))] g
         else g)"

definition recalc_window :: "zsel \<Rightarrow> nat \<Rightarrow> rect \<Rightarrow> dsk \<Rightarrow> dsk" where
  "recalc_window zorder pTemp rcWin g =
     (let g = reset_window pTemp (dskGetWindowRectInScreen g pTemp) g;
          g = (case zorder of
                 MainZ \<Rightarrow> clip_by_all_above_this MainZ pTemp (clip_by_windows TopZ pTemp g)
               | TopZ \<Rightarrow> clip_by_all_above_this TopZ pTemp g)
      in repaint pTemp rcWin (end_clip_window pTemp g))"

definition recalc_windows_under_this :: "zsel \<Rightarrow> nat \<Rightarrow> rect \<Rightarrow> dsk \<Rightarrow> dsk option" where
  "recalc_windows_under_this zorder pWin rcWin g =
     do {
       pAffected \<leftarrow> nodes_under g zorder pWin;
       Some (fold (\<lambda>t g. if visible g t then recalc_window zorder t rcWin g else g) pAffected g)
     }"

definition recalc_windows :: "zsel \<Rightarrow> rect \<Rightarrow> dsk \<Rightarrow> dsk" where
  "recalc_windows zorder rcWin g =
     fold (\<lambda>t g. if visible g t then recalc_window MainZ t rcWin g else g) (nodes g zorder) g"

definition recalc_desktop :: "trackmenu list \<Rightarrow> dsk \<Rightarrow> dsk" where
  "recalc_desktop ptmi g =
     (let g = g\<lparr>gcr := snd (SetClipRgn True (gcr g) (Heap 0) (g_rcScr g))\<rparr>;
          g = clip_by 0 (nodes g TopZ) g;
          g = clip_by 0 (nodes g MainZ) g;
          g = fold (\<lambda>m. clip_region 0 (tm_rc m)) ptmi g
      in g\<lparr>scr_age := scr_age g + 1\<rparr>)"

definition set_hidden :: "nat \<Rightarrow> dsk \<Rightarrow> dsk" where
  "set_hidden pWin = upd_win pWin (\<lambda>w. w\<lparr>dwStyle := dwStyle w AND NOT WS_VISIBLE\<rparr>)"

definition dskUpdateGCRInfoOnHideMainWin :: "nat \<Rightarrow> dsk \<Rightarrow> dsk option" where
  "dskUpdateGCRInfoOnHideMainWin pWin g =
     do {
       let g = (if visible g pWin then emit [NcActivate pWin False, Active pWin False, KillFocus pWin 0] g else g);
       let g = set_hidden pWin g;
       let rcWin = dskGetWindowRectInScreen g pWin;
       g \<leftarrow> (if has_exstyle g pWin WS_EX_TOPMOST
             then do { g \<leftarrow> recalc_windows_under_this TopZ pWin rcWin g; Some (recalc_windows MainZ rcWin g) }
             else recalc_windows_under_this MainZ pWin rcWin g);
       let g = end_clip_window pWin (recalc_desktop [] g);
       Some (emit [EraseDesktop (snd (IntersectRect rcWin (g_rcScr g)))] g)
     }"

definition activable :: "dsk \<Rightarrow> nat \<Rightarrow> bool" where
  "activable g w \<longleftrightarrow> WinType (dwins g w) \<noteq> TYPE_CONTROL \<and> visible g w \<and> \<not> has_style g w WS_DISABLED
     \<and> \<not> has_exstyle g w WS_EX_TOOLWINDOW"

definition dskGetFirstActivableWindow :: "dsk \<Rightarrow> nat" where
  "dskGetFirstActivableWindow g =
     (case find (activable g) (nodes g MainZ) of Some w \<Rightarrow> w
      | None \<Rightarrow> (case find (activable g) (nodes g TopZ) of Some w \<Rightarrow> w | None \<Rightarrow> 0))"

text \<open>\<open>pZOrderNode->pNext\<close> of a window leads into its own Z order; a window in none is not passed to it.\<close>

definition dskGetNextVisibleMainWindow :: "nat \<Rightarrow> dsk \<Rightarrow> nat option" where
  "dskGetNextVisibleMainWindow pWin g =
     do {
       pNodes \<leftarrow> (if pWin \<noteq> 0 then nodes_under g (GET_WIN_ZORDER g pWin) pWin else Some (nodes g MainZ));
       Some (case find (\<lambda>w. WinType (dwins g w) \<noteq> TYPE_CONTROL \<and> visible g w \<and> \<not> has_style g w WS_DISABLED) pNodes
             of Some w \<Rightarrow> w | None \<Rightarrow> 0)
     }"

definition dskHideMainWindow :: "nat \<Rightarrow> dsk \<Rightarrow> (nat \<times> dsk) option" where
  "dskHideMainWindow pWin g =
     (if \<not> visible g pWin then Some (0, g)
      else do {
        g \<leftarrow> dskUpdateGCRInfoOnHideMainWin pWin g;
        let g = (if mg_active g = pWin then snd (dskChangActiveWindow (dskGetFirstActivableWindow g) g) else g);
        Some (mg_active g, g)
      })"

definition dskRemoveMainWindow :: "nat \<Rightarrow> dsk \<Rightarrow> (nat \<times> dsk) option" where
  "dskRemoveMainWindow pWin g =
     do {
       let g = (if pHosting (dwins g pWin) \<noteq> 0 then dskRemoveHostedMainWindow (pHosting (dwins g pWin)) pWin g else g);
       g \<leftarrow> (if visible g pWin
             then do {
               g \<leftarrow> dskUpdateGCRInfoOnHideMainWin pWin g;
               let g = (if mg_active g = pWin then snd (dskChangActiveWindow (dskGetFirstActivableWindow g) g) else g);
               Some (if mg_active g = pWin then g\<lparr>mg_active := 0\<rparr> else g)
             }
             else Some g);
       g \<leftarrow> remove_window pWin g;
       Some (mg_active g, g)
     }"

subsection \<open>Moving to the top\<close>

text \<open>The loop over the windows above \<open>pNew\<close>; the flag is \<open>inved\<close>.\<close>

definition update_on_change_topmost :: "zsel \<Rightarrow> nat \<Rightarrow> rect \<Rightarrow> dsk \<Rightarrow> bool \<times> dsk" where
  "update_on_change_topmost zorder pNew rcNew g =
     fold (\<lambda>t (inved, g).
         if visible g t
         then let (meets, rcInter) = IntersectRect rcNew (dskGetWindowRectInScreen g t)
              in if meets
                 then (True, emit [WndInvalidate pNew (dskScreenToClient g pNew rcInter)]
                               (end_clip_window t (clip_region t rcNew g)))
                 else (inved, g)
         else (inved, g))
       (takeWhile (\<lambda>h. h \<noteq> pNew) (nodes g zorder)) (False, g)"

definition dskUpdateGCRInfoOnChangeTopMost :: "nat \<Rightarrow> dsk \<Rightarrow> dsk" where
  "dskUpdateGCRInfoOnChangeTopMost pNew g =
     (let rcNew = dskGetWindowRectInScreen g pNew;
          (inved, g) = update_on_change_topmost (GET_WIN_ZORDER g pNew) pNew rcNew g
      in if inved then emit [PostPaint pNew] g else g)"

definition move_to_top :: "nat \<Rightarrow> dsk \<Rightarrow> dsk option" where
  "move_to_top pWin g =
     (if nodes g (GET_WIN_ZORDER g pWin) = [] then None
      else Some (upd_zorder (GET_WIN_ZORDER g pWin)
        (\<lambda>z. if pWin \<in> set (z_nodes z) then z\<lparr>z_nodes := pWin # remove1 pWin (z_nodes z)\<rparr> else z) g))"

text \<open>Each window on the chain of parents gets the one below it, or NULL.\<close>

definition dskSetPrimitiveChildren :: "nat \<Rightarrow> bool \<Rightarrow> dsk \<Rightarrow> dsk" where
  "dskSetPrimitiveChildren pWin bSet g =
     (let parents = pParents (dwins g pWin)
      in fold (\<lambda>(p, c). upd_win p (\<lambda>w. w\<lparr>hPrimitive := (if bSet then c else 0)\<rparr>))
           (zip parents (pWin # parents)) g)"

definition RCTM_CLICK :: int where "RCTM_CLICK = 1"
definition RCTM_KEY :: int where "RCTM_KEY = 2"
definition RCTM_MESSAGE :: int where "RCTM_MESSAGE = 3"
definition RCTM_SHOWCTRL :: int where "RCTM_SHOWCTRL = 4"

definition hide_top_control :: "nat \<Rightarrow> int \<Rightarrow> int \<Rightarrow> dsk \<Rightarrow> dsk option" where
  "hide_top_control pOldTopMost reason lParam g =
     (if pOldTopMost \<noteq> 0 \<and> WinType (dwins g pOldTopMost) = TYPE_CONTROL \<and> visible g pOldTopMost
      then do {
        (_, g) \<leftarrow> dskHideMainWindow pOldTopMost g;
        let g = dskSetPrimitiveChildren pOldTopMost False g;
        Some (emit [ChildHidden (case pParents (dwins g pOldTopMost) of [] \<Rightarrow> 0 | p # _ \<Rightarrow> p) reason lParam] g)
      }
      else Some g)"

text \<open>A visible window that is not on top and a hidden one are moved in different ways.\<close>

definition move_hidden_to_top :: "nat \<Rightarrow> dsk \<Rightarrow> dsk option" where
  "move_hidden_to_top pWin g =
     do {
       g \<leftarrow> move_to_top pWin g;
       g \<leftarrow> dskUpdateGCRInfoOnShowNewMainWin pWin g;
       Some (emit [NcPaint pWin None, Invalidate pWin None] (set_visible pWin g))
     }"

definition move_visible_to_top :: "nat \<Rightarrow> dsk \<Rightarrow> dsk option" where
  "move_visible_to_top pWin g = move_to_top pWin (dskUpdateGCRInfoOnChangeTopMost pWin (emit [NcPaint pWin None] g))"

definition dskMoveToTopMost :: "nat \<Rightarrow> int \<Rightarrow> int \<Rightarrow> dsk \<Rightarrow> (nat \<times> dsk) option" where
  "dskMoveToTopMost pWin reason lParam g =
     (if pWin = 0 then Some (mg_active g, g)
      else do {
        pOldTopMost \<leftarrow> (case nodes g (GET_WIN_ZORDER g pWin) of [] \<Rightarrow> None | h # _ \<Rightarrow> Some h);
        g \<leftarrow> hide_top_control pOldTopMost reason lParam g;
        isTopMost \<leftarrow> dskIsTopMost g pWin;
        if isTopMost \<and> visible g pWin then Some (mg_active g, g)
        else do {
          let g = reset_window pWin (dskGetWindowRectInScreen g pWin) g;
          let g = (if \<not> has_exstyle g pWin WS_EX_TOPMOST then clip_by_windows TopZ pWin g else g);
          let g = end_clip_window pWin g;
          g \<leftarrow> (if \<not> visible g pWin then move_hidden_to_top pWin g else move_visible_to_top pWin g);
          Some (if reason \<noteq> RCTM_SHOWCTRL then dskChangActiveWindow pWin g else (mg_active g, g))
        }
      })"

subsection \<open>Popup menus\<close>

definition dskUpdateAllGCRInfoOnShowMenu :: "rect \<Rightarrow> dsk \<Rightarrow> dsk option" where
  "dskUpdateAllGCRInfoOnShowMenu prc g =
     do { g \<leftarrow> clip_windows TopZ prc g; g \<leftarrow> clip_windows MainZ prc g; Some (clip_desktop prc g) }"

text \<open>Every visible window is clipped anew, by the windows above it and by the open menus.\<close>

definition reclip_window :: "zsel \<Rightarrow> nat \<Rightarrow> dsk \<Rightarrow> dsk" where
  "reclip_window zorder pTemp g =
     (let g = reset_window pTemp (dskGetWindowRectInScreen g pTemp) g;
          g = (case zorder of
                 MainZ \<Rightarrow> clip_by_all_above_this MainZ pTemp (clip_by_windows TopZ pTemp g)
               | TopZ \<Rightarrow> clip_by_all_above_this TopZ pTemp g);
          g = end_clip_window pTemp g
      in fold (\<lambda>m. clip_region pTemp (tm_rc m)) (mg_ptmi g) g)"

definition dskUpdateAllGCRInfoOnHideMenu :: "dsk \<Rightarrow> dsk" where
  "dskUpdateAllGCRInfoOnHideMenu g =
     (let g = fold (\<lambda>t g. if visible g t then reclip_window TopZ t g else g) (nodes g TopZ) g;
          g = fold (\<lambda>t g. if visible g t then reclip_window MainZ t g else g) (nodes g MainZ) g
      in recalc_desktop (mg_ptmi g) g)"

text \<open>\<open>ptmi\<close> has the rectangle that \<open>MSG_INITMENU\<close> gives the menu.\<close>

definition dskTrackPopupMenu :: "trackmenu \<Rightarrow> dsk \<Rightarrow> dsk option" where
  "dskTrackPopupMenu ptmi g =
     do {
       let g = emit [MenuProc (tm_id ptmi) INITMENU] (g\<lparr>mg_ptmi := mg_ptmi g @ [ptmi]\<rparr>);
       g \<leftarrow> dskUpdateAllGCRInfoOnShowMenu (tm_rc ptmi) g;
       Some (emit [MenuProc (tm_id ptmi) SHOWMENU] g)
     }"

definition repaint_windows :: "zsel \<Rightarrow> rect \<Rightarrow> dsk \<Rightarrow> dsk" where
  "repaint_windows zorder rc g = fold (\<lambda>t g. if visible g t then repaint t rc g else g) (nodes g zorder) g"

text \<open>The last menu of the list is unlinked, which must not be the first one.\<close>

definition unlink_menu :: "trackmenu \<Rightarrow> trackmenu list \<Rightarrow> trackmenu list option" where
  "unlink_menu ptmi tms =
     (case tms of [] \<Rightarrow> None
      | m # rest \<Rightarrow> if tm_id m = tm_id ptmi then Some [] else if rest = [] then None else Some (butlast tms))"

definition dskEndTrackMenu :: "trackmenu \<Rightarrow> dsk \<Rightarrow> dsk option" where
  "dskEndTrackMenu ptmi g =
     do {
       tms \<leftarrow> unlink_menu ptmi (mg_ptmi g);
       let g = dskUpdateAllGCRInfoOnHideMenu (g\<lparr>mg_ptmi := tms\<rparr>);
       let g = emit [MenuProc (tm_id ptmi) HIDEMENU] g;
       let g = repaint_windows MainZ (tm_rc ptmi) (repaint_windows TopZ (tm_rc ptmi) g);
       let (meets, rcInvalid) = IntersectRect (tm_rc ptmi) (g_rcScr g);
       let g = (if meets then emit [EraseDesktop rcInvalid] g else g);
       Some (emit [MenuProc (tm_id ptmi) ENDTRACKMENU] g)
     }"

definition dskForceCloseMenu :: "dsk \<Rightarrow> bool \<times> dsk" where
  "dskForceCloseMenu g =
     (case mg_ptmi g of [] \<Rightarrow> (False, g)
      | m # _ \<Rightarrow> (True, dskUpdateAllGCRInfoOnHideMenu
          ((emit [DeactiveMenu (tm_hwnd m) (tm_id m), MenuProc (tm_id m) CLOSEMENU] g)\<lparr>mg_ptmi := []\<rparr>)))"

end
