(* ===== verification/Desktop_Msgs.thy ===== *)
theory Desktop_Msgs
  imports Desktop
begin

section \<open>The desktop: moving windows and the messages to the desktop (src/kernel/desktop-comm.c)\<close>

text \<open>
  Moving a window, the window under a point, the next window of the Z order, and
  \<open>WindowMessageHandler\<close>, through which the functions of \<open>window.c\<close> reach the desktop.  \<open>proc\<close> stands for what
  the procedure of a window answers to \<open>MSG_CHANGESIZE\<close>: the new rectangles of the window and of its client area.
  Dragging a window is \<open>Desktop_Proc\<close>, and scrolling one \<open>Desktop_Scroll\<close>.
\<close>

type_synonym winproc = "mainwin \<Rightarrow> rect \<Rightarrow> rect \<times> rect"

subsection \<open>Moving a window\<close>

definition relative_to :: "rect \<Rightarrow> rect \<Rightarrow> rect" where
  "relative_to rc base = OffsetRect rc (- rleft base) (- rtop base)"

definition dskUpdateOldMainWindow :: "nat \<Rightarrow> rect \<Rightarrow> rect \<Rightarrow> rect \<Rightarrow> dsk \<Rightarrow> bool \<times> dsk" where
  "dskUpdateOldMainWindow pWin prcInv prcWin prcClient g =
     (let (meets, rcInter) = IntersectRect prcInv prcWin
      in if meets
         then let g = emit [NcPaint pWin (Some (relative_to rcInter prcWin))] g;
                  (meets, rcInter) = IntersectRect prcInv prcClient
              in if meets then (True, emit [Invalidate pWin (Some (relative_to rcInter prcClient))] g) else (False, g)
         else (False, g))"

definition dskUpdateWindow :: "nat \<Rightarrow> rect \<Rightarrow> rect \<Rightarrow> rect \<Rightarrow> dsk \<Rightarrow> bool \<times> dsk" where
  "dskUpdateWindow pWin prcInv prcWin prcClient g =
     (let (meets, rcInter) = IntersectRect prcInv prcWin
      in if meets
         then let g = emit [NcPaint pWin (Some (dskScreenToWindow g pWin rcInter))] g;
                  (meets, rcInter) = IntersectRect prcInv prcClient
              in if meets then (True, emit [Invalidate pWin (Some (dskScreenToClient g pWin rcInter))] g) else (False, g)
         else (False, g))"

definition change_size :: "winproc \<Rightarrow> nat \<Rightarrow> rect \<Rightarrow> dsk \<Rightarrow> dsk" where
  "change_size proc pWin rc g =
     upd_win pWin (\<lambda>w. w\<lparr>wrc := fst (proc w rc), crc := snd (proc w rc)\<rparr>) (emit [ChangeSize pWin rc] g)"

text \<open>The windows above a window: the loops end at its own node, which must be in the list.\<close>

definition windows_above :: "dsk \<Rightarrow> nat \<Rightarrow> nat list option" where
  "windows_above g pWin =
     (let z = GET_WIN_ZORDER g pWin; above = takeWhile (\<lambda>h. h \<noteq> pWin) (nodes g z)
      in if pWin \<notin> set (nodes g z) then None
         else Some (case z of TopZ \<Rightarrow> above | MainZ \<Rightarrow> nodes g TopZ @ above))"

definition uncover :: "nat \<Rightarrow> rect \<Rightarrow> dsk \<Rightarrow> dsk" where
  "uncover pWin rc g =
     (let others = (if has_exstyle g pWin WS_EX_TOPMOST then nodes g TopZ else []) @ nodes g MainZ;
          g = fold (\<lambda>t g. if t \<noteq> pWin \<and> visible g t
                          then snd (dskUpdateWindow t rc (dskGetWindowRectInScreen g t) (dskGetClientRectInScreen g t) g)
                          else g) others g
      in emit [EraseDesktop (snd (IntersectRect rc (g_rcScr g)))] g)"

definition dskMoveMainWindow :: "winproc \<Rightarrow> nat \<Rightarrow> rect \<Rightarrow> dsk \<Rightarrow> dsk option" where
  "dskMoveMainWindow proc pWin prcExpect g =
     do {
       let src = wrc (dwins g pWin);
       let oldClientRect = crc (dwins g pWin);
       let oldWinRect = src;
       let rc = SubtractRect src prcExpect;
       let rcInv = SubtractRect src (g_rcScr g);
       let g = (if WinType (dwins g pWin) = TYPE_MAINWIN then change_size proc pWin prcExpect g else g);
       let g = dskUpdateAllGCRInfoOnHideMenu g;
       let g = emit [Blit pWin oldWinRect] g;
       let g = fold (\<lambda>r g. snd (dskUpdateOldMainWindow pWin r oldWinRect oldClientRect g)) rcInv g;
       above \<leftarrow> windows_above g pWin;
       let g = fold (\<lambda>t g. if t \<noteq> pWin \<and> visible g t
                           then snd (dskUpdateOldMainWindow pWin (dskGetWindowRectInScreen g t) oldWinRect oldClientRect g)
                           else g) above g;
       let g = fold (uncover pWin) rc g;
       Some (emit [DropMouseMoves pWin] g)
     }"

definition hParent :: "dsk \<Rightarrow> nat \<Rightarrow> nat" where
  "hParent g w = (case pParents (dwins g w) of [] \<Rightarrow> 0 | p # _ \<Rightarrow> p)"

text \<open>The rectangle may be the control's own, so it is read again after \<open>MSG_CHANGESIZE\<close>.\<close>

definition dskMoveGlobalControl :: "winproc \<Rightarrow> nat \<Rightarrow> (dsk \<Rightarrow> rect) \<Rightarrow> dsk \<Rightarrow> dsk option" where
  "dskMoveGlobalControl proc pCtrl prcExpect g =
     do {
       let g = change_size proc pCtrl (prcExpect g) g;
       let newWinRect = dskClientToScreen g (hParent g pCtrl) (prcExpect g);
       g \<leftarrow> dskMoveMainWindow proc pCtrl newWinRect g;
       Some (if visible g pCtrl then emit [NcPaint pCtrl None, Invalidate pCtrl None] g else g)
     }"

subsection \<open>Finding windows\<close>

definition GetMainWindowPtrUnderPoint :: "dsk \<Rightarrow> int \<Rightarrow> int \<Rightarrow> nat" where
  "GetMainWindowPtrUnderPoint g x y =
     (let under = (\<lambda>w. PtInRect (dskGetWindowRectInScreen g w) x y \<and> visible g w)
      in case find under (nodes g TopZ) of Some w \<Rightarrow> w
         | None \<Rightarrow> (case find under (nodes g MainZ) of Some w \<Rightarrow> w | None \<Rightarrow> 0))"

text \<open>\<open>CheckAndGetMainWindowPtr\<close> of the handle of a window in a Z order.\<close>

definition CheckAndGetMainWindowPtr :: "dsk \<Rightarrow> nat \<Rightarrow> nat" where
  "CheckAndGetMainWindowPtr g hWnd = (if hWnd \<noteq> 0 \<and> WinType (dwins g hWnd) = TYPE_MAINWIN then hWnd else 0)"

text \<open>One round of \<open>MSG_GETNEXTMAINWIN\<close>: the handle found, \<open>None\<close> for an access through NULL.\<close>

definition next_mainwin :: "dsk \<Rightarrow> nat \<Rightarrow> nat \<Rightarrow> nat option" where
  "next_mainwin g pWin hWnd =
     (if pWin \<noteq> 0
      then (case nodes_under g (GET_WIN_ZORDER g pWin) pWin of
              None \<Rightarrow> None
            | Some (h # _) \<Rightarrow> Some h
            | Some [] \<Rightarrow> if has_exstyle g pWin WS_EX_TOPMOST
                         then (case nodes g MainZ of [] \<Rightarrow> None | h # _ \<Rightarrow> Some h) else Some hWnd)
      else (case nodes g TopZ of
              h # _ \<Rightarrow> if h \<noteq> 0 then Some h else (case nodes g MainZ of [] \<Rightarrow> None | h # _ \<Rightarrow> Some h)
            | [] \<Rightarrow> (case nodes g MainZ of [] \<Rightarrow> None | h # _ \<Rightarrow> Some h)))"

partial_function (option) get_next_loop :: "dsk \<Rightarrow> nat \<Rightarrow> nat \<Rightarrow> nat option option" where
  "get_next_loop g pWin hWnd =
     (case next_mainwin g pWin hWnd of
        None \<Rightarrow> Some None
      | Some hWnd \<Rightarrow>
          let pWin = CheckAndGetMainWindowPtr g hWnd
          in if pWin \<noteq> 0 \<and> has_exstyle g pWin WS_EX_CTRLASMAINWIN then get_next_loop g pWin hWnd
             else Some (Some hWnd))"

subsection \<open>The handler\<close>

definition close_menu :: "dsk \<Rightarrow> dsk" where
  "close_menu g = (if mg_ptmi g \<noteq> [] then snd (dskForceCloseMenu g) else g)"

definition DOWN_BUTTON_NONE :: "32 word" where "DOWN_BUTTON_NONE = 0x0000"
definition DOWN_BUTTON_LEFT :: "32 word" where "DOWN_BUTTON_LEFT = 0x0001"
definition DOWN_BUTTON_RIGHT :: "32 word" where "DOWN_BUTTON_RIGHT = 0x0002"
definition DOWN_BUTTON_ANY :: "32 word" where "DOWN_BUTTON_ANY = 0x000F"

definition reset_desktop_capture_info :: "nat \<Rightarrow> dsk \<Rightarrow> dsk" where
  "reset_desktop_capture_info pWin g =
     (let g = g\<lparr>mgs_old_under_p := 0\<rparr>;
          g = (if mg_ime_wnd g = 0 \<or> pWin \<noteq> mg_ime_wnd g
               then g\<lparr>mgs_button_down_main_window := 0, mgs_down_buttons := DOWN_BUTTON_NONE\<rparr> else g)
      in if pWin = mg_capture g then g\<lparr>mg_capture := 0\<rparr> else g)"

text \<open>\<open>GetMainWindowPtrOfControl\<close> of a window that is there.\<close>

definition GetMainWindowPtrOfControl :: "dsk \<Rightarrow> nat \<Rightarrow> nat" where
  "GetMainWindowPtrOfControl g hwnd = (if hwnd = 0 then 0 else pMainWin (dwins g hwnd))"

definition DesktopSetCapture :: "nat \<Rightarrow> dsk \<Rightarrow> nat \<times> dsk" where
  "DesktopSetCapture hwnd g =
     (mg_capture g, g\<lparr>mgs_old_under_p := 0, mgs_button_down_main_window := GetMainWindowPtrOfControl g hwnd,
        mgs_down_buttons := DOWN_BUTTON_NONE, mg_capture := hwnd\<rparr>)"

text \<open>\<open>MSG_ENABLEMAINWIN\<close>, which returns whether the window was enabled.\<close>

definition enable_mainwin :: "nat \<Rightarrow> bool \<Rightarrow> dsk \<Rightarrow> bool \<times> dsk" where
  "enable_mainwin pWin enable g =
     (let was_enabled = (\<not> has_style g pWin WS_DISABLED)
      in if was_enabled \<and> \<not> enable \<or> \<not> was_enabled \<and> enable
         then let g = upd_win pWin (\<lambda>w. w\<lparr>dwStyle := (if enable then dwStyle w AND NOT WS_DISABLED
                                                      else dwStyle w OR WS_DISABLED)\<rparr>) g
              in if has_style g pWin WS_DISABLED
                 then let g = (if mg_capture g \<noteq> 0 \<and> pMainWin (dwins g (mg_capture g)) = pWin
                               then g\<lparr>mg_capture := 0\<rparr> else g)
                      in if mg_active g = pWin then (was_enabled, snd (dskChangActiveWindow 0 g))
                         else (was_enabled, emit [NcPaint pWin None] g)
                 else (was_enabled, emit [NcPaint pWin None] g)
         else (was_enabled, g))"

datatype dsk_msg =
    MSG_ADDNEWMAINWIN | MSG_REMOVEMAINWIN | MSG_MOVETOTOPMOST | MSG_SHOWMAINWIN | MSG_HIDEMAINWIN
  | MSG_MOVEMAINWIN rect | MSG_GETACTIVEMAIN | MSG_SETACTIVEMAIN | MSG_TRACKPOPUPMENU trackmenu | MSG_ENDTRACKMENU trackmenu
  | MSG_CLOSEMENU | MSG_GETCAPTURE | MSG_SETCAPTURE | MSG_CARET_CREATE | MSG_CARET_DESTROY | MSG_ISENABLED | MSG_ENABLEMAINWIN bool | MSG_SHOWGLOBALCTRL | MSG_HIDEGLOBALCTRL

text \<open>The state after a message; what the handler returns besides is the result of the operation it calls.\<close>

fun WindowMessageHandler :: "winproc \<Rightarrow> dsk_msg \<Rightarrow> nat \<Rightarrow> dsk \<Rightarrow> dsk option" where
  "WindowMessageHandler proc MSG_ADDNEWMAINWIN pWin g = map_option snd (dskAddNewMainWindow pWin (close_menu g))"
| "WindowMessageHandler proc MSG_REMOVEMAINWIN pWin g =
     map_option (reset_desktop_capture_info pWin \<circ> snd) (dskRemoveMainWindow pWin (close_menu g))"
| "WindowMessageHandler proc MSG_MOVETOTOPMOST pWin g =
     map_option snd (dskMoveToTopMost pWin RCTM_MESSAGE 0 (close_menu g))"
| "WindowMessageHandler proc MSG_SHOWMAINWIN pWin g = map_option snd (dskShowMainWindow pWin True (close_menu g))"
| "WindowMessageHandler proc MSG_HIDEMAINWIN pWin g =
     map_option (reset_desktop_capture_info pWin \<circ> snd) (dskHideMainWindow pWin (close_menu g))"
| "WindowMessageHandler proc (MSG_MOVEMAINWIN rc) pWin g =
     (if WinType (dwins g pWin) = TYPE_CONTROL then dskMoveGlobalControl proc pWin (\<lambda>_. rc) g
      else dskMoveMainWindow proc pWin rc g)"
| "WindowMessageHandler proc MSG_GETACTIVEMAIN pWin g = Some g"
| "WindowMessageHandler proc MSG_SETACTIVEMAIN pWin g = Some (snd (dskChangActiveWindow pWin g))"
| "WindowMessageHandler proc MSG_GETCAPTURE pWin g = Some g"
| "WindowMessageHandler proc MSG_SETCAPTURE pWin g = Some (snd (DesktopSetCapture pWin g))"
| "WindowMessageHandler proc MSG_CARET_CREATE pWin g = Some (g\<lparr>sg_hCaretWnd := pWin\<rparr>)"
| "WindowMessageHandler proc MSG_CARET_DESTROY pWin g = Some (g\<lparr>sg_hCaretWnd := 0\<rparr>)"
| "WindowMessageHandler proc MSG_ISENABLED pWin g = Some g"
| "WindowMessageHandler proc (MSG_TRACKPOPUPMENU m) pWin g = dskTrackPopupMenu m g"
| "WindowMessageHandler proc (MSG_ENDTRACKMENU m) pWin g = dskEndTrackMenu m g"
| "WindowMessageHandler proc MSG_CLOSEMENU pWin g = Some (snd (dskForceCloseMenu g))"
| "WindowMessageHandler proc (MSG_ENABLEMAINWIN enable) pWin g = Some (snd (enable_mainwin pWin enable g))"
| "WindowMessageHandler proc MSG_SHOWGLOBALCTRL pWin g =
     do {
       g \<leftarrow> dskMoveGlobalControl proc pWin (\<lambda>g. wrc (dwins g pWin)) (close_menu g);
       (_, g) \<leftarrow> dskMoveToTopMost pWin RCTM_SHOWCTRL 0 g;
       Some (dskSetPrimitiveChildren pWin True g)
     }"
| "WindowMessageHandler proc MSG_HIDEGLOBALCTRL pWin g =
     do {
       (_, g) \<leftarrow> dskHideMainWindow pWin (close_menu g);
       Some (dskSetPrimitiveChildren pWin False g)
     }"

text \<open>The state after \<open>InitDesktop\<close>, with the size of the screen.\<close>

definition InitDesktop :: "int \<Rightarrow> int \<Rightarrow> dsk" where
  "InitDesktop maxx maxy =
     (let scr = mk_rect 0 0 (maxx + 1) (maxy + 1);
          empty_rgn = \<lparr>rgn_type = NULLREGION, rcBound = zero_rect, rects = []\<rparr>;
          rgns = InitClipRgn (\<lambda>_. empty_rgn) (Heap 0);
          blank = \<lparr>WinType = TYPE_ROOTWIN, wrc = zero_rect, crc = zero_rect, dwStyle = 0, dwExStyle = 0, pParents = [],
                    pMainWin = 0, hPrimitive = 0, pHosting = 0, hosted = [], gc_age = 0, inv_frozen = 0\<rparr>
      in \<lparr>dwins = (\<lambda>_. blank), sg_TopMostWinZOrder = \<lparr>nNumber = 0, z_nodes = []\<rparr>,
          sg_MainWinZOrder = \<lparr>nNumber = 0, z_nodes = []\<rparr>, gcr = snd (SetClipRgn True rgns (Heap 0) scr), scr_age = 0,
          invr = (\<lambda>_. empty_rgn), g_rcScr = scr, mg_active = 0, mg_ime_wnd = 0, mg_capture = 0, mg_ptmi = [], mgs_old_under_p = 0, mgs_button_down_main_window = 0, mgs_down_buttons = 0, mg_altdown = False, mg_modal = False,
          sg_hCaretWnd = 0, events = []\<rparr>)"

end
