(* ===== verification/Keys.thy ===== *)
theory Keys
  imports "HOL-Library.Word"
begin

section \<open>The state of the modifier keys (src/include/common.h)\<close>

text \<open>The bits of the status that comes with a message of the keyboard, shared by the desktop, the accelerators and the key maps.\<close>

definition KS_RIGHTSHIFT :: "32 word" where "KS_RIGHTSHIFT = 0x00000001"
definition KS_LEFTSHIFT :: "32 word" where "KS_LEFTSHIFT = 0x00000002"
definition KS_SHIFT :: "32 word" where "KS_SHIFT = 0x00000003"
definition KS_RIGHTALT :: "32 word" where "KS_RIGHTALT = 0x00000004"
definition KS_LEFTALT :: "32 word" where "KS_LEFTALT = 0x00000008"
definition KS_ALT :: "32 word" where "KS_ALT = 0x0000000C"
definition KS_RIGHTCTRL :: "32 word" where "KS_RIGHTCTRL = 0x00000010"
definition KS_LEFTCTRL :: "32 word" where "KS_LEFTCTRL = 0x00000020"
definition KS_CTRL :: "32 word" where "KS_CTRL = 0x00000030"
definition KS_NUMLOCK :: "32 word" where "KS_NUMLOCK = 0x00000080"
definition KS_CAPSLOCK :: "32 word" where "KS_CAPSLOCK = 0x00000100"

lemmas ks_defs = KS_RIGHTSHIFT_def KS_LEFTSHIFT_def KS_SHIFT_def KS_RIGHTALT_def KS_LEFTALT_def KS_ALT_def
  KS_RIGHTCTRL_def KS_LEFTCTRL_def KS_CTRL_def KS_NUMLOCK_def KS_CAPSLOCK_def

end
