(* ===== verification/Desktop_Input.thy ===== *)
theory Desktop_Input
  imports Desktop_Msgs Keys
begin

section \<open>The desktop: mouse and keyboard (src/kernel/desktop-comm.c)\<close>

text \<open>
  \<open>MouseMessageHandler\<close> and \<open>KeyMessageHandler\<close> turn the events of the devices into messages for windows.  A hook
  that the application registers is a function that answers whether it stops the event.  \<open>PostMouse\<close> is the message
  with \<open>MSG_DT_MOUSEOFF\<close> added, \<open>PostCaptured\<close> the one with \<open>KS_CAPTURED\<close> in its flags.
\<close>

type_synonym mouse_hook = "nat \<Rightarrow> mouse_msg \<Rightarrow> int \<Rightarrow> int \<Rightarrow> int \<Rightarrow> bool"
type_synonym key_hook = "nat \<Rightarrow> key_msg \<Rightarrow> int \<Rightarrow> 32 word \<Rightarrow> bool"

definition MAKELONG :: "int \<Rightarrow> int \<Rightarrow> int" where
  "MAKELONG low high = low mod 2 ^ 16 + (high mod 2 ^ 16) * 2 ^ 16"

subsection \<open>The mouse\<close>

definition button_bit :: "mouse_msg \<Rightarrow> 32 word" where
  "button_bit m = (if m \<in> {MSG_LBUTTONDOWN, MSG_LBUTTONUP, MSG_LBUTTONDBLCLK} then DOWN_BUTTON_LEFT else DOWN_BUTTON_RIGHT)"

definition mouse_move :: "nat \<Rightarrow> int \<Rightarrow> int \<Rightarrow> int \<Rightarrow> dsk \<Rightarrow> dsk" where
  "mouse_move pUnder flags x y g =
     (if mgs_button_down_main_window g \<noteq> 0
      then emit [PostMouse (mgs_button_down_main_window g) MSG_MOUSEMOVE flags x y] g
      else let old = mgs_old_under_p g;
               g = (if old \<noteq> pUnder
                    then (emit ((if old \<noteq> 0 then [MouseMoveIn old False pUnder, NcMouseOut old x y] else [])
                            @ (if pUnder \<noteq> 0 then [MouseMoveIn pUnder True old] else [ArrowCursor])) g)
                         \<lparr>mgs_old_under_p := pUnder\<rparr>
                    else g)
           in if pUnder \<noteq> 0
              then if has_style g pUnder WS_DISABLED then emit [DefaultCursor] g
                   else emit [PostMouse pUnder MSG_MOUSEMOVE flags x y] g
              else emit [DefaultCursor, PostMouse 0 MSG_MOUSEMOVE flags x y] g)"

text \<open>A click on a window that is not held raises it, unless it is a control, and makes it active.\<close>

definition click_window :: "nat \<Rightarrow> bool \<Rightarrow> int \<Rightarrow> int \<Rightarrow> dsk \<Rightarrow> dsk option" where
  "click_window pUnder is_ctrl x y g =
     (if is_ctrl then Some g
      else do {
        topmost \<leftarrow> dskIsTopMost g pUnder;
        g \<leftarrow> (if \<not> topmost then map_option snd (dskMoveToTopMost pUnder RCTM_CLICK (MAKELONG x y) g) else Some g);
        let (old, g) = dskChangActiveWindow pUnder g;
        Some (if pUnder \<noteq> old then emit [MouseActive pUnder] g else g)
      })"

definition hold_button :: "nat \<Rightarrow> mouse_msg \<Rightarrow> dsk \<Rightarrow> dsk" where
  "hold_button pWin m g = g\<lparr>mgs_button_down_main_window := pWin, mgs_down_buttons := button_bit m\<rparr>"

definition press_more :: "mouse_msg \<Rightarrow> int \<Rightarrow> int \<Rightarrow> int \<Rightarrow> dsk \<Rightarrow> dsk" where
  "press_more m flags x y g =
     (emit [PostMouse (mgs_button_down_main_window g) m flags x y] g)\<lparr>mgs_down_buttons := mgs_down_buttons g OR button_bit m\<rparr>"

definition release_all :: "dsk \<Rightarrow> dsk" where
  "release_all g = g\<lparr>mgs_button_down_main_window := 0, mgs_down_buttons := DOWN_BUTTON_NONE\<rparr>"

definition mouse_down :: "nat \<Rightarrow> bool \<Rightarrow> mouse_msg \<Rightarrow> int \<Rightarrow> int \<Rightarrow> int \<Rightarrow> dsk \<Rightarrow> dsk option" where
  "mouse_down pUnder is_ctrl m flags x y g =
     (if mgs_button_down_main_window g \<noteq> 0 then Some (press_more m flags x y g)
      else if pUnder \<noteq> 0
      then let g = close_menu g
           in if has_style g pUnder WS_DISABLED then Some (emit [PingBell] g)
              else do {
                g \<leftarrow> click_window pUnder is_ctrl x y g;
                Some (hold_button pUnder m (emit [PostMouse pUnder m flags x y] g))
              }
      else Some (release_all (emit [PostMouse 0 m flags x y] (snd (dskChangActiveWindow 0 g)))))"

definition mouse_up :: "nat \<Rightarrow> mouse_msg \<Rightarrow> int \<Rightarrow> int \<Rightarrow> int \<Rightarrow> dsk \<Rightarrow> dsk" where
  "mouse_up pUnder m flags x y g =
     (if mgs_down_buttons g = DOWN_BUTTON_LEFT \<and> m = MSG_RBUTTONUP then g
      else if mgs_down_buttons g = DOWN_BUTTON_RIGHT \<and> m = MSG_LBUTTONUP then g
      else if mgs_button_down_main_window g \<noteq> 0
      then let g = (emit [PostMouse (mgs_button_down_main_window g) m flags x y] g)
                     \<lparr>mgs_down_buttons := mgs_down_buttons g AND NOT (button_bit m)\<rparr>
           in if mgs_down_buttons g AND DOWN_BUTTON_ANY = 0 then release_all g else g
      else if pUnder = 0 then emit [PostMouse 0 m flags x y] g
      else g)"

definition mouse_dblclk :: "nat \<Rightarrow> mouse_msg \<Rightarrow> int \<Rightarrow> int \<Rightarrow> int \<Rightarrow> dsk \<Rightarrow> dsk" where
  "mouse_dblclk pUnder m flags x y g =
     (if mgs_button_down_main_window g \<noteq> 0 then press_more m flags x y g
      else if pUnder \<noteq> 0 then hold_button pUnder m (emit [PostMouse pUnder m flags x y] g)
      else release_all (emit [PostMouse 0 m flags x y] g))"

definition MouseMessageHandler :: "mouse_hook \<Rightarrow> mouse_msg \<Rightarrow> int \<Rightarrow> int \<Rightarrow> int \<Rightarrow> dsk \<Rightarrow> dsk option" where
  "MouseMessageHandler hook m flags x y g =
     (if mg_capture g \<noteq> 0 then Some (emit [PostCaptured (mg_capture g) m flags x y] g)
      else let pCtrlPtrIn = GetMainWindowPtrUnderPoint g x y
           in if hook pCtrlPtrIn m flags x y then Some g
              else let is_ctrl = (pCtrlPtrIn \<noteq> 0 \<and> WinType (dwins g pCtrlPtrIn) = TYPE_CONTROL);
                       pUnder = (if is_ctrl then pMainWin (dwins g pCtrlPtrIn) else pCtrlPtrIn)
                   in case m of
                        MSG_MOUSEMOVE \<Rightarrow> Some (mouse_move pUnder flags x y g)
                      | MSG_LBUTTONDOWN \<Rightarrow> mouse_down pUnder is_ctrl m flags x y g
                      | MSG_RBUTTONDOWN \<Rightarrow> mouse_down pUnder is_ctrl m flags x y g
                      | MSG_LBUTTONUP \<Rightarrow> Some (mouse_up pUnder m flags x y g)
                      | MSG_RBUTTONUP \<Rightarrow> Some (mouse_up pUnder m flags x y g)
                      | MSG_LBUTTONDBLCLK \<Rightarrow> Some (mouse_dblclk pUnder m flags x y g)
                      | MSG_RBUTTONDBLCLK \<Rightarrow> Some (mouse_dblclk pUnder m flags x y g))"

subsection \<open>The keyboard\<close>

definition SCANCODE_ESCAPE :: int where "SCANCODE_ESCAPE = 1"
definition SCANCODE_BACKSPACE :: int where "SCANCODE_BACKSPACE = 14"
definition SCANCODE_TAB :: int where "SCANCODE_TAB = 15"
definition SCANCODE_LEFTALT :: int where "SCANCODE_LEFTALT = 56"
definition SCANCODE_RIGHTALT :: int where "SCANCODE_RIGHTALT = 100"

definition is_alt :: "int \<Rightarrow> bool" where
  "is_alt scancode \<longleftrightarrow> scancode = SCANCODE_LEFTALT \<or> scancode = SCANCODE_RIGHTALT"

definition HandleSpecialKey :: "int \<Rightarrow> dsk \<Rightarrow> dsk" where
  "HandleSpecialKey scancode g = (if scancode = SCANCODE_BACKSPACE then emit [ExitGUI] g else g)"

definition post_key :: "key_hook \<Rightarrow> nat \<Rightarrow> key_msg \<Rightarrow> int \<Rightarrow> 32 word \<Rightarrow> dsk \<Rightarrow> dsk" where
  "post_key hook w m scancode status g = (if \<not> hook w m scancode status then emit [PostKey w m scancode status] g else g)"

text \<open>The end of the handler: the input method window, the active window, or the desktop gets the key.\<close>

definition send_key :: "key_hook \<Rightarrow> key_msg \<Rightarrow> int \<Rightarrow> 32 word \<Rightarrow> dsk \<Rightarrow> dsk" where
  "send_key hook m scancode status g =
     (if is_alt scancode \<or> mg_altdown g
      then let m' = (if m = MSG_KEYDOWN then MSG_SYSKEYDOWN else MSG_SYSKEYUP);
               g = (if m = MSG_KEYDOWN then g else g\<lparr>mg_altdown := False\<rparr>)
           in post_key hook (mg_active g) m' scancode status g
      else if mg_ime_wnd g \<noteq> 0 \<and> mg_active g \<noteq> 0 then post_key hook (mg_ime_wnd g) m scancode status g
      else post_key hook (mg_active g) m scancode status g)"

definition next_by_key :: "dsk \<Rightarrow> dsk option" where
  "next_by_key g =
     do {
       let g = close_menu (g\<lparr>mg_modal := True\<rparr>);
       pNextWin \<leftarrow> dskGetNextVisibleMainWindow (mg_active g) g;
       (_, g) \<leftarrow> dskMoveToTopMost pNextWin RCTM_KEY 0 g;
       Some (snd (dskChangActiveWindow pNextWin g))
     }"

definition KeyMessageHandler :: "key_hook \<Rightarrow> key_msg \<Rightarrow> int \<Rightarrow> 32 word \<Rightarrow> dsk \<Rightarrow> dsk option" where
  "KeyMessageHandler hook m scancode status g =
     (if m = MSG_KEYDOWN \<and> status AND KS_ALT \<noteq> 0 \<and> status AND KS_CTRL \<noteq> 0 then Some (HandleSpecialKey scancode g)
      else if is_alt scancode \<and> m = MSG_KEYDOWN then Some (g\<lparr>mg_altdown := True\<rparr>)
      else let g = (if is_alt scancode then g\<lparr>mg_altdown := False\<rparr> else g)
           in if is_alt scancode \<and> mg_modal g then Some (g\<lparr>mg_modal := False\<rparr>)
              else if mg_altdown g \<and> m = MSG_KEYDOWN \<and> scancode = SCANCODE_TAB then next_by_key g
              else if mg_altdown g \<and> m = MSG_KEYDOWN \<and> scancode = SCANCODE_ESCAPE
              then let g = g\<lparr>mg_modal := True\<rparr>
                   in if mg_active g \<noteq> 0 then Some (emit [PostClose (mg_active g)] g) else Some (send_key hook m scancode status g)
              else if mg_altdown g \<and> m \<noteq> MSG_KEYDOWN \<and> mg_modal g then Some g
              else Some (send_key hook m scancode status g))"

end
