(* ===== verification/Desktop_Proc.thy ===== *)
theory Desktop_Proc
  imports Desktop_Input
begin

section \<open>The desktop: dragging windows and the procedure of the desktop (src/kernel/desktop-comm.c)\<close>

text \<open>
  The state of \<open>Desktop\<close> is extended by the window that is dragged, the hooks, the children of windows and the counter of
  the caret.  \<open>outs\<close> records what this part sends and draws, in the order of the code; cursors, focus rectangles and
  messages among them.  A handle is an integer here, as \<open>dskCancelDragWindow\<close> stores \<open>-1\<close>.  The tracking of popup menus
  (\<open>PopupMenuTrackProc\<close> of \<open>menu.c\<close>), the desktop's own menu, the procedures of windows and the hooks are parameters in \<open>desk_env\<close>:
  the first says whether the event is passed on.  Locks are left out.
\<close>

definition HT_CAPTION :: int where "HT_CAPTION = 0x21"
definition HT_BORDER_TOP :: int where "HT_BORDER_TOP = 0x23"
definition HT_BORDER_BOTTOM :: int where "HT_BORDER_BOTTOM = 0x24"
definition HT_BORDER_LEFT :: int where "HT_BORDER_LEFT = 0x25"
definition HT_BORDER_RIGHT :: int where "HT_BORDER_RIGHT = 0x26"
definition HT_CORNER_TL :: int where "HT_CORNER_TL = 0x27"
definition HT_CORNER_TR :: int where "HT_CORNER_TR = 0x28"
definition HT_CORNER_BL :: int where "HT_CORNER_BL = 0x29"
definition HT_CORNER_BR :: int where "HT_CORNER_BR = 0x2A"

lemmas ht_defs = HT_CAPTION_def HT_BORDER_TOP_def HT_BORDER_BOTTOM_def HT_BORDER_LEFT_def HT_BORDER_RIGHT_def
  HT_CORNER_TL_def HT_CORNER_TR_def HT_CORNER_BL_def HT_CORNER_BR_def

abbreviation (input) ERR_OK :: int where "ERR_OK \<equiv> 0"
abbreviation (input) ERR_INV_HWND :: int where "ERR_INV_HWND \<equiv> -1"
abbreviation (input) ERR_IME_TOOMUCHIMEWND :: int where "ERR_IME_TOOMUCHIMEWND \<equiv> -15"
abbreviation (input) ERR_IME_NOSUCHIMEWND :: int where "ERR_IME_NOSUCHIMEWND \<equiv> -16"

datatype cursor = IDC_ARROW | IDC_MOVE | IDC_SIZENS | IDC_SIZEWE | IDC_SIZENWSE | IDC_SIZENESW

datatype out =
    SetDefaultCursor cursor | FocusRect rect | WindowDropped int int int | ImeClose nat | ImeSetTarget nat nat
  | Broadcast nat int int int | CaretBlink nat | RedrawDesktop "rect option"

record draginfo =
  di_location :: int
  di_init_x :: int
  di_init_y :: int

record dragdropinfo =
  dd_hwnd :: int
  dd_rc :: rect
  dd_location :: int
  dd_last_x :: int
  dd_last_y :: int

record desktop =
  core :: dsk
  dd_info :: dragdropinfo
  keyhook :: "nat \<times> nat"
  mousehook :: "nat \<times> nat"
  children :: "nat \<Rightarrow> nat list"
  nUseCount :: "nat \<Rightarrow> int"
  uCounter :: "32 word"
  outs :: "out list"

record desk_env =
  env_proc :: winproc
  env_keyhook :: "nat \<Rightarrow> nat \<Rightarrow> key_hook"
  env_mousehook :: "nat \<Rightarrow> nat \<Rightarrow> mouse_hook"
  track_key :: "key_msg \<Rightarrow> int \<Rightarrow> 32 word \<Rightarrow> dsk \<Rightarrow> bool \<times> dsk"
  track_mouse :: "mouse_msg \<Rightarrow> int \<Rightarrow> int \<Rightarrow> dsk \<Rightarrow> bool \<times> dsk"
  desktop_menu :: "int \<Rightarrow> int \<Rightarrow> dsk \<Rightarrow> dsk"
  class_of :: "nat \<Rightarrow> nat"

definition put :: "out list \<Rightarrow> desktop \<Rightarrow> desktop" where
  "put es s = s\<lparr>outs := outs s @ es\<rparr>"

definition on_core :: "(dsk \<Rightarrow> dsk option) \<Rightarrow> desktop \<Rightarrow> desktop option" where
  "on_core f s = map_option (\<lambda>g. s\<lparr>core := g\<rparr>) (f (core s))"

subsection \<open>Hooks\<close>

definition dskRegisterKeyHook :: "nat \<Rightarrow> nat \<Rightarrow> desktop \<Rightarrow> nat \<times> desktop" where
  "dskRegisterKeyHook context hook s = (snd (keyhook s), s\<lparr>keyhook := (context, hook)\<rparr>)"

definition dskRegisterMouseHook :: "nat \<Rightarrow> nat \<Rightarrow> desktop \<Rightarrow> nat \<times> desktop" where
  "dskRegisterMouseHook context hook s = (snd (mousehook s), s\<lparr>mousehook := (context, hook)\<rparr>)"

text \<open>Whether the hook, if there is one, stops the event.\<close>

definition dskHandleKeyHooks :: "desk_env \<Rightarrow> desktop \<Rightarrow> key_hook" where
  "dskHandleKeyHooks env s = (\<lambda>dst_wnd message wParam lParam.
     snd (keyhook s) \<noteq> 0 \<and> env_keyhook env (snd (keyhook s)) (fst (keyhook s)) dst_wnd message wParam lParam)"

definition dskHandleMouseHooks :: "desk_env \<Rightarrow> desktop \<Rightarrow> mouse_hook" where
  "dskHandleMouseHooks env s = (\<lambda>dst_wnd message wParam x y.
     snd (mousehook s) \<noteq> 0 \<and> env_mousehook env (snd (mousehook s)) (fst (mousehook s)) dst_wnd message wParam x y)"

subsection \<open>Dragging\<close>

definition drag_cursor :: "int \<Rightarrow> out list" where
  "drag_cursor location =
     (if location = HT_CAPTION then [SetDefaultCursor IDC_MOVE]
      else if location = HT_BORDER_TOP \<or> location = HT_BORDER_BOTTOM then [SetDefaultCursor IDC_SIZENS]
      else if location = HT_BORDER_LEFT \<or> location = HT_BORDER_RIGHT then [SetDefaultCursor IDC_SIZEWE]
      else if location = HT_CORNER_TL \<or> location = HT_CORNER_BR then [SetDefaultCursor IDC_SIZENWSE]
      else if location = HT_CORNER_BL \<or> location = HT_CORNER_TR then [SetDefaultCursor IDC_SIZENESW]
      else [])"

definition dskStartDragWindow :: "nat \<Rightarrow> draginfo \<Rightarrow> desktop \<Rightarrow> int \<times> desktop" where
  "dskStartDragWindow pWin drag_info s =
     (if \<not> visible (core s) pWin then (-1, s)
      else if dd_hwnd (dd_info s) \<noteq> 0 then (-1, s)
      else let g = (core s)\<lparr>mgs_old_under_p := 0, mgs_button_down_main_window := 0, mgs_down_buttons := DOWN_BUTTON_NONE\<rparr>;
               info = \<lparr>dd_hwnd = int pWin, dd_rc = wrc (dwins g pWin), dd_location = di_location drag_info,
                       dd_last_x = di_init_x drag_info, dd_last_y = di_init_y drag_info\<rparr>
           in (0, put (drag_cursor (dd_location info) @ [FocusRect (dd_rc info)]) (s\<lparr>core := g, dd_info := info\<rparr>)))"

definition dskCancelDragWindow :: "nat \<Rightarrow> desktop \<Rightarrow> int \<times> desktop" where
  "dskCancelDragWindow pWin s =
     (if \<not> visible (core s) pWin then (-1, s)
      else if dd_hwnd (dd_info s) = 0 \<or> dd_hwnd (dd_info s) \<noteq> int pWin then (-1, s)
      else (0, put [SetDefaultCursor IDC_ARROW] (s\<lparr>dd_info := (dd_info s)\<lparr>dd_hwnd := -1\<rparr>\<rparr>)))"

definition drag_rect :: "int \<Rightarrow> int \<Rightarrow> int \<Rightarrow> rect \<Rightarrow> rect" where
  "drag_rect location dx dy rc =
     (if location = HT_CAPTION then OffsetRect rc dx dy
      else if location = HT_BORDER_TOP then rc\<lparr>rtop := rtop rc + dy\<rparr>
      else if location = HT_BORDER_BOTTOM then rc\<lparr>rbottom := rbottom rc + dy\<rparr>
      else if location = HT_BORDER_LEFT then rc\<lparr>rleft := rleft rc + dx\<rparr>
      else if location = HT_BORDER_RIGHT then rc\<lparr>rright := rright rc + dx\<rparr>
      else if location = HT_CORNER_TL then rc\<lparr>rleft := rleft rc + dx, rtop := rtop rc + dy\<rparr>
      else if location = HT_CORNER_TR then rc\<lparr>rright := rright rc + dx, rtop := rtop rc + dy\<rparr>
      else if location = HT_CORNER_BL then rc\<lparr>rleft := rleft rc + dx, rbottom := rbottom rc + dy\<rparr>
      else if location = HT_CORNER_BR then rc\<lparr>rright := rright rc + dx, rbottom := rbottom rc + dy\<rparr>
      else rc)"

text \<open>The result says whether a window was dragged; \<open>move\<close> whether the message is \<open>MSG_MOUSEMOVE\<close>.\<close>

definition do_drag_drop_window :: "bool \<Rightarrow> int \<Rightarrow> int \<Rightarrow> desktop \<Rightarrow> bool \<times> desktop" where
  "do_drag_drop_window move x y s =
     (let info = dd_info s
      in if dd_hwnd info = 0 then (False, s)
         else if move
         then let rc = drag_rect (dd_location info) (x - dd_last_x info) (y - dd_last_y info) (dd_rc info)
              in (True, put [FocusRect (dd_rc info), FocusRect rc] (s\<lparr>dd_info := info\<lparr>dd_rc := rc, dd_last_x := x, dd_last_y := y\<rparr>\<rparr>))
         else let rc = dd_rc info
              in (True, put [FocusRect rc, WindowDropped (dd_hwnd info) (MAKELONG (rleft rc) (rtop rc)) (MAKELONG (rright rc) (rbottom rc)),
                             SetDefaultCursor IDC_ARROW] (s\<lparr>dd_info := info\<lparr>dd_hwnd := 0\<rparr>\<rparr>)))"

subsection \<open>Messages about windows\<close>

text \<open>\<open>WindowMessageHandler\<close> with the drag that it ends first; the result is kept for the two messages of the drag.\<close>

datatype win_msg = OnCore dsk_msg | MSG_STARTDRAGWIN draginfo | MSG_CANCELDRAGWIN

definition window_message :: "desk_env \<Rightarrow> win_msg \<Rightarrow> nat \<Rightarrow> desktop \<Rightarrow> (int \<times> desktop) option" where
  "window_message env message pWin s =
     (let s = snd (do_drag_drop_window False 0 0 s)
      in case message of
           OnCore m \<Rightarrow> map_option (Pair 0) (on_core (WindowMessageHandler (env_proc env) m pWin) s)
         | MSG_STARTDRAGWIN drag_info \<Rightarrow> Some (dskStartDragWindow pWin drag_info s)
         | MSG_CANCELDRAGWIN \<Rightarrow> Some (dskCancelDragWindow pWin s))"

subsection \<open>Input\<close>

definition LOSWORD :: "int \<Rightarrow> int" where
  "LOSWORD l = signed_take_bit 15 l"

definition HISWORD :: "int \<Rightarrow> int" where
  "HISWORD l = signed_take_bit 15 (drop_bit 16 l)"

text \<open>The rectangle that the dropped window takes from the message (\<open>DefaultPostMsgHandler\<close> in \<open>window.c\<close>).\<close>

definition dropped_rect :: "int \<Rightarrow> int \<Rightarrow> rect" where
  "dropped_rect wParam lParam = mk_rect (LOSWORD wParam) (HISWORD wParam) (LOSWORD lParam) (HISWORD lParam)"

definition desk_key :: "desk_env \<Rightarrow> key_msg \<Rightarrow> int \<Rightarrow> 32 word \<Rightarrow> desktop \<Rightarrow> desktop option" where
  "desk_key env message wParam lParam s =
     (if message = MSG_CHAR \<and> mg_active (core s) \<noteq> 0
      then Some (s\<lparr>core := emit [PostKey (mg_active (core s)) message wParam lParam] (core s)\<rparr>)
      else let (dragged, s) = do_drag_drop_window False 0 0 s
           in if dragged then Some s
              else let s = (if wParam = SCANCODE_ESCAPE \<and> lParam AND KS_CTRL \<noteq> 0
                            then s\<lparr>core := desktop_menu env 0 (rbottom (g_rcScr (core s))) (core s)\<rparr> else s);
                       handle = KeyMessageHandler (dskHandleKeyHooks env s) message wParam lParam
                   in if mg_ptmi (core s) \<noteq> []
                      then let (pass, g) = track_key env message wParam lParam (core s); s = s\<lparr>core := g\<rparr>
                           in if pass then on_core handle s else Some s
                      else on_core handle s)"

definition desk_mouse :: "desk_env \<Rightarrow> mouse_msg \<Rightarrow> int \<Rightarrow> int \<Rightarrow> desktop \<Rightarrow> desktop option" where
  "desk_mouse env message wParam lParam s =
     (let x = LOSWORD lParam; y = HISWORD lParam;
          (dragged, s) = do_drag_drop_window (message = MSG_MOUSEMOVE) x y s;
          handle = MouseMessageHandler (dskHandleMouseHooks env s) message wParam x y
      in if dragged then Some s
         else if mg_ptmi (core s) \<noteq> []
         then let (pass, g) = track_mouse env message x y (core s); s = s\<lparr>core := g\<rparr>
              in if pass then on_core handle s else Some s
         else on_core handle s)"

subsection \<open>Broadcasts and commands\<close>

definition not_control :: "desktop \<Rightarrow> nat \<Rightarrow> bool" where
  "not_control s w \<longleftrightarrow> WinType (dwins (core s) w) \<noteq> TYPE_CONTROL"

definition dskBroadcastMessage :: "int \<Rightarrow> int \<Rightarrow> int \<Rightarrow> desktop \<Rightarrow> int \<times> desktop" where
  "dskBroadcastMessage message wParam lParam s =
     (let ws = filter (not_control s) (nodes (core s) TopZ) @ filter (not_control s) (nodes (core s) MainZ)
      in (int (length ws), put (map (\<lambda>w. Broadcast w message wParam lParam) ws) s))"

text \<open>The command \<open>IDM_CLOSEALLWIN\<close> of the desktop's menu.\<close>

definition close_all_windows :: "desktop \<Rightarrow> desktop" where
  "close_all_windows s =
     (let g = core s; unhosted = (\<lambda>w. pHosting (dwins g w) = 0);
          top = filter (\<lambda>w. not_control s w \<and> unhosted w) (nodes g TopZ);
          main = filter (\<lambda>w. WinType (dwins g w) = TYPE_MAINWIN \<and> unhosted w) (nodes g MainZ)
      in s\<lparr>core := emit (map PostClose (top @ main)) g\<rparr>)"

subsection \<open>Instances of controls\<close>

definition dskOnNewCtrlInstance :: "desk_env \<Rightarrow> nat \<Rightarrow> nat \<Rightarrow> desktop \<Rightarrow> desktop option" where
  "dskOnNewCtrlInstance env pParent pNewCtrl s =
     do {
       let s = s\<lparr>children := (children s)(pParent := children s pParent @ [pNewCtrl])\<rparr>;
       let g = init_invrgn pNewCtrl (core s);
       g \<leftarrow> (if has_exstyle g pNewCtrl WS_EX_CTRLASMAINWIN
             then let g = add_new_window pNewCtrl (init_gcrinfo pNewCtrl g)
                  in if visible g pNewCtrl then dskUpdateGCRInfoOnShowNewMainWin pNewCtrl g else Some g
             else Some g);
       let c = class_of env pNewCtrl;
       Some (s\<lparr>core := g, nUseCount := (nUseCount s)(c := nUseCount s c + 1)\<rparr>)
     }"

definition dskOnRemoveCtrlInstance :: "desk_env \<Rightarrow> nat \<Rightarrow> nat \<Rightarrow> desktop \<Rightarrow> (bool \<times> desktop) option" where
  "dskOnRemoveCtrlInstance env pParent pCtrl s =
     (if children s pParent = [] then Some (False, s)
      else do {
        let fFound = (pCtrl \<in> set (children s pParent));
        let s = s\<lparr>children := (children s)(pParent := remove1 pCtrl (children s pParent))\<rparr>;
        let g = core s;
        g \<leftarrow> (if has_exstyle g pCtrl WS_EX_CTRLASMAINWIN
              then do {
                g \<leftarrow> (if visible g pCtrl then dskUpdateGCRInfoOnHideMainWin pCtrl g else Some g);
                remove_window pCtrl g
              }
              else Some g);
        let c = class_of env pCtrl;
        let s = (if fFound then s\<lparr>nUseCount := (nUseCount s)(c := nUseCount s c - 1)\<rparr> else s);
        let g = (if pCtrl = mg_capture g then g\<lparr>mg_capture := 0\<rparr> else g);
        Some (fFound, s\<lparr>core := g\<rparr>)
      })"

subsection \<open>Input method windows\<close>

definition dskRegisterIMEWnd :: "nat \<Rightarrow> desktop \<Rightarrow> int \<times> desktop" where
  "dskRegisterIMEWnd hwnd s =
     (let g = core s
      in if mg_ime_wnd g \<noteq> 0 then (ERR_IME_TOOMUCHIMEWND, s)
         else if CheckAndGetMainWindowPtr g hwnd = 0 then (ERR_INV_HWND, s)
         else (ERR_OK, put [ImeClose hwnd, ImeSetTarget hwnd (mg_active g)] (s\<lparr>core := g\<lparr>mg_ime_wnd := hwnd\<rparr>\<rparr>)))"

definition dskUnregisterIMEWnd :: "nat \<Rightarrow> desktop \<Rightarrow> int \<times> desktop" where
  "dskUnregisterIMEWnd hwnd s =
     (if mg_ime_wnd (core s) \<noteq> hwnd then (ERR_IME_NOSUCHIMEWND, s)
      else (ERR_OK, s\<lparr>core := (core s)\<lparr>mg_ime_wnd := 0\<rparr>\<rparr>))"

subsection \<open>Painting and the caret\<close>

text \<open>\<open>MSG_PAINT\<close> for the rectangle of its parameters, all of the desktop when that is empty.\<close>

definition paint_window :: "rect option \<Rightarrow> nat \<Rightarrow> dsk \<Rightarrow> dsk" where
  "paint_window invrc pTemp g =
     (if WinType (dwins g pTemp) \<noteq> TYPE_CONTROL \<and> visible g pTemp
      then case invrc of
             None \<Rightarrow> emit [NcPaint pTemp None, Invalidate pTemp None] g
           | Some invrc \<Rightarrow>
               let (meets, rcTemp) = IntersectRect (wrc (dwins g pTemp)) invrc
               in if meets then emit [NcPaint pTemp (Some (dskScreenToWindow g pTemp rcTemp)),
                                      Invalidate pTemp (Some (dskScreenToClient g pTemp rcTemp))] g
                  else g
      else g)"

definition desk_paint :: "int \<Rightarrow> int \<Rightarrow> desktop \<Rightarrow> desktop" where
  "desk_paint wParam lParam s =
     (let invrc = mk_rect (take_bit 16 wParam) (take_bit 16 (drop_bit 16 wParam)) (take_bit 16 lParam) (take_bit 16 (drop_bit 16 lParam));
          inv = (if rtop invrc = rbottom invrc \<or> rleft invrc = rright invrc then None else Some invrc);
          s = put [RedrawDesktop inv] (s\<lparr>core := snd (dskForceCloseMenu (core s))\<rparr>);
          g = core s
      in s\<lparr>core := fold (paint_window inv) (nodes g TopZ @ nodes g MainZ) g\<rparr>)"

text \<open>The caret's part of \<open>MSG_TIMER\<close>, which comes at each tick of \<open>__mg_timer_counter\<close>.\<close>

definition blink_caret :: "32 word \<Rightarrow> 32 word \<Rightarrow> desktop \<Rightarrow> desktop" where
  "blink_caret timer_counter sg_uCaretBTime s =
     (if timer_counter mod 10 \<noteq> 0 then s
      else let n = uCounter s + 100; hCaret = sg_hCaretWnd (core s)
           in if hCaret \<noteq> 0 \<and> GetMainWindowPtrOfControl (core s) hCaret = mg_active (core s) \<and> n \<ge> sg_uCaretBTime
              then put [CaretBlink hCaret] (s\<lparr>uCounter := 0\<rparr>)
              else s\<lparr>uCounter := n\<rparr>)"

end
