(* ===== verification/Desktop_Clip.thy ===== *)
theory Desktop_Clip
  imports Desktop_Input Region_Props
begin

section \<open>The desktop: what the steps do to the clip regions\<close>

text \<open>
  Each loop of the desktop module changes some clip regions and nothing else of what the Z order,
  the styles and the rectangles of windows are.  The lemmas give the points of every region after
  the loop, in terms of the rectangles of the visible windows.
\<close>

subsection \<open>Frames\<close>

text \<open>What the loops leave alone, of a window and of the desktop.\<close>

definition wstatic :: "mainwin \<Rightarrow> mainwin" where
  "wstatic w = w\<lparr>gc_age := 0, inv_frozen := 0, hPrimitive := 0, hosted := []\<rparr>"

definition frame :: "dsk \<Rightarrow> dsk \<Rightarrow> bool" where
  "frame g g' \<longleftrightarrow> (\<forall>w. wstatic (dwins g' w) = wstatic (dwins g w))
     \<and> sg_TopMostWinZOrder g' = sg_TopMostWinZOrder g \<and> sg_MainWinZOrder g' = sg_MainWinZOrder g
     \<and> g_rcScr g' = g_rcScr g \<and> mg_ptmi g' = mg_ptmi g"

lemma frame_refl [simp]: "frame g g"
  by (simp add: frame_def)

lemma frame_trans: "frame g g' \<Longrightarrow> frame g' g'' \<Longrightarrow> frame g g''"
  by (simp add: frame_def)

lemma wstatic_fields:
  assumes "wstatic v = wstatic w"
  shows "WinType v = WinType w" "wrc v = wrc w" "crc v = crc w" "dwStyle v = dwStyle w" "dwExStyle v = dwExStyle w"
    "pParents v = pParents w" "pMainWin v = pMainWin w" "pHosting v = pHosting w"
  using assms by (cases v, cases w, simp add: wstatic_def)+

lemma frame_window:
  assumes "frame g g'"
  shows "WinType (dwins g' w) = WinType (dwins g w)" "wrc (dwins g' w) = wrc (dwins g w)"
    "crc (dwins g' w) = crc (dwins g w)" "dwStyle (dwins g' w) = dwStyle (dwins g w)"
    "dwExStyle (dwins g' w) = dwExStyle (dwins g w)" "pParents (dwins g' w) = pParents (dwins g w)"
    "pMainWin (dwins g' w) = pMainWin (dwins g w)"
  using assms wstatic_fields [of "dwins g' w" "dwins g w"] by (auto simp: frame_def)

lemma frame_same:
  assumes "frame g g'"
  shows "has_style g' w s = has_style g w s" "has_exstyle g' w s = has_exstyle g w s"
    "nodes g' z = nodes g z" "g_rcScr g' = g_rcScr g" "mg_ptmi g' = mg_ptmi g"
    "GET_WIN_ZORDER g' w = GET_WIN_ZORDER g w"
    "dskGetWindowRectInScreen g' w = dskGetWindowRectInScreen g w"
  using assms frame_window [OF assms]
  by (auto simp: has_style_def has_exstyle_def nodes_def GET_WIN_ZORDER_def dskGetWindowRectInScreen_def frame_def
      split: zsel.split)

lemma frame_emit [simp]: "frame g (emit es g)"
  by (simp add: emit_def frame_def)

lemma frame_end_clip [simp]: "frame g (end_clip_window w g)"
  by (simp add: end_clip_window_def upd_win_def frame_def wstatic_def)

lemma frame_gcr [simp]: "frame g (g\<lparr>gcr := r\<rparr>)" "frame g (g\<lparr>scr_age := a\<rparr>)" "frame g (g\<lparr>mg_active := w\<rparr>)"
  "frame g (g\<lparr>gcr := r, scr_age := a\<rparr>)"
  by (simp_all add: frame_def)

lemma gcr_emit [simp]: "gcr (emit es g) = gcr g" "gcr (end_clip_window w g) = gcr g" "gcr (g\<lparr>scr_age := a\<rparr>) = gcr g"
  "gcr (upd_win w f g) = gcr g" "gcr (upd_zorder z h g) = gcr g"
  by (simp_all add: emit_def end_clip_window_def upd_win_def upd_zorder_def split: zsel.split)

subsection \<open>Regions\<close>

text \<open>
  A rectangle outside of the screen on one side leaves a region without points, which is not
  well formed but which no subtraction changes.
\<close>

definition reg_ok :: "cliprgn \<Rightarrow> bool" where
  "reg_ok c \<longleftrightarrow> rgn_ok c \<or> \<not> rect_ok (rcBound c) \<and> rgn_pts c = {}"

abbreviation region :: "dsk \<Rightarrow> nat \<Rightarrow> cliprgn" where
  "region g w \<equiv> gcr g (Heap w)"

abbreviation pts :: "dsk \<Rightarrow> nat \<Rightarrow> point set" where
  "pts g w \<equiv> rgn_pts (gcr g (Heap w))"

text \<open>\<open>drawn g g' S f\<close>: the regions of \<open>S\<close> get the points \<open>f\<close>, all else but ages and events stays.\<close>

definition drawn :: "dsk \<Rightarrow> dsk \<Rightarrow> nat set \<Rightarrow> (nat \<Rightarrow> point set) \<Rightarrow> bool" where
  "drawn g g' S f \<longleftrightarrow> frame g g' \<and> (\<forall>m \<in> S. reg_ok (region g' m) \<and> pts g' m = f m)
     \<and> (\<forall>m. m \<notin> S \<longrightarrow> region g' m = region g m)"

lemma drawnD:
  assumes "drawn g g' S f"
  shows "frame g g'" "m \<in> S \<Longrightarrow> reg_ok (region g' m)" "m \<in> S \<Longrightarrow> pts g' m = f m" "m \<notin> S \<Longrightarrow> region g' m = region g m"
  using assms by (auto simp: drawn_def)

lemma drawn_frame: "drawn g g' S f \<Longrightarrow> frame g' g'' \<Longrightarrow> gcr g'' = gcr g' \<Longrightarrow> drawn g g'' S f"
  by (auto simp: drawn_def intro: frame_trans)

lemma drawn_none: "frame g g' \<Longrightarrow> gcr g' = gcr g \<Longrightarrow> drawn g g' {} f"
  by (simp add: drawn_def)

lemma drawn_cong: "drawn g g' S f \<Longrightarrow> (\<And>m. m \<in> S \<Longrightarrow> f m = f' m) \<Longrightarrow> drawn g g' S f'"
  by (simp add: drawn_def)

lemma drawn_trans:
  assumes "drawn g g' S f" "drawn g' g'' T h"
  shows "drawn g g'' (S \<union> T) (\<lambda>m. if m \<in> T then h m else f m)"
  using assms frame_trans [of g g' g''] by (auto simp: drawn_def)

lemma drawn_again:
  assumes "drawn g g' {r} f" "drawn g' g'' {r} h"
  shows "drawn g g'' {r} h"
  using drawn_trans [OF assms] by (auto intro: drawn_cong)

lemma clip_region_drawn:
  assumes "reg_ok (region g r)" "rect_norm rc"
  shows "drawn g (clip_region r rc g) {r} (\<lambda>_. pts g r - rect_pts rc)"
proof (cases "rgn_ok (region g r)")
  case True
  then show ?thesis
    using SubtractClipRect_writes [of "gcr g" r rc] assms(2)
    by (auto simp: drawn_def clip_region_def writes_def reg_ok_def)
next
  case False
  then have "\<not> rect_ok (rcBound (region g r))" "pts g r = {}" using assms(1) by (simp_all add: reg_ok_def)
  then have "clip_region r rc g = g"
    by (simp add: clip_region_def SubtractClipRect_def DoesIntersect_cmp)
  then show ?thesis using assms(1) \<open>pts g r = {}\<close> by (simp add: drawn_def)
qed

lemma reset_window_drawn:
  assumes "\<not> IsRectEmpty (snd (IntersectRect rc (g_rcScr g)))"
  shows "drawn g (reset_window w rc g) {w} (\<lambda>_. rect_pts rc \<inter> rect_pts (g_rcScr g))"
proof -
  let ?t = "snd (IntersectRect rc (g_rcScr g))"
  have set: "region (reset_window w rc g) w = \<lparr>rgn_type = SIMPLEREGION, rcBound = ?t, rects = [?t]\<rparr>"
    "m \<noteq> w \<Longrightarrow> region (reset_window w rc g) m = region g m" for m
    using assms by (simp_all add: reset_window_def SetClipRgn_def EmptyClipRgn_def Let_def)
  moreover have "reg_ok \<lparr>rgn_type = SIMPLEREGION, rcBound = ?t, rects = [?t]\<rparr>"
    by (cases "rect_ok ?t") (auto simp: reg_ok_def rgn_ok_single rgn_pts_def rect_pts_empty)
  ultimately show ?thesis
    by (simp add: drawn_def rgn_pts_def IntersectRect_pts) (simp add: reset_window_def)
qed

subsection \<open>Loops\<close>

text \<open>The points that the visible windows of a list cover.\<close>

definition covered :: "dsk \<Rightarrow> nat list \<Rightarrow> point set" where
  "covered g ns = (\<Union>t \<in> {t \<in> set ns. visible g t}. rect_pts (dskGetWindowRectInScreen g t))"

definition all_norm :: "dsk \<Rightarrow> nat list \<Rightarrow> bool" where
  "all_norm g ns \<longleftrightarrow> (\<forall>t \<in> set ns. rect_norm (dskGetWindowRectInScreen g t))"

lemma covered_simps [simp]:
  "covered g [] = {}"
  "covered g (t # ns) = (if visible g t then rect_pts (dskGetWindowRectInScreen g t) else {}) \<union> covered g ns"
  "covered g (ms @ ns) = covered g ms \<union> covered g ns"
  by (auto simp: covered_def)

lemma all_norm_simps [simp]:
  "all_norm g []" "all_norm g (t # ns) \<longleftrightarrow> rect_norm (dskGetWindowRectInScreen g t) \<and> all_norm g ns"
  "all_norm g (ms @ ns) \<longleftrightarrow> all_norm g ms \<and> all_norm g ns"
  by (auto simp: all_norm_def)

lemma frame_covered: "frame g g' \<Longrightarrow> covered g' ns = covered g ns" "frame g g' \<Longrightarrow> all_norm g' ns = all_norm g ns"
  by (simp_all add: covered_def all_norm_def frame_same)

lemma clip_by_drawn:
  "reg_ok (region g r) \<Longrightarrow> all_norm g ns \<Longrightarrow> drawn g (clip_by r ns g) {r} (\<lambda>_. pts g r - covered g ns)"
proof (induction ns arbitrary: g)
  case Nil
  then show ?case by (simp add: clip_by_def drawn_def)
next
  case (Cons t ns)
  let ?g = "if visible g t then clip_region r (dskGetWindowRectInScreen g t) g else g"
  have first: "drawn g ?g {r} (\<lambda>_. pts g r - (if visible g t then rect_pts (dskGetWindowRectInScreen g t) else {}))"
    using clip_region_drawn [of g r] Cons.prems by (auto simp: drawn_def)
  note frame = drawnD(1) [OF first]
  have "drawn ?g (clip_by r ns ?g) {r} (\<lambda>_. pts ?g r - covered ?g ns)"
    using Cons.IH [of ?g] drawnD(2) [OF first, of r] Cons.prems frame_covered(2) [OF frame, of ns] by simp
  from drawn_again [OF first this] have "drawn g (clip_by r (t # ns) g) {r} (\<lambda>_. pts ?g r - covered ?g ns)"
    by (simp add: clip_by_def)
  then show ?case
    using drawnD(3) [OF first, of r] frame_covered(1) [OF frame, of ns] by (auto elim!: drawn_cong)
qed

text \<open>A loop over distinct windows whose body redraws the region of a visible window.\<close>

lemma fold_drawn:
  assumes "distinct ns"
    and "\<And>t. t \<in> set ns \<Longrightarrow> visible g t \<Longrightarrow> Q t (region g t)"
    and "\<And>g' t. frame g g' \<Longrightarrow> t \<in> set ns \<Longrightarrow> visible g t \<Longrightarrow> Q t (region g' t) \<Longrightarrow>
      drawn g' (step t g') {t} (\<lambda>_. F t (pts g' t))"
  shows "drawn g (fold (\<lambda>t g. if visible g t then step t g else g) ns g) {t \<in> set ns. visible g t} (\<lambda>t. F t (pts g t))"
  using assms
proof (induction ns arbitrary: g)
  case Nil
  then show ?case by (simp add: drawn_def)
next
  case (Cons a ns)
  let ?g = "if visible g a then step a g else g"
  have first: "drawn g ?g (if visible g a then {a} else {}) (\<lambda>t. F t (pts g t))"
    using Cons.prems(2) Cons.prems(3) [of g a] by (auto simp: drawn_none elim!: drawn_cong)
  note frame = drawnD(1) [OF first] and other = drawnD(4) [OF first]
  have "drawn ?g (fold (\<lambda>t g. if visible g t then step t g else g) ns ?g) {t \<in> set ns. visible ?g t} (\<lambda>t. F t (pts ?g t))"
  proof (rule Cons.IH)
    show "distinct ns" using Cons.prems(1) by simp
    fix t assume t: "t \<in> set ns" "visible ?g t"
    then have "t \<noteq> a" using Cons.prems(1) by auto
    then show "Q t (region ?g t)"
      using other [of t] Cons.prems(2) [of t] t frame_same(1) [OF frame] by auto
  next
    fix g' t assume "frame ?g g'" "t \<in> set ns" "visible ?g t" "Q t (region g' t)"
    then show "drawn g' (step t g') {t} (\<lambda>_. F t (pts g' t))"
      using Cons.prems(3) [of g' t] frame_trans [OF frame] frame_same(1) [OF frame] by auto
  qed
  from drawn_trans [OF first this] frame_same(1) [OF frame]
  have "drawn g (fold (\<lambda>t g. if visible g t then step t g else g) ns ?g)
      ((if visible g a then {a} else {}) \<union> {t \<in> set ns. visible g t})
      (\<lambda>m. if m \<in> {t \<in> set ns. visible g t} then F m (pts ?g m) else F m (pts g m))" by simp
  then have "drawn g (fold (\<lambda>t g. if visible g t then step t g else g) ns ?g)
      ((if visible g a then {a} else {}) \<union> {t \<in> set ns. visible g t}) (\<lambda>m. F m (pts g m))"
  proof (rule drawn_cong)
    fix m assume "m \<in> (if visible g a then {a} else {}) \<union> {t \<in> set ns. visible g t}"
    moreover have "m \<in> set ns \<Longrightarrow> m \<noteq> a" using Cons.prems(1) by auto
    ultimately show "(if m \<in> {t \<in> set ns. visible g t} then F m (pts ?g m) else F m (pts g m)) = F m (pts g m)"
      using other [of m] by auto
  qed
  moreover have "(if visible g a then {a} else {}) \<union> {t \<in> set ns. visible g t} = {t \<in> set (a # ns). visible g t}" by auto
  ultimately show ?case by simp
qed

end
