(* ===== verification/Desktop_Inv.thy ===== *)
theory Desktop_Inv
  imports Desktop_Clip
begin

section \<open>The desktop: the invariant of the clip regions\<close>

text \<open>
  A visible window has a clip region of exactly those points of the screen in its rectangle that no visible window
  above it and no open menu covers, and the desktop has the rest.  The operations are proved to keep
  this: a window that appears, one that disappears, and one that is moved to the top.
\<close>

subsection \<open>The Z order\<close>

definition order :: "dsk \<Rightarrow> nat list" where
  "order g = nodes g TopZ @ nodes g MainZ"

definition above :: "dsk \<Rightarrow> zsel \<Rightarrow> nat \<Rightarrow> nat list" where
  "above g z w = (case z of TopZ \<Rightarrow> takeWhile (\<lambda>h. h \<noteq> w) (nodes g TopZ)
     | MainZ \<Rightarrow> nodes g TopZ @ takeWhile (\<lambda>h. h \<noteq> w) (nodes g MainZ))"

definition under :: "dsk \<Rightarrow> zsel \<Rightarrow> nat \<Rightarrow> nat list" where
  "under g z w = (case z of TopZ \<Rightarrow> tl (dropWhile (\<lambda>h. h \<noteq> w) (nodes g TopZ)) @ nodes g MainZ
     | MainZ \<Rightarrow> tl (dropWhile (\<lambda>h. h \<noteq> w) (nodes g MainZ)))"

definition menus :: "dsk \<Rightarrow> point set" where
  "menus g = (\<Union>m \<in> set (mg_ptmi g). rect_pts (tm_rc m))"

text \<open>A window is placed when its sides are in order and it does not touch the screen from outside.\<close>

definition placed :: "dsk \<Rightarrow> nat \<Rightarrow> bool" where
  "placed g w \<longleftrightarrow> rect_norm (dskGetWindowRectInScreen g w)
     \<and> \<not> IsRectEmpty (snd (IntersectRect (dskGetWindowRectInScreen g w) (g_rcScr g)))"

definition zwf :: "dsk \<Rightarrow> bool" where
  "zwf g \<longleftrightarrow> distinct (order g) \<and> 0 \<notin> set (order g)
     \<and> (\<forall>z. \<forall>w \<in> set (nodes g z). GET_WIN_ZORDER g w = z \<and> placed g w)
     \<and> rect_ok (g_rcScr g) \<and> (\<forall>m \<in> set (mg_ptmi g). rect_norm (tm_rc m))"

definition cover :: "dsk \<Rightarrow> (nat \<Rightarrow> bool) \<Rightarrow> nat list \<Rightarrow> point set" where
  "cover g V ns = (\<Union>t \<in> {t \<in> set ns. V t}. rect_pts (dskGetWindowRectInScreen g t))"

definition on_screen :: "dsk \<Rightarrow> nat \<Rightarrow> point set" where
  "on_screen g w = rect_pts (dskGetWindowRectInScreen g w) \<inter> rect_pts (g_rcScr g)"

definition clipped_for :: "(nat \<Rightarrow> bool) \<Rightarrow> dsk \<Rightarrow> bool" where
  "clipped_for V g \<longleftrightarrow>
     (\<forall>z. \<forall>w \<in> set (nodes g z). V w \<longrightarrow>
        reg_ok (region g w) \<and> pts g w = on_screen g w - cover g V (above g z w) - menus g)
     \<and> reg_ok (region g 0) \<and> pts g 0 = rect_pts (g_rcScr g) - cover g V (order g) - menus g"

definition clipped :: "dsk \<Rightarrow> bool" where
  "clipped g = clipped_for (visible g) g"

lemma covered_cover: "covered g ns = cover g (visible g) ns"
  by (simp add: covered_def cover_def)

lemma frame_desk:
  assumes "frame g g'"
  shows "order g' = order g" "above g' z w = above g z w" "under g' z w = under g z w" "menus g' = menus g"
    "placed g' w = placed g w" "zwf g' = zwf g" "cover g' V ns = cover g V ns" "on_screen g' w = on_screen g w"
    "clipped_for V g' = clipped_for V g \<or> gcr g' \<noteq> gcr g"
  by (auto simp: order_def above_def under_def menus_def placed_def zwf_def cover_def on_screen_def clipped_for_def
      frame_same [OF assms] split: zsel.split)

lemma frame_clipped: "frame g g' \<Longrightarrow> gcr g' = gcr g \<Longrightarrow> clipped_for V g' = clipped_for V g"
  using frame_desk(9) by blast

lemma frame_visible: "frame g g' \<Longrightarrow> visible g' = visible g"
  by (simp add: fun_eq_iff frame_same)

lemma zwfD:
  assumes "zwf g" "w \<in> set (nodes g z)"
  shows "GET_WIN_ZORDER g w = z" "placed g w" "w \<noteq> 0" "rect_norm (dskGetWindowRectInScreen g w)"
  using assms by (auto simp: zwf_def placed_def order_def split: zsel.splits intro: zsel.exhaust [of z])

lemma zwf_norm: "zwf g \<Longrightarrow> set ns \<subseteq> set (order g) \<Longrightarrow> all_norm g ns"
  unfolding all_norm_def order_def using zwfD(4) by fastforce

lemma zwf_distinct: "zwf g \<Longrightarrow> distinct (nodes g z)"
  by (cases z) (simp_all add: zwf_def order_def)

lemma zwf_disjoint: "zwf g \<Longrightarrow> w \<in> set (nodes g z) \<Longrightarrow> w \<in> set (nodes g z') \<Longrightarrow> z = z'"
  using zwfD(1) by metis

lemma in_tl_dropWhile: "x \<in> set (tl (dropWhile P xs)) \<Longrightarrow> x \<in> set xs"
  by (induction xs) (auto split: if_splits)

lemma list_above_under:
  "distinct xs \<Longrightarrow> w \<in> set xs \<Longrightarrow> t \<in> set xs \<Longrightarrow>
    t \<in> set (tl (dropWhile (\<lambda>h. h \<noteq> w) xs)) \<longleftrightarrow> w \<in> set (takeWhile (\<lambda>h. h \<noteq> t) xs)"
  by (induction xs) (auto dest: set_takeWhileD in_tl_dropWhile)

lemma dropWhile_tail: "w \<in> set xs \<Longrightarrow> dropWhile (\<lambda>h. h \<noteq> w) xs = w # tl (dropWhile (\<lambda>h. h \<noteq> w) xs)"
  by (induction xs) auto

lemma nodes_under_list:
  "w \<in> set (nodes g z) \<Longrightarrow> nodes_under g z w = Some (tl (dropWhile (\<lambda>h. h \<noteq> w) (nodes g z)))"
  using dropWhile_tail [of w "nodes g z"] by (auto simp: nodes_under_def split: list.split)

lemma other_order:
  assumes "zwf g" "w \<in> set (nodes g z)" "z' \<noteq> z"
  shows "w \<notin> set (nodes g z')"
  using zwf_disjoint [OF assms(1,2)] assms(3) by blast

lemma under_above:
  assumes "zwf g" "w \<in> set (nodes g z)" "t \<in> set (nodes g z')"
  shows "t \<in> set (under g z w) \<longleftrightarrow> w \<in> set (above g z' t)"
proof (cases "z = z'")
  case True
  have "t \<in> set (tl (dropWhile (\<lambda>h. h \<noteq> w) (nodes g z))) \<longleftrightarrow> w \<in> set (takeWhile (\<lambda>h. h \<noteq> t) (nodes g z))"
    using list_above_under [OF zwf_distinct [OF assms(1)] assms(2)] assms(3) True by blast
  then show ?thesis
    using other_order [OF assms(1,2)] other_order [OF assms(1,3)] True
    by (cases z) (simp_all add: under_def above_def)
next
  case False
  then show ?thesis
    using assms(2,3) other_order [OF assms(1,2), of z'] other_order [OF assms(1,3), of z]
    by (cases z; cases z') (auto simp: under_def above_def dest: set_takeWhileD in_tl_dropWhile)
qed

subsection \<open>A window that appears and one that disappears\<close>

lemma cover_add:
  "cover g (V(w := True)) ns = cover g (V(w := False)) ns \<union> (if w \<in> set ns then rect_pts (dskGetWindowRectInScreen g w) else {})"
  by (auto simp: cover_def)

lemma not_above_itself: "zwf g \<Longrightarrow> w \<in> set (nodes g z) \<Longrightarrow> w \<notin> set (above g z w)"
  using zwf_disjoint by (cases z) (auto simp: above_def dest: set_takeWhileD)

lemma above_order: "set (above g z w) \<subseteq> set (order g)"
  by (cases z) (auto simp: above_def order_def dest: set_takeWhileD)

lemma above_nodes: "t \<in> set (above g z w) \<Longrightarrow> \<exists>z'. t \<in> set (nodes g z')"
  using above_order [of g z w] by (auto simp: order_def)

lemma in_order: "w \<in> set (nodes g z) \<Longrightarrow> w \<in> set (order g)"
  by (cases z) (auto simp: order_def)

lemma appear:
  assumes z: "zwf g" "w \<in> set (nodes g z)" "menus g = {}"
    and before: "clipped_for (V(w := False)) g"
    and step: "drawn g g' ({w, 0} \<union> {t \<in> set (under g z w). V t}) f"
    and f: "f w = on_screen g w - cover g (V(w := False)) (above g z w)"
      "\<And>t. t \<in> set (under g z w) \<Longrightarrow> V t \<Longrightarrow> f t = pts g t - rect_pts (dskGetWindowRectInScreen g w)"
      "f 0 = pts g 0 - rect_pts (dskGetWindowRectInScreen g w)"
  shows "clipped_for (V(w := True)) g'"
proof -
  note frame = frame_desk [OF drawnD(1) [OF step]] frame_same [OF drawnD(1) [OF step]]
  have "reg_ok (region g' t) \<and> pts g' t = on_screen g t - cover g (V(w := True)) (above g z' t)"
    if t: "t \<in> set (nodes g z')" "(V(w := True)) t" for z' t
  proof (cases "t = w")
    case True
    then have "z' = z" using zwf_disjoint z t by blast
    then show ?thesis
      using drawnD(2,3) [OF step, of w] f(1) not_above_itself [OF z(1,2)] True by (simp add: cover_add)
  next
    case False
    have t0: "t \<noteq> 0" using zwfD(3) z t by blast
    have old: "reg_ok (region g t)" "pts g t = on_screen g t - cover g (V(w := False)) (above g z' t)"
      using before t False z(3) by (auto simp: clipped_for_def)
    show ?thesis
    proof (cases "w \<in> set (above g z' t)")
      case True
      then have "t \<in> set (under g z w)" using under_above [OF z(1,2) t(1)] by simp
      then show ?thesis
        using drawnD(2,3) [OF step, of t] f(2) [of t] t False old True by (auto simp: cover_add)
    next
      case nb: False
      then have "t \<notin> {w, 0} \<union> {t \<in> set (under g z w). V t}" using under_above [OF z(1,2) t(1)] False t0 by simp
      then show ?thesis using drawnD(4) [OF step, of t] old nb by (simp add: cover_add)
    qed
  qed
  moreover have "reg_ok (region g' 0) \<and> pts g' 0 = rect_pts (g_rcScr g) - cover g (V(w := True)) (order g)"
    using drawnD(2,3) [OF step, of 0] f(3) before z(3) in_order [OF z(2)] by (auto simp: clipped_for_def cover_add)
  ultimately show ?thesis by (simp add: clipped_for_def frame z(3))
qed

lemma disappear:
  assumes z: "zwf g" "w \<in> set (nodes g z)" "menus g = {}" "V w"
    and before: "clipped_for V g"
    and step: "drawn g g' ({0} \<union> {t \<in> set (under g z w). V t}) f"
    and f: "\<And>z' t. t \<in> set (nodes g z') \<Longrightarrow> t \<in> set (under g z w) \<Longrightarrow> V t \<Longrightarrow> f t = on_screen g t - cover g (V(w := False)) (above g z' t)"
      "f 0 = rect_pts (g_rcScr g) - cover g (V(w := False)) (order g)"
  shows "clipped_for (V(w := False)) g'"
proof -
  note frame = frame_desk [OF drawnD(1) [OF step]] frame_same [OF drawnD(1) [OF step]]
  have VT: "V = V(w := True)" using z(4) by (simp add: fun_upd_idem)
  have "reg_ok (region g' t) \<and> pts g' t = on_screen g t - cover g (V(w := False)) (above g z' t)"
    if t: "t \<in> set (nodes g z')" "V t" "t \<noteq> w" for z' t
  proof (cases "w \<in> set (above g z' t)")
    case True
    then have "t \<in> set (under g z w)" using under_above [OF z(1,2) t(1)] by simp
    then show ?thesis using drawnD(2,3) [OF step, of t] f(1) [OF t(1)] t by auto
  next
    case False
    then have "t \<notin> {0} \<union> {t \<in> set (under g z w). V t}" using under_above [OF z(1,2) t(1)] zwfD(3) [OF z(1) t(1)] by simp
    moreover have "pts g t = on_screen g t - cover g (V(w := True)) (above g z' t)" "reg_ok (region g t)"
      using before t z(3) VT by (auto simp: clipped_for_def)
    ultimately show ?thesis using drawnD(4) [OF step, of t] False by (simp add: cover_add)
  qed
  moreover have "reg_ok (region g' 0) \<and> pts g' 0 = rect_pts (g_rcScr g) - cover g (V(w := False)) (order g)"
    using drawnD(2,3) [OF step, of 0] f(2) by auto
  ultimately show ?thesis by (auto simp: clipped_for_def frame z(3))
qed

subsection \<open>The loops of the code\<close>

lemma frame_clip_region [simp]: "frame g (clip_region r rc g)"
  by (simp add: clip_region_def)

lemma fold_frame: "(\<And>t g. frame g (f t g)) \<Longrightarrow> frame g (fold f ns g)"
proof (induction ns arbitrary: g)
  case (Cons a ns)
  show ?case using frame_trans [OF Cons.prems(1) Cons.IH [OF Cons.prems(1)]] by simp
qed simp

abbreviation clip_list :: "rect \<Rightarrow> nat list \<Rightarrow> dsk \<Rightarrow> dsk" where
  "clip_list rc ns g \<equiv> fold (\<lambda>t g. if visible g t then end_clip_window t (clip_region t rc g) else g) ns g"

lemma frame_clip_list [simp]: "frame g (clip_list rc ns g)"
  by (rule fold_frame) (simp add: frame_trans [OF frame_clip_region frame_end_clip])

lemma clip_list_drawn:
  assumes "distinct ns" "rect_norm rc" "\<And>t. t \<in> set ns \<Longrightarrow> visible g t \<Longrightarrow> reg_ok (region g t)"
  shows "drawn g (clip_list rc ns g) {t \<in> set ns. visible g t} (\<lambda>t. pts g t - rect_pts rc)"
proof (rule fold_drawn [where Q = "\<lambda>_. reg_ok"])
  show "drawn g' (end_clip_window t (clip_region t rc g')) {t} (\<lambda>_. pts g' t - rect_pts rc)"
    if "reg_ok (region g' t)" for g' t
    using drawn_frame [OF clip_region_drawn [OF that assms(2)] frame_end_clip] by simp
qed (use assms in auto)

lemma clip_desktop_drawn:
  assumes "reg_ok (region g 0)" "rect_norm rc"
  shows "drawn g (clip_desktop rc g) {0} (\<lambda>_. pts g 0 - rect_pts rc)"
  using drawn_frame [OF clip_region_drawn [OF assms] frame_gcr(2)] by (simp add: clip_desktop_def)

lemma under_order: "set (under g z w) \<subseteq> set (order g)"
  by (cases z) (auto simp: under_def order_def dest: in_tl_dropWhile)

lemma distinct_under: "zwf g \<Longrightarrow> distinct (under g z w)"
proof (cases z)
  case TopZ
  assume "zwf g"
  then have "distinct (nodes g TopZ @ nodes g MainZ)" by (simp add: zwf_def order_def)
  then show ?thesis using TopZ by (auto simp: under_def distinct_tl dest: in_tl_dropWhile)
qed (simp add: under_def zwf_distinct distinct_tl)

lemma not_under_itself: "zwf g \<Longrightarrow> w \<in> set (nodes g z) \<Longrightarrow> w \<notin> set (under g z w)"
  using under_above [of g w z w z] not_above_itself by blast

lemma order_nodes: "t \<in> set (order g) \<Longrightarrow> \<exists>z. t \<in> set (nodes g z)"
  by (auto simp: order_def)

lemma clipped_reg_ok: "clipped_for V g \<Longrightarrow> t \<in> set (order g) \<Longrightarrow> V t \<Longrightarrow> reg_ok (region g t)"
  using order_nodes by (fastforce simp: clipped_for_def)

text \<open>The end of showing a window: the windows under it and the desktop are clipped by it.\<close>

definition show_tail :: "nat \<Rightarrow> rect \<Rightarrow> dsk \<Rightarrow> dsk option" where
  "show_tail w rc g =
     do {
       g \<leftarrow> (if has_exstyle g w WS_EX_TOPMOST
             then do { g \<leftarrow> clip_windows_under_this TopZ w rc g; clip_windows MainZ rc g }
             else clip_windows_under_this MainZ w rc g);
       Some (clip_desktop rc g)
     }"

lemma show_tail_eq:
  assumes "zwf g" "w \<in> set (nodes g z)"
  shows "show_tail w rc g = Some (clip_desktop rc (clip_list rc (under g z w) g))"
proof -
  have "w \<noteq> 0" "GET_WIN_ZORDER g w = z" using zwfD(3,1) assms by blast+
  then show ?thesis
    using nodes_under_list [OF assms(2)] frame_same(3) [OF frame_clip_list]
    by (cases z) (auto simp: show_tail_def clip_windows_def clip_windows_under_this_def under_def GET_WIN_ZORDER_def
        split: if_splits)
qed

lemma show_tail_drawn:
  assumes "zwf g" "w \<in> set (nodes g z)" "rect_norm rc" "clipped_for (V(w := False)) g"
    and V: "\<And>t. t \<noteq> w \<Longrightarrow> visible g t = V t"
  shows "\<exists>g'. show_tail w rc g = Some g' \<and> drawn g g' ({0} \<union> {t \<in> set (under g z w). V t}) (\<lambda>t. pts g t - rect_pts rc)"
proof -
  let ?g = "clip_list rc (under g z w) g"
  have nw: "t \<noteq> w" if "t \<in> set (under g z w)" for t using not_under_itself assms(1,2) that by blast
  have eq: "{t \<in> set (under g z w). visible g t} = {t \<in> set (under g z w). V t}" using nw V by blast
  have one: "drawn g ?g {t \<in> set (under g z w). V t} (\<lambda>t. pts g t - rect_pts rc)"
  proof -
    have reg: "\<And>t. t \<in> set (under g z w) \<Longrightarrow> visible g t \<Longrightarrow> reg_ok (region g t)"
      using clipped_reg_ok [OF assms(4)] nw V under_order [of g z w] by auto
    show ?thesis using clip_list_drawn [OF distinct_under [OF assms(1), of z w] assms(3) reg] unfolding eq by simp
  qed
  have "0 \<notin> set (under g z w)" using under_order assms(1) by (auto simp: zwf_def)
  then have zero: "region ?g 0 = region g 0" using drawnD(4) [OF one, of 0] by simp
  have "reg_ok (region g 0)" using assms(4) by (simp add: clipped_for_def)
  then have "drawn ?g (clip_desktop rc ?g) {0} (\<lambda>_. pts g 0 - rect_pts rc)"
    using clip_desktop_drawn [of ?g] assms(3) zero by simp
  from drawn_trans [OF one this] have "drawn g (clip_desktop rc ?g) ({t \<in> set (under g z w). V t} \<union> {0}) (\<lambda>t. pts g t - rect_pts rc)"
    by (rule drawn_cong) simp
  then show ?thesis by (simp add: show_tail_eq [OF assms(1,2)] Un_commute)
qed

lemma appear_tail:
  assumes "zwf g" "w \<in> set (nodes g z)" "menus g = {}" "clipped_for (V(w := False)) g"
    and V: "\<And>t. t \<noteq> w \<Longrightarrow> visible g t = V t"
    and step: "drawn g g1 {w} (\<lambda>_. on_screen g w - cover g (V(w := False)) (above g z w))"
  shows "\<exists>g'. show_tail w (dskGetWindowRectInScreen g w) g1 = Some g' \<and> frame g g' \<and> clipped_for (V(w := True)) g'"
proof -
  let ?rc = "dskGetWindowRectInScreen g w"
  note frame = frame_desk [OF drawnD(1) [OF step]] frame_same [OF drawnD(1) [OF step]]
  have w: "rect_norm ?rc" "w \<noteq> 0" "w \<notin> set (under g z w)" using zwfD(3,4) not_under_itself assms(1,2) by blast+
  have same: "region g1 t = region g t" if "t \<noteq> w" for t using drawnD(4) [OF step] that by simp
  have "clipped_for (V(w := False)) g1"
    using assms(4) same w(2) by (simp add: clipped_for_def frame)
  then obtain g' where g': "show_tail w ?rc g1 = Some g'"
    "drawn g1 g' ({0} \<union> {t \<in> set (under g z w). V t}) (\<lambda>t. pts g1 t - rect_pts ?rc)"
    using show_tail_drawn [of g1 w z ?rc V] assms(1,2) V w(1) by (auto simp: frame)
  have "drawn g g' ({w, 0} \<union> {t \<in> set (under g z w). V t})
      (\<lambda>t. if t = w then on_screen g w - cover g (V(w := False)) (above g z w) else pts g t - rect_pts ?rc)"
  proof -
    have "{w, 0} \<union> {t \<in> set (under g z w). V t} = {w} \<union> ({0} \<union> {t \<in> set (under g z w). V t})" by auto
    moreover have "drawn g g' ({w} \<union> ({0} \<union> {t \<in> set (under g z w). V t}))
      (\<lambda>t. if t = w then on_screen g w - cover g (V(w := False)) (above g z w) else pts g t - rect_pts ?rc)"
      by (rule drawn_cong [OF drawn_trans [OF step g'(2)]]) (use w same in \<open>case_tac "m = w"; auto\<close>)
    ultimately show ?thesis by simp
  qed
  then have "clipped_for (V(w := True)) g'"
    by (rule appear [OF assms(1-4)]) (use w in auto)
  moreover have "frame g g'" using frame_trans [OF drawnD(1) [OF step] drawnD(1) [OF g'(2)]] .
  ultimately show ?thesis using g'(1) by simp
qed

end
