(* ===== verification/Desktop_Ops.thy ===== *)
theory Desktop_Ops
  imports Desktop_Inv
begin

section \<open>The desktop: the operations keep the clip regions\<close>

text \<open>
  Regions that are built anew, the changes of the Z order, and for each operation of
  \<open>desktop-comm.c\<close> that it ends without an access through NULL and keeps the invariant \<open>desk_inv\<close>.
\<close>

subsection \<open>Building a region anew\<close>

abbreviation clip_above :: "zsel \<Rightarrow> nat \<Rightarrow> dsk \<Rightarrow> dsk" where
  "clip_above z t g \<equiv> (case z of
     MainZ \<Rightarrow> clip_by_all_above_this MainZ t (clip_by_windows TopZ t g) | TopZ \<Rightarrow> clip_by_all_above_this TopZ t g)"

lemma frame_clip_by [simp]: "frame g (clip_by r ns g)"
  unfolding clip_by_def by (rule fold_frame) simp

lemma clip_above_eq: "clip_above z t g = clip_by t (above g z t) g"
proof -
  have "clip_by t (xs @ ys) g = clip_by t ys (clip_by t xs g)" for xs ys by (simp add: clip_by_def)
  then show ?thesis
    using frame_same(3) [OF frame_clip_by [of g t "nodes g TopZ"]]
    by (cases z) (simp_all add: clip_by_all_above_this_def clip_by_windows_def above_def)
qed

lemma reset_placed: "placed g t \<Longrightarrow> drawn g (reset_window t (dskGetWindowRectInScreen g t) g) {t} (\<lambda>_. on_screen g t)"
  by (simp add: placed_def on_screen_def reset_window_drawn)

lemma frame_reset [simp]: "frame g (reset_window t rc g)"
  by (simp add: reset_window_def Let_def)

lemma rebuild_drawn:
  assumes "zwf g" "t \<in> set (nodes g z)"
  shows "drawn g (clip_above z t (reset_window t (dskGetWindowRectInScreen g t) g)) {t}
    (\<lambda>_. on_screen g t - covered g (above g z t))"
proof -
  let ?g = "reset_window t (dskGetWindowRectInScreen g t) g"
  have one: "drawn g ?g {t} (\<lambda>_. on_screen g t)" using reset_placed zwfD(2) assms by blast
  note frame = frame_desk(2) [OF frame_reset] frame_covered [OF frame_reset]
  have "drawn ?g (clip_by t (above ?g z t) ?g) {t} (\<lambda>_. pts ?g t - covered ?g (above ?g z t))"
    by (rule clip_by_drawn)
      (use drawnD(2) [OF one] zwf_norm [OF assms(1) above_order] in \<open>auto simp: frame\<close>)
  from drawn_again [OF one this] show ?thesis
    using drawnD(3) [OF one, of t] by (simp add: frame clip_above_eq)
qed

lemma frame_repaint [simp]: "frame g (repaint t rc g)" "gcr (repaint t rc g) = gcr g"
  by (simp_all add: repaint_def split: prod.split)

lemma recalc_window_drawn:
  assumes "zwf g" "t \<in> set (nodes g z)"
  shows "drawn g (recalc_window z t rc g) {t} (\<lambda>_. on_screen g t - covered g (above g z t))"
  using drawn_frame [OF rebuild_drawn [OF assms], of "recalc_window z t rc g"]
    frame_trans [OF frame_end_clip frame_repaint(1)]
  by (simp add: recalc_window_def Let_def)

lemma clip_menus_drawn:
  "reg_ok (region g r) \<Longrightarrow> \<forall>m \<in> set ms. rect_norm (tm_rc m) \<Longrightarrow>
    drawn g (fold (\<lambda>m. clip_region r (tm_rc m)) ms g) {r} (\<lambda>_. pts g r - (\<Union>m \<in> set ms. rect_pts (tm_rc m)))"
proof (induction ms arbitrary: g)
  case Nil
  then show ?case by (simp add: drawn_def)
next
  case (Cons m ms)
  let ?g = "clip_region r (tm_rc m) g"
  have one: "drawn g ?g {r} (\<lambda>_. pts g r - rect_pts (tm_rc m))" using clip_region_drawn Cons.prems by simp
  have "drawn ?g (fold (\<lambda>m. clip_region r (tm_rc m)) ms ?g) {r} (\<lambda>_. pts ?g r - (\<Union>m \<in> set ms. rect_pts (tm_rc m)))"
    using Cons.IH [of ?g] Cons.prems drawnD(2) [OF one, of r] by simp
  from drawn_again [OF one this] show ?case
    using drawnD(3) [OF one, of r] by (auto elim!: drawn_cong)
qed

lemma reclip_window_drawn:
  assumes "zwf g" "t \<in> set (nodes g z)"
  shows "drawn g (reclip_window z t g) {t} (\<lambda>_. on_screen g t - covered g (above g z t) - menus g)"
proof -
  let ?g = "end_clip_window t (clip_above z t (reset_window t (dskGetWindowRectInScreen g t) g))"
  have one: "drawn g ?g {t} (\<lambda>_. on_screen g t - covered g (above g z t))"
    using drawn_frame [OF rebuild_drawn [OF assms] frame_end_clip] by simp
  have ms: "mg_ptmi ?g = mg_ptmi g" using frame_same(5) [OF drawnD(1) [OF one]] .
  have "drawn ?g (fold (\<lambda>m. clip_region t (tm_rc m)) (mg_ptmi ?g) ?g) {t} (\<lambda>_. pts ?g t - menus g)"
    using clip_menus_drawn [of ?g t "mg_ptmi g"] drawnD(2) [OF one, of t] assms(1) by (simp add: ms zwf_def menus_def)
  from drawn_again [OF one this] show ?thesis
    using drawnD(3) [OF one, of t] by (simp add: reclip_window_def Let_def)
qed

lemma recalc_desktop_drawn:
  assumes "zwf g" "\<forall>m \<in> set ms. rect_norm (tm_rc m)"
  shows "drawn g (recalc_desktop ms g) {0}
    (\<lambda>_. rect_pts (g_rcScr g) - covered g (order g) - (\<Union>m \<in> set ms. rect_pts (tm_rc m)))"
proof -
  let ?g1 = "g\<lparr>gcr := snd (SetClipRgn True (gcr g) (Heap 0) (g_rcScr g))\<rparr>"
  let ?g2 = "clip_by 0 (order g) ?g1"
  have ok: "rect_ok (g_rcScr g)" using assms(1) by (simp add: zwf_def)
  then have "region ?g1 0 = \<lparr>rgn_type = SIMPLEREGION, rcBound = g_rcScr g, rects = [g_rcScr g]\<rparr>"
    "m \<noteq> 0 \<Longrightarrow> region ?g1 m = region g m" for m
    by (simp_all add: SetClipRgn_def EmptyClipRgn_def Let_def IsRectEmpty_def rect_ok_def)
  with ok have one: "drawn g ?g1 {0} (\<lambda>_. rect_pts (g_rcScr g))"
    by (simp add: drawn_def reg_ok_def rgn_ok_single rgn_pts_def)
  note frame = frame_desk(1) [OF drawnD(1) [OF one]] frame_covered [OF drawnD(1) [OF one]]
  have "drawn ?g1 ?g2 {0} (\<lambda>_. pts ?g1 0 - covered ?g1 (order g))"
    by (rule clip_by_drawn) (use drawnD(2) [OF one] zwf_norm [OF assms(1)] in \<open>auto simp: frame\<close>)
  from drawn_again [OF one this] have two: "drawn g ?g2 {0} (\<lambda>_. rect_pts (g_rcScr g) - covered g (order g))"
    using drawnD(3) [OF one, of 0] by (simp add: frame)
  let ?g3 = "fold (\<lambda>m. clip_region 0 (tm_rc m)) ms ?g2"
  have "drawn ?g2 ?g3 {0} (\<lambda>_. pts ?g2 0 - (\<Union>m \<in> set ms. rect_pts (tm_rc m)))"
    by (rule clip_menus_drawn) (use drawnD(2) [OF two] assms(2) in auto)
  from drawn_again [OF two this] have three: "drawn g ?g3 {0}
      (\<lambda>_. rect_pts (g_rcScr g) - covered g (order g) - (\<Union>m \<in> set ms. rect_pts (tm_rc m)))"
    using drawnD(3) [OF two, of 0] by simp
  have nodes: "nodes ?g1 z = nodes g z" "nodes (clip_by 0 ns ?g1) z = nodes g z" for z ns
    using frame_same(3) [OF drawnD(1) [OF one]] frame_same(3) [OF frame_clip_by] by simp_all
  have "clip_by 0 (nodes g MainZ) (clip_by 0 (nodes g TopZ) ?g1) = ?g2" by (simp add: clip_by_def order_def)
  then have "recalc_desktop ms g = ?g3\<lparr>scr_age := scr_age ?g3 + 1\<rparr>"
    by (simp add: recalc_desktop_def Let_def nodes)
  then show ?thesis using drawn_frame [OF three frame_gcr(2)] by simp
qed

subsection \<open>What the Z order and the styles change\<close>

definition same_geo :: "dsk \<Rightarrow> dsk \<Rightarrow> bool" where
  "same_geo g g' \<longleftrightarrow> (\<forall>t. wrc (dwins g' t) = wrc (dwins g t) \<and> crc (dwins g' t) = crc (dwins g t)
       \<and> pParents (dwins g' t) = pParents (dwins g t))
     \<and> g_rcScr g' = g_rcScr g \<and> mg_ptmi g' = mg_ptmi g"

lemma frame_geo: "frame g g' \<Longrightarrow> same_geo g g'"
  using frame_window [of g g'] frame_same(4,5) by (auto simp: same_geo_def)

lemma geo_trans: "same_geo g g' \<Longrightarrow> same_geo g' g'' \<Longrightarrow> same_geo g g''"
  by (simp add: same_geo_def)

lemma geo_window: "same_geo g g' \<Longrightarrow> dskGetWindowRectInScreen g' t = dskGetWindowRectInScreen g t"
  by (simp add: same_geo_def dskGetWindowRectInScreen_def)

lemma geo_desk:
  assumes "same_geo g g'"
  shows "on_screen g' t = on_screen g t" "cover g' V ns = cover g V ns" "placed g' t = placed g t" "menus g' = menus g"
    "g_rcScr g' = g_rcScr g" "mg_ptmi g' = mg_ptmi g"
  using assms geo_window [OF assms]
  by (simp_all add: on_screen_def cover_def placed_def menus_def) (simp_all add: same_geo_def)

lemma geo_upd [simp]:
  "same_geo g (upd_zorder z f g)" "same_geo g (emit es g)" "same_geo g (set_visible w g)" "same_geo g (set_hidden w g)"
  by (auto simp: same_geo_def upd_zorder_def emit_def set_visible_def set_hidden_def upd_win_def split: zsel.split)

lemma nodes_upd [simp]:
  "nodes (upd_zorder z f g) z' = (if z' = z then z_nodes (f (case z of TopZ \<Rightarrow> sg_TopMostWinZOrder g | MainZ \<Rightarrow> sg_MainWinZOrder g))
     else nodes g z')"
  "nodes (emit es g) z' = nodes g z'" "nodes (upd_win w h g) z' = nodes g z'"
  by (auto simp: nodes_def upd_zorder_def emit_def upd_win_def split: zsel.splits)

lemma styles_upd [simp]:
  "has_style (upd_zorder z f g) = has_style g" "has_exstyle (upd_zorder z f g) = has_exstyle g"
  "has_style (emit es g) = has_style g" "has_exstyle (emit es g) = has_exstyle g"
  by (auto simp: fun_eq_iff has_style_def has_exstyle_def upd_zorder_def emit_def split: zsel.split)

lemma set_visible_style [simp]:
  "visible (set_visible w g) = (visible g)(w := True)" "visible (set_hidden w g) = (visible g)(w := False)"
  "has_exstyle (set_visible w g) = has_exstyle g" "has_exstyle (set_hidden w g) = has_exstyle g"
proof -
  have "(a OR WS_VISIBLE) AND WS_VISIBLE = WS_VISIBLE" "(a AND NOT WS_VISIBLE) AND WS_VISIBLE = 0" for a
    by (auto intro!: bit_word_eqI simp: bit_simps)
  then show "visible (set_visible w g) = (visible g)(w := True)" "visible (set_hidden w g) = (visible g)(w := False)"
    by (auto simp: fun_eq_iff has_style_def set_visible_def set_hidden_def upd_win_def WS_VISIBLE_def)
qed (auto simp: fun_eq_iff has_exstyle_def set_visible_def set_hidden_def upd_win_def)

lemma set_visible_at:
  "visible (set_visible w g) t = ((visible g)(w := True)) t" "visible (set_hidden w g) t = ((visible g)(w := False)) t"
  using set_visible_style(1,2) [of w g] by (metis (no_types, lifting))+

lemma zorder_upd [simp]:
  "GET_WIN_ZORDER (upd_zorder z f g) = GET_WIN_ZORDER g" "GET_WIN_ZORDER (emit es g) = GET_WIN_ZORDER g"
  "GET_WIN_ZORDER (set_visible w g) = GET_WIN_ZORDER g" "GET_WIN_ZORDER (set_hidden w g) = GET_WIN_ZORDER g"
  by (simp_all add: fun_eq_iff GET_WIN_ZORDER_def)

lemma set_visible_same [simp]:
  "nodes (set_visible w g) z = nodes g z" "nodes (set_hidden w g) z = nodes g z"
  "gcr (set_visible w g) = gcr g" "gcr (set_hidden w g) = gcr g"
  by (simp_all add: set_visible_def set_hidden_def)

lemma zwf_cong:
  assumes "same_geo g g'" "\<And>z. nodes g' z = nodes g z" "\<And>t. GET_WIN_ZORDER g' t = GET_WIN_ZORDER g t"
  shows "zwf g' = zwf g" "order g' = order g" "above g' z t = above g z t" "under g' z t = under g z t"
  using geo_desk [OF assms(1)] assms(2,3) by (auto simp: zwf_def order_def above_def under_def split: zsel.split)

lemma clipped_for_cong:
  assumes "same_geo g g'" "\<And>z. nodes g' z = nodes g z" "\<And>t. V t \<or> t = 0 \<Longrightarrow> region g' t = region g t"
  shows "clipped_for V g' = clipped_for V g"
proof -
  have "order g' = order g" "above g' z t = above g z t" for z t
    using assms(2) by (auto simp: order_def above_def split: zsel.split)
  then show ?thesis using geo_desk [OF assms(1)] assms(2,3) by (simp add: clipped_for_def)
qed

lemma takeWhile_filter: "t \<noteq> w \<Longrightarrow> filter (\<lambda>h. h \<noteq> w) (takeWhile (\<lambda>h. h \<noteq> t) xs) = takeWhile (\<lambda>h. h \<noteq> t) (filter (\<lambda>h. h \<noteq> w) xs)"
  by (induction xs) auto

lemma clipped_for_reorder:
  assumes "same_geo g g'" "\<not> V w" "w \<noteq> 0" "\<And>z. filter (\<lambda>h. h \<noteq> w) (nodes g' z) = filter (\<lambda>h. h \<noteq> w) (nodes g z)"
    and "\<And>t. t \<noteq> w \<Longrightarrow> region g' t = region g t"
  shows "clipped_for V g' = clipped_for V g"
proof -
  have cover: "cover g V ms = cover g V ns" if "filter (\<lambda>h. h \<noteq> w) ms = filter (\<lambda>h. h \<noteq> w) ns" for ms ns
  proof -
    have "cover g V xs = cover g V (filter (\<lambda>h. h \<noteq> w) xs)" for xs using assms(2) by (auto simp: cover_def)
    then show ?thesis using that by metis
  qed
  have nw: "V t \<Longrightarrow> t \<noteq> w" for t using assms(2) by blast
  have "V t \<Longrightarrow> cover g V (above g' z t) = cover g V (above g z t)" for z t
    using takeWhile_filter [OF nw] assms(4) by (intro cover) (simp add: above_def split: zsel.split)
  moreover have "cover g V (order g') = cover g V (order g)" using assms(4) by (intro cover) (simp add: order_def)
  moreover have "V t \<Longrightarrow> t \<in> set (nodes g' z) \<longleftrightarrow> t \<in> set (nodes g z)" for t z
    using arg_cong [OF assms(4) [of z], of set] nw by auto
  moreover have "V t \<Longrightarrow> region g' t = region g t" for t using nw assms(5) by blast
  moreover have "clipped_for V h \<longleftrightarrow> (\<forall>z t. V t \<longrightarrow> t \<in> set (nodes h z) \<longrightarrow>
        reg_ok (region h t) \<and> pts h t = on_screen h t - cover h V (above h z t) - menus h)
     \<and> reg_ok (region h 0) \<and> pts h 0 = rect_pts (g_rcScr h) - cover h V (order h) - menus h" for h
    by (auto simp: clipped_for_def)
  ultimately show ?thesis
    using geo_desk [OF assms(1)] assms(3,5) by (simp cong: imp_cong)
qed

end
