(* ===== verification/Desktop_Keep.thy ===== *)
theory Desktop_Keep
  imports Desktop_Ops
begin

section \<open>The desktop: showing, hiding and raising windows\<close>

text \<open>
  Each operation of \<open>desktop-comm.c\<close> that changes what is visible ends without an access through NULL,
  and keeps the invariant \<open>desk_inv\<close> of the Z order and the clip regions.
\<close>

definition desk_inv :: "dsk \<Rightarrow> bool" where
  "desk_inv g \<longleftrightarrow> zwf g \<and> clipped g"

text \<open>The result of an operation on the state: it is there, the invariant holds and the fields it must not touch are as before.\<close>

definition same_desk :: "dsk \<Rightarrow> dsk \<Rightarrow> bool" where
  "same_desk g g' \<longleftrightarrow> same_geo g g' \<and> nodes g' = nodes g \<and> has_exstyle g' = has_exstyle g"

lemma same_deskD:
  assumes "same_desk g g'"
  shows "same_geo g g'" "nodes g' z = nodes g z" "has_exstyle g' t s = has_exstyle g t s" "menus g' = menus g"
    "GET_WIN_ZORDER g' t = GET_WIN_ZORDER g t"
  using assms geo_desk(4) by (auto simp: same_desk_def GET_WIN_ZORDER_def)

lemma same_desk_trans: "same_desk g g' \<Longrightarrow> same_desk g' g'' \<Longrightarrow> same_desk g g''"
  by (auto simp: same_desk_def intro: geo_trans)

lemma frame_same_desk: "frame g g' \<Longrightarrow> same_desk g g'"
  by (simp add: same_desk_def frame_geo fun_eq_iff frame_same)

lemma same_desk_upd [simp]:
  "same_desk g g" "same_desk g (emit es g)" "same_desk g (set_visible w g)" "same_desk g (set_hidden w g)"
  by (auto simp: same_desk_def fun_eq_iff) (simp add: same_geo_def)

definition keeps :: "dsk \<Rightarrow> dsk option \<Rightarrow> bool" where
  "keeps g r \<longleftrightarrow> (\<exists>g'. r = Some g' \<and> desk_inv g' \<and> same_desk g g')"

lemma keepsI: "r = Some g' \<Longrightarrow> desk_inv g' \<Longrightarrow> same_desk g g' \<Longrightarrow> keeps g r"
  by (auto simp: keeps_def)

lemma desk_inv_cong:
  assumes "desk_inv g" "frame g g'" "gcr g' = gcr g"
  shows "desk_inv g'"
  using assms frame_clipped [OF assms(2,3)] frame_desk(6) [OF assms(2)] frame_visible [OF assms(2)]
  by (simp add: desk_inv_def clipped_def)

subsection \<open>Activation touches no region\<close>

lemma frame_activate [simp]: "frame g (DesktopSetActiveWindow w g)" "gcr (DesktopSetActiveWindow w g) = gcr g"
  by (auto simp: DesktopSetActiveWindow_def emit_def frame_def)

lemma frame_emitted: "frame g h \<Longrightarrow> frame g (emit es h)"
  using frame_trans by simp

lemma frame_change_active [simp]:
  "frame g (snd (dskChangActiveWindow w g))" "gcr (snd (dskChangActiveWindow w g)) = gcr g"
  by (auto simp: dskChangActiveWindow_def Let_def intro!: frame_emitted)

subsection \<open>Showing\<close>

lemma frame_trans_end: "frame g h \<Longrightarrow> frame g (end_clip_window w h)"
  using frame_trans by simp

lemma GET_WIN_ZORDER_cases: "has_exstyle g w WS_EX_TOPMOST \<longleftrightarrow> GET_WIN_ZORDER g w = TopZ"
  by (simp add: GET_WIN_ZORDER_def)

lemma frame_rebuild: "frame g (clip_above z t (reset_window t rc g))"
  unfolding clip_above_eq using frame_trans [OF frame_reset frame_clip_by] .

lemma show_by_tail:
  "dskUpdateGCRInfoOnShowMainWin w g = show_tail w (dskGetWindowRectInScreen g w)
     (end_clip_window w (clip_above (GET_WIN_ZORDER g w) w (reset_window w (dskGetWindowRectInScreen g w) g)))"
proof -
  have "frame g (end_clip_window w (clip_above z w (reset_window w rc g)))" for z rc
    using frame_trans_end [OF frame_rebuild] .
  from frame_same(2) [OF this [where z = TopZ]] frame_same(2) [OF this [where z = MainZ]] show ?thesis
    using frame_same(2) [OF frame_reset [where g = g and t = w]] by (cases "GET_WIN_ZORDER g w")
      (simp_all add: dskUpdateGCRInfoOnShowMainWin_def show_tail_def Let_def GET_WIN_ZORDER_cases [of g])
qed

lemma show_keeps:
  assumes "desk_inv g" "menus g = {}" "w \<in> set (nodes g z)" "\<not> visible g w"
  shows "\<exists>g'. dskUpdateGCRInfoOnShowMainWin w g = Some g' \<and> frame g g' \<and> clipped_for ((visible g)(w := True)) g'"
proof -
  have z: "zwf g" "clipped_for (visible g) g" using assms(1) by (simp_all add: desk_inv_def clipped_def)
  have V: "(visible g)(w := False) = visible g" using assms(4) by (simp add: fun_upd_idem)
  note step = drawn_frame [OF rebuild_drawn [OF z(1) assms(3)] frame_end_clip gcr_emit(2)]
  show ?thesis
    using appear_tail [OF z(1) assms(3,2), of "visible g"] step z(2)
    by (simp add: V show_by_tail zwfD(1) [OF z(1) assms(3)] covered_cover)
qed

lemma visible_inv:
  assumes "zwf g" "frame g g'" "clipped_for ((visible g)(w := True)) g'"
  shows "desk_inv (set_visible w g')"
proof -
  have "zwf (set_visible w g')" using zwf_cong(1) [of g' "set_visible w g'"] frame_desk(6) [OF assms(2)] assms(1) by simp
  moreover have "visible (set_visible w g') = (visible g)(w := True)" using frame_visible [OF assms(2)] by simp
  ultimately show ?thesis
    using assms(3) clipped_for_cong [of g' "set_visible w g'" "(visible g)(w := True)"]
    by (simp add: desk_inv_def clipped_def)
qed

lemma dskShowMainWindow_keeps:
  assumes "desk_inv g" "menus g = {}" "w \<in> set (nodes g z)"
  shows "keeps g (map_option snd (dskShowMainWindow w act g))"
proof (cases "visible g w")
  case True
  then show ?thesis using assms(1) by (simp add: dskShowMainWindow_def keeps_def)
next
  case False
  then obtain g' where g': "dskUpdateGCRInfoOnShowMainWin w g = Some g'" "frame g g'"
    "clipped_for ((visible g)(w := True)) g'" using show_keeps [OF assms] by blast
  let ?g = "emit [NcPaint w None, Invalidate w None] (set_visible w g')"
  have inv: "desk_inv ?g" using desk_inv_cong [OF visible_inv [OF _ g'(2,3)] frame_emit] assms(1) by (simp add: desk_inv_def)
  have geo: "same_desk g ?g" using same_desk_trans [OF frame_same_desk [OF g'(2)]] same_desk_trans same_desk_upd by blast
  have act: "desk_inv (snd (dskChangActiveWindow w ?g))" "same_desk g (snd (dskChangActiveWindow w ?g))"
    using desk_inv_cong [OF inv] same_desk_trans [OF geo frame_same_desk] by simp_all
  have "\<exists>r. dskShowMainWindow w act g = Some r \<and> snd r \<in> {?g, snd (dskChangActiveWindow w ?g)}"
    using False g'(1) by (auto simp: dskShowMainWindow_def Let_def)
  then show ?thesis using act inv geo by (auto simp: keeps_def)
qed

subsection \<open>A window at the head of its Z order\<close>

lemma show_new_by_tail:
  "dskUpdateGCRInfoOnShowNewMainWin w g = show_tail w (dskGetWindowRectInScreen g w)
     (case GET_WIN_ZORDER g w of TopZ \<Rightarrow> g | MainZ \<Rightarrow> end_clip_window w (clip_by w (nodes g TopZ) g))"
  using frame_same(2) [OF frame_trans_end [OF frame_clip_by]]
  by (cases "GET_WIN_ZORDER g w")
    (simp_all add: dskUpdateGCRInfoOnShowNewMainWin_def show_tail_def Let_def GET_WIN_ZORDER_cases [of g] clip_by_windows_def)

lemma show_new_keeps:
  assumes z: "zwf g" "menus g = {}" "nodes g z = w # rest"
    and V: "clipped_for ((visible g)(w := False)) g"
    and new: "reg_ok (region g w)" "pts g w = on_screen g w - X" "X \<subseteq> covered g (case z of TopZ \<Rightarrow> [] | MainZ \<Rightarrow> nodes g TopZ)"
  shows "\<exists>g'. dskUpdateGCRInfoOnShowNewMainWin w g = Some g' \<and> frame g g' \<and> clipped_for ((visible g)(w := True)) g'"
proof -
  let ?g = "case z of TopZ \<Rightarrow> g | MainZ \<Rightarrow> end_clip_window w (clip_by w (nodes g TopZ) g)"
  have w: "w \<in> set (nodes g z)" using z(3) by simp
  have above: "above g z w = (case z of TopZ \<Rightarrow> [] | MainZ \<Rightarrow> nodes g TopZ)" using z(3) by (auto simp: above_def split: zsel.split)
  have cov: "cover g ((visible g)(w := False)) (above g z w) = covered g (above g z w)"
    using not_above_itself [OF z(1) w] by (auto simp: cover_def covered_def)
  have "drawn g ?g {w} (\<lambda>_. pts g w - covered g (above g z w))"
  proof (cases z)
    case TopZ
    then show ?thesis using new(1) above by (simp add: drawn_def)
  next
    case MainZ
    have "all_norm g (nodes g TopZ)" using zwf_norm [OF z(1), of "nodes g TopZ"] by (simp add: order_def)
    then show ?thesis
      using drawn_frame [OF clip_by_drawn [OF new(1)] frame_end_clip gcr_emit(2)] MainZ above by simp
  qed
  moreover have "pts g w - covered g (above g z w) = on_screen g w - covered g (above g z w)" using new(2,3) by (auto simp: above)
  ultimately show ?thesis
    using appear_tail [OF z(1) w z(2), of "visible g" ?g] V
    by (simp add: cov show_new_by_tail zwfD(1) [OF z(1) w])
qed

subsection \<open>Hiding\<close>

lemma frame_recalc_window [simp]: "frame g (recalc_window z t rc g)"
  using frame_trans [OF frame_trans_end [OF frame_rebuild] frame_repaint(1)] by (simp add: recalc_window_def Let_def)

definition its_zorder :: "dsk \<Rightarrow> nat \<Rightarrow> zsel" where
  "its_zorder g t = (if t \<in> set (nodes g TopZ) then TopZ else MainZ)"

lemma its_zorder: "zwf g \<Longrightarrow> t \<in> set (nodes g z) \<Longrightarrow> its_zorder g t = z"
  using other_order [of g t z TopZ] by (cases z) (auto simp: its_zorder_def)

abbreviation recalc_list :: "dsk \<Rightarrow> rect \<Rightarrow> nat list \<Rightarrow> dsk \<Rightarrow> dsk" where
  "recalc_list g0 rc ns g \<equiv> fold (\<lambda>t g. if visible g t then recalc_window (its_zorder g0 t) t rc g else g) ns g"

lemma frame_recalc_list [simp]: "frame g (recalc_list g0 rc ns g)"
  by (rule fold_frame) simp

lemma recalc_list_zorder:
  assumes "zwf g" "set ns \<subseteq> set (nodes g z)"
  shows "fold (\<lambda>t g. if visible g t then recalc_window z t rc g else g) ns h = recalc_list g rc ns h"
  by (rule fold_cong) (use assms its_zorder in auto)

lemma recalc_list_drawn:
  assumes "zwf g" "distinct ns" "set ns \<subseteq> set (order g)"
  shows "drawn g (recalc_list g rc ns g) {t \<in> set ns. visible g t}
    (\<lambda>t. on_screen g t - covered g (above g (its_zorder g t) t))"
proof (rule fold_drawn [where Q = "\<lambda>_ _. True" and F = "\<lambda>t _. on_screen g t - covered g (above g (its_zorder g t) t)"])
  fix g' t assume g': "frame g g'" and t: "t \<in> set ns"
  then obtain z where z: "t \<in> set (nodes g z)" using assms(3) order_nodes by blast
  then have "t \<in> set (nodes g' z)" "zwf g'" "its_zorder g t = z"
    using frame_same(3) [OF g'] frame_desk(6) [OF g'] its_zorder [OF assms(1)] assms(1) by simp_all
  then show "drawn g' (recalc_window (its_zorder g t) t rc g') {t} (\<lambda>_. on_screen g t - covered g (above g (its_zorder g t) t))"
    using recalc_window_drawn [of g' t z rc] frame_desk(2,8) [OF g'] frame_covered(1) [OF g'] by simp
qed (use assms in auto)

text \<open>The windows under the window that is gone, in both Z orders, and then the desktop.\<close>

definition hide_tail :: "nat \<Rightarrow> rect \<Rightarrow> dsk \<Rightarrow> dsk option" where
  "hide_tail w rc g =
     do {
       g \<leftarrow> (if has_exstyle g w WS_EX_TOPMOST
             then do { g \<leftarrow> recalc_windows_under_this TopZ w rc g; Some (recalc_windows MainZ rc g) }
             else recalc_windows_under_this MainZ w rc g);
       Some (recalc_desktop [] g)
     }"

lemma recalc_under_eq:
  assumes "zwf g" "w \<in> set (nodes g z)"
  shows "recalc_windows_under_this z w rc g = Some (recalc_list g rc (tl (dropWhile (\<lambda>h. h \<noteq> w) (nodes g z))) g)"
  using recalc_list_zorder [OF assms(1), of "tl (dropWhile (\<lambda>h. h \<noteq> w) (nodes g z))" z] in_tl_dropWhile
  by (fastforce simp: recalc_windows_under_this_def nodes_under_list [OF assms(2)])

lemma hide_tail_eq:
  assumes "zwf g" "w \<in> set (nodes g z)"
  shows "hide_tail w rc g = Some (recalc_desktop [] (recalc_list g rc (under g z w) g))"
proof (cases z)
  case MainZ
  then show ?thesis
    using recalc_under_eq [OF assms] zwfD(1) [OF assms]
    by (simp add: hide_tail_def under_def GET_WIN_ZORDER_cases)
next
  case TopZ
  let ?g = "recalc_list g rc (tl (dropWhile (\<lambda>h. h \<noteq> w) (nodes g z))) g"
  have "recalc_windows MainZ rc ?g = recalc_list g rc (nodes g MainZ) ?g"
    using recalc_list_zorder [OF assms(1), of "nodes g MainZ" MainZ] frame_same(3) [OF frame_recalc_list]
    by (simp add: recalc_windows_def)
  then show ?thesis
    using TopZ recalc_under_eq [OF assms] zwfD(1) [OF assms]
    by (simp add: hide_tail_def under_def GET_WIN_ZORDER_cases)
qed

lemma hide_by_tail:
  "dskUpdateGCRInfoOnHideMainWin w g =
     (let g1 = set_hidden w (if visible g w then emit [NcActivate w False, Active w False, KillFocus w 0] g else g);
          rc = dskGetWindowRectInScreen g1 w
      in map_option (\<lambda>g. emit [EraseDesktop (snd (IntersectRect rc (g_rcScr (end_clip_window w g))))] (end_clip_window w g))
           (hide_tail w rc g1))"
  by (simp add: dskUpdateGCRInfoOnHideMainWin_def hide_tail_def Let_def map_conv_bind_option)

lemma hidden_inv:
  assumes "desk_inv g" "menus g = {}" "w \<in> set (nodes g z)" "visible g w"
  shows "\<exists>g'. hide_tail w rc (set_hidden w g) = Some g' \<and> desk_inv g' \<and> frame (set_hidden w g) g'"
proof -
  let ?g1 = "set_hidden w g" and ?V = "(visible g)(w := False)"
  let ?g2 = "recalc_list ?g1 rc (under ?g1 z w) ?g1"
  let ?g3 = "recalc_desktop [] ?g2"
  have z: "zwf ?g1" "w \<in> set (nodes ?g1 z)" "menus ?g1 = {}"
    using zwf_cong(1) [of g ?g1] geo_desk(4) [of g ?g1] assms(1,2,3) by (simp_all add: desk_inv_def)
  have V: "clipped_for (visible g) ?g1"
    using clipped_for_cong [of g ?g1] assms(1) by (simp add: desk_inv_def clipped_def)
  have two: "drawn ?g1 ?g2 {t \<in> set (under ?g1 z w). ?V t} (\<lambda>t. on_screen ?g1 t - cover ?g1 ?V (above ?g1 (its_zorder ?g1 t) t))"
    using recalc_list_drawn [OF z(1) distinct_under [OF z(1), of z w] under_order, of rc] by (simp only: covered_cover set_visible_at)
  note f2 = drawnD(1) [OF two]
  have three: "drawn ?g2 ?g3 {0} (\<lambda>_. rect_pts (g_rcScr ?g1) - cover ?g1 ?V (order ?g1))"
    using recalc_desktop_drawn [of ?g2 "[]"] frame_desk [OF f2] frame_same(4) [OF f2] frame_visible [OF f2] z(1)
    by (simp add: covered_cover)
  have sets: "{t \<in> set (under ?g1 z w). ?V t} = {t \<in> set (under ?g1 z w). visible g t}"
    using not_under_itself [OF z(1,2)] by auto
  have zero: "0 \<notin> set (under ?g1 z w)" using under_order z(1) by (auto simp: zwf_def)
  have "drawn ?g1 ?g3 ({0} \<union> {t \<in> set (under ?g1 z w). visible g t})
      (\<lambda>t. if t = 0 then rect_pts (g_rcScr ?g1) - cover ?g1 ?V (order ?g1)
           else on_screen ?g1 t - cover ?g1 ?V (above ?g1 (its_zorder ?g1 t) t))"
    using drawn_trans [OF two three] unfolding sets by (simp add: Un_commute)
  then have "clipped_for ?V ?g3"
    by (rule disappear [OF z(1,2,3) assms(4) V]) (use zero its_zorder [OF z(1)] in auto)
  moreover have f3: "frame ?g1 ?g3" using frame_trans [OF f2 drawnD(1) [OF three]] .
  ultimately have "desk_inv ?g3"
    using frame_desk(6) [OF f3] frame_visible [OF f3] z(1) by (simp add: desk_inv_def clipped_def)
  then show ?thesis using f3 hide_tail_eq [OF z(1,2)] by blast
qed

lemma hide_keeps:
  assumes "desk_inv g" "menus g = {}" "w \<in> set (nodes g z)" "visible g w"
  shows "\<exists>g'. dskUpdateGCRInfoOnHideMainWin w g = Some g' \<and> desk_inv g' \<and> frame (set_hidden w g) g'"
proof -
  let ?es = "[NcActivate w False, Active w False, KillFocus w 0]"
  have comm: "set_hidden w (emit ?es g) = emit ?es (set_hidden w g)"
    by (simp add: set_hidden_def upd_win_def emit_def)
  have g: "desk_inv (emit ?es g)" "menus (emit ?es g) = {}"
    using desk_inv_cong [OF assms(1) frame_emit] frame_desk(4) [OF frame_emit] assms(2) by simp_all
  obtain g' where g': "hide_tail w (dskGetWindowRectInScreen (emit ?es (set_hidden w g)) w) (set_hidden w (emit ?es g)) = Some g'"
    "desk_inv g'" "frame (set_hidden w (emit ?es g)) g'"
    using hidden_inv [OF g, of w z] assms(3,4) by auto
  have "desk_inv (emit es (end_clip_window w g'))" for es
    using desk_inv_cong [OF g'(2) frame_emitted [OF frame_end_clip]] by simp
  moreover have "frame (set_hidden w g) (emit es (end_clip_window w g'))" for es
    using frame_emitted [OF frame_trans_end [OF frame_trans [OF frame_emit g'(3) [unfolded comm]]]] .
  ultimately show ?thesis using g'(1) assms(4) by (simp add: hide_by_tail Let_def comm)
qed

lemma dskHideMainWindow_keeps:
  assumes "desk_inv g" "menus g = {}" "w \<in> set (nodes g z)"
  shows "keeps g (map_option snd (dskHideMainWindow w g))"
proof (cases "visible g w")
  case True
  then obtain g' where g': "dskUpdateGCRInfoOnHideMainWin w g = Some g'" "desk_inv g'" "frame (set_hidden w g) g'"
    using hide_keeps [OF assms] by blast
  let ?g = "if mg_active g' = w then snd (dskChangActiveWindow (dskGetFirstActivableWindow g') g') else g'"
  have f: "frame g' ?g" "gcr ?g = gcr g'" by simp_all
  have "same_desk g ?g"
    using same_desk_trans [OF same_desk_upd(4) frame_same_desk [OF frame_trans [OF g'(3) f(1)]]] .
  then show ?thesis
    using True g'(1) desk_inv_cong [OF g'(2) f] by (simp add: dskHideMainWindow_def keeps_def Let_def split: if_splits)
qed (use assms(1) in \<open>simp add: dskHideMainWindow_def keeps_def\<close>)

end
