(* ===== verification/Desktop_Order.thy ===== *)
theory Desktop_Order
  imports Desktop_Keep
begin

section \<open>The desktop: operations that change the Z order\<close>

text \<open>
  New windows enter at the top of their Z order, a removed window leaves it, and a window is moved to its top:
  each ends without an access through NULL and keeps \<open>desk_inv\<close>.
\<close>

subsection \<open>Invariants of a changed Z order\<close>

lemma zwfI:
  assumes "\<And>z. distinct (nodes g z)"
    and "\<And>z w. w \<in> set (nodes g z) \<Longrightarrow> GET_WIN_ZORDER g w = z \<and> placed g w \<and> w \<noteq> 0"
    and "rect_ok (g_rcScr g)" "\<forall>m \<in> set (mg_ptmi g). rect_norm (tm_rc m)"
  shows "zwf g"
proof -
  have "w \<notin> set (nodes g MainZ)" if "w \<in> set (nodes g TopZ)" for w using assms(2) [of w TopZ] assms(2) [of w MainZ] that by auto
  then have "set (nodes g TopZ) \<inter> set (nodes g MainZ) = {}" by blast
  moreover have "0 \<notin> set (order g)" using assms(2) by (auto simp: order_def)
  ultimately show ?thesis using assms by (simp add: zwf_def order_def)
qed

lemma zwf_menus: "zwf g \<Longrightarrow> rect_ok (g_rcScr g) \<and> (\<forall>m \<in> set (mg_ptmi g). rect_norm (tm_rc m))"
  by (simp add: zwf_def)

lemma zwf_subset:
  assumes "zwf g" "same_geo g g'" "\<And>t. GET_WIN_ZORDER g' t = GET_WIN_ZORDER g t"
    and "\<And>z. distinct (nodes g' z)" "\<And>z. set (nodes g' z) \<subseteq> set (nodes g z)"
  shows "zwf g'"
proof (rule zwfI)
  show "GET_WIN_ZORDER g' w = z \<and> placed g' w \<and> w \<noteq> 0" if "w \<in> set (nodes g' z)" for z w
    using zwfD [OF assms(1), of w z] assms(3,5) geo_desk(3) [OF assms(2)] that by auto
qed (use assms(4) zwf_menus [OF assms(1)] geo_desk(5,6) [OF assms(2)] in auto)

lemma nodes_upd_by:
  assumes "\<And>i. z_nodes (f i) = F (z_nodes i)"
  shows "nodes (upd_zorder k f g) z = (if z = k then F (nodes g k) else nodes g z)"
  using assms by (cases k; cases z) (simp_all add: nodes_def upd_zorder_def)

lemma filter_remove1: "filter (\<lambda>h. h \<noteq> w) (remove1 w xs) = filter (\<lambda>h. h \<noteq> w) xs"
  by (induction xs) auto

subsection \<open>Removing a window\<close>

lemma remove_window_inv:
  assumes "desk_inv g" "w \<in> set (nodes g z)" "\<not> visible g w"
  shows "\<exists>g'. remove_window w g = Some g' \<and> desk_inv g' \<and> (\<forall>z'. nodes g' z' = remove1 w (nodes g z'))"
proof -
  have z: "zwf g" "GET_WIN_ZORDER g w = z" using assms(1,2) zwfD(1) by (auto simp: desk_inv_def)
  let ?g = "upd_zorder z (\<lambda>i. i\<lparr>z_nodes := remove1 w (z_nodes i), nNumber := nNumber i - 1\<rparr>) g"
  have nodes: "nodes ?g z' = (if z' = z then remove1 w (nodes g z) else nodes g z')" for z'
    by (rule nodes_upd_by) simp
  have "zwf ?g"
    by (rule zwf_subset [OF z(1)]) (use zwf_distinct [OF z(1)] set_remove1_subset in \<open>auto simp: nodes simp del: nodes_upd split: if_splits\<close>)
  moreover have "clipped_for (visible g) ?g = clipped_for (visible g) g"
    by (rule clipped_for_reorder [where w = w]) (use assms zwfD(3) [OF z(1)] in \<open>auto simp: nodes filter_remove1 simp del: nodes_upd\<close>)
  ultimately have "desk_inv ?g" using assms(1) by (simp add: desk_inv_def clipped_def)
  moreover have "nodes ?g z' = remove1 w (nodes g z')" for z'
    using nodes [of z'] other_order [OF z(1) assms(2), of z'] by (cases "z' = z") (simp_all add: remove1_idem)
  ultimately show ?thesis using z(2) assms(2) by (auto simp: remove_window_def simp del: nodes_upd)
qed

lemma frame_hosted [simp]: "frame g (upd_win w (\<lambda>x. x\<lparr>hosted := f x\<rparr>) g)"
  by (simp add: frame_def upd_win_def wstatic_def)

lemma dskRemoveMainWindow_inv:
  assumes "desk_inv g" "menus g = {}" "w \<in> set (nodes g z)"
  shows "\<exists>a g'. dskRemoveMainWindow w g = Some (a, g') \<and> desk_inv g' \<and> (\<forall>z'. nodes g' z' = remove1 w (nodes g z'))"
proof -
  let ?g = "if pHosting (dwins g w) \<noteq> 0 then dskRemoveHostedMainWindow (pHosting (dwins g w)) w g else g"
  have f: "frame g ?g" "gcr ?g = gcr g" by (simp_all add: dskRemoveHostedMainWindow_def)
  have g: "desk_inv ?g" "menus ?g = {}" "w \<in> set (nodes ?g z)"
    using desk_inv_cong [OF assms(1) f] frame_desk(4) [OF f(1)] frame_same(3) [OF f(1)] assms(2,3) by simp_all
  show ?thesis
  proof (cases "visible ?g w")
    case False
    then show ?thesis
      using remove_window_inv [OF g(1,3)] frame_same(3) [OF f(1)] by (auto simp: dskRemoveMainWindow_def Let_def)
  next
    case True
    then obtain h where h: "dskUpdateGCRInfoOnHideMainWin w ?g = Some h" "desk_inv h" "frame (set_hidden w ?g) h"
      using hide_keeps [OF g] by blast
    let ?h = "if mg_active h = w then snd (dskChangActiveWindow (dskGetFirstActivableWindow h) h) else h"
    let ?k = "if mg_active ?h = w then ?h\<lparr>mg_active := 0\<rparr> else ?h"
    have k: "frame h ?k" "gcr ?k = gcr h" using frame_trans [OF frame_change_active(1) frame_gcr(3)] by auto
    have "desk_inv ?k" using desk_inv_cong [OF h(2) k] .
    moreover have n: "nodes ?k z' = nodes g z'" for z'
      using frame_same(3) [OF frame_trans [OF h(3) k(1)]] frame_same(3) [OF f(1)] by simp
    moreover have "\<not> visible ?k w" using frame_same(1) [OF frame_trans [OF h(3) k(1)]] by (simp add: set_visible_at)
    ultimately obtain r where "remove_window w ?k = Some r" "desk_inv r" "\<forall>z'. nodes r z' = remove1 w (nodes g z')"
      using remove_window_inv assms(3) by (metis (no_types, lifting))
    then show ?thesis using True h(1) by (simp add: dskRemoveMainWindow_def Let_def)
  qed
qed

subsection \<open>A new window\<close>

lemma frame_invrgn [simp]: "frame g (init_invrgn w g)" "gcr (init_invrgn w g) = gcr g"
  by (simp_all add: init_invrgn_def Let_def frame_def upd_win_def wstatic_def)

lemma init_gcrinfo_drawn:
  assumes "placed g w"
  shows "drawn g (init_gcrinfo w g) {w} (\<lambda>_. on_screen g w)"
proof -
  let ?g = "upd_win w (\<lambda>x. x\<lparr>gc_age := 0\<rparr>) g"
  let ?h = "?g\<lparr>gcr := InitClipRgn (gcr ?g) (Heap w)\<rparr>"
  have f: "frame g ?h" by (simp add: frame_def upd_win_def wstatic_def)
  have "init_gcrinfo w g = reset_window w (dskGetWindowRectInScreen g w) ?h"
    by (simp add: init_gcrinfo_def reset_window_def Let_def upd_win_def)
  moreover have "drawn ?h (reset_window w (dskGetWindowRectInScreen g w) ?h) {w} (\<lambda>_. on_screen ?h w)"
    using reset_placed [of ?h w] assms frame_desk(5) [OF f] frame_same(7) [OF f] by simp
  moreover have "region ?h t = region g t" if "t \<noteq> w" for t using that by (simp add: InitClipRgn_def)
  ultimately show ?thesis using f frame_trans frame_desk(8) [OF f] unfolding drawn_def by auto
qed

definition new_zorder :: "dsk \<Rightarrow> nat \<Rightarrow> zsel" where
  "new_zorder g w = (if has_exstyle g w WS_EX_TOPMOST
     \<or> WinType (dwins g w) = TYPE_CONTROL \<and> has_exstyle g (pMainWin (dwins g w)) WS_EX_TOPMOST then TopZ else MainZ)"

lemma frame_new_zorder: "frame g g' \<Longrightarrow> new_zorder g' w = new_zorder g w"
  using frame_window [of g g' w] by (simp add: new_zorder_def frame_same)

lemma add_new_window_facts:
  fixes w g
  defines "g' \<equiv> add_new_window w g"
  shows "same_geo g g'" "has_style g' = has_style g" "gcr g' = gcr g"
    "GET_WIN_ZORDER g' w = new_zorder g w" "nodes g' z = (if z = new_zorder g w then w # nodes g z else nodes g z)"
    "t \<noteq> w \<Longrightarrow> GET_WIN_ZORDER g' t = GET_WIN_ZORDER g t"
proof -
  let ?g = "if WinType (dwins g w) = TYPE_CONTROL \<and> has_exstyle g (pMainWin (dwins g w)) WS_EX_TOPMOST
    then upd_win w (\<lambda>x. x\<lparr>dwExStyle := dwExStyle x OR WS_EX_TOPMOST\<rparr>) g else g"
  have g': "g' = upd_zorder (GET_WIN_ZORDER ?g w) (\<lambda>z. z\<lparr>z_nodes := w # z_nodes z, nNumber := nNumber z + 1\<rparr>) ?g"
    by (simp add: g'_def add_new_window_def Let_def)
  have "same_geo g ?g" by (simp add: same_geo_def upd_win_def)
  then show "same_geo g g'" unfolding g' by (rule geo_trans) simp
  have "has_style ?g = has_style g" by (auto simp: fun_eq_iff has_style_def upd_win_def)
  then show "has_style g' = has_style g" unfolding g' by (simp only: styles_upd)
  show "gcr g' = gcr g" unfolding g' by simp
  have "(a OR WS_EX_TOPMOST) AND WS_EX_TOPMOST = WS_EX_TOPMOST" for a by (auto intro!: bit_word_eqI simp: bit_simps)
  then have new: "GET_WIN_ZORDER ?g w = new_zorder g w"
    by (simp add: GET_WIN_ZORDER_def new_zorder_def has_exstyle_def upd_win_def WS_EX_TOPMOST_def)
  then show "GET_WIN_ZORDER g' w = new_zorder g w" unfolding g' by (simp only: zorder_upd)
  show "nodes g' z = (if z = new_zorder g w then w # nodes g z else nodes g z)"
  proof -
    have "nodes ?g z = nodes g z" for z by simp
    then have "nodes g' z = (if z = GET_WIN_ZORDER ?g w then w # nodes g z else nodes g z)"
      unfolding g' by (subst nodes_upd_by [where F = "(#) w"]) simp_all
    then show ?thesis by (simp only: new)
  qed
  show "t \<noteq> w \<Longrightarrow> GET_WIN_ZORDER g' t = GET_WIN_ZORDER g t"
    unfolding g' by (simp add: GET_WIN_ZORDER_def has_exstyle_def upd_win_def)
qed

lemma new_window_inv:
  assumes "desk_inv g" "w \<notin> set (order g)" "w \<noteq> 0" "placed g w"
  defines "g1 \<equiv> add_new_window w (init_invrgn w (init_gcrinfo w g))"
  shows "zwf g1" "clipped_for ((visible g1)(w := False)) g1" "menus g1 = menus g"
    "nodes g1 z = (if z = new_zorder g w then w # nodes g z else nodes g z)" "reg_ok (region g1 w)" "pts g1 w = on_screen g1 w"
    "visible g1 w = visible g w"
proof -
  let ?h = "init_invrgn w (init_gcrinfo w g)"
  have z: "zwf g" "clipped_for (visible g) g" using assms(1) by (simp_all add: desk_inv_def clipped_def)
  have h: "drawn g ?h {w} (\<lambda>_. on_screen g w)" using drawn_frame [OF init_gcrinfo_drawn [OF assms(4)] frame_invrgn] .
  note f = drawnD(1) [OF h]
  have g1: "same_geo g g1" "visible g1 = visible g" "gcr g1 = gcr ?h"
    "\<And>z. nodes g1 z = (if z = new_zorder g w then w # nodes g z else nodes g z)" "GET_WIN_ZORDER g1 w = new_zorder g w"
    "\<And>t. t \<noteq> w \<Longrightarrow> GET_WIN_ZORDER g1 t = GET_WIN_ZORDER g t"
    unfolding g1_def using add_new_window_facts [where g = ?h and w = w] geo_trans [OF frame_geo [OF f]]
      frame_same [OF f] frame_visible [OF f] frame_new_zorder [OF f] by auto
  note geo = geo_desk [OF g1(1)]
  have notin: "w \<notin> set (nodes g z)" for z using assms(2) in_order by blast
  show "zwf g1"
  proof (rule zwfI)
    show "distinct (nodes g1 z)" for z using zwf_distinct [OF z(1)] notin by (simp add: g1(4))
    show "GET_WIN_ZORDER g1 t = z \<and> placed g1 t \<and> t \<noteq> 0" if t: "t \<in> set (nodes g1 z)" for z t
    proof (cases "t = w")
      case True
      then show ?thesis using t notin assms(3,4) by (auto simp: g1(4,5) geo split: if_splits)
    next
      case False
      then have "t \<in> set (nodes g z)" using t by (auto simp: g1(4) split: if_splits)
      then show ?thesis using zwfD [OF z(1)] g1(6) [OF False] by (simp add: geo)
    qed
  qed (use zwf_menus [OF z(1)] in \<open>auto simp: geo\<close>)
  let ?V = "(visible g)(w := False)"
  have cover: "cover g ?V ns = cover g (visible g) ns" if "set ns \<subseteq> set (order g)" for ns
    using assms(2) that by (auto simp: cover_def)
  have "?V t = visible g t" if "t \<in> set (nodes g z)" for t z using that notin by auto
  then have "clipped_for ?V g = clipped_for (visible g) g"
    unfolding clipped_for_def by (simp add: cover [OF above_order] cover [OF subset_refl] del: fun_upd_apply cong: ball_cong)
  moreover have "clipped_for ?V g1 = clipped_for ?V g"
    by (rule clipped_for_reorder [where w = w]) (use g1 drawnD(4) [OF h] assms(3) in auto)
  ultimately show "clipped_for ((visible g1)(w := False)) g1" using z(2) by (simp add: g1(2))
  show "menus g1 = menus g" using geo(4) .
  show "nodes g1 z = (if z = new_zorder g w then w # nodes g z else nodes g z)" by (rule g1(4))
  show "reg_ok (region g1 w)" "pts g1 w = on_screen g1 w" using drawnD(2,3) [OF h, of w] by (simp_all add: g1(3) geo)
  show "visible g1 w = visible g w" using g1(2) by (simp add: fun_eq_iff)
qed

lemma dskAddNewMainWindow_inv:
  assumes "desk_inv g" "menus g = {}" "w \<notin> set (order g)" "w \<noteq> 0" "placed g w"
  shows "\<exists>a g'. dskAddNewMainWindow w g = Some (a, g') \<and> desk_inv g'
    \<and> (\<forall>z. nodes g' z = (if z = new_zorder g w then w # nodes g z else nodes g z)) \<and> visible g' w = visible g w \<and> menus g' = menus g"
proof -
  let ?g = "if pHosting (dwins g w) \<noteq> 0 then dskAddNewHostedMainWindow (pHosting (dwins g w)) w g else g"
  have f: "frame g ?g" "gcr ?g = gcr g" by (simp_all add: dskAddNewHostedMainWindow_def)
  let ?h = "add_new_window w (init_invrgn w (init_gcrinfo w ?g))"
  note h = new_window_inv [OF desk_inv_cong [OF assms(1) f], of w]
  note h = h [unfolded frame_desk [OF f(1)] frame_same(1,3) [OF f(1)] frame_new_zorder [OF f(1)], OF assms(3,4,5)]
  show ?thesis
  proof (cases "visible ?h w")
    case False
    then have "(visible ?h)(w := False) = visible ?h" by (simp add: fun_upd_idem)
    then have "desk_inv ?h" using h(1,2) by (simp add: desk_inv_def clipped_def)
    then show ?thesis using False h(3,4,7) frame_desk(4) [OF f(1)] by (simp add: dskAddNewMainWindow_def Let_def)
  next
    case True
    then have V: "(visible ?h)(w := True) = visible ?h" by (simp add: fun_upd_idem)
    obtain k where k: "dskUpdateGCRInfoOnShowNewMainWin w ?h = Some k" "frame ?h k" "clipped_for (visible ?h) k"
      using show_new_keeps [OF h(1) _ _ h(2,5), of "new_zorder g w" "nodes g (new_zorder g w)" "{}"] h(3,4,6) assms(2) V by auto
    have "desk_inv k" using k frame_desk(6) [OF k(2)] frame_visible [OF k(2)] h(1) by (simp add: desk_inv_def clipped_def)
    then have "desk_inv (snd (dskChangActiveWindow w (emit es k)))" for es
      using desk_inv_cong [OF _ frame_trans [OF frame_emit frame_change_active(1)]] by simp
    moreover have "nodes (snd (dskChangActiveWindow w (emit es k))) z = nodes ?h z" for es z
      using frame_same(3) [OF frame_change_active(1)] frame_same(3) [OF k(2)] by simp
    moreover have "visible (snd (dskChangActiveWindow w (emit es k))) w = visible g w"
      "menus (snd (dskChangActiveWindow w (emit es k))) = menus g" for es
      using frame_same(1) [OF frame_change_active(1)] frame_same(1) [OF k(2)] h(7)
        frame_desk(4) [OF frame_change_active(1)] frame_desk(4) [OF frame_emit] frame_desk(4) [OF k(2)] h(3) by simp_all
    ultimately show ?thesis using True k(1) h(4) by (simp add: dskAddNewMainWindow_def Let_def) (metis prod.collapse)
  qed
qed

end
