(* ===== verification/Desktop_Raise.thy ===== *)
theory Desktop_Raise
  imports Desktop_Order
begin

section \<open>The desktop: moving a window to the top\<close>

text \<open>
  \<open>dskMoveToTopMost\<close>: a visible window that was covered is drawn on the places of the windows above it, a hidden one
  appears at the top.
\<close>

subsection \<open>The order of a raised window\<close>

lemma distinct_remove1_filter: "distinct xs \<Longrightarrow> remove1 w xs = filter (\<lambda>h. h \<noteq> w) xs"
  by (induction xs) (auto intro!: filter_True [symmetric])

definition raised :: "zsel \<Rightarrow> nat \<Rightarrow> dsk \<Rightarrow> dsk \<Rightarrow> bool" where
  "raised z w g g' \<longleftrightarrow> same_geo g g' \<and> has_style g' = has_style g \<and> has_exstyle g' = has_exstyle g
     \<and> (\<forall>z'. nodes g' z' = (if z' = z then w # remove1 w (nodes g z) else nodes g z'))"

lemma raisedD:
  assumes "raised z w g g'" "zwf g"
  shows "same_geo g g'" "visible g' = visible g" "GET_WIN_ZORDER g' t = GET_WIN_ZORDER g t"
    "nodes g' z' = (if z' = z then w # filter (\<lambda>h. h \<noteq> w) (nodes g z) else nodes g z')"
  using assms(1) distinct_remove1_filter [OF zwf_distinct [OF assms(2)]] by (auto simp: raised_def GET_WIN_ZORDER_def)

lemma raised_zwf:
  assumes "raised z w g g'" "zwf g" "w \<in> set (nodes g z)"
  shows "zwf g'"
  by (rule zwf_subset [OF assms(2)])
    (use raisedD [OF assms(1,2)] zwf_distinct [OF assms(2)] assms(3) in \<open>auto split: if_splits\<close>)

lemma raised_above:
  assumes "raised z w g g'" "zwf g" "w \<in> set (nodes g z)" "t \<noteq> w"
  shows "set (above g' z' t) = set (above g z' t) \<union> (if z' = z then {w} else {})"
proof -
  have "takeWhile (\<lambda>h. h \<noteq> t) (w # filter (\<lambda>h. h \<noteq> w) xs) = w # filter (\<lambda>h. h \<noteq> w) (takeWhile (\<lambda>h. h \<noteq> t) xs)" for xs
    using takeWhile_filter [OF assms(4)] assms(4) by simp
  then show ?thesis
    using assms(3) by (cases z; cases z') (auto simp: above_def raisedD(4) [OF assms(1,2)])
qed

lemma move_to_top_raised:
  assumes "zwf g" "w \<in> set (nodes g z)"
  shows "\<exists>g'. move_to_top w g = Some g' \<and> raised z w g g' \<and> gcr g' = gcr g"
proof -
  let ?g = "upd_zorder z (\<lambda>i. if w \<in> set (z_nodes i) then i\<lparr>z_nodes := w # remove1 w (z_nodes i)\<rparr> else i) g"
  have "nodes ?g z' = (if z' = z then w # remove1 w (nodes g z) else nodes g z')" for z'
    using assms(2) nodes_upd_by [of "\<lambda>i. if w \<in> set (z_nodes i) then i\<lparr>z_nodes := w # remove1 w (z_nodes i)\<rparr> else i"
        "\<lambda>xs. if w \<in> set xs then w # remove1 w xs else xs" z g z'] by auto
  then have "raised z w g ?g" by (simp add: raised_def del: nodes_upd)
  moreover have "GET_WIN_ZORDER g w = z" "nodes g z \<noteq> []" using zwfD(1) assms by auto
  ultimately show ?thesis by (simp add: move_to_top_def)
qed

subsection \<open>The regions of a raised window\<close>

text \<open>The windows above the own Z order of a new top window.\<close>

definition over_top :: "dsk \<Rightarrow> zsel \<Rightarrow> nat list" where
  "over_top g z = (case z of TopZ \<Rightarrow> [] | MainZ \<Rightarrow> nodes g TopZ)"

lemma list_above:
  "t \<in> set xs \<Longrightarrow> w \<in> set xs \<Longrightarrow> t \<noteq> w \<Longrightarrow> t \<notin> set (takeWhile (\<lambda>h. h \<noteq> w) xs) \<Longrightarrow> w \<in> set (takeWhile (\<lambda>h. h \<noteq> t) xs)"
  by (induction xs) (auto split: if_splits)

lemma raised_visible:
  assumes "desk_inv g" "menus g = {}" "w \<in> set (nodes g z)" "visible g w"
    and step: "drawn g g1 ({w} \<union> {t \<in> set (takeWhile (\<lambda>h. h \<noteq> w) (nodes g z)). visible g t}) f"
    and f: "f w = on_screen g w - covered g (over_top g z)"
      "\<And>t. t \<in> set (takeWhile (\<lambda>h. h \<noteq> w) (nodes g z)) \<Longrightarrow> visible g t \<Longrightarrow> f t = pts g t - rect_pts (dskGetWindowRectInScreen g w)"
    and g2: "raised z w g g2" "gcr g2 = gcr g1"
  shows "desk_inv g2"
proof -
  have z: "zwf g" "clipped_for (visible g) g" using assms(1) by (simp_all add: desk_inv_def clipped_def)
  note r = raisedD [OF g2(1) z(1)] and geo = geo_desk [OF raisedD(1) [OF g2(1) z(1)]]
  have "reg_ok (region g2 t) \<and> pts g2 t = on_screen g t - cover g (visible g) (above g2 z' t)"
    if t2: "t \<in> set (nodes g2 z')" and vt: "visible g t" for z' t
  proof (cases "t = w")
    case True
    have t: "t \<in> set (nodes g z')" using t2 assms(3) by (auto simp: r(4) split: if_splits)
    then have "z' = z" using zwf_disjoint [OF z(1) assms(3)] True by blast
    then have "above g2 z' w = over_top g z" by (cases z) (simp_all add: above_def over_top_def r(4))
    then show ?thesis using drawnD(2,3) [OF step, of w] f(1) True by (simp add: g2(2) covered_cover)
  next
    case False
    then have t: "t \<in> set (nodes g z')" using t2 by (auto simp: r(4) split: if_splits)
    let ?up = "takeWhile (\<lambda>h. h \<noteq> w) (nodes g z)"
    have old: "reg_ok (region g t)" "pts g t = on_screen g t - cover g (visible g) (above g z' t)"
      using z(2) t vt assms(2) by (auto simp: clipped_for_def)
    have ab: "set (above g2 z' t) = set (above g z' t) \<union> (if z' = z then {w} else {})"
      using raised_above [OF g2(1) z(1) assms(3) False] .
    then have cov: "cover g (visible g) (above g2 z' t)
        = cover g (visible g) (above g z' t) \<union> (if z' = z then rect_pts (dskGetWindowRectInScreen g w) else {})"
      using assms(4) by (auto simp: cover_def)
    show ?thesis
    proof (cases "t \<in> set ?up")
      case True
      then have "z' = z" using zwf_disjoint [OF z(1) t] set_takeWhileD by metis
      then show ?thesis using drawnD(2,3) [OF step, of t] f(2) [OF True vt] True vt old cov by (auto simp: g2(2))
    next
      case nu: False
      have "w \<in> set (above g z' t)" if "z' = z"
      proof -
        have "t \<in> set (nodes g z)" using t that by simp
        then have "w \<in> set (takeWhile (\<lambda>h. h \<noteq> t) (nodes g z))" using nu False assms(3)
          by (intro list_above)
        then show ?thesis using that by (cases z) (simp_all add: above_def)
      qed
      then have "cover g (visible g) (above g2 z' t) = cover g (visible g) (above g z' t)"
        using cov assms(4) by (auto simp: cover_def)
      then show ?thesis using drawnD(4) [OF step, of t] nu False old by (simp add: g2(2))
    qed
  qed
  moreover have "reg_ok (region g2 0) \<and> pts g2 0 = rect_pts (g_rcScr g) - cover g (visible g) (order g2)"
  proof -
    have "set (order g2) = set (order g)" using assms(3) by (auto simp: order_def r(4))
    moreover have "0 \<noteq> w" "0 \<notin> set (nodes g z)" using zwfD(3) [OF z(1)] assms(3) by auto
    then have "region g1 0 = region g 0" using drawnD(4) [OF step, of 0] set_takeWhileD by fastforce
    ultimately show ?thesis using z(2) assms(2) by (simp add: clipped_for_def cover_def g2(2))
  qed
  ultimately show ?thesis
    using raised_zwf [OF g2(1) z(1) assms(3)] assms(2) by (simp add: desk_inv_def clipped_def clipped_for_def geo r(2))
qed

subsection \<open>The operation\<close>

lemma flag_fold:
  "snd (fold (\<lambda>t (b, g). if visible g t
       then let (meets, rcInter) = IntersectRect rc (dskGetWindowRectInScreen g t)
            in if meets then (True, emit (es g rcInter) (end_clip_window t (clip_region t rc g))) else (b, g)
       else (b, g)) ns (b, g))
   = fold (\<lambda>t g. if visible g t
       then (if fst (IntersectRect rc (dskGetWindowRectInScreen g t))
             then emit (es g (snd (IntersectRect rc (dskGetWindowRectInScreen g t)))) (end_clip_window t (clip_region t rc g)) else g)
       else g) ns g"
  by (induction ns arbitrary: b g) (simp_all add: Let_def split: prod.split)

lemma flag_step_drawn:
  assumes "reg_ok (region g t)" "pts g t \<subseteq> rect_pts (dskGetWindowRectInScreen g t)" "rect_norm rc"
  shows "drawn g (if fst (IntersectRect rc (dskGetWindowRectInScreen g t))
      then emit es (end_clip_window t (clip_region t rc g)) else g) {t} (\<lambda>_. pts g t - rect_pts rc)"
proof (cases "fst (IntersectRect rc (dskGetWindowRectInScreen g t))")
  case True
  then show ?thesis
    using drawn_frame [OF clip_region_drawn [OF assms(1,3)] frame_emitted [OF frame_end_clip]] by simp
next
  case False
  then have "rect_pts rc \<inter> rect_pts (dskGetWindowRectInScreen g t) = {}"
    using DoesIntersect_pts DoesIntersect_eq by blast
  then show ?thesis using False assms(1,2) by (auto simp: drawn_def)
qed

lemma change_topmost_drawn:
  assumes "desk_inv g" "menus g = {}" "w \<in> set (nodes g z)" "visible g w" "drawn g h {w} f"
  shows "drawn h (dskUpdateGCRInfoOnChangeTopMost w h) {t \<in> set (takeWhile (\<lambda>h. h \<noteq> w) (nodes g z)). visible g t}
    (\<lambda>t. pts g t - rect_pts (dskGetWindowRectInScreen g w))"
proof -
  let ?rc = "dskGetWindowRectInScreen g w" and ?ns = "takeWhile (\<lambda>h. h \<noteq> w) (nodes g z)"
  have z: "zwf g" "clipped_for (visible g) g" using assms(1) by (simp_all add: desk_inv_def clipped_def)
  note fr = drawnD(1) [OF assms(5)]
  have rc: "dskGetWindowRectInScreen h w = ?rc" "nodes h z = nodes g z" "GET_WIN_ZORDER h w = z" "visible h = visible g"
    using frame_same [OF fr] frame_visible [OF fr] zwfD(1) [OF z(1) assms(3)] by simp_all
  define step where "step = (\<lambda>t g. if fst (IntersectRect ?rc (dskGetWindowRectInScreen g t))
             then emit [WndInvalidate w (dskScreenToClient g w (snd (IntersectRect ?rc (dskGetWindowRectInScreen g t))))]
                (end_clip_window t (clip_region t ?rc g)) else g)"
  let ?Q = "\<lambda>t c. reg_ok c \<and> rgn_pts c \<subseteq> rect_pts (dskGetWindowRectInScreen h t)"
  have "drawn h (fold (\<lambda>t g. if visible g t then step t g else g) ?ns h) {t \<in> set ?ns. visible h t} (\<lambda>t. pts h t - rect_pts ?rc)"
  proof (rule fold_drawn [where Q = ?Q])
    show "distinct ?ns" using zwf_distinct [OF z(1)] by simp
    show "?Q t (region h t)" if t: "t \<in> set ?ns" "visible h t" for t
    proof -
      have tn: "t \<in> set (nodes g z)" "t \<noteq> w" using t set_takeWhileD by fastforce+
      then have "reg_ok (region g t)" "pts g t \<subseteq> on_screen g t"
        using z(2) t(2) rc(4) by (auto simp: clipped_for_def fun_eq_iff)
      then show ?thesis
        using drawnD(4) [OF assms(5), of t] tn(2) frame_same(7) [OF fr] by (auto simp: on_screen_def)
    qed
    show "drawn g' (step t g') {t} (\<lambda>_. pts g' t - rect_pts ?rc)" if "frame h g'" "?Q t (region g' t)" for g' t
      unfolding step_def
      by (rule flag_step_drawn) (use that frame_same(7) [OF that(1)] zwfD(4) [OF z(1) assms(3)] in auto)
  qed
  moreover have "snd (update_on_change_topmost z w ?rc h) = fold (\<lambda>t g. if visible g t then step t g else g) ?ns h"
    unfolding update_on_change_topmost_def flag_fold [where es = "\<lambda>g r. [WndInvalidate w (dskScreenToClient g w r)]"] step_def
    by (simp add: rc(2))
  ultimately have d: "drawn h (snd (update_on_change_topmost z w ?rc h)) {t \<in> set ?ns. visible g t} (\<lambda>t. pts h t - rect_pts ?rc)"
    using rc(4) by (simp add: fun_eq_iff)
  then have "drawn h (dskUpdateGCRInfoOnChangeTopMost w h) {t \<in> set ?ns. visible g t} (\<lambda>t. pts h t - rect_pts ?rc)"
    using drawn_frame [OF d frame_emit]
    by (cases "update_on_change_topmost z w ?rc h") (simp add: dskUpdateGCRInfoOnChangeTopMost_def rc Let_def)
  then show ?thesis
  proof (rule drawn_cong)
    fix t assume "t \<in> {t \<in> set ?ns. visible g t}"
    then have "t \<noteq> w" using set_takeWhileD by fastforce
    then show "pts h t - rect_pts ?rc = pts g t - rect_pts ?rc" using drawnD(4) [OF assms(5)] by simp
  qed
qed

lemma clip_top_drawn:
  assumes "zwf g" "reg_ok (region g w)" "GET_WIN_ZORDER g w = z"
  shows "drawn g (end_clip_window w (if \<not> has_exstyle g w WS_EX_TOPMOST then clip_by_windows TopZ w g else g)) {w}
    (\<lambda>_. pts g w - covered g (over_top g z))"
proof (cases z)
  case TopZ
  then show ?thesis
    using assms(2,3) drawn_frame [of g g "{w}" "\<lambda>_. pts g w" "end_clip_window w g"]
    by (simp add: GET_WIN_ZORDER_cases over_top_def drawn_def)
next
  case MainZ
  have "all_norm g (nodes g TopZ)" using zwf_norm [OF assms(1), of "nodes g TopZ"] by (simp add: order_def)
  from drawn_frame [OF clip_by_drawn [OF assms(2) this] frame_end_clip] show ?thesis
    using MainZ assms(3) by (simp add: GET_WIN_ZORDER_cases over_top_def clip_by_windows_def)
qed

lemma reset_top_drawn:
  assumes "zwf g" "w \<in> set (nodes g z)"
  defines "h \<equiv> reset_window w (dskGetWindowRectInScreen g w) g"
  shows "drawn g (end_clip_window w (if \<not> has_exstyle h w WS_EX_TOPMOST then clip_by_windows TopZ w h else h)) {w}
    (\<lambda>_. on_screen g w - covered g (over_top g z))"
proof -
  have h: "drawn g h {w} (\<lambda>_. on_screen g w)" unfolding h_def by (rule reset_placed [OF zwfD(2) [OF assms(1,2)]])
  note f = drawnD(1) [OF h]
  have "over_top h z = over_top g z" using frame_same(3) [OF f] by (simp add: over_top_def split: zsel.split)
  then show ?thesis
    using drawn_again [OF h clip_top_drawn [of h w z]] drawnD(2,3) [OF h, of w] frame_desk(6) [OF f] frame_same(6) [OF f]
      frame_covered(1) [OF f] zwfD(1) [OF assms(1,2)] assms(1) by simp
qed

lemma frame_primitive [simp]: "frame g (dskSetPrimitiveChildren w b g)" "gcr (dskSetPrimitiveChildren w b g) = gcr g"
proof -
  have "frame g (fold (\<lambda>(p, c). upd_win p (\<lambda>w. w\<lparr>hPrimitive := F c\<rparr>)) ps g)
      \<and> gcr (fold (\<lambda>(p, c). upd_win p (\<lambda>w. w\<lparr>hPrimitive := F c\<rparr>)) ps g) = gcr g" for ps and F :: "nat \<Rightarrow> nat"
  proof (induction ps arbitrary: g)
    case (Cons a ps)
    have "frame g (upd_win (fst a) (\<lambda>w. w\<lparr>hPrimitive := F (snd a)\<rparr>) g)"
      by (simp add: frame_def upd_win_def wstatic_def)
    then show ?case using Cons.IH frame_trans by (simp add: case_prod_beta)
  qed simp
  from this [of "\<lambda>c. if b then c else 0"]
  show "frame g (dskSetPrimitiveChildren w b g)" "gcr (dskSetPrimitiveChildren w b g) = gcr g"
    by (simp_all add: dskSetPrimitiveChildren_def Let_def)
qed

lemma frame_raised:
  assumes "frame g h" "raised z w h k"
  shows "raised z w g k"
  using assms(2) frame_same(1-3) [OF assms(1)] geo_trans [OF frame_geo [OF assms(1)]]
  by (auto simp: raised_def fun_eq_iff)

lemma move_hidden_inv:
  assumes "desk_inv g" "menus g = {}" "w \<in> set (nodes g z)" "\<not> visible g w"
    and h: "drawn g h {w} (\<lambda>_. on_screen g w - covered g (over_top g z))"
  shows "\<exists>k. move_hidden_to_top w h = Some k \<and> desk_inv k
    \<and> (\<forall>z'. nodes k z' = (if z' = z then w # remove1 w (nodes g z) else nodes g z')) \<and> visible k w"
proof -
  have z: "zwf g" "clipped_for (visible g) g" using assms(1) by (simp_all add: desk_inv_def clipped_def)
  note f = drawnD(1) [OF h]
  obtain m where m: "move_to_top w h = Some m" "raised z w h m" "gcr m = gcr h"
    using move_to_top_raised [of h w z] z(1) frame_desk(6) [OF f] frame_same(3) [OF f] assms(3) by auto
  note r = frame_raised [OF f m(2)]
  note rD = raisedD [OF r z(1)] and geo = geo_desk [OF raisedD(1) [OF r z(1)]]
  have V: "(visible m)(w := False) = visible g" using assms(4) rD(2) by (simp add: fun_upd_idem)
  have "clipped_for (visible g) m = clipped_for (visible g) g"
    by (rule clipped_for_reorder [where w = w])
      (use rD assms(4) zwfD(3) [OF z(1) assms(3)] drawnD(4) [OF h] m(3) in auto)
  then have c: "clipped_for ((visible m)(w := False)) m" using z(2) V by simp
  have over: "(case z of TopZ \<Rightarrow> [] | MainZ \<Rightarrow> nodes m TopZ) = over_top g z" by (cases z) (simp_all add: over_top_def rD(4))
  have "covered m ns = covered g ns" for ns using geo(2) rD(2) by (simp add: covered_cover)
  then obtain k where k: "dskUpdateGCRInfoOnShowNewMainWin w m = Some k" "frame m k" "clipped_for ((visible m)(w := True)) k"
    using show_new_keeps [OF raised_zwf [OF r z(1) assms(3)] _ _ c, of z "filter (\<lambda>h. h \<noteq> w) (nodes g z)"
        "covered g (over_top g z)"] drawnD(2,3) [OF h, of w] by (auto simp: rD(4) geo assms(2) m(3) over)
  have "desk_inv (emit es (set_visible w k))" for es
    using desk_inv_cong [OF visible_inv [OF raised_zwf [OF r z(1) assms(3)] k(2,3)] frame_emit] by simp
  moreover have "nodes k z' = (if z' = z then w # remove1 w (nodes g z) else nodes g z')" for z'
    using frame_same(3) [OF k(2)] r by (simp add: raised_def)
  ultimately show ?thesis using m(1) k(1) by (simp add: move_hidden_to_top_def set_visible_at)
qed

lemma move_visible_inv:
  assumes "desk_inv g" "menus g = {}" "w \<in> set (nodes g z)" "visible g w"
    and h: "drawn g h {w} (\<lambda>_. on_screen g w - covered g (over_top g z))"
  shows "\<exists>k. move_visible_to_top w h = Some k \<and> desk_inv k
    \<and> (\<forall>z'. nodes k z' = (if z' = z then w # remove1 w (nodes g z) else nodes g z')) \<and> visible k w"
proof -
  let ?up = "takeWhile (\<lambda>h. h \<noteq> w) (nodes g z)"
  have z: "zwf g" using assms(1) by (simp add: desk_inv_def)
  let ?h = "emit [NcPaint w None] h"
  let ?m = "dskUpdateGCRInfoOnChangeTopMost w ?h"
  have one: "drawn g ?h {w} (\<lambda>_. on_screen g w - covered g (over_top g z))" using drawn_frame [OF h frame_emit] by simp
  note two = change_topmost_drawn [OF assms(1-4) one]
  note both = drawn_trans [OF one two]
  note f = drawnD(1) [OF both]
  obtain k where k: "move_to_top w ?m = Some k" "raised z w ?m k" "gcr k = gcr ?m"
    using move_to_top_raised [of ?m w z] z frame_desk(6) [OF f] frame_same(3) [OF f] assms(3) by auto
  have "w \<notin> set ?up" using set_takeWhileD by fastforce
  then have "desk_inv k"
    by (intro raised_visible [OF assms(1-4) both _ _ frame_raised [OF f k(2)] k(3)]) auto
  moreover have "nodes k z' = (if z' = z then w # remove1 w (nodes g z) else nodes g z')" "visible k w" for z'
    using frame_raised [OF f k(2)] assms(4) by (simp_all add: raised_def)
  ultimately show ?thesis using k(1) by (simp add: move_visible_to_top_def)
qed

lemma hide_top_control_keeps:
  assumes "desk_inv g" "menus g = {}" "p \<in> set (nodes g z)"
  shows "keeps g (hide_top_control p reason l g)"
proof (cases "p \<noteq> 0 \<and> WinType (dwins g p) = TYPE_CONTROL \<and> visible g p")
  case True
  obtain a g' where g': "dskHideMainWindow p g = Some (a, g')" "desk_inv g'" "same_desk g g'"
    using dskHideMainWindow_keeps [OF assms] by (auto simp: keeps_def)
  have "desk_inv (emit es (dskSetPrimitiveChildren p False g'))" "same_desk g (emit es (dskSetPrimitiveChildren p False g'))" for es
    using desk_inv_cong [OF g'(2) frame_emitted [OF frame_primitive(1)]]
      same_desk_trans [OF g'(3) frame_same_desk [OF frame_emitted [OF frame_primitive(1)]]] by simp_all
  then show ?thesis using True g'(1) by (simp add: hide_top_control_def keeps_def Let_def)
qed (use assms(1) in \<open>auto simp: hide_top_control_def keeps_def\<close>)

lemma dskMoveToTopMost_inv:
  assumes "desk_inv g" "menus g = {}" "w = 0 \<or> w \<in> set (nodes g z)"
  shows "\<exists>a g'. dskMoveToTopMost w reason l g = Some (a, g') \<and> desk_inv g'
    \<and> (\<forall>z. nodes g' z = (if w \<in> set (nodes g z) then w # remove1 w (nodes g z) else nodes g z)) \<and> (w = 0 \<or> visible g' w)"
proof (cases "w = 0")
  case False
  then have w: "w \<in> set (nodes g z)" using assms(3) by simp
  have z: "GET_WIN_ZORDER g w = z" using zwfD(1) w assms(1) by (auto simp: desk_inv_def)
  obtain p rest where p: "nodes g z = p # rest" using w by (cases "nodes g z") auto
  obtain h where h: "hide_top_control p reason l g = Some h" "desk_inv h" "same_desk g h"
    using hide_top_control_keeps [OF assms(1,2), of p z reason l] p by (auto simp: keeps_def)
  note s = same_deskD [OF h(3)]
  have inv: "desk_inv h" "menus h = {}" "w \<in> set (nodes h z)" using h(2) s(2,4) assms(2) w by simp_all
  have top: "dskIsTopMost h w = Some (w = p)" using s(2,5) p z by (simp add: dskIsTopMost_def)
  let ?r = "reset_window w (dskGetWindowRectInScreen h w) h"
  let ?e = "end_clip_window w (if \<not> has_exstyle ?r w WS_EX_TOPMOST then clip_by_windows TopZ w ?r else ?r)"
  have d: "drawn h ?e {w} (\<lambda>_. on_screen h w - covered h (over_top h z))"
    using reset_top_drawn inv(1,3) by (simp add: desk_inv_def)
  have vis: "visible ?e w = visible h w" using frame_same(1) [OF drawnD(1) [OF d]] .
  obtain k where k: "(if \<not> visible ?e w then move_hidden_to_top w ?e else move_visible_to_top w ?e) = Some k" "desk_inv k"
    "\<forall>z'. nodes k z' = (if z' = z then w # remove1 w (nodes h z) else nodes h z')" "visible k w"
    using move_hidden_inv [OF inv _ d] move_visible_inv [OF inv _ d] vis by (cases "visible h w") auto
  have act: "desk_inv (snd (dskChangActiveWindow w k))" using desk_inv_cong [OF k(2)] by simp
  have act_n: "nodes (snd (dskChangActiveWindow w k)) z' = nodes k z'" "visible (snd (dskChangActiveWindow w k)) w" for z'
    using frame_same(1,3) [OF frame_change_active(1)] k(4) by simp_all
  have only: "w \<in> set (nodes g z') \<longleftrightarrow> z' = z" for z'
    using other_order [of g w z z'] assms(1) w by (auto simp: desk_inv_def)
  have run: "dskMoveToTopMost w reason l g = (if w = p \<and> visible h w then Some (mg_active h, h)
      else Some (if reason \<noteq> RCTM_SHOWCTRL then dskChangActiveWindow w k else (mg_active k, k)))"
    using False unfolding dskMoveToTopMost_def Let_def
    by (simp only: z p list.case h(1) top k(1) Option.bind.simps if_False)
  show ?thesis unfolding run using inv(1) k act act_n only p s(2) by (cases "dskChangActiveWindow w k") auto
next
  case True
  then have "w \<notin> set (nodes g z)" for z using zwfD(3) [of g w z] assms(1) by (auto simp: desk_inv_def)
  then show ?thesis using assms(1) True by (simp add: dskMoveToTopMost_def)
qed

end
