(* ===== verification/Desktop_Steps.thy ===== *)
theory Desktop_Steps
  imports Desktop_Raise
begin

section \<open>The desktop: menus, moved windows, and every message to the desktop\<close>

text \<open>
  A closed menu and a moved window have every region built anew.  Then the steps of the desktop as a relation,
  one step for each message of a window, and the invariant of the states that they reach.
\<close>

subsection \<open>Popup menus\<close>

abbreviation reclip_list :: "dsk \<Rightarrow> nat list \<Rightarrow> dsk \<Rightarrow> dsk" where
  "reclip_list g0 ns g \<equiv> fold (\<lambda>t g. if visible g t then reclip_window (its_zorder g0 t) t g else g) ns g"

lemma frame_clip_menus: "frame g (fold (\<lambda>m. clip_region r (tm_rc m)) ms g)"
proof (induction ms arbitrary: g)
  case (Cons m ms)
  show ?case using frame_trans [OF frame_clip_region Cons.IH] by simp
qed simp

lemma frame_reclip_window [simp]: "frame g (reclip_window z t g)"
  using frame_trans [OF frame_trans_end [OF frame_rebuild] frame_clip_menus] by (simp add: reclip_window_def Let_def)

lemma frame_reclip_list [simp]: "frame g (reclip_list g0 ns g)"
  by (rule fold_frame) simp

lemma reclip_list_drawn:
  assumes "zwf g"
  shows "drawn g (reclip_list g (order g) g) {t \<in> set (order g). visible g t}
    (\<lambda>t. on_screen g t - covered g (above g (its_zorder g t) t) - menus g)"
proof (rule fold_drawn [where Q = "\<lambda>_ _. True" and F = "\<lambda>t _. on_screen g t - covered g (above g (its_zorder g t) t) - menus g"])
  fix g' t assume g': "frame g g'" and t: "t \<in> set (order g)"
  then obtain z where z: "t \<in> set (nodes g z)" using order_nodes by blast
  then have "t \<in> set (nodes g' z)" "zwf g'" "its_zorder g t = z"
    using frame_same(3) [OF g'] frame_desk(6) [OF g'] its_zorder [OF assms] assms by simp_all
  then show "drawn g' (reclip_window (its_zorder g t) t g') {t}
      (\<lambda>_. on_screen g t - covered g (above g (its_zorder g t) t) - menus g)"
    using reclip_window_drawn [of g' t z] frame_desk(2,4,8) [OF g'] frame_covered(1) [OF g'] by simp
qed (use assms in \<open>auto simp: zwf_def\<close>)

lemma hide_menu_eq:
  assumes "zwf g"
  shows "dskUpdateAllGCRInfoOnHideMenu g = recalc_desktop (mg_ptmi g) (reclip_list g (order g) g)"
proof -
  have "fold (\<lambda>t g. if visible g t then reclip_window z t g else g) (nodes g z) h = reclip_list g (nodes g z) h" for z h
    by (rule fold_cong) (use assms its_zorder in auto)
  then show ?thesis
    using frame_same(3,5) [OF frame_reclip_list]
    by (simp add: dskUpdateAllGCRInfoOnHideMenu_def Let_def order_def del: fold_append)
      (simp add: frame_same(3,5) [OF frame_reclip_list])
qed

lemma hide_menu_inv:
  assumes "zwf g"
  shows "desk_inv (dskUpdateAllGCRInfoOnHideMenu g)" "frame g (dskUpdateAllGCRInfoOnHideMenu g)"
proof -
  let ?h = "reclip_list g (order g) g" and ?k = "recalc_desktop (mg_ptmi g) (reclip_list g (order g) g)"
  note one = reclip_list_drawn [OF assms]
  note f = drawnD(1) [OF one]
  have two: "drawn ?h ?k {0} (\<lambda>_. rect_pts (g_rcScr g) - covered g (order g) - menus g)"
    using recalc_desktop_drawn [of ?h "mg_ptmi g"] zwf_menus [OF assms] frame_desk(1,6) [OF f] frame_covered(1) [OF f]
      frame_same(4) [OF f] assms by (simp add: menus_def)
  have k: "frame g ?k" using frame_trans [OF f drawnD(1) [OF two]] .
  have "0 \<notin> set (order g)" using assms by (simp add: zwf_def)
  have "reg_ok (region ?k t) \<and> pts ?k t = on_screen g t - cover g (visible g) (above g z t) - menus g"
    if t: "t \<in> set (nodes g z)" "visible g t" for z t
  proof -
    have "region ?k t = region ?h t" using drawnD(4) [OF two, of t] zwfD(3) [OF assms t(1)] by simp
    then show ?thesis
      using drawnD(2,3) [OF one, of t] in_order [OF t(1)] t(2) its_zorder [OF assms t(1)] by (simp add: covered_cover)
  qed
  moreover have "reg_ok (region ?k 0)" "pts ?k 0 = rect_pts (g_rcScr g) - cover g (visible g) (order g) - menus g"
    using drawnD(2,3) [OF two, of 0] by (simp_all add: covered_cover)
  ultimately have "clipped_for (visible g) ?k"
    by (simp add: clipped_for_def frame_desk [OF k] frame_same [OF k])
  then show "desk_inv (dskUpdateAllGCRInfoOnHideMenu g)" "frame g (dskUpdateAllGCRInfoOnHideMenu g)"
    using assms k frame_desk(6) [OF k] frame_visible [OF k] by (simp_all add: hide_menu_eq desk_inv_def clipped_def)
qed

lemma show_menu_eq:
  "dskUpdateAllGCRInfoOnShowMenu rc g = Some (clip_desktop rc (clip_list rc (order g) g))"
  using frame_same(3) [OF frame_clip_list]
  by (simp add: dskUpdateAllGCRInfoOnShowMenu_def clip_windows_def clip_windows_under_this_def order_def)

lemma nodes_ptmi [simp]: "nodes (g\<lparr>mg_ptmi := ms\<rparr>) z = nodes g z" "order (g\<lparr>mg_ptmi := ms\<rparr>) = order g"
  by (simp_all add: order_def nodes_def split: zsel.split)

lemma placed_ptmi [simp]: "placed (g\<lparr>mg_ptmi := ms\<rparr>) t = placed g t"
  by (simp add: placed_def dskGetWindowRectInScreen_def)

lemma zwf_ptmi: "zwf g \<Longrightarrow> \<forall>m \<in> set ms. rect_norm (tm_rc m) \<Longrightarrow> zwf (g\<lparr>mg_ptmi := ms\<rparr>)"
  by (simp add: zwf_def GET_WIN_ZORDER_def has_exstyle_def)

lemma dskTrackPopupMenu_inv:
  assumes "desk_inv g" "rect_norm (tm_rc m)"
  shows "\<exists>g'. dskTrackPopupMenu m g = Some g' \<and> desk_inv g' \<and> (\<forall>z. nodes g' z = nodes g z)"
proof -
  let ?g = "emit [MenuProc (tm_id m) INITMENU] (g\<lparr>mg_ptmi := mg_ptmi g @ [m]\<rparr>)"
  define h where "h = clip_list (tm_rc m) (order ?g) ?g"
  define k where "k = clip_desktop (tm_rc m) h"
  have same: "nodes ?g z = nodes g z" "order ?g = order g" "above ?g z t = above g z t" "on_screen ?g t = on_screen g t"
    "cover ?g V ns = cover g V ns" "g_rcScr ?g = g_rcScr g" "gcr ?g = gcr g" "visible ?g = visible g" for z t V ns
    by (simp_all add: nodes_def order_def above_def on_screen_def cover_def dskGetWindowRectInScreen_def emit_def fun_eq_iff has_style_def
        split: zsel.split)
  have ms: "menus ?g = menus g \<union> rect_pts (tm_rc m)" by (auto simp: menus_def emit_def)
  have z: "zwf g" "clipped_for (visible g) g" using assms(1) by (simp_all add: desk_inv_def clipped_def)
  have "zwf (g\<lparr>mg_ptmi := mg_ptmi g @ [m]\<rparr>)" using zwf_ptmi [OF z(1)] zwf_menus [OF z(1)] assms(2) by auto
  then have zg: "zwf ?g" using frame_desk(6) [OF frame_emit] by simp
  have dist: "distinct (order ?g)" "0 \<notin> set (order ?g)" using zg by (simp_all add: zwf_def)
  have "reg_ok (region ?g t)" if "t \<in> set (order ?g)" "visible ?g t" for t
    using clipped_reg_ok [OF z(2)] that same by (simp add: fun_eq_iff)
  note one = clip_list_drawn [OF dist(1) assms(2) this, folded h_def]
  note f = drawnD(1) [OF one]
  have zero: "region h 0 = region g 0" using drawnD(4) [OF one, of 0] dist(2) same(7) by simp
  have two: "drawn h k {0} (\<lambda>_. pts g 0 - rect_pts (tm_rc m))"
    using clip_desktop_drawn [of h "tm_rc m"] z(2) assms(2) zero by (simp add: clipped_for_def k_def)
  have fk: "frame ?g k" using frame_trans [OF f drawnD(1) [OF two]] .
  have "reg_ok (region k t) \<and> pts k t = on_screen g t - cover g (visible g) (above g z t) - menus ?g"
    if t: "t \<in> set (nodes g z)" "visible g t" for z t
  proof -
    have "region k t = region h t" using drawnD(4) [OF two, of t] zwfD(3) [OF z(1) t(1)] by simp
    then show ?thesis
      using drawnD(2,3) [OF one, of t] in_order [OF t(1)] t z(2) ms same by (auto simp: clipped_for_def fun_eq_iff)
  qed
  moreover have "reg_ok (region k 0)" "pts k 0 = rect_pts (g_rcScr g) - cover g (visible g) (order g) - menus ?g"
    using drawnD(2,3) [OF two, of 0] z(2) ms by (auto simp: clipped_for_def)
  ultimately have "clipped_for (visible g) k"
    by (simp add: clipped_for_def frame_desk [OF fk] frame_same [OF fk] same)
  then have "desk_inv k" using zg frame_desk(6) [OF fk] frame_visible [OF fk] same(8) by (simp add: desk_inv_def clipped_def)
  then have "desk_inv (emit es k)" for es using desk_inv_cong [OF _ frame_emit] by simp
  moreover have "nodes k z = nodes g z" for z using frame_same(3) [OF fk] same(1) by simp
  ultimately show ?thesis by (simp add: dskTrackPopupMenu_def show_menu_eq flip: h_def k_def)
qed

lemma unlink_menu_subset: "unlink_menu m ms = Some ns \<Longrightarrow> set ns \<subseteq> set ms"
  by (auto simp: unlink_menu_def split: list.splits if_splits dest: in_set_butlastD)

text \<open>Painting and messages to windows change neither the windows nor the regions.\<close>

definition quiet :: "dsk \<Rightarrow> dsk \<Rightarrow> bool" where
  "quiet g g' \<longleftrightarrow> frame g g' \<and> gcr g' = gcr g"

lemma quiet_simps [simp]: "quiet g g" "quiet g (emit es g)" "quiet g (repaint t rc g)" "quiet g (snd (dskChangActiveWindow w g))"
  "quiet g (dskSetPrimitiveChildren w b g)"
  by (simp_all add: quiet_def)

lemma quiet_trans: "quiet g g' \<Longrightarrow> quiet g' g'' \<Longrightarrow> quiet g g''"
  by (auto simp: quiet_def intro: frame_trans)

lemma quiet_emitted: "quiet g h \<Longrightarrow> quiet g (emit es h)"
  using quiet_trans by simp

lemma quiet_fold: "(\<And>t g. quiet g (f t g)) \<Longrightarrow> quiet g (fold f ns g)"
proof (induction ns arbitrary: g)
  case (Cons a ns)
  show ?case using quiet_trans [OF Cons.prems(1) Cons.IH [OF Cons.prems(1)]] by simp
qed simp

lemma quiet_inv: "quiet g g' \<Longrightarrow> desk_inv g \<Longrightarrow> desk_inv g'"
  using desk_inv_cong by (simp add: quiet_def)

lemma quiet_nodes: "quiet g g' \<Longrightarrow> nodes g' z = nodes g z"
  using frame_same(3) by (simp add: quiet_def)

lemma quiet_repaint_windows: "quiet g (repaint_windows z rc g)"
  unfolding repaint_windows_def by (rule quiet_fold) simp

lemma dskEndTrackMenu_inv:
  assumes "zwf g" "unlink_menu m (mg_ptmi g) = Some ms"
  shows "\<exists>g'. dskEndTrackMenu m g = Some g' \<and> desk_inv g' \<and> (\<forall>z. nodes g' z = nodes g z)"
proof -
  let ?g = "dskUpdateAllGCRInfoOnHideMenu (g\<lparr>mg_ptmi := ms\<rparr>)"
  have "zwf (g\<lparr>mg_ptmi := ms\<rparr>)" using zwf_ptmi zwf_menus [OF assms(1)] unlink_menu_subset [OF assms(2)] assms(1) by blast
  then have inv: "desk_inv ?g" by (rule hide_menu_inv)
  have q: "quiet ?g (repaint_windows MainZ rc (repaint_windows TopZ rc (emit es ?g)))" for rc es
    using quiet_trans [OF quiet_trans [OF quiet_simps(2) quiet_repaint_windows] quiet_repaint_windows] .
  obtain g' where "dskEndTrackMenu m g = Some g'" "quiet ?g g'"
    using q [of "tm_rc m" "[MenuProc (tm_id m) HIDEMENU]"] quiet_emitted [OF quiet_emitted] quiet_emitted
    by (cases "IntersectRect (tm_rc m) (g_rcScr (repaint_windows MainZ (tm_rc m) (repaint_windows TopZ (tm_rc m)
        (emit [MenuProc (tm_id m) HIDEMENU] ?g))))") (simp add: dskEndTrackMenu_def assms(2) Let_def)
  moreover have "nodes ?g z = nodes g z" for z
    using frame_same(3) [OF hide_menu_inv(2) [OF \<open>zwf (g\<lparr>mg_ptmi := ms\<rparr>)\<close>]] by simp
  ultimately show ?thesis using quiet_inv [OF _ inv] by (auto simp: quiet_def frame_same)
qed

text \<open>The state with every menu closed, which the messages to windows start from.\<close>

lemma close_menu_inv:
  assumes "desk_inv g"
  shows "desk_inv (close_menu g)" "menus (close_menu g) = {}" "nodes (close_menu g) z = nodes g z"
    "order (close_menu g) = order g" "placed (close_menu g) t = placed g t"
proof -
  let ?h = "\<lambda>es. (emit es g)\<lparr>mg_ptmi := []\<rparr>"
  have z: "zwf (?h es)" for es using zwf_ptmi [of "emit es g"] frame_desk(6) [OF frame_emit] assms by (simp add: desk_inv_def)
  note inv = hide_menu_inv(1) [OF z] and f = hide_menu_inv(2) [OF z]
  have "order (emit es g) = order g" "placed (emit es g) t = placed g t" for es using frame_desk(1,5) [OF frame_emit] by simp_all
  then have "desk_inv (close_menu g) \<and> menus (close_menu g) = {} \<and> nodes (close_menu g) z = nodes g z
      \<and> order (close_menu g) = order g \<and> placed (close_menu g) t = placed g t"
    using assms inv frame_same(3) [OF f] frame_desk(1,4,5) [OF f]
    by (cases "mg_ptmi g") (simp_all add: close_menu_def dskForceCloseMenu_def menus_def)
  then show "desk_inv (close_menu g)" "menus (close_menu g) = {}" "nodes (close_menu g) z = nodes g z"
    "order (close_menu g) = order g" "placed (close_menu g) t = placed g t" by simp_all
qed

subsection \<open>Moving\<close>

lemma quiet_update [simp]:
  "quiet g (snd (dskUpdateOldMainWindow w ri rw rc g))" "quiet g (snd (dskUpdateWindow w ri rw rc g))"
  by (auto simp: dskUpdateOldMainWindow_def dskUpdateWindow_def Let_def quiet_emitted split: prod.split)

lemma quiet_uncover [simp]: "quiet g (uncover w rc g)"
proof -
  have "quiet g (fold (\<lambda>t g. if t \<noteq> w \<and> visible g t
      then snd (dskUpdateWindow t rc (dskGetWindowRectInScreen g t) (dskGetClientRectInScreen g t) g) else g) ns g)" for ns
    by (rule quiet_fold) simp
  then show ?thesis unfolding uncover_def Let_def by (rule quiet_emitted)
qed

definition moved :: "winproc \<Rightarrow> nat \<Rightarrow> rect \<Rightarrow> dsk \<Rightarrow> dsk" where
  "moved proc w rc g = (if WinType (dwins g w) = TYPE_MAINWIN then change_size proc w rc g else g)"

lemma dskMoveMainWindow_inv:
  assumes "zwf (moved proc w rc g)" "w \<in> set (nodes (moved proc w rc g) z)"
  shows "\<exists>g'. dskMoveMainWindow proc w rc g = Some g' \<and> desk_inv g' \<and> frame (moved proc w rc g) g'"
proof -
  let ?m = "moved proc w rc g"
  let ?h = "dskUpdateAllGCRInfoOnHideMenu ?m"
  note inv = hide_menu_inv [OF assms(1)]
  have old: "quiet g (fold (\<lambda>r g. snd (dskUpdateOldMainWindow w r ow oc g)) rs g)" for g ow oc rs by (rule quiet_fold) simp
  have ab: "quiet g (fold (\<lambda>t g. if t \<noteq> w \<and> visible g t
      then snd (dskUpdateOldMainWindow w (dskGetWindowRectInScreen g t) ow oc g) else g) ns g)" for g ow oc ns
    by (rule quiet_fold) simp
  have un: "quiet g (fold (uncover w) rs g)" for g rs by (rule quiet_fold) simp
  let ?k = "fold (\<lambda>r g'. snd (dskUpdateOldMainWindow w r (wrc (dwins g w)) (crc (dwins g w)) g'))
    (SubtractRect (wrc (dwins g w)) (g_rcScr g)) (emit [Blit w (wrc (dwins g w))] ?h)"
  have k: "quiet ?h ?k" using quiet_trans [OF quiet_simps(2) old] .
  have fk: "frame ?m ?k" using frame_trans [OF inv(2)] k by (simp add: quiet_def)
  have "windows_above ?k w = Some (above ?k z w)"
    using frame_same(3,6) [OF fk] zwfD(1) [OF assms] assms(2)
    by (cases z) (simp_all add: windows_above_def Let_def above_def)
  then obtain g' where g': "dskMoveMainWindow proc w rc g = Some g'" "quiet ?k g'"
    using quiet_emitted [OF quiet_trans [OF ab un]]
    by (simp add: dskMoveMainWindow_def moved_def [symmetric] Let_def)
  then have "quiet ?h g'" using quiet_trans [OF k] by blast
  then show ?thesis using g'(1) quiet_inv inv frame_trans by (auto simp: quiet_def)
qed

lemma nodes_change_size [simp]: "nodes (change_size proc w rc g) z = nodes g z" "mg_ptmi (change_size proc w rc g) = mg_ptmi g"
  by (simp_all add: change_size_def upd_win_def emit_def) (simp add: nodes_def split: zsel.split)

lemma WinType_change_size [simp]: "WinType (dwins (change_size proc w rc g) t) = WinType (dwins g t)"
  by (simp add: change_size_def upd_win_def emit_def)

lemma dskMoveGlobalControl_inv:
  assumes "zwf (change_size proc w (rc g) g)" "w \<in> set (nodes g z)" "WinType (dwins g w) = TYPE_CONTROL"
  shows "\<exists>g'. dskMoveGlobalControl proc w rc g = Some g' \<and> desk_inv g' \<and> frame (change_size proc w (rc g) g) g'"
proof -
  let ?c = "change_size proc w (rc g) g"
  let ?r = "dskClientToScreen ?c (hParent ?c w) (rc ?c)"
  have "moved proc w ?r ?c = ?c" using assms(3) by (simp add: moved_def)
  then obtain h where h: "dskMoveMainWindow proc w ?r ?c = Some h" "desk_inv h" "frame ?c h"
    using dskMoveMainWindow_inv [of proc w ?r ?c z] assms(1,2) by auto
  have "desk_inv (emit es h)" for es using quiet_inv [OF quiet_simps(2) h(2)] .
  then show ?thesis using h frame_emitted [OF h(3)] by (simp add: dskMoveGlobalControl_def Let_def)
qed

subsection \<open>Every message\<close>

text \<open>What the functions of \<open>window.c\<close> see to before they send a message.\<close>

fun allowed :: "winproc \<Rightarrow> dsk_msg \<Rightarrow> nat \<Rightarrow> dsk \<Rightarrow> bool" where
  "allowed proc MSG_ADDNEWMAINWIN w g \<longleftrightarrow> w \<notin> set (order g) \<and> w \<noteq> 0 \<and> placed g w"
| "allowed proc MSG_MOVETOTOPMOST w g \<longleftrightarrow> w = 0 \<or> w \<in> set (order g)"
| "allowed proc (MSG_MOVEMAINWIN rc) w g \<longleftrightarrow> w \<in> set (order g) \<and> zwf (change_size proc w rc g)"
| "allowed proc (MSG_TRACKPOPUPMENU m) w g \<longleftrightarrow> rect_norm (tm_rc m)"
| "allowed proc (MSG_ENDTRACKMENU m) w g \<longleftrightarrow> unlink_menu m (mg_ptmi g) \<noteq> None"
| "allowed proc MSG_SHOWGLOBALCTRL w g \<longleftrightarrow> w \<in> set (order g) \<and> WinType (dwins (close_menu g) w) = TYPE_CONTROL
     \<and> zwf (change_size proc w (wrc (dwins (close_menu g) w)) (close_menu g))"
| "allowed proc MSG_GETACTIVEMAIN w g \<longleftrightarrow> True"
| "allowed proc MSG_SETACTIVEMAIN w g \<longleftrightarrow> w = 0 \<or> w \<in> set (order g)"
| "allowed proc MSG_GETCAPTURE w g \<longleftrightarrow> True"
| "allowed proc MSG_SETCAPTURE w g \<longleftrightarrow> True"
| "allowed proc MSG_CARET_CREATE w g \<longleftrightarrow> True"
| "allowed proc MSG_CARET_DESTROY w g \<longleftrightarrow> True"
| "allowed proc MSG_CLOSEMENU w g \<longleftrightarrow> True"
| "allowed proc _ w g \<longleftrightarrow> w \<in> set (order g)"

lemma mod_capture [simp]: "quiet g (reset_desktop_capture_info w g)" "quiet g (g\<lparr>mg_capture := c\<rparr>)"
  "quiet g (snd (DesktopSetCapture w g))" "quiet g (g\<lparr>sg_hCaretWnd := c\<rparr>)"
  by (simp_all add: reset_desktop_capture_info_def DesktopSetCapture_def Let_def quiet_def frame_def)

lemma keeps_inv: "keeps g (map_option f r) \<Longrightarrow> (\<And>x. quiet (f x) (h x)) \<Longrightarrow> \<exists>g'. map_option h r = Some g' \<and> desk_inv g'"
  by (cases r) (auto simp: keeps_def intro: quiet_inv)

lemma set_disabled_inv:
  assumes "desk_inv g"
  shows "desk_inv (upd_win w (\<lambda>x. x\<lparr>dwStyle := (if e then dwStyle x AND NOT WS_DISABLED else dwStyle x OR WS_DISABLED)\<rparr>) g)"
proof -
  let ?g = "upd_win w (\<lambda>x. x\<lparr>dwStyle := (if e then dwStyle x AND NOT WS_DISABLED else dwStyle x OR WS_DISABLED)\<rparr>) g"
  have "NOT WS_DISABLED AND WS_VISIBLE = WS_VISIBLE" "WS_DISABLED AND WS_VISIBLE = 0"
    by (simp_all add: WS_DISABLED_def WS_VISIBLE_def)
  then have "(a AND NOT WS_DISABLED) AND WS_VISIBLE = a AND WS_VISIBLE" "(a OR WS_DISABLED) AND WS_VISIBLE = a AND WS_VISIBLE" for a
    by (simp_all add: and.assoc bit.conj_disj_distrib2)
  then have vis: "visible ?g = visible g" by (auto simp: fun_eq_iff has_style_def upd_win_def)
  have geo: "same_geo g ?g" by (simp add: same_geo_def upd_win_def)
  have "GET_WIN_ZORDER ?g t = GET_WIN_ZORDER g t" for t by (simp add: GET_WIN_ZORDER_def has_exstyle_def upd_win_def)
  then have "zwf ?g = zwf g" using zwf_cong(1) [OF geo] by simp
  then show ?thesis
    using assms clipped_for_cong [OF geo, of "visible g"] vis by (simp add: desk_inv_def clipped_def)
qed

lemma enable_mainwin_nodes: "nodes (snd (enable_mainwin w e g)) z = nodes g z"
proof -
  let ?g = "upd_win w (\<lambda>x. x\<lparr>dwStyle := (if e then dwStyle x AND NOT WS_DISABLED else dwStyle x OR WS_DISABLED)\<rparr>) g"
  let ?k = "if mg_capture ?g \<noteq> 0 \<and> pMainWin (dwins ?g (mg_capture ?g)) = w then ?g\<lparr>mg_capture := 0\<rparr> else ?g"
  have k: "nodes ?k z = nodes g z" using quiet_nodes [OF mod_capture(2) [where g = ?g]] by simp
  have "snd (enable_mainwin w e g) \<in> {g, snd (dskChangActiveWindow 0 ?k), emit [NcPaint w None] ?k, emit [NcPaint w None] ?g}"
    unfolding enable_mainwin_def Let_def by (simp only: snd_conv insert_iff if_split) simp
  then show ?thesis using k quiet_nodes [OF quiet_simps(4) [where g = ?k]] quiet_nodes [OF quiet_simps(2)] by auto
qed

lemma enable_mainwin_inv:
  assumes "desk_inv g"
  shows "desk_inv (snd (enable_mainwin w e g))"
proof -
  let ?g = "upd_win w (\<lambda>x. x\<lparr>dwStyle := (if e then dwStyle x AND NOT WS_DISABLED else dwStyle x OR WS_DISABLED)\<rparr>) g"
  let ?k = "if mg_capture ?g \<noteq> 0 \<and> pMainWin (dwins ?g (mg_capture ?g)) = w then ?g\<lparr>mg_capture := 0\<rparr> else ?g"
  have k: "quiet ?g ?k" by simp
  have "snd (enable_mainwin w e g) \<in> {g, snd (dskChangActiveWindow 0 ?k), emit [NcPaint w None] ?k, emit [NcPaint w None] ?g}"
    unfolding enable_mainwin_def Let_def by (simp only: snd_conv insert_iff if_split) simp
  then show ?thesis
    using assms set_disabled_inv [OF assms] quiet_trans [OF k quiet_simps(4)] quiet_trans [OF k quiet_simps(2)]
      quiet_simps(2) quiet_inv by (metis (no_types, lifting) insert_iff singletonD)
qed

text \<open>The two Z orders as lists of windows, and what each message does to them.\<close>

fun zspec :: "dsk_msg \<Rightarrow> nat \<Rightarrow> zsel \<Rightarrow> (zsel \<Rightarrow> nat list) \<Rightarrow> zsel \<Rightarrow> nat list" where
  "zspec MSG_ADDNEWMAINWIN w z0 ords z = (if z = z0 then w # ords z else ords z)"
| "zspec MSG_REMOVEMAINWIN w z0 ords z = remove1 w (ords z)"
| "zspec MSG_MOVETOTOPMOST w z0 ords z = (if w \<in> set (ords z) then w # remove1 w (ords z) else ords z)"
| "zspec MSG_SHOWGLOBALCTRL w z0 ords z = (if w \<in> set (ords z) then w # remove1 w (ords z) else ords z)"
| "zspec _ w z0 ords z = ords z"

text \<open>The result of a message: the invariant, and the Z orders of the specification.\<close>

definition meets :: "dsk_msg \<Rightarrow> nat \<Rightarrow> dsk \<Rightarrow> dsk option \<Rightarrow> bool" where
  "meets m w g r \<longleftrightarrow> (\<exists>g'. r = Some g' \<and> desk_inv g' \<and> nodes g' = zspec m w (new_zorder g w) (nodes g))"

lemma meetsI: "r = Some g' \<Longrightarrow> desk_inv g' \<Longrightarrow> (\<And>z. nodes g' z = zspec m w (new_zorder g w) (nodes g) z) \<Longrightarrow> meets m w g r"
  by (auto simp: meets_def)

lemma close_menu_zorder:
  assumes "zwf g"
  shows "new_zorder (close_menu g) w = new_zorder g w"
proof -
  have "zwf ((emit es g)\<lparr>mg_ptmi := []\<rparr>)" for es using zwf_ptmi [of "emit es g"] frame_desk(6) [OF frame_emit] assms by simp
  from frame_new_zorder [OF hide_menu_inv(2) [OF this]] show ?thesis
    by (cases "mg_ptmi g") (simp_all add: close_menu_def dskForceCloseMenu_def new_zorder_def has_exstyle_def emit_def)
qed

lemma keeps_meets:
  assumes "keeps g r" "nodes g = nodes g0" "\<And>x. quiet x (h x)" "\<And>z. zspec m w z0 (nodes g0) z = nodes g0 z"
    "z0 = new_zorder g0 w"
  shows "meets m w g0 (map_option h r)"
proof -
  obtain g' where g': "r = Some g'" "desk_inv g'" "same_desk g g'" using assms(1) by (auto simp: keeps_def)
  show ?thesis
    by (rule meetsI [of _ "h g'"])
      (use g' quiet_inv [OF assms(3)] quiet_nodes [OF assms(3)] same_deskD(2) [OF g'(3)] assms(2,4,5) in auto)
qed

lemma show_global_inv:
  assumes "desk_inv g" "allowed proc MSG_SHOWGLOBALCTRL w g"
  shows "meets MSG_SHOWGLOBALCTRL w g (WindowMessageHandler proc MSG_SHOWGLOBALCTRL w g)"
proof -
  let ?c = "close_menu g"
  note c = close_menu_inv [OF assms(1)]
  obtain z where z: "w \<in> set (nodes ?c z)" using assms(2) order_nodes c(3) by fastforce
  let ?rc = "\<lambda>g. wrc (dwins g w)"
  obtain h where h: "dskMoveGlobalControl proc w ?rc ?c = Some h" "desk_inv h" "frame (change_size proc w (?rc ?c) ?c) h"
    using dskMoveGlobalControl_inv [of proc w ?rc ?c z] assms(2) z by auto
  have n: "nodes h z = nodes g z" for z using frame_same(3) [OF h(3)] c(3) by simp
  have "menus h = {}" using frame_desk(4) [OF h(3)] c(2) by (simp add: menus_def)
  then obtain a k where k: "dskMoveToTopMost w RCTM_SHOWCTRL 0 h = Some (a, k)" "desk_inv k"
    "\<forall>z. nodes k z = (if w \<in> set (nodes h z) then w # remove1 w (nodes h z) else nodes h z)"
    using dskMoveToTopMost_inv [OF h(2), of w z RCTM_SHOWCTRL 0] z n c(3) by auto
  show ?thesis
    by (rule meetsI [of _ "dskSetPrimitiveChildren w True k"])
      (use h(1) k n quiet_inv [OF quiet_simps(5)] quiet_nodes [OF quiet_simps(5)] in auto)
qed

lemma move_inv:
  assumes "desk_inv g" "allowed proc (MSG_MOVEMAINWIN rc) w g"
  shows "meets (MSG_MOVEMAINWIN rc) w g (WindowMessageHandler proc (MSG_MOVEMAINWIN rc) w g)"
proof -
  obtain z where z: "w \<in> set (nodes g z)" using assms(2) order_nodes by auto
  show ?thesis
  proof (cases "WinType (dwins g w) = TYPE_CONTROL")
    case True
    then obtain h where h: "dskMoveGlobalControl proc w (\<lambda>_. rc) g = Some h" "desk_inv h" "frame (change_size proc w rc g) h"
      using dskMoveGlobalControl_inv [of proc w "\<lambda>_. rc" g z] z assms(2) by auto
    show ?thesis by (rule meetsI [of _ h]) (use h True frame_same(3) [OF h(3)] in auto)
  next
    case False
    have m: "zwf (moved proc w rc g)" "nodes (moved proc w rc g) z' = nodes g z'" for z'
      using assms by (auto simp: moved_def desk_inv_def)
    obtain h where h: "dskMoveMainWindow proc w rc g = Some h" "desk_inv h" "frame (moved proc w rc g) h"
      using dskMoveMainWindow_inv [OF m(1)] m(2) z by auto
    show ?thesis by (rule meetsI [of _ h]) (use h False frame_same(3) [OF h(3)] m(2) in auto)
  qed
qed

lemma menu_meets:
  assumes "desk_inv g"
  shows "rect_norm (tm_rc tm) \<Longrightarrow> meets (MSG_TRACKPOPUPMENU tm) w g (dskTrackPopupMenu tm g)"
    "unlink_menu tm (mg_ptmi g) \<noteq> None \<Longrightarrow> meets (MSG_ENDTRACKMENU tm) w g (dskEndTrackMenu tm g)"
    "meets MSG_CLOSEMENU w g (Some (snd (dskForceCloseMenu g)))"
proof -
  show "rect_norm (tm_rc tm) \<Longrightarrow> meets (MSG_TRACKPOPUPMENU tm) w g (dskTrackPopupMenu tm g)"
    using dskTrackPopupMenu_inv [OF assms] by (auto simp: meets_def fun_eq_iff)
  show "unlink_menu tm (mg_ptmi g) \<noteq> None \<Longrightarrow> meets (MSG_ENDTRACKMENU tm) w g (dskEndTrackMenu tm g)"
    using dskEndTrackMenu_inv [of g tm] assms by (fastforce simp: meets_def fun_eq_iff desk_inv_def)
  have "snd (dskForceCloseMenu g) = close_menu g" by (simp add: close_menu_def dskForceCloseMenu_def split: list.split)
  then show "meets MSG_CLOSEMENU w g (Some (snd (dskForceCloseMenu g)))"
    using close_menu_inv [OF assms] by (auto simp: meets_def fun_eq_iff)
qed

theorem handler_inv:
  assumes "desk_inv g" "allowed proc m w g"
  shows "meets m w g (WindowMessageHandler proc m w g)"
proof -
  note c = close_menu_inv [OF assms(1)]
  have cn: "nodes (close_menu g) = nodes g" using c(3) by (simp add: fun_eq_iff)
  have z: "\<exists>z. w \<in> set (nodes (close_menu g) z)" if "w \<in> set (order g)" using that order_nodes c(3) by fastforce
  have zo: "new_zorder (close_menu g) w = new_zorder g w" using close_menu_zorder assms(1) by (simp add: desk_inv_def)
  show ?thesis
  proof (cases m)
    case MSG_ADDNEWMAINWIN
    then show ?thesis using dskAddNewMainWindow_inv [OF c(1,2), of w] assms(2) c(3,4,5) zo by (auto simp: meets_def fun_eq_iff)
  next
    case MSG_REMOVEMAINWIN
    then show ?thesis
      using dskRemoveMainWindow_inv [OF c(1,2), of w] z assms(2) c(3) quiet_inv [OF mod_capture(1)] quiet_nodes [OF mod_capture(1)]
      by (fastforce simp: meets_def fun_eq_iff)
  next
    case MSG_MOVETOTOPMOST
    then show ?thesis
      using dskMoveToTopMost_inv [OF c(1,2), of w] z assms(2) c(3) by (fastforce simp: meets_def fun_eq_iff)
  next
    case MSG_SHOWMAINWIN
    then obtain z' where "w \<in> set (nodes (close_menu g) z')" using z assms(2) by auto
    from keeps_meets [OF dskShowMainWindow_keeps [OF c(1,2) this] cn, of "\<lambda>x. x"] MSG_SHOWMAINWIN show ?thesis
      by (simp add: option.map_comp comp_def)
  next
    case MSG_HIDEMAINWIN
    then obtain z' where "w \<in> set (nodes (close_menu g) z')" using z assms(2) by auto
    from keeps_meets [OF dskHideMainWindow_keeps [OF c(1,2) this] cn, of "reset_desktop_capture_info w"] MSG_HIDEMAINWIN
    show ?thesis by (simp add: option.map_comp)
  next
    case MSG_HIDEGLOBALCTRL
    then obtain z' where "w \<in> set (nodes (close_menu g) z')" using z assms(2) by auto
    then obtain a h where h: "dskHideMainWindow w (close_menu g) = Some (a, h)" "keeps (close_menu g) (Some h)"
      using dskHideMainWindow_keeps [OF c(1,2)] by (fastforce simp: keeps_def)
    from keeps_meets [OF h(2) cn, of "dskSetPrimitiveChildren w False"] MSG_HIDEGLOBALCTRL h(1) show ?thesis by simp
  next
    case (MSG_ENABLEMAINWIN e)
    then show ?thesis using enable_mainwin_inv [OF assms(1)] enable_mainwin_nodes by (auto simp: meets_def fun_eq_iff)
  qed (use assms show_global_inv move_inv menu_meets quiet_inv [OF quiet_simps(4)] quiet_nodes [OF quiet_simps(4)]
    quiet_inv [OF mod_capture(3)] quiet_nodes [OF mod_capture(3)] quiet_inv [OF mod_capture(4)] quiet_nodes [OF mod_capture(4)]
    in \<open>auto simp: meets_def fun_eq_iff\<close>)
qed

end
