(* ===== verification/Desktop_Active.thy ===== *)
theory Desktop_Active
  imports Desktop_Steps
begin

section \<open>The desktop: the active window\<close>

text \<open>
  The loops over the clip regions leave the active window alone, and the operations make only windows of
  the Z orders active.
\<close>

subsection \<open>Steps that leave the active window alone\<close>

definition focus :: "dsk \<Rightarrow> nat \<times> nat" where
  "focus g = (mg_active g, mg_ime_wnd g)"

lemma focus_fold: "(\<And>t g. focus (f t g) = focus g) \<Longrightarrow> focus (fold f ns g) = focus g"
  by (induction ns arbitrary: g) simp_all

lemma focus_steps [simp]:
  "focus (emit es g) = focus g" "focus (upd_win w h g) = focus g" "focus (set_hidden w g) = focus g" "focus (set_visible w g) = focus g"
  "focus (end_clip_window w g) = focus g" "focus (clip_region r rc g) = focus g" "focus (reset_window w rc g) = focus g"
  "focus (g\<lparr>gcr := c\<rparr>) = focus g" "focus (g\<lparr>scr_age := a\<rparr>) = focus g" "focus (g\<lparr>invr := c\<rparr>) = focus g"
  "focus (g\<lparr>mg_ptmi := ms\<rparr>) = focus g" "focus (g\<lparr>mg_capture := w\<rparr>) = focus g"
  by (simp_all add: focus_def emit_def set_hidden_def set_visible_def end_clip_window_def upd_win_def clip_region_def
      reset_window_def Let_def)

lemma focus_upd_zorder [simp]: "focus (upd_zorder z f g) = focus g"
  by (simp add: upd_zorder_def focus_def split: zsel.split)

lemma focus_clip_by [simp]: "focus (clip_by r ns g) = focus g"
  unfolding clip_by_def by (rule focus_fold) simp

lemma focus_repaint [simp]: "focus (repaint t rc g) = focus g"
  by (simp add: repaint_def split: prod.split)

lemma focus_recalc_window [simp]: "focus (recalc_window z t rc g) = focus g"
  by (simp add: recalc_window_def Let_def clip_above_eq)

lemma focus_clip_menus: "focus (fold (\<lambda>m. clip_region r (tm_rc m)) ms g) = focus g"
  by (rule focus_fold) simp

lemma focus_recalc_desktop [simp]: "focus (recalc_desktop ms g) = focus g"
  by (simp add: recalc_desktop_def Let_def focus_clip_menus)

lemma focus_clip_desktop [simp]: "focus (clip_desktop rc g) = focus g"
  by (simp add: clip_desktop_def)

lemma focus_reclip_window [simp]: "focus (reclip_window z t g) = focus g"
  by (simp add: reclip_window_def Let_def clip_above_eq focus_clip_menus)

lemma focus_hide_menu [simp]: "focus (dskUpdateAllGCRInfoOnHideMenu g) = focus g"
proof -
  have "focus (fold (\<lambda>t g. if visible g t then reclip_window z t g else g) ns g) = focus g" for z ns g by (rule focus_fold) simp
  then show ?thesis by (simp add: dskUpdateAllGCRInfoOnHideMenu_def Let_def)
qed

lemma focus_close_menu [simp]: "focus (close_menu g) = focus g"
  by (simp add: close_menu_def dskForceCloseMenu_def split: list.split)

lemma focus_new_window [simp]: "focus (add_new_window w (init_invrgn w (init_gcrinfo w g))) = focus g"
  by (simp add: add_new_window_def init_invrgn_def init_gcrinfo_def Let_def)

lemma focus_primitive [simp]: "focus (dskSetPrimitiveChildren w b g) = focus g"
  unfolding dskSetPrimitiveChildren_def Let_def by (rule focus_fold) (simp add: case_prod_beta)

lemma focus_change_size [simp]: "focus (change_size proc w rc g) = focus g"
  by (simp add: change_size_def)

lemma focus_capture [simp]: "focus (reset_desktop_capture_info w g) = focus g" "focus (snd (DesktopSetCapture w g)) = focus g"
  "focus (g\<lparr>sg_hCaretWnd := c\<rparr>) = focus g"
  by (simp_all add: reset_desktop_capture_info_def DesktopSetCapture_def Let_def focus_def)

lemma focus_update [simp]:
  "focus (snd (dskUpdateOldMainWindow w ri rw rc g)) = focus g" "focus (snd (dskUpdateWindow w ri rw rc g)) = focus g"
  by (simp_all add: dskUpdateOldMainWindow_def dskUpdateWindow_def Let_def split: prod.split)

lemma focus_uncover [simp]: "focus (uncover w rc g) = focus g"
proof -
  have "focus (fold (\<lambda>t g. if t \<noteq> w \<and> visible g t
      then snd (dskUpdateWindow t rc (dskGetWindowRectInScreen g t) (dskGetClientRectInScreen g t) g) else g) ns g) = focus g" for ns g
    by (rule focus_fold) simp
  then show ?thesis unfolding uncover_def Let_def by simp
qed

lemma focus_change_topmost [simp]: "focus (dskUpdateGCRInfoOnChangeTopMost w g) = focus g"
proof -
  have "focus (snd (fold (\<lambda>t (b, g). if visible g t
       then let (meets, rcInter) = IntersectRect rc (dskGetWindowRectInScreen g t)
            in if meets then (True, emit (es g rcInter) (end_clip_window t (clip_region t rc g))) else (b, g)
       else (b, g)) ns (b, g))) = focus g" for rc ns b es g
    unfolding flag_fold by (rule focus_fold) simp
  from this [of _ "\<lambda>g r. [WndInvalidate w (dskScreenToClient g w r)]"]
  have f: "focus (snd (update_on_change_topmost z w rc g)) = focus g" for z rc by (simp add: update_on_change_topmost_def)
  show ?thesis
    using f [of "GET_WIN_ZORDER g w" "dskGetWindowRectInScreen g w"]
    by (cases "update_on_change_topmost (GET_WIN_ZORDER g w) w (dskGetWindowRectInScreen g w) g")
      (simp add: dskUpdateGCRInfoOnChangeTopMost_def Let_def)
qed

text \<open>The steps that may end with an access through NULL.\<close>

lemma focus_clip_under: "clip_windows_under_this z w rc g = Some g' \<Longrightarrow> focus g' = focus g"
proof -
  have "focus (clip_list rc ns g) = focus g" for ns by (rule focus_fold) simp
  then show "clip_windows_under_this z w rc g = Some g' \<Longrightarrow> focus g' = focus g"
    by (auto simp: clip_windows_under_this_def Option.bind_eq_Some_conv split: if_splits)
qed

lemma focus_recalc_under: "recalc_windows_under_this z w rc g = Some g' \<Longrightarrow> focus g' = focus g"
proof -
  have "focus (fold (\<lambda>t g. if visible g t then recalc_window z t rc g else g) ns g) = focus g" for ns by (rule focus_fold) simp
  then show "recalc_windows_under_this z w rc g = Some g' \<Longrightarrow> focus g' = focus g"
    by (auto simp: recalc_windows_under_this_def Option.bind_eq_Some_conv)
qed

lemma focus_recalc_windows [simp]: "focus (recalc_windows z rc g) = focus g"
  unfolding recalc_windows_def by (rule focus_fold) simp

lemmas focus_under = focus_clip_under focus_recalc_under

lemma focus_show: "dskUpdateGCRInfoOnShowMainWin w g = Some g' \<Longrightarrow> focus g' = focus g"
  by (auto simp: dskUpdateGCRInfoOnShowMainWin_def Let_def Option.bind_eq_Some_conv clip_windows_def clip_above_eq
      clip_by_all_above_this_def clip_by_windows_def dest!: focus_under split: if_splits)

lemma focus_show_new: "dskUpdateGCRInfoOnShowNewMainWin w g = Some g' \<Longrightarrow> focus g' = focus g"
  by (auto simp: dskUpdateGCRInfoOnShowNewMainWin_def Let_def Option.bind_eq_Some_conv clip_windows_def
      clip_by_windows_def dest!: focus_under split: if_splits)

lemma focus_hide: "dskUpdateGCRInfoOnHideMainWin w g = Some g' \<Longrightarrow> focus g' = focus g"
  by (auto simp: dskUpdateGCRInfoOnHideMainWin_def Let_def Option.bind_eq_Some_conv dest!: focus_under split: if_splits)

lemma focus_move_to_top: "move_to_top w g = Some g' \<Longrightarrow> focus g' = focus g"
  by (auto simp: move_to_top_def split: if_splits)

lemma focus_move:
  "move_hidden_to_top w g = Some g' \<Longrightarrow> focus g' = focus g" "move_visible_to_top w g = Some g' \<Longrightarrow> focus g' = focus g"
  by (auto simp: move_hidden_to_top_def move_visible_to_top_def Option.bind_eq_Some_conv dest!: focus_move_to_top focus_show_new)

lemma focus_remove_window: "remove_window w g = Some g' \<Longrightarrow> focus g' = focus g"
  by (auto simp: remove_window_def split: if_splits)

lemma focus_move_main: "dskMoveMainWindow proc w rc g = Some g' \<Longrightarrow> focus g' = focus g"
proof -
  have old: "focus (fold (\<lambda>r g. snd (dskUpdateOldMainWindow w r ow oc g)) rs g) = focus g" for g ow oc rs by (rule focus_fold) simp
  have ab: "focus (fold (\<lambda>t g. if t \<noteq> w \<and> visible g t
      then snd (dskUpdateOldMainWindow w (dskGetWindowRectInScreen g t) ow oc g) else g) ns g) = focus g" for g ow oc ns
    by (rule focus_fold) simp
  have un: "focus (fold (uncover w) rs g) = focus g" for g rs by (rule focus_fold) simp
  show "dskMoveMainWindow proc w rc g = Some g' \<Longrightarrow> focus g' = focus g"
    by (auto simp: dskMoveMainWindow_def Let_def Option.bind_eq_Some_conv old ab un)
qed

lemma focus_move_control: "dskMoveGlobalControl proc w rc g = Some g' \<Longrightarrow> focus g' = focus g"
  by (auto simp: dskMoveGlobalControl_def Let_def Option.bind_eq_Some_conv dest!: focus_move_main split: if_splits)

subsection \<open>Which window becomes active\<close>

lemma focus_active: "focus g' = focus g \<Longrightarrow> mg_active g' = mg_active g"
  by (simp add: focus_def)

lemma change_active: "mg_active (snd (dskChangActiveWindow w g)) \<in> {mg_active g, w}"
  by (simp add: dskChangActiveWindow_def Let_def DesktopSetActiveWindow_def emit_def)

lemma find_in: "find P xs = Some x \<Longrightarrow> x \<in> set xs \<and> P x"
  by (induction xs) (auto split: if_splits)

lemma first_activable_in: "dskGetFirstActivableWindow g = 0 \<or> dskGetFirstActivableWindow g \<in> set (order g)"
  by (auto simp: dskGetFirstActivableWindow_def order_def dest!: find_in split: option.split)

definition known :: "dsk \<Rightarrow> nat \<Rightarrow> nat \<Rightarrow> bool" where
  "known g w a \<longleftrightarrow> a \<in> {mg_active g, w, 0} \<union> set (order g)"

lemma same_desk_order: "same_desk g g' \<Longrightarrow> order g' = order g"
  using same_deskD(2) by (simp add: order_def)

lemma show_active: "dskShowMainWindow w b g = Some (a, g') \<Longrightarrow> mg_active g' \<in> {mg_active g, w}"
proof -
  have "focus h = focus g \<Longrightarrow> mg_active (snd (dskChangActiveWindow w (emit es (set_visible w h)))) \<in> {mg_active g, w}" for h es
    using change_active [of w "emit es (set_visible w h)"] focus_active [of "emit es (set_visible w h)" g] by simp
  moreover have "focus h = focus g \<Longrightarrow> mg_active (emit es (set_visible w h)) = mg_active g" for h es
    by (rule focus_active) simp
  ultimately show "dskShowMainWindow w b g = Some (a, g') \<Longrightarrow> mg_active g' \<in> {mg_active g, w}"
    by (auto simp: dskShowMainWindow_def Let_def Option.bind_eq_Some_conv dest!: focus_show split: if_splits)
      (metis insertE singletonD snd_conv)+
qed

lemma add_active: "dskAddNewMainWindow w g = Some (a, g') \<Longrightarrow> mg_active g' \<in> {mg_active g, w}"
proof -
  let ?h = "if pHosting (dwins g w) \<noteq> 0 then dskAddNewHostedMainWindow (pHosting (dwins g w)) w g else g"
  let ?n = "add_new_window w (init_invrgn w (init_gcrinfo w ?h))"
  have f: "focus ?n = focus g" by (simp add: dskAddNewHostedMainWindow_def)
  show "dskAddNewMainWindow w g = Some (a, g') \<Longrightarrow> mg_active g' \<in> {mg_active g, w}"
  proof (cases "visible ?n w")
    case True
    assume "dskAddNewMainWindow w g = Some (a, g')"
    then obtain k es where "dskUpdateGCRInfoOnShowNewMainWin w ?n = Some k" and c: "dskChangActiveWindow w (emit es k) = (a, g')"
      using True by (auto simp: dskAddNewMainWindow_def Let_def Option.bind_eq_Some_conv)
    moreover have "g' = snd (dskChangActiveWindow w (emit es k))" using c by simp
    ultimately show ?thesis using change_active [of w "emit es k"] focus_active [of "emit es k" g] focus_show_new f by simp
  next
    case False
    assume "dskAddNewMainWindow w g = Some (a, g')"
    then show ?thesis using False focus_active [OF f] by (simp add: dskAddNewMainWindow_def Let_def)
  qed
qed

lemma hide_next_active:
  assumes "desk_inv g" "menus g = {}" "w \<in> set (nodes g z)" "visible g w" "dskUpdateGCRInfoOnHideMainWin w g = Some h"
  defines "k \<equiv> (if mg_active h = w then snd (dskChangActiveWindow (dskGetFirstActivableWindow h) h) else h)"
  shows "known g 0 (mg_active k)"
proof -
  obtain h' where h: "dskUpdateGCRInfoOnHideMainWin w g = Some h'" "frame (set_hidden w g) h'" using hide_keeps [OF assms(1-4)] by blast
  then have "frame (set_hidden w g) h" using assms(5) by simp
  then have ord: "order h = order g" using frame_desk(1) by (simp add: order_def)
  have "mg_active h = mg_active g" using focus_active [OF focus_hide [OF assms(5)]] .
  then show ?thesis
    using change_active [of "dskGetFirstActivableWindow h" h] first_activable_in [of h] ord by (auto simp: k_def known_def)
qed

lemma hide_active:
  assumes "desk_inv g" "menus g = {}" "w \<in> set (nodes g z)" "dskHideMainWindow w g = Some (a, g')"
  shows "known g 0 (mg_active g')"
proof (cases "visible g w")
  case True
  then obtain h where h: "dskUpdateGCRInfoOnHideMainWin w g = Some h"
    "g' = (if mg_active h = w then snd (dskChangActiveWindow (dskGetFirstActivableWindow h) h) else h)"
    using assms(4) by (auto simp: dskHideMainWindow_def Let_def Option.bind_eq_Some_conv)
  show ?thesis using hide_next_active [OF assms(1-3) True h(1)] h(2) by simp
qed (use assms(4) in \<open>auto simp: dskHideMainWindow_def known_def\<close>)

text \<open>A hidden window that is active stays the active one when it is removed.\<close>

lemma remove_active:
  assumes "desk_inv g" "menus g = {}" "w \<in> set (nodes g z)" "dskRemoveMainWindow w g = Some (a, g')"
  shows "known g 0 (mg_active g')" "mg_active g' = w \<longleftrightarrow> mg_active g = w \<and> \<not> visible g w"
proof -
  let ?g = "if pHosting (dwins g w) \<noteq> 0 then dskRemoveHostedMainWindow (pHosting (dwins g w)) w g else g"
  have f: "frame g ?g" "gcr ?g = gcr g" "focus ?g = focus g" by (simp_all add: dskRemoveHostedMainWindow_def)
  have g: "desk_inv ?g" "menus ?g = {}" "w \<in> set (nodes ?g z)" "order ?g = order g" "visible ?g w = visible g w"
    "mg_active ?g = mg_active g"
    using desk_inv_cong [OF assms(1) f(1,2)] frame_desk(1,4) [OF f(1)] frame_same(1,3) [OF f(1)] focus_active [OF f(3)] assms(2,3)
    by simp_all
  have w: "w \<noteq> 0" using zwfD(3) assms(1,3) by (auto simp: desk_inv_def)
  have "known g 0 (mg_active g') \<and> (mg_active g' = w \<longleftrightarrow> mg_active g = w \<and> \<not> visible g w)"
  proof (cases "visible g w")
    case False
    then have "remove_window w ?g = Some g'" using assms(4) g(5) by (auto simp: dskRemoveMainWindow_def Let_def Option.bind_eq_Some_conv)
    from focus_active [OF focus_remove_window [OF this]] show ?thesis using g(6) False by (simp add: known_def)
  next
    case True
    then obtain h where h: "dskUpdateGCRInfoOnHideMainWin w ?g = Some h" using hide_keeps [OF g(1-3)] g(5) by auto
    let ?h = "if mg_active h = w then snd (dskChangActiveWindow (dskGetFirstActivableWindow h) h) else h"
    let ?k = "if mg_active ?h = w then ?h\<lparr>mg_active := 0\<rparr> else ?h"
    have "remove_window w ?k = Some g'"
      using assms(4) True g(5) h by (auto simp: dskRemoveMainWindow_def Let_def Option.bind_eq_Some_conv)
    from focus_active [OF focus_remove_window [OF this]] have "mg_active g' = (if mg_active ?h = w then 0 else mg_active ?h)" by simp
    then show ?thesis using hide_next_active [OF g(1-3) _ h] True w g(4,5,6) by (auto simp: known_def)
  qed
  then show "known g 0 (mg_active g')" "mg_active g' = w \<longleftrightarrow> mg_active g = w \<and> \<not> visible g w" by blast+
qed

lemma top_control_active:
  assumes "desk_inv g" "menus g = {}" "p \<in> set (nodes g z)" "hide_top_control p reason l g = Some g'"
  shows "known g 0 (mg_active g')"
proof (cases "p \<noteq> 0 \<and> WinType (dwins g p) = TYPE_CONTROL \<and> visible g p")
  case True
  then obtain a h where h: "dskHideMainWindow p g = Some (a, h)"
    "g' = emit [ChildHidden (case pParents (dwins (dskSetPrimitiveChildren p False h) p) of [] \<Rightarrow> 0 | q # _ \<Rightarrow> q) reason l]
       (dskSetPrimitiveChildren p False h)"
    using assms(4) unfolding hide_top_control_def Let_def by (simp only: if_True True simp_thms) (auto simp: Option.bind_eq_Some_conv)
  then have "focus g' = focus h" by simp
  from focus_active [OF this] show ?thesis using hide_active [OF assms(1-3) h(1)] by simp
next
  case False
  then have "hide_top_control p reason l g = Some g" unfolding hide_top_control_def by (simp only: if_False simp_thms)
  then show ?thesis using assms(4) by (simp add: known_def)
qed

lemma top_active:
  assumes "desk_inv g" "menus g = {}" "w = 0 \<or> w \<in> set (order g)" "dskMoveToTopMost w reason l g = Some (a, g')"
  shows "known g w (mg_active g')"
proof (cases "w = 0")
  case False
  then obtain z where z: "w \<in> set (nodes g z)" using assms(3) order_nodes by blast
  then have zo: "GET_WIN_ZORDER g w = z" using zwfD(1) assms(1) by (auto simp: desk_inv_def)
  obtain p rest where p: "nodes g z = p # rest" using z by (cases "nodes g z") auto
  obtain h t where h: "hide_top_control p reason l g = Some h" "dskIsTopMost h w = Some t"
    and rest: "(if t \<and> visible h w then Some (mg_active h, h)
        else do {
          let g = reset_window w (dskGetWindowRectInScreen h w) h;
          let g = (if \<not> has_exstyle g w WS_EX_TOPMOST then clip_by_windows TopZ w g else g);
          let g = end_clip_window w g;
          g \<leftarrow> (if \<not> visible g w then move_hidden_to_top w g else move_visible_to_top w g);
          Some (if reason \<noteq> RCTM_SHOWCTRL then dskChangActiveWindow w g else (mg_active g, g))
        }) = Some (a, g')"
    using assms(4) False zo p unfolding dskMoveToTopMost_def by (auto simp: Option.bind_eq_Some_conv Let_def split: if_splits)
  have k: "known g 0 (mg_active h)" using top_control_active [OF assms(1,2) _ h(1), of z] p by simp
  have "mg_active g' \<in> {mg_active h, w}"
  proof (cases "t \<and> visible h w")
    case True
    then show ?thesis using rest by simp
  next
    case nt: False
    define e where "e = (let g = reset_window w (dskGetWindowRectInScreen h w) h
      in end_clip_window w (if \<not> has_exstyle g w WS_EX_TOPMOST then clip_by_windows TopZ w g else g))"
    have "focus e = focus h" by (simp add: e_def Let_def clip_by_windows_def)
    moreover obtain m where m: "(if \<not> visible e w then move_hidden_to_top w e else move_visible_to_top w e) = Some m"
      "(if reason \<noteq> RCTM_SHOWCTRL then dskChangActiveWindow w m else (mg_active m, m)) = (a, g')"
      using rest unfolding if_not_P [OF nt] Let_def e_def [unfolded Let_def, symmetric] Option.bind_eq_Some_conv by blast
    moreover have "focus m = focus e" using m(1) focus_move by (auto split: if_splits)
    ultimately have "mg_active m = mg_active h" by (simp add: focus_def)
    moreover have "g' = (if reason \<noteq> RCTM_SHOWCTRL then snd (dskChangActiveWindow w m) else m)"
      using m(2) by (auto split: if_splits dest: sym)
    ultimately show ?thesis using change_active [of w m] by auto
  qed
  then show ?thesis using k by (auto simp: known_def)
qed (use assms(4) in \<open>simp add: dskMoveToTopMost_def known_def\<close>)

lemma enable_active: "mg_active (snd (enable_mainwin w e g)) \<in> {mg_active g, 0}"
proof -
  let ?g = "upd_win w (\<lambda>x. x\<lparr>dwStyle := (if e then dwStyle x AND NOT WS_DISABLED else dwStyle x OR WS_DISABLED)\<rparr>) g"
  let ?k = "if mg_capture ?g \<noteq> 0 \<and> pMainWin (dwins ?g (mg_capture ?g)) = w then ?g\<lparr>mg_capture := 0\<rparr> else ?g"
  have "snd (enable_mainwin w e g) \<in> {g, snd (dskChangActiveWindow 0 ?k), emit [NcPaint w None] ?k, emit [NcPaint w None] ?g}"
    unfolding enable_mainwin_def Let_def by (simp only: snd_conv insert_iff if_split) simp
  moreover have "focus ?k = focus g" "focus (emit es ?k) = focus g" "focus (emit es ?g) = focus g" for es by simp_all
  ultimately show ?thesis using change_active [of 0 ?k] unfolding focus_def by (elim insertE emptyE; simp)
qed

subsection \<open>The active window is in a Z order\<close>

definition active_alive :: "dsk \<Rightarrow> bool" where
  "active_alive g \<longleftrightarrow> mg_active g = 0 \<or> mg_active g \<in> set (order g)"

lemma known_alive: "known g w a \<Longrightarrow> active_alive g \<Longrightarrow> w = 0 \<or> w \<in> set (order g) \<Longrightarrow> a = 0 \<or> a \<in> set (order g)"
  by (auto simp: known_def active_alive_def)

lemma close_menu_facts:
  assumes "desk_inv g"
  shows "known (close_menu g) w a = known g w a" "active_alive (close_menu g) = active_alive g"
    "mg_active (close_menu g) = mg_active g" "has_style (close_menu g) w st = has_style g w st"
proof -
  have act: "mg_active (close_menu g) = mg_active g" by (rule focus_active) simp
  then show "mg_active (close_menu g) = mg_active g" "known (close_menu g) w a = known g w a"
    "active_alive (close_menu g) = active_alive g"
    using close_menu_inv(4) [OF assms] by (simp_all add: known_def active_alive_def)
  have "zwf ((emit es g)\<lparr>mg_ptmi := []\<rparr>)" for es
    using zwf_ptmi [of "emit es g"] frame_desk(6) [OF frame_emit] assms by (simp add: desk_inv_def)
  from frame_same(1) [OF hide_menu_inv(2) [OF this]] show "has_style (close_menu g) w st = has_style g w st"
    by (cases "mg_ptmi g") (simp_all add: close_menu_def dskForceCloseMenu_def has_style_def emit_def)
qed

lemma focus_track: "dskTrackPopupMenu tm g = Some g' \<Longrightarrow> focus g' = focus g"
proof -
  have "focus (clip_list rc ns g) = focus g" for rc ns g by (rule focus_fold) simp
  then show "dskTrackPopupMenu tm g = Some g' \<Longrightarrow> focus g' = focus g"
    by (auto simp: dskTrackPopupMenu_def show_menu_eq Let_def)
qed

lemma focus_end_track: "dskEndTrackMenu tm g = Some g' \<Longrightarrow> focus g' = focus g"
proof -
  have "focus (repaint_windows z rc g) = focus g" for z rc g unfolding repaint_windows_def by (rule focus_fold) simp
  then show "dskEndTrackMenu tm g = Some g' \<Longrightarrow> focus g' = focus g"
    unfolding dskEndTrackMenu_def Let_def case_prod_beta by (auto simp: Option.bind_eq_Some_conv)
qed

lemma force_close_active [simp]: "focus (snd (dskForceCloseMenu g)) = focus g"
  by (simp add: dskForceCloseMenu_def split: list.split)

text \<open>The messages that raise, show or hide windows: what they may make active.\<close>

lemma window_message_active:
  assumes "desk_inv g" "allowed proc m w g" "WindowMessageHandler proc m w g = Some g'" "m \<noteq> MSG_REMOVEMAINWIN"
  shows "known g (if m = MSG_ADDNEWMAINWIN then w else 0) (mg_active g')"
proof -
  note c = close_menu_inv [OF assms(1)] and k = close_menu_facts [OF assms(1)]
  have pass: "known g (if m = MSG_ADDNEWMAINWIN then w else 0) (mg_active g')" if "focus g' = focus g"
    using focus_active [OF that] by (simp add: known_def)
  have z: "\<exists>z. w \<in> set (nodes (close_menu g) z)" if "w \<in> set (order g)" using that order_nodes c(3) by fastforce
  have zero: "known g w a \<Longrightarrow> w = 0 \<or> w \<in> set (order g) \<Longrightarrow> known g 0 a" for a by (auto simp: known_def)
  show ?thesis
  proof (cases m)
    case MSG_ADDNEWMAINWIN
    then show ?thesis using assms(3) add_active k(3) by (fastforce simp: known_def)
  next
    case MSG_SHOWMAINWIN
    then show ?thesis using assms(2,3) show_active k(3) by (fastforce simp: known_def)
  next
    case MSG_MOVETOTOPMOST
    then obtain a where "dskMoveToTopMost w RCTM_MESSAGE 0 (close_menu g) = Some (a, g')" using assms(3) by auto
    then have "known g w (mg_active g')" using top_active [OF c(1,2)] assms(2) c(4) k(1) MSG_MOVETOTOPMOST by simp
    then show ?thesis using zero assms(2) MSG_MOVETOTOPMOST by simp
  next
    case MSG_HIDEMAINWIN
    then obtain a h zo where h: "dskHideMainWindow w (close_menu g) = Some (a, h)" "g' = reset_desktop_capture_info w h"
      "w \<in> set (nodes (close_menu g) zo)" using assms(2,3) z by auto
    have "focus g' = focus h" using h(2) by simp
    from focus_active [OF this] show ?thesis using hide_active [OF c(1,2) h(3,1)] k(1) MSG_HIDEMAINWIN by simp
  next
    case MSG_HIDEGLOBALCTRL
    then obtain a h zo where h: "dskHideMainWindow w (close_menu g) = Some (a, h)" "g' = dskSetPrimitiveChildren w False h"
      "w \<in> set (nodes (close_menu g) zo)" using assms(2,3) z by (auto simp: Option.bind_eq_Some_conv)
    have "focus g' = focus h" using h(2) by simp
    from focus_active [OF this] show ?thesis using hide_active [OF c(1,2) h(3,1)] k(1) MSG_HIDEGLOBALCTRL by simp
  next
    case MSG_SHOWGLOBALCTRL
    let ?rc = "\<lambda>g. wrc (dwins g w)"
    obtain h a t where h: "dskMoveGlobalControl proc w ?rc (close_menu g) = Some h" "dskMoveToTopMost w RCTM_SHOWCTRL 0 h = Some (a, t)"
      "g' = dskSetPrimitiveChildren w True t" using assms(3) MSG_SHOWGLOBALCTRL by (auto simp: Option.bind_eq_Some_conv)
    obtain zo where zo: "w \<in> set (nodes (close_menu g) zo)" using z assms(2) MSG_SHOWGLOBALCTRL by auto
    have i: "desk_inv h" "frame (change_size proc w (?rc (close_menu g)) (close_menu g)) h"
      using dskMoveGlobalControl_inv [of proc w ?rc "close_menu g" zo] assms(2) zo h(1) MSG_SHOWGLOBALCTRL by auto
    have "menus h = {}" "order h = order g"
      using frame_desk(4) [OF i(2)] frame_same(3) [OF i(2)] c(2,3) by (simp_all add: menus_def order_def)
    then have "known h w (mg_active t)" using top_active [OF i(1) _ _ h(2)] assms(2) MSG_SHOWGLOBALCTRL by simp
    moreover have "mg_active h = mg_active g" using focus_active [OF focus_move_control [OF h(1)]] k(3) by simp
    moreover have "focus g' = focus t" using h(3) by simp
    from focus_active [OF this] have "mg_active g' = mg_active t" .
    ultimately have "known g w (mg_active g')" using \<open>order h = order g\<close> by (simp add: known_def)
    then show ?thesis using zero assms(2) MSG_SHOWGLOBALCTRL by simp
  next
    case (MSG_ENABLEMAINWIN e)
    then show ?thesis using assms(3) enable_active [of w e g] by (auto simp: known_def)
  next
    case MSG_SETACTIVEMAIN
    then show ?thesis using assms(2,3) change_active [of w g] by (auto simp: known_def)
  next
    case (MSG_MOVEMAINWIN rc)
    then show ?thesis using assms(3) focus_move_main focus_move_control by (intro pass) (auto split: if_splits)
  next
    case (MSG_TRACKPOPUPMENU tm)
    then show ?thesis using assms(3) focus_track by (intro pass) simp
  next
    case (MSG_ENDTRACKMENU tm)
    then show ?thesis using assms(3) focus_end_track by (intro pass) simp
  next
    case MSG_REMOVEMAINWIN
    then show ?thesis using assms(4) by simp
  qed ((rule pass, (insert assms(3), auto) [1])+)
qed

lemma zspec_order:
  assumes "zwf g" "nodes g' = zspec m w z0 (nodes g)"
  shows "set (order g') = (case m of MSG_ADDNEWMAINWIN \<Rightarrow> insert w (set (order g)) | MSG_REMOVEMAINWIN \<Rightarrow> set (order g) - {w}
    | _ \<Rightarrow> set (order g))"
proof -
  have "distinct (nodes g z)" for z using zwf_distinct [OF assms(1)] .
  then show ?thesis unfolding order_def assms(2) by (cases m; cases z0) auto
qed

theorem active_alive_iff:
  assumes "desk_inv g" "allowed proc m w g" "active_alive g" "WindowMessageHandler proc m w g = Some g'"
  shows "active_alive g' \<longleftrightarrow> \<not> (m = MSG_REMOVEMAINWIN \<and> mg_active g = w \<and> \<not> visible g w)"
proof -
  have zw: "zwf g" using assms(1) by (simp add: desk_inv_def)
  have ord: "set (order g') = (case m of MSG_ADDNEWMAINWIN \<Rightarrow> insert w (set (order g)) | MSG_REMOVEMAINWIN \<Rightarrow> set (order g) - {w}
    | _ \<Rightarrow> set (order g))"
    using handler_inv [OF assms(1,2)] zspec_order [OF zw] assms(4) by (auto simp: meets_def)
  show ?thesis
  proof (cases "m = MSG_REMOVEMAINWIN")
    case True
    note c = close_menu_inv [OF assms(1)] and k = close_menu_facts [OF assms(1)]
    have w: "w \<in> set (order g)" using assms(2) True by simp
    then obtain zo where zo: "w \<in> set (nodes (close_menu g) zo)" using order_nodes c(3) by fastforce
    have w0: "w \<noteq> 0" using w zw unfolding zwf_def by metis
    obtain a h where h: "dskRemoveMainWindow w (close_menu g) = Some (a, h)" "g' = reset_desktop_capture_info w h"
      using assms(4) True by auto
    have "focus g' = focus h" using h(2) by simp
    from focus_active [OF this] have act: "mg_active g' = mg_active h" .
    note r = remove_active [OF c(1,2) zo h(1)]
    have "known g 0 (mg_active h)" using r(1) unfolding k(1) .
    then have "mg_active h = 0 \<or> mg_active h \<in> set (order g)" by (rule known_alive) (use assms(3) in simp_all)
    moreover have "set (order g') = set (order g) - {w}" using ord True by simp
    ultimately have "active_alive g' \<longleftrightarrow> mg_active h \<noteq> w"
      using w0 unfolding active_alive_def act by (cases "mg_active h = 0") simp_all
    then show ?thesis using r(2) k(3,4) True by simp
  next
    case False
    have k: "known g (if m = MSG_ADDNEWMAINWIN then w else 0) (mg_active g')"
      using window_message_active [OF assms(1,2,4) False] .
    have sub: "set (order g') = (if m = MSG_ADDNEWMAINWIN then insert w (set (order g)) else set (order g))"
      using ord False by (cases m) simp_all
    show ?thesis
      using k assms(3) False unfolding known_def active_alive_def sub by (cases "m = MSG_ADDNEWMAINWIN") auto
  qed
qed

end
