(* ===== verification/Desktop_Reach.thy ===== *)
theory Desktop_Reach
  imports Desktop_Active
begin

section \<open>The desktop: mouse, keyboard and reachable states\<close>

text \<open>
  The handlers of mouse and keyboard keep the invariant, and the states that the desktop reaches by messages and
  input are those of a step relation.
\<close>

subsection \<open>The mouse\<close>

lemma quiet_mouse [simp]: "quiet g (g\<lparr>mgs_old_under_p := a\<rparr>)" "quiet g (g\<lparr>mgs_down_buttons := b\<rparr>)" "quiet g (hold_button w m g)"
  "quiet g (release_all g)" "quiet g (g\<lparr>mg_modal := c\<rparr>)" "quiet g (g\<lparr>mg_altdown := c\<rparr>)"
  by (simp_all add: quiet_def frame_def hold_button_def release_all_def)

lemma focus_mouse [simp]: "focus (g\<lparr>mgs_old_under_p := a\<rparr>) = focus g" "focus (g\<lparr>mgs_down_buttons := b\<rparr>) = focus g"
  "focus (hold_button w m g) = focus g" "focus (release_all g) = focus g" "focus (g\<lparr>mg_modal := c\<rparr>) = focus g"
  "focus (g\<lparr>mg_altdown := c\<rparr>) = focus g"
  by (simp_all add: focus_def hold_button_def release_all_def)

lemma quiet_press [simp]: "quiet g (press_more m flags x y g)" "focus (press_more m flags x y g) = focus g"
  unfolding press_more_def using quiet_trans [OF quiet_simps(2) quiet_mouse(2)] by simp_all

lemma quiet_move [simp]: "quiet g (mouse_move w flags x y g)" "focus (mouse_move w flags x y g) = focus g"
  using quiet_emitted [OF quiet_trans [OF quiet_simps(2) quiet_mouse(1)]] by (simp_all add: mouse_move_def Let_def)

lemma quiet_up [simp]: "quiet g (mouse_up w m flags x y g)" "focus (mouse_up w m flags x y g) = focus g"
  using quiet_trans [OF quiet_simps(2) quiet_mouse(2)] quiet_trans [OF quiet_trans [OF quiet_simps(2) quiet_mouse(2)] quiet_mouse(4)]
  by (simp_all add: mouse_up_def Let_def)

lemma quiet_dblclk [simp]: "quiet g (mouse_dblclk w m flags x y g)" "focus (mouse_dblclk w m flags x y g) = focus g"
  using quiet_trans [OF quiet_simps(2) quiet_mouse(3)] quiet_trans [OF quiet_simps(2) quiet_mouse(4)]
  by (simp_all add: mouse_dblclk_def)

text \<open>The invariant and a live active window together.\<close>

definition desk_live :: "dsk \<Rightarrow> bool" where
  "desk_live g \<longleftrightarrow> desk_inv g \<and> active_alive g"

lemma quiet_live:
  assumes "quiet g g'" "focus g' = focus g" "desk_live g"
  shows "desk_live g'"
  using quiet_inv [OF assms(1)] quiet_nodes [OF assms(1)] focus_active [OF assms(2)] assms(3)
  by (simp add: desk_live_def active_alive_def order_def)

lemma change_active_live:
  assumes "desk_live g" "w = 0 \<or> w \<in> set (order g)"
  shows "desk_live (snd (dskChangActiveWindow w g))"
  using quiet_inv [OF quiet_simps(4)] quiet_nodes [OF quiet_simps(4)] change_active [of w g] assms
  by (auto simp: desk_live_def active_alive_def order_def)

lemma close_menu_live: "desk_live g \<Longrightarrow> desk_live (close_menu g)"
  using close_menu_inv(1) close_menu_facts(2) by (simp add: desk_live_def)

lemma move_to_top_live:
  assumes "desk_live g" "menus g = {}" "w = 0 \<or> w \<in> set (order g)"
  shows "\<exists>a g'. dskMoveToTopMost w reason l g = Some (a, g') \<and> desk_live g' \<and> set (order g') = set (order g)
    \<and> (\<forall>z. nodes g' z = (if w \<in> set (nodes g z) then w # remove1 w (nodes g z) else nodes g z)) \<and> (w = 0 \<or> visible g' w)"
proof -
  have inv: "desk_inv g" "active_alive g" using assms(1) by (simp_all add: desk_live_def)
  obtain z where z: "w = 0 \<or> w \<in> set (nodes g z)" using assms(3) order_nodes by blast
  obtain a g' where g': "dskMoveToTopMost w reason l g = Some (a, g')" "desk_inv g'"
    "\<forall>z. nodes g' z = (if w \<in> set (nodes g z) then w # remove1 w (nodes g z) else nodes g z)" "w = 0 \<or> visible g' w"
    using dskMoveToTopMost_inv [OF inv(1) assms(2) z] by blast
  have "distinct (nodes g z)" for z using zwf_distinct inv(1) by (simp add: desk_inv_def)
  then have ord: "set (order g') = set (order g)" using g'(3) by (auto simp: order_def)
  have "known g w (mg_active g')" using top_active [OF inv(1) assms(2,3) g'(1)] .
  then have "active_alive g'" using known_alive [OF _ inv(2) assms(3)] ord by (simp add: active_alive_def)
  then show ?thesis using g' ord by (simp add: desk_live_def)
qed

text \<open>The window is the first of its Z order and active, or one that is not activated.\<close>

definition in_front :: "dsk \<Rightarrow> nat \<Rightarrow> bool" where
  "in_front g w \<longleftrightarrow> (\<exists>z rest. nodes g z = w # rest)
     \<and> (mg_active g = w \<or> has_exstyle g w WS_EX_TOOLWINDOW \<or> mg_ime_wnd g = w)"

lemma in_front_cong: "quiet g g' \<Longrightarrow> focus g' = focus g \<Longrightarrow> in_front g w \<Longrightarrow> in_front g' w"
  using frame_same(2,3) [of g g'] by (auto simp: in_front_def focus_def quiet_def)

lemma change_active_front:
  assumes "w \<noteq> 0" "nodes g z = w # rest"
  shows "in_front (snd (dskChangActiveWindow w g)) w"
proof -
  have "mg_active (snd (dskChangActiveWindow w g)) = w \<or> has_exstyle g w WS_EX_TOOLWINDOW \<or> mg_ime_wnd g = w"
    using assms(1) by (auto simp: dskChangActiveWindow_def Let_def DesktopSetActiveWindow_def emit_def)
  moreover have "mg_ime_wnd (snd (dskChangActiveWindow w g)) = mg_ime_wnd g"
    by (simp add: dskChangActiveWindow_def Let_def DesktopSetActiveWindow_def emit_def)
  ultimately show ?thesis
    using assms(2) quiet_nodes [OF quiet_simps(4)] frame_same(2) [OF frame_change_active(1)] by (auto simp: in_front_def)
qed

lemma click_window_live:
  assumes "desk_live g" "menus g = {}" "\<not> is_ctrl \<Longrightarrow> w \<in> set (order g)"
  shows "\<exists>g'. click_window w is_ctrl x y g = Some g' \<and> desk_live g' \<and> (is_ctrl \<or> in_front g' w)"
proof (cases is_ctrl)
  case False
  then have w: "w \<in> set (order g)" using assms(3) by simp
  obtain z where z: "w \<in> set (nodes g z)" using order_nodes [OF w] by blast
  then have zo: "GET_WIN_ZORDER g w = z" using zwfD(1) assms(1) by (auto simp: desk_live_def desk_inv_def)
  obtain p rest where p: "nodes g z = p # rest" using z by (cases "nodes g z") auto
  obtain a h where h: "dskMoveToTopMost w RCTM_CLICK (MAKELONG x y) g = Some (a, h)" "desk_live h" "set (order h) = set (order g)"
    "\<forall>z. nodes h z = (if w \<in> set (nodes g z) then w # remove1 w (nodes g z) else nodes g z)"
    using move_to_top_live [OF assms(1,2)] w by blast
  let ?h = "if w \<noteq> p then h else g"
  have w0: "w \<noteq> 0" using z zwfD(3) assms(1) by (auto simp: desk_live_def desk_inv_def)
  have head: "\<exists>rest. nodes ?h z = w # rest" using h(4) z p by auto
  then have front: "in_front (snd (dskChangActiveWindow w ?h)) w" using change_active_front [OF w0] by blast
  have front': "in_front (emit es (snd (dskChangActiveWindow w ?h))) w" for es
    by (rule in_front_cong [OF quiet_simps(2) focus_steps(1) front])
  have live: "desk_live (snd (dskChangActiveWindow w ?h))" 
    using change_active_live [OF assms(1), of w] change_active_live [OF h(2), of w] h(3) w by auto
  have "desk_live (emit es (snd (dskChangActiveWindow w ?h)))" for es using quiet_live [OF quiet_simps(2) focus_steps(1) live] .
  then show ?thesis using False h(1) live zo p front front'
    by (cases "w = p") (simp_all add: click_window_def dskIsTopMost_def Let_def case_prod_beta)
qed (use assms(1) in \<open>simp add: click_window_def\<close>)

lemma under_point_in: "GetMainWindowPtrUnderPoint g x y = 0 \<or> GetMainWindowPtrUnderPoint g x y \<in> set (order g)"
  by (auto simp: GetMainWindowPtrUnderPoint_def order_def Let_def dest!: find_in split: option.split)

lemma mouse_down_live:
  assumes "desk_live g" "w \<noteq> 0 \<Longrightarrow> \<not> is_ctrl \<Longrightarrow> w \<in> set (order g)"
  shows "\<exists>g'. mouse_down w is_ctrl m flags x y g = Some g' \<and> desk_live g'
    \<and> (mgs_button_down_main_window g = 0 \<and> w \<noteq> 0 \<and> \<not> is_ctrl \<and> \<not> has_style g w WS_DISABLED
        \<longrightarrow> in_front g' w \<and> mgs_button_down_main_window g' = w)"
proof -
  have inv: "desk_inv g" using assms(1) by (simp add: desk_live_def)
  have emit: "desk_live h \<Longrightarrow> desk_live (emit es h)" for h es using quiet_live [OF quiet_simps(2) focus_steps(1)] .
  have "desk_live (press_more m flags x y g)" using quiet_live [OF quiet_press assms(1)] .
  moreover have "desk_live (release_all (emit es (snd (dskChangActiveWindow 0 g))))" for es
    using quiet_live [OF quiet_mouse(4) focus_mouse(4) emit [OF change_active_live [OF assms(1)]]] by simp
  moreover have "\<exists>h. click_window w is_ctrl x y (close_menu g) = Some h \<and> desk_live h \<and> (is_ctrl \<or> in_front h w)" if "w \<noteq> 0"
    by (rule click_window_live [OF close_menu_live [OF assms(1)] close_menu_inv(2) [OF inv]])
      (use assms(2) that close_menu_inv(4) [OF inv] in simp)
  moreover have "desk_live (hold_button w m (emit es h))" if "desk_live h" for es h
    using quiet_live [OF quiet_mouse(3) focus_mouse(3) emit [OF that]] .
  moreover have "in_front (hold_button w m (emit es h)) w" if "in_front h w" for es h
    using in_front_cong [OF quiet_mouse(3) focus_mouse(3) in_front_cong [OF quiet_simps(2) focus_steps(1) that]] .
  moreover have "desk_live (emit es (close_menu g))" for es using emit [OF close_menu_live [OF assms(1)]] .
  moreover have "mgs_button_down_main_window (hold_button w m h) = w" for h by (simp add: hold_button_def)
  ultimately show ?thesis using close_menu_facts(4) [OF inv, of w WS_DISABLED] by (auto simp: mouse_down_def Let_def)
qed

theorem MouseMessageHandler_live:
  assumes "desk_live g"
  shows "\<exists>g'. MouseMessageHandler hook m flags x y g = Some g' \<and> desk_live g'"
proof -
  let ?p = "GetMainWindowPtrUnderPoint g x y"
  let ?c = "?p \<noteq> 0 \<and> WinType (dwins g ?p) = TYPE_CONTROL"
  let ?w = "if ?c then pMainWin (dwins g ?p) else ?p"
  have down: "\<exists>g'. mouse_down ?w ?c m flags x y g = Some g' \<and> desk_live g'" for m
    using mouse_down_live [OF assms, of ?w ?c m flags x y] under_point_in [of g x y] by auto
  have rest: "desk_live (mouse_move ?w flags x y g)" "desk_live (mouse_up ?w m flags x y g)" "desk_live (mouse_dblclk ?w m flags x y g)"
    "desk_live (emit es g)" for m es
    using quiet_live [OF quiet_move assms] quiet_live [OF quiet_up assms] quiet_live [OF quiet_dblclk assms]
      quiet_live [OF quiet_simps(2) focus_steps(1) assms] by blast+
  show ?thesis unfolding MouseMessageHandler_def Let_def using assms down rest by (cases m) simp_all
qed

subsection \<open>The keyboard\<close>

lemma quiet_key [simp]: "quiet g (HandleSpecialKey k g)" "focus (HandleSpecialKey k g) = focus g"
  "quiet g (post_key hook w m k s g)" "focus (post_key hook w m k s g) = focus g"
  by (simp_all add: HandleSpecialKey_def post_key_def)

lemma quiet_send [simp]: "quiet g (send_key hook m k s g)" "focus (send_key hook m k s g) = focus g"
  using quiet_trans [OF quiet_mouse(6) quiet_key(3)] by (simp_all add: send_key_def Let_def)

lemma next_visible_in:
  assumes "desk_live g"
  shows "\<exists>w. dskGetNextVisibleMainWindow (mg_active g) g = Some w \<and> (w = 0 \<or> w \<in> set (order g))"
proof (cases "mg_active g = 0")
  case True
  then show ?thesis by (auto simp: dskGetNextVisibleMainWindow_def order_def dest!: find_in split: option.split)
next
  case False
  then have a: "mg_active g \<in> set (order g)" using assms by (simp add: desk_live_def active_alive_def)
  then obtain z where z: "mg_active g \<in> set (nodes g z)" using order_nodes by blast
  then have "GET_WIN_ZORDER g (mg_active g) = z" using zwfD(1) assms by (auto simp: desk_live_def desk_inv_def)
  then show ?thesis
    using False nodes_under_list [OF z] in_order [of _ g z]
    by (auto simp: dskGetNextVisibleMainWindow_def dest!: find_in in_tl_dropWhile split: option.split)
qed

lemma next_by_key_live:
  assumes "desk_live g"
  shows "\<exists>g'. next_by_key g = Some g' \<and> desk_live g'"
proof -
  let ?g = "close_menu (g\<lparr>mg_modal := True\<rparr>)"
  have live: "desk_live (g\<lparr>mg_modal := True\<rparr>)" using quiet_live [OF quiet_mouse(5) focus_mouse(5) assms] .
  then have g: "desk_live ?g" "menus ?g = {}" using close_menu_live close_menu_inv(2) by (simp_all add: desk_live_def)
  obtain w where w: "dskGetNextVisibleMainWindow (mg_active ?g) ?g = Some w" "w = 0 \<or> w \<in> set (order ?g)"
    using next_visible_in [OF g(1)] by blast
  obtain a h where h: "dskMoveToTopMost w RCTM_KEY 0 ?g = Some (a, h)" "desk_live h" "set (order h) = set (order ?g)"
    using move_to_top_live [OF g w(2)] by blast
  have "desk_live (snd (dskChangActiveWindow w h))" using change_active_live [OF h(2)] w(2) h(3) by simp
  then show ?thesis using w(1) h(1) by (simp add: next_by_key_def Let_def)
qed

theorem KeyMessageHandler_live:
  assumes "desk_live g"
  shows "\<exists>g'. KeyMessageHandler hook m k s g = Some g' \<and> desk_live g'"
proof -
  define h where "h = (if is_alt k then g\<lparr>mg_altdown := False\<rparr> else g)"
  have g: "desk_live h" "desk_live (g\<lparr>mg_altdown := True\<rparr>)" "desk_live (HandleSpecialKey k g)"
    using quiet_live [OF quiet_mouse(6) focus_mouse(6) assms] quiet_live [OF quiet_key(1,2) assms] assms by (simp_all add: h_def)
  have modal: "desk_live (h\<lparr>mg_modal := c\<rparr>)" for c using quiet_live [OF quiet_mouse(5) focus_mouse(5) g(1)] .
  have more: "\<exists>g'. next_by_key h = Some g' \<and> desk_live g'" "desk_live (send_key hook m k s h)"
    "desk_live (send_key hook m k s (h\<lparr>mg_modal := True\<rparr>))" "desk_live (emit es (h\<lparr>mg_modal := True\<rparr>))" for es
    using next_by_key_live [OF g(1)] quiet_live [OF quiet_send g(1)] quiet_live [OF quiet_send modal]
      quiet_live [OF quiet_simps(2) focus_steps(1) modal] by blast+
  show ?thesis unfolding KeyMessageHandler_def Let_def h_def [symmetric] using g modal more by auto
qed

subsection \<open>Reachable states\<close>

text \<open>
  A window is created outside of the Z orders: its structure is filled in before \<open>MSG_ADDNEWMAINWIN\<close>, and no
  window in a Z order has it as a parent.  The handlers of the devices follow the pointer to the active window, which
  must be one of a Z order.
\<close>

inductive desk_reach :: "winproc \<Rightarrow> dsk \<Rightarrow> bool" for proc where
  init: "0 \<le> maxx \<Longrightarrow> 0 \<le> maxy \<Longrightarrow> desk_reach proc (InitDesktop maxx maxy)"
| create: "desk_reach proc g \<Longrightarrow> w \<notin> set (order g) \<Longrightarrow> \<forall>t \<in> set (order g). w \<notin> set (pParents (dwins g t)) \<Longrightarrow>
    desk_reach proc (g\<lparr>dwins := (dwins g)(w := win)\<rparr>)"
| message: "desk_reach proc g \<Longrightarrow> allowed proc m w g \<Longrightarrow> WindowMessageHandler proc m w g = Some g' \<Longrightarrow> desk_reach proc g'"
| mouse: "desk_reach proc g \<Longrightarrow> active_alive g \<Longrightarrow> MouseMessageHandler mhook mm flags x y g = Some g' \<Longrightarrow> desk_reach proc g'"
| key: "desk_reach proc g \<Longrightarrow> active_alive g \<Longrightarrow> KeyMessageHandler khook km scancode status g = Some g' \<Longrightarrow> desk_reach proc g'"

lemma InitDesktop_inv:
  assumes "0 \<le> maxx" "0 \<le> maxy"
  shows "desk_inv (InitDesktop maxx maxy)"
proof -
  let ?g = "InitDesktop maxx maxy"
  have nodes: "nodes ?g z = []" for z by (simp add: InitDesktop_def Let_def nodes_def split: zsel.split)
  have ptmi: "mg_ptmi ?g = []" by (simp add: InitDesktop_def Let_def)
  have scr: "rect_ok (g_rcScr ?g)" using assms by (simp add: InitDesktop_def Let_def rect_ok_def)
  have "region ?g 0 = \<lparr>rgn_type = SIMPLEREGION, rcBound = g_rcScr ?g, rects = [g_rcScr ?g]\<rparr>"
    using assms by (simp add: InitDesktop_def Let_def SetClipRgn_def EmptyClipRgn_def IsRectEmpty_def)
  then have "reg_ok (region ?g 0)" "pts ?g 0 = rect_pts (g_rcScr ?g)"
    using scr by (simp_all add: reg_ok_def rgn_ok_single rgn_pts_def)
  then show ?thesis
    using scr by (simp add: desk_inv_def clipped_def clipped_for_def zwf_def order_def nodes ptmi menus_def cover_def)
qed

lemma create_inv:
  assumes "desk_inv g" "w \<notin> set (order g)" "\<forall>t \<in> set (order g). w \<notin> set (pParents (dwins g t))"
  shows "desk_inv (g\<lparr>dwins := (dwins g)(w := win)\<rparr>)"
proof -
  let ?g = "g\<lparr>dwins := (dwins g)(w := win)\<rparr>"
  have nodes: "nodes ?g z = nodes g z" for z by (simp add: nodes_def split: zsel.split)
  then have ord: "order ?g = order g" "above ?g z t = above g z t" for z t
    by (simp_all add: order_def above_def split: zsel.split)
  have crc: "fold (\<lambda>p rc. OffsetRect rc (rleft (crc (dwins ?g p))) (rtop (crc (dwins ?g p)))) ps r
      = fold (\<lambda>p rc. OffsetRect rc (rleft (crc (dwins g p))) (rtop (crc (dwins g p)))) ps r" if "w \<notin> set ps" for ps r
    by (rule fold_cong) (use that in auto)
  have rc: "dskGetWindowRectInScreen ?g t = dskGetWindowRectInScreen g t" if "t \<in> set (order g)" for t
    using crc [of "pParents (dwins g t)"] that assms(2,3) by (auto simp: dskGetWindowRectInScreen_def)
  have same: "visible ?g t = visible g t" "GET_WIN_ZORDER ?g t = GET_WIN_ZORDER g t" "on_screen ?g t = on_screen g t"
    "placed ?g t = placed g t" if "t \<in> set (order g)" for t
    using that assms(2) rc [OF that] by (auto simp: has_style_def has_exstyle_def GET_WIN_ZORDER_def on_screen_def placed_def)
  have cov: "cover ?g (visible ?g) ns = cover g (visible g) ns" if "set ns \<subseteq> set (order g)" for ns
    using same(1) rc that unfolding cover_def by (intro SUP_cong) auto
  have inord: "t \<in> set (nodes g z) \<Longrightarrow> t \<in> set (order g)" for t z by (rule in_order)
  have "zwf ?g"
    using assms(1) same(2,4) inord by (simp add: desk_inv_def zwf_def nodes ord)
  moreover have "clipped_for (visible ?g) ?g = clipped_for (visible g) g"
    unfolding clipped_for_def using inord
    by (simp add: nodes ord cov [OF above_order] cov [OF subset_refl] same(1,3) menus_def cong: ball_cong)
  ultimately show ?thesis using assms(1) by (simp add: desk_inv_def clipped_def)
qed

theorem desk_reach_inv: "desk_reach proc g \<Longrightarrow> desk_inv g"
proof (induction rule: desk_reach.induct)
  case (message g m w g')
  then show ?case using handler_inv [OF message.IH message.hyps(2)] by (auto simp: meets_def)
next
  case (mouse g mhook mm flags x y g')
  then show ?case using MouseMessageHandler_live [of g mhook mm flags x y] by (auto simp: desk_live_def)
next
  case (key g khook km scancode status g')
  then show ?case using KeyMessageHandler_live [of g khook km scancode status] by (auto simp: desk_live_def)
qed (use InitDesktop_inv create_inv in auto)

subsection \<open>A button that is held\<close>

text \<open>The events of the mouse in their order; no hook stops them.\<close>

fun run_mouse :: "(mouse_msg \<times> int \<times> int \<times> int) list \<Rightarrow> dsk \<Rightarrow> dsk option" where
  "run_mouse [] g = Some g"
| "run_mouse ((m, flags, x, y) # es) g =
     do { g \<leftarrow> MouseMessageHandler (\<lambda>_ _ _ _ _. False) m flags x y g; run_mouse es g }"

text \<open>The buttons that are down, left and right: a release counts only for the button that is down.\<close>

fun held_after :: "bool \<times> bool \<Rightarrow> mouse_msg list \<Rightarrow> bool \<times> bool" where
  "held_after b [] = b"
| "held_after (l, r) (m # ms) = held_after
     (case m of MSG_MOUSEMOVE \<Rightarrow> (l, r)
      | MSG_LBUTTONUP \<Rightarrow> (False, r) | MSG_RBUTTONUP \<Rightarrow> (l, False)
      | MSG_LBUTTONDOWN \<Rightarrow> (True, r) | MSG_LBUTTONDBLCLK \<Rightarrow> (True, r)
      | MSG_RBUTTONDOWN \<Rightarrow> (l, True) | MSG_RBUTTONDBLCLK \<Rightarrow> (l, True)) ms"

definition buttons :: "bool \<times> bool \<Rightarrow> 32 word" where
  "buttons b = (if fst b then DOWN_BUTTON_LEFT else 0) OR (if snd b then DOWN_BUTTON_RIGHT else 0)"

definition holds :: "nat \<Rightarrow> bool \<times> bool \<Rightarrow> dsk \<Rightarrow> bool" where
  "holds w b g \<longleftrightarrow> mg_capture g = 0 \<and> mgs_button_down_main_window g = (if b = (False, False) then 0 else w)
     \<and> mgs_down_buttons g = buttons b"

text \<open>The messages that the window which holds the buttons gets for the events: one for each, in their order, but for the release
  of the right button while only the left one is down, and the other way round, which the code drops.\<close>

fun sent_for :: "nat \<Rightarrow> bool \<times> bool \<Rightarrow> (mouse_msg \<times> int \<times> int \<times> int) list \<Rightarrow> dsk_event list" where
  "sent_for w b [] = []"
| "sent_for w b ((m, flags, x, y) # es) =
     (if b = (True, False) \<and> m = MSG_RBUTTONUP \<or> b = (False, True) \<and> m = MSG_LBUTTONUP then [] else [PostMouse w m flags x y])
     @ sent_for w (held_after b [m]) es"

lemma buttons_cases:
  "buttons (False, False) = 0" "buttons (True, False) = DOWN_BUTTON_LEFT" "buttons (False, True) = DOWN_BUTTON_RIGHT"
  "buttons (True, True) = 3"
  by (simp_all add: buttons_def DOWN_BUTTON_LEFT_def DOWN_BUTTON_RIGHT_def)

lemma grab_step:
  assumes "holds w b g" "b \<noteq> (False, False)" "w \<noteq> 0"
  shows "\<exists>g'. MouseMessageHandler (\<lambda>_ _ _ _ _. False) m flags x y g = Some g' \<and> holds w (held_after b [m]) g'
    \<and> quiet g g' \<and> events g' = events g @ sent_for w b [(m, flags, x, y)]"
proof -
  obtain l r where b: "b = (l, r)" by (cases b)
  have g: "mg_capture g = 0" "mgs_button_down_main_window g = w" "mgs_down_buttons g = buttons (l, r)" "l \<or> r"
    using assms by (auto simp: holds_def b)
  note defs = DOWN_BUTTON_LEFT_def DOWN_BUTTON_RIGHT_def DOWN_BUTTON_ANY_def DOWN_BUTTON_NONE_def
  have "\<exists>g'. MouseMessageHandler (\<lambda>_ _ _ _ _. False) m flags x y g = Some g' \<and> holds w (held_after b [m]) g'
      \<and> events g' = events g @ sent_for w b [(m, flags, x, y)]"
    using g assms(3)
    by (cases m; cases l; cases r)
      (simp_all add: b MouseMessageHandler_def Let_def mouse_move_def mouse_down_def mouse_up_def mouse_dblclk_def press_more_def
        release_all_def button_bit_def holds_def buttons_cases defs emit_def)
  moreover have "quiet g g'" if "MouseMessageHandler (\<lambda>_ _ _ _ _. False) m flags x y g = Some g'" for g'
    using that g(1,2) assms(3) by (cases m) (auto simp: MouseMessageHandler_def Let_def mouse_down_def split: if_splits)
  ultimately show ?thesis by blast
qed

lemma held_after_Cons: "held_after b (m # ms) = held_after (held_after b [m]) ms"
  by (cases b) (simp split: mouse_msg.split)

lemma sent_for_Cons: "sent_for w b ((m, flags, x, y) # es) = sent_for w b [(m, flags, x, y)] @ sent_for w (held_after b [m]) es"
  by simp

lemma grab_run:
  assumes "w \<noteq> 0"
  shows "holds w b g \<Longrightarrow> \<forall>k < length es. held_after b (map fst (take k es)) \<noteq> (False, False) \<Longrightarrow>
    \<exists>g'. run_mouse es g = Some g' \<and> holds w (held_after b (map fst es)) g' \<and> quiet g g'
      \<and> events g' = events g @ sent_for w b es"
proof (induction es arbitrary: b g)
  case Nil
  then show ?case by simp
next
  case (Cons e es)
  obtain m flags x y where e: "e = (m, flags, x, y)" by (cases e)
  have "b \<noteq> (False, False)" using Cons.prems(2) [rule_format, of 0] by simp
  then obtain h where h: "MouseMessageHandler (\<lambda>_ _ _ _ _. False) m flags x y g = Some h" "holds w (held_after b [m]) h"
    "quiet g h" "events h = events g @ sent_for w b [(m, flags, x, y)]" using grab_step [OF Cons.prems(1) _ assms, of m flags x y] by blast
  have "\<forall>k < length es. held_after (held_after b [m]) (map fst (take k es)) \<noteq> (False, False)"
  proof (intro allI impI)
    fix k assume "k < length es"
    then have "held_after b (m # map fst (take k es)) \<noteq> (False, False)"
      using Cons.prems(2) [rule_format, of "Suc k"] by (simp add: e)
    then show "held_after (held_after b [m]) (map fst (take k es)) \<noteq> (False, False)"
      by (simp only: held_after_Cons [of b m "map fst (take k es)"] not_False_eq_True)
  qed
  from Cons.IH [OF h(2) this] obtain g' where "run_mouse es h = Some g'" "holds w (held_after (held_after b [m]) (map fst es)) g'"
    "quiet h g'" "events g' = events h @ sent_for w (held_after b [m]) es" by blast
  moreover have "held_after b (map fst (e # es)) = held_after (held_after b [m]) (map fst es)"
    using held_after_Cons [of b m "map fst es"] by (simp add: e)
  ultimately show ?case using h(1) quiet_trans [OF h(3)] h(4) sent_for_Cons [of w b m flags x y es] by (simp add: e del: sent_for.simps)
qed

end
