(* ===== verification/Desktop_Props.thy ===== *)
theory Desktop_Props
  imports Desktop_Reach
begin

section \<open>The desktop: properties\<close>

text \<open>
  What holds in every state that messages to the desktop reach: the regions share out the screen, the Z orders
  follow their specification, and the window under a point is the one that may draw there.
\<close>

subsection \<open>A small desktop\<close>

text \<open>A screen of ten by ten, and one window that is added to it.\<close>

definition small_screen :: dsk where "small_screen = InitDesktop 9 9"

definition plain_window :: "rect \<Rightarrow> style \<Rightarrow> mainwin" where
  "plain_window rc s = \<lparr>WinType = TYPE_MAINWIN, wrc = rc, crc = rc, dwStyle = s, dwExStyle = 0, pParents = [],
     pMainWin = 0, hPrimitive = 0, pHosting = 0, hosted = [], gc_age = 0, inv_frozen = 0\<rparr>"

definition created :: dsk where
  "created = small_screen\<lparr>dwins := (dwins small_screen)(1 := plain_window (mk_rect 2 2 6 6) WS_VISIBLE)\<rparr>"

definition keep_size :: winproc where "keep_size w rc = (rc, rc)"

lemma small_nodes: "nodes small_screen z = []" "nodes created z = []" "order small_screen = []" "order created = []"
  by (simp_all add: created_def small_screen_def InitDesktop_def Let_def nodes_def order_def split: zsel.split)

lemma created_reach: "desk_reach keep_size created"
  unfolding created_def by (rule desk_reach.create) (use small_nodes desk_reach.init [of 9 9] in \<open>simp_all add: small_screen_def\<close>)

lemma created_allowed: "allowed keep_size MSG_ADDNEWMAINWIN 1 created"
  by (simp add: small_nodes)
    (simp add: created_def small_screen_def InitDesktop_def Let_def placed_def dskGetWindowRectInScreen_def plain_window_def
      IntersectRect_def IsRectEmpty_def rect_norm_def)

definition with_window :: dsk where
  "with_window = (case WindowMessageHandler keep_size MSG_ADDNEWMAINWIN 1 created of Some g \<Rightarrow> g)"

lemma with_window_reach:
  "desk_reach keep_size with_window" "nodes with_window MainZ = [1]" "nodes with_window TopZ = []"
  "menus with_window = {}" "visible with_window 1"
proof -
  have c: "desk_inv created" "close_menu created = created" "menus created = {}"
    using desk_reach_inv [OF created_reach]
    by (simp_all add: close_menu_def menus_def created_def small_screen_def InitDesktop_def Let_def)
  have v: "visible created 1" by (simp add: has_style_def created_def plain_window_def WS_VISIBLE_def)
  obtain a g where g0: "dskAddNewMainWindow 1 created = Some (a, g)" "menus g = {}"
    "\<forall>z. nodes g z = (if z = new_zorder created 1 then 1 # nodes created z else nodes created z)" "visible g 1"
    using dskAddNewMainWindow_inv [OF c(1,3), of 1] created_allowed v c(3) by auto
  then have g: "WindowMessageHandler keep_size MSG_ADDNEWMAINWIN 1 created = Some g"
    "nodes g = zspec MSG_ADDNEWMAINWIN 1 (new_zorder created 1) (nodes created)"
    using c(2) by (auto simp: fun_eq_iff)
  have w: "with_window = g" unfolding with_window_def g(1) by simp
  show "desk_reach keep_size with_window"
    unfolding w by (rule desk_reach.message [OF created_reach created_allowed g(1)])
  have "new_zorder created 1 = MainZ" by (simp add: new_zorder_def has_exstyle_def created_def plain_window_def)
  then show "nodes with_window MainZ = [1]" "nodes with_window TopZ = []" unfolding w by (simp_all add: g(2) small_nodes)
  show "menus with_window = {}" "visible with_window 1" unfolding w by (rule g0)+
qed

subsection \<open>The regions\<close>


lemma with_window_facts:
  "active_alive with_window" "mg_capture with_window = 0" "mgs_button_down_main_window with_window = 0"
  "GetMainWindowPtrUnderPoint with_window 3 3 = 1" "WinType (dwins with_window 1) \<noteq> TYPE_CONTROL" "\<not> has_style with_window 1 WS_DISABLED"
  by code_simp+


text \<open>C7.  The two Z orders are exactly what the specification of the message makes of them: a new window enters at the
  top of its order, a removed one leaves it, a raised one and a shown global control go to the top of theirs, and no
  other message changes the order of windows.\<close>

theorem messages_follow_zorder_spec:
  assumes "desk_reach proc g" "allowed proc m w g"
  shows "map_option nodes (WindowMessageHandler proc m w g) = Some (zspec m w (new_zorder g w) (nodes g))"
  using handler_inv [OF desk_reach_inv [OF assms(1)] assms(2)] by (auto simp: meets_def)

theorem messages_follow_zorder_spec_witness:
  "map_option nodes (WindowMessageHandler keep_size MSG_ADDNEWMAINWIN 1 created)
    = Some (zspec MSG_ADDNEWMAINWIN 1 (new_zorder created 1) (nodes created))"
  by (rule messages_follow_zorder_spec [OF created_reach created_allowed])

lemma find_append: "find P (xs @ ys) = (case find P xs of Some x \<Rightarrow> Some x | None \<Rightarrow> find P ys)"
  by (induction xs) auto

lemma find_takeWhile:
  "find P xs = Some x \<longleftrightarrow> x \<in> set xs \<and> P x \<and> (\<forall>t \<in> set (takeWhile (\<lambda>h. h \<noteq> x) xs). \<not> P t)"
proof (induction xs)
  case (Cons a xs)
  then show ?case by (cases "P a"; cases "a = x") simp_all
qed simp

lemma under_point_find:
  "GetMainWindowPtrUnderPoint g x y
    = (case find (\<lambda>w. (x, y) \<in> rect_pts (dskGetWindowRectInScreen g w) \<and> visible g w) (order g) of Some w \<Rightarrow> w | None \<Rightarrow> 0)"
  by (simp add: GetMainWindowPtrUnderPoint_def order_def find_append PtInRect_pts Let_def split: option.split)

lemma order_above:
  assumes "zwf g" "w \<in> set (nodes g z)"
  shows "takeWhile (\<lambda>h. h \<noteq> w) (order g) = above g z w"
  using assms(2) other_order [OF assms, of TopZ] other_order [OF assms, of MainZ]
  by (cases z) (auto simp: order_def above_def takeWhile_append)



subsection \<open>A window at the edge\<close>

text \<open>
  A window that touches the screen from outside has an empty intersection with it, which \<open>SetClipRgn\<close> refuses:
  the window keeps the region that it had before it was moved there, and the desktop has the same points.
\<close>

lemma edge_window_keeps_region:
  assumes "nodes g TopZ = []" "nodes g MainZ = [w]" "w \<noteq> 0" "visible g w" "mg_ptmi g = []" "rect_ok (g_rcScr g)"
    and "rect_norm (dskGetWindowRectInScreen g w)"
    and edge: "IsRectEmpty (snd (IntersectRect (dskGetWindowRectInScreen g w) (g_rcScr g)))"
  shows "region (dskUpdateAllGCRInfoOnHideMenu g) w = region g w
    \<and> pts (dskUpdateAllGCRInfoOnHideMenu g) 0 = rect_pts (g_rcScr g)"
proof -
  have stale: "gcr (reset_window w (dskGetWindowRectInScreen g w) g) = gcr g"
    using edge by (simp add: reset_window_def SetClipRgn_def Let_def)
  define h where "h = reclip_window MainZ w g"
  have f: "frame g h" by (simp add: h_def)
  have h: "gcr h = gcr g"
    using stale assms(1,2,5) frame_same(3,5) [OF frame_reset] frame_same(5) [OF frame_trans_end [OF frame_rebuild [where g = g and z = MainZ and t = w]]]
    by (simp add: h_def reclip_window_def Let_def clip_by_windows_def clip_by_all_above_this_def clip_by_def)
  define k where "k = h\<lparr>gcr := snd (SetClipRgn True (gcr h) (Heap 0) (g_rcScr g))\<rparr>"
  let ?rc = "dskGetWindowRectInScreen g w"
  have fk: "frame g k" using frame_trans [OF f frame_gcr(1)] by (simp add: k_def)
  have k0: "region k 0 = \<lparr>rgn_type = SIMPLEREGION, rcBound = g_rcScr g, rects = [g_rcScr g]\<rparr>" "region k w = region g w"
    using assms(3,6) frame_same(4) [OF f] h by (simp_all add: k_def SetClipRgn_def EmptyClipRgn_def Let_def IsRectEmpty_def rect_ok_def)
  have d: "drawn k (clip_region 0 ?rc k) {0} (\<lambda>_. pts k 0 - rect_pts ?rc)"
    by (rule clip_region_drawn) (use k0(1) assms(6,7) in \<open>simp_all add: reg_ok_def rgn_ok_single\<close>)
  have "rect_pts ?rc \<inter> rect_pts (g_rcScr g) = {}"
    unfolding IntersectRect_pts [symmetric] using edge by (auto simp: IsRectEmpty_def rect_pts_def)
  then have "pts (clip_region 0 ?rc k) 0 = rect_pts (g_rcScr g)"
    using drawnD(3) [OF d, of 0] k0(1) by (auto simp: rgn_pts_def)
  moreover have "region (clip_region 0 ?rc k) w = region g w" using drawnD(4) [OF d, of w] k0(2) assms(3) by simp
  moreover have "dskUpdateAllGCRInfoOnHideMenu g = (clip_region 0 ?rc k)\<lparr>scr_age := scr_age (clip_region 0 ?rc k) + 1\<rparr>"
    using assms(1,2,4,5) frame_same [OF f] frame_same [OF fk]
    by (simp add: dskUpdateAllGCRInfoOnHideMenu_def Let_def recalc_desktop_def clip_by_def flip: h_def k_def)
  ultimately show ?thesis by simp
qed

subsection \<open>The active window\<close>

text \<open>The window that becomes active when \<open>w\<close> is gone, the normal windows before the topmost ones.\<close>

definition next_active :: "dsk \<Rightarrow> nat \<Rightarrow> nat" where
  "next_active g w = (case find (\<lambda>t. t \<noteq> w \<and> activable g t) (nodes g MainZ @ nodes g TopZ) of Some t \<Rightarrow> t | None \<Rightarrow> 0)"

lemma set_hidden_fields:
  "WinType (dwins (set_hidden w g) t) = WinType (dwins g t)"
  "has_style (set_hidden w g) t WS_DISABLED = has_style g t WS_DISABLED"
proof -
  have "NOT WS_VISIBLE AND WS_DISABLED = WS_DISABLED" by (simp add: WS_VISIBLE_def WS_DISABLED_def)
  then have "(a AND NOT WS_VISIBLE) AND WS_DISABLED = a AND WS_DISABLED" for a by (simp add: and.assoc)
  then show "has_style (set_hidden w g) t WS_DISABLED = has_style g t WS_DISABLED"
    by (simp add: has_style_def set_hidden_def upd_win_def)
qed (simp add: set_hidden_def upd_win_def)

lemma first_activable:
  assumes "frame (set_hidden w g) g'"
  shows "dskGetFirstActivableWindow g' = next_active g w"
proof -
  have act: "activable g' = (\<lambda>t. t \<noteq> w \<and> activable g t)"
    using frame_window(1) [OF assms] by (auto simp: fun_eq_iff activable_def frame_same [OF assms] set_visible_at set_hidden_fields)
  then show ?thesis
    by (simp add: dskGetFirstActivableWindow_def next_active_def find_append frame_same(3) [OF assms] split: option.split)
qed

lemma next_active_activable: "next_active g w \<noteq> 0 \<Longrightarrow> next_active g w \<noteq> w \<and> activable g (next_active g w)"
proof (cases "find (\<lambda>t. t \<noteq> w \<and> activable g t) (nodes g MainZ @ nodes g TopZ)")
  case (Some a)
  then have "a \<noteq> w \<and> activable g a" using find_takeWhile [of "\<lambda>t. t \<noteq> w \<and> activable g t" _ a] by blast
  then show ?thesis unfolding next_active_def Some by simp
qed (simp add: next_active_def)

text \<open>Hiding the active window makes another one active: the first window that is visible, enabled, no control and no tool
  window, looked for among the normal windows before the topmost ones, or none when there is no such window.  An
  input method window would not be activated, so the hidden window would stay the active one.  Hiding any other window
  leaves the active window as it is.\<close>

theorem hiding_activates_next:
  assumes "desk_reach proc g" "menus g = {}" "w \<in> set (order g)" "visible g w"
  shows "map_option fst (dskHideMainWindow w g)
    = Some (if mg_active g \<noteq> w \<or> next_active g w \<noteq> 0 \<and> next_active g w = mg_ime_wnd g then mg_active g else next_active g w)"
proof -
  have inv: "desk_inv g" using desk_reach_inv [OF assms(1)] .
  obtain z where z: "w \<in> set (nodes g z)" using order_nodes [OF assms(3)] by blast
  obtain g' where g': "dskUpdateGCRInfoOnHideMainWin w g = Some g'" "frame (set_hidden w g) g'"
    using hide_keeps [OF inv assms(2) z assms(4)] by blast
  have f: "focus g' = focus g" using focus_hide [OF g'(1)] .
  have next0: "dskGetFirstActivableWindow g' = next_active g w" by (rule first_activable [OF g'(2)])
  have "w \<noteq> 0" using zwfD(3) z inv by (auto simp: desk_inv_def)
  have tool: "has_exstyle g' t WS_EX_TOOLWINDOW = has_exstyle g t WS_EX_TOOLWINDOW" for t
    using frame_same(2) [OF g'(2)] by simp
  show ?thesis
    using f next0 next_active_activable [of g w] assms(4) tool \<open>w \<noteq> 0\<close>
    by (auto simp: dskHideMainWindow_def g'(1) focus_def dskChangActiveWindow_def Let_def DesktopSetActiveWindow_def
        emit_def activable_def)
qed

theorem hiding_activates_next_witness:
  "map_option fst (dskHideMainWindow 1 with_window)
    = Some (if mg_active with_window \<noteq> 1 \<or> next_active with_window 1 \<noteq> 0 \<and> next_active with_window 1 = mg_ime_wnd with_window
        then mg_active with_window else next_active with_window 1)"
  by (rule hiding_activates_next [OF with_window_reach(1,4) _ with_window_reach(5)]) (simp add: order_def with_window_reach)

text \<open>C9.  The active window stays one of a Z order, whatever message arrives, with one exception: a hidden window that is active
  stays the active one when it is removed, so that the desktop keeps a pointer to a window that is gone.\<close>

theorem active_window_stays_in_order:
  assumes "desk_reach proc g" "allowed proc m w g" "active_alive g" "WindowMessageHandler proc m w g = Some g'"
  shows "active_alive g' \<longleftrightarrow> \<not> (m = MSG_REMOVEMAINWIN \<and> mg_active g = w \<and> \<not> visible g w)"
  by (rule active_alive_iff [OF desk_reach_inv [OF assms(1)] assms(2-4)])

lemma created_alive: "active_alive created"
  by (simp add: active_alive_def created_def small_screen_def InitDesktop_def Let_def)

lemma created_handled: "WindowMessageHandler keep_size MSG_ADDNEWMAINWIN 1 created = Some with_window"
  using handler_inv [OF desk_reach_inv [OF created_reach] created_allowed]
  by (auto simp: meets_def with_window_def simp del: WindowMessageHandler.simps)

theorem active_window_stays_in_order_witness:
  "active_alive with_window \<longleftrightarrow> \<not> (MSG_ADDNEWMAINWIN = MSG_REMOVEMAINWIN \<and> mg_active created = 1 \<and> \<not> visible created 1)"
  by (rule active_window_stays_in_order [OF created_reach created_allowed created_alive created_handled])

subsection \<open>The mouse\<close>

text \<open>A button pressed over an enabled main window, while no window holds the mouse and no hook stops it, brings that window
  to the top of its Z order and makes it active, unless it is a tool window or the input method window; the window
  then holds the mouse, and the clip regions are right.\<close>

theorem click_brings_window_to_front:
  assumes "desk_reach proc g" "active_alive g" "mg_capture g = 0" "mgs_button_down_main_window g = 0"
    and "GetMainWindowPtrUnderPoint g x y = w" "w \<noteq> 0" "WinType (dwins g w) \<noteq> TYPE_CONTROL" "\<not> has_style g w WS_DISABLED"
    and "m \<in> {MSG_LBUTTONDOWN, MSG_RBUTTONDOWN}" "\<not> hook w m flags x y"
  shows "\<exists>g' z rest. MouseMessageHandler hook m flags x y g = Some g' \<and> nodes g' z = w # rest
    \<and> (mg_active g' = w \<or> has_exstyle g' w WS_EX_TOOLWINDOW \<or> mg_ime_wnd g' = w)
    \<and> mgs_button_down_main_window g' = w \<and> clipped g'"
proof -
  have live: "desk_live g" using desk_reach_inv [OF assms(1)] assms(2) by (simp add: desk_live_def)
  have "w \<in> set (order g)" using under_point_in [of g x y] assms(5,6) by simp
  then obtain g' where g': "mouse_down w False m flags x y g = Some g'" "desk_live g'" "in_front g' w"
    "mgs_button_down_main_window g' = w"
    using mouse_down_live [OF live, of w False m flags x y] assms(4,6,8) by auto
  have "MouseMessageHandler hook m flags x y g = Some g'"
    using g'(1) assms(3,5,6,7,9,10) by (auto simp: MouseMessageHandler_def Let_def)
  then show ?thesis using g'(2,3,4) by (auto simp: in_front_def desk_live_def desk_inv_def clipped_def)
qed

theorem click_brings_window_to_front_witness:
  "\<exists>g' z rest. MouseMessageHandler (\<lambda>_ _ _ _ _. False) MSG_LBUTTONDOWN 0 3 3 with_window = Some g' \<and> nodes g' z = 1 # rest
    \<and> (mg_active g' = 1 \<or> has_exstyle g' 1 WS_EX_TOOLWINDOW \<or> mg_ime_wnd g' = 1)
    \<and> mgs_button_down_main_window g' = 1 \<and> clipped g'"
  by (rule click_brings_window_to_front [OF with_window_reach(1) with_window_facts(1-4) _ with_window_facts(5,6)]) simp_all



subsection \<open>The next window\<close>

lemma under_dropWhile:
  assumes "zwf g" "w \<in> set (nodes g z)"
  shows "tl (dropWhile (\<lambda>h. h \<noteq> w) (order g)) = under g z w"
  using assms(2) other_order [OF assms, of TopZ] other_order [OF assms, of MainZ] dropWhile_tail [of w "nodes g TopZ"]
  by (cases z) (auto simp: order_def under_def dropWhile_append)

text \<open>C11.  The search for the next main window always ends, and it returns the window behind the given one in the order of
  all windows, the topmost ones first, or the first window when none is given, be it a main window or a control that
  acts as one.  Behind the last normal window it answers that there is none; behind the last topmost window, and on an
  empty desktop, when there is no normal window, it follows a NULL pointer.\<close>

theorem next_window_in_order:
  assumes "desk_reach proc g" "w = 0 \<or> w \<in> set (order g)"
    and "\<forall>t. has_exstyle g t WS_EX_CTRLASMAINWIN \<longrightarrow> WinType (dwins g t) = TYPE_CONTROL"
  shows "get_next_loop g w 0 = Some (case (if w = 0 then order g else tl (dropWhile (\<lambda>h. h \<noteq> w) (order g))) of
      t # _ \<Rightarrow> Some t
    | [] \<Rightarrow> if w \<noteq> 0 \<and> \<not> has_exstyle g w WS_EX_TOPMOST then Some 0 else None)"
proof -
  have z: "zwf g" using desk_reach_inv [OF assms(1)] by (simp add: desk_inv_def)
  have zero: "0 \<notin> set (nodes g zo)" for zo using zwfD(3) [OF z] by blast
  have "next_mainwin g w 0 = (case (if w = 0 then order g else tl (dropWhile (\<lambda>h. h \<noteq> w) (order g))) of
      t # _ \<Rightarrow> Some t | [] \<Rightarrow> if w \<noteq> 0 \<and> \<not> has_exstyle g w WS_EX_TOPMOST then Some 0 else None)"
  proof (cases "w = 0")
    case True
    then show ?thesis using zero [of TopZ] by (cases "nodes g TopZ") (auto simp: next_mainwin_def order_def split: list.split)
  next
    case False
    then obtain zo where zo: "w \<in> set (nodes g zo)" using assms(2) order_nodes by blast
    have "GET_WIN_ZORDER g w = zo" using zwfD(1) [OF z zo] .
    then show ?thesis
      using False nodes_under_list [OF zo] under_dropWhile [OF z zo]
      by (cases zo) (auto simp: next_mainwin_def under_def GET_WIN_ZORDER_cases split: list.splits)
  qed
  moreover have none: "CheckAndGetMainWindowPtr g h = 0 \<or> \<not> has_exstyle g (CheckAndGetMainWindowPtr g h) WS_EX_CTRLASMAINWIN" for h
    using assms(3) by (auto simp: CheckAndGetMainWindowPtr_def)
  have "get_next_loop g w 0 = Some (next_mainwin g w 0)"
    using none [of "the (next_mainwin g w 0)"]
    by (subst get_next_loop.simps) (cases "next_mainwin g w 0"; auto simp: Let_def)
  ultimately show ?thesis by simp
qed

lemma with_window_plain: "\<not> has_exstyle created t WS_EX_CTRLASMAINWIN"
  by (simp add: has_exstyle_def created_def small_screen_def InitDesktop_def Let_def plain_window_def)

theorem next_window_in_order_witness:
  "get_next_loop created 0 0 = Some (case (if (0::nat) = 0 then order created else tl (dropWhile (\<lambda>h. h \<noteq> 0) (order created))) of
      t # _ \<Rightarrow> Some t
    | [] \<Rightarrow> if (0::nat) \<noteq> 0 \<and> \<not> has_exstyle created 0 WS_EX_TOPMOST then Some 0 else None)"
  by (rule next_window_in_order [OF created_reach]) (simp_all add: with_window_plain)

end
