(* ===== verification/Desktop_Proc_Props.thy ===== *)
theory Desktop_Proc_Props
  imports Desktop_Proc Desktop_Props
begin

section \<open>The desktop: what dragging does, and that the procedure of the desktop keeps it right\<close>

text \<open>
  A drag in closed form, and the invariant of the desktop over all messages that reach its procedure, drags and
  instances of controls among them.
\<close>

subsection \<open>Coordinates in messages\<close>

lemma LOSWORD_mod: "LOSWORD l = (l + 2 ^ 15) mod 2 ^ 16 - 2 ^ 15"
  by (simp add: LOSWORD_def signed_take_bit_eq_take_bit_shift take_bit_eq_mod)

lemma LOSWORD_low: "LOSWORD (l mod 2 ^ 16) = LOSWORD l"
  unfolding LOSWORD_mod by (simp add: mod_simps)

lemma LOSWORD_small: "- (2 ^ 15) \<le> a \<Longrightarrow> a < 2 ^ 15 \<Longrightarrow> LOSWORD a = a"
  unfolding LOSWORD_mod by (subst mod_pos_pos_trivial) simp_all

lemma LOSWORD_MAKELONG: "- (2 ^ 15) \<le> a \<Longrightarrow> a < 2 ^ 15 \<Longrightarrow> LOSWORD (MAKELONG a b) = a"
proof -
  have "MAKELONG a b mod 2 ^ 16 = a mod 2 ^ 16" by (simp add: MAKELONG_def)
  then show "- (2 ^ 15) \<le> a \<Longrightarrow> a < 2 ^ 15 \<Longrightarrow> LOSWORD (MAKELONG a b) = a"
    using LOSWORD_low LOSWORD_small by metis
qed

lemma HISWORD_MAKELONG: "- (2 ^ 15) \<le> b \<Longrightarrow> b < 2 ^ 15 \<Longrightarrow> HISWORD (MAKELONG a b) = b"
proof -
  have "HISWORD (MAKELONG a b) = LOSWORD (b mod 2 ^ 16)"
    by (simp add: MAKELONG_def HISWORD_def LOSWORD_def drop_bit_eq_div)
  then show "- (2 ^ 15) \<le> b \<Longrightarrow> b < 2 ^ 15 \<Longrightarrow> HISWORD (MAKELONG a b) = b"
    using LOSWORD_low LOSWORD_small by metis
qed

definition in_16_bits :: "rect \<Rightarrow> bool" where
  "in_16_bits rc \<longleftrightarrow> (\<forall>c \<in> {rleft rc, rtop rc, rright rc, rbottom rc}. - (2 ^ 15) \<le> c \<and> c < 2 ^ 15)"

lemma dropped_rect_packed:
  "in_16_bits rc \<Longrightarrow> dropped_rect (MAKELONG (rleft rc) (rtop rc)) (MAKELONG (rright rc) (rbottom rc)) = rc"
  by (cases rc) (simp add: in_16_bits_def dropped_rect_def LOSWORD_MAKELONG HISWORD_MAKELONG)

subsection \<open>A drag\<close>

lemma drag_rect_add: "drag_rect loc dx dy (drag_rect loc dx' dy' rc) = drag_rect loc (dx' + dx) (dy' + dy) rc"
  by (cases rc) (simp add: drag_rect_def ht_defs OffsetRect_def)

lemma drag_rect_none: "drag_rect loc 0 0 rc = rc"
  by (cases rc) (simp add: drag_rect_def OffsetRect_def)

text \<open>How often a rectangle is drawn; each time inverts the screen under its frame.\<close>

definition frames :: "rect \<Rightarrow> out list \<Rightarrow> nat" where
  "frames rc es = length (filter (\<lambda>e. e = FocusRect rc) es)"

fun move_mouse :: "desk_env \<Rightarrow> (int \<times> int) list \<Rightarrow> desktop \<Rightarrow> desktop option" where
  "move_mouse env [] s = Some s"
| "move_mouse env ((flags, lParam) # ms) s = do { s \<leftarrow> desk_mouse env MSG_MOUSEMOVE flags lParam s; move_mouse env ms s }"

definition at_last :: "int \<times> int \<Rightarrow> (int \<times> int) list \<Rightarrow> int \<times> int" where
  "at_last start ms = last (start # map (\<lambda>(_, lParam). (LOSWORD lParam, HISWORD lParam)) ms)"

definition drag_end :: "draginfo \<Rightarrow> (int \<times> int) list \<Rightarrow> rect \<Rightarrow> rect" where
  "drag_end info ms rc =
     (let (x, y) = at_last (di_init_x info, di_init_y info) ms
      in drag_rect (di_location info) (x - di_init_x info) (y - di_init_y info) rc)"

lemma drag_moves:
  assumes "dd_hwnd (dd_info s) \<noteq> 0" "dd_last_x (dd_info s) = x" "dd_last_y (dd_info s) = y"
  shows "\<exists>es. move_mouse env ms s = Some (s\<lparr>dd_info := (dd_info s)
        \<lparr>dd_rc := drag_rect (dd_location (dd_info s)) (fst (at_last (x, y) ms) - x) (snd (at_last (x, y) ms) - y) (dd_rc (dd_info s)),
         dd_last_x := fst (at_last (x, y) ms), dd_last_y := snd (at_last (x, y) ms)\<rparr>, outs := outs s @ es\<rparr>)
    \<and> (\<forall>rc. even (frames rc (FocusRect (dd_rc (dd_info s)) # es @ [FocusRect
        (drag_rect (dd_location (dd_info s)) (fst (at_last (x, y) ms) - x) (snd (at_last (x, y) ms) - y) (dd_rc (dd_info s)))])))"
  using assms
proof (induction ms arbitrary: s x y)
  case Nil
  then have "s = s\<lparr>dd_info := (dd_info s)\<lparr>dd_last_x := x, dd_last_y := y\<rparr>, outs := outs s @ []\<rparr>" by (cases s) auto
  then show ?case by (intro exI [of _ "[]"]) (simp add: at_last_def drag_rect_none frames_def)
next
  case (Cons m ms)
  obtain f l where m: "m = (f, l)" by (cases m)
  let ?x = "LOSWORD l" and ?y = "HISWORD l" and ?i = "dd_info s"
  let ?rc = "drag_rect (dd_location ?i) (?x - x) (?y - y) (dd_rc ?i)"
  let ?s = "put [FocusRect (dd_rc ?i), FocusRect ?rc] (s\<lparr>dd_info := ?i\<lparr>dd_rc := ?rc, dd_last_x := ?x, dd_last_y := ?y\<rparr>\<rparr>)"
  have step: "desk_mouse env MSG_MOUSEMOVE f l s = Some ?s"
    using Cons.prems by (simp add: desk_mouse_def do_drag_drop_window_def Let_def)
  have i: "dd_info ?s = ?i\<lparr>dd_rc := ?rc, dd_last_x := ?x, dd_last_y := ?y\<rparr>" "outs ?s = outs s @ [FocusRect (dd_rc ?i), FocusRect ?rc]"
    by (simp_all add: put_def)
  have last: "at_last (x, y) (m # ms) = at_last (?x, ?y) ms" by (simp add: at_last_def m)
  have add: "drag_rect (dd_location ?i) (a - ?x) (b - ?y) ?rc = drag_rect (dd_location ?i) (a - x) (b - y) (dd_rc ?i)" for a b
    by (simp add: drag_rect_add)
  obtain es where es: "move_mouse env ms ?s = Some (?s\<lparr>dd_info := (dd_info ?s)
        \<lparr>dd_rc := drag_rect (dd_location ?i) (fst (at_last (?x, ?y) ms) - x) (snd (at_last (?x, ?y) ms) - y) (dd_rc ?i),
         dd_last_x := fst (at_last (?x, ?y) ms), dd_last_y := snd (at_last (?x, ?y) ms)\<rparr>, outs := outs ?s @ es\<rparr>)"
    "\<forall>rc. even (frames rc (FocusRect ?rc # es @ [FocusRect
        (drag_rect (dd_location ?i) (fst (at_last (?x, ?y) ms) - x) (snd (at_last (?x, ?y) ms) - y) (dd_rc ?i))]))"
    using Cons.IH [of ?s ?x ?y] Cons.prems(1) by (auto simp: i add)
  show ?case
    using es step by (intro exI [of _ "[FocusRect (dd_rc ?i), FocusRect ?rc] @ es"]) (auto simp: m last [unfolded m] put_def frames_def)
qed

text \<open>C12.  A window that is dragged follows only the way from where the drag began to the last position of the mouse: when it is
  dropped, by any other event of the mouse, the window gets its old rectangle with the sides of the grip moved by that
  way, as long as the coordinates fit into sixteen bits.  Meanwhile no event reaches any window, and every frame
  that was drawn on the screen is drawn again, which removes it.\<close>

theorem drag_moves_window:
  assumes "visible (core s) w" "dd_hwnd (dd_info s) = 0" "w \<noteq> 0" "m \<noteq> MSG_MOUSEMOVE"
  shows "\<exists>s1 s2 es wParam lParam. window_message env (MSG_STARTDRAGWIN info) w s = Some (0, s1)
    \<and> move_mouse env ms s1 \<bind> desk_mouse env m flags l = Some s2
    \<and> core s2 = (core s)\<lparr>mgs_old_under_p := 0, mgs_button_down_main_window := 0, mgs_down_buttons := DOWN_BUTTON_NONE\<rparr>
    \<and> dd_hwnd (dd_info s2) = 0
    \<and> outs s2 = outs s @ es @ [WindowDropped (int w) wParam lParam, SetDefaultCursor IDC_ARROW]
    \<and> (in_16_bits (drag_end info ms (wrc (dwins (core s) w))) \<longrightarrow>
        dropped_rect wParam lParam = drag_end info ms (wrc (dwins (core s) w))) \<and> (\<forall>frame. even (frames frame es))"
proof -
  let ?g = "(core s)\<lparr>mgs_old_under_p := 0, mgs_button_down_main_window := 0, mgs_down_buttons := DOWN_BUTTON_NONE\<rparr>"
  let ?rc = "wrc (dwins (core s) w)"
  define rc where "rc = drag_end info ms ?rc"
  define to where "to = at_last (di_init_x info, di_init_y info) ms"
  let ?i = "\<lparr>dd_hwnd = int w, dd_rc = ?rc, dd_location = di_location info, dd_last_x = di_init_x info, dd_last_y = di_init_y info\<rparr>"
  let ?s = "put (drag_cursor (di_location info) @ [FocusRect ?rc]) (s\<lparr>core := ?g, dd_info := ?i\<rparr>)"
  have start: "window_message env (MSG_STARTDRAGWIN info) w s = Some (0, ?s)"
    using assms(1,2) by (simp add: window_message_def do_drag_drop_window_def dskStartDragWindow_def Let_def)
  have i: "dd_info ?s = ?i" "core ?s = ?g" "outs ?s = outs s @ drag_cursor (di_location info) @ [FocusRect ?rc]"
    by (simp_all add: put_def)
  obtain es where es: "move_mouse env ms ?s = Some (?s\<lparr>dd_info := ?i\<lparr>dd_rc := rc, dd_last_x := fst to, dd_last_y := snd to\<rparr>,
      outs := outs ?s @ es\<rparr>)" "\<forall>r. even (frames r (FocusRect ?rc # es @ [FocusRect rc]))"
    using drag_moves [of ?s "di_init_x info" "di_init_y info" env ms] assms(3) by (auto simp: i rc_def to_def drag_end_def split_beta)
  have "frames r (drag_cursor l) = 0" for r l by (simp add: frames_def drag_cursor_def)
  then have "\<forall>r. even (frames r (drag_cursor (di_location info) @ FocusRect ?rc # es @ [FocusRect rc]))"
    using es(2) by (simp add: frames_def)
  then show ?thesis
    unfolding rc_def [symmetric] using start es(1) assms(3,4) dropped_rect_packed [of rc]
    by (intro exI [of _ ?s] exI [of _ "drag_cursor (di_location info) @ FocusRect ?rc # es @ [FocusRect rc]"] exI)
      (auto simp: desk_mouse_def do_drag_drop_window_def Let_def put_def)
qed

definition drag_desk :: desktop where
  "drag_desk = \<lparr>core = with_window, dd_info = \<lparr>dd_hwnd = 0, dd_rc = mk_rect 0 0 0 0, dd_location = 0, dd_last_x = 0, dd_last_y = 0\<rparr>,
     keyhook = (0, 0), mousehook = (0, 0), children = (\<lambda>_. []), nUseCount = (\<lambda>_. 0), uCounter = 0, outs = []\<rparr>"

definition quiet_env :: desk_env where
  "quiet_env = \<lparr>env_proc = keep_size, env_keyhook = (\<lambda>_ _ _ _ _ _. False), env_mousehook = (\<lambda>_ _ _ _ _ _ _. False),
     track_key = (\<lambda>_ _ _ g. (True, g)), track_mouse = (\<lambda>_ _ _ g. (True, g)), desktop_menu = (\<lambda>_ _ g. g), class_of = (\<lambda>_. 0)\<rparr>"

theorem drag_moves_window_witness:
  "\<exists>s1 s2 es wParam lParam. window_message quiet_env (MSG_STARTDRAGWIN \<lparr>di_location = HT_CORNER_BR, di_init_x = 6, di_init_y = 6\<rparr>) 1
      drag_desk = Some (0, s1)
    \<and> move_mouse quiet_env [(0, MAKELONG 7 2), (0, MAKELONG 9 8)] s1 \<bind> desk_mouse quiet_env MSG_LBUTTONUP 0 0 = Some s2
    \<and> outs s2 = es @ [WindowDropped 1 wParam lParam, SetDefaultCursor IDC_ARROW]
    \<and> dropped_rect wParam lParam = mk_rect 2 2 9 8"
proof -
  let ?info = "\<lparr>di_location = HT_CORNER_BR, di_init_x = 6, di_init_y = 6\<rparr>"
  have "visible (core drag_desk) 1" using with_window_reach(5) by (simp add: drag_desk_def)
  moreover have "drag_end ?info [(0, MAKELONG 7 2), (0, MAKELONG 9 8)] (wrc (dwins (core drag_desk) 1)) = mk_rect 2 2 9 8"
    by code_simp
  moreover have "in_16_bits (mk_rect 2 2 9 8)" by (simp add: in_16_bits_def)
  ultimately show ?thesis
    using drag_moves_window [of drag_desk 1 MSG_LBUTTONUP quiet_env ?info "[(0, MAKELONG 7 2), (0, MAKELONG 9 8)]" 0 0]
    by (fastforce simp: drag_desk_def)
qed

text \<open>\<open>MSG_CANCELDRAGWIN\<close> never cancels a drag: like every message about windows it first drops the window where it is,
  and then finds nothing to cancel and returns \<open>-1\<close>.\<close>

lemma cancel_drops: "window_message env MSG_CANCELDRAGWIN w s = Some (-1, snd (do_drag_drop_window False 0 0 s))"
  by (simp add: window_message_def dskCancelDragWindow_def do_drag_drop_window_def Let_def put_def)

subsection \<open>The procedure of the desktop\<close>

definition drag_ok :: "desktop \<Rightarrow> bool" where
  "drag_ok s \<longleftrightarrow> dd_hwnd (dd_info s) = 0
     \<or> (\<exists>w. dd_hwnd (dd_info s) = int w \<and> w \<in> set (order (core s)) \<and> visible (core s) w)"

text \<open>The procedures of menus leave a desktop that is right, with a live active window, as one that is so.\<close>

definition env_ok :: "desk_env \<Rightarrow> bool" where
  "env_ok env \<longleftrightarrow> (\<forall>g. desk_live g \<longrightarrow> (\<forall>m k st. desk_live (snd (track_key env m k st g)))
     \<and> (\<forall>m x y. desk_live (snd (track_mouse env m x y g))) \<and> (\<forall>x y. desk_live (desktop_menu env x y g)))"

fun allowed_win :: "desk_env \<Rightarrow> win_msg \<Rightarrow> nat \<Rightarrow> dsk \<Rightarrow> bool" where
  "allowed_win env (OnCore m) w g = allowed (env_proc env) m w g"
| "allowed_win env _ w g \<longleftrightarrow> w \<in> set (order g)"

definition new_desktop :: "int \<Rightarrow> int \<Rightarrow> desktop" where
  "new_desktop maxx maxy = drag_desk\<lparr>core := InitDesktop maxx maxy\<rparr>"

inductive proc_reach :: "desk_env \<Rightarrow> desktop \<Rightarrow> bool" for env where
  init: "0 \<le> maxx \<Longrightarrow> 0 \<le> maxy \<Longrightarrow> proc_reach env (new_desktop maxx maxy)"
| create: "proc_reach env s \<Longrightarrow> w \<notin> set (order (core s)) \<Longrightarrow> \<forall>t \<in> set (order (core s)). w \<notin> set (pParents (dwins (core s) t)) \<Longrightarrow>
    proc_reach env (s\<lparr>core := (core s)\<lparr>dwins := (dwins (core s))(w := win)\<rparr>\<rparr>)"
| window: "proc_reach env s \<Longrightarrow> allowed_win env m w (core s) \<Longrightarrow> window_message env m w s = Some (r, s') \<Longrightarrow> proc_reach env s'"
| key: "proc_reach env s \<Longrightarrow> active_alive (core s) \<Longrightarrow> desk_key env km scancode status s = Some s' \<Longrightarrow> proc_reach env s'"
| mouse: "proc_reach env s \<Longrightarrow> active_alive (core s) \<Longrightarrow> desk_mouse env mm flags lParam s = Some s' \<Longrightarrow> proc_reach env s'"
| new_ctrl: "proc_reach env s \<Longrightarrow> mg_ptmi (core s) = [] \<Longrightarrow> w \<notin> set (order (core s)) \<Longrightarrow> w \<noteq> 0 \<Longrightarrow> placed (core s) w \<Longrightarrow>
    dskOnNewCtrlInstance env p w s = Some s' \<Longrightarrow> proc_reach env s'"
| remove_ctrl: "proc_reach env s \<Longrightarrow> mg_ptmi (core s) = [] \<Longrightarrow> has_exstyle (core s) w WS_EX_CTRLASMAINWIN \<longrightarrow> w \<in> set (order (core s)) \<Longrightarrow>
    dd_hwnd (dd_info s) \<noteq> int w \<Longrightarrow> dskOnRemoveCtrlInstance env p w s = Some (found, s') \<Longrightarrow> proc_reach env s'"
| hooks: "proc_reach env s \<Longrightarrow> s' \<in> {snd (dskRegisterKeyHook c h s), snd (dskRegisterMouseHook c h s)} \<Longrightarrow> proc_reach env s'"
| others: "proc_reach env s \<Longrightarrow> s' \<in> {snd (dskBroadcastMessage i wp lp s), close_all_windows s, desk_paint wp lp s, blink_caret n bt s,
    snd (dskRegisterIMEWnd w s), snd (dskUnregisterIMEWnd w s)} \<Longrightarrow> proc_reach env s'"

lemma drop_drag: "core (snd (do_drag_drop_window move x y s)) = core s"
  "dd_hwnd (dd_info (snd (do_drag_drop_window False x y s))) = 0"
  by (simp_all add: do_drag_drop_window_def Let_def put_def)

lemma drag_okI: "dd_hwnd (dd_info s) = 0 \<Longrightarrow> drag_ok s"
  by (simp add: drag_ok_def)

definition desk_ok :: "desktop \<Rightarrow> bool" where
  "desk_ok s \<longleftrightarrow> desk_inv (core s) \<and> drag_ok s"

text \<open>A step after which no window that was there has gone or is hidden.\<close>

lemma desk_ok_more:
  assumes "desk_ok s" "desk_inv (core s')" "dd_hwnd (dd_info s') = dd_hwnd (dd_info s)"
    and "\<And>t. t \<in> set (order (core s)) \<Longrightarrow> dd_hwnd (dd_info s) = int t \<Longrightarrow> t \<in> set (order (core s')) \<and> visible (core s') t = visible (core s) t"
  shows "desk_ok s'"
  using assms by (auto simp: desk_ok_def drag_ok_def)

lemma desk_ok_quiet:
  assumes "desk_ok s" "quiet (core s) (core s')" "dd_info s' = dd_info s"
  shows "desk_ok s'"
proof (rule desk_ok_more [OF assms(1)])
  show "desk_inv (core s')" using quiet_inv [OF assms(2)] assms(1) by (simp add: desk_ok_def)
  show "t \<in> set (order (core s')) \<and> visible (core s') t = visible (core s) t" if "t \<in> set (order (core s))" for t
    using that quiet_nodes [OF assms(2)] frame_same(1) [of "core s" "core s'"] assms(2) by (simp add: order_def quiet_def)
qed (use assms(3) in simp)

lemma window_message_ok:
  assumes "desk_ok s" "allowed_win env m w (core s)"
  shows "\<exists>r s'. window_message env m w s = Some (r, s') \<and> desk_ok s'"
proof -
  let ?s = "snd (do_drag_drop_window False 0 0 s)"
  have s: "desk_inv (core ?s)" "dd_hwnd (dd_info ?s) = 0" using assms(1) drop_drag by (simp_all add: desk_ok_def)
  show ?thesis
  proof (cases m)
    case (OnCore m')
    then obtain g where g: "WindowMessageHandler (env_proc env) m' w (core ?s) = Some g" "desk_inv g"
      using handler_inv [OF s(1), of "env_proc env" m' w] assms(2) by (auto simp: meets_def drop_drag)
    then show ?thesis using s(2) by (auto simp: window_message_def Let_def OnCore on_core_def desk_ok_def drag_ok_def)
  next
    case (MSG_STARTDRAGWIN info)
    let ?g = "(core ?s)\<lparr>mgs_old_under_p := 0, mgs_button_down_main_window := 0, mgs_down_buttons := DOWN_BUTTON_NONE\<rparr>"
    have q: "quiet (core ?s) ?g" by (simp add: quiet_def frame_def)
    then have "desk_inv ?g" "order ?g = order (core s)" "visible ?g w = visible (core s) w"
      using quiet_inv [OF q s(1)] quiet_nodes [OF q] frame_same(1) by (simp_all add: quiet_def drop_drag order_def)
    then show ?thesis
      using s assms by (auto simp: window_message_def Let_def MSG_STARTDRAGWIN dskStartDragWindow_def put_def desk_ok_def drag_ok_def drop_drag)
  next
    case MSG_CANCELDRAGWIN
    then show ?thesis using s by (auto simp: cancel_drops desk_ok_def drag_ok_def)
  qed
qed

lemma on_core_ok:
  assumes "\<exists>g. f (core s) = Some g \<and> desk_live g" "dd_hwnd (dd_info s) = 0"
  shows "\<exists>s'. on_core f s = Some s' \<and> desk_ok s'"
  using assms by (auto simp: on_core_def desk_ok_def desk_live_def drag_ok_def)

lemma key_ok:
  assumes "env_ok env" "desk_ok s" "active_alive (core s)"
  shows "\<exists>s'. desk_key env m k st s = Some s' \<and> desk_ok s'"
proof -
  let ?d = "do_drag_drop_window False 0 0 s"
  have live: "desk_live (core s)" using assms(2,3) by (simp add: desk_live_def desk_ok_def)
  have drop: "desk_ok (snd ?d)" using assms(2) drop_drag by (simp add: desk_ok_def drag_ok_def)
  have char: "desk_ok (s\<lparr>core := emit es (core s)\<rparr>)" for es by (rule desk_ok_quiet [OF assms(2)]) simp_all
  have handled: "\<exists>s'. on_core (KeyMessageHandler hook m k st) (s\<lparr>core := g\<rparr>) = Some s' \<and> desk_ok s'"
    if "desk_live g" "dd_hwnd (dd_info s) = 0" for g hook
    using on_core_ok [of "KeyMessageHandler hook m k st" "s\<lparr>core := g\<rparr>"] KeyMessageHandler_live [OF that(1)] that(2) by simp
  have kept: "desk_ok (s\<lparr>core := g\<rparr>)" if "desk_live g" "dd_hwnd (dd_info s) = 0" for g
    using that by (simp add: desk_ok_def desk_live_def drag_ok_def)
  show ?thesis
  proof (cases "dd_hwnd (dd_info s) = 0")
    case True
    define g where "g = (if k = SCANCODE_ESCAPE \<and> st AND KS_CTRL \<noteq> 0 then desktop_menu env 0 (rbottom (g_rcScr (core s))) (core s) else core s)"
    have g: "desk_live g" "desk_live (snd (track_key env m k st g))" using assms(1) live by (simp_all add: g_def env_ok_def)
    have "?d = (False, s)" using True by (simp add: do_drag_drop_window_def)
    then have "desk_key env m k st s = (if m = MSG_CHAR \<and> mg_active (core s) \<noteq> 0
        then Some (s\<lparr>core := emit [PostKey (mg_active (core s)) m k st] (core s)\<rparr>)
        else if mg_ptmi g \<noteq> []
        then if fst (track_key env m k st g) then on_core (KeyMessageHandler (dskHandleKeyHooks env s) m k st) (s\<lparr>core := snd (track_key env m k st g)\<rparr>)
             else Some (s\<lparr>core := snd (track_key env m k st g)\<rparr>)
        else on_core (KeyMessageHandler (dskHandleKeyHooks env s) m k st) (s\<lparr>core := g\<rparr>))"
      by (simp add: desk_key_def Let_def g_def split_beta dskHandleKeyHooks_def)
    then show ?thesis using char handled [OF g(1) True] handled [OF g(2) True] kept [OF g(2) True] by auto
  next
    case False
    then have "fst ?d" by (simp add: do_drag_drop_window_def Let_def)
    then show ?thesis using char drop by (simp add: desk_key_def split_beta)
  qed
qed

lemma mouse_ok:
  assumes "env_ok env" "desk_ok s" "active_alive (core s)"
  shows "\<exists>s'. desk_mouse env m f l s = Some s' \<and> desk_ok s'"
proof -
  let ?x = "LOSWORD l" and ?y = "HISWORD l"
  let ?d = "do_drag_drop_window (m = MSG_MOUSEMOVE) ?x ?y s"
  have live: "desk_live (core s)" using assms(2,3) by (simp add: desk_live_def desk_ok_def)
  have handled: "\<exists>s'. on_core (MouseMessageHandler hook m f ?x ?y) (s\<lparr>core := g\<rparr>) = Some s' \<and> desk_ok s'"
    if "desk_live g" "dd_hwnd (dd_info s) = 0" for g hook
    using on_core_ok [of "MouseMessageHandler hook m f ?x ?y" "s\<lparr>core := g\<rparr>"] MouseMessageHandler_live [OF that(1)] that(2) by simp
  show ?thesis
  proof (cases "dd_hwnd (dd_info s) = 0")
    case True
    let ?g = "snd (track_mouse env m ?x ?y (core s))"
    have g: "desk_live ?g" using assms(1) live by (simp add: env_ok_def)
    then have kept: "desk_ok (s\<lparr>core := ?g\<rparr>)" using True by (simp add: desk_ok_def desk_live_def drag_ok_def)
    have "?d = (False, s)" using True by (simp add: do_drag_drop_window_def)
    then have "desk_mouse env m f l s = (if mg_ptmi (core s) \<noteq> []
        then if fst (track_mouse env m ?x ?y (core s))
             then on_core (MouseMessageHandler (dskHandleMouseHooks env s) m f ?x ?y) (s\<lparr>core := ?g\<rparr>) else Some (s\<lparr>core := ?g\<rparr>)
        else on_core (MouseMessageHandler (dskHandleMouseHooks env s) m f ?x ?y) (s\<lparr>core := core s\<rparr>))"
      by (simp add: desk_mouse_def Let_def split_beta)
    then show ?thesis using handled [OF live True] handled [OF g True] kept by auto
  next
    case False
    then have "desk_mouse env m f l s = Some (snd ?d)" by (simp add: desk_mouse_def do_drag_drop_window_def Let_def)
    moreover have "desk_ok (snd ?d)"
      using assms(2) False by (auto simp: desk_ok_def drag_ok_def do_drag_drop_window_def Let_def put_def)
    ultimately show ?thesis by simp
  qed
qed

text \<open>Instances of controls that are in the Z orders.\<close>

lemma init_invrgn_same [simp]: "order (init_invrgn w g) = order g" "has_style (init_invrgn w g) t st = has_style g t st"
  by (rule frame_desk(1) frame_same(1), rule frame_invrgn)+

lemma init_commute: "init_gcrinfo w (init_invrgn w g) = init_invrgn w (init_gcrinfo w g)"
  using frame_same(7) [OF frame_invrgn(1), of w g w]
  by (auto simp: init_gcrinfo_def Let_def init_invrgn_def upd_win_def fun_eq_iff intro!: dsk.equality mainwin.equality)

lemma new_ctrl_ok:
  assumes "desk_ok s" "mg_ptmi (core s) = []" "w \<notin> set (order (core s))" "w \<noteq> 0" "placed (core s) w"
  shows "\<exists>s'. dskOnNewCtrlInstance env p w s = Some s' \<and> desk_ok s'"
proof -
  let ?g = "core s"
  let ?i = "init_invrgn w ?g" and ?h = "add_new_window w (init_gcrinfo w (init_invrgn w ?g))"
  have inv: "desk_inv ?g" and m: "menus ?g = {}" using assms(1,2) by (simp_all add: desk_ok_def menus_def)
  note h = new_window_inv [OF inv assms(3-5), folded init_commute]
  have style: "has_style ?h = has_style ?g"
    using add_new_window_facts(2) frame_same(1) [OF drawnD(1) [OF drawn_frame [OF init_gcrinfo_drawn [OF assms(5)] frame_invrgn]]]
    by (simp add: init_commute fun_eq_iff)
  have nodes: "set (order ?g) \<subseteq> set (order ?h)" by (auto simp: order_def h(4))
  have step: "\<exists>k. (if visible ?h w then dskUpdateGCRInfoOnShowNewMainWin w ?h else Some ?h) = Some k \<and> desk_inv k \<and> frame ?h k"
  proof (cases "visible ?h w")
    case False
    then have "(visible ?h)(w := False) = visible ?h" by (simp add: fun_upd_idem)
    then show ?thesis using False h(1,2) by (simp add: desk_inv_def clipped_def)
  next
    case True
    then have V: "(visible ?h)(w := True) = visible ?h" by (simp add: fun_upd_idem)
    obtain k where k: "dskUpdateGCRInfoOnShowNewMainWin w ?h = Some k" "frame ?h k" "clipped_for (visible ?h) k"
      using show_new_keeps [OF h(1) _ _ h(2,5), of "new_zorder ?g w" "nodes ?g (new_zorder ?g w)" "{}"] h(3,4,6) m V by auto
    then show ?thesis using True frame_desk(6) [OF k(2)] frame_visible [OF k(2)] h(1) by (auto simp: desk_inv_def clipped_def)
  qed
  have ok: "desk_ok s'" if "desk_inv (core s')" "dd_info s' = dd_info s" "core s' = ?i \<or> frame ?h (core s')" for s'
  proof (rule desk_ok_more [OF assms(1) that(1)])
    show "t \<in> set (order (core s')) \<and> visible (core s') t = visible ?g t" if "t \<in> set (order ?g)" for t
      using \<open>core s' = ?i \<or> frame ?h (core s')\<close> that nodes style frame_desk(1) frame_same(1) by auto
  qed (use that in simp)
  have "desk_inv ?i" using desk_inv_cong [OF inv frame_invrgn] .
  then show ?thesis using step ok by (auto simp: dskOnNewCtrlInstance_def Let_def)
qed

lemma remove_ctrl_steps:
  "dskOnRemoveCtrlInstance env p w s = (if children s p = [] then Some (False, s)
     else map_option (\<lambda>g. (w \<in> set (children s p), s\<lparr>children := (children s)(p := remove1 w (children s p)),
            nUseCount := (if w \<in> set (children s p) then (nUseCount s)(class_of env w := nUseCount s (class_of env w) - 1) else nUseCount s),
            core := (if w = mg_capture g then g\<lparr>mg_capture := 0\<rparr> else g)\<rparr>))
       (if has_exstyle (core s) w WS_EX_CTRLASMAINWIN
        then (if visible (core s) w then dskUpdateGCRInfoOnHideMainWin w (core s) else Some (core s)) \<bind> remove_window w
        else Some (core s)))"
  by (simp add: dskOnRemoveCtrlInstance_def Let_def map_conv_bind_option Option.bind_assoc comp_def)

lemma remove_ctrl_ok:
  assumes "desk_ok s" "mg_ptmi (core s) = []" "has_exstyle (core s) w WS_EX_CTRLASMAINWIN \<longrightarrow> w \<in> set (order (core s))"
    and "dd_hwnd (dd_info s) \<noteq> int w"
  shows "\<exists>r s'. dskOnRemoveCtrlInstance env p w s = Some (r, s') \<and> desk_ok s'"
proof -
  let ?g = "core s"
  let ?hide = "if visible ?g w then dskUpdateGCRInfoOnHideMainWin w ?g else Some ?g"
  have inv: "desk_inv ?g" and m: "menus ?g = {}" using assms(1,2) by (simp_all add: desk_ok_def menus_def)
  have ok: "desk_ok s'" if "quiet g (core s')" "desk_inv g" "dd_info s' = dd_info s" 
    "\<And>t. t \<noteq> w \<Longrightarrow> t \<in> set (order ?g) \<Longrightarrow> t \<in> set (order g) \<and> visible g t = visible ?g t" for s' g
  proof (rule desk_ok_more [OF assms(1) quiet_inv [OF that(1,2)]])
    show "t \<in> set (order (core s')) \<and> visible (core s') t = visible ?g t" if "t \<in> set (order ?g)" "dd_hwnd (dd_info s) = int t" for t
      using \<open>\<And>t. t \<noteq> w \<Longrightarrow> t \<in> set (order ?g) \<Longrightarrow> _\<close> that assms(4) quiet_nodes [OF \<open>quiet g (core s')\<close>]
        frame_same(1) \<open>quiet g (core s')\<close> by (auto simp: order_def quiet_def)
  qed (use that in simp)
  have gone: "\<exists>g. ?hide \<bind> remove_window w = Some g \<and> desk_inv g
      \<and> (\<forall>t. t \<noteq> w \<longrightarrow> t \<in> set (order ?g) \<longrightarrow> t \<in> set (order g) \<and> visible g t = visible ?g t)" if w: "w \<in> set (order ?g)"
  proof -
    obtain z where z: "w \<in> set (nodes ?g z)" using order_nodes [OF w] by blast
    obtain h where h: "?hide = Some h" "desk_inv h" "\<And>t. visible h t = ((visible ?g)(w := False)) t" "\<And>z. nodes h z = nodes ?g z"
    proof (cases "visible ?g w")
      case True
      then obtain h where "dskUpdateGCRInfoOnHideMainWin w ?g = Some h" "desk_inv h" "frame (set_hidden w ?g) h"
        using hide_keeps [OF inv m z] by blast
      then show ?thesis using that True frame_same(1,3) set_visible_at(2) by simp
    qed (use that inv in auto)
    obtain g where g: "remove_window w h = Some g" "desk_inv g" "\<forall>z. nodes g z = remove1 w (nodes h z)"
      using remove_window_inv [OF h(2), of w z] z h(3,4) by auto
    have "has_style g = has_style h" using g(1) by (auto simp: remove_window_def split: if_splits)
    then show ?thesis using g h by (intro exI [of _ g]) (auto simp: order_def)
  qed
  have "\<exists>g. (if has_exstyle ?g w WS_EX_CTRLASMAINWIN then ?hide \<bind> remove_window w else Some ?g) = Some g \<and> desk_inv g
      \<and> (\<forall>t. t \<noteq> w \<longrightarrow> t \<in> set (order ?g) \<longrightarrow> t \<in> set (order g) \<and> visible g t = visible ?g t)"
    using gone assms(3) inv by auto
  then obtain g where g: "(if has_exstyle ?g w WS_EX_CTRLASMAINWIN then ?hide \<bind> remove_window w else Some ?g) = Some g" "desk_inv g"
    "\<And>t. t \<noteq> w \<Longrightarrow> t \<in> set (order ?g) \<Longrightarrow> t \<in> set (order g) \<and> visible g t = visible ?g t" by blast
  have "quiet g (if w = mg_capture g then g\<lparr>mg_capture := 0\<rparr> else g)" by simp
  then show ?thesis unfolding remove_ctrl_steps g(1) using assms(1) by (auto intro!: ok [OF _ g(2) _ g(3)])
qed

lemma create_ok:
  assumes "desk_ok s" "w \<notin> set (order (core s))" "\<forall>t \<in> set (order (core s)). w \<notin> set (pParents (dwins (core s) t))"
  shows "desk_ok (s\<lparr>core := (core s)\<lparr>dwins := (dwins (core s))(w := win)\<rparr>\<rparr>)"
proof (rule desk_ok_more [OF assms(1)])
  let ?g = "(core s)\<lparr>dwins := (dwins (core s))(w := win)\<rparr>"
  have "order ?g = order (core s)" by (simp add: order_def nodes_def)
  then show "t \<in> set (order (core (s\<lparr>core := ?g\<rparr>))) \<and> visible (core (s\<lparr>core := ?g\<rparr>)) t = visible (core s) t"
    if "t \<in> set (order (core s))" for t using that assms(2) by (auto simp: has_style_def)
qed (use create_inv assms in \<open>simp_all add: desk_ok_def\<close>)

lemma paint_ok:
  assumes "desk_ok s"
  shows "desk_ok (desk_paint wp lp s)"
proof -
  have c: "snd (dskForceCloseMenu (core s)) = close_menu (core s)"
    by (simp add: close_menu_def dskForceCloseMenu_def split: list.split)
  have inv: "desk_inv (core s)" using assms by (simp add: desk_ok_def)
  have closed: "desk_ok (s\<lparr>core := close_menu (core s)\<rparr>)"
    by (rule desk_ok_more [OF assms]) (use close_menu_inv [OF inv] close_menu_facts(4) [OF inv] in simp_all)
  have "quiet g (paint_window r t g)" for r t g by (auto simp: paint_window_def Let_def split: option.split prod.split)
  then have "quiet g (fold (paint_window r) ts g)" for r ts g by (rule quiet_fold)
  then show ?thesis unfolding desk_paint_def Let_def c by (intro desk_ok_quiet [OF closed]) (simp_all add: put_def del: fold_append)
qed

lemma others_ok:
  assumes "desk_ok s"
  shows "desk_ok (snd (dskBroadcastMessage i wp lp s))" "desk_ok (close_all_windows s)" "desk_ok (blink_caret n bt s)"
    "desk_ok (snd (dskRegisterIMEWnd w s))" "desk_ok (snd (dskUnregisterIMEWnd w s))"
    "desk_ok (snd (dskRegisterKeyHook c h s))" "desk_ok (snd (dskRegisterMouseHook c h s))"
proof -
  have "quiet g (g\<lparr>mg_ime_wnd := v\<rparr>)" for g v by (simp add: quiet_def frame_def)
  then show "desk_ok (snd (dskRegisterIMEWnd w s))" "desk_ok (snd (dskUnregisterIMEWnd w s))"
    using assms by (auto simp: dskRegisterIMEWnd_def dskUnregisterIMEWnd_def Let_def put_def intro: desk_ok_quiet [OF assms])
qed (use assms in \<open>auto simp: dskBroadcastMessage_def close_all_windows_def blink_caret_def dskRegisterKeyHook_def
    dskRegisterMouseHook_def put_def Let_def intro!: desk_ok_quiet [OF assms]\<close>)

lemma new_desktop_ok: "0 \<le> maxx \<Longrightarrow> 0 \<le> maxy \<Longrightarrow> desk_ok (new_desktop maxx maxy)"
  using InitDesktop_inv by (simp add: new_desktop_def drag_desk_def desk_ok_def drag_ok_def)

lemma proc_reach_ok:
  assumes "env_ok env"
  shows "proc_reach env s \<Longrightarrow> desk_ok s"
proof (induction rule: proc_reach.induct)
  case (window s m w r s')
  then show ?case using window_message_ok [of s env m w] by auto
next
  case (key s km scancode status s')
  then show ?case using key_ok [OF assms, of s km scancode status] by auto
next
  case (mouse s mm flags lParam s')
  then show ?case using mouse_ok [OF assms, of s mm flags lParam] by auto
next
  case (new_ctrl s w p s')
  then show ?case using new_ctrl_ok [of s w env p] by auto
next
  case (remove_ctrl s w p found s')
  then show ?case using remove_ctrl_ok [of s w env p] by auto
next
  case (others s s' i wp lp n bt w)
  then show ?case using others_ok paint_ok by auto
qed (use new_desktop_ok create_ok others_ok in auto)


lemma quiet_env_ok: "env_ok quiet_env"
  by (simp add: env_ok_def quiet_env_def)

lemma drag_desk_reach: "proc_reach quiet_env drag_desk"
proof -
  let ?s = "new_desktop 9 9" and ?win = "plain_window (mk_rect 2 2 6 6) WS_VISIBLE"
  have core: "core ?s = small_screen" by (simp add: new_desktop_def small_screen_def)
  have "proc_reach quiet_env (?s\<lparr>core := (core ?s)\<lparr>dwins := (dwins (core ?s))(1 := ?win)\<rparr>\<rparr>)"
    by (rule proc_reach.create [OF proc_reach.init]) (simp_all add: core small_nodes)
  then have created: "proc_reach quiet_env (?s\<lparr>core := created\<rparr>)" by (simp add: core created_def)
  have "WindowMessageHandler keep_size MSG_ADDNEWMAINWIN 1 created \<noteq> None"
    using handler_inv [OF desk_reach_inv [OF created_reach] created_allowed] by (auto simp: meets_def)
  then have "WindowMessageHandler keep_size MSG_ADDNEWMAINWIN 1 created = Some with_window"
    by (auto simp: with_window_def simp del: WindowMessageHandler.simps)
  then have "window_message quiet_env (OnCore MSG_ADDNEWMAINWIN) 1 (?s\<lparr>core := created\<rparr>) = Some (0, drag_desk)"
    by (simp add: window_message_def do_drag_drop_window_def on_core_def quiet_env_def new_desktop_def drag_desk_def Let_def
        del: WindowMessageHandler.simps)
  then show ?thesis
    using proc_reach.window [OF created, of "OnCore MSG_ADDNEWMAINWIN" 1 0 drag_desk] created_allowed
    by (simp add: quiet_env_def)
qed


end
