(* ===== verification/Desktop_Scroll.thy ===== *)
theory Desktop_Scroll
  imports Desktop_Props
begin

section \<open>The desktop: scrolling a window (src/kernel/desktop-comm.c)\<close>

text \<open>
  The two loops of \<open>dskScrollMainWindow\<close> over the clip rectangles of the window: the rectangles whose contents it
  copies, and those it invalidates.  \<open>rc1\<close> is the part of the client area that scrolls.  What happens to the invalid
  region of the window in between is not modelled (\<open>OffsetRegionEx\<close>).
\<close>

definition scroll_move :: "dsk \<Rightarrow> nat \<Rightarrow> rect \<Rightarrow> rect \<Rightarrow> rect option" where
  "scroll_move g pWin rc1 rc =
     (let (meets, rcMove) = IntersectRect rc (dskClientToScreen g pWin rc1)
      in if meets then Some (dskScreenToClient g pWin rcMove) else None)"

text \<open>Each of these rectangles is copied by the offset, clipped to itself.\<close>

definition scroll_blits :: "dsk \<Rightarrow> nat \<Rightarrow> rect \<Rightarrow> rect list" where
  "scroll_blits g pWin rc1 =
     List.map_filter (\<lambda>rc. case scroll_move g pWin rc1 rc of
          None \<Rightarrow> None
        | Some rcMove \<Rightarrow> let (meets, rcMove) = IntersectRect rcMove rc1 in if meets then Some rcMove else None)
       (rects (gcr g (Heap pWin)))"

definition inv_rect :: "int \<Rightarrow> int \<Rightarrow> rect \<Rightarrow> rect" where
  "inv_rect iOffx iOffy rcMove =
     (let rc = (if iOffx < 0 then rcMove\<lparr>rleft := rright rcMove + iOffx\<rparr>
                else if iOffx > 0 then rcMove\<lparr>rright := rleft rcMove + iOffx\<rparr> else rcMove)
      in if iOffy < 0 then rc\<lparr>rtop := rbottom rc + iOffy\<rparr>
         else if iOffy > 0 then rc\<lparr>rbottom := rtop rc + iOffy\<rparr> else rc)"

text \<open>The flag is \<open>inved\<close>; the list are the rectangles that \<open>wndInvalidateRect\<close> gets.\<close>

definition scroll_invalid :: "dsk \<Rightarrow> nat \<Rightarrow> rect \<Rightarrow> int \<Rightarrow> int \<Rightarrow> bool \<times> rect list" where
  "scroll_invalid g pWin rc1 iOffx iOffy =
     fold (\<lambda>rc (inved, acc). case scroll_move g pWin rc1 rc of
          None \<Rightarrow> (inved, acc)
        | Some rcMove \<Rightarrow>
            let inved = (inved \<or> iOffx \<noteq> 0 \<or> iOffy \<noteq> 0)
            in (inved, if inved then acc @ [inv_rect iOffx iOffy rcMove] else acc))
       (rects (gcr g (Heap pWin))) (False, [])"

subsection \<open>Coordinates\<close>

lemma fold_offset: "fold (\<lambda>p rc. OffsetRect rc (f p) (h p)) ps r = OffsetRect r (sum_list (map f ps)) (sum_list (map h ps))"
  by (induction ps arbitrary: r) (simp_all add: OffsetRect_def algebra_simps)

definition origin :: "dsk \<Rightarrow> nat \<Rightarrow> int \<times> int" where
  "origin g w = (let ps = map (\<lambda>p. crc (dwins g p)) (w # pParents (dwins g w)) in (sum_list (map rleft ps), sum_list (map rtop ps)))"

lemma to_screen: "dskClientToScreen g w rc = OffsetRect rc (fst (origin g w)) (snd (origin g w))"
  unfolding dskClientToScreen_def fold_offset origin_def Let_def by (simp add: OffsetRect_def comp_def algebra_simps)

lemma to_client: "dskScreenToClient g w rc = OffsetRect rc (- fst (origin g w)) (- snd (origin g w))"
proof -
  have neg: "sum_list (map (\<lambda>p. - f p) ps) = - sum_list (map f ps)" for f :: "nat \<Rightarrow> int" and ps
    by (induction ps) simp_all
  show ?thesis
    unfolding dskScreenToClient_def fold_offset neg origin_def Let_def by (simp add: OffsetRect_def comp_def algebra_simps)
qed

lemma inter_inside:
  "rect_ok m \<Longrightarrow> rleft r \<le> rleft m \<Longrightarrow> rtop r \<le> rtop m \<Longrightarrow> rright m \<le> rright r \<Longrightarrow> rbottom m \<le> rbottom r \<Longrightarrow>
    IntersectRect m r = (True, m)"
  by (cases m; cases r) (auto simp: IntersectRect_def rect_ok_def Let_def)

lemma move_inside:
  assumes "scroll_move g w rc1 rc = Some m"
  shows "IntersectRect m rc1 = (True, m)"
proof (rule inter_inside)
  let ?a = "fst (origin g w)" and ?b = "snd (origin g w)"
  let ?i = "snd (IntersectRect rc (OffsetRect rc1 ?a ?b))"
  have i: "rleft rc1 + ?a \<le> rleft ?i" "rtop rc1 + ?b \<le> rtop ?i" "rright ?i \<le> rright rc1 + ?a" "rbottom ?i \<le> rbottom rc1 + ?b"
    by (simp_all add: IntersectRect_def OffsetRect_def Let_def)
  have m: "m = OffsetRect ?i (- ?a) (- ?b)" "rect_ok ?i"
    using assms fst_IntersectRect [of rc "OffsetRect rc1 ?a ?b"]
    by (auto simp: scroll_move_def to_screen to_client split_beta split: if_splits)
  show "rect_ok m" using m by (simp add: rect_ok_def OffsetRect_def)
  show "rleft rc1 \<le> rleft m" "rtop rc1 \<le> rtop m" "rright m \<le> rright rc1" "rbottom m \<le> rbottom rc1"
    using i unfolding m(1) OffsetRect_def by simp_all
qed

lemma blits_moves: "scroll_blits g w rc1 = List.map_filter (scroll_move g w rc1) (rects (gcr g (Heap w)))"
proof -
  have "(case scroll_move g w rc1 rc of None \<Rightarrow> None
      | Some m \<Rightarrow> let (meets, m) = IntersectRect m rc1 in if meets then Some m else None) = scroll_move g w rc1 rc" for rc
    using move_inside [of g w rc1 rc] by (cases "scroll_move g w rc1 rc") simp_all
  then show ?thesis by (simp add: scroll_blits_def)
qed

lemma invalid_fold:
  "fold (\<lambda>rc (inved, acc). case f rc of None \<Rightarrow> (inved, acc)
      | Some m \<Rightarrow> let inved = (inved \<or> c) in (inved, if inved then acc @ [h m] else acc)) rcs (b, acc)
    = (b \<or> c \<and> List.map_filter f rcs \<noteq> [], acc @ (if b \<or> c then map h (List.map_filter f rcs) else []))"
  by (induction rcs arbitrary: b acc) (auto simp: map_filter_def Let_def split: option.split)

text \<open>Scrolling invalidates a strip of every rectangle that it copies.  Along one axis that is right: each point of the
  rectangle gets its contents from inside the rectangle, or is invalidated.  With an offset along both axes only the
  corner is invalidated: the points that come from outside along exactly one axis are neither copied nor repainted.\<close>

theorem scroll_copies_or_invalidates:
  "snd (scroll_invalid g w rc1 dx dy) = (if dx = 0 \<and> dy = 0 then [] else map (inv_rect dx dy) (scroll_blits g w rc1))
    \<and> (\<forall>m \<in> set (scroll_blits g w rc1). \<forall>x y. (x, y) \<in> rect_pts m \<longrightarrow>
        ((x - dx, y - dy) \<notin> rect_pts m \<and> (x, y) \<notin> rect_pts (inv_rect dx dy m) \<longleftrightarrow>
          dx \<noteq> 0 \<and> dy \<noteq> 0 \<and> (rleft m \<le> x - dx \<and> x - dx < rright m) \<noteq> (rtop m \<le> y - dy \<and> y - dy < rbottom m)))"
proof (intro conjI ballI allI impI)
  show "snd (scroll_invalid g w rc1 dx dy) = (if dx = 0 \<and> dy = 0 then [] else map (inv_rect dx dy) (scroll_blits g w rc1))"
    unfolding scroll_invalid_def invalid_fold blits_moves by simp
  fix m x y assume "(x, y) \<in> rect_pts m"
  then show "(x - dx, y - dy) \<notin> rect_pts m \<and> (x, y) \<notin> rect_pts (inv_rect dx dy m) \<longleftrightarrow>
      dx \<noteq> 0 \<and> dy \<noteq> 0 \<and> (rleft m \<le> x - dx \<and> x - dx < rright m) \<noteq> (rtop m \<le> y - dy \<and> y - dy < rbottom m)"
    unfolding inv_rect_def by (auto simp: Let_def)
qed

lemma with_window_blits: "scroll_blits with_window 1 (mk_rect 0 0 4 4) = [mk_rect 0 0 4 4]"
  by code_simp

theorem scroll_copies_or_invalidates_witness:
  "snd (scroll_invalid with_window 1 (mk_rect 0 0 4 4) 1 1) = [mk_rect 0 0 1 1]
    \<and> (3 - 1, 0 - 1) \<notin> rect_pts (mk_rect 0 0 4 4) \<and> (3, 0) \<notin> rect_pts (inv_rect 1 1 (mk_rect 0 0 4 4))"
proof -
  note t = scroll_copies_or_invalidates [of with_window 1 "mk_rect 0 0 4 4" 1 1, unfolded with_window_blits]
  have "inv_rect 1 1 (mk_rect 0 0 4 4) = mk_rect 0 0 1 1" by (simp add: inv_rect_def)
  moreover have "(3 - 1, 0 - 1) \<notin> rect_pts (mk_rect 0 0 4 4) \<and> (3, 0) \<notin> rect_pts (inv_rect 1 1 (mk_rect 0 0 4 4))"
    using t [THEN conjunct2, THEN bspec, of "mk_rect 0 0 4 4", THEN spec, THEN spec, of 3 0] by simp
  ultimately show ?thesis using t [THEN conjunct1] by simp
qed

end
