(* ===== verification/MsgRing.thy ===== *)
theory MsgRing
  imports MG_Prelude "HOL-Library.Word"
begin

unbundle bit_operations_syntax

section \<open>Messages and the ring of posted messages (src/kernel/message.c)\<close>

text \<open>
  The types of a message queue (include/window.h, src/include/internals.h) in the threads
  configuration of MiniGUI, and the part of it that a single queue and its lock protect: the
  ring buffer of posted messages, the list of notification messages and the state bits.
  Handles and addresses are naturals, 0 being NULL; the state word, the timer mask and the
  parameters of a message are 32 bit words.  The walk over the ring is bounded by its length,
  which is enough for two positions inside it (\<open>pending_full\<close>).
\<close>

type_synonym hwnd = nat
type_synonym dword = "32 word"

record msg =
  m_hwnd :: hwnd
  m_message :: int
  m_wParam :: dword
  m_lParam :: dword
  m_time :: dword
  m_pAdd :: "nat option"

abbreviation zero_msg :: msg where
  "zero_msg \<equiv> \<lparr>m_hwnd = 0, m_message = 0, m_wParam = 0, m_lParam = 0, m_time = 0, m_pAdd = None\<rparr>"

text \<open>A window as the paint check sees it: its handle, whether its invalid region is empty, its controls and the windows it hosts.\<close>

datatype wnd = Wnd (wnd_handle: hwnd) (wnd_invalid: bool) (wnd_children: "wnd list") (wnd_hosted: "wnd list")

record msgqueue =
  dwState :: dword
  pFirstNotifyMsg :: "msg list"
  pFirstSyncMsg :: "nat option"
  pLastSyncMsg :: "nat option"
  pRootMainWin :: wnd
  qmsg :: "msg list"
  qlen :: nat
  readpos :: nat
  writepos :: nat
  FirstTimerSlot :: nat
  TimerMask :: dword
  loop_depth :: int

definition QS_EMPTY :: dword where "QS_EMPTY = 0"
definition QS_NOTIFYMSG :: dword where "QS_NOTIFYMSG = 0x10000000"
definition QS_SYNCMSG :: dword where "QS_SYNCMSG = 0x20000000"
definition QS_POSTMSG :: dword where "QS_POSTMSG = 0x40000000"
definition QS_QUIT :: dword where "QS_QUIT = 0x80000000"
definition QS_PAINT :: dword where "QS_PAINT = 0x02000000"

definition has_flag :: "msgqueue \<Rightarrow> dword \<Rightarrow> bool" where
  "has_flag q f \<longleftrightarrow> dwState q AND f \<noteq> 0"

definition set_flag :: "dword \<Rightarrow> msgqueue \<Rightarrow> msgqueue" where
  "set_flag f q = q\<lparr>dwState := dwState q OR f\<rparr>"

definition clear_flag :: "dword \<Rightarrow> msgqueue \<Rightarrow> msgqueue" where
  "clear_flag f q = q\<lparr>dwState := dwState q AND NOT f\<rparr>"

lemmas flag_defs = QS_EMPTY_def QS_NOTIFYMSG_def QS_SYNCMSG_def QS_POSTMSG_def QS_QUIT_def QS_PAINT_def

abbreviation (input) "MSG_FIRSTMOUSEMSG \<equiv> (1 :: int)"
abbreviation (input) "MSG_MOUSEMOVE \<equiv> (4 :: int)"
abbreviation (input) "MSG_NCMOUSEMOVE \<equiv> (11 :: int)"
abbreviation (input) "MSG_LASTMOUSEMSG \<equiv> (15 :: int)"
abbreviation (input) "MSG_PAINT \<equiv> (0xB1 :: int)"
abbreviation (input) "MSG_DT_MOUSEMOVE \<equiv> (0xE4 :: int)"
abbreviation (input) "MSG_QUIT \<equiv> (0x140 :: int)"
abbreviation (input) "MSG_IDLE \<equiv> (0x142 :: int)"
abbreviation (input) "MSG_TIMEOUT \<equiv> (0x143 :: int)"
abbreviation (input) "MSG_TIMER \<equiv> (0x144 :: int)"
abbreviation (input) "MSG_CARETBLINK \<equiv> (0x145 :: int)"
abbreviation (input) "DEF_MSGQUEUE_LEN \<equiv> (16 :: int)"

subsection \<open>Initialisation\<close>

text \<open>\<open>InitMsgQueue\<close> with the outcome of the \<open>malloc\<close> of the buffer and its initial contents.\<close>

definition InitMsgQueue :: "bool \<Rightarrow> (nat \<Rightarrow> msg) \<Rightarrow> wnd \<Rightarrow> int \<Rightarrow> msgqueue option" where
  "InitMsgQueue ok garbage root iBufferLen =
     (let iBufferLen = (if iBufferLen \<le> 0 then DEF_MSGQUEUE_LEN else iBufferLen) in
      if \<not> ok then None
      else Some \<lparr>dwState = QS_EMPTY, pFirstNotifyMsg = [], pFirstSyncMsg = None, pLastSyncMsg = None,
                 pRootMainWin = root, qmsg = map garbage [0..<nat iBufferLen], qlen = nat iBufferLen,
                 readpos = 0, writepos = 0, FirstTimerSlot = 0, TimerMask = 0, loop_depth = 0\<rparr>)"

subsection \<open>The ring\<close>

fun ring_walk :: "nat \<Rightarrow> nat \<Rightarrow> nat \<Rightarrow> nat \<Rightarrow> nat list" where
  "ring_walk 0 len r w = []"
| "ring_walk (Suc n) len r w = (if r \<noteq> w then r # ring_walk n len ((r + 1) mod len) w else [])"

definition pending :: "msgqueue \<Rightarrow> nat list" where
  "pending q = ring_walk (qlen q) (qlen q) (readpos q) (writepos q)"

definition is_move :: "msg \<Rightarrow> bool" where
  "is_move m \<longleftrightarrow>
     m_message m = MSG_MOUSEMOVE \<or> m_message m = MSG_NCMOUSEMOVE \<or> m_message m = MSG_DT_MOUSEMOVE"

definition is_tick :: "msg \<Rightarrow> bool" where
  "is_tick m \<longleftrightarrow>
     m_message m = MSG_TIMEOUT \<or> m_message m = MSG_IDLE \<or> m_message m = MSG_CARETBLINK"

definition same_move :: "msg \<Rightarrow> msg \<Rightarrow> bool" where
  "same_move m a \<longleftrightarrow> m_message a = m_message m \<and> m_wParam a = m_wParam m \<and> m_hwnd a = m_hwnd m"

definition same_tick :: "msg \<Rightarrow> msg \<Rightarrow> bool" where
  "same_tick m a \<longleftrightarrow> m_message a = m_message m \<and> m_hwnd a = m_hwnd m"

definition move_update :: "msg \<Rightarrow> msg \<Rightarrow> msg" where
  "move_update m a = a\<lparr>m_lParam := m_lParam m, m_time := m_time m\<rparr>"

definition tick_update :: "msg \<Rightarrow> msg \<Rightarrow> msg" where
  "tick_update m a = a\<lparr>m_wParam := m_wParam m, m_lParam := m_lParam m, m_time := m_time m\<rparr>"

text \<open>The duplicate of \<open>m\<close> the code updates: the last of the moves, the first of the ticks.\<close>

definition duplicate :: "msgqueue \<Rightarrow> msg \<Rightarrow> (nat \<times> (msg \<Rightarrow> msg)) option" where
  "duplicate q m =
     (if is_move m then
        map_option (\<lambda>i. (i, move_update m))
          (foldl (\<lambda>last_msg i. if same_move m (qmsg q ! i) then Some i else last_msg) None (pending q))
      else if is_tick m then
        map_option (\<lambda>i. (i, tick_update m)) (find (\<lambda>i. same_tick m (qmsg q ! i)) (pending q))
      else None)"

text \<open>\<open>QueueMessage\<close> up to the release of the lock.\<close>

definition queue_message :: "msgqueue \<Rightarrow> msg \<Rightarrow> bool \<times> msgqueue" where
  "queue_message q m =
     (case duplicate q m of
        Some (i, f) \<Rightarrow> (True, set_flag QS_POSTMSG (q\<lparr>qmsg := (qmsg q)[i := f (qmsg q ! i)]\<rparr>))
      | None \<Rightarrow>
          if (writepos q + 1) mod qlen q = readpos q then (False, q)
          else
            let q = q\<lparr>qmsg := (qmsg q)[writepos q := m], writepos := writepos q + 1\<rparr>;
                q = (if writepos q \<ge> qlen q then q\<lparr>writepos := 0\<rparr> else q)
            in (True, set_flag QS_POSTMSG q))"

text \<open>Taking the message at \<open>readpos\<close>.\<close>

definition advance_read :: "msgqueue \<Rightarrow> msgqueue" where
  "advance_read q =
     (let q = q\<lparr>readpos := readpos q + 1\<rparr> in if readpos q \<ge> qlen q then q\<lparr>readpos := 0\<rparr> else q)"

definition queue_notify :: "msgqueue \<Rightarrow> msg \<Rightarrow> msgqueue" where
  "queue_notify q m = set_flag QS_NOTIFYMSG (q\<lparr>pFirstNotifyMsg := pFirstNotifyMsg q @ [m]\<rparr>)"

subsection \<open>The ring as a bounded list\<close>

definition ring_ok :: "msgqueue \<Rightarrow> bool" where
  "ring_ok q \<longleftrightarrow> length (qmsg q) = qlen q \<and> readpos q < qlen q \<and> writepos q < qlen q"

definition posted :: "msgqueue \<Rightarrow> msg list" where
  "posted q = map (\<lambda>i. qmsg q ! i) (pending q)"

definition ring_count :: "nat \<Rightarrow> nat \<Rightarrow> nat \<Rightarrow> nat" where
  "ring_count len r w = (if r \<le> w then w - r else len + w - r)"

lemma mod_succ: "r < len \<Longrightarrow> Suc r mod len = (if Suc r = len then 0 else Suc r)"
  by (simp add: mod_Suc)

lemma ring_walk_eq:
  assumes "r < len" "w < len" "ring_count len r w \<le> n"
  shows "ring_walk n len r w = map (\<lambda>k. (r + k) mod len) [0..<ring_count len r w]"
  using assms
proof (induction n arbitrary: r)
  case 0
  then show ?case by (auto simp: ring_count_def split: if_splits)
next
  case (Suc n)
  show ?case
  proof (cases "r = w")
    case True
    then show ?thesis by (simp add: ring_count_def)
  next
    case False
    let ?r = "(r + 1) mod len"
    have c: "ring_count len r w = Suc (ring_count len ?r w)"
      using False Suc.prems by (auto simp: ring_count_def mod_succ)
    then have "ring_walk n len ?r w = map (\<lambda>k. (?r + k) mod len) [0..<ring_count len ?r w]"
      using Suc by simp
    also have "\<dots> = map (\<lambda>k. (r + Suc k) mod len) [0..<ring_count len ?r w]"
      by (simp add: mod_add_left_eq)
    also have "\<dots> = map (\<lambda>k. (r + k) mod len) [Suc 0..<ring_count len r w]"
      unfolding c by (simp add: map_Suc_upt [symmetric] del: upt_Suc)
    finally show ?thesis
      using False Suc.prems c by (simp add: upt_rec [of 0])
  qed
qed

lemma ring_count_less: "r < len \<Longrightarrow> w < len \<Longrightarrow> ring_count len r w < len"
  by (auto simp: ring_count_def)

lemma pending_full:
  "ring_ok q \<Longrightarrow> pending q =
     map (\<lambda>k. (readpos q + k) mod qlen q) [0..<ring_count (qlen q) (readpos q) (writepos q)]"
  using ring_count_less [of "readpos q" "qlen q" "writepos q"]
  by (simp add: pending_def ring_ok_def ring_walk_eq)

lemma ring_index_inj:
  fixes len :: nat
  assumes "j < len" "k < len" "(r + j) mod len = (r + k) mod len"
  shows "j = k"
proof -
  have le: "j = k" if "j \<le> k" "j < len" "k < len" "(r + j) mod len = (r + k) mod len" for j k
  proof -
    have "len dvd (r + k) - (r + j)" using that mod_eq_dvd_iff_nat [of "r + j" "r + k" len] by simp
    then show ?thesis using that by (auto dest: dvd_imp_le)
  qed
  show ?thesis using le [of j k] le [of k j] assms by (cases "j \<le> k") auto
qed

lemma pending_distinct: "ring_ok q \<Longrightarrow> distinct (pending q)"
proof -
  assume ok: "ring_ok q"
  have "ring_count (qlen q) (readpos q) (writepos q) < qlen q"
    using ok ring_count_less by (simp add: ring_ok_def)
  then show ?thesis
    unfolding pending_full [OF ok] distinct_map
    by (auto simp: inj_on_def dest: ring_index_inj [rotated 2])
qed

lemma pending_bound: "ring_ok q \<Longrightarrow> i \<in> set (pending q) \<Longrightarrow> i < qlen q"
  by (auto simp: pending_full ring_ok_def)

lemma posted_length:
  "ring_ok q \<Longrightarrow> length (posted q) = ring_count (qlen q) (readpos q) (writepos q)"
  by (simp add: posted_def pending_full)

lemma posted_Nil: "ring_ok q \<Longrightarrow> posted q = [] \<longleftrightarrow> readpos q = writepos q"
  using posted_length [of q] by (auto simp: ring_ok_def ring_count_def split: if_splits)

end
