(* ===== verification/MsgRing_Spec.thy ===== *)
theory MsgRing_Spec
  imports MsgRing
begin

section \<open>Posted messages: the ring refines a bounded list\<close>

text \<open>
  The promise of a posted message queue, on lists: mouse moves are folded into the last
  matching one still queued, timeouts, idle and caret messages into the first, and any other
  message is appended unless the queue is full.  \<open>queue_message\<close> on the ring refines it and
  \<open>advance_read\<close> drops the head.
\<close>

fun update_first :: "('a \<Rightarrow> bool) \<Rightarrow> ('a \<Rightarrow> 'a) \<Rightarrow> 'a list \<Rightarrow> 'a list" where
  "update_first P f [] = []"
| "update_first P f (x # xs) = (if P x then f x # xs else x # update_first P f xs)"

definition update_last :: "('a \<Rightarrow> bool) \<Rightarrow> ('a \<Rightarrow> 'a) \<Rightarrow> 'a list \<Rightarrow> 'a list" where
  "update_last P f xs = rev (update_first P f (rev xs))"

definition post_spec :: "nat \<Rightarrow> msg \<Rightarrow> msg list \<Rightarrow> bool \<times> msg list" where
  "post_spec cap m xs =
     (if is_move m \<and> (\<exists>a \<in> set xs. same_move m a)
      then (True, update_last (same_move m) (move_update m) xs)
      else if is_tick m \<and> (\<exists>a \<in> set xs. same_tick m a)
      then (True, update_first (same_tick m) (tick_update m) xs)
      else if length xs = cap then (False, xs)
      else (True, xs @ [m]))"

lemma not_move_tick: "is_move m \<Longrightarrow> \<not> is_tick m"
  by (auto simp: is_move_def is_tick_def)

lemma update_first_length [simp]: "length (update_first P f xs) = length xs"
  by (induction xs) auto

lemma update_last_length [simp]: "length (update_last P f xs) = length xs"
  by (simp add: update_last_def)

lemma find_update_first:
  assumes "distinct js" "\<forall>j \<in> set js. j < length ms" "find (\<lambda>i. P (ms ! i)) js = Some i"
  shows "map (\<lambda>j. ms[i := f (ms ! i)] ! j) js = update_first P f (map (\<lambda>j. ms ! j) js)"
  using assms
proof (induction js)
  case (Cons j js)
  show ?case
  proof (cases "P (ms ! j)")
    case True
    then have "i = j" using Cons.prems(3) by simp
    then show ?thesis using Cons.prems True by (auto simp: nth_list_update)
  next
    case False
    then have f: "find (\<lambda>i. P (ms ! i)) js = Some i" using Cons.prems(3) by simp
    then have "i \<in> set js" by (metis find_Some_iff nth_mem)
    then have "i \<noteq> j" using Cons.prems(1) by auto
    then show ?thesis using Cons f False by simp
  qed
qed simp

lemma foldl_last:
  "foldl (\<lambda>acc i. if Q i then Some i else acc) a js =
     (case find Q (rev js) of None \<Rightarrow> a | Some i \<Rightarrow> Some i)"
  by (induction js rule: rev_induct) auto

lemma find_map_None: "find (\<lambda>i. P (g i)) js = None \<longleftrightarrow> \<not> (\<exists>a \<in> set (map g js). P a)"
  by (auto simp: find_None_iff)

lemma duplicate_None:
  assumes "duplicate q m = None"
  shows "\<not> (is_move m \<and> (\<exists>a \<in> set (posted q). same_move m a))"
    and "\<not> (is_tick m \<and> (\<exists>a \<in> set (posted q). same_tick m a))"
proof -
  show "\<not> (is_move m \<and> (\<exists>a \<in> set (posted q). same_move m a))"
  proof
    assume h: "is_move m \<and> (\<exists>a \<in> set (posted q). same_move m a)"
    then have "find (\<lambda>i. same_move m (qmsg q ! i)) (rev (pending q)) = None"
      using assms by (auto simp: duplicate_def foldl_last split: option.splits)
    then show False using h unfolding find_map_None by (simp add: posted_def)
  qed
  show "\<not> (is_tick m \<and> (\<exists>a \<in> set (posted q). same_tick m a))"
  proof
    assume h: "is_tick m \<and> (\<exists>a \<in> set (posted q). same_tick m a)"
    then have "find (\<lambda>i. same_tick m (qmsg q ! i)) (pending q) = None"
      using assms not_move_tick [of m] by (auto simp: duplicate_def split: if_splits)
    then show False using h unfolding find_map_None by (simp add: posted_def)
  qed
qed

lemma duplicate_Some:
  assumes ok: "ring_ok q" and d: "duplicate q m = Some (i, f)"
  shows "(True, map (\<lambda>j. (qmsg q)[i := f (qmsg q ! i)] ! j) (pending q)) = post_spec cap m (posted q)"
proof -
  have js: "distinct (pending q)" "\<forall>j \<in> set (pending q). j < length (qmsg q)"
    using pending_distinct [OF ok] pending_bound [OF ok] ok by (auto simp: ring_ok_def)
  consider (move) "is_move m" | (tick) "\<not> is_move m" "is_tick m"
    using d by (auto simp: duplicate_def split: if_splits)
  then show ?thesis
  proof cases
    case move
    then have f: "find (\<lambda>i. same_move m (qmsg q ! i)) (rev (pending q)) = Some i" "f = move_update m"
      using d by (auto simp: duplicate_def foldl_last split: option.splits)
    then have ex: "\<exists>a \<in> set (posted q). same_move m a"
      by (auto simp: posted_def find_Some_iff) (metis length_rev nth_mem set_rev)
    have "map (\<lambda>j. (qmsg q)[i := f (qmsg q ! i)] ! j) (rev (pending q)) =
        update_first (same_move m) f (map (\<lambda>j. qmsg q ! j) (rev (pending q)))"
      using js f(1) by (intro find_update_first) auto
    then have "map (\<lambda>j. (qmsg q)[i := f (qmsg q ! i)] ! j) (pending q) =
        update_last (same_move m) f (posted q)"
      by (metis posted_def rev_map rev_rev_ident update_last_def)
    then show ?thesis using move ex f(2) by (simp add: post_spec_def)
  next
    case tick
    then have f: "find (\<lambda>i. same_tick m (qmsg q ! i)) (pending q) = Some i" "f = tick_update m"
      using d by (auto simp: duplicate_def)
    then have "\<exists>a \<in> set (posted q). same_tick m a"
      by (auto simp: posted_def find_Some_iff)
    then show ?thesis
      using tick find_update_first [OF js f(1), of f] f(2) by (simp add: post_spec_def posted_def)
  qed
qed

text \<open>The bounds and the length of a ring whose write position moves up, or whose read position does.\<close>

lemma full_iff: "ring_ok q \<Longrightarrow> (writepos q + 1) mod qlen q = readpos q \<longleftrightarrow> length (posted q) = qlen q - 1"
  by (auto simp: posted_length ring_ok_def ring_count_def mod_succ)

lemma ring_count_write:
  assumes "r < len" "w < len" "Suc w mod len \<noteq> r"
  shows "ring_count len r (Suc w mod len) = Suc (ring_count len r w)"
  using assms by (auto simp: ring_count_def mod_succ split: if_splits)

lemma ring_count_read:
  assumes "r < len" "w < len" "r \<noteq> w"
  shows "ring_count len r w = Suc (ring_count len (Suc r mod len) w)"
  using assms by (auto simp: ring_count_def mod_succ split: if_splits)

lemma write_index: "r < len \<Longrightarrow> w < len \<Longrightarrow> (r + ring_count len r w) mod len = w"
  by (auto simp: ring_count_def)

lemma flag_fields [simp]:
  "qmsg (set_flag f q) = qmsg q" "qlen (set_flag f q) = qlen q" "readpos (set_flag f q) = readpos q"
  "writepos (set_flag f q) = writepos q" "pending (set_flag f q) = pending q"
  "posted (set_flag f q) = posted q" "ring_ok (set_flag f q) = ring_ok q"
  "qmsg (clear_flag f q) = qmsg q" "qlen (clear_flag f q) = qlen q" "readpos (clear_flag f q) = readpos q"
  "writepos (clear_flag f q) = writepos q" "pending (clear_flag f q) = pending q"
  "posted (clear_flag f q) = posted q" "ring_ok (clear_flag f q) = ring_ok q"
  by (simp_all add: set_flag_def clear_flag_def pending_def posted_def ring_ok_def)

lemma ring_append:
  assumes ok: "ring_ok q" and nf: "(writepos q + 1) mod qlen q \<noteq> readpos q"
    and q': "qmsg q' = (qmsg q)[writepos q := m]" "qlen q' = qlen q" "readpos q' = readpos q"
      "writepos q' = Suc (writepos q) mod qlen q"
  shows "ring_ok q'" "posted q' = posted q @ [m]"
proof -
  have b: "readpos q < qlen q" "writepos q < qlen q" "length (qmsg q) = qlen q"
    using ok by (auto simp: ring_ok_def)
  show ok': "ring_ok q'" using b q' by (simp add: ring_ok_def)
  have "pending q' = pending q @ [writepos q]"
    using b nf ring_count_write [OF b(1,2)] write_index [OF b(1,2)]
    by (simp add: pending_full [OF ok'] pending_full [OF ok] q')
  moreover have "writepos q \<notin> set (pending q)"
    using pending_distinct [OF ok'] calculation by simp
  moreover have "(qmsg q)[writepos q := m] ! x = qmsg q ! x" if "x \<in> set (pending q)" for x
    using that calculation(2) by (cases "x = writepos q") auto
  ultimately show "posted q' = posted q @ [m]"
    using b by (simp add: posted_def q')
qed

theorem queue_message_refines:
  assumes ok: "ring_ok q"
  shows "ring_ok (snd (queue_message q m))"
    and "(fst (queue_message q m), posted (snd (queue_message q m))) = post_spec (qlen q - 1) m (posted q)"
proof -
  have "ring_ok (snd (queue_message q m)) \<and>
    (fst (queue_message q m), posted (snd (queue_message q m))) = post_spec (qlen q - 1) m (posted q)"
  proof (cases "duplicate q m")
    case (Some p)
    obtain i f where p: "p = (i, f)" by fastforce
    let ?q = "q\<lparr>qmsg := (qmsg q)[i := f (qmsg q ! i)]\<rparr>"
    have "posted ?q = map (\<lambda>j. (qmsg q)[i := f (qmsg q ! i)] ! j) (pending q)"
      by (simp add: posted_def pending_def)
    then have "(True, posted ?q) = post_spec (qlen q - 1) m (posted q)"
      using duplicate_Some [OF ok] Some p by simp
    moreover have "ring_ok ?q" using ok by (simp add: ring_ok_def)
    ultimately show ?thesis using Some p by (simp add: queue_message_def)
  next
    case None
    have "post_spec (qlen q - 1) m (posted q) =
        (if length (posted q) = qlen q - 1 then (False, posted q) else (True, posted q @ [m]))"
      unfolding post_spec_def using duplicate_None [OF None] by (simp only: if_False)
    moreover have "ring_ok (snd (queue_message q m)) \<and> fst (queue_message q m)
        \<and> posted (snd (queue_message q m)) = posted q @ [m]"
      if "(writepos q + 1) mod qlen q \<noteq> readpos q"
    proof -
      let ?q = "snd (queue_message q m)"
      have w: "writepos ?q = Suc (writepos q) mod qlen q"
        using None that ok mod_succ [of "writepos q" "qlen q"] by (auto simp: queue_message_def ring_ok_def Let_def)
      have "qmsg ?q = (qmsg q)[writepos q := m]" "qlen ?q = qlen q" "readpos ?q = readpos q"
        using None that by (simp_all add: queue_message_def Let_def)
      from ring_append [OF ok that this w] show ?thesis
        using None that by (simp add: queue_message_def Let_def)
    qed
    moreover have "queue_message q m = (False, q)" if "(writepos q + 1) mod qlen q = readpos q"
      using None that by (simp add: queue_message_def)
    ultimately show ?thesis using full_iff [OF ok] ok by auto
  qed
  then show "ring_ok (snd (queue_message q m))"
    "(fst (queue_message q m), posted (snd (queue_message q m))) = post_spec (qlen q - 1) m (posted q)"
    by auto
qed

lemma advance_read_refines:
  assumes ok: "ring_ok q" and ne: "readpos q \<noteq> writepos q"
  shows "ring_ok (advance_read q)" "posted q = qmsg q ! readpos q # posted (advance_read q)"
proof -
  have b: "readpos q < qlen q" "writepos q < qlen q" using ok by (auto simp: ring_ok_def)
  have q': "qmsg (advance_read q) = qmsg q" "qlen (advance_read q) = qlen q"
    "writepos (advance_read q) = writepos q" "readpos (advance_read q) = Suc (readpos q) mod qlen q"
    using b mod_succ [OF b(1)] by (simp_all add: advance_read_def Let_def)
  show ok': "ring_ok (advance_read q)" using ok b q' by (simp add: ring_ok_def)
  let ?c = "ring_count (qlen q) (Suc (readpos q) mod qlen q) (writepos q)"
  have "pending q = readpos q # map (\<lambda>k. (readpos q + k) mod qlen q) [Suc 0..<Suc ?c]"
    unfolding pending_full [OF ok] ring_count_read [OF b ne] using b by (simp add: upt_rec [of 0] del: upt_Suc)
  also have "map (\<lambda>k. (readpos q + k) mod qlen q) [Suc 0..<Suc ?c] =
      map (\<lambda>k. (Suc (readpos q) mod qlen q + k) mod qlen q) [0..<?c]"
    by (simp add: map_Suc_upt [symmetric] mod_add_left_eq del: upt_Suc)
  also have "\<dots> = pending (advance_read q)" by (simp add: pending_full [OF ok'] q')
  finally show "posted q = qmsg q ! readpos q # posted (advance_read q)"
    by (simp add: posted_def q')
qed

lemma init_ring:
  assumes "InitMsgQueue ok g root n = Some q"
  shows "ring_ok q" "posted q = []" "qlen q = nat (if n \<le> 0 then 16 else n)"
proof -
  show r: "ring_ok q" and "qlen q = nat (if n \<le> 0 then 16 else n)"
    using assms by (auto simp: InitMsgQueue_def ring_ok_def Let_def split: if_splits)
  show "posted q = []" using posted_Nil [OF r] assms by (auto simp: InitMsgQueue_def Let_def split: if_splits)
qed

end
