(* ===== verification/GuiState.thy ===== *)
theory GuiState
  imports MsgRing_Spec
begin

section \<open>The state the message and timer modules share\<close>

text \<open>
  What src/kernel/message.c and src/kernel/timer.c read and write, in the threads
  configuration: the message queues by number, the windows by handle, the nodes of
  synchronous messages (they live on the stacks of their senders) by address, the semaphores
  and the table of timers.  A thread is its number, and \<open>thread_queue\<close> is its thread-specific
  pointer to a queue.  A window procedure or timer procedure is its number.
\<close>

datatype dtype = TYPE_HWND | TYPE_WINTODEL | TYPE_OTHER

record win =
  DataType :: dtype
  is_main :: bool
  w_pMainWin :: hwnd
  w_pMessages :: "nat option"
  w_th :: nat
  MainWindowProc :: "nat option"

datatype sem = SemWait nat | SemSync nat | SemStack nat

record syncmsg =
  s_msg :: msg
  s_retval :: int
  s_sem :: sem
  s_next :: "nat option"

record timer =
  t_addr :: nat
  t_hWnd :: hwnd
  t_id :: int
  t_speed :: dword
  t_count :: dword
  t_proc :: "nat option"
  t_tick_count :: dword
  t_msg_queue :: "nat option"

record gui =
  queues :: "nat \<Rightarrow> msgqueue"
  wins :: "hwnd \<Rightarrow> win option"
  syncs :: "nat \<Rightarrow> syncmsg"
  sems :: "sem \<Rightarrow> nat"
  timerstr :: "timer option list"
  timer_counter :: dword
  thread_queue :: "nat \<Rightarrow> nat option"
  hwnd_desktop :: hwnd
  capture_wnd :: hwnd

abbreviation (input) HWND_INVALID :: hwnd where "HWND_INVALID \<equiv> 0xFFFFFFFF"
abbreviation (input) ERR_OK :: int where "ERR_OK \<equiv> 0"
abbreviation (input) ERR_INV_HWND :: int where "ERR_INV_HWND \<equiv> -1"
abbreviation (input) ERR_QUEUE_FULL :: int where "ERR_QUEUE_FULL \<equiv> -2"
abbreviation (input) ERR_MSG_CANCELED :: int where "ERR_MSG_CANCELED \<equiv> ERR_QUEUE_FULL"
definition DEF_NR_TIMERS :: nat where "DEF_NR_TIMERS = 32"

definition upd_queue :: "nat \<Rightarrow> (msgqueue \<Rightarrow> msgqueue) \<Rightarrow> gui \<Rightarrow> gui" where
  "upd_queue k f g = g\<lparr>queues := (queues g)(k := f (queues g k))\<rparr>"

definition sem_post :: "sem \<Rightarrow> gui \<Rightarrow> gui" where
  "sem_post s g = g\<lparr>sems := (sems g)(s := Suc (sems g s))\<rparr>"

text \<open>\<open>POST_MSGQ\<close> raises the semaphore of a queue unless it is already raised.\<close>

definition POST_MSGQ :: "nat \<Rightarrow> gui \<Rightarrow> gui" where
  "POST_MSGQ k g = (if sems g (SemWait k) \<le> 0 then sem_post (SemWait k) g else g)"

subsection \<open>Windows\<close>

definition data_type :: "gui \<Rightarrow> hwnd \<Rightarrow> dtype" where
  "data_type g h = (case wins g h of None \<Rightarrow> TYPE_OTHER | Some w \<Rightarrow> DataType w)"

definition MG_IS_WINDOW :: "gui \<Rightarrow> hwnd \<Rightarrow> bool" where
  "MG_IS_WINDOW g h \<longleftrightarrow> h \<noteq> 0 \<and> h \<noteq> HWND_INVALID \<and> data_type g h = TYPE_HWND"

definition MG_IS_NORMAL_WINDOW :: "gui \<Rightarrow> hwnd \<Rightarrow> bool" where
  "MG_IS_NORMAL_WINDOW g h \<longleftrightarrow> h \<noteq> hwnd_desktop g \<and> MG_IS_WINDOW g h"

definition MG_IS_MAIN_WINDOW :: "gui \<Rightarrow> hwnd \<Rightarrow> bool" where
  "MG_IS_MAIN_WINDOW g h \<longleftrightarrow> MG_IS_WINDOW g h \<and> (case wins g h of None \<Rightarrow> False | Some w \<Rightarrow> is_main w)"

text \<open>The main window of a window; 0 is NULL.\<close>

definition getMainWindowPtr :: "gui \<Rightarrow> hwnd \<Rightarrow> hwnd" where
  "getMainWindowPtr g h =
     (if \<not> MG_IS_WINDOW g h then 0 else case wins g h of None \<Rightarrow> 0 | Some w \<Rightarrow> w_pMainWin w)"

definition GetMainWindowPtrOfControl :: "gui \<Rightarrow> hwnd \<Rightarrow> hwnd" where
  "GetMainWindowPtrOfControl g h =
     (if \<not> MG_IS_NORMAL_WINDOW g h then 0 else case wins g h of None \<Rightarrow> 0 | Some w \<Rightarrow> w_pMainWin w)"

definition BE_THIS_THREAD :: "gui \<Rightarrow> nat \<Rightarrow> hwnd \<Rightarrow> bool" where
  "BE_THIS_THREAD g me h =
     (let p = getMainWindowPtr g h in
      p \<noteq> 0 \<and> (case wins g p of None \<Rightarrow> False | Some w \<Rightarrow> w_th w = me))"

definition GetMsgQueue :: "gui \<Rightarrow> hwnd \<Rightarrow> nat option" where
  "GetMsgQueue g h =
     (let p = getMainWindowPtr g h in
      if p \<noteq> 0 then (case wins g p of None \<Rightarrow> None | Some w \<Rightarrow> w_pMessages w) else None)"

text \<open>A message belongs to a window when it is sent to it or to a window whose main window it is.\<close>

definition of_window :: "gui \<Rightarrow> hwnd \<Rightarrow> hwnd \<Rightarrow> bool" where
  "of_window g hWnd h \<longleftrightarrow> h = hWnd \<or> GetMainWindowPtrOfControl g h = hWnd"

lemma upd_queue_simps [simp]:
  "queues (upd_queue k f g) j = (if j = k then f (queues g k) else queues g j)"
  "wins (upd_queue k f g) = wins g" "syncs (upd_queue k f g) = syncs g" "sems (upd_queue k f g) = sems g"
  "timerstr (upd_queue k f g) = timerstr g" "timer_counter (upd_queue k f g) = timer_counter g"
  "thread_queue (upd_queue k f g) = thread_queue g" "hwnd_desktop (upd_queue k f g) = hwnd_desktop g"
  "capture_wnd (upd_queue k f g) = capture_wnd g"
  by (simp_all add: upd_queue_def)

lemma sem_post_simps [simp]:
  "queues (sem_post s g) = queues g" "wins (sem_post s g) = wins g" "syncs (sem_post s g) = syncs g"
  "sems (sem_post s g) = (sems g)(s := Suc (sems g s))" "timerstr (sem_post s g) = timerstr g"
  "timer_counter (sem_post s g) = timer_counter g" "thread_queue (sem_post s g) = thread_queue g"
  "hwnd_desktop (sem_post s g) = hwnd_desktop g" "capture_wnd (sem_post s g) = capture_wnd g"
  by (simp_all add: sem_post_def)

lemma POST_MSGQ_simps [simp]:
  "queues (POST_MSGQ k g) = queues g" "wins (POST_MSGQ k g) = wins g" "syncs (POST_MSGQ k g) = syncs g"
  "timerstr (POST_MSGQ k g) = timerstr g" "timer_counter (POST_MSGQ k g) = timer_counter g"
  "thread_queue (POST_MSGQ k g) = thread_queue g" "hwnd_desktop (POST_MSGQ k g) = hwnd_desktop g"
  "capture_wnd (POST_MSGQ k g) = capture_wnd g"
  "sems (POST_MSGQ k g) s = (if s = SemWait k \<and> sems g s = 0 then 1 else sems g s)"
  by (auto simp: POST_MSGQ_def)

lemma windows_cong:
  assumes "wins g' = wins g" "hwnd_desktop g' = hwnd_desktop g"
  shows "MG_IS_WINDOW g' h = MG_IS_WINDOW g h" "getMainWindowPtr g' h = getMainWindowPtr g h"
    "GetMainWindowPtrOfControl g' h = GetMainWindowPtrOfControl g h"
    "BE_THIS_THREAD g' me h = BE_THIS_THREAD g me h" "GetMsgQueue g' h = GetMsgQueue g h"
    "of_window g' w h = of_window g w h"
  using assms
  by (simp_all add: MG_IS_WINDOW_def MG_IS_NORMAL_WINDOW_def data_type_def getMainWindowPtr_def
      GetMainWindowPtrOfControl_def BE_THIS_THREAD_def GetMsgQueue_def of_window_def Let_def)

end
