(* ===== verification/Win_Tree.thy ===== *)
theory Win_Tree
  imports Region_Props Desktop GuiState
begin

section \<open>Windows: the tree of controls (src/gui/window.c, src/gui/dialog.c)\<close>

text \<open>
  A main window and the controls in it, linked as the code links them: by the pointers \<open>pParent\<close>,
  \<open>children\<close>, \<open>next\<close>, \<open>prev\<close> and \<open>active\<close>; a pointer is a number and \<open>0\<close> is NULL.  A loop along
  pointers is a partial function whose \<open>None\<close> is that it does not return.  \<open>forest\<close> says that the pointers
  form the tree they are meant to, and every loop returns on one.  The functions called by a window procedure
  are not run: the messages they send are recorded.
\<close>

definition WS_GROUP :: style where "WS_GROUP = 0x00020000"
definition WS_TABSTOP :: style where "WS_TABSTOP = 0x00010000"

subsection \<open>State\<close>

record control =
  c_data :: dtype
  c_type :: wintype
  c_win :: rect
  c_client :: rect
  c_style :: style
  c_exstyle :: style
  c_id :: int
  c_main :: nat
  c_parent :: nat
  c_children :: nat
  c_active :: nat
  c_under :: nat
  c_primitive :: nat
  c_next :: nat
  c_prev :: nat
  c_frozen :: int

type_synonym ctls = "nat \<Rightarrow> control"

datatype wnd_event =
    Send_NCPAINT nat "rect option" | Send_ERASEBKGND nat "rect option" | Post_PAINT nat
  | Notify_KILLFOCUS nat nat | Notify_SETFOCUS nat nat | Notify_SHOWWINDOW nat nat | Desktop_SHOW nat nat

record wnds =
  ctl :: ctls
  inv :: rgn_store
  sent :: "wnd_event list"

definition upd_ctl :: "nat \<Rightarrow> (control \<Rightarrow> control) \<Rightarrow> wnds \<Rightarrow> wnds" where
  "upd_ctl h f w = w\<lparr>ctl := (ctl w)(h := f (ctl w h))\<rparr>"

definition send :: "wnd_event list \<Rightarrow> wnds \<Rightarrow> wnds" where
  "send es w = w\<lparr>sent := sent w @ es\<rparr>"

definition is_normal :: "ctls \<Rightarrow> nat \<Rightarrow> bool" where
  "is_normal c h \<longleftrightarrow> h \<noteq> 0 \<and> h \<noteq> 0xFFFFFFFF \<and> c_data (c h) = TYPE_HWND"

definition c_visible :: "control \<Rightarrow> bool" where "c_visible k \<longleftrightarrow> c_style k AND WS_VISIBLE \<noteq> 0"
definition c_disabled :: "control \<Rightarrow> bool" where "c_disabled k \<longleftrightarrow> c_style k AND WS_DISABLED \<noteq> 0"

definition IsMainWindow :: "ctls \<Rightarrow> nat \<Rightarrow> bool" where
  "IsMainWindow c h \<longleftrightarrow> (if is_normal c h then c_type (c h) = TYPE_MAINWIN else False)"

definition IsControl :: "ctls \<Rightarrow> nat \<Rightarrow> bool" where
  "IsControl c h \<longleftrightarrow> (if is_normal c h then c_type (c h) = TYPE_CONTROL else False)"

abbreviation (input) INVALID :: nat where "INVALID \<equiv> 0xFFFFFFFF"

definition GetParent :: "ctls \<Rightarrow> nat \<Rightarrow> nat" where
  "GetParent c h = (if is_normal c h then c_parent (c h) else INVALID)"

definition GetNextChild :: "ctls \<Rightarrow> nat \<Rightarrow> nat \<Rightarrow> nat" where
  "GetNextChild c hWnd hChild =
     (if hChild = INVALID \<or> \<not> is_normal c hWnd then INVALID
      else if hChild = 0 then c_children (c hWnd)
      else if hWnd \<noteq> c_parent (c hChild) then INVALID
      else c_next (c hChild))"

subsection \<open>Coordinates\<close>

text \<open>The loops along \<open>pParent\<close> differ in what they add: \<open>f\<close> is the body.\<close>

partial_function (option) parents_loop :: "ctls \<Rightarrow> (control \<Rightarrow> int \<times> int \<Rightarrow> int \<times> int) \<Rightarrow> nat \<Rightarrow> int \<times> int \<Rightarrow> (int \<times> int) option" where
  "parents_loop c f h p =
     (let q = c_parent (c h) in if q = 0 then Some p else parents_loop c f q (f (c q) p))"

definition minus_client :: "control \<Rightarrow> int \<times> int \<Rightarrow> int \<times> int" where
  "minus_client k = (\<lambda>(x, y). (x - rleft (c_client k), y - rtop (c_client k)))"
definition plus_client :: "control \<Rightarrow> int \<times> int \<Rightarrow> int \<times> int" where
  "plus_client k = (\<lambda>(x, y). (x + rleft (c_client k), y + rtop (c_client k)))"
definition minus_window :: "control \<Rightarrow> int \<times> int \<Rightarrow> int \<times> int" where
  "minus_window k = (\<lambda>(x, y). (x - rleft (c_win k), y - rtop (c_win k)))"
definition plus_window :: "control \<Rightarrow> int \<times> int \<Rightarrow> int \<times> int" where
  "plus_window k = (\<lambda>(x, y). (x + rleft (c_win k), y + rtop (c_win k)))"

definition ScreenToClient :: "ctls \<Rightarrow> nat \<Rightarrow> int \<times> int \<Rightarrow> (int \<times> int) option" where
  "ScreenToClient c h p = (if is_normal c h then parents_loop c minus_client h (minus_client (c h) p) else Some p)"
definition ClientToScreen :: "ctls \<Rightarrow> nat \<Rightarrow> int \<times> int \<Rightarrow> (int \<times> int) option" where
  "ClientToScreen c h p = (if is_normal c h then parents_loop c plus_client h (plus_client (c h) p) else Some p)"
definition ScreenToWindow :: "ctls \<Rightarrow> nat \<Rightarrow> int \<times> int \<Rightarrow> (int \<times> int) option" where
  "ScreenToWindow c h p = (if is_normal c h then parents_loop c minus_window h (minus_window (c h) p) else Some p)"
definition WindowToScreen :: "ctls \<Rightarrow> nat \<Rightarrow> int \<times> int \<Rightarrow> (int \<times> int) option" where
  "WindowToScreen c h p = (if is_normal c h then parents_loop c plus_window h (plus_window (c h) p) else Some p)"

text \<open>\<open>WndRect\<close> and \<open>WndClientRect\<close> of src/newgdi/gdi.c: the rectangles of a window on the screen, and the screen \<open>rcScr\<close> for the desktop.\<close>

partial_function (option) rect_loop :: "ctls \<Rightarrow> nat \<Rightarrow> rect \<Rightarrow> rect option" where
  "rect_loop c h r =
     (let q = c_parent (c h) in
      if q = 0 then Some r
      else rect_loop c q (OffsetRect r (rleft (c_client (c q))) (rtop (c_client (c q)))))"

definition WndRect :: "rect \<Rightarrow> ctls \<Rightarrow> nat \<Rightarrow> rect option" where
  "WndRect rcScr c h = (if h = 0 then Some rcScr else rect_loop c h (c_win (c h)))"
definition WndClientRect :: "rect \<Rightarrow> ctls \<Rightarrow> nat \<Rightarrow> rect option" where
  "WndClientRect rcScr c h = (if h = 0 then Some rcScr else rect_loop c h (c_client (c h)))"

definition GetClientRect :: "control \<Rightarrow> rect" where
  "GetClientRect k = mk_rect 0 0 (rright (c_client k) - rleft (c_client k)) (rbottom (c_client k) - rtop (c_client k))"

partial_function (option) IsWindowVisible_loop :: "ctls \<Rightarrow> nat \<Rightarrow> bool option" where
  "IsWindowVisible_loop c h =
     (if \<not> c_visible (c h) then Some False
      else if c_parent (c h) = 0 then Some True
      else IsWindowVisible_loop c (c_parent (c h)))"

subsection \<open>Focus\<close>

definition set_focus_helper :: "nat \<Rightarrow> wnds \<Rightarrow> nat \<times> wnds" where
  "set_focus_helper h w =
     (if IsMainWindow (ctl w) h then (INVALID, w)
      else
        let p = GetParent (ctl w) h;
            old = c_active (ctl w p);
            w = (if old \<noteq> h
                 then let w = (if old \<noteq> 0 then send [Notify_KILLFOCUS old h] w else w);
                          w = upd_ctl p (\<lambda>k. k\<lparr>c_active := h\<rparr>) w
                      in send [Notify_SETFOCUS h old] w
                 else w)
        in (c_active (ctl w p), w))"

partial_function (option) set_focus_up :: "nat \<Rightarrow> wnds \<Rightarrow> wnds option" where
  "set_focus_up h w =
     (let h = GetParent (ctl w) h; r = set_focus_helper h w in
      if fst r \<noteq> INVALID then set_focus_up h (snd r) else Some (snd r))"

definition SetFocusChild :: "nat \<Rightarrow> wnds \<Rightarrow> (nat \<times> wnds) option" where
  "SetFocusChild h w =
     (if \<not> is_normal (ctl w) h then Some (INVALID, w)
      else
        let r = set_focus_helper h w in
        if fst r \<noteq> INVALID then map_option (Pair (fst r)) (set_focus_up h (snd r)) else Some r)"

definition GetFocusChild :: "ctls \<Rightarrow> nat \<Rightarrow> nat" where
  "GetFocusChild c h = (if is_normal c h then c_active (c h) else INVALID)"

definition SetNullFocus :: "nat \<Rightarrow> wnds \<Rightarrow> nat \<times> wnds" where
  "SetNullFocus h w =
     (if \<not> is_normal (ctl w) h then (INVALID, w)
      else
        let old = c_active (ctl w h);
            w = (if old \<noteq> 0 then send [Notify_KILLFOCUS old 0] w else w)
        in (old, upd_ctl h (\<lambda>k. k\<lparr>c_active := 0\<rparr>) w))"

text \<open>The child a key goes to in \<open>DefaultKeyMsgHandler\<close>, and the windows it passes when all use this handler.\<close>

definition DefaultKeyMsgHandler :: "ctls \<Rightarrow> nat \<Rightarrow> nat option" where
  "DefaultKeyMsgHandler c h =
     (if c_active (c h) \<noteq> 0 \<and> \<not> c_disabled (c h) then Some (c_active (c h)) else None)"

partial_function (option) key_path :: "ctls \<Rightarrow> nat \<Rightarrow> nat list option" where
  "key_path c h =
     (case DefaultKeyMsgHandler c h of None \<Rightarrow> Some [h] | Some k \<Rightarrow> do { hs \<leftarrow> key_path c k; Some (h # hs) })"

subsection \<open>The list of children\<close>

partial_function (option) last_of :: "ctls \<Rightarrow> nat \<Rightarrow> nat option" where
  "last_of c p = (if c_next (c p) = 0 then Some p else last_of c (c_next (c p)))"

text \<open>The pointers that \<open>dskOnNewCtrlInstance\<close> and \<open>dskOnRemoveCtrlInstance\<close> of desktop-comm.c write.\<close>

definition set_next :: "nat \<Rightarrow> nat \<Rightarrow> ctls \<Rightarrow> ctls" where "set_next h x c = c(h := (c h)\<lparr>c_next := x\<rparr>)"
definition set_prev :: "nat \<Rightarrow> nat \<Rightarrow> ctls \<Rightarrow> ctls" where "set_prev h x c = c(h := (c h)\<lparr>c_prev := x\<rparr>)"
definition set_children :: "nat \<Rightarrow> nat \<Rightarrow> ctls \<Rightarrow> ctls" where "set_children h x c = c(h := (c h)\<lparr>c_children := x\<rparr>)"

definition link_control :: "nat \<Rightarrow> nat \<Rightarrow> ctls \<Rightarrow> ctls option" where
  "link_control pParent pNew c =
     (let first = c_children (c pParent); c = set_next pNew 0 c in
      if first = 0 then Some (set_prev pNew 0 (set_children pParent pNew c))
      else do {
        last \<leftarrow> last_of c first;
        Some (set_prev pNew last (set_next last pNew c))
      })"

partial_function (option) find_before :: "ctls \<Rightarrow> nat \<Rightarrow> nat \<Rightarrow> nat option" where
  "find_before c h p =
     (if c_next (c p) = 0 then Some 0
      else if c_next (c p) = h then Some p
      else find_before c h (c_next (c p)))"

definition unlink_control :: "nat \<Rightarrow> nat \<Rightarrow> ctls \<Rightarrow> (bool \<times> ctls) option" where
  "unlink_control pParent pCtrl c =
     (let first = c_children (c pParent) in
      if first = 0 then Some (False, c)
      else if first = pCtrl then
        let c = set_children pParent (c_next (c pCtrl)) c;
            c = (if c_next (c pCtrl) \<noteq> 0 then set_prev (c_next (c pCtrl)) 0 c else c)
        in Some (True, c)
      else do {
        before \<leftarrow> find_before c pCtrl first;
        if before = 0 then Some (False, c)
        else
          let c = set_next before (c_next (c pCtrl)) c;
              c = (if c_next (c before) \<noteq> 0 then set_prev (c_next (c before)) (c_prev (c pCtrl)) c else c)
          in Some (True, c)
      })"

subsection \<open>Finding a child\<close>

partial_function (option) find_next :: "ctls \<Rightarrow> (control \<Rightarrow> bool) \<Rightarrow> nat \<Rightarrow> nat option" where
  "find_next c P p = (if p = 0 then Some 0 else if P (c p) then Some p else find_next c P (c_next (c p)))"

partial_function (option) find_prev :: "ctls \<Rightarrow> (control \<Rightarrow> bool) \<Rightarrow> nat \<Rightarrow> nat option" where
  "find_prev c P p = (if p = 0 then Some 0 else if P (c p) then Some p else find_prev c P (c_prev (c p)))"

definition GetDlgItem :: "ctls \<Rightarrow> nat \<Rightarrow> int \<Rightarrow> nat option" where
  "GetDlgItem c hDlg nId = find_next c (\<lambda>k. c_id k = nId) (c_children (c hDlg))"

definition can_focus :: "control \<Rightarrow> bool" where
  "can_focus k \<longleftrightarrow> c_visible k \<and> \<not> c_disabled k"

definition tab_stop :: "control \<Rightarrow> bool" where
  "tab_stop k \<longleftrightarrow> c_style k AND WS_TABSTOP \<noteq> 0 \<and> can_focus k"

definition starts_group :: "control \<Rightarrow> bool" where
  "starts_group k \<longleftrightarrow> c_style k AND WS_GROUP \<noteq> 0"

definition GetNextDlgTabItem :: "ctls \<Rightarrow> nat \<Rightarrow> nat \<Rightarrow> bool \<Rightarrow> nat option" where
  "GetNextDlgTabItem c hDlg hCtl bPrevious =
     (let first = c_children (c hDlg) in
      if first = 0 then Some hCtl
      else do {
        last \<leftarrow> last_of c first;
        let p = (if hCtl \<noteq> 0 then (if bPrevious then c_prev (c hCtl) else c_next (c hCtl))
                 else if bPrevious then last else first);
        r \<leftarrow> (if bPrevious then find_prev c tab_stop p else find_next c tab_stop p);
        if r \<noteq> 0 then Some r
        else do {
          r \<leftarrow> (if bPrevious then find_prev c tab_stop last else find_next c tab_stop first);
          Some (if r \<noteq> 0 then r else hCtl)
        }
      })"

text \<open>
  \<open>GetNextDlgGroupItem\<close>: the walks that stop at the next group look for a control of the group or a group's
  first one, whichever comes first; \<open>group_end\<close> is the search for the end of the group when walking back.
\<close>

partial_function (option) group_end :: "ctls \<Rightarrow> nat \<Rightarrow> nat option" where
  "group_end c p =
     (if c_next (c p) = 0 \<or> starts_group (c p) then Some p else group_end c (c_next (c p)))"

definition in_group :: "ctls \<Rightarrow> nat \<Rightarrow> nat option" where
  "in_group c p = do {
     q \<leftarrow> find_next c (\<lambda>k. starts_group k \<or> can_focus k) p;
     Some (if q \<noteq> 0 \<and> \<not> starts_group (c q) then q else 0)
   }"

definition group_previous :: "ctls \<Rightarrow> nat \<Rightarrow> nat option" where
  "group_previous c start = do {
     p \<leftarrow> (if starts_group (c start)
           then (if c_next (c start) \<noteq> 0 then group_end c (c_next (c start)) else Some start)
           else Some start);
     find_prev c can_focus (if starts_group (c p) \<or> p = start then c_prev (c p) else p)
   }"

definition group_next :: "ctls \<Rightarrow> nat \<Rightarrow> nat option" where
  "group_next c start = do {
     r \<leftarrow> in_group c (c_next (c start));
     if r \<noteq> 0 then Some r
     else do {
       g \<leftarrow> find_prev c starts_group (c_prev (c start));
       if g \<noteq> 0 \<and> can_focus (c g) then Some g
       else if g \<noteq> 0 then in_group c (c_next (c g))
       else Some 0
     }
   }"

definition GetNextDlgGroupItem :: "ctls \<Rightarrow> nat \<Rightarrow> nat \<Rightarrow> bool \<Rightarrow> nat option" where
  "GetNextDlgGroupItem c hDlg hCtl bPrevious =
     (if hCtl = 0 \<and> c_children (c hDlg) = 0 then Some hCtl
      else do {
        start \<leftarrow> (if hCtl \<noteq> 0 then Some hCtl
                  else if bPrevious then last_of c (c_children (c hDlg)) else Some (c_children (c hDlg)));
        r \<leftarrow> (if bPrevious then group_previous c start else group_next c start);
        Some (if r \<noteq> 0 then r else hCtl)
      })"

end
