(* ===== verification/Win_Tree_Props.thy ===== *)
theory Win_Tree_Props
  imports Win_Tree
begin

section \<open>Windows: coordinates, focus, tab order and the lists of children\<close>

text \<open>
  \<open>parents_chain\<close> is the way from a window to its main window, \<open>dlist\<close> a doubly linked list of controls.  On these the
  loops of \<open>window.c\<close> and \<open>dialog.c\<close> return, and each is an operation on lists.
\<close>

subsection \<open>Chains of parents\<close>

fun parents_chain :: "ctls \<Rightarrow> nat \<Rightarrow> nat list \<Rightarrow> bool" where
  "parents_chain c h [] \<longleftrightarrow> c_parent (c h) = 0"
| "parents_chain c h (p # ps) \<longleftrightarrow> c_parent (c h) = p \<and> p \<noteq> 0 \<and> parents_chain c p ps"

lemma parents_loop_chain: "parents_chain c h ps \<Longrightarrow> parents_loop c f h p = Some (fold (\<lambda>q. f (c q)) ps p)"
  by (induction ps arbitrary: h p) (simp_all add: parents_loop.simps Let_def)

lemma rect_loop_chain:
  "parents_chain c h ps \<Longrightarrow> rect_loop c h r = Some (fold (\<lambda>q r. OffsetRect r (rleft (c_client (c q))) (rtop (c_client (c q)))) ps r)"
  by (induction ps arbitrary: h r) (simp_all add: rect_loop.simps Let_def)

definition off_x :: "ctls \<Rightarrow> nat list \<Rightarrow> int" where "off_x c ps = (\<Sum>q\<leftarrow>ps. rleft (c_client (c q)))"
definition off_y :: "ctls \<Rightarrow> nat list \<Rightarrow> int" where "off_y c ps = (\<Sum>q\<leftarrow>ps. rtop (c_client (c q)))"

lemma fold_client:
  "fold (\<lambda>q. plus_client (c q)) ps p = (fst p + off_x c ps, snd p + off_y c ps)"
  "fold (\<lambda>q. minus_client (c q)) ps p = (fst p - off_x c ps, snd p - off_y c ps)"
  by (induction ps arbitrary: p) (auto simp: off_x_def off_y_def plus_client_def minus_client_def split: prod.splits)

lemma fold_window:
  "fold (\<lambda>q. plus_window (c q)) ps p = (fst p + (\<Sum>q\<leftarrow>ps. rleft (c_win (c q))), snd p + (\<Sum>q\<leftarrow>ps. rtop (c_win (c q))))"
  "fold (\<lambda>q. minus_window (c q)) ps p = (fst p - (\<Sum>q\<leftarrow>ps. rleft (c_win (c q))), snd p - (\<Sum>q\<leftarrow>ps. rtop (c_win (c q))))"
  by (induction ps arbitrary: p) (auto simp: plus_window_def minus_window_def split: prod.splits)

lemma fold_offset_sum:
  "fold (\<lambda>q r. OffsetRect r (rleft (c_client (c q))) (rtop (c_client (c q)))) ps r = OffsetRect r (off_x c ps) (off_y c ps)"
  by (induction ps arbitrary: r) (simp_all add: OffsetRect_def off_x_def off_y_def add.assoc)

lemma parents_chain_unique: "parents_chain c h ps \<Longrightarrow> parents_chain c h qs \<Longrightarrow> ps = qs"
proof (induction ps arbitrary: h qs)
  case Nil
  then show ?case by (cases qs) auto
next
  case (Cons p ps)
  then show ?case by (cases qs) auto
qed

lemma parents_chain_cong: "(\<And>x. c_parent (c x) = c_parent (c' x)) \<Longrightarrow> parents_chain c = parents_chain c'"
proof (intro ext)
  fix h ps
  assume "\<And>x. c_parent (c x) = c_parent (c' x)"
  then show "parents_chain c h ps = parents_chain c' h ps" by (induction ps arbitrary: h) auto
qed

lemma parents_chain_append: "parents_chain c h (ps @ p # qs) \<Longrightarrow> parents_chain c p qs"
  by (induction ps arbitrary: h) auto

lemma parents_chain_distinct: "parents_chain c h ps \<Longrightarrow> distinct (h # ps)"
proof (induction ps arbitrary: h)
  case (Cons p ps)
  have "h \<notin> set (p # ps)"
  proof
    assume "h \<in> set (p # ps)"
    then obtain as bs where s: "p # ps = as @ h # bs" by (meson split_list)
    then have "parents_chain c h bs" using Cons.prems parents_chain_append by metis
    then have "bs = as @ h # bs" using parents_chain_unique Cons.prems s by metis
    then show False by (metis append_Cons append_self_conv2 length_append length_Cons add_Suc_right less_add_Suc2 nat_neq_iff)
  qed
  then show ?case using Cons by auto
qed simp

subsection \<open>Setting the focus\<close>

definition focus_one :: "nat \<Rightarrow> nat \<Rightarrow> wnds \<Rightarrow> wnds" where
  "focus_one h p w =
     (let old = c_active (ctl w p) in
      if old = h then w
      else w\<lparr>ctl := (ctl w)(p := (ctl w p)\<lparr>c_active := h\<rparr>),
             sent := sent w @ (if old \<noteq> 0 then [Notify_KILLFOCUS old h] else []) @ [Notify_SETFOCUS h old]\<rparr>)"

fun focus_all :: "nat \<Rightarrow> nat list \<Rightarrow> wnds \<Rightarrow> wnds" where
  "focus_all h [] w = w"
| "focus_all h (p # ps) w = focus_all p ps (focus_one h p w)"

text \<open>\<open>in_main\<close>: the window is a control whose chain of parents ends in a main window.\<close>

definition in_main :: "ctls \<Rightarrow> nat \<Rightarrow> nat list \<Rightarrow> bool" where
  "in_main c h ps \<longleftrightarrow> parents_chain c h ps \<and> ps \<noteq> [] \<and> (\<forall>x \<in> set (h # ps). is_normal c x)
     \<and> (\<forall>x \<in> set (h # butlast ps). c_type (c x) = TYPE_CONTROL) \<and> c_type (c (last ps)) = TYPE_MAINWIN"

lemma in_main_Cons:
  "in_main c h (p # ps) \<Longrightarrow> ps \<noteq> [] \<Longrightarrow> in_main c p ps"
  by (simp add: in_main_def)

lemma helper_control:
  assumes "is_normal (ctl w) h" "c_type (ctl w h) = TYPE_CONTROL" "c_parent (ctl w h) = p"
  shows "set_focus_helper h w = (h, focus_one h p w)"
  using assms by (simp add: set_focus_helper_def IsMainWindow_def GetParent_def focus_one_def Let_def send_def upd_ctl_def)

lemma focus_one_ctl:
  "ctl (focus_one h p w) x = (if x = p then (ctl w p)\<lparr>c_active := h\<rparr> else ctl w x)"
  by (simp add: focus_one_def Let_def)

lemma focus_one_keeps:
  "c_parent (ctl (focus_one h p w) x) = c_parent (ctl w x)"
  "c_type (ctl (focus_one h p w) x) = c_type (ctl w x)"
  "is_normal (ctl (focus_one h p w)) = is_normal (ctl w)"
  "parents_chain (ctl (focus_one h p w)) = parents_chain (ctl w)"
proof -
  show "c_parent (ctl (focus_one h p w) x) = c_parent (ctl w x)" for x by (simp add: focus_one_ctl)
  then show "parents_chain (ctl (focus_one h p w)) = parents_chain (ctl w)"
    by (intro parents_chain_cong)
  show "is_normal (ctl (focus_one h p w)) = is_normal (ctl w)"
    by (simp add: is_normal_def fun_eq_iff focus_one_ctl)
qed (simp add: focus_one_ctl)

lemma in_main_focus_one [simp]: "in_main (ctl (focus_one h p w)) = in_main (ctl w)"
  by (simp add: in_main_def fun_eq_iff focus_one_keeps)

lemma set_focus_up_all:
  "in_main (ctl w) h (p # ps) \<Longrightarrow> set_focus_up h w = Some (focus_all p ps w)"
proof (induction ps arbitrary: h p w)
  case Nil
  then show ?case
    by (simp add: set_focus_up.simps Let_def in_main_def GetParent_def set_focus_helper_def IsMainWindow_def)
next
  case (Cons q ps)
  from Cons.prems have m: "in_main (ctl w) p (q # ps)" by (rule in_main_Cons) simp
  then have h: "set_focus_helper p w = (p, focus_one p q w)"
    by (intro helper_control) (simp_all add: in_main_def)
  have g: "GetParent (ctl w) h = p" "p \<noteq> INVALID"
    using Cons.prems by (simp_all add: in_main_def GetParent_def is_normal_def)
  show ?case
    using Cons.IH [of "focus_one p q w" p q] m g
    by (subst set_focus_up.simps) (simp add: Let_def h)
qed

lemma SetFocusChild_all:
  assumes "in_main (ctl w) h ps"
  shows "SetFocusChild h w = Some (h, focus_all h ps w)"
proof -
  obtain p qs where ps: "ps = p # qs" using assms by (cases ps) (auto simp: in_main_def)
  have h: "set_focus_helper h w = (h, focus_one h p w)"
    using assms by (intro helper_control) (simp_all add: in_main_def ps)
  show ?thesis
    using set_focus_up_all [of "focus_one h p w" h p qs] assms
    by (simp add: SetFocusChild_def h ps in_main_def is_normal_def)
qed

text \<open>The child of \<open>x\<close> on the way \<open>ps\<close> from \<open>h\<close>, and the messages sent on this way.\<close>

fun child_on :: "nat \<Rightarrow> nat list \<Rightarrow> nat \<Rightarrow> nat" where
  "child_on h [] x = 0"
| "child_on h (p # ps) x = (if x = p then h else child_on p ps x)"

fun focus_events :: "ctls \<Rightarrow> nat \<Rightarrow> nat list \<Rightarrow> wnd_event list" where
  "focus_events c h [] = []"
| "focus_events c h (p # ps) =
     (let old = c_active (c p) in
      if old = h then [] else (if old \<noteq> 0 then [Notify_KILLFOCUS old h] else []) @ [Notify_SETFOCUS h old])
     @ focus_events c p ps"

lemma focus_events_upd: "p \<notin> set ps \<Longrightarrow> focus_events (c(p := k)) h ps = focus_events c h ps"
  by (induction ps arbitrary: h) auto

lemma focus_all_ctl:
  "distinct ps \<Longrightarrow> ctl (focus_all h ps w) = (\<lambda>x. if x \<in> set ps then (ctl w x)\<lparr>c_active := child_on h ps x\<rparr> else ctl w x)"
  by (induction ps arbitrary: h w) (auto simp: focus_one_ctl fun_eq_iff)

lemma focus_one_eq: "ctl (focus_one h p w) = (ctl w)(p := (ctl w p)\<lparr>c_active := h\<rparr>)"
  by (auto simp: focus_one_ctl fun_eq_iff)

lemma focus_all_sent:
  "distinct ps \<Longrightarrow> sent (focus_all h ps w) = sent w @ focus_events (ctl w) h ps"
proof (induction ps arbitrary: h w)
  case (Cons p ps)
  then show ?case
    using focus_events_upd [of p ps "ctl w"] by (simp add: focus_one_eq) (simp add: focus_one_def Let_def)
qed simp

lemma focus_all_inv: "inv (focus_all h ps w) = inv w"
  by (induction ps arbitrary: h w) (simp_all add: focus_one_def Let_def)

lemma key_path_focused:
  assumes "distinct (h # ps)" "ps \<noteq> []" "h \<noteq> 0" "\<forall>p \<in> set (butlast ps). p \<noteq> 0"
    and "\<forall>p \<in> set ps. c_active (c p) = child_on h ps p \<and> \<not> c_disabled (c p)"
  shows "key_path c (last ps) = map_option (\<lambda>hs. rev ps @ hs) (key_path c h)"
  using assms
proof (induction ps arbitrary: h)
  case (Cons p ps)
  have step: "key_path c p = map_option (Cons p) (key_path c h)"
    using Cons.prems
    by (subst key_path.simps) (simp add: DefaultKeyMsgHandler_def, cases "key_path c h", auto)
  show ?case
  proof (cases "ps = []")
    case True
    then show ?thesis using step by simp
  next
    case False
    have "key_path c (last ps) = map_option (\<lambda>hs. rev ps @ hs) (key_path c p)"
      using Cons.prems False by (intro Cons.IH) (auto split: if_splits)
    then show ?thesis using step False by (simp add: option.map_comp comp_def)
  qed
qed simp

subsection \<open>Lists of children\<close>

fun dlist :: "ctls \<Rightarrow> nat \<Rightarrow> nat \<Rightarrow> nat list \<Rightarrow> bool" where
  "dlist c pr p [] \<longleftrightarrow> p = 0"
| "dlist c pr p (a # as) \<longleftrightarrow> p = a \<and> a \<noteq> 0 \<and> c_prev (c a) = pr \<and> dlist c a (c_next (c a)) as"

definition first_of :: "nat list \<Rightarrow> nat" where "first_of xs = (case xs of [] \<Rightarrow> 0 | x # _ \<Rightarrow> x)"

lemma first_of_simps [simp]: "first_of [] = 0" "first_of (x # xs) = x"
  by (simp_all add: first_of_def)

definition fold_default :: "nat option \<Rightarrow> nat" where
  "fold_default r = (case r of Some t \<Rightarrow> t | None \<Rightarrow> 0)"

lemma fold_default_simps [simp]: "fold_default None = 0" "fold_default (Some t) = t"
  by (simp_all add: fold_default_def)

lemma dlist_nz: "dlist c pr p xs \<Longrightarrow> 0 \<notin> set xs"
  by (induction xs arbitrary: pr p) auto

lemma dlist_hd: "dlist c pr p xs \<Longrightarrow> p = first_of xs"
  by (cases xs) auto

lemma find_next_dlist: "dlist c pr p xs \<Longrightarrow> find_next c P p = Some (fold_default (find (\<lambda>h. P (c h)) xs))"
  by (induction xs arbitrary: pr p; subst find_next.simps) auto

lemma last_of_dlist: "dlist c pr p (x # xs) \<Longrightarrow> last_of c p = Some (last (x # xs))"
proof (induction xs arbitrary: pr p x)
  case Nil
  then show ?case by (simp add: last_of.simps)
next
  case (Cons y xs)
  then have "last_of c y = Some (last (y # xs))" by auto
  then show ?case using Cons.prems by (subst last_of.simps) auto
qed

text \<open>Backwards, a list is walked from any of its controls to the first.\<close>

lemma dlist_split:
  "dlist c pr p (as @ a # bs) \<Longrightarrow>
   c_next (c a) = first_of bs \<and> c_prev (c a) = (if as = [] then pr else last as) \<and> dlist c a (first_of bs) bs"
proof (induction as arbitrary: pr p)
  case Nil
  then show ?case using dlist_hd [of c a "c_next (c a)" bs] by simp
next
  case (Cons x as)
  then have "dlist c x (c_next (c x)) (as @ a # bs)" by simp
  from Cons.IH [OF this] show ?case by simp
qed

lemma find_prev_dlist:
  assumes "dlist c 0 p (as @ bs)"
  shows "find_prev c P (if as = [] then 0 else last as) = Some (fold_default (find (\<lambda>h. P (c h)) (rev as)))"
  using assms
proof (induction as arbitrary: bs rule: rev_induct)
  case (snoc a as)
  have "c_prev (c a) = (if as = [] then 0 else last as)" "a \<noteq> 0"
    using snoc.prems dlist_split [of c 0 p as a bs] dlist_nz [OF snoc.prems] by auto
  moreover have "find_prev c P (if as = [] then 0 else last as) = Some (fold_default (find (\<lambda>h. P (c h)) (rev as)))"
    using snoc by simp
  ultimately show ?case using find_prev.simps [of c P a] by simp
next
  case Nil
  show ?case using find_prev.simps [of c P 0] by simp
qed

lemma find_in_append: "find P (xs @ ys) = (case find P xs of None \<Rightarrow> find P ys | Some t \<Rightarrow> Some t)"
  by (induction xs) auto

lemma fold_default_find: "0 \<notin> set xs \<Longrightarrow> fold_default (find P xs) = 0 \<longleftrightarrow> find P xs = None"
proof (induction xs)
  case (Cons x xs)
  then show ?case by (cases "P x") simp_all
qed simp

text \<open>The controls in the order the tab key visits them, starting behind \<open>h\<close>.\<close>

definition next_in :: "(nat \<Rightarrow> bool) \<Rightarrow> nat list \<Rightarrow> nat \<Rightarrow> nat" where
  "next_in P xs h = (case find P xs of None \<Rightarrow> h | Some t \<Rightarrow> t)"

lemma tab_forward:
  assumes l: "dlist c 0 (c_children (c d)) (as @ h # bs)"
  shows "GetNextDlgTabItem c d h False = Some (next_in (\<lambda>x. tab_stop (c x)) (bs @ as) h)"
proof -
  let ?P = "\<lambda>x. tab_stop (c x)"
  have nz: "0 \<notin> set (as @ h # bs)" using dlist_nz [OF l] .
  have first: "c_children (c d) = first_of (as @ h # bs)" "first_of (as @ h # bs) \<noteq> 0"
    using dlist_hd [OF l] nz by (cases as; auto)+
  obtain t where t: "last_of c (c_children (c d)) = Some t"
    using last_of_dlist l by (cases as) fastforce+
  have n: "find_next c tab_stop (c_next (c h)) = Some (fold_default (find ?P bs))"
    using dlist_split [OF l] find_next_dlist by metis
  have a: "find_next c tab_stop (c_children (c d)) = Some (fold_default (find ?P (as @ h # bs)))"
    using find_next_dlist [OF l] .
  show ?thesis
    using first t n a nz fold_default_find [of bs ?P] fold_default_find [of "as @ h # bs" ?P]
    by (simp add: GetNextDlgTabItem_def next_in_def find_in_append Let_def split: option.splits)
qed

lemma tab_backward:
  assumes l: "dlist c 0 (c_children (c d)) (as @ h # bs)"
  shows "GetNextDlgTabItem c d h True = Some (next_in (\<lambda>x. tab_stop (c x)) (rev as @ rev bs) h)"
proof -
  let ?P = "\<lambda>x. tab_stop (c x)" and ?xs = "as @ h # bs"
  have nz: "0 \<notin> set ?xs" using dlist_nz [OF l] .
  have first: "c_children (c d) = first_of ?xs" "first_of ?xs \<noteq> 0"
    using dlist_hd [OF l] nz by (cases as; auto)+
  have t: "last_of c (c_children (c d)) = Some (last ?xs)"
    using last_of_dlist l by (cases as) fastforce+
  have n: "find_prev c tab_stop (c_prev (c h)) = Some (fold_default (find ?P (rev as)))"
    using dlist_split [OF l] find_prev_dlist [of c _ as "h # bs" tab_stop] l by (auto split: if_splits)
  have a: "find_prev c tab_stop (last ?xs) = Some (fold_default (find ?P (rev ?xs)))"
    using find_prev_dlist [of c "c_children (c d)" ?xs "[]" tab_stop] l by simp
  show ?thesis
    using first t n a nz fold_default_find [of "rev as" ?P] fold_default_find [of "rev ?xs" ?P]
    by (simp add: GetNextDlgTabItem_def next_in_def find_in_append Let_def split: option.splits)
qed

lemma tab_first:
  assumes l: "dlist c 0 (c_children (c d)) xs"
  shows "GetNextDlgTabItem c d 0 b = Some (next_in (\<lambda>x. tab_stop (c x)) (if b then rev xs else xs) 0)"
proof (cases xs)
  case Nil
  then show ?thesis using l by (simp add: GetNextDlgTabItem_def next_in_def)
next
  case (Cons y ys)
  let ?P = "\<lambda>x. tab_stop (c x)"
  have t: "last_of c (c_children (c d)) = Some (last xs)" "c_children (c d) \<noteq> 0"
    using last_of_dlist [of c 0 _ y ys] l Cons by auto
  have "find_prev c tab_stop (last xs) = Some (fold_default (find ?P (rev xs)))"
    using find_prev_dlist [of c "c_children (c d)" xs "[]" tab_stop] l Cons by simp
  then show ?thesis
    using t find_next_dlist [OF l, of tab_stop]
    by (simp add: GetNextDlgTabItem_def next_in_def Let_def) (auto simp: fold_default_def split: option.splits)
qed

subsection \<open>Adding and removing a control\<close>

fun dseg :: "ctls \<Rightarrow> nat \<Rightarrow> nat \<Rightarrow> nat list \<Rightarrow> nat \<Rightarrow> bool" where
  "dseg c pr p [] q \<longleftrightarrow> p = q"
| "dseg c pr p (a # as) q \<longleftrightarrow> p = a \<and> a \<noteq> 0 \<and> c_prev (c a) = pr \<and> dseg c a (c_next (c a)) as q"

abbreviation last_or :: "nat \<Rightarrow> nat list \<Rightarrow> nat" where "last_or d xs \<equiv> (if xs = [] then d else last xs)"

lemma dlist_append: "dlist c pr p (as @ bs) \<longleftrightarrow> dseg c pr p as (first_of bs) \<and> dlist c (last_or pr as) (first_of bs) bs"
proof (induction as arbitrary: pr p)
  case Nil
  then show ?case using dlist_hd by auto
next
  case (Cons a as)
  show ?case by (simp add: Cons.IH)
qed

lemma dseg_snoc: "dseg c pr p (as @ [a]) q \<longleftrightarrow> dseg c pr p as a \<and> a \<noteq> 0 \<and> c_prev (c a) = last_or pr as \<and> c_next (c a) = q"
proof (induction as arbitrary: pr p)
  case (Cons b as)
  show ?case by (simp add: Cons.IH)
qed auto

lemma dlist_cong:
  "(\<And>a. a \<in> set xs \<Longrightarrow> c_next (c a) = c_next (c' a) \<and> c_prev (c a) = c_prev (c' a)) \<Longrightarrow> dlist c pr p xs = dlist c' pr p xs"
  by (induction xs arbitrary: pr p) auto

lemma dseg_cong:
  "(\<And>a. a \<in> set xs \<Longrightarrow> c_next (c a) = c_next (c' a) \<and> c_prev (c a) = c_prev (c' a)) \<Longrightarrow> dseg c pr p xs q = dseg c' pr p xs q"
  by (induction xs arbitrary: pr p) auto

lemma set_children_keeps [simp]:
  "c_next (set_children p x c a) = c_next (c a)" "c_prev (set_children p x c a) = c_prev (c a)"
  by (simp_all add: set_children_def)

text \<open>\<open>lists_ok c ch\<close>: the pointers of every window \<open>p\<close> are those of the list \<open>ch p\<close>, and no control is in two lists.\<close>

definition lists_ok :: "ctls \<Rightarrow> (nat \<Rightarrow> nat list) \<Rightarrow> bool" where
  "lists_ok c ch \<longleftrightarrow> (\<forall>p. dlist c 0 (c_children (c p)) (ch p) \<and> distinct (ch p))
     \<and> (\<forall>p q. p \<noteq> q \<longrightarrow> set (ch p) \<inter> set (ch q) = {})"

lemma lists_okD:
  assumes "lists_ok c ch"
  shows "dlist c 0 (c_children (c p)) (ch p)" "distinct (ch p)" "p \<noteq> q \<Longrightarrow> set (ch p) \<inter> set (ch q) = {}"
  using assms unfolding lists_ok_def by auto

text \<open>An update keeps the other lists when it keeps the pointers of their controls.\<close>

lemma lists_ok_upd:
  assumes ok: "lists_ok c ch"
    and d: "dlist c' 0 (c_children (c' p)) xs" "distinct xs" "\<And>q. q \<noteq> p \<Longrightarrow> set xs \<inter> set (ch q) = {}"
    and same: "\<And>q. q \<noteq> p \<Longrightarrow> c_children (c' q) = c_children (c q)"
    and other: "\<And>q a. q \<noteq> p \<Longrightarrow> a \<in> set (ch q) \<Longrightarrow> c_next (c' a) = c_next (c a) \<and> c_prev (c' a) = c_prev (c a)"
  shows "lists_ok c' (ch(p := xs))"
proof -
  have "dlist c' 0 (c_children (c' q)) (ch q)" if "q \<noteq> p" for q
    using lists_okD(1) [OF ok, of q] same [OF that] dlist_cong [of "ch q" c' c] other [OF that] by simp
  then show ?thesis
    using d lists_okD [OF ok] unfolding lists_ok_def by (auto simp: Int_commute)
qed

lemma link_control_ok:
  assumes ok: "lists_ok c ch" and n: "n \<noteq> 0" "\<And>q. n \<notin> set (ch q)"
  obtains c' where "link_control p n c = Some c'" "lists_ok c' (ch(p := ch p @ [n]))"
proof (cases "ch p" rule: rev_cases)
  case Nil
  then have z: "c_children (c p) = 0" using lists_okD(1) [OF ok, of p] by simp
  let ?c = "set_prev n 0 (set_children p n (set_next n 0 c))"
  have "lists_ok ?c (ch(p := [n]))"
    using n by (intro lists_ok_upd [OF ok]) (auto simp: set_prev_def set_next_def set_children_def)
  then show thesis using that z Nil by (simp add: link_control_def)
next
  case (snoc ys l)
  note d = lists_okD(1) [OF ok, of p]
  have nx: "n \<notin> set (ch p)" "l \<noteq> n" "n \<notin> set ys" "l \<notin> set ys" "distinct ys"
    using n(2) [of p] lists_okD(2) [OF ok, of p] snoc by auto
  have seg: "dseg c 0 (c_children (c p)) ys l" "l \<noteq> 0" "c_prev (c l) = last_or 0 ys"
    using d unfolding snoc dlist_append by simp_all
  define c1 where "c1 = set_next n 0 c"
  have "dlist c 0 (c_children (c p)) (ch p) = dlist c1 0 (c_children (c p)) (ch p)"
    using nx(1) by (intro dlist_cong) (auto simp: c1_def set_next_def)
  then have "dlist c1 0 (c_children (c p)) (ch p)" using d by simp
  then have l: "last_of c1 (c_children (c p)) = Some l"
    using last_of_dlist [of c1 0 _ "hd (ch p)" "tl (ch p)"] snoc by (cases ys) auto
  define c2 where "c2 = set_prev n l (set_next l n c1)"
  have pts: "c_next (c2 a) = (if a = n then 0 else if a = l then n else c_next (c a))"
    "c_prev (c2 a) = (if a = n then l else c_prev (c a))" "c_children (c2 a) = c_children (c a)" for a
    using nx by (auto simp: c2_def c1_def set_prev_def set_next_def)
  have "dseg c2 0 q ys l = dseg c 0 q ys l" for q
    using nx by (intro dseg_cong) (auto simp: pts)
  then have "dlist c2 0 (c_children (c p)) ((ys @ [l]) @ [n])"
    unfolding dlist_append dseg_snoc using seg n(1) nx by (simp add: pts)
  moreover have "c_children (c p) \<noteq> 0" using d snoc dlist_nz [OF d] dlist_hd [OF d] by (cases ys) auto
  moreover have "lists_ok c2 (ch(p := ch p @ [n]))"
  proof (rule lists_ok_upd [OF ok])
    show "dlist c2 0 (c_children (c2 p)) (ch p @ [n])" using calculation(1) by (simp add: pts snoc)
    show "distinct (ch p @ [n])" using nx(1) lists_okD(2) [OF ok] by simp
    show "set (ch p @ [n]) \<inter> set (ch q) = {}" if "q \<noteq> p" for q
      using n(2) [of q] lists_okD(3) [OF ok, of p q] that by auto
    show "c_next (c2 a) = c_next (c a) \<and> c_prev (c2 a) = c_prev (c a)" if "q \<noteq> p" "a \<in> set (ch q)" for q a
      using lists_okD(3) [OF ok, of p q] that n(2) [of q] snoc by (auto simp: pts)
  qed (simp add: pts)
  ultimately show thesis using that l by (simp add: link_control_def c1_def c2_def Let_def)
qed

lemma find_before_dlist:
  assumes "dlist c pr p (x # xs)"
  shows "find_before c h p = Some (case takeWhile (\<lambda>y. y \<noteq> h) xs of ys \<Rightarrow> if ys = xs then 0 else last (x # ys))"
  using assms
proof (induction xs arbitrary: pr p x)
  case Nil
  then show ?case by (subst find_before.simps) simp
next
  case (Cons y xs)
  then have y: "p = x" "c_next (c x) = y" "y \<noteq> 0" "dlist c x y (y # xs)" by auto
  show ?case
    using Cons.IH [OF y(4)] y(1-3) by (subst find_before.simps) auto
qed

lemma unlink_control_ok:
  assumes ok: "lists_ok c ch"
  obtains c' where "unlink_control p h c = Some (h \<in> set (ch p), c')" "lists_ok c' (ch(p := remove1 h (ch p)))"
proof (cases "h \<in> set (ch p)")
  case False
  then have r: "ch(p := remove1 h (ch p)) = ch" by (simp add: remove1_idem)
  note d = lists_okD(1) [OF ok, of p]
  show thesis
  proof (cases "ch p")
    case Nil
    then show thesis using that [of c, unfolded r] d ok by (simp add: unlink_control_def)
  next
    case (Cons x xs)
    have "find_before c h (c_children (c p)) = Some 0"
      using find_before_dlist [of c 0 _ x xs h] d False Cons by (simp add: takeWhile_all)
    then show thesis using that [of c, unfolded r] d ok False Cons by (simp add: unlink_control_def)
  qed
next
  case True
  then obtain as bs where s: "ch p = as @ h # bs" "h \<notin> set as" by (meson split_list_first)
  note d = lists_okD(1) [OF ok, of p]
  have dd: "dlist c 0 (c_children (c p)) (as @ h # bs)" using d by (simp only: s)
  have dis: "distinct (as @ h # bs)" "h \<notin> set bs" "set as \<inter> set bs = {}"
    using lists_okD(2) [OF ok, of p] s by auto
  have r: "remove1 h (ch p) = as @ bs" using s by (simp add: remove1_append)
  have nz: "0 \<notin> set (as @ h # bs)" using dlist_nz d s by metis
  have segs: "dseg c 0 (c_children (c p)) as h" "c_prev (c h) = last_or 0 as"
    "c_next (c h) = first_of bs" "dlist c h (first_of bs) bs"
    using dlist_split [OF dd] dd [unfolded dlist_append] by simp_all
  define c1 where "c1 = (if as = [] then set_children p (first_of bs) c else set_next (last as) (first_of bs) c)"
  define c2 where "c2 = (if bs \<noteq> [] then set_prev (hd bs) (last_or 0 as) c1 else c1)"
  have pts: "c_next (c2 a) = (if as \<noteq> [] \<and> a = last as then first_of bs else c_next (c a))"
    "c_prev (c2 a) = (if bs \<noteq> [] \<and> a = hd bs then last_or 0 as else c_prev (c a))"
    "c_children (c2 a) = (if as = [] \<and> a = p then first_of bs else c_children (c a))" for a
    by (auto simp: c2_def c1_def set_prev_def set_next_def set_children_def)
  have seg: "dseg c2 0 (c_children (c2 p)) as (first_of bs)"
  proof (cases as rule: rev_cases)
    case Nil
    then show ?thesis by (simp add: pts)
  next
    case (snoc ys y)
    have "dseg c2 0 q ys y = dseg c 0 q ys y" for q
      using dis snoc by (intro dseg_cong) (cases bs, auto simp: pts)
    moreover have "dseg c 0 (c_children (c p)) ys y" "y \<noteq> 0" "c_prev (c y) = last_or 0 ys"
      using segs(1) unfolding snoc dseg_snoc by simp_all
    moreover have "c_next (c2 y) = first_of bs" "c_prev (c2 y) = c_prev (c y)" "c_children (c2 p) = c_children (c p)"
      using dis snoc by (cases bs; simp add: pts)+
    ultimately show ?thesis unfolding snoc dseg_snoc by simp
  qed
  have rest: "dlist c2 (last_or 0 as) (first_of bs) bs"
  proof (cases bs)
    case (Cons b bs')
    have "dlist c2 b q bs' = dlist c b q bs'" for q
      using dis Cons by (intro dlist_cong) (cases as rule: rev_cases, auto simp: pts)
    moreover have "c_next (c2 b) = c_next (c b)" using dis Cons by (cases as rule: rev_cases) (auto simp: pts)
    ultimately show ?thesis using segs(4) Cons by (simp add: pts)
  qed simp
  have ok2: "lists_ok c2 (ch(p := remove1 h (ch p)))"
  proof (rule lists_ok_upd [OF ok])
    show "dlist c2 0 (c_children (c2 p)) (remove1 h (ch p))" using seg rest by (simp add: r dlist_append)
    show "distinct (remove1 h (ch p))" using dis r by simp
    show "set (remove1 h (ch p)) \<inter> set (ch q) = {}" if "q \<noteq> p" for q
      using lists_okD(3) [OF ok, of p q] that set_remove1_subset [of h "ch p"] by blast
    show "c_next (c2 a) = c_next (c a) \<and> c_prev (c2 a) = c_prev (c a)" if "q \<noteq> p" "a \<in> set (ch q)" for q a
    proof -
      have "a \<notin> set as" "a \<notin> set bs" using lists_okD(3) [OF ok, of p q] that s by auto
      then have "as \<noteq> [] \<longrightarrow> a \<noteq> last as" "bs \<noteq> [] \<longrightarrow> a \<noteq> hd bs" by auto
      then show ?thesis unfolding pts by auto
    qed
  qed (auto simp: pts)
  have "unlink_control p h c = Some (True, c2)"
  proof (cases "as = []")
    case True
    then show ?thesis
      using d s segs nz by (cases bs) (auto simp: unlink_control_def c2_def c1_def Let_def)
  next
    case False
    obtain x xs where as: "as = x # xs" using False by (cases as) auto
    have "takeWhile (\<lambda>y. y \<noteq> h) (xs @ h # bs) = xs" using s(2) as by (subst takeWhile_append2) auto
    then have f: "find_before c h (c_children (c p)) = Some (last as)"
      using find_before_dlist [of c 0 "c_children (c p)" x "xs @ h # bs" h] d s as by auto
    have l: "last as \<noteq> 0" "last as \<noteq> h" "c_children (c p) \<noteq> 0" "c_children (c p) \<noteq> h"
    proof -
      have "last as \<in> set as" using False by simp
      then show "last as \<noteq> 0" "last as \<noteq> h" using nz s(2) by (metis Un_iff set_append)+
      show "c_children (c p) \<noteq> 0" "c_children (c p) \<noteq> h" using dd as s(2) by auto
    qed
    show ?thesis
      using f l segs s nz dis by (cases bs) (auto simp: unlink_control_def c2_def c1_def Let_def set_next_def as)
  qed
  then show thesis using that ok2 True by simp
qed

datatype list_op = Link nat nat | Unlink nat nat

fun run_links :: "list_op list \<Rightarrow> ctls \<Rightarrow> (bool list \<times> ctls) option" where
  "run_links [] c = Some ([], c)"
| "run_links (Link p n # os) c = do {
     c \<leftarrow> link_control p n c;
     (bs, c) \<leftarrow> run_links os c;
     Some (True # bs, c) }"
| "run_links (Unlink p h # os) c = do {
     (b, c) \<leftarrow> unlink_control p h c;
     (bs, c) \<leftarrow> run_links os c;
     Some (b # bs, c) }"

text \<open>The same operations on lists, as the model of the desktop has them; a control is linked when it is in no list.\<close>

fun spec_links :: "list_op list \<Rightarrow> (nat \<Rightarrow> nat list) \<Rightarrow> bool list \<times> (nat \<Rightarrow> nat list)" where
  "spec_links [] ch = ([], ch)"
| "spec_links (Link p n # os) ch = apfst (Cons True) (spec_links os (ch(p := ch p @ [n])))"
| "spec_links (Unlink p h # os) ch = apfst (Cons (h \<in> set (ch p))) (spec_links os (ch(p := remove1 h (ch p))))"

fun linkable :: "list_op list \<Rightarrow> (nat \<Rightarrow> nat list) \<Rightarrow> bool" where
  "linkable [] ch \<longleftrightarrow> True"
| "linkable (Link p n # os) ch \<longleftrightarrow> n \<noteq> 0 \<and> (\<forall>q. n \<notin> set (ch q)) \<and> linkable os (ch(p := ch p @ [n]))"
| "linkable (Unlink p h # os) ch \<longleftrightarrow> linkable os (ch(p := remove1 h (ch p)))"

lemma run_links_ok:
  "lists_ok c ch \<Longrightarrow> linkable os ch \<Longrightarrow>
   \<exists>c'. run_links os c = Some (fst (spec_links os ch), c') \<and> lists_ok c' (snd (spec_links os ch))"
proof (induction os ch arbitrary: c rule: linkable.induct)
  case (2 p n os ch)
  then have n: "n \<noteq> 0" "\<And>q. n \<notin> set (ch q)" "linkable os (ch(p := ch p @ [n]))" by auto
  obtain c1 where c1: "link_control p n c = Some c1" "lists_ok c1 (ch(p := ch p @ [n]))"
    using link_control_ok [OF 2(2) n(1,2)] by blast
  from 2(1) [OF c1(2) n(3)] show ?case using c1(1) by (auto simp: fun_upd_def)
next
  case (3 p h os ch)
  obtain c1 where c1: "unlink_control p h c = Some (h \<in> set (ch p), c1)" "lists_ok c1 (ch(p := remove1 h (ch p)))"
    using unlink_control_ok [OF 3(2)] by blast
  have "linkable os (ch(p := remove1 h (ch p)))" using 3(3) by simp
  from 3(1) [OF c1(2) this] show ?case using c1(1) by (auto simp: fun_upd_def)
qed simp

subsection \<open>Properties\<close>

text \<open>A main window 1 with the controls 2 and 3, of which 3 holds 4.\<close>

definition blank :: control where
  "blank = \<lparr>c_data = TYPE_HWND, c_type = TYPE_CONTROL, c_win = zero_rect, c_client = zero_rect, c_style = WS_VISIBLE, c_exstyle = 0,
     c_id = 0, c_main = 1, c_parent = 0, c_children = 0, c_active = 0, c_under = 0, c_primitive = 0, c_next = 0, c_prev = 0, c_frozen = 0\<rparr>"

definition demo_ctls :: ctls where
  "demo_ctls = (\<lambda>_. blank)
     (1 := blank\<lparr>c_type := TYPE_MAINWIN, c_win := mk_rect 10 10 210 210, c_client := mk_rect 12 40 208 208, c_children := 2, c_active := 2\<rparr>,
      2 := blank\<lparr>c_win := mk_rect 0 0 50 20, c_client := mk_rect 1 1 49 19, c_parent := 1, c_next := 3,
           c_style := WS_VISIBLE OR WS_TABSTOP\<rparr>,
      3 := blank\<lparr>c_win := mk_rect 20 30 120 130, c_client := mk_rect 22 32 118 128, c_parent := 1, c_children := 4, c_prev := 2\<rparr>,
      4 := blank\<lparr>c_win := mk_rect 5 5 40 40, c_client := mk_rect 6 6 39 39, c_parent := 3\<rparr>)"

definition demo_wnds :: wnds where
  "demo_wnds = \<lparr>ctl = demo_ctls, inv = (\<lambda>_. \<lparr>rgn_type = NULLREGION, rcBound = zero_rect, rects = []\<rparr>), sent = []\<rparr>"

text \<open>C20.  The functions between the coordinates of a window and those of the screen return and undo each other at
  every depth of the tree.  \<open>ClientToScreen\<close> takes the origin of the client area to where drawing puts it
  (\<open>WndClientRect\<close>); \<open>WindowToScreen\<close> takes the corner of the window to where drawing puts it (\<open>WndRect\<close>) exactly when
  the frames of all its parents have no width: it adds the corners of their windows where it should add those
  of their client areas.\<close>

theorem coordinates_convert:
  assumes "is_normal c h" "parents_chain c h ps"
  shows "(\<exists>q. ClientToScreen c h p = Some q \<and> ScreenToClient c h q = Some p)
    \<and> (\<exists>q. WindowToScreen c h p = Some q \<and> ScreenToWindow c h q = Some p)
    \<and> (\<exists>r. WndClientRect scr c h = Some r \<and> ClientToScreen c h (0, 0) = Some (rleft r, rtop r))
    \<and> (\<exists>r. WndRect scr c h = Some r \<and> (WindowToScreen c h (0, 0) = Some (rleft r, rtop r)
         \<longleftrightarrow> (\<Sum>q\<leftarrow>ps. rleft (c_win (c q))) = (\<Sum>q\<leftarrow>ps. rleft (c_client (c q)))
           \<and> (\<Sum>q\<leftarrow>ps. rtop (c_win (c q))) = (\<Sum>q\<leftarrow>ps. rtop (c_client (c q)))))"
  using assms
  by (cases p, simp add: is_normal_def ClientToScreen_def ScreenToClient_def WindowToScreen_def ScreenToWindow_def WndClientRect_def WndRect_def
        parents_loop_chain rect_loop_chain fold_client fold_window fold_offset_sum)
     (simp add: plus_client_def minus_client_def plus_window_def minus_window_def OffsetRect_def off_x_def off_y_def)

theorem coordinates_convert_witness:
  "is_normal demo_ctls 4 \<and> parents_chain demo_ctls 4 [3, 1]
   \<and> (\<exists>q. ClientToScreen demo_ctls 4 (2, 3) = Some q \<and> ScreenToClient demo_ctls 4 q = Some (2, 3))"
  using coordinates_convert [of demo_ctls 4 "[3, 1]" "(2, 3)"]
  by (simp add: demo_ctls_def blank_def is_normal_def)

text \<open>C17.  \<open>SetFocusChild\<close> returns for every control inside a main window.  Afterwards the active child of each
  window above it is the one on the way to it, every window that loses the focus is told so before the one that
  gets it, nothing else changes, and a key handed to the main window by the default procedures goes down
  this way, if no window on it is disabled, to the control.\<close>

theorem focus_reaches_control:
  assumes "in_main (ctl w) h ps"
  shows "\<exists>w'. SetFocusChild h w = Some (h, w')
    \<and> ctl w' = (\<lambda>x. if x \<in> set ps then (ctl w x)\<lparr>c_active := child_on h ps x\<rparr> else ctl w x)
    \<and> sent w' = sent w @ focus_events (ctl w) h ps \<and> inv w' = inv w
    \<and> (c_active (ctl w h) = 0 \<and> (\<forall>p \<in> set ps. \<not> c_disabled (ctl w p))
         \<longrightarrow> key_path (ctl w') (last ps) = Some (rev ps @ [h]))"
proof -
  let ?w = "focus_all h ps w"
  have parents_chain: "parents_chain (ctl w) h ps" "ps \<noteq> []" "\<forall>x \<in> set (h # ps). x \<noteq> 0"
    using assms by (auto simp: in_main_def is_normal_def)
  note dist = parents_chain_distinct [OF parents_chain(1)]
  have c: "ctl ?w = (\<lambda>x. if x \<in> set ps then (ctl w x)\<lparr>c_active := child_on h ps x\<rparr> else ctl w x)"
    using focus_all_ctl dist by simp
  have k: "key_path (ctl ?w) (last ps) = Some (rev ps @ [h])"
    if "c_active (ctl w h) = 0" "\<forall>p \<in> set ps. \<not> c_disabled (ctl w p)"
  proof -
    have "key_path (ctl ?w) h = Some [h]"
      using that(1) dist by (subst key_path.simps) (simp add: DefaultKeyMsgHandler_def c)
    moreover have "key_path (ctl ?w) (last ps) = map_option (\<lambda>hs. rev ps @ hs) (key_path (ctl ?w) h)"
      using that parents_chain dist by (intro key_path_focused) (auto simp: c c_disabled_def dest: in_set_butlastD)
    ultimately show ?thesis by simp
  qed
  show ?thesis
    using SetFocusChild_all [OF assms] c k focus_all_sent [of ps h w] focus_all_inv [of h ps w] dist by auto
qed

theorem focus_reaches_control_witness:
  "in_main (ctl demo_wnds) 4 [3, 1] \<and> (\<exists>w'. SetFocusChild 4 demo_wnds = Some (4, w')
     \<and> sent w' = [Notify_SETFOCUS 4 0, Notify_KILLFOCUS 2 3, Notify_SETFOCUS 3 2] \<and> key_path (ctl w') 1 = Some [1, 3, 4])"
proof -
  have "in_main (ctl demo_wnds) 4 [3, 1]" "c_active (ctl demo_wnds 4) = 0" "\<forall>p \<in> set [3, 1]. \<not> c_disabled (ctl demo_wnds p)"
    "focus_events (ctl demo_wnds) 4 [3, 1] = [Notify_SETFOCUS 4 0, Notify_KILLFOCUS 2 3, Notify_SETFOCUS 3 2]" "sent demo_wnds = []"
    by (simp_all add: in_main_def demo_wnds_def demo_ctls_def blank_def is_normal_def c_disabled_def WS_VISIBLE_def WS_DISABLED_def)
  then show ?thesis using focus_reaches_control [of demo_wnds 4 "[3, 1]"] by auto
qed

text \<open>C19.  The tab key visits, from a control, the other controls that take it in the order of the list of children, then from
  the first on, and backwards with the shift key; without a control it starts at the first or the last, and
  it stays when no other control takes it.\<close>

theorem tab_order:
  assumes "dlist c 0 (c_children (c d)) xs" "xs = as @ h # bs"
  shows "GetNextDlgTabItem c d h False = Some (next_in (\<lambda>x. tab_stop (c x)) (bs @ as) h)
    \<and> GetNextDlgTabItem c d h True = Some (next_in (\<lambda>x. tab_stop (c x)) (rev as @ rev bs) h)
    \<and> GetNextDlgTabItem c d 0 False = Some (next_in (\<lambda>x. tab_stop (c x)) xs 0)
    \<and> GetNextDlgTabItem c d 0 True = Some (next_in (\<lambda>x. tab_stop (c x)) (rev xs) 0)"
  using assms tab_forward tab_backward tab_first [of c d xs False] tab_first [of c d xs True] by auto

theorem tab_order_witness:
  "dlist demo_ctls 0 (c_children (demo_ctls 1)) [2, 3] \<and> GetNextDlgTabItem demo_ctls 1 3 False = Some 2"
proof -
  have l: "dlist demo_ctls 0 (c_children (demo_ctls 1)) [2, 3]" by (simp add: demo_ctls_def blank_def)
  have "tab_stop (demo_ctls 2)"
    by (simp add: demo_ctls_def tab_stop_def can_focus_def c_visible_def c_disabled_def WS_VISIBLE_def WS_TABSTOP_def WS_DISABLED_def)
  then have "next_in (\<lambda>x. tab_stop (demo_ctls x)) [2] 3 = 2" by (simp add: next_in_def)
  then show ?thesis using l tab_order [OF l, of "[2]" 3 "[]"] by simp
qed

text \<open>C18.  The pointers that are written when controls are created and destroyed refine lists: over any sequence, the loops
  return, the answers are those of the lists, and the pointers of every window are again those of its list, both ways.\<close>

theorem control_lists_refine:
  assumes "lists_ok c ch" "linkable os ch"
  shows "\<exists>c'. run_links os c = Some (fst (spec_links os ch), c') \<and> lists_ok c' (snd (spec_links os ch))"
  using assms by (rule run_links_ok)

theorem control_lists_refine_witness:
  "lists_ok (\<lambda>_. blank) (\<lambda>_. []) \<and> linkable [Link 1 2, Link 1 3, Link 3 4, Unlink 1 2, Unlink 1 4] (\<lambda>_. [])
   \<and> (\<exists>c'. run_links [Link 1 2, Link 1 3, Link 3 4, Unlink 1 2, Unlink 1 4] (\<lambda>_. blank) = Some ([True, True, True, True, False], c'))"
proof -
  have "lists_ok (\<lambda>_. blank) (\<lambda>_. [])" by (simp add: lists_ok_def) (simp add: blank_def)
  moreover have "linkable [Link 1 2, Link 1 3, Link 3 4, Unlink 1 2, Unlink 1 4] (\<lambda>_. [])" by auto
  ultimately show ?thesis
    using control_lists_refine [of "\<lambda>_. blank" "\<lambda>_. []" "[Link 1 2, Link 1 3, Link 3 4, Unlink 1 2, Unlink 1 4]"] by auto
qed

end
