(* ===== verification/Win_Inval.thy ===== *)
theory Win_Inval
  imports Win_Tree_Props
begin

section \<open>Windows: the invalid regions (src/gui/window.c)\<close>

text \<open>
  What a window still has to paint is its invalid region, in the coordinates of its client area; region
  \<open>Heap h\<close> of \<open>inv\<close> is that of window \<open>h\<close>.  Invalidating a rectangle of a window invalidates it in the window and in the
  controls over it, at every depth.  The invalid points of a window are those inside its client area:
  painting is clipped to it.
\<close>

definition WS_EX_TRANSPARENT :: style where "WS_EX_TRANSPARENT = 0x00000020"

subsection \<open>Operations\<close>

definition set_inv :: "rgn_store \<Rightarrow> wnds \<Rightarrow> wnds" where
  "set_inv st w = w\<lparr>inv := st\<rparr>"

definition wndUpdateInvalidRegion :: "nat \<Rightarrow> rect option \<Rightarrow> rect \<Rightarrow> wnds \<Rightarrow> wnds" where
  "wndUpdateInvalidRegion h prc prcClient w =
     (if c_type (ctl w h) \<noteq> TYPE_MAINWIN \<and> c_type (ctl w h) \<noteq> TYPE_CONTROL then w
      else if c_frozen (ctl w h) \<noteq> 0 then w
      else case prc of
          Some prc \<Rightarrow>
            let rcTemp = NormalizeRect prc in
            if IsCovered prcClient rcTemp then set_inv (snd (SetClipRgn True (inv w) (Heap h) prcClient)) w
            else let (ok, rcInter) = IntersectRect rcTemp prcClient
                 in if ok then set_inv (snd (AddClipRect (inv w) (Heap h) rcInter)) w else w
        | None \<Rightarrow> set_inv (snd (SetClipRgn True (inv w) (Heap h) prcClient)) w)"

text \<open>The work on one control in the loop of \<open>wndCascadeInvalidateChildren\<close>, and the rectangle for its children.\<close>

definition invalidate_child :: "nat \<Rightarrow> rect option \<Rightarrow> wnds \<Rightarrow> wnds" where
  "invalidate_child h prc w =
     (let k = ctl w h; rcCtrlClient = GetClientRect k in
      case prc of
        Some r \<Rightarrow>
          let rcCtrl = mk_rect 0 0 (rright (c_win k) - rleft (c_win k)) (rbottom (c_win k) - rtop (c_win k));
              (ok, rcInter) = IntersectRect (OffsetRect r (- rleft (c_win k)) (- rtop (c_win k))) rcCtrl;
              w = (if ok then send [Send_NCPAINT h (Some rcInter)] w else w);
              (ok, rcInter) = IntersectRect (OffsetRect r (- rleft (c_client k)) (- rtop (c_client k))) rcCtrlClient
          in if ok then send [Send_ERASEBKGND h (Some rcInter)] (wndUpdateInvalidRegion h (Some rcInter) rcCtrlClient w)
             else w
      | None \<Rightarrow>
          let w = send [Send_NCPAINT h None] w;
              w = wndUpdateInvalidRegion h None rcCtrlClient w
          in send [Send_ERASEBKGND h None] w)"

definition child_rect :: "control \<Rightarrow> rect option \<Rightarrow> rect option" where
  "child_rect k prc = map_option (\<lambda>r. OffsetRect r (- rleft (c_client k)) (- rtop (c_client k))) prc"

definition skipped :: "control \<Rightarrow> bool" where
  "skipped k \<longleftrightarrow> \<not> c_visible k \<or> c_exstyle k AND WS_EX_CTRLASMAINWIN \<noteq> 0"

partial_function (option) wndCascadeInvalidateChildren :: "nat \<Rightarrow> rect option \<Rightarrow> wnds \<Rightarrow> wnds option" where
  "wndCascadeInvalidateChildren p prc w =
     (if p = 0 then Some w
      else
        let k = ctl w p in
        if skipped k then wndCascadeInvalidateChildren (c_next k) prc w
        else do {
          let w = invalidate_child p prc w;
          w \<leftarrow> (if c_children k \<noteq> 0 then wndCascadeInvalidateChildren (c_children k) (child_rect k prc) w else Some w);
          wndCascadeInvalidateChildren (c_next k) prc w
        })"

text \<open>\<open>wndInvalidateRect\<close>: the work on a main window and on a control differs in the order and in the rectangle they erase.\<close>

definition invalidate_main :: "nat \<Rightarrow> rect option \<Rightarrow> bool \<Rightarrow> wnds \<Rightarrow> wnds option" where
  "invalidate_main h prc bErase w =
     (let rcClient = GetClientRect (ctl w h);
          rcInvalid = (case prc of Some r \<Rightarrow> NormalizeRect r | None \<Rightarrow> rcClient);
          w = wndUpdateInvalidRegion h prc rcClient w
      in if bErase then do {
           (l, t) \<leftarrow> ClientToScreen (ctl w) h (rleft rcInvalid, rtop rcInvalid);
           (r, b) \<leftarrow> ClientToScreen (ctl w) h (rright rcInvalid, rbottom rcInvalid);
           Some (send [Send_ERASEBKGND h (Some (mk_rect l t r b))] w)
         } else Some w)"

definition invalidate_control :: "nat \<Rightarrow> rect option \<Rightarrow> bool \<Rightarrow> wnds \<Rightarrow> wnds" where
  "invalidate_control h prc bErase w =
     (let rcClient = GetClientRect (ctl w h);
          w = (if bErase
               then (case prc of
                       Some r \<Rightarrow> let (ok, rcInter) = IntersectRect r rcClient
                                 in if ok then send [Send_ERASEBKGND h (Some rcInter)] w else w
                     | None \<Rightarrow> send [Send_ERASEBKGND h None] w)
               else w)
      in wndUpdateInvalidRegion h prc rcClient w)"

definition wndInvalidateRect :: "nat \<Rightarrow> rect option \<Rightarrow> bool \<Rightarrow> wnds \<Rightarrow> (bool \<times> wnds) option" where
  "wndInvalidateRect h prc bErase w =
     (if c_type (ctl w h) \<noteq> TYPE_MAINWIN \<and> c_type (ctl w h) \<noteq> TYPE_CONTROL then Some (False, w)
      else if c_type (ctl w h) = TYPE_MAINWIN \<and> c_frozen (ctl w h) \<noteq> 0 then Some (False, w)
      else do {
        w \<leftarrow> (if c_type (ctl w h) = TYPE_MAINWIN then invalidate_main h prc bErase w
              else Some (invalidate_control h prc bErase w));
        w \<leftarrow> (if c_children (ctl w h) \<noteq> 0 then wndCascadeInvalidateChildren (c_children (ctl w h)) prc w else Some w);
        Some (True, w)
      })"

definition InvalidateRect :: "nat \<Rightarrow> rect option \<Rightarrow> bool \<Rightarrow> wnds \<Rightarrow> (bool \<times> wnds) option" where
  "InvalidateRect h prc bErase w =
     (if \<not> is_normal (ctl w) h then Some (False, w)
      else
        let k = ctl w h;
            transparent = (c_type k = TYPE_CONTROL \<and> c_exstyle k AND WS_EX_TRANSPARENT \<noteq> 0);
            inParent = (case prc of
                Some r \<Rightarrow> IntersectRect (c_client k) (OffsetRect r (rleft (c_client k)) (rtop (c_client k)))
              | None \<Rightarrow> (True, c_client k))
        in if transparent \<and> \<not> fst inParent then Some (False, w)
           else do {
             let h = (if transparent then c_parent k else h);
             (ret, w) \<leftarrow> wndInvalidateRect h (if transparent then Some (snd inParent) else prc) (transparent \<or> bErase) w;
             Some (ret, send [Post_PAINT h] w)
           })"

definition GetUpdateRect :: "nat \<Rightarrow> wnds \<Rightarrow> rect option" where
  "GetUpdateRect h w = (if is_normal (ctl w) h then Some (rcBound (inv w (Heap h))) else None)"

subsection \<open>Invalid points\<close>

definition client_pts :: "control \<Rightarrow> point set" where
  "client_pts k = rect_pts (GetClientRect k)"

definition inv_pts :: "wnds \<Rightarrow> nat \<Rightarrow> point set" where
  "inv_pts w h = rgn_pts (inv w (Heap h)) \<inter> client_pts (ctl w h)"

text \<open>Regions are well formed and the sides of the client areas are in order; \<open>area\<close> is what a rectangle asks for.\<close>

definition inv_ok :: "wnds \<Rightarrow> bool" where
  "inv_ok w \<longleftrightarrow> heap_ok (inv w) \<and> (\<forall>h. rect_norm (c_client (ctl w h)))"

definition area :: "rect option \<Rightarrow> point set" where
  "area prc = (case prc of None \<Rightarrow> UNIV | Some r \<Rightarrow> rect_pts r)"

lemma client_norm: "rect_norm (c_client k) \<Longrightarrow> rect_norm (GetClientRect k)"
  by (simp add: rect_norm_def GetClientRect_def)

lemma NormalizeRect_norm: "rect_norm (NormalizeRect r)"
  by (auto simp: rect_norm_def NormalizeRect_ordered)

text \<open>\<open>adds w w' h P\<close>: the points \<open>P\<close> become invalid in \<open>h\<close>, and no other window changes.\<close>

definition adds :: "wnds \<Rightarrow> wnds \<Rightarrow> (nat \<Rightarrow> point set) \<Rightarrow> bool" where
  "adds w w' P \<longleftrightarrow> ctl w' = ctl w \<and> inv_ok w' \<and> (\<forall>h. inv_pts w' h = inv_pts w h \<union> (P h \<inter> client_pts (ctl w h)))"

lemma adds_none: "inv_ok w \<Longrightarrow> (\<And>h. P h \<inter> client_pts (ctl w h) = {}) \<Longrightarrow> adds w w P"
  by (simp add: adds_def)

lemma adds_trans: "adds w v P \<Longrightarrow> adds v u Q \<Longrightarrow> adds w u (\<lambda>h. P h \<union> Q h)"
  by (auto simp: adds_def)

lemma adds_mono: "adds w v P \<Longrightarrow> (\<And>h. P h \<inter> client_pts (ctl w h) = Q h \<inter> client_pts (ctl w h)) \<Longrightarrow> adds w v Q"
  by (simp add: adds_def)

lemma send_simps [simp]: "ctl (send es w) = ctl w" "inv (send es w) = inv w" "inv_ok (send es w) = inv_ok w"
  "inv_pts (send es w) = inv_pts w"
  by (simp_all add: send_def inv_ok_def inv_pts_def fun_eq_iff)

lemma adds_send [simp]: "adds w (send es v) P = adds w v P" "adds (send es w) v P = adds w v P"
  by (simp_all add: adds_def)

lemma adds_writes:
  assumes "inv_ok w" "writes (inv w) st h Q" "Q \<inter> client_pts (ctl w h) = inv_pts w h \<union> (P \<inter> client_pts (ctl w h))"
  shows "adds w (set_inv st w) ((\<lambda>_. {})(h := P))"
proof -
  have "rgn_ok (st (Heap m))" for m
    using assms(1,2) by (cases "m = h") (auto simp: inv_ok_def heap_ok_def writes_def)
  then show ?thesis
    using assms by (auto simp: adds_def set_inv_def inv_ok_def heap_ok_def inv_pts_def writes_def)
qed

lemma wndUpdateInvalidRegion_adds:
  assumes ok: "inv_ok w" and t: "c_type (ctl w h) = TYPE_MAINWIN \<or> c_type (ctl w h) = TYPE_CONTROL"
  shows "adds w (wndUpdateInvalidRegion h prc (GetClientRect (ctl w h)) w)
    ((\<lambda>_. {})(h := (if c_frozen (ctl w h) = 0 then area (map_option NormalizeRect prc) else {})))"
proof (cases "c_frozen (ctl w h) = 0")
  case False
  then show ?thesis using ok adds_none by (simp add: wndUpdateInvalidRegion_def)
next
  case True
  let ?c = "GetClientRect (ctl w h)"
  have n: "rect_norm ?c" "rgn_ok (inv w (Heap h))" using ok client_norm by (auto simp: inv_ok_def heap_ok_def)
  note set = adds_writes [OF ok SetClipRgn_writes [of "inv w" h, OF n(2,1)]]
  have whole: "adds w (set_inv (snd (SetClipRgn True (inv w) (Heap h) ?c)) w) ((\<lambda>_. {})(h := P))" if "rect_pts ?c \<subseteq> P" for P
    using that by (intro set) (auto simp: inv_pts_def client_pts_def)
  show ?thesis
  proof (cases prc)
    case None
    then show ?thesis using t True whole [of UNIV] by (auto simp: wndUpdateInvalidRegion_def area_def)
  next
    case (Some r)
    let ?r = "NormalizeRect r" and ?i = "snd (IntersectRect (NormalizeRect r) ?c)"
    have pts: "rect_pts ?i = rect_pts ?r \<inter> rect_pts ?c" by (simp add: rect_sets)
    show ?thesis
    proof (cases "IsCovered ?c ?r")
      case cov: True
      then have sub: "rect_pts ?c \<subseteq> rect_pts ?r" by (auto simp: IsCovered_def split: if_splits)
      then show ?thesis
        using t True Some cov whole [of "rect_pts ?r"] by (auto simp: wndUpdateInvalidRegion_def area_def)
    next
      case ncov: False
      show ?thesis
      proof (cases "fst (IntersectRect ?r ?c)")
        case i: True
        then have "rect_norm ?i" by (auto simp: fst_IntersectRect rect_ok_def rect_norm_def)
        note w = AddClipRect_writes [of "inv w" h, OF n(2) this]
        show ?thesis
          using t True Some ncov i adds_writes [OF ok w, of "rect_pts ?r"] pts
          by (auto simp: wndUpdateInvalidRegion_def inv_pts_def client_pts_def area_def case_prod_beta)
      next
        case i: False
        then have "rect_pts ?r \<inter> rect_pts ?c = {}"
          using pts fst_IntersectRect [of ?r ?c] rect_pts_empty [of ?i] by auto
        then show ?thesis
          using t True Some ncov i adds_none [OF ok]
          by (auto simp: wndUpdateInvalidRegion_def client_pts_def area_def case_prod_beta)
      qed
    qed
  qed
qed

lemma OffsetRect_point: "(x, y) \<in> rect_pts (OffsetRect r (- a) (- b)) \<longleftrightarrow> (x + a, y + b) \<in> rect_pts r"
  by (auto simp: OffsetRect_def)

lemma area_child_rect: "(x, y) \<in> area (child_rect k prc) \<longleftrightarrow> (x + rleft (c_client k), y + rtop (c_client k)) \<in> area prc"
  by (auto simp: area_def child_rect_def OffsetRect_def split: option.splits)

lemma invalidate_child_adds:
  assumes ok: "inv_ok w" and t: "c_type (ctl w h) = TYPE_CONTROL"
  shows "adds w (invalidate_child h prc w)
    ((\<lambda>_. {})(h := (if c_frozen (ctl w h) = 0 then area (child_rect (ctl w h) prc) else {})))"
proof (cases prc)
  case None
  then show ?thesis
    using wndUpdateInvalidRegion_adds [of "send [Send_NCPAINT h None] w" h None] ok t
    by (simp add: invalidate_child_def child_rect_def Let_def split: if_splits)
next
  case (Some r)
  let ?k = "ctl w h"
  let ?o = "OffsetRect r (- rleft (c_client ?k)) (- rtop (c_client ?k))"
  let ?i = "IntersectRect ?o (GetClientRect ?k)"
  have pts: "rect_pts (snd ?i) = rect_pts ?o \<inter> client_pts ?k" by (simp add: rect_sets client_pts_def)
  have a: "area (child_rect ?k prc) = rect_pts ?o" by (simp add: Some area_def child_rect_def)
  let ?n = "IntersectRect (OffsetRect r (- rleft (c_win ?k)) (- rtop (c_win ?k)))
    (mk_rect 0 0 (rright (c_win ?k) - rleft (c_win ?k)) (rbottom (c_win ?k) - rtop (c_win ?k)))"
  define w1 where "w1 = (if fst ?n then send [Send_NCPAINT h (Some (snd ?n))] w else w)"
  have w1: "invalidate_child h prc w =
      (if fst ?i then send [Send_ERASEBKGND h (Some (snd ?i))] (wndUpdateInvalidRegion h (Some (snd ?i)) (GetClientRect ?k) w1) else w1)"
    by (simp add: invalidate_child_def Some Let_def case_prod_beta w1_def)
  have same: "ctl w1 = ctl w" "inv_ok w1" "\<And>v P. adds w1 v P = adds w v P" "adds w w1 (\<lambda>_. {})"
    using ok adds_none [OF ok, of "\<lambda>_. {}"] by (simp_all add: w1_def)
  show ?thesis
  proof (cases "fst ?i")
    case True
    then have "NormalizeRect (snd ?i) = snd ?i" by (simp add: fst_IntersectRect NormalizeRect_ok)
    then have "adds w (wndUpdateInvalidRegion h (Some (snd ?i)) (GetClientRect ?k) w1)
        ((\<lambda>_. {})(h := (if c_frozen ?k = 0 then rect_pts (snd ?i) else {})))"
      using wndUpdateInvalidRegion_adds [OF same(2), of h "Some (snd ?i)"] t
      by (cases "c_frozen ?k = 0") (simp_all add: same area_def)
    then have "adds w (wndUpdateInvalidRegion h (Some (snd ?i)) (GetClientRect ?k) w1)
        ((\<lambda>_. {})(h := (if c_frozen ?k = 0 then area (child_rect ?k prc) else {})))"
      by (rule adds_mono) (auto simp: pts a)
    then show ?thesis using True w1 by simp
  next
    case False
    then have d: "rect_pts ?o \<inter> client_pts ?k = {}" using pts fst_IntersectRect rect_pts_empty by metis
    have "adds w w1 ((\<lambda>_. {})(h := (if c_frozen ?k = 0 then area (child_rect ?k prc) else {})))"
      by (rule adds_mono [OF same(4)]) (use d in \<open>auto simp: a\<close>)
    then show ?thesis using False w1 by simp
  qed
qed

subsection \<open>The tree of controls\<close>

datatype ctree = Node nat "ctree list"

fun forest :: "ctls \<Rightarrow> nat \<Rightarrow> ctree list \<Rightarrow> bool" where
  "forest c p [] \<longleftrightarrow> p = 0"
| "forest c p (Node a us # ts) \<longleftrightarrow> p = a \<and> a \<noteq> 0 \<and> c_type (c a) = TYPE_CONTROL
     \<and> forest c (c_children (c a)) us \<and> forest c (c_next (c a)) ts"

lemma forest_null [simp]: "forest c 0 ts \<longleftrightarrow> ts = []"
  by (cases "(c, 0 :: nat, ts)" rule: forest.cases) auto

text \<open>The controls that can be seen over a client area, at every depth, with the origin of their client areas in it.\<close>

fun reached :: "ctls \<Rightarrow> ctree list \<Rightarrow> (nat \<times> int \<times> int) list" where
  "reached c [] = []"
| "reached c (Node a us # ts) =
     (let l = rleft (c_client (c a)); t = rtop (c_client (c a)) in
      (if skipped (c a) then [] else (a, l, t) # map (\<lambda>(h, x, y). (h, x + l, y + t)) (reached c us)) @ reached c ts)"

definition under :: "ctls \<Rightarrow> ctree list \<Rightarrow> point set \<Rightarrow> nat \<Rightarrow> point set" where
  "under c ts A h = {(x, y). c_frozen (c h) = 0 \<and> (\<exists>l t. (h, l, t) \<in> set (reached c ts) \<and> (x + l, y + t) \<in> A)}"

lemma under_Nil [simp]: "under c [] A h = {}"
  by (simp add: under_def)

lemma reached_Cons:
  "(h, x, y) \<in> set (reached c (Node a us # ts)) \<longleftrightarrow>
     (\<not> skipped (c a) \<and> (h = a \<and> x = rleft (c_client (c a)) \<and> y = rtop (c_client (c a))
        \<or> (h, x - rleft (c_client (c a)), y - rtop (c_client (c a))) \<in> set (reached c us)))
     \<or> (h, x, y) \<in> set (reached c ts)"
  by (force simp: Let_def image_iff)

lemma under_Cons:
  "under c (Node a us # ts) (area prc) h =
     (if skipped (c a) then {} else ((\<lambda>_. {})(a := (if c_frozen (c a) = 0 then area (child_rect (c a) prc) else {}))) h
        \<union> under c us (area (child_rect (c a) prc)) h) \<union> under c ts (area prc) h"
proof -
  let ?l = "rleft (c_client (c a))" and ?t = "rtop (c_client (c a))"
  have "(\<exists>l t. (h, l - ?l, t - ?t) \<in> R \<and> (x + l, y + t) \<in> area prc)
      \<longleftrightarrow> (\<exists>l t. (h, l, t) \<in> R \<and> (x + l, y + t) \<in> area (child_rect (c a) prc))" for R and x y :: int
  proof
    assume "\<exists>l t. (h, l - ?l, t - ?t) \<in> R \<and> (x + l, y + t) \<in> area prc"
    then obtain l t where "(h, l - ?l, t - ?t) \<in> R" "(x + l, y + t) \<in> area prc" by blast
    then show "\<exists>l t. (h, l, t) \<in> R \<and> (x + l, y + t) \<in> area (child_rect (c a) prc)"
      by (intro exI [of _ "l - ?l"] exI [of _ "t - ?t"]) (simp add: area_child_rect)
  next
    assume "\<exists>l t. (h, l, t) \<in> R \<and> (x + l, y + t) \<in> area (child_rect (c a) prc)"
    then obtain l t where "(h, l, t) \<in> R" "(x + l, y + t) \<in> area (child_rect (c a) prc)" by blast
    then show "\<exists>l t. (h, l - ?l, t - ?t) \<in> R \<and> (x + l, y + t) \<in> area prc"
      by (intro exI [of _ "l + ?l"] exI [of _ "t + ?t"]) (simp add: area_child_rect add.assoc)
  qed
  then show ?thesis
    unfolding under_def reached_Cons by (auto simp: area_child_rect conj_disj_distribR ex_disj_distrib)
qed

lemma wndCascadeInvalidateChildren_adds:
  "forest c p ts \<Longrightarrow> ctl w = c \<Longrightarrow> inv_ok w \<Longrightarrow>
   \<exists>w'. wndCascadeInvalidateChildren p prc w = Some w' \<and> adds w w' (under c ts (area prc))"
proof (induction c ts arbitrary: p prc w rule: reached.induct)
  case 1
  then show ?case by (subst wndCascadeInvalidateChildren.simps) (simp add: adds_none)
next
  case (2 c a us ts)
  then have f: "p = a" "a \<noteq> 0" "c_type (c a) = TYPE_CONTROL" "forest c (c_children (c a)) us"
    "forest c (c_next (c a)) ts" by auto
  have next': "\<exists>u. wndCascadeInvalidateChildren (c_next (c a)) prc v = Some u \<and> adds v u (under c ts (area prc))"
    if "ctl v = c" "inv_ok v" for v
    using 2(2) [OF refl refl f(5) that] .
  show ?case
  proof (cases "skipped (c a)")
    case True
    obtain u where "wndCascadeInvalidateChildren (c_next (c a)) prc w = Some u" "adds w u (under c ts (area prc))"
      using next' [of w] 2 by blast
    moreover have "under c (Node a us # ts) (area prc) = under c ts (area prc)"
      using True by (intro ext) (simp add: under_Cons)
    moreover have "wndCascadeInvalidateChildren p prc w = wndCascadeInvalidateChildren (c_next (c a)) prc w"
      using True f 2(4) by (subst wndCascadeInvalidateChildren.simps) (simp add: Let_def)
    ultimately show ?thesis by simp
  next
    case False
    define w1 where "w1 = invalidate_child a prc w"
    have a1: "adds w w1 ((\<lambda>_. {})(a := (if c_frozen (c a) = 0 then area (child_rect (c a) prc) else {})))"
      using invalidate_child_adds [OF 2(5), of a prc] f(3) unfolding w1_def 2(4) by blast
    then have w1: "ctl w1 = c" "inv_ok w1" using 2 by (simp_all add: adds_def)
    obtain w2 where w2: "(if c_children (c a) \<noteq> 0 then wndCascadeInvalidateChildren (c_children (c a)) (child_rect (c a) prc) w1 else Some w1) = Some w2"
      "adds w1 w2 (under c us (area (child_rect (c a) prc)))"
    proof (cases "c_children (c a) = 0")
      case True
      then have "us = []" using f(4) by simp
      then show thesis using that [of w1] True w1 by (simp add: adds_none)
    next
      case z: False
      then show thesis using that 2(1) [OF refl refl False f(4) w1] by auto
    qed
    then have "ctl w2 = c" "inv_ok w2" using w1 by (simp_all add: adds_def)
    from next' [OF this] obtain w3 where w3: "wndCascadeInvalidateChildren (c_next (c a)) prc w2 = Some w3"
      "adds w2 w3 (under c ts (area prc))" by blast
    have "adds w w3 (under c (Node a us # ts) (area prc))"
      by (rule adds_mono [OF adds_trans [OF adds_trans [OF a1 w2(2)] w3(2)]]) (simp add: under_Cons False)
    moreover have "wndCascadeInvalidateChildren p prc w = Some w3"
      using w2(1) w3(1) f False 2(4) by (subst wndCascadeInvalidateChildren.simps) (simp add: Let_def w1_def split: if_splits)
    ultimately show ?thesis by blast
  qed
qed

lemma wndInvalidateRect_adds:
  assumes ok: "inv_ok w" and t: "c_type (ctl w h) = TYPE_MAINWIN \<or> c_type (ctl w h) = TYPE_CONTROL"
    and fr: "c_type (ctl w h) = TYPE_MAINWIN \<longrightarrow> c_frozen (ctl w h) = 0"
    and tree: "forest (ctl w) (c_children (ctl w h)) us" and ch: "is_normal (ctl w) h" "parents_chain (ctl w) h ps"
  shows "\<exists>w'. wndInvalidateRect h prc e w = Some (True, w')
    \<and> adds w w' (\<lambda>a. (if a = h \<and> c_frozen (ctl w a) = 0 then area (map_option NormalizeRect prc) else {}) \<union> under (ctl w) us (area prc) a)"
proof -
  let ?P = "(\<lambda>_. {})(h := (if c_frozen (ctl w h) = 0 then area (map_option NormalizeRect prc) else {}))"
  let ?c = "GetClientRect (ctl w h)"
  have upd: "adds w (wndUpdateInvalidRegion h prc ?c v) ?P" if "v = w \<or> (\<exists>ev. v = send [ev] w)" for v
    using wndUpdateInvalidRegion_adds [of v h prc] ok t that by (cases "c_frozen (ctl w h) = 0") auto
  obtain w1 where w1: "(if c_type (ctl w h) = TYPE_MAINWIN then invalidate_main h prc e w else Some (invalidate_control h prc e w)) = Some w1"
    "adds w w1 ?P"
  proof (cases "c_type (ctl w h) = TYPE_MAINWIN")
    case True
    then show thesis
      using that upd [of w] ch
      by (cases e) (auto simp: invalidate_main_def ClientToScreen_def parents_loop_chain fold_client Let_def wndUpdateInvalidRegion_def
            adds_def split: prod.splits)
  next
    case False
    have "\<exists>v. invalidate_control h prc e w = wndUpdateInvalidRegion h prc ?c v \<and> (v = w \<or> (\<exists>ev. v = send [ev] w))"
      by (auto simp: invalidate_control_def Let_def case_prod_beta split: option.splits)
    then obtain v where v: "invalidate_control h prc e w = wndUpdateInvalidRegion h prc ?c v" "v = w \<or> (\<exists>ev. v = send [ev] w)"
      by blast
    from that [of "wndUpdateInvalidRegion h prc ?c v"] upd [OF v(2)] show thesis using False v(1) by simp
  qed
  then have c1: "ctl w1 = ctl w" "inv_ok w1" by (simp_all add: adds_def)
  obtain w2 where w2: "(if c_children (ctl w1 h) \<noteq> 0 then wndCascadeInvalidateChildren (c_children (ctl w1 h)) prc w1 else Some w1) = Some w2"
    "adds w1 w2 (under (ctl w) us (area prc))"
  proof (cases "c_children (ctl w h) = 0")
    case True
    then have "us = []" using tree by simp
    then show thesis using that [of w1] True c1 by (simp add: adds_none)
  next
    case False
    then show thesis using that wndCascadeInvalidateChildren_adds [OF tree c1] c1(1) by auto
  qed
  have "adds w w2 (\<lambda>a. (if a = h \<and> c_frozen (ctl w a) = 0 then area (map_option NormalizeRect prc) else {}) \<union> under (ctl w) us (area prc) a)"
    by (rule adds_mono [OF adds_trans [OF w1(2) w2(2)]]) auto
  moreover have "wndInvalidateRect h prc e w = Some (True, w2)"
    using w1(1) w2(1) t fr by (auto simp: wndInvalidateRect_def)
  ultimately show ?thesis by blast
qed

definition transparent :: "control \<Rightarrow> bool" where
  "transparent k \<longleftrightarrow> c_type k = TYPE_CONTROL \<and> c_exstyle k AND WS_EX_TRANSPARENT \<noteq> 0"

text \<open>A transparent control has its parent painted instead.\<close>

lemma InvalidateRect_transparent:
  assumes "is_normal (ctl w) h" "transparent (ctl w h)" "k = ctl w h"
  shows "InvalidateRect h None e w =
      map_option (apsnd (send [Post_PAINT (c_parent k)])) (wndInvalidateRect (c_parent k) (Some (c_client k)) True w)"
    "InvalidateRect h (Some r) e w =
      (let (ok, i) = IntersectRect (c_client k) (OffsetRect r (rleft (c_client k)) (rtop (c_client k))) in
       if ok then map_option (apsnd (send [Post_PAINT (c_parent k)])) (wndInvalidateRect (c_parent k) (Some i) True w)
       else Some (False, w))"
  using assms
  by (auto simp: InvalidateRect_def transparent_def Let_def case_prod_beta map_option_case apsnd_def split: option.splits bind_splits)

subsection \<open>Properties\<close>

text \<open>C16.  \<open>InvalidateRect\<close> returns on every tree.  A point of the client area of a window becomes invalid exactly when it lies
  under the rectangle: in the window itself, and in every control that is seen over it, however deep, through visible
  controls that are not windows of their own, unless that control is being painted; no other point changes, in any
  window.  The window itself takes the rectangle with its sides in order, the controls take it as it is, so they miss a rectangle
  given with its sides swapped.\<close>

theorem invalidation_reaches_exactly:
  assumes "is_normal (ctl w) h" "c_type (ctl w h) = TYPE_MAINWIN \<or> c_type (ctl w h) = TYPE_CONTROL" "\<not> transparent (ctl w h)"
    and "c_type (ctl w h) = TYPE_MAINWIN \<longrightarrow> c_frozen (ctl w h) = 0"
    and "forest (ctl w) (c_children (ctl w h)) us" "parents_chain (ctl w) h ps" "inv_ok w"
  shows "\<exists>w'. InvalidateRect h prc e w = Some (True, w') \<and> ctl w' = ctl w \<and> inv_ok w' \<and> last (sent w') = Post_PAINT h
    \<and> (\<forall>a. inv_pts w' a = inv_pts w a \<union> {(x, y). (x, y) \<in> client_pts (ctl w a) \<and> c_frozen (ctl w a) = 0
          \<and> (a = h \<and> (x, y) \<in> area (map_option NormalizeRect prc)
             \<or> (\<exists>l t. (a, l, t) \<in> set (reached (ctl w) us) \<and> (x + l, y + t) \<in> area prc))})"
proof -
  obtain w1 where w1: "wndInvalidateRect h prc e w = Some (True, w1)"
    "adds w w1 (\<lambda>a. (if a = h \<and> c_frozen (ctl w a) = 0 then area (map_option NormalizeRect prc) else {}) \<union> under (ctl w) us (area prc) a)"
    using wndInvalidateRect_adds [OF assms(7,2,4,5,1,6)] by blast
  have "InvalidateRect h prc e w = Some (True, send [Post_PAINT h] w1)"
    using assms(1,3) w1(1) by (auto simp: InvalidateRect_def transparent_def Let_def)
  moreover have "last (sent (send [Post_PAINT h] w1)) = Post_PAINT h" by (simp add: send_def)
  ultimately show ?thesis
    using w1(2) by (intro exI [of _ "send [Post_PAINT h] w1"]) (auto simp: adds_def under_def)
qed

theorem invalidation_reaches_exactly_witness:
  "forest (ctl demo_wnds) (c_children (ctl demo_wnds 1)) [Node 2 [], Node 3 [Node 4 []]] \<and> inv_ok demo_wnds
   \<and> (\<exists>w'. InvalidateRect 1 (Some (mk_rect 30 40 60 70)) True demo_wnds = Some (True, w') \<and> (2, 2) \<in> inv_pts w' 4)"
proof -
  let ?us = "[Node 2 [], Node 3 [Node 4 []]]" and ?c = "ctl demo_wnds"
  have f: "forest ?c (c_children (?c 1)) ?us"
    by (simp add: demo_wnds_def demo_ctls_def blank_def)
  have ok: "inv_ok demo_wnds"
    by (auto simp: demo_wnds_def demo_ctls_def blank_def inv_ok_def heap_ok_def rgn_ok_def is_extents_def banded_def rect_norm_def)
  have c: "is_normal ?c 1" "c_type (?c 1) = TYPE_MAINWIN" "c_frozen (?c 1) = 0" "c_frozen (?c 4) = 0" "parents_chain ?c 1 []" "\<not> transparent (?c 1)"
    by (simp_all add: demo_wnds_def demo_ctls_def blank_def is_normal_def transparent_def)
  have r: "(4, 28, 38) \<in> set (reached ?c ?us)" "(2, 2) \<in> client_pts (?c 4)" "(30, 40) \<in> area (Some (mk_rect 30 40 60 70))"
    by (simp_all add: demo_wnds_def demo_ctls_def blank_def skipped_def c_visible_def WS_VISIBLE_def WS_TABSTOP_def Let_def client_pts_def
        GetClientRect_def area_def)
  obtain w' where w': "InvalidateRect 1 (Some (mk_rect 30 40 60 70)) True demo_wnds = Some (True, w')"
    and all: "\<forall>a. inv_pts w' a = inv_pts demo_wnds a \<union> {(x, y). (x, y) \<in> client_pts (?c a) \<and> c_frozen (?c a) = 0
      \<and> (a = 1 \<and> (x, y) \<in> area (map_option NormalizeRect (Some (mk_rect 30 40 60 70)))
         \<or> (\<exists>l t. (a, l, t) \<in> set (reached ?c ?us) \<and> (x + l, y + t) \<in> area (Some (mk_rect 30 40 60 70))))}"
    using invalidation_reaches_exactly [OF c(1) disjI1 [OF c(2)] c(6) impI [OF c(3)] f c(5) ok] by blast
  have "\<exists>l t. (4, l, t) \<in> set (reached ?c ?us) \<and> (2 + l, 2 + t) \<in> area (Some (mk_rect 30 40 60 70))"
    using r by (intro exI [of _ 28] exI [of _ 38]) simp
  then have "(2, 2) \<in> inv_pts w' 4"
    using r(2) c(4) by (subst spec [OF all, of 4]) simp
  then show ?thesis using f ok w' by blast
qed

end
