(* ===== verification/Win_DC.thy ===== *)
theory Win_DC
  imports Win_Inval
begin

section \<open>Windows: device contexts and painting (src/newgdi/gdi.c, src/newgdi/clip.c, src/gui/window.c)\<close>

text \<open>
  Where a device context draws: its effective region, from the region the caller selected and the visible region of
  the window, and how painting uses it.  A region of a device context is a value here; an operation on
  it runs on a store that holds it, and a region it reads from elsewhere beside it.  Memory for regions is
  enough, as in the model of regions.
\<close>

definition WS_EX_CLIPCHILDREN :: style where "WS_EX_CLIPCHILDREN = 0x80000000"

subsection \<open>Regions as values\<close>

definition store2 :: "cliprgn \<Rightarrow> cliprgn \<Rightarrow> rgn_store" where
  "store2 a b = (\<lambda>_. b)(Heap 0 := a)"

definition empty_rgn :: "cliprgn \<Rightarrow> cliprgn" where "empty_rgn a = EmptyClipRgn (store2 a a) (Heap 0) (Heap 0)"
definition set_rgn :: "cliprgn \<Rightarrow> rect \<Rightarrow> cliprgn" where "set_rgn a r = snd (SetClipRgn True (store2 a a) (Heap 0) r) (Heap 0)"
definition copy_rgn :: "cliprgn \<Rightarrow> cliprgn \<Rightarrow> cliprgn" where "copy_rgn a b = snd (ClipRgnCopy (store2 a b) (Heap 0) (Heap 1)) (Heap 0)"
definition meet_rgn :: "cliprgn \<Rightarrow> cliprgn \<Rightarrow> cliprgn" where
  "meet_rgn a b = snd (ClipRgnIntersect (store2 a b) (Heap 0) (Heap 0) (Heap 1)) (Heap 0)"
definition add_rect :: "cliprgn \<Rightarrow> rect \<Rightarrow> cliprgn" where "add_rect a r = snd (AddClipRect (store2 a a) (Heap 0) r) (Heap 0)"
definition meet_rect :: "cliprgn \<Rightarrow> rect \<Rightarrow> cliprgn" where "meet_rect a r = snd (IntersectClipRect (store2 a a) (Heap 0) r) (Heap 0)"
definition sub_rect :: "cliprgn \<Rightarrow> rect \<Rightarrow> cliprgn" where "sub_rect a r = snd (SubtractClipRect (store2 a a) (Heap 0) r) (Heap 0)"
definition shift_rgn :: "cliprgn \<Rightarrow> int \<Rightarrow> int \<Rightarrow> cliprgn" where "shift_rgn a x y = OffsetRegion (store2 a a) (Heap 0) x y (Heap 0)"

subsection \<open>State\<close>

datatype dctype = TYPE_SCRDC | TYPE_GENDC | TYPE_MEMDC

record dc =
  DCType :: dctype
  d_hwnd :: nat
  lcrgn :: cliprgn
  ecrgn :: cliprgn
  bIsClient :: bool
  DevRC :: rect
  d_gcr :: nat
  oldage :: "32 word"

text \<open>What a device context reads: the windows, the screen, and the visible region and its age of each \<open>GCRINFO\<close>.\<close>

record screen =
  s_ctl :: ctls
  s_rcScr :: rect
  s_crgn :: "nat \<Rightarrow> cliprgn"
  s_age :: "nat \<Rightarrow> 32 word"

definition Control :: "ctls \<Rightarrow> nat \<Rightarrow> bool" where
  "Control c h \<longleftrightarrow> h \<noteq> 0 \<and> c_type (c h) = TYPE_CONTROL"

definition coor_DP2SP :: "dc \<Rightarrow> int \<times> int \<Rightarrow> int \<times> int" where
  "coor_DP2SP d = (\<lambda>(x, y). if DCType d \<noteq> TYPE_GENDC then (x, y) else (x + rleft (DevRC d), y + rtop (DevRC d)))"

definition coor_SP2DP :: "dc \<Rightarrow> int \<times> int \<Rightarrow> int \<times> int" where
  "coor_SP2DP d = (\<lambda>(x, y). if DCType d \<noteq> TYPE_GENDC then (x, y) else (x - rleft (DevRC d), y - rtop (DevRC d)))"

definition rect_DP2SP :: "dc \<Rightarrow> rect \<Rightarrow> rect" where
  "rect_DP2SP d r = (let (l, t) = coor_DP2SP d (rleft r, rtop r); (x, b) = coor_DP2SP d (rright r, rbottom r) in mk_rect l t x b)"

definition dc_IsVisible :: "screen \<Rightarrow> dc \<Rightarrow> bool option" where
  "dc_IsVisible s d =
     (if DCType d \<noteq> TYPE_GENDC \<or> d_hwnd d = 0 then Some True
      else if d_hwnd d = 0xFFFFFFFF \<or> c_data (s_ctl s (d_hwnd d)) \<noteq> TYPE_HWND then Some False
      else IsWindowVisible_loop (s_ctl s) (d_hwnd d))"

subsection \<open>The client areas above a control\<close>

text \<open>The inner loop of \<open>RestrictControlECRGN\<close> finds the child of \<open>root\<close> above the control by comparing lists of children.\<close>

partial_function (option) step_down :: "ctls \<Rightarrow> nat \<Rightarrow> nat \<Rightarrow> nat option" where
  "step_down c root p =
     (if c_children (c root) = c_children (c (c_parent (c p))) then Some p else step_down c root (c_parent (c p)))"

partial_function (option) restrict_loop :: "ctls \<Rightarrow> nat \<Rightarrow> nat \<Rightarrow> int \<Rightarrow> int \<Rightarrow> rect \<Rightarrow> rect option" where
  "restrict_loop c h root ox oy minimal =
     (let (ok, m) = IntersectRect minimal (OffsetRect (c_client (c root)) ox oy) in
      if \<not> ok then Some (SetRect m 0 0 0 0)
      else if root = c_parent (c h) then Some m
      else do {
        q \<leftarrow> step_down c root h;
        restrict_loop c h q (ox + rleft (c_client (c root))) (oy + rtop (c_client (c root))) m
      })"

definition RestrictControlECRGN :: "ctls \<Rightarrow> nat \<Rightarrow> rect \<Rightarrow> rect option" where
  "RestrictControlECRGN c h minimal = restrict_loop c h (c_main (c h)) 0 0 minimal"

subsection \<open>The effective region\<close>

definition dev_rect :: "screen \<Rightarrow> dc \<Rightarrow> rect option" where
  "dev_rect s d = (if bIsClient d then WndClientRect (s_rcScr s) (s_ctl s) (d_hwnd d) else WndRect (s_rcScr s) (s_ctl s) (d_hwnd d))"

definition restricted :: "screen \<Rightarrow> dc \<Rightarrow> rect \<Rightarrow> rect option" where
  "restricted s d minimal =
     (if Control (s_ctl s) (d_hwnd d) \<and> c_exstyle (s_ctl s (d_hwnd d)) AND WS_EX_CTRLASMAINWIN = 0
      then RestrictControlECRGN (s_ctl s) (d_hwnd d) minimal else Some minimal)"

definition generate :: "screen \<Rightarrow> dc \<Rightarrow> dc option" where
  "generate s d = do {
     rc \<leftarrow> dev_rect s d;
     let d = d\<lparr>DevRC := rc\<rparr>;
     let ec = copy_rgn (ecrgn d) (lcrgn d);
     let ec = ec\<lparr>rects := map (rect_DP2SP d) (rects ec)\<rparr>;
     let ec = (if rects (lcrgn d) = [] then copy_rgn ec (s_crgn s (d_gcr d))
               else meet_rgn (ec\<lparr>rcBound := rect_DP2SP d (rcBound ec)\<rparr>) (s_crgn s (d_gcr d)));
     minimal \<leftarrow> restricted s d (DevRC d);
     Some (d\<lparr>ecrgn := meet_rect ec minimal, oldage := s_age s (d_gcr d)\<rparr>)
   }"

definition dc_GenerateECRgn :: "screen \<Rightarrow> dc \<Rightarrow> bool \<Rightarrow> (bool \<times> dc) option" where
  "dc_GenerateECRgn s d fForce = do {
     vis \<leftarrow> (if \<not> fForce then dc_IsVisible s d else Some True);
     if \<not> vis then Some (False, d)
     else if fForce \<or> oldage d \<noteq> s_age s (d_gcr d) then map_option (Pair True) (generate s d)
     else Some (True, d)
   }"

text \<open>The part of \<open>dc_InitDC\<close> about regions, for a slot whose local region is empty.\<close>

definition dc_InitDC :: "screen \<Rightarrow> dc \<Rightarrow> nat \<Rightarrow> nat \<Rightarrow> bool \<Rightarrow> dc option" where
  "dc_InitDC s d hWnd pGCRInfo isClient = do {
     let d = d\<lparr>d_hwnd := hWnd, d_gcr := pGCRInfo, oldage := s_age s pGCRInfo, ecrgn := copy_rgn (ecrgn d) (s_crgn s pGCRInfo), bIsClient := isClient\<rparr>;
     rc \<leftarrow> dev_rect s d;
     let d = d\<lparr>DevRC := rc\<rparr>;
     minimal \<leftarrow> restricted s d rc;
     Some (d\<lparr>ecrgn := meet_rect (ecrgn d) minimal\<rparr>)
   }"

text \<open>\<open>__mg_check_ecrgn\<close> comes before any drawing: \<open>None\<close> in the result is that nothing is drawn.\<close>

definition mg_check_ecrgn :: "screen \<Rightarrow> dc \<Rightarrow> dc option option" where
  "mg_check_ecrgn s d =
     (if DCType d = TYPE_GENDC then do {
        (ok, d) \<leftarrow> dc_GenerateECRgn s d False;
        Some (if ok then Some d else None)
      } else Some (Some d))"

subsection \<open>Clipping\<close>

definition RESET_LCRGN :: "dc \<Rightarrow> dc" where
  "RESET_LCRGN d = (if rects (lcrgn d) = [] then d\<lparr>lcrgn := set_rgn (lcrgn d) (mk_rect 0 0 65535 65535)\<rparr> else d)"

definition ExcludeClipRect :: "dc \<Rightarrow> rect \<Rightarrow> dc" where
  "ExcludeClipRect d r =
     (let rc = NormalizeRect r in
      if IsRectEmpty rc then d
      else if DCType d = TYPE_GENDC then
        let d = RESET_LCRGN d;
            d = d\<lparr>lcrgn := sub_rect (lcrgn d) rc\<rparr>
        in d\<lparr>ecrgn := sub_rect (ecrgn d) (rect_DP2SP d rc)\<rparr>
      else d\<lparr>ecrgn := sub_rect (ecrgn d) rc\<rparr>)"

definition IncludeClipRect :: "screen \<Rightarrow> dc \<Rightarrow> rect \<Rightarrow> dc option" where
  "IncludeClipRect s d r =
     (let rc = NormalizeRect r in
      if IsRectEmpty rc then Some d
      else if DCType d = TYPE_GENDC then
        let d = d\<lparr>lcrgn := (if rects (lcrgn d) \<noteq> [] then add_rect (lcrgn d) rc else set_rgn (lcrgn d) rc)\<rparr>
        in map_option snd (dc_GenerateECRgn s d True)
      else Some (d\<lparr>ecrgn := add_rect (ecrgn d) rc\<rparr>))"

definition ClipRectIntersect :: "dc \<Rightarrow> rect \<Rightarrow> dc" where
  "ClipRectIntersect d r =
     (let rc = NormalizeRect r in
      if IsRectEmpty rc then d
      else if DCType d = TYPE_GENDC then
        let d = RESET_LCRGN d;
            d = d\<lparr>lcrgn := meet_rect (lcrgn d) rc\<rparr>
        in d\<lparr>ecrgn := meet_rect (ecrgn d) (rect_DP2SP d rc)\<rparr>
      else d\<lparr>ecrgn := meet_rect (ecrgn d) rc\<rparr>)"

definition SelectClipRect :: "screen \<Rightarrow> dc \<Rightarrow> rect option \<Rightarrow> dc option" where
  "SelectClipRect s d prc =
     (let rc = (case prc of Some r \<Rightarrow> NormalizeRect r | None \<Rightarrow> DevRC d) in
      if prc \<noteq> None \<and> IsRectEmpty rc then Some d
      else if DCType d = TYPE_GENDC then
        let d = d\<lparr>lcrgn := (if prc \<noteq> None then set_rgn (lcrgn d) rc else empty_rgn (lcrgn d))\<rparr>
        in map_option snd (dc_GenerateECRgn s d True)
      else
        let (ok, i) = IntersectRect rc (DevRC d)
        in Some (d\<lparr>ecrgn := (if ok then set_rgn (ecrgn d) i else empty_rgn (ecrgn d))\<rparr>))"

definition SelectClipRegion :: "screen \<Rightarrow> dc \<Rightarrow> cliprgn \<Rightarrow> dc option" where
  "SelectClipRegion s d rgn =
     (if DCType d = TYPE_GENDC then map_option snd (dc_GenerateECRgn s (d\<lparr>lcrgn := copy_rgn (lcrgn d) rgn\<rparr>) True)
      else Some (d\<lparr>ecrgn := meet_rect (copy_rgn (ecrgn d) rgn) (DevRC d)\<rparr>))"

definition GetBoundsRect :: "dc \<Rightarrow> rect" where
  "GetBoundsRect d = (if DCType d = TYPE_GENDC then rcBound (lcrgn d) else rcBound (ecrgn d))"

definition PtVisible :: "dc \<Rightarrow> int \<Rightarrow> int \<Rightarrow> bool option" where
  "PtVisible d x y =
     (if DCType d = TYPE_GENDC then (if rects (lcrgn d) = [] then Some True else PtInRegion (lcrgn d) x y)
      else PtInRegion (ecrgn d) x y)"

definition RectVisible :: "dc \<Rightarrow> rect \<Rightarrow> bool" where
  "RectVisible d r =
     (if DCType d = TYPE_GENDC then (if rects (lcrgn d) = [] then True else RectInRegion (lcrgn d) r)
      else RectInRegion (ecrgn d) r)"

subsection \<open>Painting\<close>

partial_function (option) exclude_children :: "ctls \<Rightarrow> rect \<Rightarrow> nat \<Rightarrow> dc \<Rightarrow> dc option" where
  "exclude_children c rcClient p d =
     (if p = 0 then Some d
      else exclude_children c rcClient (c_next (c p))
        (if c_visible (c p) \<and> DoesIntersect (c_win (c p)) rcClient then ExcludeClipRect d (c_win (c p)) else d))"

text \<open>\<open>BeginPaint\<close> on the device context \<open>d\<close> it got, the private one of the window or one of \<open>GetClientDC\<close>; the caret it
  hides and the locks are left out.\<close>

definition BeginPaint :: "screen \<Rightarrow> nat \<Rightarrow> dc \<Rightarrow> wnds \<Rightarrow> (dc \<times> wnds) option" where
  "BeginPaint s h d w = do {
     let w = upd_ctl h (\<lambda>k. k\<lparr>c_frozen := c_frozen k + 1\<rparr>) w;
     d \<leftarrow> SelectClipRegion s d (inv w (Heap h));
     d \<leftarrow> (if c_exstyle (ctl w h) AND WS_EX_CLIPCHILDREN \<noteq> 0
           then exclude_children (ctl w) (GetClientRect (ctl w h)) (c_children (ctl w h)) d else Some d);
     let w = set_inv (EmptyClipRgn (inv w) (Heap h)) w;
     Some (d, upd_ctl h (\<lambda>k. k\<lparr>c_frozen := c_frozen k - 1\<rparr>) w)
   }"

end
