(* ===== verification/Win_Paint.thy ===== *)
theory Win_Paint
  imports Win_DC
begin

section \<open>Windows: where a device context draws, and what painting paints\<close>

text \<open>
  The effective region of a device context as a set of points: the selected region, the visible region of the
  window and the client areas above it.  From it follow that drawing stays inside them through every sequence of
  clipping calls and changes of the screen, and which points \<open>BeginPaint\<close> lets a window paint.
\<close>

subsection \<open>Regions as values\<close>

lemma store2 [simp]: "store2 a b (Heap 0) = a" "store2 a b (Heap 1) = b" "store2 a b (Heap (Suc 0)) = b"
  by (simp_all add: store2_def)

lemma empty_rgn: "rgn_ok (empty_rgn a)" "rgn_pts (empty_rgn a) = {}" "rects (empty_rgn a) = []"
  using computes_empty [of "store2 a a" "Heap 0"] by (simp_all add: empty_rgn_def computes_def) (simp add: EmptyClipRgn_def)

lemma copy_rgn: "rgn_ok b \<Longrightarrow> rgn_ok (copy_rgn a b)" "rgn_ok b \<Longrightarrow> rgn_pts (copy_rgn a b) = rgn_pts b"
  using computes_copy [of "store2 a b" "Heap 1" "Heap 0"] by (simp_all add: copy_rgn_def computes_def)

lemma copy_rgn_rects: "rects (copy_rgn a b) = rects b" "rects b \<noteq> [] \<Longrightarrow> rcBound (copy_rgn a b) = rcBound b"
  by (auto simp: copy_rgn_def ClipRgnCopy_def EmptyClipRgn_def Let_def)

lemma meet_rgn:
  assumes "rgn_ok a" "rgn_ok b"
  shows "rgn_ok (meet_rgn a b)" "rgn_pts (meet_rgn a b) = rgn_pts a \<inter> rgn_pts b"
  using ClipRgnIntersect_computes [of "store2 a b" "Heap 0" "Heap 1" "Heap 0"] assms
  by (simp_all add: meet_rgn_def computes_def)

lemma meet_rect:
  assumes "rgn_ok a" "rect_norm r"
  shows "rgn_ok (meet_rect a r)" "rgn_pts (meet_rect a r) = rgn_pts a \<inter> rect_pts r"
  using IntersectClipRect_writes [of "store2 a a" 0 r] assms by (simp_all add: meet_rect_def writes_def)

lemma sub_rect:
  assumes "rgn_ok a" "rect_norm r"
  shows "rgn_ok (sub_rect a r)" "rgn_pts (sub_rect a r) = rgn_pts a - rect_pts r"
  using SubtractClipRect_writes [of "store2 a a" 0 r] assms by (simp_all add: sub_rect_def writes_def)

lemma add_rect:
  assumes "rgn_ok a" "rect_norm r"
  shows "rgn_ok (add_rect a r)" "rgn_pts (add_rect a r) = rgn_pts a \<union> rect_pts r"
  using AddClipRect_writes [of "store2 a a" 0 r] assms by (simp_all add: add_rect_def writes_def)

lemma set_rgn:
  assumes "rgn_ok a" "rect_norm r"
  shows "rgn_ok (set_rgn a r)" "rgn_pts (set_rgn a r) = (if rect_pts r = {} then rgn_pts a else rect_pts r)"
  using SetClipRgn_writes [of "store2 a a" 0 r] assms by (simp_all add: set_rgn_def writes_def)

lemma shift_rgn:
  assumes "rgn_ok a"
  shows "rgn_ok (shift_rgn a x y)" "rgn_pts (shift_rgn a x y) = {(u, v). (u - x, v - y) \<in> rgn_pts a}"
proof -
  have "(\<lambda>(u, v). (u + x, v + y)) ` rgn_pts a = {(u, v). (u - x, v - y) \<in> rgn_pts a}" by (force simp: image_iff)
  then show "rgn_ok (shift_rgn a x y)" "rgn_pts (shift_rgn a x y) = {(u, v). (u - x, v - y) \<in> rgn_pts a}"
    using OffsetRegion_writes [of "store2 a a" 0 x y] assms by (simp_all add: shift_rgn_def writes_def)
qed

lemma shift_rgn_eq:
  "rects a \<noteq> [] \<Longrightarrow> shift_rgn a x y = a\<lparr>rects := map (\<lambda>r. OffsetRect r x y) (rects a), rcBound := OffsetRect (rcBound a) x y\<rparr>"
  by (simp add: shift_rgn_def OffsetRegion_def Let_def)

lemma rect_DP2SP: "DCType d = TYPE_GENDC \<Longrightarrow> rect_DP2SP d r = OffsetRect r (rleft (DevRC d)) (rtop (DevRC d))"
  by (simp add: rect_DP2SP_def coor_DP2SP_def OffsetRect_def)

subsection \<open>The client areas above a control\<close>

fun inside :: "ctls \<Rightarrow> nat list \<Rightarrow> point set" where
  "inside c [] = UNIV"
| "inside c (q # qs) = rect_pts (OffsetRect (c_client (c q)) (off_x c qs) (off_y c qs)) \<inter> inside c qs"

lemma inside_append: "inside c (as @ bs) \<subseteq> inside c bs"
  by (induction as) auto

lemma step_down_chain:
  "parents_chain c p (as @ root # bs) \<Longrightarrow> inj_on (\<lambda>q. c_children (c q)) (set (as @ root # bs)) \<Longrightarrow> step_down c root p = Some (last (p # as))"
proof (induction as arbitrary: p)
  case Nil
  then show ?case by (subst step_down.simps) simp
next
  case (Cons a as)
  then have a: "c_parent (c p) = a" "parents_chain c a (as @ root # bs)" "a \<noteq> root" using parents_chain_distinct [OF Cons.prems(1)] by auto
  have "inj_on (\<lambda>q. c_children (c q)) (set (as @ root # bs))" by (rule inj_on_subset [OF Cons.prems(2)]) auto
  then have s: "step_down c root a = Some (last (a # as))" using Cons.IH a by blast
  have "c_children (c root) \<noteq> c_children (c a)" using Cons.prems(2) a(3) by (auto simp: inj_on_def)
  then show ?case using s a(1) by (subst step_down.simps) simp
qed

lemma restrict_loop_chain:
  assumes "parents_chain c h (as @ root # bs)" "inj_on (\<lambda>q. c_children (c q)) (set (as @ root # bs))"
  shows "\<exists>m. restrict_loop c h root (off_x c bs) (off_y c bs) minimal = Some m \<and> rect_norm m
    \<and> rect_pts m \<inter> inside c bs = rect_pts minimal \<inter> inside c (as @ root # bs) \<and> rect_pts m \<subseteq> rect_pts minimal"
  using assms
proof (induction as arbitrary: root bs minimal rule: rev_induct)
  case Nil
  let ?i = "IntersectRect minimal (OffsetRect (c_client (c root)) (off_x c bs) (off_y c bs))"
  have p: "rect_pts (snd ?i) = rect_pts minimal \<inter> rect_pts (OffsetRect (c_client (c root)) (off_x c bs) (off_y c bs))"
    by (simp add: rect_sets)
  show ?case
  proof (cases "fst ?i")
    case True
    then have "rect_norm (snd ?i)" by (auto simp: fst_IntersectRect rect_ok_def rect_norm_def)
    then show ?thesis using True Nil p by (subst restrict_loop.simps) (auto simp: case_prod_beta Let_def)
  next
    case False
    then have "rect_pts (snd ?i) = {}" using fst_IntersectRect rect_pts_empty by metis
    then show ?thesis using False p
      by (subst restrict_loop.simps) (auto simp: case_prod_beta Let_def SetRect_def rect_norm_def rect_pts_def)
  qed
next
  case (snoc q as)
  let ?i = "IntersectRect minimal (OffsetRect (c_client (c root)) (off_x c bs) (off_y c bs))"
  have p: "rect_pts (snd ?i) = rect_pts minimal \<inter> rect_pts (OffsetRect (c_client (c root)) (off_x c bs) (off_y c bs))"
    by (simp add: rect_sets)
  have sub: "inside c (as @ q # root # bs) \<subseteq> rect_pts (OffsetRect (c_client (c root)) (off_x c bs) (off_y c bs)) \<inter> inside c bs"
    using inside_append [of c "as @ [q]" "root # bs"] by simp
  show ?case
  proof (cases "fst ?i")
    case True
    have ch: "parents_chain c h (as @ q # root # bs)" "inj_on (\<lambda>q. c_children (c q)) (set (as @ q # root # bs))"
      using snoc.prems by simp_all
    obtain m where m: "restrict_loop c h q (off_x c (root # bs)) (off_y c (root # bs)) (snd ?i) = Some m" "rect_norm m"
      "rect_pts m \<inter> inside c (root # bs) = rect_pts (snd ?i) \<inter> inside c (as @ q # root # bs)" "rect_pts m \<subseteq> rect_pts (snd ?i)"
      using snoc.IH [OF ch] by blast
    have "step_down c root h = Some q"
      using step_down_chain [of c h "as @ [q]" root bs] snoc.prems by simp
    moreover have "root \<noteq> c_parent (c h)"
      using parents_chain_distinct [OF snoc.prems(1)] snoc.prems(1) by (cases as) auto
    moreover have "off_x c (root # bs) = off_x c bs + rleft (c_client (c root))" "off_y c (root # bs) = off_y c bs + rtop (c_client (c root))"
      by (simp_all add: off_x_def off_y_def)
    ultimately have r: "restrict_loop c h root (off_x c bs) (off_y c bs) minimal = Some m"
      using True m(1) by (subst restrict_loop.simps) (simp add: case_prod_beta Let_def)
    have "rect_pts m \<inter> inside c bs = rect_pts minimal \<inter> inside c (as @ q # root # bs)" "rect_pts m \<subseteq> rect_pts minimal"
      using m(3,4) p sub by auto
    then show ?thesis using r m(2) by auto
  next
    case False
    then have "rect_pts (snd ?i) = {}" using fst_IntersectRect rect_pts_empty by metis
    then show ?thesis using False p sub
      by (subst restrict_loop.simps) (auto simp: case_prod_beta Let_def SetRect_def rect_norm_def rect_pts_def)
  qed
qed

subsection \<open>The effective region\<close>

definition in_parents :: "ctls \<Rightarrow> nat \<Rightarrow> bool" where
  "in_parents c h \<longleftrightarrow> Control c h \<and> c_exstyle (c h) AND WS_EX_CTRLASMAINWIN = 0"

text \<open>\<open>placed s h ps\<close>: the pointers lead from window \<open>h\<close> through \<open>ps\<close> to its main window, and its rectangles are in order.\<close>

definition placed :: "screen \<Rightarrow> nat \<Rightarrow> nat list \<Rightarrow> bool" where
  "placed s h ps \<longleftrightarrow> rect_norm (s_rcScr s)
     \<and> (h \<noteq> 0 \<longrightarrow> parents_chain (s_ctl s) h ps \<and> rect_norm (c_client (s_ctl s h)) \<and> rect_norm (c_win (s_ctl s h)))
     \<and> (in_parents (s_ctl s) h \<longrightarrow> ps \<noteq> [] \<and> c_main (s_ctl s h) = last ps \<and> inj_on (\<lambda>q. c_children (s_ctl s q)) (set ps))"

definition dev_of :: "screen \<Rightarrow> bool \<Rightarrow> nat \<Rightarrow> nat list \<Rightarrow> rect" where
  "dev_of s client h ps =
     (if h = 0 then s_rcScr s
      else OffsetRect (if client then c_client (s_ctl s h) else c_win (s_ctl s h)) (off_x (s_ctl s) ps) (off_y (s_ctl s) ps))"

text \<open>The points of the screen a device context may ever draw at.\<close>

definition visible_pts :: "screen \<Rightarrow> dc \<Rightarrow> nat list \<Rightarrow> point set" where
  "visible_pts s d ps = rgn_pts (s_crgn s (d_gcr d)) \<inter> rect_pts (dev_of s (bIsClient d) (d_hwnd d) ps)
     \<inter> (if in_parents (s_ctl s) (d_hwnd d) then inside (s_ctl s) ps else UNIV)"

definition dc_ok :: "dc \<Rightarrow> bool" where
  "dc_ok d \<longleftrightarrow> DCType d = TYPE_GENDC \<and> rgn_ok (lcrgn d) \<and> rgn_ok (ecrgn d)"

definition shift_pts :: "rect \<Rightarrow> point set \<Rightarrow> point set" where
  "shift_pts r P = {(x, y). (x - rleft r, y - rtop r) \<in> P}"

text \<open>A local region without a rectangle selects everything.\<close>

definition selected :: "cliprgn \<Rightarrow> point set" where
  "selected l = (if rects l = [] then UNIV else rgn_pts l)"

lemma dev_rect_placed: "placed s (d_hwnd d) ps \<Longrightarrow> dev_rect s d = Some (dev_of s (bIsClient d) (d_hwnd d) ps)"
  by (auto simp: dev_rect_def WndClientRect_def WndRect_def dev_of_def placed_def rect_loop_chain fold_offset_sum)

lemma dev_norm: "placed s h ps \<Longrightarrow> rect_norm (dev_of s b h ps)"
  by (auto simp: dev_of_def placed_def rect_norm_def OffsetRect_def)

lemma restricted_placed:
  assumes pl: "placed s (d_hwnd d) ps" and n: "rect_norm rc"
  shows "\<exists>m. restricted s d rc = Some m \<and> rect_norm m
    \<and> rect_pts m = rect_pts rc \<inter> (if in_parents (s_ctl s) (d_hwnd d) then inside (s_ctl s) ps else UNIV)"
proof (cases "in_parents (s_ctl s) (d_hwnd d)")
  case False
  then show ?thesis using n by (auto simp: restricted_def in_parents_def)
next
  case True
  let ?c = "s_ctl s" and ?h = "d_hwnd d"
  have h: "?h \<noteq> 0" "ps \<noteq> []" "c_main (?c ?h) = last ps" "parents_chain ?c ?h (butlast ps @ last ps # [])"
    "inj_on (\<lambda>q. c_children (?c q)) (set (butlast ps @ last ps # []))"
    using pl True by (auto simp: placed_def in_parents_def Control_def)
  have "off_x ?c [] = 0" "off_y ?c [] = 0" by (simp_all add: off_x_def off_y_def)
  then show ?thesis
    using restrict_loop_chain [OF h(4,5), of rc] True h
    by (auto simp: restricted_def in_parents_def RestrictControlECRGN_def)
qed

lemma generate_pts:
  assumes pl: "placed s (d_hwnd d) ps" and d: "dc_ok d" and g: "rgn_ok (s_crgn s (d_gcr d))"
  shows "\<exists>d'. generate s d = Some d' \<and> dc_ok d' \<and> lcrgn d' = lcrgn d \<and> d_hwnd d' = d_hwnd d \<and> d_gcr d' = d_gcr d
    \<and> bIsClient d' = bIsClient d \<and> oldage d' = s_age s (d_gcr d) \<and> DevRC d' = dev_of s (bIsClient d) (d_hwnd d) ps
    \<and> rgn_pts (ecrgn d') = visible_pts s d ps \<inter> shift_pts (DevRC d') (selected (lcrgn d))"
proof -
  let ?rc = "dev_of s (bIsClient d) (d_hwnd d) ps"
  let ?d = "d\<lparr>DevRC := ?rc\<rparr>" and ?l = "lcrgn d" and ?g = "s_crgn s (d_gcr d)"
  let ?e0 = "copy_rgn (ecrgn d) ?l"
  let ?e1 = "?e0\<lparr>rects := map (rect_DP2SP ?d) (rects ?e0)\<rparr>"
  define e where "e = (if rects ?l = [] then copy_rgn ?e1 ?g else meet_rgn (?e1\<lparr>rcBound := rect_DP2SP ?d (rcBound ?e1)\<rparr>) ?g)"
  have dd: "DCType d = TYPE_GENDC" "rgn_ok ?l" "rgn_ok (ecrgn d)" using d by (simp_all add: dc_ok_def)
  have e: "rgn_ok e \<and> rgn_pts e = rgn_pts ?g \<inter> shift_pts ?rc (selected ?l)"
  proof (cases "rects ?l = []")
    case True
    then show ?thesis using copy_rgn [OF g] by (simp add: e_def selected_def shift_pts_def)
  next
    case False
    then have "?e1\<lparr>rcBound := rect_DP2SP ?d (rcBound ?e1)\<rparr> = shift_rgn ?e0 (rleft ?rc) (rtop ?rc)"
      using dd(1) by (simp add: shift_rgn_eq copy_rgn_rects rect_DP2SP cong: map_cong)
    then show ?thesis
      using False shift_rgn [OF copy_rgn(1) [OF dd(2)]] copy_rgn(2) [OF dd(2)] meet_rgn [OF _ g]
      by (auto simp: e_def selected_def shift_pts_def)
  qed
  have "placed s (d_hwnd ?d) ps" using pl by simp
  from restricted_placed [OF this dev_norm [OF pl]] obtain m where m: "restricted s ?d ?rc = Some m" "rect_norm m"
    "rect_pts m = rect_pts ?rc \<inter> (if in_parents (s_ctl s) (d_hwnd d) then inside (s_ctl s) ps else UNIV)" by auto
  have "generate s d = Some (?d\<lparr>ecrgn := meet_rect e m, oldage := s_age s (d_gcr d)\<rparr>)"
    using dev_rect_placed [OF pl] m(1) by (simp add: generate_def e_def Let_def)
  then show ?thesis
    using e dd meet_rect [OF _ m(2), of e] m(3) by (auto simp: dc_ok_def visible_pts_def)
qed

lemma GenerateECRgn_forced:
  "dc_GenerateECRgn s d True = map_option (Pair True) (generate s d)"
  by (simp add: dc_GenerateECRgn_def)

subsection \<open>Sequences of clipping calls\<close>

datatype clip_op = Exclude rect | Include rect | Meet rect | SelectR "rect option" | SelectRgn cliprgn

fun clip :: "screen \<Rightarrow> clip_op \<Rightarrow> dc \<Rightarrow> dc option" where
  "clip s (Exclude r) d = Some (ExcludeClipRect d r)"
| "clip s (Include r) d = IncludeClipRect s d r"
| "clip s (Meet r) d = Some (ClipRectIntersect d r)"
| "clip s (SelectR r) d = SelectClipRect s d r"
| "clip s (SelectRgn g) d = SelectClipRegion s d g"

fun op_ok :: "clip_op \<Rightarrow> bool" where
  "op_ok (SelectRgn g) \<longleftrightarrow> rgn_ok g"
| "op_ok _ \<longleftrightarrow> True"

definition dc_fits :: "screen \<Rightarrow> dc \<Rightarrow> nat list \<Rightarrow> bool" where
  "dc_fits s d ps \<longleftrightarrow> dc_ok d \<and> placed s (d_hwnd d) ps \<and> rgn_ok (s_crgn s (d_gcr d))
     \<and> (oldage d = s_age s (d_gcr d) \<longrightarrow> rgn_pts (ecrgn d) \<subseteq> visible_pts s d ps)"

lemma RESET_LCRGN_ok: "dc_ok d \<Longrightarrow> dc_ok (RESET_LCRGN d)"
  using set_rgn(1) [of "lcrgn d" "mk_rect 0 0 65535 65535"] by (auto simp: RESET_LCRGN_def dc_ok_def rect_norm_def)

lemma RESET_LCRGN_simps [simp]:
  "ecrgn (RESET_LCRGN d) = ecrgn d" "d_hwnd (RESET_LCRGN d) = d_hwnd d" "d_gcr (RESET_LCRGN d) = d_gcr d"
  "bIsClient (RESET_LCRGN d) = bIsClient d" "oldage (RESET_LCRGN d) = oldage d" "DCType (RESET_LCRGN d) = DCType d" "DevRC (RESET_LCRGN d) = DevRC d"
  by (simp_all add: RESET_LCRGN_def)

lemma DP2SP_norm: "rect_norm r \<Longrightarrow> DCType d = TYPE_GENDC \<Longrightarrow> rect_norm (rect_DP2SP d r)"
  by (simp add: rect_DP2SP rect_norm_def OffsetRect_def)

text \<open>What narrows both regions keeps a device context inside.\<close>

lemma ExcludeClipRect_ok:
  assumes "dc_ok d"
  shows "dc_ok (ExcludeClipRect d r)" "rgn_pts (ecrgn (ExcludeClipRect d r)) = rgn_pts (ecrgn d) - shift_pts (DevRC d) (rect_pts (NormalizeRect r))"
    "d_hwnd (ExcludeClipRect d r) = d_hwnd d" "d_gcr (ExcludeClipRect d r) = d_gcr d" "bIsClient (ExcludeClipRect d r) = bIsClient d"
    "oldage (ExcludeClipRect d r) = oldage d" "DevRC (ExcludeClipRect d r) = DevRC d"
proof -
  let ?r = "NormalizeRect r"
  have d: "DCType d = TYPE_GENDC" "rgn_ok (ecrgn d)" "rgn_ok (lcrgn (RESET_LCRGN d))"
    using assms RESET_LCRGN_ok [OF assms] by (simp_all add: dc_ok_def)
  have n: "rect_norm (rect_DP2SP d ?r)" using NormalizeRect_norm d(1) by (rule DP2SP_norm)
  have pts: "rect_pts (rect_DP2SP d ?r) = shift_pts (DevRC d) (rect_pts ?r)"
    using d(1) by (auto simp: rect_DP2SP OffsetRect_pts shift_pts_def simp del: in_rect_pts)
  have e: "shift_pts (DevRC d) (rect_pts ?r) = {}" if "IsRectEmpty ?r"
    using IsRectEmpty_pts [OF that] by (simp add: shift_pts_def)
  have dp: "rect_DP2SP (RESET_LCRGN d\<lparr>lcrgn := x\<rparr>) = rect_DP2SP d" for x
    by (simp add: rect_DP2SP_def coor_DP2SP_def fun_eq_iff)
  note s = sub_rect [OF d(2) n] sub_rect(1) [OF d(3) NormalizeRect_norm]
  show "dc_ok (ExcludeClipRect d r)"
    using s d assms by (auto simp: ExcludeClipRect_def Let_def dc_ok_def dp)
  show "rgn_pts (ecrgn (ExcludeClipRect d r)) = rgn_pts (ecrgn d) - shift_pts (DevRC d) (rect_pts ?r)"
    using s d(1) e by (auto simp: ExcludeClipRect_def Let_def dp pts)
qed (simp_all add: ExcludeClipRect_def Let_def)

lemma ClipRectIntersect_ok:
  assumes "dc_ok d"
  shows "dc_ok (ClipRectIntersect d r)" "rgn_pts (ecrgn (ClipRectIntersect d r)) \<subseteq> rgn_pts (ecrgn d)"
    "d_hwnd (ClipRectIntersect d r) = d_hwnd d" "d_gcr (ClipRectIntersect d r) = d_gcr d" "bIsClient (ClipRectIntersect d r) = bIsClient d"
    "oldage (ClipRectIntersect d r) = oldage d"
proof -
  let ?r = "NormalizeRect r"
  have d: "DCType d = TYPE_GENDC" "rgn_ok (ecrgn d)" "rgn_ok (lcrgn (RESET_LCRGN d))"
    using assms RESET_LCRGN_ok [OF assms] by (simp_all add: dc_ok_def)
  have n: "rect_norm (rect_DP2SP d ?r)" using NormalizeRect_norm d(1) by (rule DP2SP_norm)
  have dp: "rect_DP2SP (RESET_LCRGN d\<lparr>lcrgn := x\<rparr>) = rect_DP2SP d" for x
    by (simp add: rect_DP2SP_def coor_DP2SP_def fun_eq_iff)
  note s = meet_rect [OF d(2) n] meet_rect(1) [OF d(3) NormalizeRect_norm]
  show "dc_ok (ClipRectIntersect d r)" "rgn_pts (ecrgn (ClipRectIntersect d r)) \<subseteq> rgn_pts (ecrgn d)"
    using s d assms by (auto simp: ClipRectIntersect_def Let_def dc_ok_def dp)
qed (simp_all add: ClipRectIntersect_def Let_def)

text \<open>The calls that choose a local region \<open>l\<close> generate the effective region anew.\<close>

lemma forced_fits:
  assumes f: "dc_fits s d ps" and l: "rgn_ok l"
  shows "\<exists>d'. map_option snd (dc_GenerateECRgn s (d\<lparr>lcrgn := l\<rparr>) True) = Some d' \<and> dc_fits s d' ps
    \<and> lcrgn d' = l \<and> d_hwnd d' = d_hwnd d \<and> d_gcr d' = d_gcr d \<and> bIsClient d' = bIsClient d \<and> DevRC d' = dev_of s (bIsClient d) (d_hwnd d) ps
    \<and> rgn_pts (ecrgn d') = visible_pts s d ps \<inter> shift_pts (DevRC d') (selected l)"
proof -
  have "placed s (d_hwnd (d\<lparr>lcrgn := l\<rparr>)) ps" "dc_ok (d\<lparr>lcrgn := l\<rparr>)" "rgn_ok (s_crgn s (d_gcr (d\<lparr>lcrgn := l\<rparr>)))"
    using f l by (simp_all add: dc_fits_def dc_ok_def)
  from generate_pts [OF this] obtain d' where d': "generate s (d\<lparr>lcrgn := l\<rparr>) = Some d'" "dc_ok d'" "lcrgn d' = l" "d_hwnd d' = d_hwnd d"
    "d_gcr d' = d_gcr d" "bIsClient d' = bIsClient d" "DevRC d' = dev_of s (bIsClient d) (d_hwnd d) ps"
    "rgn_pts (ecrgn d') = visible_pts s d ps \<inter> shift_pts (DevRC d') (selected l)"
    by (auto simp: visible_pts_def)
  then have "dc_fits s d' ps" using f by (auto simp: dc_fits_def visible_pts_def)
  then show ?thesis using d' by (auto simp: GenerateECRgn_forced)
qed

lemma IsWindowVisible_loop_chain: "parents_chain c h ps \<Longrightarrow> \<exists>b. IsWindowVisible_loop c h = Some b"
proof (induction ps arbitrary: h)
  case Nil
  then show ?case by (subst IsWindowVisible_loop.simps) auto
next
  case (Cons p ps)
  then show ?case by (subst IsWindowVisible_loop.simps) auto
qed

lemma InitDC_fits:
  assumes pl: "placed s h ps" and d: "dc_ok d" and g: "rgn_ok (s_crgn s gc)"
  shows "\<exists>d'. dc_InitDC s d h gc cl = Some d' \<and> dc_fits s d' ps \<and> d_hwnd d' = h \<and> d_gcr d' = gc \<and> bIsClient d' = cl \<and> lcrgn d' = lcrgn d
    \<and> oldage d' = s_age s gc"
proof -
  let ?d = "d\<lparr>d_hwnd := h, d_gcr := gc, oldage := s_age s gc, ecrgn := copy_rgn (ecrgn d) (s_crgn s gc), bIsClient := cl\<rparr>"
  have p: "placed s (d_hwnd ?d) ps" using pl by simp
  let ?rc = "dev_of s cl h ps"
  have p': "placed s (d_hwnd (?d\<lparr>DevRC := ?rc\<rparr>)) ps" using pl by simp
  from restricted_placed [OF p' dev_norm [OF pl]] obtain m where m: "restricted s (?d\<lparr>DevRC := ?rc\<rparr>) ?rc = Some m" "rect_norm m"
    "rect_pts m = rect_pts ?rc \<inter> (if in_parents (s_ctl s) h then inside (s_ctl s) ps else UNIV)" by auto
  have "dc_InitDC s d h gc cl = Some (?d\<lparr>DevRC := ?rc, ecrgn := meet_rect (copy_rgn (ecrgn d) (s_crgn s gc)) m\<rparr>)"
    using dev_rect_placed [OF p] m(1) by (simp add: dc_InitDC_def Let_def)
  then show ?thesis
    using m(3) d pl g meet_rect [OF copy_rgn(1) [OF g] m(2)] copy_rgn(2) [OF g]
    by (auto simp: dc_fits_def dc_ok_def visible_pts_def)
qed

text \<open>
  A device context in use: it is got for a window, clipped, checked before drawing, and meanwhile windows move and cover each other in any way,
  with or without a new age of the visible region; the age a private device context has kept may be reset.  The run keeps the screen of
  the last generation of the effective region, and the parents of the window then, beside those of now.
\<close>

fun regenerates :: "clip_op \<Rightarrow> bool" where
  "regenerates (Include r) \<longleftrightarrow> \<not> IsRectEmpty (NormalizeRect r)"
| "regenerates (SelectR (Some r)) \<longleftrightarrow> \<not> IsRectEmpty (NormalizeRect r)"
| "regenerates (SelectR None) \<longleftrightarrow> True"
| "regenerates (SelectRgn g) \<longleftrightarrow> True"
| "regenerates _ \<longleftrightarrow> False"

inductive dc_run :: "screen \<Rightarrow> nat list \<Rightarrow> dc \<Rightarrow> screen \<Rightarrow> nat list \<Rightarrow> bool" where
  got: "dc_run s ps d s ps" if "dc_ok d0" "placed s h ps" "rgn_ok (s_crgn s g)" "dc_InitDC s d0 h g cl = Some d"
| narrowed: "dc_run s ps d' t qs" if "dc_run s ps d t qs" "\<not> regenerates op" "clip s op d = Some d'"
| chosen: "dc_run s ps d' s ps" if "dc_run s ps d t qs" "op_ok op" "regenerates op" "clip s op d = Some d'"
| kept: "dc_run s ps d' t qs" if "dc_run s ps d t qs" "oldage d = s_age s (d_gcr d)" "mg_check_ecrgn s d = Some (Some d')"
| renewed: "dc_run s ps d' s ps" if "dc_run s ps d t qs" "oldage d \<noteq> s_age s (d_gcr d)" "mg_check_ecrgn s d = Some (Some d')"
| changed: "dc_run s' ps' d t qs" if "dc_run s ps d t qs" "placed s' (d_hwnd d) ps'" "rgn_ok (s_crgn s' (d_gcr d))"
| reset: "dc_run s ps (d\<lparr>oldage := 0\<rparr>) t qs" if "dc_run s ps d t qs"

definition dc_inside :: "screen \<Rightarrow> nat list \<Rightarrow> dc \<Rightarrow> screen \<Rightarrow> nat list \<Rightarrow> bool" where
  "dc_inside s ps d t qs \<longleftrightarrow> dc_ok d \<and> placed s (d_hwnd d) ps \<and> rgn_ok (s_crgn s (d_gcr d)) \<and> rgn_pts (ecrgn d) \<subseteq> visible_pts t d qs"

lemma visible_pts_cong:
  "d_hwnd d' = d_hwnd d \<Longrightarrow> d_gcr d' = d_gcr d \<Longrightarrow> bIsClient d' = bIsClient d \<Longrightarrow> visible_pts s d' ps = visible_pts s d ps"
  by (simp add: visible_pts_def)

text \<open>A call that chooses a local region puts the device context inside of what can be seen now.\<close>

lemma chosen_inside:
  assumes f: "dc_inside s ps d t qs" and o: "op_ok op" "regenerates op"
  shows "\<exists>d'. clip s op d = Some d' \<and> dc_inside s ps d' s ps \<and> d_hwnd d' = d_hwnd d \<and> d_gcr d' = d_gcr d"
proof -
  let ?o = "s_age s (d_gcr d) + 1"
  have d: "dc_ok d" "DCType d = TYPE_GENDC" "rgn_ok (lcrgn d)" "placed s (d_hwnd d) ps" "rgn_ok (s_crgn s (d_gcr d))"
    using f by (simp_all add: dc_inside_def dc_ok_def)
  have forced: "\<exists>d'. map_option snd (dc_GenerateECRgn s (d\<lparr>lcrgn := l\<rparr>) True) = Some d' \<and> dc_inside s ps d' s ps \<and> d_hwnd d' = d_hwnd d \<and> d_gcr d' = d_gcr d"
    if l: "rgn_ok l" for l
  proof -
    have "placed s (d_hwnd (d\<lparr>lcrgn := l\<rparr>)) ps" "dc_ok (d\<lparr>lcrgn := l\<rparr>)" "rgn_ok (s_crgn s (d_gcr (d\<lparr>lcrgn := l\<rparr>)))"
      using d l by (simp_all add: dc_ok_def)
    from generate_pts [OF this] show ?thesis
      using d by (auto simp: GenerateECRgn_forced dc_inside_def visible_pts_def)
  qed
  show ?thesis
  proof (cases op)
    case (Include r)
    then show ?thesis using o(2) d(2,3) add_rect(1) [OF d(3) NormalizeRect_norm] set_rgn(1) [OF d(3) NormalizeRect_norm]
        forced [of "add_rect (lcrgn d) (NormalizeRect r)"] forced [of "set_rgn (lcrgn d) (NormalizeRect r)"]
      by (auto simp: IncludeClipRect_def Let_def)
  next
    case (SelectR r)
    then show ?thesis using o(2) d(2,3) set_rgn(1) [OF d(3) NormalizeRect_norm] empty_rgn(1)
        forced [of "empty_rgn (lcrgn d)"] forced [of "set_rgn (lcrgn d) (NormalizeRect (the r))"]
      by (cases r) (auto simp: SelectClipRect_def Let_def)
  next
    case (SelectRgn g)
    then show ?thesis using o(1) d(2) forced [OF copy_rgn(1)] by (auto simp: SelectClipRegion_def)
  qed (use o(2) in simp_all)
qed

text \<open>The other calls narrow its region or leave it.\<close>

lemma narrowed_inside:
  assumes f: "dc_inside s ps d t qs" and o: "\<not> regenerates op"
  shows "\<exists>d'. clip s op d = Some d' \<and> dc_inside s ps d' t qs \<and> d_hwnd d' = d_hwnd d \<and> d_gcr d' = d_gcr d"
proof -
  have d: "dc_ok d" "DCType d = TYPE_GENDC" using f by (simp_all add: dc_inside_def dc_ok_def)
  show ?thesis
  proof (cases op)
    case (Exclude r)
    then show ?thesis using f ExcludeClipRect_ok [OF d(1), of r] by (auto simp: dc_inside_def visible_pts_def)
  next
    case (Meet r)
    then show ?thesis using f ClipRectIntersect_ok [OF d(1), of r] by (auto simp: dc_inside_def visible_pts_def)
  next
    case (Include r)
    then show ?thesis using f o by (simp add: IncludeClipRect_def Let_def)
  next
    case (SelectR r)
    then show ?thesis using f o by (cases r) (simp_all add: SelectClipRect_def Let_def)
  qed (use o in simp)
qed

text \<open>The check before drawing generates the region anew exactly when the age has changed.\<close>

lemma check_inside:
  assumes f: "dc_inside s ps d t qs"
  shows "\<exists>r. mg_check_ecrgn s d = Some r \<and> (\<forall>d'. r = Some d' \<longrightarrow> d_hwnd d' = d_hwnd d \<and> d_gcr d' = d_gcr d
    \<and> (if oldage d = s_age s (d_gcr d) then d' = d \<and> dc_inside s ps d' t qs else dc_inside s ps d' s ps))"
proof -
  have d: "dc_ok d" "DCType d = TYPE_GENDC" "rgn_ok (s_crgn s (d_gcr d))" "placed s (d_hwnd d) ps" using f by (simp_all add: dc_inside_def dc_ok_def)
  have "\<exists>b. dc_IsVisible s d = Some b"
    using d(4) IsWindowVisible_loop_chain [of "s_ctl s" "d_hwnd d" ps] by (auto simp: dc_IsVisible_def placed_def)
  then obtain b where b: "dc_IsVisible s d = Some b" by blast
  obtain e where e: "generate s d = Some e" "dc_ok e" "d_hwnd e = d_hwnd d" "d_gcr e = d_gcr d" "bIsClient e = bIsClient d"
    "rgn_pts (ecrgn e) \<subseteq> visible_pts s d ps"
    using generate_pts [OF d(4,1,3)] by auto
  then have "dc_inside s ps e s ps" using d visible_pts_cong [of e d s ps] by (simp add: dc_inside_def)
  then show ?thesis
    using b e(1,3,4) f d(2) by (cases b; cases "oldage d = s_age s (d_gcr d)") (auto simp: mg_check_ecrgn_def dc_GenerateECRgn_def)
qed

lemma dc_run_inside: "dc_run s ps d t qs \<Longrightarrow> dc_inside s ps d t qs"
proof (induction rule: dc_run.induct)
  case (got d0 s h ps g cl d)
  then show ?case using InitDC_fits [of s h ps d0 g cl] by (auto simp: dc_fits_def dc_inside_def)
next
  case (narrowed s ps d t qs op d')
  then show ?case using narrowed_inside [of s ps d t qs op] by auto
next
  case (chosen s ps d t qs op d')
  then show ?case using chosen_inside [of s ps d t qs op] by auto
next
  case (kept s ps d t qs d')
  then show ?case using check_inside [of s ps d t qs] by auto
next
  case (renewed s ps d t qs d')
  then show ?case using check_inside [of s ps d t qs] by auto
next
  case (changed s ps d t qs s' ps')
  then show ?case by (simp add: dc_inside_def)
next
  case (reset s ps d t qs)
  then show ?case by (simp add: dc_inside_def dc_ok_def visible_pts_def)
qed

subsection \<open>Painting\<close>

lemma exclude_children_dlist:
  assumes "dlist c pr p ch" "dc_ok d"
  shows "\<exists>d'. exclude_children c rcClient p d = Some d' \<and> dc_ok d' \<and> d_hwnd d' = d_hwnd d \<and> d_gcr d' = d_gcr d \<and> bIsClient d' = bIsClient d
    \<and> DevRC d' = DevRC d
    \<and> rgn_pts (ecrgn d') = rgn_pts (ecrgn d) - (\<Union>x \<in> {x \<in> set ch. c_visible (c x) \<and> DoesIntersect (c_win (c x)) rcClient}. shift_pts (DevRC d) (rect_pts (NormalizeRect (c_win (c x)))))"
  using assms
proof (induction ch arbitrary: pr p d)
  case Nil
  then show ?case by (subst exclude_children.simps) simp
next
  case (Cons x ch)
  let ?b = "c_visible (c x) \<and> DoesIntersect (c_win (c x)) rcClient"
  let ?d = "if ?b then ExcludeClipRect d (c_win (c x)) else d"
  have ok: "dc_ok ?d" using Cons.prems(2) ExcludeClipRect_ok(1) by simp
  have l: "p = x" "x \<noteq> 0" "dlist c x (c_next (c x)) ch" using Cons.prems(1) by auto
  have e: "exclude_children c rcClient p d = exclude_children c rcClient (c_next (c x)) ?d"
    using l by (subst exclude_children.simps) simp
  obtain d' where d': "exclude_children c rcClient (c_next (c x)) ?d = Some d'" "dc_ok d'" "d_hwnd d' = d_hwnd ?d" "d_gcr d' = d_gcr ?d"
    "bIsClient d' = bIsClient ?d" "DevRC d' = DevRC ?d"
    "rgn_pts (ecrgn d') = rgn_pts (ecrgn ?d) - (\<Union>x \<in> {x \<in> set ch. c_visible (c x) \<and> DoesIntersect (c_win (c x)) rcClient}. shift_pts (DevRC ?d) (rect_pts (NormalizeRect (c_win (c x)))))"
    using Cons.IH [OF l(3) ok] by blast
  show ?case
  proof (cases ?b)
    case True
    then show ?thesis using d' e ExcludeClipRect_ok [OF Cons.prems(2), of "c_win (c x)"] by auto
  next
    case False
    then show ?thesis using d' e by auto
  qed
qed

lemma NormalizeRect_same: "rect_norm r \<Longrightarrow> NormalizeRect r = r"
  by (auto simp: rect_norm_def NormalizeRect_def Let_def)

lemma visible_client:
  assumes "d_hwnd d \<noteq> 0" "bIsClient d" "R = dev_of s (bIsClient d) (d_hwnd d) ps"
  shows "visible_pts s d ps \<subseteq> shift_pts R (client_pts (s_ctl s (d_hwnd d)))"
  using assms by (auto simp: visible_pts_def dev_of_def shift_pts_def client_pts_def GetClientRect_def OffsetRect_def)

lemma shift_pts_Int: "shift_pts R (A \<inter> B) = shift_pts R A \<inter> shift_pts R B"
  by (auto simp: shift_pts_def)

lemma BeginPaint_pts:
  assumes f: "dc_fits s d ps" and h: "d_hwnd d = h" "h \<noteq> 0" "bIsClient d" and c: "ctl w = s_ctl s" and ok: "inv_ok w"
    and l: "dlist (ctl w) 0 (c_children (ctl w h)) ch" and nw: "\<And>x. x \<in> set ch \<Longrightarrow> rect_norm (c_win (ctl w x))"
    and R: "R = dev_of s True h ps"
  shows "\<exists>d' w'. BeginPaint s h d w = Some (d', w') \<and> DevRC d' = R
    \<and> rgn_pts (ecrgn d') = visible_pts s d ps \<inter> shift_pts R (if rects (inv w (Heap h)) = [] then UNIV else inv_pts w h)
        - (if c_exstyle (ctl w h) AND WS_EX_CLIPCHILDREN \<noteq> 0 then \<Union>x \<in> {x \<in> set ch. c_visible (ctl w x)}. shift_pts R (rect_pts (c_win (ctl w x))) else {})
    \<and> ctl w' = ctl w \<and> inv_ok w' \<and> inv_pts w' h = {} \<and> (\<forall>a. a \<noteq> h \<longrightarrow> inv_pts w' a = inv_pts w a)"
proof -
  let ?w1 = "upd_ctl h (\<lambda>k. k\<lparr>c_frozen := c_frozen k + 1\<rparr>) w"
  let ?i = "inv w (Heap h)" and ?cl = "GetClientRect (ctl w h)"
  have k: "c_win (ctl ?w1 x) = c_win (ctl w x)" "c_style (ctl ?w1 x) = c_style (ctl w x)" "c_next (ctl ?w1 x) = c_next (ctl w x)"
    "c_client (ctl ?w1 x) = c_client (ctl w x)" "c_prev (ctl ?w1 x) = c_prev (ctl w x)" "c_children (ctl ?w1 x) = c_children (ctl w x)"
    "c_exstyle (ctl ?w1 x) = c_exstyle (ctl w x)" "inv ?w1 = inv w" for x
    by (simp_all add: upd_ctl_def)
  have k2: "c_visible (ctl ?w1 x) = c_visible (ctl w x)" "GetClientRect (ctl ?w1 x) = GetClientRect (ctl w x)" for x
    by (simp_all add: c_visible_def GetClientRect_def k)
  have i: "rgn_ok ?i" using ok by (simp add: inv_ok_def heap_ok_def)
  have sel: "selected (copy_rgn (lcrgn d) ?i) = (if rects ?i = [] then UNIV else rgn_pts ?i)"
    using copy_rgn(2) [OF i] by (simp add: selected_def copy_rgn_rects)
  obtain d1 where d1: "SelectClipRegion s d ?i = Some d1" "dc_fits s d1 ps" "d_hwnd d1 = h" "bIsClient d1" "DevRC d1 = R"
    "rgn_pts (ecrgn d1) = visible_pts s d ps \<inter> shift_pts R (if rects ?i = [] then UNIV else rgn_pts ?i)"
    using forced_fits [OF f copy_rgn(1) [OF i, of "lcrgn d"]] f h R sel by (auto simp: SelectClipRegion_def dc_fits_def dc_ok_def)
  have vis: "visible_pts s d ps \<subseteq> shift_pts R (client_pts (ctl w h))"
    using visible_client [of d R s ps] h c R by simp
  then have e1: "rgn_pts (ecrgn d1) = visible_pts s d ps \<inter> shift_pts R (if rects ?i = [] then UNIV else inv_pts w h)"
    using d1(6) by (auto simp: inv_pts_def shift_pts_def)
  define E where "E = (if c_exstyle (ctl w h) AND WS_EX_CLIPCHILDREN \<noteq> 0
     then \<Union>x \<in> {x \<in> set ch. c_visible (ctl w x)}. shift_pts R (rect_pts (c_win (ctl w x))) else {})"
  obtain d2 where d2: "(if c_exstyle (ctl w h) AND WS_EX_CLIPCHILDREN \<noteq> 0
      then exclude_children (ctl ?w1) ?cl (c_children (ctl w h)) d1 else Some d1) = Some d2"
    "rgn_pts (ecrgn d2) = rgn_pts (ecrgn d1) - E" "DevRC d2 = R"
  proof (cases "c_exstyle (ctl w h) AND WS_EX_CLIPCHILDREN \<noteq> 0")
    case True
    have l1: "dlist (ctl ?w1) 0 (c_children (ctl w h)) ch" using l dlist_cong [of ch "ctl ?w1" "ctl w"] by (simp add: k)
    have "dc_ok d1" using d1(2) by (simp add: dc_fits_def)
    from exclude_children_dlist [OF l1 this, of ?cl] obtain d2 where d2: "exclude_children (ctl ?w1) ?cl (c_children (ctl w h)) d1 = Some d2" "DevRC d2 = R"
      "rgn_pts (ecrgn d2) = rgn_pts (ecrgn d1) - (\<Union>x \<in> {x \<in> set ch. c_visible (ctl w x) \<and> DoesIntersect (c_win (ctl w x)) ?cl}. shift_pts R (rect_pts (NormalizeRect (c_win (ctl w x)))))"
      by (auto simp: k k2 d1(5))
    have far: "shift_pts R (rect_pts (c_win (ctl w x))) \<inter> rgn_pts (ecrgn d1) = {}" if "\<not> DoesIntersect (c_win (ctl w x)) ?cl" for x
    proof -
      have "shift_pts R (rect_pts (c_win (ctl w x)) \<inter> client_pts (ctl w h)) = {}"
        using that by (simp add: DoesIntersect_pts client_pts_def shift_pts_def)
      then have "shift_pts R (rect_pts (c_win (ctl w x))) \<inter> shift_pts R (client_pts (ctl w h)) = {}"
        by (simp add: shift_pts_Int)
      then show ?thesis using vis d1(6) by blast
    qed
    have "rgn_pts (ecrgn d2) = rgn_pts (ecrgn d1) - E"
    proof (rule set_eqI)
      fix p
      show "p \<in> rgn_pts (ecrgn d2) \<longleftrightarrow> p \<in> rgn_pts (ecrgn d1) - E"
        using far NormalizeRect_same [OF nw] True unfolding d2(3) E_def by auto
    qed
    then show thesis using that True d2(1,2) by simp
  next
    case False
    then show thesis using that [of d1] d1(5) by (simp add: E_def)
  qed
  let ?w2 = "upd_ctl h (\<lambda>k. k\<lparr>c_frozen := c_frozen k - 1\<rparr>) (set_inv (EmptyClipRgn (inv w) (Heap h)) ?w1)"
  have w2: "ctl ?w2 = ctl w" "inv ?w2 = EmptyClipRgn (inv w) (Heap h)" by (simp_all add: upd_ctl_def set_inv_def)
  have wr: "writes (inv w) (EmptyClipRgn (inv w) (Heap h)) h {}" by (rule computes_writes [OF computes_empty])
  then have "rgn_ok (EmptyClipRgn (inv w) (Heap h) (Heap n))" for n
    using ok by (cases "n = h") (auto simp: inv_ok_def heap_ok_def writes_def)
  then have emp: "inv_ok ?w2" "inv_pts ?w2 h = {}" "\<forall>a. a \<noteq> h \<longrightarrow> inv_pts ?w2 a = inv_pts w a"
    using wr ok by (simp_all add: inv_ok_def inv_pts_def w2 heap_ok_def writes_def)
  have "BeginPaint s h d w = Some (d2, ?w2)"
    using d1(1) d2(1)
    by (cases "c_exstyle (ctl w h) AND WS_EX_CLIPCHILDREN = 0") (simp_all add: BeginPaint_def Let_def k k2 set_inv_def)
  then show ?thesis using d2(2,3) e1 w2(1) emp unfolding E_def by blast
qed

text \<open>
  What is excluded comes back when nothing is left of the local region: an empty local region stands for everything, so
  the next time the screen changes the device context draws where it was told not to.
\<close>

lemma excluding_everything_is_forgotten:
  assumes "dc_fits s d ps" "rects (lcrgn d) = []" "s_age s (d_gcr d) \<noteq> oldage d" "d_hwnd d = 0"
  shows "\<exists>d'. mg_check_ecrgn s d = Some (Some d') \<and> rgn_pts (ecrgn d') = visible_pts s d ps"
proof -
  have d: "dc_ok d" "DCType d = TYPE_GENDC" "rgn_ok (s_crgn s (d_gcr d))" "placed s (d_hwnd d) ps"
    using assms(1) by (simp_all add: dc_fits_def dc_ok_def)
  have "selected (lcrgn d) = UNIV" using assms(2) by (simp add: selected_def)
  then show ?thesis
    using generate_pts [OF d(4,1,3)] assms d(2)
    by (auto simp: mg_check_ecrgn_def dc_GenerateECRgn_def dc_IsVisible_def shift_pts_def)
qed

subsection \<open>Properties\<close>

text \<open>A screen whose only visible region is that of window 1, and a device context without a local region.\<close>

definition demo_screen :: screen where
  "demo_screen = \<lparr>s_ctl = demo_ctls, s_rcScr = mk_rect 0 0 640 480,
     s_crgn = (\<lambda>_. \<lparr>rgn_type = SIMPLEREGION, rcBound = mk_rect 10 10 210 210, rects = [mk_rect 10 10 210 210]\<rparr>), s_age = (\<lambda>_. 1)\<rparr>"

definition demo_dc :: dc where
  "demo_dc = \<lparr>DCType = TYPE_GENDC, d_hwnd = 0, lcrgn = \<lparr>rgn_type = NULLREGION, rcBound = zero_rect, rects = []\<rparr>,
     ecrgn = \<lparr>rgn_type = NULLREGION, rcBound = zero_rect, rects = []\<rparr>, bIsClient = True, DevRC = zero_rect, d_gcr = 0, oldage = 0\<rparr>"

lemma demo_paint:
  "placed demo_screen 3 [1]" "placed demo_screen 1 []" "dc_ok demo_dc" "rgn_ok (s_crgn demo_screen g)" "inv_ok demo_wnds"
proof -
  show "placed demo_screen 3 [1]" "placed demo_screen 1 []"
    by (simp_all add: placed_def demo_screen_def demo_ctls_def blank_def rect_norm_def in_parents_def Control_def)
  show "dc_ok demo_dc" by (simp add: dc_ok_def demo_dc_def rgn_ok_def is_extents_def banded_def)
  show "rgn_ok (s_crgn demo_screen g)"
    using rgn_ok_single [of "mk_rect 10 10 210 210"] by (simp add: demo_screen_def rect_ok_def)
  show "inv_ok demo_wnds"
    by (auto simp: demo_wnds_def demo_ctls_def blank_def inv_ok_def heap_ok_def rgn_ok_def is_extents_def banded_def rect_norm_def)
qed

text \<open>C14.  Before a device context draws, its region is generated anew exactly when the age of the visible region of its window is not the
  one it has kept, and then lies within what can be seen now: the visible region, the window itself and the client areas above it.
  When the age is the same, the region lies within what could be seen when it was generated last, whatever is excluded and
  intersected since, and however the screen changed.  A call that includes or selects generates it anew at once.  Every call and every
  check before drawing returns.\<close>

theorem drawing_stays_visible:
  assumes "dc_run s ps d t qs"
  shows "(\<exists>r. mg_check_ecrgn s d = Some r \<and> (\<forall>d'. r = Some d' \<longrightarrow>
        (if oldage d \<noteq> s_age s (d_gcr d) then rgn_pts (ecrgn d') \<subseteq> visible_pts s d' ps else d' = d \<and> rgn_pts (ecrgn d') \<subseteq> visible_pts t d' qs)))
    \<and> (\<forall>op. op_ok op \<longrightarrow> (\<exists>d'. clip s op d = Some d'
        \<and> rgn_pts (ecrgn d') \<subseteq> (if regenerates op then visible_pts s d' ps else visible_pts t d' qs)))"
proof -
  have i: "dc_inside s ps d t qs" using dc_run_inside [OF assms] .
  obtain r where r: "mg_check_ecrgn s d = Some r" "\<forall>d'. r = Some d' \<longrightarrow>
      (if oldage d = s_age s (d_gcr d) then d' = d \<and> dc_inside s ps d' t qs else dc_inside s ps d' s ps)"
    using check_inside [OF i] by auto
  have "\<exists>d'. clip s op d = Some d' \<and> rgn_pts (ecrgn d') \<subseteq> (if regenerates op then visible_pts s d' ps else visible_pts t d' qs)"
    if "op_ok op" for op
    using chosen_inside [OF i that] narrowed_inside [OF i, of op] by (cases "regenerates op") (auto simp: dc_inside_def)
  then show ?thesis using r by (auto simp: dc_inside_def)
qed

theorem drawing_stays_visible_witness:
  "\<exists>d. dc_run demo_screen [1] d demo_screen [1]
     \<and> (\<exists>d'. clip demo_screen (Include (mk_rect 0 0 500 500)) d = Some d' \<and> rgn_pts (ecrgn d') \<subseteq> visible_pts demo_screen d' [1])"
proof -
  obtain d where "dc_InitDC demo_screen demo_dc 3 1 True = Some d"
    using InitDC_fits [OF demo_paint(1,3,4)] by blast
  then have r: "dc_run demo_screen [1] d demo_screen [1]" by (rule dc_run.got [OF demo_paint(3,1,4)])
  have "op_ok (Include (mk_rect 0 0 500 500))" by simp
  then show ?thesis using drawing_stays_visible [OF r] r by (metis (no_types, lifting))
qed

text \<open>
  So a device context that is held while its window moves without a new age, as \<open>MoveWindow\<close> moves a control, still draws at the old place:
  the check changes nothing, whatever the screen is.
\<close>

lemma same_age_draws_on:
  assumes "dc_run s ps d t qs" "oldage d = s_age s (d_gcr d)" "dc_IsVisible s d = Some True"
  shows "mg_check_ecrgn s d = Some (Some d)"
  using assms dc_run_inside [OF assms(1)] by (simp add: mg_check_ecrgn_def dc_GenerateECRgn_def dc_inside_def dc_ok_def)

text \<open>C15.  \<open>BeginPaint\<close> lets a window paint exactly the invalid points of its client area that can be seen, without the visible children
  when it clips them, or all of the client area that can be seen when nothing was invalid; afterwards nothing of this window
  is invalid, and the other windows and the tree are as before.\<close>

theorem BeginPaint_paints_invalid:
  assumes "dc_fits s d ps" "d_hwnd d = h" "h \<noteq> 0" "bIsClient d" "ctl w = s_ctl s" "inv_ok w"
    and "dlist (ctl w) 0 (c_children (ctl w h)) ch" "\<And>x. x \<in> set ch \<Longrightarrow> rect_norm (c_win (ctl w x))" "R = dev_of s True h ps"
  shows "\<exists>d' w'. BeginPaint s h d w = Some (d', w') \<and> DevRC d' = R
    \<and> rgn_pts (ecrgn d') = visible_pts s d ps \<inter> shift_pts R (if rects (inv w (Heap h)) = [] then UNIV else inv_pts w h)
        - (if c_exstyle (ctl w h) AND WS_EX_CLIPCHILDREN \<noteq> 0 then \<Union>x \<in> {x \<in> set ch. c_visible (ctl w x)}. shift_pts R (rect_pts (c_win (ctl w x))) else {})
    \<and> ctl w' = ctl w \<and> inv_ok w' \<and> inv_pts w' h = {} \<and> (\<forall>a. a \<noteq> h \<longrightarrow> inv_pts w' a = inv_pts w a)"
  using BeginPaint_pts [OF assms(1-7) _ assms(9)] assms(8) by blast

theorem BeginPaint_paints_invalid_witness:
  "\<exists>d d' w'. dc_fits demo_screen d [] \<and> BeginPaint demo_screen 1 d demo_wnds = Some (d', w') \<and> DevRC d' = mk_rect 12 40 208 208"
proof -
  obtain d where d: "dc_fits demo_screen d []" "d_hwnd d = 1" "bIsClient d"
    using InitDC_fits [OF demo_paint(2,3,4)] by blast
  have c: "ctl demo_wnds = s_ctl demo_screen" by (simp add: demo_wnds_def demo_screen_def)
  have l: "dlist (ctl demo_wnds) 0 (c_children (ctl demo_wnds 1)) [2, 3]" "\<forall>x. x \<in> set [2, 3] \<longrightarrow> rect_norm (c_win (ctl demo_wnds x))"
    by (auto simp: demo_wnds_def demo_ctls_def blank_def rect_norm_def)
  have R: "mk_rect 12 40 208 208 = dev_of demo_screen True 1 []" "(1 :: nat) \<noteq> 0"
    by (simp_all add: dev_of_def demo_screen_def demo_ctls_def off_x_def off_y_def OffsetRect_def)
  from BeginPaint_paints_invalid [OF d(1,2) R(2) d(3) c demo_paint(5) l(1) mp [OF spec [OF l(2)]] R(1)]
  show ?thesis using d(1) by blast
qed

end
