(* ===== verification/Win_Frame.thy ===== *)
theory Win_Frame
  imports Complex_Main Rect Desktop "HOL-Library.Signed_Division"
begin

section \<open>Windows: frames and scroll bars (src/gui/window.c)\<close>

text \<open>
  The frame of a window, its client area and its scroll bars.  \<open>m\<close> is the array \<open>WinMainMetrics\<close>, which the
  configuration fills, and \<open>rnd\<close> the rounding of a number to a float, which C leaves to the machine.  The lengths of
  a bar are computed without sign in the code, and are so here; positions are integers, far from the ends of
  their type.  A division by zero is \<open>None\<close>.  The bars have the length of their page (\<open>_USE_FIXED_SB_BARLEN\<close> is
  not defined); what the functions draw, the pressed arrows too, is left out.
\<close>

definition WS_CAPTION :: style where "WS_CAPTION = 0x20000000"
definition WS_BORDER :: style where "WS_BORDER = 0x00400000"
definition WS_THICKFRAME :: style where "WS_THICKFRAME = 0x00200000"
definition WS_THINFRAME :: style where "WS_THINFRAME = 0x00100000"
definition WS_VSCROLL :: style where "WS_VSCROLL = 0x00080000"
definition WS_HSCROLL :: style where "WS_HSCROLL = 0x00040000"

definition MWM_MINWIDTH :: nat where "MWM_MINWIDTH = 0"
definition MWM_BORDER :: nat where "MWM_BORDER = 2"
definition MWM_THICKFRAME :: nat where "MWM_THICKFRAME = 3"
definition MWM_THINFRAME :: nat where "MWM_THINFRAME = 4"
definition MWM_CAPTIONY :: nat where "MWM_CAPTIONY = 5"
definition MWM_MENUBARY :: nat where "MWM_MENUBARY = 8"
definition MWM_MENUBAROFFY :: nat where "MWM_MENUBAROFFY = 10"
definition MWM_CXVSCROLL :: nat where "MWM_CXVSCROLL = 25"
definition MWM_CYVSCROLL :: nat where "MWM_CYVSCROLL = 26"
definition MWM_CXHSCROLL :: nat where "MWM_CXHSCROLL = 27"
definition MWM_CYHSCROLL :: nat where "MWM_CYHSCROLL = 28"
definition MWM_MINBARLEN :: nat where "MWM_MINBARLEN = 29"
definition MWM_DEFBARLEN :: nat where "MWM_DEFBARLEN = 30"

type_synonym metrics = "nat \<Rightarrow> int"

subsection \<open>State\<close>

definition SBS_DISABLED :: "8 word" where "SBS_DISABLED = 1"
definition SBS_HIDE :: "8 word" where "SBS_HIDE = 2"

record scrollbar =
  minPos :: int
  maxPos :: int
  curPos :: int
  pageStep :: int
  barStart :: int
  barLen :: int
  status :: "8 word"

record frame =
  f_main :: bool
  f_win :: rect
  f_client :: rect
  f_style :: style
  f_menu :: bool
  hscroll :: scrollbar
  vscroll :: scrollbar

definition styled :: "style \<Rightarrow> style \<Rightarrow> bool" where "styled s b \<longleftrightarrow> s AND b \<noteq> 0"
definition hidden :: "scrollbar \<Rightarrow> bool" where "hidden sb \<longleftrightarrow> status sb AND SBS_HIDE \<noteq> 0"
definition sb_disabled :: "scrollbar \<Rightarrow> bool" where "sb_disabled sb \<longleftrightarrow> status sb AND SBS_DISABLED \<noteq> 0"

text \<open>What \<open>CreateWindowEx\<close> and \<open>CreateMainWindow\<close> put into a scroll bar.\<close>

definition new_scrollbar :: "bool \<Rightarrow> scrollbar \<Rightarrow> scrollbar" where
  "new_scrollbar wanted sb =
     (if wanted then \<lparr>minPos = 0, maxPos = 100, curPos = 0, pageStep = 0, barStart = 0, barLen = 10, status = 0\<rparr>
      else sb\<lparr>status := SBS_HIDE OR SBS_DISABLED\<rparr>)"

subsection \<open>Rectangles of the frame\<close>

text \<open>The rectangles of the bars are read only for a style with the bar; without it the bar is disabled.\<close>

definition border_of :: "metrics \<Rightarrow> style \<Rightarrow> int" where
  "border_of m s =
     (if styled s WS_BORDER then m MWM_BORDER
      else if styled s WS_THICKFRAME then m MWM_THICKFRAME
      else if styled s WS_THINFRAME then m MWM_THINFRAME else 0)"

definition wndGetBorder :: "metrics \<Rightarrow> frame \<Rightarrow> int" where
  "wndGetBorder m f = border_of m (f_style f)"

definition wndGetVScrollBarRect :: "metrics \<Rightarrow> frame \<Rightarrow> rect" where
  "wndGetVScrollBarRect m f =
     (let b = wndGetBorder m f;
          bottom = rbottom (f_win f) - b
      in mk_rect (rright (f_win f) - m MWM_CXVSCROLL - b) (rtop (f_client f)) (rright (f_win f) - b)
           (if styled (f_style f) WS_HSCROLL \<and> \<not> hidden (hscroll f) then bottom - m MWM_CYHSCROLL else bottom))"

definition wndGetHScrollBarRect :: "metrics \<Rightarrow> frame \<Rightarrow> rect" where
  "wndGetHScrollBarRect m f =
     (let b = wndGetBorder m f;
          right = rright (f_win f) - b
      in mk_rect (rleft (f_client f)) (rbottom (f_win f) - m MWM_CYHSCROLL - b)
           (if styled (f_style f) WS_VSCROLL \<and> \<not> hidden (vscroll f) then right - m MWM_CXVSCROLL else right) (rbottom (f_win f) - b))"

definition ClientWidthToWindowWidth :: "metrics \<Rightarrow> style \<Rightarrow> int \<Rightarrow> int" where
  "ClientWidthToWindowWidth m s cw =
     (let iScroll = (if styled s WS_VSCROLL then m MWM_CXVSCROLL else 0)
      in cw + 2 * border_of m s + iScroll)"

definition menu_height :: "metrics \<Rightarrow> int" where
  "menu_height m = m MWM_MENUBARY + 2 * m MWM_MENUBAROFFY"

definition ClientHeightToWindowHeight :: "metrics \<Rightarrow> style \<Rightarrow> int \<Rightarrow> bool \<Rightarrow> int" where
  "ClientHeightToWindowHeight m s ch hasMenu =
     (let iScroll = (if styled s WS_HSCROLL then m MWM_CYHSCROLL else 0);
          iCaption = (if styled s WS_CAPTION then m MWM_CAPTIONY else 0);
          iMenu = (if hasMenu then menu_height m else 0)
      in ch + 2 * border_of m s + iCaption + iScroll + iMenu)"

subsection \<open>The bar of a scroll bar\<close>

definition to_uint :: "int \<Rightarrow> int" where "to_uint x = x mod 2 ^ 32"
definition to_sint :: "int \<Rightarrow> int" where "to_sint x = (x + 2 ^ 31) mod 2 ^ 32 - 2 ^ 31"

text \<open>\<open>(int) (p * 1.0f / q + 0.5)\<close>\<close>

definition round_quot :: "(rat \<Rightarrow> rat) \<Rightarrow> int \<Rightarrow> int \<Rightarrow> int" where
  "round_quot rnd p q = (let x = rnd (rnd (of_int p) / rnd (of_int q)) + 1 / 2 in if x \<ge> 0 then \<lfloor>x\<rfloor> else \<lceil>x\<rceil>)"

definition place_bar :: "(rat \<Rightarrow> rat) \<Rightarrow> metrics \<Rightarrow> int \<Rightarrow> scrollbar \<Rightarrow> scrollbar" where
  "place_bar rnd m space sb =
     (if minPos sb = maxPos sb then sb\<lparr>status := status sb OR SBS_HIDE\<rparr>
      else
        let moveRange = to_uint space;
            n = maxPos sb - minPos sb + 1;
            len = (if pageStep sb = 0
                   then (if to_uint (m MWM_DEFBARLEN) > moveRange then m MWM_MINBARLEN else m MWM_DEFBARLEN)
                   else let l = round_quot rnd (to_uint (moveRange * pageStep sb)) n
                        in if l < m MWM_MINBARLEN then m MWM_MINBARLEN else l);
            start = round_quot rnd (to_uint (moveRange * (curPos sb - minPos sb))) n;
            start = (if to_uint (start + len) > moveRange then to_sint (moveRange - len) else start);
            start = (if start < 0 then 0 else start)
        in sb\<lparr>barLen := len, barStart := start\<rparr>)"

definition wndScrollBarPos :: "(rat \<Rightarrow> rat) \<Rightarrow> metrics \<Rightarrow> bool \<Rightarrow> rect \<Rightarrow> frame \<Rightarrow> frame" where
  "wndScrollBarPos rnd m bIsHBar rc f =
     (if bIsHBar then f\<lparr>hscroll := place_bar rnd m (rright rc - rleft rc - 2 * m MWM_CXHSCROLL) (hscroll f)\<rparr>
      else f\<lparr>vscroll := place_bar rnd m (rbottom rc - rtop rc - 2 * m MWM_CYVSCROLL) (vscroll f)\<rparr>)"

subsection \<open>Sizing\<close>

definition min_size :: "metrics \<Rightarrow> frame \<Rightarrow> int \<times> int" where
  "min_size m f =
     (let caption = (if styled (f_style f) WS_CAPTION then m MWM_CAPTIONY else 0);
          menu = (if f_main f \<and> f_menu f then menu_height m else 0);
          v = styled (f_style f) WS_VSCROLL; h = styled (f_style f) WS_HSCROLL
      in ((if v then m MWM_CXVSCROLL else 0) + (if f_main f then m MWM_MINWIDTH else 0)
            + (if h then 2 * m MWM_CXHSCROLL + 2 * m MWM_MINBARLEN else 0),
          menu + 2 * caption + (if v then 2 * m MWM_CYVSCROLL + 2 * m MWM_MINBARLEN else 0)
            + (if h then m MWM_CYHSCROLL else 0)))"

definition sized :: "metrics \<Rightarrow> frame \<Rightarrow> rect \<Rightarrow> rect" where
  "sized m f r =
     (let (minWidth, minHeight) = min_size m f;
          r = (if minHeight > rbottom r - rtop r \<and> rbottom r \<noteq> rtop r then r\<lparr>rbottom := rtop r + minHeight\<rparr> else r)
      in if rright r < rleft r + minWidth \<and> rright r \<noteq> rleft r then r\<lparr>rright := rleft r + minWidth\<rparr> else r)"

definition OnChangeSize :: "(rat \<Rightarrow> rat) \<Rightarrow> metrics \<Rightarrow> rect option \<Rightarrow> frame \<Rightarrow> frame" where
  "OnChangeSize rnd m pDestRect f =
     (let b = wndGetBorder m f;
          caption = (if styled (f_style f) WS_CAPTION then m MWM_CAPTIONY else 0);
          menu = (if f_main f \<and> f_menu f then menu_height m else 0);
          f = (case pDestRect of Some r \<Rightarrow> f\<lparr>f_win := sized m f r\<rparr> | None \<Rightarrow> f);
          w = f_win f;
          f = f\<lparr>f_client := mk_rect (rleft w + b) (rtop w + b + caption + menu) (rright w - b) (rbottom w - b)\<rparr>;
          f = (if styled (f_style f) WS_HSCROLL \<and> \<not> hidden (hscroll f)
               then let f = wndScrollBarPos rnd m True (wndGetHScrollBarRect m f) f
                    in f\<lparr>f_client := (f_client f)\<lparr>rbottom := rbottom (f_client f) - m MWM_CYHSCROLL\<rparr>\<rparr>
               else f)
      in if styled (f_style f) WS_VSCROLL \<and> \<not> hidden (vscroll f)
         then let f = wndScrollBarPos rnd m False (wndGetVScrollBarRect m f) f
              in f\<lparr>f_client := (f_client f)\<lparr>rright := rright (f_client f) - m MWM_CXVSCROLL\<rparr>\<rparr>
         else f)"

subsection \<open>Positions\<close>

definition SB_HORZ :: int where "SB_HORZ = 1"
definition SB_VERT :: int where "SB_VERT = 2"

definition wndGetScrollBar :: "frame \<Rightarrow> int \<Rightarrow> scrollbar option" where
  "wndGetScrollBar f iSBar =
     (if iSBar = SB_HORZ then (if styled (f_style f) WS_HSCROLL then Some (hscroll f) else None)
      else if iSBar = SB_VERT then (if styled (f_style f) WS_VSCROLL then Some (vscroll f) else None)
      else None)"

definition put_scrollbar :: "int \<Rightarrow> scrollbar \<Rightarrow> frame \<Rightarrow> frame" where
  "put_scrollbar iSBar sb f = (if iSBar = SB_HORZ then f\<lparr>hscroll := sb\<rparr> else f\<lparr>vscroll := sb\<rparr>)"

text \<open>The rectangle of the bar in the window, from which the code places it again.\<close>

definition replace_bar :: "(rat \<Rightarrow> rat) \<Rightarrow> metrics \<Rightarrow> int \<Rightarrow> frame \<Rightarrow> frame" where
  "replace_bar rnd m iSBar f =
     (let rc = (if iSBar = SB_VERT then wndGetVScrollBarRect m f else wndGetHScrollBarRect m f)
      in wndScrollBarPos rnd m (iSBar = SB_HORZ) (OffsetRect rc (- rleft (f_win f)) (- rtop (f_win f))) f)"

definition below_max :: "scrollbar \<Rightarrow> scrollbar" where
  "below_max sb =
     (let mx = maxPos sb - (if pageStep sb - 1 > 0 then pageStep sb - 1 else 0)
      in if curPos sb > mx then sb\<lparr>curPos := mx\<rparr> else sb)"

definition check_page :: "scrollbar \<Rightarrow> scrollbar" where
  "check_page sb =
     (if pageStep sb \<le> 0 then sb\<lparr>pageStep := 0\<rparr>
      else if pageStep sb > maxPos sb - minPos sb + 1 then sb\<lparr>pageStep := maxPos sb - minPos sb + 1\<rparr> else sb)"

definition EnableScrollBar :: "int \<Rightarrow> bool \<Rightarrow> frame \<Rightarrow> bool \<times> frame" where
  "EnableScrollBar iSBar bEnable f =
     (case wndGetScrollBar f iSBar of
        None \<Rightarrow> (False, f)
      | Some sb \<Rightarrow>
          if bEnable \<and> sb_disabled sb then (True, put_scrollbar iSBar (sb\<lparr>status := status sb AND NOT SBS_DISABLED\<rparr>) f)
          else if \<not> bEnable \<and> \<not> sb_disabled sb then (True, put_scrollbar iSBar (sb\<lparr>status := status sb OR SBS_DISABLED\<rparr>) f)
          else (False, f))"

definition ShowScrollBar :: "(rat \<Rightarrow> rat) \<Rightarrow> metrics \<Rightarrow> int \<Rightarrow> bool \<Rightarrow> frame \<Rightarrow> bool \<times> frame" where
  "ShowScrollBar rnd m iSBar bShow f =
     (case wndGetScrollBar f iSBar of
        None \<Rightarrow> (False, f)
      | Some sb \<Rightarrow>
          if bShow \<and> hidden sb
          then (True, OnChangeSize rnd m None (put_scrollbar iSBar (sb\<lparr>status := status sb AND NOT SBS_HIDE\<rparr>) f))
          else if \<not> bShow \<and> \<not> hidden sb
          then (True, OnChangeSize rnd m None (put_scrollbar iSBar (sb\<lparr>status := status sb OR SBS_HIDE\<rparr>) f))
          else (False, f))"

definition GetScrollPos :: "int \<Rightarrow> frame \<Rightarrow> int option" where
  "GetScrollPos iSBar f = map_option curPos (wndGetScrollBar f iSBar)"

definition GetScrollRange :: "int \<Rightarrow> frame \<Rightarrow> (int \<times> int) option" where
  "GetScrollRange iSBar f = map_option (\<lambda>sb. (minPos sb, maxPos sb)) (wndGetScrollBar f iSBar)"

definition SetScrollPos :: "(rat \<Rightarrow> rat) \<Rightarrow> metrics \<Rightarrow> int \<Rightarrow> int \<Rightarrow> frame \<Rightarrow> bool \<times> frame" where
  "SetScrollPos rnd m iSBar iNewPos f =
     (case wndGetScrollBar f iSBar of
        None \<Rightarrow> (False, f)
      | Some sb \<Rightarrow>
          if iNewPos = curPos sb then (True, f)
          else
            let sb = sb\<lparr>curPos := (if iNewPos < minPos sb then minPos sb else iNewPos)\<rparr>
            in (True, replace_bar rnd m iSBar (put_scrollbar iSBar (below_max sb) f)))"

definition SetScrollRange :: "(rat \<Rightarrow> rat) \<Rightarrow> metrics \<Rightarrow> int \<Rightarrow> int \<Rightarrow> int \<Rightarrow> frame \<Rightarrow> bool \<times> frame" where
  "SetScrollRange rnd m iSBar iMinPos iMaxPos f =
     (case wndGetScrollBar f iSBar of
        None \<Rightarrow> (False, f)
      | Some sb \<Rightarrow>
          if iMinPos = minPos sb \<and> iMaxPos = maxPos sb then (True, f)
          else
            let sb = sb\<lparr>minPos := (if iMinPos < iMaxPos then iMinPos else iMaxPos),
                        maxPos := (if iMinPos > iMaxPos then iMinPos else iMaxPos)\<rparr>;
                sb = (if curPos sb < minPos sb then sb\<lparr>curPos := minPos sb\<rparr> else sb);
                sb = below_max (check_page sb)
            in (True, replace_bar rnd m iSBar (put_scrollbar iSBar sb f)))"

text \<open>A field of \<open>SCROLLINFO\<close> that its mask does not name is \<open>None\<close>; \<open>nPage\<close>, which has no sign, is the integer it is stored as.\<close>

record scrollinfo =
  si_range :: "(int \<times> int) option"
  si_page :: "int option"
  si_pos :: "int option"

definition SetScrollInfo :: "(rat \<Rightarrow> rat) \<Rightarrow> metrics \<Rightarrow> int \<Rightarrow> scrollinfo \<Rightarrow> bool \<Rightarrow> frame \<Rightarrow> bool \<times> frame" where
  "SetScrollInfo rnd m iSBar si fRedraw f =
     (case wndGetScrollBar f iSBar of
        None \<Rightarrow> (False, f)
      | Some sb \<Rightarrow>
          let range = (case si_range si of Some (lo, hi) \<Rightarrow> minPos sb \<noteq> lo \<or> maxPos sb \<noteq> hi | None \<Rightarrow> False);
              pos = (case si_pos si of Some p \<Rightarrow> curPos sb \<noteq> p | None \<Rightarrow> False);
              page = (case si_page si of Some p \<Rightarrow> pageStep sb \<noteq> p | None \<Rightarrow> False)
          in if \<not> range \<and> \<not> pos \<and> \<not> page then (True, f)
             else if pos \<and> \<not> range \<and> \<not> page then SetScrollPos rnd m iSBar (the (si_pos si)) f
             else
               let sb = (if range then (case the (si_range si) of (lo, hi) \<Rightarrow>
                           sb\<lparr>minPos := (if lo < hi then lo else hi), maxPos := (if lo < hi then hi else lo)\<rparr>) else sb);
                   sb = (if pos then sb\<lparr>curPos := the (si_pos si)\<rparr> else sb);
                   sb = (if page then sb\<lparr>pageStep := the (si_page si)\<rparr> else sb);
                   sb = (if curPos sb < minPos sb then sb\<lparr>curPos := minPos sb\<rparr> else sb);
                   f = put_scrollbar iSBar (below_max (check_page sb)) f
               in (True, if fRedraw then replace_bar rnd m iSBar f else f))"

subsection \<open>Where the mouse is\<close>

datatype sbpos = SBPOS_UNKNOWN | SBPOS_LEFTARROW | SBPOS_RIGHTARROW | SBPOS_LEFTSPACE | SBPOS_RIGHTSPACE
  | SBPOS_UPARROW | SBPOS_DOWNARROW | SBPOS_UPSPACE | SBPOS_DOWNSPACE | SBPOS_THUMB

definition wndGetHScrollBarPos :: "metrics \<Rightarrow> frame \<Rightarrow> int \<Rightarrow> int \<Rightarrow> sbpos" where
  "wndGetHScrollBarPos m f x y =
     (let sb = hscroll f; rc = wndGetHScrollBarRect m f; a = m MWM_CXHSCROLL in
      if sb_disabled sb then SBPOS_UNKNOWN
      else if \<not> PtInRect rc x y then SBPOS_UNKNOWN
      else if PtInRect (rc\<lparr>rright := rleft rc + a\<rparr>) x y then SBPOS_LEFTARROW
      else if PtInRect (rc\<lparr>rleft := rright rc - a\<rparr>) x y then SBPOS_RIGHTARROW
      else if x < rleft rc + barStart sb + a then SBPOS_LEFTSPACE
      else if x > rleft rc + barStart sb + barLen sb + a then SBPOS_RIGHTSPACE
      else SBPOS_THUMB)"

definition wndGetVScrollBarPos :: "metrics \<Rightarrow> frame \<Rightarrow> int \<Rightarrow> int \<Rightarrow> sbpos" where
  "wndGetVScrollBarPos m f x y =
     (let sb = vscroll f; rc = wndGetVScrollBarRect m f; a = m MWM_CYVSCROLL in
      if sb_disabled sb then SBPOS_UNKNOWN
      else if \<not> PtInRect rc x y then SBPOS_UNKNOWN
      else if PtInRect (rc\<lparr>rbottom := rtop rc + a\<rparr>) x y then SBPOS_UPARROW
      else if PtInRect (rc\<lparr>rtop := rbottom rc - a\<rparr>) x y then SBPOS_DOWNARROW
      else if y < rtop rc + barStart sb + a then SBPOS_UPSPACE
      else if y > rtop rc + barStart sb + barLen sb + a then SBPOS_DOWNSPACE
      else SBPOS_THUMB)"

subsection \<open>Dragging the thumb\<close>

datatype sbcode = SB_NONE | SB_LINEUP | SB_LINEDOWN | SB_LINELEFT | SB_LINERIGHT | SB_PAGEUP | SB_PAGEDOWN | SB_PAGELEFT | SB_PAGERIGHT
  | SB_THUMBPOSITION | SB_THUMBTRACK | SB_ENDSCROLL

datatype nc_mouse = NCLBUTTONDOWN | NCLBUTTONUP | NCMOUSEMOVE

datatype sb_event = Notify_SCROLL sbcode int | AutoRepeat sbcode int | NoRepeat

text \<open>The static variables of \<open>wndHandleHScrollBar\<close>, and again of \<open>wndHandleVScrollBar\<close>; both are shared by all windows.\<close>

record sb_track =
  downPos :: sbpos
  movePos :: sbpos
  sbCode :: sbcode
  oldBarStart :: int
  oldThumbPos :: int
  old_at :: int

text \<open>The code a press at a place sends, \<open>None\<close> when the position is already at that end.\<close>

definition press_code :: "scrollbar \<Rightarrow> sbpos \<Rightarrow> sbcode \<Rightarrow> sbcode option" where
  "press_code sb p old =
     (let down = (\<lambda>c. if curPos sb = minPos sb then None else Some c); up = (\<lambda>c. if curPos sb = maxPos sb then None else Some c)
      in case p of
           SBPOS_LEFTARROW \<Rightarrow> down SB_LINELEFT | SBPOS_RIGHTARROW \<Rightarrow> up SB_LINERIGHT
         | SBPOS_LEFTSPACE \<Rightarrow> down SB_PAGELEFT | SBPOS_RIGHTSPACE \<Rightarrow> up SB_PAGERIGHT
         | SBPOS_UPARROW \<Rightarrow> down SB_LINEUP | SBPOS_DOWNARROW \<Rightarrow> up SB_LINEDOWN
         | SBPOS_UPSPACE \<Rightarrow> down SB_PAGEUP | SBPOS_DOWNSPACE \<Rightarrow> up SB_PAGEDOWN
         | SBPOS_UNKNOWN \<Rightarrow> Some old | SBPOS_THUMB \<Rightarrow> None)"

definition thumb_pos :: "scrollbar \<Rightarrow> int \<Rightarrow> int \<Rightarrow> int option" where
  "thumb_pos sb newBarStart width =
     (if width = 0 then None
      else
        let p = (newBarStart * (maxPos sb - minPos sb + 1)) sdiv width + minPos sb;
            p = (if p < minPos sb then minPos sb else p)
        in Some (if p > maxPos sb then maxPos sb else p))"

text \<open>\<open>pos_at\<close> is the coordinate along the bar and \<open>width\<close> the room between its arrows; the result is the code's, the variables and what is sent.\<close>

definition handle_bar :: "scrollbar \<Rightarrow> int \<Rightarrow> sbpos \<Rightarrow> nc_mouse \<Rightarrow> int \<Rightarrow> sb_track \<Rightarrow> (int \<times> sb_track \<times> sb_event list) option" where
  "handle_bar sb width here msg pos_at t =
     (if here = SBPOS_UNKNOWN \<and> downPos t = SBPOS_UNKNOWN then Some (0, t, [])
      else case msg of
        NCLBUTTONDOWN \<Rightarrow>
          let t = t\<lparr>oldBarStart := barStart sb, oldThumbPos := curPos sb, old_at := pos_at, downPos := here, movePos := here\<rparr>
          in (case press_code sb here (sbCode t) of
                Some c \<Rightarrow> Some (1, t\<lparr>sbCode := c\<rparr>, [Notify_SCROLL c pos_at, AutoRepeat c pos_at])
              | None \<Rightarrow> Some (1, if here = SBPOS_THUMB then t\<lparr>sbCode := SB_THUMBTRACK\<rparr> else t, []))
      | NCLBUTTONUP \<Rightarrow>
          let up = t\<lparr>downPos := SBPOS_UNKNOWN, movePos := SBPOS_UNKNOWN\<rparr> in
          if sbCode t = SB_THUMBTRACK \<and> downPos t = SBPOS_THUMB then
            let newBarStart = oldBarStart t + pos_at - old_at t in
            map_option (\<lambda>p. (-1, up, if newBarStart \<noteq> oldBarStart t then [Notify_SCROLL SB_THUMBPOSITION p] else []))
              (thumb_pos sb newBarStart width)
          else Some (-1, up, if downPos t \<noteq> SBPOS_UNKNOWN then [Notify_SCROLL SB_ENDSCROLL 0, NoRepeat] else [])
      | NCMOUSEMOVE \<Rightarrow>
          if sbCode t = SB_THUMBTRACK \<and> downPos t = SBPOS_THUMB then
            map_option (\<lambda>p. (1, t\<lparr>oldThumbPos := p, movePos := here\<rparr>,
                if p \<noteq> oldThumbPos t then [Notify_SCROLL SB_THUMBTRACK p] else []))
              (thumb_pos sb (oldBarStart t + pos_at - old_at t) width)
          else Some (1, t\<lparr>movePos := here\<rparr>, []))"

definition wndHandleHScrollBar :: "metrics \<Rightarrow> frame \<Rightarrow> nc_mouse \<Rightarrow> int \<Rightarrow> int \<Rightarrow> sb_track \<Rightarrow> (int \<times> sb_track \<times> sb_event list) option" where
  "wndHandleHScrollBar m f msg x y t =
     (let rc = wndGetHScrollBarRect m f
      in handle_bar (hscroll f) ((rright rc - m MWM_CXHSCROLL) - (rleft rc + m MWM_CXHSCROLL)) (wndGetHScrollBarPos m f x y) msg x t)"

definition wndHandleVScrollBar :: "metrics \<Rightarrow> frame \<Rightarrow> nc_mouse \<Rightarrow> int \<Rightarrow> int \<Rightarrow> sb_track \<Rightarrow> (int \<times> sb_track \<times> sb_event list) option" where
  "wndHandleVScrollBar m f msg x y t =
     (let rc = wndGetVScrollBarRect m f
      in handle_bar (vscroll f) ((rbottom rc - m MWM_CYVSCROLL) - (rtop rc + m MWM_CYVSCROLL)) (wndGetVScrollBarPos m f x y) msg y t)"

end
