(* ===== verification/Win_Frame_Props.thy ===== *)
theory Win_Frame_Props
  imports Win_Frame
begin

section \<open>Windows: properties of frames and scroll bars\<close>

text \<open>
  The size of a window for a client area and back, the range of the scroll positions over every sequence of calls, the
  place of the bar between the arrows, and what dragging the thumb reports.
\<close>

subsection \<open>Positions\<close>

definition sb_ok :: "scrollbar \<Rightarrow> bool" where
  "sb_ok sb \<longleftrightarrow> minPos sb \<le> maxPos sb \<and> 0 \<le> pageStep sb \<and> pageStep sb \<le> maxPos sb - minPos sb + 1
     \<and> minPos sb \<le> curPos sb \<and> curPos sb \<le> maxPos sb - max 0 (pageStep sb - 1)"

text \<open>Two bars that differ only in how they are drawn.\<close>

definition same_pos :: "scrollbar \<Rightarrow> scrollbar \<Rightarrow> bool" where
  "same_pos a b \<longleftrightarrow> minPos a = minPos b \<and> maxPos a = maxPos b \<and> curPos a = curPos b \<and> pageStep a = pageStep b"

lemma same_pos_ok: "same_pos a b \<Longrightarrow> sb_ok a = sb_ok b"
  by (simp add: same_pos_def sb_ok_def)

lemma place_bar_same: "same_pos (place_bar rnd m s sb) sb"
  by (simp add: place_bar_def same_pos_def Let_def)

definition bars_ok :: "frame \<Rightarrow> bool" where
  "bars_ok f \<longleftrightarrow> (styled (f_style f) WS_HSCROLL \<longrightarrow> sb_ok (hscroll f)) \<and> (styled (f_style f) WS_VSCROLL \<longrightarrow> sb_ok (vscroll f))"

lemma wndScrollBarPos_ok [simp]: "bars_ok (wndScrollBarPos rnd m h rc f) = bars_ok f"
  using same_pos_ok [OF place_bar_same] by (simp add: bars_ok_def wndScrollBarPos_def)

lemma replace_bar_ok [simp]: "bars_ok (replace_bar rnd m i f) = bars_ok f"
  by (simp add: replace_bar_def Let_def)

lemma bars_ok_rects [simp]: "bars_ok (f\<lparr>f_win := r\<rparr>) = bars_ok f" "bars_ok (f\<lparr>f_client := r\<rparr>) = bars_ok f"
  by (simp_all add: bars_ok_def)

lemma OnChangeSize_ok [simp]: "bars_ok (OnChangeSize rnd m r f) = bars_ok f"
  by (simp add: OnChangeSize_def Let_def split: option.splits)

lemma put_scrollbar_ok:
  "bars_ok f \<Longrightarrow> wndGetScrollBar f i = Some sb \<Longrightarrow> sb_ok sb' \<Longrightarrow> bars_ok (put_scrollbar i sb' f)"
  by (auto simp: bars_ok_def put_scrollbar_def wndGetScrollBar_def split: if_splits)

lemma get_ok: "bars_ok f \<Longrightarrow> wndGetScrollBar f i = Some sb \<Longrightarrow> sb_ok sb"
  by (auto simp: bars_ok_def wndGetScrollBar_def split: if_splits)

text \<open>The two repairs put any position and page into an ordered range.\<close>

lemma repaired_ok:
  "minPos sb \<le> maxPos sb \<Longrightarrow> minPos sb \<le> curPos sb \<Longrightarrow> sb_ok (below_max (check_page sb))"
  by (auto simp: below_max_def check_page_def sb_ok_def Let_def)

lemma below_max_ok:
  "minPos sb \<le> maxPos sb \<Longrightarrow> 0 \<le> pageStep sb \<Longrightarrow> pageStep sb \<le> maxPos sb - minPos sb + 1 \<Longrightarrow> minPos sb \<le> curPos sb
   \<Longrightarrow> sb_ok (below_max sb)"
  by (auto simp: below_max_def sb_ok_def Let_def)

datatype scroll_request = SetPos int int | SetRange int int int | SetInfo int scrollinfo bool | Enable int bool | Show int bool | Resize "rect option"

fun scroll_call :: "(rat \<Rightarrow> rat) \<Rightarrow> metrics \<Rightarrow> scroll_request \<Rightarrow> frame \<Rightarrow> frame" where
  "scroll_call rnd m (SetPos i p) f = snd (SetScrollPos rnd m i p f)"
| "scroll_call rnd m (SetRange i a b) f = snd (SetScrollRange rnd m i a b f)"
| "scroll_call rnd m (SetInfo i si r) f = snd (SetScrollInfo rnd m i si r f)"
| "scroll_call rnd m (Enable i b) f = snd (EnableScrollBar i b f)"
| "scroll_call rnd m (Show i b) f = snd (ShowScrollBar rnd m i b f)"
| "scroll_call rnd m (Resize r) f = OnChangeSize rnd m r f"

lemma SetScrollPos_ok: "bars_ok f \<Longrightarrow> bars_ok (snd (SetScrollPos rnd m i p f))"
  using get_ok [of f i]
  by (auto simp: SetScrollPos_def Let_def sb_ok_def intro!: put_scrollbar_ok below_max_ok split: option.splits)

lemma scroll_call_ok: "bars_ok f \<Longrightarrow> bars_ok (scroll_call rnd m c f)"
proof (cases c)
  case (SetPos i p)
  assume "bars_ok f"
  then show ?thesis using SetPos SetScrollPos_ok by simp
next
  case (SetRange i a b)
  assume "bars_ok f"
  then show ?thesis using SetRange
    by (auto simp: SetScrollRange_def Let_def intro!: put_scrollbar_ok repaired_ok split: option.splits)
next
  case (SetInfo i si r)
  assume ok: "bars_ok f"
  show ?thesis
  proof (cases "wndGetScrollBar f i")
    case None
    then show ?thesis using ok SetInfo by (simp add: SetScrollInfo_def)
  next
    case (Some sb)
    then have "sb_ok sb" using get_ok ok by blast
    then show ?thesis
      using Some ok SetInfo SetScrollPos_ok [OF ok]
      by (auto simp: SetScrollInfo_def Let_def sb_ok_def intro!: put_scrollbar_ok repaired_ok split: prod.splits)
  qed
next
  case (Enable i b)
  assume ok: "bars_ok f"
  then show ?thesis using Enable get_ok [OF ok]
    by (auto simp: EnableScrollBar_def sb_ok_def intro!: put_scrollbar_ok split: option.splits)
next
  case (Show i b)
  assume ok: "bars_ok f"
  then show ?thesis using Show get_ok [OF ok]
    by (auto simp: ShowScrollBar_def sb_ok_def intro!: put_scrollbar_ok split: option.splits)
next
  case (Resize r)
  assume "bars_ok f"
  then show ?thesis using Resize by simp
qed

lemma scroll_calls_ok: "bars_ok f \<Longrightarrow> bars_ok (fold (scroll_call rnd m) cs f)"
  by (induction cs arbitrary: f) (simp_all add: scroll_call_ok)

text \<open>C21.  Whatever the order in which an application sets positions, ranges and pages, enables, shows and hides the scroll
  bars and resizes the window, a bar of the window keeps its range ordered, its page no longer than the range, and its
  position inside the range, a page before its end: \<open>GetScrollPos\<close> and \<open>GetScrollRange\<close> always agree.\<close>
theorem scroll_positions_stay_in_range:
  assumes "bars_ok f"
  shows "let g = fold (scroll_call rnd m) cs f in bars_ok g
    \<and> (case (GetScrollRange i g, GetScrollPos i g) of (Some (lo, hi), Some p) \<Rightarrow> lo \<le> p \<and> p \<le> hi | (None, None) \<Rightarrow> True | _ \<Rightarrow> False)"
proof -
  have ok: "bars_ok (fold (scroll_call rnd m) cs f)" using assms by (rule scroll_calls_ok)
  then show ?thesis
    by (cases "wndGetScrollBar (fold (scroll_call rnd m) cs f) i")
      (auto simp: Let_def GetScrollRange_def GetScrollPos_def sb_ok_def max_def split: if_splits dest: get_ok [OF ok])
qed

definition demo_metrics :: metrics where
  "demo_metrics i = (if i \<in> {MWM_CXVSCROLL, MWM_CYVSCROLL, MWM_CXHSCROLL, MWM_CYHSCROLL} then 12
     else if i = MWM_MINBARLEN then 8 else if i = MWM_DEFBARLEN then 18 else 0)"

definition demo_frame :: frame where
  "demo_frame = \<lparr>f_main = False, f_win = mk_rect 0 0 124 80, f_client = mk_rect 0 0 124 68, f_style = WS_HSCROLL, f_menu = False,
     hscroll = new_scrollbar True undefined, vscroll = new_scrollbar False (new_scrollbar True undefined)\<rparr>"

lemma demo_bars_ok: "bars_ok demo_frame"
  by (simp add: bars_ok_def demo_frame_def new_scrollbar_def sb_ok_def styled_def WS_VSCROLL_def WS_HSCROLL_def)

theorem scroll_positions_stay_in_range_witness:
  "bars_ok (fold (scroll_call id demo_metrics)
     [SetRange SB_HORZ 20 10, SetPos SB_HORZ 500, SetInfo SB_HORZ \<lparr>si_range = Some (5, 9), si_page = Some 40, si_pos = None\<rparr> True]
     demo_frame)"
  using scroll_positions_stay_in_range [OF demo_bars_ok, where i = SB_HORZ] unfolding Let_def by blast

subsection \<open>Sizes\<close>

text \<open>The size that \<open>ClientWidthToWindowWidth\<close> and \<open>ClientHeightToWindowHeight\<close> compute is the one that leaves the client area
  its size, as long as the window need not be widened and shows the bars its style asks for.\<close>

definition rect_width :: "rect \<Rightarrow> int" where "rect_width r = rright r - rleft r"
definition rect_height :: "rect \<Rightarrow> int" where "rect_height r = rbottom r - rtop r"

definition bars_shown :: "frame \<Rightarrow> bool" where
  "bars_shown f \<longleftrightarrow> (styled (f_style f) WS_HSCROLL \<longrightarrow> \<not> hidden (hscroll f)) \<and> (styled (f_style f) WS_VSCROLL \<longrightarrow> \<not> hidden (vscroll f))"

lemma sized_id: "fst (min_size m f) \<le> rect_width r \<Longrightarrow> snd (min_size m f) \<le> rect_height r \<Longrightarrow> sized m f r = r"
  by (auto simp: sized_def rect_width_def rect_height_def split: prod.splits)

lemma client_size_round_trip:
  assumes "bars_shown f" and "fst (min_size m f) \<le> rect_width r" and "snd (min_size m f) \<le> rect_height r"
  shows "f_win (OnChangeSize rnd m (Some r) f) = r"
    and "ClientWidthToWindowWidth m (f_style f) (rect_width (f_client (OnChangeSize rnd m (Some r) f))) = rect_width r"
    and "ClientHeightToWindowHeight m (f_style f) (rect_height (f_client (OnChangeSize rnd m (Some r) f))) (f_main f \<and> f_menu f) = rect_height r"
  using assms sized_id [of m f r]
  by (auto simp: OnChangeSize_def Let_def bars_shown_def wndScrollBarPos_def wndGetBorder_def rect_width_def rect_height_def
      ClientWidthToWindowWidth_def ClientHeightToWindowHeight_def)

subsection \<open>The bar between the arrows\<close>

text \<open>What the machine promises of a number rounded to a float of 24 bits, whichever way it rounds.\<close>

definition float_rounding :: "(rat \<Rightarrow> rat) \<Rightarrow> bool" where
  "float_rounding rnd \<longleftrightarrow> (\<forall>x. \<bar>rnd x - x\<bar> \<le> \<bar>x\<bar> / 2 ^ 23)"

lemma float_rounding_bounds:
  assumes "float_rounding rnd" and "0 \<le> x"
  shows "x * (1 - 1 / 2 ^ 23) \<le> rnd x" and "rnd x \<le> x * (1 + 1 / 2 ^ 23)" and "0 \<le> rnd x"
proof -
  have "\<bar>rnd x - x\<bar> \<le> x / 2 ^ 23" using assms by (simp add: float_rounding_def) (metis abs_of_nonneg)
  from abs_le_D1 [OF this] abs_le_D2 [OF this] have d: "rnd x - x \<le> x / 2 ^ 23" "x - rnd x \<le> x / 2 ^ 23" by auto
  show "x * (1 - 1 / 2 ^ 23) \<le> rnd x" "rnd x \<le> x * (1 + 1 / 2 ^ 23)" using d by (simp_all add: field_simps)
  have "x / 2 ^ 23 \<le> x" using assms(2) by simp
  then show "0 \<le> rnd x" using d by linarith
qed

lemma rounded_quotient:
  assumes r: "float_rounding rnd" and p: "0 \<le> p" "p \<le> s * q" and q: "(0::rat) < q" and s: "0 \<le> s"
  shows "0 \<le> rnd (rnd p / rnd q)" and "rnd (rnd p / rnd q) \<le> s * (1 + 4 / 2 ^ 23)"
proof -
  note b = float_rounding_bounds [OF r]
  have q': "0 < q * (1 - 1 / 2 ^ 23)" using q by simp
  have pos: "0 < rnd q" using b(1) [of q] q' q by linarith
  have nonneg: "0 \<le> rnd p / rnd q" using b(3) [OF p(1)] pos by simp
  then show "0 \<le> rnd (rnd p / rnd q)" by (rule b(3))
  have "rnd p / rnd q \<le> (p * (1 + 1 / 2 ^ 23)) / (q * (1 - 1 / 2 ^ 23))"
    using b(1) [of q] b(2) [OF p(1)] b(3) [OF p(1)] q q' by (intro frac_le) auto
  also have "\<dots> = p / q * ((1 + 1 / 2 ^ 23) / (1 - 1 / 2 ^ 23))" by (simp add: field_simps)
  also have "\<dots> \<le> s * ((1 + 1 / 2 ^ 23) / (1 - 1 / 2 ^ 23))"
    using p q by (intro mult_right_mono) (simp_all add: pos_divide_le_eq)
  finally have quot: "rnd p / rnd q \<le> s * ((1 + 1 / 2 ^ 23) / (1 - 1 / 2 ^ 23))" .
  have "rnd (rnd p / rnd q) \<le> rnd p / rnd q * (1 + 1 / 2 ^ 23)" by (rule b(2) [OF nonneg])
  also have "\<dots> \<le> s * ((1 + 1 / 2 ^ 23) / (1 - 1 / 2 ^ 23)) * (1 + 1 / 2 ^ 23)" using quot by (intro mult_right_mono) simp_all
  also have "\<dots> = s * ((1 + 1 / 2 ^ 23) / (1 - 1 / 2 ^ 23) * (1 + 1 / 2 ^ 23))" by (simp add: mult.assoc)
  also have "\<dots> \<le> s * (1 + 4 / 2 ^ 23)" using s by (intro mult_left_mono) simp_all
  finally show "rnd (rnd p / rnd q) \<le> s * (1 + 4 / 2 ^ 23)" .
qed

lemma round_quot_between:
  assumes r: "float_rounding rnd" and p: "0 \<le> p" "p \<le> s * q" and q: "0 < q" and s: "0 \<le> s" "s < 2 ^ 20"
  shows "0 \<le> round_quot rnd p q \<and> round_quot rnd p q \<le> s"
proof -
  define x where "x = rnd (rnd (of_int p) / rnd (of_int q))"
  have pq: "(of_int p :: rat) \<le> of_int s * of_int q" using p(2) by (simp flip: of_int_mult)
  have x: "0 \<le> x" "x \<le> of_int s * (1 + 4 / 2 ^ 23)"
    using rounded_quotient [OF r _ pq] p(1) q s(1) by (simp_all add: x_def)
  have "(of_int s :: rat) < 2 ^ 20" using s(2) by (metis of_int_less_iff of_int_numeral of_int_power)
  then have "x + 1 / 2 < of_int s + 1" using x(2) by (simp add: field_simps)
  then have "\<lfloor>x + 1 / 2\<rfloor> \<le> s" by (simp add: floor_le_iff)
  moreover have "0 \<le> \<lfloor>x + 1 / 2\<rfloor>" using x(1) by simp
  ultimately show ?thesis using x(1) by (simp add: round_quot_def Let_def flip: x_def)
qed

text \<open>Metrics with a bar that fits, and a range whose product with the room does not overflow 32 bits.\<close>

definition room_ok :: "metrics \<Rightarrow> int \<Rightarrow> scrollbar \<Rightarrow> bool" where
  "room_ok m space sb \<longleftrightarrow> sb_ok sb \<and> minPos sb < maxPos sb \<and> 0 \<le> m MWM_MINBARLEN \<and> m MWM_MINBARLEN \<le> m MWM_DEFBARLEN
     \<and> m MWM_DEFBARLEN < 2 ^ 31 \<and> m MWM_MINBARLEN \<le> space \<and> space < 2 ^ 20 \<and> space * (maxPos sb - minPos sb + 1) < 2 ^ 32"

lemma to_uint_small: "0 \<le> x \<Longrightarrow> x < 2 ^ 32 \<Longrightarrow> to_uint x = x"
  by (simp add: to_uint_def)

lemma to_sint_small: "0 \<le> x \<Longrightarrow> x < 2 ^ 31 \<Longrightarrow> to_sint x = x"
  by (simp add: to_sint_def)

lemma scaled_between:
  assumes r: "float_rounding rnd" and ok: "room_ok m space sb" and k: "0 \<le> k" "k \<le> maxPos sb - minPos sb + 1"
  shows "0 \<le> round_quot rnd (to_uint (space * k)) (maxPos sb - minPos sb + 1)
    \<and> round_quot rnd (to_uint (space * k)) (maxPos sb - minPos sb + 1) \<le> space"
proof -
  have s: "0 \<le> space" "space < 2 ^ 20" using ok by (auto simp: room_ok_def)
  have le: "space * k \<le> space * (maxPos sb - minPos sb + 1)" using s(1) k(2) by (intro mult_left_mono) auto
  have "to_uint (space * k) = space * k" using s(1) k(1) le ok by (intro to_uint_small) (auto simp: room_ok_def)
  then show ?thesis using round_quot_between [OF r _ le] s k ok by (simp add: room_ok_def)
qed

lemma place_bar_between:
  assumes r: "float_rounding rnd" and ok: "room_ok m space sb"
  defines "b \<equiv> place_bar rnd m space sb"
  shows "m MWM_MINBARLEN \<le> barLen b \<and> 0 \<le> barStart b \<and> barStart b + barLen b \<le> space"
proof -
  define n where "n = maxPos sb - minPos sb + 1"
  define len where "len = (if pageStep sb = 0 then (if m MWM_DEFBARLEN > space then m MWM_MINBARLEN else m MWM_DEFBARLEN)
     else let l = round_quot rnd (to_uint (space * pageStep sb)) n in if l < m MWM_MINBARLEN then m MWM_MINBARLEN else l)"
  define start where "start = round_quot rnd (to_uint (space * (curPos sb - minPos sb))) n"
  have s: "0 \<le> space" "space < 2 ^ 20" and sb: "sb_ok sb" "minPos sb \<noteq> maxPos sb" using ok by (auto simp: room_ok_def)
  have u: "to_uint space = space" "to_uint (m MWM_DEFBARLEN) = m MWM_DEFBARLEN"
    using s ok by (simp_all add: to_uint_small room_ok_def)
  have page: "0 \<le> pageStep sb" "pageStep sb \<le> n" and pos: "0 \<le> curPos sb - minPos sb" "curPos sb - minPos sb \<le> n"
    using sb by (auto simp: sb_ok_def n_def)
  have len: "m MWM_MINBARLEN \<le> len" "len \<le> space" "0 \<le> len"
    using scaled_between [OF r ok page [unfolded n_def]] ok by (auto simp: len_def Let_def n_def room_ok_def)
  have start: "0 \<le> start" "start \<le> space"
    using scaled_between [OF r ok pos [unfolded n_def]] by (auto simp: start_def n_def)
  have sum: "to_uint (start + len) = start + len" "to_sint (space - len) = space - len"
    using len start s by (simp_all add: to_uint_small to_sint_small)
  have "b = (let t = (if to_uint (start + len) > space then to_sint (space - len) else start)
             in sb\<lparr>barLen := len, barStart := (if t < 0 then 0 else t)\<rparr>)"
    using sb(2) unfolding b_def place_bar_def u len_def start_def n_def by (simp add: Let_def u)
  then have b: "barLen b = len" "barStart b = (let t = (if start + len > space then space - len else start) in if t < 0 then 0 else t)"
    by (simp_all add: sum Let_def)
  show ?thesis using len start by (auto simp: b Let_def)
qed

text \<open>The part of a bar that is drawn at a distance \<open>d\<close> from the end of its first arrow, given the room between the arrows and the
  start and the length of the thumb: the thumb takes \<open>len\<close> pixels from \<open>start\<close> on.\<close>

definition drawn_at :: "sbpos \<times> sbpos \<times> sbpos \<times> sbpos \<Rightarrow> int \<Rightarrow> int \<Rightarrow> int \<Rightarrow> int \<Rightarrow> sbpos" where
  "drawn_at names room start len d =
     (case names of (arrow1, space1, space2, arrow2) \<Rightarrow>
        if d < 0 then arrow1 else if d \<ge> room then arrow2
        else if d < start then space1 else if d < start + len then SBPOS_THUMB else space2)"

text \<open>The part the code finds there: the one drawn, but for the first pixel of the space after the thumb, which counts as thumb.\<close>

definition found_at :: "sbpos \<times> sbpos \<times> sbpos \<times> sbpos \<Rightarrow> int \<Rightarrow> int \<Rightarrow> int \<Rightarrow> int \<Rightarrow> sbpos" where
  "found_at names room start len d =
     (if d = start + len \<and> d < room then SBPOS_THUMB else drawn_at names room start len d)"

lemmas bar_part_defs = found_at_def drawn_at_def

definition h_room :: "metrics \<Rightarrow> frame \<Rightarrow> int" where
  "h_room m f = rect_width (wndGetHScrollBarRect m f) - 2 * m MWM_CXHSCROLL"

definition v_room :: "metrics \<Rightarrow> frame \<Rightarrow> int" where
  "v_room m f = rect_height (wndGetVScrollBarRect m f) - 2 * m MWM_CYVSCROLL"

lemma hrect_placed [simp]: "wndGetHScrollBarRect m (f\<lparr>hscroll := sb\<rparr>) = wndGetHScrollBarRect m f"
  by (simp add: wndGetHScrollBarRect_def wndGetBorder_def)

lemma vrect_placed [simp]: "wndGetVScrollBarRect m (f\<lparr>vscroll := sb\<rparr>) = wndGetVScrollBarRect m f"
  by (simp add: wndGetVScrollBarRect_def wndGetBorder_def)

lemma place_bar_enabled [simp]: "minPos sb \<noteq> maxPos sb \<Longrightarrow> sb_disabled (place_bar rnd m s sb) = sb_disabled sb"
  by (simp add: place_bar_def Let_def sb_disabled_def)

lemma horizontal_parts:
  assumes r: "float_rounding rnd" and ok: "room_ok m (h_room m f) (hscroll f)" and a: "0 \<le> m MWM_CXHSCROLL"
    and on: "\<not> sb_disabled (hscroll f)" and pt: "PtInRect (wndGetHScrollBarRect m f) x y"
  shows "let rc = wndGetHScrollBarRect m f; g = wndScrollBarPos rnd m True rc f; sb = hscroll g in
     m MWM_MINBARLEN \<le> barLen sb \<and> 0 \<le> barStart sb \<and> barStart sb + barLen sb \<le> h_room m f
     \<and> wndGetHScrollBarPos m g x y = found_at (SBPOS_LEFTARROW, SBPOS_LEFTSPACE, SBPOS_RIGHTSPACE, SBPOS_RIGHTARROW)
         (h_room m f) (barStart sb) (barLen sb) (x - rleft rc - m MWM_CXHSCROLL)"
proof -
  have ne: "minPos (hscroll f) \<noteq> maxPos (hscroll f)" "0 \<le> m MWM_MINBARLEN" using ok by (simp_all add: room_ok_def)
  show ?thesis
    using place_bar_between [OF r ok] a on pt ne
    by (auto simp: Let_def wndScrollBarPos_def h_room_def rect_width_def wndGetHScrollBarPos_def bar_part_defs PtInRect_def)
qed

lemma vertical_parts:
  assumes r: "float_rounding rnd" and ok: "room_ok m (v_room m f) (vscroll f)" and a: "0 \<le> m MWM_CYVSCROLL"
    and on: "\<not> sb_disabled (vscroll f)" and pt: "PtInRect (wndGetVScrollBarRect m f) x y"
  shows "let rc = wndGetVScrollBarRect m f; g = wndScrollBarPos rnd m False rc f; sb = vscroll g in
     m MWM_MINBARLEN \<le> barLen sb \<and> 0 \<le> barStart sb \<and> barStart sb + barLen sb \<le> v_room m f
     \<and> wndGetVScrollBarPos m g x y = found_at (SBPOS_UPARROW, SBPOS_UPSPACE, SBPOS_DOWNSPACE, SBPOS_DOWNARROW)
         (v_room m f) (barStart sb) (barLen sb) (y - rtop rc - m MWM_CYVSCROLL)"
proof -
  have ne: "minPos (vscroll f) \<noteq> maxPos (vscroll f)" "0 \<le> m MWM_MINBARLEN" using ok by (simp_all add: room_ok_def)
  show ?thesis
    using place_bar_between [OF r ok] a on pt ne
    by (auto simp: Let_def wndScrollBarPos_def v_room_def rect_height_def wndGetVScrollBarPos_def bar_part_defs PtInRect_def)
qed

text \<open>A bar that is disabled, or a point outside of it, has no part.\<close>

lemma no_parts:
  "sb_disabled (hscroll f) \<or> \<not> PtInRect (wndGetHScrollBarRect m f) x y \<Longrightarrow> wndGetHScrollBarPos m f x y = SBPOS_UNKNOWN"
  "sb_disabled (vscroll f) \<or> \<not> PtInRect (wndGetVScrollBarRect m f) x y \<Longrightarrow> wndGetVScrollBarPos m f x y = SBPOS_UNKNOWN"
  by (auto simp: wndGetHScrollBarPos_def wndGetVScrollBarPos_def Let_def)

text \<open>C22.  For each of the two scroll bars of a window: when the bar is enabled, its range has more than one position, its
  page and its position are in the range, the shortest thumb fits between the arrows, and the room is below \<open>2\<^sup>2\<^sup>0\<close> pixels and,
  times the range, below \<open>2\<^sup>3\<^sup>2\<close> (\<open>room_ok\<close>), then, however the products and quotients of 24-bit floats are rounded, the thumb that the window places lies between the two arrows and is not shorter than the
  shortest thumb of the metrics; and every point of the bar is found to be in the part that is drawn there -- first arrow, space
  before, thumb, space after, second arrow --, with one exception: the first pixel after the thumb, which is drawn as space, is
  found to be thumb.  A disabled bar and a point outside a bar have no part.\<close>
theorem scroll_bar_parts:
  assumes r: "float_rounding rnd"
  shows "(room_ok m (h_room m f) (hscroll f) \<and> 0 \<le> m MWM_CXHSCROLL \<and> \<not> sb_disabled (hscroll f)
            \<and> PtInRect (wndGetHScrollBarRect m f) x y \<longrightarrow>
          (let rc = wndGetHScrollBarRect m f; g = wndScrollBarPos rnd m True rc f; sb = hscroll g in
             m MWM_MINBARLEN \<le> barLen sb \<and> 0 \<le> barStart sb \<and> barStart sb + barLen sb \<le> h_room m f
             \<and> wndGetHScrollBarPos m g x y = found_at (SBPOS_LEFTARROW, SBPOS_LEFTSPACE, SBPOS_RIGHTSPACE, SBPOS_RIGHTARROW)
                 (h_room m f) (barStart sb) (barLen sb) (x - rleft rc - m MWM_CXHSCROLL)))
       \<and> (room_ok m (v_room m f) (vscroll f) \<and> 0 \<le> m MWM_CYVSCROLL \<and> \<not> sb_disabled (vscroll f)
            \<and> PtInRect (wndGetVScrollBarRect m f) x y \<longrightarrow>
          (let rc = wndGetVScrollBarRect m f; g = wndScrollBarPos rnd m False rc f; sb = vscroll g in
             m MWM_MINBARLEN \<le> barLen sb \<and> 0 \<le> barStart sb \<and> barStart sb + barLen sb \<le> v_room m f
             \<and> wndGetVScrollBarPos m g x y = found_at (SBPOS_UPARROW, SBPOS_UPSPACE, SBPOS_DOWNSPACE, SBPOS_DOWNARROW)
                 (v_room m f) (barStart sb) (barLen sb) (y - rtop rc - m MWM_CYVSCROLL)))
       \<and> (sb_disabled (hscroll f) \<or> \<not> PtInRect (wndGetHScrollBarRect m f) x y \<longrightarrow> wndGetHScrollBarPos m f x y = SBPOS_UNKNOWN)
       \<and> (sb_disabled (vscroll f) \<or> \<not> PtInRect (wndGetVScrollBarRect m f) x y \<longrightarrow> wndGetVScrollBarPos m f x y = SBPOS_UNKNOWN)"
  by (intro conjI impI; (elim conjE)?; (rule horizontal_parts [OF r] vertical_parts [OF r] no_parts; assumption)?)

lemma demo_simps:
  "wndGetHScrollBarRect demo_metrics demo_frame = mk_rect 0 68 124 80"
  "hscroll demo_frame = \<lparr>minPos = 0, maxPos = 100, curPos = 0, pageStep = 0, barStart = 0, barLen = 10, status = 0\<rparr>"
  by (simp_all add: wndGetHScrollBarRect_def wndGetBorder_def border_of_def demo_frame_def demo_metrics_def styled_def hidden_def
      new_scrollbar_def WS_BORDER_def WS_THICKFRAME_def WS_THINFRAME_def WS_VSCROLL_def WS_HSCROLL_def SBS_HIDE_def SBS_DISABLED_def
      MWM_BORDER_def MWM_THICKFRAME_def MWM_THINFRAME_def MWM_CXVSCROLL_def MWM_CYVSCROLL_def MWM_CXHSCROLL_def
      MWM_CYHSCROLL_def MWM_MINBARLEN_def MWM_DEFBARLEN_def)

lemma demo_room: "float_rounding id" "room_ok demo_metrics (h_room demo_metrics demo_frame) (hscroll demo_frame)"
    "0 \<le> demo_metrics MWM_CXHSCROLL" "\<not> sb_disabled (hscroll demo_frame)" "PtInRect (wndGetHScrollBarRect demo_metrics demo_frame) 20 70"
  by (simp_all add: float_rounding_def room_ok_def sb_ok_def h_room_def rect_width_def demo_simps sb_disabled_def PtInRect_def
      demo_metrics_def MWM_CXVSCROLL_def MWM_CYVSCROLL_def MWM_CXHSCROLL_def MWM_CYHSCROLL_def MWM_MINBARLEN_def MWM_DEFBARLEN_def)

theorem scroll_bar_parts_witness:
  "barStart (hscroll (wndScrollBarPos id demo_metrics True (mk_rect 0 68 124 80) demo_frame)) \<ge> 0
   \<and> demo_metrics MWM_MINBARLEN \<le> barLen (hscroll (wndScrollBarPos id demo_metrics True (mk_rect 0 68 124 80) demo_frame))"
  using scroll_bar_parts [OF demo_room(1), of demo_metrics demo_frame 20 70] demo_room by (simp add: Let_def demo_simps(1))

subsection \<open>Dragging the thumb\<close>

text \<open>A run of mouse moves: the bar, whose position the application may change meanwhile, the part under the mouse and its place.\<close>

fun drag :: "int \<Rightarrow> (scrollbar \<times> sbpos \<times> int) list \<Rightarrow> sb_track \<Rightarrow> (sb_track \<times> sb_event list) option" where
  "drag width [] t = Some (t, [])"
| "drag width ((sb, here, x) # ms) t =
     (case handle_bar sb width here NCMOUSEMOVE x t of
        None \<Rightarrow> None
      | Some (_, t', es) \<Rightarrow> map_option (\<lambda>(t'', es'). (t'', es @ es')) (drag width ms t'))"

definition dragging :: "sb_track \<Rightarrow> bool" where
  "dragging t \<longleftrightarrow> sbCode t = SB_THUMBTRACK \<and> downPos t = SBPOS_THUMB"

definition same_range :: "scrollbar \<Rightarrow> scrollbar \<Rightarrow> bool" where
  "same_range a b \<longleftrightarrow> minPos a = minPos b \<and> maxPos a = maxPos b"

text \<open>The position for the thumb pressed at \<open>x0\<close>, when it started at \<open>start\<close>, and moved to \<open>x\<close>.\<close>

definition pos_for :: "scrollbar \<Rightarrow> int \<Rightarrow> int \<Rightarrow> int \<Rightarrow> int" where
  "pos_for sb width start d =
     max (minPos sb) (min (maxPos sb) (((start + d) * (maxPos sb - minPos sb + 1)) sdiv width + minPos sb))"

lemma thumb_pos_for:
  "width \<noteq> 0 \<Longrightarrow> minPos sb \<le> maxPos sb \<Longrightarrow> same_range sb' sb \<Longrightarrow> thumb_pos sb' (start + x - x0) width = Some (pos_for sb width start (x - x0))"
  by (auto simp: thumb_pos_def pos_for_def Let_def same_range_def max_def min_def add_diff_eq)

lemma drag_reports:
  assumes "width \<noteq> 0" and "minPos sb \<le> maxPos sb"
  shows "dragging t \<Longrightarrow> \<forall>(sb', here, x) \<in> set ms. same_range sb' sb \<Longrightarrow>
    \<exists>u. drag width ms t = Some (u, map (Notify_SCROLL SB_THUMBTRACK)
           (tl (remdups_adj (oldThumbPos t # map (\<lambda>(_, _, x). pos_for sb width (oldBarStart t) (x - old_at t)) ms))))
      \<and> dragging u \<and> oldBarStart u = oldBarStart t \<and> old_at u = old_at t"
proof (induction ms arbitrary: t)
  case Nil
  then show ?case by simp
next
  case (Cons mv ms)
  obtain sb' here x where mv: "mv = (sb', here, x)" by (cases mv)
  define p where "p = pos_for sb width (oldBarStart t) (x - old_at t)"
  define t' where "t' = t\<lparr>oldThumbPos := p, movePos := here\<rparr>"
  have step: "handle_bar sb' width here NCMOUSEMOVE x t =
      Some (1, t', if p \<noteq> oldThumbPos t then [Notify_SCROLL SB_THUMBTRACK p] else [])"
    using Cons.prems thumb_pos_for [OF assms, of sb'] by (simp add: mv handle_bar_def dragging_def p_def t'_def)
  have t': "dragging t'" "oldBarStart t' = oldBarStart t" "old_at t' = old_at t" "oldThumbPos t' = p"
    using Cons.prems(1) by (simp_all add: t'_def dragging_def)
  have tl: "tl (remdups_adj (c # y # ys)) = (if y \<noteq> c then [y] else []) @ tl (remdups_adj (y # ys))" for c y :: int and ys
    by (cases ys) auto
  show ?case
    using Cons.IH [OF t'(1)] Cons.prems(2) by (auto simp: mv step t' tl simp del: remdups_adj.simps simp flip: p_def)
qed

lemma press_thumb:
  "handle_bar sb width SBPOS_THUMB NCLBUTTONDOWN x0 t =
     Some (1, t\<lparr>oldBarStart := barStart sb, oldThumbPos := curPos sb, old_at := x0, downPos := SBPOS_THUMB,
       movePos := SBPOS_THUMB, sbCode := SB_THUMBTRACK\<rparr>, [])"
  by (simp add: handle_bar_def press_code_def Let_def)

text \<open>C23.  Dragging the thumb: the press sends nothing, each later move sends \<open>SB_THUMBTRACK\<close> with the position the thumb has then,
  once for a run of moves at the same position and never for the position it started from, and the release sends
  \<open>SB_THUMBPOSITION\<close> when the thumb has been moved; every position sent lies in the range, even when the mouse leaves the bar
  and the application sets the position in between.\<close>
theorem dragging_reports_positions:
  assumes w: "width \<noteq> 0" and range: "minPos sb \<le> maxPos sb" and moves: "\<forall>(sb', here, x) \<in> set ms. same_range sb' sb"
    and last: "same_range sb' sb"
  shows "let p = (\<lambda>x. pos_for sb width (barStart sb) (x - x0)) in
    (\<forall>x. minPos sb \<le> p x \<and> p x \<le> maxPos sb)
    \<and> (\<exists>t1 t2 t3. handle_bar sb width SBPOS_THUMB NCLBUTTONDOWN x0 t = Some (1, t1, [])
        \<and> drag width ms t1 = Some (t2, map (Notify_SCROLL SB_THUMBTRACK) (tl (remdups_adj (curPos sb # map (\<lambda>(_, _, x). p x) ms))))
        \<and> handle_bar sb' width here NCLBUTTONUP x1 t2
          = Some (-1, t3, if x1 \<noteq> x0 then [Notify_SCROLL SB_THUMBPOSITION (p x1)] else [])
        \<and> downPos t3 = SBPOS_UNKNOWN)"
proof -
  define t1 where "t1 = t\<lparr>oldBarStart := barStart sb, oldThumbPos := curPos sb, old_at := x0, downPos := SBPOS_THUMB,
       movePos := SBPOS_THUMB, sbCode := SB_THUMBTRACK\<rparr>"
  have t1: "dragging t1" "oldBarStart t1 = barStart sb" "old_at t1 = x0" "oldThumbPos t1 = curPos sb"
    by (simp_all add: t1_def dragging_def)
  obtain t2 where t2: "drag width ms t1 = Some (t2, map (Notify_SCROLL SB_THUMBTRACK)
           (tl (remdups_adj (curPos sb # map (\<lambda>(_, _, x). pos_for sb width (barStart sb) (x - x0)) ms))))"
      "dragging t2" "oldBarStart t2 = barStart sb" "old_at t2 = x0"
    using drag_reports [OF w range t1(1) moves] t1 by auto
  have up: "handle_bar sb' width here NCLBUTTONUP x1 t2 = Some (-1, t2\<lparr>downPos := SBPOS_UNKNOWN, movePos := SBPOS_UNKNOWN\<rparr>,
      if x1 \<noteq> x0 then [Notify_SCROLL SB_THUMBPOSITION (pos_for sb width (barStart sb) (x1 - x0))] else [])"
    using t2(2-4) thumb_pos_for [OF w range last] by (auto simp: handle_bar_def dragging_def Let_def)
  have "minPos sb \<le> pos_for sb width (barStart sb) d \<and> pos_for sb width (barStart sb) d \<le> maxPos sb" for d
    using range by (auto simp: pos_for_def)
  then show ?thesis using press_thumb t2(1) up by (fastforce simp: Let_def t1_def)
qed

theorem dragging_reports_positions_witness:
  "\<exists>t2. drag 50 [(hscroll demo_frame, SBPOS_THUMB, 40), (hscroll demo_frame, SBPOS_UNKNOWN, 40), (hscroll demo_frame, SBPOS_UNKNOWN, 900)]
       (undefined\<lparr>oldBarStart := 0, oldThumbPos := 0, old_at := 30, downPos := SBPOS_THUMB, movePos := SBPOS_THUMB, sbCode := SB_THUMBTRACK\<rparr>)
     = Some (t2, [Notify_SCROLL SB_THUMBTRACK 20, Notify_SCROLL SB_THUMBTRACK 100])"
  using dragging_reports_positions [where width = 50 and sb = "hscroll demo_frame" and sb' = "hscroll demo_frame" and ?x0.0 = 30
      and ms = "[(hscroll demo_frame, SBPOS_THUMB, 40), (hscroll demo_frame, SBPOS_UNKNOWN, 40), (hscroll demo_frame, SBPOS_UNKNOWN, 900)]"
      and t = undefined]
  by (auto simp: Let_def demo_simps same_range_def press_thumb pos_for_def signed_divide_int_def)

end
