(* ===== verification/Slot_Alloc.thy ===== *)
theory Slot_Alloc
  imports MG_Prelude
begin

section \<open>The interface of the slot allocators\<close>

text \<open>
  blockheap.c, slotset.c and fixstr.c each hand out slots of a fixed table and take them
  back.  The locale \<open>slot_allocator\<close> states what their clients rely on: an allocated slot was
  not in use, becomes used and disturbs no other slot; freeing a used slot makes it unused.
  An environment \<open>e\<close> carries what the code asks the C library for (the results of
  \<open>malloc\<close>), and \<open>env_ok\<close> what the library promises about it.  \<open>alloc_run\<close> is a client that
  allocates and frees in any order and keeps the list of the slots it holds.
\<close>

datatype 'e alloc_op = Alloc 'e | Free nat

fun alloc_step ::
  "('e \<Rightarrow> 's \<Rightarrow> ('i \<times> 's) option) \<Rightarrow> ('i \<Rightarrow> 's \<Rightarrow> 's) \<Rightarrow> 'e alloc_op \<Rightarrow> 's \<times> 'i list \<Rightarrow> 's \<times> 'i list"
  where
  "alloc_step al fr (Alloc e) (s, live) =
     (case al e s of None \<Rightarrow> (s, live) | Some (i, s') \<Rightarrow> (s', i # live))"
| "alloc_step al fr (Free k) (s, live) =
     (if k < length live then (fr (live ! k) s, take k live @ drop (Suc k) live) else (s, live))"

fun alloc_run ::
  "('e \<Rightarrow> 's \<Rightarrow> ('i \<times> 's) option) \<Rightarrow> ('i \<Rightarrow> 's \<Rightarrow> 's) \<Rightarrow> 'e alloc_op list \<Rightarrow> 's \<times> 'i list \<Rightarrow> 's \<times> 'i list"
  where
  "alloc_run al fr [] c = c"
| "alloc_run al fr (p # ps) c = alloc_run al fr ps (alloc_step al fr p c)"

text \<open>The environment of every allocation of a run is one the C library can provide.\<close>

fun envs_ok ::
  "('e \<Rightarrow> 's \<Rightarrow> bool) \<Rightarrow> ('e \<Rightarrow> 's \<Rightarrow> ('i \<times> 's) option) \<Rightarrow> ('i \<Rightarrow> 's \<Rightarrow> 's) \<Rightarrow> 'e alloc_op list
    \<Rightarrow> 's \<times> 'i list \<Rightarrow> bool" where
  "envs_ok ok al fr [] c = True"
| "envs_ok ok al fr (p # ps) c =
     ((case p of Alloc e \<Rightarrow> ok e (fst c) | Free k \<Rightarrow> True)
      \<and> envs_ok ok al fr ps (alloc_step al fr p c))"

lemma set_remove_nth:
  assumes "distinct xs" "k < length xs"
  shows "set (take k xs @ drop (Suc k) xs) = set xs - {xs ! k}" "distinct (take k xs @ drop (Suc k) xs)"
proof -
  have d: "distinct (take k xs @ xs ! k # drop (Suc k) xs)" and s: "xs = take k xs @ xs ! k # drop (Suc k) xs"
    using assms id_take_nth_drop [OF assms(2)] by auto
  have "set xs = set (take k xs) \<union> {xs ! k} \<union> set (drop (Suc k) xs)" by (subst s) auto
  then show "set (take k xs @ drop (Suc k) xs) = set xs - {xs ! k}" using d by auto
  show "distinct (take k xs @ drop (Suc k) xs)" using d by auto
qed

locale slot_allocator =
  fixes alloc :: "'e \<Rightarrow> 's \<Rightarrow> ('i \<times> 's) option"
    and release :: "'i \<Rightarrow> 's \<Rightarrow> 's"
    and used :: "'s \<Rightarrow> 'i set"
    and inv :: "'s \<Rightarrow> bool"
    and env_ok :: "'e \<Rightarrow> 's \<Rightarrow> bool"
  assumes alloc_fresh: "inv s \<Longrightarrow> env_ok e s \<Longrightarrow> alloc e s = Some (i, s') \<Longrightarrow> i \<notin> used s"
    and alloc_used: "inv s \<Longrightarrow> env_ok e s \<Longrightarrow> alloc e s = Some (i, s') \<Longrightarrow> used s' = insert i (used s)"
    and alloc_inv: "inv s \<Longrightarrow> env_ok e s \<Longrightarrow> alloc e s = Some (i, s') \<Longrightarrow> inv s'"
    and release_used: "inv s \<Longrightarrow> i \<in> used s \<Longrightarrow> used (release i s) = used s - {i}"
    and release_inv: "inv s \<Longrightarrow> i \<in> used s \<Longrightarrow> inv (release i s)"
begin

lemma step_accounts:
  assumes "inv s" "used s = set live" "distinct live"
    and "case p of Alloc e \<Rightarrow> env_ok e s | Free k \<Rightarrow> True"
    and "alloc_step alloc release p (s, live) = (s', live')"
  shows "inv s' \<and> used s' = set live' \<and> distinct live'"
proof (cases p)
  case (Alloc e)
  then show ?thesis
    using assms alloc_fresh [OF assms(1)] alloc_used [OF assms(1)] alloc_inv [OF assms(1)]
    by (auto split: option.splits)
next
  case (Free k)
  then show ?thesis
    using assms release_used [OF assms(1), of "live ! k"] release_inv [OF assms(1), of "live ! k"]
      set_remove_nth [OF assms(3)]
    by (auto split: if_splits)
qed

lemma run_accounts:
  assumes "inv s" "used s = set live" "distinct live" "envs_ok env_ok alloc release ps (s, live)"
    and "alloc_run alloc release ps (s, live) = (s', live')"
  shows "inv s' \<and> used s' = set live' \<and> distinct live'"
  using assms
proof (induction ps arbitrary: s live)
  case (Cons p ps)
  obtain s1 l1 where st: "alloc_step alloc release p (s, live) = (s1, l1)" by fastforce
  from Cons.prems(4) have "case p of Alloc e \<Rightarrow> env_ok e s | Free k \<Rightarrow> True" by (cases p) simp_all
  from step_accounts [OF Cons.prems(1-3) this st] show ?case
    using Cons.IH [of s1 l1] Cons.prems(4,5) st by simp
qed simp

text \<open>Freeing what was just allocated gives the slots back as they were.\<close>

lemma alloc_release:
  assumes "inv s" "env_ok e s" "alloc e s = Some (i, s')"
  shows "used (release i s') = used s"
  using alloc_fresh [OF assms] alloc_used [OF assms] alloc_inv [OF assms]
    release_used [of s' i] by auto

end

end
