(* ===== verification/Slotset.thy ===== *)
theory Slotset
  imports Slot_Alloc "HOL-Library.Word"
begin

unbundle bit_operations_syntax

section \<open>Slot sets in a byte array (src/kernel/slotset.c)\<close>

text \<open>
  Slot \<open>i\<close> is bit \<open>7 - i mod 8\<close> of byte \<open>i div 8\<close>, and a set bit means unused.  The byte
  array is a list; an index outside it is outside the array in C, and the operations leave
  the list alone there (\<open>xs[i := v]\<close>), which the properties exclude.
\<close>

type_synonym byte = "8 word"

definition slot_mask :: "nat \<Rightarrow> byte" where
  "slot_mask j = drop_bit j 0x80"

text \<open>The scan of one byte from its highest bit, then of the bytes.\<close>

fun lookfor_from :: "nat \<Rightarrow> bool \<Rightarrow> byte list \<Rightarrow> int \<times> byte list" where
  "lookfor_from unused setit [] = (-1, [])"
| "lookfor_from unused setit (b # bs) =
     (case find (\<lambda>j. b AND slot_mask j \<noteq> 0) [0..<8] of
        Some j \<Rightarrow> (int (unused + j), (if setit then b AND NOT (slot_mask j) else b) # bs)
      | None \<Rightarrow> (let (r, bs') = lookfor_from (unused + 8) setit bs in (r, b # bs')))"

definition mg_lookfor_unused_slot :: "byte list \<Rightarrow> nat \<Rightarrow> bool \<Rightarrow> int \<times> byte list" where
  "mg_lookfor_unused_slot bitmap len_bmp setit =
     (let (r, bs) = lookfor_from 0 setit (take len_bmp bitmap) in (r, bs @ drop len_bmp bitmap))"

definition mg_slot_set_use :: "byte list \<Rightarrow> nat \<Rightarrow> byte list" where
  "mg_slot_set_use bitmap index =
     bitmap[drop_bit 3 index := (bitmap ! drop_bit 3 index) AND NOT (slot_mask (index mod 8))]"

definition mg_slot_clear_use :: "byte list \<Rightarrow> nat \<Rightarrow> bool \<times> byte list" where
  "mg_slot_clear_use bitmap index =
     (if (bitmap ! drop_bit 3 index) AND slot_mask (index mod 8) \<noteq> 0 then (False, bitmap)
      else (True, bitmap[drop_bit 3 index := (bitmap ! drop_bit 3 index) OR slot_mask (index mod 8)]))"

subsection \<open>The set of used slots\<close>

definition slot_free :: "byte list \<Rightarrow> nat \<Rightarrow> bool" where
  "slot_free bs i \<longleftrightarrow> i < 8 * length bs \<and> bit (bs ! (i div 8)) (7 - i mod 8)"

definition slots_used :: "byte list \<Rightarrow> nat set" where
  "slots_used bs = {i. i < 8 * length bs \<and> \<not> slot_free bs i}"

lemma bit_slot_mask: "j < 8 \<Longrightarrow> bit (slot_mask j) n \<longleftrightarrow> n = 7 - j"
proof -
  assume "j < 8"
  have e: "(0x80 :: byte) = push_bit 7 1" by (simp add: push_bit_eq_mult)
  have "bit (slot_mask j) n \<longleftrightarrow> j + n = 7"
    unfolding slot_mask_def bit_drop_bit_eq comp_def e bit_push_bit_iff bit_1_iff by auto
  then show ?thesis using \<open>j < 8\<close> by auto
qed

lemma and_slot_mask: "j < 8 \<Longrightarrow> b AND slot_mask j \<noteq> 0 \<longleftrightarrow> bit b (7 - j)"
  by (auto simp: bit_eq_iff [of "b AND slot_mask j"] bit_and_iff bit_slot_mask)

lemma bit_clear_mask:
  "j < 8 \<Longrightarrow> n < 8 \<Longrightarrow> bit (b AND NOT (slot_mask j)) n \<longleftrightarrow> bit b n \<and> n \<noteq> 7 - j" for b :: byte
  by (auto simp: bit_and_iff bit_not_iff bit_slot_mask)

lemma bit_set_mask:
  "j < 8 \<Longrightarrow> bit (b OR slot_mask j) n \<longleftrightarrow> bit b n \<or> n = 7 - j"
  by (auto simp: bit_or_iff bit_slot_mask)

lemma drop_bit_3: "drop_bit 3 i = i div (8 :: nat)"
  by (simp add: drop_bit_eq_div)

lemma slot_mod_inj: "7 - i mod 8 = 7 - k mod 8 \<Longrightarrow> i div 8 = k div 8 \<Longrightarrow> i = (k :: nat)"
proof -
  assume a: "7 - i mod 8 = 7 - k mod 8" "i div 8 = k div 8"
  have "i mod 8 < 8" "k mod 8 < 8" by simp_all
  then have "i mod 8 = k mod 8" using a(1) by linarith
  then show ?thesis using a(2) by (metis div_mult_mod_eq)
qed

lemma set_use_length [simp]: "length (mg_slot_set_use bs k) = length bs"
  by (simp add: mg_slot_set_use_def)

lemma clear_use_length [simp]: "length (snd (mg_slot_clear_use bs k)) = length bs"
  by (simp add: mg_slot_clear_use_def)

lemma slot_free_update:
  assumes "k < 8 * length bs"
  shows "slot_free (bs[k div 8 := v]) i \<longleftrightarrow>
    (if i div 8 = k div 8 then bit v (7 - i mod 8) else slot_free bs i)"
proof -
  have k: "k div 8 < length bs" using assms by (simp add: less_mult_imp_div_less mult.commute)
  have "i < 8 * length bs" if "i div 8 = k div 8"
    using k that by (metis div_less_iff_less_mult mult.commute zero_less_numeral)
  then show ?thesis using k by (auto simp: slot_free_def nth_list_update)
qed

lemma set_use_free:
  assumes "k < 8 * length bs"
  shows "slot_free (mg_slot_set_use bs k) i \<longleftrightarrow> slot_free bs i \<and> i \<noteq> k"
proof (cases "i div 8 = k div 8")
  case True
  have "bit (b AND NOT (slot_mask (k mod 8))) (7 - i mod 8) \<longleftrightarrow>
      bit b (7 - i mod 8) \<and> 7 - i mod 8 \<noteq> 7 - k mod 8" for b :: byte
    by (rule bit_clear_mask) auto
  moreover have "7 - i mod 8 = 7 - k mod 8 \<longleftrightarrow> i = k" using slot_mod_inj True by blast
  moreover have "i < 8 * length bs"
    using assms True by (metis div_less_iff_less_mult mult.commute zero_less_numeral)
  ultimately show ?thesis
    using True by (simp add: mg_slot_set_use_def drop_bit_3 slot_free_update [OF assms] slot_free_def)
qed (auto simp: mg_slot_set_use_def drop_bit_3 slot_free_update [OF assms])

lemma clear_use_free:
  assumes "k < 8 * length bs"
  shows "slot_free (snd (mg_slot_clear_use bs k)) i \<longleftrightarrow> slot_free bs i \<or> i = k"
    and "fst (mg_slot_clear_use bs k) \<longleftrightarrow> \<not> slot_free bs k"
proof -
  have m: "b AND slot_mask (k mod 8) \<noteq> 0 \<longleftrightarrow> bit b (7 - k mod 8)" for b :: byte
    by (rule and_slot_mask) simp
  have s: "bit (b OR slot_mask (k mod 8)) n \<longleftrightarrow> bit b n \<or> n = 7 - k mod 8" for b :: byte and n
    by (rule bit_set_mask) simp
  have test: "(bs ! (k div 8)) AND slot_mask (k mod 8) \<noteq> 0 \<longleftrightarrow> slot_free bs k"
    unfolding m using assms by (simp add: slot_free_def)
  then show "fst (mg_slot_clear_use bs k) \<longleftrightarrow> \<not> slot_free bs k"
    unfolding mg_slot_clear_use_def drop_bit_3 by simp
  have "slot_free (bs[k div 8 := (bs ! (k div 8)) OR slot_mask (k mod 8)]) i \<longleftrightarrow> slot_free bs i \<or> i = k"
  proof (cases "i div 8 = k div 8")
    case True
    have "7 - i mod 8 = 7 - k mod 8 \<longleftrightarrow> i = k" using slot_mod_inj True by blast
    moreover have "i < 8 * length bs"
      using assms True by (metis div_less_iff_less_mult mult.commute zero_less_numeral)
    ultimately show ?thesis using True by (simp add: slot_free_update [OF assms] s slot_free_def)
  qed (auto simp: slot_free_update [OF assms])
  then show "slot_free (snd (mg_slot_clear_use bs k)) i \<longleftrightarrow> slot_free bs i \<or> i = k"
    unfolding mg_slot_clear_use_def drop_bit_3 using test by auto
qed

subsection \<open>The search\<close>

lemma find_upt_Some:
  "find P [0..<n] = Some j \<longleftrightarrow> j < n \<and> P j \<and> (\<forall>i < j. \<not> P i)"
  by (auto simp: find_Some_iff)

lemma find_upt_None: "find P [0..<n] = None \<longleftrightarrow> (\<forall>i < n. \<not> P i)"
  by (auto simp: find_None_iff)

lemma slot_free_Cons:
  "slot_free (b # bs) i \<longleftrightarrow> (if i < 8 then bit b (7 - i) else slot_free bs (i - 8))"
proof (cases "i < 8")
  case False
  then obtain k where "i = k + 8" by (metis add.commute le_iff_add not_less)
  then show ?thesis by (auto simp: slot_free_def div_add_self2)
qed (simp add: slot_free_def)

lemma lookfor_None:
  "fst (lookfor_from u setit bs) = -1 \<longleftrightarrow> (\<forall>i. \<not> slot_free bs i)"
proof (induction bs arbitrary: u)
  case (Cons b bs)
  show ?case
  proof (cases "find (\<lambda>j. b AND slot_mask j \<noteq> 0) [0..<8]")
    case None
    then have "\<not> bit b (7 - i)" if "i < 8" for i
      using that and_slot_mask by (auto simp: find_upt_None)
    then show ?thesis
      using None Cons.IH [of "u + 8"]
      by (auto simp: slot_free_Cons Let_def split: prod.splits)
        (metis add_diff_cancel_right' not_add_less2)?
  next
    case (Some j)
    then have "slot_free (b # bs) j" using and_slot_mask by (auto simp: find_upt_Some slot_free_Cons)
    then show ?thesis using Some by auto
  qed
qed (simp add: slot_free_def)

lemma lookfor_Some:
  assumes "fst (lookfor_from u setit bs) \<noteq> -1"
  shows "\<exists>i. fst (lookfor_from u setit bs) = int (u + i) \<and> slot_free bs i \<and> (\<forall>k < i. \<not> slot_free bs k)
    \<and> snd (lookfor_from u setit bs) = (if setit then mg_slot_set_use bs i else bs)"
  using assms
proof (induction bs arbitrary: u)
  case (Cons b bs)
  show ?case
  proof (cases "find (\<lambda>j. b AND slot_mask j \<noteq> 0) [0..<8]")
    case None
    then have no: "\<not> bit b (7 - i)" if "i < 8" for i
      using that and_slot_mask by (auto simp: find_upt_None)
    from Cons.IH [of "u + 8"] Cons.prems None obtain i
      where i: "fst (lookfor_from (u + 8) setit bs) = int (u + 8 + i)" "slot_free bs i"
        "\<forall>k < i. \<not> slot_free bs k"
        "snd (lookfor_from (u + 8) setit bs) = (if setit then mg_slot_set_use bs i else bs)"
      by (auto simp: Let_def split: prod.splits)
    moreover have "mg_slot_set_use (b # bs) (i + 8) = b # mg_slot_set_use bs i"
      by (simp add: mg_slot_set_use_def drop_bit_3 div_add_self2 split: nat.split)
    moreover have "\<forall>k < i + 8. \<not> slot_free (b # bs) k" using i(3) no by (auto simp: slot_free_Cons)
    ultimately show ?thesis
      using None by (intro exI [of _ "i + 8"]) (auto simp: slot_free_Cons Let_def split: prod.splits)
  next
    case (Some j)
    then have j: "j < 8" "bit b (7 - j)" using and_slot_mask [of j b] by (auto simp: find_upt_Some)
    moreover have "\<not> bit b (7 - k)" if "k < j" for k
      using Some that j(1) and_slot_mask [of k b] by (auto simp: find_upt_Some)
    ultimately have j: "j < 8" "bit b (7 - j)" "\<forall>k < j. \<not> bit b (7 - k)" by blast+
    then show ?thesis
      using Some by (intro exI [of _ j]) (auto simp: slot_free_Cons mg_slot_set_use_def drop_bit_3)
  qed
qed simp

subsection \<open>The slot set as an allocator\<close>

definition slotset_alloc :: "unit \<Rightarrow> byte list \<Rightarrow> (nat \<times> byte list) option" where
  "slotset_alloc e bs =
     (let (r, bs') = mg_lookfor_unused_slot bs (length bs) True in if r = -1 then None else Some (nat r, bs'))"

definition slotset_release :: "nat \<Rightarrow> byte list \<Rightarrow> byte list" where
  "slotset_release i bs = snd (mg_slot_clear_use bs i)"

lemma slotset_alloc_Some:
  assumes "slotset_alloc e bs = Some (i, bs')"
  shows "slot_free bs i \<and> (\<forall>k < i. \<not> slot_free bs k) \<and> bs' = mg_slot_set_use bs i"
proof -
  obtain r b where l: "lookfor_from 0 True bs = (r, b)" by fastforce
  then have "r \<noteq> -1" "i = nat r" "bs' = b"
    using assms by (auto simp: slotset_alloc_def mg_lookfor_unused_slot_def split: if_splits)
  then show ?thesis using lookfor_Some [of 0 True bs] l by auto
qed

lemma slotset_alloc_None: "slotset_alloc e bs = None \<longleftrightarrow> (\<forall>i. \<not> slot_free bs i)"
  using lookfor_None [of 0 True bs]
  by (auto simp: slotset_alloc_def mg_lookfor_unused_slot_def split: prod.splits)

lemma used_set_use: "slot_free bs i \<Longrightarrow> slots_used (mg_slot_set_use bs i) = insert i (slots_used bs)"
proof -
  assume f: "slot_free bs i"
  then have "i < 8 * length bs" by (simp add: slot_free_def)
  then show ?thesis using f by (auto simp: slots_used_def set_use_free)
qed

lemma used_clear_use:
  "i \<in> slots_used bs \<Longrightarrow> slots_used (snd (mg_slot_clear_use bs i)) = slots_used bs - {i}"
proof -
  assume f: "i \<in> slots_used bs"
  then have "i < 8 * length bs" by (simp add: slots_used_def)
  then show ?thesis using f by (auto simp: slots_used_def clear_use_free)
qed

interpretation slotset: slot_allocator slotset_alloc slotset_release slots_used "\<lambda>s. True" "\<lambda>e s. True"
proof unfold_locales
  fix s s' i and e :: unit
  assume "slotset_alloc e s = Some (i, s')"
  note a = slotset_alloc_Some [OF this]
  show "i \<notin> slots_used s" using a by (simp add: slots_used_def)
  show "slots_used s' = insert i (slots_used s)" using a used_set_use by simp
qed (simp_all add: used_clear_use slotset_release_def)

text \<open>
  Any client that takes slots with \<open>__mg_lookfor_unused_slot\<close> and gives them back with
  \<open>__mg_slot_clear_use\<close>, starting from an array with all slots unused, holds pairwise
  distinct slots, and the used slots of the array are exactly those it holds.
\<close>

theorem slotset_accounts:
  assumes "alloc_run slotset_alloc slotset_release ps (replicate n 0xFF, []) = (bs, live)"
  shows "distinct live \<and> slots_used bs = set live"
proof -
  have none: "slots_used (replicate n (0xFF :: byte)) = set []"
  proof -
    have "bit (0xFF :: byte) k" if "k < 8" for k
    proof -
      have e: "(0xFF :: byte) = mask 8" by (simp add: mask_eq_exp_minus_1)
      show ?thesis unfolding e bit_mask_iff using that by simp
    qed
    then show ?thesis
      by (auto simp: slots_used_def slot_free_def less_mult_imp_div_less mult.commute)
  qed
  have env: "envs_ok (\<lambda>e s. True) slotset_alloc slotset_release ps c" for c
    by (induction ps arbitrary: c) (auto split: alloc_op.splits)
  show ?thesis using slotset.run_accounts [OF TrueI none _ env assms] by simp
qed

theorem slotset_accounts_witness:
  "slots_used [0x5F, 0xFF] = {0, 2}"
proof -
  have "alloc_run slotset_alloc slotset_release [Alloc (), Alloc (), Alloc (), Free 1]
      (replicate 2 0xFF, []) = ([0x5F, 0xFF], [2, 0])" by code_simp
  from slotset_accounts [OF this] show ?thesis by auto
qed

text \<open>
  \<open>__mg_lookfor_unused_slot\<close> returns -1 exactly when no slot of the array is unused;
  otherwise it returns the first unused slot, and marks that slot and no other when asked to.
\<close>

lemma lookfor_unused_slot_first:
  "case mg_lookfor_unused_slot bs (length bs) setit of (r, bs') \<Rightarrow>
     (r = -1 \<longleftrightarrow> (\<forall>i < 8 * length bs. i \<in> slots_used bs))
     \<and> (r \<noteq> -1 \<longrightarrow> nat r < 8 * length bs \<and> nat r \<notin> slots_used bs \<and> (\<forall>k < nat r. k \<in> slots_used bs)
          \<and> slots_used bs' = (if setit then insert (nat r) (slots_used bs) else slots_used bs))"
proof -
  obtain r b where l: "lookfor_from 0 setit bs = (r, b)" by fastforce
  have free: "slot_free bs i \<longleftrightarrow> i < 8 * length bs \<and> i \<notin> slots_used bs" for i
    by (auto simp: slots_used_def slot_free_def)
  show ?thesis
  proof (cases "r = -1")
    case True
    then show ?thesis
      using lookfor_None [of 0 setit bs] l free by (auto simp: mg_lookfor_unused_slot_def)
  next
    case False
    then obtain i where "r = int i" "slot_free bs i" "\<forall>k < i. \<not> slot_free bs k"
      "b = (if setit then mg_slot_set_use bs i else bs)"
      using lookfor_Some [of 0 setit bs] l by auto
    then show ?thesis
      using False l free used_set_use by (auto simp: mg_lookfor_unused_slot_def)
  qed
qed

lemma lookfor_unused_slot_first_example:
  "mg_lookfor_unused_slot [0x00, 0x08] 2 True = (12, [0x00, 0x00])
    \<and> slots_used [0x00, 0x00] = insert 12 (slots_used [0x00, 0x08])"
proof -
  have e: "mg_lookfor_unused_slot [0x00, 0x08] (length [0x00 :: byte, 0x08]) True = (12, [0x00, 0x00])"
    by code_simp
  then show ?thesis using lookfor_unused_slot_first [of "[0x00, 0x08]" True] by (simp add: e numeral_2_eq_2)
qed

end
