(* ===== verification/FixStr.thy ===== *)
theory FixStr
  imports Slotset
begin

section \<open>Fixed strings (src/kernel/fixstr.c)\<close>

text \<open>
  Short string buffers from ten heaps of 16384 bytes: heap \<open>i\<close> has \<open>8 * 2 ^ i\<close> buffers of
  \<open>2 ^ (11 - i)\<close> bytes and \<open>2 ^ i\<close> bytes of the bitmap.  Addresses are naturals with 0 for NULL;
  the results of \<open>malloc\<close> are parameters.  The search for the buffer in \<open>FreeFixStr\<close> ends only
  when it meets the address, so it is a partial function.  The buffers handed out are
  pairwise disjoint, large enough and inside the arena (configuration with threads:
  \<open>MAX_LEN_FIXSTR\<close> 2048, \<open>NR_HEAP\<close> 10).
\<close>

definition MAX_LEN_FIXSTR :: nat where "MAX_LEN_FIXSTR = 2048"
definition NR_HEAP :: nat where "NR_HEAP = 10"
definition LEN_BITMAP :: nat where "LEN_BITMAP = 1+2+4+8+16+32+64+128+256+512"

record fixstr =
  fx_bitmap :: "byte list"
  fx_offset :: "nat list"
  fx_heap :: "nat list"

subsection \<open>Initialisation\<close>

text \<open>One round of the loop over the heaps: the bitmap, the offsets, the pointer into the bitmap and the offset.\<close>

fun init_round :: "nat \<Rightarrow> byte list \<times> nat list \<times> nat \<times> nat \<Rightarrow> byte list \<times> nat list \<times> nat \<times> nat" where
  "init_round i (bm, offs, pos, offset) =
     (fold (\<lambda>j bm. bm[pos + j := bm ! (pos + j) OR 0xFF]) [0..<2 ^ i] bm,
      offs[i := offset], pos + 2 ^ i, offset + 2 ^ i)"

text \<open>\<open>base\<close> is what \<open>malloc\<close> returns, and the structure is static, hence zero at first.\<close>

definition InitFixStr :: "nat \<Rightarrow> fixstr option" where
  "InitFixStr base =
     (if base = 0 then None
      else let (bm, offs, pos, offset) =
             fold init_round [0..<NR_HEAP] (replicate LEN_BITMAP 0, replicate NR_HEAP 0, 0, 0)
           in Some \<lparr>fx_bitmap = bm, fx_offset = offs,
                    fx_heap = map (\<lambda>i. base + MAX_LEN_FIXSTR * 8 * i) [0..<NR_HEAP + 1]\<rparr>)"

subsection \<open>Allocation\<close>

function bit_count :: "nat \<Rightarrow> nat" where
  "bit_count ulen = (if ulen \<noteq> 0 then Suc (bit_count (ulen div 2)) else 0)"
  by auto
termination by (relation "measure id") auto

declare bit_count.simps [simp del]

text \<open>The search of one heap's bitmap, with the address of the buffer that belongs to the bit.\<close>

fun fx_scan :: "nat \<Rightarrow> nat \<Rightarrow> byte list \<Rightarrow> (nat \<times> byte list) option" where
  "fx_scan bufflen heap [] = None"
| "fx_scan bufflen heap (b # bs) =
     (case find (\<lambda>j. b AND slot_mask j \<noteq> 0) [0..<8] of
        Some j \<Rightarrow> Some (heap + bufflen * j, (b AND NOT (slot_mask j)) # bs)
      | None \<Rightarrow> map_option (\<lambda>(p, bs'). (p, b # bs')) (fx_scan bufflen (heap + bufflen * 8) bs))"

definition FixStrAlloc :: "nat \<Rightarrow> nat \<Rightarrow> int \<Rightarrow> fixstr \<Rightarrow> nat \<times> fixstr" where
  "FixStrAlloc zero_string malloced len st =
     (if len < 0 then (0, st)
      else if len = 0 then (zero_string, st)
      else if len \<ge> int MAX_LEN_FIXSTR then (malloced, st)
      else
        (let i = bit_count (nat len);
             i = (if i = 1 then 2 else i);
             bufflen = 2 ^ i;
             i = NR_HEAP + 1 - i;
             heap = fx_heap st ! i;
             off = fx_offset st ! i;
             btlen = 2 ^ i
         in case fx_scan bufflen heap (take btlen (drop off (fx_bitmap st))) of
              Some (p, bs) \<Rightarrow>
                (p, st\<lparr>fx_bitmap := take off (fx_bitmap st) @ bs @ drop (off + btlen) (fx_bitmap st)\<rparr>)
            | None \<Rightarrow> (malloced, st)))"

subsection \<open>Release\<close>

partial_function (option) find_off :: "nat \<Rightarrow> nat \<Rightarrow> nat \<Rightarrow> nat \<Rightarrow> nat option" where
  "find_off str heap bufflen stroff =
     (if str \<noteq> heap then find_off str (heap + bufflen) bufflen (stroff + 1) else Some stroff)"

text \<open>\<open>FreeFixStr\<close> with whether the string is empty; the address it gives to \<open>free\<close>, if any, and the state.\<close>

definition FreeFixStr :: "bool \<Rightarrow> nat \<Rightarrow> fixstr \<Rightarrow> (nat option \<times> fixstr) option" where
  "FreeFixStr empty_str str st =
     (if empty_str then Some (None, st)
      else if str \<ge> fx_heap st ! NR_HEAP \<or> str < fx_heap st ! 0 then Some (Some str, st)
      else
        (let i = (case find (\<lambda>i. str < fx_heap st ! i) [1..<NR_HEAP + 1] of
                    Some i \<Rightarrow> i | None \<Rightarrow> NR_HEAP + 1) - 1;
             bufflen = 2 ^ (NR_HEAP + 1 - i)
         in case find_off str (fx_heap st ! i) bufflen 0 of
              None \<Rightarrow> None
            | Some stroff \<Rightarrow>
                (let n = fx_offset st ! i + drop_bit 3 stroff
                 in Some (None, st\<lparr>fx_bitmap := (fx_bitmap st)
                      [n := (fx_bitmap st ! n) OR slot_mask (stroff mod 8)]\<rparr>))))"

text \<open>\<open>FixStrDup\<close>: the buffer for a string of length \<open>n\<close> (\<open>None\<close> for NULL); the bytes are copied when there is one.\<close>

definition FixStrDup :: "nat \<Rightarrow> nat \<Rightarrow> nat option \<Rightarrow> fixstr \<Rightarrow> nat \<times> fixstr" where
  "FixStrDup zero_string malloced str st =
     (case str of None \<Rightarrow> (0, st) | Some n \<Rightarrow> FixStrAlloc zero_string malloced (int n) st)"

text \<open>\<open>TerminateFixStr\<close>: the address it gives to \<open>free\<close>.\<close>

definition TerminateFixStr :: "fixstr \<Rightarrow> nat" where
  "TerminateFixStr st = fx_heap st ! 0"

subsection \<open>The layout\<close>

definition slot_of :: "nat \<Rightarrow> nat \<Rightarrow> nat" where
  "slot_of i k = 8 * (2 ^ i - 1) + k"

definition addr_of :: "nat \<Rightarrow> nat \<Rightarrow> nat \<Rightarrow> nat" where
  "addr_of base i k = base + 16384 * i + 2 ^ (11 - i) * k"

definition fx_used :: "nat \<Rightarrow> fixstr \<Rightarrow> nat set" where
  "fx_used base st = {addr_of base i k | i k. i < 10 \<and> k < 8 * 2 ^ i \<and> slot_of i k \<in> slots_used (fx_bitmap st)}"

definition fx_inv :: "nat \<Rightarrow> fixstr \<Rightarrow> bool" where
  "fx_inv base st \<longleftrightarrow>
     base > 0 \<and> length (fx_bitmap st) = LEN_BITMAP \<and> fx_offset st = map (\<lambda>i. 2 ^ i - 1) [0..<10]
     \<and> fx_heap st = map (\<lambda>i. base + 16384 * i) [0..<11]"

lemma heap_room: "i < 10 \<Longrightarrow> k < 8 * 2 ^ i \<Longrightarrow> 2 ^ (11 - i) * k + 2 ^ (11 - i) \<le> (16384 :: nat)"
proof -
  assume a: "i < 10" "k < 8 * 2 ^ i"
  have "2 ^ (11 - i) * (k + 1) \<le> 2 ^ (11 - i) * (8 * 2 ^ i :: nat)" using a(2) by (intro mult_le_mono2) simp
  also have "\<dots> = 8 * 2 ^ ((11 - i) + i)" by (simp add: power_add)
  also have "\<dots> = 16384" using a(1) by simp
  finally show ?thesis by simp
qed

lemma addr_heap:
  assumes "i < 10" "k < 8 * 2 ^ i"
  shows "(addr_of base i k - base) div 16384 = i"
proof -
  have "2 ^ (11 - i) * k < (16384 :: nat)"
    using heap_room [OF assms] by (metis add_lessD1 le_neq_implies_less less_add_same_cancel1 order_less_le_trans zero_less_numeral zero_less_power)
  then show ?thesis by (simp add: addr_of_def div_add1_eq)
qed

lemma addr_of_inj:
  assumes "i < 10" "k < 8 * 2 ^ i" "j < 10" "l < 8 * 2 ^ j" "addr_of base i k = addr_of base j l"
  shows "i = j \<and> k = l"
proof -
  have "i = j" using addr_heap [OF assms(1,2), of base] addr_heap [OF assms(3,4), of base] assms(5) by simp
  then show ?thesis using assms(5) by (simp add: addr_of_def)
qed

lemma slot_of_bound:
  assumes "i < 10" "k < 8 * 2 ^ i"
  shows "slot_of i k < 8 * 1023" "2 ^ i - 1 + 2 ^ i \<le> (1023 :: nat)"
proof -
  have p: "(2 :: nat) ^ (i + 1) \<le> 2 ^ 10" using assms(1) by (intro power_increasing) auto
  have "(1 :: nat) \<le> 2 ^ i" by simp
  then show le: "2 ^ i - 1 + 2 ^ i \<le> (1023 :: nat)" using p by simp
  have "slot_of i k < 8 * (2 ^ i - 1 + 2 ^ i)" using assms(2) by (simp add: slot_of_def distrib_left)
  also have "\<dots> \<le> 8 * 1023" using le by (rule mult_le_mono2)
  finally show "slot_of i k < 8 * 1023" .
qed

lemma slot_of_inj:
  assumes "k < 8 * 2 ^ i" "l < 8 * 2 ^ j" "slot_of i k = slot_of j l"
  shows "i = j \<and> k = l"
proof -
  have less: "slot_of i k < slot_of j l" if "i < j" "k < 8 * 2 ^ i" for i j k l
  proof -
    have "(2 :: nat) ^ (i + 1) \<le> 2 ^ j" using that(1) by (intro power_increasing) auto
    then have "2 * (2 :: nat) ^ i \<le> 2 ^ j" by simp
    moreover obtain x where x: "(2 :: nat) ^ i = Suc x" by (metis not0_implies_Suc power_not_zero zero_neq_numeral)
    moreover obtain y where y: "(2 :: nat) ^ j = Suc y" by (metis not0_implies_Suc power_not_zero zero_neq_numeral)
    ultimately show ?thesis using that(2) unfolding slot_of_def x y by simp
  qed
  have "i = j" using less [of i j k l] less [of j i l k] assms by (metis linorder_neqE_nat less_irrefl)
  then show ?thesis using assms(3) by (simp add: slot_of_def)
qed

subsection \<open>The search of a heap\<close>

lemma lookfor_range: "fst (lookfor_from u True bs) = -1 \<or> fst (lookfor_from u True bs) \<ge> int u"
proof (induction bs arbitrary: u)
  case (Cons b bs)
  obtain r bs' where l: "lookfor_from (u + 8) True bs = (r, bs')" by fastforce
  then show ?case using Cons.IH [of "u + 8"] by (auto split: option.split)
qed simp

lemma fx_scan_lookfor:
  "fx_scan bl h bs = (case lookfor_from u True bs of
     (r, bs') \<Rightarrow> if r = -1 then None else Some (h + bl * (nat r - u), bs'))"
proof (induction bs arbitrary: u h)
  case (Cons b bs)
  obtain r bs' where l: "lookfor_from (u + 8) True bs = (r, bs')" by fastforce
  show ?case
  proof (cases "find (\<lambda>j. b AND slot_mask j \<noteq> 0) [0..<8]")
    case None
    have "h + bl * 8 + bl * (nat r - (u + 8)) = h + bl * (nat r - u)" if "r \<noteq> -1"
    proof -
      have "int (u + 8) \<le> r" using that lookfor_range [of "u + 8" bs] l by simp
      then have "nat r - u = 8 + (nat r - (u + 8))" by linarith
      then show ?thesis by (simp only: add_mult_distrib2 add.assoc)
    qed
    then show ?thesis using None l Cons.IH [of "h + bl * 8" "u + 8"] by simp
  next
    case (Some j)
    then show ?thesis by (simp add: nat_add_distrib)
  qed
qed simp

lemma fx_scan_Some:
  assumes "fx_scan bl h bs = Some (p, bs')"
  shows "\<exists>k. p = h + bl * k \<and> slot_free bs k \<and> (\<forall>i<k. \<not> slot_free bs i) \<and> bs' = mg_slot_set_use bs k"
proof -
  obtain r b where l: "lookfor_from 0 True bs = (r, b)" by fastforce
  then have r: "r \<noteq> -1" "p = h + bl * nat r" "bs' = b"
    using assms fx_scan_lookfor [of bl h bs 0] by (auto split: if_splits)
  then obtain k where "r = int k" "slot_free bs k" "\<forall>i<k. \<not> slot_free bs i" "b = mg_slot_set_use bs k"
    using lookfor_Some [of 0 True bs] l by auto
  then show ?thesis using r by auto
qed

lemma fx_scan_None: "fx_scan bl h bs = None \<longleftrightarrow> (\<forall>i. \<not> slot_free bs i)"
  using lookfor_None [of 0 True bs] fx_scan_lookfor [of bl h bs 0] by (auto split: prod.splits)

text \<open>A segment of the bitmap.\<close>

lemma segment_free:
  assumes "m + n \<le> length bm"
  shows "slot_free (take n (drop m bm)) k \<longleftrightarrow> k < 8 * n \<and> slot_free bm (8 * m + k)"
proof (cases "k < 8 * n")
  case True
  then have "k div 8 < n" by (simp add: less_mult_imp_div_less mult.commute)
  moreover have "(8 * m + k) div 8 = m + k div 8" "(8 * m + k) mod 8 = k mod 8" by simp_all
  ultimately show ?thesis using True assms by (simp add: slot_free_def)
qed (use assms in \<open>simp add: slot_free_def\<close>)

lemma segment_use:
  assumes "m + n \<le> length bm" "k < 8 * n"
  shows "take m bm @ mg_slot_set_use (take n (drop m bm)) k @ drop (m + n) bm = mg_slot_set_use bm (8 * m + k)"
proof -
  let ?v = "(bm ! (m + k div 8)) AND NOT (slot_mask (k mod 8))"
  have k: "k div 8 < n" using assms(2) by (simp add: less_mult_imp_div_less mult.commute)
  have i: "(8 * m + k) div 8 = m + k div 8" "(8 * m + k) mod 8 = k mod 8" by simp_all
  have "mg_slot_set_use (take n (drop m bm)) k = (take n (drop m bm))[k div 8 := ?v]"
    using k assms(1) by (simp add: mg_slot_set_use_def drop_bit_3)
  moreover have "take m bm @ (take n (drop m bm))[k div 8 := ?v] @ drop (m + n) bm = bm[m + k div 8 := ?v]"
    using k assms(1) by (intro nth_equalityI) (auto simp: nth_append nth_list_update min_def)
  ultimately show ?thesis using i by (simp add: mg_slot_set_use_def drop_bit_3)
qed

subsection \<open>What the operations do\<close>

lemma inner_fill:
  "m \<le> r \<Longrightarrow> fold (\<lambda>j bm. bm[length xs + j := bm ! (length xs + j) OR 0xFF]) [0..<m] (xs @ replicate r (0 :: byte)) =
     xs @ replicate m 0xFF @ replicate (r - m) 0"
proof (induction m)
  case (Suc m)
  then obtain q where q: "r - m = Suc q" by (cases "r - m") auto
  have "(xs @ replicate m 0xFF @ replicate (r - m) 0)[length xs + m := 0xFF] =
      xs @ (replicate m 0xFF @ [0xFF]) @ replicate q (0 :: byte)"
    by (simp add: list_update_append q)
  moreover have "(xs @ replicate m 0xFF @ replicate (r - m) (0 :: byte)) ! (length xs + m) = 0"
    by (simp add: nth_append q)
  ultimately show ?case using Suc q by (simp add: replicate_append_same)
qed simp

lemma init_rounds:
  assumes "n \<le> 10"
  shows "fold init_round [0..<n] (replicate 1023 0, replicate 10 0, 0, 0) =
    (replicate (2 ^ n - 1) 0xFF @ replicate (1023 - (2 ^ n - 1)) 0,
     map (\<lambda>i. 2 ^ i - 1) [0..<n] @ replicate (10 - n) 0, 2 ^ n - 1, 2 ^ n - 1)"
  using assms
proof (induction n)
  case (Suc n)
  have p: "(2 :: nat) ^ Suc n \<le> 2 ^ 10" using Suc.prems by (intro power_increasing) auto
  define m where "m = (2 :: nat) ^ n"
  have m: "1 \<le> m" "2 * m \<le> 1024" using p by (simp_all add: m_def)
  let ?r = "1023 - (m - 1)"
  have fill: "fold (\<lambda>j bm. bm[m - 1 + j := bm ! (m - 1 + j) OR 0xFF]) [0..<m] (replicate (m - 1) 0xFF @ replicate ?r (0 :: byte)) =
      replicate (m - 1) 0xFF @ replicate m 0xFF @ replicate (?r - m) 0"
    using inner_fill [of m ?r "replicate (m - 1) 0xFF"] m by simp
  have "m - 1 + m = 2 * m - 1" "?r - m = 1023 - (2 * m - 1)" using m by simp_all
  then have "replicate (m - 1) 0xFF @ replicate m 0xFF @ replicate (?r - m) (0 :: byte) =
      replicate (2 * m - 1) 0xFF @ replicate (1023 - (2 * m - 1)) 0"
    by (metis append.assoc replicate_add)
  moreover obtain q where "10 - n = Suc q" "10 - Suc n = q" using Suc.prems by (cases "10 - n") auto
  then have "(map (\<lambda>i. 2 ^ i - 1) [0..<n] @ replicate (10 - n) 0)[n := m - 1] =
      map (\<lambda>i. 2 ^ i - 1) [0..<Suc n] @ replicate (10 - Suc n) (0 :: nat)"
    by (simp add: list_update_append m_def)
  ultimately show ?case using Suc fill \<open>m - 1 + m = 2 * m - 1\<close> by (simp flip: m_def)
qed simp

lemma InitFixStr_Some: "base \<noteq> 0 \<Longrightarrow> \<exists>st. InitFixStr base = Some st"
  by (cases "fold init_round [0..<NR_HEAP] (replicate LEN_BITMAP 0, replicate NR_HEAP 0, 0, 0)")
    (simp add: InitFixStr_def)

lemma InitFixStr_inv:
  assumes "InitFixStr base = Some st"
  shows "fx_inv base st" "fx_used base st = {}"
proof -
  have base: "base > 0" using assms by (cases "base = 0") (simp_all add: InitFixStr_def)
  have r: "fold init_round [0..<10] (replicate 1023 0, replicate 10 0, 0, 0) =
      (replicate 1023 0xFF, map (\<lambda>i. 2 ^ i - 1) [0..<10], 1023, 1023)"
    using init_rounds [of 10] by simp
  have st: "st = \<lparr>fx_bitmap = replicate 1023 0xFF, fx_offset = map (\<lambda>i. 2 ^ i - 1) [0..<10],
      fx_heap = map (\<lambda>i. base + 16384 * i) [0..<11]\<rparr>"
    using assms base r by (simp add: InitFixStr_def LEN_BITMAP_def NR_HEAP_def MAX_LEN_FIXSTR_def del: upt_Suc)
  then show "fx_inv base st" using base by (simp add: fx_inv_def LEN_BITMAP_def del: upt_Suc)
  have "bit (0xFF :: byte) (7 - i mod 8)" for i :: nat
  proof -
    have "(0xFF :: byte) = NOT 0" by simp
    moreover have "7 - i mod 8 < 8" by simp
    ultimately show ?thesis by (simp only: bit_not_iff) simp
  qed
  then have "slots_used (replicate 1023 0xFF) = {}"
    by (auto simp: slots_used_def slot_free_def less_mult_imp_div_less)
  then show "fx_used base st = {}" by (simp add: fx_used_def st)
qed

lemma bit_count_range: "0 < n \<Longrightarrow> 2 ^ (bit_count n - 1) \<le> n \<and> n < 2 ^ bit_count n \<and> bit_count n > 0"
proof (induction n rule: bit_count.induct)
  case (1 n)
  show ?case
  proof (cases "n div 2 = 0")
    case True
    then have "n = 1" using 1(2) by auto
    then show ?thesis by (simp add: bit_count.simps [of "Suc 0"] bit_count.simps [of 0])
  next
    case False
    then have ih: "2 ^ (bit_count (n div 2) - 1) \<le> n div 2" "n div 2 < 2 ^ bit_count (n div 2)" "bit_count (n div 2) > 0"
      using 1 by simp_all
    obtain c where c: "bit_count (n div 2) = Suc c" using ih(3) by (cases "bit_count (n div 2)") auto
    have "bit_count n = Suc (Suc c)" using 1(2) c by (simp add: bit_count.simps [of n])
    moreover have "2 * 2 ^ c \<le> n" "n < 2 * (2 * 2 ^ c)" using ih(1,2) unfolding c by simp_all
    ultimately show ?thesis by simp
  qed
qed

text \<open>The heap for strings of length \<open>len\<close>.\<close>

definition heap_for :: "nat \<Rightarrow> nat" where
  "heap_for len = 11 - (if bit_count len = 1 then 2 else bit_count len)"

lemma heap_for:
  assumes "0 < len" "len < 2048"
  shows "heap_for len < 10" "len < 2 ^ (11 - heap_for len)"
    "11 - heap_for len = (if bit_count len = 1 then 2 else bit_count len)"
proof -
  note r = bit_count_range [OF assms(1)]
  have "(2 :: nat) ^ (bit_count len - 1) < 2 ^ 11" using r assms(2) by simp
  then have c: "bit_count len - 1 < 11" using power_less_imp_less_exp [of "2 :: nat" "bit_count len - 1" 11] by simp
  then show e: "11 - heap_for len = (if bit_count len = 1 then 2 else bit_count len)"
    using r by (auto simp: heap_for_def)
  show "heap_for len < 10" using r by (auto simp: heap_for_def)
  show "len < 2 ^ (11 - heap_for len)" unfolding e using r by auto
qed

lemma FixStrAlloc_effect:
  assumes inv: "fx_inv base st" and len: "0 < len" "len < 2048" and al: "FixStrAlloc zs mal (int len) st = (p, st')"
  defines "i \<equiv> heap_for len"
  obtains (full) "p = mal" "st' = st" "\<forall>k < 8 * 2 ^ i. slot_of i k \<in> slots_used (fx_bitmap st)"
  | (slot) k where "p = addr_of base i k" "k < 8 * 2 ^ i" "slot_free (fx_bitmap st) (slot_of i k)"
    "st' = st\<lparr>fx_bitmap := mg_slot_set_use (fx_bitmap st) (slot_of i k)\<rparr>"
proof -
  let ?bm = "fx_bitmap st" and ?m = "2 ^ i - 1 :: nat" and ?n = "2 ^ i :: nat"
  let ?seg = "take ?n (drop ?m ?bm)"
  have i: "i < 10" "11 - i = (if bit_count len = 1 then 2 else bit_count len)"
    using heap_for [OF len] by (simp_all add: i_def)
  have mn: "?m + ?n \<le> length ?bm"
    using inv slot_of_bound(2) [of i 0] i(1) by (simp add: fx_inv_def LEN_BITMAP_def)
  have at: "fx_heap st ! i = base + 16384 * i" "fx_offset st ! i = ?m"
    using inv i(1) by (simp_all add: fx_inv_def del: upt_Suc)
  have eq: "FixStrAlloc zs mal (int len) st = (case fx_scan (2 ^ (11 - i)) (base + 16384 * i) ?seg of
      Some (p, bs) \<Rightarrow> (p, st\<lparr>fx_bitmap := take ?m ?bm @ bs @ drop (?m + ?n) ?bm\<rparr>) | None \<Rightarrow> (mal, st))"
  proof -
    have pos: "\<not> int len < 0" "int len \<noteq> 0" "\<not> int 2048 \<le> int len" using len by simp_all
    have idx: "10 + 1 - (11 - i) = i" using i(1) by simp
    show ?thesis
      unfolding FixStrAlloc_def MAX_LEN_FIXSTR_def NR_HEAP_def Let_def nat_int
      by (simp only: pos if_False simp_thms i(2) [symmetric] idx at)
  qed
  show thesis
  proof (cases "fx_scan (2 ^ (11 - i)) (base + 16384 * i) ?seg")
    case None
    then have "\<forall>k. \<not> slot_free ?seg k" by (simp add: fx_scan_None)
    then have "slot_of i k \<in> slots_used ?bm" if "k < 8 * 2 ^ i" for k
      using that segment_free [OF mn, of k] slot_of_bound(1) [OF i(1) that] inv
      by (simp add: slots_used_def slot_of_def fx_inv_def LEN_BITMAP_def)
    then show ?thesis using None eq al full by simp
  next
    case (Some r)
    obtain q bs where r: "r = (q, bs)" by fastforce
    obtain k where k: "q = base + 16384 * i + 2 ^ (11 - i) * k" "slot_free ?seg k" "bs = mg_slot_set_use ?seg k"
      using fx_scan_Some Some r by blast
    then have kf: "k < 8 * 2 ^ i" "slot_free ?bm (slot_of i k)"
      using segment_free [OF mn, of k] by (simp_all add: slot_of_def)
    have "take ?m ?bm @ bs @ drop (?m + ?n) ?bm = mg_slot_set_use ?bm (slot_of i k)"
      using segment_use [OF mn kf(1)] k(3) by (simp add: slot_of_def)
    then show ?thesis using Some r k(1) kf eq al slot by (simp add: addr_of_def)
  qed
qed

lemma find_off_mult: "bl > 0 \<Longrightarrow> find_off (h + bl * k) h bl n = Some (n + k)"
proof (induction k arbitrary: h n)
  case 0
  then show ?case by (simp add: find_off.simps)
next
  case (Suc k)
  have "find_off (h + bl + bl * k) (h + bl) bl (n + 1) = Some (n + 1 + k)" using Suc by blast
  then show ?case using Suc.prems by (simp add: find_off.simps [of "h + (bl + bl * k)"] add.assoc)
qed

lemma FreeFixStr_effect:
  assumes inv: "fx_inv base st" and k: "i < 10" "k < 8 * 2 ^ i" and used: "slot_of i k \<in> slots_used (fx_bitmap st)"
  shows "FreeFixStr False (addr_of base i k) st =
    Some (None, st\<lparr>fx_bitmap := snd (mg_slot_clear_use (fx_bitmap st) (slot_of i k))\<rparr>)"
proof -
  let ?a = "addr_of base i k"
  have room: "2 ^ (11 - i) * k < (16384 :: nat)"
    using heap_room [OF k] by (metis add_lessD1 le_neq_implies_less less_add_same_cancel1 order_less_le_trans zero_less_numeral zero_less_power)
  have heap: "fx_heap st ! j = base + 16384 * j" if "j \<le> 10" for j
    using inv that by (simp add: fx_inv_def del: upt_Suc)
  have off: "fx_offset st ! i = 2 ^ i - 1" using inv k(1) by (simp add: fx_inv_def del: upt_Suc)
  have below: "?a < fx_heap st ! j \<longleftrightarrow> i < j" if "j \<le> 10" for j
    using heap [OF that] room by (auto simp: addr_of_def)
  have "find (\<lambda>j. ?a < fx_heap st ! j) [1..<11] = Some (i + 1)"
    unfolding find_Some_iff using k(1) below by (intro exI [of _ i]) (simp del: upt_Suc)
  moreover have "find_off ?a (base + 16384 * i) (2 ^ (11 - i)) 0 = Some k"
    using find_off_mult [of "2 ^ (11 - i)" "base + 16384 * i" k 0] by (simp add: addr_of_def)
  moreover have "mg_slot_clear_use (fx_bitmap st) (slot_of i k) =
      (True, (fx_bitmap st)[2 ^ i - 1 + k div 8 := (fx_bitmap st ! (2 ^ i - 1 + k div 8)) OR slot_mask (k mod 8)])"
  proof -
    have s: "slot_of i k div 8 = 2 ^ i - 1 + k div 8" "slot_of i k mod 8 = k mod 8" by (simp_all add: slot_of_def)
    have "slot_of i k < 8 * length (fx_bitmap st)" using used by (simp add: slots_used_def)
    then have "fst (mg_slot_clear_use (fx_bitmap st) (slot_of i k))"
      using clear_use_free(2) used by (simp add: slots_used_def)
    then show ?thesis using s by (auto simp: mg_slot_clear_use_def drop_bit_3 split: if_splits)
  qed
  moreover have "\<not> ?a \<ge> fx_heap st ! 10" "\<not> ?a < fx_heap st ! 0" using below [of 10] heap [of 0] k(1)
    by (auto simp: addr_of_def not_le)
  ultimately show ?thesis
    using heap [of i] off k(1) by (simp add: FreeFixStr_def NR_HEAP_def Let_def drop_bit_3 del: upt_Suc)
qed

subsection \<open>Fixed strings as an allocator\<close>

text \<open>A client that takes buffers of the arena; \<open>None\<close> stands for a heap that is full.\<close>

definition fx_take :: "nat \<Rightarrow> fixstr \<Rightarrow> (nat \<times> fixstr) option" where
  "fx_take len st =
     (if 0 < len \<and> len < MAX_LEN_FIXSTR
      then let (p, st') = FixStrAlloc 0 0 (int len) st in if p = 0 then None else Some (p, st')
      else None)"

definition fx_release :: "nat \<Rightarrow> fixstr \<Rightarrow> fixstr" where
  "fx_release p st = (case FreeFixStr False p st of None \<Rightarrow> st | Some (_, st') \<Rightarrow> st')"

definition slots_at :: "nat set \<Rightarrow> (nat \<times> nat) set" where
  "slots_at U = {(i, k). i < 10 \<and> k < 8 * 2 ^ i \<and> slot_of i k \<in> U}"

lemma fx_used_image: "fx_used base st = (\<lambda>(i, k). addr_of base i k) ` slots_at (slots_used (fx_bitmap st))"
  by (auto simp: fx_used_def slots_at_def)

lemma slots_at_insert:
  assumes "i < 10" "k < 8 * 2 ^ i"
  shows "slots_at (insert (slot_of i k) U) = insert (i, k) (slots_at U)"
    "slots_at (U - {slot_of i k}) = slots_at U - {(i, k)}"
proof -
  have e: "slot_of j l = slot_of i k \<longleftrightarrow> j = i \<and> l = k" if "l < 8 * 2 ^ j" for j l
    using slot_of_inj [OF that assms(2)] by blast
  show "slots_at (insert (slot_of i k) U) = insert (i, k) (slots_at U)"
    unfolding slots_at_def using e assms by blast
  show "slots_at (U - {slot_of i k}) = slots_at U - {(i, k)}"
    unfolding slots_at_def using e by blast
qed

lemma addr_inj_on: "inj_on (\<lambda>(i, k). addr_of base i k) {(i, k). i < 10 \<and> k < 8 * 2 ^ i}"
  using addr_of_inj by (auto simp: inj_on_def)

lemma fx_used_insert:
  assumes "i < 10" "k < 8 * 2 ^ i" "slot_free (fx_bitmap st) (slot_of i k)"
  shows "addr_of base i k \<notin> fx_used base st"
    "fx_used base (st\<lparr>fx_bitmap := mg_slot_set_use (fx_bitmap st) (slot_of i k)\<rparr>) = insert (addr_of base i k) (fx_used base st)"
proof -
  show "addr_of base i k \<notin> fx_used base st"
  proof
    assume "addr_of base i k \<in> fx_used base st"
    then obtain j l where j: "j < 10" "l < 8 * 2 ^ j" "slot_of j l \<in> slots_used (fx_bitmap st)"
      "addr_of base i k = addr_of base j l" unfolding fx_used_def by blast
    then have "i = j \<and> k = l" using addr_of_inj [OF assms(1,2)] by blast
    then show False using j(3) assms(3) by (simp add: slots_used_def)
  qed
  show "fx_used base (st\<lparr>fx_bitmap := mg_slot_set_use (fx_bitmap st) (slot_of i k)\<rparr>) = insert (addr_of base i k) (fx_used base st)"
    by (simp add: fx_used_image used_set_use [OF assms(3)] slots_at_insert [OF assms(1,2)])
qed

lemma fx_used_remove:
  assumes "i < 10" "k < 8 * 2 ^ i" "slot_of i k \<in> slots_used (fx_bitmap st)"
  shows "fx_used base (st\<lparr>fx_bitmap := snd (mg_slot_clear_use (fx_bitmap st) (slot_of i k))\<rparr>) = fx_used base st - {addr_of base i k}"
proof -
  have "(\<lambda>(i, k). addr_of base i k) ` (slots_at U - {(i, k)}) = (\<lambda>(i, k). addr_of base i k) ` slots_at U - {addr_of base i k}" for U
    using inj_on_image_set_diff [OF addr_inj_on [of base], of "slots_at U" "{(i, k)}"] assms(1,2) by (auto simp: slots_at_def)
  then show ?thesis by (simp add: fx_used_image used_clear_use [OF assms(3)] slots_at_insert [OF assms(1,2)])
qed

lemma fx_inv_bitmap: "fx_inv base st \<Longrightarrow> length bm = length (fx_bitmap st) \<Longrightarrow> fx_inv base (st\<lparr>fx_bitmap := bm\<rparr>)"
  by (simp add: fx_inv_def)

interpretation fixstr: slot_allocator fx_take fx_release "fx_used base" "fx_inv base" "\<lambda>e s. True" for base
proof unfold_locales
  fix st st' p len
  assume inv: "fx_inv base st" and "fx_take len st = Some (p, st')"
  then have al: "0 < len" "len < 2048" "FixStrAlloc 0 0 (int len) st = (p, st')" "p \<noteq> 0"
    by (auto simp: fx_take_def MAX_LEN_FIXSTR_def split: if_splits prod.splits)
  have "p \<notin> fx_used base st \<and> fx_used base st' = insert p (fx_used base st) \<and> fx_inv base st'"
    using inv al(1-3)
  proof (cases rule: FixStrAlloc_effect)
    case full
    then show ?thesis using al(4) by simp
  next
    case (slot k)
    then show ?thesis
      using fx_used_insert [OF heap_for(1) [OF al(1,2)]] fx_inv_bitmap [OF inv] by simp
  qed
  then show "p \<notin> fx_used base st" "fx_used base st' = insert p (fx_used base st)" "fx_inv base st'" by simp_all
next
  fix st p
  assume inv: "fx_inv base st" and "p \<in> fx_used base st"
  then obtain i k where k: "p = addr_of base i k" "i < 10" "k < 8 * 2 ^ i" "slot_of i k \<in> slots_used (fx_bitmap st)"
    by (auto simp: fx_used_def)
  note f = FreeFixStr_effect [OF inv k(2-4)] fx_used_remove [OF k(2-4)] fx_inv_bitmap [OF inv]
  show "fx_used base (fx_release p st) = fx_used base st - {p}" "fx_inv base (fx_release p st)"
    using f by (simp_all add: fx_release_def k(1))
qed

subsection \<open>The properties\<close>

text \<open>
  Whatever buffers a client takes from the arena of fixed strings and frees, in any
  order, the buffers it holds are pairwise distinct and the bitmap has exactly their slots
  marked; \<open>FreeFixStr\<close> finds the slot of every buffer that was handed out.
\<close>

theorem fixstr_accounts:
  assumes "InitFixStr base = Some st" and "alloc_run fx_take fx_release ps (st, []) = (st', live)"
  shows "distinct live \<and> fx_used base st' = set live \<and> fx_inv base st'"
proof -
  have "envs_ok (\<lambda>e s. True) fx_take fx_release ps c" for c
    by (induction ps arbitrary: c) (auto split: alloc_op.split)
  then show ?thesis
    using fixstr.run_accounts [OF InitFixStr_inv(1) [OF assms(1)] _ _ _ assms(2)] InitFixStr_inv(2) [OF assms(1)] by simp
qed

lemma fixstr_first:
  assumes "InitFixStr base = Some st" "0 < len" "len < 2048"
  shows "\<exists>p st'. fx_take len st = Some (p, st')"
proof -
  obtain p st' where al: "FixStrAlloc 0 0 (int len) st = (p, st')" by fastforce
  have "p \<noteq> 0"
    using InitFixStr_inv(1) [OF assms(1)] assms(2,3) al
  proof (cases rule: FixStrAlloc_effect)
    case full
    then have "addr_of base (heap_for len) 0 \<in> fx_used base st"
      unfolding fx_used_def using heap_for(1) [OF assms(2,3)] by fastforce
    then show ?thesis using InitFixStr_inv(2) [OF assms(1)] by simp
  next
    case (slot k)
    then show ?thesis using InitFixStr_inv(1) [OF assms(1)] by (simp add: addr_of_def fx_inv_def)
  qed
  then show ?thesis using al assms(2,3) by (simp add: fx_take_def MAX_LEN_FIXSTR_def)
qed

theorem fixstr_accounts_witness:
  "\<exists>st st' p. InitFixStr 4096 = Some st
    \<and> alloc_run fx_take fx_release [Alloc 5] (st, []) = (st', [p]) \<and> fx_used 4096 st' = {p}"
proof -
  obtain st where st: "InitFixStr 4096 = Some st" using InitFixStr_Some [of 4096] by auto
  obtain p st' where "fx_take 5 st = Some (p, st')" using fixstr_first [OF st, of 5] by auto
  then have run: "alloc_run fx_take fx_release [Alloc 5] (st, []) = (st', [p])" by simp
  show ?thesis using st run fixstr_accounts [OF st run] by auto
qed

subsection \<open>The bytes of a buffer\<close>

definition buffer :: "nat \<Rightarrow> nat \<Rightarrow> nat set" where
  "buffer base p = {p ..< p + 2 ^ (11 - (p - base) div 16384)}"

lemma buffer_addr:
  assumes "i < 10" "k < 8 * 2 ^ i"
  shows "buffer base (addr_of base i k) = {addr_of base i k ..< addr_of base i k + 2 ^ (11 - i)}"
    "buffer base (addr_of base i k) \<subseteq> {base + 16384 * i ..< base + 16384 * (i + 1)}"
proof -
  show b: "buffer base (addr_of base i k) = {addr_of base i k ..< addr_of base i k + 2 ^ (11 - i)}"
    by (simp add: buffer_def addr_heap [OF assms])
  show "buffer base (addr_of base i k) \<subseteq> {base + 16384 * i ..< base + 16384 * (i + 1)}"
    unfolding b using heap_room [OF assms] by (intro ivl_subset [THEN iffD2]) (simp add: addr_of_def)
qed

lemma buffers_disjoint:
  assumes "i < 10" "k < 8 * 2 ^ i" "j < 10" "l < 8 * 2 ^ j" "(i, k) \<noteq> (j, l)"
  shows "buffer base (addr_of base i k) \<inter> buffer base (addr_of base j l) = {}"
proof (cases "i = j")
  case False
  have "{base + 16384 * i ..< base + 16384 * (i + 1)} \<inter> {base + 16384 * j ..< base + 16384 * (j + 1)} = {}"
    using False by (cases "i < j") auto
  then show ?thesis using buffer_addr(2) [OF assms(1,2), of base] buffer_addr(2) [OF assms(3,4), of base] by blast
next
  case True
  have apart: "{addr_of base i k ..< addr_of base i k + 2 ^ (11 - i)} \<inter> {addr_of base i l ..< addr_of base i l + 2 ^ (11 - i)} = {}"
    if "k < l" for k l
  proof -
    have "(2 :: nat) ^ (11 - i) * (k + 1) \<le> 2 ^ (11 - i) * l" using that by (intro mult_le_mono2) simp
    then show ?thesis by (auto simp: addr_of_def)
  qed
  have "k < l \<or> l < k" using assms(5) True by auto
  then show ?thesis
    using apart [of k l] apart [of l k] buffer_addr(1) [OF assms(1,2)] buffer_addr(1) [OF assms(3,4)] True by auto
qed

text \<open>
  C36.  A buffer from the arena holds a string of the length asked for with its terminating
  zero, lies inside the arena, and shares no byte with any buffer in use; the C heap is asked
  only when all buffers of the heap for this length are in use.
\<close>

theorem FixStrAlloc_fits:
  assumes "fx_inv base st" and "0 < len" and "len < 2048" and "FixStrAlloc zs mal (int len) st = (p, st')"
  shows "st' = st \<and> p = mal \<and> (\<forall>k < 8 * 2 ^ heap_for len. addr_of base (heap_for len) k \<in> fx_used base st)
    \<or> {p .. p + len} \<subseteq> buffer base p \<and> buffer base p \<subseteq> {base ..< base + 163840}
      \<and> (\<forall>q \<in> fx_used base st. buffer base p \<inter> buffer base q = {}) \<and> fx_used base st' = insert p (fx_used base st)"
  using assms
proof (cases rule: FixStrAlloc_effect)
  case full
  then show ?thesis using heap_for(1) [OF assms(2,3)] by (auto simp: fx_used_def)
next
  case (slot k)
  let ?i = "heap_for len"
  have i: "?i < 10" using heap_for(1) [OF assms(2,3)] .
  have "len + 1 \<le> 2 ^ (11 - ?i)" using heap_for(2) [OF assms(2,3)] by simp
  then have "{p .. p + len} \<subseteq> {p ..< p + 2 ^ (11 - ?i)}" by (intro subsetI) simp
  then have "{p .. p + len} \<subseteq> buffer base p" unfolding slot(1) buffer_addr(1) [OF i slot(2)] .
  moreover have "buffer base p \<subseteq> {base ..< base + 163840}" 
  proof -
    have "16384 * (?i + 1) \<le> 163840" using i by simp
    then have "{base + 16384 * ?i ..< base + 16384 * (?i + 1)} \<subseteq> {base ..< base + 163840}" by (intro ivl_subset [THEN iffD2]) simp
    then show ?thesis using buffer_addr(2) [OF i slot(2), of base] slot(1) by blast
  qed
  moreover have "buffer base p \<inter> buffer base q = {}" if "q \<in> fx_used base st" for q
  proof -
    obtain j l where q: "q = addr_of base j l" "j < 10" "l < 8 * 2 ^ j" "slot_of j l \<in> slots_used (fx_bitmap st)"
      using \<open>q \<in> fx_used base st\<close> unfolding fx_used_def by blast
    then have "(?i, k) \<noteq> (j, l)" using slot(3) by (auto simp: slots_used_def)
    then show ?thesis using buffers_disjoint [OF i slot(2) q(2,3), of base] slot(1) q(1) by simp
  qed
  moreover have "fx_used base st' = insert p (fx_used base st)" using fx_used_insert(2) [OF i slot(2,3), of base] slot(1,4) by simp
  ultimately show ?thesis by blast
qed

theorem FixStrAlloc_fits_witness:
  "\<exists>st p st'. InitFixStr 4096 = Some st \<and> FixStrAlloc 1 2 5 st = (p, st') \<and> {p .. p + 5} \<subseteq> buffer 4096 p"
proof -
  obtain st where st: "InitFixStr 4096 = Some st" using InitFixStr_Some [of 4096] by auto
  obtain p st' where al: "FixStrAlloc 1 2 (int 5) st = (p, st')" by fastforce
  have "addr_of 4096 (heap_for 5) 0 \<notin> fx_used 4096 st" using InitFixStr_inv(2) [OF st] by simp
  then have "\<not> (\<forall>k < 8 * 2 ^ heap_for 5. addr_of 4096 (heap_for 5) k \<in> fx_used 4096 st)" by (auto intro!: exI [of _ 0])
  then have "{p .. p + 5} \<subseteq> buffer 4096 p"
    using FixStrAlloc_fits [OF InitFixStr_inv(1) [OF st] _ _ al] by auto
  then show ?thesis using st al by auto
qed

end
