(* ===== verification/BlockHeap.thy ===== *)
theory BlockHeap
  imports Slot_Alloc
begin

section \<open>The heap of data blocks (src/kernel/blockheap.c)\<close>

text \<open>
  A \<open>BLOCKHEAP\<close> is a table of \<open>heap_size\<close> blocks, allocated at the first use, each with a
  DWORD flag in front of its data; when no block of the table is free a block is taken from
  the C heap and flagged special.  \<open>free\<close> is a hint: the index where the search starts.  The
  mutex makes each operation atomic.  A block is its index in the table, or the address of
  its own allocation; the results of the two \<open>calloc\<close> calls are parameters.  Reading the
  flag of a special block that is not allocated is outside the model: the operations leave
  the heap alone there.
\<close>

datatype bds = BDS_FREE | BDS_SPECIAL | BDS_USED

datatype block = InHeap nat | OnHeap nat

record blockheap =
  bh_free :: nat
  bh_size :: nat
  bd_size :: nat
  bh_heap :: "bds list option"
  bh_special :: "nat set"

text \<open>What \<open>calloc\<close> returns for the table (success) and for a special block (its address).\<close>

type_synonym calloc_env = "bool \<times> nat option"

definition InitBlockDataHeap :: "nat \<Rightarrow> nat \<Rightarrow> blockheap" where
  "InitBlockDataHeap bd n =
     \<lparr>bh_free = 0, bh_size = n, bd_size = bd + 4, bh_heap = None, bh_special = {}\<rparr>"

fun alloc_search :: "nat \<Rightarrow> bds list \<Rightarrow> nat option" where
  "alloc_search i [] = None"
| "alloc_search i (f # fs) = (if f = BDS_FREE then Some i else alloc_search (Suc i) fs)"

definition BlockDataAlloc :: "calloc_env \<Rightarrow> blockheap \<Rightarrow> (block \<times> blockheap) option" where
  "BlockDataAlloc = (\<lambda>(table_ok, special) h.
     let h = (case bh_heap h of
                None \<Rightarrow> if table_ok then h\<lparr>bh_heap := Some (replicate (bh_size h) BDS_FREE), bh_free := 0\<rparr>
                        else h
              | Some _ \<Rightarrow> h)
     in case bh_heap h of
          None \<Rightarrow> None
        | Some fs \<Rightarrow>
            (case alloc_search (bh_free h) (drop (bh_free h) fs) of
               Some i \<Rightarrow> Some (InHeap i, h\<lparr>bh_free := i + 1, bh_heap := Some (fs[i := BDS_USED])\<rparr>)
             | None \<Rightarrow>
                 (case special of
                    None \<Rightarrow> None
                  | Some a \<Rightarrow> Some (OnHeap a, h\<lparr>bh_special := insert a (bh_special h)\<rparr>))))"

fun BlockDataFree :: "block \<Rightarrow> blockheap \<Rightarrow> blockheap" where
  "BlockDataFree (OnHeap a) h = h\<lparr>bh_special := bh_special h - {a}\<rparr>"
| "BlockDataFree (InHeap i) h =
     (case bh_heap h of
        None \<Rightarrow> h
      | Some fs \<Rightarrow>
          if i < length fs \<and> fs ! i = BDS_USED
          then h\<lparr>bh_heap := Some (fs[i := BDS_FREE]), bh_free := (if bh_free h > i then i else bh_free h)\<rparr>
          else h)"

text \<open>The table is freed; blocks with an allocation of their own stay allocated.  The code leaves the pointer to the table,
  so no other operation may follow.\<close>

definition DestroyBlockDataHeap :: "blockheap \<Rightarrow> blockheap" where
  "DestroyBlockDataHeap h = h\<lparr>bh_heap := None\<rparr>"

subsection \<open>Blocks in use and the invariant of the hint\<close>

definition flags :: "blockheap \<Rightarrow> bds list" where
  "flags h = (case bh_heap h of None \<Rightarrow> [] | Some fs \<Rightarrow> fs)"

definition blocks_used :: "blockheap \<Rightarrow> block set" where
  "blocks_used h =
     InHeap ` {i. i < length (flags h) \<and> flags h ! i = BDS_USED} \<union> OnHeap ` bh_special h"

text \<open>No block below the hint is free, so a search from the hint misses none.\<close>

definition bh_inv :: "blockheap \<Rightarrow> bool" where
  "bh_inv h \<longleftrightarrow>
     (\<forall>fs. bh_heap h = Some fs \<longrightarrow>
        length fs = bh_size h \<and> (\<forall>i < length fs. fs ! i \<noteq> BDS_SPECIAL)
        \<and> bh_free h \<le> length fs \<and> (\<forall>i < bh_free h. fs ! i \<noteq> BDS_FREE))"

definition calloc_fresh :: "calloc_env \<Rightarrow> blockheap \<Rightarrow> bool" where
  "calloc_fresh e h \<longleftrightarrow> (\<forall>a. snd e = Some a \<longrightarrow> a \<notin> bh_special h)"

lemma alloc_search_Some:
  "alloc_search n fs = Some i \<Longrightarrow>
     n \<le> i \<and> i < n + length fs \<and> fs ! (i - n) = BDS_FREE \<and> (\<forall>k < i - n. fs ! k \<noteq> BDS_FREE)"
proof (induction fs arbitrary: n)
  case (Cons f fs)
  show ?case
  proof (cases "f = BDS_FREE")
    case False
    then have "Suc n \<le> i \<and> i < Suc n + length fs \<and> fs ! (i - Suc n) = BDS_FREE
        \<and> (\<forall>k < i - Suc n. fs ! k \<noteq> BDS_FREE)"
      using Cons.IH [of "Suc n"] Cons.prems by simp
    moreover from this have "i - n = Suc (i - Suc n)" by auto
    ultimately show ?thesis using False by (auto simp: nth_Cons split: nat.splits)
  qed (use Cons.prems in simp)
qed simp

lemma alloc_search_None: "alloc_search n fs = None \<longleftrightarrow> (\<forall>f \<in> set fs. f \<noteq> BDS_FREE)"
  by (induction fs arbitrary: n) auto

text \<open>The table of an initialised heap, and the heap an allocation works on.\<close>

definition bh_table :: "bool \<Rightarrow> blockheap \<Rightarrow> blockheap" where
  "bh_table ok h =
     (case bh_heap h of
        None \<Rightarrow> if ok then h\<lparr>bh_heap := Some (replicate (bh_size h) BDS_FREE), bh_free := 0\<rparr> else h
      | Some _ \<Rightarrow> h)"

lemma bh_table_keeps:
  "bh_inv h \<Longrightarrow> bh_inv (bh_table ok h)" "blocks_used (bh_table ok h) = blocks_used h"
  "bh_special (bh_table ok h) = bh_special h" "bh_size (bh_table ok h) = bh_size h"
  by (auto simp: bh_table_def bh_inv_def blocks_used_def flags_def split: option.splits)

lemma alloc_cases:
  assumes "BlockDataAlloc (ok, sp) h = Some (b, h')"
  obtains (table) i fs where "bh_heap (bh_table ok h) = Some fs" "b = InHeap i"
    "alloc_search (bh_free (bh_table ok h)) (drop (bh_free (bh_table ok h)) fs) = Some i"
    "h' = (bh_table ok h)\<lparr>bh_free := i + 1, bh_heap := Some (fs[i := BDS_USED])\<rparr>"
  | (special) a fs where "bh_heap (bh_table ok h) = Some fs" "b = OnHeap a" "sp = Some a"
    "alloc_search (bh_free (bh_table ok h)) (drop (bh_free (bh_table ok h)) fs) = None"
    "h' = (bh_table ok h)\<lparr>bh_special := insert a (bh_special (bh_table ok h))\<rparr>"
  using assms by (auto simp: BlockDataAlloc_def Let_def split: option.splits simp flip: bh_table_def)

lemma alloc_table_index:
  assumes "bh_inv h" "bh_heap h = Some fs" "alloc_search (bh_free h) (drop (bh_free h) fs) = Some i"
  shows "i < length fs" "fs ! i = BDS_FREE" "\<forall>k < i. fs ! k \<noteq> BDS_FREE"
proof -
  have le: "bh_free h \<le> length fs" "\<forall>k < bh_free h. fs ! k \<noteq> BDS_FREE"
    using assms(1,2) by (auto simp: bh_inv_def)
  note s = alloc_search_Some [OF assms(3)]
  show "i < length fs" "fs ! i = BDS_FREE" using s le by auto
  show "\<forall>k < i. fs ! k \<noteq> BDS_FREE"
  proof (intro allI impI)
    fix k assume "k < i"
    show "fs ! k \<noteq> BDS_FREE"
    proof (cases "k < bh_free h")
      case False
      then have "k - bh_free h < i - bh_free h" using \<open>k < i\<close> by simp
      then have "drop (bh_free h) fs ! (k - bh_free h) \<noteq> BDS_FREE" using s by blast
      then show ?thesis using False le by simp
    qed (use le in simp)
  qed
qed

interpretation blockheap: slot_allocator BlockDataAlloc BlockDataFree blocks_used bh_inv calloc_fresh
proof unfold_locales
  fix h h' b and e :: calloc_env
  assume inv: "bh_inv h" and fresh: "calloc_fresh e h" and al: "BlockDataAlloc e h = Some (b, h')"
  obtain ok sp where e: "e = (ok, sp)" by fastforce
  let ?t = "bh_table ok h"
  note t = bh_table_keeps [where h = h and ok = ok] bh_table_keeps(1) [OF inv, of ok]
  have "b \<notin> blocks_used h \<and> blocks_used h' = insert b (blocks_used h) \<and> bh_inv h'"
    using al unfolding e
  proof (cases rule: alloc_cases)
    case (table i fs)
    note ix = alloc_table_index [OF t(5) table(1,3)]
    have "b \<notin> blocks_used ?t" "blocks_used h' = insert b (blocks_used ?t)"
      using ix table by (auto simp: blocks_used_def flags_def nth_list_update)
    moreover have "bh_inv h'"
      using t(5) ix table by (auto simp: bh_inv_def nth_list_update less_Suc_eq)
    ultimately show ?thesis using t(2) by simp
  next
    case (special a fs)
    have "b \<notin> blocks_used ?t" "blocks_used h' = insert b (blocks_used ?t)"
      using special fresh e t(3) by (auto simp: blocks_used_def flags_def calloc_fresh_def)
    moreover have "bh_inv h'" using t(5) special by (simp add: bh_inv_def)
    ultimately show ?thesis using t(2) by simp
  qed
  then show "b \<notin> blocks_used h" "blocks_used h' = insert b (blocks_used h)" "bh_inv h'" by simp_all
next
  fix h b
  assume inv: "bh_inv h" and b: "b \<in> blocks_used h"
  have "blocks_used (BlockDataFree b h) = blocks_used h - {b} \<and> bh_inv (BlockDataFree b h)"
  proof (cases b)
    case (InHeap i)
    then show ?thesis
      using inv b
      by (auto simp: blocks_used_def flags_def bh_inv_def nth_list_update split: option.splits if_splits)
  qed (use inv b in \<open>auto simp: blocks_used_def flags_def bh_inv_def\<close>)
  then show "blocks_used (BlockDataFree b h) = blocks_used h - {b}" "bh_inv (BlockDataFree b h)" by simp_all
qed

lemma inv_Init: "bh_inv (InitBlockDataHeap bd n)" "blocks_used (InitBlockDataHeap bd n) = {}"
  by (auto simp: bh_inv_def InitBlockDataHeap_def blocks_used_def flags_def)

text \<open>
  Whatever blocks a client takes from an initialised heap and gives back, in any order,
  the blocks it holds are pairwise distinct, they are exactly the blocks in use, and no block
  below the search hint is free.  \<open>calloc\<close> never returns an address that is still allocated.
\<close>

theorem blockheap_accounts:
  assumes "envs_ok calloc_fresh BlockDataAlloc BlockDataFree ps (InitBlockDataHeap bd n, [])"
    and "alloc_run BlockDataAlloc BlockDataFree ps (InitBlockDataHeap bd n, []) = (h, live)"
  shows "distinct live \<and> blocks_used h = set live \<and> bh_inv h"
  using blockheap.run_accounts [OF inv_Init(1) _ _ assms] inv_Init(2) by simp

theorem blockheap_accounts_witness:
  "InHeap 0 \<noteq> OnHeap 7 \<and> bh_inv (fst (alloc_run BlockDataAlloc BlockDataFree
     [Alloc (True, None), Alloc (True, Some 7), Free 1, Alloc (True, None)] (InitBlockDataHeap 20 1, [])))"
proof -
  let ?ps = "[Alloc (True, None), Alloc (True, Some 7), Free 1, Alloc (True, None)]"
  have run: "alloc_run BlockDataAlloc BlockDataFree ?ps (InitBlockDataHeap 20 1, []) =
      (\<lparr>bh_free = 1, bh_size = 1, bd_size = 24, bh_heap = Some [BDS_USED], bh_special = {7}\<rparr>,
       [InHeap 0, OnHeap 7])"
    by (simp add: BlockDataAlloc_def InitBlockDataHeap_def)
  have env: "envs_ok calloc_fresh BlockDataAlloc BlockDataFree ?ps (InitBlockDataHeap 20 1, [])"
    by (simp add: BlockDataAlloc_def InitBlockDataHeap_def calloc_fresh_def)
  show ?thesis using blockheap_accounts [OF env run] run by simp
qed

text \<open>
  While a block of the table is free an allocation gives the lowest free one and does
  not turn to the C heap; it fails only when \<open>calloc\<close> does.
\<close>

theorem BlockDataAlloc_lowest_free:
  assumes "bh_inv h" and "bh_heap h = Some fs"
  shows "BlockDataAlloc (ok, sp) h =
    (if BDS_FREE \<in> set fs
     then (let i = (LEAST i. i < length fs \<and> fs ! i = BDS_FREE)
           in Some (InHeap i, h\<lparr>bh_free := i + 1, bh_heap := Some (fs[i := BDS_USED])\<rparr>))
     else map_option (\<lambda>a. (OnHeap a, h\<lparr>bh_special := insert a (bh_special h)\<rparr>)) sp)"
proof (cases "alloc_search (bh_free h) (drop (bh_free h) fs)")
  case None
  have "f \<noteq> BDS_FREE" if "f \<in> set fs" for f
  proof -
    from that obtain i where i: "i < length fs" "fs ! i = f" by (auto simp: in_set_conv_nth)
    show ?thesis
    proof (cases "i < bh_free h")
      case False
      then have "f \<in> set (drop (bh_free h) fs)"
        using i by (auto simp: in_set_conv_nth intro!: exI [of _ "i - bh_free h"])
      then show ?thesis using None by (auto simp: alloc_search_None)
    qed (use assms i in \<open>auto simp: bh_inv_def\<close>)
  qed
  then show ?thesis using None assms(2) by (auto simp: BlockDataAlloc_def split: option.splits)
next
  case (Some i)
  note ix = alloc_table_index [OF assms Some]
  have "(LEAST i. i < length fs \<and> fs ! i = BDS_FREE) = i"
    using ix by (intro Least_equality) (auto simp: not_less [symmetric])
  moreover have "BDS_FREE \<in> set fs" using ix nth_mem by metis
  ultimately show ?thesis using Some assms(2) by (simp add: BlockDataAlloc_def Let_def)
qed

theorem BlockDataAlloc_lowest_free_witness:
  "\<exists>h'. BlockDataAlloc (True, None)
     \<lparr>bh_free = 1, bh_size = 3, bd_size = 24, bh_heap = Some [BDS_USED, BDS_USED, BDS_FREE], bh_special = {}\<rparr>
   = Some (InHeap 2, h')"
proof -
  let ?fs = "[BDS_USED, BDS_USED, BDS_FREE]"
  let ?h = "\<lparr>bh_free = 1, bh_size = 3, bd_size = 24, bh_heap = Some ?fs, bh_special = {}\<rparr>"
  have "bh_inv ?h" by (auto simp: bh_inv_def less_Suc_eq numeral_3_eq_3)
  moreover have "(LEAST i. i < length ?fs \<and> ?fs ! i = BDS_FREE) = 2"
    by (rule Least_equality) (auto simp: nth_Cons' not_less_eq_eq split: if_splits)
  ultimately show ?thesis using BlockDataAlloc_lowest_free [of ?h ?fs True None] by (simp add: Let_def)
qed

end
