(* ===== verification/Timer.thy ===== *)
theory Timer
  imports GuiState
begin

section \<open>Timers (src/kernel/timer.c)\<close>

text \<open>
  The table of 32 timers, each counting ticks of 10 ms towards its speed.  The desktop thread
  runs \<open>DispatchTimerMessage\<close>, which flags an expired timer in the mask of its queue and
  raises the queue's semaphore; the operations on timers run in any thread under the timer
  lock.  The address \<open>malloc\<close> gives a new timer is a parameter, because
  \<open>__mg_remove_timer\<close> compares addresses.  \<open>keep_proc\<close> is \<open>ResetTimerEx\<close>'s
  \<open>timer_proc == (TIMERPROC)0xFFFFFFFF\<close>.
\<close>

definition slot_bit :: "nat \<Rightarrow> dword" where
  "slot_bit slot = push_bit slot 1"

definition SetMsgQueueTimerFlag :: "nat \<Rightarrow> nat \<Rightarrow> gui \<Rightarrow> gui" where
  "SetMsgQueueTimerFlag k slot g =
     POST_MSGQ k (upd_queue k (\<lambda>q. q\<lparr>TimerMask := TimerMask q OR slot_bit slot\<rparr>) g)"

definition RemoveMsgQueueTimerFlag :: "nat \<Rightarrow> nat \<Rightarrow> gui \<Rightarrow> gui" where
  "RemoveMsgQueueTimerFlag k slot g =
     upd_queue k (\<lambda>q. q\<lparr>TimerMask := TimerMask q AND NOT (slot_bit slot)\<rparr>) g"

definition AlertDesktopTimerEvent :: "nat \<Rightarrow> gui \<Rightarrow> gui" where
  "AlertDesktopTimerEvent dsk g = POST_MSGQ dsk (upd_queue dsk (\<lambda>q. q\<lparr>TimerMask := 1\<rparr>) g)"

definition mg_timer_action :: "nat \<Rightarrow> gui \<Rightarrow> gui" where
  "mg_timer_action dsk g = AlertDesktopTimerEvent dsk (g\<lparr>timer_counter := timer_counter g + 1\<rparr>)"

definition TerminateTimer :: "gui \<Rightarrow> gui" where
  "TerminateTimer g = g\<lparr>timerstr := replicate DEF_NR_TIMERS None\<rparr>"

definition set_timer :: "nat \<Rightarrow> timer option \<Rightarrow> gui \<Rightarrow> gui" where
  "set_timer i t g = g\<lparr>timerstr := (timerstr g)[i := t]\<rparr>"

text \<open>One round of the loop of \<open>DispatchTimerMessage\<close>.\<close>

definition dispatch_slot :: "dword \<Rightarrow> nat \<Rightarrow> gui \<Rightarrow> gui" where
  "dispatch_slot ticks i g =
     (case timerstr g ! i of
        None \<Rightarrow> g
      | Some t \<Rightarrow>
          (case t_msg_queue t of
             None \<Rightarrow> g
           | Some k \<Rightarrow>
               let t = t\<lparr>t_count := t_count t + ticks\<rparr> in
               if t_count t \<ge> t_speed t then
                 (let t = (if t_tick_count t = 0 then t\<lparr>t_tick_count := timer_counter g\<rparr> else t);
                      g = SetMsgQueueTimerFlag k i g
                  in set_timer i (Some (t\<lparr>t_count := t_count t - t_speed t\<rparr>)) g)
               else set_timer i (Some t) g))"

definition DispatchTimerMessage :: "dword \<Rightarrow> gui \<Rightarrow> gui" where
  "DispatchTimerMessage ticks g = fold (dispatch_slot ticks) [0..<DEF_NR_TIMERS] g"

definition mg_get_timer :: "gui \<Rightarrow> int \<Rightarrow> timer option" where
  "mg_get_timer g slot = (if slot < 0 \<or> slot \<ge> int DEF_NR_TIMERS then None else timerstr g ! nat slot)"

definition mg_get_timer_hwnd :: "gui \<Rightarrow> int \<Rightarrow> hwnd" where
  "mg_get_timer_hwnd g slot = (case mg_get_timer g slot of None \<Rightarrow> 0 | Some t \<Rightarrow> t_hWnd t)"

definition is_timer :: "hwnd \<Rightarrow> int \<Rightarrow> timer option \<Rightarrow> bool" where
  "is_timer h i t \<longleftrightarrow> (case t of None \<Rightarrow> False | Some t \<Rightarrow> t_hWnd t = h \<and> t_id t = i)"

text \<open>
  The scan of \<open>SetTimerEx\<close>: the first empty slot seen so far, or \<open>None\<close> after a jump to
  \<open>badret\<close> because the timer exists.
\<close>

fun set_scan :: "gui \<Rightarrow> hwnd \<Rightarrow> int \<Rightarrow> int \<Rightarrow> nat list \<Rightarrow> int option" where
  "set_scan g h tid slot [] = Some slot"
| "set_scan g h tid slot (i # is) =
     (case timerstr g ! i of
        None \<Rightarrow> set_scan g h tid (if slot < 0 then int i else slot) is
      | Some t \<Rightarrow> if t_hWnd t = h \<and> t_id t = tid then None else set_scan g h tid slot is)"

definition SetTimerEx ::
  "nat \<Rightarrow> nat \<Rightarrow> hwnd \<Rightarrow> int \<Rightarrow> dword \<Rightarrow> nat option \<Rightarrow> gui \<Rightarrow> bool \<times> gui" where
  "SetTimerEx me addr hWnd tid speed timer_proc g =
     (case thread_queue g me of
        None \<Rightarrow> (False, g)
      | Some k \<Rightarrow>
          (case set_scan g hWnd tid (-1) [0..<DEF_NR_TIMERS] of
             None \<Rightarrow> (False, g)
           | Some slot \<Rightarrow>
               if slot < 0 \<or> slot = int DEF_NR_TIMERS then (False, g)
               else (True, set_timer (nat slot)
                      (Some \<lparr>t_addr = addr, t_hWnd = hWnd, t_id = tid, t_speed = speed, t_count = 0,
                             t_proc = timer_proc, t_tick_count = 0, t_msg_queue = Some k\<rparr>) g)))"

definition mg_remove_timer :: "timer option \<Rightarrow> int \<Rightarrow> gui \<Rightarrow> gui" where
  "mg_remove_timer timer slot g =
     (if slot < 0 \<or> slot \<ge> int DEF_NR_TIMERS then g
      else case timer of
        None \<Rightarrow> g
      | Some t \<Rightarrow>
          if t_msg_queue t \<noteq> None
             \<and> (case timerstr g ! nat slot of None \<Rightarrow> False | Some t' \<Rightarrow> t_addr t' = t_addr t)
          then set_timer (nat slot) None g else g)"

text \<open>The loop of \<open>KillTimer\<close> over the slots, with the number of timers killed so far.\<close>

fun kill_loop :: "nat \<Rightarrow> hwnd \<Rightarrow> int \<Rightarrow> nat list \<Rightarrow> int \<times> gui \<Rightarrow> int \<times> gui" where
  "kill_loop k h tid [] r = r"
| "kill_loop k h tid (i # is) (killed, g) =
     (if (case timerstr g ! i of None \<Rightarrow> False | Some t \<Rightarrow> t_hWnd t = h \<and> (tid \<le> 0 \<or> t_id t = tid)) then
        (let g = set_timer i None (RemoveMsgQueueTimerFlag k i g) in
         if tid > 0 then (killed + 1, g) else kill_loop k h tid is (killed + 1, g))
      else kill_loop k h tid is (killed, g))"

definition KillTimer :: "nat \<Rightarrow> hwnd \<Rightarrow> int \<Rightarrow> gui \<Rightarrow> int \<times> gui" where
  "KillTimer me hWnd tid g =
     (case thread_queue g me of
        None \<Rightarrow> (0, g)
      | Some k \<Rightarrow> kill_loop k hWnd tid [0..<DEF_NR_TIMERS] (0, g))"

definition ResetTimerEx ::
  "nat \<Rightarrow> hwnd \<Rightarrow> int \<Rightarrow> dword \<Rightarrow> bool \<Rightarrow> nat option \<Rightarrow> gui \<Rightarrow> bool \<times> gui" where
  "ResetTimerEx me hWnd tid speed keep_proc timer_proc g =
     (case thread_queue g me of
        None \<Rightarrow> (False, g)
      | Some k \<Rightarrow>
          (case find (\<lambda>i. is_timer hWnd tid (timerstr g ! i)) [0..<DEF_NR_TIMERS] of
             None \<Rightarrow> (False, g)
           | Some i \<Rightarrow>
               (case timerstr g ! i of
                  None \<Rightarrow> (False, g)
                | Some t \<Rightarrow>
                    (let g = RemoveMsgQueueTimerFlag k i g;
                         t = t\<lparr>t_speed := speed, t_count := 0\<rparr>;
                         t = (if \<not> keep_proc then t\<lparr>t_proc := timer_proc\<rparr> else t)
                     in (True, set_timer i (Some (t\<lparr>t_tick_count := 0\<rparr>)) g)))))"

definition IsTimerInstalled :: "hwnd \<Rightarrow> int \<Rightarrow> gui \<Rightarrow> bool" where
  "IsTimerInstalled hWnd tid g \<longleftrightarrow>
     find (\<lambda>i. is_timer hWnd tid (timerstr g ! i)) [0..<DEF_NR_TIMERS] \<noteq> None"

definition HaveFreeTimer :: "gui \<Rightarrow> bool" where
  "HaveFreeTimer g \<longleftrightarrow> find (\<lambda>i. timerstr g ! i = None) [0..<DEF_NR_TIMERS] \<noteq> None"

definition GetTickCount :: "gui \<Rightarrow> dword" where
  "GetTickCount g = timer_counter g"

end
