(* ===== verification/Message.thy ===== *)
theory Message
  imports Timer
begin

section \<open>The message module: the model (src/kernel/message.c)\<close>

text \<open>
  The operations of message.c in the threads configuration, on the shared state \<open>gui\<close>.  What
  runs under a queue's lock is one step.  The two places that change the state word of a queue without its lock,
  \<open>PostQuitMessage\<close> and the end of the loop of \<open>SendSyncMessage\<close>, read and write it in separate accesses:
  \<open>meanwhile\<close> is what the other threads do in the gaps between them.  Code the module calls through pointers or in other
  modules is the record \<open>extern\<close>: window procedures, timer procedures, \<open>TranslateMessage\<close>,
  \<open>ClientToScreen\<close> and the address of a window's invalid region.  A thread that waits on a
  semaphore is given the list \<open>acts\<close> of what the other threads do meanwhile; \<open>None\<close> means that
  it is still waiting when they are done, or never returns.
\<close>

record extern =
  wnd_proc :: "nat \<Rightarrow> hwnd \<Rightarrow> int \<Rightarrow> dword \<Rightarrow> dword \<Rightarrow> gui \<Rightarrow> int \<times> gui"
  timer_proc :: "nat \<Rightarrow> hwnd \<Rightarrow> int \<Rightarrow> dword \<Rightarrow> gui \<Rightarrow> bool \<times> gui"
  translate_message :: "msg \<Rightarrow> gui \<Rightarrow> gui"
  client_to_screen :: "hwnd \<Rightarrow> int \<Rightarrow> int \<Rightarrow> int \<times> int"
  inv_rgn_addr :: "hwnd \<Rightarrow> dword"
  meanwhile :: "nat \<Rightarrow> gui \<Rightarrow> gui"

text \<open>What happens in the gaps of an unlocked access, by the number of the gap.\<close>

type_synonym gaps = "nat \<Rightarrow> gui \<Rightarrow> gui"

abbreviation no_gaps :: gaps where "no_gaps \<equiv> (\<lambda>i g. g)"

type_synonym acts = "(gui \<Rightarrow> gui) list"

abbreviation (input) KS_CAPTURED :: dword where "KS_CAPTURED \<equiv> 0x400"

fun sem_wait :: "sem \<Rightarrow> acts \<Rightarrow> gui \<Rightarrow> (acts \<times> gui) option" where
  "sem_wait s [] g = (if sems g s > 0 then Some ([], g\<lparr>sems := (sems g)(s := sems g s - 1)\<rparr>) else None)"
| "sem_wait s (a # as) g =
     (if sems g s > 0 then Some (a # as, g\<lparr>sems := (sems g)(s := sems g s - 1)\<rparr>)
      else sem_wait s as (a g))"

subsection \<open>Posting\<close>

definition QueueMessage :: "nat \<Rightarrow> nat \<Rightarrow> msg \<Rightarrow> gui \<Rightarrow> bool \<times> gui" where
  "QueueMessage me k m g =
     (let (r, q) = queue_message (queues g k) m in
      if \<not> r then (False, g)
      else let g = upd_queue k (\<lambda>_. q) g
           in (True, if \<not> BE_THIS_THREAD g me (m_hwnd m) then POST_MSGQ k g else g))"

definition make_msg :: "hwnd \<Rightarrow> int \<Rightarrow> dword \<Rightarrow> dword \<Rightarrow> msg" where
  "make_msg h i w l = \<lparr>m_hwnd = h, m_message = i, m_wParam = w, m_lParam = l, m_time = 0, m_pAdd = None\<rparr>"

definition PostMessage :: "nat \<Rightarrow> hwnd \<Rightarrow> int \<Rightarrow> dword \<Rightarrow> dword \<Rightarrow> gui \<Rightarrow> int \<times> gui" where
  "PostMessage me hWnd iMsg wParam lParam g =
     (case GetMsgQueue g hWnd of
        None \<Rightarrow> (ERR_INV_HWND, g)
      | Some k \<Rightarrow>
          if iMsg = MSG_PAINT then
            (let g = upd_queue k (set_flag QS_PAINT) g
             in (ERR_OK, if \<not> BE_THIS_THREAD g me hWnd then POST_MSGQ k g else g))
          else
            (let (r, g) = QueueMessage me k (make_msg hWnd iMsg wParam lParam) g
             in (if \<not> r then ERR_QUEUE_FULL else ERR_OK, g)))"

definition SendNotifyMessage :: "nat \<Rightarrow> hwnd \<Rightarrow> int \<Rightarrow> dword \<Rightarrow> dword \<Rightarrow> gui \<Rightarrow> int \<times> gui" where
  "SendNotifyMessage me hWnd iMsg wParam lParam g =
     (if \<not> MG_IS_WINDOW g hWnd then (ERR_INV_HWND, g)
      else case GetMsgQueue g hWnd of
        None \<Rightarrow> (ERR_INV_HWND, g)
      | Some k \<Rightarrow>
          (let g = upd_queue k (\<lambda>q. queue_notify q (make_msg hWnd iMsg wParam lParam)) g
           in (ERR_OK, if \<not> BE_THIS_THREAD g me hWnd then POST_MSGQ k g else g)))"

text \<open>The queue of a window that may already be destroyed, as \<open>PostQuitMessage\<close> finds it.\<close>

definition queue_of_deleted :: "gui \<Rightarrow> hwnd \<Rightarrow> nat option" where
  "queue_of_deleted g hWnd =
     (if hWnd \<noteq> 0 \<and> hWnd \<noteq> HWND_INVALID
         \<and> (data_type g hWnd = TYPE_HWND \<or> data_type g hWnd = TYPE_WINTODEL)
      then (case wins g hWnd of
              None \<Rightarrow> None
            | Some w \<Rightarrow> (case wins g (w_pMainWin w) of None \<Rightarrow> None | Some m \<Rightarrow> w_pMessages m))
      else None)"

text \<open>\<open>PostQuitMessage\<close> takes no lock: the count and the state word are each read and written back in two accesses.\<close>

definition PostQuitMessage :: "gaps \<Rightarrow> nat \<Rightarrow> hwnd \<Rightarrow> gui \<Rightarrow> int \<times> gui" where
  "PostQuitMessage gap me hWnd g =
     (case queue_of_deleted g hWnd of
        None \<Rightarrow> (ERR_INV_HWND, g)
      | Some k \<Rightarrow>
          (let depth = loop_depth (queues g k);
               g = gap 0 g;
               g = upd_queue k (\<lambda>q. q\<lparr>loop_depth := depth + 1\<rparr>) g;
               g = gap 1 g;
               state = dwState (queues g k);
               g = gap 2 g;
               g = upd_queue k (\<lambda>q. q\<lparr>dwState := state OR QS_QUIT\<rparr>) g;
               g = gap 3 g
           in (ERR_OK, if \<not> BE_THIS_THREAD g me hWnd then POST_MSGQ k g else g)))"

subsection \<open>Looking for messages\<close>

fun msgCheckInvalidRegion :: "wnd \<Rightarrow> hwnd" and check_children :: "wnd list \<Rightarrow> hwnd" where
  "msgCheckInvalidRegion (Wnd h ir cs hs) = (if ir then h else check_children cs)"
| "check_children [] = 0"
| "check_children (w # ws) =
     (let h = msgCheckInvalidRegion w in if h \<noteq> 0 then h else check_children ws)"

fun msgCheckHostedTree :: "wnd \<Rightarrow> hwnd" and check_hosted :: "wnd list \<Rightarrow> hwnd" where
  "msgCheckHostedTree (Wnd h ir cs hs) =
     (let n = msgCheckInvalidRegion (Wnd h ir cs hs) in if n \<noteq> 0 then n else check_hosted hs)"
| "check_hosted [] = 0"
| "check_hosted (w # ws) = (let n = msgCheckHostedTree w in if n \<noteq> 0 then n else check_hosted ws)"

definition pending_queue :: "msgqueue \<Rightarrow> bool" where
  "pending_queue q =
     (if has_flag q QS_SYNCMSG \<and> pFirstSyncMsg q \<noteq> None then True
      else if has_flag q QS_NOTIFYMSG \<and> pFirstNotifyMsg q \<noteq> [] then True
      else if has_flag q QS_POSTMSG \<and> readpos q \<noteq> writepos q then True
      else if has_flag q (QS_QUIT OR QS_PAINT) then True
      else TimerMask q \<noteq> 0)"

definition HavePendingMessageEx :: "nat \<Rightarrow> hwnd \<Rightarrow> bool \<Rightarrow> gui \<Rightarrow> bool" where
  "HavePendingMessageEx me hWnd bNoDeskTimer g =
     (case (if hWnd = 0 then thread_queue g me else GetMsgQueue g hWnd) of
        None \<Rightarrow> False
      | Some k \<Rightarrow> pending_queue (queues g k))"

definition HavePendingMessage :: "nat \<Rightarrow> hwnd \<Rightarrow> gui \<Rightarrow> bool" where
  "HavePendingMessage me hWnd g = HavePendingMessageEx me hWnd False g"

definition LOSWORD :: "dword \<Rightarrow> int" where "LOSWORD l = sint (ucast l :: 16 word)"
definition HISWORD :: "dword \<Rightarrow> int" where "HISWORD l = sint (ucast (drop_bit 16 l) :: 16 word)"

definition MAKELONG :: "int \<Rightarrow> int \<Rightarrow> dword" where
  "MAKELONG low high =
     ucast (word_of_int low :: 16 word) OR push_bit 16 (ucast (word_of_int high :: 16 word))"

definition CheckCapturedMouseMessage :: "extern \<Rightarrow> hwnd \<Rightarrow> msg \<Rightarrow> msg" where
  "CheckCapturedMouseMessage ext capture m =
     (if capture = m_hwnd m \<and> m_message m \<ge> MSG_FIRSTMOUSEMSG \<and> m_message m \<le> MSG_LASTMOUSEMSG
         \<and> m_wParam m AND KS_CAPTURED = 0
      then (let (x, y) = client_to_screen ext (m_hwnd m) (LOSWORD (m_lParam m)) (HISWORD (m_lParam m))
            in m\<lparr>m_lParam := MAKELONG x y, m_wParam := m_wParam m OR KS_CAPTURED\<rparr>)
      else m)"

definition IS_MSG_WANTED :: "int \<Rightarrow> int \<Rightarrow> int \<Rightarrow> bool" where
  "IS_MSG_WANTED iMsgFilterMin iMsgFilterMax message \<longleftrightarrow>
     (iMsgFilterMin \<le> 0 \<and> iMsgFilterMax \<le> 0)
     \<or> (iMsgFilterMin > 0 \<and> iMsgFilterMax \<ge> iMsgFilterMin
         \<and> message \<ge> iMsgFilterMin \<and> message \<le> iMsgFilterMax)"

text \<open>
  One part of the body of \<open>PeekMessageEx\<close> returns or goes on, with \<open>*pMsg\<close> and the state so
  far.  \<open>rm\<close> is \<open>uRemoveMsg == PM_REMOVE\<close>, \<open>want\<close> the filter, \<open>k\<close> the queue of the thread.
\<close>

datatype phase = Ret bool msg gui | Cont msg gui

definition peek_quit :: "nat \<Rightarrow> hwnd \<Rightarrow> bool \<Rightarrow> msg \<Rightarrow> gui \<Rightarrow> phase" where
  "peek_quit k hWnd rm m g =
     (if has_flag (queues g k) QS_QUIT then
        Ret False (m\<lparr>m_hwnd := hWnd, m_message := MSG_QUIT, m_wParam := 0, m_lParam := 0, m_pAdd := None\<rparr>)
          (if rm then
             upd_queue k (\<lambda>q. let q = q\<lparr>loop_depth := loop_depth q - 1\<rparr>
                              in if loop_depth q = 0 then clear_flag QS_QUIT q else q) g
           else g)
      else Cont m g)"

definition peek_sync :: "nat \<Rightarrow> (int \<Rightarrow> bool) \<Rightarrow> bool \<Rightarrow> msg \<Rightarrow> gui \<Rightarrow> phase" where
  "peek_sync k want rm m g =
     (if has_flag (queues g k) QS_SYNCMSG then
        (case pFirstSyncMsg (queues g k) of
           Some a \<Rightarrow>
             (let m = (s_msg (syncs g a))\<lparr>m_pAdd := Some a\<rparr> in
              if want (m_message m)
              then Ret True m (if rm then upd_queue k (\<lambda>q. q\<lparr>pFirstSyncMsg := s_next (syncs g a)\<rparr>) g else g)
              else Cont m g)
         | None \<Rightarrow> Cont m (upd_queue k (clear_flag QS_SYNCMSG) g))
      else Cont m g)"

definition peek_notify :: "nat \<Rightarrow> (int \<Rightarrow> bool) \<Rightarrow> bool \<Rightarrow> msg \<Rightarrow> gui \<Rightarrow> phase" where
  "peek_notify k want rm m g =
     (if has_flag (queues g k) QS_NOTIFYMSG then
        (case pFirstNotifyMsg (queues g k) of
           n # ns \<Rightarrow>
             (let m = n\<lparr>m_pAdd := None\<rparr> in
              if want (m_message m)
              then Ret True m (if rm then upd_queue k (\<lambda>q. q\<lparr>pFirstNotifyMsg := ns\<rparr>) g else g)
              else Cont m g)
         | [] \<Rightarrow> Cont m (upd_queue k (clear_flag QS_NOTIFYMSG) g))
      else Cont m g)"

definition peek_post :: "extern \<Rightarrow> nat \<Rightarrow> (int \<Rightarrow> bool) \<Rightarrow> bool \<Rightarrow> msg \<Rightarrow> gui \<Rightarrow> phase" where
  "peek_post ext k want rm m g =
     (let q = queues g k in
      if has_flag q QS_POSTMSG then
        (if readpos q \<noteq> writepos q then
           (let m = (qmsg q ! readpos q)\<lparr>m_pAdd := None\<rparr> in
            if want (m_message m)
            then Ret True (CheckCapturedMouseMessage ext (capture_wnd g) m)
                   (if rm then upd_queue k advance_read g else g)
            else Cont m g)
         else Cont m (upd_queue k (clear_flag QS_POSTMSG) g))
      else Cont m g)"

definition peek_paint :: "extern \<Rightarrow> nat \<Rightarrow> hwnd \<Rightarrow> (int \<Rightarrow> bool) \<Rightarrow> bool \<Rightarrow> msg \<Rightarrow> gui \<Rightarrow> phase" where
  "peek_paint ext k hWnd want rm m g =
     (if has_flag (queues g k) QS_PAINT \<and> want MSG_PAINT then
        (let m = m\<lparr>m_message := MSG_PAINT, m_wParam := 0, m_lParam := 0, m_pAdd := None\<rparr> in
         if hWnd = hwnd_desktop g
         then Ret True (m\<lparr>m_hwnd := hWnd\<rparr>) (if rm then upd_queue k (clear_flag QS_PAINT) g else g)
         else
           (let hNeedPaint = msgCheckHostedTree (pRootMainWin (queues g k)) in
            if hNeedPaint \<noteq> 0
            then Ret True (m\<lparr>m_hwnd := hNeedPaint, m_lParam := inv_rgn_addr ext hNeedPaint\<rparr>) g
            else Cont m (upd_queue k (clear_flag QS_PAINT) g)))
      else Cont m g)"

text \<open>The search for an expired timer slot; 32 rounds bring it round to the first one.\<close>

fun slot_search :: "nat \<Rightarrow> dword \<Rightarrow> nat \<Rightarrow> nat \<Rightarrow> int" where
  "slot_search 0 tmask first slot = -1"
| "slot_search (Suc n) tmask first slot =
     (if tmask AND slot_bit slot \<noteq> 0 then int slot
      else let slot = (slot + 1) mod DEF_NR_TIMERS
           in if slot = first then -1 else slot_search n tmask first slot)"

definition peek_timer :: "extern \<Rightarrow> nat \<Rightarrow> hwnd \<Rightarrow> (int \<Rightarrow> bool) \<Rightarrow> bool \<Rightarrow> msg \<Rightarrow> gui \<Rightarrow> phase" where
  "peek_timer ext k hWnd want rm m g =
     (if TimerMask (queues g k) \<noteq> 0 \<and> want MSG_TIMER then
        if hWnd = hwnd_desktop g then
          Ret True (m\<lparr>m_hwnd := hWnd, m_message := MSG_TIMER, m_wParam := 0, m_lParam := 0, m_pAdd := None\<rparr>)
            (if rm then upd_queue k (\<lambda>q. q\<lparr>TimerMask := 0\<rparr>) g else g)
        else
          (let q = queues g k;
               slot = slot_search DEF_NR_TIMERS (TimerMask q) (FirstTimerSlot q) (FirstTimerSlot q);
               g = upd_queue k (\<lambda>q. q\<lparr>FirstTimerSlot := (FirstTimerSlot q + 1) mod DEF_NR_TIMERS\<rparr>) g
           in case mg_get_timer g slot of
                None \<Rightarrow> Cont m g
              | Some timer \<Rightarrow>
                  (let tick_count = t_tick_count timer;
                       timer = timer\<lparr>t_tick_count := 0\<rparr>;
                       g = RemoveMsgQueueTimerFlag k (nat slot) (set_timer (nat slot) (Some timer) g)
                   in case t_proc timer of
                        Some p \<Rightarrow>
                          (let (r, g) = timer_proc ext p (t_hWnd timer) (t_id timer) tick_count g
                           in Cont m (if \<not> r then mg_remove_timer (Some timer) slot g else g))
                      | None \<Rightarrow>
                          Ret True (m\<lparr>m_message := MSG_TIMER, m_hwnd := t_hWnd timer,
                                      m_wParam := word_of_int (t_id timer), m_lParam := tick_count,
                                      m_pAdd := None\<rparr>) g))
      else Cont m g)"

fun andthen :: "phase \<Rightarrow> (msg \<Rightarrow> gui \<Rightarrow> phase) \<Rightarrow> phase" where
  "andthen (Ret r m g) f = Ret r m g"
| "andthen (Cont m g) f = f m g"

definition peek_pass ::
  "extern \<Rightarrow> nat \<Rightarrow> hwnd \<Rightarrow> (int \<Rightarrow> bool) \<Rightarrow> bool \<Rightarrow> msg \<Rightarrow> gui \<Rightarrow> phase" where
  "peek_pass ext k hWnd want rm m g =
     andthen (peek_quit k hWnd rm m g) (\<lambda>m g.
     andthen (peek_sync k want rm m g) (\<lambda>m g.
     andthen (peek_notify k want rm m g) (\<lambda>m g.
     andthen (peek_post ext k want rm m g) (\<lambda>m g.
     andthen (peek_paint ext k hWnd want rm m g) (\<lambda>m g.
     peek_timer ext k hWnd want rm m g)))))"

partial_function (option) peek_loop ::
  "extern \<Rightarrow> nat \<Rightarrow> hwnd \<Rightarrow> (int \<Rightarrow> bool) \<Rightarrow> bool \<Rightarrow> bool \<Rightarrow> acts \<Rightarrow> msg \<Rightarrow> gui \<Rightarrow> (bool \<times> msg \<times> gui) option"
  where
  "peek_loop ext k hWnd want bWait rm acts m g =
     (case peek_pass ext k hWnd want rm m g of
        Ret r m g \<Rightarrow> Some (r, m, g)
      | Cont m g \<Rightarrow>
          if bWait then
            (case sem_wait (SemWait k) acts g of
               None \<Rightarrow> None
             | Some (acts, g) \<Rightarrow> peek_loop ext k hWnd want bWait rm acts m g)
          else Some (False, m, g))"

definition PeekMessageEx ::
  "extern \<Rightarrow> nat \<Rightarrow> hwnd \<Rightarrow> int \<Rightarrow> int \<Rightarrow> bool \<Rightarrow> bool \<Rightarrow> acts \<Rightarrow> msg \<Rightarrow> gui \<Rightarrow> (bool \<times> msg \<times> gui) option" where
  "PeekMessageEx ext me hWnd iMsgFilterMin iMsgFilterMax bWait rm acts pMsg g =
     (if hWnd \<noteq> hwnd_desktop g \<and> \<not> MG_IS_MAIN_WINDOW g hWnd then Some (False, pMsg, g)
      else case thread_queue g me of
        None \<Rightarrow> Some (False, pMsg, g)
      | Some k \<Rightarrow>
          peek_loop ext k hWnd (IS_MSG_WANTED iMsgFilterMin iMsgFilterMax) bWait rm acts zero_msg g)"

definition GetMessage :: "extern \<Rightarrow> nat \<Rightarrow> hwnd \<Rightarrow> acts \<Rightarrow> msg \<Rightarrow> gui \<Rightarrow> (bool \<times> msg \<times> gui) option" where
  "GetMessage ext me hWnd acts pMsg g = PeekMessageEx ext me hWnd 0 0 True True acts pMsg g"

definition PeekMessage ::
  "extern \<Rightarrow> nat \<Rightarrow> hwnd \<Rightarrow> int \<Rightarrow> int \<Rightarrow> bool \<Rightarrow> msg \<Rightarrow> gui \<Rightarrow> (bool \<times> msg \<times> gui) option" where
  "PeekMessage ext me hWnd iMsgFilterMin iMsgFilterMax rm pMsg g =
     PeekMessageEx ext me hWnd iMsgFilterMin iMsgFilterMax False rm [] pMsg g"

definition wait_ready :: "msgqueue \<Rightarrow> bool" where
  "wait_ready q \<longleftrightarrow>
     has_flag q QS_QUIT
     \<or> (has_flag q QS_SYNCMSG \<and> pFirstSyncMsg q \<noteq> None)
     \<or> (has_flag q QS_NOTIFYMSG \<and> pFirstNotifyMsg q \<noteq> [])
     \<or> (has_flag q QS_POSTMSG \<and> readpos q \<noteq> writepos q)
     \<or> has_flag q QS_PAINT
     \<or> TimerMask q \<noteq> 0"

partial_function (option) wait_loop :: "nat \<Rightarrow> acts \<Rightarrow> gui \<Rightarrow> (bool \<times> gui) option" where
  "wait_loop k acts g =
     (if wait_ready (queues g k) then Some (True, g)
      else case sem_wait (SemWait k) acts g of
        None \<Rightarrow> None
      | Some (acts, g) \<Rightarrow> wait_loop k acts g)"

definition WaitMessage :: "hwnd \<Rightarrow> acts \<Rightarrow> gui \<Rightarrow> (bool \<times> gui) option" where
  "WaitMessage hWnd acts g =
     (case GetMsgQueue g hWnd of None \<Rightarrow> Some (False, g) | Some k \<Rightarrow> wait_loop k acts g)"

definition PeekPostMessage ::
  "hwnd \<Rightarrow> int \<Rightarrow> int \<Rightarrow> bool \<Rightarrow> msg \<Rightarrow> gui \<Rightarrow> bool \<times> msg \<times> gui" where
  "PeekPostMessage hWnd iMsgFilterMin iMsgFilterMax rm pMsg g =
     (case GetMsgQueue g hWnd of
        None \<Rightarrow> (False, pMsg, g)
      | Some k \<Rightarrow>
          (let q = queues g k in
           if has_flag q QS_POSTMSG \<and> readpos q \<noteq> writepos q then
             (let p = qmsg q ! readpos q in
              if (iMsgFilterMin = 0 \<and> iMsgFilterMax = 0)
                 \<or> (m_message p \<le> iMsgFilterMax \<and> m_message p \<ge> iMsgFilterMin)
              then (True, p\<lparr>m_pAdd := None\<rparr>, if rm then upd_queue k advance_read g else g)
              else (False, zero_msg, g))
           else (False, zero_msg, g)))"

end
