(* ===== verification/Accel.thy ===== *)
theory Accel
  imports BlockHeap Message Keys
begin

section \<open>Accelerators (src/gui/accelkey.c)\<close>

text \<open>
  A table of accelerators belongs to a window and turns a pressed key into a command.  Tables and items are blocks of
  two \<open>BLOCKHEAP\<close>s; an item is its block with its contents, a table the list of its items from \<open>head\<close>.  A handle is the
  block of a table, \<open>None\<close> is NULL.  \<open>key\<close> is kept at its 32 bits.  The parameters \<open>e\<close> say what \<open>calloc\<close> returns for each
  allocation.  What a released block still holds is kept, as the code does not clear it.  \<open>LoadAccelerators\<close> returns 0 always.
\<close>

unbundle bit_operations_syntax

abbreviation (input) MSG_KEYDOWN :: int where "MSG_KEYDOWN \<equiv> 0x10"
abbreviation (input) MSG_CHAR :: int where "MSG_CHAR \<equiv> 0x11"
abbreviation (input) MSG_SYSKEYDOWN :: int where "MSG_SYSKEYDOWN \<equiv> 0x13"
abbreviation (input) MSG_SYSCHAR :: int where "MSG_SYSCHAR \<equiv> 0x14"
abbreviation (input) MSG_COMMAND :: int where "MSG_COMMAND \<equiv> 0x120"
abbreviation (input) MSG_SYSCOMMAND :: int where "MSG_SYSCOMMAND \<equiv> 0x121"
abbreviation (input) ERR_INVALID_HANDLE :: int where "ERR_INVALID_HANDLE \<equiv> -3"
abbreviation (input) ERR_RES_ALLOCATION :: int where "ERR_RES_ALLOCATION \<equiv> -7"
abbreviation (input) ERR_ALREADY_EXIST :: int where "ERR_ALREADY_EXIST \<equiv> -12"
abbreviation (input) ERR_NO_MATCH :: int where "ERR_NO_MATCH \<equiv> -13"
abbreviation (input) ERR_BAD_OWNER :: int where "ERR_BAD_OWNER \<equiv> -14"
abbreviation (input) TYPE_HACCEL :: int where "TYPE_HACCEL \<equiv> 0x03"

record accelitem =
  ai_key :: dword
  ai_keymask :: dword
  ai_wParam :: dword
  ai_lParam :: dword

record acceltable =
  ac_category :: int
  ac_hwnd :: hwnd
  ac_head :: "(block \<times> accelitem) list"

record accels =
  ACHeap :: blockheap
  AIHeap :: blockheap
  actab :: "block \<Rightarrow> acceltable"

definition upd_tab :: "block \<Rightarrow> (acceltable \<Rightarrow> acceltable) \<Rightarrow> accels \<Rightarrow> accels" where
  "upd_tab t f s = s\<lparr>actab := (actab s)(t := f (actab s t))\<rparr>"

definition InitAccel :: "(block \<Rightarrow> acceltable) \<Rightarrow> accels" where
  "InitAccel garbage = \<lparr>ACHeap = InitBlockDataHeap 12 64, AIHeap = InitBlockDataHeap 20 512, actab = garbage\<rparr>"

definition TerminateAccel :: "accels \<Rightarrow> accels" where
  "TerminateAccel s = s\<lparr>ACHeap := DestroyBlockDataHeap (ACHeap s), AIHeap := DestroyBlockDataHeap (AIHeap s)\<rparr>"

definition CreateAcceleratorTable :: "calloc_env \<Rightarrow> hwnd \<Rightarrow> accels \<Rightarrow> block option \<times> accels" where
  "CreateAcceleratorTable e hWnd s =
     (case BlockDataAlloc e (ACHeap s) of
        None \<Rightarrow> (None, s)
      | Some (pac, h) \<Rightarrow>
          (Some pac, upd_tab pac (\<lambda>t. t\<lparr>ac_category := TYPE_HACCEL, ac_hwnd := hWnd, ac_head := []\<rparr>) (s\<lparr>ACHeap := h\<rparr>)))"

definition IsAccel :: "accels \<Rightarrow> block \<Rightarrow> bool" where
  "IsAccel s hac \<longleftrightarrow> ac_category (actab s hac) = TYPE_HACCEL"

definition FreeAccelItem :: "block \<Rightarrow> accels \<Rightarrow> accels" where
  "FreeAccelItem pai s = s\<lparr>AIHeap := BlockDataFree pai (AIHeap s)\<rparr>"

definition DestroyAcceleratorTable :: "block \<Rightarrow> accels \<Rightarrow> int \<times> accels" where
  "DestroyAcceleratorTable hacc s =
     (if ac_category (actab s hacc) \<noteq> TYPE_HACCEL then (ERR_INVALID_HANDLE, s)
      else let s = fold (\<lambda>(pai, _). FreeAccelItem pai) (ac_head (actab s hacc)) s
           in (0, s\<lparr>ACHeap := BlockDataFree hacc (ACHeap s)\<rparr>))"

text \<open>One group of modifiers: both keys in the mask mean either of them, else the bits must be the same.\<close>

definition group_match :: "dword \<Rightarrow> dword \<Rightarrow> dword \<Rightarrow> dword \<Rightarrow> dword \<Rightarrow> bool" where
  "group_match both left right mask1 mask2 =
     (if mask1 AND both = both then mask2 AND left \<noteq> 0 \<or> mask2 AND right \<noteq> 0
      else mask1 AND both = mask2 AND both)"

definition does_mask_match :: "dword \<Rightarrow> dword \<Rightarrow> bool" where
  "does_mask_match mask1 mask2 \<longleftrightarrow>
     group_match KS_CTRL KS_LEFTCTRL KS_RIGHTCTRL mask1 mask2
     \<and> group_match KS_ALT KS_LEFTALT KS_RIGHTALT mask1 mask2
     \<and> group_match KS_SHIFT KS_LEFTSHIFT KS_RIGHTSHIFT mask1 mask2"

text \<open>The link that leads to the matching item is given as the item's position.\<close>

fun find_item :: "(block \<times> accelitem) list \<Rightarrow> dword \<Rightarrow> dword \<Rightarrow> nat option" where
  "find_item [] key keymask = None"
| "find_item ((_, ai) # ais) key keymask =
     (if ai_key ai = key \<and> does_mask_match (ai_keymask ai) keymask then Some 0
      else map_option Suc (find_item ais key keymask))"

definition accFindMatchAccelKeys :: "accels \<Rightarrow> block \<Rightarrow> dword \<Rightarrow> dword \<Rightarrow> nat option" where
  "accFindMatchAccelKeys s hacc key keymask = find_item (ac_head (actab s hacc)) key keymask"

definition AddAccelerators ::
  "calloc_env \<Rightarrow> block \<Rightarrow> dword \<Rightarrow> dword \<Rightarrow> dword \<Rightarrow> dword \<Rightarrow> accels \<Rightarrow> int \<times> accels" where
  "AddAccelerators e hacc key keymask wParam lParam s =
     (if ac_category (actab s hacc) \<noteq> TYPE_HACCEL then (ERR_INVALID_HANDLE, s)
      else if accFindMatchAccelKeys s hacc key keymask \<noteq> None then (ERR_ALREADY_EXIST, s)
      else case BlockDataAlloc e (AIHeap s) of
             None \<Rightarrow> (ERR_RES_ALLOCATION, s)
           | Some (pnewai, h) \<Rightarrow>
               (0, upd_tab hacc (\<lambda>t. t\<lparr>ac_head :=
                     (pnewai, \<lparr>ai_key = key, ai_keymask = keymask, ai_wParam = wParam, ai_lParam = lParam\<rparr>) # ac_head t\<rparr>)
                   (s\<lparr>AIHeap := h\<rparr>)))"

definition DeleteAccelerators :: "block \<Rightarrow> dword \<Rightarrow> dword \<Rightarrow> accels \<Rightarrow> int \<times> accels" where
  "DeleteAccelerators hacc key keymask s =
     (if ac_category (actab s hacc) \<noteq> TYPE_HACCEL then (ERR_INVALID_HANDLE, s)
      else case accFindMatchAccelKeys s hacc key keymask of
             None \<Rightarrow> (ERR_NO_MATCH, s)
           | Some i \<Rightarrow>
               (0, upd_tab hacc (\<lambda>t. t\<lparr>ac_head := take i (ac_head t) @ drop (Suc i) (ac_head t)\<rparr>)
                   (FreeAccelItem (fst (ac_head (actab s hacc) ! i)) s)))"

fun copy_items :: "(nat \<Rightarrow> calloc_env) \<Rightarrow> block \<Rightarrow> (block \<times> accelitem) list \<Rightarrow> accels \<Rightarrow> block option \<times> accels" where
  "copy_items e hac [] s = (Some hac, s)"
| "copy_items e hac ((_, ai) # ais) s =
     (let (err, s) = AddAccelerators (e 0) hac (ai_key ai) (ai_keymask ai) (ai_wParam ai) (ai_lParam ai) s
      in if err \<noteq> 0 then (None, snd (DestroyAcceleratorTable hac s))
         else copy_items (\<lambda>n. e (Suc n)) hac ais s)"

definition CopyAcceleratorTable :: "(nat \<Rightarrow> calloc_env) \<Rightarrow> block \<Rightarrow> accels \<Rightarrow> block option \<times> accels" where
  "CopyAcceleratorTable e hacc s =
     (case CreateAcceleratorTable (e 0) (ac_hwnd (actab s hacc)) s of
        (None, s) \<Rightarrow> (None, s)
      | (Some hac, s) \<Rightarrow> copy_items (\<lambda>n. e (Suc n)) hac (ac_head (actab s hacc)) s)"

definition TranslateAccelerator :: "nat \<Rightarrow> block \<Rightarrow> msg \<Rightarrow> accels \<Rightarrow> gui \<Rightarrow> int \<times> gui" where
  "TranslateAccelerator me hAccel pMsg s g =
     (if ac_hwnd (actab s hAccel) \<noteq> m_hwnd pMsg then (ERR_BAD_OWNER, g)
      else if m_message pMsg \<notin> {MSG_KEYDOWN, MSG_SYSKEYDOWN, MSG_CHAR, MSG_SYSCHAR} then (ERR_NO_MATCH, g)
      else let key = (if m_message pMsg \<in> {MSG_KEYDOWN, MSG_SYSKEYDOWN} then m_wParam pMsg OR 256
                      else m_wParam pMsg AND 255)
           in case accFindMatchAccelKeys s hAccel key (m_lParam pMsg) of
                None \<Rightarrow> (ERR_NO_MATCH, g)
              | Some i \<Rightarrow>
                  let ai = snd (ac_head (actab s hAccel) ! i);
                      cmd = (if m_message pMsg \<in> {MSG_SYSKEYDOWN, MSG_SYSCHAR} then MSG_SYSCOMMAND else MSG_COMMAND)
                  in SendNotifyMessage me (m_hwnd pMsg) cmd (ai_wParam ai) (ai_lParam ai) g)"

end
