(* ===== verification/Accel_Props.thy ===== *)
theory Accel_Props
  imports Accel "HOL-Library.Disjoint_Sets"
begin

section \<open>Accelerators: properties\<close>

text \<open>
  Which key presses a mask stands for, the invariant of the tables and their two heaps over any sequence of
  operations, and what adding, deleting, copying and translating do to the commands of a table.
\<close>

subsection \<open>Masks\<close>

lemma group_match_refl: "both = l OR r \<Longrightarrow> both \<noteq> 0 \<Longrightarrow> group_match both l r m m"
  unfolding group_match_def by (metis bit.conj_disj_distrib or.left_neutral)

lemma match_refl: "does_mask_match m m"
  unfolding does_mask_match_def by (intro conjI group_match_refl) (simp_all add: ks_defs)

abbreviation matches :: "accelitem \<Rightarrow> dword \<Rightarrow> dword \<Rightarrow> bool" where
  "matches ai key keymask \<equiv> ai_key ai = key \<and> does_mask_match (ai_keymask ai) keymask"

lemma find_item_SomeD:
  "find_item ais key m = Some i \<Longrightarrow> i < length ais \<and> matches (snd (ais ! i)) key m \<and> (\<forall>j < i. \<not> matches (snd (ais ! j)) key m)"
proof (induction ais arbitrary: i)
  case (Cons a ais)
  then show ?case by (cases a; cases i) (auto simp: less_Suc_eq_0_disj split: if_splits)
qed simp

lemma find_item_None: "find_item ais key m = None \<longleftrightarrow> (\<forall>(_, ai) \<in> set ais. \<not> matches ai key m)"
  by (induction ais) (auto split: if_splits)

text \<open>The command that a pressed key stands for in a table.\<close>

definition command :: "accels \<Rightarrow> block \<Rightarrow> dword \<Rightarrow> dword \<Rightarrow> (dword \<times> dword) option" where
  "command s t key m = map_option (\<lambda>(_, ai). (ai_wParam ai, ai_lParam ai)) (find (\<lambda>(_, ai). matches ai key m) (ac_head (actab s t)))"

lemma find_item_find:
  "find (\<lambda>(_, ai). matches ai key m) ais = map_option (\<lambda>i. ais ! i) (find_item ais key m)"
proof (induction ais)
  case (Cons a ais)
  then show ?case by (cases a) (simp add: option.map_comp comp_def)
qed simp

subsection \<open>The invariant\<close>

abbreviation tables :: "accels \<Rightarrow> block set" where "tables s \<equiv> blocks_used (ACHeap s)"

definition items :: "accels \<Rightarrow> block \<Rightarrow> block set" where
  "items s t = fst ` set (ac_head (actab s t))"

text \<open>An item is not hidden by one that was in the table when it was added; the newer one comes first.\<close>

definition added_in_turn :: "(block \<times> accelitem) list \<Rightarrow> bool" where
  "added_in_turn = sorted_wrt (\<lambda>(_, new) (_, old). \<not> matches old (ai_key new) (ai_keymask new))"

definition tab_ok :: "acceltable \<Rightarrow> bool" where
  "tab_ok t \<longleftrightarrow> ac_category t = TYPE_HACCEL \<and> distinct (map fst (ac_head t)) \<and> added_in_turn (ac_head t)"

definition acc_ok :: "accels \<Rightarrow> bool" where
  "acc_ok s \<longleftrightarrow> bh_inv (ACHeap s) \<and> bh_inv (AIHeap s) \<and> (\<forall>t \<in> tables s. tab_ok (actab s t))
     \<and> blocks_used (AIHeap s) = (\<Union>t \<in> tables s. items s t)
     \<and> (\<forall>t \<in> tables s. \<forall>u \<in> tables s. \<forall>p. p \<in> items s t \<longrightarrow> p \<in> items s u \<longrightarrow> t = u)"

lemma upd_tab_simps [simp]:
  "ACHeap (upd_tab t f s) = ACHeap s" "AIHeap (upd_tab t f s) = AIHeap s"
  "actab (upd_tab t f s) u = (if u = t then f (actab s t) else actab s u)"
  by (simp_all add: upd_tab_def)

lemma items_upd_tab: "items (upd_tab t f s) u = (if u = t then fst ` set (ac_head (f (actab s t))) else items s u)"
  by (simp add: items_def)

lemma items_heap [simp]: "items (s\<lparr>ACHeap := h\<rparr>) u = items s u" "items (s\<lparr>AIHeap := h\<rparr>) u = items s u"
  by (simp_all add: items_def)

lemma Create_ok:
  assumes "acc_ok s" "calloc_fresh e (ACHeap s)" "CreateAcceleratorTable e w s = (Some t, s')"
  shows "acc_ok s' \<and> t \<notin> tables s \<and> tables s' = insert t (tables s) \<and> ac_head (actab s' t) = []
    \<and> AIHeap s' = AIHeap s \<and> (\<forall>u. u \<noteq> t \<longrightarrow> actab s' u = actab s u)"
proof -
  obtain h where h: "BlockDataAlloc e (ACHeap s) = Some (t, h)"
    and s': "s' = upd_tab t (\<lambda>t. t\<lparr>ac_category := TYPE_HACCEL, ac_hwnd := w, ac_head := []\<rparr>) (s\<lparr>ACHeap := h\<rparr>)"
    using assms(3) by (auto simp: CreateAcceleratorTable_def split: option.splits)
  have inv: "bh_inv (ACHeap s)" using assms(1) by (simp add: acc_ok_def)
  note new = blockheap.alloc_fresh [OF inv assms(2) h] blockheap.alloc_used [OF inv assms(2) h] blockheap.alloc_inv [OF inv assms(2) h]
  have "tab_ok (actab s' u)" if "u \<in> tables s'" for u
    using that assms(1) new by (auto simp: acc_ok_def s' tab_ok_def added_in_turn_def)
  moreover have "items s' u = (if u = t then {} else items s u)" for u by (simp add: s' items_upd_tab)
  ultimately show ?thesis using assms(1) new by (auto simp: acc_ok_def s')
qed

lemma Create_None: "CreateAcceleratorTable e w s = (None, s') \<Longrightarrow> s' = s"
  by (auto simp: CreateAcceleratorTable_def split: option.splits)

lemma Add_ok:
  assumes "acc_ok s" "t \<in> tables s" "calloc_fresh e (AIHeap s)" "AddAccelerators e t key m wp lp s = (0, s')"
  shows "acc_ok s' \<and> tables s' = tables s \<and> (\<forall>u. u \<noteq> t \<longrightarrow> actab s' u = actab s u)
    \<and> find_item (ac_head (actab s t)) key m = None
    \<and> (\<exists>p. ac_head (actab s' t) = (p, \<lparr>ai_key = key, ai_keymask = m, ai_wParam = wp, ai_lParam = lp\<rparr>) # ac_head (actab s t))"
proof -
  let ?ai = "\<lparr>ai_key = key, ai_keymask = m, ai_wParam = wp, ai_lParam = lp\<rparr>"
  have tab: "tab_ok (actab s t)" and inv: "bh_inv (AIHeap s)" using assms(1,2) by (auto simp: acc_ok_def)
  obtain p h where h: "BlockDataAlloc e (AIHeap s) = Some (p, h)" and f: "find_item (ac_head (actab s t)) key m = None"
    and s': "s' = upd_tab t (\<lambda>t. t\<lparr>ac_head := (p, ?ai) # ac_head t\<rparr>) (s\<lparr>AIHeap := h\<rparr>)"
    using assms(4) tab by (auto simp: AddAccelerators_def accFindMatchAccelKeys_def tab_ok_def split: if_splits option.splits)
  note new = blockheap.alloc_fresh [OF inv assms(3) h] blockheap.alloc_used [OF inv assms(3) h] blockheap.alloc_inv [OF inv assms(3) h]
  have it: "items s' u = (if u = t then insert p (items s t) else items s u)" for u
    by (auto simp: s' items_upd_tab items_def)
  have np: "p \<notin> items s u" if "u \<in> tables s" for u using new(1) that assms(1) by (auto simp: acc_ok_def)
  have "tab_ok (actab s' t)"
    using tab f np [OF assms(2)] by (auto simp: s' tab_ok_def added_in_turn_def find_item_None items_def)
  then have "acc_ok s'"
    using assms(1,2) new np unfolding acc_ok_def it by (simp add: s') (auto split: if_splits)
  then show ?thesis using f by (simp add: s')
qed

lemma Add_error: "AddAccelerators e t key m wp lp s = (err, s') \<Longrightarrow> err \<noteq> 0 \<Longrightarrow> s' = s"
  by (auto simp: AddAccelerators_def split: if_splits option.splits)

text \<open>Releasing some items of a table, which keeps the others.\<close>

lemma Free_items:
  assumes "bh_inv (AIHeap s)" "distinct (map fst ais)" "fst ` set ais \<subseteq> blocks_used (AIHeap s)"
  shows "bh_inv (AIHeap (fold (\<lambda>(p, _). FreeAccelItem p) ais s))
    \<and> blocks_used (AIHeap (fold (\<lambda>(p, _). FreeAccelItem p) ais s)) = blocks_used (AIHeap s) - fst ` set ais
    \<and> ACHeap (fold (\<lambda>(p, _). FreeAccelItem p) ais s) = ACHeap s \<and> actab (fold (\<lambda>(p, _). FreeAccelItem p) ais s) = actab s"
  using assms
proof (induction ais arbitrary: s)
  case (Cons a ais)
  obtain p ai where a: "a = (p, ai)" by fastforce
  let ?s = "FreeAccelItem p s"
  have p: "p \<in> blocks_used (AIHeap s)" using Cons.prems(3) a by simp
  have "bh_inv (AIHeap ?s)" "blocks_used (AIHeap ?s) = blocks_used (AIHeap s) - {p}" "ACHeap ?s = ACHeap s" "actab ?s = actab s"
    using blockheap.release_inv [OF Cons.prems(1) p] blockheap.release_used [OF Cons.prems(1) p] by (simp_all add: FreeAccelItem_def)
  then show ?case using Cons.IH [of ?s] Cons.prems a by auto
qed simp

lemma Destroy_ok:
  assumes "acc_ok s" "t \<in> tables s"
  shows "\<exists>s'. DestroyAcceleratorTable t s = (0, s') \<and> acc_ok s' \<and> tables s' = tables s - {t}
    \<and> actab s' = actab s \<and> blocks_used (AIHeap s') = blocks_used (AIHeap s) - items s t"
proof -
  let ?f = "fold (\<lambda>(p, _). FreeAccelItem p) (ac_head (actab s t)) s"
  have tab: "tab_ok (actab s t)" "bh_inv (AIHeap s)" "bh_inv (ACHeap s)" "items s t \<subseteq> blocks_used (AIHeap s)"
    using assms by (auto simp: acc_ok_def)
  then have f: "bh_inv (AIHeap ?f)" "blocks_used (AIHeap ?f) = blocks_used (AIHeap s) - items s t"
    "ACHeap ?f = ACHeap s" "actab ?f = actab s"
    using Free_items [of s "ac_head (actab s t)"] by (simp_all add: tab_ok_def items_def)
  define s' where "s' = ?f\<lparr>ACHeap := BlockDataFree t (ACHeap ?f)\<rparr>"
  have "DestroyAcceleratorTable t s = (0, s')"
    using tab(1) by (simp add: DestroyAcceleratorTable_def tab_ok_def s'_def Let_def)
  moreover have "tables s' = tables s - {t}" "bh_inv (ACHeap s')" "actab s' = actab s" "AIHeap s' = AIHeap ?f"
    using blockheap.release_used [OF tab(3) assms(2)] blockheap.release_inv [OF tab(3) assms(2)] f by (simp_all add: s'_def)
  moreover from this have "items s' = items s" by (simp add: items_def fun_eq_iff)
  moreover from calculation have "acc_ok s'" using assms f unfolding acc_ok_def by (simp; blast)
  ultimately show ?thesis using f by auto
qed

lemma set_remove_nth_subset: "set (take i xs @ drop (Suc i) xs) \<subseteq> set xs"
  using set_take_subset [of i xs] set_drop_subset [of "Suc i" xs] by auto

lemma sorted_wrt_remove_nth: "sorted_wrt P xs \<Longrightarrow> sorted_wrt P (take i xs @ drop (Suc i) xs)"
proof (cases "i < length xs")
  case True
  assume "sorted_wrt P xs"
  then have "sorted_wrt P (take i xs @ xs ! i # drop (Suc i) xs)" using id_take_nth_drop [OF True] by simp
  then show ?thesis by (simp add: sorted_wrt_append)
qed simp

lemma Delete_ok:
  assumes "acc_ok s" "t \<in> tables s" "DeleteAccelerators t key m s = (0, s')"
  shows "acc_ok s' \<and> tables s' = tables s \<and> (\<forall>u. u \<noteq> t \<longrightarrow> actab s' u = actab s u)
    \<and> (\<exists>i. find_item (ac_head (actab s t)) key m = Some i
      \<and> ac_head (actab s' t) = take i (ac_head (actab s t)) @ drop (Suc i) (ac_head (actab s t)))"
proof -
  let ?l = "ac_head (actab s t)"
  have tab: "tab_ok (actab s t)" "bh_inv (AIHeap s)" using assms(1,2) by (auto simp: acc_ok_def)
  obtain i where i: "find_item ?l key m = Some i"
    and s': "s' = upd_tab t (\<lambda>t. t\<lparr>ac_head := take i (ac_head t) @ drop (Suc i) (ac_head t)\<rparr>) (FreeAccelItem (fst (?l ! i)) s)"
    using assms(3) tab by (auto simp: DeleteAccelerators_def accFindMatchAccelKeys_def tab_ok_def split: if_splits option.splits)
  have len: "i < length ?l" using find_item_SomeD [OF i] by simp
  let ?p = "fst (?l ! i)" and ?r = "take i ?l @ drop (Suc i) ?l"
  have p: "?p \<in> items s t" using len by (auto simp: items_def)
  then have u: "?p \<in> blocks_used (AIHeap s)" using assms(1,2) by (auto simp: acc_ok_def)
  note rel = blockheap.release_used [OF tab(2) u] blockheap.release_inv [OF tab(2) u]
  have d: "distinct (map fst ?l)" using tab by (simp add: tab_ok_def)
  have r: "fst ` set ?r = items s t - {?p}" "distinct (map fst ?r)"
    using set_remove_nth [OF d, of i] len by (simp_all add: items_def take_map drop_map image_Un)
  have it: "items s' v = (if v = t then items s t - {?p} else items s v)" for v
    using r(1) by (simp add: s' items_upd_tab FreeAccelItem_def)
  have np: "?p \<notin> items s v" if "v \<in> tables s" "v \<noteq> t" for v using p that assms(1,2) by (auto simp: acc_ok_def)
  have h: "ac_head (actab s' t) = ?r" "ACHeap s' = ACHeap s" "blocks_used (AIHeap s') = blocks_used (AIHeap s) - {?p}"
    "bh_inv (AIHeap s')" "\<forall>v. v \<noteq> t \<longrightarrow> actab s' v = actab s v"
    using rel by (auto simp: s' FreeAccelItem_def)
  have "tab_ok (actab s' t)"
    using tab(1) r(2) sorted_wrt_remove_nth [of _ ?l i] by (simp add: s' FreeAccelItem_def tab_ok_def added_in_turn_def)
  then have "\<forall>v \<in> tables s. tab_ok (actab s' v)" using assms(1) h(5) by (metis acc_ok_def)
  then have "acc_ok s'"
    using assms(1,2) h(2-4) np unfolding acc_ok_def it by (simp; blast)
  then show ?thesis using h i by auto
qed

subsection \<open>Copies\<close>

text \<open>The \<open>n\<close>-th allocation: every address is fresh.\<close>

definition fresh_addresses :: "(nat \<Rightarrow> calloc_env) \<Rightarrow> accels \<Rightarrow> bool" where
  "fresh_addresses e s \<longleftrightarrow> (\<forall>n a. snd (e n) = Some a \<longrightarrow> a \<notin> bh_special (ACHeap s) \<union> bh_special (AIHeap s) \<and> (\<forall>k < n. snd (e k) \<noteq> Some a))"

lemma alloc_special: "BlockDataAlloc e h = Some (b, h') \<Longrightarrow> bh_special h' \<subseteq> bh_special h \<union> set_option (snd e)"
  by (cases e) (auto elim!: alloc_cases simp: bh_table_keeps)

lemma fresh_addresses_next:
  assumes "fresh_addresses e s" "bh_special (ACHeap s') \<subseteq> bh_special (ACHeap s) \<union> set_option (snd (e 0))"
    and "bh_special (AIHeap s') \<subseteq> bh_special (AIHeap s) \<union> set_option (snd (e 0))"
  shows "fresh_addresses (\<lambda>n. e (Suc n)) s'"
  unfolding fresh_addresses_def
proof (intro allI impI)
  fix n a
  assume a: "snd (e (Suc n)) = Some a"
  then have "a \<notin> bh_special (ACHeap s) \<union> bh_special (AIHeap s)" "\<forall>k < Suc n. snd (e k) \<noteq> Some a"
    using assms(1) unfolding fresh_addresses_def by blast+
  moreover from this have "a \<notin> set_option (snd (e 0))" by auto
  ultimately show "a \<notin> bh_special (ACHeap s') \<union> bh_special (AIHeap s') \<and> (\<forall>k < n. snd (e (Suc k)) \<noteq> Some a)"
    using assms(2,3) by auto
qed

lemma fresh_calloc: "fresh_addresses e s \<Longrightarrow> calloc_fresh (e 0) (ACHeap s) \<and> calloc_fresh (e 0) (AIHeap s)"
  by (auto simp: fresh_addresses_def calloc_fresh_def)

lemma Add_special:
  "AddAccelerators e t key m wp lp s = (0, s') \<Longrightarrow>
    ACHeap s' = ACHeap s \<and> bh_special (AIHeap s') \<subseteq> bh_special (AIHeap s) \<union> set_option (snd e)"
  by (auto simp: AddAccelerators_def dest!: alloc_special split: if_splits option.splits)

lemma copy_items_ok:
  assumes "acc_ok s" "hac \<in> tables s" "fresh_addresses e s" "copy_items e hac ais s = (r, s')"
  shows "acc_ok s' \<and> (\<forall>u. u \<noteq> hac \<longrightarrow> actab s' u = actab s u)
    \<and> (case r of None \<Rightarrow> tables s' = tables s - {hac}
        | Some t \<Rightarrow> t = hac \<and> tables s' = tables s
            \<and> map snd (ac_head (actab s' hac)) = rev (map snd ais) @ map snd (ac_head (actab s hac)))"
  using assms
proof (induction ais arbitrary: e s)
  case (Cons a ais)
  obtain p ai where a: "a = (p, ai)" by fastforce
  obtain err s1 where add: "AddAccelerators (e 0) hac (ai_key ai) (ai_keymask ai) (ai_wParam ai) (ai_lParam ai) s = (err, s1)" by fastforce
  show ?case
  proof (cases "err = 0")
    case True
    have ok: "acc_ok s1" "tables s1 = tables s" "\<forall>u. u \<noteq> hac \<longrightarrow> actab s1 u = actab s u"
      "map snd (ac_head (actab s1 hac)) = ai # map snd (ac_head (actab s hac))"
      using Add_ok [OF Cons.prems(1,2) _ add [unfolded True]] fresh_calloc [OF Cons.prems(3)] by auto
    have "fresh_addresses (\<lambda>n. e (Suc n)) s1"
      by (rule fresh_addresses_next [OF Cons.prems(3)]) (use Add_special [OF add [unfolded True]] in auto)
    moreover have "copy_items (\<lambda>n. e (Suc n)) hac ais s1 = (r, s')"
      using Cons.prems(4) add True by (simp add: a)
    ultimately show ?thesis
      using Cons.IH [of s1 "\<lambda>n. e (Suc n)"] ok Cons.prems(2) by (auto simp: a split: option.splits)
  next
    case False
    then have "s1 = s" using Add_error [OF add] by simp
    then have "r = None" "s' = snd (DestroyAcceleratorTable hac s)"
      using Cons.prems(4) add False by (simp_all add: a)
    then show ?thesis using Destroy_ok [OF Cons.prems(1,2)] by auto
  qed
qed auto

lemma Copy_ok:
  assumes "acc_ok s" "t \<in> tables s" "fresh_addresses e s" "CopyAcceleratorTable e t s = (r, s')"
  shows "acc_ok s' \<and> (\<forall>u \<in> tables s. actab s' u = actab s u)
    \<and> (case r of None \<Rightarrow> tables s' = tables s
        | Some c \<Rightarrow> c \<notin> tables s \<and> tables s' = insert c (tables s)
            \<and> map snd (ac_head (actab s' c)) = rev (map snd (ac_head (actab s t))))"
proof -
  obtain c s1 where cr: "CreateAcceleratorTable (e 0) (ac_hwnd (actab s t)) s = (c, s1)" by fastforce
  show ?thesis
  proof (cases c)
    case None
    then have "s1 = s" using Create_None cr by blast
    then show ?thesis using None cr assms by (auto simp: CopyAcceleratorTable_def)
  next
    case (Some hac)
    have new: "acc_ok s1" "hac \<notin> tables s" "tables s1 = insert hac (tables s)" "ac_head (actab s1 hac) = []"
      "AIHeap s1 = AIHeap s" "\<forall>u. u \<noteq> hac \<longrightarrow> actab s1 u = actab s u"
      using Create_ok [OF assms(1) _ cr [unfolded Some]] fresh_calloc [OF assms(3)] by auto
    have t: "actab s1 t = actab s t" using new(2,6) assms(2) by auto
    have "bh_special (ACHeap s1) \<subseteq> bh_special (ACHeap s) \<union> set_option (snd (e 0))"
      using cr Some by (auto simp: CreateAcceleratorTable_def dest!: alloc_special split: option.splits)
    then have fresh: "fresh_addresses (\<lambda>n. e (Suc n)) s1"
      by (rule fresh_addresses_next [OF assms(3)]) (simp add: new(5))
    have "copy_items (\<lambda>n. e (Suc n)) hac (ac_head (actab s t)) s1 = (r, s')"
      using assms(4) cr Some t by (simp add: CopyAcceleratorTable_def)
    from copy_items_ok [OF new(1) _ fresh this] show ?thesis
      using new by (auto split: option.splits)
  qed
qed

text \<open>With memory left, a copy succeeds exactly when no item of the table matches one behind it.\<close>

definition memory_left :: "(nat \<Rightarrow> calloc_env) \<Rightarrow> bool" where
  "memory_left e \<longleftrightarrow> (\<forall>n. fst (e n) \<and> snd (e n) \<noteq> None)"

definition copyable :: "(block \<times> accelitem) list \<Rightarrow> bool" where
  "copyable = sorted_wrt (\<lambda>(_, new) (_, old). \<not> matches new (ai_key old) (ai_keymask old))"

lemma alloc_succeeds: "fst e \<Longrightarrow> snd e \<noteq> None \<Longrightarrow> BlockDataAlloc e h \<noteq> None"
  by (cases e) (auto simp: BlockDataAlloc_def Let_def split: option.splits)

lemma copy_items_succeeds:
  assumes "acc_ok s" "hac \<in> tables s" "fresh_addresses e s" "memory_left e"
  shows "fst (copy_items e hac ais s) \<noteq> None \<longleftrightarrow>
    copyable ais \<and> (\<forall>(_, new) \<in> set (ac_head (actab s hac)). \<forall>(_, old) \<in> set ais. \<not> matches new (ai_key old) (ai_keymask old))"
  using assms
proof (induction ais arbitrary: e s)
  case (Cons a ais)
  obtain p ai where a: "a = (p, ai)" by fastforce
  let ?add = "AddAccelerators (e 0) hac (ai_key ai) (ai_keymask ai) (ai_wParam ai) (ai_lParam ai) s"
  have tab: "tab_ok (actab s hac)" using Cons.prems(1,2) by (simp add: acc_ok_def)
  have al: "BlockDataAlloc (e 0) (AIHeap s) \<noteq> None" using Cons.prems(4) by (simp add: memory_left_def alloc_succeeds)
  have err: "fst ?add = 0 \<longleftrightarrow> find_item (ac_head (actab s hac)) (ai_key ai) (ai_keymask ai) = None"
    using al tab by (auto simp: AddAccelerators_def accFindMatchAccelKeys_def tab_ok_def split: option.splits)
  show ?case
  proof (cases "fst ?add = 0")
    case True
    then obtain s1 where add: "?add = (0, s1)" by (metis prod.collapse)
    obtain q where ok: "acc_ok s1" "tables s1 = tables s"
      "ac_head (actab s1 hac) = (q, \<lparr>ai_key = ai_key ai, ai_keymask = ai_keymask ai, ai_wParam = ai_wParam ai, ai_lParam = ai_lParam ai\<rparr>) # ac_head (actab s hac)"
      using Add_ok [OF Cons.prems(1,2) _ add] fresh_calloc [OF Cons.prems(3)] by auto
    have "fresh_addresses (\<lambda>n. e (Suc n)) s1"
      by (rule fresh_addresses_next [OF Cons.prems(3)]) (use Add_special [OF add] in auto)
    from Cons.IH [OF ok(1) _ this] show ?thesis
      using add ok Cons.prems(2,4) True err by (auto simp: a memory_left_def copyable_def find_item_None)
  next
    case False
    then have "fst (copy_items e hac (a # ais) s) = None" by (simp add: a split_beta Let_def)
    then show ?thesis using False err by (auto simp: a find_item_None)
  qed
qed (simp add: copyable_def)

subsection \<open>Any sequence of operations\<close>

inductive acc_reach :: "accels \<Rightarrow> bool" where
  init: "acc_reach (InitAccel garbage)"
| create: "acc_reach s \<Longrightarrow> calloc_fresh e (ACHeap s) \<Longrightarrow> acc_reach (snd (CreateAcceleratorTable e w s))"
| add: "acc_reach s \<Longrightarrow> t \<in> tables s \<Longrightarrow> calloc_fresh e (AIHeap s) \<Longrightarrow> acc_reach (snd (AddAccelerators e t key m wp lp s))"
| delete: "acc_reach s \<Longrightarrow> t \<in> tables s \<Longrightarrow> acc_reach (snd (DeleteAccelerators t key m s))"
| destroy: "acc_reach s \<Longrightarrow> t \<in> tables s \<Longrightarrow> acc_reach (snd (DestroyAcceleratorTable t s))"
| copy: "acc_reach s \<Longrightarrow> t \<in> tables s \<Longrightarrow> fresh_addresses e s \<Longrightarrow> acc_reach (snd (CopyAcceleratorTable e t s))"

lemma acc_reach_ok: "acc_reach s \<Longrightarrow> acc_ok s"
proof (induction rule: acc_reach.induct)
  case (create s e w)
  obtain r s' where c: "CreateAcceleratorTable e w s = (r, s')" by fastforce
  then show ?case using Create_ok [OF create.IH create.hyps(2)] create.IH by (cases r) (auto dest: Create_None)
next
  case (add s t e key m wp lp)
  obtain err s' where a: "AddAccelerators e t key m wp lp s = (err, s')" by fastforce
  then show ?case using Add_ok [OF add.IH add.hyps(2,3)] Add_error [OF a] add.IH by (cases "err = 0") auto
next
  case (delete s t key m)
  obtain err s' where d: "DeleteAccelerators t key m s = (err, s')" by fastforce
  moreover have "err \<noteq> 0 \<Longrightarrow> s' = s" using d by (auto simp: DeleteAccelerators_def split: if_splits option.splits)
  ultimately show ?case using Delete_ok [OF delete.IH delete.hyps(2)] delete.IH by (cases "err = 0") auto
next
  case (destroy s t)
  then show ?case using Destroy_ok [of s t] by auto
next
  case (copy s t e)
  obtain r s' where c: "CopyAcceleratorTable e t s = (r, s')" by fastforce
  then show ?case using Copy_ok [OF copy.IH copy.hyps(2,3) c] by simp
qed (simp add: acc_ok_def InitAccel_def inv_Init)

text \<open>C33.  After any sequence of creations, additions, deletions, copies and destructions of accelerator tables, the blocks in
  use of the heap of items are exactly the items of the tables that exist, each in one table and once: nothing leaks
  and nothing is shared, also when a copy is given up half way.  No accelerator of a table was matched by one that
  was there when it was added.\<close>

theorem accelerators_account:
  assumes "acc_reach s"
  shows "blocks_used (AIHeap s) = (\<Union>t \<in> tables s. items s t) \<and> disjoint_family_on (items s) (tables s)
    \<and> (\<forall>t \<in> tables s. IsAccel s t \<and> distinct (map fst (ac_head (actab s t))) \<and> added_in_turn (ac_head (actab s t)))"
  using acc_reach_ok [OF assms]
  by (auto simp: acc_ok_def tab_ok_def IsAccel_def disjoint_family_on_def)

definition no_accels :: accels where
  "no_accels = InitAccel (\<lambda>_. \<lparr>ac_category = 0, ac_hwnd = 0, ac_head = []\<rparr>)"

definition one_table :: accels where
  "one_table = snd (CreateAcceleratorTable (True, None) 1 no_accels)"

lemma one_table: "acc_reach one_table" "InHeap 0 \<in> tables one_table"
  "actab one_table (InHeap 0) = \<lparr>ac_category = TYPE_HACCEL, ac_hwnd = 1, ac_head = []\<rparr>"
proof -
  have "acc_reach no_accels" unfolding no_accels_def by (rule acc_reach.init)
  then show "acc_reach one_table" unfolding one_table_def by (rule acc_reach.create) (simp add: calloc_fresh_def)
  have s: "alloc_search 0 (replicate 64 BDS_FREE) = Some 0" by (simp add: numeral_eq_Suc)
  show "InHeap 0 \<in> tables one_table" "actab one_table (InHeap 0) = \<lparr>ac_category = TYPE_HACCEL, ac_hwnd = 1, ac_head = []\<rparr>"
    using s by (simp_all add: one_table_def CreateAcceleratorTable_def no_accels_def InitAccel_def InitBlockDataHeap_def BlockDataAlloc_def
        blocks_used_def flags_def)
qed

theorem accelerators_account_witness:
  "blocks_used (AIHeap one_table) = (\<Union>t \<in> tables one_table. items one_table t)
    \<and> IsAccel one_table (InHeap 0)"
  using accelerators_account [OF one_table(1)] one_table(2) by blast

subsection \<open>Adding and deleting\<close>

lemma command_upd:
  "ac_head (actab s' t) = (p, ai) # ac_head (actab s t) \<Longrightarrow>
    command s' t k m = (if matches ai k m then Some (ai_wParam ai, ai_lParam ai) else command s t k m)"
  by (simp add: command_def)

text \<open>An accelerator is accepted exactly when, with memory left, its own key press stands for no command yet.  Then every key
  press that its mask admits stands for its command, whatever else it stood for, all others for what they stood for
  before, and deleting the same key and mask gives the table back as it was.  A refused one changes nothing.\<close>

theorem add_and_delete_accelerator:
  assumes "acc_reach s" "t \<in> tables s" "calloc_fresh e (AIHeap s)" "fst e" "snd e \<noteq> None"
    and add: "AddAccelerators e t key m wp lp s = (err, s')"
  shows "(err = 0 \<longleftrightarrow> command s t key m = None) \<and> (err \<noteq> 0 \<longrightarrow> err = ERR_ALREADY_EXIST \<and> s' = s)
    \<and> (err = 0 \<longrightarrow> (\<forall>k m'. command s' t k m' = (if k = key \<and> does_mask_match m m' then Some (wp, lp) else command s t k m'))
      \<and> (\<exists>s''. DeleteAccelerators t key m s' = (0, s'') \<and> ac_head (actab s'' t) = ac_head (actab s t) \<and> AIHeap s'' = BlockDataFree (fst (hd (ac_head (actab s' t)))) (AIHeap s')))"
proof -
  have ok: "acc_ok s" "ac_category (actab s t) = TYPE_HACCEL"
    using acc_reach_ok [OF assms(1)] assms(2) by (auto simp: acc_ok_def tab_ok_def)
  have none: "command s t key m = None \<longleftrightarrow> find_item (ac_head (actab s t)) key m = None"
    by (simp add: command_def find_item_find)
  have al: "BlockDataAlloc e (AIHeap s) \<noteq> None" using assms(4,5) by (rule alloc_succeeds)
  then have err: "err = 0 \<longleftrightarrow> command s t key m = None" "err \<noteq> 0 \<longrightarrow> err = ERR_ALREADY_EXIST \<and> s' = s"
    using add ok(2) by (auto simp: none AddAccelerators_def accFindMatchAccelKeys_def split: if_splits option.splits)
  show ?thesis
  proof (cases "err = 0")
    case True
    obtain p where p: "ac_head (actab s' t) = (p, \<lparr>ai_key = key, ai_keymask = m, ai_wParam = wp, ai_lParam = lp\<rparr>) # ac_head (actab s t)"
      using Add_ok [OF ok(1) assms(2,3) add [unfolded True]] by blast
    have "acc_ok s'" "t \<in> tables s'" using Add_ok [OF ok(1) assms(2,3) add [unfolded True]] assms(2) by auto
    then have "ac_category (actab s' t) = TYPE_HACCEL" by (simp add: acc_ok_def tab_ok_def)
    then have "\<exists>s''. DeleteAccelerators t key m s' = (0, s'') \<and> ac_head (actab s'' t) = ac_head (actab s t)
        \<and> AIHeap s'' = BlockDataFree (fst (hd (ac_head (actab s' t)))) (AIHeap s')"
      by (simp add: DeleteAccelerators_def accFindMatchAccelKeys_def p match_refl FreeAccelItem_def)
    then show ?thesis using err True command_upd [OF p] by auto
  qed (use err in auto)
qed

theorem add_and_delete_accelerator_witness:
  "\<exists>s'. AddAccelerators (True, Some 1) (InHeap 0) 256 KS_CTRL 5 6 one_table = (0, s')
    \<and> command s' (InHeap 0) 256 KS_LEFTCTRL = Some (5, 6) \<and> command s' (InHeap 0) 257 KS_LEFTCTRL = None"
proof -
  obtain err s' where a: "AddAccelerators (True, Some 1) (InHeap 0) 256 KS_CTRL 5 6 one_table = (err, s')" by fastforce
  have empty: "command one_table (InHeap 0) k m = None" for k m by (simp add: command_def one_table(3))
  have "bh_special (AIHeap one_table) = {}"
    by (simp add: one_table_def no_accels_def InitAccel_def InitBlockDataHeap_def CreateAcceleratorTable_def split: option.split)
  then have fresh: "calloc_fresh (True, Some 1) (AIHeap one_table)" by (simp add: calloc_fresh_def)
  have "does_mask_match KS_CTRL KS_LEFTCTRL" by (simp add: does_mask_match_def group_match_def ks_defs)
  then show ?thesis
    using add_and_delete_accelerator [OF one_table(1,2) fresh _ _ a] a empty by auto
qed

subsection \<open>Copying\<close>

text \<open>While there is memory, a copy of a table succeeds exactly when no accelerator of the table matches one that was there before
  it.  The copy holds the same accelerators in the reverse order; the tables that were there stay as they are, and a copy
  that fails leaves no table behind.\<close>

theorem copy_of_table:
  assumes "acc_reach s" "t \<in> tables s" "fresh_addresses e s" "memory_left e" "CopyAcceleratorTable e t s = (r, s')"
  shows "(r \<noteq> None \<longleftrightarrow> copyable (ac_head (actab s t))) \<and> (\<forall>u \<in> tables s. actab s' u = actab s u)
    \<and> (case r of None \<Rightarrow> tables s' = tables s \<and> blocks_used (AIHeap s') = blocks_used (AIHeap s)
        | Some c \<Rightarrow> c \<notin> tables s \<and> tables s' = insert c (tables s)
            \<and> map snd (ac_head (actab s' c)) = rev (map snd (ac_head (actab s t))))"
proof -
  have ok: "acc_ok s" using acc_reach_ok [OF assms(1)] .
  note c = Copy_ok [OF ok assms(2,3,5)]
  obtain c0 s1 where cr: "CreateAcceleratorTable (e 0) (ac_hwnd (actab s t)) s = (c0, s1)" by fastforce
  have "BlockDataAlloc (e 0) (ACHeap s) \<noteq> None" using assms(4) by (simp add: memory_left_def alloc_succeeds)
  then obtain hac where h: "c0 = Some hac" using cr by (auto simp: CreateAcceleratorTable_def split: option.splits)
  have new: "acc_ok s1" "hac \<notin> tables s" "tables s1 = insert hac (tables s)" "ac_head (actab s1 hac) = []"
    "AIHeap s1 = AIHeap s" "\<forall>u. u \<noteq> hac \<longrightarrow> actab s1 u = actab s u"
    using Create_ok [OF ok _ cr [unfolded h]] fresh_calloc [OF assms(3)] by auto
  have "bh_special (ACHeap s1) \<subseteq> bh_special (ACHeap s) \<union> set_option (snd (e 0))"
    using cr h by (auto simp: CreateAcceleratorTable_def dest!: alloc_special split: option.splits)
  then have fresh: "fresh_addresses (\<lambda>n. e (Suc n)) s1"
    by (rule fresh_addresses_next [OF assms(3)]) (simp add: new(5))
  have t: "actab s1 t = actab s t" using new(2,6) assms(2) by auto
  then have "r = fst (copy_items (\<lambda>n. e (Suc n)) hac (ac_head (actab s t)) s1)"
    using assms(5) cr h by (simp add: CopyAcceleratorTable_def)
  moreover have "memory_left (\<lambda>n. e (Suc n))" using assms(4) by (simp add: memory_left_def)
  ultimately have "r \<noteq> None \<longleftrightarrow> copyable (ac_head (actab s t))"
    using copy_items_succeeds [OF new(1) _ fresh, of hac "ac_head (actab s t)"] new(3,4) by simp
  moreover have "tables s' = tables s \<Longrightarrow> blocks_used (AIHeap s') = blocks_used (AIHeap s)"
    using c ok by (simp add: acc_ok_def items_def)
  ultimately show ?thesis using c by (auto split: option.splits)
qed

text \<open>
  A table with an accelerator for the left control key, and then one for either control key: both are accepted, as
  the mask of the first does not admit that of the second, but the second takes its key press over, and deleting the
  first deletes the second.
\<close>

definition left_then_any :: accels where
  "left_then_any = snd (AddAccelerators (True, None) (InHeap 0) 256 KS_CTRL 2 0
     (snd (AddAccelerators (True, None) (InHeap 0) 256 KS_LEFTCTRL 1 0 one_table)))"

lemma left_then_any:
  "fst (AddAccelerators (True, None) (InHeap 0) 256 KS_CTRL 2 0 (snd (AddAccelerators (True, None) (InHeap 0) 256 KS_LEFTCTRL 1 0 one_table))) = 0"
  "command left_then_any (InHeap 0) 256 KS_LEFTCTRL = Some (2, 0)"
  "command (snd (DeleteAccelerators (InHeap 0) 256 KS_LEFTCTRL left_then_any)) (InHeap 0) 256 KS_RIGHTCTRL = None"
  by code_simp+

lemma left_then_any_reach: "acc_reach left_then_any" "InHeap 0 \<in> tables left_then_any"
proof -
  let ?one = "snd (AddAccelerators (True, None) (InHeap 0) 256 KS_LEFTCTRL 1 0 one_table)"
  have keep: "ACHeap (snd (AddAccelerators e t k m w l s)) = ACHeap s" for e t k m w l s
    by (auto simp: AddAccelerators_def split: option.split)
  have "acc_reach ?one" by (rule acc_reach.add [OF one_table(1,2)]) (simp add: calloc_fresh_def)
  then show "acc_reach left_then_any" "InHeap 0 \<in> tables left_then_any"
    unfolding left_then_any_def by (auto simp: keep one_table(2) calloc_fresh_def intro!: acc_reach.add)
qed

theorem copy_of_table_witness:
  "fst (CopyAcceleratorTable (\<lambda>n. (True, Some n)) (InHeap 0) left_then_any) = None
    \<and> tables (snd (CopyAcceleratorTable (\<lambda>n. (True, Some n)) (InHeap 0) left_then_any)) = tables left_then_any"
proof -
  obtain r s' where c: "CopyAcceleratorTable (\<lambda>n. (True, Some n)) (InHeap 0) left_then_any = (r, s')" by fastforce
  have "bh_special (ACHeap left_then_any) = {} \<and> bh_special (AIHeap left_then_any) = {}" by code_simp
  then have "fresh_addresses (\<lambda>n. (True, Some n)) left_then_any" by (simp add: fresh_addresses_def)
  moreover have "\<not> copyable (ac_head (actab left_then_any (InHeap 0)))" by code_simp
  ultimately show ?thesis
    using copy_of_table [OF left_then_any_reach _ _ c] c by (simp add: memory_left_def split: option.splits)
qed

end
