(* ===== verification/Charset_Base.thy ===== *)
theory Charset_Base
  imports MG_Prelude "HOL-Library.Word"
begin

section \<open>Charsets: data and the common single byte operations (src/font/charset.c)\<close>

text \<open>
  An operation reads the memory behind the pointer it is given, which is a function from
  the distance to the byte; a result that is a pointer into the text is its distance from
  the start, \<open>None\<close> standing for NULL.  \<open>UChar32\<close> is a C \<open>int\<close> no operation drives out of range.  A conversion
  into a charset is the list of the bytes it writes, whose length is the count it returns.
  Strings that C ends by a zero byte are lists of characters.
\<close>

unbundle bit_operations_syntax

type_synonym uchar = "8 word"
type_synonym mstring = "nat \<Rightarrow> uchar"
type_synonym UChar32 = int

definition advance :: "mstring \<Rightarrow> nat \<Rightarrow> mstring" where
  "advance m k = (\<lambda>i. m (k + i))"

text \<open>The memory that holds a list of bytes and zeros behind it.\<close>

definition mem :: "uchar list \<Rightarrow> mstring" where
  "mem bs = (\<lambda>i. if i < length bs then bs ! i else 0)"

lemma advance_0 [simp]: "advance m 0 = m"
  by (simp add: advance_def)

lemma advance_advance [simp]: "advance (advance m j) k = advance m (j + k)"
  by (simp add: advance_def fun_eq_iff add.assoc)

lemma advance_at [simp]: "advance m k i = m (k + i)"
  by (simp add: advance_def)

lemma mem_0 [simp]: "mem (c # cs) 0 = c"
  by (simp add: mem_def)

lemma advance_mem [simp]: "advance (mem (c # cs)) (Suc 0) = mem cs"
  by (auto simp: advance_def mem_def fun_eq_iff)

record wordinfo =
  wi_len :: nat
  wi_delimiter :: uchar
  wi_nr_delimiters :: nat

definition no_word :: wordinfo where
  "no_word = \<lparr>wi_len = 0, wi_delimiter = 0, wi_nr_delimiters = 0\<rparr>"

text \<open>The pointer \<open>mstr + word_info->len + word_info->nr_delimiters\<close>.\<close>

definition word_end :: "wordinfo \<Rightarrow> nat" where
  "word_end w = wi_len w + wi_nr_delimiters w"

record charsetops =
  nr_chars :: nat
  bytes_maxlen_char :: int
  cs_name :: string
  def_char :: "uchar list"
  len_first_char :: "mstring \<Rightarrow> int \<Rightarrow> int"
  char_offset :: "mstring \<Rightarrow> int"
  char_type :: "mstring \<Rightarrow> nat"
  nr_chars_in_str :: "mstring \<Rightarrow> int \<Rightarrow> int option"
  is_this_charset :: "string \<Rightarrow> int option"
  len_first_substr :: "mstring \<Rightarrow> int \<Rightarrow> int option"
  get_next_word :: "mstring \<Rightarrow> int \<Rightarrow> (nat option \<times> wordinfo) option"
  pos_first_char :: "mstring \<Rightarrow> int \<Rightarrow> int option"
  conv_to_uc32 :: "mstring \<Rightarrow> UChar32"
  conv_from_uc32 :: "UChar32 \<Rightarrow> uchar list"

subsection \<open>Types of characters\<close>

definition MCHAR_TYPE_UNKNOWN :: nat where "MCHAR_TYPE_UNKNOWN = 0xFFFF"
definition MCHAR_TYPE_NUL :: nat where "MCHAR_TYPE_NUL = 0x0000"
definition MCHAR_TYPE_CTRL1 :: nat where "MCHAR_TYPE_CTRL1 = 0x0100"
definition MCHAR_TYPE_BEL :: nat where "MCHAR_TYPE_BEL = 0x0200"
definition MCHAR_TYPE_BS :: nat where "MCHAR_TYPE_BS = 0x0300"
definition MCHAR_TYPE_HT :: nat where "MCHAR_TYPE_HT = 0x0400"
definition MCHAR_TYPE_LF :: nat where "MCHAR_TYPE_LF = 0x0500"
definition MCHAR_TYPE_VT :: nat where "MCHAR_TYPE_VT = 0x0600"
definition MCHAR_TYPE_FF :: nat where "MCHAR_TYPE_FF = 0x0700"
definition MCHAR_TYPE_CR :: nat where "MCHAR_TYPE_CR = 0x0800"
definition MCHAR_TYPE_CTRL2 :: nat where "MCHAR_TYPE_CTRL2 = 0x0900"
definition MCHAR_TYPE_SPACE :: nat where "MCHAR_TYPE_SPACE = 0x0A00"
definition MCHAR_TYPE_ZEROWIDTH :: nat where "MCHAR_TYPE_ZEROWIDTH = 0x0B00"
definition MCHAR_TYPE_GENERIC :: nat where "MCHAR_TYPE_GENERIC = 0x0C00"

subsection \<open>Common operations for single byte charsets\<close>

definition sb_len_first_char :: "mstring \<Rightarrow> int \<Rightarrow> int" where
  "sb_len_first_char mstr len = (if len < 1 then 0 else if mstr 0 \<noteq> 0 then 1 else 0)"

definition sb_char_offset :: "mstring \<Rightarrow> int" where
  "sb_char_offset mchar = uint (mchar 0)"

definition sb_char_type :: "mstring \<Rightarrow> nat" where
  "sb_char_type mchar =
     (let c = mchar 0;
          ch_type =
            (if c = 0 then MCHAR_TYPE_NUL
             else if c = 7 then MCHAR_TYPE_BEL
             else if c = 8 then MCHAR_TYPE_BS
             else if c = 9 then MCHAR_TYPE_HT
             else if c = 10 then MCHAR_TYPE_LF
             else if c = 11 then MCHAR_TYPE_VT
             else if c = 12 then MCHAR_TYPE_FF
             else if c = 13 then MCHAR_TYPE_CR
             else if c = 32 then MCHAR_TYPE_SPACE
             else MCHAR_TYPE_UNKNOWN)
      in if ch_type = MCHAR_TYPE_UNKNOWN
         then if c < 7 then MCHAR_TYPE_CTRL1
              else if c < 32 then MCHAR_TYPE_CTRL2
              else MCHAR_TYPE_GENERIC
         else ch_type)"

definition sb_nr_chars_in_str :: "mstring \<Rightarrow> int \<Rightarrow> int option" where
  "sb_nr_chars_in_str mstr mstrlen = Some mstrlen"

definition sb_len_first_substr :: "mstring \<Rightarrow> int \<Rightarrow> int option" where
  "sb_len_first_substr mstr mstrlen = Some mstrlen"

definition sb_pos_first_char :: "mstring \<Rightarrow> int \<Rightarrow> int option" where
  "sb_pos_first_char mstr mstrlen = Some 0"

text \<open>The case labels space, tab, newline and carriage return.\<close>

definition is_delimiter :: "uchar \<Rightarrow> bool" where
  "is_delimiter c \<longleftrightarrow> c = 32 \<or> c = 9 \<or> c = 10 \<or> c = 13"

text \<open>
  The loop of \<open>sb_get_next_word\<close> over the bytes from the current one on.  The \<open>break\<close> in the
  \<open>default\<close> case leaves the switch, not the loop.
\<close>

fun sb_word_loop :: "uchar list \<Rightarrow> wordinfo \<Rightarrow> wordinfo" where
  "sb_word_loop [] w = w"
| "sb_word_loop (c # cs) w =
     (if c > 127
      then if wi_len w > 0
           then w\<lparr>wi_delimiter := c, wi_nr_delimiters := wi_nr_delimiters w + 1\<rparr>
           else w\<lparr>wi_len := wi_len w + 1, wi_delimiter := 32, wi_nr_delimiters := wi_nr_delimiters w + 1\<rparr>
      else if is_delimiter c
      then if wi_delimiter w = 0
           then sb_word_loop cs (w\<lparr>wi_delimiter := c, wi_nr_delimiters := wi_nr_delimiters w + 1\<rparr>)
           else if wi_delimiter w = c
           then sb_word_loop cs (w\<lparr>wi_nr_delimiters := wi_nr_delimiters w + 1\<rparr>)
           else w
      else if wi_delimiter w \<noteq> 0
      then sb_word_loop cs w
      else sb_word_loop cs (w\<lparr>wi_len := wi_len w + 1\<rparr>))"

definition text_of :: "mstring \<Rightarrow> nat \<Rightarrow> uchar list" where
  "text_of m n = map m [0..<n]"

definition sb_get_next_word :: "mstring \<Rightarrow> int \<Rightarrow> nat option \<times> wordinfo" where
  "sb_get_next_word mstr mstrlen =
     (if mstrlen = 0 then (None, no_word)
      else let w = sb_word_loop (text_of mstr (nat mstrlen)) no_word in (Some (word_end w), w))"

subsection \<open>Names of charsets\<close>

definition LEN_FONT_NAME :: nat where "LEN_FONT_NAME = 15"

definition toupper :: "char \<Rightarrow> char" where
  "toupper c = (let n = of_char c :: nat in if 97 \<le> n \<and> n \<le> 122 then char_of (n - 32) else c)"

text \<open>
  The loop that copies a name in upper case into an array of \<open>LEN_FONT_NAME + 1\<close> characters.
  It stops behind the array when the name is longer, and the terminating zero is then
  written past the end of the array: \<open>None\<close>.
\<close>

definition upper_name :: "string \<Rightarrow> string option" where
  "upper_name cs = (if length cs < LEN_FONT_NAME + 1 then Some (map toupper cs) else None)"

fun strstr :: "string \<Rightarrow> string \<Rightarrow> string option" where
  "strstr [] needle = (if needle = [] then Some [] else None)"
| "strstr (c # cs) needle =
     (if take (length needle) (c # cs) = needle then Some (c # cs) else strstr cs needle)"

definition has :: "string \<Rightarrow> string \<Rightarrow> bool" where
  "has name needle \<longleftrightarrow> strstr name needle \<noteq> None"

text \<open>The shape of every \<open>is_this_charset\<close>: the copy of the name, then a test that gives 0 for yes and 1 for no.\<close>

definition name_test :: "(string \<Rightarrow> bool) \<Rightarrow> string \<Rightarrow> int option" where
  "name_test p charset = map_option (\<lambda>name. if p name then 0 else 1) (upper_name charset)"

definition ascii_is_this_charset :: "string \<Rightarrow> int option" where
  "ascii_is_this_charset = name_test (\<lambda>name. has name ''ASCII'')"

text \<open>\<open>sub_enc [6] == 0\<close>: the string that is found ends behind its six characters.\<close>

definition ends_after :: "string \<Rightarrow> string \<Rightarrow> bool" where
  "ends_after name needle \<longleftrightarrow> (case strstr name needle of None \<Rightarrow> False | Some sub_enc \<Rightarrow> length sub_enc = 6)"

definition iso8859_1_is_this_charset :: "string \<Rightarrow> int option" where
  "iso8859_1_is_this_charset =
     name_test (\<lambda>name. has name ''ISO'' \<and> ends_after name ''8859-1'' \<or> ends_after name ''LATIN1'')"

definition iso8859_2_is_this_charset :: "string \<Rightarrow> int option" where
  "iso8859_2_is_this_charset =
     name_test (\<lambda>name. has name ''ISO'' \<and> has name ''8859-2'' \<or> has name ''LATIN2'')"

definition iso8859_3_is_this_charset :: "string \<Rightarrow> int option" where
  "iso8859_3_is_this_charset =
     name_test (\<lambda>name. has name ''ISO'' \<and> has name ''8859-3'' \<or> has name ''LATIN3'')"

definition iso8859_4_is_this_charset :: "string \<Rightarrow> int option" where
  "iso8859_4_is_this_charset =
     name_test (\<lambda>name. has name ''ISO'' \<and> has name ''8859-4'' \<or> has name ''LATIN4'')"

definition iso8859_5_is_this_charset :: "string \<Rightarrow> int option" where
  "iso8859_5_is_this_charset =
     name_test (\<lambda>name. has name ''ISO'' \<and> has name ''8859-5'' \<or> has name ''CYRILLIC'')"

definition iso8859_6_is_this_charset :: "string \<Rightarrow> int option" where
  "iso8859_6_is_this_charset =
     name_test (\<lambda>name. has name ''ISO'' \<and> has name ''8859-6'' \<or> has name ''ARABIC'')"

definition iso8859_7_is_this_charset :: "string \<Rightarrow> int option" where
  "iso8859_7_is_this_charset =
     name_test (\<lambda>name. has name ''ISO'' \<and> has name ''8859-7'' \<or> has name ''GREEK'')"

definition iso8859_8_is_this_charset :: "string \<Rightarrow> int option" where
  "iso8859_8_is_this_charset =
     name_test (\<lambda>name. has name ''ISO'' \<and> has name ''8859-8'' \<or> has name ''HEBREW'')"

definition iso8859_9_is_this_charset :: "string \<Rightarrow> int option" where
  "iso8859_9_is_this_charset =
     name_test (\<lambda>name. has name ''ISO'' \<and> has name ''8859-9'' \<or> has name ''LATIN5'')"

definition iso8859_10_is_this_charset :: "string \<Rightarrow> int option" where
  "iso8859_10_is_this_charset =
     name_test (\<lambda>name. has name ''ISO'' \<and> has name ''8859-10'' \<or> has name ''LATIN6'')"

definition iso8859_11_is_this_charset :: "string \<Rightarrow> int option" where
  "iso8859_11_is_this_charset =
     name_test (\<lambda>name. has name ''ISO'' \<and> has name ''8859-11'' \<or> has name ''TIS'' \<and> has name ''620'')"

definition iso8859_13_is_this_charset :: "string \<Rightarrow> int option" where
  "iso8859_13_is_this_charset =
     name_test (\<lambda>name. has name ''ISO'' \<and> has name ''8859-13'' \<or> has name ''LATIN7'')"

definition iso8859_14_is_this_charset :: "string \<Rightarrow> int option" where
  "iso8859_14_is_this_charset =
     name_test (\<lambda>name. has name ''ISO'' \<and> has name ''8859-14'' \<or> has name ''LATIN8'')"

definition iso8859_15_is_this_charset :: "string \<Rightarrow> int option" where
  "iso8859_15_is_this_charset =
     name_test (\<lambda>name. has name ''ISO'' \<and> has name ''8859-15'' \<or> has name ''LATIN'' \<and> has name ''9'')"

definition iso8859_16_is_this_charset :: "string \<Rightarrow> int option" where
  "iso8859_16_is_this_charset =
     name_test (\<lambda>name. has name ''ISO'' \<and> has name ''8859-16'' \<or> has name ''LATIN'' \<and> has name ''10'')"

definition gb2312_0_is_this_charset :: "string \<Rightarrow> int option" where
  "gb2312_0_is_this_charset =
     name_test (\<lambda>name. has name ''GB'' \<and> has name ''2312'')"

definition gbk_is_this_charset :: "string \<Rightarrow> int option" where
  "gbk_is_this_charset =
     name_test (\<lambda>name. has name ''GBK'' \<or> has name ''GB'' \<and> has name ''2312'')"

definition gb18030_0_is_this_charset :: "string \<Rightarrow> int option" where
  "gb18030_0_is_this_charset =
     name_test (\<lambda>name. has name ''GB'' \<and> has name ''18030'' \<or> has name ''GBK'' \<or> has name ''GB'' \<and> has name ''2312'')"

definition big5_is_this_charset :: "string \<Rightarrow> int option" where
  "big5_is_this_charset =
     name_test (\<lambda>name. has name ''BIG5'')"

definition ksc5601_0_is_this_charset :: "string \<Rightarrow> int option" where
  "ksc5601_0_is_this_charset =
     name_test (\<lambda>name. has name ''KSC5601'' \<and> has name ''-0'' \<or> has name ''EUC'' \<and> has name ''KR'')"

definition jisx0201_0_is_this_charset :: "string \<Rightarrow> int option" where
  "jisx0201_0_is_this_charset =
     name_test (\<lambda>name. has name ''JISX0201'' \<and> has name ''-0'')"

definition jisx0208_0_is_this_charset :: "string \<Rightarrow> int option" where
  "jisx0208_0_is_this_charset =
     name_test (\<lambda>name. has name ''JISX0208'' \<and> has name ''-0'' \<or> has name ''EUC'' \<and> has name ''JP'')"

definition jisx0201_1_is_this_charset :: "string \<Rightarrow> int option" where
  "jisx0201_1_is_this_charset =
     name_test (\<lambda>name. has name ''JISX0201'' \<and> has name ''-1'')"

definition jisx0208_1_is_this_charset :: "string \<Rightarrow> int option" where
  "jisx0208_1_is_this_charset =
     name_test (\<lambda>name. has name ''JISX0208'' \<and> has name ''-1'' \<or> has name ''SHIFT'' \<and> has name ''JIS'')"

definition utf8_is_this_charset :: "string \<Rightarrow> int option" where
  "utf8_is_this_charset =
     name_test (\<lambda>name. has name ''UTF'' \<and> has name ''8'')"

definition utf16le_is_this_charset :: "string \<Rightarrow> int option" where
  "utf16le_is_this_charset =
     name_test (\<lambda>name. has name ''UTF'' \<and> has name ''16LE'')"

definition utf16be_is_this_charset :: "string \<Rightarrow> int option" where
  "utf16be_is_this_charset =
     name_test (\<lambda>name. has name ''UTF'' \<and> has name ''16BE'')"

end
