(* ===== verification/Charset_SB.thy ===== *)
theory Charset_SB
  imports Charset_Base
begin

section \<open>Conversions of the single byte charsets (src/font/charset.c)\<close>

text \<open>
  Between a character and Unicode: ASCII, ISO8859-1, the seven charsets that are a table for
  the bytes from \<open>0xA1\<close> on, three that are a switch over the bytes which differ from
  ISO8859-1, and the four (5, 6, 7 and 8) that shift a range.  The locales state what makes a
  table, or a pair of switches, a correct charset; they are interpreted on the charsets of
  the code.
\<close>

subsection \<open>ASCII and ISO8859-1\<close>

definition ascii_conv_to_uc32 :: "mstring \<Rightarrow> UChar32" where
  "ascii_conv_to_uc32 mchar = (if uint (mchar 0) < 128 then uint (mchar 0) else 63)"

definition ascii_conv_from_uc32 :: "UChar32 \<Rightarrow> uchar list" where
  "ascii_conv_from_uc32 wc = (if wc < 128 then [word_of_int wc] else [])"

definition iso8859_1_conv_to_uc32 :: "mstring \<Rightarrow> UChar32" where
  "iso8859_1_conv_to_uc32 mchar = uint (mchar 0)"

definition iso8859_1_conv_from_uc32 :: "UChar32 \<Rightarrow> uchar list" where
  "iso8859_1_conv_from_uc32 wc = (if wc < 256 then [word_of_int wc] else [])"

subsection \<open>Charsets with a table\<close>

text \<open>The loop that looks for a code point in the table from index \<open>i\<close> on.\<close>

fun table_search :: "UChar32 list \<Rightarrow> nat \<Rightarrow> UChar32 \<Rightarrow> nat option" where
  "table_search [] i wc = None"
| "table_search (x # xs) i wc = (if x = wc then Some i else table_search xs (i + 1) wc)"

definition table_conv_to :: "UChar32 list \<Rightarrow> mstring \<Rightarrow> UChar32" where
  "table_conv_to unicode_map mchar =
     (if uint (mchar 0) < 0xA1 then uint (mchar 0) else unicode_map ! (unat (mchar 0) - 0xA1))"

definition table_conv_from :: "UChar32 list \<Rightarrow> UChar32 \<Rightarrow> uchar list" where
  "table_conv_from unicode_map wc =
     (if wc < 0xA1 then [word_of_int wc]
      else case table_search unicode_map 0 wc of
             Some i \<Rightarrow> [word_of_int (0xA1 + int i)]
           | None \<Rightarrow> [])"

definition iso8859_2_unicode_map :: "UChar32 list" where
  "iso8859_2_unicode_map =
    [0x0104, 0x02D8, 0x0141, 0x00A4, 0x013D, 0x015A, 0x00A7, 0x00A8, 0x0160, 0x015E, 0x0164, 0x0179,
     0x00AD, 0x017D, 0x017B, 0x00B0, 0x0105, 0x02DB, 0x0142, 0x00B4, 0x013E, 0x015B, 0x02C7, 0x00B8,
     0x0161, 0x015F, 0x0165, 0x017A, 0x02DD, 0x017E, 0x017C, 0x0154, 0x00C1, 0x00C2, 0x0102, 0x00C4,
     0x0139, 0x0106, 0x00C7, 0x010C, 0x00C9, 0x0118, 0x00CB, 0x011A, 0x00CD, 0x00CE, 0x010E, 0x0110,
     0x0143, 0x0147, 0x00D3, 0x00D4, 0x0150, 0x00D6, 0x00D7, 0x0158, 0x016E, 0x00DA, 0x0170, 0x00DC,
     0x00DD, 0x0162, 0x00DF, 0x0155, 0x00E1, 0x00E2, 0x0103, 0x00E4, 0x013A, 0x0107, 0x00E7, 0x010D,
     0x00E9, 0x0119, 0x00EB, 0x011B, 0x00ED, 0x00EE, 0x010F, 0x0111, 0x0144, 0x0148, 0x00F3, 0x00F4,
     0x0151, 0x00F6, 0x00F7, 0x0159, 0x016F, 0x00FA, 0x0171, 0x00FC, 0x00FD, 0x0163, 0x02D9]"

definition iso8859_2_conv_to_uc32 :: "mstring \<Rightarrow> UChar32" where
  "iso8859_2_conv_to_uc32 = table_conv_to iso8859_2_unicode_map"

definition iso8859_2_conv_from_uc32 :: "UChar32 \<Rightarrow> uchar list" where
  "iso8859_2_conv_from_uc32 = table_conv_from iso8859_2_unicode_map"

definition iso8859_3_unicode_map :: "UChar32 list" where
  "iso8859_3_unicode_map =
    [0x0126, 0x02D8, 0x00A3, 0x00A4, 0x00A5, 0x0124, 0x00A7, 0x00A8, 0x0130, 0x015E, 0x011E, 0x0134,
     0x00AD, 0x00AE, 0x017B, 0x00B0, 0x0127, 0x00B2, 0x00B3, 0x00B4, 0x00B5, 0x0125, 0x00B7, 0x00B8,
     0x0131, 0x015F, 0x011F, 0x0135, 0x00BD, 0x00BE, 0x017C, 0x00C0, 0x00C1, 0x00C2, 0x00C3, 0x00C4,
     0x010A, 0x0108, 0x00C7, 0x00C8, 0x00C9, 0x00CA, 0x00CB, 0x00CC, 0x00CD, 0x00CE, 0x00CF, 0x00D0,
     0x00D1, 0x00D2, 0x00D3, 0x00D4, 0x0120, 0x00D6, 0x00D7, 0x011C, 0x00D9, 0x00DA, 0x00DB, 0x00DC,
     0x016C, 0x015C, 0x00DF, 0x00E0, 0x00E1, 0x00E2, 0x00E3, 0x00E4, 0x010B, 0x0109, 0x00E7, 0x00E8,
     0x00E9, 0x00EA, 0x00EB, 0x00EC, 0x00ED, 0x00EE, 0x00EF, 0x00F0, 0x00F1, 0x00F2, 0x00F3, 0x00F4,
     0x0121, 0x00F6, 0x00F7, 0x011D, 0x00F9, 0x00FA, 0x00FB, 0x00FC, 0x016D, 0x015D, 0x02D9]"

definition iso8859_3_conv_to_uc32 :: "mstring \<Rightarrow> UChar32" where
  "iso8859_3_conv_to_uc32 = table_conv_to iso8859_3_unicode_map"

definition iso8859_3_conv_from_uc32 :: "UChar32 \<Rightarrow> uchar list" where
  "iso8859_3_conv_from_uc32 = table_conv_from iso8859_3_unicode_map"

definition iso8859_4_unicode_map :: "UChar32 list" where
  "iso8859_4_unicode_map =
    [0x0104, 0x0138, 0x0156, 0x00A4, 0x0128, 0x013B, 0x00A7, 0x00A8, 0x0160, 0x0112, 0x0122, 0x0166,
     0x00AD, 0x017D, 0x00AF, 0x00B0, 0x0105, 0x02DB, 0x0157, 0x00B4, 0x0129, 0x013C, 0x02C7, 0x00B8,
     0x0161, 0x0113, 0x0123, 0x0167, 0x014A, 0x017E, 0x014B, 0x0100, 0x00C1, 0x00C2, 0x00C3, 0x00C4,
     0x00C5, 0x00C6, 0x012E, 0x010C, 0x00C9, 0x0118, 0x00CB, 0x0116, 0x00CD, 0x00CE, 0x012A, 0x0110,
     0x0145, 0x014C, 0x0136, 0x00D4, 0x00D5, 0x00D6, 0x00D7, 0x00D8, 0x0172, 0x00DA, 0x00DB, 0x00DC,
     0x0168, 0x016A, 0x00DF, 0x0101, 0x00E1, 0x00E2, 0x00E3, 0x00E4, 0x00E5, 0x00E6, 0x012F, 0x010D,
     0x00E9, 0x0119, 0x00EB, 0x0117, 0x00ED, 0x00EE, 0x012B, 0x0111, 0x0146, 0x014D, 0x0137, 0x00F4,
     0x00F5, 0x00F6, 0x00F7, 0x00F8, 0x0173, 0x00FA, 0x00FB, 0x00FC, 0x0169, 0x016B, 0x02D9]"

definition iso8859_4_conv_to_uc32 :: "mstring \<Rightarrow> UChar32" where
  "iso8859_4_conv_to_uc32 = table_conv_to iso8859_4_unicode_map"

definition iso8859_4_conv_from_uc32 :: "UChar32 \<Rightarrow> uchar list" where
  "iso8859_4_conv_from_uc32 = table_conv_from iso8859_4_unicode_map"

definition iso8859_7_unicode_map :: "UChar32 list" where
  "iso8859_7_unicode_map =
    [0x2018, 0x2019, 0x00A3, 0x00A4, 0x00A5, 0x00A6, 0x00A7, 0x00A8, 0x00A9, 0x00AA, 0x00AB, 0x00AC,
     0x00AD, 0x00AE, 0x2015, 0x00B0, 0x00B1, 0x00B2, 0x00B3, 0x0384, 0x0385, 0x0386, 0x00B7, 0x0388,
     0x0389, 0x038A, 0x00BB, 0x038C, 0x00BD]"

definition iso8859_10_unicode_map :: "UChar32 list" where
  "iso8859_10_unicode_map =
    [0x0104, 0x0112, 0x0122, 0x012A, 0x0128, 0x0136, 0x00A7, 0x013B, 0x0110, 0x0160, 0x0166, 0x017D,
     0x00AD, 0x016A, 0x014A, 0x00B0, 0x0105, 0x0113, 0x0123, 0x012B, 0x0129, 0x0137, 0x00B7, 0x013C,
     0x0111, 0x0161, 0x0167, 0x017E, 0x2015, 0x016B, 0x014B, 0x0100, 0x00C1, 0x00C2, 0x00C3, 0x00C4,
     0x00C5, 0x00C6, 0x012E, 0x010C, 0x00C9, 0x0118, 0x00CB, 0x0116, 0x00CD, 0x00CE, 0x00CF, 0x00D0,
     0x0145, 0x014C, 0x00D3, 0x00D4, 0x00D5, 0x00D6, 0x0168, 0x00D8, 0x0172, 0x00DA, 0x00DB, 0x00DC,
     0x00DD, 0x00DE, 0x00DF, 0x0101, 0x00E1, 0x00E2, 0x00E3, 0x00E4, 0x00E5, 0x00E6, 0x012F, 0x010D,
     0x00E9, 0x0119, 0x00EB, 0x0117, 0x00ED, 0x00EE, 0x00EF, 0x00F0, 0x0146, 0x014D, 0x00F3, 0x00F4,
     0x00F5, 0x00F6, 0x0169, 0x00F8, 0x0173, 0x00FA, 0x00FB, 0x00FC, 0x00FD, 0x00FE, 0x0138]"

definition iso8859_10_conv_to_uc32 :: "mstring \<Rightarrow> UChar32" where
  "iso8859_10_conv_to_uc32 = table_conv_to iso8859_10_unicode_map"

definition iso8859_10_conv_from_uc32 :: "UChar32 \<Rightarrow> uchar list" where
  "iso8859_10_conv_from_uc32 = table_conv_from iso8859_10_unicode_map"

definition iso8859_11_unicode_map :: "UChar32 list" where
  "iso8859_11_unicode_map =
    [0x0E01, 0x0E02, 0x0E03, 0x0E04, 0x0E05, 0x0E06, 0x0E07, 0x0E08, 0x0E09, 0x0E0A, 0x0E0B, 0x0E0C,
     0x0E0D, 0x0E0E, 0x0E0F, 0x0E10, 0x0E11, 0x0E12, 0x0E13, 0x0E14, 0x0E15, 0x0E16, 0x0E17, 0x0E18,
     0x0E19, 0x0E1A, 0x0E1B, 0x0E1C, 0x0E1D, 0x0E1E, 0x0E1F, 0x0E20, 0x0E21, 0x0E22, 0x0E23, 0x0E24,
     0x0E25, 0x0E26, 0x0E27, 0x0E28, 0x0E29, 0x0E2A, 0x0E2B, 0x0E2C, 0x0E2D, 0x0E2E, 0x0E2F, 0x0E30,
     0x0E31, 0x0E32, 0x0E33, 0x0E34, 0x0E35, 0x0E36, 0x0E37, 0x0E38, 0x0E39, 0x0E3A, 0x00DB, 0x00DC,
     0x00DD, 0x00DE, 0x0E3F, 0x0E40, 0x0E41, 0x0E42, 0x0E43, 0x0E44, 0x0E45, 0x0E46, 0x0E47, 0x0E48,
     0x0E49, 0x0E4A, 0x0E4B, 0x0E4C, 0x0E4D, 0x0E4E, 0x0E4F, 0x0E50, 0x0E51, 0x0E52, 0x0E53, 0x0E54,
     0x0E55, 0x0E56, 0x0E57, 0x0E58, 0x0E59, 0x0E5A, 0x0E5B, 0x00FC, 0x00FD, 0x00FE, 0x00FF]"

definition iso8859_11_conv_to_uc32 :: "mstring \<Rightarrow> UChar32" where
  "iso8859_11_conv_to_uc32 = table_conv_to iso8859_11_unicode_map"

definition iso8859_11_conv_from_uc32 :: "UChar32 \<Rightarrow> uchar list" where
  "iso8859_11_conv_from_uc32 = table_conv_from iso8859_11_unicode_map"

definition iso8859_13_unicode_map :: "UChar32 list" where
  "iso8859_13_unicode_map =
    [0x201D, 0x00A2, 0x00A3, 0x00A4, 0x201E, 0x00A6, 0x00A7, 0x00D8, 0x00A9, 0x0156, 0x00AB, 0x00AC,
     0x00AD, 0x00AE, 0x00C6, 0x00B0, 0x00B1, 0x00B2, 0x00B3, 0x201C, 0x00B5, 0x00B6, 0x00B7, 0x00F8,
     0x00B9, 0x0157, 0x00BB, 0x00BC, 0x00BD, 0x00BE, 0x00E6, 0x0104, 0x012E, 0x0100, 0x0106, 0x00C4,
     0x00C5, 0x0118, 0x0112, 0x010C, 0x00C9, 0x0179, 0x0116, 0x0122, 0x0136, 0x012A, 0x013B, 0x0160,
     0x0143, 0x0145, 0x00D3, 0x014C, 0x00D5, 0x00D6, 0x00D7, 0x0172, 0x0141, 0x015A, 0x016A, 0x00DC,
     0x017B, 0x017D, 0x00DF, 0x0105, 0x012F, 0x0101, 0x0107, 0x00E4, 0x00E5, 0x0119, 0x0113, 0x010D,
     0x00E9, 0x017A, 0x0117, 0x0123, 0x0137, 0x012B, 0x013C, 0x0161, 0x0144, 0x0146, 0x00F3, 0x014D,
     0x00F5, 0x00F6, 0x00F7, 0x0173, 0x0142, 0x015B, 0x016B, 0x00FC, 0x017C, 0x017E, 0x2019]"

definition iso8859_13_conv_to_uc32 :: "mstring \<Rightarrow> UChar32" where
  "iso8859_13_conv_to_uc32 = table_conv_to iso8859_13_unicode_map"

definition iso8859_13_conv_from_uc32 :: "UChar32 \<Rightarrow> uchar list" where
  "iso8859_13_conv_from_uc32 = table_conv_from iso8859_13_unicode_map"

definition iso8859_14_unicode_map :: "UChar32 list" where
  "iso8859_14_unicode_map =
    [0x1E02, 0x1E03, 0x00A3, 0x010A, 0x010B, 0x1E0A, 0x00A7, 0x1E80, 0x00A9, 0x1E82, 0x1E0B, 0x1EF2,
     0x00AD, 0x00AE, 0x0178, 0x1E1E, 0x1E1F, 0x0120, 0x0121, 0x1E40, 0x1E41, 0x00B6, 0x1E56, 0x1E81,
     0x1E57, 0x1E83, 0x1E60, 0x1EF3, 0x1E84, 0x1E85, 0x1E61, 0x00C0, 0x00C1, 0x00C2, 0x00C3, 0x00C4,
     0x00C5, 0x00C6, 0x00C7, 0x00C8, 0x00C9, 0x00CA, 0x00CB, 0x00CC, 0x00CD, 0x00CE, 0x00CF, 0x0174,
     0x00D1, 0x00D2, 0x00D3, 0x00D4, 0x00D5, 0x00D6, 0x1E6A, 0x00D8, 0x00D9, 0x00DA, 0x00DB, 0x00DC,
     0x00DD, 0x0176, 0x00DF, 0x00E0, 0x00E1, 0x00E2, 0x00E3, 0x00E4, 0x00E5, 0x00E6, 0x00E7, 0x00E8,
     0x00E9, 0x00EA, 0x00EB, 0x00EC, 0x00ED, 0x00EE, 0x00EF, 0x0175, 0x00F1, 0x00F2, 0x00F3, 0x00F4,
     0x00F5, 0x00F6, 0x1E6B, 0x00F8, 0x00F9, 0x00FA, 0x00FB, 0x00FC, 0x00FD, 0x0177, 0x00FF]"

definition iso8859_14_conv_to_uc32 :: "mstring \<Rightarrow> UChar32" where
  "iso8859_14_conv_to_uc32 = table_conv_to iso8859_14_unicode_map"

definition iso8859_14_conv_from_uc32 :: "UChar32 \<Rightarrow> uchar list" where
  "iso8859_14_conv_from_uc32 = table_conv_from iso8859_14_unicode_map"

subsection \<open>Charsets with a switch over single characters\<close>

definition switch_conv_to :: "(int \<times> UChar32) list \<Rightarrow> mstring \<Rightarrow> UChar32" where
  "switch_conv_to cases mchar =
     (case map_of cases (uint (mchar 0)) of Some wc \<Rightarrow> wc | None \<Rightarrow> uint (mchar 0))"

definition switch_conv_from :: "(UChar32 \<times> int) list \<Rightarrow> UChar32 \<Rightarrow> uchar list" where
  "switch_conv_from cases wc =
     (case map_of cases wc of
        Some c \<Rightarrow> [word_of_int c]
      | None \<Rightarrow> if wc \<le> 0xFF then [word_of_int wc] else [])"

definition iso8859_9_to_cases :: "(int \<times> UChar32) list" where
  "iso8859_9_to_cases =
    [(0xD0, 0x011E), (0xDD, 0x0130), (0xDE, 0x015E), (0xF0, 0x011F), (0xFD, 0x0131), (0xFE, 0x015F)]"

definition iso8859_9_from_cases :: "(UChar32 \<times> int) list" where
  "iso8859_9_from_cases =
    [(0x011E, 0xD0), (0x0130, 0xDD), (0x015E, 0xDE), (0x011F, 0xF0), (0x0131, 0xFD), (0x015F, 0xFE)]"

definition iso8859_9_conv_to_uc32 :: "mstring \<Rightarrow> UChar32" where
  "iso8859_9_conv_to_uc32 = switch_conv_to iso8859_9_to_cases"

definition iso8859_9_conv_from_uc32 :: "UChar32 \<Rightarrow> uchar list" where
  "iso8859_9_conv_from_uc32 = switch_conv_from iso8859_9_from_cases"

definition iso8859_15_to_cases :: "(int \<times> UChar32) list" where
  "iso8859_15_to_cases =
    [(0xA4, 0x20AC), (0xA6, 0x0160), (0xA8, 0x0161), (0xB4, 0x017D), (0xB8, 0x017E), (0xBC, 0x0152),
     (0xBD, 0x0153), (0xBE, 0x0178)]"

definition iso8859_15_from_cases :: "(UChar32 \<times> int) list" where
  "iso8859_15_from_cases =
    [(0x20AC, 0xA4), (0x0160, 0xA6), (0x0161, 0xA8), (0x017D, 0xB4), (0x017E, 0xB8), (0x0152, 0xBC),
     (0x0153, 0xBD), (0x0178, 0xBE)]"

definition iso8859_15_conv_to_uc32 :: "mstring \<Rightarrow> UChar32" where
  "iso8859_15_conv_to_uc32 = switch_conv_to iso8859_15_to_cases"

definition iso8859_15_conv_from_uc32 :: "UChar32 \<Rightarrow> uchar list" where
  "iso8859_15_conv_from_uc32 = switch_conv_from iso8859_15_from_cases"

definition iso8859_16_to_cases :: "(int \<times> UChar32) list" where
  "iso8859_16_to_cases =
    [(0xA1, 0x0104), (0xA2, 0x0105), (0xA3, 0x0141), (0xA4, 0x20AC), (0xA5, 0x201E), (0xA6, 0x0160),
     (0xA8, 0x0161), (0xAA, 0x0218), (0xAC, 0x0179), (0xAE, 0x017A), (0xAF, 0x017B), (0xB2, 0x010C),
     (0xB3, 0x0142), (0xB4, 0x017D), (0xB5, 0x201D), (0xB8, 0x017E), (0xB9, 0x010D), (0xBA, 0x0219),
     (0xBC, 0x0152), (0xBD, 0x0153), (0xBE, 0x0178), (0xBF, 0x017C), (0xC3, 0x0102), (0xC5, 0x0106),
     (0xD0, 0x0110), (0xD1, 0x0143), (0xD5, 0x0150), (0xD7, 0x015A), (0xD8, 0x0170), (0xDD, 0x0118),
     (0xDE, 0x021A), (0xE3, 0x0103), (0xE5, 0x0107), (0xF0, 0x0111), (0xF1, 0x0144), (0xF5, 0x0151),
     (0xF7, 0x015B), (0xF8, 0x0171), (0xFD, 0x0119), (0xFE, 0x021B)]"

definition iso8859_16_from_cases :: "(UChar32 \<times> int) list" where
  "iso8859_16_from_cases =
    [(0x0104, 0xA1), (0x0105, 0xA2), (0x0141, 0xA3), (0x20AC, 0xA4), (0x201E, 0xA5), (0x0160, 0xA6),
     (0x0161, 0xA8), (0x0218, 0xAA), (0x0179, 0xAC), (0x017A, 0xAE), (0x017B, 0xAF), (0x010C, 0xB2),
     (0x0142, 0xB3), (0x017D, 0xB4), (0x201D, 0xB5), (0x017E, 0xB8), (0x010D, 0xB9), (0x0219, 0xBA),
     (0x0152, 0xBC), (0x0153, 0xBD), (0x0178, 0xBE), (0x017C, 0xBF), (0x0102, 0xC3), (0x0106, 0xC5),
     (0x0110, 0xD0), (0x0143, 0xD1), (0x0150, 0xD5), (0x015A, 0xD7), (0x0170, 0xD8), (0x0118, 0xDD),
     (0x021A, 0xDE), (0x0103, 0xE3), (0x0107, 0xE5), (0x0111, 0xF0), (0x0144, 0xF1), (0x0151, 0xF5),
     (0x015B, 0xF7), (0x0171, 0xF8), (0x0119, 0xFD), (0x021B, 0xFE)]"

definition iso8859_16_conv_to_uc32 :: "mstring \<Rightarrow> UChar32" where
  "iso8859_16_conv_to_uc32 = switch_conv_to iso8859_16_to_cases"

definition iso8859_16_conv_from_uc32 :: "UChar32 \<Rightarrow> uchar list" where
  "iso8859_16_conv_from_uc32 = switch_conv_from iso8859_16_from_cases"

subsection \<open>Charsets with a range\<close>

definition iso8859_5_conv_to_uc32 :: "mstring \<Rightarrow> UChar32" where
  "iso8859_5_conv_to_uc32 mchar =
     (let c = uint (mchar 0)
      in if c < 0xA1 then c
         else if c = 0xAD then 0x00AD
         else if c = 0xF0 then 0x2116
         else if c = 0xFD then 0x00A7
         else c + (0x0401 - 0xA1))"

definition iso8859_5_conv_from_uc32 :: "UChar32 \<Rightarrow> uchar list" where
  "iso8859_5_conv_from_uc32 wc =
     (if wc < 0xA1 then [word_of_int wc]
      else if wc = 0x00A7 then [0xFD]
      else if wc = 0x00AD then [0xAD]
      else if wc = 0x2116 then [0xF0]
      else if wc \<ge> 0x0401 \<and> wc \<le> 0x0401 + 0xFF - 0xA1 then [word_of_int (wc - 0x0401 + 0xA1)]
      else [])"

definition iso8859_6_conv_to_uc32 :: "mstring \<Rightarrow> UChar32" where
  "iso8859_6_conv_to_uc32 mchar =
     (let c = uint (mchar 0)
      in if c \<ge> 0xC1 \<and> c \<le> 0xF2 then c - 0xC1 + 0x0621
         else if c = 0xAC then 0x060C
         else if c = 0xBB then 0x061B
         else if c = 0xBF then 0x061F
         else c)"

definition iso8859_6_conv_from_uc32 :: "UChar32 \<Rightarrow> uchar list" where
  "iso8859_6_conv_from_uc32 wc =
     (if wc = 0x060C then [0xAC]
      else if wc = 0x061B then [0xBB]
      else if wc = 0x061F then [0xBF]
      else if wc < 0xC1 then [word_of_int wc]
      else if wc \<ge> 0x0621 \<and> wc \<le> 0x0621 + 0xF2 - 0xC1 then [word_of_int (wc - 0x0621 + 0xC1)]
      else [])"

definition iso8859_7_conv_to_uc32 :: "mstring \<Rightarrow> UChar32" where
  "iso8859_7_conv_to_uc32 mchar =
     (let c = uint (mchar 0)
      in if c \<ge> 0xBE \<and> c \<le> 0xFE then c - 0xBE + 0x038E
         else if c \<ge> 0xA1 \<and> c \<le> 0xBD then iso8859_7_unicode_map ! nat (c - 0xA1)
         else c)"

definition iso8859_7_conv_from_uc32 :: "UChar32 \<Rightarrow> uchar list" where
  "iso8859_7_conv_from_uc32 wc =
     (if wc < 0xA1 then [word_of_int wc]
      else if wc \<ge> 0x038E \<and> wc \<le> 0x038E + 0xFE - 0xBE then [word_of_int (wc - 0x038E + 0xBE)]
      else case table_search iso8859_7_unicode_map 0 wc of
             Some i \<Rightarrow> [word_of_int (0xA1 + int i)]
           | None \<Rightarrow> [])"

definition iso8859_8_conv_to_uc32 :: "mstring \<Rightarrow> UChar32" where
  "iso8859_8_conv_to_uc32 mchar =
     (let c = uint (mchar 0)
      in if c \<ge> 0xE0 \<and> c \<le> 0xFA then c - 0xE0 + 0x05D0
         else if c = 0xAA then 0x00D7
         else if c = 0xBA then 0x00F7
         else if c = 0xDF then 0x2017
         else if c = 0xFD then 0x200E
         else if c = 0xFE then 0x200F
         else c)"

definition iso8859_8_conv_from_uc32 :: "UChar32 \<Rightarrow> uchar list" where
  "iso8859_8_conv_from_uc32 wc =
     (if wc = 0x00D7 then [0xAA]
      else if wc = 0x00F7 then [0xBA]
      else if wc = 0x2017 then [0xDF]
      else if wc = 0x200E then [0xFD]
      else if wc = 0x200F then [0xFE]
      else if wc < 0xE0 then [word_of_int wc]
      else if wc \<ge> 0x05D0 \<and> wc \<le> 0x05D0 + 0xFA - 0xE0 then [word_of_int (wc - 0x05D0 + 0xE0)]
      else [])"

subsection \<open>Bytes as integers\<close>

lemma uint_uchar_less [simp]: "uint (c :: uchar) < 256"
  using uint_lt2p [of c] by simp

lemma uint_word_of_int_byte: "0 \<le> i \<Longrightarrow> i < 256 \<Longrightarrow> uint (word_of_int i :: uchar) = i"
  by (simp add: uint_word_of_int)

lemma unat_less_uchar: "unat (c :: uchar) < 256"
proof -
  have "nat (uint c) < nat 256" using uint_uchar_less by (intro nat_less_iff [THEN iffD2]) auto
  then show ?thesis by simp
qed

lemma unat_as_uint: "unat (c :: uchar) = nat (uint c)"
  by simp

lemma word_of_uint: "word_of_int (uint (c :: uchar)) = c"
  by simp

text \<open>The 256 bytes, to check by evaluation what has to hold of each of them.\<close>

lemma uchars: "set (map word_of_int [0..255]) = (UNIV :: uchar set)"
proof -
  have "c \<in> word_of_int ` {0..255}" for c :: uchar
  proof (rule image_eqI [of _ _ "uint c"])
    show "uint c \<in> {0..255}" using uint_uchar_less [of c] by (simp del: uint_uchar_less)
  qed simp
  then show ?thesis by (auto simp del: upto_rec_numeral)
qed

lemma all_uchars: "list_all P (map word_of_int [0..255]) \<Longrightarrow> P (c :: uchar)"
  by (metis UNIV_I list_all_iff uchars)

subsection \<open>Tables that are charsets\<close>

lemma table_search_Some:
  "table_search xs i wc = Some k \<Longrightarrow> i \<le> k \<and> k < i + length xs \<and> xs ! (k - i) = wc"
  by (induction xs i wc rule: table_search.induct) (auto simp: nth_Cons' split: if_splits)

lemma table_search_nth:
  "distinct xs \<Longrightarrow> j < length xs \<Longrightarrow> table_search xs i (xs ! j) = Some (i + j)"
proof (induction xs arbitrary: i j)
  case (Cons x xs)
  show ?case
  proof (cases j)
    case (Suc k)
    with Cons.prems have "x \<noteq> xs ! k" by auto
    with Cons Suc show ?thesis by simp
  qed simp
qed simp

locale table_charset =
  fixes unicode_map :: "UChar32 list"
  assumes length_map: "length unicode_map = 95"
    and distinct_map: "distinct unicode_map"
    and codes: "\<forall>wc \<in> set unicode_map. 0xA1 \<le> wc"
begin

lemma from_to: "table_conv_from unicode_map (table_conv_to unicode_map m) = [m 0]"
proof (cases "uint (m 0) < 0xA1")
  case True
  then show ?thesis by (simp add: table_conv_to_def table_conv_from_def)
next
  case False
  let ?j = "unat (m 0) - 0xA1"
  have j: "?j < length unicode_map" using unat_less_uchar [of "m 0"] length_map by simp
  then have "0xA1 \<le> unicode_map ! ?j" using codes by simp
  moreover have "0xA1 + int ?j = uint (m 0)" using False uint_nat [of "m 0"] by linarith
  ultimately show ?thesis
    using False table_search_nth [OF distinct_map j, of 0] by (simp add: table_conv_to_def table_conv_from_def)
qed

lemma to_from:
  assumes "0 \<le> wc" and "table_conv_from unicode_map wc = [m 0]"
  shows "table_conv_to unicode_map m = wc"
proof (cases "wc < 0xA1")
  case True
  then have "m 0 = word_of_int wc" using assms(2) by (simp add: table_conv_from_def)
  then show ?thesis using True assms(1) by (simp add: table_conv_to_def uint_word_of_int_byte)
next
  case False
  then obtain i where i: "table_search unicode_map 0 wc = Some i" and m: "m 0 = word_of_int (0xA1 + int i)"
    using assms(2) by (auto simp: table_conv_from_def split: option.splits)
  have "i < 95" "unicode_map ! i = wc" using table_search_Some [OF i] length_map by auto
  moreover from this have "uint (m 0) = 0xA1 + int i" unfolding m by (intro uint_word_of_int_byte) auto
  moreover from this have "unat (m 0) = 0xA1 + i" unfolding unat_as_uint by simp
  ultimately show ?thesis by (simp add: table_conv_to_def)
qed

end

interpretation iso8859_2: table_charset iso8859_2_unicode_map
  by unfold_locales (simp_all add: iso8859_2_unicode_map_def)

interpretation iso8859_3: table_charset iso8859_3_unicode_map
  by unfold_locales (simp_all add: iso8859_3_unicode_map_def)

interpretation iso8859_4: table_charset iso8859_4_unicode_map
  by unfold_locales (simp_all add: iso8859_4_unicode_map_def)

interpretation iso8859_10: table_charset iso8859_10_unicode_map
  by unfold_locales (simp_all add: iso8859_10_unicode_map_def)

interpretation iso8859_11: table_charset iso8859_11_unicode_map
  by unfold_locales (simp_all add: iso8859_11_unicode_map_def)

interpretation iso8859_13: table_charset iso8859_13_unicode_map
  by unfold_locales (simp_all add: iso8859_13_unicode_map_def)

interpretation iso8859_14: table_charset iso8859_14_unicode_map
  by unfold_locales (simp_all add: iso8859_14_unicode_map_def)

subsection \<open>Switches that are charsets\<close>

locale switch_charset =
  fixes to_cases :: "(int \<times> UChar32) list" and from_cases :: "(UChar32 \<times> int) list"
  assumes converse: "from_cases = map (\<lambda>(c, wc). (wc, c)) to_cases"
    and distinct_bytes: "distinct (map fst to_cases)"
    and distinct_codes: "distinct (map snd to_cases)"
    and ranges: "\<forall>(c, wc) \<in> set to_cases. 0 \<le> c \<and> c \<le> 0xFF \<and> 0xFF < wc"
begin

lemma from_cases_iff: "map_of from_cases wc = Some c \<longleftrightarrow> map_of to_cases c = Some wc"
proof -
  have "distinct (map fst from_cases)"
    using distinct_codes by (simp add: converse comp_def case_prod_beta)
  then have "map_of from_cases wc = Some c \<longleftrightarrow> (c, wc) \<in> set to_cases"
    by (auto simp: map_of_eq_Some_iff converse)
  then show ?thesis by (simp add: map_of_eq_Some_iff [OF distinct_bytes])
qed

lemma to_cases_range: "map_of to_cases c = Some wc \<Longrightarrow> 0 \<le> c \<and> c \<le> 0xFF \<and> 0xFF < wc"
  using ranges by (auto dest: map_of_SomeD)

lemma from_cases_byte: "0 \<le> wc \<Longrightarrow> wc \<le> 0xFF \<Longrightarrow> map_of from_cases wc = None"
  by (cases "map_of from_cases wc") (auto simp: from_cases_iff dest: to_cases_range)

lemma from_to: "switch_conv_from from_cases (switch_conv_to to_cases m) = [m 0]"
proof (cases "map_of to_cases (uint (m 0))")
  case None
  have "uint (m 0) \<le> 0xFF" using uint_uchar_less [of "m 0"] by linarith
  with None show ?thesis
    by (simp add: switch_conv_to_def switch_conv_from_def from_cases_byte)
next
  case (Some wc)
  then have "map_of from_cases wc = Some (uint (m 0))" by (simp add: from_cases_iff)
  with Some show ?thesis by (simp add: switch_conv_to_def switch_conv_from_def)
qed

text \<open>The only code points that are written as a byte that reads differently are the bytes of the switch themselves.\<close>

lemma misread_iff:
  assumes "0 \<le> wc" and "switch_conv_from from_cases wc = [c]"
  shows "switch_conv_to to_cases (mem [c]) \<noteq> wc \<longleftrightarrow> wc \<in> fst ` set to_cases"
proof (cases "map_of from_cases wc")
  case (Some b)
  then have to: "map_of to_cases b = Some wc" by (simp add: from_cases_iff)
  from Some have c: "c = word_of_int b" using assms(2) by (simp add: switch_conv_from_def)
  have "uint c = b" unfolding c using to_cases_range [OF to] by (intro uint_word_of_int_byte) auto
  moreover have "wc \<notin> fst ` set to_cases" using to_cases_range [OF to] ranges by fastforce
  ultimately show ?thesis using to by (simp add: switch_conv_to_def mem_def)
next
  case None
  then have wc: "wc \<le> 0xFF" and c: "c = word_of_int wc"
    using assms(2) by (auto simp: switch_conv_from_def split: if_splits)
  have u: "uint c = wc" unfolding c using assms(1) wc by (intro uint_word_of_int_byte) auto
  show ?thesis
  proof (cases "map_of to_cases wc")
    case (Some wc')
    then have "wc \<in> fst ` set to_cases" "wc' \<noteq> wc" using wc to_cases_range [OF Some] by (force dest: map_of_SomeD)+
    then show ?thesis using Some by (simp add: switch_conv_to_def mem_def u)
  next
    case None
    then have "wc \<notin> fst ` set to_cases" by (simp add: map_of_eq_None_iff)
    with None show ?thesis by (simp add: switch_conv_to_def mem_def u)
  qed
qed

end

interpretation iso8859_9: switch_charset iso8859_9_to_cases iso8859_9_from_cases
  by unfold_locales (simp_all add: iso8859_9_to_cases_def iso8859_9_from_cases_def)

interpretation iso8859_15: switch_charset iso8859_15_to_cases iso8859_15_from_cases
  by unfold_locales (simp_all add: iso8859_15_to_cases_def iso8859_15_from_cases_def)

interpretation iso8859_16: switch_charset iso8859_16_to_cases iso8859_16_from_cases
  by unfold_locales (simp_all add: iso8859_16_to_cases_def iso8859_16_from_cases_def)

end
