(* ===== verification/Charset_DB.thy ===== *)
theory Charset_DB
  imports Charset_SB
begin

section \<open>Double byte charsets (src/font/charset.c)\<close>

text \<open>
  GB2312, GBK, BIG5, KSC5601, JISX0208 in its two encodings, GB18030 with two and four bytes,
  and JISX0201.  A failed \<open>assert\<close> is \<open>None\<close>.  The tables of code points, and the functions
  that search them for the way back, are data outside this file and are parameters: a table
  is a function of the index, a search gives the two bytes or \<open>None\<close> for NULL.
\<close>

text \<open>The value of an \<open>int\<close> that is returned as \<open>unsigned int\<close>.\<close>

definition as_unsigned :: "int \<Rightarrow> int" where
  "as_unsigned x = x mod 2 ^ 32"

definition mb_char_type :: "mstring \<Rightarrow> nat" where
  "mb_char_type mchar = MCHAR_TYPE_GENERIC"

definition db_nr_chars_in_str :: "mstring \<Rightarrow> int \<Rightarrow> int option" where
  "db_nr_chars_in_str mstr mstrlen = (if mstrlen mod 2 = 0 then Some (drop_bit 1 mstrlen) else None)"

definition db_get_next_word :: "mstring \<Rightarrow> int \<Rightarrow> (nat option \<times> wordinfo) option" where
  "db_get_next_word mstr mstrlen =
     (if mstrlen mod 2 \<noteq> 0 then None
      else if mstrlen < 2 then Some (None, no_word)
      else Some (Some 2, no_word\<lparr>wi_len := 2\<rparr>))"

subsection \<open>The loops the charsets share\<close>

text \<open>
  Each charset has its own copy of three loops which differ only in the test for the two
  bytes of a character, \<open>valid\<close>.
\<close>

definition db_len_first_char :: "(uchar \<Rightarrow> uchar \<Rightarrow> bool) \<Rightarrow> mstring \<Rightarrow> int \<Rightarrow> int" where
  "db_len_first_char valid mstr len =
     (if len < 2 then 0
      else if mstr 0 = 0 then 0
      else if valid (mstr 0) (mstr 1) then 2
      else 0)"

function db_substr_loop :: "(uchar \<Rightarrow> uchar \<Rightarrow> bool) \<Rightarrow> mstring \<Rightarrow> int \<Rightarrow> nat \<Rightarrow> int \<Rightarrow> int \<Rightarrow> int" where
  "db_substr_loop valid mstr mstrlen i left sub_len =
     (if int i < mstrlen
      then if left < 2 then sub_len
           else if mstr i = 0 then sub_len
           else if valid (mstr i) (mstr (i + 1))
           then db_substr_loop valid mstr mstrlen (i + 2) (left - 2) (sub_len + 2)
           else sub_len
      else sub_len)"
  by auto
termination by (relation "measure (\<lambda>(_, _, mstrlen, i, _, _). nat (mstrlen - int i))") auto

declare db_substr_loop.simps [simp del]

definition db_len_first_substr :: "(uchar \<Rightarrow> uchar \<Rightarrow> bool) \<Rightarrow> mstring \<Rightarrow> int \<Rightarrow> int option" where
  "db_len_first_substr valid mstr mstrlen = Some (db_substr_loop valid mstr mstrlen 0 mstrlen 0)"

function db_pos_loop :: "(uchar \<Rightarrow> uchar \<Rightarrow> bool) \<Rightarrow> mstring \<Rightarrow> nat \<Rightarrow> int \<Rightarrow> int" where
  "db_pos_loop valid mstr i left =
     (if left \<noteq> 0
      then if left < 2 then -1
           else if mstr i = 0 then -1
           else if valid (mstr i) (mstr (i + 1)) then int i
           else db_pos_loop valid mstr (i + 1) (left - 1)
      else -1)"
  by auto
termination by (relation "measure (\<lambda>(_, _, _, left). nat left)") auto

declare db_pos_loop.simps [simp del]

definition db_pos_first_char :: "(uchar \<Rightarrow> uchar \<Rightarrow> bool) \<Rightarrow> mstring \<Rightarrow> int \<Rightarrow> int option" where
  "db_pos_first_char valid mstr mstrlen = Some (db_pos_loop valid mstr 0 mstrlen)"

text \<open>The way back through a search for the 16 bits of the code point.\<close>

definition db_conv_from :: "(int \<Rightarrow> (uchar \<times> uchar) option) \<Rightarrow> UChar32 \<Rightarrow> uchar list" where
  "db_conv_from map_uc16 wc =
     (if wc > 0xFFFF then []
      else case map_uc16 (wc mod 2 ^ 16) of Some (b0, b1) \<Rightarrow> [b0, b1] | None \<Rightarrow> [])"

text \<open>A code point from a table in which 0 stands for an unassigned character.\<close>

definition db_conv_to :: "(int \<Rightarrow> UChar32) \<Rightarrow> (mstring \<Rightarrow> int) \<Rightarrow> mstring \<Rightarrow> UChar32" where
  "db_conv_to unicode_map offset mchar =
     (let ucs_code = unicode_map (offset mchar) in if ucs_code = 0 then 63 else ucs_code)"

subsection \<open>GB2312\<close>

definition IS_GB2312_CHAR :: "uchar \<Rightarrow> uchar \<Rightarrow> bool" where
  "IS_GB2312_CHAR ch1 ch2 \<longleftrightarrow>
     ((uint ch1 \<ge> 0xA1 \<and> uint ch1 \<le> 0xA9) \<or> (uint ch1 \<ge> 0xB0 \<and> uint ch1 \<le> 0xF7))
     \<and> uint ch2 \<ge> 0xA1 \<and> uint ch2 \<le> 0xFE"

definition gb2312_0_len_first_char :: "mstring \<Rightarrow> int \<Rightarrow> int" where
  "gb2312_0_len_first_char = db_len_first_char IS_GB2312_CHAR"

definition gb2312_0_char_offset :: "mstring \<Rightarrow> int" where
  "gb2312_0_char_offset mchar =
     (let area = uint (mchar 0) - 0xA1
      in if area < 9 then as_unsigned (area * 94 + uint (mchar 1) - 0xA1)
         else if area \<ge> 15 then as_unsigned ((area - 6) * 94 + uint (mchar 1) - 0xA1)
         else 0)"

definition gb2312_0_len_first_substr :: "mstring \<Rightarrow> int \<Rightarrow> int option" where
  "gb2312_0_len_first_substr = db_len_first_substr IS_GB2312_CHAR"

definition gb2312_0_pos_first_char :: "mstring \<Rightarrow> int \<Rightarrow> int option" where
  "gb2312_0_pos_first_char = db_pos_first_char IS_GB2312_CHAR"

definition gb2312_0_conv_to_uc32 :: "(int \<Rightarrow> UChar32) \<Rightarrow> mstring \<Rightarrow> UChar32" where
  "gb2312_0_conv_to_uc32 gbunicode_map mchar = gbunicode_map (gb2312_0_char_offset mchar)"

definition gb2312_0_conv_from_uc32 :: "(int \<Rightarrow> (uchar \<times> uchar) option) \<Rightarrow> UChar32 \<Rightarrow> uchar list" where
  "gb2312_0_conv_from_uc32 map_uc16_to_gb = db_conv_from map_uc16_to_gb"

subsection \<open>GBK\<close>

definition IS_GBK_CHAR :: "uchar \<Rightarrow> uchar \<Rightarrow> bool" where
  "IS_GBK_CHAR ch1 ch2 \<longleftrightarrow>
     uint ch1 \<ge> 0x81 \<and> uint ch1 \<le> 0xFE \<and> uint ch2 \<ge> 0x40 \<and> uint ch2 \<le> 0xFE \<and> uint ch2 \<noteq> 0x7F"

definition gbk_len_first_char :: "mstring \<Rightarrow> int \<Rightarrow> int" where
  "gbk_len_first_char = db_len_first_char IS_GBK_CHAR"

definition gbk_char_offset :: "mstring \<Rightarrow> int" where
  "gbk_char_offset mchar = (if uint (mchar 1) > 0x7F then 0 else 1)"

definition gbk_len_first_substr :: "mstring \<Rightarrow> int \<Rightarrow> int option" where
  "gbk_len_first_substr = db_len_first_substr IS_GBK_CHAR"

definition gbk_pos_first_char :: "mstring \<Rightarrow> int \<Rightarrow> int option" where
  "gbk_pos_first_char = db_pos_first_char IS_GBK_CHAR"

definition gbk_conv_to_uc32 :: "(int \<Rightarrow> UChar32) \<Rightarrow> mstring \<Rightarrow> UChar32" where
  "gbk_conv_to_uc32 gbkunicode_map mchar =
     (if uint (mchar 1) > 0x7F
      then gbkunicode_map ((uint (mchar 0) - 0x81) * 190 + uint (mchar 1) - 0x41)
      else gbkunicode_map ((uint (mchar 0) - 0x81) * 190 + uint (mchar 1) - 0x40))"

definition gbk_conv_from_uc32 :: "(int \<Rightarrow> (uchar \<times> uchar) option) \<Rightarrow> UChar32 \<Rightarrow> uchar list" where
  "gbk_conv_from_uc32 map_uc16_to_gbk = db_conv_from map_uc16_to_gbk"

subsection \<open>BIG5\<close>

definition is_big5_char :: "uchar \<Rightarrow> uchar \<Rightarrow> bool" where
  "is_big5_char ch1 ch2 \<longleftrightarrow>
     uint ch1 \<ge> 0xA1 \<and> uint ch1 \<le> 0xFE
     \<and> ((uint ch2 \<ge> 0x40 \<and> uint ch2 \<le> 0x7E) \<or> (uint ch2 \<ge> 0xA1 \<and> uint ch2 \<le> 0xFE))"

definition big5_len_first_char :: "mstring \<Rightarrow> int \<Rightarrow> int" where
  "big5_len_first_char = db_len_first_char is_big5_char"

definition big5_char_offset :: "mstring \<Rightarrow> int" where
  "big5_char_offset mchar =
     (if mchar 1 AND 0x80 \<noteq> 0
      then as_unsigned ((uint (mchar 0) - 0xA1) * 94 + uint (mchar 1) - 0xA1)
      else as_unsigned (94 * 94 + (uint (mchar 0) - 0xA1) * 63 + (uint (mchar 1) - 0x40)))"

definition big5_len_first_substr :: "mstring \<Rightarrow> int \<Rightarrow> int option" where
  "big5_len_first_substr = db_len_first_substr is_big5_char"

definition big5_pos_first_char :: "mstring \<Rightarrow> int \<Rightarrow> int option" where
  "big5_pos_first_char = db_pos_first_char is_big5_char"

definition big5_conv_to_uc32 :: "(int \<Rightarrow> UChar32) \<Rightarrow> mstring \<Rightarrow> UChar32" where
  "big5_conv_to_uc32 big5_unicode_map = db_conv_to big5_unicode_map big5_char_offset"

definition big5_conv_from_uc32 :: "(int \<Rightarrow> (uchar \<times> uchar) option) \<Rightarrow> UChar32 \<Rightarrow> uchar list" where
  "big5_conv_from_uc32 map_uc16_to_big5 = db_conv_from map_uc16_to_big5"

subsection \<open>KSC5601\<close>

definition is_ksc5601_char :: "uchar \<Rightarrow> uchar \<Rightarrow> bool" where
  "is_ksc5601_char ch1 ch2 \<longleftrightarrow>
     uint ch1 \<ge> 0xA1 \<and> uint ch1 \<le> 0xFE \<and> uint ch2 \<ge> 0xA1 \<and> uint ch2 \<le> 0xFE"

definition ksc5601_0_len_first_char :: "mstring \<Rightarrow> int \<Rightarrow> int" where
  "ksc5601_0_len_first_char = db_len_first_char is_ksc5601_char"

definition ksc5601_0_char_offset :: "mstring \<Rightarrow> int" where
  "ksc5601_0_char_offset mchar = as_unsigned ((uint (mchar 0) - 0xA1) * 94 + uint (mchar 1) - 0xA1)"

definition ksc5601_0_len_first_substr :: "mstring \<Rightarrow> int \<Rightarrow> int option" where
  "ksc5601_0_len_first_substr = db_len_first_substr is_ksc5601_char"

definition ksc5601_0_pos_first_char :: "mstring \<Rightarrow> int \<Rightarrow> int option" where
  "ksc5601_0_pos_first_char = db_pos_first_char is_ksc5601_char"

definition ksc5601_0_conv_to_uc32 :: "(int \<Rightarrow> UChar32) \<Rightarrow> mstring \<Rightarrow> UChar32" where
  "ksc5601_0_conv_to_uc32 ksc5601_0_unicode_map = db_conv_to ksc5601_0_unicode_map ksc5601_0_char_offset"

definition ksc5601_0_conv_from_uc32 :: "UChar32 \<Rightarrow> uchar list" where
  "ksc5601_0_conv_from_uc32 wc = []"

subsection \<open>JISX0208 in EUC\<close>

definition is_jisx0208_0_char :: "uchar \<Rightarrow> uchar \<Rightarrow> bool" where
  "is_jisx0208_0_char ch1 ch2 \<longleftrightarrow>
     uint ch1 \<ge> 0xA1 \<and> uint ch1 \<le> 0xFE \<and> uint ch2 \<ge> 0xA1 \<and> uint ch2 \<le> 0xFE"

definition jisx0208_0_len_first_char :: "mstring \<Rightarrow> int \<Rightarrow> int" where
  "jisx0208_0_len_first_char = db_len_first_char is_jisx0208_0_char"

definition jisx0208_0_char_offset :: "mstring \<Rightarrow> int" where
  "jisx0208_0_char_offset mchar = as_unsigned ((uint (mchar 0) - 0xA1) * 94 + uint (mchar 1) - 0xA1)"

definition jisx0208_0_len_first_substr :: "mstring \<Rightarrow> int \<Rightarrow> int option" where
  "jisx0208_0_len_first_substr = db_len_first_substr is_jisx0208_0_char"

definition jisx0208_0_pos_first_char :: "mstring \<Rightarrow> int \<Rightarrow> int option" where
  "jisx0208_0_pos_first_char = db_pos_first_char is_jisx0208_0_char"

definition jisx0208_0_conv_to_uc32 :: "(int \<Rightarrow> UChar32) \<Rightarrow> mstring \<Rightarrow> UChar32" where
  "jisx0208_0_conv_to_uc32 jisx0208_0_unicode_map = db_conv_to jisx0208_0_unicode_map jisx0208_0_char_offset"

definition jisx0208_0_conv_from_uc32 :: "UChar32 \<Rightarrow> uchar list" where
  "jisx0208_0_conv_from_uc32 wc = []"

subsection \<open>JISX0208 in Shift-JIS\<close>

definition is_jisx0208_1_char :: "uchar \<Rightarrow> uchar \<Rightarrow> bool" where
  "is_jisx0208_1_char ch1 ch2 \<longleftrightarrow>
     ((uint ch1 \<ge> 0x81 \<and> uint ch1 \<le> 0x9F) \<or> (uint ch1 \<ge> 0xE0 \<and> uint ch1 \<le> 0xEF))
     \<and> ((uint ch2 \<ge> 0x40 \<and> uint ch2 \<le> 0x7E) \<or> (uint ch2 \<ge> 0x80 \<and> uint ch2 \<le> 0xFC))"

definition jisx0208_1_len_first_char :: "mstring \<Rightarrow> int \<Rightarrow> int" where
  "jisx0208_1_len_first_char = db_len_first_char is_jisx0208_1_char"

text \<open>The row and the cell are bytes, so the arithmetic on them wraps.\<close>

definition jisx0208_1_char_offset :: "mstring \<Rightarrow> int" where
  "jisx0208_1_char_offset mchar =
     (let ch1 = uint (mchar 0);
          ch2 = uint (mchar 1);
          adjust = (if ch2 < 159 then 1 else 0);
          rowOffset = (if ch1 < 160 then 112 else 176);
          cellOffset = (if adjust \<noteq> 0 then if ch2 > 127 then 32 else 31 else 126);
          ch1 = ((ch1 - rowOffset) * 2 - adjust) mod 256;
          ch2 = (ch2 - cellOffset) mod 256;
          ch1 = (ch1 + 128) mod 256;
          ch2 = (ch2 + 128) mod 256
      in as_unsigned ((ch1 - 0xA1) * 94 + ch2 - 0xA1))"

definition jisx0208_1_len_first_substr :: "mstring \<Rightarrow> int \<Rightarrow> int option" where
  "jisx0208_1_len_first_substr = db_len_first_substr is_jisx0208_1_char"

definition jisx0208_1_pos_first_char :: "mstring \<Rightarrow> int \<Rightarrow> int option" where
  "jisx0208_1_pos_first_char = db_pos_first_char is_jisx0208_1_char"

definition jisx0208_1_conv_to_uc32 :: "(int \<Rightarrow> UChar32) \<Rightarrow> mstring \<Rightarrow> UChar32" where
  "jisx0208_1_conv_to_uc32 jisx0208_1_unicode_map = db_conv_to jisx0208_1_unicode_map jisx0208_1_char_offset"

definition jisx0208_1_conv_from_uc32 :: "UChar32 \<Rightarrow> uchar list" where
  "jisx0208_1_conv_from_uc32 wc = []"

subsection \<open>JISX0201\<close>

definition jisx0201_0_len_first_char :: "mstring \<Rightarrow> int \<Rightarrow> int" where
  "jisx0201_0_len_first_char mstr len =
     (if mstr 0 = 0 then 0
      else if uint (mstr 0) = 0x8E \<and> uint (mstr 1) \<ge> 0xA1 \<and> uint (mstr 1) \<le> 0xDF then 2
      else 1)"

definition jisx0201_0_char_offset :: "mstring \<Rightarrow> int" where
  "jisx0201_0_char_offset mchar = (if uint (mchar 0) = 0x8E then uint (mchar 1) else uint (mchar 0))"

function jisx0201_0_count :: "mstring \<Rightarrow> nat \<Rightarrow> int \<Rightarrow> int \<Rightarrow> int" where
  "jisx0201_0_count mstr i left count =
     (if left > 0
      then if mstr i = 0 then count
           else if uint (mstr i) = 0x8E \<and> uint (mstr (i + 1)) \<ge> 0xA1 \<and> uint (mstr (i + 1)) \<le> 0xDF
           then jisx0201_0_count mstr (i + 2) (left - 2) (count + 1)
           else jisx0201_0_count mstr (i + 1) (left - 1) (count + 1)
      else count)"
  by auto
termination by (relation "measure (\<lambda>(_, _, left, _). nat left)") auto

declare jisx0201_0_count.simps [simp del]

definition jisx0201_0_nr_chars_in_str :: "mstring \<Rightarrow> int \<Rightarrow> int option" where
  "jisx0201_0_nr_chars_in_str mstr mstrlen = Some (jisx0201_0_count mstr 0 mstrlen 0)"

definition jisx0201_0_conv_to_uc32 :: "mstring \<Rightarrow> UChar32" where
  "jisx0201_0_conv_to_uc32 mchar =
     (let ch1 = uint (mchar 0); ch2 = uint (mchar 1)
      in if ch1 = 0x8E \<and> ch2 \<ge> 0xA1 \<and> ch2 \<le> 0xDF then 0xFF61 + ch2 - 0xA1
         else if ch1 = 0x5C then 0x00A5
         else if ch1 = 0x80 then 0x005C
         else ch1)"

definition jisx0201_0_conv_from_uc32 :: "UChar32 \<Rightarrow> uchar list" where
  "jisx0201_0_conv_from_uc32 wc = []"

definition jisx0201_1_conv_to_uc32 :: "mstring \<Rightarrow> UChar32" where
  "jisx0201_1_conv_to_uc32 mchar =
     (let ch1 = uint (mchar 0)
      in if ch1 \<ge> 0xA1 \<and> ch1 \<le> 0xDF then 0xFF61 + ch1 - 0xA1
         else if ch1 = 0x5C then 0x00A5
         else if ch1 = 0x80 then 0x005C
         else ch1)"

definition jisx0201_1_conv_from_uc32 :: "UChar32 \<Rightarrow> uchar list" where
  "jisx0201_1_conv_from_uc32 wc =
     (if wc < 0xA1 then [word_of_int wc]
      else if wc = 0x00A5 then [0x5C]
      else if wc = 0x005C then [0x80]
      else if wc \<ge> 0xFF61 \<and> wc \<le> 0xFF61 + 0xDF - 0xA1 then [word_of_int (wc - 0xFF61 + 0xA1)]
      else [])"

subsection \<open>GB18030\<close>

definition is_gb18030_2 :: "uchar \<Rightarrow> uchar \<Rightarrow> bool" where
  "is_gb18030_2 ch1 ch2 \<longleftrightarrow>
     uint ch1 \<ge> 0x81 \<and> uint ch1 \<le> 0xFE \<and> uint ch2 \<ge> 0x40 \<and> uint ch2 \<le> 0xFE \<and> uint ch2 \<noteq> 0x7F"

definition is_gb18030_4 :: "uchar \<Rightarrow> uchar \<Rightarrow> uchar \<Rightarrow> uchar \<Rightarrow> bool" where
  "is_gb18030_4 ch1 ch2 ch3 ch4 \<longleftrightarrow>
     uint ch2 \<ge> 0x30 \<and> uint ch2 \<le> 0x39 \<and> uint ch4 \<ge> 0x30 \<and> uint ch4 \<le> 0x39
     \<and> uint ch1 \<ge> 0x81 \<and> uint ch1 \<le> 0xFE \<and> uint ch3 \<ge> 0x81 \<and> uint ch3 \<le> 0xFE"

definition gb18030_0_len_first_char :: "mstring \<Rightarrow> int \<Rightarrow> int" where
  "gb18030_0_len_first_char mstr len =
     (if len < 2 then 0
      else if mstr 0 = 0 then 0
      else if is_gb18030_2 (mstr 0) (mstr 1) then 2
      else if len < 4 then 0
      else if is_gb18030_4 (mstr 0) (mstr 1) (mstr 2) (mstr 3) then 4
      else 0)"

definition gb18030_0_char_offset :: "mstring \<Rightarrow> int" where
  "gb18030_0_char_offset mchar =
     (if uint (mchar 1) \<ge> 0x40
      then as_unsigned ((uint (mchar 0) - 0x81) * 192 + (uint (mchar 1) - 0x40))
      else as_unsigned (126 * 192 +
             ((uint (mchar 0) - 0x81) * 12600 + (uint (mchar 1) - 0x30) * 1260 +
              (uint (mchar 2) - 0x81) * 10 + (uint (mchar 3) - 0x30))))"

text \<open>A four byte sequence that is not a character neither shortens \<open>left\<close> nor ends the loop.\<close>

function gb18030_0_substr_loop :: "mstring \<Rightarrow> int \<Rightarrow> nat \<Rightarrow> int \<Rightarrow> int \<Rightarrow> int" where
  "gb18030_0_substr_loop mstr mstrlen i left sub_len =
     (if int i < mstrlen
      then if left < 2 then sub_len
           else if mstr i = 0 then sub_len
           else if is_gb18030_2 (mstr i) (mstr (i + 1))
           then gb18030_0_substr_loop mstr mstrlen (i + 2) (left - 2) (sub_len + 2)
           else if left \<ge> 4
           then if is_gb18030_4 (mstr i) (mstr (i + 1)) (mstr (i + 2)) (mstr (i + 3))
                then gb18030_0_substr_loop mstr mstrlen (i + 4) (left - 4) (sub_len + 4)
                else gb18030_0_substr_loop mstr mstrlen (i + 2) left sub_len
           else sub_len
      else sub_len)"
  by auto
termination by (relation "measure (\<lambda>(_, mstrlen, i, _, _). nat (mstrlen - int i))") auto

declare gb18030_0_substr_loop.simps [simp del]

definition gb18030_0_len_first_substr :: "mstring \<Rightarrow> int \<Rightarrow> int option" where
  "gb18030_0_len_first_substr mstr mstrlen = Some (gb18030_0_substr_loop mstr mstrlen 0 mstrlen 0)"

function gb18030_0_pos_loop :: "mstring \<Rightarrow> nat \<Rightarrow> int \<Rightarrow> int" where
  "gb18030_0_pos_loop mstr i left =
     (if left \<noteq> 0
      then if left < 2 then -1
           else if mstr i = 0 then -1
           else if is_gb18030_2 (mstr i) (mstr (i + 1)) then int i
           else if left < 4 then -1
           else if is_gb18030_4 (mstr i) (mstr (i + 1)) (mstr (i + 2)) (mstr (i + 3)) then int i
           else gb18030_0_pos_loop mstr (i + 1) (left - 1)
      else -1)"
  by auto
termination by (relation "measure (\<lambda>(_, _, left). nat left)") auto

declare gb18030_0_pos_loop.simps [simp del]

definition gb18030_0_pos_first_char :: "mstring \<Rightarrow> int \<Rightarrow> int option" where
  "gb18030_0_pos_first_char mstr mstrlen = Some (gb18030_0_pos_loop mstr 0 mstrlen)"

function gb18030_0_count :: "mstring \<Rightarrow> nat \<Rightarrow> int \<Rightarrow> int \<Rightarrow> int" where
  "gb18030_0_count mstr i left n =
     (if left \<noteq> 0
      then if left \<ge> 2 \<and> uint (mstr (i + 1)) \<ge> 0x40
           then gb18030_0_count mstr (i + 2) (left - 2) (n + 1)
           else if left \<ge> 4
           then gb18030_0_count mstr (i + 4) (left - 4) (n + 1)
           else n
      else n)"
  by auto
termination by (relation "measure (\<lambda>(_, _, left, _). nat left)") auto

declare gb18030_0_count.simps [simp del]

definition gb18030_0_nr_chars_in_str :: "mstring \<Rightarrow> int \<Rightarrow> int option" where
  "gb18030_0_nr_chars_in_str mstr mstrlen =
     (if mstrlen mod 2 = 0 then Some (gb18030_0_count mstr 0 mstrlen 0) else None)"

definition gb18030_0_get_next_word :: "mstring \<Rightarrow> int \<Rightarrow> (nat option \<times> wordinfo) option" where
  "gb18030_0_get_next_word mstr mstrlen =
     (if mstrlen mod 2 \<noteq> 0 then None
      else if mstrlen < 2 then Some (None, no_word)
      else let w = no_word\<lparr>wi_len := if uint (mstr 1) \<ge> 0x40 then 2 else if mstrlen \<ge> 4 then 4 else 0\<rparr>
           in Some (Some (wi_len w), w))"

definition gb18030_0_conv_to_uc32 :: "(int \<Rightarrow> UChar32) \<Rightarrow> mstring \<Rightarrow> UChar32" where
  "gb18030_0_conv_to_uc32 gb18030_0_unicode_map mchar =
     (if uint (mchar 0) \<ge> 0x90 \<and> uint (mchar 1) < 0x40
      then (uint (mchar 0) - 144) * 12600 + (uint (mchar 1) - 48) * 1260
           + (uint (mchar 2) - 129) * 10 + (uint (mchar 3) - 48) + 65536
      else gb18030_0_unicode_map (gb18030_0_char_offset mchar))"

definition gb18030_0_conv_from_uc32 :: "(UChar32 \<Rightarrow> uchar list) \<Rightarrow> UChar32 \<Rightarrow> uchar list" where
  "gb18030_0_conv_from_uc32 map_ucs_to_gb18030 wc =
     (if wc > 0x10FFFF then []
      else if wc \<ge> 0x10000 \<and> wc \<le> 0x10FFFF
      then let m1 = (wc - 65536) div 12600;
               n1 = (wc - 65536) mod 12600;
               m2 = n1 div 1260;
               n2 = n1 mod 1260;
               m3 = n2 div 10;
               n3 = n2 mod 10
           in [word_of_int (m1 + 144), word_of_int (m2 + 48), word_of_int (m3 + 129), word_of_int (n3 + 48)]
      else map_ucs_to_gb18030 wc)"

end
