(* ===== verification/Charset_UTF.thy ===== *)
theory Charset_UTF
  imports Charset_DB
begin

section \<open>UTF-8 and UTF-16 (src/font/charset.c)\<close>

text \<open>
  The loops that count characters, and the search for the first character in UTF-16, may
  run for ever: they are partial functions and \<open>None\<close> is that they do not return.  The other
  loops are total.  The two byte orders of UTF-16 have the same code with the bytes swapped,
  so their loops take the operations on one character as parameters.  A shift out of the 32
  bits of an \<open>int\<close>, which only the lead bytes \<open>0xFE\<close> and \<open>0xFF\<close> reach, is taken modulo \<open>2 ^ 32\<close>.
\<close>

subsection \<open>One character of UTF-8\<close>

text \<open>\<open>while (c & (0x80 >> n)) n++\<close>\<close>

function lead_ones :: "int \<Rightarrow> nat \<Rightarrow> nat" where
  "lead_ones c n = (if c AND drop_bit n 0x80 \<noteq> 0 then lead_ones c (n + 1) else n)"
  by auto
termination
proof (relation "measure (\<lambda>(_, n). 8 - n)")
  fix c :: int and n
  assume nz: "c AND drop_bit n 0x80 \<noteq> 0"
  have "n < 8"
  proof (rule ccontr)
    assume "\<not> n < 8"
    then have "drop_bit n (0x80 :: int) = drop_bit (n - 8) (drop_bit 8 0x80)" by (simp add: drop_bit_drop_bit del: drop_bit_numeral_bit0)
    then show False using nz by simp
  qed
  then show "((c, n + 1), (c, n)) \<in> measure (\<lambda>(_, n). 8 - n)" by simp
qed simp

declare lead_ones.simps [simp del]

text \<open>The loop over the \<open>k\<close> bytes behind the current one, which must all be continuation bytes.\<close>

fun utf8_tail_ok :: "mstring \<Rightarrow> nat \<Rightarrow> bool" where
  "utf8_tail_ok mstr 0 = True"
| "utf8_tail_ok mstr (Suc k) =
     (let t = uint (mstr 0)
      in if t AND 0x80 = 0 \<or> t AND 0x40 \<noteq> 0 then False else utf8_tail_ok (advance mstr 1) k)"

definition utf8_len_first_char :: "mstring \<Rightarrow> int \<Rightarrow> nat" where
  "utf8_len_first_char mstr len =
     (let c = uint (mstr 0)
      in if c < 0x80 then 1
         else let n = lead_ones c 1
              in if int n > len then 0
                 else if utf8_tail_ok (advance mstr 1) (n - 1) then n else 0)"

fun utf8_conv_loop :: "mstring \<Rightarrow> nat \<Rightarrow> UChar32 \<Rightarrow> UChar32" where
  "utf8_conv_loop mchar 0 wc = wc"
| "utf8_conv_loop mchar (Suc k) wc =
     utf8_conv_loop (advance mchar 1) k
       (signed_take_bit 31 (push_bit 6 wc) OR (uint (mchar 0) AND 0x3F))"

definition utf8_conv_to_uc32 :: "mstring \<Rightarrow> UChar32" where
  "utf8_conv_to_uc32 mchar =
     (let wc = uint (mchar 0)
      in if wc AND 0x80 \<noteq> 0
         then let n = lead_ones wc 1
              in utf8_conv_loop (advance mchar 1) (n - 1) (wc AND (push_bit (8 - n) 1 - 1))
         else wc)"

definition utf8_char_offset :: "mstring \<Rightarrow> int" where
  "utf8_char_offset mchar = as_unsigned (utf8_conv_to_uc32 mchar)"

definition utf8_char_type :: "mstring \<Rightarrow> nat" where
  "utf8_char_type mchar = (if uint (mchar 0) < 0x80 then sb_char_type mchar else MCHAR_TYPE_GENERIC)"

text \<open>The switch that falls through from the last byte to the first.\<close>

fun utf8_fill :: "nat \<Rightarrow> UChar32 \<Rightarrow> int \<Rightarrow> uchar list \<Rightarrow> uchar list" where
  "utf8_fill 0 wc lead bs = word_of_int (wc OR lead) # bs"
| "utf8_fill (Suc n) wc lead bs =
     utf8_fill n (drop_bit 6 wc) lead (word_of_int ((wc AND 0x3F) OR 0x80) # bs)"

definition utf8_conv_from_uc32 :: "UChar32 \<Rightarrow> uchar list" where
  "utf8_conv_from_uc32 wc =
     (let (lead, len) =
            (if wc < 0x80 then (0, 1)
             else if wc < 0x800 then (0xC0, 2)
             else if wc < 0x10000 then (0xE0, 3)
             else if wc < 0x200000 then (0xF0, 4)
             else if wc < 0x400000 then (0xF8, 5)
             else (0xFC, 6))
      in utf8_fill (len - 1) wc lead [])"

subsection \<open>Loops over the characters\<close>

text \<open>\<open>while (left >= 0)\<close>: the count of the characters, the same for the three encodings.\<close>

partial_function (option) count_loop :: "(mstring \<Rightarrow> int \<Rightarrow> nat) \<Rightarrow> mstring \<Rightarrow> int \<Rightarrow> int \<Rightarrow> int option" where
  "count_loop len_first mstr left n =
     (if left \<ge> 0
      then let charlen = len_first mstr left
           in count_loop len_first (advance mstr charlen) (left - int charlen)
                (if charlen > 0 then n + 1 else n)
      else Some n)"

function first_substr_loop :: "(mstring \<Rightarrow> int \<Rightarrow> nat) \<Rightarrow> mstring \<Rightarrow> int \<Rightarrow> int \<Rightarrow> int" where
  "first_substr_loop len_first mstr mstrlen sub_len =
     (if mstrlen > 0
      then if len_first mstr mstrlen = 0 then sub_len
           else first_substr_loop len_first (advance mstr (len_first mstr mstrlen))
                  (mstrlen - int (len_first mstr mstrlen)) (sub_len + int (len_first mstr mstrlen))
      else sub_len)"
  by auto
termination by (relation "measure (\<lambda>(_, _, mstrlen, _). nat mstrlen)") auto

declare first_substr_loop.simps [simp del]

definition utf8_nr_chars_in_str :: "mstring \<Rightarrow> int \<Rightarrow> int option" where
  "utf8_nr_chars_in_str mstr mstrlen = count_loop utf8_len_first_char mstr mstrlen 0"

definition utf8_len_first_substr :: "mstring \<Rightarrow> int \<Rightarrow> int option" where
  "utf8_len_first_substr mstr mstrlen = Some (first_substr_loop utf8_len_first_char mstr mstrlen 0)"

text \<open>The loop of \<open>utf8_get_next_word\<close> with the position of \<open>mchar\<close>.\<close>

function utf8_word_loop :: "mstring \<Rightarrow> int \<Rightarrow> wordinfo \<Rightarrow> wordinfo" where
  "utf8_word_loop mchar mstrlen w =
     (if mstrlen > 0
      then let ch_len = utf8_len_first_char mchar mstrlen; wc = utf8_conv_to_uc32 mchar
           in if ch_len = 0 then w
              else if wc > 0x0FFF
              then if wi_len w \<noteq> 0 then w else w\<lparr>wi_len := ch_len\<rparr>
              else if is_delimiter (mchar 0)
              then if wi_delimiter w = 0
                   then utf8_word_loop (advance mchar ch_len) (mstrlen - int ch_len)
                          (w\<lparr>wi_delimiter := mchar 0, wi_nr_delimiters := wi_nr_delimiters w + 1\<rparr>)
                   else if wi_delimiter w = mchar 0
                   then utf8_word_loop (advance mchar ch_len) (mstrlen - int ch_len)
                          (w\<lparr>wi_nr_delimiters := wi_nr_delimiters w + 1\<rparr>)
                   else w
              else if wi_delimiter w \<noteq> 0 then w
              else utf8_word_loop (advance mchar ch_len) (mstrlen - int ch_len)
                     (w\<lparr>wi_len := wi_len w + ch_len\<rparr>)
      else w)"
  by auto
termination by (relation "measure (\<lambda>(_, mstrlen, _). nat mstrlen)") auto

declare utf8_word_loop.simps [simp del]

definition utf8_get_next_word :: "mstring \<Rightarrow> int \<Rightarrow> nat option \<times> wordinfo" where
  "utf8_get_next_word mstr mstrlen =
     (if mstrlen = 0 then (None, no_word)
      else let w = utf8_word_loop mstr mstrlen no_word in (Some (word_end w), w))"

function utf8_pos_loop :: "mstring \<Rightarrow> int \<Rightarrow> int \<Rightarrow> int" where
  "utf8_pos_loop mstr mstrlen pos =
     (if mstrlen > 0
      then let ch_len = utf8_len_first_char mstr mstrlen
           in if ch_len = 0 then -1
              else if ch_len > 0 then pos
              else utf8_pos_loop (advance mstr ch_len) (mstrlen - int ch_len) (pos + int ch_len)
      else -1)"
  by auto
termination by (relation "measure (\<lambda>(_, mstrlen, _). nat mstrlen)") auto

declare utf8_pos_loop.simps [simp del]

definition utf8_pos_first_char :: "mstring \<Rightarrow> int \<Rightarrow> int option" where
  "utf8_pos_first_char mstr mstrlen = Some (utf8_pos_loop mstr mstrlen 0)"

subsection \<open>UTF-16: operations the byte orders share\<close>

definition MAKEWORD :: "uchar \<Rightarrow> uchar \<Rightarrow> int" where
  "MAKEWORD low high = uint low OR push_bit 8 (uint high)"

definition LOBYTE :: "int \<Rightarrow> uchar" where
  "LOBYTE w = word_of_int w"

definition HIBYTE :: "int \<Rightarrow> uchar" where
  "HIBYTE w = word_of_int (drop_bit 8 (w AND 0xFFFF) AND 0xFF)"

partial_function (option) utf16_pos_loop :: "(mstring \<Rightarrow> int \<Rightarrow> nat) \<Rightarrow> mstring \<Rightarrow> int \<Rightarrow> int \<Rightarrow> int option" where
  "utf16_pos_loop len_first mstr mstrlen pos =
     (if mstrlen > 0
      then let ch_len = len_first mstr mstrlen
           in if ch_len > 0 then Some pos
              else utf16_pos_loop len_first (advance mstr ch_len) (mstrlen - int ch_len) (pos + int ch_len)
      else Some (-1))"

function utf16_word_loop ::
  "(mstring \<Rightarrow> int \<Rightarrow> nat) \<Rightarrow> (mstring \<Rightarrow> UChar32) \<Rightarrow> mstring \<Rightarrow> int \<Rightarrow> wordinfo \<Rightarrow> wordinfo" where
  "utf16_word_loop len_first conv_to mchar mstrlen w =
     (if mstrlen > 0
      then let ch_len = len_first mchar mstrlen; wc = conv_to mchar
           in if ch_len = 0 then w
              else if wc > 0x0FFF
              then if wi_len w \<noteq> 0 then w else w\<lparr>wi_len := ch_len\<rparr>
              else if wc = 32 \<or> wc = 9 \<or> wc = 10 \<or> wc = 13
              then if wi_delimiter w = 0
                   then utf16_word_loop len_first conv_to (advance mchar ch_len) (mstrlen - int ch_len)
                          (w\<lparr>wi_delimiter := word_of_int wc, wi_nr_delimiters := wi_nr_delimiters w + ch_len\<rparr>)
                   else if wi_delimiter w = word_of_int wc
                   then utf16_word_loop len_first conv_to (advance mchar ch_len) (mstrlen - int ch_len)
                          (w\<lparr>wi_nr_delimiters := wi_nr_delimiters w + ch_len\<rparr>)
                   else w
              else if wi_delimiter w \<noteq> 0 then w
              else utf16_word_loop len_first conv_to (advance mchar ch_len) (mstrlen - int ch_len)
                     (w\<lparr>wi_len := wi_len w + ch_len\<rparr>)
      else w)"
  by auto
termination by (relation "measure (\<lambda>(_, _, _, mstrlen, _). nat mstrlen)") auto

declare utf16_word_loop.simps [simp del]

subsection \<open>UTF-16, low byte first\<close>

definition utf16le_len_first_char :: "mstring \<Rightarrow> int \<Rightarrow> nat" where
  "utf16le_len_first_char mstr len =
     (if len < 2 then 0
      else let w1 = MAKEWORD (mstr 0) (mstr 1)
           in if w1 < 0xD800 \<or> w1 > 0xDFFF then 2
              else if w1 \<ge> 0xD800 \<and> w1 \<le> 0xDBFF
              then if len < 4 then 0
                   else let w2 = MAKEWORD (mstr 2) (mstr 3)
                        in if w2 < 0xDC00 \<or> w2 > 0xDFFF then 0 else 4
              else 4)"

definition utf16le_conv_to_uc32 :: "mstring \<Rightarrow> UChar32" where
  "utf16le_conv_to_uc32 mchar =
     (let w1 = MAKEWORD (mchar 0) (mchar 1)
      in if w1 < 0xD800 \<or> w1 > 0xDFFF then w1
         else let w2 = MAKEWORD (mchar 2) (mchar 3)
              in (push_bit 10 w1 OR (w2 AND 0x03FF)) + 0x10000)"

definition utf16le_char_offset :: "mstring \<Rightarrow> int" where
  "utf16le_char_offset mchar = as_unsigned (utf16le_conv_to_uc32 mchar)"

definition utf16le_char_type :: "mstring \<Rightarrow> nat" where
  "utf16le_char_type mchar =
     (let c1 = mchar 0; c2 = mchar 1
      in if c1 = 0xFE \<and> c2 = 0xFF then MCHAR_TYPE_ZEROWIDTH
         else if c2 = 0 then sb_char_type (mem [c1])
         else MCHAR_TYPE_GENERIC)"

definition utf16le_nr_chars_in_str :: "mstring \<Rightarrow> int \<Rightarrow> int option" where
  "utf16le_nr_chars_in_str mstr mstrlen = count_loop utf16le_len_first_char mstr mstrlen 0"

definition utf16le_len_first_substr :: "mstring \<Rightarrow> int \<Rightarrow> int option" where
  "utf16le_len_first_substr mstr mstrlen =
     Some (first_substr_loop utf16le_len_first_char mstr mstrlen 0)"

definition utf16le_get_next_word :: "mstring \<Rightarrow> int \<Rightarrow> nat option \<times> wordinfo" where
  "utf16le_get_next_word mstr mstrlen =
     (if mstrlen = 0 then (None, no_word)
      else let w = utf16_word_loop utf16le_len_first_char utf16le_conv_to_uc32 mstr mstrlen no_word
           in (Some (word_end w), w))"

definition utf16le_pos_first_char :: "mstring \<Rightarrow> int \<Rightarrow> int option" where
  "utf16le_pos_first_char mstr mstrlen = utf16_pos_loop utf16le_len_first_char mstr mstrlen 0"

definition utf16le_conv_from_uc32 :: "UChar32 \<Rightarrow> uchar list" where
  "utf16le_conv_from_uc32 wc =
     (if wc > 0x10FFFF then []
      else if wc < 0x10000 then [LOBYTE wc, HIBYTE wc]
      else let wc = wc - 0x10000;
               w1 = 0xD800 OR drop_bit 10 wc;
               w2 = 0xDC00 OR (wc AND 0x03FF)
           in [LOBYTE w1, HIBYTE w1, LOBYTE w2, HIBYTE w2])"

subsection \<open>UTF-16, high byte first\<close>

definition utf16be_len_first_char :: "mstring \<Rightarrow> int \<Rightarrow> nat" where
  "utf16be_len_first_char mstr len =
     (if len < 2 then 0
      else let w1 = MAKEWORD (mstr 1) (mstr 0)
           in if w1 < 0xD800 \<or> w1 > 0xDFFF then 2
              else if w1 \<ge> 0xD800 \<and> w1 \<le> 0xDBFF
              then if len < 4 then 0
                   else let w2 = MAKEWORD (mstr 3) (mstr 2)
                        in if w2 < 0xDC00 \<or> w2 > 0xDFFF then 0 else 4
              else 4)"

definition utf16be_conv_to_uc32 :: "mstring \<Rightarrow> UChar32" where
  "utf16be_conv_to_uc32 mchar =
     (let w1 = MAKEWORD (mchar 1) (mchar 0)
      in if w1 < 0xD800 \<or> w1 > 0xDFFF then w1
         else let w2 = MAKEWORD (mchar 3) (mchar 2)
              in (push_bit 10 w1 OR (w2 AND 0x03FF)) + 0x10000)"

definition utf16be_char_offset :: "mstring \<Rightarrow> int" where
  "utf16be_char_offset mchar = as_unsigned (utf16be_conv_to_uc32 mchar)"

definition utf16be_char_type :: "mstring \<Rightarrow> nat" where
  "utf16be_char_type mchar =
     (let c1 = mchar 1; c2 = mchar 0
      in if c1 = 0xFE \<and> c2 = 0xFF then MCHAR_TYPE_ZEROWIDTH
         else if c2 = 0 then sb_char_type (mem [c1])
         else MCHAR_TYPE_GENERIC)"

definition utf16be_nr_chars_in_str :: "mstring \<Rightarrow> int \<Rightarrow> int option" where
  "utf16be_nr_chars_in_str mstr mstrlen = count_loop utf16be_len_first_char mstr mstrlen 0"

definition utf16be_len_first_substr :: "mstring \<Rightarrow> int \<Rightarrow> int option" where
  "utf16be_len_first_substr mstr mstrlen =
     Some (first_substr_loop utf16be_len_first_char mstr mstrlen 0)"

definition utf16be_get_next_word :: "mstring \<Rightarrow> int \<Rightarrow> nat option \<times> wordinfo" where
  "utf16be_get_next_word mstr mstrlen =
     (if mstrlen = 0 then (None, no_word)
      else let w = utf16_word_loop utf16be_len_first_char utf16be_conv_to_uc32 mstr mstrlen no_word
           in (Some (word_end w), w))"

definition utf16be_pos_first_char :: "mstring \<Rightarrow> int \<Rightarrow> int option" where
  "utf16be_pos_first_char mstr mstrlen = utf16_pos_loop utf16be_len_first_char mstr mstrlen 0"

definition utf16be_conv_from_uc32 :: "UChar32 \<Rightarrow> uchar list" where
  "utf16be_conv_from_uc32 wc =
     (if wc > 0x10FFFF then []
      else if wc < 0x10000 then [HIBYTE wc, LOBYTE wc]
      else let wc = wc - 0x10000;
               w1 = 0xD800 OR drop_bit 10 wc;
               w2 = 0xDC00 OR (wc AND 0x03FF)
           in [HIBYTE w1, LOBYTE w1, HIBYTE w2, LOBYTE w2])"

subsection \<open>ASCII\<close>

lemma ascii_top_bit: "uint (c :: uchar) < 0x80 \<longrightarrow> uint c AND 0x80 = 0"
  by (rule all_uchars) code_simp

end
