(* ===== verification/Keyboard.thy ===== *)
theory Keyboard
  imports Message Keys Charset_UTF "HOL-Library.Monad_Syntax"
begin

section \<open>Key maps and the translation of keys (src/gui/keyboard.c)\<close>

text \<open>
  \<open>TranslateMessage\<close> looks a scan code up in the key map of the modifiers and turns the symbol it finds into bytes,
  which it sends to the window as \<open>MSG_CHAR\<close>, or as a sequence of \<open>MSG_KEYSYM\<close>.  The key maps, accents and
  function strings of a keyboard are tables; NULL in a table is \<open>None\<close>, a string is the list of its bytes without the
  last one.  \<open>kbuff\<close> is the part of \<open>buff\<close> below \<open>pos\<close>.  \<open>npadch\<close> is kept at its 32 bits.  As the result of an
  operation \<open>None\<close> is an access outside of an array: of \<open>buff\<close>, of a key map, or of a string of the code.
\<close>

unbundle bit_operations_syntax

type_synonym byte = "8 word"

abbreviation (input) MSG_KEYDOWN :: int where "MSG_KEYDOWN \<equiv> 0x10"
abbreviation (input) MSG_CHAR :: int where "MSG_CHAR \<equiv> 0x11"
abbreviation (input) MSG_KEYUP :: int where "MSG_KEYUP \<equiv> 0x12"
abbreviation (input) MSG_SYSKEYDOWN :: int where "MSG_SYSKEYDOWN \<equiv> 0x13"
abbreviation (input) MSG_SYSKEYUP :: int where "MSG_SYSKEYUP \<equiv> 0x15"
abbreviation (input) MSG_KEYSYM :: int where "MSG_KEYSYM \<equiv> 0x16"
abbreviation (input) MSG_KEYLONGPRESS :: int where "MSG_KEYLONGPRESS \<equiv> 0x17"
abbreviation (input) MSG_KEYALWAYSPRESS :: int where "MSG_KEYALWAYSPRESS \<equiv> 0x18"

definition NR_KEYS :: nat where "NR_KEYS = 128"
definition SCANCODE_USER :: nat where "SCANCODE_USER = NR_KEYS + 1"
definition NR_BUFF :: nat where "NR_BUFF = 50"

definition VC_XLATE :: dword where "VC_XLATE = 0x0000"
definition VC_UNICODE :: dword where "VC_UNICODE = 0x0004"
definition VC_APPLIC :: dword where "VC_APPLIC = 0x0010"
definition VC_CKMODE :: dword where "VC_CKMODE = 0x0020"
definition VC_CRLF :: dword where "VC_CRLF = 0x0080"
definition VC_META :: dword where "VC_META = 0x0100"

record key_tables =
  key_maps :: "nat \<Rightarrow> 16 word list option"
  accent_table :: "(byte \<times> byte \<times> byte) list"
  func_table :: "byte \<Rightarrow> byte list option"

record key_info =
  kbd_mode :: dword
  shiftstate :: dword
  oldstate :: dword
  npadch :: "32 word"
  diacr :: byte
  dead_key_next :: bool
  ktype :: byte
  kbuff :: "byte list"

subsection \<open>The buffer\<close>

definition put_queue :: "byte \<Rightarrow> key_info \<Rightarrow> key_info option" where
  "put_queue ch k = (if length (kbuff k) < NR_BUFF then Some (k\<lparr>kbuff := kbuff k @ [ch]\<rparr>) else None)"

fun puts_queue :: "byte list \<Rightarrow> key_info \<Rightarrow> key_info option" where
  "puts_queue [] k = Some k"
| "puts_queue (c # cp) k = put_queue c k \<bind> puts_queue cp"

definition applkey :: "byte \<Rightarrow> bool \<Rightarrow> key_info \<Rightarrow> key_info option" where
  "applkey key mode k = puts_queue (takeWhile (\<lambda>c. c \<noteq> 0) [0x1B, if mode then 0x4F else 0x5B, key]) k"

definition to_utf8 :: "16 word \<Rightarrow> key_info \<Rightarrow> key_info option" where
  "to_utf8 c k =
     (if c < 0x80 then put_queue (ucast c) k
      else if c < 0x800
      then put_queue (ucast (0xC0 OR drop_bit 6 c)) k \<bind> put_queue (ucast (0x80 OR (c AND 0x3F)))
      else put_queue (ucast (0xE0 OR drop_bit 12 c)) k \<bind> put_queue (ucast (0x80 OR (drop_bit 6 c AND 0x3F)))
             \<bind> put_queue (ucast (0x80 OR (c AND 0x3F))))"

subsection \<open>Handlers of the types of symbols\<close>

text \<open>Characters of a string of the code with its terminator, and the string's address as a list of codes.\<close>

definition char_at :: "byte list \<Rightarrow> byte \<Rightarrow> byte option" where
  "char_at s i = (if unat i < length (s @ [0]) then Some ((s @ [0]) ! unat i) else None)"

definition ret_diacr :: "byte list" where
  "ret_diacr = [0x60, 0x27, 0x5E, 0x7E, 0x22, 0x2C]"

definition pad_chars :: "byte list" where
  "pad_chars = [0x30, 0x31, 0x32, 0x33, 0x34, 0x35, 0x36, 0x37, 0x38, 0x39, 0x2B, 0x2D, 0x2A, 0x2F, 0x0D, 0x2C, 0x2E, 0x3F, 0x28, 0x29]"

definition app_map :: "byte list" where
  "app_map = [0x70, 0x71, 0x72, 0x73, 0x74, 0x75, 0x76, 0x77, 0x78, 0x79, 0x6C, 0x53, 0x52, 0x51, 0x4D, 0x6E, 0x6E, 0x6D, 0x50, 0x51]"

definition cur_chars :: "byte list" where
  "cur_chars = [0x42, 0x44, 0x43, 0x41]"

definition handle_diacr :: "key_tables \<Rightarrow> byte \<Rightarrow> key_info \<Rightarrow> (byte \<times> key_info) option" where
  "handle_diacr kt ch k =
     (let d = diacr k; k = k\<lparr>diacr := 0\<rparr>
      in case find (\<lambda>(dia, base, _). dia = d \<and> base = ch) (accent_table kt) of
           Some (_, _, result) \<Rightarrow> Some (result, k)
         | None \<Rightarrow> if ch = 0x20 \<or> ch = d then Some (d, k)
                   else do { k \<leftarrow> put_queue d k; Some (ch, k) })"

definition do_dead2 :: "key_tables \<Rightarrow> byte \<Rightarrow> key_info \<Rightarrow> key_info option" where
  "do_dead2 kt val k =
     (if diacr k \<noteq> 0 then do { (d, k) \<leftarrow> handle_diacr kt val k; Some (k\<lparr>diacr := d\<rparr>) } else Some (k\<lparr>diacr := val\<rparr>))"

definition do_dead :: "key_tables \<Rightarrow> byte \<Rightarrow> key_info \<Rightarrow> key_info option" where
  "do_dead kt val k = (if unat val < length ret_diacr then do_dead2 kt (ret_diacr ! unat val) k else None)"

definition do_self :: "key_tables \<Rightarrow> byte \<Rightarrow> key_info \<Rightarrow> key_info option" where
  "do_self kt val k =
     do {
       (val, k) \<leftarrow> (if diacr k \<noteq> 0 then handle_diacr kt val k else Some (val, k));
       if dead_key_next k then Some (k\<lparr>dead_key_next := False, diacr := val\<rparr>) else put_queue val k
     }"

definition do_fn :: "key_tables \<Rightarrow> byte \<Rightarrow> key_info \<Rightarrow> key_info option" where
  "do_fn kt val k = (case func_table kt val of None \<Rightarrow> Some k | Some s \<Rightarrow> puts_queue s k)"

definition do_cur :: "byte \<Rightarrow> key_info \<Rightarrow> key_info option" where
  "do_cur val k = do { c \<leftarrow> char_at cur_chars val; applkey c (kbd_mode k AND VC_CKMODE \<noteq> 0) k }"

definition do_pad :: "key_tables \<Rightarrow> byte \<Rightarrow> key_info \<Rightarrow> key_info option" where
  "do_pad kt val k =
     (let plain = do {
            c \<leftarrow> char_at pad_chars val;
            k \<leftarrow> put_queue c k;
            if val = 14 \<and> kbd_mode k AND VC_CRLF \<noteq> 0 then put_queue 10 k else Some k
          }
      in if kbd_mode k AND VC_APPLIC \<noteq> 0 \<and> shiftstate k AND KS_SHIFT = 0
         then do { c \<leftarrow> char_at app_map val; applkey c True k }
         else if shiftstate k AND KS_NUMLOCK = 0
         then if val \<in> {15, 16} then do_fn kt 22 k
              else if val = 0 then do_fn kt 21 k
              else if val = 1 then do_fn kt 23 k
              else if val = 2 then do_cur 0 k
              else if val = 3 then do_fn kt 25 k
              else if val = 4 then do_cur 1 k
              else if val = 6 then do_cur 2 k
              else if val = 7 then do_fn kt 20 k
              else if val = 8 then do_cur 3 k
              else if val = 9 then do_fn kt 24 k
              else if val = 5 then applkey 0x47 (kbd_mode k AND VC_APPLIC \<noteq> 0) k
              else plain
         else plain)"

definition do_meta :: "byte \<Rightarrow> key_info \<Rightarrow> key_info option" where
  "do_meta val k =
     (if kbd_mode k AND VC_META \<noteq> 0 then put_queue 0x1B k \<bind> put_queue val else put_queue (val OR 0x80) k)"

definition do_ascii :: "byte \<Rightarrow> key_info \<Rightarrow> key_info option" where
  "do_ascii val k =
     (let (base, val) = (if val < 10 then (10, val) else (16, val - 10))
      in Some (k\<lparr>npadch := (if npadch k = -1 then ucast val else npadch k * base + ucast val)\<rparr>))"

definition do_shift :: "key_info \<Rightarrow> key_info option" where
  "do_shift k =
     (if shiftstate k \<noteq> oldstate k \<and> npadch k \<noteq> -1
      then do {
        k \<leftarrow> (if kbd_mode k = VC_UNICODE then to_utf8 (ucast (npadch k AND 0xFFFF)) k else put_queue (ucast (npadch k AND 0xFF)) k);
        Some (k\<lparr>npadch := -1\<rparr>)
      }
      else Some k)"

definition enter :: "key_info \<Rightarrow> key_info option" where
  "enter k =
     do {
       k \<leftarrow> (if diacr k \<noteq> 0 then map_option (\<lambda>k. k\<lparr>diacr := 0\<rparr>) (put_queue (diacr k) k) else Some k);
       k \<leftarrow> put_queue 13 k;
       if kbd_mode k AND VC_CRLF \<noteq> 0 then put_queue 10 k else Some k
     }"

definition compose :: "key_info \<Rightarrow> key_info option" where
  "compose k = Some (k\<lparr>dead_key_next := True\<rparr>)"

definition do_spec :: "byte \<Rightarrow> key_info \<Rightarrow> key_info option" where
  "do_spec val k = (if val = 1 then enter k else if val = 14 then compose k else Some k)"

text \<open>\<open>key_handler\<close>, indexed by the type of the symbol.\<close>

definition key_handler :: "key_tables \<Rightarrow> byte \<Rightarrow> byte \<Rightarrow> key_info \<Rightarrow> key_info option" where
  "key_handler kt ty val k =
     (if ty = 0 then do_self kt val k
      else if ty = 1 then do_fn kt val k
      else if ty = 2 then do_spec val k
      else if ty = 3 then do_pad kt val k
      else if ty = 4 then do_dead kt val k
      else if ty = 6 then do_cur val k
      else if ty = 8 then do_meta val k
      else if ty = 9 then do_ascii val k
      else if ty = 13 then do_dead2 kt val k
      else Some k)"

subsection \<open>Scan codes\<close>

definition compute_shiftstate :: "key_tables \<Rightarrow> dword \<Rightarrow> nat" where
  "compute_shiftstate kt state =
     (let bit_of = (\<lambda>mask n. if state AND mask \<noteq> 0 then (2::nat) ^ n else 0)
      in (if key_maps kt 1 \<noteq> None then bit_of KS_SHIFT 0 else bit_of KS_LEFTSHIFT 4 + bit_of KS_RIGHTSHIFT 5)
         + (if key_maps kt 4 \<noteq> None then bit_of KS_CTRL 2 else bit_of KS_LEFTCTRL 6 + bit_of KS_RIGHTCTRL 7)
         + bit_of KS_LEFTALT 3 + bit_of KS_RIGHTALT 1)"

definition sym_at :: "16 word list \<Rightarrow> nat \<Rightarrow> 16 word option" where
  "sym_at key_map scancode = (if scancode < length key_map then Some (key_map ! scancode) else None)"

definition handle_scancode_on_keydown :: "key_tables \<Rightarrow> nat \<Rightarrow> key_info \<Rightarrow> key_info option" where
  "handle_scancode_on_keydown kt scancode k =
     (let shift_final = compute_shiftstate kt (shiftstate k)
      in case key_maps kt shift_final of
           None \<Rightarrow> Some k
         | Some key_map \<Rightarrow>
             do {
               keysym \<leftarrow> sym_at key_map scancode;
               let k = k\<lparr>ktype := HIBYTE (uint keysym)\<rparr>;
               if ktype k \<ge> 0xF0
               then do {
                 let k = k\<lparr>ktype := ktype k - 0xF0\<rparr>;
                 (keysym, k) \<leftarrow>
                   (if ktype k = 11
                    then if shiftstate k AND KS_CAPSLOCK \<noteq> 0
                         then (case key_maps kt (if even shift_final then shift_final + 1 else shift_final - 1) of
                                 None \<Rightarrow> Some (keysym, k\<lparr>ktype := 0\<rparr>)
                               | Some key_map \<Rightarrow> do { keysym \<leftarrow> sym_at key_map scancode; Some (keysym, k\<lparr>ktype := 0\<rparr>) })
                         else Some (keysym, k\<lparr>ktype := 0\<rparr>)
                    else Some (keysym, k));
                 key_handler kt (ktype k) (ucast keysym) k
               }
               else to_utf8 keysym k
             })"

definition handle_scancode_on_keyup :: "key_tables \<Rightarrow> nat \<Rightarrow> key_info \<Rightarrow> key_info option" where
  "handle_scancode_on_keyup kt scancode k =
     (case key_maps kt (compute_shiftstate kt (shiftstate k)) of
        None \<Rightarrow> Some k
      | Some key_map \<Rightarrow>
          do {
            keysym \<leftarrow> sym_at key_map scancode;
            let k = k\<lparr>ktype := HIBYTE (uint keysym)\<rparr>;
            if ktype k \<ge> 0xF0
            then (let k = k\<lparr>ktype := ktype k - 0xF0\<rparr> in if ktype k = 7 then do_shift k else Some k)
            else Some k
          })"

subsection \<open>Messages\<close>

definition new_kinfo :: key_info where
  "new_kinfo = \<lparr>kbd_mode = VC_XLATE, shiftstate = 0, oldstate = 0, npadch = -1, diacr = 0, dead_key_next = False, ktype = 0, kbuff = []\<rparr>"

text \<open>The layouts are the names with the tables that their functions set.\<close>

definition SetKeyboardLayout ::
  "(string \<times> key_tables) list \<Rightarrow> string \<Rightarrow> key_tables \<times> key_info \<Rightarrow> bool \<times> key_tables \<times> key_info" where
  "SetKeyboardLayout layouts kbd_layout s =
     (case map_of layouts kbd_layout of Some kt \<Rightarrow> (True, kt, new_kinfo) | None \<Rightarrow> (False, s))"

definition on_status :: "dword \<Rightarrow> (key_info \<Rightarrow> key_info option) \<Rightarrow> key_info \<Rightarrow> key_info option" where
  "on_status status handle k = map_option (\<lambda>k. k\<lparr>oldstate := status\<rparr>) (handle (k\<lparr>shiftstate := status\<rparr>))"

text \<open>The bytes that a message puts into the buffer; the state is \<open>__mg_kinfo\<close>.\<close>

definition translate :: "key_tables \<Rightarrow> int \<Rightarrow> dword \<Rightarrow> dword \<Rightarrow> key_info \<Rightarrow> key_info option" where
  "translate kt message wParam lParam k =
     (if (message = MSG_KEYDOWN \<or> message = MSG_SYSKEYDOWN) \<and> unat wParam < SCANCODE_USER
      then on_status lParam (handle_scancode_on_keydown kt (unat wParam)) k
      else if (message = MSG_KEYLONGPRESS \<or> message = MSG_KEYALWAYSPRESS \<or> message = MSG_KEYUP \<or> message = MSG_SYSKEYUP)
        \<and> unat wParam < SCANCODE_USER
      then on_status lParam (handle_scancode_on_keyup kt (unat wParam)) k
      else Some k)"

definition send_bytes :: "nat \<Rightarrow> hwnd \<Rightarrow> dword \<Rightarrow> byte list \<Rightarrow> gui \<Rightarrow> gui" where
  "send_bytes me h lParam bs g =
     (case bs of
        [b] \<Rightarrow> snd (SendNotifyMessage me h MSG_CHAR (ucast b) lParam g)
      | _ \<Rightarrow> fold (\<lambda>(i, b). \<lambda>g. snd (SendNotifyMessage me h MSG_KEYSYM (word_of_int (MAKEWORD b (of_nat i))) lParam g))
               (enumerate 0 bs) g)"

definition TranslateMessage :: "nat \<Rightarrow> key_tables \<Rightarrow> msg \<Rightarrow> key_info \<times> gui \<Rightarrow> (bool \<times> key_info \<times> gui) option" where
  "TranslateMessage me kt pMsg = (\<lambda>(k, g).
     do {
       k \<leftarrow> (if m_hwnd pMsg \<noteq> hwnd_desktop g
             then translate kt (m_message pMsg) (m_wParam pMsg) (m_lParam pMsg) (k\<lparr>kbuff := []\<rparr>)
             else Some (k\<lparr>kbuff := []\<rparr>));
       Some (False, k, send_bytes me (m_hwnd pMsg) (m_lParam pMsg) (kbuff k) g)
     })"

definition TranslateKeyMsgToChar :: "key_tables \<Rightarrow> int \<Rightarrow> dword \<Rightarrow> dword \<Rightarrow> byte option option" where
  "TranslateKeyMsgToChar kt message wParam lParam =
     do {
       ki \<leftarrow> (if (message = MSG_KEYDOWN \<or> message = MSG_SYSKEYDOWN) \<and> unat wParam < SCANCODE_USER
              then on_status lParam (handle_scancode_on_keydown kt (unat wParam)) new_kinfo
              else if (message = MSG_KEYUP \<or> message = MSG_SYSKEYUP) \<and> unat wParam < SCANCODE_USER
              then on_status lParam (handle_scancode_on_keyup kt (unat wParam)) new_kinfo
              else Some new_kinfo);
       Some (case kbuff ki of [b] \<Rightarrow> Some b | _ \<Rightarrow> None)
     }"

end
