(* ===== verification/Keyboard_Default.thy ===== *)
theory Keyboard_Default
  imports Keyboard
begin

section \<open>The default layout (src/gui/defkeymap.c)\<close>

text \<open>
  The key maps, function strings and accents that \<open>SetKeyboardLayout\<close> sets for the default layout.  The
  functions strings follow each other in \<open>func_buf\<close>; \<open>func_table\<close> points to where they start.
\<close>

definition plain_map :: "16 word list" where
  "plain_map =
    [0xf200, 0xf01b, 0xf031, 0xf032, 0xf033, 0xf034, 0xf035, 0xf036,
     0xf037, 0xf038, 0xf039, 0xf030, 0xf02d, 0xf03d, 0xf07f, 0xf009,
     0xfb71, 0xfb77, 0xfb65, 0xfb72, 0xfb74, 0xfb79, 0xfb75, 0xfb69,
     0xfb6f, 0xfb70, 0xf05b, 0xf05d, 0xf201, 0xf702, 0xfb61, 0xfb73,
     0xfb64, 0xfb66, 0xfb67, 0xfb68, 0xfb6a, 0xfb6b, 0xfb6c, 0xf03b,
     0xf027, 0xf060, 0xf700, 0xf05c, 0xfb7a, 0xfb78, 0xfb63, 0xfb76,
     0xfb62, 0xfb6e, 0xfb6d, 0xf02c, 0xf02e, 0xf02f, 0xf700, 0xf30c,
     0xf703, 0xf020, 0xf207, 0xf100, 0xf101, 0xf102, 0xf103, 0xf104,
     0xf105, 0xf106, 0xf107, 0xf108, 0xf109, 0xf208, 0xf209, 0xf307,
     0xf308, 0xf309, 0xf30b, 0xf304, 0xf305, 0xf306, 0xf30a, 0xf301,
     0xf302, 0xf303, 0xf300, 0xf310, 0xf206, 0xf200, 0xf03c, 0xf10a,
     0xf10b, 0xf200, 0xf200, 0xf200, 0xf200, 0xf200, 0xf200, 0xf200,
     0xf30e, 0xf702, 0xf30d, 0xf01c, 0xf701, 0xf205, 0xf114, 0xf603,
     0xf118, 0xf601, 0xf602, 0xf117, 0xf600, 0xf119, 0xf115, 0xf116,
     0xf11a, 0xf10c, 0xf10d, 0xf11b, 0xf11c, 0xf110, 0xf311, 0xf11d,
     0xf200, 0xf200, 0xf200, 0xf200, 0xf200, 0xf200, 0xf200, 0xf200]"

definition shift_map :: "16 word list" where
  "shift_map =
    [0xf200, 0xf01b, 0xf021, 0xf040, 0xf023, 0xf024, 0xf025, 0xf05e,
     0xf026, 0xf02a, 0xf028, 0xf029, 0xf05f, 0xf02b, 0xf07f, 0xf009,
     0xfb51, 0xfb57, 0xfb45, 0xfb52, 0xfb54, 0xfb59, 0xfb55, 0xfb49,
     0xfb4f, 0xfb50, 0xf07b, 0xf07d, 0xf201, 0xf702, 0xfb41, 0xfb53,
     0xfb44, 0xfb46, 0xfb47, 0xfb48, 0xfb4a, 0xfb4b, 0xfb4c, 0xf03a,
     0xf022, 0xf07e, 0xf700, 0xf07c, 0xfb5a, 0xfb58, 0xfb43, 0xfb56,
     0xfb42, 0xfb4e, 0xfb4d, 0xf03c, 0xf03e, 0xf03f, 0xf700, 0xf30c,
     0xf703, 0xf020, 0xf207, 0xf10a, 0xf10b, 0xf10c, 0xf10d, 0xf10e,
     0xf10f, 0xf110, 0xf111, 0xf112, 0xf113, 0xf213, 0xf203, 0xf307,
     0xf308, 0xf309, 0xf30b, 0xf304, 0xf305, 0xf306, 0xf30a, 0xf301,
     0xf302, 0xf303, 0xf300, 0xf310, 0xf206, 0xf200, 0xf03e, 0xf10a,
     0xf10b, 0xf200, 0xf200, 0xf200, 0xf200, 0xf200, 0xf200, 0xf200,
     0xf30e, 0xf702, 0xf30d, 0xf200, 0xf701, 0xf205, 0xf114, 0xf603,
     0xf20b, 0xf601, 0xf602, 0xf117, 0xf600, 0xf20a, 0xf115, 0xf116,
     0xf11a, 0xf10c, 0xf10d, 0xf11b, 0xf11c, 0xf110, 0xf311, 0xf11d,
     0xf200, 0xf200, 0xf200, 0xf200, 0xf200, 0xf200, 0xf200, 0xf200]"

definition altgr_map :: "16 word list" where
  "altgr_map =
    [0xf200, 0xf200, 0xf200, 0xf040, 0xf200, 0xf024, 0xf200, 0xf200,
     0xf07b, 0xf05b, 0xf05d, 0xf07d, 0xf05c, 0xf200, 0xf200, 0xf200,
     0xfb71, 0xfb77, 0xf918, 0xfb72, 0xfb74, 0xfb79, 0xfb75, 0xfb69,
     0xfb6f, 0xfb70, 0xf200, 0xf07e, 0xf201, 0xf702, 0xf914, 0xfb73,
     0xf917, 0xf919, 0xfb67, 0xfb68, 0xfb6a, 0xfb6b, 0xfb6c, 0xf200,
     0xf200, 0xf200, 0xf700, 0xf200, 0xfb7a, 0xfb78, 0xf916, 0xfb76,
     0xf915, 0xfb6e, 0xfb6d, 0xf200, 0xf200, 0xf200, 0xf700, 0xf30c,
     0xf703, 0xf200, 0xf207, 0xf50c, 0xf50d, 0xf50e, 0xf50f, 0xf510,
     0xf511, 0xf512, 0xf513, 0xf514, 0xf515, 0xf208, 0xf202, 0xf911,
     0xf912, 0xf913, 0xf30b, 0xf90e, 0xf90f, 0xf910, 0xf30a, 0xf90b,
     0xf90c, 0xf90d, 0xf90a, 0xf310, 0xf206, 0xf200, 0xf07c, 0xf516,
     0xf517, 0xf200, 0xf200, 0xf200, 0xf200, 0xf200, 0xf200, 0xf200,
     0xf30e, 0xf702, 0xf30d, 0xf200, 0xf701, 0xf205, 0xf114, 0xf603,
     0xf118, 0xf601, 0xf602, 0xf117, 0xf600, 0xf119, 0xf115, 0xf116,
     0xf11a, 0xf10c, 0xf10d, 0xf11b, 0xf11c, 0xf110, 0xf311, 0xf11d,
     0xf200, 0xf200, 0xf200, 0xf200, 0xf200, 0xf200, 0xf200, 0xf200]"

definition ctrl_map :: "16 word list" where
  "ctrl_map =
    [0xf200, 0xf200, 0xf200, 0xf000, 0xf01b, 0xf01c, 0xf01d, 0xf01e,
     0xf01f, 0xf07f, 0xf200, 0xf200, 0xf01f, 0xf200, 0xf008, 0xf200,
     0xf011, 0xf017, 0xf005, 0xf012, 0xf014, 0xf019, 0xf015, 0xf009,
     0xf00f, 0xf010, 0xf01b, 0xf01d, 0xf201, 0xf702, 0xf001, 0xf013,
     0xf004, 0xf006, 0xf007, 0xf008, 0xf00a, 0xf00b, 0xf00c, 0xf200,
     0xf007, 0xf000, 0xf700, 0xf01c, 0xf01a, 0xf018, 0xf003, 0xf016,
     0xf002, 0xf00e, 0xf00d, 0xf200, 0xf20e, 0xf07f, 0xf700, 0xf30c,
     0xf703, 0xf000, 0xf207, 0xf100, 0xf101, 0xf102, 0xf103, 0xf104,
     0xf105, 0xf106, 0xf107, 0xf108, 0xf109, 0xf208, 0xf204, 0xf307,
     0xf308, 0xf309, 0xf30b, 0xf304, 0xf305, 0xf306, 0xf30a, 0xf301,
     0xf302, 0xf303, 0xf300, 0xf310, 0xf206, 0xf200, 0xf200, 0xf10a,
     0xf10b, 0xf200, 0xf200, 0xf200, 0xf200, 0xf200, 0xf200, 0xf200,
     0xf30e, 0xf702, 0xf30d, 0xf01c, 0xf701, 0xf205, 0xf114, 0xf603,
     0xf118, 0xf601, 0xf602, 0xf117, 0xf600, 0xf119, 0xf115, 0xf116,
     0xf11a, 0xf10c, 0xf10d, 0xf11b, 0xf11c, 0xf110, 0xf311, 0xf11d,
     0xf200, 0xf200, 0xf200, 0xf200, 0xf200, 0xf200, 0xf200, 0xf200]"

definition shift_ctrl_map :: "16 word list" where
  "shift_ctrl_map =
    [0xf200, 0xf200, 0xf200, 0xf000, 0xf200, 0xf200, 0xf200, 0xf200,
     0xf200, 0xf200, 0xf200, 0xf200, 0xf01f, 0xf200, 0xf200, 0xf200,
     0xf011, 0xf017, 0xf005, 0xf012, 0xf014, 0xf019, 0xf015, 0xf009,
     0xf00f, 0xf010, 0xf200, 0xf200, 0xf201, 0xf702, 0xf001, 0xf013,
     0xf004, 0xf006, 0xf007, 0xf008, 0xf00a, 0xf00b, 0xf00c, 0xf200,
     0xf200, 0xf200, 0xf700, 0xf200, 0xf01a, 0xf018, 0xf003, 0xf016,
     0xf002, 0xf00e, 0xf00d, 0xf200, 0xf200, 0xf200, 0xf700, 0xf30c,
     0xf703, 0xf200, 0xf207, 0xf200, 0xf200, 0xf200, 0xf200, 0xf200,
     0xf200, 0xf200, 0xf200, 0xf200, 0xf200, 0xf208, 0xf200, 0xf307,
     0xf308, 0xf309, 0xf30b, 0xf304, 0xf305, 0xf306, 0xf30a, 0xf301,
     0xf302, 0xf303, 0xf300, 0xf310, 0xf206, 0xf200, 0xf200, 0xf200,
     0xf200, 0xf200, 0xf200, 0xf200, 0xf200, 0xf200, 0xf200, 0xf200,
     0xf30e, 0xf702, 0xf30d, 0xf200, 0xf701, 0xf205, 0xf114, 0xf603,
     0xf118, 0xf601, 0xf602, 0xf117, 0xf600, 0xf119, 0xf115, 0xf116,
     0xf11a, 0xf10c, 0xf10d, 0xf11b, 0xf11c, 0xf110, 0xf311, 0xf11d,
     0xf200, 0xf200, 0xf200, 0xf200, 0xf200, 0xf200, 0xf200, 0xf200]"

definition alt_map :: "16 word list" where
  "alt_map =
    [0xf200, 0xf81b, 0xf831, 0xf832, 0xf833, 0xf834, 0xf835, 0xf836,
     0xf837, 0xf838, 0xf839, 0xf830, 0xf82d, 0xf83d, 0xf87f, 0xf809,
     0xf871, 0xf877, 0xf865, 0xf872, 0xf874, 0xf879, 0xf875, 0xf869,
     0xf86f, 0xf870, 0xf85b, 0xf85d, 0xf80d, 0xf702, 0xf861, 0xf873,
     0xf864, 0xf866, 0xf867, 0xf868, 0xf86a, 0xf86b, 0xf86c, 0xf83b,
     0xf827, 0xf860, 0xf700, 0xf85c, 0xf87a, 0xf878, 0xf863, 0xf876,
     0xf862, 0xf86e, 0xf86d, 0xf82c, 0xf82e, 0xf82f, 0xf700, 0xf30c,
     0xf703, 0xf820, 0xf207, 0xf500, 0xf501, 0xf502, 0xf503, 0xf504,
     0xf505, 0xf506, 0xf507, 0xf508, 0xf509, 0xf208, 0xf209, 0xf907,
     0xf908, 0xf909, 0xf30b, 0xf904, 0xf905, 0xf906, 0xf30a, 0xf901,
     0xf902, 0xf903, 0xf900, 0xf310, 0xf206, 0xf200, 0xf83c, 0xf50a,
     0xf50b, 0xf200, 0xf200, 0xf200, 0xf200, 0xf200, 0xf200, 0xf200,
     0xf30e, 0xf702, 0xf30d, 0xf01c, 0xf701, 0xf205, 0xf114, 0xf603,
     0xf118, 0xf210, 0xf211, 0xf117, 0xf600, 0xf119, 0xf115, 0xf116,
     0xf11a, 0xf10c, 0xf10d, 0xf11b, 0xf11c, 0xf110, 0xf311, 0xf11d,
     0xf200, 0xf200, 0xf200, 0xf200, 0xf200, 0xf200, 0xf200, 0xf200]"

definition ctrl_alt_map :: "16 word list" where
  "ctrl_alt_map =
    [0xf200, 0xf200, 0xf200, 0xf200, 0xf200, 0xf200, 0xf200, 0xf200,
     0xf200, 0xf200, 0xf200, 0xf200, 0xf200, 0xf200, 0xf200, 0xf200,
     0xf811, 0xf817, 0xf805, 0xf812, 0xf814, 0xf819, 0xf815, 0xf809,
     0xf80f, 0xf810, 0xf200, 0xf200, 0xf201, 0xf702, 0xf801, 0xf813,
     0xf804, 0xf806, 0xf807, 0xf808, 0xf80a, 0xf80b, 0xf80c, 0xf200,
     0xf200, 0xf200, 0xf700, 0xf200, 0xf81a, 0xf818, 0xf803, 0xf816,
     0xf802, 0xf80e, 0xf80d, 0xf200, 0xf200, 0xf200, 0xf700, 0xf30c,
     0xf703, 0xf200, 0xf207, 0xf500, 0xf501, 0xf502, 0xf503, 0xf504,
     0xf505, 0xf506, 0xf507, 0xf508, 0xf509, 0xf208, 0xf200, 0xf307,
     0xf308, 0xf309, 0xf30b, 0xf304, 0xf305, 0xf306, 0xf30a, 0xf301,
     0xf302, 0xf303, 0xf300, 0xf20c, 0xf206, 0xf200, 0xf200, 0xf50a,
     0xf50b, 0xf200, 0xf200, 0xf200, 0xf200, 0xf200, 0xf200, 0xf200,
     0xf30e, 0xf702, 0xf30d, 0xf200, 0xf701, 0xf205, 0xf114, 0xf603,
     0xf118, 0xf601, 0xf602, 0xf117, 0xf600, 0xf119, 0xf115, 0xf20c,
     0xf11a, 0xf10c, 0xf10d, 0xf11b, 0xf11c, 0xf110, 0xf311, 0xf11d,
     0xf200, 0xf200, 0xf200, 0xf200, 0xf200, 0xf200, 0xf200, 0xf200]"

definition default_key_maps :: "16 word list option list" where
  "default_key_maps =
     [Some plain_map, Some shift_map, Some altgr_map, None, Some ctrl_map, Some shift_ctrl_map, None, None,
      Some alt_map, None, None, None, Some ctrl_alt_map, None]"

definition func_buf :: "byte list" where
  "func_buf =
    [0x1b, 0x5b, 0x5b, 0x41, 0,
     0x1b, 0x5b, 0x5b, 0x42, 0,
     0x1b, 0x5b, 0x5b, 0x43, 0,
     0x1b, 0x5b, 0x5b, 0x44, 0,
     0x1b, 0x5b, 0x5b, 0x45, 0,
     0x1b, 0x5b, 0x31, 0x37, 0x7e, 0,
     0x1b, 0x5b, 0x31, 0x38, 0x7e, 0,
     0x1b, 0x5b, 0x31, 0x39, 0x7e, 0,
     0x1b, 0x5b, 0x32, 0x30, 0x7e, 0,
     0x1b, 0x5b, 0x32, 0x31, 0x7e, 0,
     0x1b, 0x5b, 0x32, 0x33, 0x7e, 0,
     0x1b, 0x5b, 0x32, 0x34, 0x7e, 0,
     0x1b, 0x5b, 0x32, 0x35, 0x7e, 0,
     0x1b, 0x5b, 0x32, 0x36, 0x7e, 0,
     0x1b, 0x5b, 0x32, 0x38, 0x7e, 0,
     0x1b, 0x5b, 0x32, 0x39, 0x7e, 0,
     0x1b, 0x5b, 0x33, 0x31, 0x7e, 0,
     0x1b, 0x5b, 0x33, 0x32, 0x7e, 0,
     0x1b, 0x5b, 0x33, 0x33, 0x7e, 0,
     0x1b, 0x5b, 0x33, 0x34, 0x7e, 0,
     0x1b, 0x5b, 0x31, 0x7e, 0,
     0x1b, 0x5b, 0x32, 0x7e, 0,
     0x1b, 0x5b, 0x33, 0x7e, 0,
     0x1b, 0x5b, 0x34, 0x7e, 0,
     0x1b, 0x5b, 0x35, 0x7e, 0,
     0x1b, 0x5b, 0x36, 0x7e, 0,
     0x1b, 0x5b, 0x4d, 0,
     0x1b, 0x5b, 0x50, 0]"

text \<open>Where the strings start; the rest of the table is NULL.\<close>

definition func_offsets :: "nat option list" where
  "func_offsets =
    [Some 0, Some 5, Some 10, Some 15, Some 20, Some 25, Some 31, Some 37, Some 43, Some 49,
     Some 55, Some 61, Some 67, Some 73, Some 79, Some 85, Some 91, Some 97, Some 103, Some 109,
     Some 115, Some 120, Some 125, Some 130, Some 135, Some 140, Some 145, None, None, Some 149,
     None]"

definition default_accents :: "(byte \<times> byte \<times> byte) list" where
  "default_accents =
    [(0x60, 0x41, 0xc0), (0x60, 0x61, 0xe0), (0x27, 0x41, 0xc1), (0x27, 0x61, 0xe1),
     (0x5e, 0x41, 0xc2), (0x5e, 0x61, 0xe2), (0x7e, 0x41, 0xc3), (0x7e, 0x61, 0xe3),
     (0x22, 0x41, 0xc4), (0x22, 0x61, 0xe4), (0x4f, 0x41, 0xc5), (0x6f, 0x61, 0xe5),
     (0x30, 0x41, 0xc5), (0x30, 0x61, 0xe5), (0x41, 0x41, 0xc5), (0x61, 0x61, 0xe5),
     (0x41, 0x45, 0xc6), (0x61, 0x65, 0xe6), (0x2c, 0x43, 0xc7), (0x2c, 0x63, 0xe7),
     (0x60, 0x45, 0xc8), (0x60, 0x65, 0xe8), (0x27, 0x45, 0xc9), (0x27, 0x65, 0xe9),
     (0x5e, 0x45, 0xca), (0x5e, 0x65, 0xea), (0x22, 0x45, 0xcb), (0x22, 0x65, 0xeb),
     (0x60, 0x49, 0xcc), (0x60, 0x69, 0xec), (0x27, 0x49, 0xcd), (0x27, 0x69, 0xed),
     (0x5e, 0x49, 0xce), (0x5e, 0x69, 0xee), (0x22, 0x49, 0xcf), (0x22, 0x69, 0xef),
     (0x2d, 0x44, 0xd0), (0x2d, 0x64, 0xf0), (0x7e, 0x4e, 0xd1), (0x7e, 0x6e, 0xf1),
     (0x60, 0x4f, 0xd2), (0x60, 0x6f, 0xf2), (0x27, 0x4f, 0xd3), (0x27, 0x6f, 0xf3),
     (0x5e, 0x4f, 0xd4), (0x5e, 0x6f, 0xf4), (0x7e, 0x4f, 0xd5), (0x7e, 0x6f, 0xf5),
     (0x22, 0x4f, 0xd6), (0x22, 0x6f, 0xf6), (0x2f, 0x4f, 0xd8), (0x2f, 0x6f, 0xf8),
     (0x60, 0x55, 0xd9), (0x60, 0x75, 0xf9), (0x27, 0x55, 0xda), (0x27, 0x75, 0xfa),
     (0x5e, 0x55, 0xdb), (0x5e, 0x75, 0xfb), (0x22, 0x55, 0xdc), (0x22, 0x75, 0xfc),
     (0x27, 0x59, 0xdd), (0x27, 0x79, 0xfd), (0x54, 0x48, 0xde), (0x74, 0x68, 0xfe),
     (0x73, 0x73, 0xdf), (0x22, 0x79, 0xff), (0x73, 0x7a, 0xdf), (0x69, 0x6a, 0xff)]"

definition string_at :: "byte list \<Rightarrow> nat \<Rightarrow> byte list" where
  "string_at buf p = takeWhile (\<lambda>c. c \<noteq> 0) (drop p buf)"

definition init_default_kbd_layout :: key_tables where
  "init_default_kbd_layout =
     \<lparr>key_maps = (\<lambda>i. if i < length default_key_maps then default_key_maps ! i else None),
      accent_table = default_accents,
      func_table = (\<lambda>v. if unat v < length func_offsets then map_option (string_at func_buf) (func_offsets ! unat v) else None)\<rparr>"

end
