(* ===== verification/Charsets.thy ===== *)
theory Charsets
  imports Charset_UTF
begin

section \<open>The charsets and their lookup (src/font/charset.c)\<close>

text \<open>
  The operation sets of the 28 charsets in the configuration that has them all, the table of
  them, and the functions that find one by its name.  A pointer to an operation set is
  its index in the table.  The tables of code points that are data are collected in one
  record, which the operation sets that use them take as a parameter.
\<close>

record charset_tables =
  gbunicode_map :: "int \<Rightarrow> UChar32"
  gbkunicode_map :: "int \<Rightarrow> UChar32"
  gb18030_0_unicode_map :: "int \<Rightarrow> UChar32"
  big5_unicode_map :: "int \<Rightarrow> UChar32"
  ksc5601_0_unicode_map :: "int \<Rightarrow> UChar32"
  jisx0208_0_unicode_map :: "int \<Rightarrow> UChar32"
  jisx0208_1_unicode_map :: "int \<Rightarrow> UChar32"
  map_uc16_to_gb :: "int \<Rightarrow> (uchar \<times> uchar) option"
  map_uc16_to_gbk :: "int \<Rightarrow> (uchar \<times> uchar) option"
  map_uc16_to_big5 :: "int \<Rightarrow> (uchar \<times> uchar) option"
  map_ucs_to_gb18030 :: "UChar32 \<Rightarrow> uchar list"

definition CharsetOps_ascii :: "charsetops" where
  "CharsetOps_ascii =
     \<lparr>nr_chars = 128, bytes_maxlen_char = 1, cs_name = ''US-ASCII'', def_char = [32],
      len_first_char = sb_len_first_char, char_offset = sb_char_offset, char_type = sb_char_type,
      nr_chars_in_str = sb_nr_chars_in_str, is_this_charset = ascii_is_this_charset,
      len_first_substr = sb_len_first_substr, get_next_word = (\<lambda>m n. Some (sb_get_next_word m n)),
      pos_first_char = sb_pos_first_char, conv_to_uc32 = ascii_conv_to_uc32, conv_from_uc32 = ascii_conv_from_uc32\<rparr>"

definition CharsetOps_iso8859_1 :: "charsetops" where
  "CharsetOps_iso8859_1 =
     \<lparr>nr_chars = 256, bytes_maxlen_char = 1, cs_name = ''ISO8859-1'', def_char = [32],
      len_first_char = sb_len_first_char, char_offset = sb_char_offset, char_type = sb_char_type,
      nr_chars_in_str = sb_nr_chars_in_str, is_this_charset = iso8859_1_is_this_charset,
      len_first_substr = sb_len_first_substr, get_next_word = (\<lambda>m n. Some (sb_get_next_word m n)),
      pos_first_char = sb_pos_first_char, conv_to_uc32 = iso8859_1_conv_to_uc32, conv_from_uc32 = iso8859_1_conv_from_uc32\<rparr>"

definition CharsetOps_iso8859_2 :: "charsetops" where
  "CharsetOps_iso8859_2 =
     \<lparr>nr_chars = 256, bytes_maxlen_char = 1, cs_name = ''ISO8859-2'', def_char = [32],
      len_first_char = sb_len_first_char, char_offset = sb_char_offset, char_type = sb_char_type,
      nr_chars_in_str = sb_nr_chars_in_str, is_this_charset = iso8859_2_is_this_charset,
      len_first_substr = sb_len_first_substr, get_next_word = (\<lambda>m n. Some (sb_get_next_word m n)),
      pos_first_char = sb_pos_first_char, conv_to_uc32 = iso8859_2_conv_to_uc32, conv_from_uc32 = iso8859_2_conv_from_uc32\<rparr>"

definition CharsetOps_iso8859_3 :: "charsetops" where
  "CharsetOps_iso8859_3 =
     \<lparr>nr_chars = 256, bytes_maxlen_char = 1, cs_name = ''ISO8859-3'', def_char = [32],
      len_first_char = sb_len_first_char, char_offset = sb_char_offset, char_type = sb_char_type,
      nr_chars_in_str = sb_nr_chars_in_str, is_this_charset = iso8859_3_is_this_charset,
      len_first_substr = sb_len_first_substr, get_next_word = (\<lambda>m n. Some (sb_get_next_word m n)),
      pos_first_char = sb_pos_first_char, conv_to_uc32 = iso8859_3_conv_to_uc32, conv_from_uc32 = iso8859_3_conv_from_uc32\<rparr>"

definition CharsetOps_iso8859_4 :: "charsetops" where
  "CharsetOps_iso8859_4 =
     \<lparr>nr_chars = 256, bytes_maxlen_char = 1, cs_name = ''ISO8859-4'', def_char = [32],
      len_first_char = sb_len_first_char, char_offset = sb_char_offset, char_type = sb_char_type,
      nr_chars_in_str = sb_nr_chars_in_str, is_this_charset = iso8859_4_is_this_charset,
      len_first_substr = sb_len_first_substr, get_next_word = (\<lambda>m n. Some (sb_get_next_word m n)),
      pos_first_char = sb_pos_first_char, conv_to_uc32 = iso8859_4_conv_to_uc32, conv_from_uc32 = iso8859_4_conv_from_uc32\<rparr>"

definition CharsetOps_iso8859_5 :: "charsetops" where
  "CharsetOps_iso8859_5 =
     \<lparr>nr_chars = 256, bytes_maxlen_char = 1, cs_name = ''ISO8859-5'', def_char = [32],
      len_first_char = sb_len_first_char, char_offset = sb_char_offset, char_type = sb_char_type,
      nr_chars_in_str = sb_nr_chars_in_str, is_this_charset = iso8859_5_is_this_charset,
      len_first_substr = sb_len_first_substr, get_next_word = (\<lambda>m n. Some (sb_get_next_word m n)),
      pos_first_char = sb_pos_first_char, conv_to_uc32 = iso8859_5_conv_to_uc32, conv_from_uc32 = iso8859_5_conv_from_uc32\<rparr>"

definition CharsetOps_iso8859_6 :: "charsetops" where
  "CharsetOps_iso8859_6 =
     \<lparr>nr_chars = 256, bytes_maxlen_char = 1, cs_name = ''ISO8859-6'', def_char = [32],
      len_first_char = sb_len_first_char, char_offset = sb_char_offset, char_type = sb_char_type,
      nr_chars_in_str = sb_nr_chars_in_str, is_this_charset = iso8859_6_is_this_charset,
      len_first_substr = sb_len_first_substr, get_next_word = (\<lambda>m n. Some (sb_get_next_word m n)),
      pos_first_char = sb_pos_first_char, conv_to_uc32 = iso8859_6_conv_to_uc32, conv_from_uc32 = iso8859_6_conv_from_uc32\<rparr>"

definition CharsetOps_iso8859_7 :: "charsetops" where
  "CharsetOps_iso8859_7 =
     \<lparr>nr_chars = 256, bytes_maxlen_char = 1, cs_name = ''ISO8859-7'', def_char = [32],
      len_first_char = sb_len_first_char, char_offset = sb_char_offset, char_type = sb_char_type,
      nr_chars_in_str = sb_nr_chars_in_str, is_this_charset = iso8859_7_is_this_charset,
      len_first_substr = sb_len_first_substr, get_next_word = (\<lambda>m n. Some (sb_get_next_word m n)),
      pos_first_char = sb_pos_first_char, conv_to_uc32 = iso8859_7_conv_to_uc32, conv_from_uc32 = iso8859_7_conv_from_uc32\<rparr>"

definition CharsetOps_iso8859_8 :: "charsetops" where
  "CharsetOps_iso8859_8 =
     \<lparr>nr_chars = 256, bytes_maxlen_char = 1, cs_name = ''ISO8859-8'', def_char = [32],
      len_first_char = sb_len_first_char, char_offset = sb_char_offset, char_type = sb_char_type,
      nr_chars_in_str = sb_nr_chars_in_str, is_this_charset = iso8859_8_is_this_charset,
      len_first_substr = sb_len_first_substr, get_next_word = (\<lambda>m n. Some (sb_get_next_word m n)),
      pos_first_char = sb_pos_first_char, conv_to_uc32 = iso8859_8_conv_to_uc32, conv_from_uc32 = iso8859_8_conv_from_uc32\<rparr>"

definition CharsetOps_iso8859_9 :: "charsetops" where
  "CharsetOps_iso8859_9 =
     \<lparr>nr_chars = 256, bytes_maxlen_char = 1, cs_name = ''ISO8859-9'', def_char = [32],
      len_first_char = sb_len_first_char, char_offset = sb_char_offset, char_type = sb_char_type,
      nr_chars_in_str = sb_nr_chars_in_str, is_this_charset = iso8859_9_is_this_charset,
      len_first_substr = sb_len_first_substr, get_next_word = (\<lambda>m n. Some (sb_get_next_word m n)),
      pos_first_char = sb_pos_first_char, conv_to_uc32 = iso8859_9_conv_to_uc32, conv_from_uc32 = iso8859_9_conv_from_uc32\<rparr>"

definition CharsetOps_iso8859_10 :: "charsetops" where
  "CharsetOps_iso8859_10 =
     \<lparr>nr_chars = 256, bytes_maxlen_char = 1, cs_name = ''ISO8859-10'', def_char = [32],
      len_first_char = sb_len_first_char, char_offset = sb_char_offset, char_type = sb_char_type,
      nr_chars_in_str = sb_nr_chars_in_str, is_this_charset = iso8859_10_is_this_charset,
      len_first_substr = sb_len_first_substr, get_next_word = (\<lambda>m n. Some (sb_get_next_word m n)),
      pos_first_char = sb_pos_first_char, conv_to_uc32 = iso8859_10_conv_to_uc32, conv_from_uc32 = iso8859_10_conv_from_uc32\<rparr>"

definition CharsetOps_iso8859_11 :: "charsetops" where
  "CharsetOps_iso8859_11 =
     \<lparr>nr_chars = 256, bytes_maxlen_char = 1, cs_name = ''ISO8859-11'', def_char = [32],
      len_first_char = sb_len_first_char, char_offset = sb_char_offset, char_type = sb_char_type,
      nr_chars_in_str = sb_nr_chars_in_str, is_this_charset = iso8859_11_is_this_charset,
      len_first_substr = sb_len_first_substr, get_next_word = (\<lambda>m n. Some (sb_get_next_word m n)),
      pos_first_char = sb_pos_first_char, conv_to_uc32 = iso8859_11_conv_to_uc32, conv_from_uc32 = iso8859_11_conv_from_uc32\<rparr>"

definition CharsetOps_iso8859_13 :: "charsetops" where
  "CharsetOps_iso8859_13 =
     \<lparr>nr_chars = 256, bytes_maxlen_char = 1, cs_name = ''ISO8859-13'', def_char = [32],
      len_first_char = sb_len_first_char, char_offset = sb_char_offset, char_type = sb_char_type,
      nr_chars_in_str = sb_nr_chars_in_str, is_this_charset = iso8859_13_is_this_charset,
      len_first_substr = sb_len_first_substr, get_next_word = (\<lambda>m n. Some (sb_get_next_word m n)),
      pos_first_char = sb_pos_first_char, conv_to_uc32 = iso8859_13_conv_to_uc32, conv_from_uc32 = iso8859_13_conv_from_uc32\<rparr>"

definition CharsetOps_iso8859_14 :: "charsetops" where
  "CharsetOps_iso8859_14 =
     \<lparr>nr_chars = 256, bytes_maxlen_char = 1, cs_name = ''ISO8859-14'', def_char = [32],
      len_first_char = sb_len_first_char, char_offset = sb_char_offset, char_type = sb_char_type,
      nr_chars_in_str = sb_nr_chars_in_str, is_this_charset = iso8859_14_is_this_charset,
      len_first_substr = sb_len_first_substr, get_next_word = (\<lambda>m n. Some (sb_get_next_word m n)),
      pos_first_char = sb_pos_first_char, conv_to_uc32 = iso8859_14_conv_to_uc32, conv_from_uc32 = iso8859_14_conv_from_uc32\<rparr>"

definition CharsetOps_iso8859_15 :: "charsetops" where
  "CharsetOps_iso8859_15 =
     \<lparr>nr_chars = 256, bytes_maxlen_char = 1, cs_name = ''ISO8859-15'', def_char = [32],
      len_first_char = sb_len_first_char, char_offset = sb_char_offset, char_type = sb_char_type,
      nr_chars_in_str = sb_nr_chars_in_str, is_this_charset = iso8859_15_is_this_charset,
      len_first_substr = sb_len_first_substr, get_next_word = (\<lambda>m n. Some (sb_get_next_word m n)),
      pos_first_char = sb_pos_first_char, conv_to_uc32 = iso8859_15_conv_to_uc32, conv_from_uc32 = iso8859_15_conv_from_uc32\<rparr>"

definition CharsetOps_iso8859_16 :: "charsetops" where
  "CharsetOps_iso8859_16 =
     \<lparr>nr_chars = 256, bytes_maxlen_char = 1, cs_name = ''ISO8859-16'', def_char = [32],
      len_first_char = sb_len_first_char, char_offset = sb_char_offset, char_type = sb_char_type,
      nr_chars_in_str = sb_nr_chars_in_str, is_this_charset = iso8859_16_is_this_charset,
      len_first_substr = sb_len_first_substr, get_next_word = (\<lambda>m n. Some (sb_get_next_word m n)),
      pos_first_char = sb_pos_first_char, conv_to_uc32 = iso8859_16_conv_to_uc32, conv_from_uc32 = iso8859_16_conv_from_uc32\<rparr>"

definition CharsetOps_gb2312_0 :: "charset_tables \<Rightarrow> charsetops" where
  "CharsetOps_gb2312_0 T =
     \<lparr>nr_chars = (0xFF-0xA1)*(72 + 9), bytes_maxlen_char = 2, cs_name = ''GB2312-0'', def_char = [0xA1, 0xA1],
      len_first_char = gb2312_0_len_first_char, char_offset = gb2312_0_char_offset, char_type = mb_char_type,
      nr_chars_in_str = db_nr_chars_in_str, is_this_charset = gb2312_0_is_this_charset,
      len_first_substr = gb2312_0_len_first_substr, get_next_word = db_get_next_word,
      pos_first_char = gb2312_0_pos_first_char, conv_to_uc32 = gb2312_0_conv_to_uc32 (gbunicode_map T), conv_from_uc32 = gb2312_0_conv_from_uc32 (map_uc16_to_gb T)\<rparr>"

definition CharsetOps_gbk :: "charset_tables \<Rightarrow> charsetops" where
  "CharsetOps_gbk T =
     \<lparr>nr_chars = (0xFE - 0x80) * 190, bytes_maxlen_char = 2, cs_name = ''GBK'', def_char = [0xA1, 0xA1],
      len_first_char = gbk_len_first_char, char_offset = gbk_char_offset, char_type = mb_char_type,
      nr_chars_in_str = db_nr_chars_in_str, is_this_charset = gbk_is_this_charset,
      len_first_substr = gbk_len_first_substr, get_next_word = db_get_next_word,
      pos_first_char = gbk_pos_first_char, conv_to_uc32 = gbk_conv_to_uc32 (gbkunicode_map T), conv_from_uc32 = gbk_conv_from_uc32 (map_uc16_to_gbk T)\<rparr>"

definition CharsetOps_gb18030_0 :: "charset_tables \<Rightarrow> charsetops" where
  "CharsetOps_gb18030_0 T =
     \<lparr>nr_chars = 1587600 + 23940, bytes_maxlen_char = 4, cs_name = ''GB18030-0'', def_char = [0xA1, 0xA1],
      len_first_char = gb18030_0_len_first_char, char_offset = gb18030_0_char_offset, char_type = mb_char_type,
      nr_chars_in_str = gb18030_0_nr_chars_in_str, is_this_charset = gb18030_0_is_this_charset,
      len_first_substr = gb18030_0_len_first_substr, get_next_word = gb18030_0_get_next_word,
      pos_first_char = gb18030_0_pos_first_char, conv_to_uc32 = gb18030_0_conv_to_uc32 (gb18030_0_unicode_map T), conv_from_uc32 = gb18030_0_conv_from_uc32 (map_ucs_to_gb18030 T)\<rparr>"

definition CharsetOps_big5 :: "charset_tables \<Rightarrow> charsetops" where
  "CharsetOps_big5 T =
     \<lparr>nr_chars = 14758, bytes_maxlen_char = 2, cs_name = ''BIG5'', def_char = [0xA1, 0x40],
      len_first_char = big5_len_first_char, char_offset = big5_char_offset, char_type = mb_char_type,
      nr_chars_in_str = db_nr_chars_in_str, is_this_charset = big5_is_this_charset,
      len_first_substr = big5_len_first_substr, get_next_word = db_get_next_word,
      pos_first_char = big5_pos_first_char, conv_to_uc32 = big5_conv_to_uc32 (big5_unicode_map T), conv_from_uc32 = big5_conv_from_uc32 (map_uc16_to_big5 T)\<rparr>"

definition CharsetOps_ksc5601_0 :: "charset_tables \<Rightarrow> charsetops" where
  "CharsetOps_ksc5601_0 T =
     \<lparr>nr_chars = 8836, bytes_maxlen_char = 2, cs_name = ''EUC-KR'', def_char = [0xA1, 0xA1],
      len_first_char = ksc5601_0_len_first_char, char_offset = ksc5601_0_char_offset, char_type = mb_char_type,
      nr_chars_in_str = db_nr_chars_in_str, is_this_charset = ksc5601_0_is_this_charset,
      len_first_substr = ksc5601_0_len_first_substr, get_next_word = db_get_next_word,
      pos_first_char = ksc5601_0_pos_first_char, conv_to_uc32 = ksc5601_0_conv_to_uc32 (ksc5601_0_unicode_map T), conv_from_uc32 = ksc5601_0_conv_from_uc32\<rparr>"

definition CharsetOps_jisx0201_0 :: "charsetops" where
  "CharsetOps_jisx0201_0 =
     \<lparr>nr_chars = 190, bytes_maxlen_char = 1, cs_name = ''JISX0201-0'', def_char = [32],
      len_first_char = jisx0201_0_len_first_char, char_offset = jisx0201_0_char_offset, char_type = sb_char_type,
      nr_chars_in_str = jisx0201_0_nr_chars_in_str, is_this_charset = jisx0201_0_is_this_charset,
      len_first_substr = sb_len_first_substr, get_next_word = (\<lambda>m n. Some (sb_get_next_word m n)),
      pos_first_char = sb_pos_first_char, conv_to_uc32 = jisx0201_0_conv_to_uc32, conv_from_uc32 = jisx0201_0_conv_from_uc32\<rparr>"

definition CharsetOps_jisx0208_0 :: "charset_tables \<Rightarrow> charsetops" where
  "CharsetOps_jisx0208_0 T =
     \<lparr>nr_chars = 8836, bytes_maxlen_char = 2, cs_name = ''JISX0208-0'', def_char = [0xA1, 0xA1],
      len_first_char = jisx0208_0_len_first_char, char_offset = jisx0208_0_char_offset, char_type = mb_char_type,
      nr_chars_in_str = db_nr_chars_in_str, is_this_charset = jisx0208_0_is_this_charset,
      len_first_substr = jisx0208_0_len_first_substr, get_next_word = db_get_next_word,
      pos_first_char = jisx0208_0_pos_first_char, conv_to_uc32 = jisx0208_0_conv_to_uc32 (jisx0208_0_unicode_map T), conv_from_uc32 = jisx0208_0_conv_from_uc32\<rparr>"

definition CharsetOps_jisx0201_1 :: "charsetops" where
  "CharsetOps_jisx0201_1 =
     \<lparr>nr_chars = 190, bytes_maxlen_char = 1, cs_name = ''JISX0201-1'', def_char = [32],
      len_first_char = sb_len_first_char, char_offset = sb_char_offset, char_type = sb_char_type,
      nr_chars_in_str = sb_nr_chars_in_str, is_this_charset = jisx0201_1_is_this_charset,
      len_first_substr = sb_len_first_substr, get_next_word = (\<lambda>m n. Some (sb_get_next_word m n)),
      pos_first_char = sb_pos_first_char, conv_to_uc32 = jisx0201_1_conv_to_uc32, conv_from_uc32 = jisx0201_1_conv_from_uc32\<rparr>"

definition CharsetOps_jisx0208_1 :: "charset_tables \<Rightarrow> charsetops" where
  "CharsetOps_jisx0208_1 T =
     \<lparr>nr_chars = 8836, bytes_maxlen_char = 2, cs_name = ''JISX0208-1'', def_char = [0xA1, 0xA1],
      len_first_char = jisx0208_1_len_first_char, char_offset = jisx0208_1_char_offset, char_type = mb_char_type,
      nr_chars_in_str = db_nr_chars_in_str, is_this_charset = jisx0208_1_is_this_charset,
      len_first_substr = jisx0208_1_len_first_substr, get_next_word = db_get_next_word,
      pos_first_char = jisx0208_1_pos_first_char, conv_to_uc32 = jisx0208_1_conv_to_uc32 (jisx0208_1_unicode_map T), conv_from_uc32 = jisx0208_1_conv_from_uc32\<rparr>"

definition CharsetOps_utf8 :: "charsetops" where
  "CharsetOps_utf8 =
     \<lparr>nr_chars = 0x7FFFFFFF, bytes_maxlen_char = 6, cs_name = ''UTF-8'', def_char = [32],
      len_first_char = (\<lambda>m n. int (utf8_len_first_char m n)), char_offset = utf8_char_offset, char_type = utf8_char_type,
      nr_chars_in_str = utf8_nr_chars_in_str, is_this_charset = utf8_is_this_charset,
      len_first_substr = utf8_len_first_substr, get_next_word = (\<lambda>m n. Some (utf8_get_next_word m n)),
      pos_first_char = utf8_pos_first_char, conv_to_uc32 = utf8_conv_to_uc32, conv_from_uc32 = utf8_conv_from_uc32\<rparr>"

definition CharsetOps_utf16le :: "charsetops" where
  "CharsetOps_utf16le =
     \<lparr>nr_chars = 0x7FFFFFFF, bytes_maxlen_char = 4, cs_name = ''UTF-16LE'', def_char = [0xA1, 0xA1],
      len_first_char = (\<lambda>m n. int (utf16le_len_first_char m n)), char_offset = utf16le_char_offset, char_type = utf16le_char_type,
      nr_chars_in_str = utf16le_nr_chars_in_str, is_this_charset = utf16le_is_this_charset,
      len_first_substr = utf16le_len_first_substr, get_next_word = (\<lambda>m n. Some (utf16le_get_next_word m n)),
      pos_first_char = utf16le_pos_first_char, conv_to_uc32 = utf16le_conv_to_uc32, conv_from_uc32 = utf16le_conv_from_uc32\<rparr>"

definition CharsetOps_utf16be :: "charsetops" where
  "CharsetOps_utf16be =
     \<lparr>nr_chars = 0x7FFFFFFF, bytes_maxlen_char = 4, cs_name = ''UTF-16BE'', def_char = [0xA1, 0xA1],
      len_first_char = (\<lambda>m n. int (utf16be_len_first_char m n)), char_offset = utf16be_char_offset, char_type = utf16be_char_type,
      nr_chars_in_str = utf16be_nr_chars_in_str, is_this_charset = utf16be_is_this_charset,
      len_first_substr = utf16be_len_first_substr, get_next_word = (\<lambda>m n. Some (utf16be_get_next_word m n)),
      pos_first_char = utf16be_pos_first_char, conv_to_uc32 = utf16be_conv_to_uc32, conv_from_uc32 = utf16be_conv_from_uc32\<rparr>"

definition Charsets :: "charset_tables \<Rightarrow> charsetops list" where
  "Charsets T =
     [CharsetOps_ascii,
      CharsetOps_iso8859_16,
      CharsetOps_iso8859_15,
      CharsetOps_iso8859_14,
      CharsetOps_iso8859_13,
      CharsetOps_iso8859_11,
      CharsetOps_iso8859_10,
      CharsetOps_iso8859_9,
      CharsetOps_iso8859_8,
      CharsetOps_iso8859_7,
      CharsetOps_iso8859_6,
      CharsetOps_iso8859_5,
      CharsetOps_iso8859_4,
      CharsetOps_iso8859_3,
      CharsetOps_iso8859_2,
      CharsetOps_iso8859_1,
      CharsetOps_gb18030_0 T,
      CharsetOps_gbk T,
      CharsetOps_gb2312_0 T,
      CharsetOps_big5 T,
      CharsetOps_ksc5601_0 T,
      CharsetOps_jisx0201_0,
      CharsetOps_jisx0208_0 T,
      CharsetOps_jisx0201_1,
      CharsetOps_jisx0208_1 T,
      CharsetOps_utf8,
      CharsetOps_utf16le,
      CharsetOps_utf16be]"

subsection \<open>Lookup\<close>

text \<open>The loop over the table from index \<open>i\<close> on; \<open>None\<close> when the copy of the name overruns its array.\<close>

fun find_charset :: "charsetops list \<Rightarrow> nat \<Rightarrow> string \<Rightarrow> nat option option" where
  "find_charset [] i charset = Some None"
| "find_charset (ops # rest) i charset =
     (case is_this_charset ops charset of
        None \<Rightarrow> None
      | Some r \<Rightarrow> if r = 0 then Some (Some i) else find_charset rest (i + 1) charset)"

definition GetCharsetOps :: "charset_tables \<Rightarrow> string \<Rightarrow> nat option option" where
  "GetCharsetOps T charset = find_charset (Charsets T) 0 charset"

fun find_name :: "charsetops list \<Rightarrow> nat \<Rightarrow> string \<Rightarrow> nat option" where
  "find_name [] i name = None"
| "find_name (ops # rest) i name = (if cs_name ops = name then Some i else find_name rest (i + 1) name)"

definition GetCharsetOpsEx :: "charset_tables \<Rightarrow> string \<Rightarrow> nat option option" where
  "GetCharsetOpsEx T charset = map_option (find_name (Charsets T) 0) (upper_name charset)"

fun compatible_loop :: "charsetops list \<Rightarrow> nat \<Rightarrow> string \<Rightarrow> nat \<Rightarrow> bool option" where
  "compatible_loop [] i charset ops = Some False"
| "compatible_loop (cs # rest) i charset ops =
     (case is_this_charset cs charset of
        None \<Rightarrow> None
      | Some r \<Rightarrow> if r = 0 \<and> i = ops then Some True else compatible_loop rest (i + 1) charset ops)"

definition IsCompatibleCharset :: "charset_tables \<Rightarrow> string \<Rightarrow> nat \<Rightarrow> bool option" where
  "IsCompatibleCharset T charset ops = compatible_loop (Charsets T) 0 charset ops"

end
