(* ===== verification/Charset_Props.thy ===== *)
theory Charset_Props
  imports Charsets
begin

section \<open>What the charsets promise\<close>

text \<open>
  The double byte charsets as instances of two interfaces: a test for the two bytes of
  a character that no zero byte passes, and an offset that numbers the characters.  Then
  what holds over the whole table: the lengths of characters and the lookup by name.
\<close>

subsection \<open>The loops against the operation on one character\<close>

text \<open>The length of the text that is made of characters from its start: one character after the other.\<close>

function char_run :: "(mstring \<Rightarrow> int \<Rightarrow> int) \<Rightarrow> mstring \<Rightarrow> int \<Rightarrow> int" where
  "char_run len_first m n =
     (if 0 < n \<and> 0 < len_first m n
      then len_first m n + char_run len_first (advance m (nat (len_first m n))) (n - len_first m n)
      else 0)"
  by auto
termination by (relation "measure (\<lambda>(_, _, n). nat n)") auto

declare char_run.simps [simp del]

text \<open>The first position at which a character starts, with no zero byte before it.\<close>

definition char_pos :: "(mstring \<Rightarrow> int \<Rightarrow> int) \<Rightarrow> mstring \<Rightarrow> int \<Rightarrow> int" where
  "char_pos len_first m n =
     (case find (\<lambda>i. len_first (advance m i) (n - int i) \<noteq> 0) (takeWhile (\<lambda>i. m i \<noteq> 0) [0..<nat n]) of
        Some i \<Rightarrow> int i
      | None \<Rightarrow> -1)"

locale double_byte =
  fixes valid :: "uchar \<Rightarrow> uchar \<Rightarrow> bool"
  assumes zero_invalid: "\<not> valid 0 c"
begin

lemma len_first_char_cases:
  "db_len_first_char valid m n = (if 2 \<le> n \<and> valid (m 0) (m 1) then 2 else 0)"
  using zero_invalid by (auto simp: db_len_first_char_def)

lemma substr_loop_run:
  assumes "left = mstrlen - int i"
  shows "db_substr_loop valid m mstrlen i left sub_len
    = sub_len + char_run (db_len_first_char valid) (advance m i) left"
  using assms
proof (induction "nat left" arbitrary: i left sub_len rule: less_induct)
  case less
  show ?case
  proof (cases "2 \<le> left \<and> valid (m i) (m (i + 1))")
    case True
    then have "m i \<noteq> 0" using zero_invalid by auto
    moreover have "db_substr_loop valid m mstrlen (i + 2) (left - 2) (sub_len + 2)
        = sub_len + 2 + char_run (db_len_first_char valid) (advance m (i + 2)) (left - 2)"
      by (rule less.hyps) (use less.prems True in auto)
    ultimately show ?thesis
      using True less.prems
      by (subst db_substr_loop.simps, subst char_run.simps) (simp add: len_first_char_cases)
  next
    case False
    then show ?thesis
      by (subst db_substr_loop.simps, subst char_run.simps) (auto simp: len_first_char_cases)
  qed
qed

lemma len_first_substr_run:
  "db_len_first_substr valid m n = Some (char_run (db_len_first_char valid) m n)"
  by (simp add: db_len_first_substr_def substr_loop_run)

lemma pos_loop_find:
  "db_pos_loop valid m i left =
     (case find (\<lambda>j. db_len_first_char valid (advance m j) (int i + left - int j) \<noteq> 0)
          (takeWhile (\<lambda>j. m j \<noteq> 0) [i..<nat (int i + left)]) of
        Some j \<Rightarrow> int j
      | None \<Rightarrow> -1)"
proof (induction "nat left" arbitrary: i left)
  case 0
  then have "left \<le> 0" by simp
  then show ?case by (subst db_pos_loop.simps) simp
next
  case (Suc k)
  then have l: "1 \<le> left" by simp
  then have u: "[i..<nat (int i + left)] = i # [i + 1..<nat (int i + left)]"
    by (subst upt_conv_Cons) auto
  have IH: "db_pos_loop valid m (i + 1) (left - 1) =
     (case find (\<lambda>j. db_len_first_char valid (advance m j) (int i + left - int j) \<noteq> 0)
          (takeWhile (\<lambda>j. m j \<noteq> 0) [i + 1..<nat (int i + left)]) of
        Some j \<Rightarrow> int j
      | None \<Rightarrow> -1)"
    using Suc.hyps(1) [of "left - 1" "i + 1"] Suc.hyps(2) by (simp add: algebra_simps)
  show ?case
  proof (cases "left = 1")
    case True
    then have "[i + 1..<nat (int i + left)] = []" by simp
    with True u show ?thesis by (subst db_pos_loop.simps) (simp add: len_first_char_cases)
  next
    case False
    with l IH show ?thesis
      unfolding u by (subst db_pos_loop.simps) (simp add: len_first_char_cases)
  qed
qed

lemma pos_first_char_find:
  "db_pos_first_char valid m n = Some (char_pos (db_len_first_char valid) m n)"
  using pos_loop_find [of m 0 n] by (simp add: db_pos_first_char_def char_pos_def)

end

lemmas valid_defs = IS_GB2312_CHAR_def IS_GBK_CHAR_def is_big5_char_def is_ksc5601_char_def
  is_jisx0208_0_char_def is_jisx0208_1_char_def

interpretation gb2312: double_byte IS_GB2312_CHAR by unfold_locales (simp add: valid_defs)
interpretation gbk: double_byte IS_GBK_CHAR by unfold_locales (simp add: valid_defs)
interpretation big5: double_byte is_big5_char by unfold_locales (simp add: valid_defs)
interpretation ksc5601: double_byte is_ksc5601_char by unfold_locales (simp add: valid_defs)
interpretation jisx0208_0: double_byte is_jisx0208_0_char by unfold_locales (simp add: valid_defs)
interpretation jisx0208_1: double_byte is_jisx0208_1_char by unfold_locales (simp add: valid_defs)

lemmas lens_of_charsets = gb2312_0_len_first_char_def gbk_len_first_char_def big5_len_first_char_def
  ksc5601_0_len_first_char_def jisx0208_0_len_first_char_def jisx0208_1_len_first_char_def

lemmas loops_of_charsets =
  gb2312_0_len_first_substr_def gb2312_0_pos_first_char_def gbk_len_first_substr_def gbk_pos_first_char_def
  big5_len_first_substr_def big5_pos_first_char_def ksc5601_0_len_first_substr_def ksc5601_0_pos_first_char_def
  jisx0208_0_len_first_substr_def jisx0208_0_pos_first_char_def
  jisx0208_1_len_first_substr_def jisx0208_1_pos_first_char_def

lemma first_substr_loop_run:
  "first_substr_loop len_first m n sub_len = sub_len + char_run (\<lambda>m n. int (len_first m n)) m n"
proof (induction "nat n" arbitrary: m n sub_len rule: less_induct)
  case less
  show ?case
  proof (cases "0 < n \<and> 0 < len_first m n")
    case True
    then show ?thesis
      using less [of "n - int (len_first m n)" "advance m (len_first m n)" "sub_len + int (len_first m n)"]
      by (subst first_substr_loop.simps, subst char_run.simps) simp
  next
    case False
    then show ?thesis by (subst first_substr_loop.simps, subst char_run.simps) auto
  qed
qed

text \<open>In every charset of two bytes \<open>len_first_substr\<close> and \<open>pos_first_char\<close> do what the operation
  on one character, applied again and again, does: the first is the length of the text that splits
  into characters from its start, the second the first position before a zero byte at which
  a character starts.  In UTF-8 and UTF-16 the first holds as well.  In GB18030 it does not: the
  loop goes on behind four bytes that are no character.\<close>

theorem substr_of_characters:
  "gb2312_0_len_first_substr m n = Some (char_run gb2312_0_len_first_char m n)
   \<and> gb2312_0_pos_first_char m n = Some (char_pos gb2312_0_len_first_char m n)
   \<and> gbk_len_first_substr m n = Some (char_run gbk_len_first_char m n)
   \<and> gbk_pos_first_char m n = Some (char_pos gbk_len_first_char m n)
   \<and> big5_len_first_substr m n = Some (char_run big5_len_first_char m n)
   \<and> big5_pos_first_char m n = Some (char_pos big5_len_first_char m n)
   \<and> ksc5601_0_len_first_substr m n = Some (char_run ksc5601_0_len_first_char m n)
   \<and> ksc5601_0_pos_first_char m n = Some (char_pos ksc5601_0_len_first_char m n)
   \<and> jisx0208_0_len_first_substr m n = Some (char_run jisx0208_0_len_first_char m n)
   \<and> jisx0208_0_pos_first_char m n = Some (char_pos jisx0208_0_len_first_char m n)
   \<and> jisx0208_1_len_first_substr m n = Some (char_run jisx0208_1_len_first_char m n)
   \<and> jisx0208_1_pos_first_char m n = Some (char_pos jisx0208_1_len_first_char m n)
   \<and> utf8_len_first_substr m n = Some (char_run (\<lambda>m n. int (utf8_len_first_char m n)) m n)
   \<and> utf16le_len_first_substr m n = Some (char_run (\<lambda>m n. int (utf16le_len_first_char m n)) m n)
   \<and> utf16be_len_first_substr m n = Some (char_run (\<lambda>m n. int (utf16be_len_first_char m n)) m n)
   \<and> (let bs = mem [0x81, 0x20, 0x41, 0x41, 0x81, 0x40]
      in gb18030_0_len_first_substr bs 6 = Some 2 \<and> char_run gb18030_0_len_first_char bs 6 = 0)"
proof (intro conjI)
  show "let bs = mem [0x81, 0x20, 0x41, 0x41, 0x81, 0x40]
      in gb18030_0_len_first_substr bs 6 = Some 2 \<and> char_run gb18030_0_len_first_char bs 6 = 0"
    by code_simp
qed (simp_all add: loops_of_charsets lens_of_charsets utf8_len_first_substr_def utf16le_len_first_substr_def
    utf16be_len_first_substr_def first_substr_loop_run
    gb2312.len_first_substr_run gb2312.pos_first_char_find gbk.len_first_substr_run gbk.pos_first_char_find
    big5.len_first_substr_run big5.pos_first_char_find ksc5601.len_first_substr_run ksc5601.pos_first_char_find
    jisx0208_0.len_first_substr_run jisx0208_0.pos_first_char_find
    jisx0208_1.len_first_substr_run jisx0208_1.pos_first_char_find)

subsection \<open>The numbers of the characters\<close>

text \<open>A numbering of the characters below \<open>count\<close>, so that a table with \<open>count\<close> entries has one for each.\<close>

locale numbered_charset = double_byte valid for valid :: "uchar \<Rightarrow> uchar \<Rightarrow> bool" +
  fixes offset :: "mstring \<Rightarrow> int" and count :: nat
  assumes offset_range: "valid (m 0) (m 1) \<Longrightarrow> 0 \<le> offset m \<and> offset m < int count"
    and offset_inj: "valid (m 0) (m 1) \<Longrightarrow> valid (m' 0) (m' 1) \<Longrightarrow> offset m = offset m'
      \<Longrightarrow> uint (m 0) = uint (m' 0) \<and> uint (m 1) = uint (m' 1)"
begin

lemma offset_numbers:
  "inj_on (\<lambda>(c1, c2). offset (mem [c1, c2])) {(c1, c2). valid c1 c2}
   \<and> (\<lambda>(c1, c2). offset (mem [c1, c2])) ` {(c1, c2). valid c1 c2} \<subseteq> {0..<int count}"
proof
  show "inj_on (\<lambda>(c1, c2). offset (mem [c1, c2])) {(c1, c2). valid c1 c2}"
  proof (rule inj_onI, clarify)
    fix a b c d
    assume "valid a b" "valid c d" "offset (mem [a, b]) = offset (mem [c, d])"
    with offset_inj [of "mem [a, b]" "mem [c, d]"] have "uint a = uint c \<and> uint b = uint d"
      by (simp add: mem_def)
    then show "a = c \<and> b = d" by (simp add: word_uint_eq_iff)
  qed
  show "(\<lambda>(c1, c2). offset (mem [c1, c2])) ` {(c1, c2). valid c1 c2} \<subseteq> {0..<int count}"
    using offset_range [of "mem [c1, c2]" for c1 c2] by (auto simp: mem_def)
qed

end

lemma as_unsigned_small: "0 \<le> x \<Longrightarrow> x < 100000000 \<Longrightarrow> as_unsigned x = x"
  by (simp add: as_unsigned_def)

lemma top_bit: "(c AND 0x80 \<noteq> 0) \<longleftrightarrow> uint (c :: uchar) \<ge> 0x80"
  by (rule all_uchars) code_simp

lemma grid_inj:
  fixes a b a' b' :: int
  assumes "a * w + b = a' * w + b'" "0 \<le> b" "b < w" "0 \<le> b'" "b' < w"
  shows "a = a' \<and> b = b'"
proof -
  have "w \<noteq> 0" using assms by linarith
  then have "(a * w + b) div w = a" "(a' * w + b') div w = a'"
    using assms(2-5) by (simp_all add: div_pos_pos_trivial)
  with assms(1) show ?thesis by simp
qed

lemma gb2312_offset:
  assumes "IS_GB2312_CHAR (m 0) (m 1)"
  shows "gb2312_0_char_offset m
    = (if uint (m 0) < 0xAA then uint (m 0) - 0xA1 else uint (m 0) - 0xA7) * 94 + (uint (m 1) - 0xA1)"
  using assms by (auto simp: gb2312_0_char_offset_def IS_GB2312_CHAR_def Let_def as_unsigned_small algebra_simps)

interpretation gb2312_glyphs: numbered_charset IS_GB2312_CHAR gb2312_0_char_offset "nr_chars (CharsetOps_gb2312_0 T)"
proof unfold_locales
  fix m m' :: mstring
  assume v: "IS_GB2312_CHAR (m 0) (m 1)"
  then show "0 \<le> gb2312_0_char_offset m \<and> gb2312_0_char_offset m < int (nr_chars (CharsetOps_gb2312_0 T))"
    by (auto simp: gb2312_offset CharsetOps_gb2312_0_def IS_GB2312_CHAR_def)
  assume v': "IS_GB2312_CHAR (m' 0) (m' 1)" and eq: "gb2312_0_char_offset m = gb2312_0_char_offset m'"
  from grid_inj [OF eq [unfolded gb2312_offset [OF v] gb2312_offset [OF v']]]
  show "uint (m 0) = uint (m' 0) \<and> uint (m 1) = uint (m' 1)"
    using v v' by (auto simp: IS_GB2312_CHAR_def split: if_splits)
qed

lemma square_numbered:
  assumes "\<And>c1 c2. valid c1 c2 \<longleftrightarrow> is_ksc5601_char c1 c2"
    and "\<And>m. offset m = ksc5601_0_char_offset m" and "count = 8836"
  shows "numbered_charset valid offset count"
proof unfold_locales
  fix m m' :: mstring and c
  show "\<not> valid 0 c" by (simp add: assms(1) is_ksc5601_char_def)
  have off: "offset m = (uint (m 0) - 0xA1) * 94 + (uint (m 1) - 0xA1)" if "valid (m 0) (m 1)" for m
    using that by (simp add: assms ksc5601_0_char_offset_def is_ksc5601_char_def as_unsigned_small)
  assume v: "valid (m 0) (m 1)"
  then show "0 \<le> offset m \<and> offset m < int count"
    unfolding off [OF v] by (auto simp: assms(1,3) is_ksc5601_char_def)
  assume v': "valid (m' 0) (m' 1)" and eq: "offset m = offset m'"
  from grid_inj [OF eq [unfolded off [OF v] off [OF v']]]
  show "uint (m 0) = uint (m' 0) \<and> uint (m 1) = uint (m' 1)"
    using v v' by (auto simp: assms is_ksc5601_char_def)
qed

interpretation ksc5601_glyphs: numbered_charset is_ksc5601_char ksc5601_0_char_offset "nr_chars (CharsetOps_ksc5601_0 T)"
  by (rule square_numbered) (simp_all add: CharsetOps_ksc5601_0_def)

interpretation jisx0208_0_glyphs: numbered_charset is_jisx0208_0_char jisx0208_0_char_offset "nr_chars (CharsetOps_jisx0208_0 T)"
  by (rule square_numbered)
     (simp_all add: CharsetOps_jisx0208_0_def jisx0208_0_char_offset_def ksc5601_0_char_offset_def
       is_jisx0208_0_char_def is_ksc5601_char_def)

lemma big5_offset:
  assumes "is_big5_char (m 0) (m 1)"
  shows "big5_char_offset m =
    (if uint (m 1) \<ge> 0x80 then (uint (m 0) - 0xA1) * 94 + (uint (m 1) - 0xA1)
     else (uint (m 0) - 0xA1) * 63 + (uint (m 1) - 0x40) + 8836)"
  using assms by (auto simp: big5_char_offset_def top_bit is_big5_char_def as_unsigned_small)

interpretation big5_glyphs: numbered_charset is_big5_char big5_char_offset "nr_chars (CharsetOps_big5 T)"
proof unfold_locales
  fix m m' :: mstring
  assume v: "is_big5_char (m 0) (m 1)"
  then show "0 \<le> big5_char_offset m \<and> big5_char_offset m < int (nr_chars (CharsetOps_big5 T))"
    by (auto simp: big5_offset CharsetOps_big5_def is_big5_char_def)
  assume v': "is_big5_char (m' 0) (m' 1)" and eq: "big5_char_offset m = big5_char_offset m'"
  have r: "uint (m 0) - 0xA1 \<le> 93" "uint (m' 0) - 0xA1 \<le> 93" "0 \<le> uint (m 0) - 0xA1" "0 \<le> uint (m' 0) - 0xA1"
    using v v' by (auto simp: is_big5_char_def)
  show "uint (m 0) = uint (m' 0) \<and> uint (m 1) = uint (m' 1)"
  proof (cases "uint (m 1) \<ge> 0x80"; cases "uint (m' 1) \<ge> 0x80")
    assume a: "uint (m 1) \<ge> 0x80" "uint (m' 1) \<ge> 0x80"
    then have "(uint (m 0) - 0xA1) * 94 + (uint (m 1) - 0xA1) = (uint (m' 0) - 0xA1) * 94 + (uint (m' 1) - 0xA1)"
      using eq unfolding big5_offset [OF v] big5_offset [OF v'] by simp
    from grid_inj [OF this] show ?thesis using v v' a by (auto simp: is_big5_char_def)
  next
    assume a: "\<not> uint (m 1) \<ge> 0x80" "\<not> uint (m' 1) \<ge> 0x80"
    then have "(uint (m 0) - 0xA1) * 63 + (uint (m 1) - 0x40) = (uint (m' 0) - 0xA1) * 63 + (uint (m' 1) - 0x40)"
      using eq unfolding big5_offset [OF v] big5_offset [OF v'] by simp
    from grid_inj [OF this] show ?thesis using v v' a by (auto simp: is_big5_char_def)
  qed (use eq [unfolded big5_offset [OF v] big5_offset [OF v']] r v v' in \<open>auto simp: is_big5_char_def\<close>)
qed

text \<open>The row is twice the number of the first byte and the half the second is in; the cell is the place in the half.\<close>

definition sjis_row :: "int \<Rightarrow> int" where
  "sjis_row a = (if a < 160 then a - 0x81 else a - 0xC1)"

definition sjis_cell :: "int \<Rightarrow> int" where
  "sjis_cell b = (if b < 128 then b - 0x40 else if b < 159 then b - 0x41 else b - 159)"

lemma sjis_row_inj:
  "sjis_row a = sjis_row a' \<Longrightarrow> a < 160 \<or> 0xE0 \<le> a \<Longrightarrow> a' < 160 \<or> 0xE0 \<le> a' \<Longrightarrow> a = a'"
  by (auto simp: sjis_row_def split: if_splits)

lemma sjis_cell_inj:
  "sjis_cell b = sjis_cell b' \<Longrightarrow> b < 159 \<longleftrightarrow> b' < 159 \<Longrightarrow> b \<noteq> 0x7F \<Longrightarrow> b' \<noteq> 0x7F \<Longrightarrow> b = b'"
  by (auto simp: sjis_cell_def split: if_splits)

lemma half_inj:
  fixes x y :: int
  assumes "2 * x + (if p then 0 else 1) = 2 * y + (if q then 0 else 1)"
  shows "x = y \<and> p = q"
proof -
  have "p = q" using assms by (cases p; cases q) (simp; presburger)+
  then show ?thesis using assms by simp
qed

lemma jisx0208_1_offset:
  assumes "is_jisx0208_1_char (m 0) (m 1)"
  shows "jisx0208_1_char_offset m =
    (2 * sjis_row (uint (m 0)) + (if uint (m 1) < 159 then 0 else 1)) * 94 + sjis_cell (uint (m 1))"
proof -
  define a b where "a = uint (m 0)" and "b = uint (m 1)"
  have r: "0x81 \<le> a" "a \<le> 0xEF" "a < 160 \<or> 0xE0 \<le> a" "0x40 \<le> b" "b \<le> 0xFC" "b \<noteq> 0x7F"
    using assms by (auto simp: is_jisx0208_1_char_def a_def b_def)
  let ?adj = "if b < 159 then 1 else 0 :: int"
  let ?row = "((a - (if a < 160 then 112 else 176)) * 2 - ?adj) mod 256"
  let ?cell = "(b - (if ?adj \<noteq> 0 then if b > 127 then 32 else 31 else 126)) mod 256"
  have row: "(?row + 128) mod 256 = (a - (if a < 160 then 112 else 176)) * 2 - ?adj + 128"
    using r by (auto simp: mod_add_left_eq)
  have cell: "(?cell + 128) mod 256 = b - (if ?adj \<noteq> 0 then if b > 127 then 32 else 31 else 126) + 128"
    using r by (auto simp: mod_add_left_eq)
  have "jisx0208_1_char_offset m = as_unsigned (((?row + 128) mod 256 - 0xA1) * 94 + (?cell + 128) mod 256 - 0xA1)"
    by (simp add: jisx0208_1_char_offset_def a_def b_def Let_def)
  also have "\<dots> = ((a - (if a < 160 then 112 else 176)) * 2 - ?adj + 128 - 0xA1) * 94
      + (b - (if ?adj \<noteq> 0 then if b > 127 then 32 else 31 else 126) + 128) - 0xA1"
    unfolding row cell using r by (intro as_unsigned_small) auto
  also have "\<dots> = (2 * sjis_row a + (if b < 159 then 0 else 1)) * 94 + sjis_cell b"
    using r by (auto simp: sjis_row_def sjis_cell_def)
  finally show ?thesis by (simp add: a_def b_def)
qed

interpretation jisx0208_1_glyphs: numbered_charset is_jisx0208_1_char jisx0208_1_char_offset "nr_chars (CharsetOps_jisx0208_1 T)"
proof unfold_locales
  fix m m' :: mstring
  assume v: "is_jisx0208_1_char (m 0) (m 1)"
  then show "0 \<le> jisx0208_1_char_offset m \<and> jisx0208_1_char_offset m < int (nr_chars (CharsetOps_jisx0208_1 T))"
    unfolding jisx0208_1_offset [OF v]
    by (auto simp: CharsetOps_jisx0208_1_def is_jisx0208_1_char_def sjis_row_def sjis_cell_def)
  assume v': "is_jisx0208_1_char (m' 0) (m' 1)" and eq: "jisx0208_1_char_offset m = jisx0208_1_char_offset m'"
  have c: "0 \<le> sjis_cell (uint (m 1))" "sjis_cell (uint (m 1)) < 94" "0 \<le> sjis_cell (uint (m' 1))" "sjis_cell (uint (m' 1)) < 94"
    using v v' by (auto simp: is_jisx0208_1_char_def sjis_cell_def)
  from grid_inj [OF eq [unfolded jisx0208_1_offset [OF v] jisx0208_1_offset [OF v']] c]
  have rows: "2 * sjis_row (uint (m 0)) + (if uint (m 1) < 159 then 0 else 1)
      = 2 * sjis_row (uint (m' 0)) + (if uint (m' 1) < 159 then 0 else 1)"
    and cells: "sjis_cell (uint (m 1)) = sjis_cell (uint (m' 1))"
    by blast+
  from half_inj [OF rows] have "uint (m 0) = uint (m' 0)" "uint (m 1) < 159 \<longleftrightarrow> uint (m' 1) < 159"
    using sjis_row_inj v v' by (auto simp: is_jisx0208_1_char_def)
  moreover from sjis_cell_inj [OF cells this(2)] have "uint (m 1) = uint (m' 1)"
    using v v' by (auto simp: is_jisx0208_1_char_def)
  ultimately show "uint (m 0) = uint (m' 0) \<and> uint (m 1) = uint (m' 1)" by simp
qed

end
