(* ===== verification/Charset_Unicode.thy ===== *)
theory Charset_Unicode
  imports Charset_Props
begin

section \<open>What UTF-8, UTF-16 and GB18030 preserve, and when their loops end\<close>

text \<open>
  The code points that come back from their encoding, and an exact account of when the loops
  that count the characters return: a loop that is stuck at a state is shown to be \<open>None\<close> by
  induction over its approximations.
\<close>

subsection \<open>Bits as numbers\<close>

lemma or_concat: "push_bit n a OR take_bit n b = a * 2 ^ n + take_bit n (b :: int)"
  using concat_bit_eq [of n b a] by (simp add: concat_bit_def push_bit_eq_mult or.commute add.commute)

lemma and_masks: "x AND 0x3F = x mod 64" "x AND 0x3FF = x mod 1024" for x :: int
  using take_bit_eq_mask [of 6 x] take_bit_eq_mask [of 10 x] by (simp_all add: take_bit_eq_mod mask_eq_exp_minus_1)

lemma or_64: "0 \<le> b \<Longrightarrow> b < 64 \<Longrightarrow> push_bit 6 a OR b = a * 64 + (b :: int)"
  using or_concat [of 6 a b] by (simp add: take_bit_eq_mod)

lemma or_1024: "0 \<le> b \<Longrightarrow> b < 1024 \<Longrightarrow> push_bit 10 a OR b = a * 1024 + (b :: int)"
  using or_concat [of 10 a b] by (simp add: take_bit_eq_mod)

lemma wrap_shift: "0 \<le> a \<Longrightarrow> a * 64 < 2 ^ 31 \<Longrightarrow> signed_take_bit 31 (push_bit 6 a) = push_bit 6 (a :: int)"
  by (simp add: signed_take_bit_int_eq_self push_bit_eq_mult)

subsection \<open>UTF-8\<close>

text \<open>What the code reads in a continuation byte, and in a lead byte of \<open>n\<close> bytes.\<close>

definition continuation_ok :: "int \<Rightarrow> bool" where
  "continuation_ok x \<longleftrightarrow>
     (let t = uint (word_of_int (x OR 0x80) :: uchar) in t AND 0x80 \<noteq> 0 \<and> t AND 0x40 = 0 \<and> t AND 0x3F = x)"

definition lead_ok :: "int \<Rightarrow> nat \<Rightarrow> int \<Rightarrow> bool" where
  "lead_ok lead n x \<longleftrightarrow>
     (let c = uint (word_of_int (x OR lead) :: uchar)
      in \<not> c < 0x80 \<and> c AND 0x80 \<noteq> 0 \<and> lead_ones c 1 = n \<and> c AND (push_bit (8 - n) 1 - 1) = x)"

lemma continuation: "0 \<le> x \<Longrightarrow> x < 64 \<Longrightarrow> continuation_ok x"
proof -
  have "list_all continuation_ok [0..63]" by code_simp
  then show "0 \<le> x \<Longrightarrow> x < 64 \<Longrightarrow> continuation_ok x" by (simp add: list_all_iff del: upto_rec_numeral)
qed

lemma lead:
  "0 \<le> x \<Longrightarrow> x < 32 \<Longrightarrow> lead_ok 0xC0 2 x"
  "0 \<le> x \<Longrightarrow> x < 16 \<Longrightarrow> lead_ok 0xE0 3 x"
  "0 \<le> x \<Longrightarrow> x < 8 \<Longrightarrow> lead_ok 0xF0 4 x"
  "0 \<le> x \<Longrightarrow> x < 4 \<Longrightarrow> lead_ok 0xF8 5 x"
  "0 \<le> x \<Longrightarrow> x < 2 \<Longrightarrow> lead_ok 0xFC 6 x"
proof -
  have "list_all (lead_ok 0xC0 2) [0..31]" "list_all (lead_ok 0xE0 3) [0..15]" "list_all (lead_ok 0xF0 4) [0..7]"
    "list_all (lead_ok 0xF8 5) [0..3]" "list_all (lead_ok 0xFC 6) [0..1]"
    by code_simp+
  then show "0 \<le> x \<Longrightarrow> x < 32 \<Longrightarrow> lead_ok 0xC0 2 x" "0 \<le> x \<Longrightarrow> x < 16 \<Longrightarrow> lead_ok 0xE0 3 x"
    "0 \<le> x \<Longrightarrow> x < 8 \<Longrightarrow> lead_ok 0xF0 4 x" "0 \<le> x \<Longrightarrow> x < 4 \<Longrightarrow> lead_ok 0xF8 5 x"
    "0 \<le> x \<Longrightarrow> x < 2 \<Longrightarrow> lead_ok 0xFC 6 x"
    by (simp_all add: list_all_iff del: upto_rec_numeral)
qed

definition tail_bytes :: "nat \<Rightarrow> int \<Rightarrow> uchar list" where
  "tail_bytes n wc = map (\<lambda>k. word_of_int (wc div 64 ^ k mod 64 OR 0x80)) (rev [0..<n])"

lemma tail_bytes_Suc: "tail_bytes (Suc n) wc = word_of_int (wc div 64 ^ n mod 64 OR 0x80) # tail_bytes n wc"
  by (simp add: tail_bytes_def)

lemma tail_bytes_snoc: "tail_bytes (Suc n) wc = tail_bytes n (wc div 64) @ [word_of_int (wc mod 64 OR 0x80)]"
  by (induction n) (simp_all add: tail_bytes_Suc tail_bytes_def zdiv_zmult2_eq)

lemma fill_bytes:
  "utf8_fill n wc lead bs = word_of_int (wc div 64 ^ n OR lead) # tail_bytes n wc @ bs"
proof (induction n arbitrary: wc bs)
  case 0
  then show ?case by (simp add: tail_bytes_def)
next
  case (Suc n)
  then show ?case
    by (simp add: tail_bytes_snoc and_masks drop_bit_eq_div zdiv_zmult2_eq)
qed

lemma tail_ok: "utf8_tail_ok (mem (tail_bytes n wc @ bs)) n"
proof (induction n)
  case (Suc n)
  then show ?case
    using continuation [of "wc div 64 ^ n mod 64"] by (simp add: tail_bytes_Suc continuation_ok_def Let_def)
qed simp

lemma conv_loop_tail:
  assumes "0 \<le> a" and "(a + 1) * 64 ^ n \<le> 2 ^ 31"
  shows "utf8_conv_loop (mem (tail_bytes n wc @ bs)) n a = a * 64 ^ n + wc mod 64 ^ n"
  using assms
proof (induction n arbitrary: a)
  case (Suc n)
  let ?x = "wc div 64 ^ n mod 64"
  have x: "0 \<le> ?x" "?x < 64" by simp_all
  have "(1 :: int) \<le> 64 ^ n" by simp
  with Suc.prems have "(a + 1) * 64 * 1 \<le> (a + 1) * 64 * 64 ^ n" by (intro mult_left_mono) auto
  moreover have pow: "(a + 1) * 64 * 64 ^ n = (a + 1) * 64 ^ Suc n" by simp
  ultimately have a64: "(a + 1) * 64 \<le> 2 ^ 31" using Suc.prems(2) by linarith
  have "(a * 64 + ?x + 1) * 64 ^ n \<le> (a + 1) * 64 * 64 ^ n" using x by (intro mult_right_mono) auto
  then have b: "(a * 64 + ?x + 1) * 64 ^ n \<le> 2 ^ 31" using Suc.prems(2) pow by linarith
  have "utf8_conv_loop (mem (tail_bytes (Suc n) wc @ bs)) (Suc n) a
      = utf8_conv_loop (mem (tail_bytes n wc @ bs)) n (push_bit 6 a OR ?x)"
    using continuation [OF x] wrap_shift [of a] a64 Suc.prems(1)
    by (simp add: tail_bytes_Suc continuation_ok_def Let_def)
  also have "\<dots> = (a * 64 + ?x) * 64 ^ n + wc mod 64 ^ n"
    using Suc.IH [of "a * 64 + ?x"] b Suc.prems(1) x by (simp add: or_64)
  also have "\<dots> = a * 64 ^ Suc n + wc mod 64 ^ Suc n"
    using zmod_zmult2_eq [of 64 wc "64 ^ n"] by (simp add: algebra_simps)
  finally show ?case .
qed (simp add: tail_bytes_def)

text \<open>A character of \<open>n + 1\<close> bytes with a lead byte that says so.\<close>

lemma lead_and_tail:
  assumes "lead_ok lead (Suc n) (wc div 64 ^ n)" and "0 \<le> wc" and "wc < 2 ^ 31" and "n \<le> 5"
  shows "utf8_conv_to_uc32 (mem (utf8_fill n wc lead [])) = wc
    \<and> utf8_len_first_char (mem (utf8_fill n wc lead [])) (int (length (utf8_fill n wc lead []))) = Suc n"
proof -
  have len: "length (tail_bytes n wc) = n" by (simp add: tail_bytes_def)
  have "utf8_conv_loop (mem (tail_bytes n wc @ [])) n (wc div 64 ^ n) = wc div 64 ^ n * 64 ^ n + wc mod 64 ^ n"
  proof (rule conv_loop_tail)
    have "n \<in> {0, 1, 2, 3, 4, 5}" using assms(4) by auto
    then show "(wc div 64 ^ n + 1) * 64 ^ n \<le> 2 ^ 31" using assms(2,3) by (elim insertE emptyE; simp; presburger)
    show "0 \<le> wc div 64 ^ n" using assms(2) by (simp add: pos_imp_zdiv_nonneg_iff)
  qed
  then have "utf8_conv_loop (mem (tail_bytes n wc)) n (wc div 64 ^ n) = wc"
    unfolding div_mult_mod_eq append_Nil2 .
  then show ?thesis
    using assms(1) tail_ok [of n wc "[]"] len
    by (simp add: fill_bytes lead_ok_def utf8_conv_to_uc32_def utf8_len_first_char_def Let_def)
qed

lemma utf8_round_trip:
  assumes "0 \<le> wc" and "wc < 2 ^ 31"
  shows "utf8_conv_to_uc32 (mem (utf8_conv_from_uc32 wc)) = wc
    \<and> utf8_len_first_char (mem (utf8_conv_from_uc32 wc)) (int (length (utf8_conv_from_uc32 wc)))
        = length (utf8_conv_from_uc32 wc)"
proof -
  have len: "length (utf8_fill n wc l []) = Suc n" for n l by (simp add: fill_bytes tail_bytes_def)
  have long: ?thesis if "utf8_conv_from_uc32 wc = utf8_fill n wc l []" "lead_ok l (Suc n) (wc div 64 ^ n)" "n \<le> 5" for n l
    using lead_and_tail [OF that(2) assms that(3)] by (simp add: that(1) len)
  consider "wc < 0x80" | "0x80 \<le> wc" "wc < 0x800" | "0x800 \<le> wc" "wc < 0x10000"
    | "0x10000 \<le> wc" "wc < 0x200000" | "0x200000 \<le> wc" "wc < 0x400000" | "0x400000 \<le> wc"
    by linarith
  then show ?thesis
  proof cases
    case 1
    then have u: "uint (word_of_int wc :: uchar) = wc" using assms by (intro uint_word_of_int_byte) auto
    have "wc AND 0x80 = 0" using ascii_top_bit [of "word_of_int wc"] 1 unfolding u by simp
    with u show ?thesis
      using 1 by (simp add: utf8_conv_from_uc32_def utf8_conv_to_uc32_def utf8_len_first_char_def)
  next
    case 2 then show ?thesis by (intro long [of 1 "0xC0"]) (simp_all add: utf8_conv_from_uc32_def lead(1) [unfolded numeral_2_eq_2])
  next
    case 3 then show ?thesis using assms by (intro long [of 2 "0xE0"]) (simp_all add: utf8_conv_from_uc32_def lead)
  next
    case 4 then show ?thesis using assms by (intro long [of 3 "0xF0"]) (simp_all add: utf8_conv_from_uc32_def lead)
  next
    case 5 then show ?thesis using assms by (intro long [of 4 "0xF8"]) (simp_all add: utf8_conv_from_uc32_def lead)
  next
    case 6 then show ?thesis using assms by (intro long [of 5 "0xFC"]) (simp_all add: utf8_conv_from_uc32_def lead)
  qed
qed

subsection \<open>UTF-16\<close>

lemma MAKEWORD_sum: "MAKEWORD low high = uint low + 256 * uint high"
  using or_concat [of 8 "uint high" "uint low"]
  by (simp add: MAKEWORD_def take_bit_eq_mod or.commute)

lemma MAKEWORD_bytes: "MAKEWORD (LOBYTE w) (HIBYTE w) = w mod 2 ^ 16"
proof -
  have "w AND 0xFFFF = w mod 2 ^ 16" "x AND 0xFF = x mod 2 ^ 8" for x :: int
    using take_bit_eq_mask [of 16 w] take_bit_eq_mask [of 8 x] by (simp_all add: take_bit_eq_mod mask_eq_exp_minus_1)
  then have "MAKEWORD (LOBYTE w) (HIBYTE w) = w mod 256 + 256 * (w mod 65536 div 256 mod 256)"
    by (simp add: MAKEWORD_sum LOBYTE_def HIBYTE_def uint_word_of_int drop_bit_eq_div)
  also have "\<dots> = w mod 65536"
    by (simp add: zmod_zmult2_eq [of 256 w 256, simplified] mod_div_trivial) 
  finally show ?thesis by simp
qed

text \<open>A code point of one unit, and of two: the high surrogate is not masked when it is read.\<close>

lemma utf16_single:
  assumes "0 \<le> wc" and "wc < 0x10000"
  shows "utf16le_conv_to_uc32 (mem (utf16le_conv_from_uc32 wc)) = utf16be_conv_to_uc32 (mem (utf16be_conv_from_uc32 wc))
    \<and> (utf16le_conv_to_uc32 (mem (utf16le_conv_from_uc32 wc)) = wc \<longleftrightarrow> \<not> (0xD800 \<le> wc \<and> wc \<le> 0xDFFF))"
proof -
  have w: "MAKEWORD (LOBYTE wc) (HIBYTE wc) = wc" using assms by (simp add: MAKEWORD_bytes)
  have "(push_bit 10 wc OR (x mod 1024)) + 0x10000 \<noteq> wc" if "0xD800 \<le> wc" for x
    using or_1024 [of "x mod 1024" wc] that assms pos_mod_sign [of 1024 x] pos_mod_bound [of 1024 x] by simp
  then show ?thesis using assms w
    by (auto simp: utf16le_conv_to_uc32_def utf16be_conv_to_uc32_def utf16le_conv_from_uc32_def
        utf16be_conv_from_uc32_def mem_def Let_def and_masks)
qed

lemma utf16_pair:
  assumes "0x10000 \<le> wc" and "wc \<le> 0x10FFFF"
  shows "utf16le_conv_to_uc32 (mem (utf16le_conv_from_uc32 wc)) = wc + 0x3600000"
    and "utf16be_conv_to_uc32 (mem (utf16be_conv_from_uc32 wc)) = wc + 0x3600000"
proof -
  obtain x where wc: "wc = x + 0x10000" by (metis diff_add_cancel)
  have x: "0 \<le> x div 1024" "x div 1024 < 1024" "0 \<le> x mod 1024" "x mod 1024 < 1024"
    using assms by (simp_all add: wc)
  have w1: "0xD800 OR drop_bit 10 x = 0xD800 + x div 1024"
    using or_1024 [of "x div 1024" 54] x by (simp add: drop_bit_eq_div)
  have w2: "0xDC00 OR (x AND 0x3FF) = 0xDC00 + x mod 1024"
    using or_1024 [of "x mod 1024" 55] x by (simp add: and_masks)
  have m1: "MAKEWORD (LOBYTE (0xD800 + x div 1024)) (HIBYTE (0xD800 + x div 1024)) = 0xD800 + x div 1024"
    and m2: "MAKEWORD (LOBYTE (0xDC00 + x mod 1024)) (HIBYTE (0xDC00 + x mod 1024)) = 0xDC00 + x mod 1024"
    using x by (simp_all add: MAKEWORD_bytes)
  have "(55 * 1024 + x mod 1024) mod 1024 = x mod 1024" by (simp only: mod_mult_self3 mod_mod_trivial)
  then have low: "(0xDC00 + x mod 1024) mod 1024 = x mod 1024" by simp
  have joined: "push_bit 10 (0xD800 + x div 1024) OR (x mod 1024) = x + 0x3600000"
    using or_1024 [of "x mod 1024" "0xD800 + x div 1024"] x div_mult_mod_eq [of x 1024] by simp
  have from_le: "utf16le_conv_from_uc32 wc = [LOBYTE (0xD800 + x div 1024), HIBYTE (0xD800 + x div 1024),
      LOBYTE (0xDC00 + x mod 1024), HIBYTE (0xDC00 + x mod 1024)]"
    and from_be: "utf16be_conv_from_uc32 wc = [HIBYTE (0xD800 + x div 1024), LOBYTE (0xD800 + x div 1024),
      HIBYTE (0xDC00 + x mod 1024), LOBYTE (0xDC00 + x mod 1024)]"
    using assms by (simp_all add: utf16le_conv_from_uc32_def utf16be_conv_from_uc32_def Let_def wc w1 w2)
  show "utf16le_conv_to_uc32 (mem (utf16le_conv_from_uc32 wc)) = wc + 0x3600000"
    and "utf16be_conv_to_uc32 (mem (utf16be_conv_from_uc32 wc)) = wc + 0x3600000"
    unfolding from_le from_be using x
    by (simp_all add: utf16le_conv_to_uc32_def utf16be_conv_to_uc32_def mem_def Let_def m1 m2 and_masks low joined wc)
qed

subsection \<open>GB18030\<close>

lemma gb18030_four_bytes:
  assumes "uint a \<ge> 0x90" and "uint b < 0x40"
  shows "gb18030_0_conv_to_uc32 table (mem [a, b, c, d])
    = (uint a - 144) * 12600 + (uint b - 48) * 1260 + (uint c - 129) * 10 + (uint d - 48) + 65536"
  using assms by (simp add: gb18030_0_conv_to_uc32_def mem_def)

lemma digits_back:
  "a * 12600 + b * 1260 + c * 10 + d = x \<Longrightarrow>
    (a + 144 - 144) * 12600 + (b + 48 - 48) * 1260 + (c + 129 - 129) * 10 + (d + 48 - 48) + 65536 = x + (65536 :: int)"
  by simp

lemma gb18030_supplementary:
  assumes "0x10000 \<le> wc" and "wc \<le> 0x10FFFF"
  shows "gb18030_0_conv_to_uc32 table (mem (gb18030_0_conv_from_uc32 map_ucs wc)) = wc"
proof -
  obtain x where wc: "wc = x + 65536" by (metis diff_add_cancel)
  have r: "0 \<le> x" "x < 0x100000" using assms by (simp_all add: wc)
  let ?m1 = "x div 12600" and ?n1 = "x mod 12600"
  let ?m2 = "?n1 div 1260" and ?n2 = "?n1 mod 1260"
  have b: "0 \<le> ?m1" "?m1 < 84" "0 \<le> ?m2" "?m2 < 10" "0 \<le> ?n2 div 10" "?n2 div 10 < 126" "0 \<le> ?n2 mod 10" "?n2 mod 10 < 10"
    using r by (simp_all add: pos_imp_zdiv_nonneg_iff div_less_iff_less_mult) 
  have bytes: "gb18030_0_conv_from_uc32 map_ucs wc = [word_of_int (?m1 + 144), word_of_int (?m2 + 48),
      word_of_int (?n2 div 10 + 129), word_of_int (?n2 mod 10 + 48)]"
    using assms by (simp add: gb18030_0_conv_from_uc32_def Let_def wc)
  have u: "uint (word_of_int (?m1 + 144) :: uchar) = ?m1 + 144" "uint (word_of_int (?m2 + 48) :: uchar) = ?m2 + 48"
    "uint (word_of_int (?n2 div 10 + 129) :: uchar) = ?n2 div 10 + 129"
    "uint (word_of_int (?n2 mod 10 + 48) :: uchar) = ?n2 mod 10 + 48"
    by (rule uint_word_of_int_byte; use b in linarith)+
  have "uint (word_of_int (?m1 + 144) :: uchar) \<ge> 0x90" "uint (word_of_int (?m2 + 48) :: uchar) < 0x40"
    unfolding u using b by linarith+
  note decoded = gb18030_four_bytes [OF this, of table "word_of_int (?n2 div 10 + 129)" "word_of_int (?n2 mod 10 + 48)",
    unfolded u]
  have "?m1 * 12600 + ?m2 * 1260 + ?n2 div 10 * 10 + ?n2 mod 10 = x"
    using div_mult_mod_eq [of x 12600] div_mult_mod_eq [of ?n1 1260] div_mult_mod_eq [of ?n2 10] by linarith
  then have "gb18030_0_conv_to_uc32 table (mem (gb18030_0_conv_from_uc32 map_ucs wc)) = x + 65536"
    unfolding bytes decoded by (rule digits_back)
  then show ?thesis unfolding wc .
qed

text \<open>C39.  A code point below \<open>2 ^ 31\<close> comes back from its UTF-8 bytes, which are measured as one character.
  GB18030 brings back every supplementary code point.  UTF-16 brings back exactly the code points of one
  unit that are not surrogates: every supplementary one is read \<open>0x3600000\<close> too high, in both byte orders.\<close>

theorem unicode_round_trips:
  "{wc. 0 \<le> wc \<and> wc < 2 ^ 31 \<and> utf8_conv_to_uc32 (mem (utf8_conv_from_uc32 wc)) \<noteq> wc} = {}
   \<and> {wc. 0 \<le> wc \<and> wc < 2 ^ 31 \<and>
        utf8_len_first_char (mem (utf8_conv_from_uc32 wc)) (int (length (utf8_conv_from_uc32 wc)))
          \<noteq> length (utf8_conv_from_uc32 wc)} = {}
   \<and> {wc. 0x10000 \<le> wc \<and> wc \<le> 0x10FFFF \<and>
        gb18030_0_conv_to_uc32 table (mem (gb18030_0_conv_from_uc32 map_ucs wc)) \<noteq> wc} = {}
   \<and> {wc. 0 \<le> wc \<and> wc \<le> 0x10FFFF \<and> utf16le_conv_to_uc32 (mem (utf16le_conv_from_uc32 wc)) = wc}
       = {0..0xD7FF} \<union> {0xE000..0xFFFF}
   \<and> {wc. 0 \<le> wc \<and> wc \<le> 0x10FFFF \<and> utf16be_conv_to_uc32 (mem (utf16be_conv_from_uc32 wc)) = wc}
       = {0..0xD7FF} \<union> {0xE000..0xFFFF}
   \<and> {wc. 0x10000 \<le> wc \<and> wc \<le> 0x10FFFF \<and>
        utf16le_conv_to_uc32 (mem (utf16le_conv_from_uc32 wc)) = wc + 0x3600000 \<and>
        utf16be_conv_to_uc32 (mem (utf16be_conv_from_uc32 wc)) = wc + 0x3600000} = {0x10000..0x10FFFF}"
proof (intro conjI)
  have one_unit: "(utf16le_conv_to_uc32 (mem (utf16le_conv_from_uc32 wc)) = wc
        \<longleftrightarrow> wc \<in> {0..0xD7FF} \<union> {0xE000..0xFFFF})
      \<and> (utf16be_conv_to_uc32 (mem (utf16be_conv_from_uc32 wc)) = wc
        \<longleftrightarrow> wc \<in> {0..0xD7FF} \<union> {0xE000..0xFFFF})" if "0 \<le> wc" "wc \<le> 0x10FFFF" for wc
    using that utf16_single [of wc] utf16_pair [of wc] by (cases "wc < 0x10000") auto
  then show "{wc. 0 \<le> wc \<and> wc \<le> 0x10FFFF \<and> utf16le_conv_to_uc32 (mem (utf16le_conv_from_uc32 wc)) = wc}
      = {0..0xD7FF} \<union> {0xE000..0xFFFF}"
    and "{wc. 0 \<le> wc \<and> wc \<le> 0x10FFFF \<and> utf16be_conv_to_uc32 (mem (utf16be_conv_from_uc32 wc)) = wc}
      = {0..0xD7FF} \<union> {0xE000..0xFFFF}"
    by force+
qed (use utf8_round_trip gb18030_supplementary utf16_pair in auto)

subsection \<open>When the loops return\<close>

text \<open>The number of the characters a text splits into from its start.\<close>

function char_count :: "(mstring \<Rightarrow> int \<Rightarrow> int) \<Rightarrow> mstring \<Rightarrow> int \<Rightarrow> int" where
  "char_count len_first m n =
     (if 0 < n \<and> 0 < len_first m n
      then 1 + char_count len_first (advance m (nat (len_first m n))) (n - len_first m n)
      else 0)"
  by auto
termination by (relation "measure (\<lambda>(_, _, n). nat n)") auto

declare char_count.simps [simp del]

lemma count_loop_stuck:
  assumes "len_first m left = 0" and "0 \<le> left"
  shows "count_loop len_first m left n = None"
proof (rule ccontr)
  assume "count_loop len_first m left n \<noteq> None"
  then obtain r where r: "count_loop len_first m left n = Some r" by blast
  have "\<not> (len_first m left = 0 \<and> 0 \<le> left)"
  proof (rule count_loop.raw_induct [OF _ r, where P = "\<lambda>len_first m left n r. \<not> (len_first m left = 0 \<and> 0 \<le> left)"],
      goal_cases)
    case (1 loop lf m left n r)
    show ?case
    proof
      assume a: "lf m left = 0 \<and> 0 \<le> left"
      with 1(2) have "loop lf m left n = Some r" by (simp add: Let_def)
      from 1(1) [OF this] a show False by simp
    qed
  qed
  with assms show False by simp
qed

lemma utf16_pos_stuck:
  assumes "len_first m n = 0" and "0 < n"
  shows "utf16_pos_loop len_first m n pos = None"
proof (rule ccontr)
  assume "utf16_pos_loop len_first m n pos \<noteq> None"
  then obtain r where r: "utf16_pos_loop len_first m n pos = Some r" by blast
  have "\<not> (len_first m n = 0 \<and> 0 < n)"
  proof (rule utf16_pos_loop.raw_induct [OF _ r, where P = "\<lambda>len_first m n pos r. \<not> (len_first m n = 0 \<and> 0 < n)"],
      goal_cases)
    case (1 loop lf m n pos r)
    show ?case
    proof
      assume a: "lf m n = 0 \<and> 0 < n"
      with 1(2) have "loop lf m n pos = Some r" by (simp add: Let_def)
      from 1(1) [OF this] a show False by simp
    qed
  qed
  with assms show False by simp
qed

text \<open>With an operation that finds no character in an empty text, the count returns only if the last character overshoots.\<close>

lemma count_loop_overshoots:
  assumes "\<And>m. len_first m 0 = 0" and "0 \<le> left"
  shows "count_loop len_first m left n =
    (if left < char_run (\<lambda>m n. int (len_first m n)) m left
     then Some (n + char_count (\<lambda>m n. int (len_first m n)) m left) else None)"
  using assms(2)
proof (induction "nat left" arbitrary: m left n rule: less_induct)
  case less
  let ?k = "len_first m left"
  show ?case
  proof (cases "?k = 0")
    case True
    then show ?thesis
      using count_loop_stuck [of len_first m left n] True less.prems by (subst char_run.simps) simp
  next
    case False
    then have pos: "0 < left" using assms(1) [of m] less.prems by (cases "left = 0") auto
    have step: "count_loop len_first m left n = count_loop len_first (advance m ?k) (left - int ?k) (n + 1)"
      using False less.prems by (subst count_loop.simps) (simp add: Let_def)
    have run: "char_run (\<lambda>m n. int (len_first m n)) m left
        = int ?k + char_run (\<lambda>m n. int (len_first m n)) (advance m ?k) (left - int ?k)"
      "char_count (\<lambda>m n. int (len_first m n)) m left
        = 1 + char_count (\<lambda>m n. int (len_first m n)) (advance m ?k) (left - int ?k)"
      using False pos by (subst char_run.simps char_count.simps, simp)+
    show ?thesis
    proof (cases "left < int ?k")
      case True
      then have "char_run (\<lambda>m n. int (len_first m n)) (advance m ?k) (left - int ?k) = 0"
        "char_count (\<lambda>m n. int (len_first m n)) (advance m ?k) (left - int ?k) = 0"
        by (subst char_run.simps char_count.simps, simp)+
      moreover have "count_loop len_first (advance m ?k) (left - int ?k) (n + 1) = Some (n + 1)"
        using True by (subst count_loop.simps) simp
      ultimately show ?thesis using True by (simp add: step run)
    next
      case le: False
      with less.hyps [of "left - int ?k" "advance m ?k" "n + 1"] False pos show ?thesis
        by (simp add: step run)
    qed
  qed
qed

text \<open>UTF-8 finds an ASCII character of one byte in an empty text too, so its last step reads the byte behind the text.\<close>

lemma lead_ones_ge: "n \<le> lead_ones c n"
  by (induction c n rule: lead_ones.induct) (subst lead_ones.simps, auto simp del: lead_ones.simps)

lemma utf8_len_le: "0 < left \<Longrightarrow> int (utf8_len_first_char m left) \<le> left"
  by (auto simp: utf8_len_first_char_def Let_def)

lemma utf8_len_empty: "utf8_len_first_char m 0 = (if uint (m 0) < 0x80 then 1 else 0)"
  using lead_ones_ge [of 1 "uint (m 0)"] by (auto simp: utf8_len_first_char_def Let_def)

lemma utf8_count_loop:
  assumes "0 \<le> left"
  shows "count_loop utf8_len_first_char m left n =
    (if char_run (\<lambda>m n. int (utf8_len_first_char m n)) m left = left \<and> uint (m (nat left)) < 0x80
     then Some (n + char_count (\<lambda>m n. int (utf8_len_first_char m n)) m left + 1) else None)"
  using assms
proof (induction "nat left" arbitrary: m left n rule: less_induct)
  case less
  let ?k = "utf8_len_first_char m left"
  show ?case
  proof (cases "?k = 0")
    case True
    have "char_run (\<lambda>m n. int (utf8_len_first_char m n)) m left = 0"
      using True by (subst char_run.simps) simp
    moreover have "left = 0 \<Longrightarrow> \<not> uint (m (nat left)) < 0x80"
      using True by (auto simp: utf8_len_empty split: if_splits)
    ultimately show ?thesis using count_loop_stuck [of utf8_len_first_char m left n] True less.prems by auto
  next
    case False
    have step: "count_loop utf8_len_first_char m left n
        = count_loop utf8_len_first_char (advance m ?k) (left - int ?k) (n + 1)"
      using False less.prems by (subst count_loop.simps) (simp add: Let_def)
    show ?thesis
    proof (cases "left = 0")
      case True
      with False have "?k = 1" "uint (m 0) < 0x80" by (auto simp: utf8_len_empty split: if_splits)
      moreover have "count_loop utf8_len_first_char (advance m 1) (-1) (n + 1) = Some (n + 1)"
        by (subst count_loop.simps) simp
      moreover have "char_run (\<lambda>m n. int (utf8_len_first_char m n)) m 0 = 0"
        "char_count (\<lambda>m n. int (utf8_len_first_char m n)) m 0 = 0"
        by (subst char_run.simps char_count.simps, simp)+
      ultimately show ?thesis using step True by simp
    next
      case pos: False
      with less.prems have le: "int ?k \<le> left" by (intro utf8_len_le) simp
      have run: "char_run (\<lambda>m n. int (utf8_len_first_char m n)) m left
          = int ?k + char_run (\<lambda>m n. int (utf8_len_first_char m n)) (advance m ?k) (left - int ?k)"
        "char_count (\<lambda>m n. int (utf8_len_first_char m n)) m left
          = 1 + char_count (\<lambda>m n. int (utf8_len_first_char m n)) (advance m ?k) (left - int ?k)"
        using False pos less.prems by (subst char_run.simps char_count.simps, simp)+
      have at: "?k + nat (left - int ?k) = nat left" using le by simp
      show ?thesis
        using less.hyps [of "left - int ?k" "advance m ?k" "n + 1"] False pos less.prems le
        by (simp add: step run at)
    qed
  qed
qed

lemma utf16_len_empty: "utf16le_len_first_char m 0 = 0" "utf16be_len_first_char m 0 = 0"
  by (simp_all add: utf16le_len_first_char_def utf16be_len_first_char_def)

lemma utf16_pos_loop_value:
  "0 < n \<Longrightarrow> utf16_pos_loop len_first m n 0 = (if 0 < len_first m n then Some 0 else None)"
  using utf16_pos_stuck [of len_first m n 0] by (subst utf16_pos_loop.simps) (auto simp: Let_def)

text \<open>C40.  When the loops with the test \<open>left >= 0\<close> return.  In UTF-8 the count returns only if the text
  splits into characters to its end and the byte behind it is ASCII, and it is then one too
  high.  In UTF-16 it returns only if the last character is longer than what is left, so for no well formed
  text.  The search for the first character in UTF-16 does not return when the text does not start with one.\<close>

theorem character_counts_return:
  assumes "0 < n"
  shows "utf8_nr_chars_in_str m n =
      (if char_run (\<lambda>m n. int (utf8_len_first_char m n)) m n = n \<and> uint (m (nat n)) < 0x80
       then Some (char_count (\<lambda>m n. int (utf8_len_first_char m n)) m n + 1) else None)
    \<and> utf16le_nr_chars_in_str m n =
      (if n < char_run (\<lambda>m n. int (utf16le_len_first_char m n)) m n
       then Some (char_count (\<lambda>m n. int (utf16le_len_first_char m n)) m n) else None)
    \<and> utf16be_nr_chars_in_str m n =
      (if n < char_run (\<lambda>m n. int (utf16be_len_first_char m n)) m n
       then Some (char_count (\<lambda>m n. int (utf16be_len_first_char m n)) m n) else None)
    \<and> utf16le_pos_first_char m n = (if 0 < utf16le_len_first_char m n then Some 0 else None)
    \<and> utf16be_pos_first_char m n = (if 0 < utf16be_len_first_char m n then Some 0 else None)"
  using assms utf8_count_loop [of n m 0]
    count_loop_overshoots [of utf16le_len_first_char n m 0, OF utf16_len_empty(1)]
    count_loop_overshoots [of utf16be_len_first_char n m 0, OF utf16_len_empty(2)]
  by (simp add: utf8_nr_chars_in_str_def utf16le_nr_chars_in_str_def utf16be_nr_chars_in_str_def
      utf16le_pos_first_char_def utf16be_pos_first_char_def utf16_pos_loop_value)

text \<open>The text \<open>AB\<close> has three characters in UTF-8, and in UTF-16 its count does not return.\<close>

lemma ab_runs:
  "char_run (\<lambda>m n. int (utf8_len_first_char m n)) (mem [65, 66]) 2 = 2"
  "char_count (\<lambda>m n. int (utf8_len_first_char m n)) (mem [65, 66]) 2 = 2"
  "char_run (\<lambda>m n. int (utf16le_len_first_char m n)) (mem [65, 66]) 2 = 2"
  "uint (mem [65, 66] 2) = 0"
  by code_simp+

lemma character_counts_return_witness:
  "utf8_nr_chars_in_str (mem [65, 66]) 2 = Some 3 \<and> utf16le_nr_chars_in_str (mem [65, 66]) 2 = None"
  using character_counts_return [of 2 "mem [65, 66]"] by (simp add: ab_runs)

end
