(* ===== verification/Message_Sync.thy ===== *)
theory Message_Sync
  imports Message
begin

section \<open>Dispatching, synchronous messages and throwing messages away (src/kernel/message.c)\<close>

text \<open>
  The nodes of synchronous messages are on the stacks of their senders, linked through
  \<open>s_next\<close>: they are modelled as a heap of nodes with the queue's head and tail pointers, since
  \<open>ThrowAwayMessages\<close> unlinks nodes from the middle of the list.  \<open>addr\<close> is the address of
  the sender's node.
\<close>

definition DispatchMessage :: "extern \<Rightarrow> msg \<Rightarrow> gui \<Rightarrow> int \<times> gui" where
  "DispatchMessage ext m g =
     (let answer = (\<lambda>r g. case m_pAdd m of
                       None \<Rightarrow> g
                     | Some a \<Rightarrow> sem_post (s_sem (syncs g a))
                                   (g\<lparr>syncs := (syncs g)(a := (syncs g a)\<lparr>s_retval := r\<rparr>)\<rparr>))
      in if m_hwnd m = HWND_INVALID then (-1, answer ERR_MSG_CANCELED g)
         else if m_hwnd m = 0 then (-1, g)
         else case (case wins g (m_hwnd m) of None \<Rightarrow> None | Some w \<Rightarrow> MainWindowProc w) of
           None \<Rightarrow> (-1, g)
         | Some p \<Rightarrow>
             (let (iRet, g) = wnd_proc ext p (m_hwnd m) (m_message m) (m_wParam m) (m_lParam m) g
              in (iRet, answer iRet g)))"

definition link_node :: "nat \<Rightarrow> nat option \<Rightarrow> gui \<Rightarrow> gui" where
  "link_node a n g = g\<lparr>syncs := (syncs g)(a := (syncs g a)\<lparr>s_next := n\<rparr>)\<rparr>"

text \<open>\<open>SendSyncMessage\<close> up to the post: the node is queued at the end of the list.\<close>

definition queue_sync :: "nat \<Rightarrow> nat \<Rightarrow> msg \<Rightarrow> sem \<Rightarrow> gui \<Rightarrow> gui" where
  "queue_sync k addr m s g =
     (let g = g\<lparr>syncs := (syncs g)(addr := \<lparr>s_msg = m, s_retval = ERR_MSG_CANCELED, s_sem = s, s_next = None\<rparr>)\<rparr>;
          g = (case pFirstSyncMsg (queues g k) of
                 None \<Rightarrow> upd_queue k (\<lambda>q. q\<lparr>pFirstSyncMsg := Some addr, pLastSyncMsg := Some addr\<rparr>) g
               | Some _ \<Rightarrow>
                   upd_queue k (\<lambda>q. q\<lparr>pLastSyncMsg := Some addr\<rparr>)
                     (case pLastSyncMsg (queues g k) of
                        None \<Rightarrow> g | Some l \<Rightarrow> link_node l (Some addr) g))
      in POST_MSGQ k (upd_queue k (set_flag QS_SYNCMSG) g))"

text \<open>The loop in which the sender first handles the synchronous messages sent to itself.  When it finds the list empty it clears the
  bit after it has released the lock, in a read and a write.\<close>

partial_function (option) drain_sync :: "extern \<Rightarrow> nat \<Rightarrow> gui \<Rightarrow> gui option" where
  "drain_sync ext k g =
     (if has_flag (queues g k) QS_SYNCMSG then
        (case pFirstSyncMsg (queues g k) of
           Some a \<Rightarrow>
             (let m = (s_msg (syncs g a))\<lparr>m_pAdd := Some a\<rparr>;
                  g = upd_queue k (\<lambda>q. q\<lparr>pFirstSyncMsg := s_next (syncs g a)\<rparr>) g;
                  g = translate_message ext m g
              in drain_sync ext k (snd (DispatchMessage ext m g)))
         | None \<Rightarrow>
             (let g = meanwhile ext 0 g;
                  state = dwState (queues g k);
                  g = meanwhile ext 1 g
              in Some (upd_queue k (\<lambda>q. q\<lparr>dwState := state AND NOT QS_SYNCMSG\<rparr>) g)))
      else Some g)"

definition SendSyncMessage ::
  "extern \<Rightarrow> nat \<Rightarrow> nat \<Rightarrow> acts \<Rightarrow> hwnd \<Rightarrow> int \<Rightarrow> dword \<Rightarrow> dword \<Rightarrow> gui \<Rightarrow> (int \<times> gui) option" where
  "SendSyncMessage ext me addr acts hWnd iMsg wParam lParam g =
     (case GetMsgQueue g hWnd of
        None \<Rightarrow> Some (ERR_INV_HWND, g)
      | Some k \<Rightarrow>
          (let thinfo = thread_queue g me;
               s = (case thinfo of Some t \<Rightarrow> SemSync t | None \<Rightarrow> SemStack addr);
               g = (if thinfo = None then g\<lparr>sems := (sems g)(s := 0)\<rparr> else g);
               g = queue_sync k addr (make_msg hWnd iMsg wParam lParam) s g
           in case (case thinfo of None \<Rightarrow> Some g | Some t \<Rightarrow> drain_sync ext t g) of
                None \<Rightarrow> None
              | Some g \<Rightarrow>
                  (case sem_wait s acts g of
                     None \<Rightarrow> None
                   | Some (_, g) \<Rightarrow> Some (s_retval (syncs g addr), g))))"

definition PostSyncMessage ::
  "extern \<Rightarrow> nat \<Rightarrow> nat \<Rightarrow> acts \<Rightarrow> hwnd \<Rightarrow> int \<Rightarrow> dword \<Rightarrow> dword \<Rightarrow> gui \<Rightarrow> (int \<times> gui) option" where
  "PostSyncMessage ext me addr acts hWnd iMsg wParam lParam g =
     (if \<not> MG_IS_WINDOW g hWnd then Some (-1, g)
      else if BE_THIS_THREAD g me hWnd then Some (-1, g)
      else SendSyncMessage ext me addr acts hWnd iMsg wParam lParam g)"

definition SendAsyncMessage ::
  "extern \<Rightarrow> hwnd \<Rightarrow> int \<Rightarrow> dword \<Rightarrow> dword \<Rightarrow> gui \<Rightarrow> int \<times> gui" where
  "SendAsyncMessage ext hWnd iMsg wParam lParam g =
     (if \<not> MG_IS_WINDOW g hWnd then (-1, g)
      else case (case wins g hWnd of None \<Rightarrow> None | Some w \<Rightarrow> MainWindowProc w) of
        None \<Rightarrow> (-1, g)
      | Some p \<Rightarrow> wnd_proc ext p hWnd iMsg wParam lParam g)"

definition SendMessage ::
  "extern \<Rightarrow> nat \<Rightarrow> nat \<Rightarrow> acts \<Rightarrow> hwnd \<Rightarrow> int \<Rightarrow> dword \<Rightarrow> dword \<Rightarrow> gui \<Rightarrow> (int \<times> gui) option" where
  "SendMessage ext me addr acts hWnd iMsg wParam lParam g =
     (if \<not> MG_IS_WINDOW g hWnd then Some (-1, g)
      else if \<not> BE_THIS_THREAD g me hWnd then SendSyncMessage ext me addr acts hWnd iMsg wParam lParam g
      else case (case wins g hWnd of None \<Rightarrow> None | Some w \<Rightarrow> MainWindowProc w) of
        None \<Rightarrow> Some (ERR_INV_HWND, g)
      | Some p \<Rightarrow> Some (wnd_proc ext p hWnd iMsg wParam lParam g))"

text \<open>
  The walk of \<open>ThrowAwayMessages\<close> over the synchronous messages, with the previous node, the
  current one and the count so far.
\<close>

partial_function (option) throw_sync ::
  "hwnd \<Rightarrow> nat \<Rightarrow> nat option \<Rightarrow> nat option \<Rightarrow> int \<Rightarrow> gui \<Rightarrow> (int \<times> gui) option" where
  "throw_sync hWnd k prev cur n g =
     (case cur of
        None \<Rightarrow> Some (n, g)
      | Some a \<Rightarrow>
          (let c = syncs g a in
           if of_window g hWnd (m_hwnd (s_msg c)) then
             (let c = c\<lparr>s_msg := (s_msg c)\<lparr>m_hwnd := HWND_INVALID\<rparr>, s_retval := ERR_MSG_CANCELED\<rparr>;
                  g = g\<lparr>syncs := (syncs g)(a := c)\<rparr>
              in case prev of
                   Some p \<Rightarrow>
                     (let g = sem_post (s_sem c) (link_node p (s_next c) g)
                      in throw_sync hWnd k (Some a) (s_next (syncs g a)) (n + 1) g)
                 | None \<Rightarrow>
                     (let g = sem_post (s_sem c) (upd_queue k (\<lambda>q. q\<lparr>pFirstSyncMsg := s_next c\<rparr>) g)
                      in throw_sync hWnd k None (s_next c) (n + 1) g))
           else throw_sync hWnd k (Some a) (s_next c) n g))"

definition throw_msg :: "gui \<Rightarrow> hwnd \<Rightarrow> msg \<Rightarrow> msg" where
  "throw_msg g hWnd m = (if of_window g hWnd (m_hwnd m) then m\<lparr>m_hwnd := HWND_INVALID\<rparr> else m)"

definition thrown :: "gui \<Rightarrow> hwnd \<Rightarrow> msg list \<Rightarrow> int" where
  "thrown g hWnd ms = int (length (filter (\<lambda>m. of_window g hWnd (m_hwnd m)) ms))"

text \<open>The pass over the pending slots of the ring.\<close>

definition throw_posts :: "gui \<Rightarrow> hwnd \<Rightarrow> msgqueue \<Rightarrow> msgqueue" where
  "throw_posts g hWnd q = fold (\<lambda>i q. q\<lparr>qmsg := (qmsg q)[i := throw_msg g hWnd (qmsg q ! i)]\<rparr>) (pending q) q"

definition throw_timer :: "hwnd \<Rightarrow> nat \<Rightarrow> nat \<Rightarrow> gui \<Rightarrow> gui" where
  "throw_timer hWnd k slot g =
     (if TimerMask (queues g k) AND slot_bit slot \<noteq> 0 \<and> of_window g hWnd (mg_get_timer_hwnd g (int slot))
      then RemoveMsgQueueTimerFlag k slot g else g)"

definition ThrowAwayMessages :: "hwnd \<Rightarrow> gui \<Rightarrow> (int \<times> gui) option" where
  "ThrowAwayMessages hWnd g =
     (case queue_of_deleted g hWnd of
        None \<Rightarrow> Some (ERR_INV_HWND, g)
      | Some k \<Rightarrow>
          (let nCountN = thrown g hWnd (pFirstNotifyMsg (queues g k));
               g = upd_queue k (\<lambda>q. q\<lparr>pFirstNotifyMsg := map (throw_msg g hWnd) (pFirstNotifyMsg q)\<rparr>) g
           in case throw_sync hWnd k None (pFirstSyncMsg (queues g k)) 0 g of
                None \<Rightarrow> None
              | Some (nCountS, g) \<Rightarrow>
                  (let nCountP = thrown g hWnd (posted (queues g k));
                       g = upd_queue k (throw_posts g hWnd) g;
                       g = fold (throw_timer hWnd k) [0..<DEF_NR_TIMERS] g
                   in Some (nCountN + nCountS + nCountP, g))))"

text \<open>\<open>DestroyMsgQueue\<close> frees the nodes and the buffer; of the queue's fields it writes only \<open>msg\<close>.\<close>

definition DestroyMsgQueue :: "msgqueue \<Rightarrow> msgqueue" where
  "DestroyMsgQueue q = q\<lparr>qmsg := []\<rparr>"

end
