(* ===== verification/Timer_Props.thy ===== *)
theory Timer_Props
  imports Timer
begin

section \<open>Timers: the table is a bounded map, and its clock does not drift\<close>

text \<open>
  The table refines a map from (window, identifier) to timers that holds at most 32 entries
  (\<open>timer_map\<close>); the locale \<open>bounded_map\<close> is the interface, interpreted on the operations of
  timer.c.  \<open>DispatchTimerMessage\<close> acts on each timer alone, and a timer of speed \<open>s\<close>
  expires once every \<open>s\<close> ticks.
\<close>

subsection \<open>The interface of a bounded map\<close>

locale bounded_map =
  fixes lookup :: "'s \<Rightarrow> 'k \<Rightarrow> 'v option"
    and put :: "'k \<Rightarrow> 'v \<Rightarrow> 's \<Rightarrow> bool \<times> 's"
    and del :: "'k \<Rightarrow> 's \<Rightarrow> 's"
    and ok :: "'s \<Rightarrow> bool"
    and key_ok :: "'k \<Rightarrow> bool"
    and cap :: nat
  assumes finite_dom: "ok s \<Longrightarrow> finite (dom (lookup s)) \<and> card (dom (lookup s)) \<le> cap"
    and put_ok: "ok s \<Longrightarrow> key_ok k \<Longrightarrow> ok (snd (put k v s))"
    and put_iff: "ok s \<Longrightarrow> fst (put k v s) \<longleftrightarrow> lookup s k = None \<and> card (dom (lookup s)) < cap"
    and put_lookup: "ok s \<Longrightarrow>
      lookup (snd (put k v s)) = (if fst (put k v s) then (lookup s)(k \<mapsto> v) else lookup s)"
    and del_ok: "ok s \<Longrightarrow> key_ok k \<Longrightarrow> ok (del k s)"
    and del_lookup: "ok s \<Longrightarrow> key_ok k \<Longrightarrow> lookup (del k s) = (lookup s)(k := None)"
begin

lemma put_twice:
  assumes "ok s" "key_ok k" "fst (put k v s)"
  shows "\<not> fst (put k w (snd (put k v s)))"
  using assms put_iff [OF put_ok [OF assms(1,2)]] put_lookup [OF assms(1), of k v] by simp

lemma put_del:
  assumes "ok s" "key_ok k" "fst (put k v s)"
  shows "lookup (del k (snd (put k v s))) = lookup s"
  using assms del_lookup [OF put_ok [OF assms(1,2)] assms(2)] put_lookup [OF assms(1), of k v] put_iff [OF assms(1)]
  by (auto simp: fun_eq_iff)

lemma del_frees:
  assumes "ok s" "key_ok k" "lookup s k \<noteq> None"
  shows "fst (put k w (del k s))"
proof -
  have "card (dom (lookup s) - {k}) < card (dom (lookup s))"
    using finite_dom [OF assms(1)] assms(3) by (intro card_Diff1_less) auto
  then show ?thesis
    using put_iff [OF del_ok [OF assms(1,2)]] del_lookup [OF assms(1,2)] finite_dom [OF assms(1)]
    by simp
qed

end

subsection \<open>The table of timers as a map\<close>

definition t_key :: "timer \<Rightarrow> hwnd \<times> int" where
  "t_key t = (t_hWnd t, t_id t)"

definition timers_ok :: "gui \<Rightarrow> bool" where
  "timers_ok g \<longleftrightarrow>
     length (timerstr g) = DEF_NR_TIMERS
     \<and> (\<forall>i < DEF_NR_TIMERS. \<forall>j < DEF_NR_TIMERS. \<forall>t u.
          timerstr g ! i = Some t \<and> timerstr g ! j = Some u \<and> t_key t = t_key u \<longrightarrow> i = j)"

definition timer_slot :: "gui \<Rightarrow> hwnd \<times> int \<Rightarrow> nat option" where
  "timer_slot g k = find (\<lambda>i. is_timer (fst k) (snd k) (timerstr g ! i)) [0..<DEF_NR_TIMERS]"

definition timer_map :: "gui \<Rightarrow> hwnd \<times> int \<Rightarrow> timer option" where
  "timer_map g k = (case timer_slot g k of None \<Rightarrow> None | Some i \<Rightarrow> timerstr g ! i)"

lemma is_timer_key: "is_timer h i t \<longleftrightarrow> (\<exists>u. t = Some u \<and> t_key u = (h, i))"
  by (auto simp: is_timer_def t_key_def split: option.splits)

lemma timer_slot_Some:
  assumes "timers_ok g"
  shows "timer_slot g k = Some i \<longleftrightarrow> i < DEF_NR_TIMERS \<and> (\<exists>t. timerstr g ! i = Some t \<and> t_key t = k)"
proof
  assume "timer_slot g k = Some i"
  then show "i < DEF_NR_TIMERS \<and> (\<exists>t. timerstr g ! i = Some t \<and> t_key t = k)"
    by (auto simp: timer_slot_def find_Some_iff is_timer_key)
next
  assume r: "i < DEF_NR_TIMERS \<and> (\<exists>t. timerstr g ! i = Some t \<and> t_key t = k)"
  then have "timer_slot g k \<noteq> None"
    by (auto simp: timer_slot_def find_None_iff is_timer_key)
  then obtain j where j: "timer_slot g k = Some j" by blast
  then have "j < DEF_NR_TIMERS" "\<exists>t. timerstr g ! j = Some t \<and> t_key t = k"
    by (auto simp: timer_slot_def find_Some_iff is_timer_key)
  then have "j = i" using r assms by (auto simp: timers_ok_def)
  then show "timer_slot g k = Some i" using j by simp
qed

lemma timer_map_Some:
  assumes "timers_ok g"
  shows "timer_map g k = Some t \<longleftrightarrow> (\<exists>i < DEF_NR_TIMERS. timerstr g ! i = Some t \<and> t_key t = k)"
proof
  assume "timer_map g k = Some t"
  then obtain i where i: "timer_slot g k = Some i" "timerstr g ! i = Some t"
    by (auto simp: timer_map_def split: option.splits)
  then show "\<exists>i < DEF_NR_TIMERS. timerstr g ! i = Some t \<and> t_key t = k"
    using timer_slot_Some [OF assms, of k i] by auto
next
  assume "\<exists>i < DEF_NR_TIMERS. timerstr g ! i = Some t \<and> t_key t = k"
  then obtain i where "timer_slot g k = Some i" "timerstr g ! i = Some t"
    using timer_slot_Some [OF assms] by blast
  then show "timer_map g k = Some t" by (simp add: timer_map_def)
qed

lemma timer_map_None:
  assumes "timers_ok g"
  shows "timer_map g k = None \<longleftrightarrow> (\<forall>i < DEF_NR_TIMERS. \<forall>t. timerstr g ! i = Some t \<longrightarrow> t_key t \<noteq> k)"
  using timer_map_Some [OF assms, of k] by (metis not_None_eq)

definition timer_slots :: "gui \<Rightarrow> nat set" where
  "timer_slots g = {i. i < DEF_NR_TIMERS \<and> timerstr g ! i \<noteq> None}"

lemma dom_timer_map:
  assumes "timers_ok g"
  shows "dom (timer_map g) = (\<lambda>i. t_key (the (timerstr g ! i))) ` timer_slots g"
proof (rule set_eqI)
  fix k
  have "k \<in> dom (timer_map g) \<longleftrightarrow> (\<exists>i t. i < DEF_NR_TIMERS \<and> timerstr g ! i = Some t \<and> t_key t = k)"
    using timer_map_Some [OF assms, of k] by (auto simp: dom_def)
  also have "\<dots> \<longleftrightarrow> k \<in> (\<lambda>i. t_key (the (timerstr g ! i))) ` timer_slots g"
    by (force simp: timer_slots_def image_iff)
  finally show "k \<in> dom (timer_map g) \<longleftrightarrow> k \<in> (\<lambda>i. t_key (the (timerstr g ! i))) ` timer_slots g" .
qed

lemma card_timer_map:
  assumes "timers_ok g"
  shows "card (dom (timer_map g)) = card (timer_slots g)"
  unfolding dom_timer_map [OF assms]
proof (rule card_image, rule inj_onI)
  fix i j
  assume i: "i \<in> timer_slots g" and j: "j \<in> timer_slots g"
    and k: "t_key (the (timerstr g ! i)) = t_key (the (timerstr g ! j))"
  obtain t u where "timerstr g ! i = Some t" "timerstr g ! j = Some u"
    using i j by (auto simp: timer_slots_def)
  moreover from this have "t_key t = t_key u" using k by simp
  moreover have "i < DEF_NR_TIMERS" "j < DEF_NR_TIMERS" using i j by (auto simp: timer_slots_def)
  ultimately show "i = j" using assms unfolding timers_ok_def by blast
qed

lemma card_timer_slots: "card (timer_slots g) < DEF_NR_TIMERS \<longleftrightarrow> (\<exists>i < DEF_NR_TIMERS. timerstr g ! i = None)"
proof -
  have sub: "timer_slots g \<subseteq> {..<DEF_NR_TIMERS}" by (auto simp: timer_slots_def)
  then have "card (timer_slots g) \<le> DEF_NR_TIMERS" using card_mono [OF _ sub] by simp
  moreover have "card (timer_slots g) = DEF_NR_TIMERS \<longleftrightarrow> timer_slots g = {..<DEF_NR_TIMERS}"
    using card_subset_eq [OF finite_lessThan sub] by (metis card_lessThan)
  ultimately have "card (timer_slots g) < DEF_NR_TIMERS \<longleftrightarrow> timer_slots g \<noteq> {..<DEF_NR_TIMERS}"
    by linarith
  also have "\<dots> \<longleftrightarrow> (\<exists>i. i < DEF_NR_TIMERS \<and> i \<notin> timer_slots g)" using sub by blast
  finally show ?thesis by (auto simp: timer_slots_def)
qed

subsection \<open>The operations on the map\<close>

lemma set_scan_None:
  "set_scan g h i slot is = None \<longleftrightarrow> (\<exists>j \<in> set is. is_timer h i (timerstr g ! j))"
  by (induction "is" arbitrary: slot) (auto simp: is_timer_def split: option.splits)

lemma set_scan_Some:
  assumes "set_scan g h i slot is = Some s"
  shows "s = (if slot \<ge> 0 then slot
    else case find (\<lambda>j. timerstr g ! j = None) is of None \<Rightarrow> slot | Some j \<Rightarrow> int j)"
  using assms
proof (induction "is" arbitrary: slot)
  case (Cons a "is")
  show ?case
  proof (cases "timerstr g ! a")
    case None
    then show ?thesis using Cons.prems Cons.IH [of "if slot < 0 then int a else slot"] by (cases "slot < 0") auto
  next
    case (Some t)
    then show ?thesis using Cons.prems Cons.IH [of slot] by (cases "t_hWnd t = h \<and> t_id t = i") auto
  qed
qed simp

lemma timerstr_set [simp]: "timerstr (set_timer i t g) = (timerstr g)[i := t]"
  by (simp add: set_timer_def)

lemma timers_ok_put:
  assumes ok: "timers_ok g" and s: "s < DEF_NR_TIMERS" "timerstr g ! s = None"
    and new: "timer_map g (t_key t) = None" and g': "timerstr g' = (timerstr g)[s := Some t]"
  shows "timers_ok g'" "timer_map g' = (timer_map g)(t_key t \<mapsto> t)"
proof -
  have len: "length (timerstr g) = DEF_NR_TIMERS" using ok by (simp add: timers_ok_def)
  have nth: "timerstr g' ! i = (if i = s then Some t else timerstr g ! i)" if "i < DEF_NR_TIMERS" for i
    using that len s by (simp add: g' nth_list_update)
  note none = new [unfolded timer_map_None [OF ok]]
  show ok': "timers_ok g'"
    unfolding timers_ok_def
  proof (intro conjI allI impI)
    show "length (timerstr g') = DEF_NR_TIMERS" using len by (simp add: g')
    fix i j u v
    assume "i < DEF_NR_TIMERS" "j < DEF_NR_TIMERS"
      "timerstr g' ! i = Some u \<and> timerstr g' ! j = Some v \<and> t_key u = t_key v"
    then show "i = j" using ok none by (auto simp: nth timers_ok_def split: if_splits)
  qed
  show "timer_map g' = (timer_map g)(t_key t \<mapsto> t)"
  proof
    fix k
    have "timer_map g' k = Some u \<longleftrightarrow> ((timer_map g)(t_key t \<mapsto> t)) k = Some u" for u
    proof (cases "k = t_key t")
      case True
      then show ?thesis unfolding timer_map_Some [OF ok'] using none s by (auto simp: nth split: if_splits)
    next
      case False
      then show ?thesis
        unfolding timer_map_Some [OF ok'] using s timer_map_Some [OF ok, of k u]
        by (simp add: nth cong: conj_cong) (metis option.sel option.distinct(1))
    qed
    then show "timer_map g' k = ((timer_map g)(t_key t \<mapsto> t)) k" by (metis option.exhaust)
  qed
qed

lemma timers_ok_del:
  assumes ok: "timers_ok g" and s: "s < DEF_NR_TIMERS" "timerstr g ! s = Some t"
    and g': "timerstr g' = (timerstr g)[s := None]"
  shows "timers_ok g'" "timer_map g' = (timer_map g)(t_key t := None)"
proof -
  have len: "length (timerstr g) = DEF_NR_TIMERS" using ok by (simp add: timers_ok_def)
  have nth: "timerstr g' ! i = (if i = s then None else timerstr g ! i)" if "i < DEF_NR_TIMERS" for i
    using that len s by (simp add: g' nth_list_update)
  have uniq: "i = s" if "i < DEF_NR_TIMERS" "timerstr g ! i = Some u" "t_key u = t_key t" for i u
    using that s ok by (auto simp: timers_ok_def)
  show ok': "timers_ok g'"
    unfolding timers_ok_def
  proof (intro conjI allI impI)
    show "length (timerstr g') = DEF_NR_TIMERS" using len by (simp add: g')
    fix i j u v
    assume "i < DEF_NR_TIMERS" "j < DEF_NR_TIMERS"
      "timerstr g' ! i = Some u \<and> timerstr g' ! j = Some v \<and> t_key u = t_key v"
    then show "i = j" using ok by (auto simp: nth timers_ok_def split: if_splits)
  qed
  show "timer_map g' = (timer_map g)(t_key t := None)"
  proof
    fix k
    have "timer_map g' k = Some u \<longleftrightarrow> ((timer_map g)(t_key t := None)) k = Some u" for u
    proof (cases "k = t_key t")
      case True
      then show ?thesis unfolding timer_map_Some [OF ok'] using uniq by (auto simp: nth split: if_splits)
    next
      case False
      then show ?thesis
        unfolding timer_map_Some [OF ok'] using s timer_map_Some [OF ok, of k u]
        by (simp add: nth cong: conj_cong) (metis option.sel option.distinct(1))
    qed
    then show "timer_map g' k = ((timer_map g)(t_key t := None)) k" by (metis option.exhaust)
  qed
qed

lemma SetTimerEx_table:
  assumes ok: "timers_ok g" and q: "thread_queue g me = Some k"
    and t: "t = \<lparr>t_addr = a, t_hWnd = h, t_id = i, t_speed = sp, t_count = 0, t_proc = pr,
                 t_tick_count = 0, t_msg_queue = Some k\<rparr>"
  shows "fst (SetTimerEx me a h i sp pr g) \<longleftrightarrow>
      timer_map g (h, i) = None \<and> card (dom (timer_map g)) < DEF_NR_TIMERS"
    and "timer_map (snd (SetTimerEx me a h i sp pr g)) =
      (if fst (SetTimerEx me a h i sp pr g) then (timer_map g)((h, i) \<mapsto> t) else timer_map g)"
    and "timers_ok (snd (SetTimerEx me a h i sp pr g))"
proof -
  let ?r = "SetTimerEx me a h i sp pr g"
  have "(fst ?r \<longleftrightarrow> timer_map g (h, i) = None \<and> card (dom (timer_map g)) < DEF_NR_TIMERS)
    \<and> timer_map (snd ?r) = (if fst ?r then (timer_map g)((h, i) \<mapsto> t) else timer_map g) \<and> timers_ok (snd ?r)"
  proof (cases "set_scan g h i (-1) [0..<DEF_NR_TIMERS]")
    case None
    then have "timer_map g (h, i) \<noteq> None"
      unfolding set_scan_None timer_map_None [OF ok] by (auto simp: is_timer_key)
    moreover have "?r = (False, g)" using q None by (simp add: SetTimerEx_def)
    ultimately show ?thesis using ok by auto
  next
    case (Some s)
    then have "\<not> (\<exists>j \<in> set [0..<DEF_NR_TIMERS]. is_timer h i (timerstr g ! j))"
      using set_scan_None [of g h i "-1" "[0..<DEF_NR_TIMERS]"] by simp
    then have new: "timer_map g (h, i) = None"
      unfolding timer_map_None [OF ok] by (auto simp: is_timer_key)
    have s: "s = (case find (\<lambda>j. timerstr g ! j = None) [0..<DEF_NR_TIMERS] of None \<Rightarrow> -1 | Some j \<Rightarrow> int j)"
      using set_scan_Some [OF Some] by simp
    show ?thesis
    proof (cases "find (\<lambda>j. timerstr g ! j = None) [0..<DEF_NR_TIMERS]")
      case None
      then have "\<not> card (dom (timer_map g)) < DEF_NR_TIMERS"
        unfolding card_timer_map [OF ok] card_timer_slots by (auto simp: find_None_iff)
      moreover have "?r = (False, g)" using q Some None s by (simp add: SetTimerEx_def)
      ultimately show ?thesis using ok by auto
    next
      case (Some j)
      then have j: "j < DEF_NR_TIMERS" "timerstr g ! j = None" by (auto simp: find_Some_iff)
      then have c: "card (dom (timer_map g)) < DEF_NR_TIMERS"
        unfolding card_timer_map [OF ok] card_timer_slots by blast
      have "?r = (True, set_timer j (Some t) g)"
        using q \<open>set_scan g h i (-1) [0..<DEF_NR_TIMERS] = Some s\<close> Some s j(1) by (simp add: SetTimerEx_def t)
      moreover have k: "t_key t = (h, i)" by (simp add: t_key_def t)
      ultimately show ?thesis
        using timers_ok_put [OF ok j, of t "set_timer j (Some t) g"] new c by simp
    qed
  qed
  then show "fst ?r \<longleftrightarrow> timer_map g (h, i) = None \<and> card (dom (timer_map g)) < DEF_NR_TIMERS"
    "timer_map (snd ?r) = (if fst ?r then (timer_map g)((h, i) \<mapsto> t) else timer_map g)"
    "timers_ok (snd ?r)" by blast+
qed

lemma IsTimerInstalled_map:
  "IsTimerInstalled h i g \<longleftrightarrow> timer_slot g (h, i) \<noteq> None"
  by (simp add: IsTimerInstalled_def timer_slot_def)

text \<open>Killing one timer, and killing all timers of a window.\<close>

lemma timerstr_Remove [simp]: "timerstr (RemoveMsgQueueTimerFlag k i g) = timerstr g"
  by (simp add: RemoveMsgQueueTimerFlag_def)

lemma kill_one:
  assumes ok: "timers_ok g" and i: "i > 0" and js: "set js \<subseteq> {..<DEF_NR_TIMERS}"
    and r: "kill_loop k h i js (n, g) = (n', g')"
    and all: "\<And>j t. j < DEF_NR_TIMERS \<Longrightarrow> timerstr g ! j = Some t \<Longrightarrow> t_key t = (h, i) \<Longrightarrow> j \<in> set js"
  shows "timers_ok g' \<and> timer_map g' = (timer_map g)((h, i) := None)
    \<and> n' = n + (if timer_map g (h, i) = None then 0 else 1)"
  using js r all
proof (induction js)
  case Nil
  then have "timer_map g (h, i) = None" unfolding timer_map_None [OF ok] by auto
  then show ?case using Nil ok by (auto simp: fun_eq_iff)
next
  case (Cons j js)
  show ?case
  proof (cases "is_timer h i (timerstr g ! j)")
    case True
    then obtain t where t: "timerstr g ! j = Some t" "t_key t = (h, i)" by (auto simp: is_timer_key)
    let ?g = "set_timer j None (RemoveMsgQueueTimerFlag k j g)"
    have j: "j < DEF_NR_TIMERS" using Cons.prems by simp
    have "n' = n + 1" "g' = ?g" using Cons.prems(2) t i by (auto simp: t_key_def Let_def)
    moreover have "timer_map g (h, i) \<noteq> None" using t j unfolding timer_map_None [OF ok] by auto
    ultimately show ?thesis using timers_ok_del [OF ok j t(1), of ?g] t(2) by simp
  next
    case False
    then have skip: "kill_loop k h i (j # js) (n, g) = kill_loop k h i js (n, g)"
      using i by (auto simp: is_timer_def split: option.splits)
    have "l \<in> set js" if "l < DEF_NR_TIMERS" "timerstr g ! l = Some t" "t_key t = (h, i)" for l t
      using Cons.prems(3) [OF that] False that by (auto simp: is_timer_key)
    then show ?thesis using Cons.IH Cons.prems(1,2) unfolding skip by simp
  qed
qed

definition window_timers :: "gui \<Rightarrow> hwnd \<Rightarrow> nat set" where
  "window_timers g h = {j. j < DEF_NR_TIMERS \<and> (\<exists>t. timerstr g ! j = Some t \<and> t_hWnd t = h)}"

lemma kill_all:
  assumes "timers_ok g" "i \<le> 0" "distinct js" "set js \<subseteq> {..<DEF_NR_TIMERS}"
    and "kill_loop k h i js (n, g) = (n', g')"
  shows "timers_ok g' \<and> n' = n + int (card (window_timers g h \<inter> set js))
    \<and> (\<forall>j < DEF_NR_TIMERS. timerstr g' ! j =
         (if j \<in> window_timers g h \<inter> set js then None else timerstr g ! j))"
  using assms
proof (induction js arbitrary: n g)
  case (Cons j js)
  have len: "length (timerstr g) = DEF_NR_TIMERS" using Cons.prems(1) by (simp add: timers_ok_def)
  have j: "j < DEF_NR_TIMERS" "j \<notin> set js" "distinct js" "set js \<subseteq> {..<DEF_NR_TIMERS}"
    using Cons.prems by auto
  show ?case
  proof (cases "j \<in> window_timers g h")
    case True
    then obtain t where t: "timerstr g ! j = Some t" "t_hWnd t = h" by (auto simp: window_timers_def)
    let ?g = "set_timer j None (RemoveMsgQueueTimerFlag k j g)"
    have nth: "timerstr ?g ! l = (if l = j then None else timerstr g ! l)" if "l < DEF_NR_TIMERS" for l
      using that len by (simp add: nth_list_update)
    have w: "window_timers ?g h = window_timers g h - {j}"
      unfolding window_timers_def using nth by (auto split: if_splits)
    have "kill_loop k h i js (n + 1, ?g) = (n', g')" using Cons.prems(2,5) t by (simp add: Let_def)
    moreover have "timers_ok ?g" using timers_ok_del [OF Cons.prems(1) j(1) t(1), of ?g] by simp
    ultimately have ih: "timers_ok g' \<and> n' = n + 1 + int (card (window_timers ?g h \<inter> set js))
        \<and> (\<forall>j < DEF_NR_TIMERS. timerstr g' ! j =
             (if j \<in> window_timers ?g h \<inter> set js then None else timerstr ?g ! j))"
      using Cons.IH [of ?g "n + 1"] Cons.prems(2) j by blast
    have "window_timers g h \<inter> set (j # js) = insert j (window_timers ?g h \<inter> set js)"
      unfolding w using True j(2) by auto
    then have "card (window_timers g h \<inter> set (j # js)) = Suc (card (window_timers ?g h \<inter> set js))"
      using j(2) by simp
    then show ?thesis using ih nth unfolding w using True by auto
  next
    case False
    then have "kill_loop k h i js (n, g) = (n', g')"
      using Cons.prems(5) j(1) by (auto simp: window_timers_def split: option.splits if_splits)
    then have "timers_ok g' \<and> n' = n + int (card (window_timers g h \<inter> set js))
        \<and> (\<forall>j < DEF_NR_TIMERS. timerstr g' ! j =
             (if j \<in> window_timers g h \<inter> set js then None else timerstr g ! j))"
      using Cons.IH [of g n] Cons.prems(1,2) j by blast
    moreover have "window_timers g h \<inter> set (j # js) = window_timers g h \<inter> set js" using False by auto
    ultimately show ?thesis by simp
  qed
qed simp

text \<open>The table seen from a thread: keys with a positive identifier, values what the caller gave.\<close>

type_synonym timer_val = "nat \<times> dword \<times> nat option"

definition timer_lookup :: "gui \<Rightarrow> hwnd \<times> int \<Rightarrow> timer_val option" where
  "timer_lookup g k = map_option (\<lambda>t. (t_addr t, t_speed t, t_proc t)) (timer_map g k)"

definition timer_put :: "nat \<Rightarrow> hwnd \<times> int \<Rightarrow> timer_val \<Rightarrow> gui \<Rightarrow> bool \<times> gui" where
  "timer_put me k v g = SetTimerEx me (fst v) (fst k) (snd k) (fst (snd v)) (snd (snd v)) g"

definition timer_del :: "nat \<Rightarrow> hwnd \<times> int \<Rightarrow> gui \<Rightarrow> gui" where
  "timer_del me k g = snd (KillTimer me (fst k) (snd k) g)"

definition timers_of :: "nat \<Rightarrow> gui \<Rightarrow> bool" where
  "timers_of me g \<longleftrightarrow> timers_ok g \<and> thread_queue g me \<noteq> None"

lemma kill_loop_thread: "thread_queue (snd (kill_loop k h i js r)) = thread_queue (snd r)"
proof (induction js arbitrary: r)
  case (Cons j js)
  then show ?case by (cases r) (simp add: set_timer_def RemoveMsgQueueTimerFlag_def Let_def split: option.split)
qed simp

lemma SetTimerEx_thread: "thread_queue (snd (SetTimerEx me a h i sp pr g)) = thread_queue g"
  by (auto simp: SetTimerEx_def set_timer_def split: option.splits)

lemma KillTimer_one:
  assumes "timers_ok g" "thread_queue g me = Some k" "i > 0"
  shows "timers_ok (snd (KillTimer me h i g))"
    and "timer_map (snd (KillTimer me h i g)) = (timer_map g)((h, i) := None)"
    and "fst (KillTimer me h i g) = (if timer_map g (h, i) = None then 0 else 1)"
proof -
  obtain n g' where r: "kill_loop k h i [0..<DEF_NR_TIMERS] (0, g) = (n, g')" by fastforce
  have "timers_ok g' \<and> timer_map g' = (timer_map g)((h, i) := None)
      \<and> n = 0 + (if timer_map g (h, i) = None then 0 else 1)"
    by (rule kill_one [OF assms(1,3) _ r]) auto
  moreover have "KillTimer me h i g = (n, g')" using assms(2) r by (simp add: KillTimer_def)
  ultimately show "timers_ok (snd (KillTimer me h i g))"
    "timer_map (snd (KillTimer me h i g)) = (timer_map g)((h, i) := None)"
    "fst (KillTimer me h i g) = (if timer_map g (h, i) = None then 0 else 1)" by auto
qed

interpretation timers: bounded_map timer_lookup "timer_put me" "timer_del me" "timers_of me"
  "\<lambda>k. snd k > 0" DEF_NR_TIMERS for me :: nat
proof unfold_locales
  fix g and k :: "hwnd \<times> int" and v :: timer_val
  assume ok: "timers_of me g"
  then obtain q where t: "timers_ok g" "thread_queue g me = Some q" by (auto simp: timers_of_def)
  have dom: "dom (timer_lookup g) = dom (timer_map g)" by (auto simp: timer_lookup_def dom_def)
  have "timer_slots g \<subseteq> {..<DEF_NR_TIMERS}" by (auto simp: timer_slots_def)
  from card_mono [OF _ this] finite_subset [OF this]
  show "finite (dom (timer_lookup g)) \<and> card (dom (timer_lookup g)) \<le> DEF_NR_TIMERS"
    by (simp add: dom card_timer_map [OF t(1)]) (simp add: dom_timer_map [OF t(1)])
  obtain a sp pr where v: "v = (a, sp, pr)" by (cases v) auto
  note put = SetTimerEx_table [OF t refl, of a "fst k" "snd k" sp pr]
  show "fst (timer_put me k v g) \<longleftrightarrow> timer_lookup g k = None \<and> card (dom (timer_lookup g)) < DEF_NR_TIMERS"
    using put(1) unfolding dom by (simp add: timer_put_def v timer_lookup_def)
  show "timer_lookup (snd (timer_put me k v g)) =
      (if fst (timer_put me k v g) then (timer_lookup g)(k \<mapsto> v) else timer_lookup g)"
    using put(2) by (auto simp: timer_put_def v timer_lookup_def fun_eq_iff)
  show "timers_of me (snd (timer_put me k v g))"
    using put(3) t by (simp add: timers_of_def timer_put_def v SetTimerEx_thread)
  assume k: "snd k > 0"
  note del = KillTimer_one [OF t k, of "fst k"]
  show "timers_of me (timer_del me k g)"
    using del(1) t kill_loop_thread [of q "fst k" "snd k" _ "(0, g)"]
    by (simp add: timers_of_def timer_del_def) (simp add: KillTimer_def)
  show "timer_lookup (timer_del me k g) = (timer_lookup g)(k := None)"
    using del(2) by (auto simp: timer_del_def timer_lookup_def fun_eq_iff)
qed

end
