(* ===== verification/Timer_Clock.thy ===== *)
theory Timer_Clock
  imports Timer_Props
begin

section \<open>Timers: dispatching and the properties of timer.c\<close>

text \<open>
  \<open>DispatchTimerMessage\<close> as an action on each timer (\<open>tick_timer\<close>) and on the masks of the
  queues, the accuracy of a timer over any number of dispatches, and the properties of
  timer.c.
\<close>

subsection \<open>One dispatch\<close>

definition expired :: "dword \<Rightarrow> timer \<Rightarrow> bool" where
  "expired n t \<longleftrightarrow> t_msg_queue t \<noteq> None \<and> t_count t + n \<ge> t_speed t"

definition tick_timer :: "dword \<Rightarrow> dword \<Rightarrow> timer \<Rightarrow> timer" where
  "tick_timer n now t =
     (if t_msg_queue t = None then t
      else if expired n t then
        t\<lparr>t_tick_count := (if t_tick_count t = 0 then now else t_tick_count t), t_count := t_count t + n - t_speed t\<rparr>
      else t\<lparr>t_count := t_count t + n\<rparr>)"

lemma bit_slot_bit: "bit (slot_bit i) j \<longleftrightarrow> i = j \<and> j < 32"
  unfolding slot_bit_def bit_push_bit_iff bit_1_iff by auto

lemma dispatch_slot_eq:
  "dispatch_slot n i g =
     (case timerstr g ! i of
        None \<Rightarrow> g
      | Some t \<Rightarrow>
          (case t_msg_queue t of
             None \<Rightarrow> g
           | Some k \<Rightarrow>
               set_timer i (Some (tick_timer n (timer_counter g) t))
                 (if expired n t then SetMsgQueueTimerFlag k i g else g)))"
  by (auto simp: dispatch_slot_def tick_timer_def expired_def Let_def split: option.split)

lemma set_timer_simps [simp]:
  "queues (set_timer i t g) = queues g" "sems (set_timer i t g) = sems g"
  "timer_counter (set_timer i t g) = timer_counter g"
  by (simp_all add: set_timer_def)

lemma SetFlag_simps [simp]:
  "timerstr (SetMsgQueueTimerFlag k i g) = timerstr g"
  "timer_counter (SetMsgQueueTimerFlag k i g) = timer_counter g"
  "TimerMask (queues (SetMsgQueueTimerFlag k i g) l) =
     (if l = k then TimerMask (queues g k) OR slot_bit i else TimerMask (queues g l))"
  "sems (SetMsgQueueTimerFlag k i g) s = (if s = SemWait k \<and> sems g s = 0 then 1 else sems g s)"
  by (auto simp: SetMsgQueueTimerFlag_def)

lemma dispatch_slot_timers:
  assumes "i < length (timerstr g)"
  shows "timerstr (dispatch_slot n i g) =
      (timerstr g)[i := map_option (tick_timer n (timer_counter g)) (timerstr g ! i)]"
    and "timer_counter (dispatch_slot n i g) = timer_counter g"
proof -
  have same: "(timerstr g)[i := map_option f (timerstr g ! i)] = timerstr g"
    if "map_option f (timerstr g ! i) = timerstr g ! i" for f
    using that by (metis list_update_id)
  show "timerstr (dispatch_slot n i g) =
      (timerstr g)[i := map_option (tick_timer n (timer_counter g)) (timerstr g ! i)]"
  proof (cases "timerstr g ! i")
    case None
    then show ?thesis using same by (simp add: dispatch_slot_eq)
  next
    case (Some t)
    show ?thesis
    proof (cases "t_msg_queue t")
      case None
      then have "tick_timer n (timer_counter g) t = t" by (simp add: tick_timer_def)
      then show ?thesis using Some None same [of "tick_timer n (timer_counter g)"]
        by (simp add: dispatch_slot_eq)
    qed (use Some in \<open>simp add: dispatch_slot_eq\<close>)
  qed
  show "timer_counter (dispatch_slot n i g) = timer_counter g"
    by (simp add: dispatch_slot_eq split: option.split)
qed

lemma dispatch_slot_flags:
  "TimerMask (queues (dispatch_slot n i g) k) =
     (case timerstr g ! i of
        None \<Rightarrow> TimerMask (queues g k)
      | Some t \<Rightarrow> if t_msg_queue t = Some k \<and> expired n t then TimerMask (queues g k) OR slot_bit i
                  else TimerMask (queues g k))"
  by (auto simp: dispatch_slot_eq expired_def split: option.split)

lemma dispatch_slot_sems:
  "sems (dispatch_slot n i g) (SemWait k) =
     (if (\<exists>t. timerstr g ! i = Some t \<and> t_msg_queue t = Some k \<and> expired n t) \<and> sems g (SemWait k) = 0 then 1
      else sems g (SemWait k))"
  by (auto simp: dispatch_slot_eq expired_def split: option.split)

text \<open>The loop over the first \<open>m\<close> slots.\<close>

lemma dispatch_loop:
  assumes "length (timerstr g) = DEF_NR_TIMERS" "m \<le> DEF_NR_TIMERS"
    and g': "g' = fold (dispatch_slot n) [0..<m] g"
  shows "length (timerstr g') = DEF_NR_TIMERS \<and> timer_counter g' = timer_counter g
    \<and> (\<forall>i < DEF_NR_TIMERS. timerstr g' ! i =
         (if i < m then map_option (tick_timer n (timer_counter g)) (timerstr g ! i) else timerstr g ! i))
    \<and> (\<forall>k i. bit (TimerMask (queues g' k)) i \<longleftrightarrow> bit (TimerMask (queues g k)) i \<or>
         (i < m \<and> (\<exists>t. timerstr g ! i = Some t \<and> t_msg_queue t = Some k \<and> expired n t)))
    \<and> (\<forall>k. sems g' (SemWait k) =
         (if (\<exists>i < m. \<exists>t. timerstr g ! i = Some t \<and> t_msg_queue t = Some k \<and> expired n t)
             \<and> sems g (SemWait k) = 0 then 1 else sems g (SemWait k)))"
  using assms(2) unfolding g'
proof (induction m)
  case (Suc m)
  let ?g = "fold (dispatch_slot n) [0..<m] g"
  note ih = Suc.IH [OF Suc_leD [OF Suc.prems]]
  have m: "m < length (timerstr ?g)" "m < DEF_NR_TIMERS" "timerstr ?g ! m = timerstr g ! m"
    using ih Suc.prems by auto
  have step: "fold (dispatch_slot n) [0..<Suc m] g = dispatch_slot n m ?g" by simp
  have m32: "m < 32" using m(2) by (simp add: DEF_NR_TIMERS_def)
  note d = dispatch_slot_timers [OF m(1), of n] dispatch_slot_flags [of n m ?g] dispatch_slot_sems [of n m ?g]
  have "timerstr (dispatch_slot n m ?g) ! i =
      (if i < Suc m then map_option (tick_timer n (timer_counter g)) (timerstr g ! i) else timerstr g ! i)"
    if "i < DEF_NR_TIMERS" for i
    using that ih m unfolding d(1) by (auto simp: nth_list_update less_Suc_eq)
  moreover have "bit (TimerMask (queues (dispatch_slot n m ?g) k)) i \<longleftrightarrow> bit (TimerMask (queues g k)) i \<or>
      (i < Suc m \<and> (\<exists>t. timerstr g ! i = Some t \<and> t_msg_queue t = Some k \<and> expired n t))" for k i
    using ih m m32 unfolding d(3)
    by (auto simp: bit_or_iff bit_slot_bit less_Suc_eq split: option.splits)
  moreover have "sems (dispatch_slot n m ?g) (SemWait k) =
      (if (\<exists>i < Suc m. \<exists>t. timerstr g ! i = Some t \<and> t_msg_queue t = Some k \<and> expired n t)
          \<and> sems g (SemWait k) = 0 then 1 else sems g (SemWait k))" for k
    using ih unfolding d(4) m(3) by (auto simp: less_Suc_eq)
  ultimately show ?case unfolding step using ih d(1,2) by simp
qed (use assms(1) in simp)

lemma DispatchTimerMessage_timers:
  assumes "length (timerstr g) = DEF_NR_TIMERS"
  shows "timerstr (DispatchTimerMessage n g) = map (map_option (tick_timer n (timer_counter g))) (timerstr g)"
    and "timer_counter (DispatchTimerMessage n g) = timer_counter g"
  using dispatch_loop [OF assms order_refl refl, of n] assms
  by (auto simp: DispatchTimerMessage_def intro!: nth_equalityI)

subsection \<open>Many dispatches\<close>

fun expirations :: "nat \<Rightarrow> dword list \<Rightarrow> gui \<Rightarrow> nat" where
  "expirations i [] g = 0"
| "expirations i (n # ns) g =
     (case timerstr g ! i of None \<Rightarrow> 0 | Some t \<Rightarrow> if expired n t then 1 else 0)
     + expirations i ns (DispatchTimerMessage n g)"

lemma tick_timer_count:
  assumes q: "t_msg_queue t = Some k" and n: "unat n \<le> unat (t_speed t)"
    and s: "unat (t_speed t) \<le> 2 ^ 31" and c: "t_count t < t_speed t"
  shows "expired n t \<longleftrightarrow> unat (t_count t) + unat n \<ge> unat (t_speed t)"
    and "unat (t_count (tick_timer n now t)) =
      (if expired n t then unat (t_count t) + unat n - unat (t_speed t) else unat (t_count t) + unat n)"
    and "t_count (tick_timer n now t) < t_speed t"
    and "t_speed (tick_timer n now t) = t_speed t" "t_msg_queue (tick_timer n now t) = Some k"
proof -
  have lt: "unat (t_count t) < unat (t_speed t)" using c by (simp add: word_less_nat_alt)
  then have "unat (t_count t) + unat n < 2 ^ 32" using n s by simp
  then have add: "unat (t_count t + n) = unat (t_count t) + unat n"
    by (simp add: unat_word_ariths)
  show e: "expired n t \<longleftrightarrow> unat (t_count t) + unat n \<ge> unat (t_speed t)"
    using q by (simp add: expired_def word_le_nat_alt add)
  show v: "unat (t_count (tick_timer n now t)) =
      (if expired n t then unat (t_count t) + unat n - unat (t_speed t) else unat (t_count t) + unat n)"
    using q e add by (auto simp: tick_timer_def unat_sub_if_size word_le_nat_alt)
  show "t_count (tick_timer n now t) < t_speed t"
    unfolding word_less_nat_alt v using lt n e by auto
  show "t_speed (tick_timer n now t) = t_speed t" "t_msg_queue (tick_timer n now t) = Some k"
    using q by (simp_all add: tick_timer_def)
qed

lemma expirations_exact:
  assumes "length (timerstr g) = DEF_NR_TIMERS" "i < DEF_NR_TIMERS" "timerstr g ! i = Some t"
    and "t_msg_queue t = Some k" "t_count t < t_speed t" "unat (t_speed t) \<le> 2 ^ 31"
    and "\<forall>n \<in> set ns. unat n \<le> unat (t_speed t)"
  shows "expirations i ns g = (unat (t_count t) + sum_list (map unat ns)) div unat (t_speed t)"
  using assms
proof (induction ns arbitrary: g t)
  case Nil
  then show ?case by (simp add: word_less_nat_alt)
next
  case (Cons n ns)
  let ?s = "unat (t_speed t)" and ?t = "tick_timer n (timer_counter g) t"
  have n: "unat n \<le> ?s" using Cons.prems by simp
  note ex = tick_timer_count(1) [OF Cons.prems(4) n Cons.prems(6,5)]
  note tk = tick_timer_count(2-5) [OF Cons.prems(4) n Cons.prems(6,5), of "timer_counter g"]
  note d = DispatchTimerMessage_timers [OF Cons.prems(1), of n]
  have "timerstr (DispatchTimerMessage n g) ! i = Some ?t"
    using Cons.prems(1-3) by (simp add: d)
  then have ih: "expirations i ns (DispatchTimerMessage n g) =
      (unat (t_count ?t) + sum_list (map unat ns)) div ?s"
    using Cons.IH [of "DispatchTimerMessage n g" ?t] Cons.prems d tk(2-4) by simp
  have s: "?s > 0" using Cons.prems(5) by (simp add: word_less_nat_alt)
  show ?case
  proof (cases "expired n t")
    case True
    then have eq: "unat (t_count t) + sum_list (map unat (n # ns)) =
        ?s + (unat (t_count ?t) + sum_list (map unat ns))" using ex tk(1) by simp
    show ?thesis unfolding eq using True ih Cons.prems(3) s by (simp add: div_add_self1)
  next
    case False
    then show ?thesis using ih Cons.prems(3) tk(1) by (simp add: add.assoc)
  qed
qed

subsection \<open>The properties\<close>

definition demo_timer :: timer where
  "demo_timer = \<lparr>t_addr = 1, t_hWnd = 7, t_id = 3, t_speed = 10, t_count = 0, t_proc = None,
                 t_tick_count = 0, t_msg_queue = Some 0\<rparr>"

text \<open>A state with no window and empty queues, and one timer in slot 0, for the witnesses.\<close>

definition demo_gui :: gui where
  "demo_gui = \<lparr>queues = (\<lambda>k. the (InitMsgQueue True (\<lambda>n. zero_msg) (Wnd 0 False [] []) 4)),
     wins = (\<lambda>h. None), syncs = (\<lambda>a. \<lparr>s_msg = zero_msg, s_retval = 0, s_sem = SemStack 0, s_next = None\<rparr>),
     sems = (\<lambda>s. 0), timerstr = Some demo_timer # replicate 31 None, timer_counter = 100,
     thread_queue = (\<lambda>t. Some 0), hwnd_desktop = 1, capture_wnd = 0\<rparr>"

lemma demo_gui_timers: "timers_ok demo_gui" "timerstr demo_gui ! 0 = Some demo_timer" "thread_queue demo_gui me = Some 0"
  by (auto simp: timers_ok_def demo_gui_def DEF_NR_TIMERS_def nth_Cons' split: if_splits)

text \<open>
  \<open>SetTimerEx\<close> from a thread with a message queue succeeds exactly when the window has no
  timer with this identifier and fewer than 32 timers exist; it then adds that timer with a
  zero count for the thread's queue, and otherwise changes nothing.  Identifiers stay unique.
\<close>

theorem SetTimerEx_correct:
  assumes "timers_ok g" and "thread_queue g me = Some k"
  shows "timers_ok (snd (SetTimerEx me a h i speed pr g))
    \<and> (fst (SetTimerEx me a h i speed pr g) \<longleftrightarrow> timer_map g (h, i) = None \<and> card (dom (timer_map g)) < 32)
    \<and> timer_map (snd (SetTimerEx me a h i speed pr g)) =
        (if fst (SetTimerEx me a h i speed pr g)
         then (timer_map g)((h, i) \<mapsto> \<lparr>t_addr = a, t_hWnd = h, t_id = i, t_speed = speed, t_count = 0,
                t_proc = pr, t_tick_count = 0, t_msg_queue = Some k\<rparr>)
         else timer_map g)"
  using SetTimerEx_table [OF assms refl, of a h i speed pr] by (simp add: DEF_NR_TIMERS_def)

theorem SetTimerEx_correct_witness:
  "\<not> fst (SetTimerEx 0 5 7 3 20 None demo_gui)"
proof -
  have "timer_map demo_gui (7, 3) = Some demo_timer"
    unfolding timer_map_Some [OF demo_gui_timers(1)]
    by (intro exI [of _ 0]) (simp add: demo_gui_timers t_key_def demo_timer_def DEF_NR_TIMERS_def)
  then show ?thesis
    using SetTimerEx_correct [OF demo_gui_timers(1) demo_gui_timers(3) [of 0], of 5 7 3 20 None] by simp
qed

text \<open>
  \<open>KillTimer\<close> with a positive identifier removes exactly that timer of the window and
  returns 1 or 0; with another identifier it removes every timer of the window, returns
  their number and leaves the other slots alone.
\<close>

theorem KillTimer_correct:
  assumes "timers_ok g" and "thread_queue g me = Some k"
  shows "if i > 0
    then timer_map (snd (KillTimer me h i g)) = (timer_map g)((h, i) := None)
      \<and> fst (KillTimer me h i g) = (if timer_map g (h, i) = None then 0 else 1)
    else fst (KillTimer me h i g) = int (card {j. j < 32 \<and> (\<exists>t. timerstr g ! j = Some t \<and> t_hWnd t = h)})
      \<and> (\<forall>j < 32. timerstr (snd (KillTimer me h i g)) ! j =
           (case timerstr g ! j of None \<Rightarrow> None | Some t \<Rightarrow> if t_hWnd t = h then None else Some t))"
proof (cases "i > 0")
  case True
  then show ?thesis using KillTimer_one [OF assms True, of h] by simp
next
  case False
  then have i: "i \<le> 0" by simp
  obtain n g' where r: "kill_loop k h i [0..<DEF_NR_TIMERS] (0, g) = (n, g')" by fastforce
  have "timers_ok g' \<and> n = 0 + int (card (window_timers g h \<inter> set [0..<DEF_NR_TIMERS]))
      \<and> (\<forall>j < DEF_NR_TIMERS. timerstr g' ! j =
           (if j \<in> window_timers g h \<inter> set [0..<DEF_NR_TIMERS] then None else timerstr g ! j))"
    by (rule kill_all [OF assms(1) i _ _ r]) auto
  moreover have "window_timers g h \<inter> set [0..<DEF_NR_TIMERS] = window_timers g h"
    by (auto simp: window_timers_def)
  moreover have "KillTimer me h i g = (n, g')" using assms(2) r by (simp add: KillTimer_def)
  ultimately show ?thesis
    using False by (auto simp: window_timers_def DEF_NR_TIMERS_def split: option.splits)
qed

theorem KillTimer_correct_witness:
  "timerstr (snd (KillTimer 0 7 0 demo_gui)) ! 0 = None"
  using KillTimer_correct [OF demo_gui_timers(1) demo_gui_timers(3) [of 0], of 0 7] demo_gui_timers(2)
  by (simp add: demo_timer_def split: option.splits)

text \<open>
  Setting a timer and killing it again gives back the table as seen by its users, and a
  table in which a timer was killed has room for it again.
\<close>

theorem set_kill_timer_roundtrip:
  assumes "timers_of me g" and "i > 0"
  shows "(fst (timer_put me (h, i) v g) \<longrightarrow>
      timer_lookup (timer_del me (h, i) (snd (timer_put me (h, i) v g))) = timer_lookup g)
    \<and> (timer_lookup g (h, i) \<noteq> None \<longrightarrow> fst (timer_put me (h, i) v (timer_del me (h, i) g)))"
  using timers.put_del [OF assms(1), of "(h, i)"] timers.del_frees [OF assms(1), of "(h, i)"] assms(2) by auto

theorem set_kill_timer_roundtrip_witness:
  "fst (timer_put 0 (7, 3) (9, 1, None) (timer_del 0 (7, 3) demo_gui))"
proof -
  have "timer_map demo_gui (7, 3) = Some demo_timer"
    unfolding timer_map_Some [OF demo_gui_timers(1)]
    by (intro exI [of _ 0]) (simp add: demo_gui_timers t_key_def demo_timer_def DEF_NR_TIMERS_def)
  then have "timer_lookup demo_gui (7, 3) \<noteq> None" by (simp add: timer_lookup_def)
  then show ?thesis
    using set_kill_timer_roundtrip [of 0 demo_gui 3 7 "(9, 1, None)"] demo_gui_timers by (simp add: timers_of_def)
qed

text \<open>
  One dispatch of \<open>n\<close> ticks flags in the mask of a queue exactly the timers of the queue
  that expire, and then the semaphore the thread of the queue waits on is raised.
\<close>

theorem DispatchTimerMessage_flags:
  assumes "timers_ok g"
  shows "(bit (TimerMask (queues (DispatchTimerMessage n g) k)) i \<longleftrightarrow>
      bit (TimerMask (queues g k)) i
      \<or> i < 32 \<and> (\<exists>t. timerstr g ! i = Some t \<and> t_msg_queue t = Some k \<and> expired n t))
    \<and> (i < 32 \<and> (\<exists>t. timerstr g ! i = Some t \<and> t_msg_queue t = Some k \<and> expired n t)
        \<longrightarrow> sems (DispatchTimerMessage n g) (SemWait k) > 0)"
proof -
  have len: "length (timerstr g) = DEF_NR_TIMERS" using assms by (simp add: timers_ok_def)
  note d = dispatch_loop [OF len order_refl refl, of n, folded DispatchTimerMessage_def]
  have "bit (TimerMask (queues (DispatchTimerMessage n g) k)) i \<longleftrightarrow> bit (TimerMask (queues g k)) i
      \<or> i < 32 \<and> (\<exists>t. timerstr g ! i = Some t \<and> t_msg_queue t = Some k \<and> expired n t)"
    using d by (simp add: DEF_NR_TIMERS_def)
  moreover have "sems (DispatchTimerMessage n g) (SemWait k) > 0"
    if "i < 32 \<and> (\<exists>t. timerstr g ! i = Some t \<and> t_msg_queue t = Some k \<and> expired n t)"
  proof -
    from that have "\<exists>j < DEF_NR_TIMERS. \<exists>t. timerstr g ! j = Some t \<and> t_msg_queue t = Some k \<and> expired n t"
      unfolding DEF_NR_TIMERS_def by blast
    then show ?thesis using d by auto
  qed
  ultimately show ?thesis by blast
qed

theorem DispatchTimerMessage_flags_witness:
  "bit (TimerMask (queues (DispatchTimerMessage 10 demo_gui) 0)) 0"
  using DispatchTimerMessage_flags [OF demo_gui_timers(1), of 10 0 0] demo_gui_timers(2)
  by (simp add: expired_def demo_timer_def)

text \<open>
  C32.  A timer does not drift: over any dispatches, none longer than the speed of the timer
  (itself at most \<open>2 ^ 31\<close> ticks), it expires exactly as often as its speed fits into the
  ticks counted, starting from its count.
\<close>

theorem timer_does_not_drift:
  assumes "timers_ok g" and "i < 32" and "timerstr g ! i = Some t" and "t_msg_queue t = Some k"
    and "t_count t < t_speed t" and "unat (t_speed t) \<le> 2 ^ 31" and "\<forall>n \<in> set ns. n \<le> t_speed t"
  shows "expirations i ns g = (unat (t_count t) + sum_list (map unat ns)) div unat (t_speed t)"
  using expirations_exact [of g i t k ns] assms by (simp add: timers_ok_def DEF_NR_TIMERS_def word_le_nat_alt)

theorem timer_does_not_drift_witness:
  "expirations 0 [7, 7, 10, 7, 7] demo_gui = 3"
  using timer_does_not_drift [OF demo_gui_timers(1) _ demo_gui_timers(2), of 0 "[7, 7, 10, 7, 7]"]
  by (simp add: demo_timer_def)

end
