(* ===== verification/Message_Inv.thy ===== *)
theory Message_Inv
  imports Message_Sync Timer_Clock
begin

section \<open>Messages: the invariant of the queues and of the timers\<close>

text \<open>
  The state bits of a queue tell the truth: whatever is queued has its bit set, and the quit
  bit is set exactly while quit requests are outstanding (\<open>mq_ok\<close>), as long as no thread gets between the
  reading and the writing of an access that the code makes without the queue's lock.  Where such an access may be torn
  apart (\<open>torn\<close>), what is left of the invariant are the bounds.  \<open>thread_step\<close> is one step of
  any thread, a callback being any sequence of steps, and every step keeps the invariant of
  all queues and of the table of timers (\<open>gui_inv\<close>; \<open>gui_ok\<close> is the one without torn accesses).
\<close>

subsection \<open>State bits\<close>

lemma flag_bit_numbers:
  "QS_NOTIFYMSG = push_bit 28 1" "QS_SYNCMSG = push_bit 29 1" "QS_POSTMSG = push_bit 30 1"
  "QS_QUIT = push_bit 31 1" "QS_PAINT = push_bit 25 1"
  by (simp_all add: flag_defs push_bit_eq_mult)

lemma word_nonzero_bit: "w \<noteq> 0 \<longleftrightarrow> (\<exists>i. bit w i)" for w :: dword
  by (metis bit_0_eq bit_eqI bot_apply bot_bool_def)

lemma and_push_bit: "w AND push_bit n 1 \<noteq> 0 \<longleftrightarrow> n < 32 \<and> bit w n" for w :: dword
  unfolding word_nonzero_bit bit_and_iff bit_push_bit_iff bit_1_iff by auto

lemma has_flag_bit:
  "has_flag q QS_NOTIFYMSG \<longleftrightarrow> bit (dwState q) 28" "has_flag q QS_SYNCMSG \<longleftrightarrow> bit (dwState q) 29"
  "has_flag q QS_POSTMSG \<longleftrightarrow> bit (dwState q) 30" "has_flag q QS_QUIT \<longleftrightarrow> bit (dwState q) 31"
  "has_flag q QS_PAINT \<longleftrightarrow> bit (dwState q) 25"
  unfolding has_flag_def flag_bit_numbers and_push_bit by simp_all

lemma set_flag_bit:
  "bit (dwState (set_flag (push_bit n 1) q)) i \<longleftrightarrow> bit (dwState q) i \<or> n = i \<and> i < 32"
proof -
  have "bit (push_bit n 1 :: dword) i \<longleftrightarrow> n = i \<and> i < 32"
    unfolding bit_push_bit_iff bit_1_iff by auto
  then show ?thesis unfolding set_flag_def by (simp add: bit_or_iff del: push_bit_of_1)
qed

lemma clear_flag_bit:
  "bit (dwState (clear_flag (push_bit n 1) q)) i \<longleftrightarrow> bit (dwState q) i \<and> n \<noteq> i"
proof -
  have "bit (dwState q) i \<Longrightarrow> i < 32" using bit_imp_le_length [of "dwState q" i] by simp
  moreover have "bit (push_bit n 1 :: dword) i \<longleftrightarrow> n = i \<and> i < 32"
    unfolding bit_push_bit_iff bit_1_iff by auto
  ultimately show ?thesis
    unfolding clear_flag_def by (auto simp: bit_and_iff bit_not_iff simp del: push_bit_of_1)
qed

lemma flag_bits:
  "bit (dwState (set_flag QS_NOTIFYMSG q)) i \<longleftrightarrow> bit (dwState q) i \<or> i = 28"
  "bit (dwState (set_flag QS_SYNCMSG q)) i \<longleftrightarrow> bit (dwState q) i \<or> i = 29"
  "bit (dwState (set_flag QS_POSTMSG q)) i \<longleftrightarrow> bit (dwState q) i \<or> i = 30"
  "bit (dwState (set_flag QS_QUIT q)) i \<longleftrightarrow> bit (dwState q) i \<or> i = 31"
  "bit (dwState (set_flag QS_PAINT q)) i \<longleftrightarrow> bit (dwState q) i \<or> i = 25"
  "bit (dwState (clear_flag QS_NOTIFYMSG q)) i \<longleftrightarrow> bit (dwState q) i \<and> i \<noteq> 28"
  "bit (dwState (clear_flag QS_SYNCMSG q)) i \<longleftrightarrow> bit (dwState q) i \<and> i \<noteq> 29"
  "bit (dwState (clear_flag QS_POSTMSG q)) i \<longleftrightarrow> bit (dwState q) i \<and> i \<noteq> 30"
  "bit (dwState (clear_flag QS_QUIT q)) i \<longleftrightarrow> bit (dwState q) i \<and> i \<noteq> 31"
  "bit (dwState (clear_flag QS_PAINT q)) i \<longleftrightarrow> bit (dwState q) i \<and> i \<noteq> 25"
  unfolding flag_bit_numbers set_flag_bit clear_flag_bit by auto

lemma flag_keeps [simp]:
  "pFirstNotifyMsg (set_flag f q) = pFirstNotifyMsg q" "pFirstSyncMsg (set_flag f q) = pFirstSyncMsg q"
  "pLastSyncMsg (set_flag f q) = pLastSyncMsg q" "TimerMask (set_flag f q) = TimerMask q"
  "FirstTimerSlot (set_flag f q) = FirstTimerSlot q" "loop_depth (set_flag f q) = loop_depth q"
  "pRootMainWin (set_flag f q) = pRootMainWin q"
  "pFirstNotifyMsg (clear_flag f q) = pFirstNotifyMsg q" "pFirstSyncMsg (clear_flag f q) = pFirstSyncMsg q"
  "pLastSyncMsg (clear_flag f q) = pLastSyncMsg q" "TimerMask (clear_flag f q) = TimerMask q"
  "FirstTimerSlot (clear_flag f q) = FirstTimerSlot q" "loop_depth (clear_flag f q) = loop_depth q"
  "pRootMainWin (clear_flag f q) = pRootMainWin q"
  by (simp_all add: set_flag_def clear_flag_def)

subsection \<open>The invariant\<close>

definition mq_inv :: "bool \<Rightarrow> msgqueue \<Rightarrow> bool" where
  "mq_inv torn q \<longleftrightarrow>
     ring_ok q \<and> FirstTimerSlot q < DEF_NR_TIMERS
     \<and> (\<not> torn \<longrightarrow>
          (pFirstSyncMsg q \<noteq> None \<longrightarrow> bit (dwState q) 29)
        \<and> (pFirstNotifyMsg q \<noteq> [] \<longrightarrow> bit (dwState q) 28)
        \<and> (readpos q \<noteq> writepos q \<longrightarrow> bit (dwState q) 30)
        \<and> (bit (dwState q) 31 \<longleftrightarrow> loop_depth q > 0) \<and> loop_depth q \<ge> 0)"

definition gui_inv :: "bool \<Rightarrow> gui \<Rightarrow> bool" where
  "gui_inv torn g \<longleftrightarrow> (\<forall>k. mq_inv torn (queues g k)) \<and> timers_ok g"

abbreviation mq_ok :: "msgqueue \<Rightarrow> bool" where "mq_ok \<equiv> mq_inv False"
abbreviation gui_ok :: "gui \<Rightarrow> bool" where "gui_ok \<equiv> gui_inv False"

lemma mq_ok_def:
  "mq_ok q \<longleftrightarrow>
     ring_ok q
     \<and> (pFirstSyncMsg q \<noteq> None \<longrightarrow> bit (dwState q) 29)
     \<and> (pFirstNotifyMsg q \<noteq> [] \<longrightarrow> bit (dwState q) 28)
     \<and> (readpos q \<noteq> writepos q \<longrightarrow> bit (dwState q) 30)
     \<and> (bit (dwState q) 31 \<longleftrightarrow> loop_depth q > 0) \<and> loop_depth q \<ge> 0
     \<and> FirstTimerSlot q < DEF_NR_TIMERS"
  by (auto simp: mq_inv_def)

lemmas gui_ok_def = gui_inv_def [where torn = False]

text \<open>The bounds do not depend on the words that are accessed without the lock.\<close>

lemma torn_words: "mq_inv True q \<Longrightarrow> mq_inv True (q\<lparr>dwState := w\<rparr>)" "mq_inv True q \<Longrightarrow> mq_inv True (q\<lparr>loop_depth := d\<rparr>)"
    "mq_inv True q \<Longrightarrow> mq_inv True (q\<lparr>TimerMask := w\<rparr>)"
  by (simp_all add: mq_inv_def ring_ok_def)

lemma mq_ok_torn: "mq_ok q \<Longrightarrow> mq_inv torn q"
  by (simp add: mq_inv_def)

lemma gui_ok_torn: "gui_ok g \<Longrightarrow> gui_inv torn g"
  using mq_ok_torn by (simp add: gui_inv_def)

lemma mq_ok_Init: "InitMsgQueue ok gb root n = Some q \<Longrightarrow> mq_inv torn q"
  using init_ring [of ok gb root n q]
  by (auto simp: mq_inv_def InitMsgQueue_def QS_EMPTY_def DEF_NR_TIMERS_def Let_def split: if_splits)

lemma gui_ok_queue:
  assumes "gui_inv torn g" "mq_inv torn (f (queues g k))"
  shows "gui_inv torn (upd_queue k f g)"
  using assms by (auto simp: gui_inv_def timers_ok_def)

lemma gui_torn_words [intro]:
  assumes "gui_inv True g"
  shows "gui_inv True (upd_queue k (\<lambda>q. q\<lparr>dwState := w\<rparr>) g)" "gui_inv True (upd_queue k (\<lambda>q. q\<lparr>loop_depth := d\<rparr>) g)"
    "gui_inv True (upd_queue k (\<lambda>q. q\<lparr>TimerMask := w\<rparr>) g)"
  using assms by (auto intro!: gui_ok_queue torn_words simp: gui_inv_def [of True g])

lemma gui_ok_cong: "gui_inv torn g \<Longrightarrow> queues g' = queues g \<Longrightarrow> timerstr g' = timerstr g \<Longrightarrow> gui_inv torn g'"
  by (simp add: gui_inv_def timers_ok_def)

lemma queue_message_fields:
  "pFirstSyncMsg (snd (queue_message q m)) = pFirstSyncMsg q"
  "pFirstNotifyMsg (snd (queue_message q m)) = pFirstNotifyMsg q"
  "loop_depth (snd (queue_message q m)) = loop_depth q"
  "FirstTimerSlot (snd (queue_message q m)) = FirstTimerSlot q"
  "TimerMask (snd (queue_message q m)) = TimerMask q"
  "bit (dwState (snd (queue_message q m))) i \<longleftrightarrow>
     bit (dwState q) i \<or> fst (queue_message q m) \<and> i = 30"
  "\<not> fst (queue_message q m) \<Longrightarrow> snd (queue_message q m) = q"
  by (auto simp: queue_message_def Let_def flag_bits split: option.splits prod.splits)

lemma mq_ok_queue_message: "mq_inv torn q \<Longrightarrow> mq_inv torn (snd (queue_message q m))"
  using queue_message_refines(1) [of q m] queue_message_fields [of q m]
  by (cases "fst (queue_message q m)") (auto simp: mq_inv_def)

lemma mq_ok_advance:
  assumes "mq_inv torn q" "readpos q \<noteq> writepos q"
  shows "mq_inv torn (advance_read q)"
proof -
  have "ring_ok q" using assms(1) by (simp add: mq_inv_def)
  then have "ring_ok (advance_read q)" using advance_read_refines(1) assms(2) by blast
  then show ?thesis using assms by (auto simp: mq_inv_def advance_read_def Let_def)
qed

lemma mq_ok_flags:
  assumes "mq_inv torn q"
  shows "mq_inv torn (set_flag QS_PAINT q)" "mq_inv torn (clear_flag QS_PAINT q)"
    "pFirstSyncMsg q = None \<Longrightarrow> mq_inv torn (clear_flag QS_SYNCMSG q)"
    "pFirstNotifyMsg q = [] \<Longrightarrow> mq_inv torn (clear_flag QS_NOTIFYMSG q)"
    "readpos q = writepos q \<Longrightarrow> mq_inv torn (clear_flag QS_POSTMSG q)"
    "mq_inv torn (queue_notify q m)"
    "mq_inv torn (set_flag QS_QUIT (q\<lparr>loop_depth := loop_depth q + 1\<rparr>))"
    "mq_inv torn (set_flag QS_SYNCMSG (q\<lparr>pFirstSyncMsg := a, pLastSyncMsg := b\<rparr>))"
    "mq_inv torn (set_flag QS_SYNCMSG (q\<lparr>pLastSyncMsg := b\<rparr>))"
    "mq_inv torn (q\<lparr>TimerMask := tm\<rparr>)"
    "mq_inv torn (q\<lparr>FirstTimerSlot := n mod DEF_NR_TIMERS\<rparr>)"
    "pFirstNotifyMsg q \<noteq> [] \<Longrightarrow> mq_inv torn (q\<lparr>pFirstNotifyMsg := ns\<rparr>)"
    "pFirstSyncMsg q \<noteq> None \<Longrightarrow> mq_inv torn (q\<lparr>pFirstSyncMsg := a\<rparr>)"
  using assms
  by (auto simp: mq_inv_def flag_bits queue_notify_def ring_ok_def DEF_NR_TIMERS_def)

lemma mq_ok_quit:
  assumes "mq_inv torn q" "bit (dwState q) 31"
  shows "mq_inv torn (let q = q\<lparr>loop_depth := loop_depth q - 1\<rparr>
     in if loop_depth q = 0 then clear_flag QS_QUIT q else q)"
  using assms by (auto simp: mq_inv_def flag_bits ring_ok_def Let_def)

subsection \<open>The steps\<close>

lemma post_ok [intro]:
  assumes "gui_inv torn g"
  shows "gui_inv torn (snd (QueueMessage me k m g))" "gui_inv torn (snd (PostMessage me h i w l g))"
    "gui_inv torn (snd (SendNotifyMessage me h i w l g))"
    "gui_inv torn (POST_MSGQ k g)" "gui_inv torn (sem_post s g)"
proof -
  have q: "mq_inv torn (queues g k)" for k using assms by (simp add: gui_inv_def)
  have post: "gui_inv torn (POST_MSGQ k g')" if "gui_inv torn g'" for g' k
    using that by (rule gui_ok_cong) simp_all
  have choice: "gui_inv torn (if b then POST_MSGQ k g' else g')" if "gui_inv torn g'" for b k g'
    using that post by simp
  show qm: "gui_inv torn (snd (QueueMessage me k m g))" for m k
    using mq_ok_queue_message [OF q, of k m] gui_ok_queue [OF assms, of "\<lambda>_. snd (queue_message (queues g k) m)" k]
    by (auto simp: QueueMessage_def Let_def split: prod.split intro!: choice post assms)
  show "gui_inv torn (snd (PostMessage me h i w l g))"
  proof -
    have "gui_inv torn g'" if "QueueMessage me k m g = (r, g')" for k m r g'
      using qm [of k m] that by simp
    then show ?thesis
      using mq_ok_flags(1) [OF q]
      by (auto simp: PostMessage_def Let_def split: option.split prod.split
          intro!: choice post assms gui_ok_queue)
  qed
  show "gui_inv torn (snd (SendNotifyMessage me h i w l g))"
    using mq_ok_flags(6) [OF q]
    by (auto simp: SendNotifyMessage_def Let_def split: option.split intro!: choice post assms gui_ok_queue)
  show "gui_inv torn (POST_MSGQ k g)" by (rule post [OF assms])
  show "gui_inv torn (sem_post s g)" using assms by (rule gui_ok_cong) simp_all
qed

lemma PostQuitMessage_calm:
  "PostQuitMessage no_gaps me h g = (case queue_of_deleted g h of
        None \<Rightarrow> (ERR_INV_HWND, g)
      | Some k \<Rightarrow>
          (let g = upd_queue k (\<lambda>q. set_flag QS_QUIT (q\<lparr>loop_depth := loop_depth q + 1\<rparr>)) g
           in (ERR_OK, if \<not> BE_THIS_THREAD g me h then POST_MSGQ k g else g)))"
  by (auto simp: PostQuitMessage_def Let_def upd_queue_def set_flag_def split: option.split)

text \<open>The gaps of an unlocked access are empty, or the access may be torn.\<close>

definition gaps_ok :: "bool \<Rightarrow> gaps \<Rightarrow> bool" where
  "gaps_ok torn gap \<longleftrightarrow> (\<not> torn \<longrightarrow> gap = no_gaps) \<and> (\<forall>i g. gui_inv torn g \<longrightarrow> gui_inv torn (gap i g))"

lemma gaps_ok_none [intro]: "gaps_ok torn no_gaps"
  by (simp add: gaps_ok_def)

lemma PostQuitMessage_ok [intro]:
  assumes "gui_inv torn g" "gaps_ok torn gap"
  shows "gui_inv torn (snd (PostQuitMessage gap me h g))"
proof (cases torn)
  case True
  have gap: "gui_inv True (gap i g)" if "gui_inv True g" for i g using assms(2) True that by (simp add: gaps_ok_def)
  have g: "gui_inv True g" using assms(1) True by simp
  show ?thesis using True g
    by (auto simp: PostQuitMessage_def Let_def split: option.split intro!: post_ok(4) gui_torn_words gap)
next
  case False
  then have "gap = no_gaps" using assms(2) by (simp add: gaps_ok_def)
  moreover have "gui_inv torn (upd_queue k (\<lambda>q. set_flag QS_QUIT (q\<lparr>loop_depth := loop_depth q + 1\<rparr>)) g)" for k
    using gui_ok_queue [OF assms(1)] mq_ok_flags(7) assms(1) by (simp add: gui_inv_def)
  ultimately show ?thesis using assms(1) by (auto simp: PostQuitMessage_calm Let_def split: option.split intro!: post_ok(4))
qed

fun phase_gui :: "phase \<Rightarrow> gui" where
  "phase_gui (Ret r m g) = g"
| "phase_gui (Cont m g) = g"

lemma peek_parts_ok [intro]:
  assumes "gui_inv torn g"
  shows "gui_inv torn (phase_gui (peek_quit k h rm m g))" "gui_inv torn (phase_gui (peek_sync k want rm m g))"
    "gui_inv torn (phase_gui (peek_notify k want rm m g))" "gui_inv torn (phase_gui (peek_post ext k want rm m g))"
    "gui_inv torn (phase_gui (peek_paint ext k h want rm m g))"
proof -
  have q: "mq_inv torn (queues g k)" using assms by (simp add: gui_inv_def)
  show "gui_inv torn (phase_gui (peek_quit k h rm m g))"
    using mq_ok_quit [OF q] gui_ok_queue assms by (auto simp: peek_quit_def has_flag_bit)
  show "gui_inv torn (phase_gui (peek_sync k want rm m g))"
    using mq_ok_flags(3,13) [OF q] gui_ok_queue assms by (auto simp: peek_sync_def Let_def split: option.split)
  show "gui_inv torn (phase_gui (peek_notify k want rm m g))"
    using mq_ok_flags(4,12) [OF q] gui_ok_queue assms by (auto simp: peek_notify_def Let_def split: list.split)
  show "gui_inv torn (phase_gui (peek_post ext k want rm m g))"
    using mq_ok_flags(5) [OF q] mq_ok_advance [OF q] gui_ok_queue assms
    by (auto simp: peek_post_def Let_def)
  show "gui_inv torn (phase_gui (peek_paint ext k h want rm m g))"
    using mq_ok_flags(2) [OF q] gui_ok_queue assms by (auto simp: peek_paint_def Let_def)
qed

text \<open>Timers: overwriting a slot with a timer of the same key, or with none.\<close>

lemma gui_ok_timers:
  assumes "gui_inv torn g" "timers_ok g'" "queues g' = queues g"
  shows "gui_inv torn g'"
  using assms by (simp add: gui_inv_def)

lemma timers_ok_set:
  assumes ok: "timers_ok g" and t: "\<forall>u. t = Some u \<longrightarrow> (\<exists>v. timerstr g ! i = Some v \<and> t_key v = t_key u)"
  shows "timers_ok (set_timer i t g)"
proof (cases "i < DEF_NR_TIMERS")
  case i: True
  have len: "length (timerstr g) = DEF_NR_TIMERS" using ok by (simp add: timers_ok_def)
  have nth: "timerstr (set_timer i t g) ! j = (if j = i then t else timerstr g ! j)" if "j < DEF_NR_TIMERS" for j
    using that len i by (simp add: nth_list_update)
  have old: "\<exists>v. timerstr g ! j = Some v \<and> t_key v = t_key u"
    if "j < DEF_NR_TIMERS" "timerstr (set_timer i t g) ! j = Some u" for j u
  proof (cases "j = i")
    case True
    then have "t = Some u" using that nth [OF that(1)] by simp
    then show ?thesis using t True by blast
  next
    case False
    then show ?thesis using that nth [OF that(1)] by simp
  qed
  show ?thesis
    unfolding timers_ok_def
  proof (intro conjI allI impI)
    show "length (timerstr (set_timer i t g)) = DEF_NR_TIMERS" using len by simp
    fix a b u v
    assume ab: "a < DEF_NR_TIMERS" "b < DEF_NR_TIMERS"
      and uv: "timerstr (set_timer i t g) ! a = Some u \<and> timerstr (set_timer i t g) ! b = Some v \<and> t_key u = t_key v"
    obtain u' v' where "timerstr g ! a = Some u'" "timerstr g ! b = Some v'" "t_key u' = t_key v'"
      using old [of a u] old [of b v] ab uv by auto
    then show "a = b" using ok ab unfolding timers_ok_def by blast
  qed
next
  case False
  moreover have "length (timerstr g) = DEF_NR_TIMERS" using ok by (simp add: timers_ok_def)
  ultimately have "timerstr (set_timer i t g) = timerstr g" by (simp add: set_timer_def list_update_beyond)
  then show ?thesis using ok by (simp add: timers_ok_def)
qed

lemma set_timer_ok:
  assumes g: "gui_inv torn g" and t: "\<forall>u. t = Some u \<longrightarrow> (\<exists>v. timerstr g ! i = Some v \<and> t_key v = t_key u)"
  shows "gui_inv torn (set_timer i t g)"
proof (rule gui_ok_timers [OF g])
  have "timers_ok g" using g by (simp add: gui_inv_def)
  then show "timers_ok (set_timer i t g)" using t by (rule timers_ok_set)
  show "queues (set_timer i t g) = queues g" by (simp add: set_timer_def)
qed

lemma mask_ok [intro]:
  assumes "gui_inv torn g"
  shows "gui_inv torn (RemoveMsgQueueTimerFlag k i g)" "gui_inv torn (SetMsgQueueTimerFlag k i g)"
    "gui_inv torn (AlertDesktopTimerEvent k g)"
proof -
  have "gui_inv torn (upd_queue k (\<lambda>q. q\<lparr>TimerMask := f q\<rparr>) g)" for f k
    using assms mq_ok_flags(10) by (intro gui_ok_queue) (auto simp: gui_inv_def)
  then show "gui_inv torn (RemoveMsgQueueTimerFlag k i g)" "gui_inv torn (SetMsgQueueTimerFlag k i g)"
    "gui_inv torn (AlertDesktopTimerEvent k g)"
    by (auto simp: RemoveMsgQueueTimerFlag_def SetMsgQueueTimerFlag_def AlertDesktopTimerEvent_def)
qed

lemma kill_loop_ok: "gui_inv torn (snd r) \<Longrightarrow> gui_inv torn (snd (kill_loop k h i js r))"
proof (induction k h i js r rule: kill_loop.induct)
  case (2 k h i j js killed g)
  have "gui_inv torn (set_timer j None (RemoveMsgQueueTimerFlag k j g))"
    using 2(3) by (intro set_timer_ok) auto
  then show ?case using 2 by (auto simp: Let_def)
qed simp

lemma SetTimerEx_ok [intro]:
  assumes "gui_inv torn g"
  shows "gui_inv torn (snd (SetTimerEx me a h i sp pr g))"
proof (cases "thread_queue g me")
  case (Some k)
  have t: "timers_ok g" using assms by (simp add: gui_inv_def)
  have "timers_ok (snd (SetTimerEx me a h i sp pr g))" by (rule SetTimerEx_table(3) [OF t Some refl])
  moreover have "queues (snd (SetTimerEx me a h i sp pr g)) = queues g"
    using Some by (cases "set_scan g h i (-1) [0..<DEF_NR_TIMERS]") (simp_all add: SetTimerEx_def)
  ultimately show ?thesis using gui_ok_timers [OF assms] by blast
next
  case None
  then show ?thesis using assms by (simp add: SetTimerEx_def)
qed

lemma KillTimer_ok [intro]:
  assumes "gui_inv torn g"
  shows "gui_inv torn (snd (KillTimer me h i g))"
  using kill_loop_ok [where r = "(0, g)"] assms by (cases "thread_queue g me") (simp_all add: KillTimer_def)

lemma RemoveMsgQueueTimerFlag_table [simp]:
  "timerstr (RemoveMsgQueueTimerFlag k i g) = timerstr g" "timerstr (SetMsgQueueTimerFlag k i g) = timerstr g"
  by (simp_all add: RemoveMsgQueueTimerFlag_def SetMsgQueueTimerFlag_def)

lemma ResetTimerEx_ok [intro]:
  assumes "gui_inv torn g"
  shows "gui_inv torn (snd (ResetTimerEx me h i sp keep pr g))"
proof (cases "thread_queue g me")
  case (Some k)
  have "gui_inv torn (set_timer j (Some u) (RemoveMsgQueueTimerFlag k j g))"
    if "timerstr g ! j = Some t" "t_key t = t_key u" for j t u
    using set_timer_ok [OF mask_ok(1) [OF assms]] that by simp
  then show ?thesis
    using assms Some by (auto simp: ResetTimerEx_def Let_def t_key_def split: option.split)
qed (use assms in \<open>simp add: ResetTimerEx_def\<close>)

lemma mg_remove_timer_ok [intro]:
  assumes "gui_inv torn g"
  shows "gui_inv torn (mg_remove_timer t sl g)"
  using assms set_timer_ok [OF assms, of None] by (auto simp: mg_remove_timer_def split: option.split)

lemma dispatch_slot_ok:
  assumes "gui_inv torn g"
  shows "gui_inv torn (dispatch_slot n j g)"
proof -
  have up: "gui_inv torn (set_timer j (Some u) g')"
    if "gui_inv torn g'" "timerstr g' = timerstr g" "timerstr g ! j = Some t" "t_key t = t_key u" for g' t u
    using set_timer_ok [OF that(1)] that by simp
  show ?thesis
    using up [OF assms refl] up [OF mask_ok(2) [OF assms] RemoveMsgQueueTimerFlag_table(2)] assms
    by (auto simp: dispatch_slot_def Let_def t_key_def split: option.split)
qed

lemma DispatchTimerMessage_ok [intro]:
  assumes "gui_inv torn g"
  shows "gui_inv torn (DispatchTimerMessage n g)"
proof -
  have "gui_inv torn (fold (dispatch_slot n) js g)" for js
    using assms by (induction js arbitrary: g) (auto simp: dispatch_slot_ok)
  then show ?thesis by (simp add: DispatchTimerMessage_def)
qed

lemma timer_misc_ok [intro]:
  assumes "gui_inv torn g"
  shows "gui_inv torn (TerminateTimer g)" "gui_inv torn (mg_timer_action k g)"
proof -
  have "timers_ok (TerminateTimer g)" by (simp add: timers_ok_def TerminateTimer_def)
  then show "gui_inv torn (TerminateTimer g)" using assms by (simp add: gui_inv_def TerminateTimer_def)
  have "gui_inv torn (g\<lparr>timer_counter := c\<rparr>)" for c using assms by (rule gui_ok_cong) simp_all
  then show "gui_inv torn (mg_timer_action k g)" unfolding mg_timer_action_def by (intro mask_ok(3))
qed

text \<open>Synchronous messages and throwing away.\<close>

lemma queue_sync_ok [intro]:
  assumes "gui_inv torn g"
  shows "gui_inv torn (queue_sync k a m s g)"
proof -
  let ?g = "g\<lparr>syncs := (syncs g)(a := \<lparr>s_msg = m, s_retval = ERR_MSG_CANCELED, s_sem = s, s_next = None\<rparr>)\<rparr>"
  have q: "mq_inv torn (queues g k)" using assms by (simp add: gui_inv_def)
  have up: "gui_inv torn (POST_MSGQ k (upd_queue k (set_flag QS_SYNCMSG) (upd_queue k f g')))"
    if "gui_inv torn g'" "mq_inv torn (set_flag QS_SYNCMSG (f (queues g' k)))" for f g'
  proof -
    have "upd_queue k (set_flag QS_SYNCMSG) (upd_queue k f g') = upd_queue k (\<lambda>q. set_flag QS_SYNCMSG (f q)) g'"
      by (simp add: upd_queue_def)
    then show ?thesis using gui_ok_queue [OF that(1), of "\<lambda>q. set_flag QS_SYNCMSG (f q)" k] that(2)
      by (auto intro!: post_ok(4))
  qed
  have g: "gui_inv torn ?g" using assms by (rule gui_ok_cong) simp_all
  then have l: "gui_inv torn (link_node b n ?g)" for b n by (rule gui_ok_cong) (simp_all add: link_node_def)
  have q': "queues (link_node b n ?g) = queues g" for b n by (simp add: link_node_def)
  show ?thesis
    using mq_ok_flags(8,9) [OF q] g l
    unfolding queue_sync_def Let_def by (auto simp: q' split: option.split intro!: up)
qed

definition sync_bit :: "bool \<Rightarrow> nat \<Rightarrow> nat option \<Rightarrow> gui \<Rightarrow> bool" where
  "sync_bit torn k cur g \<longleftrightarrow> gui_inv torn g \<and> (\<not> torn \<and> cur \<noteq> None \<longrightarrow> bit (dwState (queues g k)) 29)"

lemma sync_bit_step:
  assumes "sync_bit torn k (Some a) g"
  defines "c \<equiv> (syncs g a)\<lparr>s_msg := (s_msg (syncs g a))\<lparr>m_hwnd := HWND_INVALID\<rparr>, s_retval := ERR_MSG_CANCELED\<rparr>"
  shows "sync_bit torn k m (sem_post s (link_node p n (g\<lparr>syncs := (syncs g)(a := c)\<rparr>)))"
    "sync_bit torn k m (sem_post s (upd_queue k (\<lambda>q. q\<lparr>pFirstSyncMsg := n\<rparr>) (g\<lparr>syncs := (syncs g)(a := c)\<rparr>)))"
    "sync_bit torn k m g"
proof -
  let ?g = "g\<lparr>syncs := (syncs g)(a := c)\<rparr>"
  have ok: "gui_inv torn g" and bit: "\<not> torn \<longrightarrow> bit (dwState (queues g k)) 29" using assms by (simp_all add: sync_bit_def)
  have g: "gui_inv torn ?g" using ok by (rule gui_ok_cong) simp_all
  have "gui_inv torn (link_node p n ?g)" using g by (rule gui_ok_cong) (simp_all add: link_node_def)
  then show "sync_bit torn k m (sem_post s (link_node p n ?g))"
    using bit post_ok(5) by (simp add: sync_bit_def link_node_def)
  have "mq_inv torn (queues g k)" using ok by (simp add: gui_inv_def)
  then have "mq_inv torn ((queues ?g k)\<lparr>pFirstSyncMsg := n\<rparr>)" using bit by (auto simp: mq_inv_def ring_ok_def)
  then show "sync_bit torn k m (sem_post s (upd_queue k (\<lambda>q. q\<lparr>pFirstSyncMsg := n\<rparr>) ?g))"
    using gui_ok_queue [OF g] bit post_ok(5) by (simp add: sync_bit_def)
  show "sync_bit torn k m g" using ok bit by (simp add: sync_bit_def)
qed

lemma throw_sync_ok:
  assumes "throw_sync h k prev cur n g = Some r"
  shows "sync_bit torn k cur g \<longrightarrow> gui_inv torn (snd r)"
proof (rule throw_sync.raw_induct [OF _ assms, where P = "\<lambda>h k prev cur n g r. sync_bit torn k cur g \<longrightarrow> gui_inv torn (snd r)"],
    rule impI, goal_cases)
  case (1 rec h k prev cur n g r)
  show ?case
  proof (cases cur)
    case None
    then show ?thesis using 1 by (auto simp: sync_bit_def)
  next
    case (Some a)
    note ok = sync_bit_step [OF 1(3) [unfolded Some]]
    show ?thesis
      using 1(1) 1(2) ok
      unfolding Some by (auto simp: Let_def split: if_splits option.splits)
  qed
qed

lemma throw_posts_fields:
  "ring_ok (throw_posts g h q) \<longleftrightarrow> ring_ok q" "mq_inv torn (throw_posts g h q) \<longleftrightarrow> mq_inv torn q"
proof -
  let ?f = "\<lambda>i q. q\<lparr>qmsg := (qmsg q)[i := throw_msg g h (qmsg q ! i)]\<rparr>"
  have "ring_ok (fold ?f is q) = ring_ok q \<and> mq_inv torn (fold ?f is q) = mq_inv torn q" for "is"
  proof (induction "is" arbitrary: q)
    case (Cons i "is")
    have "ring_ok (?f i q) = ring_ok q \<and> mq_inv torn (?f i q) = mq_inv torn q" by (simp add: ring_ok_def mq_inv_def)
    then show ?case using Cons by simp
  qed simp
  then show "ring_ok (throw_posts g h q) \<longleftrightarrow> ring_ok q" "mq_inv torn (throw_posts g h q) \<longleftrightarrow> mq_inv torn q"
    by (simp_all add: throw_posts_def)
qed

lemma ThrowAwayMessages_ok:
  assumes "ThrowAwayMessages h g = Some r" "gui_inv torn g"
  shows "gui_inv torn (snd r)"
proof (cases "queue_of_deleted g h")
  case (Some k)
  let ?g = "upd_queue k (\<lambda>q. q\<lparr>pFirstNotifyMsg := map (throw_msg g h) (pFirstNotifyMsg q)\<rparr>) g"
  have "mq_inv torn (queues g k)" using assms(2) by (simp add: gui_inv_def)
  then have "mq_inv torn ((queues g k)\<lparr>pFirstNotifyMsg := map (throw_msg g h) (pFirstNotifyMsg (queues g k))\<rparr>)"
    and bit: "\<not> torn \<and> pFirstSyncMsg (queues g k) \<noteq> None \<longrightarrow> bit (dwState (queues g k)) 29"
    by (auto simp: mq_inv_def ring_ok_def)
  then have "sync_bit torn k (pFirstSyncMsg (queues ?g k)) ?g"
    using gui_ok_queue [OF assms(2)] by (simp add: sync_bit_def)
  then obtain n g1 where t: "throw_sync h k None (pFirstSyncMsg (queues ?g k)) 0 ?g = Some (n, g1)" and g1: "gui_inv torn g1"
    using assms(1) Some throw_sync_ok
    by (fastforce simp: ThrowAwayMessages_def Let_def split: option.splits)
  have "gui_inv torn (upd_queue k (throw_posts g1 h) g1)"
    using gui_ok_queue [OF g1] g1 throw_posts_fields by (auto simp: gui_inv_def)
  then have "gui_inv torn (fold (throw_timer h k) js (upd_queue k (throw_posts g1 h) g1))" for js
    by (induction js arbitrary: g1 rule: rev_induct) (auto simp: throw_timer_def)
  then show ?thesis using assms(1) Some t by (auto simp: ThrowAwayMessages_def Let_def)
qed (use assms in \<open>auto simp: ThrowAwayMessages_def\<close>)

lemma PeekPostMessage_ok:
  assumes "gui_inv torn g"
  shows "gui_inv torn (snd (snd (PeekPostMessage h lo hi rm m g)))"
proof -
  have "mq_inv torn (queues g k)" for k using assms by (simp add: gui_inv_def)
  then show ?thesis
    using mq_ok_advance gui_ok_queue assms
    by (auto simp: PeekPostMessage_def Let_def split: option.split)
qed

subsection \<open>Steps of the threads\<close>

text \<open>
  One step of some thread: an operation of the two modules that runs under a lock, or anything
  that touches neither the queues nor the timers (windows, semaphores, nodes of synchronous
  messages, the capture, the tick counter), or a change of a queue's tree of windows.  Where unlocked accesses may be torn, the
  words that are accessed without the lock (the state, the count of quit requests and, from timer.c, the mask of timers) may
  be overwritten with anything at any time: a write that was prepared from a value read before, or a write that is lost.
\<close>

inductive thread_step :: "bool \<Rightarrow> gui \<Rightarrow> gui \<Rightarrow> bool" for torn where
  step_post: "thread_step torn g (snd (PostMessage me h i w l g))"
| step_queue: "thread_step torn g (snd (QueueMessage me k m g))"
| step_notify: "thread_step torn g (snd (SendNotifyMessage me h i w l g))"
| step_quit: "thread_step torn g (snd (PostQuitMessage no_gaps me h g))"
| step_sync: "thread_step torn g (queue_sync k a m s g)"
| step_peek_quit: "thread_step torn g (phase_gui (peek_quit k h rm m g))"
| step_peek_sync: "thread_step torn g (phase_gui (peek_sync k want rm m g))"
| step_peek_notify: "thread_step torn g (phase_gui (peek_notify k want rm m g))"
| step_peek_post: "thread_step torn g (phase_gui (peek_post ext k want rm m g))"
| step_peek_paint: "thread_step torn g (phase_gui (peek_paint ext k h want rm m g))"
| step_peekpost: "thread_step torn g (snd (snd (PeekPostMessage h lo hi rm m g)))"
| step_throw: "ThrowAwayMessages h g = Some (n, g') \<Longrightarrow> thread_step torn g g'"
| step_SetTimer: "thread_step torn g (snd (SetTimerEx me a h i sp pr g))"
| step_KillTimer: "thread_step torn g (snd (KillTimer me h i g))"
| step_ResetTimer: "thread_step torn g (snd (ResetTimerEx me h i sp keep pr g))"
| step_remove: "thread_step torn g (mg_remove_timer t sl g)"
| step_dispatch_timers: "thread_step torn g (DispatchTimerMessage n g)"
| step_tick: "thread_step torn g (mg_timer_action k g)"
| step_terminate: "thread_step torn g (TerminateTimer g)"
| step_timer_flag: "thread_step torn g (RemoveMsgQueueTimerFlag k i g)"
| step_tree: "thread_step torn g (upd_queue k (\<lambda>q. q\<lparr>pRootMainWin := t\<rparr>) g)"
| step_state_word: "torn \<Longrightarrow> thread_step torn g (upd_queue k (\<lambda>q. q\<lparr>dwState := w\<rparr>) g)"
| step_depth_word: "torn \<Longrightarrow> thread_step torn g (upd_queue k (\<lambda>q. q\<lparr>loop_depth := d\<rparr>) g)"
| step_mask_word: "torn \<Longrightarrow> thread_step torn g (upd_queue k (\<lambda>q. q\<lparr>TimerMask := w\<rparr>) g)"
| step_other: "queues g' = queues g \<Longrightarrow> timerstr g' = timerstr g \<Longrightarrow> thread_step torn g g'"

abbreviation gstep :: "gui \<Rightarrow> gui \<Rightarrow> bool" where "gstep \<equiv> thread_step False"

lemma gstep_ok: "thread_step torn g g' \<Longrightarrow> gui_inv torn g \<Longrightarrow> gui_inv torn g'"
proof (induction rule: thread_step.induct)
  case (step_throw h g n g')
  then show ?case using ThrowAwayMessages_ok by fastforce
next
  case (step_tree g k t)
  then show ?case using gui_ok_queue [OF step_tree, of "\<lambda>q. q\<lparr>pRootMainWin := t\<rparr>" k]
    by (simp add: gui_inv_def mq_inv_def ring_ok_def)
next
  case (step_other g' g)
  then show ?case using gui_ok_cong by blast
qed (auto simp: PeekPostMessage_ok)

lemma gsteps_ok: "(thread_step torn)\<^sup>*\<^sup>* g g' \<Longrightarrow> gui_inv torn g \<Longrightarrow> gui_inv torn g'"
  by (induction rule: rtranclp_induct) (auto intro: gstep_ok)

end
