(* ===== verification/Message_Steps.thy ===== *)
theory Message_Steps
  imports Message_Inv
begin

section \<open>Messages: every operation keeps the invariant\<close>

text \<open>
  The operations that run callbacks or wait: callbacks and the other threads take any number
  of steps (\<open>callbacks_step\<close>, \<open>acts_step\<close>), and the invariant of all queues and timers still
  holds when the operation returns.
\<close>

definition callbacks_step :: "bool \<Rightarrow> extern \<Rightarrow> bool" where
  "callbacks_step torn ext \<longleftrightarrow>
     (\<forall>p h i w l g. (thread_step torn)\<^sup>*\<^sup>* g (snd (wnd_proc ext p h i w l g)))
     \<and> (\<forall>p h i t g. (thread_step torn)\<^sup>*\<^sup>* g (snd (timer_proc ext p h i t g)))
     \<and> (\<forall>m g. (thread_step torn)\<^sup>*\<^sup>* g (translate_message ext m g))
     \<and> (\<forall>i g. (thread_step torn)\<^sup>*\<^sup>* g (meanwhile ext i g)) \<and> (\<not> torn \<longrightarrow> meanwhile ext = no_gaps)"


definition acts_step :: "bool \<Rightarrow> acts \<Rightarrow> bool" where
  "acts_step torn acts \<longleftrightarrow> (\<forall>a\<in>set acts. \<forall>g. (thread_step torn)\<^sup>*\<^sup>* g (a g))"

lemma callbacks_gaps: "callbacks_step torn ext \<Longrightarrow> gaps_ok torn (meanwhile ext)"
  unfolding callbacks_step_def gaps_ok_def using gsteps_ok by blast

lemma sem_wait_ok:
  "sem_wait s acts g = Some (acts', g') \<Longrightarrow> acts_step torn acts \<Longrightarrow> gui_inv torn g \<Longrightarrow> acts_step torn acts' \<and> gui_inv torn g'"
proof (induction s acts g rule: sem_wait.induct)
  case (1 s g)
  then have "g' = g\<lparr>sems := (sems g)(s := sems g s - 1)\<rparr>" "acts' = []" by (auto split: if_splits)
  then show ?case using gui_ok_cong [OF 1(3), of g'] by (simp add: acts_step_def)
next
  case (2 s a as g)
  show ?case
  proof (cases "sems g s > 0")
    case True
    then have "g' = g\<lparr>sems := (sems g)(s := sems g s - 1)\<rparr>" "acts' = a # as" using 2(2) by simp_all
    then show ?thesis using 2(3) gui_ok_cong [OF 2(4), of g'] by simp
  next
    case False
    have "gui_inv torn (a g)" using 2(3,4) gsteps_ok [of torn g "a g"] by (simp add: acts_step_def)
    then show ?thesis using 2 False by (simp add: acts_step_def)
  qed
qed

lemma peek_timer_ok:
  assumes "gui_inv torn g" "callbacks_step torn ext"
  shows "gui_inv torn (phase_gui (peek_timer ext k h want rm m g))"
proof -
  let ?q = "queues g k"
  let ?s = "slot_search DEF_NR_TIMERS (TimerMask ?q) (FirstTimerSlot ?q) (FirstTimerSlot ?q)"
  let ?g = "upd_queue k (\<lambda>q. q\<lparr>FirstTimerSlot := (FirstTimerSlot q + 1) mod DEF_NR_TIMERS\<rparr>) g"
  have q: "mq_inv torn ?q" using assms(1) by (simp add: gui_inv_def)
  have g: "gui_inv torn ?g" using gui_ok_queue [OF assms(1)] mq_ok_flags(11) [OF q] by simp
  have cleared: "gui_inv torn (upd_queue k (\<lambda>q. q\<lparr>TimerMask := 0\<rparr>) g)"
    using gui_ok_queue [OF assms(1)] mq_ok_flags(10) [OF q] by simp
  have fired: "gui_inv torn (RemoveMsgQueueTimerFlag k (nat ?s) (set_timer (nat ?s) (Some (t\<lparr>t_tick_count := 0\<rparr>)) ?g))"
    if "mg_get_timer ?g ?s = Some t" for t
    using that by (intro mask_ok(1) set_timer_ok [OF g]) (auto simp: mg_get_timer_def t_key_def split: if_splits)
  have cb: "gui_inv torn g'" if "timer_proc ext p a b c g1 = (r, g')" "gui_inv torn g1" for p a b c g1 r g'
    using that assms(2) gsteps_ok [of torn g1 g'] unfolding callbacks_step_def by (metis snd_conv)
  show ?thesis
  proof (cases "TimerMask ?q \<noteq> 0 \<and> want MSG_TIMER \<and> h \<noteq> hwnd_desktop g")
    case False
    then show ?thesis using cleared assms(1) by (auto simp: peek_timer_def Let_def)
  next
    case True
    show ?thesis
    proof (cases "mg_get_timer ?g ?s")
      case None
      then show ?thesis using True g by (simp add: peek_timer_def Let_def)
    next
      case (Some t)
      let ?g1 = "RemoveMsgQueueTimerFlag k (nat ?s) (set_timer (nat ?s) (Some (t\<lparr>t_tick_count := 0\<rparr>)) ?g)"
      obtain r g2 where tp: "timer_proc ext (the (t_proc t)) (t_hWnd t) (t_id t) (t_tick_count t) ?g1 = (r, g2)"
        by fastforce
      have "gui_inv torn g2" using cb [OF tp fired [OF Some]] .
      then have "gui_inv torn (mg_remove_timer (Some (t\<lparr>t_tick_count := 0\<rparr>)) ?s g2)" "gui_inv torn g2"
        by (simp_all add: mg_remove_timer_ok)
      then show ?thesis using True Some fired [OF Some] tp
        by (cases "t_proc t") (simp_all add: peek_timer_def Let_def)
    qed
  qed
qed

lemma andthen_ok:
  assumes "gui_inv torn (phase_gui p)" "\<And>m g. gui_inv torn g \<Longrightarrow> gui_inv torn (phase_gui (f m g))"
  shows "gui_inv torn (phase_gui (andthen p f))"
  using assms by (cases p) auto

lemma peek_pass_ok:
  assumes "gui_inv torn g" "callbacks_step torn ext"
  shows "gui_inv torn (phase_gui (peek_pass ext k h want rm m g))"
  unfolding peek_pass_def
  by (intro andthen_ok peek_parts_ok peek_timer_ok assms) assumption+

lemma peek_loop_ok:
  assumes "peek_loop ext k h want bw rm acts m g = Some r"
  shows "gui_inv torn g \<and> callbacks_step torn ext \<and> acts_step torn acts \<longrightarrow> gui_inv torn (snd (snd r))"
proof (rule peek_loop.raw_induct [OF _ assms, where P = "\<lambda>ext k h want bw rm acts m g r.
      gui_inv torn g \<and> callbacks_step torn ext \<and> acts_step torn acts \<longrightarrow> gui_inv torn (snd (snd r))"], rule impI, goal_cases)
  case (1 rec ext k h want bw rm acts m g r)
  have pass: "gui_inv torn (phase_gui (peek_pass ext k h want rm m g))" using peek_pass_ok 1(3) by blast
  show ?case
  proof (cases "peek_pass ext k h want rm m g")
    case (Ret r' m' g')
    then show ?thesis using 1(2) pass by auto
  next
    case (Cont m' g')
    show ?thesis
    proof (cases "bw \<and> sem_wait (SemWait k) acts g' \<noteq> None")
      case False
      then show ?thesis using 1(2) Cont pass by (auto split: if_splits option.splits)
    next
      case True
      then obtain acts' g'' where w: "sem_wait (SemWait k) acts g' = Some (acts', g'')" by auto
      have "acts_step torn acts' \<and> gui_inv torn g''" using sem_wait_ok [OF w] pass Cont 1(3) by simp
      moreover have "rec ext k h want bw rm acts' m' g'' = Some r" using 1(2) Cont True w by simp
      ultimately show ?thesis using 1(1) 1(3) by blast
    qed
  qed
qed

lemma wait_loop_ok:
  assumes "wait_loop k acts g = Some r"
  shows "gui_inv torn g \<and> acts_step torn acts \<longrightarrow> gui_inv torn (snd r)"
proof (rule wait_loop.raw_induct [OF _ assms, where P = "\<lambda>k acts g r. gui_inv torn g \<and> acts_step torn acts \<longrightarrow> gui_inv torn (snd r)"],
    rule impI, goal_cases)
  case (1 rec k acts g r)
  show ?case
  proof (cases "wait_ready (queues g k) \<or> sem_wait (SemWait k) acts g = None")
    case True
    then show ?thesis using 1(2,3) by (auto split: if_splits)
  next
    case False
    then obtain acts' g' where w: "sem_wait (SemWait k) acts g = Some (acts', g')" by auto
    then have "rec k acts' g' = Some r" using 1(2) False by simp
    then show ?thesis using 1(1) sem_wait_ok [OF w] 1(3) by blast
  qed
qed

lemma DispatchMessage_ok:
  assumes "gui_inv torn g" "callbacks_step torn ext"
  shows "gui_inv torn (snd (DispatchMessage ext m g))"
proof -
  have answer: "gui_inv torn (sem_post s (g'\<lparr>syncs := f\<rparr>))" if "gui_inv torn g'" for g' s f
    using that by (intro post_ok(5)) (rule gui_ok_cong, simp_all)
  have cb: "gui_inv torn g'" if "wnd_proc ext p a b c d g = (r, g')" for p a b c d r g'
    using that assms gsteps_ok [of torn g g'] unfolding callbacks_step_def by (metis snd_conv)
  show ?thesis
    using answer cb assms(1) by (auto simp: DispatchMessage_def Let_def split: option.splits prod.splits)
qed

text \<open>The clearing of the bit after the lock is released.\<close>

lemma unlocked_clear_ok:
  assumes "gui_inv torn g" "gaps_ok torn gap" "pFirstSyncMsg (queues g k) = None"
  shows "gui_inv torn (upd_queue k (\<lambda>q. q\<lparr>dwState := dwState (queues (gap 0 g) k) AND NOT QS_SYNCMSG\<rparr>) (gap 1 (gap 0 g)))"
proof (cases torn)
  case True
  then have "gui_inv True (gap 1 (gap 0 g))" using assms(1,2) by (simp add: gaps_ok_def)
  then show ?thesis using True by (auto intro: gui_torn_words)
next
  case False
  then have "gap = no_gaps" using assms(2) by (simp add: gaps_ok_def)
  moreover have "gui_inv torn (upd_queue k (clear_flag QS_SYNCMSG) g)"
    using gui_ok_queue [OF assms(1)] mq_ok_flags(3) [OF _ assms(3)] assms(1) by (simp add: gui_inv_def)
  ultimately show ?thesis by (simp add: clear_flag_def upd_queue_def)
qed

lemma drain_sync_ok:
  assumes "drain_sync ext k g = Some r"
  shows "gui_inv torn g \<and> callbacks_step torn ext \<longrightarrow> gui_inv torn r"
proof (rule drain_sync.raw_induct [OF _ assms, where P = "\<lambda>ext k g r. gui_inv torn g \<and> callbacks_step torn ext \<longrightarrow> gui_inv torn r"],
    rule impI, goal_cases)
  case (1 rec ext k g r)
  have q: "mq_inv torn (queues g k)" using 1(3) by (simp add: gui_inv_def)
  have "gui_inv torn (upd_queue k (\<lambda>q. q\<lparr>pFirstSyncMsg := n\<rparr>) g)" if "pFirstSyncMsg (queues g k) \<noteq> None" for n
    using gui_ok_queue [of torn g "\<lambda>q. q\<lparr>pFirstSyncMsg := n\<rparr>" k] 1(3) mq_ok_flags(13) [OF q that] by simp
  moreover have "gui_inv torn (translate_message ext m g')" if "gui_inv torn g'" for m g'
    using that 1(3) gsteps_ok unfolding callbacks_step_def by blast
  ultimately have "gui_inv torn (snd (DispatchMessage ext m (translate_message ext m
      (upd_queue k (\<lambda>q. q\<lparr>pFirstSyncMsg := n\<rparr>) g))))" if "pFirstSyncMsg (queues g k) \<noteq> None" for n m
    using that DispatchMessage_ok 1(3) by simp
  moreover have "gui_inv torn (upd_queue k (\<lambda>q. q\<lparr>dwState := dwState (queues (meanwhile ext 0 g) k) AND NOT QS_SYNCMSG\<rparr>)
      (meanwhile ext 1 (meanwhile ext 0 g)))" if "pFirstSyncMsg (queues g k) = None"
    using unlocked_clear_ok [OF _ callbacks_gaps that] 1(3) by blast
  ultimately show ?case
    using 1 by (auto simp: Let_def split: if_splits option.splits)
qed

lemma SendSyncMessage_ok:
  assumes "SendSyncMessage ext me a acts h i w l g = Some r" "gui_inv torn g" "callbacks_step torn ext" "acts_step torn acts"
  shows "gui_inv torn (snd r)"
proof -
  have "gui_inv torn (g\<lparr>sems := f\<rparr>)" for f using assms(2) by (rule gui_ok_cong) simp_all
  then have q: "gui_inv torn (queue_sync k b m s (g\<lparr>sems := f\<rparr>))" "gui_inv torn (queue_sync k b m s g)" for k b m s f
    using queue_sync_ok assms(2) by auto
  show ?thesis
  proof (cases "GetMsgQueue g h")
    case (Some k)
    let ?s = "case thread_queue g me of Some t \<Rightarrow> SemSync t | None \<Rightarrow> SemStack a"
    let ?g = "queue_sync k a (make_msg h i w l) ?s (if thread_queue g me = None then g\<lparr>sems := (sems g)(?s := 0)\<rparr> else g)"
    obtain g1 where g1: "(case thread_queue g me of None \<Rightarrow> Some ?g | Some t \<Rightarrow> drain_sync ext t ?g) = Some g1"
      and r: "(case sem_wait ?s acts g1 of None \<Rightarrow> None | Some (_, g) \<Rightarrow> Some (s_retval (syncs g a), g)) = Some r"
      using assms(1) Some by (auto simp: SendSyncMessage_def Let_def split: option.splits)
    have "gui_inv torn g1"
      using g1 q drain_sync_ok assms(3) by (cases "thread_queue g me") fastforce+
    then show ?thesis using r sem_wait_ok assms(4) by (fastforce split: option.splits)
  qed (use assms in \<open>auto simp: SendSyncMessage_def\<close>)
qed

lemma SendMessage_ok:
  assumes "gui_inv torn g" "callbacks_step torn ext" "acts_step torn acts"
  shows "SendMessage ext me a acts h i w l g = Some r \<Longrightarrow> gui_inv torn (snd r)"
    "PostSyncMessage ext me a acts h i w l g = Some r \<Longrightarrow> gui_inv torn (snd r)"
    "gui_inv torn (snd (SendAsyncMessage ext h i w l g))"
proof -
  have cb: "gui_inv torn (snd (wnd_proc ext p b c d e g))" for p b c d e
    using assms gsteps_ok unfolding callbacks_step_def by blast
  show "SendMessage ext me a acts h i w l g = Some r \<Longrightarrow> gui_inv torn (snd r)"
    using SendSyncMessage_ok assms cb by (auto simp: SendMessage_def split: if_splits option.splits)
  show "PostSyncMessage ext me a acts h i w l g = Some r \<Longrightarrow> gui_inv torn (snd r)"
    using SendSyncMessage_ok assms by (auto simp: PostSyncMessage_def split: if_splits)
  show "gui_inv torn (snd (SendAsyncMessage ext h i w l g))"
    using assms(1) cb by (auto simp: SendAsyncMessage_def split: option.splits)
qed

lemma PeekMessageEx_ok:
  assumes "PeekMessageEx ext me h lo hi bw rm acts m g = Some r" "gui_inv torn g" "callbacks_step torn ext" "acts_step torn acts"
  shows "gui_inv torn (snd (snd r))"
  using assms peek_loop_ok by (auto simp: PeekMessageEx_def split: if_splits option.splits)

end
