(* ===== verification/Message_Props.thy ===== *)
theory Message_Props
  imports Message_Steps
begin

section \<open>Messages: posting, looking, and the synchronous list\<close>

text \<open>
  The promises of the message module to a program: posted messages are a bounded list with
  coalescing, a thread takes what is due in a fixed order and misses nothing, and synchronous
  messages are answered in the order they were sent.
\<close>

definition demo_ext :: extern where
  "demo_ext = \<lparr>wnd_proc = (\<lambda>p h i w l g. (i + int (unat w), snd (PostMessage 0 h i w l g))),
     timer_proc = (\<lambda>p h i t g. (False, snd (SendNotifyMessage 0 h i 0 0 g))),
     translate_message = (\<lambda>m g. g), client_to_screen = (\<lambda>h x y. (x + 10, y + 20)),
     inv_rgn_addr = (\<lambda>h. word_of_nat h), meanwhile = no_gaps\<rparr>"

lemma demo_ext_steps: "callbacks_step torn demo_ext"
  using step_post step_notify by (auto simp: callbacks_step_def demo_ext_def)

lemma demo_gui_ok: "gui_ok demo_gui"
proof -
  obtain q where q: "InitMsgQueue True (\<lambda>n. zero_msg) (Wnd 0 False [] []) 4 = Some q"
    by (simp add: InitMsgQueue_def)
  then have "mq_ok (queues demo_gui k)" for k using mq_ok_Init [OF q] by (simp add: demo_gui_def)
  then show ?thesis using demo_gui_timers(1) by (simp add: gui_ok_def)
qed


text \<open>A thread that sets the state word of the queue to a stale value in every gap.\<close>

definition tearing_ext :: extern where
  "tearing_ext = demo_ext\<lparr>meanwhile := (\<lambda>i. upd_queue 0 (\<lambda>q. q\<lparr>dwState := 0\<rparr>))\<rparr>"

lemma tearing_ext_steps: "callbacks_step True tearing_ext"
  using demo_ext_steps [of True] step_state_word [of True] by (auto simp: callbacks_step_def tearing_ext_def)


subsection \<open>Posted messages\<close>

lemma posted_flag:
  assumes "fst (queue_message q m)"
  shows "has_flag (snd (queue_message q m)) QS_POSTMSG"
  using queue_message_fields(6) [of q m 30] assms by (simp add: has_flag_bit)

text \<open>
  C25.  \<open>QueueMessage\<close> refines posting to a bounded list: the messages waiting in the ring
  are changed as \<open>post_spec\<close> says (mouse moves and ticks are folded into one already waiting,
  anything else is appended unless \<open>qlen - 1\<close> messages wait), the result says whether the
  message was accepted, and an accepted message is announced by the state bit and, when
  another thread posts it, by the semaphore the queue's thread waits on.
\<close>

theorem QueueMessage_bounded_list:
  assumes "ring_ok (queues g k)"
  shows "(fst (QueueMessage me k m g), posted (queues (snd (QueueMessage me k m g)) k)) =
      post_spec (qlen (queues g k) - 1) m (posted (queues g k))
    \<and> (fst (QueueMessage me k m g) \<longrightarrow> has_flag (queues (snd (QueueMessage me k m g)) k) QS_POSTMSG
         \<and> (\<not> BE_THIS_THREAD g me (m_hwnd m) \<longrightarrow> sems (snd (QueueMessage me k m g)) (SemWait k) > 0))
    \<and> (\<forall>j. j \<noteq> k \<longrightarrow> queues (snd (QueueMessage me k m g)) j = queues g j)"
proof (cases "fst (queue_message (queues g k) m)")
  case True
  obtain q where q: "queue_message (queues g k) m = (True, q)" using True by (cases "queue_message (queues g k) m") auto
  have t: "BE_THIS_THREAD (upd_queue k (\<lambda>_. q) g) me (m_hwnd m) = BE_THIS_THREAD g me (m_hwnd m)"
    by (rule windows_cong) simp_all
  show ?thesis
    using queue_message_refines(2) [OF assms, of m] posted_flag [OF True] q t
    by (auto simp: QueueMessage_def Let_def)
next
  case False
  then have "queue_message (queues g k) m = (False, queues g k)"
    using queue_message_fields(7) by (metis prod.collapse)
  then show ?thesis
    using queue_message_refines(2) [OF assms, of m] by (simp add: QueueMessage_def)
qed

theorem QueueMessage_bounded_list_witness:
  "posted (queues (snd (QueueMessage 0 0 (make_msg 5 20 1 2) demo_gui)) 0) = [make_msg 5 20 1 2]"
proof -
  have r: "ring_ok (queues demo_gui 0)" using demo_gui_ok by (simp add: gui_ok_def mq_ok_def)
  moreover have "posted (queues demo_gui 0) = []"
    by (simp add: posted_Nil [OF r]) (simp add: demo_gui_def InitMsgQueue_def)
  moreover have "qlen (queues demo_gui 0) = 4" by (simp add: demo_gui_def InitMsgQueue_def)
  ultimately show ?thesis
    using QueueMessage_bounded_list [OF r, of 0 "make_msg 5 20 1 2"]
    by (simp add: post_spec_def is_move_def is_tick_def make_msg_def)
qed

text \<open>
  C31.  \<open>PostMessage\<close> fails with \<open>ERR_INV_HWND\<close> for a window without a queue and with
  \<open>ERR_QUEUE_FULL\<close> exactly when the list may not take the message, and then changes nothing;
  posting \<open>MSG_PAINT\<close> never fills the queue, it only sets the paint bit.
\<close>

theorem PostMessage_outcome:
  assumes "gui_ok g"
  shows "fst (PostMessage me h i w l g) =
      (case GetMsgQueue g h of
         None \<Rightarrow> ERR_INV_HWND
       | Some k \<Rightarrow> if i = MSG_PAINT \<or> fst (post_spec (qlen (queues g k) - 1) (make_msg h i w l) (posted (queues g k)))
                   then ERR_OK else ERR_QUEUE_FULL)
    \<and> (fst (PostMessage me h i w l g) \<noteq> ERR_OK \<longrightarrow> snd (PostMessage me h i w l g) = g)
    \<and> (GetMsgQueue g h = Some k \<and> i = MSG_PAINT \<longrightarrow>
         posted (queues (snd (PostMessage me h i w l g)) k) = posted (queues g k)
         \<and> has_flag (queues (snd (PostMessage me h i w l g)) k) QS_PAINT)"
proof -
  have ring: "ring_ok (queues g j)" for j using assms by (simp add: gui_ok_def mq_ok_def)
  have fail: "snd (QueueMessage me j m g) = g" if "\<not> fst (QueueMessage me j m g)" for j m
    using that by (auto simp: QueueMessage_def Let_def split: prod.splits)
  have spec: "fst (QueueMessage me j m g) = fst (post_spec (qlen (queues g j) - 1) m (posted (queues g j)))" for j m
  proof -
    have "fst (QueueMessage me j m g) = fst (queue_message (queues g j) m)"
      by (simp add: QueueMessage_def Let_def split: prod.split)
    moreover have "fst (queue_message (queues g j) m) = fst (post_spec (qlen (queues g j) - 1) m (posted (queues g j)))"
      using arg_cong [OF queue_message_refines(2) [OF ring, of j m], of fst] by simp
    ultimately show ?thesis by simp
  qed
  show ?thesis
  proof (cases "GetMsgQueue g h")
    case None
    then show ?thesis by (simp add: PostMessage_def)
  next
    case (Some j)
    show ?thesis
    proof (cases "i = MSG_PAINT")
      case True
      then show ?thesis using Some by (auto simp: PostMessage_def Let_def has_flag_bit flag_bits)
    next
      case False
      then show ?thesis
        using Some spec [of j "make_msg h i w l"] fail [of j "make_msg h i w l"]
        by (auto simp: PostMessage_def Let_def split: prod.splits)
    qed
  qed
qed

theorem PostMessage_outcome_witness:
  "fst (PostMessage 0 9 20 0 0 demo_gui) = ERR_INV_HWND"
proof -
  have "GetMsgQueue demo_gui 9 = None"
    by (simp add: GetMsgQueue_def getMainWindowPtr_def MG_IS_WINDOW_def data_type_def demo_gui_def)
  then show ?thesis using PostMessage_outcome [OF demo_gui_ok, of 0 9 20 0 0] by simp
qed

subsection \<open>What a thread takes next\<close>

text \<open>The search for an expired timer: \<open>n\<close> rounds from \<open>slot\<close> that stop short of \<open>first\<close>.\<close>

lemma slot_bit_and: "i < 32 \<Longrightarrow> w AND slot_bit i \<noteq> 0 \<longleftrightarrow> bit w i" for w :: dword
  unfolding slot_bit_def and_push_bit by simp

lemma slot_search_steps:
  assumes "j < DEF_NR_TIMERS" "first < DEF_NR_TIMERS" "bit tmask ((first + j) mod DEF_NR_TIMERS)"
    and "\<forall>d<j. \<not> bit tmask ((first + d) mod DEF_NR_TIMERS)" "i \<le> j" "n > j - i"
  shows "slot_search n tmask first ((first + i) mod DEF_NR_TIMERS) = int ((first + j) mod DEF_NR_TIMERS)"
  using assms(5,6)
proof (induction "j - i" arbitrary: i n)
  case 0
  then obtain n' where "n = Suc n'" "i = j" by (cases n) auto
  then show ?case using assms(3) slot_bit_and [of "(first + j) mod DEF_NR_TIMERS" tmask] by (simp add: DEF_NR_TIMERS_def)
next
  case (Suc d)
  then obtain n' where n: "n = Suc n'" by (cases n) auto
  let ?s = "(first + i) mod DEF_NR_TIMERS"
  have "tmask AND slot_bit ?s = 0"
    using assms(4) Suc slot_bit_and [of ?s tmask] by (simp add: DEF_NR_TIMERS_def)
  moreover have next_slot: "(?s + 1) mod DEF_NR_TIMERS = (first + Suc i) mod DEF_NR_TIMERS"
    by (simp add: mod_Suc_eq)
  moreover have "(first + Suc i) mod DEF_NR_TIMERS \<noteq> first"
    using ring_index_inj [of "Suc i" DEF_NR_TIMERS 0 first] Suc(2,3) assms(1,2) by fastforce
  moreover have "slot_search n' tmask first ((first + Suc i) mod DEF_NR_TIMERS) = int ((first + j) mod DEF_NR_TIMERS)"
    using Suc n by (intro Suc(1)) auto
  ultimately show ?case unfolding n by (simp only: slot_search.simps Let_def if_False simp_thms)
qed

text \<open>
  With a timer flagged, the search in \<open>PeekMessageEx\<close> finds the flagged slot nearest after
  \<open>FirstTimerSlot\<close>, cyclically: it never gives up and skips none.
\<close>

theorem slot_search_nearest:
  assumes "tmask \<noteq> 0" and "first < 32"
  shows "\<exists>j<32. slot_search 32 tmask first first = int ((first + j) mod 32)
    \<and> bit tmask ((first + j) mod 32) \<and> (\<forall>d<j. \<not> bit tmask ((first + d) mod 32))"
proof -
  obtain i where i: "bit tmask i" "i < 32"
    using assms(1) bit_imp_le_length [of tmask] unfolding word_nonzero_bit by auto
  have "(first + (32 + i - first) mod 32) mod 32 = (first + (32 + i - first)) mod 32" by (simp add: mod_add_right_eq)
  also have "\<dots> = i" using assms(2) i(2) by simp
  finally have ex: "bit tmask ((first + (32 + i - first) mod 32) mod 32)" using i(1) by simp
  define j where "j = (LEAST j. bit tmask ((first + j) mod 32))"
  have j: "bit tmask ((first + j) mod 32)" "\<forall>d<j. \<not> bit tmask ((first + d) mod 32)"
    unfolding j_def using LeastI [of "\<lambda>j. bit tmask ((first + j) mod 32)", OF ex] not_less_Least by blast+
  have "j \<le> (32 + i - first) mod 32" unfolding j_def by (rule Least_le) (rule ex)
  then have "j < 32" by (rule le_less_trans) simp
  moreover have "slot_search 32 tmask first ((first + 0) mod 32) = int ((first + j) mod 32)"
    using slot_search_steps [of j first tmask 0 32] \<open>j < 32\<close> assms(2) j by (simp add: DEF_NR_TIMERS_def)
  ultimately show ?thesis using j assms(2) by (intro exI [of _ j]) simp
qed

theorem slot_search_nearest_witness:
  "slot_search 32 5 1 1 = 2"
proof -
  have "\<not> bit (5 :: dword) 1" "bit (5 :: dword) 2" by code_simp+
  moreover obtain j where j: "j < 32" "slot_search 32 5 1 1 = int ((1 + j) mod 32)" "bit (5 :: dword) ((1 + j) mod 32)"
    "\<forall>d<j. \<not> bit (5 :: dword) ((1 + d) mod 32)"
    using slot_search_nearest [of 5 1] by auto
  moreover have "j \<noteq> 0" using j(3) calculation(1) by (intro notI) simp
  moreover have "\<not> 1 < j" using j(4) calculation(2) by (auto dest: spec [of _ 1])
  ultimately show ?thesis using linorder_neqE_nat [of j 1] by auto
qed

text \<open>The first part of a pass that has something to say.\<close>

lemma has_flag_mq:
  assumes "mq_ok q"
  shows "has_flag q QS_QUIT \<longleftrightarrow> loop_depth q > 0"
    "pFirstSyncMsg q = Some a \<Longrightarrow> has_flag q QS_SYNCMSG"
    "pFirstNotifyMsg q = n # ns \<Longrightarrow> has_flag q QS_NOTIFYMSG"
    "posted q = p # ps \<Longrightarrow> has_flag q QS_POSTMSG"
  using assms posted_Nil [of q] by (auto simp: mq_ok_def has_flag_bit)

lemma skip_quit:
  assumes "mq_ok (queues g k)" "loop_depth (queues g k) = 0"
  shows "peek_quit k h rm m g = Cont m g"
  using has_flag_mq(1) [OF assms(1)] assms(2) by (simp add: peek_quit_def)

lemma skip_sync:
  assumes "pFirstSyncMsg (queues g k) = None"
  shows "peek_sync k want rm m g = Cont m (if has_flag (queues g k) QS_SYNCMSG
    then upd_queue k (clear_flag QS_SYNCMSG) g else g)"
  using assms by (simp add: peek_sync_def)

lemma skip_notify:
  assumes "pFirstNotifyMsg (queues g k) = []"
  shows "peek_notify k want rm m g = Cont m (if has_flag (queues g k) QS_NOTIFYMSG
    then upd_queue k (clear_flag QS_NOTIFYMSG) g else g)"
  using assms by (simp add: peek_notify_def)

lemma take_sync:
  assumes "mq_ok (queues g k)" "pFirstSyncMsg (queues g k) = Some a" "\<forall>i. want i"
  shows "peek_sync k want True m g = Ret True ((s_msg (syncs g a))\<lparr>m_pAdd := Some a\<rparr>)
    (upd_queue k (\<lambda>q. q\<lparr>pFirstSyncMsg := s_next (syncs g a)\<rparr>) g)"
  using has_flag_mq(2) [OF assms(1,2)] assms by (simp add: peek_sync_def Let_def)

lemma take_notify:
  assumes "mq_ok (queues g k)" "pFirstNotifyMsg (queues g k) = n # ns" "\<forall>i. want i"
  shows "peek_notify k want True m g = Ret True (n\<lparr>m_pAdd := None\<rparr>)
    (upd_queue k (\<lambda>q. q\<lparr>pFirstNotifyMsg := ns\<rparr>) g)"
  using has_flag_mq(3) [OF assms(1,2)] assms by (simp add: peek_notify_def Let_def)

lemma take_post:
  assumes "mq_ok (queues g k)" "posted (queues g k) = p # ps" "\<forall>i. want i"
  shows "peek_post ext k want True m g = Ret True (CheckCapturedMouseMessage ext (capture_wnd g) (p\<lparr>m_pAdd := None\<rparr>))
      (upd_queue k advance_read g)
    \<and> posted (advance_read (queues g k)) = ps"
proof -
  have ring: "ring_ok (queues g k)" using assms(1) by (simp add: mq_ok_def)
  have ne: "readpos (queues g k) \<noteq> writepos (queues g k)" using posted_Nil [OF ring] assms(2) by simp
  have "posted (queues g k) = qmsg (queues g k) ! readpos (queues g k) # posted (advance_read (queues g k))"
    by (rule advance_read_refines(2) [OF ring ne])
  then show ?thesis
    using has_flag_mq(4) [OF assms(1,2)] assms(2,3) ne by (simp add: peek_post_def Let_def)
qed

lemma Cont_fields:
  "peek_quit k h rm m g = Cont m' g' \<Longrightarrow> g' = g \<and> \<not> has_flag (queues g k) QS_QUIT"
  by (auto simp: peek_quit_def split: if_splits)

text \<open>The states after the first parts found nothing; what the paint part reads is the same in them.\<close>

definition same_paint :: "nat \<Rightarrow> gui \<Rightarrow> gui \<Rightarrow> bool" where
  "same_paint k g' g \<longleftrightarrow>
     has_flag (queues g' k) QS_PAINT = has_flag (queues g k) QS_PAINT
     \<and> pRootMainWin (queues g' k) = pRootMainWin (queues g k) \<and> hwnd_desktop g' = hwnd_desktop g"

lemma skip_two:
  assumes ok: "mq_ok (queues g k)" and none: "pFirstSyncMsg (queues g k) = None"
  obtains g' where "peek_sync k want rm m g = Cont m g'" "mq_ok (queues g' k)"
    "pFirstNotifyMsg (queues g' k) = pFirstNotifyMsg (queues g k)" "posted (queues g' k) = posted (queues g k)"
    "capture_wnd g' = capture_wnd g" "same_paint k g' g"
  using skip_sync [OF none, of want rm m] mq_ok_flags(3) [OF ok none] ok
  by (cases "has_flag (queues g k) QS_SYNCMSG") (auto simp: same_paint_def has_flag_bit flag_bits)

lemma skip_three:
  assumes ok: "mq_ok (queues g k)" and none: "pFirstNotifyMsg (queues g k) = []"
  obtains g' where "peek_notify k want rm m g = Cont m g'" "mq_ok (queues g' k)"
    "posted (queues g' k) = posted (queues g k)" "capture_wnd g' = capture_wnd g" "same_paint k g' g"
  using skip_notify [OF none, of want rm m] mq_ok_flags(4) [OF ok none] ok
  by (cases "has_flag (queues g k) QS_NOTIFYMSG") (auto simp: same_paint_def has_flag_bit flag_bits)

lemma skip_posted:
  assumes ok: "mq_ok (queues g k)" and none: "posted (queues g k) = []"
  obtains g' where "peek_post ext k want rm m g = Cont m g'" "same_paint k g' g"
proof -
  have "readpos (queues g k) = writepos (queues g k)" using posted_Nil none ok by (simp add: mq_ok_def)
  then show ?thesis
    using that by (cases "has_flag (queues g k) QS_POSTMSG")
      (auto simp: peek_post_def Let_def same_paint_def has_flag_bit flag_bits)
qed

lemma take_paint:
  assumes "same_paint k g' g" "has_flag (queues g k) QS_PAINT" "h \<noteq> hwnd_desktop g"
    "msgCheckHostedTree (pRootMainWin (queues g k)) \<noteq> 0" "\<forall>i. want i"
  shows "\<exists>m'. peek_paint ext k h want rm m g' = Ret True m' g' \<and> m_message m' = MSG_PAINT
    \<and> m_hwnd m' = msgCheckHostedTree (pRootMainWin (queues g k))"
  using assms by (simp add: peek_paint_def same_paint_def Let_def)

text \<open>
  C26.  A pass of \<open>GetMessage\<close> (no filter, removing) takes what is due in a fixed order: a quit
  request, else the oldest synchronous message, else the oldest notification, else the
  oldest posted message, and it takes exactly that one; else, when the paint bit is set, a
  paint message for the window the search of the window tree finds.
\<close>

theorem peek_pass_takes_in_order:
  assumes "mq_ok (queues g k)" and "\<forall>i. want i"
  shows "\<exists>m' g'.
    if loop_depth (queues g k) > 0 then
      peek_pass ext k h want True m g = Ret False m' g' \<and> m_message m' = MSG_QUIT
      \<and> loop_depth (queues g' k) = loop_depth (queues g k) - 1
    else case pFirstSyncMsg (queues g k) of
      Some a \<Rightarrow> peek_pass ext k h want True m g = Ret True m' g' \<and> m' = (s_msg (syncs g a))\<lparr>m_pAdd := Some a\<rparr>
        \<and> pFirstSyncMsg (queues g' k) = s_next (syncs g a)
    | None \<Rightarrow> (case pFirstNotifyMsg (queues g k) of
        n # ns \<Rightarrow> peek_pass ext k h want True m g = Ret True m' g' \<and> m' = n\<lparr>m_pAdd := None\<rparr>
          \<and> pFirstNotifyMsg (queues g' k) = ns
      | [] \<Rightarrow> (case posted (queues g k) of
          p # ps \<Rightarrow> peek_pass ext k h want True m g = Ret True m' g'
            \<and> m' = CheckCapturedMouseMessage ext (capture_wnd g) (p\<lparr>m_pAdd := None\<rparr>)
            \<and> posted (queues g' k) = ps
        | [] \<Rightarrow> has_flag (queues g k) QS_PAINT \<and> h \<noteq> hwnd_desktop g
              \<and> msgCheckHostedTree (pRootMainWin (queues g k)) \<noteq> 0 \<longrightarrow>
            peek_pass ext k h want True m g = Ret True m' g' \<and> m_message m' = MSG_PAINT
            \<and> m_hwnd m' = msgCheckHostedTree (pRootMainWin (queues g k))))"
proof (cases "loop_depth (queues g k) > 0")
  case True
  then show ?thesis using has_flag_mq(1) [OF assms(1)] by (simp add: peek_pass_def peek_quit_def Let_def)
next
  case False
  then have q: "peek_quit k h True m g = Cont m g" using assms(1) by (intro skip_quit) (auto simp: mq_ok_def)
  show ?thesis
  proof (cases "pFirstSyncMsg (queues g k)")
    case (Some a)
    then show ?thesis using take_sync [OF assms(1) Some assms(2)] q False by (simp add: peek_pass_def)
  next
    case s: None
    obtain g1 where g1: "peek_sync k want True m g = Cont m g1" "mq_ok (queues g1 k)"
      "pFirstNotifyMsg (queues g1 k) = pFirstNotifyMsg (queues g k)" "posted (queues g1 k) = posted (queues g k)"
      "capture_wnd g1 = capture_wnd g" "same_paint k g1 g" using skip_two [OF assms(1) s] by blast
    show ?thesis
    proof (cases "pFirstNotifyMsg (queues g k)")
      case (Cons n ns)
      then show ?thesis using take_notify [OF g1(2) _ assms(2), of n ns m] g1 q s False by (simp add: peek_pass_def)
    next
      case n: Nil
      obtain g2 where g2: "peek_notify k want True m g1 = Cont m g2" "mq_ok (queues g2 k)"
        "posted (queues g2 k) = posted (queues g k)" "capture_wnd g2 = capture_wnd g" "same_paint k g2 g1"
        using skip_three [OF g1(2), of want True m] g1 n by metis
      show ?thesis
      proof (cases "posted (queues g k)")
        case (Cons p ps)
        then show ?thesis using take_post [OF g2(2) _ assms(2), of p ps ext m] g1 g2 q s n False
          by (simp add: peek_pass_def)
      next
        case Nil
        obtain g3 where g3: "peek_post ext k want True m g2 = Cont m g3" "same_paint k g3 g2"
          using skip_posted [OF g2(2), of ext want True m] g2(3) Nil by metis
        have same: "same_paint k g3 g" using g3(2) g2(5) g1(6) by (simp add: same_paint_def)
        show ?thesis
          using take_paint [OF same, of h want ext True m] assms(2) g1(1) g2(1) g3(1) q s n Nil False
          by (cases "has_flag (queues g k) QS_PAINT \<and> h \<noteq> hwnd_desktop g
              \<and> msgCheckHostedTree (pRootMainWin (queues g k)) \<noteq> 0") (auto simp: peek_pass_def)
      qed
    qed
  qed
qed

definition busy_gui :: gui where
  "busy_gui = snd (SendNotifyMessage 1 5 21 3 4 (snd (PostMessage 1 5 20 1 2
     (demo_gui\<lparr>wins := (\<lambda>h. if h = 5 then Some \<lparr>DataType = TYPE_HWND, is_main = True, w_pMainWin = 5,
        w_pMessages = Some 0, w_th = 0, MainWindowProc = Some 0\<rparr> else None)\<rparr>))))"

lemma busy_gui_queue: "queues busy_gui 0 = queue_notify (snd (queue_message (queues demo_gui 0) (make_msg 5 20 1 2))) (make_msg 5 21 3 4)"
  by (simp add: busy_gui_def SendNotifyMessage_def PostMessage_def QueueMessage_def GetMsgQueue_def getMainWindowPtr_def
      MG_IS_WINDOW_def data_type_def BE_THIS_THREAD_def Let_def demo_gui_def InitMsgQueue_def queue_message_def
      duplicate_def is_move_def is_tick_def make_msg_def)

theorem peek_pass_takes_in_order_witness:
  "\<exists>g'. peek_pass demo_ext 0 5 (\<lambda>i. True) True zero_msg busy_gui = Ret True (make_msg 5 21 3 4) g'
    \<and> pFirstNotifyMsg (queues g' 0) = []"
proof -
  have ok: "mq_ok (queues busy_gui 0)"
    unfolding busy_gui_queue using demo_gui_ok by (intro mq_ok_flags(6) mq_ok_queue_message) (simp add: gui_ok_def)
  have f: "loop_depth (queues busy_gui 0) = 0" "pFirstSyncMsg (queues busy_gui 0) = None"
    "pFirstNotifyMsg (queues busy_gui 0) = [make_msg 5 21 3 4]"
    unfolding busy_gui_queue by (simp_all add: queue_notify_def queue_message_fields) (simp_all add: demo_gui_def InitMsgQueue_def)
  show ?thesis
    using peek_pass_takes_in_order [OF ok, of "\<lambda>i. True" demo_ext 5 zero_msg] f by (auto simp: make_msg_def)
qed

end
