(* ===== verification/Message_Order.thy ===== *)
theory Message_Order
  imports Message_Props
begin

section \<open>Messages: order, replies and throwing away\<close>

text \<open>
  A first-in first-out list as an interface, with its two providers (the ring of posted
  messages and the list of notifications), the linked list of synchronous messages as an
  abstract list, the reply to a synchronous message, and what \<open>ThrowAwayMessages\<close> leaves.
\<close>

text \<open>
  A queue to which items come and from which they are taken, in any order of the two: a step makes some items enter and takes some out.
  \<open>view\<close> is the part of an item that does not change while it waits.
\<close>

locale fifo =
  fixes ok :: "'s \<Rightarrow> bool"
    and items :: "'s \<Rightarrow> 'a list"
    and view :: "'a \<Rightarrow> 'b"
    and step :: "'p \<Rightarrow> 's \<Rightarrow> 's"
    and takes :: "'p \<Rightarrow> 's \<Rightarrow> 'a list"
    and enters :: "'p \<Rightarrow> 's \<Rightarrow> 'a list"
    and taker :: 'p
  assumes step_ok: "ok s \<Longrightarrow> ok (step p s)"
    and step_items: "ok s \<Longrightarrow> map view (takes p s @ items (step p s)) = map view (items s @ enters p s)"
    and taker_takes: "ok s \<Longrightarrow> enters taker s = [] \<and> (items s \<noteq> [] \<longrightarrow> takes taker s \<noteq> [])"
begin

text \<open>What a run takes out and what enters meanwhile, and the state it ends in.\<close>

fun run :: "'p list \<Rightarrow> 's \<Rightarrow> 'a list \<times> 'a list \<times> 's" where
  "run [] s = ([], [], s)"
| "run (p # ps) s = (let (ts, es, s') = run ps (step p s) in (takes p s @ ts, enters p s @ es, s'))"

lemma run_state: "snd (snd (run ps s)) = fold step ps s"
  by (induction ps arbitrary: s) (simp_all add: Let_def split_beta)

lemma fold_ok: "ok s \<Longrightarrow> ok (fold step ps s)"
  by (induction ps arbitrary: s) (simp_all add: step_ok)

lemma first_in_first_out:
  "ok s \<Longrightarrow> run ps s = (ts, es, s') \<Longrightarrow> map view (ts @ items s') = map view (items s @ es)"
proof (induction ps arbitrary: s ts es)
  case (Cons p ps)
  obtain ts1 es1 where r: "run ps (step p s) = (ts1, es1, s')" "ts = takes p s @ ts1" "es = enters p s @ es1"
    using Cons.prems(2) by (auto simp: Let_def split: prod.splits)
  show ?case using Cons.IH [OF step_ok [OF Cons.prems(1)] r(1)] step_items [OF Cons.prems(1), of p] r(2,3) by simp
qed simp

lemma takers_empty: "ok s \<Longrightarrow> length (items s) \<le> n \<Longrightarrow> items (fold step (replicate n taker) s) = []"
proof (induction n arbitrary: s)
  case (Suc n)
  have "length (takes taker s) + length (items (step taker s)) = length (items s)"
    using step_items [OF Suc.prems(1), of taker] taker_takes [OF Suc.prems(1)] by (metis append_Nil2 length_append length_map)
  moreover have "items s \<noteq> [] \<longrightarrow> takes taker s \<noteq> []" using taker_takes [OF Suc.prems(1)] by simp
  ultimately have "length (items (step taker s)) \<le> n" using Suc.prems(2) by (cases "items s = []") (auto simp flip: length_greater_0_conv)
  then show ?case using Suc.IH [OF step_ok [OF Suc.prems(1)]] by simp
qed simp

end

subsection \<open>The providers\<close>

definition no_pAdd :: "msg \<Rightarrow> msg" where
  "no_pAdd m = m\<lparr>m_pAdd := None\<rparr>"

lemma no_pAdd_simps [simp]: "no_pAdd (no_pAdd m) = no_pAdd m" "m_pAdd m = None \<Longrightarrow> no_pAdd m = m"
  by (simp_all add: no_pAdd_def)

definition queue_of :: "hwnd \<Rightarrow> nat \<Rightarrow> gui \<Rightarrow> bool" where
  "queue_of h k g \<longleftrightarrow> gui_ok g \<and> GetMsgQueue g h = Some k"

definition waiting_posts :: "nat \<Rightarrow> gui \<Rightarrow> msg list" where
  "waiting_posts k g = map no_pAdd (posted (queues g k))"

definition take_post_one :: "hwnd \<Rightarrow> gui \<Rightarrow> (msg \<times> gui) option" where
  "take_post_one h g = (case PeekPostMessage h 0 0 True zero_msg g of (r, m, g') \<Rightarrow> if r then Some (m, g') else None)"

lemma queue_of_queue: "queue_of h k g \<Longrightarrow> mq_ok (f (queues g k)) \<Longrightarrow> queue_of h k (upd_queue k f g)"
  using gui_ok_queue windows_cong(5) [of "upd_queue k f g" g h] by (simp add: queue_of_def)

lemma take_post_one_hd:
  assumes "queue_of h k g" "waiting_posts k g = x # xs"
  shows "\<exists>g'. take_post_one h g = Some (x, g') \<and> queue_of h k g' \<and> waiting_posts k g' = xs"
proof -
  let ?q = "queues g k"
  have mq: "mq_ok ?q" and ring: "ring_ok ?q" and q: "GetMsgQueue g h = Some k"
    using assms(1) by (auto simp: queue_of_def gui_ok_def mq_ok_def)
  obtain p ps where p: "posted ?q = p # ps" "x = no_pAdd p" "xs = map no_pAdd ps"
    using assms(2) by (auto simp: waiting_posts_def)
  have ne: "readpos ?q \<noteq> writepos ?q" using posted_Nil [OF ring] p by simp
  have split_q: "posted ?q = qmsg ?q ! readpos ?q # posted (advance_read ?q)" by (rule advance_read_refines(2) [OF ring ne])
  have flag: "has_flag ?q QS_POSTMSG" using has_flag_mq(4) [OF mq p(1)] .
  have "take_post_one h g = Some (x, upd_queue k advance_read g)"
    using flag ne q split_q p by (simp add: take_post_one_def PeekPostMessage_def Let_def no_pAdd_def)
  moreover have "queue_of h k (upd_queue k advance_read g)" using assms(1) mq_ok_advance [OF mq ne] by (rule queue_of_queue)
  ultimately show ?thesis using split_q p by (simp add: waiting_posts_def)
qed

lemma take_post_one_none: "queue_of h k g \<Longrightarrow> waiting_posts k g = [] \<Longrightarrow> take_post_one h g = None"
  using posted_Nil [of "queues g k"]
  by (simp add: take_post_one_def PeekPostMessage_def Let_def queue_of_def waiting_posts_def gui_ok_def mq_ok_def)

definition waiting_notes :: "nat \<Rightarrow> gui \<Rightarrow> msg list" where
  "waiting_notes k g = map no_pAdd (pFirstNotifyMsg (queues g k))"

definition note_to :: "hwnd \<Rightarrow> msg \<Rightarrow> gui \<Rightarrow> bool" where
  "note_to h m g \<longleftrightarrow> MG_IS_WINDOW g h \<and> m = make_msg h (m_message m) (m_wParam m) (m_lParam m)"

definition notify_one :: "nat \<Rightarrow> hwnd \<Rightarrow> msg \<Rightarrow> gui \<Rightarrow> gui" where
  "notify_one me h m g = snd (SendNotifyMessage me h (m_message m) (m_wParam m) (m_lParam m) g)"

definition take_note_one :: "nat \<Rightarrow> gui \<Rightarrow> (msg \<times> gui) option" where
  "take_note_one k g = (case peek_notify k (\<lambda>i. True) True zero_msg g of Ret r m g' \<Rightarrow> Some (m, g') | Cont m g' \<Rightarrow> None)"

lemma notify_one_items:
  assumes "queue_of h k g" "note_to h m g"
  shows "queue_of h k (notify_one me h m g) \<and> waiting_notes k (notify_one me h m g) = waiting_notes k g @ [m]"
proof -
  have "GetMsgQueue (notify_one me h m g) h = GetMsgQueue g h"
    by (rule windows_cong) (auto simp: notify_one_def SendNotifyMessage_def Let_def split: option.split)
  then have "queue_of h k (notify_one me h m g)" using assms(1) by (simp add: queue_of_def notify_one_def post_ok(3))
  moreover have "pFirstNotifyMsg (queues (notify_one me h m g) k) = pFirstNotifyMsg (queues g k) @ [m]"
    using assms by (auto simp: notify_one_def SendNotifyMessage_def queue_of_def note_to_def queue_notify_def Let_def)
  moreover have "no_pAdd m = m" using assms(2) unfolding note_to_def by (metis make_msg_def msg.select_convs(6) no_pAdd_simps(2))
  ultimately show ?thesis by (simp add: waiting_notes_def)
qed

lemma take_note_one_hd:
  assumes "queue_of h k g" "waiting_notes k g = x # xs"
  shows "\<exists>g'. take_note_one k g = Some (x, g') \<and> queue_of h k g' \<and> waiting_notes k g' = xs"
proof -
  obtain n ns where n: "pFirstNotifyMsg (queues g k) = n # ns" "x = no_pAdd n" "xs = map no_pAdd ns"
    using assms(2) by (auto simp: waiting_notes_def)
  have mq: "mq_ok (queues g k)" using assms(1) by (simp add: queue_of_def gui_ok_def)
  have "mq_ok ((queues g k)\<lparr>pFirstNotifyMsg := ns\<rparr>)" using mq_ok_flags(12) [OF mq] n(1) by simp
  then have "queue_of h k (upd_queue k (\<lambda>q. q\<lparr>pFirstNotifyMsg := ns\<rparr>) g)" using queue_of_queue [OF assms(1)] by simp
  then show ?thesis
    using take_notify [OF mq n(1), of "\<lambda>i. True" zero_msg] n by (simp add: take_note_one_def waiting_notes_def no_pAdd_def)
qed

lemma take_note_one_none: "waiting_notes k g = [] \<Longrightarrow> take_note_one k g = None"
  by (simp add: take_note_one_def waiting_notes_def peek_notify_def)

lemma ops_windows [simp]:
  "wins (snd (QueueMessage me k m g)) = wins g" "wins (snd (PostMessage me h i w l g)) = wins g"
  "wins (snd (SendNotifyMessage me h i w l g)) = wins g"
proof -
  show q: "wins (snd (QueueMessage me k m g)) = wins g" for k m
    by (simp add: QueueMessage_def Let_def split: prod.split)
  show "wins (snd (PostMessage me h i w l g)) = wins g"
  proof (cases "GetMsgQueue g h")
    case (Some k)
    have "snd (PostMessage me h i w l g) = snd (QueueMessage me k (make_msg h i w l) g)" if "i \<noteq> MSG_PAINT"
      using that Some by (simp add: PostMessage_def Let_def split: prod.split)
    then show ?thesis using q Some by (cases "i = MSG_PAINT") (simp_all add: PostMessage_def Let_def)
  qed (simp add: PostMessage_def)
  show "wins (snd (SendNotifyMessage me h i w l g)) = wins g"
    by (simp add: SendNotifyMessage_def Let_def split: option.split)
qed

subsection \<open>Arrivals and takes\<close>

text \<open>What other threads do to a queue, and what its own thread takes from it.\<close>

datatype arrival = Post nat hwnd int dword dword | Notify nat hwnd int dword dword

fun arrive :: "arrival \<Rightarrow> gui \<Rightarrow> gui" where
  "arrive (Post me h i w l) g = snd (PostMessage me h i w l g)"
| "arrive (Notify me h i w l) g = snd (SendNotifyMessage me h i w l g)"

datatype queue_op = Arrive arrival | TakePost | TakeNote

fun queue_step :: "hwnd \<Rightarrow> nat \<Rightarrow> queue_op \<Rightarrow> gui \<Rightarrow> gui" where
  "queue_step h k (Arrive a) g = arrive a g"
| "queue_step h k TakePost g = (case take_post_one h g of None \<Rightarrow> g | Some (m, g') \<Rightarrow> g')"
| "queue_step h k TakeNote g = phase_gui (peek_notify k (\<lambda>i. True) True zero_msg g)"

fun posts_taken :: "hwnd \<Rightarrow> queue_op \<Rightarrow> gui \<Rightarrow> msg list" where
  "posts_taken h TakePost g = (case take_post_one h g of None \<Rightarrow> [] | Some (m, g') \<Rightarrow> [m])"
| "posts_taken h a g = []"

fun notes_taken :: "nat \<Rightarrow> queue_op \<Rightarrow> gui \<Rightarrow> msg list" where
  "notes_taken k TakeNote g = (case take_note_one k g of None \<Rightarrow> [] | Some (m, g') \<Rightarrow> [m])"
| "notes_taken k a g = []"

text \<open>A move or a tick that is folded into one that waits is no new entry.\<close>

definition folded :: "msg \<Rightarrow> msg list \<Rightarrow> bool" where
  "folded m xs \<longleftrightarrow> is_move m \<and> (\<exists>a \<in> set xs. same_move m a) \<or> is_tick m \<and> (\<exists>a \<in> set xs. same_tick m a)"

fun posts_entered :: "nat \<Rightarrow> queue_op \<Rightarrow> gui \<Rightarrow> msg list" where
  "posts_entered k (Arrive (Post me h i w l)) g =
     (if GetMsgQueue g h = Some k \<and> i \<noteq> MSG_PAINT \<and> \<not> folded (make_msg h i w l) (posted (queues g k))
         \<and> length (posted (queues g k)) < qlen (queues g k) - 1
      then [make_msg h i w l] else [])"
| "posts_entered k a g = []"

fun notes_entered :: "nat \<Rightarrow> queue_op \<Rightarrow> gui \<Rightarrow> msg list" where
  "notes_entered k (Arrive (Notify me h i w l)) g =
     (if MG_IS_WINDOW g h \<and> GetMsgQueue g h = Some k then [make_msg h i w l] else [])"
| "notes_entered k a g = []"

text \<open>What folding leaves of a message: the window and the message, of a move the buttons too, and of any other message everything.\<close>

definition fixed_part :: "msg \<Rightarrow> msg" where
  "fixed_part m = (if is_move m then m\<lparr>m_lParam := 0, m_time := 0\<rparr>
     else if is_tick m then m\<lparr>m_wParam := 0, m_lParam := 0, m_time := 0\<rparr> else m)"

definition entry :: "msg \<Rightarrow> msg" where
  "entry m = fixed_part (no_pAdd m)"

lemma map_update_first: "(\<And>a. P a \<Longrightarrow> v (f a) = v a) \<Longrightarrow> map v (update_first P f xs) = map v xs"
  by (induction xs) auto

lemma map_update_last: "(\<And>a. P a \<Longrightarrow> v (f a) = v a) \<Longrightarrow> map v (update_last P f xs) = map v xs"
  using map_update_first [of P v f "rev xs"] by (simp add: update_last_def rev_map [symmetric])

lemma entry_move: "is_move m \<Longrightarrow> same_move m a \<Longrightarrow> entry (move_update m a) = entry a"
  by (simp add: entry_def fixed_part_def no_pAdd_def is_move_def same_move_def move_update_def)

lemma entry_tick: "is_tick m \<Longrightarrow> same_tick m a \<Longrightarrow> entry (tick_update m a) = entry a"
  by (auto simp: entry_def fixed_part_def no_pAdd_def is_move_def is_tick_def same_tick_def tick_update_def)

lemma post_spec_entries:
  assumes "length xs \<le> cap"
  shows "map entry (snd (post_spec cap m xs)) = map entry (xs @ (if \<not> folded m xs \<and> length xs < cap then [m] else []))"
proof -
  have "map entry (update_last (same_move m) (move_update m) xs) = map entry xs" if "is_move m"
    using that entry_move by (intro map_update_last) blast
  moreover have "map entry (update_first (same_tick m) (tick_update m) xs) = map entry xs" if "is_tick m"
    using that entry_tick by (intro map_update_first) blast
  ultimately show ?thesis using assms by (auto simp: post_spec_def folded_def)
qed

lemma GetMsgQueue_step: "GetMsgQueue (queue_step h k a g) x = GetMsgQueue g x"
proof (cases a)
  case (Arrive b)
  have "GetMsgQueue (arrive b g) x = GetMsgQueue g x"
  proof (cases b)
    case (Post me h i w l)
    have "hwnd_desktop (snd (QueueMessage me k m g)) = hwnd_desktop g" for k m
      by (simp add: QueueMessage_def Let_def split: prod.split)
    then have "hwnd_desktop (snd (PostMessage me h i w l g)) = hwnd_desktop g"
      by (auto simp: PostMessage_def Let_def split_beta split: option.split)
    then show ?thesis using Post by (auto intro!: windows_cong)
  next
    case (Notify me h i w l)
    then show ?thesis by (auto intro!: windows_cong simp: SendNotifyMessage_def Let_def split: option.split)
  qed
  then show ?thesis using Arrive by simp
next
  case TakePost
  then show ?thesis
    by (auto intro!: windows_cong simp: take_post_one_def PeekPostMessage_def Let_def split: option.split)
next
  case TakeNote
  then show ?thesis
    by (auto intro!: windows_cong simp: peek_notify_def Let_def split: list.split)
qed

lemma queue_of_step:
  assumes "queue_of h k g"
  shows "queue_of h k (queue_step h k a g)"
proof -
  have ok: "gui_ok g" using assms by (simp add: queue_of_def)
  have "gui_ok (queue_step h k a g)"
  proof (cases a)
    case (Arrive b)
    then show ?thesis using ok by (cases b) auto
  next
    case TakePost
    show ?thesis
    proof (cases "waiting_posts k g")
      case Nil
      then have "take_post_one h g = None"
        using posted_Nil [of "queues g k"] assms
        by (simp add: take_post_one_def PeekPostMessage_def Let_def queue_of_def waiting_posts_def gui_ok_def mq_ok_def)
      then show ?thesis using ok TakePost by simp
    next
      case (Cons x xs)
      then show ?thesis using take_post_one_hd [OF assms Cons] TakePost by (auto simp: queue_of_def)
    qed
  next
    case TakeNote
    then show ?thesis using peek_parts_ok(3) [OF ok] by simp
  qed
  then show ?thesis using assms GetMsgQueue_step by (simp add: queue_of_def)
qed

lemma posts_of_step:
  assumes "queue_of h k g"
  shows "map entry (posts_taken h a g @ waiting_posts k (queue_step h k a g)) = map entry (waiting_posts k g @ posts_entered k a g)"
proof (cases a)
  case (Arrive b)
  have ring: "ring_ok (queues g j)" for j using assms by (simp add: queue_of_def gui_ok_def mq_ok_def)
  have v: "entry \<circ> no_pAdd = entry" by (simp add: entry_def fun_eq_iff)
  have len: "length (posted (queues g k)) \<le> qlen (queues g k) - 1" using posted_length [OF ring] ring_count_less ring [of k] by (fastforce simp: ring_ok_def)
  have q: "posted (queues (snd (QueueMessage me j m g)) k)
      = (if j = k then snd (post_spec (qlen (queues g k) - 1) m (posted (queues g k))) else posted (queues g k))" for me j m
    using queue_message_refines(2) [OF ring, of k m]
    by (cases "queue_message (queues g j) m") (auto simp: QueueMessage_def Let_def queue_message_def split: option.splits if_splits dest: arg_cong [where f = snd])
  show ?thesis
  proof (cases b)
    case (Post me h' i w l)
    show ?thesis
      using q post_spec_entries [OF len, of "make_msg h' i w l"]
      by (auto simp: Arrive Post PostMessage_def Let_def split_beta waiting_posts_def v upd_queue_def POST_MSGQ_def sem_post_def split: option.split)
  next
    case (Notify me h' i w l)
    then show ?thesis
      by (auto simp: Arrive SendNotifyMessage_def Let_def waiting_posts_def queue_notify_def upd_queue_def POST_MSGQ_def sem_post_def posted_def pending_def split: option.split)
  qed
next
  case TakePost
  show ?thesis
  proof (cases "waiting_posts k g")
    case Nil
    then show ?thesis using TakePost take_post_one_none [OF assms Nil] by simp
  next
    case (Cons x xs)
    then show ?thesis using TakePost take_post_one_hd [OF assms Cons] by auto
  qed
next
  case TakeNote
  have "waiting_posts k (queue_step h k TakeNote g) = waiting_posts k g"
    by (auto simp: waiting_posts_def peek_notify_def Let_def posted_def pending_def split: list.split)
  then show ?thesis by (simp add: TakeNote)
qed

lemma notes_of_step:
  assumes "queue_of h k g"
  shows "map id (notes_taken k a g @ waiting_notes k (queue_step h k a g)) = map id (waiting_notes k g @ notes_entered k a g)"
proof (cases a)
  case (Arrive b)
  show ?thesis
  proof (cases b)
    case (Post me h' i w l)
    have "pFirstNotifyMsg (queues (snd (QueueMessage me j m g)) k) = pFirstNotifyMsg (queues g k)" for j m
      by (simp add: QueueMessage_def Let_def split_beta upd_queue_def queue_message_fields)
    then show ?thesis
      by (auto simp: Arrive Post PostMessage_def Let_def split_beta waiting_notes_def upd_queue_def split: option.split)
  next
    case (Notify me h' i w l)
    then show ?thesis
      by (auto simp: Arrive SendNotifyMessage_def Let_def waiting_notes_def queue_notify_def upd_queue_def make_msg_def no_pAdd_def
          split: option.split)
  qed
next
  case TakePost
  have "waiting_notes k (queue_step h k TakePost g) = waiting_notes k g"
    by (auto simp: waiting_notes_def take_post_one_def PeekPostMessage_def Let_def advance_read_def upd_queue_def split: option.split)
  then show ?thesis by (simp add: TakePost)
next
  case TakeNote
  show ?thesis
  proof (cases "waiting_notes k g")
    case Nil
    then show ?thesis using take_note_one_none [OF Nil]
      by (auto simp: TakeNote waiting_notes_def peek_notify_def upd_queue_def)
  next
    case (Cons x xs)
    from take_note_one_hd [OF assms Cons] show ?thesis
      by (auto simp: TakeNote Cons take_note_one_def split: phase.splits)
  qed
qed

lemma takes_something:
  assumes "queue_of h k g"
  shows "waiting_posts k g \<noteq> [] \<Longrightarrow> posts_taken h TakePost g \<noteq> []" "waiting_notes k g \<noteq> [] \<Longrightarrow> notes_taken k TakeNote g \<noteq> []"
  using take_post_one_hd [OF assms] take_note_one_hd [OF assms] by (fastforce simp: neq_Nil_conv)+

interpretation postings: fifo "queue_of h k" "waiting_posts k" entry "queue_step h k" "posts_taken h" "posts_entered k" TakePost
  for h k
  by unfold_locales (simp_all only: queue_of_step posts_of_step posts_entered.simps simp_thms, use takes_something in blast)

interpretation notifications: fifo "queue_of h k" "waiting_notes k" id "queue_step h k" "notes_taken k" "notes_entered k" TakeNote
  for h k
  by unfold_locales (simp_all only: queue_of_step notes_of_step notes_entered.simps simp_thms, use takes_something in blast)

text \<open>
  C28.  The posted messages and the notification messages of a queue leave it in the order in which they entered it, behind what waited
  before, whatever the order in which other threads post and notify and its thread takes messages of the two kinds: what was taken
  and what still waits is what waited before and what entered, the notifications as they are, and of the posted messages all
  that folding leaves (\<open>fixed_part\<close>: everything but the position and the time of a mouse move and the parameters of a timeout, an
  idle and a caret message).  A move or tick that is folded into one that waits, a message for a full queue and a paint message do
  not enter.  As many takes as messages wait empty the queue.
\<close>

theorem queues_are_first_in_first_out:
  assumes "queue_of h k g"
    and "fifo.run (queue_step h k) (posts_taken h) (posts_entered k) as g = (ps, ps_in, g1)"
    and "fifo.run (queue_step h k) (notes_taken k) (notes_entered k) as g = (ns, ns_in, g2)"
  shows "g2 = g1 \<and> map entry (ps @ waiting_posts k g1) = map entry (waiting_posts k g @ ps_in)
    \<and> ns @ waiting_notes k g1 = waiting_notes k g @ ns_in
    \<and> waiting_posts k (fold (queue_step h k) (replicate (length (waiting_posts k g1)) TakePost) g1) = []
    \<and> waiting_notes k (fold (queue_step h k) (replicate (length (waiting_notes k g1)) TakeNote) g1) = []"
proof -
  have g: "g1 = fold (queue_step h k) as g" "g2 = g1"
    using postings.run_state [of h k as g] notifications.run_state [of h k as g] assms(2,3) by simp_all
  then have ok: "queue_of h k g1" using postings.fold_ok [OF assms(1)] by simp
  show ?thesis
    using postings.first_in_first_out [OF assms(1,2)] notifications.first_in_first_out [OF assms(1,3)]
      postings.takers_empty [OF ok order_refl] notifications.takers_empty [OF ok order_refl] g(2)
    by simp
qed

lemma busy_gui_of: "queue_of 5 0 busy_gui"
proof -
  let ?g = "demo_gui\<lparr>wins := (\<lambda>h. if h = 5 then Some \<lparr>DataType = TYPE_HWND, is_main = True, w_pMainWin = 5,
        w_pMessages = Some 0, w_th = 0, MainWindowProc = Some 0\<rparr> else None)\<rparr>"
  have "gui_ok ?g" using demo_gui_ok by (rule gui_ok_cong) simp_all
  then have "gui_ok busy_gui" unfolding busy_gui_def by (intro post_ok)
  moreover have "wins busy_gui = wins ?g" by (simp add: busy_gui_def)
  ultimately show ?thesis
    by (simp add: queue_of_def GetMsgQueue_def getMainWindowPtr_def MG_IS_WINDOW_def data_type_def)
qed

theorem queues_are_first_in_first_out_witness:
  "let (ns, es, g1) = fifo.run (queue_step 5 0) (notes_taken 0) (notes_entered 0)
        [Arrive (Notify 1 5 22 0 0), TakeNote, Arrive (Post 1 5 23 0 0), Arrive (Notify 1 5 24 0 0)] busy_gui
   in ns @ waiting_notes 0 g1 = [make_msg 5 21 3 4, make_msg 5 22 0 0, make_msg 5 24 0 0]"
proof -
  let ?as = "[Arrive (Notify 1 5 22 0 0), TakeNote, Arrive (Post 1 5 23 0 0), Arrive (Notify 1 5 24 0 0)]"
  have w: "MG_IS_WINDOW g 5" "GetMsgQueue g 5 = Some 0" if "queue_of 5 0 g" for g
    using that by (auto simp: queue_of_def GetMsgQueue_def getMainWindowPtr_def Let_def split: if_splits)
  obtain ps ps_in g1 where p: "fifo.run (queue_step 5 0) (posts_taken 5) (posts_entered 0) ?as busy_gui = (ps, ps_in, g1)"
    by (metis prod_cases3)
  obtain ns ns_in g2 where n: "fifo.run (queue_step 5 0) (notes_taken 0) (notes_entered 0) ?as busy_gui = (ns, ns_in, g2)"
    by (metis prod_cases3)
  have q: "queue_of 5 0 (fold (queue_step 5 0) as busy_gui)" for as using postings.fold_ok [OF busy_gui_of] .
  have "ns_in = [make_msg 5 22 0 0, make_msg 5 24 0 0]"
    using n w [OF q [of "[]"]] w [OF q [of "take 3 ?as"]] by (auto simp: notifications.run.simps Let_def split_beta)
  moreover have "waiting_notes 0 busy_gui = [make_msg 5 21 3 4]"
    by (simp add: waiting_notes_def busy_gui_queue queue_notify_def queue_message_fields)
      (simp add: demo_gui_def InitMsgQueue_def make_msg_def)
  ultimately show ?thesis
    using queues_are_first_in_first_out [OF busy_gui_of p n] n by simp
qed

end
