(* ===== verification/Keyboard_Props.thy ===== *)
theory Keyboard_Props
  imports Keyboard_Default Charset_Unicode Message_Order
begin

section \<open>What keys are translated to\<close>

text \<open>
  The bytes that the symbols of the key maps put into the buffer, the only scan code on which the translation
  leaves its arrays, what dead keys and codes typed on the keypad give, and how the bytes reach the window.
\<close>

subsection \<open>The buffer\<close>

lemma puts_queue_room:
  "length (kbuff k) + length s \<le> NR_BUFF \<Longrightarrow> puts_queue s k = Some (k\<lparr>kbuff := kbuff k @ s\<rparr>)"
  by (induction s arbitrary: k) (simp_all add: put_queue_def)

lemma put_queue_room: "length (kbuff k) < NR_BUFF \<Longrightarrow> put_queue c k = Some (k\<lparr>kbuff := kbuff k @ [c]\<rparr>)"
  by (simp add: put_queue_def)

lemma puts_queue_one: "puts_queue [c] = put_queue c" "puts_queue [c, d] k = put_queue c k \<bind> put_queue d"
  by (auto simp: fun_eq_iff put_queue_def)

lemma puts_queue_three: "puts_queue [b, c, d] k = put_queue b k \<bind> put_queue c \<bind> put_queue d"
  by (auto simp: put_queue_def)

subsection \<open>Characters\<close>

lemma uint_shift: "uint (drop_bit n c) = uint c div 2 ^ n" for c :: "16 word"
proof -
  have "take_bit 16 (uint c) = uint c" using uint_bounded [of c] by (intro take_bit_int_eq_self) simp_all
  then show ?thesis unfolding unsigned_drop_bit_eq by (simp add: Bit_Operations.drop_bit_eq_div)
qed

lemma byte_of_or: "(ucast (a OR b) :: byte) = word_of_int (uint b OR uint a)" for a b :: "16 word"
  by (simp only: ucast_eq uint_or or.commute)

lemma uint_and_63: "uint (c AND 0x3F) = uint c mod 64" for c :: "16 word"
  by (simp add: uint_and and_masks)

lemma tail_of_2: "tail_bytes 2 wc = [word_of_int (wc div 64 mod 64 OR 0x80), word_of_int (wc mod 64 OR 0x80)]"
  by (simp add: tail_bytes_def numeral_2_eq_2)

lemma tail_of_0: "tail_bytes 0 wc = []"
  by (simp add: tail_bytes_def)

lemma tail_of_1: "tail_bytes (Suc 0) wc = [word_of_int (wc mod 64 OR 0x80)]"
  by (simp add: tail_bytes_def)

lemma utf8_of_small:
  "wc < 0x80 \<Longrightarrow> utf8_conv_from_uc32 wc = [word_of_int wc]"
  "0x80 \<le> wc \<Longrightarrow> wc < 0x800 \<Longrightarrow> utf8_conv_from_uc32 wc = [word_of_int (wc div 64 OR 0xC0), word_of_int (wc mod 64 OR 0x80)]"
  "0x800 \<le> wc \<Longrightarrow> wc < 0x10000 \<Longrightarrow> utf8_conv_from_uc32 wc =
     [word_of_int (wc div 4096 OR 0xE0), word_of_int (wc div 64 mod 64 OR 0x80), word_of_int (wc mod 64 OR 0x80)]"
  using tail_of_1 [of wc] tail_of_2 [of wc] by (simp_all add: utf8_conv_from_uc32_def fill_bytes tail_of_0)

lemma utf8_of_16_bits:
  "utf8_conv_from_uc32 (uint c) =
     (if c < 0x80 then [ucast c]
      else if c < 0x800 then [ucast (0xC0 OR drop_bit 6 c), ucast (0x80 OR (c AND 0x3F))]
      else [ucast (0xE0 OR drop_bit 12 c), ucast (0x80 OR (drop_bit 6 c AND 0x3F)), ucast (0x80 OR (c AND 0x3F))])"
  for c :: "16 word"
proof -
  have lt: "c < 0x80 \<longleftrightarrow> uint c < 0x80" "c < 0x800 \<longleftrightarrow> uint c < 0x800" by (simp_all add: word_less_def)
  have top: "uint c < 0x10000" using uint_bounded [of c] by simp
  have tail: "(ucast (0x80 OR (x AND 0x3F)) :: byte) = word_of_int (uint x mod 64 OR 0x80)" for x :: "16 word"
    by (simp only: byte_of_or uint_and_63) simp
  have lead: "(ucast (0xC0 OR x) :: byte) = word_of_int (uint x OR 0xC0)" "(ucast (0xE0 OR x) :: byte) = word_of_int (uint x OR 0xE0)"
    for x :: "16 word" by (simp_all only: byte_of_or) simp_all
  consider "uint c < 0x80" | "0x80 \<le> uint c" "uint c < 0x800" | "0x800 \<le> uint c" by linarith
  then show ?thesis
  proof cases
    case 1
    then have "c < 0x80" by (simp only: lt)
    then show ?thesis using utf8_of_small(1) [OF 1] by (simp only: if_True ucast_eq)
  next
    case 2
    then have "\<not> c < 0x80" "c < 0x800" by (simp_all only: lt not_less)
    then show ?thesis
      by (simp only: utf8_of_small(2) [OF 2] if_True if_False tail lead uint_shift) simp
  next
    case 3
    then have "\<not> c < 0x80" "\<not> c < 0x800" using lt by linarith+
    then show ?thesis
      by (simp only: utf8_of_small(3) [OF 3 top] if_False tail lead uint_shift) simp
  qed
qed

lemma to_utf8_bytes: "to_utf8 c k = puts_queue (utf8_conv_from_uc32 (uint c)) k"
  by (auto simp only: to_utf8_def utf8_of_16_bits puts_queue_three puts_queue_one split: if_split)

text \<open>A symbol that is a character is stored in the encoding of UTF-8 that the charset writes, which
  that charset reads back as the character.\<close>

theorem keys_are_stored_in_utf8:
  "to_utf8 c k = puts_queue (utf8_conv_from_uc32 (uint c)) k
    \<and> utf8_conv_to_uc32 (mem (utf8_conv_from_uc32 (uint c))) = uint c"
  using to_utf8_bytes utf8_round_trip [of "uint c"] uint_bounded [of c] by simp

subsection \<open>The arrays\<close>

text \<open>Key maps and function strings as the layouts have them.\<close>

definition sym_ok :: "16 word \<Rightarrow> bool" where
  "sym_ok s \<longleftrightarrow>
     (let ty = HIBYTE (uint s); val = (ucast s :: byte)
      in (ty = 0xF3 \<longrightarrow> val \<le> 20) \<and> (ty = 0xF4 \<longrightarrow> val < 6) \<and> (ty = 0xF6 \<longrightarrow> val \<le> 4))"

definition tables_ok :: "key_tables \<Rightarrow> bool" where
  "tables_ok kt \<longleftrightarrow> (\<forall>i m. key_maps kt i = Some m \<longrightarrow> length m = NR_KEYS \<and> list_all sym_ok m)
     \<and> (\<forall>v s. func_table kt v = Some s \<longrightarrow> length s \<le> NR_BUFF)"

definition key_message :: "int \<Rightarrow> bool" where
  "key_message message \<longleftrightarrow>
     message \<in> {MSG_KEYDOWN, MSG_SYSKEYDOWN, MSG_KEYLONGPRESS, MSG_KEYALWAYSPRESS, MSG_KEYUP, MSG_SYSKEYUP}"

lemma char_at_small: "unat i \<le> length s \<Longrightarrow> \<exists>c. char_at s i = Some c"
  by (simp add: char_at_def)

lemma applkey_room: "length (kbuff k) + 3 \<le> NR_BUFF \<Longrightarrow> applkey key mode k \<noteq> None"
proof -
  assume a: "length (kbuff k) + 3 \<le> NR_BUFF"
  have "length (takeWhile (\<lambda>c. c \<noteq> 0) [0x1B, if mode then 0x4F else 0x5B, key]) \<le> 3"
    using length_takeWhile_le [of _ "[0x1B, if mode then 0x4F else 0x5B, key]"] by simp
  with a show ?thesis unfolding applkey_def by (subst puts_queue_room) simp_all
qed

lemma to_utf8_room: "length (kbuff k) + 3 \<le> NR_BUFF \<Longrightarrow> to_utf8 c k \<noteq> None"
  unfolding to_utf8_bytes utf8_of_16_bits by (subst puts_queue_room) simp_all

lemma handle_diacr_room:
  "length (kbuff k) < NR_BUFF \<Longrightarrow> \<exists>c k'. handle_diacr kt ch k = Some (c, k') \<and> length (kbuff k') \<le> Suc (length (kbuff k))"
  by (auto simp: handle_diacr_def Let_def put_queue_room split: option.split)

text \<open>An empty buffer has room for what any symbol adds.\<close>

lemma handlers_room:
  assumes "kbuff k = []" "tables_ok kt"
  shows "do_self kt v k \<noteq> None" "do_fn kt v k \<noteq> None" "do_spec v k \<noteq> None" "do_dead2 kt v k \<noteq> None"
    "do_meta v k \<noteq> None" "do_ascii v k \<noteq> None" "do_shift k \<noteq> None" "applkey c mode k \<noteq> None"
    "put_queue c k \<noteq> None"
proof -
  have b: "NR_BUFF = 50" by (simp add: NR_BUFF_def)
  show "do_self kt v k \<noteq> None" "do_dead2 kt v k \<noteq> None"
    using handle_diacr_room [of k kt v] assms(1) by (auto simp: do_self_def do_dead2_def b put_queue_room)
  show "do_fn kt v k \<noteq> None"
    using assms by (auto simp: do_fn_def tables_ok_def puts_queue_room split: option.split)
  show "do_spec v k \<noteq> None" "do_meta v k \<noteq> None" "do_ascii v k \<noteq> None" "put_queue c k \<noteq> None"
    using assms(1) by (simp_all add: do_spec_def enter_def compose_def do_meta_def do_ascii_def put_queue_room b)
  show "do_shift k \<noteq> None"
    using assms(1) to_utf8_room [of k] by (simp add: do_shift_def put_queue_room b bind_eq_None_conv del: not_None_eq)
  show "applkey c mode k \<noteq> None" using assms(1) by (intro applkey_room) (simp add: b)
qed

lemma do_pad_room:
  assumes "kbuff k = []" "tables_ok kt" "v \<le> 20"
  shows "do_pad kt v k \<noteq> None"
proof -
  have v: "unat v \<le> 20" using assms(3) by (simp add: word_le_nat_alt)
  then obtain c d where c: "char_at pad_chars v = Some c" "char_at app_map v = Some d"
    using char_at_small [of v pad_chars] char_at_small [of v app_map] by (auto simp: pad_chars_def app_map_def)
  have "do_cur n k \<noteq> None" if "n \<le> 4" for n
    using that char_at_small [of n cur_chars] handlers_room(8) [OF assms(1,2)]
    by (auto simp: do_cur_def cur_chars_def word_le_nat_alt)
  moreover have cr: "char_at pad_chars 14 = Some 0x0D" by (simp add: char_at_def pad_chars_def)
  ultimately have "do_cur 0 k \<noteq> None" "do_cur 1 k \<noteq> None" "do_cur 2 k \<noteq> None" "do_cur 3 k \<noteq> None" by simp_all
  then show ?thesis
    using c handlers_room(2,8) [OF assms(1,2)] assms(1)
    unfolding do_pad_def Let_def by (simp add: put_queue_room NR_BUFF_def cr del: not_None_eq)
qed

lemma key_handler_room:
  assumes "kbuff k = []" "tables_ok kt" "sym_ok s" "HIBYTE (uint s) \<ge> 0xF0"
  shows "key_handler kt (HIBYTE (uint s) - 0xF0) (ucast s) k \<noteq> None"
proof -
  let ?ty = "HIBYTE (uint s) - 0xF0"
  have ty: "HIBYTE (uint s) = 0xF0 + ?ty" by simp
  have pad: "(ucast s :: byte) \<le> 20" if "?ty = 3" using that assms(3) ty by (simp add: sym_ok_def)
  have dead: "(ucast s :: byte) < 6" if "?ty = 4" using that assms(3) ty by (simp add: sym_ok_def)
  have cur: "(ucast s :: byte) \<le> 4" if "?ty = 6" using that assms(3) ty by (simp add: sym_ok_def)
  have "do_dead kt v k \<noteq> None" if "v < 6" for v
    using that handlers_room(4) [OF assms(1,2)] by (simp add: do_dead_def ret_diacr_def word_less_nat_alt)
  moreover have "do_cur n k \<noteq> None" if "n \<le> 4" for n
    using that char_at_small [of n cur_chars] handlers_room(8) [OF assms(1,2)]
    by (auto simp: do_cur_def cur_chars_def word_le_nat_alt)
  ultimately show ?thesis
    using handlers_room(1-6) [OF assms(1,2)] do_pad_room [OF assms(1,2)] pad dead cur
    unfolding key_handler_def by (auto simp del: not_None_eq)
qed

lemma sym_at_ok:
  assumes "tables_ok kt" "key_maps kt i = Some m"
  shows "sym_at m n = (if n < 128 then Some (m ! n) else None)" "n < 128 \<Longrightarrow> sym_ok (m ! n)"
  using assms by (auto simp: tables_ok_def sym_at_def NR_KEYS_def list_all_length)

lemma keydown_room:
  assumes "kbuff k = []" "tables_ok kt"
  shows "handle_scancode_on_keydown kt n k = None \<longleftrightarrow>
    n \<ge> 128 \<and> key_maps kt (compute_shiftstate kt (shiftstate k)) \<noteq> None"
proof (cases "key_maps kt (compute_shiftstate kt (shiftstate k))")
  case (Some m)
  show ?thesis
  proof (cases "n < 128")
    case True
    let ?s = "m ! n"
    have a: "sym_at m n = Some ?s" "sym_ok ?s" using sym_at_ok [OF assms(2) Some] True by simp_all
    have u: "to_utf8 c (k\<lparr>ktype := x\<rparr>) \<noteq> None" for c x by (rule to_utf8_room) (simp add: assms(1) NR_BUFF_def)
    have h: "key_handler kt (HIBYTE (uint ?s) - 0xF0) (ucast ?s) (k\<lparr>ktype := x\<rparr>) \<noteq> None" if "HIBYTE (uint ?s) \<ge> 0xF0" for x
      by (rule key_handler_room) (use that a assms in simp_all)
    have l: "key_handler kt 0 v (k\<lparr>ktype := x\<rparr>) \<noteq> None" for v x
      using handlers_room(1) [of "k\<lparr>ktype := x\<rparr>"] assms by (simp add: key_handler_def)
    have other: "\<exists>s'. sym_at m' n = Some s'" if "key_maps kt i = Some m'" for i m'
      using sym_at_ok [OF assms(2) that] True by simp
    show ?thesis
      using a Some True u h l other
      by (simp add: handle_scancode_on_keydown_def Let_def) (fastforce split: option.split)
  qed (use sym_at_ok [OF assms(2) Some] Some in \<open>simp add: handle_scancode_on_keydown_def Let_def\<close>)
qed (simp add: handle_scancode_on_keydown_def Let_def)

lemma keyup_room:
  assumes "kbuff k = []" "tables_ok kt"
  shows "handle_scancode_on_keyup kt n k = None \<longleftrightarrow>
    n \<ge> 128 \<and> key_maps kt (compute_shiftstate kt (shiftstate k)) \<noteq> None"
proof (cases "key_maps kt (compute_shiftstate kt (shiftstate k))")
  case (Some m)
  have "do_shift (k\<lparr>ktype := x\<rparr>) \<noteq> None" for x by (rule handlers_room(7)) (use assms in simp_all)
  then show ?thesis
    using sym_at_ok [OF assms(2) Some] Some by (auto simp: handle_scancode_on_keyup_def Let_def simp del: not_None_eq)
qed (simp add: handle_scancode_on_keyup_def Let_def)

text \<open>C34.  With well formed tables, the translation of a message leaves an array exactly when a key comes whose scan
  code is 128, which the test against \<open>SCANCODE_USER\<close> lets pass, and the modifiers have a key map; no symbol
  overflows the buffer.\<close>

theorem translation_stays_in_its_arrays:
  assumes "tables_ok kt"
  shows "translate kt message wParam lParam (k\<lparr>kbuff := []\<rparr>) = None \<longleftrightarrow>
    key_message message \<and> unat wParam = 128 \<and> key_maps kt (compute_shiftstate kt lParam) \<noteq> None"
  using keydown_room [OF _ assms, of "k\<lparr>kbuff := [], shiftstate := lParam\<rparr>" "unat wParam"]
    keyup_room [OF _ assms, of "k\<lparr>kbuff := [], shiftstate := lParam\<rparr>" "unat wParam"]
  by (auto simp: translate_def on_status_def key_message_def SCANCODE_USER_def NR_KEYS_def)

lemma default_maps_ok: "list_all (\<lambda>m. case m of None \<Rightarrow> True | Some m \<Rightarrow> length m = NR_KEYS \<and> list_all sym_ok m) default_key_maps"
  by code_simp

lemma default_strings_ok:
  "list_all (\<lambda>p. case p of None \<Rightarrow> True | Some p \<Rightarrow> length (string_at func_buf p) \<le> NR_BUFF) func_offsets"
  by code_simp

lemma default_tables_ok: "tables_ok init_default_kbd_layout"
  using default_maps_ok default_strings_ok
  by (auto simp: tables_ok_def init_default_kbd_layout_def list_all_length split: option.splits if_splits)

theorem translation_stays_in_its_arrays_witness:
  "translate init_default_kbd_layout MSG_KEYDOWN 128 0 (new_kinfo\<lparr>kbuff := []\<rparr>) = None
    \<and> translate init_default_kbd_layout MSG_KEYDOWN 127 0 (new_kinfo\<lparr>kbuff := []\<rparr>) \<noteq> None"
proof -
  have "compute_shiftstate init_default_kbd_layout 0 = 0" "key_maps init_default_kbd_layout 0 = Some plain_map"
    by (simp_all add: compute_shiftstate_def init_default_kbd_layout_def default_key_maps_def)
  then show ?thesis
    using translation_stays_in_its_arrays [OF default_tables_ok, of MSG_KEYDOWN _ 0 new_kinfo]
    by (simp add: key_message_def)
qed

end
