(* ===== verification/Keyboard_Typing.thy ===== *)
theory Keyboard_Typing
  imports Keyboard_Props
begin

section \<open>What sequences of keys type\<close>

text \<open>
  The bytes of a sequence of messages: composed characters, the codes typed on the keypad while Alt is
  held, and the notification messages by which a character reaches its window.
\<close>

text \<open>The symbol that a scan code has under a state of the modifiers.\<close>

definition symbol :: "key_tables \<Rightarrow> dword \<Rightarrow> dword \<Rightarrow> 16 word option" where
  "symbol kt scancode status =
     (if unat scancode < NR_KEYS then key_maps kt (compute_shiftstate kt status) \<bind> (\<lambda>m. sym_at m (unat scancode)) else None)"

text \<open>A key that stands for a character, while CapsLock is off.\<close>

definition char_key :: "key_tables \<Rightarrow> dword \<Rightarrow> dword \<Rightarrow> byte \<Rightarrow> bool" where
  "char_key kt scancode status c \<longleftrightarrow>
     (case symbol kt scancode status of
        None \<Rightarrow> False
      | Some s \<Rightarrow> (HIBYTE (uint s) = 0xF0 \<or> HIBYTE (uint s) = 0xFB \<and> status AND KS_CAPSLOCK = 0) \<and> ucast s = c)"

definition key_of_type :: "key_tables \<Rightarrow> dword \<Rightarrow> dword \<Rightarrow> byte \<Rightarrow> byte \<Rightarrow> bool" where
  "key_of_type kt scancode status ty val \<longleftrightarrow>
     (case symbol kt scancode status of None \<Rightarrow> False | Some s \<Rightarrow> HIBYTE (uint s) = 0xF0 + ty \<and> ucast s = val)"

text \<open>The bytes that the messages of a sequence put into the buffer one after the other.\<close>

fun type_keys :: "key_tables \<Rightarrow> (int \<times> dword \<times> dword) list \<Rightarrow> key_info \<Rightarrow> (byte list \<times> key_info) option" where
  "type_keys kt [] k = Some ([], k)"
| "type_keys kt ((message, scancode, status) # ms) k =
     do {
       k1 \<leftarrow> translate kt message scancode status (k\<lparr>kbuff := []\<rparr>);
       (bs, k2) \<leftarrow> type_keys kt ms k1;
       Some (kbuff k1 @ bs, k2)
     }"

lemma type_keys_append:
  "type_keys kt (ms @ ms') k = do { (bs, k) \<leftarrow> type_keys kt ms k; (bs', k) \<leftarrow> type_keys kt ms' k; Some (bs @ bs', k) }"
  by (induction kt ms k rule: type_keys.induct) (auto simp: Option.bind_assoc split: prod.split bind_split)

lemma symbol_SomeD: "symbol kt w l = Some s \<Longrightarrow>
    unat w < SCANCODE_USER \<and> (\<exists>m. key_maps kt (compute_shiftstate kt l) = Some m \<and> sym_at m (unat w) = Some s)"
  by (auto simp: symbol_def SCANCODE_USER_def split: if_splits Option.bind_splits)

lemma press_symbol:
  assumes "m = MSG_KEYDOWN \<or> m = MSG_SYSKEYDOWN" "symbol kt w l = Some s"
  shows "translate kt m w l k = on_status l (\<lambda>k. let ty = HIBYTE (uint s) in
      if ty < 0xF0 then to_utf8 s (k\<lparr>ktype := ty\<rparr>)
      else if ty \<noteq> 0xFB then key_handler kt (ty - 0xF0) (ucast s) (k\<lparr>ktype := ty - 0xF0\<rparr>)
      else handle_scancode_on_keydown kt (unat w) k) k"
  using assms symbol_SomeD [OF assms(2)]
  by (auto simp: translate_def on_status_def handle_scancode_on_keydown_def Let_def not_less)

lemma press_char:
  assumes "m = MSG_KEYDOWN \<or> m = MSG_SYSKEYDOWN" "char_key kt w l c"
  shows "translate kt m w l k = on_status l (\<lambda>k. do_self kt c (k\<lparr>ktype := 0\<rparr>)) k"
proof -
  obtain s where s: "symbol kt w l = Some s" "HIBYTE (uint s) = 0xF0 \<or> HIBYTE (uint s) = 0xFB \<and> l AND KS_CAPSLOCK = 0" "ucast s = c"
    using assms(2) by (auto simp: char_key_def split: option.splits)
  then show ?thesis
    using symbol_SomeD [OF s(1)] assms(1)
    by (auto simp: translate_def on_status_def handle_scancode_on_keydown_def Let_def key_handler_def)
qed

lemma press_type:
  assumes "m = MSG_KEYDOWN \<or> m = MSG_SYSKEYDOWN" "key_of_type kt w l ty v" "ty < 16" "ty \<noteq> 11"
  shows "translate kt m w l k = on_status l (\<lambda>k. key_handler kt ty v (k\<lparr>ktype := ty\<rparr>)) k"
proof -
  obtain s where s: "symbol kt w l = Some s" "HIBYTE (uint s) = 0xF0 + ty" "ucast s = v"
    using assms(2) by (auto simp: key_of_type_def split: option.splits)
  have "\<not> 0xF0 + ty < 0xF0" using assms(3) by (simp add: word_less_nat_alt unat_word_ariths)
  moreover have "0xF0 + ty \<noteq> 0xF0 + 11" using assms(4) add_left_imp_eq by blast
  ultimately show ?thesis using press_symbol [OF assms(1) s(1), of k] s by (simp add: Let_def)
qed

lemma release_type:
  assumes "m = MSG_KEYUP \<or> m = MSG_SYSKEYUP" "key_of_type kt w l ty v" "ty < 16"
  shows "translate kt m w l k = on_status l (\<lambda>k. let k = k\<lparr>ktype := ty\<rparr> in if ty = 7 then do_shift k else Some k) k"
proof -
  obtain s where s: "symbol kt w l = Some s" "HIBYTE (uint s) = 0xF0 + ty" "ucast s = v"
    using assms(2) by (auto simp: key_of_type_def split: option.splits)
  have "\<not> 0xF0 + ty < 0xF0" using assms(3) by (simp add: word_less_nat_alt unat_word_ariths)
  then show ?thesis
    using symbol_SomeD [OF s(1)] assms(1) s
    by (auto simp: translate_def on_status_def handle_scancode_on_keyup_def Let_def not_less)
qed

subsection \<open>Composed characters\<close>

definition composed :: "key_tables \<Rightarrow> byte \<Rightarrow> byte \<Rightarrow> byte list" where
  "composed kt a b =
     (case find (\<lambda>(dia, base, _). dia = a \<and> base = b) (accent_table kt) of
        Some (_, _, result) \<Rightarrow> [result]
      | None \<Rightarrow> if b = 0x20 \<or> b = a then [a] else [a, b])"

text \<open>The compose key and two characters type the character that the accent table has for them; without
  one, a space or the accent twice types the accent, and any other character comes after it.\<close>

theorem compose_types_accents:
  assumes "press = MSG_KEYDOWN \<or> press = MSG_SYSKEYDOWN"
    and "key_of_type kt w0 l0 2 14" "char_key kt w1 l1 a" "char_key kt w2 l2 b"
    and "diacr k = 0" "a \<noteq> 0"
  shows "\<exists>k'. type_keys kt [(press, w0, l0), (press, w1, l1), (press, w2, l2)] k = Some (composed kt a b, k')
    \<and> diacr k' = 0 \<and> \<not> dead_key_next k'"
  using assms(5,6)
  by (auto simp: press_type [OF assms(1,2)] press_char [OF assms(1,3)] press_char [OF assms(1,4)] on_status_def key_handler_def
      do_spec_def compose_def do_self_def handle_diacr_def composed_def Let_def put_queue_room NR_BUFF_def split: option.split)

lemma compose_on_default: "key_of_type init_default_kbd_layout 52 KS_LEFTCTRL 2 14"
  by code_simp

lemma accents_on_default: "char_key init_default_kbd_layout 40 0 0x27" "char_key init_default_kbd_layout 18 0 0x65"
  by code_simp+

lemma composed_on_default: "composed init_default_kbd_layout 0x27 0x65 = [0xE9]"
  by code_simp

theorem compose_types_accents_witness:
  "\<exists>k'. type_keys init_default_kbd_layout
      [(MSG_KEYDOWN, 52, KS_LEFTCTRL), (MSG_KEYDOWN, 40, 0), (MSG_KEYDOWN, 18, 0)] new_kinfo = Some ([0xE9], k')
    \<and> diacr k' = 0 \<and> \<not> dead_key_next k'"
  using compose_types_accents [OF disjI1 [OF refl] compose_on_default accents_on_default, of new_kinfo]
  by (simp add: composed_on_default new_kinfo_def)

subsection \<open>Codes typed on the keypad\<close>

definition digits :: "nat list \<Rightarrow> nat" where
  "digits ds = foldl (\<lambda>n d. n * 10 + d) 0 ds"

text \<open>The digits pressed and released while the status stays the same.\<close>

definition tap :: "int \<Rightarrow> int \<Rightarrow> dword \<Rightarrow> dword \<Rightarrow> (int \<times> dword \<times> dword) list" where
  "tap down up status scancode = [(down, scancode, status), (up, scancode, status)]"

lemma digits_snoc: "digits (ds @ [d]) = digits ds * 10 + d"
  by (simp add: digits_def)

lemma digits_bound: "\<forall>d\<in>set ds. d < 10 \<Longrightarrow> digits ds < 10 ^ length ds"
  by (induction ds rule: rev_induct) (fastforce simp: digits_snoc digits_def)+

lemma pad_number:
  assumes "ds \<noteq> []" "length ds \<le> 9" "\<forall>d\<in>set ds. d < 10"
  shows "(of_nat (digits ds) :: 32 word) \<noteq> -1"
proof -
  have pow10: "(10 :: nat) ^ 9 < 4294967295" by simp
  have small: "digits ds < 10 ^ 9"
    using digits_bound [OF assms(3)] power_increasing [OF assms(2), of "10 :: nat"] by linarith
  then have "unat (of_nat (digits ds) :: 32 word) = digits ds" by (simp add: unsigned_of_nat take_bit_nat_eq_self)
  moreover have "unat (-1 :: 32 word) = 4294967295" by (simp add: unsigned_minus_1_eq_mask mask_eq_exp_minus_1)
  ultimately show ?thesis using less_trans [OF small pow10] by (metis less_irrefl)
qed

lemma tap_digit:
  assumes "down = MSG_KEYDOWN \<or> down = MSG_SYSKEYDOWN" "up = MSG_KEYUP \<or> up = MSG_SYSKEYUP"
    and "key_of_type kt w l 9 (of_nat d)" "d < 10"
  shows "type_keys kt (tap down up l w) k = Some ([], k\<lparr>kbuff := [], shiftstate := l, oldstate := l, ktype := 9,
     npadch := (if npadch k = -1 then of_nat d else npadch k * 10 + of_nat d)\<rparr>)"
proof -
  have "(of_nat d :: byte) < 10" using assms(4) by (simp add: word_less_nat_alt unat_of_nat)
  moreover have "(ucast (of_nat d :: byte) :: 32 word) = of_nat d"
    using assms(4) by (simp add: unsigned_of_nat take_bit_nat_eq_self)
  ultimately show ?thesis
    by (simp add: tap_def press_type [OF assms(1,3)] release_type [OF assms(2,3)] on_status_def key_handler_def do_ascii_def Let_def)
qed

lemma tap_digits:
  assumes "down = MSG_KEYDOWN \<or> down = MSG_SYSKEYDOWN" "up = MSG_KEYUP \<or> up = MSG_SYSKEYUP"
    and "\<forall>d<10. key_of_type kt (sc d) l 9 (of_nat d)" "npadch k = -1"
    and "ds \<noteq> []" "length ds \<le> 9" "\<forall>d\<in>set ds. d < 10"
  shows "type_keys kt (concat (map (tap down up l \<circ> sc) ds)) k = Some ([], k\<lparr>kbuff := [], shiftstate := l, oldstate := l,
     ktype := 9, npadch := of_nat (digits ds)\<rparr>)"
  using assms(5-7)
proof (induction ds rule: rev_induct)
  case (snoc d ds)
  have d: "d < 10" using snoc.prems by simp
  note tap = tap_digit [OF assms(1,2) assms(3) [rule_format, OF d] d]
  show ?case
  proof (cases "ds = []")
    case True then show ?thesis using tap [of k] assms(4) by (simp add: digits_def)
  next
    case False
    then show ?thesis
      using snoc pad_number [OF False] by (simp add: type_keys_append tap digits_snoc)
  qed
qed simp

text \<open>Digits of the keypad typed with Alt held, at most nine, and the release of a shift key type the byte
  with that number, taken modulo 256.\<close>

theorem alt_digits_type_a_code:
  assumes "down = MSG_KEYDOWN \<or> down = MSG_SYSKEYDOWN" "up = MSG_KEYUP \<or> up = MSG_SYSKEYUP"
    and "\<forall>d<10. key_of_type kt (sc d) alt 9 (of_nat d)" "key_of_type kt w l 7 v" "l \<noteq> alt"
    and "kbd_mode k = VC_XLATE" "npadch k = -1"
    and "ds \<noteq> []" "length ds \<le> 9" "\<forall>d\<in>set ds. d < 10"
  shows "\<exists>k'. type_keys kt (concat (map (tap down up alt \<circ> sc) ds) @ [(up, w, l)]) k = Some ([of_nat (digits ds)], k')
    \<and> npadch k' = -1"
proof -
  note taps = tap_digits [OF assms(1-3,7-10)]
  have byte: "(ucast (of_nat n AND 0xFF :: 32 word) :: byte) = of_nat n" for n :: nat
  proof (rule bit_word_eqI)
    fix i assume "i < LENGTH(8)"
    then have "bit (mask 8 :: 32 word) i" by (simp add: bit_mask_iff)
    moreover have "(mask 8 :: 32 word) = 0xFF" by (simp add: mask_eq_exp_minus_1)
    ultimately show "bit (ucast (of_nat n AND 0xFF :: 32 word) :: byte) i = bit (of_nat n :: byte) i"
      using \<open>i < LENGTH(8)\<close> by (simp add: bit_simps)
  qed
  show ?thesis
    using pad_number [OF assms(8-10)] assms(5,6)
    by (simp add: type_keys_append taps release_type [OF assms(2,4)] on_status_def do_shift_def put_queue_room NR_BUFF_def
        Let_def byte VC_XLATE_def VC_UNICODE_def)
qed

definition keypad :: "nat \<Rightarrow> dword" where
  "keypad d = [82, 79, 80, 81, 75, 76, 77, 71, 72, 73] ! d"

lemma keypad_on_default: "\<forall>d<10. key_of_type init_default_kbd_layout (keypad d) KS_LEFTALT 9 (of_nat d)"
proof -
  have "list_all (\<lambda>d. key_of_type init_default_kbd_layout (keypad d) KS_LEFTALT 9 (of_nat d)) [0..<10]" by code_simp
  then show ?thesis unfolding list_all_iff by simp
qed

lemma alt_on_default: "key_of_type init_default_kbd_layout 56 0 7 3"
  by code_simp

theorem alt_digits_type_a_code_witness:
  "\<exists>k'. type_keys init_default_kbd_layout (concat (map (tap MSG_SYSKEYDOWN MSG_SYSKEYUP KS_LEFTALT \<circ> keypad) [3, 2, 1])
      @ [(MSG_SYSKEYUP, 56, 0)]) new_kinfo = Some ([0x41], k') \<and> npadch k' = -1"
proof -
  have "(of_nat (digits [3, 2, 1]) :: byte) = 0x41" by (simp add: digits_def)
  then show ?thesis
    using alt_digits_type_a_code [OF disjI2 [OF refl] disjI2 [OF refl] keypad_on_default alt_on_default,
        of new_kinfo "[3, 2, 1]"] by (simp add: new_kinfo_def KS_LEFTALT_def)
qed

subsection \<open>The way to the window\<close>

text \<open>The notifications of a character whose encoding has more than one byte.\<close>

definition keysym_notes :: "hwnd \<Rightarrow> dword \<Rightarrow> byte list \<Rightarrow> msg list" where
  "keysym_notes h l bs = map (\<lambda>(i, b). make_msg h MSG_KEYSYM (word_of_int (MAKEWORD b (of_nat i))) l) (enumerate 0 bs)"

lemma send_one:
  assumes "queue_of h j g" "MG_IS_WINDOW g h"
  shows "queue_of h j (snd (SendNotifyMessage me h i w l g)) \<and> MG_IS_WINDOW (snd (SendNotifyMessage me h i w l g)) h
    \<and> waiting_notes j (snd (SendNotifyMessage me h i w l g)) = waiting_notes j g @ [make_msg h i w l]"
proof -
  let ?m = "make_msg h i w l"
  have "MG_IS_WINDOW (snd (SendNotifyMessage me h i w l g)) h = MG_IS_WINDOW g h"
    by (simp add: MG_IS_WINDOW_def data_type_def)
  then show ?thesis
    using notify_one_items [OF assms(1), of ?m me] assms(2) by (simp add: note_to_def notify_one_def make_msg_def)
qed

lemma send_many:
  "queue_of h j g \<Longrightarrow> MG_IS_WINDOW g h \<Longrightarrow>
    waiting_notes j (fold (\<lambda>(i, b). \<lambda>g. snd (SendNotifyMessage me h MSG_KEYSYM (word_of_int (MAKEWORD b (of_nat i))) l g)) ps g)
      = waiting_notes j g @ map (\<lambda>(i, b). make_msg h MSG_KEYSYM (word_of_int (MAKEWORD b (of_nat i))) l) ps"
proof (induction ps arbitrary: g)
  case (Cons p ps)
  show ?case
    using send_one [OF Cons.prems, of me MSG_KEYSYM "word_of_int (MAKEWORD (snd p) (of_nat (fst p)))" l] Cons.IH
    by (simp add: split_beta)
qed simp

lemma zero_256: "(256 :: byte) = 0"
  by simp

lemma low_byte: "LOBYTE (uint (word_of_int (MAKEWORD b h) :: dword)) = b"
proof -
  have "uint b < 256" "uint h < 256" "0 \<le> uint b" "0 \<le> uint h"
    using uint_bounded [of b] uint_bounded [of h] by simp_all
  then have "0 \<le> MAKEWORD b h" "MAKEWORD b h < 65536" unfolding MAKEWORD_sum by linarith+
  then have "uint (word_of_int (MAKEWORD b h) :: dword) = MAKEWORD b h"
    by (simp add: uint_word_of_int mod_pos_pos_trivial)
  moreover have "256 * h = 0" by (simp only: zero_256 mult_zero_left)
  ultimately show ?thesis by (simp add: LOBYTE_def MAKEWORD_sum)
qed

lemma low_bytes: "map (\<lambda>m. LOBYTE (uint (m_wParam m))) (keysym_notes h l bs) = bs"
  by (simp add: keysym_notes_def comp_def split_beta make_msg_def low_byte)

text \<open>C35.  A key whose symbol is a character beyond ASCII reaches the window as notifications \<open>MSG_KEYSYM\<close>
  that are numbered from 0, behind what waited before; their low bytes are the character in UTF-8.\<close>

theorem character_reaches_window:
  assumes "queue_of (m_hwnd pMsg) j g" "MG_IS_WINDOW g (m_hwnd pMsg)" "m_hwnd pMsg \<noteq> hwnd_desktop g"
    and "m_message pMsg = MSG_KEYDOWN \<or> m_message pMsg = MSG_SYSKEYDOWN"
    and "symbol kt (m_wParam pMsg) (m_lParam pMsg) = Some c" "HIBYTE (uint c) < 0xF0" "0x80 \<le> c"
  shows "\<exists>k' g' notes. TranslateMessage me kt pMsg (k, g) = Some (False, k', g')
    \<and> waiting_notes j g' = waiting_notes j g @ notes
    \<and> notes = keysym_notes (m_hwnd pMsg) (m_lParam pMsg) (utf8_conv_from_uc32 (uint c))
    \<and> utf8_conv_to_uc32 (mem (map (\<lambda>m. LOBYTE (uint (m_wParam m))) notes)) = uint c"
proof -
  let ?bs = "utf8_conv_from_uc32 (uint c)"
  have bs: "?bs = utf8_conv_from_uc32 (uint c)" "length ?bs \<le> 3" "\<nexists>b. ?bs = [b]"
    using assms(7) by (simp_all add: utf8_of_16_bits not_less [symmetric])
  then have "translate kt (m_message pMsg) (m_wParam pMsg) (m_lParam pMsg) (k\<lparr>kbuff := []\<rparr>)
      = Some (k\<lparr>kbuff := ?bs, shiftstate := m_lParam pMsg, oldstate := m_lParam pMsg, ktype := HIBYTE (uint c)\<rparr>)"
    using assms(6)
    by (simp add: press_symbol [OF assms(4,5)] on_status_def to_utf8_bytes puts_queue_room NR_BUFF_def Let_def)
  moreover have "utf8_conv_to_uc32 (mem ?bs) = uint c"
    using utf8_round_trip [of "uint c"] uint_bounded [of c] by simp
  moreover have "send_bytes me h l ?bs g = fold (\<lambda>(i, b). \<lambda>g. snd (SendNotifyMessage me h MSG_KEYSYM
      (word_of_int (MAKEWORD b (of_nat i))) l g)) (enumerate 0 ?bs) g" for h l
    using bs(3) by (simp add: send_bytes_def split: list.split)
  ultimately show ?thesis
    using assms(3) send_many [OF assms(1,2)] low_bytes by (simp add: TranslateMessage_def keysym_notes_def)
qed

lemma busy_window: "MG_IS_WINDOW busy_gui 5 \<and> 5 \<noteq> hwnd_desktop busy_gui"
  by (simp add: busy_gui_def MG_IS_WINDOW_def data_type_def) (simp add: demo_gui_def SendNotifyMessage_def PostMessage_def
    QueueMessage_def Let_def POST_MSGQ_def sem_post_def split: option.split prod.split)

theorem character_reaches_window_witness:
  "\<exists>k' g' notes. TranslateMessage 1 (init_default_kbd_layout\<lparr>key_maps := (\<lambda>_. Some (replicate 128 0x20AC))\<rparr>)
      (make_msg 5 MSG_KEYDOWN 18 0) (new_kinfo, busy_gui) = Some (False, k', g')
    \<and> waiting_notes 0 g' = waiting_notes 0 busy_gui @ notes
    \<and> notes = keysym_notes 5 0 [0xE2, 0x82, 0xAC]
    \<and> utf8_conv_to_uc32 (mem (map (\<lambda>m. LOBYTE (uint (m_wParam m))) notes)) = 0x20AC"
proof -
  let ?kt = "init_default_kbd_layout\<lparr>key_maps := (\<lambda>_. Some (replicate 128 0x20AC))\<rparr>"
  have "symbol ?kt 18 0 = Some 0x20AC" by (simp add: symbol_def sym_at_def NR_KEYS_def)
  moreover have "HIBYTE (uint (0x20AC :: 16 word)) < 0xF0" "utf8_conv_from_uc32 0x20AC = [0xE2, 0x82, 0xAC]"
    by code_simp+
  moreover have "MG_IS_WINDOW busy_gui 5" "5 \<noteq> hwnd_desktop busy_gui"
    using busy_window by simp_all
  ultimately show ?thesis
    using character_reaches_window [of "make_msg 5 MSG_KEYDOWN 18 0" 0 busy_gui ?kt "0x20AC" 1 new_kinfo] busy_gui_of
    by (simp add: make_msg_def)
qed

end
