(* ===== verification/Message_Wakeup.thy ===== *)
theory Message_Wakeup
  imports Message_Props
begin

section \<open>Messages: sleeping and waking\<close>

text \<open>
  A thread that finds nothing waits on the semaphore of its queue; a thread that gives it a
  message raises the semaphore only after it has released the queue's lock, and only if the
  semaphore looks zero at that moment.  The steps of such threads are a transition system in
  which \<open>POST_MSGQ\<close> is two steps, the reading of the semaphore and the raising, the pass of \<open>PeekMessageEx\<close> over the kinds of
  messages is a step for each kind, and, where unlocked accesses may be torn, \<open>PostQuitMessage\<close> is a step for each of its reads and
  writes, and so is the clearing of \<open>QS_SYNCMSG\<close> at the end of \<open>SendSyncMessage\<close>'s loop.
\<close>

text \<open>A writer is in the middle of \<open>PostQuitMessage\<close> with the count or the state word it has read, or has yet to raise the semaphore,
  or has read it.  A reader has looked at some kinds of messages, or is asleep, or is about to clear the bit, with the state
  word it has read.\<close>

datatype writer = Idle | QuitBegun int | QuitCounted | QuitSampled dword | Enqueued | Sampled nat
datatype reader = Running | Checking nat | Blocked | Clearing | Clears dword

record sys =
  sg :: gui
  rd :: reader
  wr :: "nat \<Rightarrow> writer"

text \<open>A message is there for the thread of the queue.\<close>

definition msg_ready :: "msgqueue \<Rightarrow> bool" where
  "msg_ready q \<longleftrightarrow>
     loop_depth q > 0 \<or> pFirstSyncMsg q \<noteq> None \<or> pFirstNotifyMsg q \<noteq> [] \<or> posted q \<noteq> [] \<or> has_flag q QS_PAINT"

text \<open>A message of the given kind is there and the state bit announces it: quit, synchronous, notification, posted, paint.\<close>

definition part_ready :: "nat \<Rightarrow> msgqueue \<Rightarrow> bool" where
  "part_ready i q \<longleftrightarrow>
     i = 0 \<and> has_flag q QS_QUIT
     \<or> i = 1 \<and> has_flag q QS_SYNCMSG \<and> pFirstSyncMsg q \<noteq> None
     \<or> i = 2 \<and> has_flag q QS_NOTIFYMSG \<and> pFirstNotifyMsg q \<noteq> []
     \<or> i = 3 \<and> has_flag q QS_POSTMSG \<and> readpos q \<noteq> writepos q
     \<or> i = 4 \<and> has_flag q QS_PAINT"

definition announced :: "msgqueue \<Rightarrow> bool" where
  "announced q \<longleftrightarrow> (\<exists>i < 5. part_ready i q)"

lemma announced_iff:
  "announced q \<longleftrightarrow> has_flag q QS_QUIT \<or> has_flag q QS_SYNCMSG \<and> pFirstSyncMsg q \<noteq> None
     \<or> has_flag q QS_NOTIFYMSG \<and> pFirstNotifyMsg q \<noteq> [] \<or> has_flag q QS_POSTMSG \<and> readpos q \<noteq> writepos q \<or> has_flag q QS_PAINT"
proof -
  have "(\<exists>i < (5::nat). P i) \<longleftrightarrow> P 0 \<or> P 1 \<or> P 2 \<or> P 3 \<or> P 4" for P
    by (auto simp: numeral_eq_Suc less_Suc_eq)
  then show ?thesis by (simp add: announced_def part_ready_def)
qed

text \<open>\<open>WaitMessage\<close> waits for the same, or for a timer.\<close>

lemma wait_ready_announced: "wait_ready q \<longleftrightarrow> announced q \<or> TimerMask q \<noteq> 0"
  unfolding wait_ready_def announced_iff by blast

lemma msg_ready_announced: "mq_ok q \<Longrightarrow> msg_ready q \<Longrightarrow> announced q"
  using posted_Nil [of q] unfolding announced_iff msg_ready_def by (auto simp: mq_ok_def has_flag_bit)

text \<open>The parts of the pass of \<open>PeekMessageEx\<close>.\<close>

definition peek_part :: "extern \<Rightarrow> nat \<Rightarrow> hwnd \<Rightarrow> nat \<Rightarrow> msg \<Rightarrow> gui \<Rightarrow> phase" where
  "peek_part ext k h i m g =
     (if i = 0 then peek_quit k h True m g
      else if i = 1 then peek_sync k (\<lambda>i. True) True m g
      else if i = 2 then peek_notify k (\<lambda>i. True) True m g
      else if i = 3 then peek_post ext k (\<lambda>i. True) True m g
      else if i = 4 then peek_paint ext k h (\<lambda>i. True) True m g
      else peek_timer ext k h (\<lambda>i. True) True m g)"

lemma pass_of_parts:
  "peek_pass ext k h (\<lambda>i. True) True m g
    = foldl (\<lambda>p i. andthen p (peek_part ext k h i)) (peek_part ext k h 0 m g) [1, 2, 3, 4, 5]"
proof -
  have "andthen (andthen p f) f' = andthen p (\<lambda>m g. andthen (f m g) f')" for p f f' by (cases p) simp_all
  then show ?thesis by (simp add: peek_pass_def peek_part_def [abs_def])
qed

text \<open>What the operations of other threads do to the queue under its lock.\<close>

inductive produce :: "msgqueue \<Rightarrow> msgqueue \<Rightarrow> bool" where
  produce_post: "queue_message q m = (True, q') \<Longrightarrow> produce q q'"
| produce_notify: "produce q (queue_notify q m)"
| produce_paint: "produce q (set_flag QS_PAINT q)"
| produce_quit: "produce q (set_flag QS_QUIT (q\<lparr>loop_depth := loop_depth q + 1\<rparr>))"
| produce_sync: "produce q (set_flag QS_SYNCMSG (q\<lparr>pFirstSyncMsg := a, pLastSyncMsg := b\<rparr>))"

definition no_timer_procs :: "gui \<Rightarrow> bool" where
  "no_timer_procs g \<longleftrightarrow> (\<forall>t. Some t \<in> set (timerstr g) \<longrightarrow> t_proc t = None)"

text \<open>
  A write of an unlocked access may be lost: a thread that holds the lock has read the word before it and writes it after it.
  Threads that work on something else (\<open>elsewhere\<close>) make no message of the queue ready and do not lower its semaphore.
\<close>

inductive sys_step :: "bool \<Rightarrow> extern \<Rightarrow> nat \<Rightarrow> hwnd \<Rightarrow> sys \<Rightarrow> sys \<Rightarrow> bool" for torn ext k h where
  enqueue: "wr s w = Idle \<Longrightarrow> produce (queues (sg s) k) q \<Longrightarrow>
     sys_step torn ext k h s (s\<lparr>sg := upd_queue k (\<lambda>_. q) (sg s), wr := (wr s)(w := Enqueued)\<rparr>)"
| sample: "wr s w = Enqueued \<Longrightarrow>
     sys_step torn ext k h s (s\<lparr>wr := (wr s)(w := Sampled (sems (sg s) (SemWait k)))\<rparr>)"
| signal: "wr s w = Sampled v \<Longrightarrow>
     sys_step torn ext k h s (s\<lparr>sg := (if v \<le> 0 then sem_post (SemWait k) (sg s) else sg s), wr := (wr s)(w := Idle)\<rparr>)"
| quit_read: "torn \<Longrightarrow> wr s w = Idle \<Longrightarrow>
     sys_step torn ext k h s (s\<lparr>wr := (wr s)(w := QuitBegun (loop_depth (queues (sg s) k)))\<rparr>)"
| quit_count: "torn \<Longrightarrow> wr s w = QuitBegun d \<Longrightarrow>
     sys_step torn ext k h s (s\<lparr>sg := upd_queue k (\<lambda>q. q\<lparr>loop_depth := d + 1\<rparr>) (sg s), wr := (wr s)(w := QuitCounted)\<rparr>)"
| quit_count_lost: "torn \<Longrightarrow> wr s w = QuitBegun d \<Longrightarrow> sys_step torn ext k h s (s\<lparr>wr := (wr s)(w := QuitCounted)\<rparr>)"
| quit_sample: "torn \<Longrightarrow> wr s w = QuitCounted \<Longrightarrow>
     sys_step torn ext k h s (s\<lparr>wr := (wr s)(w := QuitSampled (dwState (queues (sg s) k)))\<rparr>)"
| quit_store: "torn \<Longrightarrow> wr s w = QuitSampled v \<Longrightarrow>
     sys_step torn ext k h s (s\<lparr>sg := upd_queue k (\<lambda>q. q\<lparr>dwState := v OR QS_QUIT\<rparr>) (sg s), wr := (wr s)(w := Enqueued)\<rparr>)"
| quit_store_lost: "torn \<Longrightarrow> wr s w = QuitSampled v \<Longrightarrow> sys_step torn ext k h s (s\<lparr>wr := (wr s)(w := Enqueued)\<rparr>)"
| own: "rd s = Running \<Longrightarrow> (thread_step torn)\<^sup>*\<^sup>* (sg s) g \<Longrightarrow> sys_step torn ext k h s (s\<lparr>sg := g\<rparr>)"
| look: "rd s = Running \<Longrightarrow> sys_step torn ext k h s (s\<lparr>rd := Checking 0\<rparr>)"
| look_on: "rd s = Checking i \<Longrightarrow> i \<le> 5 \<Longrightarrow> no_timer_procs (sg s) \<Longrightarrow> peek_part ext k h i m (sg s) = Cont m' g \<Longrightarrow>
     sys_step torn ext k h s (s\<lparr>sg := g, rd := (if i = 5 then Blocked else Checking (Suc i))\<rparr>)"
| taken: "rd s = Checking i \<Longrightarrow> i \<le> 5 \<Longrightarrow> peek_part ext k h i m (sg s) = Ret r m' g \<Longrightarrow>
     sys_step torn ext k h s (s\<lparr>sg := g, rd := Running\<rparr>)"
| wake: "rd s = Blocked \<Longrightarrow> sems (sg s) (SemWait k) > 0 \<Longrightarrow>
     sys_step torn ext k h s
       (s\<lparr>sg := (sg s)\<lparr>sems := (sems (sg s))(SemWait k := sems (sg s) (SemWait k) - 1)\<rparr>, rd := Running\<rparr>)"
| clear_begin: "torn \<Longrightarrow> rd s = Running \<Longrightarrow> has_flag (queues (sg s) k) QS_SYNCMSG \<Longrightarrow> pFirstSyncMsg (queues (sg s) k) = None \<Longrightarrow>
     sys_step torn ext k h s (s\<lparr>rd := Clearing\<rparr>)"
| clear_read: "torn \<Longrightarrow> rd s = Clearing \<Longrightarrow> sys_step torn ext k h s (s\<lparr>rd := Clears (dwState (queues (sg s) k))\<rparr>)"
| clear_store: "torn \<Longrightarrow> rd s = Clears v \<Longrightarrow>
     sys_step torn ext k h s (s\<lparr>sg := upd_queue k (\<lambda>q. q\<lparr>dwState := v AND NOT QS_SYNCMSG\<rparr>) (sg s), rd := Running\<rparr>)"
| clear_lost: "torn \<Longrightarrow> rd s = Clears v \<Longrightarrow> sys_step torn ext k h s (s\<lparr>rd := Running\<rparr>)"
| elsewhere: "(thread_step torn)\<^sup>*\<^sup>* (sg s) g \<Longrightarrow> sems g (SemWait k) \<ge> sems (sg s) (SemWait k) \<Longrightarrow>
     \<forall>i < 5. part_ready i (queues g k) \<longrightarrow> part_ready i (queues (sg s) k) \<Longrightarrow>
     sys_step torn ext k h s (s\<lparr>sg := g\<rparr>)"

inductive_simps produce_iff: "produce q q'"

text \<open>The operations of another thread are an enqueuing followed by \<open>POST_MSGQ\<close>.\<close>

lemma posts_are_enqueue_then_signal:
  assumes "GetMsgQueue g h = Some k" "\<not> BE_THIS_THREAD g me h"
  shows "fst (PostMessage me h i w l g) = ERR_OK \<Longrightarrow>
      \<exists>q. produce (queues g k) q \<and> snd (PostMessage me h i w l g) = POST_MSGQ k (upd_queue k (\<lambda>_. q) g)"
    and "MG_IS_WINDOW g h \<Longrightarrow>
      \<exists>q. produce (queues g k) q \<and> snd (SendNotifyMessage me h i w l g) = POST_MSGQ k (upd_queue k (\<lambda>_. q) g)"
proof -
  have t: "\<not> BE_THIS_THREAD (upd_queue k f g) me h" for f
    using assms(2) windows_cong(4) [of "upd_queue k f g" g me h] by simp
  have u: "upd_queue k f g = upd_queue k (\<lambda>_. f (queues g k)) g" for f by (simp add: upd_queue_def)
  show "\<exists>q. produce (queues g k) q \<and> snd (PostMessage me h i w l g) = POST_MSGQ k (upd_queue k (\<lambda>_. q) g)"
    if ok: "fst (PostMessage me h i w l g) = ERR_OK"
  proof (cases "i = MSG_PAINT")
    case True
    then show ?thesis using assms(1) t u [of "set_flag QS_PAINT"] produce_paint by (auto simp: PostMessage_def Let_def)
  next
    case False
    obtain r q where rq: "queue_message (queues g k) (make_msg h i w l) = (r, q)" by fastforce
    then have "r" using ok assms(1) False by (auto simp: PostMessage_def QueueMessage_def Let_def split: if_splits)
    then have "produce (queues g k) q" using rq produce_post by simp
    moreover have "snd (PostMessage me h i w l g) = POST_MSGQ k (upd_queue k (\<lambda>_. q) g)"
      using rq \<open>r\<close> assms(1) False t by (simp add: PostMessage_def QueueMessage_def Let_def make_msg_def)
    ultimately show ?thesis by blast
  qed
  show "\<exists>q. produce (queues g k) q \<and> snd (SendNotifyMessage me h i w l g) = POST_MSGQ k (upd_queue k (\<lambda>_. q) g)"
    if "MG_IS_WINDOW g h"
    using that assms(1) t u [of "\<lambda>q. queue_notify q (make_msg h i w l)"] produce_notify
    by (auto simp: SendNotifyMessage_def Let_def)
qed

lemma produce_ok: "produce q q' \<Longrightarrow> mq_inv torn q \<Longrightarrow> mq_inv torn q'"
proof (induction rule: produce.induct)
  case (produce_post q m q')
  then show ?case using mq_ok_queue_message [of torn q m] by simp
qed (auto intro: mq_ok_flags)

subsection \<open>A pass that finds nothing leaves nothing behind\<close>

lemma timer_Cont:
  assumes "timers_ok g" "no_timer_procs g" "peek_timer ext k h (\<lambda>i. True) True m g = Cont m' g'"
  shows "g' = g \<or> g' = upd_queue k (\<lambda>q. q\<lparr>FirstTimerSlot := (FirstTimerSlot q + 1) mod DEF_NR_TIMERS\<rparr>) g"
proof -
  let ?f = "\<lambda>q. q\<lparr>FirstTimerSlot := (FirstTimerSlot q + 1) mod DEF_NR_TIMERS\<rparr>"
  have "t_proc t = None" if "mg_get_timer (upd_queue k ?f g) s = Some t" for s t
  proof -
    have "nat s < length (timerstr g)" "timerstr g ! nat s = Some t"
      using that assms(1) by (auto simp: mg_get_timer_def timers_ok_def split: if_splits)
    then have "Some t \<in> set (timerstr g)" by (metis nth_mem)
    then show ?thesis using assms(2) by (simp add: no_timer_procs_def)
  qed
  then show ?thesis using assms(3) by (auto simp: peek_timer_def Let_def split: if_splits option.splits)
qed

text \<open>A part that finds nothing leaves its kind not ready and makes no other kind ready.\<close>

lemma part_ready_cong:
  assumes "dwState q' = dwState q" "pFirstSyncMsg q' = pFirstSyncMsg q" "pFirstNotifyMsg q' = pFirstNotifyMsg q"
    "readpos q' = readpos q" "writepos q' = writepos q"
  shows "part_ready j q' = part_ready j q"
  using assms by (simp add: part_ready_def has_flag_def)

lemma has_flag_clear: "has_flag (clear_flag f q) i \<Longrightarrow> has_flag q i"
proof -
  have "(dwState q AND NOT f) AND i = (dwState q AND i) AND NOT f" by (simp add: ac_simps)
  then show "has_flag (clear_flag f q) i \<Longrightarrow> has_flag q i" by (auto simp: has_flag_def clear_flag_def)
qed

lemma part_ready_clear: "part_ready j (clear_flag f q) \<Longrightarrow> part_ready j q"
  using has_flag_clear [of f q] unfolding part_ready_def by simp blast

definition harmless :: "nat \<Rightarrow> nat \<Rightarrow> gui \<Rightarrow> gui \<Rightarrow> bool" where
  "harmless k i g g' \<longleftrightarrow> sems g' = sems g \<and> \<not> part_ready i (queues g' k)
     \<and> (\<forall>j. part_ready j (queues g' k) \<longrightarrow> part_ready j (queues g k))"

lemma harmless_same: "\<not> part_ready i (queues g k) \<Longrightarrow> harmless k i g g"
  by (simp add: harmless_def)

lemma harmless_clear:
  assumes "i = 1 \<and> f = QS_SYNCMSG \<or> i = 2 \<and> f = QS_NOTIFYMSG \<or> i = 3 \<and> f = QS_POSTMSG \<or> i = 4 \<and> f = QS_PAINT"
  shows "harmless k i g (upd_queue k (clear_flag f) g)"
proof -
  have "\<not> part_ready i (clear_flag f (queues g k))"
    using assms by (elim disjE conjE) (simp_all add: part_ready_def has_flag_bit flag_bits)
  moreover have "part_ready j (clear_flag f (queues g k)) \<longrightarrow> part_ready j (queues g k)" for j using part_ready_clear by blast
  ultimately show ?thesis by (simp add: harmless_def)
qed

lemma part_Cont:
  assumes "timers_ok g" "no_timer_procs g" "peek_part ext k h i m g = Cont m' g'"
  shows "harmless k i g g'"
proof -
  consider "i = 0" | "i = 1" | "i = 2" | "i = 3" | "i = 4" | "5 \<le> i" by linarith
  then show ?thesis
  proof cases
    case 1
    then have "g' = g \<and> \<not> has_flag (queues g k) QS_QUIT"
      using assms(3) by (auto simp: peek_part_def peek_quit_def split: if_splits)
    then show ?thesis using 1 by (auto intro!: harmless_same simp: part_ready_def)
  next
    case 2
    then have "g' = g \<and> \<not> has_flag (queues g k) QS_SYNCMSG \<or> g' = upd_queue k (clear_flag QS_SYNCMSG) g"
      using assms(3) by (auto simp: peek_part_def peek_sync_def Let_def split: if_splits option.splits)
    then show ?thesis using 2 by (auto intro!: harmless_same harmless_clear simp: part_ready_def)
  next
    case 3
    then have "g' = g \<and> \<not> has_flag (queues g k) QS_NOTIFYMSG \<or> g' = upd_queue k (clear_flag QS_NOTIFYMSG) g"
      using assms(3) by (auto simp: peek_part_def peek_notify_def Let_def split: if_splits list.splits)
    then show ?thesis using 3 by (auto intro!: harmless_same harmless_clear simp: part_ready_def)
  next
    case 4
    then have "g' = g \<and> \<not> has_flag (queues g k) QS_POSTMSG \<or> g' = upd_queue k (clear_flag QS_POSTMSG) g"
      using assms(3) by (auto simp: peek_part_def peek_post_def Let_def split: if_splits)
    then show ?thesis using 4 by (auto intro!: harmless_same harmless_clear simp: part_ready_def)
  next
    case 5
    then have "g' = g \<and> \<not> has_flag (queues g k) QS_PAINT \<or> g' = upd_queue k (clear_flag QS_PAINT) g"
      using assms(3) by (auto simp: peek_part_def peek_paint_def Let_def split: if_splits)
    then show ?thesis using 5 by (auto intro!: harmless_same harmless_clear simp: part_ready_def)
  next
    case 6
    let ?f = "\<lambda>q. q\<lparr>FirstTimerSlot := (FirstTimerSlot q + 1) mod DEF_NR_TIMERS\<rparr>"
    have "peek_timer ext k h (\<lambda>i. True) True m g = Cont m' g'" using assms(3) 6 by (simp add: peek_part_def)
    then have "g' = g \<or> g' = upd_queue k ?f g" by (rule timer_Cont [OF assms(1,2)])
    moreover have "part_ready j (?f q) = part_ready j q" for j q by (rule part_ready_cong) simp_all
    moreover have "\<not> part_ready i q" for q using 6 by (auto simp: part_ready_def)
    ultimately show ?thesis by (auto simp: harmless_def)
  qed
qed

lemma peek_part_ok:
  assumes "gui_inv torn g" "callbacks_step torn ext"
  shows "gui_inv torn (phase_gui (peek_part ext k h i m g))"
  using peek_parts_ok [OF assms(1)] peek_timer_ok [OF assms] by (simp add: peek_part_def)

subsection \<open>No lost wake-up\<close>

definition waking :: "nat \<Rightarrow> sys \<Rightarrow> bool" where
  "waking k s \<longleftrightarrow> sems (sg s) (SemWait k) > 0 \<or> (\<exists>w. wr s w = Enqueued \<or> wr s w = Sampled 0)"

text \<open>How many kinds of messages the reader has found absent.\<close>

fun looked :: "reader \<Rightarrow> nat" where
  "looked Blocked = 5"
| "looked (Checking i) = i"
| "looked r = 0"

definition awake_inv :: "bool \<Rightarrow> nat \<Rightarrow> sys \<Rightarrow> bool" where
  "awake_inv torn k s \<longleftrightarrow>
     gui_inv torn (sg s) \<and> (\<forall>j < looked (rd s). part_ready j (queues (sg s) k) \<longrightarrow> waking k s)"

lemma part_ready_words [simp]: "part_ready j (q\<lparr>loop_depth := d\<rparr>) = part_ready j q"
  by (simp add: part_ready_def has_flag_def)

text \<open>A writer that was not about to raise the semaphore moves on.\<close>

lemma waking_writer:
  assumes "waking k s" "wr s w \<noteq> Enqueued" "wr s w \<noteq> Sampled 0" "sems (sg s') (SemWait k) = sems (sg s) (SemWait k)"
    "wr s' = (wr s)(w := x)"
  shows "waking k s'"
proof -
  have "wr s' v = wr s v" if "wr s v = Enqueued \<or> wr s v = Sampled 0" for v using that assms(2,3,5) by auto
  then show ?thesis using assms(1,4) unfolding waking_def by metis
qed

text \<open>A step keeps the invariant when it makes nothing ready, or leaves a writer about to signal, or the reader at the start.\<close>

lemma awake_keep:
  assumes "awake_inv torn k s" "gui_inv torn (sg s')" "rd s' = rd s" "waking k s \<Longrightarrow> waking k s'"
    "\<And>j. part_ready j (queues (sg s') k) \<Longrightarrow> part_ready j (queues (sg s) k)"
  shows "awake_inv torn k s'"
  using assms unfolding awake_inv_def by metis

lemma awake_move:
  assumes "awake_inv torn k s" "wr s w \<noteq> Enqueued" "wr s w \<noteq> Sampled 0" "gui_inv torn g"
    "sems g (SemWait k) = sems (sg s) (SemWait k)" "\<And>j. part_ready j (queues g k) \<Longrightarrow> part_ready j (queues (sg s) k)"
  shows "awake_inv torn k (s\<lparr>sg := g, wr := (wr s)(w := x)\<rparr>)"
proof (rule awake_keep [OF assms(1)])
  show "waking k s \<Longrightarrow> waking k (s\<lparr>sg := g, wr := (wr s)(w := x)\<rparr>)"
    by (rule waking_writer [of k s w]) (use assms(2,3,5) in simp_all)
qed (use assms(4,6) in simp_all)

lemma awake_move_only:
  assumes "awake_inv torn k s" "wr s w \<noteq> Enqueued" "wr s w \<noteq> Sampled 0"
  shows "awake_inv torn k (s\<lparr>wr := (wr s)(w := x)\<rparr>)"
proof -
  have "gui_inv torn (sg s)" using assms(1) by (simp add: awake_inv_def)
  from awake_move [OF assms this refl, of x] show ?thesis by simp
qed

lemma awake_waking: "gui_inv torn (sg s') \<Longrightarrow> waking k s' \<Longrightarrow> awake_inv torn k s'"
  by (simp add: awake_inv_def)

lemma awake_start: "gui_inv torn (sg s') \<Longrightarrow> looked (rd s') = 0 \<Longrightarrow> awake_inv torn k s'"
  by (simp add: awake_inv_def)

lemma awake_inv_step:
  assumes "sys_step torn ext k h s s'" "callbacks_step torn ext" "awake_inv torn k s"
  shows "awake_inv torn k s'"
  using assms
proof (induction rule: sys_step.induct)
  case (enqueue s w q)
  have "mq_inv torn q" using produce_ok enqueue by (auto simp: awake_inv_def gui_inv_def)
  then have "gui_inv torn (upd_queue k (\<lambda>_. q) (sg s))" using enqueue gui_ok_queue [of torn "sg s" "\<lambda>_. q" k] by (simp add: awake_inv_def)
  then show ?case by (intro awake_waking) (auto simp: waking_def)
next
  case (sample s w)
  have "waking k (s\<lparr>wr := (wr s)(w := Sampled (sems (sg s) (SemWait k)))\<rparr>)"
    by (cases "sems (sg s) (SemWait k)") (auto simp: waking_def)
  then show ?case using sample by (intro awake_waking) (simp_all add: awake_inv_def)
next
  case (signal s w v)
  show ?case
  proof (cases "v = 0")
    case True
    have "gui_inv torn (sem_post (SemWait k) (sg s))" using signal post_ok(5) by (simp add: awake_inv_def)
    then show ?thesis using True by (intro awake_waking) (simp_all add: waking_def)
  next
    case False
    then show ?thesis using awake_move_only [OF signal(3), of w Idle] signal(1) by simp
  qed
next
  case (quit_read s w)
  then show ?case
    using awake_move_only [OF quit_read(4), of w] by simp
next
  case (quit_count s w d)
  have "gui_inv torn (upd_queue k (\<lambda>q. q\<lparr>loop_depth := d + 1\<rparr>) (sg s))"
    using quit_count gui_torn_words(2) by (simp add: awake_inv_def)
  then show ?case using quit_count(2) by (intro awake_move [OF quit_count(4)]) simp_all
next
  case (quit_count_lost s w d)
  then show ?case
    using awake_move_only [OF quit_count_lost(4), of w] by simp
next
  case (quit_sample s w)
  then show ?case
    using awake_move_only [OF quit_sample(4), of w] by simp
next
  case (quit_store s w v)
  have "gui_inv torn (upd_queue k (\<lambda>q. q\<lparr>dwState := v OR QS_QUIT\<rparr>) (sg s))"
    using quit_store gui_torn_words(1) by (simp add: awake_inv_def)
  then show ?case by (intro awake_waking) (auto simp: waking_def)
next
  case (quit_store_lost s w v)
  then show ?case by (intro awake_waking) (auto simp: awake_inv_def waking_def)
next
  case (own s g)
  then show ?case using gsteps_ok by (intro awake_start) (auto simp: awake_inv_def)
next
  case (look_on s i m m' g)
  have ok: "gui_inv torn (sg s)" "gui_inv torn g" and t: "timers_ok (sg s)"
    using look_on peek_part_ok [of torn "sg s" ext k h i m] by (simp_all add: awake_inv_def gui_inv_def)
  have part: "sems g = sems (sg s)" "\<not> part_ready i (queues g k)" "part_ready j (queues g k) \<Longrightarrow> part_ready j (queues (sg s) k)" for j
    using part_Cont [OF t look_on(3,4)] by (simp_all add: harmless_def)
  let ?s = "s\<lparr>sg := g, rd := (if i = 5 then Blocked else Checking (Suc i))\<rparr>"
  have "waking k ?s" if "j < looked (rd ?s)" "part_ready j (queues g k)" for j
  proof -
    have "j \<noteq> i" using part(2) that(2) by blast
    moreover have "j < Suc i \<or> i = 5 \<and> j < 5" using that(1) by (simp split: if_splits)
    ultimately have "j < looked (rd s)" using look_on(1) by auto
    then have "waking k s" using look_on(6) part(3) [OF that(2)] by (simp add: awake_inv_def)
    then show ?thesis using part(1) by (simp add: waking_def)
  qed
  then show ?case using ok unfolding awake_inv_def by simp
next
  case (taken s i m r m' g)
  then show ?case using peek_part_ok [of torn "sg s" ext k h i m] by (intro awake_start) (simp_all add: awake_inv_def)
next
  case (wake s)
  have "gui_inv torn ((sg s)\<lparr>sems := f\<rparr>)" for f using wake gui_ok_cong [of torn "sg s" "(sg s)\<lparr>sems := f\<rparr>"] by (simp add: awake_inv_def)
  then show ?case by (intro awake_start) simp_all
next
  case (clear_store s v)
  then show ?case using gui_torn_words(1) by (intro awake_start) (simp_all add: awake_inv_def)
next
  case (elsewhere s g)
  have "waking k s \<Longrightarrow> waking k (s\<lparr>sg := g\<rparr>)" using elsewhere(2) by (auto simp: waking_def)
  moreover have "part_ready j (queues g k) \<Longrightarrow> part_ready j (queues (sg s) k)" for j
    using elsewhere(3) by (cases "j < 5") (auto simp: part_ready_def)
  ultimately show ?case using elsewhere(1,5) gsteps_ok by (intro awake_keep [OF elsewhere(5)]) (auto simp: awake_inv_def)
qed (simp_all add: awake_inv_def)

text \<open>
  C27.  No wake-up is lost: when the thread of a queue is asleep on the semaphore of its queue although a message that its state bit
  announces is there, the semaphore is positive, or some other thread has yet to raise it.  This holds in every
  interleaving of the reading and the raising of the semaphore, of the parts of the pass over the queue and of the reads and
  writes of the accesses without the lock, by any number of threads, as long as no timer has a callback.  When unlocked accesses
  are not torn, it holds of every message that is there, announced or not; when they are, a message may be there that
  no bit announces and that wakes nobody (\<open>unlocked_clear_loses_message\<close>).
\<close>

theorem no_lost_wakeup:
  assumes "(sys_step torn ext k h)\<^sup>*\<^sup>* s0 s" and "callbacks_step torn ext" and "gui_inv torn (sg s0)" and "rd s0 = Running"
    and "rd s = Blocked" and "announced (queues (sg s) k) \<or> \<not> torn \<and> msg_ready (queues (sg s) k)"
  shows "sems (sg s) (SemWait k) > 0 \<or> (\<exists>w. wr s w = Enqueued \<or> wr s w = Sampled 0)"
proof -
  have "awake_inv torn k s0" using assms(3,4) by (simp add: awake_inv_def)
  with assms(1) have inv: "awake_inv torn k s"
    by (induction rule: rtranclp_induct) (auto intro: awake_inv_step [OF _ assms(2)])
  then have "announced (queues (sg s) k)"
    using assms(6) msg_ready_announced by (auto simp: awake_inv_def gui_inv_def)
  then show ?thesis using inv assms(5) by (auto simp: awake_inv_def announced_def waking_def)
qed

text \<open>A window of thread 0 with the queue 0, and nothing else.\<close>

definition idle_gui :: gui where
  "idle_gui = demo_gui\<lparr>wins := (\<lambda>h. if h = 5 then Some \<lparr>DataType = TYPE_HWND, is_main = True, w_pMainWin = 5,
     w_pMessages = Some 0, w_th = 0, MainWindowProc = Some 0\<rparr> else None)\<rparr>"

lemma idle_gui_ok: "gui_ok idle_gui"
  using demo_gui_ok by (rule gui_ok_cong) (simp_all add: idle_gui_def)

lemma idle_gui_parts: "peek_part demo_ext 0 5 i zero_msg idle_gui = Cont zero_msg idle_gui"
  by (simp add: peek_part_def peek_quit_def peek_sync_def peek_notify_def peek_post_def peek_paint_def
      peek_timer_def has_flag_def idle_gui_def demo_gui_def InitMsgQueue_def QS_EMPTY_def Let_def)

lemma idle_gui_timers: "no_timer_procs idle_gui"
  by (auto simp: no_timer_procs_def idle_gui_def demo_gui_def demo_timer_def)

text \<open>A thread whose pass finds nothing falls asleep.\<close>

lemma falls_asleep:
  assumes "no_timer_procs g" "\<And>i. i \<le> 5 \<Longrightarrow> peek_part ext k h i m g = Cont m g"
  shows "(sys_step torn ext k h)\<^sup>*\<^sup>* \<lparr>sg = g, rd = Running, wr = ws\<rparr> \<lparr>sg = g, rd = Blocked, wr = ws\<rparr>"
proof -
  let ?s = "\<lambda>r. \<lparr>sg = g, rd = r, wr = ws\<rparr>"
  have part: "sys_step torn ext k h (?s (Checking i)) (?s (if i = 5 then Blocked else Checking (Suc i)))" if "i \<le> 5" for i
    using look_on [of "?s (Checking i)" i ext k h m m g torn] assms that by simp
  have "(sys_step torn ext k h)\<^sup>*\<^sup>* (?s Running) (?s (Checking i))" if "i \<le> 5" for i
    using that
  proof (induction i)
    case 0
    then show ?case using look [of "?s Running" torn ext k h] by auto
  next
    case (Suc i)
    then have "(sys_step torn ext k h)\<^sup>*\<^sup>* (?s Running) (?s (Checking i))" by simp
    moreover have "sys_step torn ext k h (?s (Checking i)) (?s (Checking (Suc i)))" using part [of i] Suc.prems by simp
    ultimately show ?case by (rule rtranclp.rtrancl_into_rtrancl)
  qed
  from this [of 5] show ?thesis using part [of 5] by (simp add: rtranclp.rtrancl_into_rtrancl)
qed

theorem no_lost_wakeup_witness:
  "let q = snd (queue_message (queues idle_gui 0) (make_msg 5 20 1 2));
       s = \<lparr>sg = upd_queue 0 (\<lambda>_. q) idle_gui, rd = Blocked, wr = (\<lambda>w. Idle)(1 := Sampled 0)\<rparr>
   in \<exists>w. wr s w = Enqueued \<or> wr s w = Sampled 0"
proof -
  let ?s0 = "\<lparr>sg = idle_gui, rd = Running, wr = \<lambda>w. Idle\<rparr>"
  let ?r = "queue_message (queues idle_gui 0) (make_msg 5 20 1 2)"
  let ?s1 = "\<lparr>sg = idle_gui, rd = Blocked, wr = \<lambda>w. Idle\<rparr>"
  let ?s2 = "\<lparr>sg = upd_queue 0 (\<lambda>_. snd ?r) idle_gui, rd = Blocked, wr = (\<lambda>w. Idle)(1 := Enqueued)\<rparr>"
  let ?s3 = "\<lparr>sg = upd_queue 0 (\<lambda>_. snd ?r) idle_gui, rd = Blocked, wr = (\<lambda>w. Idle)(1 := Sampled 0)\<rparr>"
  have ring: "ring_ok (queues idle_gui 0)" using idle_gui_ok by (simp add: gui_ok_def mq_ok_def)
  have z: "sems idle_gui s = 0" "posted (queues idle_gui 0) = []" "qlen (queues idle_gui 0) = 4" for s
    using posted_Nil [OF ring] by (simp_all add: idle_gui_def demo_gui_def InitMsgQueue_def)
  have r: "(fst ?r, posted (snd ?r)) = (True, [make_msg 5 20 1 2])"
    using queue_message_refines(2) [OF ring, of "make_msg 5 20 1 2"] z
    by (simp add: post_spec_def is_move_def is_tick_def make_msg_def)
  have "?r = (True, snd ?r)" using r by (intro prod_eqI) simp_all
  then have p: "produce (queues idle_gui 0) (snd ?r)" by (rule produce_post)
  have "(sys_step False demo_ext 0 5)\<^sup>*\<^sup>* ?s0 ?s1" using falls_asleep [OF idle_gui_timers idle_gui_parts] .
  moreover have "sys_step False demo_ext 0 5 ?s1 ?s2" using enqueue [of ?s1 1 0 "snd ?r" False demo_ext 5] p by simp
  moreover have "sys_step False demo_ext 0 5 ?s2 ?s3" using sample [of ?s2 1 False demo_ext 0 5] z(1) by simp
  ultimately have "(sys_step False demo_ext 0 5)\<^sup>*\<^sup>* ?s0 ?s3" by (meson rtranclp.rtrancl_into_rtrancl)
  from no_lost_wakeup [OF this demo_ext_steps] idle_gui_ok r z(1) show ?thesis
    by (simp add: msg_ready_def Let_def)
qed

subsection \<open>A message lost to the unlocked clear\<close>

text \<open>
  The thread of window 5 has the synchronous bit set and nothing in its list when it sends a message: it releases the lock and reads
  the state word.  Another thread queues a synchronous message, sets the bit and raises the semaphore; then the first thread writes the
  word back without the bit.
\<close>

definition flagged_gui :: gui where
  "flagged_gui = upd_queue 0 (\<lambda>q. q\<lparr>dwState := QS_SYNCMSG\<rparr>) idle_gui"

definition sent_gui :: gui where
  "sent_gui = upd_queue 0 (\<lambda>q. set_flag QS_SYNCMSG (q\<lparr>pFirstSyncMsg := Some 7, pLastSyncMsg := Some 7\<rparr>)) flagged_gui"

definition lost_gui :: gui where
  "lost_gui = upd_queue 0 (\<lambda>q. q\<lparr>dwState := QS_SYNCMSG AND NOT QS_SYNCMSG\<rparr>) sent_gui"

lemma lost_gui_facts:
  "queues lost_gui 0 = (queues idle_gui 0)\<lparr>dwState := 0, pFirstSyncMsg := Some 7, pLastSyncMsg := Some 7\<rparr>"
  "dwState (queues flagged_gui 0) = QS_SYNCMSG" "pFirstSyncMsg (queues flagged_gui 0) = None"
  "sems lost_gui s = 0" "sems sent_gui s = 0" "timerstr lost_gui = timerstr idle_gui"
  by (simp_all add: lost_gui_def sent_gui_def flagged_gui_def set_flag_def idle_gui_def demo_gui_def InitMsgQueue_def QS_SYNCMSG_def)

lemma lost_gui_parts:
  assumes "queues g = queues lost_gui"
  shows "peek_part demo_ext 0 5 i zero_msg g = Cont zero_msg g"
  by (simp add: assms lost_gui_facts peek_part_def peek_quit_def peek_sync_def peek_notify_def peek_post_def peek_paint_def
      peek_timer_def has_flag_def Let_def)
    (simp add: idle_gui_def demo_gui_def InitMsgQueue_def)

text \<open>
  The clear without the lock loses a message: the thread sleeps, a synchronous message is in its list, the semaphore is zero and every
  other thread is done; the sender of the message waits as well, until something else wakes the thread and sets the bit.
\<close>

theorem unlocked_clear_loses_message:
  "\<exists>s. (sys_step True demo_ext 0 5)\<^sup>*\<^sup>* \<lparr>sg = flagged_gui, rd = Running, wr = \<lambda>w. Idle\<rparr> s
     \<and> rd s = Blocked \<and> msg_ready (queues (sg s) 0) \<and> \<not> announced (queues (sg s) 0)
     \<and> sems (sg s) (SemWait 0) = 0 \<and> (\<forall>w. wr s w = Idle)"
proof -
  define st where "st g r x = \<lparr>sg = g, rd = r, wr = (\<lambda>w. Idle)(1 := x)\<rparr>" for g r x
  note [simp] = st_def
  have idle: "(\<lambda>w. Idle)(n := Idle) = (\<lambda>w. Idle)" for n :: nat by (simp add: fun_eq_iff)
  let ?S = "sys_step True demo_ext 0 5"
  let ?raised = "sem_post (SemWait 0)"
  have raised: "upd_queue 0 (\<lambda>q. q\<lparr>dwState := QS_SYNCMSG AND NOT QS_SYNCMSG\<rparr>) (?raised sent_gui) = ?raised lost_gui"
    unfolding lost_gui_def upd_queue_def sem_post_def by simp
  have "(sems lost_gui)(SemWait 0 := 0) = sems lost_gui" using lost_gui_facts(4) by (simp add: fun_upd_idem)
  then have lowered: "(?raised lost_gui)\<lparr>sems := (sems lost_gui)(SemWait 0 := 0)\<rparr> = lost_gui" by (simp add: sem_post_def)
  have no_procs: "no_timer_procs g" if "timerstr g = timerstr idle_gui" for g
    using that idle_gui_timers by (simp add: no_timer_procs_def)
  have p: "produce (queues flagged_gui 0) (set_flag QS_SYNCMSG ((queues flagged_gui 0)\<lparr>pFirstSyncMsg := Some 7, pLastSyncMsg := Some 7\<rparr>))"
    by (rule produce_sync)
  have "?S (st flagged_gui Running Idle) (st flagged_gui Clearing Idle)"
    using clear_begin [of True "st flagged_gui Running Idle" 0 demo_ext 5] lost_gui_facts(2,3) by (simp add: has_flag_def QS_SYNCMSG_def)
  moreover have "?S (st flagged_gui Clearing Idle) (st flagged_gui (Clears QS_SYNCMSG) Idle)"
    using clear_read [of True "st flagged_gui Clearing Idle" demo_ext 0 5] lost_gui_facts(2) by simp
  moreover have "?S (st flagged_gui (Clears QS_SYNCMSG) Idle) (st sent_gui (Clears QS_SYNCMSG) Enqueued)"
    using enqueue [of "st flagged_gui (Clears QS_SYNCMSG) Idle" 1 0
        "set_flag QS_SYNCMSG ((queues flagged_gui 0)\<lparr>pFirstSyncMsg := Some 7, pLastSyncMsg := Some 7\<rparr>)" True demo_ext 5] p
    by (simp add: sent_gui_def upd_queue_def)
  moreover have "?S (st sent_gui (Clears QS_SYNCMSG) Enqueued) (st sent_gui (Clears QS_SYNCMSG) (Sampled 0))"
    using sample [of "st sent_gui (Clears QS_SYNCMSG) Enqueued" 1 True demo_ext 0 5] lost_gui_facts(5) by simp
  moreover have "?S (st sent_gui (Clears QS_SYNCMSG) (Sampled 0)) (st (?raised sent_gui) (Clears QS_SYNCMSG) Idle)"
    using signal [of "st sent_gui (Clears QS_SYNCMSG) (Sampled 0)" 1 0 True demo_ext 0 5] by simp
  moreover have "?S (st (?raised sent_gui) (Clears QS_SYNCMSG) Idle) (st (?raised lost_gui) Running Idle)"
    using clear_store [of True "st (?raised sent_gui) (Clears QS_SYNCMSG) Idle" QS_SYNCMSG demo_ext 0 5] raised by simp
  moreover have "?S\<^sup>*\<^sup>* (st (?raised lost_gui) Running Idle) (st (?raised lost_gui) Blocked Idle)"
    using falls_asleep [OF no_procs lost_gui_parts, of "?raised lost_gui"] lost_gui_facts(6) by simp
  moreover have "?S (st (?raised lost_gui) Blocked Idle) (st lost_gui Running Idle)"
    using wake [of "st (?raised lost_gui) Blocked Idle" 0 True demo_ext 5] lost_gui_facts(4) lowered by simp
  moreover have "?S\<^sup>*\<^sup>* (st lost_gui Running Idle) (st lost_gui Blocked Idle)"
    using falls_asleep [OF no_procs lost_gui_parts, of lost_gui] lost_gui_facts(6) by simp
  ultimately have "?S\<^sup>*\<^sup>* (st flagged_gui Running Idle) (st lost_gui Blocked Idle)"
    by (meson converse_rtranclp_into_rtranclp rtranclp_trans)
  moreover have "\<not> announced (queues lost_gui 0)" by (simp add: announced_iff lost_gui_facts(1) has_flag_def) 
  moreover have "msg_ready (queues lost_gui 0)" by (simp add: msg_ready_def lost_gui_facts(1))
  ultimately show ?thesis using lost_gui_facts(4) idle by (intro exI [of _ "st lost_gui Blocked Idle"]) simp
qed

subsection \<open>A wake-up lost in a timer callback\<close>

text \<open>
  The timer of window 5 has a callback that posts a message to its own window, from the thread
  of the window; \<open>PostMessage\<close> does not raise the semaphore for a thread's own messages.
\<close>

definition posting_ext :: extern where
  "posting_ext = demo_ext\<lparr>timer_proc := (\<lambda>p h i t g. (True, snd (PostMessage 0 h 0x800 1 2 g)))\<rparr>"

definition fired_gui :: gui where
  "fired_gui = (upd_queue 0 (\<lambda>q. q\<lparr>TimerMask := 1\<rparr>) idle_gui)
     \<lparr>timerstr := Some (demo_timer\<lparr>t_hWnd := 5, t_proc := Some 0\<rparr>) # replicate 31 None\<rparr>"

definition after_callback :: gui where
  "after_callback = phase_gui (peek_pass posting_ext 0 5 (IS_MSG_WANTED 0 0) True zero_msg fired_gui)"

lemma fired_pass:
  "peek_pass posting_ext 0 5 want True m fired_gui =
     (if want MSG_TIMER then peek_timer posting_ext 0 5 want True m fired_gui else Cont m fired_gui)"
  by (simp add: peek_pass_def peek_quit_def peek_sync_def peek_notify_def peek_post_def peek_paint_def
      has_flag_def fired_gui_def idle_gui_def demo_gui_def InitMsgQueue_def QS_EMPTY_def Let_def peek_timer_def)

lemma fired_slot: "slot_search DEF_NR_TIMERS 1 0 0 = 0"
  by (simp add: DEF_NR_TIMERS_def numeral_eq_Suc slot_bit_def)

lemma fired_post:
  assumes "wins g = wins idle_gui" "hwnd_desktop g = hwnd_desktop idle_gui" "ring_ok (queues g 0)"
    "posted (queues g 0) = []" "qlen (queues g 0) = 4"
  shows "posted (queues (snd (PostMessage 0 5 0x800 1 2 g)) 0) = [make_msg 5 0x800 1 2]"
    "has_flag (queues (snd (PostMessage 0 5 0x800 1 2 g)) 0) QS_POSTMSG"
    "ring_ok (queues (snd (PostMessage 0 5 0x800 1 2 g)) 0)"
    "sems (snd (PostMessage 0 5 0x800 1 2 g)) = sems g"
    "wins (snd (PostMessage 0 5 0x800 1 2 g)) = wins g"
    "hwnd_desktop (snd (PostMessage 0 5 0x800 1 2 g)) = hwnd_desktop g"
proof -
  let ?r = "queue_message (queues g 0) (make_msg 5 0x800 1 2)"
  have w: "wins idle_gui 5 = Some \<lparr>DataType = TYPE_HWND, is_main = True, w_pMainWin = 5,
     w_pMessages = Some 0, w_th = 0, MainWindowProc = Some 0\<rparr>" by (simp add: idle_gui_def)
  have here: "GetMsgQueue g 5 = Some 0" "BE_THIS_THREAD g 0 5"
    using assms(1) w by (simp_all add: GetMsgQueue_def BE_THIS_THREAD_def getMainWindowPtr_def MG_IS_WINDOW_def
        data_type_def Let_def)
  have this_thread: "BE_THIS_THREAD (upd_queue 0 f g) 0 5" for f
    using here(2) windows_cong(4) [of "upd_queue 0 f g" g 0 5] by simp
  have r: "(fst ?r, posted (snd ?r)) = (True, [make_msg 5 0x800 1 2])"
    using queue_message_refines(2) [OF assms(3), of "make_msg 5 0x800 1 2"] assms(4,5)
    by (simp add: post_spec_def is_move_def is_tick_def make_msg_def)
  have "snd (PostMessage 0 5 0x800 1 2 g) = upd_queue 0 (\<lambda>_. snd ?r) g"
    using here this_thread r by (auto simp: PostMessage_def QueueMessage_def Let_def make_msg_def split: prod.splits)
  then show "posted (queues (snd (PostMessage 0 5 0x800 1 2 g)) 0) = [make_msg 5 0x800 1 2]"
    "has_flag (queues (snd (PostMessage 0 5 0x800 1 2 g)) 0) QS_POSTMSG"
    "ring_ok (queues (snd (PostMessage 0 5 0x800 1 2 g)) 0)"
    "sems (snd (PostMessage 0 5 0x800 1 2 g)) = sems g"
    "wins (snd (PostMessage 0 5 0x800 1 2 g)) = wins g"
    "hwnd_desktop (snd (PostMessage 0 5 0x800 1 2 g)) = hwnd_desktop g"
    using r posted_flag [of "queues g 0" "make_msg 5 0x800 1 2"] queue_message_refines(1) [OF assms(3)] by simp_all
qed

definition before_callback :: gui where
  "before_callback =
     RemoveMsgQueueTimerFlag 0 0 (set_timer 0 (Some (demo_timer\<lparr>t_hWnd := 5, t_proc := Some 0\<rparr>))
       (upd_queue 0 (\<lambda>q. q\<lparr>FirstTimerSlot := 1\<rparr>) fired_gui))"

lemma fired_callback:
  "peek_pass posting_ext 0 5 (IS_MSG_WANTED 0 0) True zero_msg fired_gui =
     Cont zero_msg (snd (PostMessage 0 5 0x800 1 2 before_callback))"
proof -
  have "TimerMask (queues fired_gui 0) = 1" "FirstTimerSlot (queues fired_gui 0) = 0" "hwnd_desktop fired_gui = 1"
    by (simp_all add: fired_gui_def idle_gui_def demo_gui_def InitMsgQueue_def)
  moreover have "mg_get_timer (upd_queue 0 f fired_gui) 0 = Some (demo_timer\<lparr>t_hWnd := 5, t_proc := Some 0\<rparr>)" for f
    by (simp add: mg_get_timer_def fired_gui_def DEF_NR_TIMERS_def)
  moreover have "timer_proc posting_ext p h i t g = (True, snd (PostMessage 0 h 0x800 1 2 g))" for p h i t g
    by (simp add: posting_ext_def)
  moreover have "upd_queue 0 (\<lambda>q. q\<lparr>FirstTimerSlot := (FirstTimerSlot q + 1) mod DEF_NR_TIMERS\<rparr>) fired_gui =
      upd_queue 0 (\<lambda>q. q\<lparr>FirstTimerSlot := 1\<rparr>) fired_gui"
    using calculation(2) by (simp add: upd_queue_def DEF_NR_TIMERS_def)
  moreover have "IS_MSG_WANTED 0 0 i" for i by (simp add: IS_MSG_WANTED_def)
  ultimately show ?thesis
    unfolding fired_pass peek_timer_def Let_def fired_slot before_callback_def by (simp add: fired_slot demo_timer_def)
qed

lemma before_callback_queue:
  "wins before_callback = wins idle_gui" "hwnd_desktop before_callback = hwnd_desktop idle_gui"
  "ring_ok (queues before_callback 0)" "posted (queues before_callback 0) = []" "qlen (queues before_callback 0) = 4"
  "sems before_callback s = 0"
proof -
  show r: "ring_ok (queues before_callback 0)"
    by (simp add: ring_ok_def before_callback_def RemoveMsgQueueTimerFlag_def set_timer_def fired_gui_def idle_gui_def
        demo_gui_def InitMsgQueue_def)
  show "posted (queues before_callback 0) = []"
    unfolding posted_Nil [OF r]
    by (simp add: before_callback_def RemoveMsgQueueTimerFlag_def set_timer_def fired_gui_def idle_gui_def
        demo_gui_def InitMsgQueue_def)
qed (simp_all add: before_callback_def RemoveMsgQueueTimerFlag_def set_timer_def fired_gui_def idle_gui_def
    demo_gui_def InitMsgQueue_def)

lemma after_callback_eq: "after_callback = snd (PostMessage 0 5 0x800 1 2 before_callback)"
  by (simp add: after_callback_def fired_callback)

text \<open>
  \<open>GetMessage\<close> sleeps although a message is there: after a timer callback it waits on the
  semaphore without looking at the queue again, so the message the callback has posted to
  its own window is not delivered until some other event raises the semaphore.
\<close>

theorem GetMessage_sleeps_after_callback:
  "GetMessage posting_ext 0 5 [] zero_msg fired_gui = None
   \<and> posted (queues after_callback 0) = [make_msg 5 0x800 1 2]
   \<and> HavePendingMessage 0 5 after_callback \<and> sems after_callback (SemWait 0) = 0"
proof -
  note post = fired_post [OF before_callback_queue(1-5), folded after_callback_eq]
  have z: "sems after_callback (SemWait 0) = 0" using post(4) before_callback_queue(6) by simp
  have "MG_IS_MAIN_WINDOW fired_gui 5" "thread_queue fired_gui 0 = Some 0"
    by (simp_all add: MG_IS_MAIN_WINDOW_def MG_IS_WINDOW_def data_type_def fired_gui_def idle_gui_def demo_gui_def)
  then have sleeps: "GetMessage posting_ext 0 5 [] zero_msg fired_gui = None"
    using fired_callback z unfolding after_callback_eq [symmetric]
    by (simp add: GetMessage_def PeekMessageEx_def peek_loop.simps)
  have "readpos (queues after_callback 0) \<noteq> writepos (queues after_callback 0)"
    using posted_Nil [OF post(3)] post(1) by simp
  then have pend: "pending_queue (queues after_callback 0)" using post(2) by (simp add: pending_queue_def)
  have "GetMsgQueue after_callback 5 = Some 0"
    using post(5) before_callback_queue(1)
    by (simp add: GetMsgQueue_def getMainWindowPtr_def MG_IS_WINDOW_def data_type_def idle_gui_def)
  then have "HavePendingMessage 0 5 after_callback"
    using pend by (simp add: HavePendingMessage_def HavePendingMessageEx_def)
  then show ?thesis using sleeps post(1) z by blast
qed

end
