(* ===== verification/Message_Reply.thy ===== *)
theory Message_Reply
  imports Message_Order
begin

section \<open>Messages: synchronous messages, replies and throwing away\<close>

text \<open>
  The linked list of synchronous messages as an abstract list of nodes, the reply a sender
  gets, and what \<open>ThrowAwayMessages\<close> leaves in the lists of a queue.
\<close>

subsection \<open>The list of synchronous messages\<close>

fun chain :: "(nat \<Rightarrow> syncmsg) \<Rightarrow> nat option \<Rightarrow> nat list \<Rightarrow> bool" where
  "chain s p [] \<longleftrightarrow> p = None"
| "chain s p (a # as) \<longleftrightarrow> p = Some a \<and> chain s (s_next (s a)) as"

definition sync_list :: "gui \<Rightarrow> nat \<Rightarrow> nat list \<Rightarrow> bool" where
  "sync_list g k as \<longleftrightarrow>
     chain (syncs g) (pFirstSyncMsg (queues g k)) as \<and> distinct as
     \<and> (as \<noteq> [] \<longrightarrow> pLastSyncMsg (queues g k) = Some (last as))"

lemma chain_cong: "\<forall>a \<in> set as. s_next (s' a) = s_next (s a) \<Longrightarrow> chain s' p as = chain s p as"
  by (induction as arbitrary: p) auto

lemma chain_append:
  assumes "chain s p as" "as \<noteq> []" "distinct as" "a \<notin> set as" "s_next n = None"
  shows "chain (s(a := n, last as := (s (last as))\<lparr>s_next := Some a\<rparr>)) p (as @ [a])"
  using assms
proof (induction as arbitrary: p)
  case (Cons b bs)
  show ?case
  proof (cases "bs = []")
    case True
    then show ?thesis using Cons.prems by simp
  next
    case False
    have "last bs \<noteq> b" using Cons.prems(3) False by (metis distinct.simps(2) last_in_set)
    moreover have "chain (s(a := n, last bs := (s (last bs))\<lparr>s_next := Some a\<rparr>)) (s_next (s b)) (bs @ [a])"
      by (rule Cons.IH) (use Cons.prems False in auto)
    moreover define s' where "s' = s(a := n, last bs := (s (last bs))\<lparr>s_next := Some a\<rparr>)"
    ultimately have "chain s' (s_next (s' b)) (bs @ [a])" using Cons.prems(4) by simp
    then have "chain s' p ((b # bs) @ [a])" using Cons.prems(1) by simp
    then show ?thesis unfolding s'_def last_ConsR [OF False] .
  qed
qed simp

text \<open>The state after queueing, in one piece.\<close>

lemma queue_sync_syncs:
  assumes "sync_list g k as"
  shows "syncs (queue_sync k a m s g) =
      (let t = (syncs g)(a := \<lparr>s_msg = m, s_retval = ERR_MSG_CANCELED, s_sem = s, s_next = None\<rparr>)
       in if as = [] then t else t(last as := (t (last as))\<lparr>s_next := Some a\<rparr>))"
    "pFirstSyncMsg (queues (queue_sync k a m s g) k) = (if as = [] then Some a else pFirstSyncMsg (queues g k))"
    "pLastSyncMsg (queues (queue_sync k a m s g) k) = Some a"
proof -
  have f: "pFirstSyncMsg (queues g k) = (case as of [] \<Rightarrow> None | b # bs \<Rightarrow> Some b)"
    "as \<noteq> [] \<Longrightarrow> pLastSyncMsg (queues g k) = Some (last as)"
    using assms by (auto simp: sync_list_def split: list.split)
  show "syncs (queue_sync k a m s g) =
      (let t = (syncs g)(a := \<lparr>s_msg = m, s_retval = ERR_MSG_CANCELED, s_sem = s, s_next = None\<rparr>)
       in if as = [] then t else t(last as := (t (last as))\<lparr>s_next := Some a\<rparr>))"
    "pFirstSyncMsg (queues (queue_sync k a m s g) k) = (if as = [] then Some a else pFirstSyncMsg (queues g k))"
    "pLastSyncMsg (queues (queue_sync k a m s g) k) = Some a"
    using f by (auto simp: queue_sync_def link_node_def Let_def split: list.splits)
qed

lemma queue_sync_list:
  assumes "sync_list g k as" "a \<notin> set as"
  shows "sync_list (queue_sync k a m s g) k (as @ [a])"
proof (cases "as = []")
  case True
  then show ?thesis using queue_sync_syncs [OF assms(1), of a m s] by (simp add: sync_list_def)
next
  case False
  let ?n = "\<lparr>s_msg = m, s_retval = ERR_MSG_CANCELED, s_sem = s, s_next = None\<rparr>"
  have "last as \<noteq> a" using assms(2) False by (metis last_in_set)
  then have "syncs (queue_sync k a m s g) =
      (syncs g)(a := ?n, last as := (syncs g (last as))\<lparr>s_next := Some a\<rparr>)"
    using queue_sync_syncs(1) [OF assms(1), of a m s] False by (simp add: Let_def)
  moreover have "chain ((syncs g)(a := ?n, last as := (syncs g (last as))\<lparr>s_next := Some a\<rparr>))
      (pFirstSyncMsg (queues g k)) (as @ [a])"
    using assms False by (intro chain_append) (auto simp: sync_list_def)
  ultimately show ?thesis
    using queue_sync_syncs(2,3) [OF assms(1), of a m s] assms False by (simp add: sync_list_def)
qed

text \<open>
  Synchronous messages are a first-in first-out list: \<open>SendSyncMessage\<close> puts the sender's
  node behind the nodes already waiting, and a pass that removes takes the first of them and
  leaves the others in order.
\<close>

theorem sync_messages_are_fifo:
  assumes "sync_list g k as" and "a \<notin> set as"
  shows "sync_list (queue_sync k a m s g) k (as @ [a])
    \<and> (mq_ok (queues g k) \<and> as = b # bs \<longrightarrow>
        (\<exists>g'. peek_sync k (\<lambda>i. True) True m0 g = Ret True ((s_msg (syncs g b))\<lparr>m_pAdd := Some b\<rparr>) g'
          \<and> sync_list g' k bs))"
proof -
  have "\<exists>g'. peek_sync k (\<lambda>i. True) True m0 g = Ret True ((s_msg (syncs g b))\<lparr>m_pAdd := Some b\<rparr>) g' \<and> sync_list g' k bs"
    if "mq_ok (queues g k)" "as = b # bs"
  proof -
    have p: "pFirstSyncMsg (queues g k) = Some b" using assms(1) that(2) by (simp add: sync_list_def)
    show ?thesis
      using take_sync [OF that(1) p, of "\<lambda>i. True" m0] assms(1) that(2) by (auto simp: sync_list_def)
  qed
  then show ?thesis using queue_sync_list [OF assms] by blast
qed

theorem sync_messages_are_fifo_witness:
  "sync_list (queue_sync 0 8 zero_msg (SemSync 1) (queue_sync 0 7 zero_msg (SemSync 2) demo_gui)) 0 [7, 8]"
proof -
  have "sync_list demo_gui 0 []" by (simp add: sync_list_def demo_gui_def InitMsgQueue_def)
  then have "sync_list (queue_sync 0 7 zero_msg (SemSync 2) demo_gui) 0 [7]" using queue_sync_list by fastforce
  then show ?thesis using sync_messages_are_fifo [of _ 0 "[7]" 8 zero_msg "SemSync 1"] by simp
qed

subsection \<open>The reply\<close>

text \<open>The thread of queue \<open>k\<close> takes a synchronous message and dispatches it.\<close>

definition serve :: "extern \<Rightarrow> nat \<Rightarrow> gui \<Rightarrow> gui" where
  "serve ext k g =
     (case peek_sync k (\<lambda>i. True) True zero_msg g of
        Ret r m g' \<Rightarrow> snd (DispatchMessage ext m g')
      | Cont m g' \<Rightarrow> g')"

lemma queue_sync_keeps [simp]:
  "wins (queue_sync k a m s g) = wins g" "hwnd_desktop (queue_sync k a m s g) = hwnd_desktop g"
  "thread_queue (queue_sync k a m s g) = thread_queue g"
  "j \<noteq> k \<Longrightarrow> queues (queue_sync k a m s g) j = queues g j"
  "sems (queue_sync k a m s g) (SemSync t) = sems g (SemSync t)"
  by (auto simp: queue_sync_def link_node_def Let_def split: option.split)

text \<open>\<open>SendSyncMessage\<close> up to the wait: the semaphore it will wait for, and the state when the sender has queued its node and has
  handled the synchronous messages sent to itself.\<close>

definition sender_sem :: "nat \<Rightarrow> nat \<Rightarrow> gui \<Rightarrow> sem" where
  "sender_sem me a g = (case thread_queue g me of Some t \<Rightarrow> SemSync t | None \<Rightarrow> SemStack a)"

definition sent :: "extern \<Rightarrow> nat \<Rightarrow> nat \<Rightarrow> nat \<Rightarrow> msg \<Rightarrow> gui \<Rightarrow> gui option" where
  "sent ext me a k m g =
     (let s = sender_sem me a g;
          g' = queue_sync k a m s (if thread_queue g me = None then g\<lparr>sems := (sems g)(s := 0)\<rparr> else g)
      in case thread_queue g me of None \<Rightarrow> Some g' | Some t \<Rightarrow> drain_sync ext t g')"

text \<open>The state after the first \<open>n\<close> things the other threads do.\<close>

definition after_acts :: "acts \<Rightarrow> nat \<Rightarrow> gui \<Rightarrow> gui" where
  "after_acts acts n g = fold (\<lambda>a. a) (take n acts) g"

definition lower :: "sem \<Rightarrow> gui \<Rightarrow> gui" where
  "lower s g = g\<lparr>sems := (sems g)(s := sems g s - 1)\<rparr>"

lemma after_acts_simps [simp]: "after_acts acts 0 g = g" "after_acts (a # as) (Suc n) g = after_acts as n (a g)"
  by (simp_all add: after_acts_def)

lemma after_acts_Suc: "n < length acts \<Longrightarrow> after_acts acts (Suc n) g = (acts ! n) (after_acts acts n g)"
  by (simp add: after_acts_def take_Suc_conv_app_nth)

text \<open>The wait ends when the semaphore is first seen raised, and does not end if it never is.\<close>

lemma sem_wait_first:
  "n \<le> length acts \<Longrightarrow> \<forall>j < n. sems (after_acts acts j g) s = 0 \<Longrightarrow> sems (after_acts acts n g) s > 0 \<Longrightarrow>
    sem_wait s acts g = Some (drop n acts, lower s (after_acts acts n g))"
proof (induction acts arbitrary: n g)
  case Nil
  then show ?case by (simp add: lower_def)
next
  case (Cons a acts)
  show ?case
  proof (cases n)
    case 0
    then show ?thesis using Cons.prems by (simp add: lower_def)
  next
    case (Suc l)
    have "sems g s = 0" using Cons.prems(2) Suc by (auto dest: spec [of _ 0])
    moreover have "\<forall>j < l. sems (after_acts acts j (a g)) s = 0"
      using Cons.prems(2) Suc by (metis Suc_less_eq after_acts_simps(2))
    ultimately show ?thesis using Cons.IH [of l "a g"] Cons.prems Suc by simp
  qed
qed

lemma sem_wait_never: "\<forall>j \<le> length acts. sems (after_acts acts j g) s = 0 \<Longrightarrow> sem_wait s acts g = None"
proof (induction acts arbitrary: g)
  case (Cons a acts)
  have "sems g s = 0" using Cons.prems by (auto dest: spec [of _ 0])
  moreover have "\<forall>j \<le> length acts. sems (after_acts acts j (a g)) s = 0"
    using Cons.prems by (metis Suc_le_mono after_acts_simps(2) length_Cons)
  ultimately show ?case using Cons.IH by simp
qed simp

lemma SendMessage_waits:
  assumes "MG_IS_WINDOW g h" "\<not> BE_THIS_THREAD g me h" "GetMsgQueue g h = Some k" "sent ext me a k (make_msg h i w l) g = Some g0"
  shows "SendMessage ext me a acts h i w l g
    = map_option (\<lambda>(_, g'). (s_retval (syncs g' a), g')) (sem_wait (sender_sem me a g) acts g0)"
  using assms by (cases "thread_queue g me")
    (auto simp: SendMessage_def SendSyncMessage_def sent_def sender_sem_def Let_def split: option.splits)

text \<open>The receiver serves the node at the head of its list, in the state \<open>x\<close>, with the window procedure's answer \<open>r\<close>.\<close>

definition answers :: "extern \<Rightarrow> nat \<Rightarrow> nat \<Rightarrow> msg \<Rightarrow> sem \<Rightarrow> gui \<Rightarrow> int \<Rightarrow> bool" where
  "answers ext k a m s x r \<longleftrightarrow>
     has_flag (queues x k) QS_SYNCMSG \<and> pFirstSyncMsg (queues x k) = Some a \<and> s_msg (syncs x a) = m
     \<and> (\<exists>win p g2. wins x (m_hwnd m) = Some win \<and> MainWindowProc win = Some p
          \<and> wnd_proc ext p (m_hwnd m) (m_message m) (m_wParam m) (m_lParam m)
              (upd_queue k (\<lambda>q. q\<lparr>pFirstSyncMsg := s_next (syncs x a)\<rparr>) x) = (r, g2)
          \<and> s_sem (syncs g2 a) = s)"

lemma serve_answers:
  assumes "answers ext k a m s x r" "m_hwnd m \<noteq> HWND_INVALID" "m_hwnd m \<noteq> 0"
  shows "s_retval (syncs (serve ext k x) a) = r" "sems (serve ext k x) s > 0"
proof -
  let ?x = "upd_queue k (\<lambda>q. q\<lparr>pFirstSyncMsg := s_next (syncs x a)\<rparr>) x"
  obtain win p g2 where x: "has_flag (queues x k) QS_SYNCMSG" "pFirstSyncMsg (queues x k) = Some a" "s_msg (syncs x a) = m"
      "wins x (m_hwnd m) = Some win" "MainWindowProc win = Some p" "s_sem (syncs g2 a) = s"
      "wnd_proc ext p (m_hwnd m) (m_message m) (m_wParam m) (m_lParam m) ?x = (r, g2)"
    using assms(1) by (auto simp: answers_def)
  have "peek_sync k (\<lambda>i. True) True zero_msg x = Ret True (m\<lparr>m_pAdd := Some a\<rparr>) ?x"
    using x(1-3) by (simp add: peek_sync_def)
  then have "serve ext k x = sem_post s (g2\<lparr>syncs := (syncs g2)(a := (syncs g2 a)\<lparr>s_retval := r\<rparr>)\<rparr>)"
    using x assms(2,3) by (simp add: serve_def DispatchMessage_def Let_def)
  then show "s_retval (syncs (serve ext k x) a) = r" "sems (serve ext k x) s > 0" by simp_all
qed

text \<open>
  C30.  \<open>SendMessage\<close> to a window of another thread, whatever the other threads do meanwhile and whatever messages the sender handled first:
  it returns when the semaphore of the sender is first seen raised, with what its node holds then, and never if it is
  not raised.  So when the node has come to the head of the receiver's list and the receiver takes it and dispatches it before anything
  else raises the semaphore, it returns what the window procedure returned.  When something else raises the semaphore, which all
  messages sent by a thread share, before the node is answered -- the answer to a nested send, or \<open>ThrowAwayMessages\<close> --, it
  returns \<open>ERR_MSG_CANCELED\<close> at once.
\<close>

theorem SendMessage_returns_reply:
  assumes "MG_IS_WINDOW g h" and "\<not> BE_THIS_THREAD g me h" and "GetMsgQueue g h = Some k"
    and "sent ext me a k (make_msg h i w l) g = Some g0"
  shows "(n \<le> length acts \<and> (\<forall>j < n. sems (after_acts acts j g0) (sender_sem me a g) = 0)
        \<and> sems (after_acts acts n g0) (sender_sem me a g) > 0 \<longrightarrow>
          SendMessage ext me a acts h i w l g
            = Some (s_retval (syncs (after_acts acts n g0) a), lower (sender_sem me a g) (after_acts acts n g0))
          \<and> (s_retval (syncs (after_acts acts n g0) a) = ERR_MSG_CANCELED \<longrightarrow>
               map_option fst (SendMessage ext me a acts h i w l g) = Some ERR_MSG_CANCELED))
    \<and> (n < length acts \<and> (\<forall>j \<le> n. sems (after_acts acts j g0) (sender_sem me a g) = 0) \<and> acts ! n = serve ext k
        \<and> answers ext k a (make_msg h i w l) (sender_sem me a g) (after_acts acts n g0) r \<longrightarrow>
          map_option fst (SendMessage ext me a acts h i w l g) = Some r)
    \<and> ((\<forall>j \<le> length acts. sems (after_acts acts j g0) (sender_sem me a g) = 0) \<longrightarrow> SendMessage ext me a acts h i w l g = None)"
proof -
  note waits = SendMessage_waits [OF assms, of acts]
  have first: "SendMessage ext me a acts h i w l g
      = Some (s_retval (syncs (after_acts acts n g0) a), lower (sender_sem me a g) (after_acts acts n g0))"
    if "n \<le> length acts" "\<forall>j < n. sems (after_acts acts j g0) (sender_sem me a g) = 0"
      "sems (after_acts acts n g0) (sender_sem me a g) > 0" for n
    using waits sem_wait_first [OF that] by (simp add: lower_def)
  have "map_option fst (SendMessage ext me a acts h i w l g) = Some r"
    if n: "n < length acts" "\<forall>j \<le> n. sems (after_acts acts j g0) (sender_sem me a g) = 0" "acts ! n = serve ext k"
      and ans: "answers ext k a (make_msg h i w l) (sender_sem me a g) (after_acts acts n g0) r"
  proof -
    have h: "h \<noteq> HWND_INVALID" "h \<noteq> 0" using assms(1) by (auto simp: MG_IS_WINDOW_def)
    have "after_acts acts (Suc n) g0 = serve ext k (after_acts acts n g0)" using after_acts_Suc [OF n(1)] n(3) by simp
    then have "s_retval (syncs (after_acts acts (Suc n) g0) a) = r" "sems (after_acts acts (Suc n) g0) (sender_sem me a g) > 0"
      using serve_answers [OF ans] h by (simp_all add: make_msg_def)
    then show ?thesis using first [of "Suc n"] n(1,2) by (simp add: less_Suc_eq_le)
  qed
  moreover have "SendMessage ext me a acts h i w l g = None"
    if "\<forall>j \<le> length acts. sems (after_acts acts j g0) (sender_sem me a g) = 0"
    using waits sem_wait_never [OF that] by simp
  ultimately show ?thesis using first [of n] by auto
qed

text \<open>A window of thread 1 and queue 0, seen from thread 2 with queue 2, and a procedure that adds.\<close>

definition rpc_gui :: gui where
  "rpc_gui = demo_gui\<lparr>wins := (\<lambda>h. if h = 5 then Some \<lparr>DataType = TYPE_HWND, is_main = True, w_pMainWin = 5,
     w_pMessages = Some 0, w_th = 1, MainWindowProc = Some 0\<rparr> else None), thread_queue := Some\<rparr>"

definition adding_ext :: extern where
  "adding_ext = demo_ext\<lparr>wnd_proc := (\<lambda>p h i w l g. (int (unat w) + int (unat l), g))\<rparr>"

lemma rpc_gui_ok: "gui_ok rpc_gui" "sync_list rpc_gui k []"
proof -
  show "gui_ok rpc_gui" using demo_gui_ok by (rule gui_ok_cong) (simp_all add: rpc_gui_def)
  show "sync_list rpc_gui k []" by (simp add: sync_list_def rpc_gui_def demo_gui_def InitMsgQueue_def)
qed

lemma rpc_gui_window:
  "MG_IS_WINDOW rpc_gui 5" "\<not> BE_THIS_THREAD rpc_gui 2 5" "GetMsgQueue rpc_gui 5 = Some 0"
  "wins rpc_gui 5 = Some \<lparr>DataType = TYPE_HWND, is_main = True, w_pMainWin = 5,
     w_pMessages = Some 0, w_th = 1, MainWindowProc = Some 0\<rparr>"
  by (simp_all add: MG_IS_WINDOW_def data_type_def rpc_gui_def BE_THIS_THREAD_def GetMsgQueue_def
      getMainWindowPtr_def Let_def)

text \<open>A message of another thread waits before the sender's.\<close>

definition queued_gui :: gui where
  "queued_gui = queue_sync 0 66 (make_msg 5 0x800 1 1) (SemStack 66) rpc_gui"

lemma queued_gui_window:
  "MG_IS_WINDOW queued_gui 5" "\<not> BE_THIS_THREAD queued_gui 2 5" "GetMsgQueue queued_gui 5 = Some 0"
  "thread_queue queued_gui 2 = Some 2"
proof -
  have w: "wins queued_gui = wins rpc_gui" "hwnd_desktop queued_gui = hwnd_desktop rpc_gui" by (simp_all add: queued_gui_def)
  show "MG_IS_WINDOW queued_gui 5" "\<not> BE_THIS_THREAD queued_gui 2 5" "GetMsgQueue queued_gui 5 = Some 0"
    using windows_cong [OF w] rpc_gui_window by simp_all
  show "thread_queue queued_gui 2 = Some 2" by (simp add: queued_gui_def rpc_gui_def)
qed

definition both_queued :: gui where
  "both_queued = queue_sync 0 77 (make_msg 5 0x801 40 2) (SemSync 2) queued_gui"

lemma both_queued_sent: "sent adding_ext 2 77 0 (make_msg 5 0x801 40 2) queued_gui = Some both_queued"
proof -
  have "\<not> has_flag (queues both_queued 2) QS_SYNCMSG"
    by (simp add: both_queued_def queued_gui_def) (simp add: rpc_gui_def demo_gui_def InitMsgQueue_def has_flag_def QS_EMPTY_def)
  then have "drain_sync adding_ext 2 both_queued = Some both_queued" by (simp add: drain_sync.simps)
  then show ?thesis using queued_gui_window(4) by (simp add: sent_def sender_sem_def both_queued_def Let_def)
qed

lemma both_queued_nodes:
  "pFirstSyncMsg (queues both_queued 0) = Some 66" "has_flag (queues both_queued 0) QS_SYNCMSG" "wins both_queued = wins rpc_gui"
  "syncs both_queued 66 = \<lparr>s_msg = make_msg 5 0x800 1 1, s_retval = ERR_MSG_CANCELED, s_sem = SemStack 66, s_next = Some 77\<rparr>"
  "syncs both_queued 77 = \<lparr>s_msg = make_msg 5 0x801 40 2, s_retval = ERR_MSG_CANCELED, s_sem = SemSync 2, s_next = None\<rparr>"
  "sems both_queued (SemSync 2) = 0"
proof -
  have e: "sync_list rpc_gui 0 []" by (rule rpc_gui_ok)
  have l: "sync_list queued_gui 0 [66]" using queue_sync_list [OF e, of 66] by (simp add: queued_gui_def)
  note q1 = queue_sync_syncs [OF e, of 66 "make_msg 5 0x800 1 1" "SemStack 66", folded queued_gui_def]
  note q2 = queue_sync_syncs [OF l, of 77 "make_msg 5 0x801 40 2" "SemSync 2", folded both_queued_def]
  show "pFirstSyncMsg (queues both_queued 0) = Some 66" using q1 q2 by simp
  show "syncs both_queued 66 = \<lparr>s_msg = make_msg 5 0x800 1 1, s_retval = ERR_MSG_CANCELED, s_sem = SemStack 66, s_next = Some 77\<rparr>"
    "syncs both_queued 77 = \<lparr>s_msg = make_msg 5 0x801 40 2, s_retval = ERR_MSG_CANCELED, s_sem = SemSync 2, s_next = None\<rparr>"
    using q1 q2 by (simp_all add: Let_def)
  show "has_flag (queues both_queued 0) QS_SYNCMSG"
    by (simp add: both_queued_def queue_sync_def Let_def has_flag_bit flag_bits)
  show "wins both_queued = wins rpc_gui" "sems both_queued (SemSync 2) = 0"
    by (simp_all add: both_queued_def queued_gui_def) (simp add: rpc_gui_def demo_gui_def)
qed

lemma adding_answers:
  assumes "pFirstSyncMsg (queues x 0) = Some a" "has_flag (queues x 0) QS_SYNCMSG" "wins x = wins rpc_gui"
    "syncs x a = \<lparr>s_msg = make_msg 5 i w l, s_retval = v, s_sem = s, s_next = n\<rparr>"
  shows "answers adding_ext 0 a (make_msg 5 i w l) s x (int (unat w) + int (unat l))"
    "serve adding_ext 0 x = sem_post s ((upd_queue 0 (\<lambda>q. q\<lparr>pFirstSyncMsg := n\<rparr>) x)
       \<lparr>syncs := (syncs x)(a := (syncs x a)\<lparr>s_retval := int (unat w) + int (unat l)\<rparr>)\<rparr>)"
  using assms rpc_gui_window(4)
  by (auto simp: answers_def adding_ext_def make_msg_def serve_def peek_sync_def DispatchMessage_def Let_def)

theorem SendMessage_returns_reply_witness:
  "map_option fst (SendMessage adding_ext 2 77 [serve adding_ext 0, serve adding_ext 0] 5 0x801 40 2 queued_gui) = Some 42
   \<and> map_option fst (SendMessage adding_ext 2 77 [sem_post (SemSync 2), serve adding_ext 0] 5 0x801 40 2 queued_gui) = Some ERR_MSG_CANCELED"
proof -
  let ?x = "serve adding_ext 0 both_queued"
  have s: "sender_sem 2 77 queued_gui = SemSync 2" using queued_gui_window(4) by (simp add: sender_sem_def)
  have x: "?x = sem_post (SemStack 66) ((upd_queue 0 (\<lambda>q. q\<lparr>pFirstSyncMsg := Some 77\<rparr>) both_queued)
       \<lparr>syncs := (syncs both_queued)(66 := (syncs both_queued 66)\<lparr>s_retval := 2\<rparr>)\<rparr>)"
    using adding_answers(2) [OF both_queued_nodes(1-4)] by simp
  have "answers adding_ext 0 77 (make_msg 5 0x801 40 2) (SemSync 2) ?x 42"
    using adding_answers(1) [where x = ?x and a = 77 and i = "0x801" and w = 40 and l = 2] both_queued_nodes
    by (simp add: x has_flag_def)
  moreover have "\<forall>j \<le> 1. sems (after_acts [serve adding_ext 0, serve adding_ext 0] j both_queued) (SemSync 2) = 0"
    using both_queued_nodes(6) by (auto simp: le_Suc_eq x after_acts_def)
  ultimately show ?thesis
    using SendMessage_returns_reply [OF queued_gui_window(1-3) both_queued_sent, where n = 1 and acts = "[serve adding_ext 0, serve adding_ext 0]" and r = 42]
      SendMessage_returns_reply [OF queued_gui_window(1-3) both_queued_sent, where n = 1 and acts = "[sem_post (SemSync 2), serve adding_ext 0]" and r = 42]
      both_queued_nodes(5,6) s
    by (simp add: after_acts_def)
qed

subsection \<open>Throwing messages away\<close>

lemma throw_msg_cong:
  assumes "wins g' = wins g" "hwnd_desktop g' = hwnd_desktop g"
  shows "throw_msg g' h = throw_msg g h" "thrown g' h = thrown g h"
  using windows_cong(6) [OF assms] by (simp_all add: throw_msg_def thrown_def fun_eq_iff)

lemma map_list_update_fold:
  assumes "distinct js" "\<forall>j \<in> set js. j < length ms"
  shows "map ((!) (fold (\<lambda>i ms. ms[i := f (ms ! i)]) js ms)) js = map (\<lambda>j. f (ms ! j)) js"
    "j \<notin> set js \<Longrightarrow> fold (\<lambda>i ms. ms[i := f (ms ! i)]) js ms ! j = ms ! j"
proof -
  let ?F = "fold (\<lambda>i ms. ms[i := f (ms ! i)])"
  show other: "j \<notin> set js \<Longrightarrow> ?F js ms ! j = ms ! j" for j js ms
    by (induction js arbitrary: ms) auto
  show "map ((!) (?F js ms)) js = map (\<lambda>j. f (ms ! j)) js"
    using assms
  proof (induction js arbitrary: ms)
    case (Cons i js)
    have "?F js (ms[i := f (ms ! i)]) ! i = f (ms ! i)" using Cons.prems other [of i js] by simp
    moreover have "map (\<lambda>j. f (ms[i := f (ms ! i)] ! j)) js = map (\<lambda>j. f (ms ! j)) js"
      using Cons.prems by (auto simp: nth_list_update)
    ultimately show ?case using Cons by simp
  qed simp
qed

lemma throw_posts_posted:
  assumes "ring_ok q"
  shows "posted (throw_posts g h q) = map (throw_msg g h) (posted q)"
proof -
  have fields: "pending (throw_posts g h q) = pending q"
    "qmsg (throw_posts g h q) = fold (\<lambda>i ms. ms[i := throw_msg g h (ms ! i)]) (pending q) (qmsg q)"
  proof -
    have "pending (fold (\<lambda>i q. q\<lparr>qmsg := (qmsg q)[i := throw_msg g h (qmsg q ! i)]\<rparr>) js p) = pending p
      \<and> qmsg (fold (\<lambda>i q. q\<lparr>qmsg := (qmsg q)[i := throw_msg g h (qmsg q ! i)]\<rparr>) js p) =
        fold (\<lambda>i ms. ms[i := throw_msg g h (ms ! i)]) js (qmsg p)" for js p
      by (induction js arbitrary: p) (simp_all add: pending_def)
    then show "pending (throw_posts g h q) = pending q"
      "qmsg (throw_posts g h q) = fold (\<lambda>i ms. ms[i := throw_msg g h (ms ! i)]) (pending q) (qmsg q)"
      by (simp_all add: throw_posts_def)
  qed
  have "\<forall>j \<in> set (pending q). j < length (qmsg q)" using pending_bound [OF assms] assms by (simp add: ring_ok_def)
  from map_list_update_fold(1) [OF pending_distinct [OF assms] this, of "throw_msg g h"] fields
  show ?thesis by (simp add: posted_def comp_def)
qed

lemma throw_timers_keep:
  "posted (queues (fold (throw_timer h k) js g) j) = posted (queues g j)"
  "pFirstNotifyMsg (queues (fold (throw_timer h k) js g) j) = pFirstNotifyMsg (queues g j)"
  "i \<noteq> k \<Longrightarrow> queues (fold (throw_timer h k) js g) i = queues g i"
  by (induction js arbitrary: g)
    (auto simp: throw_timer_def RemoveMsgQueueTimerFlag_def posted_def pending_def)

text \<open>
  \<open>ThrowAwayMessages\<close> on a queue without synchronous messages marks exactly the posted and
  notification messages of the window (or of the windows in its main window) invalid, keeps
  every message in its place, counts the marked ones, and leaves the other queues alone.
\<close>

theorem ThrowAwayMessages_marks:
  assumes "queue_of_deleted g h = Some k" and "ring_ok (queues g k)" and "pFirstSyncMsg (queues g k) = None"
  shows "\<exists>g'. ThrowAwayMessages h g = Some (thrown g h (pFirstNotifyMsg (queues g k)) + thrown g h (posted (queues g k)), g')
    \<and> posted (queues g' k) = map (throw_msg g h) (posted (queues g k))
    \<and> pFirstNotifyMsg (queues g' k) = map (throw_msg g h) (pFirstNotifyMsg (queues g k))
    \<and> (\<forall>j. j \<noteq> k \<longrightarrow> queues g' j = queues g j)"
proof -
  let ?g1 = "upd_queue k (\<lambda>q. q\<lparr>pFirstNotifyMsg := map (throw_msg g h) (pFirstNotifyMsg q)\<rparr>) g"
  let ?q = "(queues g k)\<lparr>pFirstNotifyMsg := map (throw_msg g h) (pFirstNotifyMsg (queues g k))\<rparr>"
  let ?g2 = "upd_queue k (throw_posts ?g1 h) ?g1"
  have c: "throw_msg ?g1 h = throw_msg g h" "thrown ?g1 h = thrown g h" by (intro throw_msg_cong; simp)+
  have p: "posted ?q = posted (queues g k)" "ring_ok ?q" using assms(2) by (simp_all add: posted_def pending_def ring_ok_def)
  have keep: "pFirstNotifyMsg (throw_posts g' h q) = pFirstNotifyMsg q" for g' q
  proof -
    have "pFirstNotifyMsg (fold (\<lambda>i q. q\<lparr>qmsg := (qmsg q)[i := throw_msg g' h (qmsg q ! i)]\<rparr>) js q) = pFirstNotifyMsg q" for js
      by (induction js arbitrary: q) simp_all
    then show ?thesis by (simp add: throw_posts_def)
  qed
  have "ThrowAwayMessages h g = Some (thrown g h (pFirstNotifyMsg (queues g k)) + thrown g h (posted (queues g k)),
      fold (throw_timer h k) [0..<DEF_NR_TIMERS] ?g2)"
    using assms(1,3) c p by (simp add: ThrowAwayMessages_def Let_def throw_sync.simps)
  moreover have "posted (queues ?g2 k) = map (throw_msg g h) (posted (queues g k))"
    using throw_posts_posted [OF p(2), of ?g1 h] c p by simp
  moreover have "pFirstNotifyMsg (queues ?g2 k) = map (throw_msg g h) (pFirstNotifyMsg (queues g k))"
    using keep by simp
  moreover have "queues ?g2 j = queues g j" if "j \<noteq> k" for j using that by simp
  ultimately show ?thesis by (simp add: throw_timers_keep)
qed

theorem ThrowAwayMessages_marks_witness:
  "\<exists>g'. ThrowAwayMessages 5 rpc_gui = Some (0, g')"
proof -
  have "queue_of_deleted rpc_gui 5 = Some 0"
    using rpc_gui_window by (simp add: queue_of_deleted_def data_type_def)
  moreover have "ring_ok (queues rpc_gui 0)" using rpc_gui_ok by (simp add: gui_ok_def mq_ok_def)
  moreover have "pFirstNotifyMsg (queues rpc_gui 0) = []" "posted (queues rpc_gui 0) = []"
    "pFirstSyncMsg (queues rpc_gui 0) = None"
    using posted_Nil [OF calculation(2)] by (simp_all add: rpc_gui_def demo_gui_def InitMsgQueue_def)
  ultimately show ?thesis using ThrowAwayMessages_marks [of rpc_gui 5 0] by (auto simp: thrown_def)
qed

text \<open>Nodes \<open>1\<close> to \<open>n\<close> wait in queue 0, the first for window 6 and the others for window 5.\<close>

definition waiting_gui :: "nat \<Rightarrow> gui" where
  "waiting_gui n = (upd_queue 0 (\<lambda>q. q\<lparr>pFirstSyncMsg := Some 1, pLastSyncMsg := Some n\<rparr>) rpc_gui)
     \<lparr>syncs := (\<lambda>a. \<lparr>s_msg = make_msg (if a = 1 then 6 else 5) 0 0 0, s_retval = 0, s_sem = SemSync a,
        s_next = (if a < n then Some (Suc a) else None)\<rparr>)\<rparr>"

lemma waiting_gui_windows:
  "of_window (waiting_gui n) 5 (m_hwnd (s_msg (syncs (waiting_gui n) a))) \<longleftrightarrow> a \<noteq> 1"
proof -
  have "\<not> of_window rpc_gui 5 6" "of_window rpc_gui 5 5"
    by (simp_all add: of_window_def GetMainWindowPtrOfControl_def MG_IS_NORMAL_WINDOW_def MG_IS_WINDOW_def
        data_type_def rpc_gui_def demo_gui_def)
  moreover have "of_window (waiting_gui n) 5 x = of_window rpc_gui 5 x" for x
    by (rule windows_cong) (simp_all add: waiting_gui_def)
  ultimately show ?thesis by (simp add: waiting_gui_def make_msg_def)
qed

text \<open>
  \<open>ThrowAwayMessages\<close> leaves a released node in the list of synchronous messages: when two
  messages of the window follow one of another window, the second is unlinked from the
  removed node instead of from the one that stays, so the queue still leads to a node on the
  stack of a sender that has been released.
\<close>

theorem ThrowAwayMessages_leaves_released_node:
  assumes "chain (syncs g) (Some a) [a, b, c]" and "distinct [a, b, c]"
    and "\<not> of_window g h (m_hwnd (s_msg (syncs g a)))"
    and "of_window g h (m_hwnd (s_msg (syncs g b)))" and "of_window g h (m_hwnd (s_msg (syncs g c)))"
  shows "\<exists>g'. throw_sync h k None (Some a) 0 g = Some (2, g')
    \<and> chain (syncs g') (Some a) [a, c] \<and> sems g' (s_sem (syncs g c)) > 0"
proof -
  have n: "s_next (syncs g a) = Some b" "s_next (syncs g b) = Some c" "s_next (syncs g c) = None"
    "a \<noteq> b" "a \<noteq> c" "b \<noteq> c" using assms(1,2) by auto
  have w: "of_window (sem_post s g') h x = of_window g' h x" "of_window (link_node p m g') h x = of_window g' h x"
    "of_window (g'\<lparr>syncs := f\<rparr>) h x = of_window g' h x" for s p m g' f x
    by (rule windows_cong; simp add: link_node_def)+
  show ?thesis
    using n assms(3-5)
    by (simp add: throw_sync.simps [of h k None] throw_sync.simps [of h k "Some x" for x] w link_node_def Let_def)
qed

theorem ThrowAwayMessages_leaves_released_node_witness:
  "\<exists>g'. throw_sync 5 0 None (Some 1) 0 (waiting_gui 3) = Some (2, g') \<and> chain (syncs g') (Some 1) [1, 3]"
proof -
  have "chain (syncs (waiting_gui 3)) (Some 1) [1, 2, 3]" by (simp add: waiting_gui_def)
  from ThrowAwayMessages_leaves_released_node [OF this, of 5 0] show ?thesis by (auto simp: waiting_gui_windows)
qed

text \<open>
  \<open>ThrowAwayMessages\<close> forgets the tail of the list: when the last of two synchronous
  messages is thrown away, the queue's pointer to its last node still names it, and the next
  message sent to the queue is linked behind that node, where no receiver finds it.
\<close>

theorem ThrowAwayMessages_loses_next_message:
  assumes "sync_list g k [a, b]" and "d \<notin> {a, b}"
    and "\<not> of_window g h (m_hwnd (s_msg (syncs g a)))" and "of_window g h (m_hwnd (s_msg (syncs g b)))"
    and "throw_sync h k None (pFirstSyncMsg (queues g k)) 0 g = Some (n, g1)"
  shows "chain (syncs (queue_sync k d m s g1)) (pFirstSyncMsg (queues (queue_sync k d m s g1) k)) [a]"
proof -
  have n: "s_next (syncs g a) = Some b" "s_next (syncs g b) = None" "a \<noteq> b" "pFirstSyncMsg (queues g k) = Some a"
    "pLastSyncMsg (queues g k) = Some b" using assms(1) by (auto simp: sync_list_def)
  have w: "of_window (sem_post s g') h x = of_window g' h x" "of_window (link_node p m g') h x = of_window g' h x"
    "of_window (g'\<lparr>syncs := f\<rparr>) h x = of_window g' h x" for s p m g' f x
    by (rule windows_cong; simp add: link_node_def)+
  have "syncs g1 a = (syncs g a)\<lparr>s_next := None\<rparr>" "queues g1 = queues g"
    using n assms(3-5)
    by (auto simp: throw_sync.simps [of h k None] throw_sync.simps [of h k "Some x" for x] w link_node_def Let_def)
  then show ?thesis using n assms(2) by (auto simp: queue_sync_def link_node_def Let_def)
qed

theorem ThrowAwayMessages_loses_next_message_witness:
  "\<exists>n g1. throw_sync 5 0 None (Some 1) 0 (waiting_gui 2) = Some (n, g1)
    \<and> chain (syncs (queue_sync 0 9 zero_msg (SemStack 0) g1)) (pFirstSyncMsg (queues (queue_sync 0 9 zero_msg (SemStack 0) g1) 0)) [1]"
proof -
  have l: "sync_list (waiting_gui 2) 0 [1, 2]" by (simp add: sync_list_def waiting_gui_def)
  have first: "pFirstSyncMsg (queues (waiting_gui 2) 0) = Some 1" by (simp add: waiting_gui_def)
  have w: "of_window (waiting_gui 2) 5 5" "\<not> of_window (waiting_gui 2) 5 6"
    using waiting_gui_windows [of 2 2] waiting_gui_windows [of 2 1] by (simp_all add: waiting_gui_def make_msg_def)
  obtain n g1 where t: "throw_sync 5 0 None (Some 1) 0 (waiting_gui 2) = Some (n, g1)"
  proof -
    have "of_window (sem_post z (link_node p q ((waiting_gui 2)\<lparr>syncs := f\<rparr>))) 5 x = of_window (waiting_gui 2) 5 x" for z p q f x
      by (rule windows_cong) (simp_all add: link_node_def)
    then show ?thesis using that w
      by (simp add: throw_sync.simps [of 5 0 None] throw_sync.simps [of 5 0 "Some x" for x] Let_def)
        (simp add: waiting_gui_def make_msg_def link_node_def throw_sync.simps [of 5 0 "Some x" for x])
  qed
  from ThrowAwayMessages_loses_next_message [OF l, of 9 5, unfolded first, OF _ _ _ t] t show ?thesis
    using waiting_gui_windows by fastforce
qed

end
