(* ===== verification/Message_Live.thy ===== *)
theory Message_Live
  imports Message_Order
begin

section \<open>Messages: delivery\<close>

text \<open>
  What a thread receives that calls \<open>GetMessage\<close> again and again while others go on posting to it: a
  notification waits for no more calls than there were notifications before it.
\<close>

text \<open>What arrives before each call, and the messages that the calls return.\<close>

fun serve :: "extern \<Rightarrow> nat \<Rightarrow> hwnd \<Rightarrow> arrival list list \<Rightarrow> gui \<Rightarrow> (msg list \<times> gui) option" where
  "serve ext me h [] g = Some ([], g)"
| "serve ext me h (as # ass) g =
     (case GetMessage ext me h [] zero_msg (fold arrive as g) of
        None \<Rightarrow> None
      | Some (_, m, g) \<Rightarrow> map_option (\<lambda>(ms, g). (m # ms, g)) (serve ext me h ass g))"

text \<open>A thread that may call \<open>GetMessage\<close> for the window, with no quit request and no synchronous message waiting.\<close>

definition serving :: "nat \<Rightarrow> nat \<Rightarrow> hwnd \<Rightarrow> gui \<Rightarrow> bool" where
  "serving k me h g \<longleftrightarrow> gui_ok g \<and> thread_queue g me = Some k \<and> (h = hwnd_desktop g \<or> MG_IS_MAIN_WINDOW g h)
     \<and> loop_depth (queues g k) = 0 \<and> pFirstSyncMsg (queues g k) = None"

definition keeps_thread :: "nat \<Rightarrow> gui \<Rightarrow> gui \<Rightarrow> bool" where
  "keeps_thread k g g' \<longleftrightarrow> thread_queue g' = thread_queue g \<and> hwnd_desktop g' = hwnd_desktop g \<and> wins g' = wins g
     \<and> loop_depth (queues g' k) = loop_depth (queues g k) \<and> pFirstSyncMsg (queues g' k) = pFirstSyncMsg (queues g k)"

lemma keeps_serving: "serving k me h g \<Longrightarrow> keeps_thread k g g' \<Longrightarrow> gui_ok g' \<Longrightarrow> serving k me h g'"
  by (auto simp: serving_def keeps_thread_def MG_IS_MAIN_WINDOW_def MG_IS_WINDOW_def data_type_def)

lemma keeps_thread_queue:
  "loop_depth (f (queues g j)) = loop_depth (queues g j) \<and> pFirstSyncMsg (f (queues g j)) = pFirstSyncMsg (queues g j) \<Longrightarrow>
    keeps_thread k g (upd_queue j f g)"
  by (simp add: keeps_thread_def upd_queue_def)

lemma keeps_thread_POST [simp]: "keeps_thread k g (POST_MSGQ j g') = keeps_thread k g g'"
  by (simp add: keeps_thread_def POST_MSGQ_def sem_post_def)

lemma keeps_thread_refl [simp]: "keeps_thread k g g"
  by (simp add: keeps_thread_def)

lemma arrive_keeps: "keeps_thread k g (arrive a g)"
proof (cases a)
  case (Post me h i w l)
  have q: "keeps_thread k g (snd (QueueMessage me j m g))" for j m
    by (simp add: QueueMessage_def Let_def split_beta keeps_thread_queue queue_message_fields)
  show ?thesis
    using q by (auto simp: Post PostMessage_def Let_def split_beta keeps_thread_queue split: option.split)
next
  case (Notify me h i w l)
  then show ?thesis by (auto simp: SendNotifyMessage_def Let_def keeps_thread_queue queue_notify_def split: option.split)
qed

lemma arrive_notes: "\<exists>new. pFirstNotifyMsg (queues (arrive a g) k) = pFirstNotifyMsg (queues g k) @ new"
proof (cases a)
  case (Post me h i w l)
  have q: "pFirstNotifyMsg (queues (snd (QueueMessage me j m g)) k) = pFirstNotifyMsg (queues g k)" for j m
    by (simp add: QueueMessage_def Let_def split_beta upd_queue_def queue_message_fields)
  then show ?thesis
    by (auto simp: Post PostMessage_def Let_def split_beta upd_queue_def split: option.split)
next
  case (Notify me h i w l)
  then show ?thesis by (auto simp: SendNotifyMessage_def Let_def upd_queue_def queue_notify_def split: option.split)
qed

lemma arrivals_serving:
  "serving k me h g \<Longrightarrow> serving k me h (fold arrive as g)
    \<and> (\<exists>new. pFirstNotifyMsg (queues (fold arrive as g) k) = pFirstNotifyMsg (queues g k) @ new)"
proof (induction as arbitrary: g)
  case (Cons a as)
  have "gui_ok (arrive a g)" using Cons.prems by (cases a) (auto simp: serving_def)
  then have "serving k me h (arrive a g)" using keeps_serving [OF Cons.prems arrive_keeps] by simp
  then show ?case using Cons.IH arrive_notes [of a g k] by fastforce
qed simp

lemma GetMessage_note:
  assumes "serving k me h g" "pFirstNotifyMsg (queues g k) = n # ns"
  shows "\<exists>g'. GetMessage ext me h acts m0 g = Some (True, n\<lparr>m_pAdd := None\<rparr>, g') \<and> serving k me h g' \<and> pFirstNotifyMsg (queues g' k) = ns"
proof -
  let ?g1 = "if has_flag (queues g k) QS_SYNCMSG then upd_queue k (clear_flag QS_SYNCMSG) g else g"
  let ?g2 = "upd_queue k (\<lambda>q. q\<lparr>pFirstNotifyMsg := ns\<rparr>) ?g1"
  have mq: "mq_ok (queues g k)" and ok: "gui_ok g" and s: "loop_depth (queues g k) = 0" "pFirstSyncMsg (queues g k) = None"
    using assms(1) by (auto simp: serving_def gui_ok_def)
  have wanted: "\<forall>i. IS_MSG_WANTED 0 0 i" by (simp add: IS_MSG_WANTED_def)
  have q1: "mq_ok (queues ?g1 k)" "pFirstNotifyMsg (queues ?g1 k) = n # ns"
    using mq_ok_flags(3) [OF mq s(2)] mq assms(2) by auto
  have g1: "gui_ok ?g1" using gui_ok_queue [OF ok] mq_ok_flags(3) [OF mq s(2)] ok by auto
  have g2: "gui_ok ?g2" by (rule gui_ok_queue [OF g1]) (use mq_ok_flags(12) [OF q1(1)] q1(2) in simp)
  have "peek_pass ext k h (IS_MSG_WANTED 0 0) True m g = Ret True (n\<lparr>m_pAdd := None\<rparr>) ?g2" for m
    using skip_quit [OF mq s(1)] skip_sync [OF s(2)] take_notify [OF q1(1,2) wanted]
    by (simp add: peek_pass_def)
  then have "GetMessage ext me h acts m0 g = Some (True, n\<lparr>m_pAdd := None\<rparr>, ?g2)"
    using assms(1) by (auto simp: GetMessage_def PeekMessageEx_def serving_def peek_loop.simps)
  moreover have "keeps_thread k g ?g2" by (simp add: keeps_thread_def)
  ultimately show ?thesis using keeps_serving [OF assms(1) _ g2] by simp
qed

text \<open>C29.  A notification message reaches the thread of its window: whatever other threads post and notify between the calls, the
  calls of \<open>GetMessage\<close> return the notifications that waited before it, in order, and then this one, without
  waiting for a semaphore.\<close>

theorem notification_is_delivered:
  assumes "serving k me h g" "pFirstNotifyMsg (queues g k) = before @ n # behind" "length ass = Suc (length before)"
  shows "\<exists>g'. serve ext me h ass g = Some (map (\<lambda>m. m\<lparr>m_pAdd := None\<rparr>) (before @ [n]), g') \<and> serving k me h g'"
  using assms
proof (induction before arbitrary: g ass behind)
  case Nil
  then obtain as where as: "ass = [as]" by (auto simp: length_Suc_conv)
  obtain new where "serving k me h (fold arrive as g)" "pFirstNotifyMsg (queues (fold arrive as g) k) = n # behind @ new"
    using arrivals_serving [OF Nil.prems(1), of as] Nil.prems(2) by auto
  then show ?case using GetMessage_note [of k me h _ n "behind @ new" ext "[]" zero_msg] by (fastforce simp: as)
next
  case (Cons b before)
  obtain as ass' where as: "ass = as # ass'" "length ass' = Suc (length before)" using Cons.prems(3) by (auto simp: length_Suc_conv)
  obtain new where "serving k me h (fold arrive as g)" "pFirstNotifyMsg (queues (fold arrive as g) k) = b # before @ n # behind @ new"
    using arrivals_serving [OF Cons.prems(1), of as] Cons.prems(2) by auto
  then obtain g1 where g1: "GetMessage ext me h [] zero_msg (fold arrive as g) = Some (True, b\<lparr>m_pAdd := None\<rparr>, g1)"
    "serving k me h g1" "pFirstNotifyMsg (queues g1 k) = before @ n # behind @ new"
    using GetMessage_note by blast
  show ?case using Cons.IH [OF g1(2,3) as(2)] g1(1) by (auto simp: as)
qed

lemma busy_serving: "serving 0 0 5 busy_gui"
proof -
  have "gui_ok busy_gui" using busy_gui_of by (simp add: queue_of_def)
  moreover have "loop_depth (queues busy_gui 0) = 0" "pFirstSyncMsg (queues busy_gui 0) = None"
    by (simp_all add: busy_gui_queue queue_notify_def queue_message_fields) (simp_all add: demo_gui_def InitMsgQueue_def)
  moreover have "keeps_thread 0 (demo_gui\<lparr>wins := (\<lambda>h. if h = 5 then Some \<lparr>DataType = TYPE_HWND, is_main = True, w_pMainWin = 5,
        w_pMessages = Some 0, w_th = 0, MainWindowProc = Some 0\<rparr> else None)\<rparr>) busy_gui"
    using arrive_keeps [where a = "Post 1 5 20 1 2"] arrive_keeps [where a = "Notify 1 5 21 3 4"]
    by (fastforce simp: busy_gui_def keeps_thread_def)
  ultimately show ?thesis
    by (auto simp: serving_def keeps_thread_def MG_IS_MAIN_WINDOW_def MG_IS_WINDOW_def data_type_def demo_gui_def)
qed

theorem notification_is_delivered_witness:
  "\<exists>g'. serve demo_ext 0 5 [[Post 1 5 30 0 0, Notify 1 5 31 0 0]] busy_gui = Some ([make_msg 5 21 3 4], g')"
proof -
  have "pFirstNotifyMsg (queues busy_gui 0) = [] @ make_msg 5 21 3 4 # []"
    by (simp add: busy_gui_queue queue_notify_def queue_message_fields) (simp add: demo_gui_def InitMsgQueue_def)
  from notification_is_delivered [OF busy_serving this, of "[[Post 1 5 30 0 0, Notify 1 5 31 0 0]]" demo_ext] show ?thesis
    by (auto simp: make_msg_def)
qed

end
