(* ===== verification/Charset_SB_Props.thy ===== *)
theory Charset_SB_Props
  imports Charset_SB
begin

section \<open>What the single byte charsets preserve\<close>

text \<open>
  Which characters survive the conversion to Unicode and back, and which code points are
  written as a byte that reads as another one.
\<close>

text \<open>The bytes that do not come back from Unicode as they went.\<close>

definition lost_bytes :: "(mstring \<Rightarrow> UChar32) \<Rightarrow> (UChar32 \<Rightarrow> uchar list) \<Rightarrow> uchar set" where
  "lost_bytes to from_uc = {c. from_uc (to (mem [c])) \<noteq> [c]}"

text \<open>The code points that are written as a byte which reads as another code point.\<close>

definition misread_codes :: "(mstring \<Rightarrow> UChar32) \<Rightarrow> (UChar32 \<Rightarrow> uchar list) \<Rightarrow> UChar32 set" where
  "misread_codes to from_uc = {wc. 0 \<le> wc \<and> (\<exists>c. from_uc wc = [c] \<and> to (mem [c]) \<noteq> wc)}"

text \<open>Both sets computed by going through the bytes, and through a list of code points that has every one with an encoding.\<close>

lemma lost_bytes_enum:
  "lost_bytes to from_uc = set (filter (\<lambda>c. from_uc (to (mem [c])) \<noteq> [c]) (map word_of_int [0..255]))"
  unfolding lost_bytes_def set_filter uchars by simp

lemma misread_codes_enum:
  assumes "\<forall>wc \<ge> 0. from_uc wc \<noteq> [] \<longrightarrow> wc \<in> set cs" and "\<forall>wc \<in> set cs. 0 \<le> wc"
  shows "misread_codes to from_uc
    = set (filter (\<lambda>wc. case from_uc wc of [c] \<Rightarrow> to (mem [c]) \<noteq> wc | _ \<Rightarrow> False) cs)"
proof -
  have "(\<exists>c. from_uc wc = [c] \<and> to (mem [c]) \<noteq> wc)
      \<longleftrightarrow> (case from_uc wc of [c] \<Rightarrow> to (mem [c]) \<noteq> wc | _ \<Rightarrow> False)" for wc
    by (simp split: list.split)
  moreover have "from_uc wc \<noteq> []" if "case from_uc wc of [c] \<Rightarrow> to (mem [c]) \<noteq> wc | _ \<Rightarrow> False" for wc
    using that by (cases "from_uc wc") auto
  ultimately show ?thesis using assms unfolding misread_codes_def set_filter by blast
qed

context table_charset
begin

lemma lost: "lost_bytes (table_conv_to unicode_map) (table_conv_from unicode_map) = {}"
  by (auto simp: lost_bytes_def from_to)

lemma misread: "misread_codes (table_conv_to unicode_map) (table_conv_from unicode_map) = {}"
  by (auto simp: misread_codes_def to_from)

end

context switch_charset
begin

lemma lost: "lost_bytes (switch_conv_to to_cases) (switch_conv_from from_cases) = {}"
  by (auto simp: lost_bytes_def from_to)

lemma misread:
  "misread_codes (switch_conv_to to_cases) (switch_conv_from from_cases) = fst ` set to_cases"
proof (intro set_eqI iffI)
  fix wc assume "wc \<in> misread_codes (switch_conv_to to_cases) (switch_conv_from from_cases)"
  then show "wc \<in> fst ` set to_cases" by (auto simp: misread_codes_def misread_iff)
next
  fix wc assume wc: "wc \<in> fst ` set to_cases"
  then have r: "0 \<le> wc" "wc \<le> 0xFF" using ranges by auto
  then have "switch_conv_from from_cases wc = [word_of_int wc]"
    by (simp add: switch_conv_from_def from_cases_byte)
  then show "wc \<in> misread_codes (switch_conv_to to_cases) (switch_conv_from from_cases)"
    using wc r misread_iff by (simp add: misread_codes_def)
qed

end

subsection \<open>The charsets with a range\<close>

lemma lost_5: "lost_bytes iso8859_5_conv_to_uc32 iso8859_5_conv_from_uc32 = set []"
  unfolding lost_bytes_enum by (rule arg_cong [where f = set]) code_simp

lemma misread_5: "misread_codes iso8859_5_conv_to_uc32 iso8859_5_conv_from_uc32 = set [0x040D, 0x0450, 0x045D]"
proof -
  let ?cs = "[0..0xA0] @ [0xA7, 0xAD, 0x2116] @ [0x401..0x45F]"
  have "\<forall>wc \<ge> 0. iso8859_5_conv_from_uc32 wc \<noteq> [] \<longrightarrow> wc \<in> set ?cs"
    by (auto simp: iso8859_5_conv_from_uc32_def simp del: upto_rec_numeral split: if_splits)
  moreover have "\<forall>wc \<in> set ?cs. 0 \<le> wc" by (auto simp del: upto_rec_numeral)
  moreover have "filter (\<lambda>wc. case iso8859_5_conv_from_uc32 wc of [c] \<Rightarrow> iso8859_5_conv_to_uc32 (mem [c]) \<noteq> wc
      | _ \<Rightarrow> False) ?cs = [0x040D, 0x0450, 0x045D]"
    by code_simp
  ultimately show ?thesis by (simp only: misread_codes_enum)
qed

lemma lost_6: "lost_bytes iso8859_6_conv_to_uc32 iso8859_6_conv_from_uc32 = set [0xF3, 0xF4, 0xF5, 0xF6, 0xF7, 0xF8, 0xF9, 0xFA, 0xFB, 0xFC, 0xFD, 0xFE, 0xFF]"
  unfolding lost_bytes_enum by (rule arg_cong [where f = set]) code_simp

lemma misread_6: "misread_codes iso8859_6_conv_to_uc32 iso8859_6_conv_from_uc32 = set [0xAC, 0xBB, 0xBF]"
proof -
  let ?cs = "[0x060C, 0x061B, 0x061F] @ [0..0xC0] @ [0x621..0x652]"
  have "\<forall>wc \<ge> 0. iso8859_6_conv_from_uc32 wc \<noteq> [] \<longrightarrow> wc \<in> set ?cs"
    by (auto simp: iso8859_6_conv_from_uc32_def simp del: upto_rec_numeral split: if_splits)
  moreover have "\<forall>wc \<in> set ?cs. 0 \<le> wc" by (auto simp del: upto_rec_numeral)
  moreover have "filter (\<lambda>wc. case iso8859_6_conv_from_uc32 wc of [c] \<Rightarrow> iso8859_6_conv_to_uc32 (mem [c]) \<noteq> wc
      | _ \<Rightarrow> False) ?cs = [0xAC, 0xBB, 0xBF]"
    by code_simp
  ultimately show ?thesis by (simp only: misread_codes_enum)
qed

lemma lost_7: "lost_bytes iso8859_7_conv_to_uc32 iso8859_7_conv_from_uc32 = set [0xFF]"
  unfolding lost_bytes_enum by (rule arg_cong [where f = set]) code_simp

lemma search_mem: "table_search xs i wc = Some k \<Longrightarrow> wc \<in> set xs"
  by (induction xs i wc rule: table_search.induct) (auto split: if_splits)

lemma misread_7: "misread_codes iso8859_7_conv_to_uc32 iso8859_7_conv_from_uc32 = {}"
proof -
  let ?cs = "[0..0xA0] @ [0x38E..0x3CE] @ iso8859_7_unicode_map"
  have "\<forall>wc \<ge> 0. iso8859_7_conv_from_uc32 wc \<noteq> [] \<longrightarrow> wc \<in> set ?cs"
    by (auto simp: iso8859_7_conv_from_uc32_def simp del: upto_rec_numeral split: if_splits option.splits dest: search_mem)
  moreover have "\<forall>wc \<in> set ?cs. 0 \<le> wc" by (auto simp: iso8859_7_unicode_map_def)
  moreover have "filter (\<lambda>wc. case iso8859_7_conv_from_uc32 wc of [c] \<Rightarrow> iso8859_7_conv_to_uc32 (mem [c]) \<noteq> wc
      | _ \<Rightarrow> False) ?cs = []"
    by code_simp
  ultimately show ?thesis by (simp only: misread_codes_enum list.set)
qed

lemma lost_8: "lost_bytes iso8859_8_conv_to_uc32 iso8859_8_conv_from_uc32 = set [0xD7, 0xFB, 0xFC, 0xFF]"
  unfolding lost_bytes_enum by (rule arg_cong [where f = set]) code_simp

lemma misread_8: "misread_codes iso8859_8_conv_to_uc32 iso8859_8_conv_from_uc32 = set [0xAA, 0xBA, 0xDF]"
proof -
  let ?cs = "[0x00D7, 0x00F7, 0x2017, 0x200E, 0x200F] @ [0..0xDF] @ [0x5D0..0x5EA]"
  have "\<forall>wc \<ge> 0. iso8859_8_conv_from_uc32 wc \<noteq> [] \<longrightarrow> wc \<in> set ?cs"
    by (auto simp: iso8859_8_conv_from_uc32_def simp del: upto_rec_numeral split: if_splits)
  moreover have "\<forall>wc \<in> set ?cs. 0 \<le> wc" by (auto simp del: upto_rec_numeral)
  moreover have "filter (\<lambda>wc. case iso8859_8_conv_from_uc32 wc of [c] \<Rightarrow> iso8859_8_conv_to_uc32 (mem [c]) \<noteq> wc
      | _ \<Rightarrow> False) ?cs = [0xAA, 0xBA, 0xDF]"
    by code_simp
  ultimately show ?thesis by (simp only: misread_codes_enum)
qed

subsection \<open>ASCII and ISO8859-1\<close>

lemma lost_ascii: "lost_bytes ascii_conv_to_uc32 ascii_conv_from_uc32 = {c. 0x80 \<le> uint c}"
proof -
  have w: "word_of_int 63 = c" if "uint c = 63" for c :: uchar
    unfolding that [symmetric] by (rule word_of_uint)
  have "(word_of_int 63 = c) \<longleftrightarrow> uint c = 63" for c :: uchar
    using w [of c] uint_word_of_int_byte [of 63] by auto
  then show ?thesis by (auto simp: lost_bytes_def ascii_conv_to_uc32_def ascii_conv_from_uc32_def)
qed

lemma misread_ascii: "misread_codes ascii_conv_to_uc32 ascii_conv_from_uc32 = {}"
  by (auto simp: misread_codes_def ascii_conv_to_uc32_def ascii_conv_from_uc32_def uint_word_of_int_byte
      split: if_splits)

lemma lost_1: "lost_bytes iso8859_1_conv_to_uc32 iso8859_1_conv_from_uc32 = {}"
  by (simp add: lost_bytes_def iso8859_1_conv_to_uc32_def iso8859_1_conv_from_uc32_def)

lemma misread_1: "misread_codes iso8859_1_conv_to_uc32 iso8859_1_conv_from_uc32 = {}"
  by (auto simp: misread_codes_def iso8859_1_conv_to_uc32_def iso8859_1_conv_from_uc32_def uint_word_of_int_byte
      split: if_splits)

subsection \<open>The properties\<close>

definition exact_charset :: "(mstring \<Rightarrow> UChar32) \<times> (UChar32 \<Rightarrow> uchar list) \<Rightarrow> bool" where
  "exact_charset conv \<longleftrightarrow> lost_bytes (fst conv) (snd conv) = {} \<and> misread_codes (fst conv) (snd conv) = {}"

lemmas table_conversions =
  iso8859_2_conv_to_uc32_def iso8859_2_conv_from_uc32_def
  iso8859_3_conv_to_uc32_def iso8859_3_conv_from_uc32_def
  iso8859_4_conv_to_uc32_def iso8859_4_conv_from_uc32_def
  iso8859_10_conv_to_uc32_def iso8859_10_conv_from_uc32_def
  iso8859_11_conv_to_uc32_def iso8859_11_conv_from_uc32_def
  iso8859_13_conv_to_uc32_def iso8859_13_conv_from_uc32_def
  iso8859_14_conv_to_uc32_def iso8859_14_conv_from_uc32_def

lemma exact_charsets:
  "list_all exact_charset
     [(iso8859_1_conv_to_uc32, iso8859_1_conv_from_uc32),
      (iso8859_2_conv_to_uc32, iso8859_2_conv_from_uc32),
      (iso8859_3_conv_to_uc32, iso8859_3_conv_from_uc32),
      (iso8859_4_conv_to_uc32, iso8859_4_conv_from_uc32),
      (iso8859_10_conv_to_uc32, iso8859_10_conv_from_uc32),
      (iso8859_11_conv_to_uc32, iso8859_11_conv_from_uc32),
      (iso8859_13_conv_to_uc32, iso8859_13_conv_from_uc32),
      (iso8859_14_conv_to_uc32, iso8859_14_conv_from_uc32)]"
  by (simp add: exact_charset_def lost_1 misread_1 table_conversions
      iso8859_2.lost iso8859_2.misread iso8859_3.lost iso8859_3.misread iso8859_4.lost iso8859_4.misread
      iso8859_10.lost iso8859_10.misread iso8859_11.lost iso8859_11.misread
      iso8859_13.lost iso8859_13.misread iso8859_14.lost iso8859_14.misread)

lemmas switch_conversions =
  iso8859_9_conv_to_uc32_def iso8859_9_conv_from_uc32_def
  iso8859_15_conv_to_uc32_def iso8859_15_conv_from_uc32_def
  iso8859_16_conv_to_uc32_def iso8859_16_conv_from_uc32_def

lemma switch_bytes:
  "fst ` set iso8859_9_to_cases = set [0xD0, 0xDD, 0xDE, 0xF0, 0xFD, 0xFE]"
  "fst ` set iso8859_15_to_cases = set [0xA4, 0xA6, 0xA8, 0xB4, 0xB8, 0xBC, 0xBD, 0xBE]"
  by (simp_all add: iso8859_9_to_cases_def iso8859_15_to_cases_def)

lemma inexact_charsets:
  "lost_bytes ascii_conv_to_uc32 ascii_conv_from_uc32 = {c. 0x80 \<le> uint c}
   \<and> misread_codes ascii_conv_to_uc32 ascii_conv_from_uc32 = {}
   \<and> lost_bytes iso8859_5_conv_to_uc32 iso8859_5_conv_from_uc32 = set []
   \<and> misread_codes iso8859_5_conv_to_uc32 iso8859_5_conv_from_uc32 = set [0x040D, 0x0450, 0x045D]
   \<and> lost_bytes iso8859_6_conv_to_uc32 iso8859_6_conv_from_uc32
       = set [0xF3, 0xF4, 0xF5, 0xF6, 0xF7, 0xF8, 0xF9, 0xFA, 0xFB, 0xFC, 0xFD, 0xFE, 0xFF]
   \<and> misread_codes iso8859_6_conv_to_uc32 iso8859_6_conv_from_uc32 = set [0xAC, 0xBB, 0xBF]
   \<and> lost_bytes iso8859_7_conv_to_uc32 iso8859_7_conv_from_uc32 = set [0xFF]
   \<and> misread_codes iso8859_7_conv_to_uc32 iso8859_7_conv_from_uc32 = {}
   \<and> lost_bytes iso8859_8_conv_to_uc32 iso8859_8_conv_from_uc32 = set [0xD7, 0xFB, 0xFC, 0xFF]
   \<and> misread_codes iso8859_8_conv_to_uc32 iso8859_8_conv_from_uc32 = set [0xAA, 0xBA, 0xDF]
   \<and> lost_bytes iso8859_9_conv_to_uc32 iso8859_9_conv_from_uc32 = {}
   \<and> misread_codes iso8859_9_conv_to_uc32 iso8859_9_conv_from_uc32 = set [0xD0, 0xDD, 0xDE, 0xF0, 0xFD, 0xFE]
   \<and> lost_bytes iso8859_15_conv_to_uc32 iso8859_15_conv_from_uc32 = {}
   \<and> misread_codes iso8859_15_conv_to_uc32 iso8859_15_conv_from_uc32
       = set [0xA4, 0xA6, 0xA8, 0xB4, 0xB8, 0xBC, 0xBD, 0xBE]
   \<and> lost_bytes iso8859_16_conv_to_uc32 iso8859_16_conv_from_uc32 = {}
   \<and> misread_codes iso8859_16_conv_to_uc32 iso8859_16_conv_from_uc32 = fst ` set iso8859_16_to_cases"
  by (intro conjI lost_ascii misread_ascii lost_5 misread_5 lost_6 misread_6 lost_7 misread_7 lost_8 misread_8)
     (simp_all only: switch_conversions iso8859_9.lost iso8859_9.misread iso8859_15.lost
       iso8859_15.misread iso8859_16.lost iso8859_16.misread switch_bytes)

text \<open>C37.  ISO8859-1, 2, 3, 4, 10, 11, 13 and 14 convert without loss: every byte comes back from its
  Unicode code point as itself, and every code point that has an encoding is read back from it.  The other
  single byte charsets are not exact, and in precisely these places.  The encoders
  of 5, 6, 8, 9, 15 and 16 accept code points that their charset does not have and write them as the
  byte of another character, and some bytes of 6, 7 and 8 have a code point that is not written back
  as the same byte.\<close>

theorem table_charsets_exact:
  "list_all exact_charset
     [(iso8859_1_conv_to_uc32, iso8859_1_conv_from_uc32),
      (iso8859_2_conv_to_uc32, iso8859_2_conv_from_uc32),
      (iso8859_3_conv_to_uc32, iso8859_3_conv_from_uc32),
      (iso8859_4_conv_to_uc32, iso8859_4_conv_from_uc32),
      (iso8859_10_conv_to_uc32, iso8859_10_conv_from_uc32),
      (iso8859_11_conv_to_uc32, iso8859_11_conv_from_uc32),
      (iso8859_13_conv_to_uc32, iso8859_13_conv_from_uc32),
      (iso8859_14_conv_to_uc32, iso8859_14_conv_from_uc32)]
   \<and> lost_bytes ascii_conv_to_uc32 ascii_conv_from_uc32 = {c. 0x80 \<le> uint c}
   \<and> misread_codes ascii_conv_to_uc32 ascii_conv_from_uc32 = {}
   \<and> lost_bytes iso8859_5_conv_to_uc32 iso8859_5_conv_from_uc32 = set []
   \<and> misread_codes iso8859_5_conv_to_uc32 iso8859_5_conv_from_uc32 = set [0x040D, 0x0450, 0x045D]
   \<and> lost_bytes iso8859_6_conv_to_uc32 iso8859_6_conv_from_uc32
       = set [0xF3, 0xF4, 0xF5, 0xF6, 0xF7, 0xF8, 0xF9, 0xFA, 0xFB, 0xFC, 0xFD, 0xFE, 0xFF]
   \<and> misread_codes iso8859_6_conv_to_uc32 iso8859_6_conv_from_uc32 = set [0xAC, 0xBB, 0xBF]
   \<and> lost_bytes iso8859_7_conv_to_uc32 iso8859_7_conv_from_uc32 = set [0xFF]
   \<and> misread_codes iso8859_7_conv_to_uc32 iso8859_7_conv_from_uc32 = {}
   \<and> lost_bytes iso8859_8_conv_to_uc32 iso8859_8_conv_from_uc32 = set [0xD7, 0xFB, 0xFC, 0xFF]
   \<and> misread_codes iso8859_8_conv_to_uc32 iso8859_8_conv_from_uc32 = set [0xAA, 0xBA, 0xDF]
   \<and> lost_bytes iso8859_9_conv_to_uc32 iso8859_9_conv_from_uc32 = {}
   \<and> misread_codes iso8859_9_conv_to_uc32 iso8859_9_conv_from_uc32 = set [0xD0, 0xDD, 0xDE, 0xF0, 0xFD, 0xFE]
   \<and> lost_bytes iso8859_15_conv_to_uc32 iso8859_15_conv_from_uc32 = {}
   \<and> misread_codes iso8859_15_conv_to_uc32 iso8859_15_conv_from_uc32
       = set [0xA4, 0xA6, 0xA8, 0xB4, 0xB8, 0xBC, 0xBD, 0xBE]
   \<and> lost_bytes iso8859_16_conv_to_uc32 iso8859_16_conv_from_uc32 = {}
   \<and> misread_codes iso8859_16_conv_to_uc32 iso8859_16_conv_from_uc32 = fst ` set iso8859_16_to_cases"
  by (rule conjI [OF exact_charsets inexact_charsets])

end
