(* ===== verification/Charset_Words.thy ===== *)
theory Charset_Words
  imports Charset_UTF
begin

section \<open>Splitting a text into words\<close>

text \<open>
  What the operations that look for the next word do on ASCII text: in UTF-8 the first word
  and the run of equal delimiters behind it, in the single byte charsets something else.
\<close>

abbreviation not_delimiter :: "uchar \<Rightarrow> bool" where
  "not_delimiter c \<equiv> \<not> is_delimiter c"

lemma is_delimiter_nonzero: "is_delimiter c \<Longrightarrow> c \<noteq> 0"
  by (auto simp: is_delimiter_def)

definition ascii_text :: "uchar list \<Rightarrow> bool" where
  "ascii_text cs \<longleftrightarrow> list_all (\<lambda>c. \<not> c > 127) cs"

text \<open>With a delimiter set, letters are skipped and every further one of the same kind is counted.\<close>

lemma sb_word_loop_delimited:
  assumes "ascii_text cs" and "is_delimiter (wi_delimiter w)"
  shows "sb_word_loop cs w = w\<lparr>wi_nr_delimiters := wi_nr_delimiters w
      + count_list (takeWhile (\<lambda>c. is_delimiter c \<longrightarrow> c = wi_delimiter w) cs) (wi_delimiter w)\<rparr>"
  using assms
proof (induction cs arbitrary: w)
  case (Cons c cs)
  then have IH: "is_delimiter (wi_delimiter w') \<Longrightarrow> sb_word_loop cs w' = w'\<lparr>wi_nr_delimiters := wi_nr_delimiters w'
      + count_list (takeWhile (\<lambda>c. is_delimiter c \<longrightarrow> c = wi_delimiter w') cs) (wi_delimiter w')\<rparr>" for w'
    by (simp add: ascii_text_def)
  show ?case
    using Cons.prems is_delimiter_nonzero [OF Cons.prems(2)] IH [of w] IH [of "w\<lparr>wi_nr_delimiters := wi_nr_delimiters w + 1\<rparr>"]
    by (auto simp: ascii_text_def)
qed simp

lemma sb_word_loop_word:
  assumes "ascii_text cs" and "wi_delimiter w = 0" and "wi_nr_delimiters w = 0"
  shows "sb_word_loop cs w =
     (let w1 = w\<lparr>wi_len := wi_len w + length (takeWhile not_delimiter cs)\<rparr>
      in case dropWhile not_delimiter cs of
           [] \<Rightarrow> w1
         | d # ds \<Rightarrow> w1\<lparr>wi_delimiter := d, wi_nr_delimiters :=
             count_list (takeWhile (\<lambda>c. is_delimiter c \<longrightarrow> c = d) (d # ds)) d\<rparr>)"
  using assms
proof (induction cs arbitrary: w)
  case (Cons c cs)
  show ?case
  proof (cases "is_delimiter c")
    case True
    then show ?thesis
      using Cons.prems is_delimiter_nonzero [OF True]
      by (simp add: ascii_text_def sb_word_loop_delimited)
  next
    case False
    then show ?thesis
      using Cons.prems Cons.IH [of "w\<lparr>wi_len := wi_len w + 1\<rparr>"]
      by (simp add: ascii_text_def Let_def split: list.split)
  qed
qed simp

subsection \<open>UTF-8 on ASCII text\<close>

lemma ascii_char:
  assumes "\<not> (c :: uchar) > 127"
  shows "uint c < 0x80"
  using assms by (simp add: word_less_def)

lemma utf8_ascii_char:
  assumes "\<not> (c :: uchar) > 127"
  shows "utf8_len_first_char (mem (c # cs)) n = 1" "\<not> utf8_conv_to_uc32 (mem (c # cs)) > 0x0FFF"
  using ascii_char [OF assms] ascii_top_bit [of c] by (simp_all add: utf8_len_first_char_def utf8_conv_to_uc32_def)

lemma utf8_word_loop_delimited:
  assumes "ascii_text cs" and "is_delimiter (wi_delimiter w)"
  shows "utf8_word_loop (mem cs) (int (length cs)) w = w\<lparr>wi_nr_delimiters := wi_nr_delimiters w
      + length (takeWhile (\<lambda>c. c = wi_delimiter w) cs)\<rparr>"
  using assms
proof (induction cs arbitrary: w)
  case Nil
  then show ?case by (subst utf8_word_loop.simps) simp
next
  case (Cons c cs)
  then have "\<not> c > 127" by (simp add: ascii_text_def)
  note u = utf8_ascii_char [OF this, of cs]
  show ?case
    using Cons.prems is_delimiter_nonzero [OF Cons.prems(2)] Cons.IH [of "w\<lparr>wi_nr_delimiters := wi_nr_delimiters w + 1\<rparr>"]
    by (subst utf8_word_loop.simps) (auto simp: ascii_text_def u)
qed

lemma utf8_word_loop_word:
  assumes "ascii_text cs" and "wi_delimiter w = 0" and "wi_nr_delimiters w = 0"
  shows "utf8_word_loop (mem cs) (int (length cs)) w =
     (let w1 = w\<lparr>wi_len := wi_len w + length (takeWhile not_delimiter cs)\<rparr>
      in case dropWhile not_delimiter cs of
           [] \<Rightarrow> w1
         | d # ds \<Rightarrow> w1\<lparr>wi_delimiter := d, wi_nr_delimiters := length (takeWhile (\<lambda>c. c = d) (d # ds))\<rparr>)"
  using assms
proof (induction cs arbitrary: w)
  case Nil
  then show ?case by (subst utf8_word_loop.simps) simp
next
  case (Cons c cs)
  then have "\<not> c > 127" by (simp add: ascii_text_def)
  note u = utf8_ascii_char [OF this, of cs]
  show ?case
  proof (cases "is_delimiter c")
    case True
    then show ?thesis
      using Cons.prems is_delimiter_nonzero [OF True]
      by (subst utf8_word_loop.simps) (simp add: ascii_text_def u utf8_word_loop_delimited)
  next
    case False
    then show ?thesis
      using Cons.prems Cons.IH [of "w\<lparr>wi_len := wi_len w + 1\<rparr>"]
      by (subst utf8_word_loop.simps) (simp add: ascii_text_def u Let_def split: list.split)
  qed
qed

lemma text_of_mem: "text_of (mem cs) (length cs) = cs"
  by (rule nth_equalityI) (simp_all add: text_of_def mem_def)

definition word_found :: "uchar list \<Rightarrow> (uchar \<Rightarrow> uchar list \<Rightarrow> nat) \<Rightarrow> nat option \<times> wordinfo" where
  "word_found cs run =
     (let n = length (takeWhile not_delimiter cs)
      in case dropWhile not_delimiter cs of
           [] \<Rightarrow> (Some n, \<lparr>wi_len = n, wi_delimiter = 0, wi_nr_delimiters = 0\<rparr>)
         | d # ds \<Rightarrow> (Some (n + run d (d # ds)), \<lparr>wi_len = n, wi_delimiter = d, wi_nr_delimiters = run d (d # ds)\<rparr>))"

text \<open>On ASCII text the first word is what comes before the first delimiter.  In UTF-8 the
  delimiters of the word are the run of equal delimiters right behind it, and the pointer that is
  returned is where the next word starts.  The operation of the single byte charsets does not stop
  at the next word: it counts every further delimiter of the same kind, across words, up to
  a delimiter of another kind, so its pointer can be inside a later word.\<close>

theorem next_word_on_ascii:
  assumes "ascii_text cs" and "cs \<noteq> []"
  shows "utf8_get_next_word (mem cs) (int (length cs))
           = word_found cs (\<lambda>d rest. length (takeWhile (\<lambda>c. c = d) rest))
         \<and> sb_get_next_word (mem cs) (int (length cs))
           = word_found cs (\<lambda>d rest. count_list (takeWhile (\<lambda>c. is_delimiter c \<longrightarrow> c = d) rest) d)"
  using assms utf8_word_loop_word [of cs no_word] sb_word_loop_word [of cs no_word]
  by (cases "dropWhile not_delimiter cs")
     (simp_all add: utf8_get_next_word_def sb_get_next_word_def text_of_mem no_word_def word_end_def word_found_def
       Let_def del: dropWhile_eq_Nil_conv)

text \<open>In \<open>ab cd ef\<close> the next word of a single byte charset is said to start at the \<open>d\<close>.\<close>

lemma next_word_on_ascii_witness:
  "utf8_get_next_word (mem [97, 98, 32, 99, 100, 32, 101, 102]) 8
     = (Some 3, \<lparr>wi_len = 2, wi_delimiter = 32, wi_nr_delimiters = 1\<rparr>)
   \<and> sb_get_next_word (mem [97, 98, 32, 99, 100, 32, 101, 102]) 8
     = (Some 4, \<lparr>wi_len = 2, wi_delimiter = 32, wi_nr_delimiters = 2\<rparr>)"
  using next_word_on_ascii [of "[97, 98, 32, 99, 100, 32, 101, 102]"]
  by (simp add: ascii_text_def word_found_def is_delimiter_def)

end
