(* ===== verification/Charset_Table.thy ===== *)
theory Charset_Table
  imports Charset_Props
begin

section \<open>What holds over the table of the charsets\<close>

text \<open>
  Whether the numbers of characters fit the size a charset states, how long a character can
  be, and that the lookups by name find the charset that the name is for.
\<close>

definition numbers_characters :: "(uchar \<Rightarrow> uchar \<Rightarrow> bool) \<Rightarrow> charsetops \<Rightarrow> bool" where
  "numbers_characters valid ops \<longleftrightarrow>
     inj_on (\<lambda>(c1, c2). char_offset ops (mem [c1, c2])) {(c1, c2). valid c1 c2}
     \<and> (\<lambda>(c1, c2). char_offset ops (mem [c1, c2])) ` {(c1, c2). valid c1 c2} \<subseteq> {0..<int (nr_chars ops)}"

lemmas ops_defs = CharsetOps_ascii_def CharsetOps_iso8859_1_def CharsetOps_iso8859_2_def
  CharsetOps_iso8859_3_def CharsetOps_iso8859_4_def CharsetOps_iso8859_5_def CharsetOps_iso8859_6_def
  CharsetOps_iso8859_7_def CharsetOps_iso8859_8_def CharsetOps_iso8859_9_def CharsetOps_iso8859_10_def
  CharsetOps_iso8859_11_def CharsetOps_iso8859_13_def CharsetOps_iso8859_14_def CharsetOps_iso8859_15_def
  CharsetOps_iso8859_16_def CharsetOps_gb2312_0_def CharsetOps_gbk_def CharsetOps_gb18030_0_def
  CharsetOps_big5_def CharsetOps_ksc5601_0_def CharsetOps_jisx0201_0_def CharsetOps_jisx0208_0_def
  CharsetOps_jisx0201_1_def CharsetOps_jisx0208_1_def CharsetOps_utf8_def CharsetOps_utf16le_def
  CharsetOps_utf16be_def

lemma offset_of_ops:
  "char_offset (CharsetOps_gb2312_0 T) = gb2312_0_char_offset"
  "char_offset (CharsetOps_big5 T) = big5_char_offset"
  "char_offset (CharsetOps_ksc5601_0 T) = ksc5601_0_char_offset"
  "char_offset (CharsetOps_jisx0208_0 T) = jisx0208_0_char_offset"
  "char_offset (CharsetOps_jisx0208_1 T) = jisx0208_1_char_offset"
  by (simp_all add: ops_defs)

text \<open>The numbers that GB2312, BIG5, KSC5601 and both encodings of JISX0208 give their characters are
  pairwise different and below the number of characters that the charset states, so a font with that
  many glyphs has one for each.  The numbers of GB18030 reach 1611791 with 1611540 characters stated, and
  GBK numbers all its characters by 0 and 1.\<close>

theorem characters_are_numbered:
  "numbers_characters IS_GB2312_CHAR (CharsetOps_gb2312_0 T)
   \<and> numbers_characters is_big5_char (CharsetOps_big5 T)
   \<and> numbers_characters is_ksc5601_char (CharsetOps_ksc5601_0 T)
   \<and> numbers_characters is_jisx0208_0_char (CharsetOps_jisx0208_0 T)
   \<and> numbers_characters is_jisx0208_1_char (CharsetOps_jisx0208_1 T)
   \<and> nr_chars (CharsetOps_gb18030_0 T) = 1611540
   \<and> len_first_char (CharsetOps_gb18030_0 T) (mem [0xFE, 0x39, 0xFE, 0x39]) 4 = 4
   \<and> char_offset (CharsetOps_gb18030_0 T) (mem [0xFE, 0x39, 0xFE, 0x39]) = 1611791
   \<and> char_offset (CharsetOps_gbk T) m \<in> {0, 1}"
  using gb2312_glyphs.offset_numbers [of T] big5_glyphs.offset_numbers [of T]
    ksc5601_glyphs.offset_numbers [of T] jisx0208_0_glyphs.offset_numbers [of T]
    jisx0208_1_glyphs.offset_numbers [of T]
  unfolding numbers_characters_def offset_of_ops
  by (simp add: CharsetOps_gb18030_0_def gb18030_0_len_first_char_def gb18030_0_char_offset_def
      is_gb18030_2_def is_gb18030_4_def mem_def as_unsigned_def CharsetOps_gbk_def gbk_char_offset_def)

subsection \<open>The length of a character\<close>

definition length_in_bounds :: "charsetops \<Rightarrow> mstring \<Rightarrow> int \<Rightarrow> bool" where
  "length_in_bounds ops m n \<longleftrightarrow>
     0 \<le> len_first_char ops m n \<and> len_first_char ops m n \<le> bytes_maxlen_char ops
     \<and> len_first_char ops m n \<le> max 0 n"

lemma lengths_fit:
  "0 \<le> sb_len_first_char m n \<and> sb_len_first_char m n \<le> 1 \<and> sb_len_first_char m n \<le> max 0 n"
  "0 \<le> db_len_first_char v m n \<and> db_len_first_char v m n \<le> 2 \<and> db_len_first_char v m n \<le> max 0 n"
  "0 \<le> gb18030_0_len_first_char m n \<and> gb18030_0_len_first_char m n \<le> 4
   \<and> gb18030_0_len_first_char m n \<le> max 0 n"
  by (auto simp: sb_len_first_char_def db_len_first_char_def gb18030_0_len_first_char_def max_def)

lemma table_in_bounds:
  "list_all (\<lambda>ops. cs_name ops \<in> {''JISX0201-0'', ''UTF-8'', ''UTF-16LE'', ''UTF-16BE''}
      \<or> (\<forall>m n. length_in_bounds ops m n)) (Charsets T)"
  by (simp add: Charsets_def ops_defs length_in_bounds_def lengths_fit lens_of_charsets)

lemma long_lengths:
  "jisx0201_0_len_first_char (mem [0x8E, 0xB1]) 1 = 2"
  "utf8_len_first_char (mem []) 0 = 1"
  "utf8_len_first_char (mem [0xFF, 0x80, 0x80, 0x80, 0x80, 0x80, 0x80, 0x80]) 8 = 8"
  "utf16le_len_first_char (mem [0, 0xDC]) 2 = 4"
  "utf16be_len_first_char (mem [0xDC, 0]) 2 = 4"
  by code_simp+

lemma long_characters:
  "\<not> length_in_bounds CharsetOps_jisx0201_0 (mem [0x8E, 0xB1]) 1"
  "\<not> length_in_bounds CharsetOps_utf8 (mem []) 0"
  "\<not> length_in_bounds CharsetOps_utf8 (mem [0xFF, 0x80, 0x80, 0x80, 0x80, 0x80, 0x80, 0x80]) 8"
  "\<not> length_in_bounds CharsetOps_utf16le (mem [0, 0xDC]) 2"
  "\<not> length_in_bounds CharsetOps_utf16be (mem [0xDC, 0]) 2"
  by (simp_all add: length_in_bounds_def ops_defs long_lengths)

text \<open>C38.  The length of the first character is never negative, never more than the maximum that the
  charset states and never more than what is left of the text, in all charsets but JISX0201-0 and the
  three of Unicode.  Those do go beyond: a text of one byte has a character of two bytes in JISX0201-0 and
  a text of two bytes one of four in UTF-16, an empty text has one of one byte in UTF-8, whose characters
  can be eight bytes long with six stated.\<close>

theorem first_char_in_bounds:
  assumes "ops \<in> set (Charsets T)"
    and "cs_name ops \<notin> {''JISX0201-0'', ''UTF-8'', ''UTF-16LE'', ''UTF-16BE''}"
  shows "length_in_bounds ops m n
    \<and> \<not> length_in_bounds CharsetOps_jisx0201_0 (mem [0x8E, 0xB1]) 1
    \<and> \<not> length_in_bounds CharsetOps_utf8 (mem []) 0
    \<and> \<not> length_in_bounds CharsetOps_utf8 (mem [0xFF, 0x80, 0x80, 0x80, 0x80, 0x80, 0x80, 0x80]) 8
    \<and> \<not> length_in_bounds CharsetOps_utf16le (mem [0, 0xDC]) 2
    \<and> \<not> length_in_bounds CharsetOps_utf16be (mem [0xDC, 0]) 2"
  using assms table_in_bounds [of T] long_characters by (auto simp: list_all_iff)

lemma first_char_in_bounds_witness:
  "length_in_bounds CharsetOps_ascii (mem [65]) 1"
  using first_char_in_bounds [of CharsetOps_ascii T "mem [65]" 1]
  by (simp add: Charsets_def CharsetOps_ascii_def)

subsection \<open>Lookup by name\<close>

lemmas test_defs = ascii_is_this_charset_def iso8859_1_is_this_charset_def iso8859_2_is_this_charset_def
  iso8859_3_is_this_charset_def iso8859_4_is_this_charset_def iso8859_5_is_this_charset_def
  iso8859_6_is_this_charset_def iso8859_7_is_this_charset_def iso8859_8_is_this_charset_def
  iso8859_9_is_this_charset_def iso8859_10_is_this_charset_def iso8859_11_is_this_charset_def
  iso8859_13_is_this_charset_def iso8859_14_is_this_charset_def iso8859_15_is_this_charset_def
  iso8859_16_is_this_charset_def gb2312_0_is_this_charset_def gbk_is_this_charset_def
  gb18030_0_is_this_charset_def big5_is_this_charset_def ksc5601_0_is_this_charset_def
  jisx0201_0_is_this_charset_def jisx0208_0_is_this_charset_def jisx0201_1_is_this_charset_def
  jisx0208_1_is_this_charset_def utf8_is_this_charset_def utf16le_is_this_charset_def utf16be_is_this_charset_def

lemma toupper_other: "\<not> (97 \<le> (of_char c :: nat) \<and> (of_char c :: nat) \<le> 122) \<Longrightarrow> toupper c = c"
  by (simp only: toupper_def Let_def if_False)

lemma toupper_idem: "toupper (toupper c) = toupper c"
proof (cases "97 \<le> (of_char c :: nat) \<and> (of_char c :: nat) \<le> 122")
  case True
  then have "(of_char c - 32 :: nat) mod 256 = of_char c - 32" by (intro mod_less) linarith
  then have "(of_char (toupper c) :: nat) = of_char c - 32" using True by (simp add: toupper_def Let_def)
  with True have "\<not> (97 \<le> (of_char (toupper c) :: nat) \<and> (of_char (toupper c) :: nat) \<le> 122)" by linarith
  then show ?thesis by (rule toupper_other)
qed (simp add: toupper_other)

lemma upper_name_idem: "upper_name cs = Some name \<Longrightarrow> upper_name name = Some name"
  by (auto simp: upper_name_def toupper_idem split: if_splits)

text \<open>A test depends on the name in upper case only, and accepts the name of its own charset.\<close>

lemma tests_of_table: "list_all (\<lambda>ops. \<exists>p. is_this_charset ops = name_test p) (Charsets T)"
  by (simp add: Charsets_def ops_defs test_defs; intro conjI exI; rule refl)

lemma own_names:
  "list_all (\<lambda>ops. is_this_charset ops (cs_name ops) = Some 0) (Charsets T)"
  by (simp add: Charsets_def ops_defs) code_simp

lemma test_of_upper_name:
  assumes "ops \<in> set (Charsets T)" and "upper_name cs = Some name"
  shows "is_this_charset ops cs = is_this_charset ops name \<and> is_this_charset ops cs \<noteq> None"
  using assms tests_of_table [of T] upper_name_idem [OF assms(2)]
  by (auto simp: list_all_iff name_test_def dest!: bspec)

lemma find_charset_compatible:
  "find_charset L k cs = Some (Some i) \<Longrightarrow> compatible_loop L k cs i = Some True \<and> k \<le> i \<and> i < k + length L"
  by (induction L k cs rule: find_charset.induct) (auto split: option.splits if_splits)

lemma find_name_compatible:
  assumes "\<forall>ops \<in> set L. is_this_charset ops cs \<noteq> None \<and> (cs_name ops = name \<longrightarrow> is_this_charset ops cs = Some 0)"
    and "find_name L k name = Some i"
  shows "compatible_loop L k cs i = Some True \<and> k \<le> i \<and> i < k + length L"
  using assms by (induction L k name rule: find_name.induct) (auto split: option.splits if_splits)

lemma GetCharsetOpsEx_compatible:
  assumes "GetCharsetOpsEx T cs = Some (Some i)"
  shows "IsCompatibleCharset T cs i = Some True \<and> i < length (Charsets T)"
proof -
  from assms obtain name where name: "upper_name cs = Some name" and i: "find_name (Charsets T) 0 name = Some i"
    by (auto simp: GetCharsetOpsEx_def)
  have "\<forall>ops \<in> set (Charsets T). is_this_charset ops cs \<noteq> None
      \<and> (cs_name ops = name \<longrightarrow> is_this_charset ops cs = Some 0)"
  proof
    fix ops assume ops: "ops \<in> set (Charsets T)"
    then have "is_this_charset ops (cs_name ops) = Some 0" using own_names [of T] by (simp add: list_all_iff)
    then show "is_this_charset ops cs \<noteq> None \<and> (cs_name ops = name \<longrightarrow> is_this_charset ops cs = Some 0)"
      using test_of_upper_name [OF ops name] by metis
  qed
  from find_name_compatible [OF this i] show ?thesis by (simp add: IsCompatibleCharset_def)
qed

lemma GetCharsetOps_compatible:
  "GetCharsetOps T cs = Some (Some i) \<Longrightarrow> IsCompatibleCharset T cs i = Some True \<and> i < length (Charsets T)"
  by (auto simp: GetCharsetOps_def IsCompatibleCharset_def dest: find_charset_compatible)

lemma length_Charsets: "length (Charsets T) = 28"
  by (simp add: Charsets_def)

text \<open>The lookups see of the table only the tests and the names.\<close>

definition tests_in_order :: "(string \<Rightarrow> int option) list" where
  "tests_in_order =
     [ascii_is_this_charset, iso8859_16_is_this_charset, iso8859_15_is_this_charset,
      iso8859_14_is_this_charset, iso8859_13_is_this_charset, iso8859_11_is_this_charset,
      iso8859_10_is_this_charset, iso8859_9_is_this_charset, iso8859_8_is_this_charset,
      iso8859_7_is_this_charset, iso8859_6_is_this_charset, iso8859_5_is_this_charset,
      iso8859_4_is_this_charset, iso8859_3_is_this_charset, iso8859_2_is_this_charset,
      iso8859_1_is_this_charset, gb18030_0_is_this_charset, gbk_is_this_charset,
      gb2312_0_is_this_charset, big5_is_this_charset, ksc5601_0_is_this_charset,
      jisx0201_0_is_this_charset, jisx0208_0_is_this_charset, jisx0201_1_is_this_charset,
      jisx0208_1_is_this_charset, utf8_is_this_charset, utf16le_is_this_charset,
      utf16be_is_this_charset]"

definition names_in_order :: "string list" where
  "names_in_order =
     [''US-ASCII'', ''ISO8859-16'', ''ISO8859-15'', ''ISO8859-14'', ''ISO8859-13'',
      ''ISO8859-11'', ''ISO8859-10'', ''ISO8859-9'', ''ISO8859-8'', ''ISO8859-7'',
      ''ISO8859-6'', ''ISO8859-5'', ''ISO8859-4'', ''ISO8859-3'', ''ISO8859-2'',
      ''ISO8859-1'', ''GB18030-0'', ''GBK'', ''GB2312-0'', ''BIG5'',
      ''EUC-KR'', ''JISX0201-0'', ''JISX0208-0'', ''JISX0201-1'', ''JISX0208-1'',
      ''UTF-8'', ''UTF-16LE'', ''UTF-16BE'']"

fun first_accepting :: "(string \<Rightarrow> int option) list \<Rightarrow> nat \<Rightarrow> string \<Rightarrow> nat option option" where
  "first_accepting [] i charset = Some None"
| "first_accepting (t # ts) i charset =
     (case t charset of
        None \<Rightarrow> None
      | Some r \<Rightarrow> if r = 0 then Some (Some i) else first_accepting ts (i + 1) charset)"

fun first_named :: "string list \<Rightarrow> nat \<Rightarrow> string \<Rightarrow> nat option" where
  "first_named [] i name = None"
| "first_named (x # xs) i name = (if x = name then Some i else first_named xs (i + 1) name)"

lemma find_charset_tests: "find_charset L k cs = first_accepting (map is_this_charset L) k cs"
  by (induction L k cs rule: find_charset.induct) (auto split: option.split)

lemma find_name_names: "find_name L k name = first_named (map cs_name L) k name"
  by (induction L k name rule: find_name.induct) auto

lemma table_in_order:
  "map is_this_charset (Charsets T) = tests_in_order" "map cs_name (Charsets T) = names_in_order"
  by (simp_all add: Charsets_def ops_defs tests_in_order_def names_in_order_def)

lemma lookup_of_names:
  "map (\<lambda>ops. GetCharsetOpsEx T (cs_name ops)) (Charsets T) = map (\<lambda>i. Some (Some i)) [0..<28]"
  "map (\<lambda>ops. GetCharsetOps T (cs_name ops)) (Charsets T)
     = map (\<lambda>i. Some (Some i)) ([0..<17] @ [16, 16] @ [19..<28])"
proof -
  have "map (\<lambda>n. map_option (first_named names_in_order 0) (upper_name n)) names_in_order
      = map (\<lambda>i. Some (Some i)) [0..<28]"
    by code_simp
  then show "map (\<lambda>ops. GetCharsetOpsEx T (cs_name ops)) (Charsets T) = map (\<lambda>i. Some (Some i)) [0..<28]"
    unfolding table_in_order(2) [of T, symmetric] map_map comp_def
    by (simp only: GetCharsetOpsEx_def find_name_names [abs_def] table_in_order)
  have "map (\<lambda>n. first_accepting tests_in_order 0 n) names_in_order
      = map (\<lambda>i. Some (Some i)) ([0..<17] @ [16, 16] @ [19..<28])"
    by code_simp
  then show "map (\<lambda>ops. GetCharsetOps T (cs_name ops)) (Charsets T)
      = map (\<lambda>i. Some (Some i)) ([0..<17] @ [16, 16] @ [19..<28])"
    unfolding table_in_order(2) [of T, symmetric] map_map comp_def
    by (simp only: GetCharsetOps_def find_charset_tests table_in_order)
qed

lemma names_too_long: "GetCharsetOps T cs = None \<longleftrightarrow> 15 < length cs"
proof -
  have "find_charset L k cs = None \<longleftrightarrow> L \<noteq> [] \<and> 15 < length cs"
    if "list_all (\<lambda>ops. \<exists>p. is_this_charset ops = name_test p) L" for L k
    using that
    by (induction L arbitrary: k; cases "15 < length cs") (auto simp: name_test_def upper_name_def LEN_FONT_NAME_def)
  from this [OF tests_of_table] show ?thesis by (auto simp: GetCharsetOps_def Charsets_def)
qed

text \<open>Whatever charset either lookup finds for a name is one of the table that accepts the name.  For
  the names of the 28 charsets themselves the exact lookup finds each, and the lookup by the
  tests finds each but GBK and GB2312, for which it finds GB18030, which contains both.  Every name of
  more than 15 characters makes the lookups write behind their array.\<close>

theorem lookup_finds_compatible:
  "{i. GetCharsetOps T cs = Some (Some i) \<or> GetCharsetOpsEx T cs = Some (Some i)}
     \<subseteq> {i. IsCompatibleCharset T cs i = Some True \<and> i < 28}
   \<and> map (\<lambda>ops. GetCharsetOpsEx T (cs_name ops)) (Charsets T) = map (\<lambda>i. Some (Some i)) [0..<28]
   \<and> map (\<lambda>ops. GetCharsetOps T (cs_name ops)) (Charsets T) = map (\<lambda>i. Some (Some i)) ([0..<17] @ [16, 16] @ [19..<28])
   \<and> (GetCharsetOps T cs = None \<longleftrightarrow> 15 < length cs)"
proof (intro conjI lookup_of_names names_too_long)
  show "{i. GetCharsetOps T cs = Some (Some i) \<or> GetCharsetOpsEx T cs = Some (Some i)}
     \<subseteq> {i. IsCompatibleCharset T cs i = Some True \<and> i < 28}"
    using GetCharsetOps_compatible [of T cs] GetCharsetOpsEx_compatible [of T cs] by (auto simp: length_Charsets)
qed

end
