(* ===== verification/Spec2Isabelle.thy ===== *)
theory Spec2Isabelle
  imports Region_Props Clipper Shapes Desktop_Proc_Props Desktop_Scroll Win_Paint Win_Frame_Props FixStr BlockHeap Accel_Props Keyboard_Typing Message_Wakeup Message_Reply
    Message_Live
    Charset_SB_Props Charset_Words Charset_Table Charset_Unicode
begin

text \<open>
  \<^bold>\<open>MiniGUI 2.0.4: a verification development.\<close>

  MiniGUI is a window system for embedded devices.  Its windows share a screen through
  clipping regions, keys become accelerators and characters, its threads talk to each other through message queues and timers, these take
  their memory from small allocators of their own, and text reaches the screen through charsets that split
  it into characters.  This development models that core, in the configuration with threads
  and with every charset, and proves what makes each part correct, or exactly where it is not.

  \<^bold>\<open>Parts and theories.\<close>

  \<^item> \<open>MG_Prelude\<close>: collections of theorems and facts on lists the parts share.
  \<^item> Rectangles and clipping regions (\<open>src/newgdi/rect.c\<close>, \<open>src/newgdi/region.c\<close>).  \<open>Rect\<close> has the operations
    on rectangles, \<open>Region\<close> the region as a record of its bounding box, its type and the list of its rectangles, with
    the banded sweep of \<open>REGION_RegionOp\<close> and its three handlers; \<open>Region_Bands\<close>, \<open>Region_Handlers\<close> and
    \<open>Region_Ops\<close> prove the invariant of bands and the set of points of every handler; \<open>Region_Props\<close> states
    that regions simulate sets of points under a whole sequence of operations.
  \<^item> Generators (\<open>src/newgdi/generators.c\<close> and the shapes of \<open>region.c\<close>).  \<open>Generators\<close> models the line clipper and
    the generators of lines, circles, ellipses and arcs as the lists of their callbacks.  \<open>Generators_Props\<close> has the
    points of a line in closed form, \<open>Clipper\<close> the clipper as the clipping of an interval of parameters, which ends and is
    exact, \<open>Circles\<close> the spans of a circle as a set of points, and \<open>Shapes\<close> the regions that are built of such spans.
  \<^item> The desktop (\<open>src/kernel/desktop-comm.c\<close>, \<open>desktop-ths.c\<close>).  \<open>Desktop\<close> has the two Z orders of windows, the clip
    regions of windows and desktop, and the operations that add, show, hide, raise and remove a window or open a menu;
    \<open>Desktop_Msgs\<close> moving a window, the hit test and the handler of the messages to the desktop, \<open>Desktop_Input\<close> the handlers of
    mouse and keyboard.  \<open>Desktop_Clip\<close> relates the clipping of regions to sets of points, \<open>Desktop_Inv\<close> states the invariant: each
    visible window has exactly what no window above it and no menu covers.  \<open>Desktop_Ops\<close>, \<open>Desktop_Keep\<close>, \<open>Desktop_Order\<close>,
    \<open>Desktop_Raise\<close> and \<open>Desktop_Steps\<close> show that the operations keep it and what they do to the Z orders,
    \<open>Desktop_Active\<close> what becomes of the active window, \<open>Desktop_Reach\<close> defines the reachable states, and \<open>Desktop_Props\<close> has the properties.
    \<open>Desktop_Proc\<close> adds dragging, hooks, instances of controls and the routing of messages by the desktop's procedure, and
    \<open>Desktop_Proc_Props\<close> shows where a dragged window is dropped and that all of it keeps the invariant; \<open>Desktop_Scroll\<close> has the
    rectangles that scrolling copies and invalidates.
  \<^item> Windows (\<open>src/gui/window.c\<close>, \<open>src/gui/dialog.c\<close>, \<open>src/newgdi/gdi.c\<close>, \<open>src/newgdi/clip.c\<close>).  \<open>Win_Tree\<close> has a main window
    and its controls with the pointers of the code, coordinates, the focus, the lists of children and the search for the next
    control; \<open>Win_Tree_Props\<close> shows that every loop along the pointers returns, that focus and keys reach a control at
    any depth, and that the lists refine lists of HOL.  \<open>Win_Inval\<close> models invalid regions and shows which points
    become invalid.  \<open>Win_DC\<close> has the regions of a device context, the operations that clip and \<open>BeginPaint\<close>, over the
    operations of \<open>Region\<close>; \<open>Win_Paint\<close> shows that no drawing leaves what can be seen and that painting gets exactly what was
    invalid.  \<open>Win_Frame\<close> has the frame and the scroll bars, \<open>Win_Frame_Props\<close> their positions, sizes, parts and drags.
  \<^item> Allocators (\<open>src/kernel/slotset.c\<close>, \<open>blockheap.c\<close>, \<open>fixstr.c\<close>).  \<open>Slot_Alloc\<close> is the interface, a locale: an
    allocator is an abstraction to the set of slots in use, and any sequence of allocations and releases accounts
    for it.  \<open>Slotset\<close>, \<open>BlockHeap\<close> and \<open>FixStr\<close> model the three and interpret the locale.
  \<^item> Timers (\<open>src/kernel/timer.c\<close>).  \<open>Timer\<close> has the table of sixteen timers and its operations,
    \<open>Timer_Props\<close> the locale of a bounded map they implement, \<open>Timer_Clock\<close> the ticks.
  \<^item> Message queues (\<open>src/kernel/message.c\<close> and the parts of \<open>window.c\<close> they use).  \<open>MsgRing\<close> is one queue: the
    ring of posted messages, the list of notifications, the list of synchronous messages and the flags;
    \<open>MsgRing_Spec\<close> relates the ring to a bounded list.  \<open>GuiState\<close> is the state of all threads, \<open>Message\<close> and
    \<open>Message_Sync\<close> the operations on it; loops that wait are partial functions over a stream of what other threads
    do meanwhile.  \<open>Message_Inv\<close> and \<open>Message_Steps\<close> have the invariant and its preservation,
    \<open>Message_Props\<close>, \<open>Message_Wakeup\<close>, \<open>Message_Order\<close> and \<open>Message_Reply\<close> the properties: bounded queues, no lost
    wakeup, first in first out, and the reply that reaches the sender.
    \<open>Message_Live\<close> shows that a notification is delivered whatever else is posted.
  \<^item> Keys.  \<open>Keys\<close> has the bits of the modifiers (\<open>include/common.h\<close>).  \<open>Accel\<close> models the tables of accelerators
    (\<open>src/gui/accelkey.c\<close>) on two block heaps, and \<open>Accel_Props\<close> shows which blocks they use, which key presses
    an accelerator answers and when a table can be copied.  \<open>Keyboard\<close> is the translation of scan codes
    (\<open>src/gui/keyboard.c\<close>) with the tables of a layout as a record, \<open>Keyboard_Default\<close> the default layout
    (\<open>defkeymap.c\<close>); \<open>Keyboard_Props\<close> shows where the translation leaves its arrays and that characters are stored in
    UTF-8, \<open>Keyboard_Typing\<close> what sequences of keys type and how the bytes reach the window's queue.
  \<^item> Charsets (\<open>src/font/charset.c\<close>).  \<open>Charset_Base\<close> has the record of operations, the types of characters,
    the operations of single byte charsets and the tests of names; \<open>Charset_SB\<close> the conversions of ASCII and ISO8859,
    \<open>Charset_DB\<close> the double byte charsets and GB18030, \<open>Charset_UTF\<close> UTF-8 and UTF-16, \<open>Charsets\<close> the
    28 sets of operations and the lookup.  \<open>Charset_SB_Props\<close> shows which characters a conversion loses or
    confuses, \<open>Charset_Words\<close> how text is split into words, \<open>Charset_Props\<close> that the loops agree with the
    operation on one character and that offsets number the characters, \<open>Charset_Table\<close> what holds over the whole
    table, \<open>Charset_Unicode\<close> the round trips of Unicode and when the counting loops return.

  \<^bold>\<open>Interfaces.\<close>  The locales are \<open>slot_allocator\<close>, \<open>bounded_map\<close>, \<open>fifo\<close>, \<open>table_charset\<close>, \<open>switch_charset\<close>,
  \<open>double_byte\<close> and \<open>numbered_charset\<close>; each is interpreted on the definitions of the code that provide it.

  \<^bold>\<open>Conventions and bounds.\<close>  C arrays are lists, memory behind a pointer to bytes is a function of the
  distance, pointers to objects are numbers or indices, and NULL is \<open>0\<close> or \<open>None\<close>.  Coordinates are integers in which
  the code does no arithmetic that overflows on screens of the sizes it supports; tick counts wrap at their
  width.  Bytes are words of eight bits.  Results of \<open>malloc\<close>, of the window procedure and of the clock are
  parameters.  A loop that may not end is a partial function whose \<open>None\<close> is that it does not return; no fuel is used.
  The configuration fixes the sizes the code fixes: 16 timers, messages and slots as in \<open>internals.h\<close>, ten heaps
  of fixed strings, and names of charsets of 15 characters.

  A window is its address, \<open>0\<close> being NULL and the desktop; the region of window \<open>w\<close> is \<open>Heap w\<close>.  The desktop
  records the messages it sends; what a window procedure answers to a change of size, whether a hook stops an event, and what the tracking of a
  popup menu does with it are parameters.  \<open>allowed\<close> states what \<open>window.c\<close> guarantees of a message to the desktop, \<open>active_alive\<close> that the active window is one of a
  Z order.  The messages that the operations on controls send to window procedures are recorded, not run.  The metrics of frames
  and the rounding of floats are parameters; \<open>float_rounding\<close> is what a float of 24 bits promises, enough for
  bars shorter than \<open>2 ^ 20\<close> pixels.  Memory for the rectangles of a region suffices.

  \<^bold>\<open>Not modelled.\<close>  The default procedures of windows (drawing of frames, captions and icons, the dispatch of the mouse to controls), the creation of
  windows, the sessions and the menu of the desktop, menus, and the procedures of dialogs and controls; the output of pixels, its
  engines, pens, text and mapping modes; input drivers, fonts, input methods, the processes of the
  other configurations, and configuration files.  Window procedures draw as they go and run the application's procedures in
  between, so that they need a model of the pixels and of the application; the engines and drivers are device
  code; the glyphs and the tables of code points are data, of which the tables are parameters of the charsets, and the
  other keyboard layouts are generated tables, of which the properties of keys hold all the same.
\<close>

end
